(* ===== verification/Prelude.thy ===== *)
theory Prelude
  imports Complex_Main "HOL-Library.Multiset" "HOL-Library.Sublist" "HOL-Library.Char_ord"
    "HOL-Library.List_Lexorder"
begin

text \<open>
  What the components share: the collections the component lemmas are declared into, the
  JavaScript list operations the source uses everywhere (\<open>indexOf\<close>, an index read that may be
  out of range, a stable \<open>sort\<close> by a comparator, \<open>filter\<close> over a \<open>Set\<close> of what was seen), and
  their laws. Nothing here is about one component.
\<close>

named_theorems step_simps \<open>equations of the components' operations, for case analysis over a step\<close>
named_theorems inv_intros \<open>one-step invariant lemmas\<close>

section \<open>Index reads and searches\<close>

text \<open>\<open>xs[i]\<close>: \<open>undefined\<close> (here \<open>None\<close>) outside the array, negative indices included.\<close>

definition js_at :: "'a list \<Rightarrow> int \<Rightarrow> 'a option" where
  "js_at xs i = (if 0 \<le> i \<and> i < int (length xs) then Some (xs ! nat i) else None)"

lemma js_at_Some_iff: "js_at xs i = Some x \<longleftrightarrow> 0 \<le> i \<and> nat i < length xs \<and> xs ! nat i = x"
  by (auto simp: js_at_def nat_less_iff)

lemma js_at_in_set: "js_at xs i = Some x \<Longrightarrow> x \<in> set xs"
  by (auto simp: js_at_Some_iff)

lemma js_at_last: "xs \<noteq> [] \<Longrightarrow> js_at xs (int (length xs) - 1) = Some (last xs)"
  by (cases xs rule: rev_cases) (simp_all add: js_at_def nth_append)

lemma js_at_hd: "xs \<noteq> [] \<Longrightarrow> js_at xs 0 = Some (hd xs)"
  by (simp add: js_at_def hd_conv_nth)

text \<open>The first position of an element (\<open>indexOf\<close>, \<open>findIndex\<close>); \<open>None\<close> where the source gets -1.\<close>

fun index_of :: "'a \<Rightarrow> 'a list \<Rightarrow> nat option" where
  "index_of x [] = None"
| "index_of x (y # ys) = (if y = x then Some 0 else map_option Suc (index_of x ys))"

definition js_index :: "'a list \<Rightarrow> 'a \<Rightarrow> int" where
  "js_index xs x = (case index_of x xs of None \<Rightarrow> -1 | Some n \<Rightarrow> int n)"

lemma index_of_None: "index_of x xs = None \<longleftrightarrow> x \<notin> set xs"
  by (induction xs) auto

lemma index_of_notin [simp]: "x \<notin> set xs \<Longrightarrow> index_of x xs = None"
  by (simp add: index_of_None)

lemma index_of_SomeD: "index_of x xs = Some n \<Longrightarrow> n < length xs \<and> xs ! n = x"
  by (induction xs arbitrary: n) (auto split: if_splits)

lemma index_of_mem: "x \<in> set xs \<Longrightarrow> \<exists>n. index_of x xs = Some n"
  by (metis index_of_None not_None_eq)

lemma index_of_first: "index_of x xs = Some n \<Longrightarrow> x \<notin> set (take n xs)"
  by (induction xs arbitrary: n) (auto split: if_splits)

lemma index_of_nth: "distinct xs \<Longrightarrow> n < length xs \<Longrightarrow> index_of (xs ! n) xs = Some n"
  by (induction xs arbitrary: n) (auto simp: nth_Cons split: nat.splits)

lemma index_of_append:
  "index_of x (xs @ ys) = (case index_of x xs of Some n \<Rightarrow> Some n
     | None \<Rightarrow> map_option (\<lambda>n. length xs + n) (index_of x ys))"
proof (induction xs)
  case Nil
  then show ?case by (cases "index_of x ys") simp_all
next
  case (Cons a xs)
  then show ?case
    by (cases "index_of x xs"; cases "index_of x ys") simp_all
qed

lemma index_of_eq_iff:
  "index_of x xs = Some i \<Longrightarrow> index_of y xs = Some i \<Longrightarrow> x = y"
  by (metis index_of_SomeD)

section \<open>A stable sort by a comparator\<close>

text \<open>
  \<open>Array.prototype.sort(cmp)\<close>: for a consistent comparator the language fixes the result, the
  stable sort, and insertion from the right computes it.
\<close>

fun js_insert :: "('a \<Rightarrow> 'a \<Rightarrow> int) \<Rightarrow> 'a \<Rightarrow> 'a list \<Rightarrow> 'a list" where
  "js_insert cmp x [] = [x]"
| "js_insert cmp x (y # ys) = (if cmp x y \<le> 0 then x # y # ys else y # js_insert cmp x ys)"

definition js_sort :: "('a \<Rightarrow> 'a \<Rightarrow> int) \<Rightarrow> 'a list \<Rightarrow> 'a list" where
  "js_sort cmp xs = foldr (js_insert cmp) xs []"

lemma mset_js_insert [simp]: "mset (js_insert cmp x xs) = add_mset x (mset xs)"
  by (induction xs) auto

lemma mset_js_sort [simp]: "mset (js_sort cmp xs) = mset xs"
  by (induction xs) (auto simp: js_sort_def)

lemma set_js_sort [simp]: "set (js_sort cmp xs) = set xs"
  by (metis mset_js_sort set_mset_mset)

lemma length_js_sort [simp]: "length (js_sort cmp xs) = length xs"
  by (metis mset_js_sort size_mset)

lemma distinct_js_sort [simp]: "distinct (js_sort cmp xs) = distinct xs"
  by (metis mset_js_sort mset_eq_imp_distinct_iff)

lemma js_insert_insort_key:
  assumes "\<And>a b. (cmp a b \<le> 0) = (f a \<le> (f b :: 'k::linorder))"
  shows "js_insert cmp x xs = insort_key f x xs"
  by (induction xs) (auto simp: assms)

text \<open>A comparator that orders by a key is the library's stable sort by that key.\<close>

lemma js_sort_sort_key:
  assumes "\<And>a b. (cmp a b \<le> 0) = (f a \<le> (f b :: 'k::linorder))"
  shows "js_sort cmp xs = sort_key f xs"
  unfolding js_sort_def sort_key_def
  by (rule arg_cong [where f = "\<lambda>g. foldr g xs []"], intro ext)
    (simp add: js_insert_insort_key [where f = f, OF assms])

text \<open>A comparator that is a total order sorts by it.\<close>

lemma js_insert_sorted:
  assumes "\<And>a b. le a b \<longleftrightarrow> cmp a b \<le> 0" "\<And>a b. le a b \<or> le b a" "\<And>a b c. le a b \<Longrightarrow> le b c \<Longrightarrow> le a c"
    and "sorted_wrt le xs"
  shows "sorted_wrt le (js_insert cmp x xs)"
  using assms(4)
proof (induction xs)
  case Nil
  then show ?case by simp
next
  case (Cons y ys)
  have set: "set (js_insert cmp x ys) = insert x (set ys)"
    by (metis mset_js_insert set_mset_add_mset_insert set_mset_mset)
  show ?case
  proof (cases "cmp x y \<le> 0")
    case True
    then have "le x y" using assms(1) by blast
    then show ?thesis using True Cons.prems assms(3) by auto
  next
    case False
    then have "le y x" using assms(1,2) by blast
    then show ?thesis using False Cons set by auto
  qed
qed

lemma js_sort_sorted:
  assumes "\<And>a b. le a b \<longleftrightarrow> cmp a b \<le> 0" "\<And>a b. le a b \<or> le b a" "\<And>a b c. le a b \<Longrightarrow> le b c \<Longrightarrow> le a c"
  shows "sorted_wrt le (js_sort cmp xs)"
proof (induction xs)
  case Nil
  then show ?case by (simp add: js_sort_def)
next
  case (Cons x xs)
  then show ?case using js_insert_sorted [where le = le, OF assms] by (simp add: js_sort_def)
qed

lemma filter_sort_key_stable:
  "filter (\<lambda>x. f x = k) (sort_key f xs) = filter (\<lambda>x. f x = k) xs"
  by (rule sort_key_stable)

section \<open>Lists without their repetitions\<close>

text \<open>\<open>[...new Set(xs)]\<close>: each element at its first place.\<close>

fun uniq_go :: "'a list \<Rightarrow> 'a list \<Rightarrow> 'a list" where
  "uniq_go seen [] = []"
| "uniq_go seen (x # xs) = (if x \<in> set seen then uniq_go seen xs else x # uniq_go (x # seen) xs)"

definition js_uniq :: "'a list \<Rightarrow> 'a list" where
  "js_uniq xs = uniq_go [] xs"

lemma set_uniq_go: "set (uniq_go seen xs) = set xs - set seen"
  by (induction seen xs rule: uniq_go.induct) auto

lemma distinct_uniq_go: "distinct (uniq_go seen xs)"
  by (induction seen xs rule: uniq_go.induct) (auto simp: set_uniq_go)

lemma set_js_uniq [simp]: "set (js_uniq xs) = set xs"
  by (simp add: js_uniq_def set_uniq_go)

lemma distinct_js_uniq [simp]: "distinct (js_uniq xs)"
  by (simp add: js_uniq_def distinct_uniq_go)

lemma uniq_go_distinct: "distinct xs \<Longrightarrow> set xs \<inter> set seen = {} \<Longrightarrow> uniq_go seen xs = xs"
  by (induction seen xs rule: uniq_go.induct) auto

lemma js_uniq_distinct [simp]: "distinct xs \<Longrightarrow> js_uniq xs = xs"
  by (simp add: js_uniq_def uniq_go_distinct)

lemma subseq_uniq_go: "subseq (uniq_go seen xs) xs"
  by (induction seen xs rule: uniq_go.induct) (auto intro: list_emb_Cons)

section \<open>Filters and permutations\<close>

lemma filter_neq_notin: "x \<notin> set (filter (\<lambda>k. k \<noteq> x) xs)"
  by auto

lemma filter_neq_id [simp]: "x \<notin> set xs \<Longrightarrow> filter (\<lambda>k. k \<noteq> x) xs = xs"
  by (induction xs) auto

lemma filter_neq_remove1: "distinct xs \<Longrightarrow> filter (\<lambda>k. k \<noteq> x) xs = remove1 x xs"
  by (induction xs) auto

lemma mset_take_insert_drop: "mset (take n xs @ x # drop n xs) = add_mset x (mset xs)"
proof -
  have "mset (take n xs) + mset (drop n xs) = mset xs"
    by (simp only: mset_append [symmetric] append_take_drop_id)
  then show ?thesis by simp
qed

lemma filter_take_insert_drop:
  "\<not> P x \<Longrightarrow> filter P (take n xs @ x # drop n xs) = filter P xs"
proof -
  assume "\<not> P x"
  then have "filter P (take n xs @ x # drop n xs) = filter P (take n xs @ drop n xs)"
    by (simp only: filter_append filter.simps if_False)
  then show ?thesis by (simp only: append_take_drop_id)
qed

lemma filter_neq_insert_back:
  "filter (\<lambda>k. k \<noteq> x) (take n (filter (\<lambda>k. k \<noteq> x) xs) @ x # drop n (filter (\<lambda>k. k \<noteq> x) xs)) =
   filter (\<lambda>k. k \<noteq> x) xs"
  by (subst filter_take_insert_drop) (simp_all add: filter_neq_notin)

lemma length_filter_partition:
  "length (filter P xs) + length (filter (\<lambda>x. \<not> P x) xs) = length xs"
  by (rule sum_length_filter_compl)

lemma count_list_concat: "count_list (concat xss) x = sum_list (map (\<lambda>xs. count_list xs x) xss)"
  by (induction xss) auto

section \<open>Sets kept in the order of their first addition, and the first of a list\<close>

text \<open>\<open>set.add\<close> and \<open>set.delete\<close>.\<close>

definition set_add :: "'a \<Rightarrow> 'a list \<Rightarrow> 'a list" where
  "set_add x xs = (if x \<in> set xs then xs else xs @ [x])"

definition set_del :: "'a \<Rightarrow> 'a list \<Rightarrow> 'a list" where
  "set_del x xs = filter (\<lambda>y. y \<noteq> x) xs"

lemma set_set_add [simp]: "set (set_add x xs) = insert x (set xs)"
  by (auto simp: set_add_def)

lemma set_set_del [simp]: "set (set_del x xs) = set xs - {x}"
  by (auto simp: set_del_def)

lemma distinct_set_add [simp]: "distinct xs \<Longrightarrow> distinct (set_add x xs)"
  by (auto simp: set_add_def)

lemma distinct_set_del [simp]: "distinct xs \<Longrightarrow> distinct (set_del x xs)"
  by (auto simp: set_del_def)

lemma find_SomeD: "find P xs = Some x \<Longrightarrow> x \<in> set xs \<and> P x"
  by (induction xs) (auto split: if_splits)

lemma find_NoneD: "find P xs = None \<Longrightarrow> x \<in> set xs \<Longrightarrow> \<not> P x"
  by (induction xs) (auto split: if_splits)

lemma find_filter: "(\<And>x. P x \<Longrightarrow> Q x) \<Longrightarrow> find P (filter Q xs) = find P xs"
  by (induction xs) auto

end
