(* ===== verification/JsValue.thy ===== *)
theory JsValue
  imports Prelude
begin

text \<open>
  The values of the language the source is written in, as far as the source uses them: what
  \<open>JSON.parse\<close> can hand to a module (\<open>js\<close>), the conversions \<open>String(x)\<close> and \<open>Number(x)\<close>, the
  truth of a value, \<open>??\<close> and \<open>?.\<close>, and the string operations. Numbers are exact rationals: the
  source's figures are integers, powers of two and short decimals, and a double's rounding is not
  modelled. A string is a list of 8-bit characters; white space and letter case are the ASCII ones.
\<close>

section \<open>Strings\<close>

definition is_ws :: "char \<Rightarrow> bool" where
  "is_ws c = (let n = (of_char c :: nat) in n = 32 \<or> (9 \<le> n \<and> n \<le> 13))"

definition is_digit :: "char \<Rightarrow> bool" where
  "is_digit c = (let n = (of_char c :: nat) in 48 \<le> n \<and> n \<le> 57)"

definition digit_val :: "char \<Rightarrow> nat" where
  "digit_val c = of_char c - 48"

definition digit_char :: "nat \<Rightarrow> char" where
  "digit_char d = char_of (48 + d)"

definition trim_start :: "string \<Rightarrow> string" where
  "trim_start s = dropWhile is_ws s"

definition trim_end :: "string \<Rightarrow> string" where
  "trim_end s = rev (dropWhile is_ws (rev s))"

definition js_trim :: "string \<Rightarrow> string" where
  "js_trim s = trim_end (trim_start s)"

definition lower_char :: "char \<Rightarrow> char" where
  "lower_char c = (let n = (of_char c :: nat) in if 65 \<le> n \<and> n \<le> 90 then char_of (n + 32) else c)"

definition js_lower :: "string \<Rightarrow> string" where
  "js_lower s = map lower_char s"

text \<open>\<open>s.split(c)\<close> for a separator of one character, and for a class of characters.\<close>

fun split_by :: "(char \<Rightarrow> bool) \<Rightarrow> string \<Rightarrow> string list" where
  "split_by p [] = [[]]"
| "split_by p (c # cs) =
     (if p c then [] # split_by p cs
      else case split_by p cs of [] \<Rightarrow> [[c]] | w # ws \<Rightarrow> (c # w) # ws)"

definition js_split :: "char \<Rightarrow> string \<Rightarrow> string list" where
  "js_split c s = split_by (\<lambda>x. x = c) s"

text \<open>\<open>s.trim().split(/\s+/).filter(Boolean)\<close>: the words of a text.\<close>

definition js_words :: "string \<Rightarrow> string list" where
  "js_words s = filter (\<lambda>w. w \<noteq> []) (split_by is_ws s)"

fun js_join :: "string \<Rightarrow> string list \<Rightarrow> string" where
  "js_join sep [] = []"
| "js_join sep [x] = x"
| "js_join sep (x # y # ys) = x @ sep @ js_join sep (y # ys)"

definition pad_start :: "nat \<Rightarrow> char \<Rightarrow> string \<Rightarrow> string" where
  "pad_start n c s = replicate (n - length s) c @ s"

lemma trim_no_ws: "\<forall>c \<in> set s. \<not> is_ws c \<Longrightarrow> js_trim s = s"
proof -
  assume a: "\<forall>c \<in> set s. \<not> is_ws c"
  then have "dropWhile is_ws s = s" "dropWhile is_ws (rev s) = rev s"
    by (cases s; simp) (metis a dropWhile_eq_self_iff empty_iff empty_set hd_in_set set_rev)
  then show ?thesis by (simp add: js_trim_def trim_start_def trim_end_def)
qed

lemma trim_ends:
  assumes "js_trim s \<noteq> []"
  shows "\<not> is_ws (hd (js_trim s))" "\<not> is_ws (last (js_trim s))"
proof -
  let ?r = "dropWhile is_ws s"
  have t: "js_trim s = rev (dropWhile is_ws (rev ?r))"
    by (simp add: js_trim_def trim_start_def trim_end_def)
  show "\<not> is_ws (last (js_trim s))"
  proof -
    have "dropWhile is_ws (rev ?r) \<noteq> []" using assms by (simp only: t rev_is_Nil_conv not_False_eq_True)
    then show ?thesis using hd_dropWhile by (simp only: t last_rev)
  qed
  have ne: "?r \<noteq> []" using assms by (metis t dropWhile.simps(1) rev.simps(1))
  have "rev ?r = takeWhile is_ws (rev ?r) @ dropWhile is_ws (rev ?r)" by simp
  then have "?r = js_trim s @ rev (takeWhile is_ws (rev ?r))"
    by (metis rev_append rev_rev_ident t)
  then have "hd ?r = hd (js_trim s)" using assms by (metis hd_append2)
  then show "\<not> is_ws (hd (js_trim s))"
    using hd_dropWhile [OF ne] by simp
qed

lemma trim_fixed: "s \<noteq> [] \<Longrightarrow> \<not> is_ws (hd s) \<Longrightarrow> \<not> is_ws (last s) \<Longrightarrow> js_trim s = s"
proof -
  assume "s \<noteq> []" "\<not> is_ws (hd s)" "\<not> is_ws (last s)"
  then have "dropWhile is_ws s = s" "dropWhile is_ws (rev s) = rev s"
    by (simp_all add: dropWhile_eq_self_iff hd_rev)
  then show ?thesis by (simp add: js_trim_def trim_start_def trim_end_def)
qed

lemma trim_trim [simp]: "js_trim (js_trim s) = js_trim s"
proof (cases "js_trim s = []")
  case True
  then show ?thesis using trim_no_ws [of "[]"] by simp
next
  case False
  then show ?thesis using trim_ends trim_fixed by blast
qed

lemma trim_chars: "c \<in> set (js_trim s) \<Longrightarrow> c \<in> set s"
proof -
  assume "c \<in> set (js_trim s)"
  then have "c \<in> set (dropWhile is_ws (rev (dropWhile is_ws s)))"
    by (simp only: js_trim_def trim_start_def trim_end_def set_rev)
  then have "c \<in> set (dropWhile is_ws s)" using set_dropWhileD set_rev by metis
  then show "c \<in> set s" by (rule set_dropWhileD)
qed

lemma split_by_not_Nil [simp]: "split_by p s \<noteq> []"
  by (cases s) (auto split: list.splits)

lemma split_by_no_sep: "\<forall>c \<in> set s. \<not> p c \<Longrightarrow> split_by p s = [s]"
  by (induction s) auto

lemma split_by_append_sep:
  "\<forall>c \<in> set w. \<not> p c \<Longrightarrow> p x \<Longrightarrow> split_by p (w @ x # s) = w # split_by p s"
  by (induction w) auto

lemma split_by_join:
  "ws \<noteq> [] \<Longrightarrow> p x \<Longrightarrow> \<forall>w \<in> set ws. \<forall>c \<in> set w. \<not> p c \<Longrightarrow> split_by p (js_join [x] ws) = ws"
proof (induction ws rule: induct_list012)
  case (2 w)
  then show ?case by (auto intro: split_by_no_sep)
next
  case (3 v w ws)
  then show ?case by (simp add: split_by_append_sep)
qed simp

lemma split_by_pieces: "w \<in> set (split_by p s) \<Longrightarrow> c \<in> set w \<Longrightarrow> \<not> p c"
proof (induction s arbitrary: w)
  case Nil
  then show ?case by simp
next
  case (Cons a s)
  obtain v vs where v: "split_by p s = v # vs" by (cases "split_by p s") auto
  show ?case
  proof (cases "p a")
    case True
    with Cons show ?thesis by auto
  next
    case False
    with Cons.prems v have "w = a # v \<or> w \<in> set vs" by auto
    with Cons.IH Cons.prems(2) False v show ?thesis by (metis list.set_intros set_ConsD)
  qed
qed

lemma js_words_word: "w \<in> set (js_words s) \<Longrightarrow> w \<noteq> [] \<and> (\<forall>c \<in> set w. \<not> is_ws c)"
  using split_by_pieces by (fastforce simp: js_words_def)

lemma js_words_cons_ws: "is_ws x \<Longrightarrow> js_words (x # s) = js_words s"
  by (simp add: js_words_def)

lemma js_words_append_ws:
  "w \<noteq> [] \<Longrightarrow> \<forall>c \<in> set w. \<not> is_ws c \<Longrightarrow> is_ws x \<Longrightarrow> js_words (w @ x # s) = w # js_words s"
  by (simp add: js_words_def split_by_append_sep)

lemma js_words_single: "w \<noteq> [] \<Longrightarrow> \<forall>c \<in> set w. \<not> is_ws c \<Longrightarrow> js_words w = [w]"
  by (simp add: js_words_def split_by_no_sep)

lemma js_words_Nil [simp]: "js_words [] = []"
  by (simp add: js_words_def)

section \<open>Decimal numerals\<close>

fun nat_str :: "nat \<Rightarrow> string" where
  "nat_str n = (if n < 10 then [digit_char n] else nat_str (n div 10) @ [digit_char (n mod 10)])"

declare nat_str.simps [simp del]

definition int_str :: "int \<Rightarrow> string" where
  "int_str i = (if i < 0 then CHR ''-'' # nat_str (nat (- i)) else nat_str (nat i))"

text \<open>\<open>String(n).padStart(2, "0")\<close>.\<close>

definition pad2 :: "nat \<Rightarrow> string" where
  "pad2 n = pad_start 2 CHR ''0'' (nat_str n)"

definition digits_val :: "string \<Rightarrow> nat" where
  "digits_val s = foldl (\<lambda>a c. 10 * a + digit_val c) 0 s"

lemma of_char_digit_char: "d < 10 \<Longrightarrow> (of_char (digit_char d) :: nat) = 48 + d"
  by (simp add: digit_char_def)

lemma is_digit_digit_char [simp]: "d < 10 \<Longrightarrow> is_digit (digit_char d)"
  by (simp add: is_digit_def of_char_digit_char Let_def)

lemma digit_val_digit_char [simp]: "d < 10 \<Longrightarrow> digit_val (digit_char d) = d"
  by (simp add: digit_val_def of_char_digit_char)

lemma digits_val_snoc [simp]: "digits_val (s @ [c]) = 10 * digits_val s + digit_val c"
  by (simp add: digits_val_def)

lemma nat_str_digits: "c \<in> set (nat_str n) \<Longrightarrow> is_digit c"
proof (induction n rule: nat_str.induct)
  case (1 n)
  then show ?case by (cases "n < 10") (auto simp: nat_str.simps [of n])
qed

lemma nat_str_not_Nil [simp]: "nat_str n \<noteq> []"
  by (simp add: nat_str.simps [of n])

text \<open>Reading back what was printed.\<close>

lemma digits_val_nat_str [simp]: "digits_val (nat_str n) = n"
proof (induction n rule: nat_str.induct)
  case (1 n)
  show ?case
  proof (cases "n < 10")
    case True
    then show ?thesis by (simp add: nat_str.simps [of n] digits_val_def)
  next
    case False
    with 1 show ?thesis by (simp add: nat_str.simps [of n])
  qed
qed

lemma nat_str_inj: "nat_str m = nat_str n \<Longrightarrow> m = n"
  by (metis digits_val_nat_str)

lemma is_digit_not: "is_digit c \<Longrightarrow> c \<noteq> CHR '':'' \<and> c \<noteq> CHR ''-'' \<and> c \<noteq> CHR ''.'' \<and> \<not> is_ws c"
  by (auto simp: is_digit_def is_ws_def Let_def)

lemma length_nat_str_lt10: "n < 10 \<Longrightarrow> nat_str n = [digit_char n]"
  by (simp add: nat_str.simps [of n])

lemma nat_str_lt100:
  "10 \<le> n \<Longrightarrow> n < 100 \<Longrightarrow> nat_str n = [digit_char (n div 10), digit_char (n mod 10)]"
  by (simp add: nat_str.simps [of n] nat_str.simps [of "n div 10"])

lemma digit_char_0: "digit_char 0 = CHR ''0''"
  by code_simp

lemma pad2_lt100: "n < 100 \<Longrightarrow> pad2 n = [digit_char (n div 10), digit_char (n mod 10)]"
  by (cases "n < 10")
    (simp_all add: pad2_def pad_start_def length_nat_str_lt10 nat_str_lt100 digit_char_0)

section \<open>Numbers\<close>

datatype jnum = NaN | Inf bool \<comment> \<open>\<open>Inf True\<close> is minus infinity\<close> | Fin rat

definition rat_int :: "rat \<Rightarrow> bool" where
  "rat_int r = (of_int \<lfloor>r\<rfloor> = r)"

text \<open>\<open>Math.round\<close>, and \<open>x.toFixed(f)\<close> for a value below 10 to the 21: halves go up.\<close>

definition js_round :: "rat \<Rightarrow> int" where
  "js_round r = \<lfloor>r + 1 / 2\<rfloor>"

text \<open>\<open>a % b\<close> for a positive \<open>b\<close>: the remainder of the division that cuts towards zero.\<close>

definition js_rem :: "rat \<Rightarrow> rat \<Rightarrow> rat" where
  "js_rem a b = (if a < 0 then - (- a - b * of_int \<lfloor>- a / b\<rfloor>) else a - b * of_int \<lfloor>a / b\<rfloor>)"

definition to_fixed :: "nat \<Rightarrow> rat \<Rightarrow> string" where
  "to_fixed f x =
     (let n = nat \<lfloor>\<bar>x\<bar> * 10 ^ f + 1 / 2\<rfloor>;
          m = pad_start (f + 1) CHR ''0'' (nat_str n);
          k = length m - f
      in (if x < 0 then ''-'' else '''') @ (if f = 0 then m else take k m @ ''.'' @ drop k m))"

text \<open>The fraction digits of a number, as far as they go (at most 20 of them).\<close>

fun frac_digits :: "nat \<Rightarrow> rat \<Rightarrow> string" where
  "frac_digits 0 r = []"
| "frac_digits (Suc k) r =
     (if r = 0 then [] else digit_char (nat \<lfloor>10 * r\<rfloor>) # frac_digits k (10 * r - of_int \<lfloor>10 * r\<rfloor>))"

definition rat_str :: "rat \<Rightarrow> string" where
  "rat_str r =
     (if rat_int r then int_str \<lfloor>r\<rfloor>
      else let a = \<bar>r\<bar> in (if r < 0 then ''-'' else '''') @ int_str \<lfloor>a\<rfloor> @ ''.''
             @ frac_digits 20 (a - of_int \<lfloor>a\<rfloor>))"

fun num_str :: "jnum \<Rightarrow> string" where
  "num_str NaN = ''NaN''"
| "num_str (Inf neg) = (if neg then ''-Infinity'' else ''Infinity'')"
| "num_str (Fin r) = rat_str r"

lemma rat_int_of_int [simp]: "rat_int (of_int i)"
  by (simp add: rat_int_def)

lemma rat_str_of_int [simp]: "rat_str (of_int i) = int_str i"
  by (simp add: rat_str_def)

lemma js_round_of_int [simp]: "js_round (of_int i) = i"
  unfolding js_round_def by (rule floor_unique) simp_all

lemma js_round_near: "\<bar>of_int (js_round x) - x\<bar> \<le> 1 / 2"
  unfolding js_round_def using floor_correct [of "x + 1 / 2"] by linarith

lemma js_round_mono: "a \<le> b \<Longrightarrow> js_round a \<le> js_round b"
  unfolding js_round_def by (rule floor_mono) simp

lemma js_rem_bounds: "0 \<le> a \<Longrightarrow> 0 < b \<Longrightarrow> 0 \<le> js_rem a b \<and> js_rem a b < b"
  using floor_divide_lower [of b a] floor_divide_upper [of b a] by (auto simp: js_rem_def algebra_simps)


text \<open>\<open>Number("...")\<close>: a decimal literal with its sign, fraction and exponent, a hexadecimal one,
  \<open>Infinity\<close>, nothing but white space (0), and NaN for any other text.\<close>

definition exp_of :: "string \<Rightarrow> int option" where
  "exp_of s = (case s of [] \<Rightarrow> Some 0
     | c # r \<Rightarrow>
        if c = CHR ''e'' \<or> c = CHR ''E'' then
          (let neg = (r \<noteq> [] \<and> hd r = CHR ''-'');
               ds = (if r \<noteq> [] \<and> (hd r = CHR ''-'' \<or> hd r = CHR ''+'') then tl r else r)
           in if ds \<noteq> [] \<and> list_all is_digit ds
              then Some (if neg then - int (digits_val ds) else int (digits_val ds)) else None)
        else None)"

definition scale10 :: "nat \<Rightarrow> int \<Rightarrow> rat" where
  "scale10 v e = (if e \<ge> 0 then of_nat v * 10 ^ nat e else of_nat v / 10 ^ nat (- e))"

definition udec :: "string \<Rightarrow> rat option" where
  "udec s = (let ip = takeWhile is_digit s; r = dropWhile is_digit s;
                 dot = (r \<noteq> [] \<and> hd r = CHR ''.'');
                 fp = (if dot then takeWhile is_digit (tl r) else []);
                 r2 = (if dot then dropWhile is_digit (tl r) else r)
             in if ip = [] \<and> fp = [] then None
                else map_option (\<lambda>e. scale10 (digits_val (ip @ fp)) (e - int (length fp))) (exp_of r2))"

definition hex_val :: "char \<Rightarrow> nat option" where
  "hex_val c = (let n = (of_char c :: nat)
     in if 48 \<le> n \<and> n \<le> 57 then Some (n - 48)
        else if 97 \<le> n \<and> n \<le> 102 then Some (n - 87)
        else if 65 \<le> n \<and> n \<le> 70 then Some (n - 55) else None)"

definition radix_val :: "nat \<Rightarrow> string \<Rightarrow> nat option" where
  "radix_val b s = (if s \<noteq> [] \<and> list_all (\<lambda>c. case hex_val c of Some d \<Rightarrow> d < b | None \<Rightarrow> False) s
     then Some (foldl (\<lambda>a c. b * a + (case hex_val c of Some d \<Rightarrow> d | None \<Rightarrow> 0)) 0 s) else None)"

definition str_number :: "string \<Rightarrow> jnum" where
  "str_number s = (let t = js_trim s; p = js_lower (take 2 t); opt = (\<lambda>x. case x of Some v \<Rightarrow> Fin (of_nat v) | None \<Rightarrow> NaN)
     in if t = [] then Fin 0
        else if t = ''Infinity'' \<or> t = ''+Infinity'' then Inf False
        else if t = ''-Infinity'' then Inf True
        else if p = ''0x'' then opt (radix_val 16 (drop 2 t))
        else if p = ''0o'' then opt (radix_val 8 (drop 2 t))
        else if p = ''0b'' then opt (radix_val 2 (drop 2 t))
        else (let neg = (hd t = CHR ''-''); u = (if neg \<or> hd t = CHR ''+'' then tl t else t)
              in case udec u of None \<Rightarrow> NaN | Some r \<Rightarrow> Fin (if neg then - r else r)))"

section \<open>Values\<close>

datatype js = JUndef | JNull | JBool bool | JNum rat | JStr string | JArr "js list"
  | JObj "(string \<times> js) list"

text \<open>\<open>x?.k\<close>: the named field of an object, \<open>undefined\<close> for a missing one and for any other value.\<close>

definition jget :: "js \<Rightarrow> string \<Rightarrow> js" where
  "jget v k = (case v of JObj kvs \<Rightarrow> (case map_of kvs k of Some x \<Rightarrow> x | None \<Rightarrow> JUndef) | _ \<Rightarrow> JUndef)"

fun js_truthy :: "js \<Rightarrow> bool" where
  "js_truthy JUndef = False"
| "js_truthy JNull = False"
| "js_truthy (JBool b) = b"
| "js_truthy (JNum r) = (r \<noteq> 0)"
| "js_truthy (JStr s) = (s \<noteq> [])"
| "js_truthy (JArr xs) = True"
| "js_truthy (JObj kvs) = True"

fun js_nullish :: "js \<Rightarrow> bool" where
  "js_nullish JUndef = True"
| "js_nullish JNull = True"
| "js_nullish v = False"

text \<open>\<open>a ?? b\<close> and \<open>a || b\<close>.\<close>

definition js_nn :: "js \<Rightarrow> js \<Rightarrow> js" where
  "js_nn a b = (if js_nullish a then b else a)"

definition js_or :: "js \<Rightarrow> js \<Rightarrow> js" where
  "js_or a b = (if js_truthy a then a else b)"

fun js_string :: "js \<Rightarrow> string" where
  "js_string JUndef = ''undefined''"
| "js_string JNull = ''null''"
| "js_string (JBool b) = (if b then ''true'' else ''false'')"
| "js_string (JNum r) = rat_str r"
| "js_string (JStr s) = s"
| "js_string (JArr xs) = js_join '','' (map (\<lambda>x. if js_nullish x then [] else js_string x) xs)"
| "js_string (JObj kvs) = ''[object Object]''"

fun js_number :: "js \<Rightarrow> jnum" where
  "js_number JUndef = NaN"
| "js_number JNull = Fin 0"
| "js_number (JBool b) = Fin (if b then 1 else 0)"
| "js_number (JNum r) = Fin r"
| "js_number (JStr s) = str_number s"
| "js_number (JArr xs) = str_number (js_string (JArr xs))"
| "js_number (JObj kvs) = NaN"

text \<open>\<open>Number(x) || 0\<close>: NaN and 0 are 0. (An infinity cannot come out of JSON but from a text.)\<close>

definition num_or0 :: "jnum \<Rightarrow> jnum" where
  "num_or0 n = (case n of NaN \<Rightarrow> Fin 0 | _ \<Rightarrow> n)"

text \<open>\<open>Number.isInteger(x)\<close> and \<open>Number.isFinite(x)\<close> of a value, which convert nothing.\<close>

fun js_is_integer :: "js \<Rightarrow> bool" where
  "js_is_integer (JNum r) = rat_int r"
| "js_is_integer v = False"

fun js_list :: "js \<Rightarrow> js list" where
  "js_list (JArr xs) = xs"
| "js_list v = []"

fun js_is_array :: "js \<Rightarrow> bool" where
  "js_is_array (JArr xs) = True"
| "js_is_array v = False"

text \<open>\<open>typeof v === "object"\<close> and not null.\<close>

fun js_is_object :: "js \<Rightarrow> bool" where
  "js_is_object (JArr xs) = True"
| "js_is_object (JObj kvs) = True"
| "js_is_object v = False"

text \<open>\<open>Object.keys(v)\<close>, in the order the keys were first set (no key here is an array index).\<close>

definition js_keys :: "js \<Rightarrow> string list" where
  "js_keys v = (case v of JObj kvs \<Rightarrow> js_uniq (map fst kvs) | _ \<Rightarrow> [])"

text \<open>\<open>String(x || "")\<close> and \<open>String(x ?? "")\<close>.\<close>

definition js_text :: "js \<Rightarrow> string" where
  "js_text v = js_string (js_or v (JStr []))"

definition js_text_nn :: "js \<Rightarrow> string" where
  "js_text_nn v = js_string (js_nn v (JStr []))"

text \<open>\<open>a === b\<close> of two numbers.\<close>

definition jnum_eq :: "jnum \<Rightarrow> jnum \<Rightarrow> bool" where
  "jnum_eq a b = (a = b \<and> a \<noteq> NaN)"

text \<open>\<open>n > 0\<close>, and \<open>Number(x) || 0\<close> where an infinity cannot be.\<close>

definition jnum_pos :: "jnum \<Rightarrow> bool" where
  "jnum_pos n = (case n of Fin r \<Rightarrow> r > 0 | Inf neg \<Rightarrow> \<not> neg | NaN \<Rightarrow> False)"

definition jnum_fin :: "jnum \<Rightarrow> rat option" where
  "jnum_fin n = (case n of Fin r \<Rightarrow> Some r | _ \<Rightarrow> None)"

definition num_of :: "js \<Rightarrow> rat" where
  "num_of v = (case js_number v of Fin r \<Rightarrow> r | _ \<Rightarrow> 0)"

text \<open>The middle dot and the dash of the page's lines, in UTF-8.\<close>

definition middot :: string where
  "middot = '' '' @ [CHR 0xC2, CHR 0xB7] @ '' ''"

definition dash :: string where
  "dash = [CHR 0xE2, CHR 0x80, CHR 0x94]"

type_synonym dict = "string \<Rightarrow> (string \<times> string) list \<Rightarrow> string"

text \<open>\<open>s.includes(w)\<close>.\<close>

definition str_includes :: "string \<Rightarrow> string \<Rightarrow> bool" where
  "str_includes s w = list_ex (prefix w) (suffixes s)"

lemma js_text_simps [simp]: "js_text JUndef = []" "js_text JNull = []" "js_text (JStr s) = s"
  by (simp_all add: js_text_def js_or_def)

lemma js_nn_simps [simp]:
  "js_nn JUndef b = b" "js_nn JNull b = b" "js_nn (JStr s) b = JStr s" "js_nn (JNum r) b = JNum r"
  "js_nn (JBool x) b = JBool x" "js_nn (JArr xs) b = JArr xs" "js_nn (JObj kvs) b = JObj kvs"
  by (simp_all add: js_nn_def)

lemma js_or_simps [simp]:
  "js_or JUndef b = b" "js_or JNull b = b" "js_or (JArr xs) b = JArr xs" "js_or (JObj kvs) b = JObj kvs"
  by (simp_all add: js_or_def)

lemma jget_simps [simp]:
  "jget (JObj ((k, v) # kvs)) k' = (if k = k' then v else jget (JObj kvs) k')"
  "jget (JObj []) k' = JUndef" "jget JUndef k' = JUndef" "jget JNull k' = JUndef"
  "jget (JStr s) k' = JUndef" "jget (JNum r) k' = JUndef" "jget (JBool b) k' = JUndef"
  "jget (JArr xs) k' = JUndef"
  by (auto simp: jget_def)

section \<open>Objects written to\<close>

text \<open>\<open>{...o, [k]: v}\<close> and \<open>o[k] = v\<close>; \<open>delete o[k]\<close>.\<close>

fun kv_put :: "string \<Rightarrow> js \<Rightarrow> (string \<times> js) list \<Rightarrow> (string \<times> js) list" where
  "kv_put k v [] = [(k, v)]"
| "kv_put k v ((k', v') # kvs) = (if k' = k then (k, v) # kvs else (k', v') # kv_put k v kvs)"

definition js_put :: "string \<Rightarrow> js \<Rightarrow> js \<Rightarrow> js" where
  "js_put k v ob = (case ob of JObj kvs \<Rightarrow> JObj (kv_put k v kvs) | _ \<Rightarrow> ob)"

definition js_del :: "string \<Rightarrow> js \<Rightarrow> js" where
  "js_del k ob = (case ob of JObj kvs \<Rightarrow> JObj (filter (\<lambda>(k', v). k' \<noteq> k) kvs) | _ \<Rightarrow> ob)"

text \<open>The fields of an object; a spread of anything else has none.\<close>

definition js_fields :: "js \<Rightarrow> (string \<times> js) list" where
  "js_fields v = (case v of JObj kvs \<Rightarrow> kvs | _ \<Rightarrow> [])"

lemma jget_put_same: "jget (JObj (kv_put k v kvs)) k = v"
  by (induction kvs) (auto simp: jget_def)

lemma jget_put_other: "k' \<noteq> k \<Longrightarrow> jget (JObj (kv_put k v kvs)) k' = jget (JObj kvs) k'"
  by (induction kvs) (auto simp: jget_def)

lemma jget_js_put_same [simp]: "jget (js_put k v (JObj kvs)) k = v"
  by (simp add: js_put_def jget_put_same)

lemma jget_js_put_other [simp]: "k' \<noteq> k \<Longrightarrow> jget (js_put k v w) k' = jget w k'"
  by (cases w) (simp_all add: js_put_def jget_put_other)

end
