(* ===== verification/Utils.thy ===== *)
theory Utils
  imports JsValue
begin

text \<open>
  The shared helpers of \<open>static/js/utils.js\<close>: the HTML escape every template goes through, the
  formats of sizes and counts, and what the one HTTP call of the pages (\<open>api\<close>) does with an answer
  of the controller. The network and the page are not modelled: an answer is given, and the result
  says what the caller gets and whether the browser is sent to the sign-in page.
\<close>

named_theorems html_safe \<open>texts that bring no markup character into a template\<close>

section \<open>Escaping\<close>

definition replace_all :: "char \<Rightarrow> string \<Rightarrow> string \<Rightarrow> string" where
  "replace_all c r s = concat (map (\<lambda>x. if x = c then r else [x]) s)"

definition escape_html :: "string \<Rightarrow> string" where
  "escape_html s =
     replace_all (CHR 39) ''&#39;''
       (replace_all (CHR 34) ''&quot;''
         (replace_all CHR ''>'' ''&gt;''
           (replace_all CHR ''<'' ''&lt;''
             (replace_all CHR ''&'' ''&amp;'' s))))"

text \<open>The same in one pass: what each character becomes.\<close>

definition esc_char :: "char \<Rightarrow> string" where
  "esc_char c = (if c = CHR ''&'' then ''&amp;'' else if c = CHR ''<'' then ''&lt;''
     else if c = CHR ''>'' then ''&gt;'' else if c = CHR 34 then ''&quot;''
     else if c = CHR 39 then ''&#39;'' else [c])"

lemma replace_all_Nil [simp]: "replace_all c r [] = []"
  by (simp add: replace_all_def)

lemma replace_all_Cons: "replace_all c r (x # s) = (if x = c then r else [x]) @ replace_all c r s"
  by (simp add: replace_all_def)

lemma replace_all_append [simp]: "replace_all c r (s @ t) = replace_all c r s @ replace_all c r t"
  by (simp add: replace_all_def)

lemma escape_html_Nil [simp]: "escape_html [] = []"
  by (simp add: escape_html_def)

lemma escape_html_append [simp]: "escape_html (s @ t) = escape_html s @ escape_html t"
  by (simp add: escape_html_def)

lemma escape_html_single: "escape_html [c] = esc_char c"
  by (simp add: escape_html_def esc_char_def replace_all_Cons)

lemma escape_html_Cons [simp]: "escape_html (c # s) = esc_char c @ escape_html s"
  using escape_html_append [of "[c]" s] by (simp add: escape_html_single)

lemma escape_html_concat: "escape_html s = concat (map esc_char s)"
  by (induction s) auto

text \<open>The characters that end a text or an attribute's value.\<close>

definition markup_char :: "char \<Rightarrow> bool" where
  "markup_char c = (c = CHR ''<'' \<or> c = CHR ''>'' \<or> c = CHR 34 \<or> c = CHR 39)"

definition html_inert :: "string \<Rightarrow> bool" where
  "html_inert s = list_all (\<lambda>c. \<not> markup_char c) s"

lemma html_inert_Nil [html_safe, simp]: "html_inert []"
  by (simp add: html_inert_def)

lemma html_inert_append [html_safe, simp]: "html_inert (s @ t) \<longleftrightarrow> html_inert s \<and> html_inert t"
  by (simp add: html_inert_def)

lemma html_inert_esc_char: "html_inert (esc_char c)"
  by (simp add: html_inert_def esc_char_def markup_char_def)

lemma html_inert_escape [html_safe, simp]: "html_inert (escape_html s)"
  by (induction s) (auto simp: html_inert_esc_char)

text \<open>The browser's reading of the escaped text: the five entities back to their characters.\<close>

fun unescape_html :: "string \<Rightarrow> string" where
  "unescape_html [] = []"
| "unescape_html (c # s) =
     (if c = CHR ''&'' then
        (if take 4 s = ''amp;'' then CHR ''&'' # unescape_html (drop 4 s)
         else if take 3 s = ''lt;'' then CHR ''<'' # unescape_html (drop 3 s)
         else if take 3 s = ''gt;'' then CHR ''>'' # unescape_html (drop 3 s)
         else if take 5 s = ''quot;'' then CHR 34 # unescape_html (drop 5 s)
         else if take 4 s = ''#39;'' then CHR 39 # unescape_html (drop 4 s)
         else c # unescape_html s)
      else c # unescape_html s)"

lemma unescape_esc_char: "unescape_html (esc_char c @ s) = c # unescape_html s"
  by (simp add: esc_char_def)

lemma unescape_escape: "unescape_html (escape_html s) = s"
  by (induction s) (simp_all add: unescape_esc_char)

lemma escape_html_inj: "escape_html s = escape_html t \<longleftrightarrow> s = t"
  by (metis unescape_escape)

text \<open>How many times a template's markup characters stand in it: what an inert text cannot change.\<close>

definition markup_of :: "string \<Rightarrow> string" where
  "markup_of s = filter markup_char s"

lemma markup_of_append [simp]: "markup_of (s @ t) = markup_of s @ markup_of t"
  by (simp add: markup_of_def)

lemma markup_of_Nil [simp]: "markup_of [] = []"
  by (simp add: markup_of_def)

lemma markup_of_inert: "html_inert s \<Longrightarrow> markup_of s = []"
  by (simp add: markup_of_def html_inert_def list_all_iff filter_empty_conv)

lemma markup_of_escape [simp]: "markup_of (escape_html s) = []"
  by (simp add: markup_of_inert)

lemma markup_of_concat: "markup_of (concat xs) = concat (map markup_of xs)"
  by (induction xs) simp_all

lemma digit_inert: "is_digit c \<Longrightarrow> \<not> markup_char c"
  by (auto simp: is_digit_def markup_char_def Let_def)

lemma nat_str_inert [html_safe, simp]: "html_inert (nat_str n)"
  by (auto simp: html_inert_def list_all_iff dest!: nat_str_digits digit_inert)

lemma int_str_inert [html_safe, simp]: "html_inert (int_str i)"
  using nat_str_inert by (auto simp: int_str_def html_inert_def markup_char_def)

lemma markup_of_nat_str [simp]: "markup_of (nat_str n) = []"
  by (simp add: markup_of_inert)

lemma markup_of_int_str [simp]: "markup_of (int_str n) = []"
  by (simp add: markup_of_inert)

section \<open>Formats\<close>

definition fmt_gb :: "rat \<Rightarrow> string" where
  "fmt_gb bytes = (let gb = bytes / 2 ^ 30
     in if gb \<ge> 100 then int_str (js_round gb) @ '' GB''
        else to_fixed (if gb \<ge> 10 then 1 else 2) gb @ '' GB'')"

definition fmt_space :: "rat \<Rightarrow> string" where
  "fmt_space bytes = (let tb = bytes / 2 ^ 40
     in if tb \<ge> 1 then to_fixed (if tb \<ge> 10 then 0 else 1) tb @ '' TB'' else fmt_gb bytes)"

definition pill :: "string \<Rightarrow> js \<Rightarrow> string" where
  "pill txt kind = ''<span class=\"pill '' @ js_string (js_or kind (JStr '''')) @ ''\">'' @ txt @ ''</span>''"

definition format_bool :: "js \<Rightarrow> bool" where
  "format_bool v = (js_lower (js_string v) \<in> {''1'', ''true'', ''yes'', ''on''})"

text \<open>\<open>value || ""\<close> for a value that is no number: the value itself, or the empty text.\<close>

definition format_bytes_mib :: "js \<Rightarrow> js" where
  "format_bytes_mib v = (case js_number v of Fin n \<Rightarrow> JStr (int_str (js_round n) @ '' MiB'')
     | _ \<Rightarrow> js_or v (JStr ''''))"

definition format_memory_mib :: "js \<Rightarrow> js" where
  "format_memory_mib v = (case js_number v of
       Fin n \<Rightarrow> JStr (if n \<ge> 1024 then to_fixed (if n \<ge> 10240 then 1 else 2) (n / 1024) @ '' GB''
                     else int_str (js_round n) @ '' MiB'')
     | _ \<Rightarrow> js_or v (JStr ''''))"

text \<open>\<open>Number(k.toFixed(1))\<close> is \<open>k\<close> rounded to tenths.\<close>

definition format_ctx_tokens :: "js \<Rightarrow> string" where
  "format_ctx_tokens v = (case js_number v of
       Fin n \<Rightarrow> (if n < 0 then dash
                 else if n < 1000 then int_str (js_round n)
                 else let k = n / 1000
                      in (if k \<ge> 100 then int_str (js_round k)
                          else rat_str (of_int \<lfloor>k * 10 + 1 / 2\<rfloor> / 10)) @ ''k'')
     | _ \<Rightarrow> dash)"

section \<open>The call\<close>

text \<open>What \<open>fetch\<close> is given: a body is sent as it is when \<open>fetch\<close> understands it, and as JSON otherwise.\<close>

datatype body = NoBody | NullBody | TextBody string | WireBody | PlainBody js

datatype wire = WNone | WNull | WText string | WAsIs | WJson js

definition is_wire_body :: "body \<Rightarrow> bool" where
  "is_wire_body b = (case b of TextBody s \<Rightarrow> True | WireBody \<Rightarrow> True | _ \<Rightarrow> False)"

fun encode_body :: "body \<Rightarrow> wire" where
  "encode_body NoBody = WNone"
| "encode_body NullBody = WNull"
| "encode_body (TextBody s) = WText s"
| "encode_body WireBody = WAsIs"
| "encode_body (PlainBody v) = WJson v"

record response =
  r_ok :: bool
  r_status :: int
  r_status_text :: string
  r_data :: js

record api_error =
  e_message :: js
  e_status :: int
  e_data :: js

text \<open>The answer of \<open>/api/auth/me\<close>: none (the call threw), or a response with its JSON.\<close>

definition signed_out_for_sure :: "(bool \<times> js) option \<Rightarrow> bool" where
  "signed_out_for_sure me = (case me of None \<Rightarrow> False
     | Some (ok, d) \<Rightarrow> ok \<and> jget d ''authenticated'' = JBool False)"

record api_result =
  a_value :: "api_error + js"
  a_to_login :: bool

definition api :: "string \<Rightarrow> string \<Rightarrow> (bool \<times> js) option \<Rightarrow> response \<Rightarrow> api_result" where
  "api path here me resp =
     (if r_ok resp then \<lparr>a_value = Inr (r_data resp), a_to_login = False\<rparr>
      else \<lparr>a_value = Inl \<lparr>e_message = js_or (jget (r_data resp) ''error'') (JStr (r_status_text resp)),
                          e_status = r_status resp, e_data = r_data resp\<rparr>,
            a_to_login = (r_status resp = 401 \<and> \<not> prefix ''/api/auth/'' path \<and> here \<noteq> ''/login''
                          \<and> signed_out_for_sure me)\<rparr>)"

definition is_stale_copy :: "api_error \<Rightarrow> bool" where
  "is_stale_copy e = (e_status e = 409 \<and> jget (e_data e) ''stale'' = JBool True
     \<and> js_truthy (jget (e_data e) ''topology''))"

end
