(* ===== verification/Interfaces.thy ===== *)
theory Interfaces
  imports Prelude
begin

text \<open>
  The contracts several components of the board share, as locales: an operation that only
  rearranges a list (\<open>rearranging\<close>, and \<open>reordering\<close> when it never answers the list it was given), a save of which at most one is on its way (\<open>single_flight\<close>),
  and an answer that is dropped when what it answers is no longer asked (\<open>stale_guard\<close>). Each
  component that keeps a contract interprets its locale on its own operations.
\<close>

section \<open>Operations that only rearrange\<close>

locale rearranging =
  fixes move :: "'p \<Rightarrow> 'a list \<Rightarrow> 'a list option"
  assumes move_mset: "move p xs = Some ys \<Longrightarrow> mset ys = mset xs"
begin

lemma move_set: "move p xs = Some ys \<Longrightarrow> set ys = set xs"
  using move_mset by (metis set_mset_mset)

lemma move_length: "move p xs = Some ys \<Longrightarrow> length ys = length xs"
  using move_mset by (metis size_mset)

lemma move_distinct: "move p xs = Some ys \<Longrightarrow> distinct xs \<Longrightarrow> distinct ys"
  using move_mset by (metis mset_eq_imp_distinct_iff)

lemma moves_mset:
  "fold (\<lambda>p xs. case move p xs of None \<Rightarrow> xs | Some ys \<Rightarrow> ys) ps xs = zs \<Longrightarrow> mset zs = mset xs"
proof (induction ps arbitrary: xs)
  case Nil
  then show ?case by simp
next
  case (Cons p ps)
  then show ?case
    by (cases "move p xs") (auto dest: move_mset)
qed

end

text \<open>One that answers only when the order is another.\<close>

locale reordering = rearranging +
  assumes move_changes: "move p xs = Some ys \<Longrightarrow> ys \<noteq> xs"

section \<open>At most one save on its way\<close>

text \<open>
  \<open>start\<close> is the operator's act, \<open>settle\<close> the answer (or the failure) of the call on its way; each
  gives the calls it sends. The client's fact: along any run the calls sent and not yet settled
  are none or one, and one exactly while the component says it is busy.
\<close>

locale single_flight =
  fixes busy :: "'s \<Rightarrow> bool"
    and start :: "'r \<Rightarrow> 's \<Rightarrow> 's \<times> 'c list"
    and settle :: "'a \<Rightarrow> 's \<Rightarrow> 's \<times> 'c list"
  assumes start_calls: "start r s = (s', cs) \<Longrightarrow>
      length cs + (if busy s then 1 else 0) = (if busy s' then 1 else (0::nat))"
    and settle_calls: "busy s \<Longrightarrow> settle a s = (s', cs) \<Longrightarrow>
      length cs = (if busy s' then 1 else (0::nat))"
begin

text \<open>The state with the number of calls on their way.\<close>

inductive run :: "'s \<Rightarrow> nat \<Rightarrow> bool" where
  idle: "\<not> busy s \<Longrightarrow> run s 0"
| start: "run s n \<Longrightarrow> start r s = (s', cs) \<Longrightarrow> run s' (n + length cs)"
| settle: "run s (Suc n) \<Longrightarrow> settle a s = (s', cs) \<Longrightarrow> run s' (n + length cs)"

lemma run_outstanding: "run s n \<Longrightarrow> n = (if busy s then 1 else 0)"
proof (induction rule: run.induct)
  case (idle s)
  then show ?case by simp
next
  case (start s n r s' cs)
  then show ?case using start_calls [OF start.hyps(2)] by simp
next
  case (settle s n a s' cs)
  then have b: "busy s" and "n = 0" by (auto split: if_splits)
  then show ?case using settle_calls [OF b settle.hyps(2)] by simp
qed

lemma run_at_most_one: "run s n \<Longrightarrow> n \<le> 1"
  using run_outstanding by fastforce

lemma start_while_busy_sends_nothing: "busy s \<Longrightarrow> start r s = (s', cs) \<Longrightarrow> cs = [] \<and> busy s'"
  using start_calls [of r s s' cs] by (auto split: if_splits)

end

section \<open>Answers that are too late\<close>

text \<open>
  What is asked now is \<open>current s\<close>; an answer arrives with the key it was asked under. The
  client's fact: whatever the order in which answers arrive, what is shown is either nothing or
  a reading of an answer to the key asked now.
\<close>

locale stale_guard =
  fixes current :: "'s \<Rightarrow> 'k"
    and shown :: "'s \<Rightarrow> 'v option"
    and ask :: "'k \<Rightarrow> 's \<Rightarrow> 's"
    and arrive :: "'k \<Rightarrow> 'a \<Rightarrow> 's \<Rightarrow> 's"
    and reading :: "'a \<Rightarrow> 'v option"
  assumes ask_current: "current (ask k s) = k"
    and ask_shown: "k \<noteq> current s \<Longrightarrow> shown (ask k s) = None"
    and ask_same: "k = current s \<Longrightarrow> shown (ask k s) = shown s"
    and arrive_stale: "k \<noteq> current s \<Longrightarrow> arrive k a s = s"
    and arrive_current: "k = current s \<Longrightarrow> current (arrive k a s) = k"
    and arrive_shown: "k = current s \<Longrightarrow> shown (arrive k a s) = reading a"
begin

text \<open>A run, with the answers that have arrived so far.\<close>

inductive asked :: "'s \<Rightarrow> 's \<Rightarrow> ('k \<times> 'a) set \<Rightarrow> bool" for s0 :: 's where
  init: "shown s0 = None \<Longrightarrow> asked s0 s0 {}"
| ask: "asked s0 s A \<Longrightarrow> asked s0 (ask k s) A"
| arrive: "asked s0 s A \<Longrightarrow> asked s0 (arrive k a s) (insert (k, a) A)"
| other: "asked s0 s A \<Longrightarrow> current s' = current s \<Longrightarrow> shown s' = shown s \<Longrightarrow> asked s0 s' A"

lemma shown_is_answer:
  "asked s0 s A \<Longrightarrow> shown s = Some v \<Longrightarrow> \<exists>a. (current s, a) \<in> A \<and> reading a = Some v"
proof (induction rule: asked.induct)
  case init
  then show ?case by simp
next
  case (ask s A k)
  then show ?case
    using ask_current [of k s] ask_shown [of k s] ask_same [of k s] by (cases "k = current s") auto
next
  case (arrive s A k a)
  show ?case
  proof (cases "k = current s")
    case True
    with arrive.prems show ?thesis using arrive_current [OF True, of a] arrive_shown [OF True, of a]
      by auto
  next
    case False
    with arrive show ?thesis using arrive_stale [OF False, of a] by auto
  qed
next
  case (other s A s')
  then show ?case by auto
qed

end

end
