(* ===== verification/Flows.thy ===== *)
theory Flows
  imports JsValue
begin

text \<open>
  An \<open>async\<close> handler of the page as a tree: what it says and applies at once, and each \<open>await\<close> with
  what it goes on with, for every answer. At an \<open>await\<close> the page goes on: the board it finds afterwards
  is handed to it with the answer. An answer is a value or the message of what was thrown. \<open>flow_run\<close>
  plays a list of answers against a handler; the laws below reduce a claim about every run to one about
  the tree.
\<close>

datatype flow_req = Confirm_req string js | Prompt_req string js | Send_req string js | Read_board | Copy_req string

type_synonym reply = "string + js"

datatype flow = Done js js  \<comment> \<open>the result, and the board as it is then\<close>
  | Say string flow
  | Apply js flow
  | Await flow_req "reply \<times> js \<Rightarrow> flow"

text \<open>What a question was answered (the dialog refuses none), and a call that failed taken as nothing.\<close>

definition reply_value :: "reply \<Rightarrow> js" where
  "reply_value a = (case a of Inr v \<Rightarrow> v | Inl err \<Rightarrow> JNull)"

definition await :: "flow_req \<Rightarrow> (reply \<Rightarrow> js \<Rightarrow> flow) \<Rightarrow> flow" where
  "await q k = Await q (\<lambda>(a, bd). k a bd)"

definition ask_value :: "flow_req \<Rightarrow> (js \<Rightarrow> js \<Rightarrow> flow) \<Rightarrow> flow" where
  "ask_value q k = await q (\<lambda>a bd. k (reply_value a) bd)"

text \<open>A call in a \<open>try\<close> whose \<open>catch\<close> says the message and ends with null.\<close>

definition try_call :: "flow_req \<Rightarrow> (js \<Rightarrow> js \<Rightarrow> flow) \<Rightarrow> flow" where
  "try_call q k = await q (\<lambda>a bd. case a of Inl err \<Rightarrow> Say err (Done JNull bd) | Inr v \<Rightarrow> k v bd)"

definition apply_if :: "js \<Rightarrow> js \<Rightarrow> (js \<Rightarrow> flow) \<Rightarrow> flow" where
  "apply_if b bd k = (if js_truthy b then Apply b (k b) else k bd)"

text \<open>\<open>await\<close> of another handler: it ends, and the rest goes on with its result.\<close>

primrec flow_then :: "flow \<Rightarrow> (js \<Rightarrow> js \<Rightarrow> flow) \<Rightarrow> flow" where
  "flow_then (Done v bd) k = k v bd"
| "flow_then (Say s f) k = Say s (flow_then f k)"
| "flow_then (Apply b f) k = Apply b (flow_then f k)"
| "flow_then (Await q c) k = Await q (\<lambda>p. flow_then (c p) k)"

datatype flow_event = Said string | Applied js | Asked flow_req reply | Waiting flow_req

text \<open>The events of a run, and its result when it ended within the answers given.\<close>

primrec flow_run :: "flow \<Rightarrow> (reply \<times> js) list \<Rightarrow> flow_event list \<times> js option" where
  "flow_run (Done v bd) as = ([], Some v)"
| "flow_run (Say s f) as = (case flow_run f as of (es, r) \<Rightarrow> (Said s # es, r))"
| "flow_run (Apply b f) as = (case flow_run f as of (es, r) \<Rightarrow> (Applied b # es, r))"
| "flow_run (Await q c) as = (case as of
      [] \<Rightarrow> ([Waiting q], None)
    | p # rest \<Rightarrow> (case flow_run (c p) rest of (es, r) \<Rightarrow> (Asked q (fst p) # es, r)))"

definition flow_events :: "flow \<Rightarrow> (reply \<times> js) list \<Rightarrow> flow_event list" where
  "flow_events f as = fst (flow_run f as)"

definition flow_result :: "flow \<Rightarrow> (reply \<times> js) list \<Rightarrow> js option" where
  "flow_result f as = snd (flow_run f as)"

lemma flow_events_simps [simp]:
  "flow_events (Done v bd) as = []"
  "flow_events (Say s f) as = Said s # flow_events f as"
  "flow_events (Apply b f) as = Applied b # flow_events f as"
  "flow_events (Await q c) [] = [Waiting q]"
  "flow_events (Await q c) (p # rest) = Asked q (fst p) # flow_events (c p) rest"
  by (simp_all add: flow_events_def case_prod_beta)

lemma flow_result_simps [simp]:
  "flow_result (Done v bd) as = Some v"
  "flow_result (Say s f) as = flow_result f as"
  "flow_result (Apply b f) as = flow_result f as"
  "flow_result (Await q c) [] = None"
  "flow_result (Await q c) (p # rest) = flow_result (c p) rest"
  by (simp_all add: flow_result_def case_prod_beta)

section \<open>Asked before it is done\<close>

text \<open>The operator said yes to a question.\<close>

definition yes_to :: "flow_req \<Rightarrow> reply \<Rightarrow> bool" where
  "yes_to q a = (case (q, a) of (Confirm_req w opts, Inr v) \<Rightarrow> js_truthy v | _ \<Rightarrow> False)"

text \<open>A request of \<open>D\<close> is made only right after a yes (what is said in between counts for nothing).\<close>

primrec asks_first :: "(flow_req \<Rightarrow> bool) \<Rightarrow> flow \<Rightarrow> bool \<Rightarrow> bool" where
  "asks_first D (Done v bd) y = True"
| "asks_first D (Say s f) y = asks_first D f y"
| "asks_first D (Apply b f) y = asks_first D f y"
| "asks_first D (Await q c) y = ((D q \<longrightarrow> y) \<and> (\<forall>p. asks_first D (c p) (yes_to q (fst p))))"

text \<open>The same of a list of events: what the last answer was, before each request.\<close>

fun asked_first :: "(flow_req \<Rightarrow> bool) \<Rightarrow> bool \<Rightarrow> flow_event list \<Rightarrow> bool" where
  "asked_first D y [] = True"
| "asked_first D y (Asked q a # es) = ((D q \<longrightarrow> y) \<and> asked_first D (yes_to q a) es)"
| "asked_first D y (Waiting q # es) = ((D q \<longrightarrow> y) \<and> asked_first D y es)"
| "asked_first D y (e # es) = asked_first D y es"

lemma asks_first_run: "asks_first D f y \<Longrightarrow> asked_first D y (flow_events f as)"
proof (induction f arbitrary: y as)
  case (Await q c)
  show ?case
  proof (cases as)
    case Nil
    with Await.prems show ?thesis by simp
  next
    case (Cons p rest)
    with Await show ?thesis by (cases p) (simp add: rangeI)
  qed
qed simp_all

lemma asks_first_mono: "asks_first D f False \<Longrightarrow> asks_first D f y"
  by (induction f) auto

lemma asks_first_then:
  "asks_first D f y \<Longrightarrow> (\<And>v bd. asks_first D (k v bd) False) \<Longrightarrow> asks_first D (flow_then f k) y"
proof (induction f arbitrary: y)
  case (Done v bd)
  then show ?case by (simp add: asks_first_mono)
next
  case (Await q c)
  then show ?case by (simp add: rangeI)
qed simp_all

lemma asks_first_await [simp]:
  "asks_first D (await q k) y \<longleftrightarrow> (D q \<longrightarrow> y) \<and> (\<forall>a bd. asks_first D (k a bd) (yes_to q a))"
  by (auto simp: await_def)

lemma asks_first_try [simp]:
  "asks_first D (try_call q k) y \<longleftrightarrow> (D q \<longrightarrow> y) \<and> (\<forall>v bd. asks_first D (k v bd) (yes_to q (Inr v)))"
  by (force simp: try_call_def split: sum.splits)

lemma asks_first_apply_if [simp]:
  "asks_first D (apply_if b bd k) y \<longleftrightarrow> asks_first D (k (if js_truthy b then b else bd)) y"
  by (simp add: apply_if_def)

section \<open>A handler that ends\<close>

text \<open>At most \<open>n\<close> answers are waited for, whatever they are.\<close>

primrec ends_within :: "flow \<Rightarrow> nat \<Rightarrow> bool" where
  "ends_within (Done v bd) n = True"
| "ends_within (Say s f) n = ends_within f n"
| "ends_within (Apply b f) n = ends_within f n"
| "ends_within (Await q c) n = (n > 0 \<and> (\<forall>p. ends_within (c p) (n - 1)))"

lemma ends_within_run: "ends_within f n \<Longrightarrow> n \<le> length as \<Longrightarrow> flow_result f as \<noteq> None"
proof (induction f arbitrary: n as)
  case (Await q c)
  then obtain p rest where as: "as = p # rest" by (cases as) auto
  from Await.IH [of "c p" "n - 1" rest] Await.prems show ?case by (cases p) (simp add: as rangeI)
qed simp_all

lemma ends_within_mono: "ends_within f m \<Longrightarrow> m \<le> n \<Longrightarrow> ends_within f n"
proof (induction f arbitrary: m n)
  case (Await q c)
  then show ?case by (auto simp: rangeI) (meson diff_le_mono rangeI)
qed simp_all

lemma ends_within_then:
  "ends_within f m \<Longrightarrow> (\<And>v bd. ends_within (k v bd) n) \<Longrightarrow> ends_within (flow_then f k) (m + n)"
proof (induction f arbitrary: m)
  case (Done v bd)
  then show ?case using ends_within_mono [of "k v bd" n "m + n"] by simp
next
  case (Await q c)
  have "ends_within (flow_then (c p) k) (m - 1 + n)" for p
    using Await.prems Await.IH [of "c p" "m - 1"] by (cases p) (simp add: rangeI)
  then show ?case using Await.prems by simp
qed simp_all

lemma ends_within_await [simp]:
  "ends_within (await q k) n \<longleftrightarrow> n > 0 \<and> (\<forall>a bd. ends_within (k a bd) (n - 1))"
  by (simp add: await_def)

lemma ends_within_try [simp]:
  "ends_within (try_call q k) n \<longleftrightarrow> n > 0 \<and> (\<forall>v bd. ends_within (k v bd) (n - 1))"
  by (force simp: try_call_def split: sum.splits)

lemma ends_within_apply_if [simp]:
  "ends_within (apply_if b bd k) n \<longleftrightarrow> ends_within (k (if js_truthy b then b else bd)) n"
  by (simp add: apply_if_def)

section \<open>A request made so many times\<close>

text \<open>The requests of \<open>D\<close> made in a run, answered or waited for, and a bound on them over every run.\<close>

definition made_of :: "(flow_req \<Rightarrow> bool) \<Rightarrow> flow_event \<Rightarrow> bool" where
  "made_of D e = (case e of Asked q a \<Rightarrow> D q | Waiting q \<Rightarrow> D q | _ \<Rightarrow> False)"

definition times_made :: "(flow_req \<Rightarrow> bool) \<Rightarrow> flow_event list \<Rightarrow> nat" where
  "times_made D es = length (filter (made_of D) es)"

primrec asks_upto :: "(flow_req \<Rightarrow> bool) \<Rightarrow> flow \<Rightarrow> nat \<Rightarrow> bool" where
  "asks_upto D (Done v bd) n = True"
| "asks_upto D (Say s f) n = asks_upto D f n"
| "asks_upto D (Apply b f) n = asks_upto D f n"
| "asks_upto D (Await q c) n = (if D q then n > 0 \<and> (\<forall>p. asks_upto D (c p) (n - 1)) else (\<forall>p. asks_upto D (c p) n))"

lemma times_made_simps [simp]:
  "times_made D [] = 0" "times_made D (Said s # es) = times_made D es" "times_made D (Applied b # es) = times_made D es"
  "times_made D (Asked q a # es) = (if D q then 1 else 0) + times_made D es"
  "times_made D (Waiting q # es) = (if D q then 1 else 0) + times_made D es"
  by (simp_all add: times_made_def made_of_def)

lemma asks_upto_await_iff:
  "asks_upto D (Await q c) n \<longleftrightarrow> (D q \<longrightarrow> n > 0) \<and> (\<forall>p. asks_upto D (c p) (if D q then n - 1 else n))"
  by (simp only: asks_upto.simps if_splits) auto

declare asks_upto.simps(4) [simp del]

lemma asks_upto_run: "asks_upto D f n \<Longrightarrow> times_made D (flow_events f as) \<le> n"
proof (induction f arbitrary: n as)
  case (Await q c)
  note here = Await.prems [unfolded asks_upto_await_iff]
  have up: "D q \<longrightarrow> n > 0" "asks_upto D (c p) (if D q then n - 1 else n)" for p using here by blast+
  show ?case
  proof (cases as)
    case Nil
    then show ?thesis using up(1) by (simp add: Suc_le_eq)
  next
    case (Cons p rest)
    have "times_made D (flow_events (c p) rest) \<le> (if D q then n - 1 else n)"
      by (rule Await.IH [OF rangeI up(2)])
    then show ?thesis using up(1) by (simp add: Cons split: if_splits)
  qed
qed simp_all

lemma asks_upto_mono: "asks_upto D f m \<Longrightarrow> m \<le> n \<Longrightarrow> asks_upto D f n"
proof (induction f arbitrary: m n)
  case (Await q c)
  note here = Await.prems(1) [unfolded asks_upto_await_iff]
  have up: "D q \<longrightarrow> m > 0" "asks_upto D (c p) (if D q then m - 1 else m)" for p using here by blast+
  have "asks_upto D (c p) (if D q then n - 1 else n)" for p
    by (rule Await.IH [OF rangeI up(2)]) (use Await.prems(2) in auto)
  then show ?case using up(1) Await.prems(2) by (auto simp: asks_upto_await_iff)
qed simp_all

lemma asks_upto_then:
  "asks_upto D f m \<Longrightarrow> (\<And>v bd. asks_upto D (k v bd) n) \<Longrightarrow> asks_upto D (flow_then f k) (m + n)"
proof (induction f arbitrary: m)
  case (Done v bd)
  then show ?case using asks_upto_mono [of D "k v bd" n "m + n"] by simp
next
  case (Await q c)
  note here = Await.prems(1) [unfolded asks_upto_await_iff]
  have up: "D q \<longrightarrow> m > 0" "asks_upto D (c p) (if D q then m - 1 else m)" for p using here by blast+
  have "asks_upto D (flow_then (c p) k) ((if D q then m - 1 else m) + n)" for p
    by (rule Await.IH [OF rangeI up(2) Await.prems(2)])
  then show ?case using up(1) by (auto simp: asks_upto_await_iff split: if_splits)
qed simp_all

lemma asks_upto_await [simp]:
  "asks_upto D (await q k) n \<longleftrightarrow> (if D q then n > 0 \<and> (\<forall>a bd. asks_upto D (k a bd) (n - 1)) else (\<forall>a bd. asks_upto D (k a bd) n))"
  by (auto simp: await_def asks_upto_await_iff)

lemma asks_upto_value [simp]:
  "asks_upto D (ask_value q k) n \<longleftrightarrow> (if D q then n > 0 \<and> (\<forall>a bd. asks_upto D (k (reply_value a) bd) (n - 1))
     else (\<forall>a bd. asks_upto D (k (reply_value a) bd) n))"
  by (simp add: ask_value_def)

lemma asks_upto_try [simp]:
  "asks_upto D (try_call q k) n \<longleftrightarrow> (if D q then n > 0 \<and> (\<forall>v bd. asks_upto D (k v bd) (n - 1)) else (\<forall>v bd. asks_upto D (k v bd) n))"
  by (force simp: try_call_def split: sum.splits)

lemma asks_upto_apply_if [simp]:
  "asks_upto D (apply_if b bd k) n \<longleftrightarrow> asks_upto D (k (if js_truthy b then b else bd)) n"
  by (simp add: apply_if_def)

end
