(* ===== verification/ServerOrder.thy ===== *)
theory ServerOrder
  imports Utils Interfaces
begin

text \<open>
  \<open>static/js/server-order.js\<close>: the operator's order of the server cards. The list operations
  (\<open>clean\<close>, \<open>moved\<close>, \<open>stepped\<close>, \<open>merged\<close>, \<open>sorted\<close>), what is drawn (\<open>attrs\<close>, \<open>controls\<close>, \<open>apply\<close>),
  and the save: the order is on screen at once, one call is on its way at a time, and the newest
  order waits for it. The class's asynchronous \<open>send\<close> is cut at its \<open>await\<close>: \<open>so_save\<close> runs to the
  first call, \<open>so_answer\<close> and \<open>so_refused\<close> from an answer to the next call or the end.
\<close>

section \<open>The list operations\<close>

definition so_kinds :: "string list" where
  "so_kinds = [''node'', ''cloud'']"

definition so_key :: "string \<Rightarrow> string \<Rightarrow> string" where
  "so_key kind ident = kind @ '':'' @ ident"

definition so_valid :: "string \<Rightarrow> bool" where
  "so_valid key = list_ex (\<lambda>kind. prefix (kind @ '':'') key \<and> length key > length kind + 1) so_kinds"

fun so_clean_go :: "string list \<Rightarrow> js list \<Rightarrow> string list" where
  "so_clean_go seen [] = []"
| "so_clean_go seen (JStr key # vs) =
     (if key \<notin> set seen \<and> so_valid key then key # so_clean_go (key # seen) vs
      else so_clean_go seen vs)"
| "so_clean_go seen (_ # vs) = so_clean_go seen vs"

definition so_clean :: "js \<Rightarrow> string list" where
  "so_clean value = (case value of JArr vs \<Rightarrow> so_clean_go [] vs | _ \<Rightarrow> [])"

text \<open>\<open>target\<close> is \<open>None\<close> where the source passes \<open>undefined\<close>.\<close>

definition so_moved :: "'a list \<Rightarrow> 'a \<Rightarrow> 'a option \<Rightarrow> bool \<Rightarrow> 'a list option" where
  "so_moved keys key target after =
     (case target of None \<Rightarrow> None
      | Some t \<Rightarrow>
         if key \<notin> set keys \<or> key = t \<or> t \<notin> set keys then None
         else let rest = filter (\<lambda>k. k \<noteq> key) keys;
                  place = nat (js_index rest t) + (if after then 1 else 0);
                  next = take place rest @ key # drop place rest
              in if next = keys then None else Some next)"

definition so_stepped :: "'a list \<Rightarrow> 'a \<Rightarrow> bool \<Rightarrow> 'a list option" where
  "so_stepped keys key down =
     so_moved keys key (js_at keys (js_index keys key + (if down then 1 else -1))) down"

text \<open>\<open>None\<close>: the source would put \<open>undefined\<close> in a place; it cannot when \<open>full\<close> repeats no key.\<close>

fun so_merge_go :: "'a list \<Rightarrow> 'a list \<Rightarrow> 'a list \<Rightarrow> 'a list option" where
  "so_merge_go moving [] shown = Some shown"
| "so_merge_go moving (key # full) shown =
     (if key \<in> set moving then
        (case shown of [] \<Rightarrow> None | s # rest \<Rightarrow> map_option ((#) s) (so_merge_go moving full rest))
      else map_option ((#) key) (so_merge_go moving full shown))"

definition so_merged :: "'a list \<Rightarrow> 'a list \<Rightarrow> 'a list option" where
  "so_merged full shown = so_merge_go shown full shown"

subsection \<open>A cleaned order is an order\<close>

lemma so_clean_go_sound:
  "key \<in> set (so_clean_go seen vs) \<Longrightarrow> so_valid key \<and> key \<notin> set seen \<and> JStr key \<in> set vs"
  by (induction seen vs rule: so_clean_go.induct) (auto split: if_splits)

lemma so_clean_go_distinct: "distinct (so_clean_go seen vs)"
  by (induction seen vs rule: so_clean_go.induct) (auto dest: so_clean_go_sound)

lemma so_clean_go_complete:
  "JStr key \<in> set vs \<Longrightarrow> so_valid key \<Longrightarrow> key \<notin> set seen \<Longrightarrow> key \<in> set (so_clean_go seen vs)"
  by (induction seen vs rule: so_clean_go.induct) (auto split: if_splits)

lemma so_clean_go_id:
  "distinct keys \<Longrightarrow> list_all so_valid keys \<Longrightarrow> set keys \<inter> set seen = {} \<Longrightarrow>
   so_clean_go seen (map JStr keys) = keys"
  by (induction keys arbitrary: seen) auto

lemma so_clean_distinct [simp]: "distinct (so_clean v)"
  by (simp add: so_clean_def so_clean_go_distinct split: js.splits)

lemma so_clean_valid: "list_all so_valid (so_clean v)"
  by (auto simp: so_clean_def list_all_iff dest: so_clean_go_sound split: js.splits)

lemma so_clean_of_order: "distinct keys \<Longrightarrow> list_all so_valid keys \<Longrightarrow> so_clean (JArr (map JStr keys)) = keys"
  by (simp add: so_clean_def so_clean_go_id)

lemma so_valid_iff: "so_valid key \<longleftrightarrow> (\<exists>ident. ident \<noteq> [] \<and> (key = so_key ''node'' ident \<or> key = so_key ''cloud'' ident))"
  by (auto simp: so_valid_def so_kinds_def so_key_def prefix_def)

subsection \<open>A move is a rearrangement\<close>

lemma so_moved_SomeD:
  assumes "so_moved keys key target after = Some next"
  obtains t n where "target = Some t" "t \<noteq> key" "key \<in> set keys" "t \<in> set keys"
    "index_of t (filter (\<lambda>k. k \<noteq> key) keys) = Some n"
    "next = take (n + (if after then 1 else 0)) (filter (\<lambda>k. k \<noteq> key) keys) @ key #
            drop (n + (if after then 1 else 0)) (filter (\<lambda>k. k \<noteq> key) keys)"
    "next \<noteq> keys"
proof -
  from assms obtain t where t: "target = Some t" "t \<noteq> key" "key \<in> set keys" "t \<in> set keys"
    by (auto simp: so_moved_def split: option.splits if_splits)
  then have "t \<in> set (filter (\<lambda>k. k \<noteq> key) keys)" by simp
  then obtain n where n: "index_of t (filter (\<lambda>k. k \<noteq> key) keys) = Some n"
    using index_of_mem by metis
  from assms t n have "next = take (n + (if after then 1 else 0)) (filter (\<lambda>k. k \<noteq> key) keys) @ key #
            drop (n + (if after then 1 else 0)) (filter (\<lambda>k. k \<noteq> key) keys)" "next \<noteq> keys"
    by (auto simp: so_moved_def js_index_def Let_def nat_add_distrib split: if_splits)
  with t n that show thesis by blast
qed

lemma so_moved_others:
  "so_moved keys key target after = Some next \<Longrightarrow>
   filter (\<lambda>k. k \<noteq> key) next = filter (\<lambda>k. k \<noteq> key) keys"
  by (erule so_moved_SomeD) (simp only: filter_neq_insert_back)

lemma so_moved_mset:
  assumes "distinct keys" and "so_moved keys key target after = Some next"
  shows "mset next = mset keys"
proof -
  from assms(2) obtain n where key: "key \<in> set keys" and
    nx: "next = take n (filter (\<lambda>k. k \<noteq> key) keys) @ key # drop n (filter (\<lambda>k. k \<noteq> key) keys)"
    by (rule so_moved_SomeD)
  have "mset next = add_mset key (mset (filter (\<lambda>k. k \<noteq> key) keys))"
    unfolding nx by (rule mset_take_insert_drop)
  then show ?thesis
    using key assms(1) by (simp add: filter_neq_remove1 mset_remove1)
qed

lemma so_moved_beside:
  assumes "distinct keys" and "so_moved keys key (Some t) after = Some next"
  shows "\<exists>xs ys. next = (if after then xs @ [t, key] @ ys else xs @ [key, t] @ ys)"
proof -
  let ?rest = "filter (\<lambda>k. k \<noteq> key) keys"
  from assms(2) obtain n where n: "index_of t ?rest = Some n"
    and nx: "next = take (n + (if after then 1 else 0)) ?rest @ key #
                      drop (n + (if after then 1 else 0)) ?rest"
    by (elim so_moved_SomeD) simp
  from n have len: "n < length ?rest" and t: "?rest ! n = t" by (auto dest: index_of_SomeD)
  show ?thesis
  proof (cases after)
    case True
    from len t have "take (Suc n) ?rest = take n ?rest @ [t]" by (simp add: take_Suc_conv_app_nth)
    with nx True show ?thesis by auto
  next
    case False
    from len t have "drop n ?rest = t # drop (Suc n) ?rest" by (metis Cons_nth_drop_Suc)
    with nx False show ?thesis by auto
  qed
qed

text \<open>The list operations of distinct keys rearrange: the contract \<open>reordering\<close>.\<close>

definition so_move_distinct :: "'a \<times> bool \<Rightarrow> 'a list \<Rightarrow> 'a list option" where
  "so_move_distinct p keys = (if distinct keys then so_stepped keys (fst p) (snd p) else None)"

interpretation steps: reordering so_move_distinct
  by unfold_locales
    (auto simp: so_move_distinct_def so_stepped_def dest: so_moved_mset elim: so_moved_SomeD
       split: if_splits)

lemma so_stepped_mset: "distinct keys \<Longrightarrow> so_stepped keys key down = Some next \<Longrightarrow> mset next = mset keys"
  using steps.move_mset [of "(key, down)" keys "next"] by (simp add: so_move_distinct_def)

lemma so_stepped_distinct: "distinct keys \<Longrightarrow> so_stepped keys key down = Some next \<Longrightarrow> distinct next"
  using steps.move_distinct [of "(key, down)" keys "next"] by (simp add: so_move_distinct_def)

lemma so_stepped_set: "distinct keys \<Longrightarrow> so_stepped keys key down = Some next \<Longrightarrow> set next = set keys"
  using steps.move_set [of "(key, down)" keys "next"] by (simp add: so_move_distinct_def)

lemma index_of_split: "key \<notin> set xs \<Longrightarrow> index_of key (xs @ key # ys) = Some (length xs)"
  by (simp add: index_of_append)

lemma so_stepped_down:
  assumes "distinct (xs @ [key, t] @ ys)"
  shows "so_stepped (xs @ [key, t] @ ys) key True = Some (xs @ [t, key] @ ys)"
proof -
  have "js_index (xs @ [key, t] @ ys) key = int (length xs)"
    using assms by (simp add: js_index_def index_of_append)
  then have at: "js_at (xs @ [key, t] @ ys) (js_index (xs @ [key, t] @ ys) key + 1) = Some t"
    by (simp add: js_at_def nth_append nat_add_distrib)
  have rest: "filter (\<lambda>k. k \<noteq> key) (xs @ [key, t] @ ys) = xs @ t # ys"
    using assms by (auto intro!: filter_True)
  have "index_of t (xs @ t # ys) = Some (length xs)" using assms by (simp add: index_of_append)
  then have "nat (js_index (xs @ t # ys) t) = length xs" by (simp add: js_index_def)
  with at rest assms show ?thesis
    by (auto simp: so_stepped_def so_moved_def Let_def)
qed

lemma so_stepped_up:
  assumes "distinct (xs @ [t, key] @ ys)"
  shows "so_stepped (xs @ [t, key] @ ys) key False = Some (xs @ [key, t] @ ys)"
proof -
  have "js_index (xs @ [t, key] @ ys) key = int (Suc (length xs))"
    using assms index_of_split [of key "xs @ [t]" ys] by (auto simp: js_index_def)
  then have at: "js_at (xs @ [t, key] @ ys) (js_index (xs @ [t, key] @ ys) key + -1) = Some t"
    by (simp add: js_at_def nth_append)
  have rest: "filter (\<lambda>k. k \<noteq> key) (xs @ [t, key] @ ys) = xs @ t # ys"
    using assms by (auto intro!: filter_True)
  have "index_of t (xs @ t # ys) = Some (length xs)" using assms by (simp add: index_of_append)
  then have "nat (js_index (xs @ t # ys) t) = length xs" by (simp add: js_index_def)
  with at rest assms show ?thesis
    by (auto simp: so_stepped_def so_moved_def Let_def)
qed

subsection \<open>A merged order keeps the other cards' places\<close>

lemma so_merge_go_length:
  "so_merge_go moving full shown = Some r \<Longrightarrow> length full \<le> length r"
  by (induction moving full shown arbitrary: r rule: so_merge_go.induct)
    (auto split: if_splits list.splits)

lemma so_merge_go_total:
  "length (filter (\<lambda>k. k \<in> set moving) full) \<le> length shown \<Longrightarrow>
   \<exists>r. so_merge_go moving full shown = Some r"
  by (induction moving full shown rule: so_merge_go.induct) (auto split: list.splits)

lemma so_merge_go_shown:
  "so_merge_go moving full shown = Some r \<Longrightarrow> set shown \<subseteq> set moving \<Longrightarrow>
   filter (\<lambda>k. k \<in> set moving) r = shown"
proof (induction moving full shown arbitrary: r rule: so_merge_go.induct)
  case (1 moving shown)
  then show ?case by (auto intro!: filter_True)
next
  case (2 moving key full shown)
  then show ?case by (fastforce split: if_splits list.splits)
qed

lemma so_merge_go_others:
  "so_merge_go moving full shown = Some r \<Longrightarrow> set shown \<subseteq> set moving \<Longrightarrow>
   filter (\<lambda>k. k \<notin> set moving) r = filter (\<lambda>k. k \<notin> set moving) full"
proof (induction moving full shown arbitrary: r rule: so_merge_go.induct)
  case (1 moving shown)
  then show ?case by (auto intro!: filter_False)
next
  case (2 moving key full shown)
  then show ?case by (fastforce split: if_splits list.splits)
qed

lemma so_merge_go_place:
  "so_merge_go moving full shown = Some r \<Longrightarrow> i < length full \<Longrightarrow> full ! i \<notin> set moving \<Longrightarrow>
   r ! i = full ! i"
  by (induction moving full shown arbitrary: r i rule: so_merge_go.induct)
    (fastforce simp: nth_Cons split: if_splits list.splits nat.splits)+

lemma so_merged_total:
  assumes "distinct full"
  shows "\<exists>r. so_merged full shown = Some r"
proof -
  have "length (filter (\<lambda>k. k \<in> set shown) full) = card (set (filter (\<lambda>k. k \<in> set shown) full))"
    by (metis assms distinct_card distinct_filter)
  also have "\<dots> \<le> card (set shown)" by (rule card_mono) auto
  also have "\<dots> \<le> length shown" by (rule card_length)
  finally show ?thesis unfolding so_merged_def by (rule so_merge_go_total)
qed

lemma so_merged_shown: "so_merged full shown = Some r \<Longrightarrow> filter (\<lambda>k. k \<in> set shown) r = shown"
  unfolding so_merged_def by (erule so_merge_go_shown) simp

lemma so_merged_others:
  "so_merged full shown = Some r \<Longrightarrow>
   filter (\<lambda>k. k \<notin> set shown) r = filter (\<lambda>k. k \<notin> set shown) full"
  unfolding so_merged_def by (erule so_merge_go_others) simp

lemma so_merged_place:
  "so_merged full shown = Some r \<Longrightarrow> i < length full \<Longrightarrow> full ! i \<notin> set shown \<Longrightarrow> r ! i = full ! i"
  unfolding so_merged_def by (rule so_merge_go_place)

lemma so_merged_set:
  assumes "so_merged full shown = Some r"
  shows "set r = set full \<union> set shown"
proof -
  have "set r = set (filter (\<lambda>k. k \<in> set shown) r) \<union> set (filter (\<lambda>k. k \<notin> set shown) r)" by auto
  also have "\<dots> = set shown \<union> (set full - set shown)"
    unfolding so_merged_shown [OF assms] so_merged_others [OF assms] by auto
  finally show ?thesis by auto
qed

lemma so_merged_distinct:
  assumes "distinct full" "distinct shown" "so_merged full shown = Some r"
  shows "distinct r"
proof -
  have "mset r = mset (filter (\<lambda>k. k \<in> set shown) r) + mset (filter (\<lambda>k. k \<notin> set shown) r)"
    by (metis mset_filter multiset_partition)
  also have "\<dots> = mset (shown @ filter (\<lambda>k. k \<notin> set shown) full)"
    unfolding so_merged_shown [OF assms(3)] so_merged_others [OF assms(3)] by simp
  finally have "mset r = mset (shown @ filter (\<lambda>k. k \<notin> set shown) full)" .
  moreover have "distinct (shown @ filter (\<lambda>k. k \<notin> set shown) full)" using assms by auto
  ultimately show ?thesis by (metis mset_eq_imp_distinct_iff)
qed

section \<open>The state, and what is drawn\<close>

text \<open>
  \<open>inflight\<close> is the order the call on its way carries (the local \<open>order\<close> of \<open>send\<close>); the other
  fields are the source's. \<open>shown\<close> and \<open>wanted\<close> are \<open>null\<close> or an order.
\<close>

record so_state =
  held_order :: "string list"
  held_rev :: int
  shown :: "string list option"
  wanted :: "string list option"
  busy :: bool
  inflight :: "string list option"

definition so_init :: so_state where
  "so_init = \<lparr>held_order = [], held_rev = -1, shown = None, wanted = None, busy = False, inflight = None\<rparr>"

definition so_current :: "so_state \<Rightarrow> string list" where
  "so_current s = (case shown s of Some order \<Rightarrow> order | None \<Rightarrow> held_order s)"

text \<open>\<open>Number.isInteger(x) ? x : d\<close>.\<close>

definition int_or :: "js \<Rightarrow> int \<Rightarrow> int" where
  "int_or v d = (case v of JNum r \<Rightarrow> if rat_int r then \<lfloor>r\<rfloor> else d | _ \<Rightarrow> d)"

definition so_read :: "js \<Rightarrow> so_state \<Rightarrow> so_state \<times> bool" where
  "so_read topology s =
     (let layout = js_or (jget topology ''layout'') (JObj []);
          rev = int_or (jget layout ''serverOrderRev'') 0
      in if rev < held_rev s then (s, False)
         else let before = so_current s;
                  s' = s\<lparr>held_order := so_clean (jget layout ''serverOrder''), held_rev := rev\<rparr>
              in (s', before \<noteq> so_current s'))"

definition so_rank :: "so_state \<Rightarrow> string \<Rightarrow> nat" where
  "so_rank s key = (let order = so_current s; i = js_index order key
     in if i < 0 then length order else nat i)"

text \<open>\<open>sorted\<close>: by rank, and by the place in \<open>items\<close> among equal ranks.\<close>

definition so_sorted :: "so_state \<Rightarrow> ('a \<Rightarrow> string) \<Rightarrow> 'a list \<Rightarrow> 'a list" where
  "so_sorted s key_of items =
     map fst (js_sort (\<lambda>(x, r, i) (y, q, j). if r \<noteq> q then r - q else i - j)
       (map (\<lambda>(i, item). (item, int (so_rank s (key_of item)), int i)) (enumerate 0 items)))"

definition so_attrs :: "so_state \<Rightarrow> string \<Rightarrow> string" where
  "so_attrs s key = '' data-server-card=\"'' @ escape_html key @ ''\" style=\"order:''
     @ nat_str (so_rank s key) @ ''\"''"

definition arrow_up :: string where
  "arrow_up = [CHR 0xE2, CHR 0x86, CHR 0x91]"

definition arrow_down :: string where
  "arrow_down = [CHR 0xE2, CHR 0x86, CHR 0x93]"

text \<open>\<open>t\<close> is the dictionary (\<open>i18n.js\<close>): the words of a key and its variables.\<close>

definition so_button :: "string \<Rightarrow> string \<Rightarrow> string \<Rightarrow> string \<Rightarrow> string" where
  "so_button way k words glyph =
     ''<button type=\"button\" class=\"server-step\" data-server-step=\"'' @ way
     @ ''\" data-t=\"server-step-'' @ way @ ''\" data-t-id=\"'' @ k @ ''\" title=\"'' @ words
     @ ''\" aria-label=\"'' @ words @ ''\">'' @ glyph @ ''</button>''"

definition so_controls :: "(string \<Rightarrow> (string \<times> string) list \<Rightarrow> string) \<Rightarrow> string \<Rightarrow> string \<Rightarrow> string" where
  "so_controls t key name =
     (let k = escape_html key; ws = [(''name'', name)];
          up = escape_html (t ''serverOrderUp'' ws); down = escape_html (t ''serverOrderDown'' ws)
      in ''<span class=\"server-order\">'' @ so_button ''up'' k up arrow_up
         @ so_button ''down'' k down arrow_down @ ''</span>'')"

text \<open>
  A card of the page as \<open>apply\<close> reads and writes it: its key, its \<open>style.order\<close>, whether each of
  its buttons is disabled (\<open>None\<close>: it has no such button) and whether their box is hidden.
\<close>

record so_card =
  card_key :: string
  card_order :: string
  card_up :: "bool option"
  card_down :: "bool option"
  card_box :: "bool option"

definition so_apply :: "so_state \<Rightarrow> so_card list \<Rightarrow> so_card list \<times> bool" where
  "so_apply s cards =
     (let moved = list_ex (\<lambda>c. card_order c \<noteq> nat_str (so_rank s (card_key c))) cards;
          keys = so_sorted s id (map card_key cards);
          alone = length cards < 2
      in (map (\<lambda>c. c\<lparr>card_order := nat_str (so_rank s (card_key c)),
                      card_up := map_option (\<lambda>_. js_at keys 0 = Some (card_key c)) (card_up c),
                      card_down := map_option (\<lambda>_. js_at keys (int (length keys) - 1) = Some (card_key c)) (card_down c),
                      card_box := map_option (\<lambda>_. alone) (card_box c)\<rparr>) cards, moved))"

definition so_on_screen :: "so_state \<Rightarrow> string list \<Rightarrow> string list" where
  "so_on_screen s keys = so_sorted s id keys"

section \<open>The save\<close>

text \<open>Each step gives the orders it posts.\<close>

definition so_save :: "string list \<Rightarrow> so_state \<Rightarrow> so_state \<times> string list list" where
  "so_save order s =
     (if busy s then (s\<lparr>shown := Some order, wanted := Some order\<rparr>, [])
      else (s\<lparr>shown := Some order, wanted := None, busy := True, inflight := Some order\<rparr>, [order]))"

text \<open>An answer \<open>{order, rev}\<close>: the next order waiting is sent, or the save is over.\<close>

definition so_answer :: "js \<Rightarrow> so_state \<Rightarrow> so_state \<times> string list list" where
  "so_answer answer s =
     (let s' = s\<lparr>held_order := so_clean (jget answer ''order''),
                 held_rev := int_or (jget answer ''rev'') (held_rev s)\<rparr>
      in case wanted s' of
           Some order \<Rightarrow> (s'\<lparr>wanted := None, inflight := Some order\<rparr>, [order])
         | None \<Rightarrow> (s'\<lparr>busy := False, shown := None, inflight := None\<rparr>, []))"

definition so_refused :: "so_state \<Rightarrow> so_state" where
  "so_refused s = s\<lparr>wanted := None, busy := False, shown := None, inflight := None\<rparr>"

text \<open>
  \<open>step\<close>: a press on \<open>key\<close>'s arrow, with the cards on the page. \<open>None\<close> would be an order with
  \<open>undefined\<close> in it.
\<close>

definition so_press :: "string list \<Rightarrow> string \<Rightarrow> bool \<Rightarrow> so_state \<Rightarrow> (so_state \<times> string list list) option" where
  "so_press cards key down s =
     (case so_stepped (so_on_screen s cards) key down of
        None \<Rightarrow> Some (s, [])
      | Some next \<Rightarrow> map_option (\<lambda>order. so_save order s) (so_merged (so_current s) next))"

datatype so_event = Poll js | Press "string list" string bool | Answer js | Refused

fun so_event_step :: "so_event \<Rightarrow> so_state \<Rightarrow> (so_state \<times> string list list) option" where
  "so_event_step (Poll topology) s = Some (fst (so_read topology s), [])"
| "so_event_step (Press cards key down) s = so_press cards key down s"
| "so_event_step (Answer a) s = (if inflight s = None then None else Some (so_answer a s))"
| "so_event_step Refused s = (if inflight s = None then None else Some (so_refused s, []))"

text \<open>The states a page can be in: the cards of a page have keys of their own.\<close>

inductive so_reach :: "so_state \<Rightarrow> bool" where
  init: "so_reach so_init"
| step: "so_reach s \<Longrightarrow> (\<forall>cards key down. e = Press cards key down \<longrightarrow> distinct cards) \<Longrightarrow>
    so_event_step e s = Some (s', posts) \<Longrightarrow> so_reach s'"

subsection \<open>Sorting by rank\<close>

lemma map_fst_js_sort_decorated:
  fixes f :: "'a \<Rightarrow> nat"
  shows "map fst (js_sort (\<lambda>(x, r, i) (y, q, j). if r \<noteq> q then r - q else i - j)
     (map (\<lambda>(i, item). (item, int (f item), int i)) (enumerate n items))) = sort_key f items"
proof (induction items arbitrary: n)
  case Nil
  then show ?case by (simp add: js_sort_def)
next
  case (Cons x items)
  let ?cmp = "\<lambda>(x, r, i) (y, q, j). if r \<noteq> q then r - q else (i - j :: int)"
  let ?dec = "\<lambda>(i, item). (item, int (f item), int i)"
  let ?ys = "js_sort ?cmp (map ?dec (enumerate (Suc n) items))"
  have dec: "\<exists>j. z = (fst z, int (f (fst z)), int j) \<and> n < j" if "z \<in> set ?ys" for z
    using that by (auto simp: in_set_enumerate_eq)
  have ins: "map fst (js_insert ?cmp (x, int (f x), int n) zs) = insort_key f x (map fst zs)"
    if "\<forall>z \<in> set zs. \<exists>j. z = (fst z, int (f (fst z)), int j) \<and> n < j" for zs :: "('a \<times> int \<times> int) list"
    using that
  proof (induction zs)
    case Nil
    then show ?case by simp
  next
    case (Cons z zs)
    then obtain y j where z: "z = (y, int (f y), int j)" and "n < j" by (metis list.set_intros(1))
    then have "(?cmp (x, int (f x), int n) z \<le> 0) = (f x \<le> f y)" by simp
    with z Cons show ?case by simp
  qed
  from dec have "\<forall>z \<in> set ?ys. \<exists>j. z = (fst z, int (f (fst z)), int j) \<and> n < j" by blast
  from ins [OF this] Cons.IH [of "Suc n"] show ?case
    by (simp add: js_sort_def)
qed

lemma so_sorted_sort_key: "so_sorted s key_of items = sort_key (\<lambda>x. so_rank s (key_of x)) items"
  unfolding so_sorted_def by (rule map_fst_js_sort_decorated)

lemma so_sorted_mset [simp]: "mset (so_sorted s key_of items) = mset items"
  by (simp add: so_sorted_sort_key)

lemma so_on_screen_set [simp]: "set (so_on_screen s keys) = set keys"
  by (simp add: so_on_screen_def so_sorted_sort_key)

lemma so_on_screen_distinct [simp]: "distinct (so_on_screen s keys) = distinct keys"
  by (simp add: so_on_screen_def so_sorted_sort_key)

lemma so_rank_mem: "distinct (so_current s) \<Longrightarrow> i < length (so_current s) \<Longrightarrow> so_rank s (so_current s ! i) = i"
  by (simp add: so_rank_def js_index_def index_of_nth)

lemma so_rank_absent: "key \<notin> set (so_current s) \<Longrightarrow> so_rank s key = length (so_current s)"
  by (simp add: so_rank_def js_index_def)

lemma sorted_rank_filter:
  "distinct (so_current s) \<Longrightarrow> sorted (map (so_rank s) (filter P (so_current s)))"
proof -
  assume d: "distinct (so_current s)"
  have "map (so_rank s) (so_current s) = [0..<length (so_current s)]"
    by (rule nth_equalityI) (simp_all add: so_rank_mem d)
  then have "sorted (map (so_rank s) (so_current s))" by simp
  then show ?thesis by (metis sorted_filter)
qed

lemma so_rank_inj: "distinct (so_current s) \<Longrightarrow> inj_on (so_rank s) (set (so_current s))"
  by (rule inj_onI) (metis in_set_conv_nth so_rank_mem)

text \<open>The cards of an order that names them all stand in that order.\<close>

lemma so_on_screen_named:
  assumes "distinct (so_current s)" "distinct keys" "set keys \<subseteq> set (so_current s)"
  shows "so_on_screen s keys = filter (\<lambda>k. k \<in> set keys) (so_current s)"
proof -
  let ?l = "filter (\<lambda>k. k \<in> set keys) (so_current s)"
  have set: "set ?l = set keys" using assms(3) by auto
  have "mset ?l = mset keys"
    using set_eq_iff_mset_eq_distinct [of ?l keys] assms(1,2) set by (metis distinct_filter)
  moreover have "sorted (map (so_rank s) ?l)" by (rule sorted_rank_filter [OF assms(1)])
  moreover have "inj_on (so_rank s) (set keys)"
    using so_rank_inj [OF assms(1)] assms(3) by (rule inj_on_subset)
  ultimately show ?thesis
    unfolding so_on_screen_def so_sorted_sort_key
    by (intro sort_key_inj_key_eq) simp_all
qed

subsection \<open>The invariant of the save\<close>

definition so_inv :: "so_state \<Rightarrow> bool" where
  "so_inv s \<longleftrightarrow>
     distinct (held_order s) \<and> (busy s \<longleftrightarrow> inflight s \<noteq> None) \<and>
     (wanted s \<noteq> None \<longrightarrow> busy s) \<and>
     shown s = (case wanted s of Some order \<Rightarrow> Some order | None \<Rightarrow> inflight s) \<and>
     (\<forall>order. shown s = Some order \<longrightarrow> distinct order)"

lemma so_inv_current: "so_inv s \<Longrightarrow> distinct (so_current s)"
  by (auto simp: so_inv_def so_current_def split: option.splits)

lemma so_inv_init [inv_intros]: "so_inv so_init"
  by (simp add: so_inv_def so_init_def)

lemma so_read_frame [simp]:
  "busy (fst (so_read topology s)) = busy s" "shown (fst (so_read topology s)) = shown s"
  "wanted (fst (so_read topology s)) = wanted s" "inflight (fst (so_read topology s)) = inflight s"
  by (simp_all add: so_read_def Let_def)

lemma so_inv_read [inv_intros]: "so_inv s \<Longrightarrow> so_inv (fst (so_read topology s))"
  by (auto simp: so_inv_def so_read_def Let_def split: option.splits)

lemma so_inv_save [inv_intros]: "so_inv s \<Longrightarrow> distinct order \<Longrightarrow> so_inv (fst (so_save order s))"
  by (auto simp: so_inv_def so_save_def)

lemma so_inv_answer [inv_intros]: "so_inv s \<Longrightarrow> so_inv (fst (so_answer a s))"
  by (auto simp: so_inv_def so_answer_def Let_def split: option.splits)

lemma so_inv_refused [inv_intros]: "so_inv s \<Longrightarrow> so_inv (so_refused s)"
  by (auto simp: so_inv_def so_refused_def)

lemma so_press_total:
  assumes "so_inv s"
  shows "so_press cards key down s \<noteq> None"
proof (cases "so_stepped (so_on_screen s cards) key down")
  case None
  then show ?thesis by (simp add: so_press_def)
next
  case (Some nxt)
  moreover obtain order where "so_merged (so_current s) nxt = Some order"
    using so_merged_total [OF so_inv_current [OF assms]] by blast
  ultimately show ?thesis by (simp add: so_press_def)
qed

lemma so_inv_press [inv_intros]:
  assumes "so_inv s" "distinct cards" "so_press cards key down s = Some (s', posts)"
  shows "so_inv s'"
proof (cases "so_stepped (so_on_screen s cards) key down")
  case None
  with assms show ?thesis by (simp add: so_press_def)
next
  case (Some nxt)
  with assms(3) obtain order where o: "so_merged (so_current s) nxt = Some order"
    and s': "s' = fst (so_save order s)" by (auto simp: so_press_def)
  from Some assms(2) have "distinct nxt" by (metis so_on_screen_distinct so_stepped_distinct)
  then have "distinct order" using so_merged_distinct [OF so_inv_current [OF assms(1)] _ o] by simp
  then show ?thesis using assms(1) s' by (simp add: so_inv_save)
qed

lemma so_reach_inv: "so_reach s \<Longrightarrow> so_inv s"
proof (induction rule: so_reach.induct)
  case init
  show ?case by (rule so_inv_init)
next
  case (step s e s' posts)
  show ?case
  proof (cases e)
    case (Answer a)
    with step have "s' = fst (so_answer a s)" by (auto split: if_splits dest: arg_cong [where f = fst])
    with step show ?thesis by (simp add: so_inv_answer)
  qed (use step in \<open>auto split: if_splits intro: so_inv_press so_inv_read so_inv_refused\<close>)
qed

text \<open>The save keeps the contract \<open>single_flight\<close>; a settling call is an answer or a refusal.\<close>

definition so_settle :: "js option \<Rightarrow> so_state \<Rightarrow> so_state \<times> string list list" where
  "so_settle a s = (case a of Some v \<Rightarrow> so_answer v s | None \<Rightarrow> (so_refused s, []))"

interpretation saves: single_flight busy so_save so_settle
  by unfold_locales
    (auto simp: so_save_def so_settle_def so_answer_def so_refused_def Let_def
       split: if_splits option.splits)

fun so_run :: "so_event list \<Rightarrow> so_state \<Rightarrow> (so_state \<times> string list list) option" where
  "so_run [] s = Some (s, [])"
| "so_run (e # es) s = (case so_event_step e s of None \<Rightarrow> None
     | Some (s', posts) \<Rightarrow> map_option (\<lambda>(s'', more). (s'', posts @ more)) (so_run es s'))"

fun so_settles :: "so_event \<Rightarrow> bool" where
  "so_settles (Answer a) = True"
| "so_settles Refused = True"
| "so_settles e = False"

lemma so_step_count:
  assumes "so_inv s" "so_event_step e s = Some (s', posts)"
  shows "length posts + (if busy s then 1 else 0) = (if busy s' then 1 else 0) + (if so_settles e then 1 else (0::nat))"
proof (cases e)
  case (Poll topology)
  with assms show ?thesis by auto
next
  case (Press cards key down)
  show ?thesis
  proof (cases "so_stepped (so_on_screen s cards) key down")
    case None
    with Press assms show ?thesis by (simp add: so_press_def)
  next
    case (Some nxt)
    with Press assms obtain order where "so_save order s = (s', posts)" by (auto simp: so_press_def)
    with Press show ?thesis using saves.start_calls by simp
  qed
next
  case (Answer a)
  with assms have "busy s" "so_settle (Some a) s = (s', posts)"
    by (auto simp: so_inv_def so_settle_def split: if_splits)
  with Answer show ?thesis using saves.settle_calls by simp
next
  case Refused
  with assms have "busy s" "so_settle None s = (s', posts)"
    by (auto simp: so_inv_def so_settle_def split: if_splits)
  with Refused show ?thesis using saves.settle_calls by simp
qed

lemma so_run_count:
  "so_inv s \<Longrightarrow> so_reach s \<Longrightarrow> \<forall>e \<in> set es. \<forall>cards key down. e = Press cards key down \<longrightarrow> distinct cards \<Longrightarrow>
   so_run es s = Some (s', posts) \<Longrightarrow>
   length posts + (if busy s then 1 else 0) = length (filter so_settles es) + (if busy s' then 1 else (0::nat))"
proof (induction es arbitrary: s posts)
  case Nil
  then show ?case by simp
next
  case (Cons e es)
  from Cons.prems(4) obtain s1 p1 p2 where e: "so_event_step e s = Some (s1, p1)"
    and es: "so_run es s1 = Some (s', p2)" and posts: "posts = p1 @ p2"
    by (auto split: option.splits)
  have r: "so_reach s1" using Cons.prems(2,3) e by (auto intro: so_reach.step)
  have "length p2 + (if busy s1 then 1 else 0) = length (filter so_settles es) + (if busy s' then 1 else (0::nat))"
    using Cons.IH [OF so_reach_inv [OF r] r _ es] Cons.prems(3) by simp
  with so_step_count [OF Cons.prems(1) e] posts show ?case by auto
qed

lemma so_on_screen_merged:
  assumes "so_merged full nxt = Some order" "distinct order" "distinct cards" "set nxt = set cards"
    "so_current s' = order"
  shows "so_on_screen s' cards = nxt"
proof -
  have "set cards \<subseteq> set (so_current s')" using so_merged_set [OF assms(1)] assms(4,5) by simp
  then have "so_on_screen s' cards = filter (\<lambda>k. k \<in> set cards) order"
    using so_on_screen_named assms(2,3,5) by metis
  also have "\<dots> = filter (\<lambda>k. k \<in> set nxt) order" using assms(4) by simp
  finally show ?thesis using so_merged_shown [OF assms(1)] by simp
qed

lemma so_press_screen:
  assumes inv: "so_inv s" and d: "distinct cards"
    and st: "so_stepped (so_on_screen s cards) key down = Some nxt"
  shows "\<exists>s' posts. so_press cards key down s = Some (s', posts) \<and> so_on_screen s' cards = nxt \<and>
    (\<forall>i < length (so_current s). so_current s ! i \<notin> set cards \<longrightarrow> so_current s' ! i = so_current s ! i)"
proof -
  obtain order where o: "so_merged (so_current s) nxt = Some order"
    using so_merged_total [OF so_inv_current [OF inv]] by blast
  have nxt: "distinct nxt" "set nxt = set cards"
    using st d so_stepped_distinct so_stepped_set by (metis so_on_screen_distinct, metis so_on_screen_distinct so_on_screen_set)
  let ?s = "fst (so_save order s)"
  have cur: "so_current ?s = order" by (simp add: so_save_def so_current_def)
  have "distinct order" using so_merged_distinct [OF so_inv_current [OF inv] nxt(1) o] .
  then have "so_on_screen ?s cards = nxt" using so_on_screen_merged [OF o _ d nxt(2) cur] by simp
  moreover have "so_press cards key down s = Some (?s, snd (so_save order s))"
    using st o by (simp add: so_press_def)
  ultimately show ?thesis
    using so_merged_place [OF o] nxt(2) cur
    by (intro exI [of _ ?s] exI [of _ "snd (so_save order s)"]) simp
qed

lemma so_stepped_None_iff:
  assumes "distinct keys" "key \<in> set keys"
  shows "so_stepped keys key True = None \<longleftrightarrow> js_at keys (int (length keys) - 1) = Some key"
    and "so_stepped keys key False = None \<longleftrightarrow> js_at keys 0 = Some key"
proof -
  obtain xs ys where k: "keys = xs @ key # ys" using assms(2) by (meson split_list)
  have i: "js_index keys key = int (length xs)"
    using assms(1) k by (simp add: js_index_def index_of_append)
  show "so_stepped keys key True = None \<longleftrightarrow> js_at keys (int (length keys) - 1) = Some key"
  proof (cases ys)
    case Nil
    with k i show ?thesis by (auto simp: so_stepped_def so_moved_def js_at_def nth_append nat_add_distrib)
  next
    case (Cons t ts)
    then have "so_stepped keys key True \<noteq> None" using so_stepped_down [of xs key t ts] assms(1) k by simp
    moreover have "last keys \<noteq> key" using Cons k assms(1) by (auto split: if_splits)
    moreover have "js_at keys (int (length keys) - 1) = Some (last keys)"
      using k by (intro js_at_last) simp
    ultimately show ?thesis by simp
  qed
  show "so_stepped keys key False = None \<longleftrightarrow> js_at keys 0 = Some key"
  proof (cases xs rule: rev_cases)
    case Nil
    with k i show ?thesis by (auto simp: so_stepped_def so_moved_def js_at_def)
  next
    case (snoc zs t)
    then have "so_stepped keys key False \<noteq> None" using so_stepped_up [of zs t key ys] assms(1) k by simp
    moreover have "hd keys \<noteq> key" using snoc k assms(1) by (cases zs) auto
    moreover have "js_at keys 0 = Some (hd keys)" using k by (intro js_at_hd) simp
    ultimately show ?thesis by simp
  qed
qed

section \<open>Properties\<close>

text \<open>(C1) A press on a card's arrow moves it exactly one place: if \<open>a\<close> stands right above \<open>b\<close> on the
  screen, a press on \<open>a\<close>'s down arrow, and equally one on \<open>b\<close>'s up arrow, leaves the screen with \<open>b\<close>
  right above \<open>a\<close> and nothing else moved, and every key of the order that is not a card of this
  list keeps its place in the order that is saved.\<close>

theorem so_press_moves_one_place:
  assumes "so_reach s" and "distinct cards" and "so_on_screen s cards = xs @ [a, b] @ ys"
    and "(key, down) \<in> {(a, True), (b, False)}"
  shows "\<exists>s' posts. so_event_step (Press cards key down) s = Some (s', posts) \<and>
    so_on_screen s' cards = xs @ [b, a] @ ys \<and>
    (\<forall>i < length (so_current s). so_current s ! i \<notin> set cards \<longrightarrow> so_current s' ! i = so_current s ! i)"
proof -
  have "distinct (xs @ [a, b] @ ys)" using assms(2,3) by (metis so_on_screen_distinct)
  then have "so_stepped (so_on_screen s cards) key down = Some (xs @ [b, a] @ ys)"
    using assms(3,4) so_stepped_down so_stepped_up by fastforce
  then show ?thesis
    using so_press_screen [OF so_reach_inv [OF assms(1)] assms(2)] by simp
qed

theorem so_press_moves_one_place_witness:
  "\<exists>s' posts. so_event_step (Press [''node:a'', ''cloud:b''] ''node:a'' True) so_init = Some (s', posts) \<and>
    so_on_screen s' [''node:a'', ''cloud:b''] = [''cloud:b'', ''node:a'']"
proof -
  have "so_on_screen so_init [''node:a'', ''cloud:b''] = [] @ [''node:a'', ''cloud:b''] @ []"
    by code_simp
  from so_press_moves_one_place [OF so_reach.init _ this, of "''node:a''" True] show ?thesis by auto
qed

text \<open>(C2) At most one save is on its way: along any run of polls, presses, answers and refusals, the
  orders posted are as many as the calls that have settled, and one more exactly while the page is
  busy.\<close>

theorem so_one_save_at_a_time:
  assumes "so_run es so_init = Some (s, posts)"
    and "\<forall>e \<in> set es. \<forall>cards key down. e = Press cards key down \<longrightarrow> distinct cards"
  shows "length posts = length (filter so_settles es) + (if busy s then 1 else 0)"
  using so_run_count [OF so_inv_init so_reach.init assms(2,1)] by (simp add: so_init_def)

theorem so_one_save_at_a_time_witness:
  "\<exists>s posts. so_run [Press [''node:a'', ''node:b''] ''node:a'' True,
       Press [''node:a'', ''node:b''] ''node:a'' False, Answer JNull] so_init = Some (s, posts) \<and>
     length posts = 1 + (if busy s then 1 else 0) \<and> busy s"
proof -
  let ?es = "[Press [''node:a'', ''node:b''] ''node:a'' True,
       Press [''node:a'', ''node:b''] ''node:a'' False, Answer JNull]"
  have "map_option (\<lambda>(s, posts). busy s) (so_run ?es so_init) = Some True" by code_simp
  then obtain s posts where "so_run ?es so_init = Some (s, posts)" "busy s" by auto
  with so_one_save_at_a_time [OF this(1)] show ?thesis by auto
qed

text \<open>(C3) The newest order is the one that stays: from any reachable state with an order on screen,
  the call on its way and at most one more (which posts the order on screen) end the save, and if
  the controller keeps what it was last sent, the page then holds and shows exactly that order.\<close>

definition so_echo :: "rat \<Rightarrow> string list \<Rightarrow> js" where
  "so_echo n order = JObj [(''order'', JArr (map JStr order)), (''rev'', JNum n)]"

theorem so_save_converges:
  assumes "so_reach s" and "shown s = Some order" and "list_all so_valid order"
  shows "\<exists>s' posts.
    so_run (if wanted s = None then [Answer (so_echo n order)] else [Answer a, Answer (so_echo n order)]) s
      = Some (s', posts) \<and>
    posts = (if wanted s = None then [] else [order]) \<and>
    \<not> busy s' \<and> shown s' = None \<and> held_order s' = order \<and> so_current s' = order"
proof -
  have inv: "so_inv s" by (rule so_reach_inv [OF assms(1)])
  then have "distinct order" "inflight s \<noteq> None" "wanted s = None \<or> wanted s = Some order"
    using assms(2) by (auto simp: so_inv_def split: option.splits)
  then show ?thesis
    using assms(2,3)
    by (auto simp: so_answer_def so_echo_def so_current_def so_clean_of_order Let_def)
qed

theorem so_save_converges_witness:
  "\<exists>s. so_reach s \<and> shown s = Some [''node:b'', ''node:a''] \<and>
    (\<exists>s' posts. so_run [Answer (so_echo 1 [''node:b'', ''node:a''])] s = Some (s', posts) \<and>
       so_current s' = [''node:b'', ''node:a''])"
proof -
  let ?e = "Press [''node:a'', ''node:b''] ''node:a'' True"
  have "map_option (\<lambda>(s, posts). (shown s, wanted s)) (so_event_step ?e so_init) =
      Some (Some [''node:b'', ''node:a''], None)"
    by code_simp
  then obtain s posts where s: "so_event_step ?e so_init = Some (s, posts)"
    "shown s = Some [''node:b'', ''node:a'']" "wanted s = None" by auto
  have "so_reach s" by (rule so_reach.step [OF so_reach.init _ s(1)]) simp
  moreover have "list_all so_valid [''node:b'', ''node:a'']" by code_simp
  ultimately have "\<exists>s' posts. so_run [Answer (so_echo 1 [''node:b'', ''node:a''])] s = Some (s', posts) \<and>
       so_current s' = [''node:b'', ''node:a'']"
    using so_save_converges [OF _ s(2), of 1 undefined] by (simp only: s(3) refl if_True) blast
  with \<open>so_reach s\<close> s(2) show ?thesis by blast
qed

text \<open>A list that shows some of the cards does not drop the others' places: merging an order of
  the shown cards into the full one always gives an order (no place is left empty), with every
  key of either once, the shown cards in their own order, and every other key of the full order
  at the index it had.\<close>

theorem so_merged_keeps_places:
  assumes "distinct full" and "distinct shown_keys"
  shows "\<exists>order. so_merged full shown_keys = Some order \<and> distinct order \<and>
    set order = set full \<union> set shown_keys \<and>
    filter (\<lambda>k. k \<in> set shown_keys) order = shown_keys \<and>
    (\<forall>i < length full. full ! i \<notin> set shown_keys \<longrightarrow> order ! i = full ! i)"
proof -
  obtain order where o: "so_merged full shown_keys = Some order"
    using so_merged_total [OF assms(1)] by blast
  show ?thesis
    using o so_merged_distinct [OF assms o] so_merged_set [OF o] so_merged_shown [OF o]
      so_merged_place [OF o] by (intro exI [of _ order]) simp
qed

theorem so_merged_keeps_places_witness:
  "so_merged [1, 2, 3, 4::nat] [4, 2, 9] = Some [1, 4, 3, 2, 9] \<and>
   (\<exists>order. so_merged [1, 2, 3, 4::nat] [4, 2, 9] = Some order \<and> order ! 2 = 3)"
proof -
  have "distinct [1, 2, 3, 4::nat]" "distinct [4, 2, 9::nat]" by simp_all
  from so_merged_keeps_places [OF this] obtain order where
    "so_merged [1, 2, 3, 4::nat] [4, 2, 9] = Some order" and
    places: "\<forall>i < length [1, 2, 3, 4::nat]. [1, 2, 3, 4::nat] ! i \<notin> set [4, 2, 9] \<longrightarrow> order ! i = [1, 2, 3, 4] ! i"
    by blast
  moreover from places have "order ! 2 = 3" by (auto dest: spec [where x = 2])
  moreover have "so_merged [1, 2, 3, 4::nat] [4, 2, 9] = Some [1, 4, 3, 2, 9]" by code_simp
  ultimately show ?thesis by blast
qed

text \<open>Whatever the controller (or a hand-edited document) sends as the order is read as an order:
  the keys are distinct, each names a kind and an id, they are exactly the valid keys of the list
  sent, and reading what was read gives it back.\<close>

theorem so_clean_is_an_order:
  "distinct (so_clean v) \<and> list_all so_valid (so_clean v) \<and>
   set (so_clean v) = {key. so_valid key \<and> (\<exists>vs. v = JArr vs \<and> JStr key \<in> set vs)} \<and>
   so_clean (JArr (map JStr (so_clean v))) = so_clean v"
proof -
  have "set (so_clean v) = {key. so_valid key \<and> (\<exists>vs. v = JArr vs \<and> JStr key \<in> set vs)}"
    by (cases v) (auto simp: so_clean_def dest: so_clean_go_sound intro: so_clean_go_complete)
  then show ?thesis using so_clean_of_order [OF so_clean_distinct so_clean_valid] by (simp add: so_clean_valid)
qed

text \<open>An arrow is drawn dead exactly where it has nowhere to go: after \<open>apply\<close>, a card's down
  (up) button is disabled if and only if a press on it would change nothing, and a card alone has
  no arrows at all.\<close>

theorem so_apply_buttons:
  assumes "distinct (map card_key cards)" and "c \<in> set (fst (so_apply s cards))"
  shows "(card_down c = Some True \<longrightarrow> so_stepped (so_on_screen s (map card_key cards)) (card_key c) True = None) \<and>
    (card_down c = Some False \<longrightarrow> so_stepped (so_on_screen s (map card_key cards)) (card_key c) True \<noteq> None) \<and>
    (card_up c = Some True \<longrightarrow> so_stepped (so_on_screen s (map card_key cards)) (card_key c) False = None) \<and>
    (card_up c = Some False \<longrightarrow> so_stepped (so_on_screen s (map card_key cards)) (card_key c) False \<noteq> None) \<and>
    (card_box c = Some True \<longrightarrow> length cards = 1) \<and> (card_box c = Some False \<longrightarrow> length cards > 1)"
proof -
  let ?keys = "so_on_screen s (map card_key cards)"
  from assms(2) obtain c0 where c0: "c0 \<in> set cards" "card_key c = card_key c0"
    and dn: "card_down c = map_option (\<lambda>_. js_at ?keys (int (length ?keys) - 1) = Some (card_key c)) (card_down c0)"
    and up: "card_up c = map_option (\<lambda>_. js_at ?keys 0 = Some (card_key c)) (card_up c0)"
    and box: "card_box c = map_option (\<lambda>_. length cards < 2) (card_box c0)"
    by (auto simp: so_apply_def so_on_screen_def Let_def)
  have keys: "distinct ?keys" "card_key c \<in> set ?keys" using assms(1) c0 by auto
  have "(card_box c = Some True \<longrightarrow> length cards = 1) \<and> (card_box c = Some False \<longrightarrow> length cards > 1)"
    using box c0(1) by (cases cards) (auto split: if_splits)
  then show ?thesis
    using so_stepped_None_iff [OF keys] dn up by auto
qed

theorem so_apply_buttons_witness:
  "so_stepped (so_on_screen so_init [''node:a'', ''node:b'']) ''node:b'' True = None"
proof -
  let ?card = "\<lambda>k. \<lparr>card_key = k, card_order = [], card_up = Some True, card_down = Some False, card_box = Some False\<rparr>"
  let ?cards = "[?card ''node:a'', ?card ''node:b'']"
  let ?c = "(?card ''node:b'')\<lparr>card_order := ''0'', card_up := Some False, card_down := Some True\<rparr>"
  have "snd (so_apply so_init ?cards) \<and> fst (so_apply so_init ?cards) ! 1 = ?c
    \<and> length (fst (so_apply so_init ?cards)) = 2" by code_simp
  then have "?c \<in> set (fst (so_apply so_init ?cards))" by (metis lessI nth_mem numeral_2_eq_2 One_nat_def)
  from so_apply_buttons [OF _ this] show ?thesis by simp
qed

end
