(* ===== verification/StepCarry.thy ===== *)
theory StepCarry
  imports JsValue Interfaces
begin

text \<open>
  \<open>static/js/step-carry.js\<close>: carrying a pool's step (or a card of Routing) to another place by the
  pointer or by Alt and an arrow key. The model keeps the class's own fields, the children of each
  list, the marks a carry leaves on the page, the timers and frames that are pending, and the
  calls of \<open>onSort\<close> on their way. What the browser measures (\<open>getBoundingClientRect\<close>, \<open>offsetTop\<close>)
  comes with the event, in \<open>sc_geo\<close>. A landing ends once: of the glide's end and the timer behind it the later one finds
  the card landed (the case of another carry in its landing by then is left out). The sliding of the other cards (\<open>Slide\<close>) moves nothing in the
  document and is not modelled.
\<close>

section \<open>The document\<close>

record dom_node =
  n_ref :: nat
  n_id :: string      \<comment> \<open>\<open>parts.idOf\<close>, empty where it gives \<open>undefined\<close>\<close>
  n_item :: bool      \<comment> \<open>\<open>el.matches(parts.item)\<close>\<close>

definition sc_rungs :: "dom_node list \<Rightarrow> dom_node list" where
  "sc_rungs children = filter n_item children"

definition sc_order :: "dom_node list \<Rightarrow> string list" where
  "sc_order children = filter (\<lambda>i. i \<noteq> []) (map n_id (sc_rungs children))"

text \<open>\<open>list.insertBefore(x, ref)\<close>, \<open>ref\<close> null for the end; \<open>list.appendChild(x)\<close> is the latter.\<close>

definition dom_insert :: "dom_node list \<Rightarrow> dom_node \<Rightarrow> dom_node option \<Rightarrow> dom_node list" where
  "dom_insert children x ref =
     (let rest = remove1 x children
      in case ref of None \<Rightarrow> rest @ [x]
         | Some r \<Rightarrow> takeWhile (\<lambda>n. n \<noteq> r) rest @ x # dropWhile (\<lambda>n. n \<noteq> r) rest)"

section \<open>The state\<close>

datatype sc_phase = Idle | Pending | Carrying | Landing | Saving

record sc_state =
  sc_phase_of :: sc_phase
  sc_rung :: "dom_node option"
  sc_list :: "nat option"
  sc_pointer_id :: "int option"
  sc_start :: "rat \<times> rat"
  sc_pointer :: "rat \<times> rat"
  sc_before :: "string list"
  sc_seat_top :: rat
  sc_frame :: bool
  sc_scroll_frame :: bool
  sc_scrolling :: rat
  sc_keyed :: "(nat \<times> string list) option"
  sc_lazy :: bool
  sc_children :: "nat \<Rightarrow> dom_node list"
  sc_carried :: bool                        \<comment> \<open>the classes \<open>carried\<close>, \<open>sorting\<close>, \<open>step-carrying\<close>\<close>
  sc_transform :: "(rat \<times> rat) option"
  sc_dones :: "bool list"                   \<comment> \<open>the landings whose callback is still to come\<close>
  sc_saves :: nat                           \<comment> \<open>calls of \<open>onSort\<close> not settled\<close>

definition sc_init :: "(nat \<Rightarrow> dom_node list) \<Rightarrow> sc_state" where
  "sc_init children = \<lparr>sc_phase_of = Idle, sc_rung = None, sc_list = None, sc_pointer_id = None,
     sc_start = (0, 0), sc_pointer = (0, 0), sc_before = [], sc_seat_top = 0, sc_frame = False,
     sc_scroll_frame = False, sc_scrolling = 0, sc_keyed = None, sc_lazy = False,
     sc_children = children, sc_carried = False, sc_transform = None, sc_dones = [], sc_saves = 0\<rparr>"

definition sc_busy :: "sc_state \<Rightarrow> bool" where
  "sc_busy s = (sc_phase_of s \<noteq> Idle \<or> sc_keyed s \<noteq> None)"

text \<open>What is measured when a frame is drawn: the list's scrolled top, the middle of each seat in
  it (\<open>within\<close> plus half its height), where the seat is, and the scroller's box.\<close>

record sc_geo =
  g_list_top :: rat
  g_mid :: "nat \<Rightarrow> rat"
  g_seat :: rat
  g_top :: rat
  g_bottom :: rat

definition sc_reset :: "sc_state \<Rightarrow> sc_state" where
  "sc_reset s = s\<lparr>sc_phase_of := Idle, sc_rung := None, sc_list := None, sc_pointer_id := None,
     sc_frame := False, sc_scrolling := 0\<rparr>"

definition sc_newline :: string where
  "sc_newline = [CHR 0x0A]"

definition sc_differs :: "string list \<Rightarrow> string list \<Rightarrow> bool" where
  "sc_differs after before = (js_join sc_newline after \<noteq> js_join sc_newline before)"

text \<open>\<open>save\<close> up to its \<open>await\<close>, and its \<open>finally\<close>.\<close>

definition sc_save :: "nat \<Rightarrow> string list \<Rightarrow> sc_state \<Rightarrow> sc_state \<times> (nat \<times> string list) list" where
  "sc_save l order s = (s\<lparr>sc_phase_of := Saving, sc_saves := Suc (sc_saves s)\<rparr>, [(l, order)])"

definition sc_saved :: "sc_state \<Rightarrow> sc_state" where
  "sc_saved s = s\<lparr>sc_phase_of := Idle, sc_saves := sc_saves s - 1\<rparr>"

definition sc_flush :: "sc_state \<Rightarrow> sc_state \<times> (nat \<times> string list) list" where
  "sc_flush s =
     (let s = s\<lparr>sc_lazy := False\<rparr>
      in case sc_keyed s of None \<Rightarrow> (s, [])
         | Some (l, before) \<Rightarrow>
             let s = s\<lparr>sc_keyed := None\<rparr>; after = sc_order (sc_children s l)
             in if sc_differs after before then sc_save l after s else (s, []))"

section \<open>The pointer\<close>

definition sc_press :: "int \<Rightarrow> bool \<Rightarrow> int \<Rightarrow> rat \<times> rat \<Rightarrow> (nat \<times> dom_node) option \<Rightarrow>
    sc_state \<Rightarrow> sc_state \<times> (nat \<times> string list) list" where
  "sc_press button primary pid pos grip s =
     (if sc_phase_of s \<noteq> Idle \<or> button \<noteq> 0 \<or> \<not> primary then (s, [])
      else case grip of None \<Rightarrow> (s, [])
        | Some (l, r) \<Rightarrow>
            if r \<notin> set (sc_rungs (sc_children s l)) \<or> length (sc_rungs (sc_children s l)) < 2 then (s, [])
            else let (s, posts) = sc_flush s
                 in (s\<lparr>sc_rung := Some r, sc_list := Some l, sc_phase_of := Pending,
                       sc_pointer_id := Some pid, sc_start := pos, sc_pointer := pos\<rparr>, posts))"

definition sc_lift :: "rat \<Rightarrow> sc_state \<Rightarrow> sc_state" where
  "sc_lift seat s =
     (case sc_list s of None \<Rightarrow> s
      | Some l \<Rightarrow> s\<lparr>sc_before := sc_order (sc_children s l), sc_seat_top := seat, sc_carried := True,
                    sc_phase_of := Carrying, sc_frame := True\<rparr>)"

definition sc_slop :: rat where
  "sc_slop = 5"

definition sc_move :: "int \<Rightarrow> rat \<times> rat \<Rightarrow> rat \<Rightarrow> sc_state \<Rightarrow> sc_state" where
  "sc_move pid pos seat s =
     (if sc_pointer_id s \<noteq> Some pid then s
      else let s = s\<lparr>sc_pointer := pos\<rparr>;
               dx = fst pos - fst (sc_start s); dy = snd pos - snd (sc_start s)
           in if sc_phase_of s = Pending \<and> dx * dx + dy * dy > sc_slop * sc_slop then sc_lift seat s
              else if sc_phase_of s = Carrying then s\<lparr>sc_frame := True\<rparr> else s)"

text \<open>The empty place goes before the first step whose middle is below the pointer.\<close>

definition sc_place_index :: "sc_geo \<Rightarrow> rat \<Rightarrow> dom_node list \<Rightarrow> nat" where
  "sc_place_index g y others = length (filter (\<lambda>r. y > g_mid g (n_ref r)) others)"

definition sc_place :: "sc_geo \<Rightarrow> rat \<Rightarrow> dom_node \<Rightarrow> dom_node list \<Rightarrow> dom_node list" where
  "sc_place g y r children =
     (let others = filter (\<lambda>n. n \<noteq> r) (sc_rungs children);
          i = sc_place_index g (y - g_list_top g) others
      in if Some i = index_of r (sc_rungs children) then children
         else dom_insert children r (js_at others (int i)))"

definition sc_edge :: rat where
  "sc_edge = 60"

definition sc_lean :: "sc_geo \<Rightarrow> rat \<Rightarrow> rat" where
  "sc_lean g y = (if y < g_top g + sc_edge then -1 else if y > g_bottom g - sc_edge then 1 else 0)"

definition sc_scroll_speed :: "sc_geo \<Rightarrow> rat \<Rightarrow> rat" where
  "sc_scroll_speed g y =
     (let lean = sc_lean g y;
          depth = (if lean < 0 then g_top g + sc_edge - y else y - (g_bottom g - sc_edge))
      in lean * min 16 (max 2 (depth / 4)))"

text \<open>\<open>sway\<close>: how far to either side the card may go, \<open>None\<close> for any distance.\<close>

definition sc_across :: "rat option \<Rightarrow> rat \<Rightarrow> rat" where
  "sc_across sway dx = (case sway of None \<Rightarrow> dx | Some w \<Rightarrow> max (- w) (min w dx))"

definition sc_settle :: "rat option \<Rightarrow> sc_geo \<Rightarrow> sc_state \<Rightarrow> sc_state" where
  "sc_settle sway g s =
     (case (sc_phase_of s, sc_rung s, sc_list s) of
        (Carrying, Some r, Some l) \<Rightarrow>
          let y = snd (sc_pointer s)
          in s\<lparr>sc_children := (sc_children s)(l := sc_place g y r (sc_children s l)),
               sc_transform := Some (sc_across sway (fst (sc_pointer s) - fst (sc_start s)),
                                     y - snd (sc_start s) - (g_seat g - sc_seat_top s)),
               sc_scrolling := sc_scroll_speed g y,
               sc_scroll_frame := (sc_scroll_frame s \<or> sc_lean g y \<noteq> 0)\<rparr>
      | _ \<Rightarrow> s)"

definition sc_on_frame :: "rat option \<Rightarrow> sc_geo \<Rightarrow> sc_state \<Rightarrow> sc_state" where
  "sc_on_frame sway g s = (if sc_frame s then sc_settle sway g (s\<lparr>sc_frame := False\<rparr>) else s)"

definition sc_scroll_step :: "rat option \<Rightarrow> sc_geo \<Rightarrow> sc_state \<Rightarrow> sc_state" where
  "sc_scroll_step sway g s =
     (if \<not> sc_scroll_frame s then s
      else let s = s\<lparr>sc_scroll_frame := False\<rparr>
           in if sc_phase_of s \<noteq> Carrying \<or> sc_scrolling s = 0 then s else sc_settle sway g s)"

text \<open>\<open>home\<close>: the steps appended in the order they had, by their ids (the last step of an id wins).\<close>

definition sc_by_id :: "dom_node list \<Rightarrow> string \<Rightarrow> dom_node option" where
  "sc_by_id rungs = map_of (rev (map (\<lambda>r. (n_id r, r)) rungs))"

definition sc_home :: "string list \<Rightarrow> dom_node list \<Rightarrow> dom_node list" where
  "sc_home before children =
     (let by = sc_by_id (sc_rungs children)
      in fold (\<lambda>i ch. case by i of None \<Rightarrow> ch | Some r \<Rightarrow> dom_insert ch r None) before children)"

definition sc_land :: "bool \<Rightarrow> sc_state \<Rightarrow> sc_state" where
  "sc_land cancelled s = s\<lparr>sc_phase_of := Landing, sc_scrolling := 0, sc_transform := None,
     sc_dones := cancelled # sc_dones s\<rparr>"

text \<open>\<open>pid\<close> is \<open>None\<close> for the Escape key, \<open>pos\<close> for an event with no place.\<close>

definition sc_release :: "int option \<Rightarrow> (rat \<times> rat) option \<Rightarrow> bool \<Rightarrow> rat option \<Rightarrow> sc_geo \<Rightarrow> sc_state \<Rightarrow> sc_state" where
  "sc_release pid pos cancelled sway g s =
     (if pid \<noteq> None \<and> pid \<noteq> sc_pointer_id s then s
      else if sc_phase_of s = Pending then sc_reset s
      else if sc_phase_of s \<noteq> Carrying then s
      else case (sc_rung s, sc_list s) of
        (Some r, Some l) \<Rightarrow>
          if r \<notin> set (sc_children s l) then sc_reset s
          else let s = (if cancelled then s
                        else case pos of None \<Rightarrow> s | Some p \<Rightarrow> sc_settle sway g (s\<lparr>sc_pointer := p\<rparr>));
                   s = (if cancelled
                        then s\<lparr>sc_children := (sc_children s)(l := sc_home (sc_before s) (sc_children s l))\<rparr> else s)
               in sc_land cancelled s
      | _ \<Rightarrow> s)"

definition sc_settle_down :: "bool \<Rightarrow> sc_state \<Rightarrow> sc_state \<times> (nat \<times> string list) list" where
  "sc_settle_down cancelled s =
     (case (sc_phase_of s, sc_list s) of
        (Landing, Some l) \<Rightarrow>
          let after = sc_order (sc_children s l);
              changed = (\<not> cancelled \<and> sc_differs after (sc_before s));
              s = sc_reset (s\<lparr>sc_carried := False\<rparr>)
          in if changed then sc_save l after s else (s, [])
      | _ \<Rightarrow> (s, []))"

section \<open>The keyboard\<close>

definition sc_key :: "bool \<Rightarrow> (nat \<times> dom_node) option \<Rightarrow> sc_state \<Rightarrow> sc_state \<times> (nat \<times> string list) list" where
  "sc_key up grip s =
     (if sc_phase_of s \<noteq> Idle then (s, [])
      else case grip of None \<Rightarrow> (s, [])
        | Some (l, r) \<Rightarrow>
            let rungs = sc_rungs (sc_children s l)
            in case index_of r rungs of None \<Rightarrow> (s, [])
               | Some i \<Rightarrow>
                   if (up \<and> i = 0) \<or> (\<not> up \<and> Suc i \<ge> length rungs) then (s, [])
                   else let (s, posts) = (case sc_keyed s of
                                            Some (l', _) \<Rightarrow> if l' \<noteq> l then sc_flush s else (s, [])
                                          | None \<Rightarrow> (s, []));
                            s = (if sc_keyed s = None
                                 then s\<lparr>sc_keyed := Some (l, sc_order (sc_children s l))\<rparr> else s);
                            ch = sc_children s l;
                            ref = (if up then Some (rungs ! (i - 1))
                                   else js_at ch (int (length (takeWhile (\<lambda>n. n \<noteq> rungs ! Suc i) ch)) + 1))
                        in (s\<lparr>sc_children := (sc_children s)(l := dom_insert ch r ref), sc_lazy := True\<rparr>, posts))"

section \<open>One step of the page\<close>

datatype sc_event =
    EPress int bool int "rat \<times> rat" "(nat \<times> dom_node) option"
  | EMove int "rat \<times> rat" rat
  | EFrame sc_geo
  | EScroll sc_geo
  | ERelease "int option" "(rat \<times> rat) option" bool sc_geo
  | EEscape sc_geo
  | ELanded bool
  | EKey bool "(nat \<times> dom_node) option"
  | ELazy
  | ESaved
  | ERedraw nat "dom_node list"

text \<open>A callback or a timer fires only if it is pending; the board draws a list anew only while
  the carrier is not \<open>busy\<close>.\<close>

fun sc_step :: "rat option \<Rightarrow> sc_event \<Rightarrow> sc_state \<Rightarrow> sc_state \<times> (nat \<times> string list) list" where
  "sc_step sway (EPress button primary pid pos grip) s = sc_press button primary pid pos grip s"
| "sc_step sway (EMove pid pos seat) s = (sc_move pid pos seat s, [])"
| "sc_step sway (EFrame g) s = (sc_on_frame sway g s, [])"
| "sc_step sway (EScroll g) s = (sc_scroll_step sway g s, [])"
| "sc_step sway (ERelease pid pos cancelled g) s = (sc_release pid pos cancelled sway g s, [])"
| "sc_step sway (EEscape g) s =
     (if sc_phase_of s = Carrying then (sc_release None None True sway g s, []) else (s, []))"
| "sc_step sway (ELanded cancelled) s =
     (if cancelled \<in> set (sc_dones s)
      then sc_settle_down cancelled (s\<lparr>sc_dones := remove1 cancelled (sc_dones s)\<rparr>) else (s, []))"
| "sc_step sway (EKey up grip) s = sc_key up grip s"
| "sc_step sway ELazy s = (if sc_lazy s then sc_flush s else (s, []))"
| "sc_step sway ESaved s = (if sc_saves s > 0 then sc_saved s else s, [])"
| "sc_step sway (ERedraw l nodes) s =
     (if sc_busy s then s else s\<lparr>sc_children := (sc_children s)(l := nodes)\<rparr>, [])"

fun sc_run :: "rat option \<Rightarrow> sc_event list \<Rightarrow> sc_state \<Rightarrow> sc_state \<times> (nat \<times> string list) list" where
  "sc_run sway [] s = (s, [])"
| "sc_run sway (e # es) s =
     (let (s1, p1) = sc_step sway e s; (s2, p2) = sc_run sway es s1 in (s2, p1 @ p2))"

section \<open>Rearranging the document\<close>

lemma dom_insert_mset: "x \<in> set ch \<Longrightarrow> mset (dom_insert ch x ref) = mset ch"
proof -
  assume x: "x \<in> set ch"
  have "mset (takeWhile P rest @ x # dropWhile P rest) = add_mset x (mset rest)" for P and rest :: "dom_node list"
    by (metis mset.simps(2) mset_append takeWhile_dropWhile_id union_mset_add_mset_right)
  with x show ?thesis by (auto simp: dom_insert_def Let_def split: option.splits)
qed

lemma dom_insert_set: "x \<in> set ch \<Longrightarrow> set (dom_insert ch x ref) = set ch"
  by (metis dom_insert_mset set_mset_mset)

lemma sc_order_mset: "mset a = mset b \<Longrightarrow> mset (sc_order a) = mset (sc_order b)"
  by (simp add: sc_order_def sc_rungs_def)

lemma sc_place_mset: "r \<in> set ch \<Longrightarrow> mset (sc_place g y r ch) = mset ch"
  by (simp add: sc_place_def Let_def dom_insert_mset)

lemma sc_by_id_mem: "sc_by_id rungs i = Some r \<Longrightarrow> r \<in> set rungs \<and> n_id r = i"
  by (auto simp: sc_by_id_def dest: map_of_SomeD)

lemma fold_append_mset:
  assumes "\<And>i r. by i = Some r \<Longrightarrow> r \<in> set ch0" and "mset ch = mset ch0"
  shows "mset (fold (\<lambda>i ch. case by i of None \<Rightarrow> ch | Some r \<Rightarrow> dom_insert ch r None) before ch) = mset ch0"
  using assms(2)
proof (induction before arbitrary: ch)
  case Nil
  then show ?case by simp
next
  case (Cons i before)
  then have "set ch = set ch0" by (metis set_mset_mset)
  with Cons.prems assms(1) have "mset (case by i of None \<Rightarrow> ch | Some r \<Rightarrow> dom_insert ch r None) = mset ch0"
    by (auto split: option.splits simp: dom_insert_mset)
  with Cons.IH show ?case by simp
qed

lemma sc_home_mset: "mset (sc_home before ch) = mset ch"
  unfolding sc_home_def Let_def
  by (rule fold_append_mset) (auto simp: sc_rungs_def dest!: sc_by_id_mem)

text \<open>Placing a card keeps the contract \<open>reordering\<close>.\<close>

definition sc_place_move :: "sc_geo \<times> rat \<times> dom_node \<Rightarrow> dom_node list \<Rightarrow> dom_node list option" where
  "sc_place_move p ch = (case p of (g, y, r) \<Rightarrow>
     if r \<in> set ch \<and> sc_place g y r ch \<noteq> ch then Some (sc_place g y r ch) else None)"

interpretation carry: reordering sc_place_move
  by unfold_locales (auto simp: sc_place_move_def sc_place_mset split: if_splits)

subsection \<open>Where the place is\<close>

lemma dom_insert_at:
  assumes "distinct ch" "x \<in> set ch" "k \<le> length (remove1 x ch)"
  shows "dom_insert ch x (js_at (remove1 x ch) (int k)) = take k (remove1 x ch) @ x # drop k (remove1 x ch)"
proof (cases "k = length (remove1 x ch)")
  case True
  then show ?thesis by (simp add: dom_insert_def js_at_def)
next
  case False
  let ?rest = "remove1 x ch"
  from False assms(3) have k: "k < length ?rest" by simp
  have d: "distinct ?rest" using assms(1) by simp
  have "takeWhile (\<lambda>n. n \<noteq> ?rest ! k) ?rest = take k ?rest"
    using d k by (intro takeWhile_eq_take_P_nth) (auto simp: nth_eq_iff_index_eq)
  moreover from this have "dropWhile (\<lambda>n. n \<noteq> ?rest ! k) ?rest = drop k ?rest"
    by (metis append_take_drop_id same_append_eq takeWhile_dropWhile_id)
  ultimately show ?thesis using k by (simp add: dom_insert_def js_at_def Let_def)
qed

lemma index_of_insert_back:
  assumes "distinct xs" "index_of r xs = Some k"
  shows "xs = take k (remove1 r xs) @ r # drop k (remove1 r xs)"
proof -
  from assms(2) have k: "k < length xs" "xs ! k = r" by (auto dest: index_of_SomeD)
  then have xs: "xs = take k xs @ r # drop (Suc k) xs" by (metis id_take_nth_drop)
  have "r \<notin> set (take k xs)" using assms(2) by (rule index_of_first)
  then have "remove1 r (take k xs @ r # drop (Suc k) xs) = take k xs @ drop (Suc k) xs"
    by (simp add: remove1_append)
  then have rem: "remove1 r xs = take k xs @ drop (Suc k) xs" using xs by metis
  have "length (take k xs) = k" using k by simp
  with rem have "take k (remove1 r xs) = take k xs" "drop k (remove1 r xs) = drop (Suc k) xs"
    by simp_all
  then show ?thesis using xs by simp
qed

lemma sc_place_eq:
  assumes "distinct ch" "r \<in> set ch" "list_all n_item ch"
    and k_def: "k = sc_place_index g (y - g_list_top g) (remove1 r ch)"
  shows "sc_place g y r ch = take k (remove1 r ch) @ r # drop k (remove1 r ch)"
proof -
  have rungs: "sc_rungs ch = ch" using assms(3) by (simp add: sc_rungs_def list_all_iff filter_id_conv)
  have others: "filter (\<lambda>n. n \<noteq> r) ch = remove1 r ch" using assms(1) by (rule filter_neq_remove1)
  have "k \<le> length (remove1 r ch)" by (simp add: k_def sc_place_index_def)
  with dom_insert_at [OF assms(1,2)] index_of_insert_back [OF assms(1)] show ?thesis
    by (auto simp: sc_place_def rungs others Let_def simp flip: k_def)
qed

subsection \<open>Home again\<close>

lemma sc_by_id_Some:
  assumes "distinct (map n_id ch)" "n \<in> set ch"
  shows "sc_by_id ch (n_id n) = Some n"
proof -
  have "distinct (map fst (rev (map (\<lambda>r. (n_id r, r)) ch)))"
    using assms(1) by (simp add: comp_def rev_map [symmetric])
  moreover have "(n_id n, n) \<in> set (rev (map (\<lambda>r. (n_id r, r)) ch))" using assms(2) by simp
  ultimately show ?thesis unfolding sc_by_id_def by (rule map_of_is_SomeI)
qed

lemma sc_home_prefix:
  assumes d: "distinct (map n_id ch)" and sub: "set p \<subseteq> n_id ` set ch" and "distinct p"
  shows "fold (\<lambda>i ch'. case sc_by_id ch i of None \<Rightarrow> ch' | Some r \<Rightarrow> dom_insert ch' r None) p ch =
    filter (\<lambda>n. n_id n \<notin> set p) ch @ map (\<lambda>i. the (sc_by_id ch i)) p"
  using sub \<open>distinct p\<close>
proof (induction p rule: rev_induct)
  case Nil
  then show ?case by simp
next
  case (snoc i p)
  then obtain x where x: "x \<in> set ch" "n_id x = i" by auto
  have hit: "sc_by_id ch i = Some x" using sc_by_id_Some [OF d x(1)] x(2) by simp
  have same: "n = x" if "n \<in> set ch" "n_id n = i" for n
    using d that x by (metis inj_onD distinct_map)
  let ?A = "filter (\<lambda>n. n_id n \<notin> set p) ch"
  have "x \<in> set ?A" using x snoc.prems(2) by simp
  then have "remove1 x (?A @ map (\<lambda>i. the (sc_by_id ch i)) p) = remove1 x ?A @ map (\<lambda>i. the (sc_by_id ch i)) p"
    by (simp add: remove1_append)
  moreover have "remove1 x ?A = filter (\<lambda>n. n \<noteq> x) ?A"
    using d by (intro filter_neq_remove1 [symmetric]) (simp add: distinct_map)
  moreover have "filter (\<lambda>n. n \<noteq> x) ?A = filter (\<lambda>n. n_id n \<notin> set (p @ [i])) ch"
    using same x(2) by (auto intro: filter_cong)
  ultimately show ?case using snoc by (simp add: hit dom_insert_def)
qed

lemma sc_home_order:
  assumes items: "list_all n_item ch" and d: "distinct (map n_id ch)" and ne: "[] \<notin> set (map n_id ch)"
    and perm: "mset before = mset (map n_id ch)"
  shows "sc_order (sc_home before ch) = before"
proof -
  have rungs: "sc_rungs ch = ch" using items by (simp add: sc_rungs_def list_all_iff filter_id_conv)
  have set: "set before = n_id ` set ch" using perm by (metis list.set_map set_mset_mset)
  have db: "distinct before" using perm d by (metis mset_eq_imp_distinct_iff)
  have "filter (\<lambda>n. n_id n \<notin> set before) ch = []" using set by (auto simp: filter_empty_conv)
  then have home: "sc_home before ch = map (\<lambda>i. the (sc_by_id ch i)) before"
    using sc_home_prefix [OF d _ db] set by (simp add: sc_home_def rungs)
  have hit: "n_item (the (sc_by_id ch i)) \<and> n_id (the (sc_by_id ch i)) = i" if "i \<in> set before" for i
    using that set sc_by_id_Some [OF d] items by (auto simp: list_all_iff)
  have "filter n_item (sc_home before ch) = sc_home before ch" using hit by (simp add: home filter_id_conv)
  moreover have "map n_id (sc_home before ch) = before" using hit by (simp add: home map_idI)
  moreover have "filter (\<lambda>i. i \<noteq> []) before = before" using ne set by (auto simp: filter_id_conv)
  ultimately show ?thesis by (simp add: sc_order_def sc_rungs_def)
qed

section \<open>The invariant\<close>

text \<open>
  No step of the page is lost or drawn twice, the carried card stands in its list while it is
  pressed, carried or landing, and the order kept at the lift is one of the list's own steps.
\<close>

definition sc_held :: "sc_state \<Rightarrow> bool" where
  "sc_held s \<longleftrightarrow> (\<exists>r l. sc_rung s = Some r \<and> sc_list s = Some l \<and> r \<in> set (sc_children s l) \<and> n_item r)"

definition sc_kept :: "sc_state \<Rightarrow> bool" where
  "sc_kept s \<longleftrightarrow> (\<forall>l. sc_list s = Some l \<longrightarrow> mset (sc_before s) = mset (sc_order (sc_children s l)))"

definition sc_inv :: "sc_state \<Rightarrow> bool" where
  "sc_inv s \<longleftrightarrow>
     (sc_phase_of s \<in> {Pending, Carrying, Landing} \<longrightarrow> sc_held s) \<and>
     (sc_phase_of s \<in> {Carrying, Landing} \<longrightarrow> sc_kept s)"

text \<open>Two states show the same steps in every list.\<close>

definition sc_same_steps :: "sc_state \<Rightarrow> sc_state \<Rightarrow> bool" where
  "sc_same_steps s s' \<longleftrightarrow> (\<forall>l. mset (sc_children s' l) = mset (sc_children s l))"

lemma sc_same_refl [simp]: "sc_same_steps s s"
  by (simp add: sc_same_steps_def)

lemma sc_same_trans: "sc_same_steps s t \<Longrightarrow> sc_same_steps t u \<Longrightarrow> sc_same_steps s u"
  by (simp add: sc_same_steps_def)

lemma sc_same_held:
  "sc_same_steps s s' \<Longrightarrow> sc_rung s' = sc_rung s \<Longrightarrow> sc_list s' = sc_list s \<Longrightarrow> sc_held s \<Longrightarrow> sc_held s'"
  unfolding sc_held_def sc_same_steps_def by (metis set_mset_mset)

lemma sc_same_kept:
  "sc_same_steps s s' \<Longrightarrow> sc_before s' = sc_before s \<Longrightarrow> sc_list s' = sc_list s \<Longrightarrow> sc_kept s \<Longrightarrow> sc_kept s'"
  unfolding sc_kept_def sc_same_steps_def by (metis sc_order_mset)

subsection \<open>The parts of a step\<close>

lemma sc_reset_simps [simp]:
  "sc_children (sc_reset s) = sc_children s" "sc_phase_of (sc_reset s) = Idle"
  "sc_carried (sc_reset s) = sc_carried s" "sc_keyed (sc_reset s) = sc_keyed s"
  by (simp_all add: sc_reset_def)

lemma sc_flush_frame [simp]:
  "sc_children (fst (sc_flush s)) = sc_children s" "sc_rung (fst (sc_flush s)) = sc_rung s"
  "sc_list (fst (sc_flush s)) = sc_list s"
  by (auto simp: sc_flush_def sc_save_def Let_def split: option.splits)

lemma sc_flush_phase: "sc_phase_of (fst (sc_flush s)) \<in> {sc_phase_of s, Saving}"
  by (auto simp: sc_flush_def sc_save_def Let_def split: option.splits)

lemma sc_flush_before [simp]: "sc_before (fst (sc_flush s)) = sc_before s"
  by (auto simp: sc_flush_def sc_save_def Let_def split: option.splits)

lemma sc_settle_frame [simp]:
  "sc_rung (sc_settle sway g s) = sc_rung s" "sc_list (sc_settle sway g s) = sc_list s"
  "sc_before (sc_settle sway g s) = sc_before s" "sc_phase_of (sc_settle sway g s) = sc_phase_of s"
  "sc_carried (sc_settle sway g s) = sc_carried s"
  by (simp_all add: sc_settle_def Let_def split: sc_phase.splits option.splits)

lemma sc_settle_same:
  "(sc_phase_of s = Carrying \<longrightarrow> sc_held s) \<Longrightarrow> sc_same_steps s (sc_settle sway g s)"
  by (auto simp: sc_settle_def sc_held_def sc_same_steps_def sc_place_mset Let_def
        split: sc_phase.splits option.splits)

lemma sc_inv_settle: "sc_inv s \<Longrightarrow> sc_inv (sc_settle sway g s)"
  using sc_settle_same [of s sway g] sc_same_held [of s "sc_settle sway g s"] sc_same_kept [of s "sc_settle sway g s"]
  by (auto simp: sc_inv_def)

lemma sc_inv_fields:
  "sc_inv s \<Longrightarrow> sc_phase_of s' = sc_phase_of s \<Longrightarrow> sc_rung s' = sc_rung s \<Longrightarrow> sc_list s' = sc_list s \<Longrightarrow>
   sc_before s' = sc_before s \<Longrightarrow> sc_children s' = sc_children s \<Longrightarrow> sc_inv s'"
  by (simp add: sc_inv_def sc_held_def sc_kept_def)

lemma sc_inv_idle: "sc_phase_of s \<in> {Idle, Saving} \<Longrightarrow> sc_inv s"
  by (auto simp: sc_inv_def)

lemma sc_press_step:
  "sc_inv s \<Longrightarrow> sc_inv (fst (sc_press b p pid pos grip s)) \<and> sc_same_steps s (fst (sc_press b p pid pos grip s))"
  by (auto simp: sc_press_def sc_inv_def sc_held_def sc_rungs_def sc_same_steps_def split_beta Let_def
        split: option.splits)

lemma sc_move_step: "sc_inv s \<Longrightarrow> sc_inv (sc_move pid pos seat s) \<and> sc_same_steps s (sc_move pid pos seat s)"
  by (auto simp: sc_move_def sc_inv_def sc_held_def sc_kept_def sc_lift_def sc_same_steps_def Let_def
        split: option.splits)

lemma sc_frame_step: "sc_inv s \<Longrightarrow> sc_inv (sc_on_frame sway g s) \<and> sc_same_steps s (sc_on_frame sway g s)"
proof -
  assume inv: "sc_inv s"
  let ?s = "s\<lparr>sc_frame := False\<rparr>"
  have "sc_inv ?s" using inv by (rule sc_inv_fields) simp_all
  moreover from this have "sc_same_steps ?s (sc_settle sway g ?s)"
    by (intro sc_settle_same) (simp add: sc_inv_def)
  ultimately show ?thesis using inv by (simp add: sc_on_frame_def sc_inv_settle sc_same_steps_def)
qed

lemma sc_scroll_step_step:
  "sc_inv s \<Longrightarrow> sc_inv (sc_scroll_step sway g s) \<and> sc_same_steps s (sc_scroll_step sway g s)"
proof -
  assume inv: "sc_inv s"
  let ?s = "s\<lparr>sc_scroll_frame := False\<rparr>"
  have i: "sc_inv ?s" using inv by (rule sc_inv_fields) simp_all
  moreover from this have "sc_same_steps ?s (sc_settle sway g ?s)"
    by (intro sc_settle_same) (simp add: sc_inv_def)
  ultimately show ?thesis using inv
    by (auto simp: sc_scroll_step_def sc_inv_settle sc_same_steps_def Let_def)
qed

lemma sc_land_inv: "sc_phase_of s = Carrying \<Longrightarrow> sc_inv s \<Longrightarrow> sc_inv (sc_land c s)"
  by (simp add: sc_inv_def sc_land_def sc_held_def sc_kept_def)

lemma sc_release_step:
  assumes inv: "sc_inv s"
  shows "sc_inv (sc_release pid pos c sway g s) \<and> sc_same_steps s (sc_release pid pos c sway g s)"
proof (cases "(pid \<noteq> None \<and> pid \<noteq> sc_pointer_id s) \<or> sc_phase_of s \<noteq> Carrying")
  case True
  then show ?thesis using inv by (auto simp: sc_release_def sc_inv_idle sc_same_steps_def)
next
  case False
  with inv obtain r l where rl: "sc_rung s = Some r" "sc_list s = Some l" "r \<in> set (sc_children s l)"
    by (auto simp: sc_inv_def sc_held_def)
  let ?t = "if c then s\<lparr>sc_children := (sc_children s)(l := sc_home (sc_before s) (sc_children s l))\<rparr>
            else case pos of None \<Rightarrow> s | Some p \<Rightarrow> sc_settle sway g (s\<lparr>sc_pointer := p\<rparr>)"
  have p: "sc_inv (s\<lparr>sc_pointer := p\<rparr>)" for p using inv by (rule sc_inv_fields) simp_all
  have same: "sc_same_steps s ?t"
  proof (cases c)
    case True
    then show ?thesis by (simp add: sc_same_steps_def sc_home_mset)
  next
    case False
    have "sc_same_steps (s\<lparr>sc_pointer := p\<rparr>) (sc_settle sway g (s\<lparr>sc_pointer := p\<rparr>))" for p
      using p [of p] by (intro sc_settle_same) (simp add: sc_inv_def)
    with False show ?thesis by (auto simp: sc_same_steps_def split: option.splits)
  qed
  have fr: "sc_rung ?t = sc_rung s" "sc_list ?t = sc_list s" "sc_before ?t = sc_before s" "sc_phase_of ?t = sc_phase_of s"
    by (auto split: option.splits)
  have "sc_inv ?t"
    using inv sc_same_held [OF same fr(1,2)] sc_same_kept [OF same fr(3,2)] fr(4) by (simp add: sc_inv_def)
  moreover have "sc_release pid pos c sway g s = sc_land c ?t"
    using False rl by (auto simp: sc_release_def Let_def)
  moreover have "sc_phase_of ?t = Carrying" using False fr(4) by simp
  ultimately show ?thesis using same sc_land_inv by (simp add: sc_same_steps_def sc_land_def)
qed

lemma sc_settle_down_step:
  "sc_inv s \<Longrightarrow> sc_inv (fst (sc_settle_down c s)) \<and> sc_same_steps s (fst (sc_settle_down c s))"
  by (auto simp: sc_settle_down_def sc_save_def sc_inv_idle sc_same_steps_def Let_def
        split: sc_phase.splits option.splits)

lemma sc_key_phase: "sc_phase_of s = Idle \<Longrightarrow> sc_phase_of (fst (sc_key up grip s)) \<in> {Idle, Saving}"
  using sc_flush_phase [of s] by (auto simp: sc_key_def split_beta Let_def split: option.splits)

lemma sc_key_children:
  "sc_children (fst (sc_key up grip s)) = sc_children s \<or>
   (\<exists>l r ref. r \<in> set (sc_children s l) \<and>
      sc_children (fst (sc_key up grip s)) = (sc_children s)(l := dom_insert (sc_children s l) r ref))"
proof (cases grip)
  case None
  then show ?thesis by (simp add: sc_key_def)
next
  case (Some lr)
  obtain l r where lr: "lr = (l, r)" by fastforce
  show ?thesis
  proof (cases "index_of r (sc_rungs (sc_children s l))")
    case None
    with Some lr show ?thesis by (simp add: sc_key_def)
  next
    case (Some i)
    then have "r \<in> set (sc_children s l)"
      using nth_mem by (fastforce dest!: index_of_SomeD simp: sc_rungs_def)
    moreover have "sc_children (fst (sc_key up grip s)) = sc_children s \<or>
        (\<exists>ref. sc_children (fst (sc_key up grip s)) = (sc_children s)(l := dom_insert (sc_children s l) r ref))"
      unfolding sc_key_def using Some \<open>grip = Some lr\<close> lr
      by (simp add: split_beta Let_def split: option.split) blast
    ultimately show ?thesis by blast
  qed
qed

lemma sc_key_step:
  assumes "sc_inv s"
  shows "sc_inv (fst (sc_key up grip s)) \<and> sc_same_steps s (fst (sc_key up grip s))"
proof (cases "sc_phase_of s = Idle")
  case False
  with assms show ?thesis by (simp add: sc_key_def)
next
  case True
  have "sc_same_steps s (fst (sc_key up grip s))"
    using sc_key_children [of up grip s] by (auto simp: sc_same_steps_def dom_insert_mset)
  with sc_inv_idle [OF sc_key_phase [OF True]] show ?thesis by simp
qed

lemma sc_flush_step: "sc_inv s \<Longrightarrow> sc_inv (fst (sc_flush s)) \<and> sc_same_steps s (fst (sc_flush s))"
  using sc_flush_phase [of s] by (auto simp: sc_inv_def sc_held_def sc_kept_def sc_same_steps_def)

lemma sc_step_step:
  assumes "sc_inv s" and "\<forall>l nodes. e \<noteq> ERedraw l nodes"
  shows "sc_inv (fst (sc_step sway e s)) \<and> sc_same_steps s (fst (sc_step sway e s))"
proof (cases e)
  case (ELanded c)
  have "sc_inv (s\<lparr>sc_dones := ds\<rparr>)" for ds using assms(1) by (rule sc_inv_fields) simp_all
  then have "sc_inv (fst (sc_settle_down c (s\<lparr>sc_dones := ds\<rparr>))) \<and>
      sc_same_steps (s\<lparr>sc_dones := ds\<rparr>) (fst (sc_settle_down c (s\<lparr>sc_dones := ds\<rparr>)))" for ds
    by (rule sc_settle_down_step)
  with ELanded assms(1) show ?thesis by (simp add: sc_same_steps_def)
next
  case ESaved
  then show ?thesis using assms(1) by (simp add: sc_saved_def sc_inv_idle sc_same_steps_def)
qed (use assms in \<open>simp_all add: sc_press_step sc_move_step sc_frame_step sc_scroll_step_step sc_release_step
      sc_key_step sc_flush_step\<close>)

lemma sc_run_step:
  "sc_inv s \<Longrightarrow> \<forall>e \<in> set es. \<forall>l nodes. e \<noteq> ERedraw l nodes \<Longrightarrow>
   sc_inv (fst (sc_run sway es s)) \<and> sc_same_steps s (fst (sc_run sway es s))"
proof (induction es arbitrary: s)
  case Nil
  then show ?case by simp
next
  case (Cons e es)
  then have "sc_inv (fst (sc_step sway e s)) \<and> sc_same_steps s (fst (sc_step sway e s))"
    by (intro sc_step_step) simp_all
  with Cons.IH [of "fst (sc_step sway e s)"] Cons.prems(2) show ?case
    by (auto simp: split_beta Let_def intro: sc_same_trans)
qed

subsection \<open>What is saved\<close>

lemma sc_flush_posts: "(l, order) \<in> set (snd (sc_flush s)) \<Longrightarrow> order = sc_order (sc_children s l)"
  by (auto simp: sc_flush_def sc_save_def Let_def split: option.splits if_splits)

lemma sc_settle_down_posts:
  "(l, order) \<in> set (snd (sc_settle_down c s)) \<Longrightarrow> order = sc_order (sc_children s l)"
  by (auto simp: sc_settle_down_def sc_save_def Let_def split: sc_phase.splits option.splits if_splits)

lemma sc_press_posts:
  "(l, order) \<in> set (snd (sc_press b p pid pos grip s)) \<Longrightarrow> order = sc_order (sc_children s l)"
  by (auto simp: sc_press_def split_beta Let_def dest: sc_flush_posts split: option.splits if_splits)

lemma sc_key_posts: "(l, order) \<in> set (snd (sc_key up grip s)) \<Longrightarrow> order = sc_order (sc_children s l)"
  by (auto simp: sc_key_def split_beta Let_def dest: sc_flush_posts split: option.splits if_splits)

lemma sc_step_posts:
  "(l, order) \<in> set (snd (sc_step sway e s)) \<Longrightarrow> order = sc_order (sc_children s l)"
  by (cases e)
    (auto dest: sc_press_posts sc_key_posts sc_flush_posts sc_settle_down_posts split: if_splits)

lemma sc_run_posts:
  "sc_inv s \<Longrightarrow> \<forall>e \<in> set es. \<forall>l nodes. e \<noteq> ERedraw l nodes \<Longrightarrow>
   (l, order) \<in> set (snd (sc_run sway es s)) \<Longrightarrow> mset order = mset (sc_order (sc_children s l))"
proof (induction es arbitrary: s)
  case Nil
  then show ?case by simp
next
  case (Cons e es)
  let ?s = "fst (sc_step sway e s)"
  have st: "sc_inv ?s \<and> sc_same_steps s ?s" using Cons.prems(1,2) by (intro sc_step_step) simp_all
  from Cons.prems(3) have "(l, order) \<in> set (snd (sc_step sway e s)) \<or> (l, order) \<in> set (snd (sc_run sway es ?s))"
    by (auto simp: split_beta Let_def)
  then show ?case
  proof
    assume "(l, order) \<in> set (snd (sc_step sway e s))"
    then have "order = sc_order (sc_children s l)" by (rule sc_step_posts)
    then show ?thesis by simp
  next
    assume "(l, order) \<in> set (snd (sc_run sway es ?s))"
    with Cons.IH [of ?s] st Cons.prems(2) have "mset order = mset (sc_order (sc_children ?s l))" by simp
    with st show ?thesis by (metis sc_order_mset sc_same_steps_def)
  qed
qed

section \<open>Properties\<close>

text \<open>(C4) Carrying loses no step and doubles none: after any run of presses, moves, frames, releases,
  landings, keys, timers and saves (the board draws nothing anew meanwhile), every list holds the
  steps it held, and every order handed to \<open>onSort\<close> is a rearrangement of its list's ids.\<close>

theorem sc_nothing_lost:
  assumes "\<forall>e \<in> set es. \<forall>l nodes. e \<noteq> ERedraw l nodes"
    and "sc_run sway es (sc_init children) = (s, posts)"
  shows "mset (sc_children s l) = mset (children l) \<and>
    (\<forall>(l', order) \<in> set posts. mset order = mset (sc_order (children l')))"
proof -
  have inv: "sc_inv (sc_init children)" by (simp add: sc_inv_def sc_init_def)
  have ch: "sc_children (sc_init children) = children" by (simp add: sc_init_def)
  have "mset (sc_children s l) = mset (children l)"
    using sc_run_step [OF inv assms(1), of sway] assms(2) ch by (simp add: sc_same_steps_def)
  moreover have "mset order = mset (sc_order (children l'))" if "(l', order) \<in> set posts" for l' order
    using sc_run_posts [OF inv assms(1), of l' order sway] that assms(2) ch by simp
  ultimately show ?thesis by auto
qed

definition sc_demo :: "nat \<Rightarrow> dom_node list" where
  "sc_demo l = (if l = 0 then [\<lparr>n_ref = 1, n_id = ''a'', n_item = True\<rparr>, \<lparr>n_ref = 2, n_id = ''b'', n_item = True\<rparr>,
     \<lparr>n_ref = 3, n_id = ''c'', n_item = True\<rparr>] else [])"

definition sc_demo_geo :: sc_geo where
  "sc_demo_geo = \<lparr>g_list_top = 0, g_mid = (\<lambda>n. of_nat n * 100), g_seat = 0, g_top = 0, g_bottom = 900\<rparr>"

abbreviation sc_demo_a :: dom_node where
  "sc_demo_a \<equiv> \<lparr>n_ref = 1, n_id = ''a'', n_item = True\<rparr>"

abbreviation sc_demo_drag :: "sc_event list" where
  "sc_demo_drag \<equiv> [EPress 0 True 7 (0, 0) (Some (0, sc_demo_a)), EMove 7 (0, 50) 0,
     ERelease (Some 7) (Some (0, 250)) False sc_demo_geo, ELanded False]"

theorem sc_nothing_lost_witness:
  "\<exists>s posts. sc_run None sc_demo_drag (sc_init sc_demo) = (s, posts) \<and>
     posts = [(0, [''b'', ''a'', ''c''])] \<and> mset (sc_children s 0) = mset (sc_demo 0)"
proof -
  obtain s posts where r: "sc_run None sc_demo_drag (sc_init sc_demo) = (s, posts)" by fastforce
  moreover have "snd (sc_run None sc_demo_drag (sc_init sc_demo)) = [(0, [''b'', ''a'', ''c''])]"
    by code_simp
  ultimately show ?thesis using sc_nothing_lost [OF _ r, of 0] by auto
qed

text \<open>(C7) A carry puts the card where it was let go: pressing a grip, moving past the slop and letting
  go at a height puts the card before the first other step whose middle is below that height,
  the others keep their order, and once landed the new order is saved exactly when it differs
  from the one at the lift.\<close>

theorem sc_carry_puts_the_card:
  assumes "sc_phase_of s = Idle" "sc_keyed s = None"
    and "distinct (sc_children s l)" "list_all n_item (sc_children s l)" "r \<in> set (sc_children s l)"
      "length (sc_children s l) \<ge> 2"
    and "(fst p1 - fst p0) * (fst p1 - fst p0) + (snd p1 - snd p0) * (snd p1 - snd p0) > 25"
    and "k = length (filter (\<lambda>n. snd p2 - g_list_top g > g_mid g (n_ref n)) (remove1 r (sc_children s l)))"
    and "sc_run sway [EPress 0 True pid p0 (Some (l, r)), EMove pid p1 seat,
                      ERelease (Some pid) (Some p2) False g, ELanded False] s = (s', posts)"
  shows "sc_children s' l = take k (remove1 r (sc_children s l)) @ r # drop k (remove1 r (sc_children s l)) \<and>
    posts = (if sc_differs (sc_order (sc_children s' l)) (sc_order (sc_children s l))
             then [(l, sc_order (sc_children s' l))] else []) \<and>
    \<not> sc_carried s' \<and> sc_rung s' = None"
proof -
  have rungs: "sc_rungs (sc_children s l) = sc_children s l"
    using assms(4) by (simp add: sc_rungs_def list_all_iff filter_id_conv)
  have place: "sc_place g (snd p2) r (sc_children s l) =
      take k (remove1 r (sc_children s l)) @ r # drop k (remove1 r (sc_children s l))"
    using sc_place_eq [OF assms(3,5,4), of k g "snd p2"] assms(8) by (simp add: sc_place_index_def)
  have far: "sc_slop * sc_slop < (fst p1 - fst p0) * (fst p1 - fst p0) + (snd p1 - snd p0) * (snd p1 - snd p0)"
    using assms(7) by (simp add: sc_slop_def)
  show ?thesis
    using assms(1,2,5,6,9) far
    by (auto simp: sc_press_def sc_flush_def sc_move_def sc_lift_def sc_release_def sc_settle_def sc_land_def
          sc_settle_down_def sc_save_def sc_reset_def rungs place Let_def split: if_splits)
qed

theorem sc_carry_puts_the_card_witness:
  "sc_children (fst (sc_run None sc_demo_drag (sc_init sc_demo))) 0 =
     [\<lparr>n_ref = 2, n_id = ''b'', n_item = True\<rparr>, sc_demo_a, \<lparr>n_ref = 3, n_id = ''c'', n_item = True\<rparr>]"
proof -
  let ?s = "sc_init sc_demo"
  have ch: "sc_children ?s 0 = [sc_demo_a, \<lparr>n_ref = 2, n_id = ''b'', n_item = True\<rparr>,
      \<lparr>n_ref = 3, n_id = ''c'', n_item = True\<rparr>]" by (simp add: sc_init_def sc_demo_def)
  have "sc_phase_of ?s = Idle" "sc_keyed ?s = None" by (simp_all add: sc_init_def)
  moreover have "distinct (sc_children ?s 0)" "list_all n_item (sc_children ?s 0)"
    "sc_demo_a \<in> set (sc_children ?s 0)" "length (sc_children ?s 0) \<ge> 2" by (simp_all add: ch)
  moreover have "(fst (0, 50) - fst (0, 0)) * (fst (0, 50) - fst (0, 0)) +
      (snd (0, 50) - snd (0, 0)) * (snd (0, 50) - snd (0::rat, 0::rat)) > (25::rat)" by simp
  moreover have "1 = length (filter (\<lambda>n. snd (0::rat, 250) - g_list_top sc_demo_geo > g_mid sc_demo_geo (n_ref n))
      (remove1 sc_demo_a (sc_children ?s 0)))" by (simp add: ch sc_demo_geo_def)
  moreover obtain s' posts where r: "sc_run None sc_demo_drag ?s = (s', posts)" by fastforce
  ultimately have "sc_children s' 0 =
      take 1 (remove1 sc_demo_a (sc_children ?s 0)) @ sc_demo_a # drop 1 (remove1 sc_demo_a (sc_children ?s 0))"
    using sc_carry_puts_the_card [where s = ?s and l = 0 and r = sc_demo_a and ?p1.0 = "(0, 50)"
        and ?p0.0 = "(0, 0)" and k = 1 and ?p2.0 = "(0, 250)" and g = sc_demo_geo and sway = None and pid = 7 and seat = 0]
    by blast
  then show ?thesis using r by (simp add: ch)
qed

text \<open>(C28) Escape gives the carry back: in any state reached while a card is carried, Escape and the
  landing that follows leave the list in the order it had at the lift, save nothing, touch no
  other list, and leave no mark of the carry.\<close>

theorem sc_escape_gives_back:
  assumes "\<forall>e \<in> set es. \<forall>l nodes. e \<noteq> ERedraw l nodes"
    and "s = fst (sc_run sway es (sc_init children))"
    and "sc_phase_of s = Carrying" and "sc_list s = Some l"
    and "list_all n_item (children l)" "distinct (map n_id (children l))" "[] \<notin> set (map n_id (children l))"
    and "sc_run sway [EEscape g, ELanded True] s = (s', posts)"
  shows "posts = [] \<and> sc_order (sc_children s' l) = sc_before s \<and> sc_phase_of s' = Idle \<and>
    \<not> sc_carried s' \<and> sc_transform s' = None \<and> (\<forall>l'. l' \<noteq> l \<longrightarrow> sc_children s' l' = sc_children s l')"
proof -
  have init: "sc_inv (sc_init children)" by (simp add: sc_inv_def sc_init_def)
  have run: "sc_inv s" "mset (sc_children s l) = mset (children l)"
    using sc_run_step [OF init assms(1), of sway] assms(2) by (simp_all add: sc_same_steps_def sc_init_def)
  then obtain r where r: "sc_rung s = Some r" "r \<in> set (sc_children s l)"
    and kept: "mset (sc_before s) = mset (sc_order (sc_children s l))"
    using assms(3,4) by (auto simp: sc_inv_def sc_held_def sc_kept_def)
  have items: "list_all n_item (sc_children s l)"
    using assms(5) run(2) by (metis list_all_iff set_mset_mset)
  have ids: "mset (map n_id (sc_children s l)) = mset (map n_id (children l))" using run(2) by simp
  then have d: "distinct (map n_id (sc_children s l))" using assms(6) by (metis mset_eq_imp_distinct_iff)
  have ne: "[] \<notin> set (map n_id (sc_children s l))" using ids assms(7) by (metis set_mset_mset)
  have "sc_order (sc_children s l) = map n_id (sc_children s l)"
    using items ne by (auto simp: sc_order_def sc_rungs_def list_all_iff filter_id_conv)
  then have "mset (sc_before s) = mset (map n_id (sc_children s l))" using kept by simp
  then have home: "sc_order (sc_home (sc_before s) (sc_children s l)) = sc_before s"
    by (rule sc_home_order [OF items d ne])
  show ?thesis
    using assms(3,4,8) r home
    by (auto simp: sc_release_def sc_land_def sc_settle_down_def sc_reset_def Let_def)
qed

theorem sc_escape_gives_back_witness:
  "\<exists>s s' posts. s = fst (sc_run None [EPress 0 True 7 (0, 0) (Some (0, sc_demo_a)), EMove 7 (0, 250) 0,
       EFrame sc_demo_geo] (sc_init sc_demo)) \<and>
     sc_order (sc_children s 0) = [''b'', ''a'', ''c''] \<and>
     sc_run None [EEscape sc_demo_geo, ELanded True] s = (s', posts) \<and> posts = [] \<and>
     sc_order (sc_children s' 0) = [''a'', ''b'', ''c'']"
proof -
  let ?es = "[EPress 0 True 7 (0, 0) (Some (0, sc_demo_a)), EMove 7 (0, 250) 0, EFrame sc_demo_geo]"
  let ?s = "fst (sc_run None ?es (sc_init sc_demo))"
  obtain s' posts where r: "sc_run None [EEscape sc_demo_geo, ELanded True] ?s = (s', posts)" by fastforce
  have s: "sc_phase_of ?s = Carrying" "sc_list ?s = Some 0" "sc_before ?s = [''a'', ''b'', ''c'']"
    "sc_order (sc_children ?s 0) = [''b'', ''a'', ''c'']" by code_simp+
  have demo: "list_all n_item (sc_demo 0)" "distinct (map n_id (sc_demo 0))" "[] \<notin> set (map n_id (sc_demo 0))"
    by (simp_all add: sc_demo_def)
  have "posts = [] \<and> sc_order (sc_children s' 0) = sc_before ?s"
    using sc_escape_gives_back [OF _ refl s(1,2) demo r] by simp
  with r s(3,4) show ?thesis by (intro exI conjI) auto
qed

text \<open>A save of the keyboard's moves that answers during a carry ends the carry's state but not
  its marks: pressing a grip while a keyboard move waits to be saved sends that save, and when it
  settles after the card was lifted the carrier says it is idle and not busy, the card is still
  marked as carried, and letting go lands nothing, saves nothing and takes no mark away.\<close>

theorem sc_keyboard_save_abandons_carry:
  assumes "sc_phase_of s = Idle" "sc_keyed s = Some (l0, before)" "sc_saves s = 0"
    and "sc_differs (sc_order (sc_children s l0)) before"
    and "r \<in> set (sc_rungs (sc_children s l))" "length (sc_rungs (sc_children s l)) \<ge> 2"
    and "(fst p1 - fst p0) * (fst p1 - fst p0) + (snd p1 - snd p0) * (snd p1 - snd p0) > 25"
    and "sc_run sway [EPress 0 True pid p0 (Some (l, r)), EMove pid p1 seat, ESaved] s = (s', posts)"
  shows "posts = [(l0, sc_order (sc_children s l0))] \<and> sc_phase_of s' = Idle \<and> \<not> sc_busy s' \<and>
    sc_rung s' = Some r \<and> sc_carried s' \<and>
    sc_run sway [ERelease (Some pid) (Some p2) False g] s' = (s', [])"
proof -
  have far: "sc_slop * sc_slop < (fst p1 - fst p0) * (fst p1 - fst p0) + (snd p1 - snd p0) * (snd p1 - snd p0)"
    using assms(7) by (simp add: sc_slop_def)
  show ?thesis
    using assms(1-6,8) far
    by (auto simp: sc_press_def sc_flush_def sc_move_def sc_lift_def sc_release_def sc_saved_def
          sc_save_def sc_busy_def Let_def)
qed

theorem sc_keyboard_save_abandons_carry_witness:
  "\<exists>s'. fst (sc_run None [EKey False (Some (0, sc_demo_a)), EPress 0 True 7 (0, 0) (Some (0, sc_demo_a)),
       EMove 7 (0, 50) 0, ESaved] (sc_init sc_demo)) = s' \<and> \<not> sc_busy s' \<and> sc_carried s'"
proof -
  let ?s = "fst (sc_run None [EKey False (Some (0, sc_demo_a))] (sc_init sc_demo))"
  let ?es = "[EPress 0 True 7 (0, 0) (Some (0, sc_demo_a)), EMove 7 (0, 50) 0, ESaved]"
  obtain s' posts where r: "sc_run None ?es ?s = (s', posts)" by fastforce
  have "sc_phase_of ?s = Idle" "sc_keyed ?s = Some (0, [''a'', ''b'', ''c''])" "sc_saves ?s = 0"
    "sc_differs (sc_order (sc_children ?s 0)) [''a'', ''b'', ''c'']"
    "sc_demo_a \<in> set (sc_rungs (sc_children ?s 0))" "length (sc_rungs (sc_children ?s 0)) \<ge> 2"
    by code_simp+
  from sc_keyboard_save_abandons_carry [OF this _ r] have "\<not> sc_busy s' \<and> sc_carried s'" by simp
  with r show ?thesis by (auto simp: split_beta Let_def)
qed

end
