(* ===== verification/WeekWindows.thy ===== *)
theory WeekWindows
  imports JsValue "HOL-Library.Product_Lexorder"
begin

text \<open>
  When a model is open (\<open>static/js/week-windows.js\<close>): windows of weekdays and times of day, read as
  the open minutes of a week, edited as a wk of minutes and written back. A window comes as the
  JSON value the page or the server holds; a minute of the week is a natural number below 10080,
  Monday 00:00 being 0. The mask (\<open>Uint8Array\<close> of 0 and 1) is a list of booleans.
\<close>

definition ww_day :: nat where
  "ww_day = 1440"

definition ww_week :: nat where
  "ww_week = 7 * 1440"

section \<open>Times and days\<close>

text \<open>\<open>/^(\d{1,2}):(\d{2})$/\<close> on the trimmed text, and the hour and minute in range.\<close>

definition ww_minutes :: "js \<Rightarrow> nat option" where
  "ww_minutes v =
     (let s = js_trim (js_string (js_nn v (JStr [])));
          hs = takeWhile is_digit s; r = dropWhile is_digit s
      in if (length hs = 1 \<or> length hs = 2) \<and> r \<noteq> [] \<and> hd r = CHR '':'' \<and>
            length (tl r) = 2 \<and> list_all is_digit (tl r)
         then let hour = digits_val hs; minute = digits_val (tl r)
              in if hour > 23 \<or> minute > 59 then None else Some (hour * 60 + minute)
         else None)"

definition ww_hhmm :: "int \<Rightarrow> string" where
  "ww_hhmm minutes = (let m = nat (minutes mod int ww_day) in pad2 (m div 60) @ '':'' @ pad2 (m mod 60))"

definition ww_all_days :: "nat list" where
  "ww_all_days = [0, 1, 2, 3, 4, 5, 6]"

fun ww_day_of :: "js \<Rightarrow> nat option" where
  "ww_day_of (JNum r) = (if rat_int r \<and> 0 \<le> r \<and> r \<le> 6 then Some (nat \<lfloor>r\<rfloor>) else None)"
| "ww_day_of v = None"

definition ww_days :: "js \<Rightarrow> nat list option" where
  "ww_days raw =
     (if js_nullish raw then Some ww_all_days
      else if \<not> js_is_array raw then None
      else if list_ex (\<lambda>d. ww_day_of d = None) (js_list raw) then None
      else if js_list raw = [] then Some ww_all_days
      else Some (map (\<lambda>d. the (ww_day_of d)) (js_list raw)))"

lemma pad2_digits: "n < 100 \<Longrightarrow> c \<in> set (pad2 n) \<Longrightarrow> is_digit c"
  by (auto simp: pad2_lt100)

lemma digits_val_pad2: "n < 100 \<Longrightarrow> digits_val (pad2 n) = n"
  by (simp add: pad2_lt100 digits_val_def)

lemma length_pad2: "n < 100 \<Longrightarrow> length (pad2 n) = 2"
  by (simp add: pad2_lt100)

lemma ww_hhmm_parts:
  "\<exists>h m. h < 24 \<and> m < 60 \<and> nat (i mod 1440) = h * 60 + m \<and> ww_hhmm i = pad2 h @ '':'' @ pad2 m"
proof -
  have "nat (i mod 1440) < 1440" using pos_mod_bound [of 1440 i] by linarith
  then have "nat (i mod 1440) div 60 < 24" "nat (i mod 1440) mod 60 < 60" by (auto simp: less_mult_imp_div_less)
  then show ?thesis
    by (intro exI [where x = "nat (i mod 1440) div 60"] exI [where x = "nat (i mod 1440) mod 60"])
      (simp add: ww_hhmm_def ww_day_def Let_def)
qed

lemma length_ww_hhmm: "length (ww_hhmm i) = 5"
  using ww_hhmm_parts [of i] by (auto simp: length_pad2)

lemma ww_no_ws_trim: "s \<noteq> [] \<Longrightarrow> \<not> is_ws (hd s) \<Longrightarrow> \<not> is_ws (last s) \<Longrightarrow> js_trim s = s"
proof -
  assume "s \<noteq> []" "\<not> is_ws (hd s)" "\<not> is_ws (last s)"
  then have "dropWhile is_ws s = s" "dropWhile is_ws (rev s) = rev s"
    by (simp_all add: dropWhile_eq_self_iff hd_rev)
  then show ?thesis by (simp add: js_trim_def trim_start_def trim_end_def)
qed

text \<open>A printed time reads back.\<close>

lemma ww_minutes_hhmm [simp]: "ww_minutes (JStr (ww_hhmm i)) = Some (nat (i mod 1440))"
proof -
  obtain h m where hm: "h < 24" "m < 60" "nat (i mod 1440) = h * 60 + m"
    "ww_hhmm i = pad2 h @ '':'' @ pad2 m" using ww_hhmm_parts by blast
  let ?s = "pad2 h @ '':'' @ pad2 m"
  have d: "\<forall>c \<in> set (pad2 h). is_digit c" "\<forall>c \<in> set (pad2 m). is_digit c"
    using hm pad2_digits [of h] pad2_digits [of m] by auto
  have ne: "pad2 h \<noteq> []" "pad2 m \<noteq> []" using hm by (auto simp: pad2_lt100)
  have t: "js_trim ?s = ?s"
    using d ne is_digit_not by (intro ww_no_ws_trim) (auto simp: hd_append)
  have colon: "is_digit CHR '':'' = False" by code_simp
  have "takeWhile is_digit ?s = pad2 h" "dropWhile is_digit ?s = '':'' @ pad2 m"
    using d colon by (simp_all add: takeWhile_append2 dropWhile_append2)
  then show ?thesis using hm d t
    by (simp add: ww_minutes_def Let_def length_pad2 digits_val_pad2 list_all_iff colon)
qed

lemma ww_minutes_bound: "ww_minutes v = Some m \<Longrightarrow> m < 1440"
  by (auto simp: ww_minutes_def Let_def split: if_splits)

lemma ww_day_of_bound: "ww_day_of v = Some d \<Longrightarrow> d < 7"
proof (induction v rule: ww_day_of.induct)
  case (1 r)
  then have r: "r \<le> 6" "d = nat \<lfloor>r\<rfloor>" by (auto split: if_splits)
  have "nat \<lfloor>r\<rfloor> \<le> nat \<lfloor>6 :: rat\<rfloor>" by (intro nat_mono floor_mono r(1))
  also have "\<dots> = 6" by simp
  finally show ?case using r(2) by linarith
qed auto

lemma ww_days_bound: "ww_days raw = Some ds \<Longrightarrow> d \<in> set ds \<Longrightarrow> d < 7"
  by (fastforce simp: ww_days_def ww_all_days_def list_ex_iff split: if_splits dest: ww_day_of_bound)

section \<open>The open minutes of a week\<close>

text \<open>A window that reads: its days, its start and its length.\<close>

definition ww_read :: "js \<Rightarrow> (nat list \<times> nat \<times> nat) option" where
  "ww_read w =
     (case (ww_minutes (jget w ''from''), ww_minutes (jget w ''to''), ww_days (jget w ''days'')) of
        (Some start, Some end', Some days) \<Rightarrow>
          let l = nat ((int end' - int start) mod int ww_day)
          in Some (days, start, if l = 0 then ww_day else l)
      | _ \<Rightarrow> None)"

definition ww_day_pieces :: "nat \<Rightarrow> nat \<Rightarrow> nat \<Rightarrow> (nat \<times> nat) list" where
  "ww_day_pieces start l day =
     (let b = day * ww_day + start; stop = b + l
      in if stop \<le> ww_week then [(b, stop)] else [(b, ww_week), (0, stop - ww_week)])"

definition ww_pieces :: "js \<Rightarrow> (nat \<times> nat) list" where
  "ww_pieces w = (case ww_read w of None \<Rightarrow> []
     | Some (days, start, l) \<Rightarrow> concat (map (ww_day_pieces start l) days))"

definition ww_piece_cmp :: "nat \<times> nat \<Rightarrow> nat \<times> nat \<Rightarrow> int" where
  "ww_piece_cmp a b = (let d = int (fst a) - int (fst b) in if d \<noteq> 0 then d else int (snd a) - int (snd b))"

text \<open>The merging loop, \<open>out\<close> with its last run first.\<close>

fun ww_merge :: "(nat \<times> nat) list \<Rightarrow> (nat \<times> nat) list \<Rightarrow> (nat \<times> nat) list" where
  "ww_merge out [] = rev out"
| "ww_merge [] (p # ps) = ww_merge [p] ps"
| "ww_merge ((b', s') # out) ((b, s) # ps) =
     (if b \<le> s' then ww_merge ((b', max s' s) # out) ps
      else ww_merge ((b, s) # (b', s') # out) ps)"

definition ww_runs :: "js \<Rightarrow> (nat \<times> nat) list" where
  "ww_runs windows = ww_merge [] (js_sort ww_piece_cmp (concat (map ww_pieces (js_list windows))))"

definition ww_fill :: "bool \<Rightarrow> nat \<Rightarrow> nat \<Rightarrow> bool list \<Rightarrow> bool list" where
  "ww_fill v b e wk = map (\<lambda>(i, x). if b \<le> i \<and> i < e then v else x) (enumerate 0 wk)"

definition ww_mask :: "js \<Rightarrow> bool list" where
  "ww_mask windows = fold (\<lambda>(b, stop). ww_fill True b stop) (ww_runs windows) (replicate ww_week False)"

definition ww_share :: "bool list \<Rightarrow> nat \<Rightarrow> nat \<Rightarrow> nat" where
  "ww_share wk day hour =
     (let b = day * ww_day + hour * 60 in length (filter (\<lambda>m. wk ! m) [b ..< b + 60]))"

definition ww_paint :: "bool list \<Rightarrow> nat \<Rightarrow> nat \<Rightarrow> bool \<Rightarrow> bool list" where
  "ww_paint wk day hour opened =
     (let b = day * ww_day + hour * 60 in ww_fill opened b (b + 60) wk)"

text \<open>The rule: a window opens a minute when one of its days does, past midnight (and past the
  week's end) included.\<close>

definition ww_opens :: "nat list \<Rightarrow> nat \<Rightarrow> nat \<Rightarrow> nat \<Rightarrow> bool" where
  "ww_opens days start l m =
     list_ex (\<lambda>day. list_ex (\<lambda>k. m = (day * ww_day + start + k) mod ww_week) [0 ..< l]) days"

definition ww_open_at :: "js \<Rightarrow> nat \<Rightarrow> bool" where
  "ww_open_at windows m = list_ex (\<lambda>w. case ww_read w of None \<Rightarrow> False
     | Some (days, start, l) \<Rightarrow> ww_opens days start l m) (js_list windows)"

definition ww_covers :: "(nat \<times> nat) list \<Rightarrow> nat \<Rightarrow> bool" where
  "ww_covers ps m = list_ex (\<lambda>(b, s). b \<le> m \<and> m < s) ps"

lemma ww_covers_simps [simp]:
  "ww_covers [] m = False"
  "ww_covers (p # ps) m \<longleftrightarrow> fst p \<le> m \<and> m < snd p \<or> ww_covers ps m"
  "ww_covers (ps @ qs) m \<longleftrightarrow> ww_covers ps m \<or> ww_covers qs m"
  by (auto simp: ww_covers_def)

lemma ww_covers_set: "ww_covers ps m \<longleftrightarrow> (\<exists>(b, s) \<in> set ps. b \<le> m \<and> m < s)"
  by (auto simp: ww_covers_def list_ex_iff)

lemma ww_covers_rev [simp]: "ww_covers (rev ps) m = ww_covers ps m"
  by (simp add: ww_covers_set)

lemma ww_read_bounds: "ww_read w = Some (days, start, l) \<Longrightarrow>
  start < 1440 \<and> 0 < l \<and> l \<le> 1440 \<and> (\<forall>d \<in> set days. d < 7)"
proof -
  assume r: "ww_read w = Some (days, start, l)"
  then obtain s e where "ww_minutes (jget w ''from'') = Some s" "ww_minutes (jget w ''to'') = Some e"
    "ww_days (jget w ''days'') = Some days" "start = s"
    "l = (let x = nat ((int e - int s) mod 1440) in if x = 0 then 1440 else x)"
    by (auto simp: ww_read_def ww_day_def Let_def split: option.splits if_splits)
  moreover have "nat ((int e - int s) mod 1440) < 1440"
    using pos_mod_bound [of 1440 "int e - int s"] by linarith
  ultimately show ?thesis using ww_minutes_bound ww_days_bound by (auto simp: Let_def)
qed

lemma ww_day_pieces_covers:
  assumes "d < 7" "start < 1440" "0 < l" "l \<le> 1440"
  shows "ww_covers (ww_day_pieces start l d) m \<longleftrightarrow> (\<exists>k < l. m = (d * 1440 + start + k) mod 10080)"
proof -
  let ?b = "d * 1440 + start"
  have b: "?b < 10080" using assms by linarith
  have "(\<exists>k < l. m = (?b + k) mod 10080) \<longleftrightarrow>
      (?b \<le> m \<and> m < ?b + l \<and> m < 10080) \<or> (m + 10080 < ?b + l)"
  proof
    assume "\<exists>k < l. m = (?b + k) mod 10080"
    then obtain k where k: "k < l" "m = (?b + k) mod 10080" by auto
    show "(?b \<le> m \<and> m < ?b + l \<and> m < 10080) \<or> (m + 10080 < ?b + l)"
    proof (cases "?b + k < 10080")
      case True
      then show ?thesis using k by simp
    next
      case False
      then have "(?b + k) mod 10080 = ?b + k - 10080"
        using b k assms(4) by (simp add: mod_if)
      then show ?thesis using k False by simp
    qed
  next
    assume "(?b \<le> m \<and> m < ?b + l \<and> m < 10080) \<or> (m + 10080 < ?b + l)"
    then show "\<exists>k < l. m = (?b + k) mod 10080"
    proof
      assume "?b \<le> m \<and> m < ?b + l \<and> m < 10080"
      then show ?thesis by (intro exI [where x = "m - ?b"]) auto
    next
      assume a: "m + 10080 < ?b + l"
      then have "m < 1440" using b assms(4) by linarith
      then have "(m + 10080) mod 10080 = m" by simp
      then show ?thesis using a b by (intro exI [where x = "m + 10080 - ?b"]) auto
    qed
  qed
  then show ?thesis using b assms(3,4)
    by (auto simp: ww_day_pieces_def ww_week_def ww_day_def Let_def)
qed

lemma ww_pieces_covers:
  "ww_covers (ww_pieces w) m \<longleftrightarrow> (case ww_read w of None \<Rightarrow> False
     | Some (days, start, l) \<Rightarrow> ww_opens days start l m)"
proof (cases "ww_read w")
  case None
  then show ?thesis by (simp add: ww_pieces_def)
next
  case (Some x)
  obtain days start l where x: "x = (days, start, l)" by (cases x) auto
  have b: "start < 1440" "0 < l" "l \<le> 1440" "\<forall>d \<in> set days. d < 7"
    using ww_read_bounds Some x by auto
  have "ww_covers (concat (map (ww_day_pieces start l) days)) m \<longleftrightarrow>
      (\<exists>d \<in> set days. ww_covers (ww_day_pieces start l d) m)"
    by (auto simp: ww_covers_set)
  also have "\<dots> \<longleftrightarrow> (\<exists>d \<in> set days. \<exists>k < l. m = (d * 1440 + start + k) mod 10080)"
    using ww_day_pieces_covers b by (intro bex_cong) auto
  also have "\<dots> \<longleftrightarrow> ww_opens days start l m"
    by (simp add: ww_opens_def list_ex_iff ww_day_def ww_week_def Bex_def)
  finally show ?thesis using Some x by (simp add: ww_pieces_def)
qed

lemma ww_piece_ok: "p \<in> set (ww_pieces w) \<Longrightarrow> fst p < snd p \<and> snd p \<le> 10080"
proof -
  assume "p \<in> set (ww_pieces w)"
  then obtain days start l d where r: "ww_read w = Some (days, start, l)" "d \<in> set days"
    "p \<in> set (ww_day_pieces start l d)"
    by (cases "ww_read w") (auto simp: ww_pieces_def)
  have "start < 1440" "0 < l" "l \<le> 1440" "d < 7" using ww_read_bounds [OF r(1)] r(2) by auto
  then show ?thesis using r(3)
    by (auto simp: ww_day_pieces_def ww_week_def ww_day_def Let_def split: if_splits)
qed

section \<open>The runs are sorted, apart, and the union of the windows\<close>

lemma ww_piece_sort: "js_sort ww_piece_cmp ps = sort ps"
  by (rule js_sort_sort_key) (auto simp: ww_piece_cmp_def Let_def less_eq_prod_def less_le)

definition ww_apart :: "(nat \<times> nat) list \<Rightarrow> bool" where
  "ww_apart rs = (sorted_wrt (\<lambda>x y. snd x < fst y) rs \<and> list_all (\<lambda>x. fst x < snd x) rs)"

lemma ww_merge_covers:
  "sorted (map fst ps) \<Longrightarrow> (\<forall>q \<in> set ps. out \<noteq> [] \<longrightarrow> fst (hd out) \<le> fst q) \<Longrightarrow>
   ww_covers (ww_merge out ps) m \<longleftrightarrow> ww_covers out m \<or> ww_covers ps m"
  by (induction out ps rule: ww_merge.induct) (auto split: if_splits)

lemma ww_merge_apart:
  "sorted (map fst ps) \<Longrightarrow> (\<forall>q \<in> set ps. out \<noteq> [] \<longrightarrow> fst (hd out) \<le> fst q) \<Longrightarrow>
   list_all (\<lambda>x. fst x < snd x) ps \<Longrightarrow> ww_apart (rev out) \<Longrightarrow> ww_apart (ww_merge out ps)"
proof (induction out ps rule: ww_merge.induct)
  case (1 out)
  then show ?case by simp
next
  case (2 p ps)
  then show ?case by (auto simp: ww_apart_def)
next
  case (3 b' s' out b s ps)
  show ?case
  proof (cases "b \<le> s'")
    case True
    with 3 show ?thesis
      by (auto simp: ww_apart_def sorted_wrt_append split: if_splits)
  next
    case False
    have "ww_apart (rev ((b, s) # (b', s') # out))"
      using 3 False by (fastforce simp: ww_apart_def sorted_wrt_append list_all_iff)
    with 3 False show ?thesis by auto
  qed
qed

lemma ww_merge_bound:
  "(\<forall>p \<in> set out \<union> set ps. snd p \<le> n) \<Longrightarrow> p \<in> set (ww_merge out ps) \<Longrightarrow> snd p \<le> n"
proof (induction out ps rule: ww_merge.induct)
  case (3 b' s' out b s ps)
  show ?case
  proof (cases "b \<le> s'")
    case True
    then have "p \<in> set (ww_merge ((b', max s' s) # out) ps)" using "3.prems"(2) by simp
    moreover have "\<forall>p \<in> set ((b', max s' s) # out) \<union> set ps. snd p \<le> n" using "3.prems"(1) by auto
    ultimately show ?thesis using "3.IH"(1) True by blast
  next
    case False
    then have "p \<in> set (ww_merge ((b, s) # (b', s') # out) ps)" using "3.prems"(2) by simp
    moreover have "\<forall>p \<in> set ((b, s) # (b', s') # out) \<union> set ps. snd p \<le> n" using "3.prems"(1) by auto
    ultimately show ?thesis using "3.IH"(2) False by blast
  qed
qed auto

lemma sort_pieces_fst: "sorted (map fst (sort (ps :: (nat \<times> nat) list)))"
proof -
  have "sorted_wrt (\<le>) (sort ps)" by simp
  then have "sorted_wrt (\<lambda>x y. fst x \<le> fst y) (sort ps)"
    by (rule sorted_wrt_mono_rel [rotated]) (auto simp: less_eq_prod_def)
  then show ?thesis by (simp add: sorted_wrt_map)
qed

lemma ww_runs_apart: "ww_apart (ww_runs windows)"
  unfolding ww_runs_def ww_piece_sort
  by (rule ww_merge_apart) (auto simp: sort_pieces_fst ww_apart_def list_all_iff dest: ww_piece_ok)

lemma ww_runs_bound: "p \<in> set (ww_runs windows) \<Longrightarrow> snd p \<le> 10080"
  unfolding ww_runs_def ww_piece_sort
  by (rule ww_merge_bound [rotated]) (auto dest!: ww_piece_ok)

lemma ww_runs_covers: "ww_covers (ww_runs windows) m \<longleftrightarrow> ww_open_at windows m"
proof -
  have "ww_covers (ww_runs windows) m \<longleftrightarrow> ww_covers (concat (map ww_pieces (js_list windows))) m"
    unfolding ww_runs_def ww_piece_sort
    by (subst ww_merge_covers) (auto simp: sort_pieces_fst ww_covers_set)
  also have "\<dots> \<longleftrightarrow> (\<exists>w \<in> set (js_list windows). ww_covers (ww_pieces w) m)"
    by (auto simp: ww_covers_set)
  finally show ?thesis by (simp add: ww_pieces_covers ww_open_at_def list_ex_iff)
qed

lemma length_ww_fill [simp]: "length (ww_fill v b e wk) = length wk"
  by (simp add: ww_fill_def)

lemma ww_fill_nth: "m < length wk \<Longrightarrow> ww_fill v b e wk ! m = (if b \<le> m \<and> m < e then v else wk ! m)"
  by (simp add: ww_fill_def nth_enumerate_eq)

lemma ww_fold_fill:
  "length (fold (\<lambda>(b, s). ww_fill True b s) rs wk) = length wk \<and>
   (m < length wk \<longrightarrow> fold (\<lambda>(b, s). ww_fill True b s) rs wk ! m = (ww_covers rs m \<or> wk ! m))"
  by (induction rs arbitrary: wk) (simp, clarsimp simp: ww_fill_nth, auto)

lemma length_ww_mask [simp]: "length (ww_mask windows) = ww_week"
  using ww_fold_fill by (simp add: ww_mask_def)

lemma ww_mask_nth: "m < ww_week \<Longrightarrow> ww_mask windows ! m = ww_open_at windows m"
  using ww_fold_fill [of "ww_runs windows" "replicate ww_week False" m]
  by (simp add: ww_mask_def ww_runs_covers)

section \<open>The windows a week of minutes is\<close>

type_synonym ww_piece = "nat \<times> string \<times> string"

definition ww_day_at :: "nat \<Rightarrow> nat" where
  "ww_day_at m = (m mod ww_week) div ww_day"

function ww_cut_go :: "nat \<Rightarrow> nat \<Rightarrow> ww_piece list" where
  "ww_cut_go m left =
     (if left = 0 then []
      else let n = min left (ww_day - m mod ww_day)
           in (ww_day_at m, ww_hhmm (int m), ww_hhmm (int (m + n))) # ww_cut_go ((m + n) mod ww_week) (left - n))"
  by pat_completeness auto
termination
  by (relation "measure snd") (auto simp: ww_day_def)

declare ww_cut_go.simps [simp del]

definition ww_cut :: "nat \<Rightarrow> nat \<Rightarrow> ww_piece list" where
  "ww_cut start len =
     (if len \<le> ww_day then [(ww_day_at start, ww_hhmm (int start), ww_hhmm (int (start + len)))]
      else ww_cut_go start len)"

definition ww_scan_step :: "bool list \<Rightarrow> nat \<Rightarrow> nat option \<times> ww_piece list \<Rightarrow> nat \<Rightarrow> nat option \<times> ww_piece list" where
  "ww_scan_step wk shut st k =
     (let m = (shut + k) mod ww_week;
          start = (if wk ! m \<and> fst st = None then Some m else fst st)
      in case start of
           Some s \<Rightarrow> if wk ! m then (Some s, snd st)
                     else (None, snd st @ ww_cut s (nat ((int m - int s) mod int ww_week)))
         | None \<Rightarrow> (None, snd st))"

definition ww_scan :: "bool list \<Rightarrow> nat \<Rightarrow> ww_piece list" where
  "ww_scan wk shut = snd (foldl (ww_scan_step wk shut) (None, []) [1 ..< ww_week + 1])"

text \<open>\<open>byTimes\<close>: the entries of the map in the order they were made, each with its key.\<close>

type_synonym ww_entry = "string \<times> nat list \<times> string \<times> string"

fun ww_add_piece :: "ww_entry list \<Rightarrow> ww_piece \<Rightarrow> ww_entry list" where
  "ww_add_piece [] (d, from, to) = [(from @ ''-'' @ to, [d], from, to)]"
| "ww_add_piece ((key, ds, f, t) # es) (d, from, to) =
     (if key = from @ ''-'' @ to then (key, if d \<in> set ds then ds else ds @ [d], f, t) # es
      else (key, ds, f, t) # ww_add_piece es (d, from, to))"

type_synonym ww_window = "nat list \<times> string \<times> string"

definition ww_entry_window :: "ww_entry \<Rightarrow> ww_window" where
  "ww_entry_window e = (case e of (key, ds, f, t) \<Rightarrow>
     let days = js_sort (\<lambda>a b. int a - int b) ds in (if length days = 7 then [] else days, f, t))"

definition ww_time :: "string \<Rightarrow> int" where
  "ww_time s = (case ww_minutes (JStr s) of Some m \<Rightarrow> int m | None \<Rightarrow> 0)"

definition ww_first :: "ww_window \<Rightarrow> int" where
  "ww_first w = (case fst w of d # ds \<Rightarrow> int d | [] \<Rightarrow> -1)"

definition ww_window_cmp :: "ww_window \<Rightarrow> ww_window \<Rightarrow> int" where
  "ww_window_cmp a b =
     (if ww_first a \<noteq> ww_first b then ww_first a - ww_first b
      else if ww_time (fst (snd a)) \<noteq> ww_time (fst (snd b)) then ww_time (fst (snd a)) - ww_time (fst (snd b))
      else ww_time (snd (snd a)) - ww_time (snd (snd b)))"

definition ww_windows_of :: "bool list \<Rightarrow> ww_window list" where
  "ww_windows_of wk =
     (if list_all (\<lambda>x. x) wk then [([], ''00:00'', ''00:00'')]
      else case index_of False wk of None \<Rightarrow> []
      | Some shut \<Rightarrow>
          js_sort ww_window_cmp (map ww_entry_window (foldl ww_add_piece [] (ww_scan wk shut))))"

definition ww_window_js :: "ww_window \<Rightarrow> js" where
  "ww_window_js w = (case w of (days, from, to) \<Rightarrow>
     JObj [(''days'', JArr (map (\<lambda>d. JNum (of_nat d)) days)), (''from'', JStr from), (''to'', JStr to)])"

definition ww_from_mask :: "bool list \<Rightarrow> js" where
  "ww_from_mask wk = JArr (map ww_window_js (ww_windows_of wk))"

section \<open>The windows written read as the week they were written from\<close>

text \<open>The minutes a window of one day opens.\<close>

definition ww_slot :: "ww_piece \<Rightarrow> nat \<Rightarrow> bool" where
  "ww_slot p m = (case p of (d, from, to) \<Rightarrow>
     (case ww_read (ww_window_js ([d], from, to)) of
        None \<Rightarrow> False | Some (ds, start, l) \<Rightarrow> \<exists>k < l. m = (d * 1440 + start + k) mod 10080))"

definition ww_slots :: "ww_piece list \<Rightarrow> nat \<Rightarrow> bool" where
  "ww_slots ps m = (\<exists>p \<in> set ps. ww_slot p m)"

definition ww_piece_fine :: "ww_piece \<Rightarrow> bool" where
  "ww_piece_fine p = (case p of (d, from, to) \<Rightarrow> d < 7 \<and> length from = 5 \<and>
     ww_minutes (JStr from) \<noteq> None \<and> ww_minutes (JStr to) \<noteq> None)"

lemma ww_slots_simps [simp]:
  "ww_slots [] m = False" "ww_slots (p # ps) m \<longleftrightarrow> ww_slot p m \<or> ww_slots ps m"
  "ww_slots (ps @ qs) m \<longleftrightarrow> ww_slots ps m \<or> ww_slots qs m"
  by (auto simp: ww_slots_def)

lemma ww_day_of_nat [simp]: "d < 7 \<Longrightarrow> ww_day_of (JNum (of_nat d)) = Some d"
proof -
  assume "d < 7"
  then have "(of_nat d :: rat) \<le> of_nat 6" by (simp only: of_nat_le_iff)
  moreover have "rat_int (of_nat d)" using rat_int_of_int [of "int d"] by simp
  ultimately show ?thesis by simp
qed

lemma ww_days_of_nats: "\<forall>d \<in> set ds. d < 7 \<Longrightarrow>
  ww_days (JArr (map (\<lambda>d. JNum (of_nat d)) ds)) = Some (if ds = [] then ww_all_days else ds)"
  by (auto simp: ww_days_def list_ex_iff map_idI comp_def simp del: ww_day_of.simps)

lemma ww_read_window:
  assumes "\<forall>d \<in> set ds. d < 7" "ww_minutes (JStr from) = Some a" "ww_minutes (JStr to) = Some b"
  shows "ww_read (ww_window_js (ds, from, to)) = Some (if ds = [] then ww_all_days else ds, a,
    let l = nat ((int b - int a) mod 1440) in if l = 0 then 1440 else l)"
  using assms by (simp add: ww_read_def ww_window_js_def ww_days_of_nats ww_day_def Let_def)

lemma ww_span:
  assumes "0 < len" "len \<le> 1440"
  shows "(let l = nat ((int (nat (int (s + len) mod 1440)) - int (nat (int s mod 1440))) mod 1440)
          in if l = 0 then 1440 else l) = len"
proof -
  have "(int (nat (int (s + len) mod 1440)) - int (nat (int s mod 1440))) mod 1440 = int len mod 1440"
    by (simp add: mod_diff_eq)
  moreover have "int len mod 1440 = (if len = 1440 then 0 else int len)" using assms by auto
  ultimately show ?thesis using assms by (simp add: Let_def)
qed

lemma ww_slot_hhmm:
  assumes "s < 10080" "0 < len" "len \<le> 1440"
  shows "ww_slot (ww_day_at s, ww_hhmm (int s), ww_hhmm (int (s + len))) m \<longleftrightarrow> (\<exists>k < len. m = (s + k) mod 10080)"
    and "ww_piece_fine (ww_day_at s, ww_hhmm (int s), ww_hhmm (int (s + len)))"
proof -
  have d: "ww_day_at s < 7" using assms(1) by (simp add: ww_day_at_def ww_week_def ww_day_def less_mult_imp_div_less)
  have start: "ww_day_at s * 1440 + nat (int s mod 1440) = s"
    using assms(1) by (simp add: ww_day_at_def ww_week_def ww_day_def nat_mod_distrib)
  have "ww_read (ww_window_js ([ww_day_at s], ww_hhmm (int s), ww_hhmm (int (s + len)))) =
      Some ([ww_day_at s], nat (int s mod 1440), len)"
    using ww_read_window [of "[ww_day_at s]" "ww_hhmm (int s)" "nat (int s mod 1440)" "ww_hhmm (int (s + len))"
        "nat (int (s + len) mod 1440)", unfolded ww_span [OF assms(2,3)]] d
    by (simp only: ww_minutes_hhmm list.simps if_False ball_simps simp_thms)
  then show "ww_slot (ww_day_at s, ww_hhmm (int s), ww_hhmm (int (s + len))) m \<longleftrightarrow> (\<exists>k < len. m = (s + k) mod 10080)"
    using start by (simp add: ww_slot_def)
  show "ww_piece_fine (ww_day_at s, ww_hhmm (int s), ww_hhmm (int (s + len)))"
    using d by (simp add: ww_piece_fine_def length_ww_hhmm)
qed

lemma ww_cut_go_slots:
  "m < 10080 \<Longrightarrow> (ww_slots (ww_cut_go m left) x \<longleftrightarrow> (\<exists>k < left. x = (m + k) mod 10080)) \<and>
   list_all ww_piece_fine (ww_cut_go m left)"
proof (induction m left rule: ww_cut_go.induct)
  case (1 m left)
  show ?case
  proof (cases "left = 0")
    case True
    then show ?thesis by (simp add: ww_cut_go.simps [of m 0])
  next
    case False
    let ?n = "min left (1440 - m mod 1440)"
    have n: "0 < ?n" "?n \<le> 1440" "?n \<le> left" using False by auto
    have go: "ww_cut_go m left = (ww_day_at m, ww_hhmm (int m), ww_hhmm (int (m + ?n))) #
        ww_cut_go ((m + ?n) mod 10080) (left - ?n)"
      using False by (subst ww_cut_go.simps) (simp add: Let_def ww_day_def ww_week_def)
    have ih: "(ww_slots (ww_cut_go ((m + ?n) mod 10080) (left - ?n)) x \<longleftrightarrow>
        (\<exists>k < left - ?n. x = ((m + ?n) mod 10080 + k) mod 10080)) \<and>
        list_all ww_piece_fine (ww_cut_go ((m + ?n) mod 10080) (left - ?n))"
      using "1.IH" False by (simp add: ww_day_def ww_week_def)
    have "(\<exists>k < left. x = (m + k) mod 10080) \<longleftrightarrow>
        (\<exists>k < ?n. x = (m + k) mod 10080) \<or> (\<exists>k < left - ?n. x = (m + (?n + k)) mod 10080)"
    proof
      assume "\<exists>k < left. x = (m + k) mod 10080"
      then obtain k where k: "k < left" "x = (m + k) mod 10080" by auto
      show "(\<exists>k < ?n. x = (m + k) mod 10080) \<or> (\<exists>k < left - ?n. x = (m + (?n + k)) mod 10080)"
      proof (cases "k < ?n")
        case False
        then have "k - ?n < left - ?n" "x = (m + (?n + (k - ?n))) mod 10080" using k n by auto
        then show ?thesis by blast
      qed (use k in blast)
    next
      assume "(\<exists>k < ?n. x = (m + k) mod 10080) \<or> (\<exists>k < left - ?n. x = (m + (?n + k)) mod 10080)"
      then show "\<exists>k < left. x = (m + k) mod 10080"
      proof
        assume "\<exists>k < ?n. x = (m + k) mod 10080"
        then obtain k where "k < ?n" "x = (m + k) mod 10080" by blast
        moreover from this(1) have "k < left" using n(3) by linarith
        ultimately show ?thesis by blast
      next
        assume "\<exists>k < left - ?n. x = (m + (?n + k)) mod 10080"
        then obtain k where "k < left - ?n" "x = (m + (?n + k)) mod 10080" by blast
        moreover from this(1) have "?n + k < left" by linarith
        ultimately show ?thesis by blast
      qed
    qed
    moreover have "((m + ?n) mod 10080 + k) mod 10080 = (m + (?n + k)) mod 10080" for k
      by (simp add: mod_add_left_eq add.assoc)
    ultimately show ?thesis
      using ih ww_slot_hhmm(1) [OF "1.prems" n(1,2), of x] ww_slot_hhmm(2) [OF "1.prems" n(1,2)] by (simp add: go)
  qed
qed

lemma ww_cut_slots:
  assumes "s < 10080" "0 < len"
  shows "ww_slots (ww_cut s len) x \<longleftrightarrow> (\<exists>k < len. x = (s + k) mod 10080)" "list_all ww_piece_fine (ww_cut s len)"
  using ww_cut_go_slots [OF assms(1)] ww_slot_hhmm [OF assms] by (simp_all add: ww_cut_def ww_day_def)

text \<open>The scan: from the first closed minute once around the week, each open stretch is cut where it
  ends, and the last one ends at the closed minute it set out from.\<close>

lemma ww_split_range:
  "1 \<le> i \<Longrightarrow> i \<le> n \<Longrightarrow> \<not> P (Suc n) \<Longrightarrow> (\<exists>j. 1 \<le> j \<and> j \<le> Suc n \<and> P j) \<longleftrightarrow>
     (\<exists>j. 1 \<le> j \<and> j < i \<and> P j) \<or> (\<exists>j. i \<le> j \<and> j \<le> n \<and> P j)"
proof -
  assume i: "1 \<le> i" "i \<le> n" "\<not> P (Suc n)"
  then have "1 \<le> j \<and> j \<le> Suc n \<and> P j \<longleftrightarrow> (1 \<le> j \<and> j < i \<and> P j) \<or> (i \<le> j \<and> j \<le> n \<and> P j)" for j
    by (cases "j = Suc n") auto
  then show ?thesis by blast
qed

lemma ww_scan_inv:
  assumes "c < 10080" "n \<le> 10080" and wk: "\<not> wk ! c"
  shows "let st = foldl (ww_scan_step wk c) (None, []) [1 ..< n + 1] in
     list_all ww_piece_fine (snd st) \<and>
     (case fst st of
        None \<Rightarrow> \<forall>x. ww_slots (snd st) x \<longleftrightarrow> (\<exists>j. 1 \<le> j \<and> j \<le> n \<and> wk ! ((c + j) mod 10080) \<and> x = (c + j) mod 10080)
      | Some s \<Rightarrow> \<exists>i. 1 \<le> i \<and> i \<le> n \<and> s = (c + i) mod 10080 \<and> (\<forall>j. i \<le> j \<and> j \<le> n \<longrightarrow> wk ! ((c + j) mod 10080)) \<and>
          (\<forall>x. ww_slots (snd st) x \<longleftrightarrow> (\<exists>j. 1 \<le> j \<and> j < i \<and> wk ! ((c + j) mod 10080) \<and> x = (c + j) mod 10080)))"
  using assms(2)
proof (induction n)
  case 0
  then show ?case by simp
next
  case (Suc n)
  obtain st ps where stps: "foldl (ww_scan_step wk c) (None, []) [1 ..< n + 1] = (st, ps)" by fastforce
  let ?m = "(c + Suc n) mod 10080"
  have run: "foldl (ww_scan_step wk c) (None, []) [1 ..< Suc n + 1] = ww_scan_step wk c (st, ps) (Suc n)"
    using stps by simp
  have ih: "list_all ww_piece_fine ps" using Suc stps by (simp add: Let_def)
  show ?case
  proof (cases st)
    case None
    then have slots: "ww_slots ps x \<longleftrightarrow> (\<exists>j. 1 \<le> j \<and> j \<le> n \<and> wk ! ((c + j) mod 10080) \<and> x = (c + j) mod 10080)" for x
      using Suc stps by (simp add: Let_def)
    show ?thesis
    proof (cases "wk ! ?m")
      case True
      then have "ww_scan_step wk c (st, ps) (Suc n) = (Some ?m, ps)"
        using None by (simp add: ww_scan_step_def Let_def ww_week_def)
      moreover have "\<forall>j. Suc n \<le> j \<and> j \<le> Suc n \<longrightarrow> wk ! ((c + j) mod 10080)"
        using True by (metis le_antisym)
      ultimately show ?thesis using ih slots run
        by (simp add: Let_def less_Suc_eq_le) (rule exI [where x = "Suc n"], simp add: less_Suc_eq_le)
    next
      case False
      then have "ww_scan_step wk c (st, ps) (Suc n) = (None, ps)"
        using None by (simp add: ww_scan_step_def Let_def ww_week_def)
      moreover have "(\<exists>j. 1 \<le> j \<and> j \<le> Suc n \<and> wk ! ((c + j) mod 10080) \<and> x = (c + j) mod 10080) \<longleftrightarrow>
          (\<exists>j. 1 \<le> j \<and> j \<le> n \<and> wk ! ((c + j) mod 10080) \<and> x = (c + j) mod 10080)" for x
        using False by (metis le_SucE le_SucI)
      ultimately show ?thesis using ih slots run by (simp add: Let_def)
    qed
  next
    case (Some s)
    then obtain i where i: "1 \<le> i" "i \<le> n" "s = (c + i) mod 10080"
      "\<And>j. i \<le> j \<Longrightarrow> j \<le> n \<Longrightarrow> wk ! ((c + j) mod 10080)"
      "\<And>x. ww_slots ps x \<longleftrightarrow> (\<exists>j. 1 \<le> j \<and> j < i \<and> wk ! ((c + j) mod 10080) \<and> x = (c + j) mod 10080)"
      using Suc stps by (auto simp: Let_def)
    show ?thesis
    proof (cases "wk ! ?m")
      case True
      then have "ww_scan_step wk c (st, ps) (Suc n) = (Some s, ps)"
        using Some by (simp add: ww_scan_step_def Let_def ww_week_def)
      moreover have "\<forall>j. i \<le> j \<and> j \<le> Suc n \<longrightarrow> wk ! ((c + j) mod 10080)"
        using True i(4) by (metis le_SucE)
      ultimately show ?thesis using ih i run
        by (simp add: Let_def) (rule exI [where x = i], simp)
    next
      case False
      let ?l = "Suc n - i"
      have "(int ?m - int s) mod 10080 = int ?l mod 10080"
        using i(2,3) by (simp add: zmod_int mod_diff_eq of_nat_diff algebra_simps)
      moreover have "int ?l mod 10080 = int ?l" using i(1) Suc.prems by simp
      ultimately have len: "nat ((int ?m - int s) mod 10080) = ?l" by simp
      then have step: "ww_scan_step wk c (st, ps) (Suc n) = (None, ps @ ww_cut s ?l)"
        using Some False by (simp add: ww_scan_step_def Let_def ww_week_def)
      have cut: "ww_slots (ww_cut s ?l) x \<longleftrightarrow> (\<exists>k < ?l. x = (s + k) mod 10080)"
        "list_all ww_piece_fine (ww_cut s ?l)" for x
        using ww_cut_slots [of s ?l] i(2,3) by simp_all
      have "(\<exists>k < ?l. x = (s + k) mod 10080) \<longleftrightarrow>
          (\<exists>j. i \<le> j \<and> j \<le> n \<and> wk ! ((c + j) mod 10080) \<and> x = (c + j) mod 10080)" for x
      proof
        assume "\<exists>k < ?l. x = (s + k) mod 10080"
        then obtain k where k: "k < ?l" "x = (s + k) mod 10080" by auto
        then have "x = (c + (i + k)) mod 10080" using i(3) by (simp add: mod_add_left_eq add.assoc)
        moreover have "i \<le> i + k" "i + k \<le> n" using k(1) i(2) by auto
        ultimately show "\<exists>j. i \<le> j \<and> j \<le> n \<and> wk ! ((c + j) mod 10080) \<and> x = (c + j) mod 10080"
          using i(4) by blast
      next
        assume "\<exists>j. i \<le> j \<and> j \<le> n \<and> wk ! ((c + j) mod 10080) \<and> x = (c + j) mod 10080"
        then obtain j where j: "i \<le> j" "j \<le> n" "x = (c + j) mod 10080" by auto
        then have "x = (c + (i + (j - i))) mod 10080" by simp
        then have "x = (s + (j - i)) mod 10080" using i(3) by (simp only: mod_add_left_eq add.assoc)
        moreover have "j - i < ?l" using j by auto
        ultimately show "\<exists>k < ?l. x = (s + k) mod 10080" by blast
      qed
      moreover have "(\<exists>j. 1 \<le> j \<and> j \<le> Suc n \<and> wk ! ((c + j) mod 10080) \<and> x = (c + j) mod 10080) \<longleftrightarrow>
          (\<exists>j. 1 \<le> j \<and> j < i \<and> wk ! ((c + j) mod 10080) \<and> x = (c + j) mod 10080) \<or>
          (\<exists>j. i \<le> j \<and> j \<le> n \<and> wk ! ((c + j) mod 10080) \<and> x = (c + j) mod 10080)" for x
        using ww_split_range [OF i(1,2), of "\<lambda>j. wk ! ((c + j) mod 10080) \<and> x = (c + j) mod 10080"] False by blast
      ultimately show ?thesis using ih cut i(5) run step by (simp add: Let_def)
    qed
  qed
qed

lemma ww_scan_slots:
  assumes "c < 10080" "\<not> wk ! c" "x < 10080"
  shows "ww_slots (ww_scan wk c) x \<longleftrightarrow> wk ! x" "list_all ww_piece_fine (ww_scan wk c)"
proof -
  obtain st ps where run: "foldl (ww_scan_step wk c) (None, []) [1 ..< 10080 + 1] = (st, ps)" by fastforce
  have inv: "list_all ww_piece_fine ps \<and>
     (case st of
        None \<Rightarrow> \<forall>x. ww_slots ps x \<longleftrightarrow> (\<exists>j. 1 \<le> j \<and> j \<le> 10080 \<and> wk ! ((c + j) mod 10080) \<and> x = (c + j) mod 10080)
      | Some s \<Rightarrow> \<exists>i. 1 \<le> i \<and> i \<le> 10080 \<and> s = (c + i) mod 10080 \<and> (\<forall>j. i \<le> j \<and> j \<le> 10080 \<longrightarrow> wk ! ((c + j) mod 10080)) \<and>
          (\<forall>x. ww_slots ps x \<longleftrightarrow> (\<exists>j. 1 \<le> j \<and> j < i \<and> wk ! ((c + j) mod 10080) \<and> x = (c + j) mod 10080)))"
    using ww_scan_inv [OF assms(1) order.refl assms(2)] run by (simp only: Let_def fst_conv snd_conv)
  have round: "(c + 10080) mod 10080 = c" using assms(1) by simp
  have "st = None"
  proof (cases st)
    case (Some s)
    then obtain i where "i \<le> 10080" "\<forall>j. i \<le> j \<and> j \<le> 10080 \<longrightarrow> wk ! ((c + j) mod 10080)" using inv by auto
    then have "wk ! c" using round by (metis order.refl)
    then show ?thesis using assms(2) by simp
  qed
  moreover have scan: "ww_scan wk c = ps" using run by (simp add: ww_scan_def ww_week_def)
  ultimately have slots: "ww_slots (ww_scan wk c) x \<longleftrightarrow>
      (\<exists>j. 1 \<le> j \<and> j \<le> 10080 \<and> wk ! ((c + j) mod 10080) \<and> x = (c + j) mod 10080)"
    using inv by simp
  also have "\<dots> \<longleftrightarrow> wk ! x"
  proof
    assume x: "wk ! x"
    let ?j = "if c < x then x - c else x + 10080 - c"
    have "1 \<le> ?j" "?j \<le> 10080" using assms(1,3) by auto
    moreover have "(c + ?j) mod 10080 = x" using assms(1,3) by auto
    ultimately show "\<exists>j. 1 \<le> j \<and> j \<le> 10080 \<and> wk ! ((c + j) mod 10080) \<and> x = (c + j) mod 10080"
      using x by metis
  qed auto
  finally show "ww_slots (ww_scan wk c) x \<longleftrightarrow> wk ! x" .
  show "list_all ww_piece_fine (ww_scan wk c)" using inv scan by simp
qed

text \<open>Grouping by times changes no minute.\<close>

definition ww_entry_fine :: "ww_entry \<Rightarrow> bool" where
  "ww_entry_fine e = (case e of (key, ds, f, t) \<Rightarrow> key = f @ ''-'' @ t \<and> ds \<noteq> [] \<and> distinct ds \<and>
     (\<forall>d \<in> set ds. ww_piece_fine (d, f, t)))"

definition ww_entry_slots :: "ww_entry list \<Rightarrow> nat \<Rightarrow> bool" where
  "ww_entry_slots es m = (\<exists>(key, ds, f, t) \<in> set es. \<exists>d \<in> set ds. ww_slot (d, f, t) m)"

lemma ww_entry_slots_simps [simp]:
  "ww_entry_slots [] m = False"
  "ww_entry_slots ((key, ds, f, t) # es) m \<longleftrightarrow> (\<exists>d \<in> set ds. ww_slot (d, f, t) m) \<or> ww_entry_slots es m"
  by (auto simp: ww_entry_slots_def)

lemma ww_add_piece_slots:
  "list_all ww_entry_fine es \<Longrightarrow> ww_piece_fine p \<Longrightarrow>
   list_all ww_entry_fine (ww_add_piece es p) \<and>
   (ww_entry_slots (ww_add_piece es p) m \<longleftrightarrow> ww_entry_slots es m \<or> ww_slot p m)"
proof (induction es p rule: ww_add_piece.induct)
  case (1 d fr t1)
  then show ?case by (simp add: ww_entry_fine_def)
next
  case (2 key ds f t es d fr t1)
  have e: "key = f @ ''-'' @ t" "length f = 5" "length fr = 5"
    using "2.prems" by (auto simp: ww_entry_fine_def ww_piece_fine_def dest: hd_in_set)
  then have "key = fr @ ''-'' @ t1 \<longleftrightarrow> f = fr \<and> t = t1" by auto
  then show ?case using 2 by (auto simp: ww_entry_fine_def)
qed

lemma ww_group_slots:
  "list_all ww_entry_fine es \<Longrightarrow> list_all ww_piece_fine ps \<Longrightarrow>
   list_all ww_entry_fine (foldl ww_add_piece es ps) \<and>
   (ww_entry_slots (foldl ww_add_piece es ps) m \<longleftrightarrow> ww_entry_slots es m \<or> ww_slots ps m)"
proof (induction ps arbitrary: es)
  case Nil
  then show ?case by simp
next
  case (Cons p ps)
  then have "list_all ww_entry_fine (ww_add_piece es p)" using ww_add_piece_slots by simp
  then show ?case using Cons ww_add_piece_slots [of es p m] by auto
qed

definition ww_window_slots :: "ww_window \<Rightarrow> nat \<Rightarrow> bool" where
  "ww_window_slots w m = (case ww_read (ww_window_js w) of None \<Rightarrow> False
     | Some (days, start, l) \<Rightarrow> ww_opens days start l m)"

lemma ww_open_at_windows:
  "ww_open_at (JArr (map ww_window_js ws)) m \<longleftrightarrow> (\<exists>w \<in> set ws. ww_window_slots w m)"
  by (auto simp: ww_open_at_def list_ex_iff ww_window_slots_def)

lemma ww_all_days_seven: "distinct ds \<Longrightarrow> \<forall>d \<in> set ds. d < 7 \<Longrightarrow> length ds = 7 \<Longrightarrow> set ds = set ww_all_days"
proof -
  assume a: "distinct ds" "\<forall>d \<in> set ds. d < 7" "length ds = 7"
  have "set ds \<subseteq> {..<7}" using a(2) by auto
  moreover have "card (set ds) = card {..<7::nat}" using a(1,3) by (simp add: distinct_card)
  ultimately have "set ds = {..<7}" by (intro card_subset_eq) auto
  also have "\<dots> = set ww_all_days" by (auto simp: ww_all_days_def)
  finally show ?thesis .
qed

lemma ww_opens_cong: "set ds = set ds' \<Longrightarrow> ww_opens ds start l m = ww_opens ds' start l m"
  by (simp add: ww_opens_def list_ex_iff)

lemma ww_entry_window_slots:
  assumes "ww_entry_fine (key, ds, f, t)"
  shows "ww_window_slots (ww_entry_window (key, ds, f, t)) m \<longleftrightarrow> (\<exists>d \<in> set ds. ww_slot (d, f, t) m)"
proof -
  let ?ds = "js_sort (\<lambda>a b. int a - int b) ds"
  let ?ws = "if length ?ds = 7 then [] else ?ds"
  have ds: "ds \<noteq> []" "distinct ds" "\<forall>d \<in> set ds. d < 7"
    using assms by (auto simp: ww_entry_fine_def ww_piece_fine_def)
  then obtain a b where ab: "ww_minutes (JStr f) = Some a" "ww_minutes (JStr t) = Some b"
    using assms hd_in_set [OF ds(1)] by (auto simp: ww_entry_fine_def ww_piece_fine_def)
  define l where "l = (let l = nat ((int b - int a) mod 1440) in if l = 0 then 1440 else l)"
  have "?ds \<noteq> []" using ds(1) by (metis length_js_sort length_0_conv)
  then have days: "set (if ?ws = [] then ww_all_days else ?ws) = set ds"
    using ww_all_days_seven [of ?ds] ds by auto
  have "ww_read (ww_window_js (?ws, f, t)) = Some (if ?ws = [] then ww_all_days else ?ws, a, l)"
    unfolding l_def by (rule ww_read_window) (use ds ab in auto)
  then have "ww_window_slots (ww_entry_window (key, ds, f, t)) m = ww_opens ds a l m"
    using ww_opens_cong [OF days] by (simp add: ww_window_slots_def ww_entry_window_def Let_def)
  also have "\<dots> \<longleftrightarrow> (\<exists>d \<in> set ds. \<exists>k < l. m = (d * 1440 + a + k) mod 10080)"
    by (simp add: ww_opens_def list_ex_iff ww_day_def ww_week_def Bex_def)
  also have "\<dots> \<longleftrightarrow> (\<exists>d \<in> set ds. ww_slot (d, f, t) m)"
  proof (intro bex_cong refl)
    fix d assume "d \<in> set ds"
    then have "ww_read (ww_window_js ([d], f, t)) = Some (if [d] = [] then ww_all_days else [d], a, l)"
      unfolding l_def by (intro ww_read_window) (use ds ab in auto)
    then show "(\<exists>k < l. m = (d * 1440 + a + k) mod 10080) = ww_slot (d, f, t) m"
      by (simp add: ww_slot_def)
  qed
  finally show ?thesis .
qed

lemma ww_entry_windows_slots:
  "list_all ww_entry_fine es \<Longrightarrow> (\<exists>w \<in> set (map ww_entry_window es). ww_window_slots w m) = ww_entry_slots es m"
proof (induction es)
  case (Cons e es)
  then show ?case by (cases e) (auto simp: ww_entry_window_slots)
qed simp

lemma ww_whole_week: "m < 10080 \<Longrightarrow> ww_window_slots ([], ''00:00'', ''00:00'') m"
proof -
  assume m: "m < 10080"
  have "ww_minutes (JStr ''00:00'') = Some 0" by code_simp
  then have "ww_read (ww_window_js ([], ''00:00'', ''00:00'')) = Some (ww_all_days, 0, 1440)"
    using ww_read_window [of "[]" "''00:00''" 0 "''00:00''" 0] by simp
  moreover have week: "(7::nat) * 1440 = 10080" by simp
  moreover have "\<exists>k \<in> set [0 ..< 1440]. m = (m div 1440 * 1440 + 0 + k) mod 10080"
    using m by (intro bexI [where x = "m mod 1440"]) simp_all
  moreover have "m div 1440 < 7" using m by (simp add: less_mult_imp_div_less)
  then have "m div 1440 \<in> set ww_all_days" by (auto simp: ww_all_days_def)
  ultimately show ?thesis
    unfolding ww_window_slots_def ww_opens_def list_ex_iff ww_day_def ww_week_def
    by (simp only: option.case prod.case week) blast
qed

lemma ww_windows_of_slots:
  assumes "length wk = 10080" "m < 10080"
  shows "(\<exists>w \<in> set (ww_windows_of wk). ww_window_slots w m) \<longleftrightarrow> wk ! m"
proof (cases "list_all (\<lambda>x. x) wk")
  case True
  then show ?thesis using assms ww_whole_week by (simp add: ww_windows_of_def list_all_length)
next
  case False
  then have "False \<in> set wk" by (auto simp: list_all_iff)
  then obtain c where c: "index_of False wk = Some c" using index_of_mem by metis
  then have shut: "c < 10080" "\<not> wk ! c" using index_of_SomeD [OF c] assms(1) by auto
  have scan: "list_all ww_piece_fine (ww_scan wk c)" "ww_slots (ww_scan wk c) m \<longleftrightarrow> wk ! m"
    using ww_scan_slots [OF shut assms(2)] by simp_all
  let ?es = "foldl ww_add_piece [] (ww_scan wk c)"
  have es: "list_all ww_entry_fine ?es" "ww_entry_slots ?es m \<longleftrightarrow> wk ! m"
    using ww_group_slots [of "[]" "ww_scan wk c" m] scan by simp_all
  have "set (ww_windows_of wk) = set (map ww_entry_window ?es)"
    using False c by (simp add: ww_windows_of_def)
  then show ?thesis using ww_entry_windows_slots [OF es(1), of m] es(2) by simp
qed

lemma ww_from_mask_open: "length wk = ww_week \<Longrightarrow> m < ww_week \<Longrightarrow> ww_open_at (ww_from_mask wk) m = wk ! m"
  by (simp add: ww_from_mask_def ww_open_at_windows ww_windows_of_slots ww_week_def)

lemma ww_mask_from: "length wk = ww_week \<Longrightarrow> ww_mask (ww_from_mask wk) = wk"
  by (rule nth_equalityI) (simp_all add: ww_mask_nth ww_from_mask_open)

section \<open>Properties\<close>

text \<open>(C6) The runs of a list of windows are its reading: they are in order and apart (no two touch),
  within the week, and a minute of the week is in one of them, and set in the mask, exactly when
  some window that reads opens it on one of its days, past midnight and past the week's end included.\<close>

theorem ww_runs_are_the_open_minutes:
  "sorted_wrt (\<lambda>x y. snd x < fst y) (ww_runs windows) \<and>
   (\<forall>(b, s) \<in> set (ww_runs windows). b < s \<and> s \<le> ww_week) \<and>
   (\<forall>m < ww_week. ww_covers (ww_runs windows) m = ww_open_at windows m \<and>
      ww_mask windows ! m = ww_open_at windows m)"
  using ww_runs_apart [of windows] ww_runs_bound [of _ windows]
  by (fastforce simp: ww_apart_def list_all_iff ww_runs_covers ww_mask_nth ww_week_def)

theorem ww_runs_are_the_open_minutes_witness:
  "ww_mask (JArr [ww_window_js ([6], ww_hhmm 1380, ww_hhmm 60)]) ! 30"
proof -
  let ?w = "JArr [ww_window_js ([6], ww_hhmm 1380, ww_hhmm 60)]"
  have "ww_read (ww_window_js ([6], ww_hhmm 1380, ww_hhmm 60)) = Some ([6], 1380, 120)"
    by (simp add: ww_read_window)
  then have "ww_open_at ?w 30"
    by (simp add: ww_open_at_def ww_opens_def list_ex_iff ww_day_def ww_week_def) (rule bexI [where x = 90], simp_all)
  moreover have "30 < ww_week" by (simp add: ww_week_def)
  ultimately show ?thesis using ww_runs_are_the_open_minutes [of ?w] by blast
qed

text \<open>A week of minutes survives the trip through its windows: the windows \<open>fromMask\<close> writes for
  any mask read back as that very mask, so saving what the grid shows and drawing it again changes
  no minute.\<close>

theorem ww_from_mask_round_trip:
  assumes "length wk = ww_week"
  shows "ww_mask (ww_from_mask wk) = wk"
  using assms by (rule ww_mask_from)

theorem ww_from_mask_round_trip_witness:
  "ww_mask (ww_from_mask (ww_paint (replicate ww_week False) 6 23 True)) =
     ww_paint (replicate ww_week False) 6 23 True"
  by (rule ww_from_mask_round_trip) (simp add: ww_paint_def Let_def)

text \<open>Painting an hour of the grid sets its sixty minutes and no other: read back from the windows
  written, the hour counts sixty open minutes (or none), and every minute outside it is as it was.\<close>

theorem ww_paint_sets_one_hour:
  assumes "length wk = ww_week" "day < 7" "hour < 24"
    and "wk' = ww_mask (ww_from_mask (ww_paint wk day hour b))"
  shows "ww_share wk' day hour = (if b then 60 else 0) \<and>
    (\<forall>m < ww_week. \<not> (day * 1440 + hour * 60 \<le> m \<and> m < day * 1440 + hour * 60 + 60) \<longrightarrow> wk' ! m = wk ! m)"
proof -
  let ?b = "day * 1440 + hour * 60"
  have wk': "wk' = ww_fill b ?b (?b + 60) wk"
    using assms ww_mask_from [of "ww_paint wk day hour b"] by (simp add: ww_paint_def Let_def ww_day_def)
  have "?b + 60 \<le> 10080" using assms(2,3) by linarith
  then have "\<forall>m \<in> set [?b ..< ?b + 60]. wk' ! m = b"
    using assms(1) by (auto simp: wk' ww_fill_nth ww_week_def)
  then have "filter (\<lambda>m. wk' ! m) [?b ..< ?b + 60] = (if b then [?b ..< ?b + 60] else [])"
    by (auto simp: filter_id_conv filter_empty_conv)
  then show ?thesis using assms(1) by (auto simp: ww_share_def Let_def ww_day_def wk' ww_fill_nth ww_week_def)
qed

theorem ww_paint_sets_one_hour_witness:
  "ww_share (ww_mask (ww_from_mask (ww_paint (replicate ww_week False) 6 23 True))) 6 23 = 60"
  using ww_paint_sets_one_hour [of "replicate ww_week False" 6 23 _ True] by simp

end
