(* ===== verification/CardFold.thy ===== *)
theory CardFold
  imports JsValue Utils
begin

text \<open>
  Which cards of the board fold into a line, and how a folded one opens (\<open>card-fold.js\<close>).
  \<open>CardFold\<close> keeps the operator's choices (a lane compact or full, cards pinned open, machines
  whose idle cells are hidden, the launcher a machine's chips narrow its cells to) and the rules for
  what is quiet enough to fold; \<open>FoldPeek\<close> is its pointer and keyboard side. The browser's storage is
  a function from a key to what \<open>JSON.parse\<close> gives for it (\<open>None\<close>: it threw); what an operation
  stores is listed in its result. The document is the list of its fold slots; a repaint replaces
  them.
\<close>

section \<open>The operator's choices\<close>

record card_fold =
  fd_automated :: bool
  fd_densities :: js
  fd_pinned :: "js list"
  fd_hide_idle :: "js list"
  fd_launchers :: js
  fd_peek_key :: string
  fd_open_key :: string
  fd_fresh :: "string list"
  fd_counts :: js

definition fd_key_density :: string where "fd_key_density = ''boardCardDensity''"
definition fd_key_pinned :: string where "fd_key_pinned = ''boardCardPinned''"
definition fd_key_hide_idle :: string where "fd_key_hide_idle = ''boardCellsHideIdle''"
definition fd_key_launcher :: string where "fd_key_launcher = ''boardCellsLauncher''"

text \<open>\<open>read\<close>: what is stored, when it has the shape of the fallback.\<close>

definition fd_read :: "(string \<Rightarrow> js option) \<Rightarrow> string \<Rightarrow> js \<Rightarrow> js" where
  "fd_read store key fallback = (case store key of None \<Rightarrow> fallback
     | Some v \<Rightarrow> if js_is_object v \<and> js_is_array v = js_is_array fallback then v else fallback)"

definition fd_new :: "(string \<Rightarrow> js option) \<Rightarrow> bool \<Rightarrow> card_fold" where
  "fd_new store automated =
     \<lparr>fd_automated = automated,
      fd_densities = fd_read store fd_key_density (JObj []),
      fd_pinned = js_uniq (js_list (fd_read store fd_key_pinned (JArr []))),
      fd_hide_idle = js_uniq (js_list (fd_read store fd_key_hide_idle (JArr []))),
      fd_launchers = fd_read store fd_key_launcher (JObj []),
      fd_peek_key = [], fd_open_key = [], fd_fresh = [], fd_counts = JNull\<rparr>"

text \<open>What an operation hands to \<open>write\<close>: the key and the value stored under it.\<close>

type_synonym fd_writes = "(string \<times> js) list"

definition fd_stored :: "fd_writes \<Rightarrow> (string \<Rightarrow> js option) \<Rightarrow> string \<Rightarrow> js option" where
  "fd_stored ws store = fold (\<lambda>(k, v) st. st(k := Some v)) ws store"

definition agent_key :: "string \<Rightarrow> string \<Rightarrow> string" where
  "agent_key host agent = ''agent:'' @ host @ '':'' @ agent"

definition fd_hold :: "string \<Rightarrow> card_fold \<Rightarrow> card_fold" where
  "fd_hold key s = (if key \<noteq> [] then s\<lparr>fd_fresh := set_add key (fd_fresh s)\<rparr> else s)"

text \<open>Whether a hold is of the card: the card's own key, or a beginning that ends in a colon.\<close>

definition fd_holds :: "string \<Rightarrow> string \<Rightarrow> bool" where
  "fd_holds k held = (held = k \<or> (held \<noteq> [] \<and> last held = CHR '':'' \<and> prefix held k))"

definition hold_of :: "card_fold \<Rightarrow> string \<Rightarrow> string" where
  "hold_of s k = (case find (fd_holds k) (fd_fresh s) of Some held \<Rightarrow> held | None \<Rightarrow> [])"

definition fd_density :: "card_fold \<Rightarrow> string \<Rightarrow> string" where
  "fd_density s lane =
     (let chosen = jget (fd_densities s) lane in
      if chosen = JStr ''compact'' then ''compact''
      else if chosen = JStr ''full'' then ''full''
      else if fd_automated s then ''full'' else ''compact'')"

definition fd_folds :: "card_fold \<Rightarrow> string \<Rightarrow> bool" where
  "fd_folds s lane = (fd_density s lane = ''compact'')"

definition toggle_density :: "string \<Rightarrow> card_fold \<Rightarrow> card_fold \<times> fd_writes \<times> string" where
  "toggle_density lane s =
     (let s' = s\<lparr>fd_densities := js_put lane (JStr (if fd_folds s lane then ''full'' else ''compact''))
                    (fd_densities s)\<rparr>
      in (s', [(fd_key_density, fd_densities s')], fd_density s' lane))"

definition is_pinned :: "card_fold \<Rightarrow> string \<Rightarrow> bool" where
  "is_pinned s key = (JStr key \<in> set (fd_pinned s))"

definition hides_idle :: "card_fold \<Rightarrow> string \<Rightarrow> bool" where
  "hides_idle s host = (JStr host \<in> set (fd_hide_idle s))"

definition toggle_hide_idle :: "string \<Rightarrow> card_fold \<Rightarrow> card_fold \<times> fd_writes \<times> bool" where
  "toggle_hide_idle k s =
     (let hidden = (if JStr k \<in> set (fd_hide_idle s) then set_del (JStr k) (fd_hide_idle s)
                    else set_add (JStr k) (fd_hide_idle s))
      in (s\<lparr>fd_hide_idle := hidden\<rparr>, [(fd_key_hide_idle, JArr hidden)], JStr k \<in> set hidden))"

definition launcher_of :: "card_fold \<Rightarrow> string \<Rightarrow> string" where
  "launcher_of s host = (case jget (fd_launchers s) host of JStr c \<Rightarrow> c | _ \<Rightarrow> [])"

definition set_launcher :: "string \<Rightarrow> js \<Rightarrow> card_fold \<Rightarrow> card_fold \<times> fd_writes \<times> string" where
  "set_launcher k launcher s =
     (let v = js_text launcher;
          ls = (if v \<noteq> [] then js_put k (JStr v) (fd_launchers s) else js_del k (fd_launchers s));
          s' = s\<lparr>fd_launchers := ls\<rparr>
      in (s', [(fd_key_launcher, ls)], launcher_of s' k))"

definition fd_reveal :: "string \<Rightarrow> js \<Rightarrow> card_fold \<Rightarrow> card_fold \<times> fd_writes \<times> string" where
  "fd_reveal host launcher s =
     (let chosen = launcher_of s host in
      if chosen \<noteq> [] \<and> chosen \<noteq> js_text launcher then set_launcher host launcher s
      else (s, [], chosen))"

text \<open>\<open>OPENS\<close>: a cell opens in a window, an agent floats over its lane.\<close>

definition opens_in_window :: "string \<Rightarrow> bool" where
  "opens_in_window lane = (map_of [(''cells'', ''window''), (''clients'', ''float'')] lane = Some ''window'')"

definition toggle_pin :: "string \<Rightarrow> card_fold \<Rightarrow> card_fold \<times> fd_writes \<times> bool" where
  "toggle_pin k s0 =
     (let held = hold_of s0 k;
          s = (if held \<noteq> [] then s0\<lparr>fd_fresh := set_del held (fd_fresh s0)\<rparr> else s0);
          unpeek = (\<lambda>s. if fd_peek_key s = k then s\<lparr>fd_peek_key := []\<rparr> else s)
      in if held \<noteq> [] \<and> JStr k \<notin> set (fd_pinned s) then (unpeek s, [], False)
         else (let pins = (if JStr k \<in> set (fd_pinned s) then set_del (JStr k) (fd_pinned s)
                           else set_add (JStr k) (fd_pinned s))
               in (unpeek (s\<lparr>fd_pinned := pins\<rparr>), [(fd_key_pinned, JArr pins)], JStr k \<in> set pins)))"

definition fd_mode :: "card_fold \<Rightarrow> string \<Rightarrow> string \<Rightarrow> bool \<Rightarrow> string" where
  "fd_mode s lane key quiet =
     (if \<not> quiet \<or> \<not> fd_folds s lane then ''full''
      else if opens_in_window lane then ''line''
      else if is_pinned s key \<or> hold_of s key \<noteq> [] then ''pinned'' else ''line'')"

text \<open>The lane switches, as a paint of the board leaves them.\<close>

record switch_btn =
  sw_lane :: string
  sw_hidden :: bool
  sw_pressed :: bool
  sw_title :: string
  sw_text :: string

definition sync_switch :: "dict \<Rightarrow> card_fold \<Rightarrow> switch_btn \<Rightarrow> switch_btn" where
  "sync_switch t s btn =
     (let lane = sw_lane btn;
          hidden = (if js_truthy (fd_counts s) \<and> lane \<in> set (js_keys (fd_counts s))
                    then \<not> jnum_pos (js_number (jget (fd_counts s) lane)) else sw_hidden btn);
          compact = fd_folds s lane;
          compact_key = (if opens_in_window lane then ''densityCompactWindowTitle'' else ''densityCompactTitle'')
      in btn\<lparr>sw_hidden := hidden, sw_pressed := compact,
             sw_title := t (if compact then compact_key else ''densityFullTitle'') [],
             sw_text := (if compact then [CHR 0xE2, CHR 0x8A, CHR 0x9F] else [CHR 0xE2, CHR 0x8A, CHR 0x9E])\<rparr>)"

definition sync_switches ::
  "dict \<Rightarrow> js \<Rightarrow> switch_btn list \<Rightarrow> card_fold \<Rightarrow> card_fold \<times> switch_btn list" where
  "sync_switches t counts btns s =
     (let s' = (if js_truthy counts then s\<lparr>fd_counts := counts\<rparr> else s)
      in (s', map (sync_switch t s') btns))"

section \<open>What is quiet enough to fold\<close>

definition cell_quiet :: "js \<Rightarrow> bool" where
  "cell_quiet f =
     (jget f ''phase'' \<in> {JStr ''running'', JStr ''stopped'', JStr ''reserved''} \<and>
      \<not> js_truthy (jget f ''transient'') \<and> \<not> js_truthy (jget f ''crashed'') \<and>
      \<not> js_truthy (jget f ''unreachable''))"

definition cell_failed :: "js \<Rightarrow> bool" where
  "cell_failed f = (js_truthy (jget f ''failed'') \<and> \<not> js_truthy (jget f ''deleting''))"

definition cell_foldable :: "js \<Rightarrow> bool" where
  "cell_foldable f =
     (let calm = \<not> js_truthy (jget f ''deleting'') \<and> \<not> js_truthy (jget f ''crashed'') \<and>
                 \<not> js_truthy (jget f ''unreachable'') \<and> \<not> js_truthy (jget f ''failed'')
      in cell_quiet f \<or> cell_failed f \<or>
         (jget f ''motion'' \<in> {JStr ''start'', JStr ''stop''} \<and> calm) \<or>
         (js_truthy (jget f ''progress'') \<and> calm))"

definition cell_idle :: "js \<Rightarrow> bool" where
  "cell_idle f = (cell_quiet f \<and> jget f ''phase'' \<noteq> JStr ''running'')"

definition agent_quiet :: "js \<Rightarrow> bool" where
  "agent_quiet f = (jnum_pos (js_number (jget f ''routes'')) \<and> \<not> js_truthy (jget f ''incident''))"

text \<open>Trouble is never hidden by the eye, and folds into a line only as a failed cell, which is red.\<close>

lemma trouble_is_never_idle:
  "js_truthy (jget f ''crashed'') \<or> js_truthy (jget f ''unreachable'') \<or> js_truthy (jget f ''transient'') \<Longrightarrow>
   \<not> cell_idle f"
  by (auto simp: cell_idle_def cell_quiet_def)

lemma trouble_folds_only_failed:
  "js_truthy (jget f ''crashed'') \<or> js_truthy (jget f ''unreachable'') \<Longrightarrow>
   cell_foldable f \<longleftrightarrow> cell_failed f"
  by (auto simp: cell_foldable_def cell_quiet_def Let_def)

lemma idle_is_foldable: "cell_idle f \<Longrightarrow> cell_foldable f"
  by (simp add: cell_idle_def cell_foldable_def Let_def)

lemma mode_cases: "fd_mode s lane key quiet \<in> {''full'', ''line'', ''pinned''}"
  by (simp add: fd_mode_def)

lemma mode_window_never_pinned: "opens_in_window lane \<Longrightarrow> fd_mode s lane key quiet \<noteq> ''pinned''"
  by (simp add: fd_mode_def)

section \<open>Pins and holds\<close>

lemma hold_of_holds: "hold_of s k \<noteq> [] \<Longrightarrow> hold_of s k \<in> set (fd_fresh s) \<and> fd_holds k (hold_of s k)"
  using find_SomeD [of "fd_holds k" "fd_fresh s"] by (auto simp: hold_of_def split: option.splits)

lemma hold_of_Nil_iff:
  assumes "[] \<notin> set (fd_fresh s)"
  shows "hold_of s k = [] \<longleftrightarrow> (\<forall>h \<in> set (fd_fresh s). \<not> fd_holds k h)"
proof (cases "find (fd_holds k) (fd_fresh s)")
  case None
  then show ?thesis using find_NoneD [OF None] by (auto simp: hold_of_def)
next
  case (Some h)
  then show ?thesis using find_SomeD [OF Some] assms by (auto simp: hold_of_def)
qed

lemma hold_of_fresh: "fd_fresh s = fd_fresh s' \<Longrightarrow> hold_of s k = hold_of s' k"
  by (simp add: hold_of_def)

text \<open>The card's own keys hold it: no beginning of it does.\<close>

definition own_hold :: "card_fold \<Rightarrow> string \<Rightarrow> bool" where
  "own_hold s k = ([] \<notin> set (fd_fresh s) \<and> (\<forall>h \<in> set (fd_fresh s). fd_holds k h \<longrightarrow> h = k))"

lemma own_hold_of: "own_hold s k \<Longrightarrow> hold_of s k = (if k \<in> set (fd_fresh s) then k else [])"
proof -
  assume a: "own_hold s k"
  then have "hold_of s k \<noteq> [] \<Longrightarrow> hold_of s k = k"
    using hold_of_holds [of s k] by (auto simp: own_hold_def)
  moreover have "hold_of s k = [] \<longleftrightarrow> k \<notin> set (fd_fresh s)"
    using a hold_of_Nil_iff [of s k] by (auto simp: own_hold_def fd_holds_def)
  ultimately show ?thesis using hold_of_holds [of s k] by auto
qed

lemma toggle_pin_peek: "toggle_pin k s = (s', w, r) \<Longrightarrow>
    fd_peek_key s' = (if fd_peek_key s = k then [] else fd_peek_key s)"
  by (auto simp: toggle_pin_def Let_def split: if_splits)

lemma toggle_pin_frame:
  "toggle_pin k s = (s', w, r) \<Longrightarrow> fd_densities s' = fd_densities s \<and> fd_automated s' = fd_automated s \<and>
     fd_hide_idle s' = fd_hide_idle s \<and> fd_launchers s' = fd_launchers s \<and> fd_open_key s' = fd_open_key s"
  by (auto simp: toggle_pin_def Let_def split: if_splits)

lemma toggle_pin_fresh:
  "toggle_pin k s = (s', w, r) \<Longrightarrow>
   fd_fresh s' = (if hold_of s k \<noteq> [] then set_del (hold_of s k) (fd_fresh s) else fd_fresh s)"
  by (auto simp: toggle_pin_def Let_def split: if_splits)

lemma toggle_pin_eq:
  "toggle_pin k s =
     (let held = hold_of s k; pinned = JStr k \<in> set (fd_pinned s);
          pins = (if pinned then set_del (JStr k) (fd_pinned s) else set_add (JStr k) (fd_pinned s))
      in if held \<noteq> [] \<and> \<not> pinned
         then (s\<lparr>fd_fresh := set_del held (fd_fresh s),
                 fd_peek_key := (if fd_peek_key s = k then [] else fd_peek_key s)\<rparr>, [], False)
         else (s\<lparr>fd_fresh := (if held \<noteq> [] then set_del held (fd_fresh s) else fd_fresh s), fd_pinned := pins,
                 fd_peek_key := (if fd_peek_key s = k then [] else fd_peek_key s)\<rparr>,
               [(fd_key_pinned, JArr pins)], \<not> pinned))"
  by (simp add: toggle_pin_def Let_def)

lemma toggle_pin_pinned:
  "toggle_pin k s = (s', w, r) \<Longrightarrow>
   is_pinned s' k' = (if k' = k then r else is_pinned s k') \<and>
   r = (\<not> is_pinned s k \<and> hold_of s k = [])"
  by (auto simp: toggle_pin_eq is_pinned_def Let_def split: if_splits)

lemma folds_cong: "fd_densities s' = fd_densities s \<Longrightarrow> fd_automated s' = fd_automated s \<Longrightarrow>
    fd_folds s' lane = fd_folds s lane"
  by (simp add: fd_folds_def fd_density_def)

lemma mode_pinned_iff:
  "fd_mode s lane k quiet = ''pinned'' \<longleftrightarrow>
   quiet \<and> fd_folds s lane \<and> \<not> opens_in_window lane \<and> (is_pinned s k \<or> hold_of s k \<noteq> [])"
  by (auto simp: fd_mode_def)

lemma hold_of_other:
  assumes "fd_fresh s' = set_del h (fd_fresh s)" "\<not> fd_holds k' h"
  shows "hold_of s' k' = hold_of s k'"
proof -
  have "find (fd_holds k') (filter (\<lambda>y. y \<noteq> h) (fd_fresh s)) = find (fd_holds k') (fd_fresh s)"
    by (rule find_filter) (use assms(2) in auto)
  then show ?thesis by (simp add: hold_of_def assms(1) set_del_def)
qed

text \<open>A press on the pin of a card flips what is drawn in a lane that folds and pins: a folded
  card opens in place, and a card open in place, because it was pinned or because it was held open
  for its setup, folds back; the press says which, and no other card changes. (A card is held by its
  own key, as the board's callers hold it, and not by the beginning of a client's keys.)\<close>

theorem fd_pin_press_flips_the_card:
  assumes press: "toggle_pin k s = (s', w, r)"
    and own: "own_hold s k"
    and key: "k \<noteq> []" "last k \<noteq> CHR '':''"
    and lane: "fd_folds s lane" "\<not> opens_in_window lane"
  shows "fd_mode s' lane k True = (if fd_mode s lane k True = ''pinned'' then ''line'' else ''pinned'') \<and>
    r = (fd_mode s' lane k True = ''pinned'') \<and>
    (\<forall>k' lane' quiet. k' \<noteq> k \<longrightarrow> fd_mode s' lane' k' quiet = fd_mode s lane' k' quiet)"
proof -
  have folds: "fd_folds s' l = fd_folds s l" for l
    using toggle_pin_frame [OF press] by (intro folds_cong) auto
  have fresh: "fd_fresh s' = (if k \<in> set (fd_fresh s) then set_del k (fd_fresh s) else fd_fresh s)"
    using toggle_pin_fresh [OF press] own_hold_of [OF own] key(1) by auto
  then have own': "own_hold s' k" and out: "k \<notin> set (fd_fresh s')"
    using own by (auto simp: own_hold_def)
  have none: "hold_of s' k = []" using own_hold_of [OF own'] out by simp
  note pins = toggle_pin_pinned [OF press]
  have this_card: "fd_mode s' lane k True = (if fd_mode s lane k True = ''pinned'' then ''line'' else ''pinned'')"
    "r = (fd_mode s' lane k True = ''pinned'')"
    using none pins [of k] lane by (simp_all add: fd_mode_def folds)
  have "fd_mode s' lane' k' quiet = fd_mode s lane' k' quiet" if other: "k' \<noteq> k" for k' lane' quiet
  proof -
    have "\<not> fd_holds k' k" using key other by (auto simp: fd_holds_def)
    then have "hold_of s' k' = hold_of s k'"
      using fresh hold_of_other [of s' k s k'] hold_of_fresh [of s' s k']
      by (cases "k \<in> set (fd_fresh s)") simp_all
    then show ?thesis using pins [of k'] other by (simp add: fd_mode_def folds)
  qed
  with this_card show ?thesis by blast
qed

text \<open>The keys of two agents of one client.\<close>

lemma fd_pin_press_flips_the_card_witness:
  "let s = fd_hold ''agent:a:b'' (fd_new (\<lambda>k. Some JNull) False) in
   (case toggle_pin ''agent:a:b'' s of (s', w, r) \<Rightarrow>
     fd_mode s ''clients'' ''agent:a:b'' True = ''pinned'' \<and> fd_mode s' ''clients'' ''agent:a:b'' True = ''line'' \<and>
     \<not> r \<and> fd_mode s' ''clients'' ''agent:a:c'' True = ''line'')"
proof -
  let ?s = "fd_hold ''agent:a:b'' (fd_new (\<lambda>k. Some JNull) False)"
  obtain s' w r where p: "toggle_pin ''agent:a:b'' ?s = (s', w, r)" by (cases "toggle_pin ''agent:a:b'' ?s")
  have own: "own_hold ?s ''agent:a:b''" by code_simp
  have m: "fd_mode ?s ''clients'' ''agent:a:b'' True = ''pinned''"
    "fd_mode ?s ''clients'' ''agent:a:c'' True = ''line''" by code_simp+
  have l: "fd_folds ?s ''clients''" "\<not> opens_in_window ''clients''" by code_simp+
  show ?thesis
    using fd_pin_press_flips_the_card [OF p own _ _ l] m by (simp add: p)
qed

section \<open>What a reload keeps\<close>

datatype fold_op = Toggle_density string | Toggle_hide_idle string | Set_launcher string js
  | Reveal string js | Toggle_pin string | Hold string | Peek string | Open string

fun fd_apply :: "fold_op \<Rightarrow> card_fold \<Rightarrow> card_fold \<times> fd_writes" where
  "fd_apply (Toggle_density lane) s = (case toggle_density lane s of (s', w, r) \<Rightarrow> (s', w))"
| "fd_apply (Toggle_hide_idle k) s = (case toggle_hide_idle k s of (s', w, r) \<Rightarrow> (s', w))"
| "fd_apply (Set_launcher k l) s = (case set_launcher k l s of (s', w, r) \<Rightarrow> (s', w))"
| "fd_apply (Reveal k l) s = (case fd_reveal k l s of (s', w, r) \<Rightarrow> (s', w))"
| "fd_apply (Toggle_pin k) s = (case toggle_pin k s of (s', w, r) \<Rightarrow> (s', w))"
| "fd_apply (Hold k) s = (fd_hold k s, [])"
| "fd_apply (Peek k) s = (s\<lparr>fd_peek_key := k\<rparr>, [])"
| "fd_apply (Open k) s = (s\<lparr>fd_open_key := k\<rparr>, [])"

fun fd_run :: "fold_op list \<Rightarrow> card_fold \<Rightarrow> (string \<Rightarrow> js option) \<Rightarrow> card_fold \<times> (string \<Rightarrow> js option)" where
  "fd_run [] s store = (s, store)"
| "fd_run (p # ps) s store = (case fd_apply p s of (s', w) \<Rightarrow> fd_run ps s' (fd_stored w store))"

text \<open>What is in memory is what a page opened now would read.\<close>

definition fd_kept :: "card_fold \<Rightarrow> (string \<Rightarrow> js option) \<Rightarrow> bool" where
  "fd_kept s store =
     (fd_densities s = fd_read store fd_key_density (JObj []) \<and>
      fd_pinned s = js_uniq (js_list (fd_read store fd_key_pinned (JArr []))) \<and>
      fd_hide_idle s = js_uniq (js_list (fd_read store fd_key_hide_idle (JArr []))) \<and>
      fd_launchers s = fd_read store fd_key_launcher (JObj []))"

lemmas fd_keys = fd_key_density_def fd_key_pinned_def fd_key_hide_idle_def fd_key_launcher_def

lemma fd_read_object: "\<exists>kvs. fd_read store key (JObj []) = JObj kvs"
proof (cases "store key")
  case None
  then show ?thesis by (simp add: fd_read_def)
next
  case (Some v)
  then show ?thesis by (cases v) (auto simp: fd_read_def)
qed

lemma fd_read_put_object: "\<exists>kvs. v = JObj kvs \<Longrightarrow> fd_read (store(key := Some v)) key (JObj []) = v"
  by (auto simp: fd_read_def)

lemma fd_read_put_array: "fd_read (store(key := Some (JArr xs))) key (JArr []) = JArr xs"
  by (simp add: fd_read_def)

lemma fd_read_other: "key' \<noteq> key \<Longrightarrow> fd_read (store(key := v)) key' fb = fd_read store key' fb"
  by (simp add: fd_read_def)

lemma js_put_object: "\<exists>kvs. v = JObj kvs \<Longrightarrow> \<exists>kvs. js_put k x v = JObj kvs"
  by (auto simp: js_put_def)

lemma js_del_object: "\<exists>kvs. v = JObj kvs \<Longrightarrow> \<exists>kvs. js_del k v = JObj kvs"
  by (auto simp: js_del_def)

lemmas kept_simps = fd_kept_def fd_stored_def fd_keys fd_read_other fd_read_put_object fd_read_put_array

lemma kept_put_density:
  "fd_kept s store \<Longrightarrow> \<exists>kvs. d = JObj kvs \<Longrightarrow>
   fd_kept (s\<lparr>fd_densities := d\<rparr>) (fd_stored [(fd_key_density, d)] store)"
  by (simp add: kept_simps)

lemma kept_put_launchers:
  "fd_kept s store \<Longrightarrow> \<exists>kvs. d = JObj kvs \<Longrightarrow>
   fd_kept (s\<lparr>fd_launchers := d\<rparr>) (fd_stored [(fd_key_launcher, d)] store)"
  by (simp add: kept_simps)

lemma kept_put_pinned:
  "fd_kept s store \<Longrightarrow> distinct ps \<Longrightarrow>
   fd_kept (s\<lparr>fd_pinned := ps\<rparr>) (fd_stored [(fd_key_pinned, JArr ps)] store)"
  by (simp add: kept_simps)

lemma kept_put_hidden:
  "fd_kept s store \<Longrightarrow> distinct ps \<Longrightarrow>
   fd_kept (s\<lparr>fd_hide_idle := ps\<rparr>) (fd_stored [(fd_key_hide_idle, JArr ps)] store)"
  by (simp add: kept_simps)

lemma kept_visit:
  "fd_kept (s\<lparr>fd_peek_key := k\<rparr>) store = fd_kept s store"
  "fd_kept (s\<lparr>fd_open_key := k\<rparr>) store = fd_kept s store"
  "fd_kept (s\<lparr>fd_fresh := f\<rparr>) store = fd_kept s store"
  by (simp_all add: fd_kept_def)

lemma kept_sets: "fd_kept s store \<Longrightarrow> distinct (fd_pinned s) \<and> distinct (fd_hide_idle s)"
  by (simp add: fd_kept_def)

lemma kept_objects: "fd_kept s store \<Longrightarrow> (\<exists>kvs. fd_densities s = JObj kvs) \<and> (\<exists>kvs. fd_launchers s = JObj kvs)"
  using fd_read_object by (auto simp: fd_kept_def)

lemma fd_stored_Nil [simp]: "fd_stored [] store = store"
  by (simp add: fd_stored_def)

lemma kept_set_launcher:
  "fd_kept s store \<Longrightarrow> set_launcher k l s = (s', w, r) \<Longrightarrow> fd_kept s' (fd_stored w store)"
  using kept_objects [of s store] js_put_object js_del_object
  by (auto simp: set_launcher_def Let_def intro!: kept_put_launchers)

lemma kept_toggle_pin:
  assumes "fd_kept s store" "toggle_pin k s = (s', w, r)"
  shows "fd_kept s' (fd_stored w store)"
proof -
  have d: "distinct (fd_pinned s)" using kept_sets [OF assms(1)] by blast
  have p: "fd_kept (s\<lparr>fd_fresh := f, fd_pinned := ps, fd_peek_key := q\<rparr>)
               (fd_stored [(fd_key_pinned, JArr ps)] store)" if "distinct ps" for ps f q
    using kept_put_pinned [of "s\<lparr>fd_fresh := f\<rparr>" store ps] assms(1) that by (simp add: kept_visit)
  have q: "fd_kept (s\<lparr>fd_fresh := f, fd_peek_key := q\<rparr>) (fd_stored [] store)" for f q
    using assms(1) by (simp add: kept_visit)
  show ?thesis
  proof (cases "hold_of s k \<noteq> [] \<and> JStr k \<notin> set (fd_pinned s)")
    case True
    then have "s' = s\<lparr>fd_fresh := set_del (hold_of s k) (fd_fresh s),
        fd_peek_key := (if fd_peek_key s = k then [] else fd_peek_key s)\<rparr> \<and> w = []"
      using assms(2) unfolding toggle_pin_eq Let_def by simp
    then show ?thesis using q by blast
  next
    case False
    define pins where "pins = (if JStr k \<in> set (fd_pinned s) then set_del (JStr k) (fd_pinned s)
      else set_add (JStr k) (fd_pinned s))"
    have e: "toggle_pin k s =
        (s\<lparr>fd_fresh := (if hold_of s k \<noteq> [] then set_del (hold_of s k) (fd_fresh s) else fd_fresh s),
           fd_pinned := pins, fd_peek_key := (if fd_peek_key s = k then [] else fd_peek_key s)\<rparr>,
         [(fd_key_pinned, JArr pins)], JStr k \<notin> set (fd_pinned s))"
      unfolding toggle_pin_eq Let_def pins_def by (rule if_not_P) (rule False)
    have "distinct pins" using d by (simp add: pins_def)
    from p [OF this] show ?thesis using assms(2) unfolding e prod.inject by blast
  qed
qed

lemma kept_apply:
  assumes "fd_kept s store" "fd_apply p s = (s', w)"
  shows "fd_kept s' (fd_stored w store)"
proof (cases p)
  case (Toggle_density lane)
  with assms show ?thesis
    using kept_objects [OF assms(1)] js_put_object
    by (auto simp: toggle_density_def Let_def intro!: kept_put_density)
next
  case (Toggle_hide_idle k)
  with assms show ?thesis
    using kept_sets [OF assms(1)] by (auto simp: toggle_hide_idle_def Let_def intro!: kept_put_hidden)
next
  case (Set_launcher k l)
  with assms show ?thesis by (auto intro: kept_set_launcher split: prod.splits)
next
  case (Reveal k l)
  with assms show ?thesis
    by (auto simp: fd_reveal_def Let_def intro: kept_set_launcher split: prod.splits if_splits)
next
  case (Toggle_pin k)
  with assms show ?thesis by (auto intro: kept_toggle_pin split: prod.splits)
next
  case (Hold k)
  with assms show ?thesis by (auto simp: fd_hold_def kept_visit)
qed (use assms in \<open>auto simp: kept_visit\<close>)

lemma toggle_density_frame:
  "fd_open_key (fst (toggle_density lane s)) = fd_open_key s"
  by (simp add: toggle_density_def Let_def)

lemma automated_apply: "fd_apply p s = (s', w) \<Longrightarrow> fd_automated s' = fd_automated s"
  by (cases p) (auto simp: toggle_density_def toggle_hide_idle_def set_launcher_def fd_reveal_def
      toggle_pin_def fd_hold_def Let_def split: prod.splits if_splits)

lemma kept_run: "fd_kept s store \<Longrightarrow> fd_run ps s store = (s', store') \<Longrightarrow>
    fd_kept s' store' \<and> fd_automated s' = fd_automated s"
proof (induction ps arbitrary: s store)
  case Nil
  then show ?case by simp
next
  case (Cons p ps)
  obtain s1 w where p: "fd_apply p s = (s1, w)" by (cases "fd_apply p s")
  with Cons.prems have "fd_run ps s1 (fd_stored w store) = (s', store')" by simp
  then show ?case
    using Cons.IH [OF kept_apply [OF Cons.prems(1) p]] automated_apply [OF p] by simp
qed

lemma kept_new: "fd_kept (fd_new store a) store"
  by (simp add: fd_kept_def fd_new_def)

text \<open>A reload keeps the operator's choices and nothing of the visit: whatever the operator did
  on a page, a page opened on what was stored has the same lanes folded, the same cards pinned, the
  same machines' idle cells hidden and the same launchers chosen, no card floating, no window open
  and no card held open.\<close>

theorem fd_choices_survive_a_reload:
  assumes "fd_run ps (fd_new store a) store = (s', store')"
  shows "fd_new store' a =
    s'\<lparr>fd_peek_key := [], fd_open_key := [], fd_fresh := [], fd_counts := JNull\<rparr>"
proof -
  have "fd_kept s' store' \<and> fd_automated s' = fd_automated (fd_new store a)"
    using kept_run [OF kept_new assms] .
  then show ?thesis by (simp add: fd_kept_def fd_new_def)
qed

lemma fd_choices_survive_a_reload_witness:
  "(case fd_run [Toggle_pin ''a'', Peek ''b'', Toggle_density ''cells'', Hold ''c''] (fd_new (\<lambda>k. Some JNull) False)
      (\<lambda>k. Some JNull) of (s', store') \<Rightarrow>
     is_pinned (fd_new store' False) ''a'' \<and> fd_density (fd_new store' False) ''cells'' = ''full'' \<and>
     fd_peek_key (fd_new store' False) = [] \<and> hold_of (fd_new store' False) ''c'' = [])"
proof -
  let ?ps = "[Toggle_pin ''a'', Peek ''b'', Toggle_density ''cells'', Hold ''c'']"
  let ?r = "fd_run ?ps (fd_new (\<lambda>k. Some JNull) False) (\<lambda>k. Some JNull)"
  obtain s' store' where r: "?r = (s', store')" by (cases ?r)
  have "is_pinned (fst ?r) ''a'' \<and> fd_density (fst ?r) ''cells'' = ''full''" by code_simp
  then have "is_pinned s' ''a'' \<and> fd_density s' ''cells'' = ''full''" by (simp only: r fst_conv)
  then show ?thesis
    unfolding r prod.case fd_choices_survive_a_reload [OF r]
    by (auto simp: is_pinned_def fd_density_def hold_of_def Let_def split: if_splits)
qed

end
