(* ===== verification/ModelSchedule.thy ===== *)
theory ModelSchedule
  imports WeekWindows CardFold
begin

text \<open>
  When a model is open: the mark on each model of Routing's right column and the window it opens
  (\<open>model-schedule.js\<close>). \<open>ScheduleClock\<close> reads times in the caravan's zone; \<open>ModelScheduleEditor\<close> is
  the window: a week painted on a grid and the same week as a list of windows, edited and saved. The
  calendar of the browser (\<open>Intl\<close>) and the dictionary are parameters. The form is an object the
  save on its way still holds after the window is shut, so a form has an identity; what a handler
  draws, sends, says or throws is listed in its result. The week is \<open>WeekWindows\<close>.
\<close>

section \<open>The caravan's clock\<close>

text \<open>What \<open>Intl\<close> gives: the parts of a time (in seconds) in a named zone, \<open>None\<close> for a zone it does not
  know; the name of a weekday in a language, \<open>None\<close> for a language it does not know.\<close>

record intl =
  in_parts :: "string \<Rightarrow> rat \<Rightarrow> (string \<times> string) list option"
  in_day :: "string \<Rightarrow> int \<Rightarrow> string option"

record sched_clock =
  ck_zone :: js
  ck_lang :: string

definition mk_clock :: "js \<Rightarrow> string \<Rightarrow> sched_clock" where
  "mk_clock zone language =
     \<lparr>ck_zone = js_or zone (JObj [(''name'', JStr ''UTC''), (''known'', JBool False), (''offsetMinutes'', JNum 0)]),
      ck_lang = (if language = [] then ''en'' else language)\<rparr>"

definition ck_offset :: "sched_clock \<Rightarrow> rat" where
  "ck_offset c = num_of (js_or (jget (ck_zone c) ''offsetMinutes'') (JNum 0))"

definition ck_frame :: "intl \<Rightarrow> sched_clock \<Rightarrow> string \<times> rat" where
  "ck_frame I c =
     (let name = js_string (jget (ck_zone c) ''name'') in
      if js_truthy (jget (ck_zone c) ''known'') \<and> js_truthy (jget (ck_zone c) ''name'') \<and> in_parts I name 0 \<noteq> None
      then (name, 0) else (''UTC'', ck_offset c * 60))"

record clock_parts =
  cp_day :: int
  cp_hour :: jnum
  cp_minute :: jnum
  cp_date :: string

definition week_names :: "string list" where
  "week_names = [''Mon'', ''Tue'', ''Wed'', ''Thu'', ''Fri'', ''Sat'', ''Sun'']"

definition ck_parts :: "intl \<Rightarrow> sched_clock \<Rightarrow> rat \<Rightarrow> clock_parts" where
  "ck_parts I c epoch =
     (case ck_frame I c of (zone, shift) \<Rightarrow>
        let ps = (case in_parts I zone (epoch + shift) of Some ps \<Rightarrow> ps | None \<Rightarrow> []);
            got = (\<lambda>k. case map_of (rev ps) k of Some v \<Rightarrow> JStr v | None \<Rightarrow> JUndef)
        in \<lparr>cp_day = js_index (map JStr week_names) (got ''weekday''),
            cp_hour = (case js_number (got ''hour'') of Fin r \<Rightarrow> Fin (js_rem r 24) | _ \<Rightarrow> NaN),
            cp_minute = js_number (got ''minute''),
            cp_date = js_string (got ''year'') @ ''-'' @ js_string (got ''month'') @ ''-'' @ js_string (got ''day'')\<rparr>)"

definition ck_day_name :: "intl \<Rightarrow> sched_clock \<Rightarrow> int \<Rightarrow> string" where
  "ck_day_name I c day =
     (case in_day I (ck_lang c) day of Some name \<Rightarrow> name
      | None \<Rightarrow> (case js_at week_names day of Some name \<Rightarrow> name | None \<Rightarrow> []))"

definition pad_num :: "jnum \<Rightarrow> string" where
  "pad_num n = pad_start 2 CHR ''0'' (num_str n)"

definition ck_when :: "intl \<Rightarrow> sched_clock \<Rightarrow> rat \<Rightarrow> rat \<Rightarrow> string" where
  "ck_when I c epoch now =
     (let p = ck_parts I c epoch; time = pad_num (cp_hour p) @ '':'' @ pad_num (cp_minute p)
      in if cp_date p = cp_date (ck_parts I c now) then time
         else ck_day_name I c (cp_day p) @ '' '' @ time)"

definition ck_offset_text :: "sched_clock \<Rightarrow> string" where
  "ck_offset_text c =
     (let minutes = ck_offset c; a = \<bar>minutes\<bar>
      in ''UTC'' @ (if minutes < 0 then ''-'' else ''+'') @ pad_start 2 CHR ''0'' (int_str \<lfloor>a / 60\<rfloor>) @ '':''
         @ pad_start 2 CHR ''0'' (rat_str (js_rem a 60)))"

section \<open>What the board reads\<close>

record sched_form =
  sf_id :: nat
  sf_key :: string
  sf_title :: string
  sf_cell :: bool
  sf_enabled :: bool
  sf_windows :: "js list"
  sf_busy :: bool

record editor =
  ed_top :: js
  ed_form :: "sched_form option"
  ed_painting :: "(bool \<times> bool list) option"
  ed_next :: nat

datatype ed_out = Ed_redraw | Ed_call nat string bool "js list" | Ed_apply js | Ed_say string
  | Ed_saved string | Ed_type_error

definition ed_new :: editor where
  "ed_new = \<lparr>ed_top = JNull, ed_form = None, ed_painting = None, ed_next = 0\<rparr>"

definition ed_set :: "js \<Rightarrow> editor \<Rightarrow> editor" where
  "ed_set board s = s\<lparr>ed_top := js_or board (JObj [])\<rparr>"

definition ed_schedules :: "editor \<Rightarrow> js" where
  "ed_schedules s = js_or (jget (ed_top s) ''modelSchedules'') (JObj [(''zone'', JNull), (''models'', JObj [])])"

definition ed_clock :: "string \<Rightarrow> editor \<Rightarrow> sched_clock" where
  "ed_clock language s = mk_clock (jget (ed_schedules s) ''zone'') language"

definition ed_entry :: "string \<Rightarrow> editor \<Rightarrow> js" where
  "ed_entry key s = js_or (jget (jget (ed_schedules s) ''models'') key) JNull"

definition ed_now :: "rat \<Rightarrow> editor \<Rightarrow> rat" where
  "ed_now now s = num_of (js_or (jget (ed_schedules s) ''now'') (JNum now))"

text \<open>The mark of a clock.\<close>

definition watch :: string where
  "watch = [CHR 0xE2, CHR 0x8F, CHR 0xB1]"

text \<open>How a model's mark looks, what it says, and its hint.\<close>

definition chip_face :: "dict \<Rightarrow> intl \<Rightarrow> string \<Rightarrow> rat \<Rightarrow> editor \<Rightarrow> string \<Rightarrow> string \<times> string \<times> string" where
  "chip_face t I language now0 s key =
     (let entry = ed_entry key s; c = ed_clock language s; now = ed_now now0 s;
          at_time = (\<lambda>w v. t w [(''time'', ck_when I c (num_of v) now)]);
          until = jget entry ''until''; opens = jget entry ''opensAt''; hint = t ''pbSchedChip'' []
      in if \<not> js_truthy entry then (''none'', watch, hint)
         else if \<not> js_truthy (jget entry ''enabled'') then (''off'', watch, t ''pbSchedOff'' [])
         else if js_truthy (jget entry ''open'')
         then (''open'', watch @ '' '' @ (if js_truthy until then at_time ''pbSchedOpenUntil'' until
                                          else t ''pbSchedAlways'' []), hint)
         else (''closed'', watch @ '' '' @ (if js_truthy opens then at_time ''pbSchedClosedUntil'' opens
                                            else t ''pbSchedClosed'' []), hint))"

definition chip_html :: "dict \<Rightarrow> intl \<Rightarrow> string \<Rightarrow> rat \<Rightarrow> editor \<Rightarrow> string \<Rightarrow> string \<Rightarrow> string" where
  "chip_html t I language now s key title =
     (case chip_face t I language now s key of (look, txt, hint) \<Rightarrow>
        ''<button class=\"pb-sched '' @ look @ ''\" type=\"button\" data-ms-open=\"'' @ escape_html key
        @ ''\" data-ms-title=\"'' @ escape_html title @ ''\"''
        @ '' data-t=\"pb-model-schedule\" data-t-id=\"'' @ escape_html key @ ''\" data-t-state=\"'' @ look
        @ ''\" title=\"'' @ escape_html hint @ ''\">'' @ escape_html txt @ ''</button>'')"

definition closed_word :: "dict \<Rightarrow> intl \<Rightarrow> string \<Rightarrow> rat \<Rightarrow> editor \<Rightarrow> string \<Rightarrow> string option" where
  "closed_word t I language now0 s key =
     (let entry = ed_entry key s; opens = jget entry ''opensAt'' in
      if \<not> js_truthy (jget entry ''enabled'') \<or> jget entry ''open'' \<noteq> JBool False then None
      else Some (if js_truthy opens
                 then t ''pbSchedClosedUntil'' [(''time'', ck_when I (ed_clock language s) (num_of opens) (ed_now now0 s))]
                 else t ''pbSchedClosed'' []))"

section \<open>The window\<close>

definition window_days :: "js \<Rightarrow> js list" where
  "window_days w = js_list (js_or (jget w ''days'') (JArr []))"

definition copy_window :: "js \<Rightarrow> js" where
  "copy_window w = JObj (kv_put ''days'' (JArr (window_days w)) (js_fields w))"

definition ed_open :: "string \<Rightarrow> string \<Rightarrow> editor \<Rightarrow> editor \<times> ed_out list" where
  "ed_open key title s =
     (let entry = ed_entry key s in
      (s\<lparr>ed_form := Some
           \<lparr>sf_id = ed_next s, sf_key = key, sf_title = (if title \<noteq> [] then title else key),
            sf_cell = prefix ''out:'' key,
            sf_enabled = (if js_truthy entry then js_truthy (jget entry ''enabled'') else True),
            sf_windows = map copy_window (js_list (js_or (jget entry ''windows'') (JArr []))),
            sf_busy = False\<rparr>,
         ed_next := Suc (ed_next s)\<rparr>, [Ed_redraw]))"

definition ed_close :: "editor \<Rightarrow> editor \<times> ed_out list" where
  "ed_close s = (case ed_form s of None \<Rightarrow> (s, [])
     | Some f \<Rightarrow> (s\<lparr>ed_form := None, ed_painting := None\<rparr>, [Ed_redraw]))"

definition with_windows :: "js list \<Rightarrow> sched_form \<Rightarrow> editor \<Rightarrow> editor" where
  "with_windows ws f s = s\<lparr>ed_form := Some (f\<lparr>sf_windows := ws\<rparr>)\<rparr>"

definition new_window :: js where
  "new_window = JObj [(''days'', JArr []), (''from'', JStr ''09:00''), (''to'', JStr ''18:00'')]"

definition all_days :: "js list" where
  "all_days = map (\<lambda>d. JNum (of_nat d)) [0..<7]"

definition num_cmp :: "js \<Rightarrow> js \<Rightarrow> int" where
  "num_cmp a b = (if num_of a < num_of b then -1 else if num_of a = num_of b then 0 else 1)"

text \<open>\<open>splice(i, 1)\<close>.\<close>

definition drop_at :: "nat \<Rightarrow> 'a list \<Rightarrow> 'a list" where
  "drop_at i xs = take i xs @ drop (Suc i) xs"

definition press_day :: "nat \<Rightarrow> nat \<Rightarrow> js list \<Rightarrow> js list" where
  "press_day i d ws =
     (if i < length ws then
        (let w = ws ! i; day = JNum (of_nat d);
             days = (if window_days w \<noteq> [] then window_days w else all_days);
             left = (if day \<in> set days then filter (\<lambda>x. x \<noteq> day) days else js_sort num_cmp (days @ [day]))
         in if left = [] then drop_at i ws
            else ws[i := js_put ''days'' (JArr (if length left = 7 then [] else left)) w])
      else ws)"

datatype click_act = Ck_open string string | Ck_close | Ck_save | Ck_add | Ck_remove nat | Ck_day nat nat
  | Ck_other

definition ed_save :: "editor \<Rightarrow> editor \<times> ed_out list" where
  "ed_save s =
     (case ed_form s of None \<Rightarrow> (s, [])
      | Some f \<Rightarrow>
          if sf_busy f \<or> (sf_enabled f \<and> sf_windows f = []) then (s, [])
          else (s\<lparr>ed_form := Some (f\<lparr>sf_busy := True\<rparr>)\<rparr>,
                [Ed_redraw, Ed_call (sf_id f) (sf_key f) (sf_enabled f) (sf_windows f)]))"

fun ed_click :: "click_act \<Rightarrow> editor \<Rightarrow> editor \<times> ed_out list" where
  "ed_click (Ck_open key title) s = ed_open key title s"
| "ed_click c s =
     (case ed_form s of None \<Rightarrow> (s, [])
      | Some f \<Rightarrow>
          (case c of
             Ck_close \<Rightarrow> ed_close s
           | Ck_save \<Rightarrow> ed_save s
           | Ck_add \<Rightarrow> (with_windows (sf_windows f @ [new_window]) f s, [Ed_redraw])
           | Ck_remove i \<Rightarrow> (with_windows (drop_at i (sf_windows f)) f s, [Ed_redraw])
           | Ck_day i d \<Rightarrow>
               if i < length (sf_windows f)
               then (with_windows (press_day i d (sf_windows f)) f s, [Ed_redraw]) else (s, [])
           | _ \<Rightarrow> (s, [])))"

datatype change_act = Ch_enabled bool | Ch_time bool nat string \<comment> \<open>the \<open>from\<close> of a window, or its \<open>to\<close>\<close>
  | Ch_other

definition set_time :: "bool \<Rightarrow> nat \<Rightarrow> string \<Rightarrow> js list \<Rightarrow> js list" where
  "set_time is_from i v ws =
     (if i < length ws then
        (case ww_minutes (JStr v) of None \<Rightarrow> ws
         | Some m \<Rightarrow> ws[i := js_put (if is_from then ''from'' else ''to'') (JStr (ww_hhmm (int m))) (ws ! i)])
      else ws)"

definition ed_change :: "change_act \<Rightarrow> editor \<Rightarrow> editor \<times> ed_out list" where
  "ed_change c s =
     (case ed_form s of None \<Rightarrow> (s, [])
      | Some f \<Rightarrow>
          (case c of
             Ch_enabled on \<Rightarrow> (s\<lparr>ed_form := Some (f\<lparr>sf_enabled := on\<rparr>)\<rparr>, [Ed_redraw])
           | Ch_time is_from i v \<Rightarrow> (with_windows (set_time is_from i v (sf_windows f)) f s, [Ed_redraw])
           | Ch_other \<Rightarrow> (s, [])))"

definition ed_paint :: "nat \<Rightarrow> nat \<Rightarrow> editor \<Rightarrow> editor" where
  "ed_paint d h s = (case ed_painting s of None \<Rightarrow> s
     | Some (on, wk) \<Rightarrow> s\<lparr>ed_painting := Some (on, ww_paint wk d h on)\<rparr>)"

definition ed_press :: "(nat \<times> nat) option \<Rightarrow> editor \<Rightarrow> editor \<times> ed_out list" where
  "ed_press cell s =
     (case (cell, ed_form s) of
        (Some (d, h), Some f) \<Rightarrow>
          (let wk = ww_mask (JArr (sf_windows f))
           in (ed_paint d h (s\<lparr>ed_painting := Some (ww_share wk d h < 60, wk)\<rparr>), []))
      | _ \<Rightarrow> (s, []))"

definition ed_over :: "(nat \<times> nat) option \<Rightarrow> editor \<Rightarrow> editor \<times> ed_out list" where
  "ed_over cell s =
     (case (cell, ed_painting s) of
        (Some (d, h), Some p) \<Rightarrow> (ed_paint d h s, [])
      | _ \<Rightarrow> (s, []))"

text \<open>\<open>this.form.windows = ...\<close> throws when there is no form.\<close>

definition ed_release :: "editor \<Rightarrow> editor \<times> ed_out list" where
  "ed_release s =
     (case ed_painting s of None \<Rightarrow> (s, [])
      | Some (on, wk) \<Rightarrow>
          (case ed_form s of None \<Rightarrow> (s, [Ed_type_error])
           | Some f \<Rightarrow> ((with_windows (js_list (ww_from_mask wk)) f s)\<lparr>ed_painting := None\<rparr>, [Ed_redraw])))"

text \<open>The answer of a save, of the form it was sent for (its identity and its title).\<close>

definition ed_answer :: "nat \<Rightarrow> string \<Rightarrow> string + js \<Rightarrow> editor \<Rightarrow> editor \<times> ed_out list" where
  "ed_answer fid title res s =
     (case res of
        Inl err \<Rightarrow>
          (s\<lparr>ed_form := map_option (\<lambda>f. if sf_id f = fid then f\<lparr>sf_busy := False\<rparr> else f) (ed_form s)\<rparr>,
           [Ed_redraw, Ed_say err])
      | Inr ans \<Rightarrow> (s\<lparr>ed_form := None\<rparr>, [Ed_apply (jget ans ''topology''), Ed_saved title]))"

abbreviation jnat :: "nat \<Rightarrow> js" where
  "jnat d \<equiv> JNum (of_nat d)"

text \<open>What the saved schedule says now, in the controller's words.\<close>

definition saved_html :: "dict \<Rightarrow> intl \<Rightarrow> string \<Rightarrow> rat \<Rightarrow> editor \<Rightarrow> sched_form \<Rightarrow> string" where
  "saved_html t I language now0 s f =
     (let entry = ed_entry (sf_key f) s; c = ed_clock language s; now = ed_now now0 s;
          at_time = (\<lambda>w v. t w [(''time'', ck_when I c (num_of v) now)]);
          until = jget entry ''until''; opens = jget entry ''opensAt'';
          word = (if \<not> js_truthy (jget entry ''enabled'') then t ''pbSchedOff'' []
                  else if js_truthy (jget entry ''open'')
                  then (if js_truthy until then at_time ''pbSchedNowOpen'' until else t ''pbSchedNowAlways'' [])
                  else (if js_truthy opens then at_time ''pbSchedNowClosed'' opens else t ''pbSchedClosed'' []));
          look = (if \<not> js_truthy (jget entry ''enabled'') then ''off''
                  else if js_truthy (jget entry ''open'') then ''open'' else ''closed'')
      in if \<not> js_truthy entry then []
         else ''<p class=\"ms-now\" data-t=\"pb-schedule-now\" data-t-state=\"'' @ look @ ''\">''
              @ escape_html word @ ''</p>'')"

text \<open>The week as hours.\<close>

definition cell_look :: "nat \<Rightarrow> string" where
  "cell_look minutes = (if minutes = 60 then '' full'' else if minutes \<noteq> 0 then '' part'' else [])"

definition en_dash :: string where
  "en_dash = [CHR 0xE2, CHR 0x80, CHR 0x93]"

definition grid_cell :: "intl \<Rightarrow> sched_clock \<Rightarrow> clock_parts \<Rightarrow> bool list \<Rightarrow> nat \<Rightarrow> nat \<Rightarrow> string" where
  "grid_cell I c here wk d h =
     (let now_mark = (if int d = cp_day here \<and> jnum_eq (Fin (of_nat h)) (cp_hour here) then '' now'' else []);
          title = ck_day_name I c (int d) @ '' '' @ pad2 h @ '':00'' @ en_dash @ pad2 ((h + 1) mod 24) @ '':00''
      in ''<span class=\"ms-cell'' @ cell_look (ww_share wk d h) @ now_mark @ ''\" data-ms-cell=\"'' @ nat_str d @ '':''
         @ nat_str h @ ''\" title=\"'' @ escape_html title @ ''\"></span>'')"

definition grid_html :: "intl \<Rightarrow> sched_clock \<Rightarrow> clock_parts \<Rightarrow> editor \<Rightarrow> sched_form \<Rightarrow> string" where
  "grid_html I c here s f =
     (let wk = (case ed_painting s of Some (on, wk) \<Rightarrow> wk | None \<Rightarrow> ww_mask (JArr (sf_windows f)));
          hours = concat (map (\<lambda>h. ''<span class=\"ms-hour\">'' @ nat_str h @ ''</span>'') [0..<24]);
          rows = concat (map (\<lambda>d. ''<span class=\"ms-day\">'' @ escape_html (ck_day_name I c (int d)) @ ''</span>''
                     @ concat (map (grid_cell I c here wk d) [0..<24])) [0..<7])
      in ''<div class=\"ms-grid'' @ (if sf_enabled f then [] else '' off'')
         @ ''\" data-t=\"pb-schedule-grid\"><span class=\"ms-corner\"></span>'' @ hours @ rows @ ''</div>'')"

text \<open>A line break of a template, with its indentation.\<close>

definition nl :: "nat \<Rightarrow> string" where
  "nl n = CHR 0x0A # replicate n (CHR '' '')"

definition day_button :: "intl \<Rightarrow> sched_clock \<Rightarrow> js \<Rightarrow> nat \<Rightarrow> nat \<Rightarrow> string" where
  "day_button I c w i d =
     (let on = (window_days w = [] \<or> jnat d \<in> set (window_days w))
      in ''<button class=\"ms-daybtn'' @ (if on then '' on'' else []) @ ''\" type=\"button\" data-ms-day=\"'' @ nat_str i
         @ '':'' @ nat_str d @ ''\" aria-pressed=\"'' @ (if on then ''true'' else ''false'') @ ''\">''
         @ escape_html (ck_day_name I c (int d)) @ ''</button>'')"

definition cross :: string where
  "cross = [CHR 0xE2, CHR 0x9C, CHR 0x95]"

definition time_input :: "dict \<Rightarrow> js \<Rightarrow> bool \<Rightarrow> nat \<Rightarrow> string" where
  "time_input t w is_from i =
     ''<input class=\"ms-time\" type=\"time\" step=\"60\" '' @ (if is_from then ''data-ms-from'' else ''data-ms-to'')
     @ ''=\"'' @ nat_str i @ ''\" value=\"'' @ escape_html (js_string (jget w (if is_from then ''from'' else ''to'')))
     @ ''\" aria-label=\"'' @ escape_html (t (if is_from then ''pbSchedFrom'' else ''pbSchedTo'') []) @ ''\">''"

definition window_row :: "dict \<Rightarrow> intl \<Rightarrow> sched_clock \<Rightarrow> nat \<Rightarrow> js \<Rightarrow> string" where
  "window_row t I c i w =
     ''<li class=\"ms-window\" data-ms-window=\"'' @ nat_str i @ ''\" data-t=\"pb-schedule-window\">'' @ nl 8
     @ ''<span class=\"ms-days\">'' @ concat (map (day_button I c w i) [0..<7]) @ ''</span>'' @ nl 8
     @ time_input t w True i @ nl 8
     @ ''<span aria-hidden=\"true\">'' @ en_dash @ ''</span>'' @ nl 8
     @ time_input t w False i @ nl 8
     @ ''<button class=\"pb-tool del\" type=\"button\" data-ms-remove=\"'' @ nat_str i @ ''\" title=\"''
     @ escape_html (t ''pbSchedRemoveWindow'' []) @ ''\" aria-label=\"'' @ escape_html (t ''pbSchedRemoveWindow'' [])
     @ ''\">'' @ cross @ ''</button>'' @ nl 6 @ ''</li>''"

definition windows_html :: "dict \<Rightarrow> intl \<Rightarrow> sched_clock \<Rightarrow> sched_form \<Rightarrow> string" where
  "windows_html t I c f =
     (if sf_windows f = []
      then ''<p class=\"ms-empty\" data-t=\"pb-schedule-no-windows\">'' @ escape_html (t ''pbSchedNoWindows'' []) @ ''</p>''
      else ''<ul class=\"ms-windows\">'' @ concat (map (\<lambda>(i, w). window_row t I c i w) (enumerate 0 (sf_windows f)))
           @ ''</ul>'')"

definition form_ready :: "sched_form \<Rightarrow> bool" where
  "form_ready f = (\<not> sf_enabled f \<or> sf_windows f \<noteq> [])"

definition zone_line :: "dict \<Rightarrow> sched_clock \<Rightarrow> js \<Rightarrow> string \<Rightarrow> string" where
  "zone_line t c zone now_text =
     (if js_truthy (jget zone ''known'')
      then t ''pbSchedZone'' [(''zone'', js_string (jget zone ''name'')), (''offset'', ck_offset_text c), (''now'', now_text)]
      else t ''pbSchedZoneUnknown'' [])"

text \<open>The whole window; empty when none is open.\<close>

definition ed_html :: "dict \<Rightarrow> intl \<Rightarrow> string \<Rightarrow> rat \<Rightarrow> editor \<Rightarrow> string" where
  "ed_html t I language now s = (case ed_form s of None \<Rightarrow> []
     | Some f \<Rightarrow>
        (let c = ed_clock language s; zone = jget (ed_schedules s) ''zone''; here = ck_parts I c now;
             esc = (\<lambda>k. escape_html (t k []));
             shut = ''<button class=\"pb-tool\" type=\"button\" data-ms-close data-t=\"pb-schedule-close\" title=\"''
               @ esc ''topologyClose'' @ ''\" aria-label=\"'' @ esc ''topologyClose'' @ ''\">'' @ cross @ ''</button>'';
             now_text = ck_day_name I c (cp_day here) @ '' '' @ pad_num (cp_hour here) @ '':'' @ pad_num (cp_minute here);
             ready = form_ready f
         in ''<div class=\"pb-probe ms\" role=\"dialog\" aria-modal=\"true\" data-ms data-t=\"pb-schedule\" data-t-id=\"''
            @ escape_html (sf_key f) @ ''\" data-t-state=\"'' @ (if sf_enabled f then ''on'' else ''off'') @ ''\">'' @ nl 6
            @ ''<div class=\"pb-probe-box ms-box\">'' @ nl 8
            @ ''<header class=\"pb-probe-head\"><b>'' @ watch @ '' '' @ escape_html (t ''pbSchedTitle'' [(''model'', sf_title f)])
            @ ''</b>'' @ shut @ ''</header>'' @ nl 8
            @ ''<label class=\"ms-switch\"><input type=\"checkbox\" data-ms-enabled data-t=\"pb-schedule-enabled\"''
            @ (if sf_enabled f then '' checked'' else []) @ ''> '' @ esc ''pbSchedEnabled'' @ ''</label>'' @ nl 8
            @ ''<p class=\"ms-zone'' @ (if js_truthy (jget zone ''known'') then [] else '' bad'')
            @ ''\" data-t=\"pb-schedule-zone\">'' @ escape_html (zone_line t c zone now_text) @ ''</p>'' @ nl 8
            @ saved_html t I language now s f @ nl 8
            @ grid_html I c here s f @ nl 8
            @ ''<p class=\"ms-hint\">'' @ esc ''pbSchedHint'' @ ''</p>'' @ nl 8
            @ ''<h4>'' @ esc ''pbSchedWindows'' @ ''</h4>'' @ nl 8
            @ windows_html t I c f @ nl 8
            @ ''<button class=\"pb-add ms-add\" type=\"button\" data-ms-add data-t=\"pb-schedule-add\">''
            @ [CHR 0xEF, CHR 0xBC, CHR 0x8B] @ '' '' @ esc ''pbSchedAddWindow'' @ ''</button>'' @ nl 8
            @ (if sf_cell f then ''<p class=\"ms-note\" data-t=\"pb-schedule-cell-note\">'' @ esc ''pbSchedCellNote'' @ ''</p>''
               else []) @ nl 8
            @ (if ready then [] else ''<p class=\"ms-note bad\" data-t=\"pb-schedule-needs-window\">''
                 @ esc ''pbSchedNeedsWindow'' @ ''</p>'') @ nl 8
            @ ''<footer class=\"ms-foot\">'' @ nl 10
            @ ''<button class=\"pb-tool\" type=\"button\" data-ms-close>'' @ esc ''cancel'' @ ''</button>'' @ nl 10
            @ ''<button class=\"pb-add ms-save\" type=\"button\" data-ms-save data-t=\"pb-schedule-save\"''
            @ (if ready \<and> \<not> sf_busy f then [] else '' disabled'') @ ''>'' @ esc ''save'' @ ''</button>'' @ nl 8
            @ ''</footer>'' @ nl 6 @ ''</div>'' @ nl 4 @ ''</div>''))"

text \<open>The Save button is open exactly when a press on it sends.\<close>

lemma save_button_says_what_it_does:
  "ed_form s = Some f \<Longrightarrow> form_ready f \<and> \<not> sf_busy f \<longleftrightarrow> snd (ed_save s) \<noteq> []"
  by (simp add: ed_save_def form_ready_def)

section \<open>A stroke over the grid\<close>

definition in_hour :: "nat \<Rightarrow> nat \<times> nat \<Rightarrow> bool" where
  "in_hour m c = (case c of (d, h) \<Rightarrow> d * 1440 + h * 60 \<le> m \<and> m < d * 1440 + h * 60 + 60)"

lemma length_ww_paint [simp]: "length (ww_paint wk d h on) = length wk"
  by (simp add: ww_paint_def Let_def)

lemma ww_paint_nth: "m < length wk \<Longrightarrow> ww_paint wk d h on ! m = (if in_hour m (d, h) then on else wk ! m)"
  by (simp add: ww_paint_def Let_def ww_fill_nth in_hour_def ww_day_def)

lemma ed_paint_some:
  "ed_painting s = Some (on, wk) \<Longrightarrow> ed_paint d h s = s\<lparr>ed_painting := Some (on, ww_paint wk d h on)\<rparr>"
  by (simp add: ed_paint_def)

lemma ed_overs:
  assumes "ed_painting s = Some (on, wk)" "length wk = ww_week"
  shows "\<exists>wk'. fold (\<lambda>c s. fst (ed_over (Some c) s)) cs s = s\<lparr>ed_painting := Some (on, wk')\<rparr> \<and>
    length wk' = ww_week \<and>
    (\<forall>m < ww_week. wk' ! m = (if list_ex (in_hour m) cs then on else wk ! m))"
  using assms
proof (induction cs arbitrary: s wk)
  case Nil
  then show ?case by (intro exI [of _ wk]) simp
next
  case (Cons c cs)
  obtain d h where c: "c = (d, h)" by (cases c)
  let ?s = "s\<lparr>ed_painting := Some (on, ww_paint wk d h on)\<rparr>"
  have over: "fst (ed_over (Some c) s) = ?s"
    using Cons.prems(1) by (simp add: ed_over_def c ed_paint_some)
  obtain wk' where wk': "fold (\<lambda>c s. fst (ed_over (Some c) s)) cs ?s = ?s\<lparr>ed_painting := Some (on, wk')\<rparr>"
    "length wk' = ww_week"
    "\<forall>m < ww_week. wk' ! m = (if list_ex (in_hour m) cs then on else ww_paint wk d h on ! m)"
    using Cons.IH [of ?s "ww_paint wk d h on"] Cons.prems by auto
  then show ?case using over Cons.prems(2) by (intro exI [of _ wk']) (auto simp: c ww_paint_nth)
qed

text \<open>A stroke over the grid (pressed on an hour, drawn over others, let go) sets just the hours it
  passed: read back from the windows it leaves, every minute of them is open when the hour pressed
  first was not wholly open, and closed when it was; every other minute of the week is as before,
  and nothing else of the window has changed.\<close>

theorem ms_stroke_sets_the_hours_passed:
  assumes f: "ed_form s = Some f"
    and press: "ed_press (Some c) s = (s1, outs1)"
    and overs: "fold (\<lambda>c s. fst (ed_over (Some c) s)) cs s1 = s2"
    and release: "ed_release s2 = (s3, outs3)"
  shows "\<exists>ws. s3 = s\<lparr>ed_form := Some (f\<lparr>sf_windows := ws\<rparr>), ed_painting := None\<rparr> \<and> outs3 = [Ed_redraw] \<and>
    (\<forall>m < ww_week. ww_open_at (JArr ws) m =
       (if list_ex (in_hour m) (c # cs)
        then ww_share (ww_mask (JArr (sf_windows f))) (fst c) (snd c) < 60
        else ww_open_at (JArr (sf_windows f)) m))"
proof -
  obtain d h where c: "c = (d, h)" by (cases c)
  define wk where "wk = ww_mask (JArr (sf_windows f))"
  define on where "on = (ww_share wk d h < 60)"
  have s1: "s1 = s\<lparr>ed_painting := Some (on, ww_paint wk d h on)\<rparr>"
    using press f by (auto simp: ed_press_def c wk_def on_def Let_def ed_paint_def)
  have "length wk = ww_week" by (simp add: wk_def)
  then obtain wk' where wk': "s2 = s1\<lparr>ed_painting := Some (on, wk')\<rparr>" "length wk' = ww_week"
    "\<forall>m < ww_week. wk' ! m = (if list_ex (in_hour m) cs then on else ww_paint wk d h on ! m)"
    using ed_overs [of s1 on "ww_paint wk d h on" cs] overs s1 by auto
  define ws where "ws = js_list (ww_from_mask wk')"
  have arr: "JArr ws = ww_from_mask wk'" by (simp add: ws_def ww_from_mask_def)
  have "s3 = s\<lparr>ed_form := Some (f\<lparr>sf_windows := ws\<rparr>), ed_painting := None\<rparr> \<and> outs3 = [Ed_redraw]"
    using release f by (simp add: ed_release_def wk'(1) s1 with_windows_def ws_def)
  moreover have "ww_open_at (JArr ws) m = (if list_ex (in_hour m) (c # cs) then on
      else ww_open_at (JArr (sf_windows f)) m)" if "m < ww_week" for m
    using wk'(2,3) that by (simp add: arr ww_from_mask_open ww_paint_nth wk_def c ww_mask_nth)
  ultimately show ?thesis by (intro exI [of _ ws]) (simp add: on_def wk_def c)
qed

lemma ms_stroke_sets_the_hours_passed_witness:
  "\<exists>ws. ed_form (fst (ed_release (fst (ed_over (Some (0, 2)) (fst (ed_press (Some (0, 1))
     (fst (ed_open ''m'' [] ed_new)))))))) =
     Some \<lparr>sf_id = 0, sf_key = ''m'', sf_title = ''m'', sf_cell = False, sf_enabled = True, sf_windows = ws, sf_busy = False\<rparr> \<and>
     ww_open_at (JArr ws) 125 \<and> \<not> ww_open_at (JArr ws) 30"
proof -
  let ?f = "\<lparr>sf_id = 0, sf_key = ''m'', sf_title = ''m'', sf_cell = False, sf_enabled = True, sf_windows = [], sf_busy = False\<rparr>"
  let ?s = "fst (ed_open ''m'' [] ed_new)"
  have f: "ed_form ?s = Some ?f"
    by (simp add: ed_open_def ed_new_def ed_entry_def ed_schedules_def Let_def jget_def js_or_def)
  obtain s1 o1 where p: "ed_press (Some (0, 1)) ?s = (s1, o1)" by (cases "ed_press (Some (0, 1)) ?s")
  obtain s2 where o: "fold (\<lambda>c s. fst (ed_over (Some c) s)) [(0, 2)] s1 = s2" by simp
  obtain s3 o3 where r: "ed_release s2 = (s3, o3)" by (cases "ed_release s2")
  have shut: "\<not> ww_open_at (JArr []) m" for m by (simp add: ww_open_at_def)
  have "length (filter (\<lambda>m. ww_mask (JArr []) ! m) [60 ..< 60 + 60]) = 0"
    by (auto simp: filter_empty_conv ww_mask_nth ww_week_def shut)
  then have share: "ww_share (ww_mask (JArr [])) 0 1 < 60" by (simp add: ww_share_def)
  obtain ws where ws: "s3 = ?s\<lparr>ed_form := Some (?f\<lparr>sf_windows := ws\<rparr>), ed_painting := None\<rparr>"
    "\<forall>m < ww_week. ww_open_at (JArr ws) m = (if list_ex (in_hour m) [(0, 1), (0, 2)]
        then ww_share (ww_mask (JArr [])) 0 1 < 60 else ww_open_at (JArr []) m)"
    using ms_stroke_sets_the_hours_passed [OF f p o r] by auto
  have "ww_open_at (JArr ws) 125 \<and> \<not> ww_open_at (JArr ws) 30"
    using ws(2) share shut by (simp add: ww_week_def in_hour_def)
  moreover have "ed_form s3 = Some (?f\<lparr>sf_windows := ws\<rparr>)" by (simp add: ws(1))
  moreover have "fst (ed_release (fst (ed_over (Some (0, 2)) (fst (ed_press (Some (0, 1)) ?s))))) = s3"
    using p o r by simp
  ultimately show ?thesis by simp
qed

section \<open>The days of a window\<close>

text \<open>The days a window opens on, and a set with one of its members put in or taken out.\<close>

definition day_list :: "js \<Rightarrow> nat list option" where
  "day_list w = ww_days (jget w ''days'')"

definition toggled :: "'a \<Rightarrow> 'a set \<Rightarrow> 'a set" where
  "toggled x A = (if x \<in> A then A - {x} else insert x A)"

lemma jnat_inj: "inj jnat"
  by (rule injI) simp

lemma jnat_mem [simp]: "jnat d \<in> jnat ` A \<longleftrightarrow> d \<in> A"
  by auto

lemma all_days_eq: "all_days = map jnat [0..<7]"
  by (simp add: all_days_def)

lemma ww_days_jnats: "\<forall>d \<in> set ds. d < 7 \<Longrightarrow> ds \<noteq> [] \<Longrightarrow> ww_days (JArr (map jnat ds)) = Some ds"
  using ww_days_of_nats [of ds] by simp

lemma js_insert_map: "js_insert cmp (f x) (map f xs) = map f (js_insert (\<lambda>a b. cmp (f a) (f b)) x xs)"
  by (induction xs) auto

lemma js_sort_map: "js_sort cmp (map f xs) = map f (js_sort (\<lambda>a b. cmp (f a) (f b)) xs)"
  by (induction xs) (simp_all add: js_sort_def js_insert_map)

lemma ww_day_of_Some: "ww_day_of v = Some d \<Longrightarrow> v = jnat d \<and> d < 7"
proof (cases v)
  case (JNum r)
  assume "ww_day_of v = Some d"
  then have "r = of_int \<lfloor>r\<rfloor>" "0 \<le> r" "d = nat \<lfloor>r\<rfloor>" using JNum by (auto simp: rat_int_def split: if_splits)
  then have "r = of_nat d" by (metis of_int_0_le_iff of_nat_nat)
  then show ?thesis using JNum ww_day_of_bound [OF \<open>ww_day_of v = Some d\<close>] by simp
qed auto

lemma day_list_lt7: "day_list w = Some ds \<Longrightarrow> d \<in> set ds \<Longrightarrow> d < 7"
  using ww_days_bound by (auto simp: day_list_def)

text \<open>The list a press starts from is the days the window opens on.\<close>

lemma pressed_days:
  assumes "day_list w = Some ds"
  shows "(if window_days w \<noteq> [] then window_days w else all_days) = map jnat ds"
proof -
  let ?raw = "jget w ''days''"
  have all: "map jnat ww_all_days = all_days"
    by (simp add: all_days_def ww_all_days_def upt_rec)
  consider "js_nullish ?raw" | xs where "?raw = JArr xs"
    using assms by (cases ?raw) (auto simp: day_list_def ww_days_def)
  then show ?thesis
  proof cases
    case 1
    then have "window_days w = []" by (cases ?raw) (auto simp: window_days_def)
    moreover have "ds = ww_all_days" using 1 assms by (simp add: day_list_def ww_days_def)
    ultimately show ?thesis using all by simp
  next
    case 2
    then have wd: "window_days w = xs" by (simp add: window_days_def)
    show ?thesis
    proof (cases "xs = []")
      case True
      then show ?thesis using 2 assms all wd by (simp add: day_list_def ww_days_def)
    next
      case False
      with 2 assms have d: "ds = map (\<lambda>d. the (ww_day_of d)) xs" "\<forall>x \<in> set xs. ww_day_of x \<noteq> None"
        by (auto simp: day_list_def ww_days_def list_ex_iff split: if_splits)
      then have "map jnat ds = xs" using ww_day_of_Some by (auto simp: map_idI)
      with False wd show ?thesis by simp
    qed
  qed
qed

lemma filter_jnat: "filter (\<lambda>x. x \<noteq> jnat d) (map jnat ds) = map jnat (filter (\<lambda>x. x \<noteq> d) ds)"
  by (induction ds) auto

text \<open>A press on a day of a window puts the day in or takes it out, and nothing else of the week
  moves: the window opens on the days it opened on with that one toggled (no days being every day,
  before and after), at the same times; a window left with no day is taken away, so that it does not
  read as every day; all the other windows are as they were.\<close>

theorem ms_day_press_toggles_the_day:
  assumes i: "i < length ws" and w: "ws ! i = JObj kvs"
    and ds: "day_list (ws ! i) = Some ds" "distinct ds" and d: "d < 7"
  shows "if toggled d (set ds) = {} then press_day i d ws = drop_at i ws
    else \<exists>w ds'. press_day i d ws = ws[i := w] \<and>
      day_list w = Some ds' \<and> distinct ds' \<and> set ds' = toggled d (set ds) \<and>
      jget w ''from'' = jget (ws ! i) ''from'' \<and> jget w ''to'' = jget (ws ! i) ''to''"
proof -
  define dl where "dl = (if d \<in> set ds then filter (\<lambda>x. x \<noteq> d) ds
    else js_sort (\<lambda>a b. num_cmp (jnat a) (jnat b)) (ds @ [d]))"
  have set_dl: "set dl = toggled d (set ds)" and dist: "distinct dl"
    using ds(2) by (auto simp: dl_def toggled_def)
  have "(if jnat d \<in> set (map jnat ds) then filter (\<lambda>x. x \<noteq> jnat d) (map jnat ds)
      else js_sort num_cmp (map jnat ds @ [jnat d])) = map jnat dl"
    using js_sort_map [of num_cmp jnat "ds @ [d]"] by (simp add: dl_def filter_jnat)
  then have press: "press_day i d ws = (if map jnat dl = [] then drop_at i ws
      else ws[i := js_put ''days'' (JArr (if length (map jnat dl) = 7 then [] else map jnat dl)) (ws ! i)])"
    using i unfolding press_day_def Let_def pressed_days [OF ds(1)] by presburger
  show ?thesis
  proof (cases "dl = []")
    case True
    then show ?thesis using press set_dl by simp
  next
    case False
    have lt: "\<forall>x \<in> set dl. x < 7" using set_dl d day_list_lt7 [OF ds(1)] by (auto simp: toggled_def split: if_splits)
    define w' where "w' = js_put ''days'' (JArr (if length dl = 7 then [] else map jnat dl)) (ws ! i)"
    have "\<exists>ds'. day_list w' = Some ds' \<and> distinct ds' \<and> set ds' = set dl"
    proof (cases "length dl = 7")
      case True
      then have "set ww_all_days = set dl" using ww_all_days_seven [OF dist lt] by simp
      then show ?thesis using True
        by (intro exI [of _ ww_all_days]) (simp add: w'_def w day_list_def ww_days_def, simp add: ww_all_days_def)
    next
      case False
      then show ?thesis using ww_days_jnats [OF lt \<open>dl \<noteq> []\<close>] dist
        by (intro exI [of _ dl]) (simp add: w'_def w day_list_def)
    qed
    then obtain ds' where ds': "day_list w' = Some ds'" "distinct ds'" "set ds' = set dl" by blast
    moreover have "press_day i d ws = ws[i := w']"
      using press False by (simp add: w'_def)
    moreover have "jget w' ''from'' = jget (ws ! i) ''from''" "jget w' ''to'' = jget (ws ! i) ''to''"
      by (simp_all add: w'_def)
    ultimately show ?thesis using set_dl False by (metis set_empty)
  qed
qed

lemma ms_day_press_toggles_the_day_witness:
  "press_day 0 6 [JObj [(''days'', JArr [JNum 6]), (''from'', JStr ''09:00''), (''to'', JStr ''18:00'')], new_window] = [new_window] \<and>
   (\<exists>w ds'. press_day 0 6 [new_window] = [w] \<and> day_list w = Some ds' \<and> set ds' = {0, 1, 2, 3, 4, 5})"
proof -
  let ?one = "[JObj [(''days'', JArr [JNum 6]), (''from'', JStr ''09:00''), (''to'', JStr ''18:00'')], new_window]"
  have d1: "day_list (?one ! 0) = Some [6]"
    using ww_days_jnats [of "[6]"] by (simp add: day_list_def)
  have one: "press_day 0 6 ?one = drop_at 0 ?one"
    using ms_day_press_toggles_the_day [OF _ _ d1, of _ 6] by (simp add: toggled_def)
  have d2: "day_list ([new_window] ! 0) = Some ww_all_days"
    by (simp add: day_list_def new_window_def ww_days_def)
  have w: "[new_window] ! 0 = JObj [(''days'', JArr []), (''from'', JStr ''09:00''), (''to'', JStr ''18:00'')]"
    by (simp add: new_window_def)
  have all: "toggled 6 (set ww_all_days) = {0, 1, 2, 3, 4, 5}" by (auto simp: ww_all_days_def toggled_def)
  have len: "0 < length [new_window]" and dist: "distinct ww_all_days" and six: "(6::nat) < 7"
    by (simp_all add: ww_all_days_def)
  have "\<exists>w ds'. press_day 0 6 [new_window] = [new_window][0 := w] \<and> day_list w = Some ds' \<and>
      set ds' = {0, 1, 2, 3, 4, 5}"
    using ms_day_press_toggles_the_day [OF len w d2 dist six] unfolding all by auto
  with one show ?thesis by (simp add: drop_at_def)
qed

section \<open>Saves\<close>

datatype ed_event = Set_board js | Ev_click click_act | Ev_change change_act | Ev_press "(nat \<times> nat) option"
  | Ev_over "(nat \<times> nat) option" | Ev_release

fun ed_act :: "ed_event \<Rightarrow> editor \<Rightarrow> editor \<times> ed_out list" where
  "ed_act (Set_board board) s = (ed_set board s, [])"
| "ed_act (Ev_click c) s = ed_click c s"
| "ed_act (Ev_change c) s = ed_change c s"
| "ed_act (Ev_press cell) s = ed_press cell s"
| "ed_act (Ev_over cell) s = ed_over cell s"
| "ed_act Ev_release s = ed_release s"

fun calls_of :: "ed_out list \<Rightarrow> nat list" where
  "calls_of [] = []"
| "calls_of (Ed_call fid key on ws # outs) = fid # calls_of outs"
| "calls_of (_ # outs) = calls_of outs"

text \<open>A run of the editor with the saves on their way, each by the form it was sent for, and all that
  was put out so far.\<close>

inductive ed_runs :: "editor \<Rightarrow> nat list \<Rightarrow> ed_out list \<Rightarrow> bool" where
  start: "ed_runs ed_new [] []"
| act: "ed_runs s p outs \<Longrightarrow> ed_act e s = (s', o') \<Longrightarrow> ed_runs s' (p @ calls_of o') (outs @ o')"
| answer: "ed_runs s p outs \<Longrightarrow> fid \<in> set p \<Longrightarrow> ed_answer fid title res s = (s', o') \<Longrightarrow>
    ed_runs s' (remove1 fid p) (outs @ o')"

definition call_ready :: "ed_out \<Rightarrow> bool" where
  "call_ready x = (case x of Ed_call fid key on ws \<Rightarrow> on \<longrightarrow> ws \<noteq> [] | _ \<Rightarrow> True)"

text \<open>The form shown is the newest, and it is busy exactly while its save is on its way.\<close>

definition ed_inv :: "editor \<Rightarrow> nat list \<Rightarrow> bool" where
  "ed_inv s p = (distinct p \<and> (\<forall>i \<in> set p. i < ed_next s) \<and>
     (\<forall>f. ed_form s = Some f \<longrightarrow> sf_id f < ed_next s \<and> (sf_busy f \<longleftrightarrow> sf_id f \<in> set p)))"

lemma ed_inv_same:
  "ed_inv s p \<Longrightarrow> ed_next s' = ed_next s \<Longrightarrow> (\<And>f'. ed_form s' = Some f' \<Longrightarrow>
     \<exists>f. ed_form s = Some f \<and> sf_id f' = sf_id f \<and> sf_busy f' = sf_busy f) \<Longrightarrow> ed_inv s' p"
  unfolding ed_inv_def by metis

lemma ed_inv_open: "ed_inv s p \<Longrightarrow> ed_inv (fst (ed_open key title s)) p"
  by (auto simp: ed_inv_def ed_open_def Let_def)

lemma ed_inv_save:
  assumes "ed_inv s p" "ed_save s = (s', o')"
  shows "ed_inv s' (p @ calls_of o') \<and> list_all call_ready o'"
proof (cases "ed_form s")
  case None
  with assms show ?thesis by (simp add: ed_save_def)
next
  case (Some f)
  show ?thesis
  proof (cases "sf_busy f \<or> (sf_enabled f \<and> sf_windows f = [])")
    case True
    with assms Some show ?thesis by (simp add: ed_save_def)
  next
    case False
    with assms Some have s': "s' = s\<lparr>ed_form := Some (f\<lparr>sf_busy := True\<rparr>)\<rparr>"
      "o' = [Ed_redraw, Ed_call (sf_id f) (sf_key f) (sf_enabled f) (sf_windows f)]"
      by (auto simp: ed_save_def)
    have "list_all call_ready o'" using False s'(2) by (simp add: call_ready_def)
    moreover have "ed_inv s' (p @ calls_of o')" using assms(1) Some False unfolding s' by (simp add: ed_inv_def)
    ultimately show ?thesis by simp
  qed
qed

lemma ed_inv_click:
  assumes "ed_inv s p" "ed_click c s = (s', o')"
  shows "ed_inv s' (p @ calls_of o') \<and> list_all call_ready o'"
proof (cases "c = Ck_save \<and> ed_form s \<noteq> None")
  case True
  then have "ed_save s = (s', o')" using assms(2) by auto
  then show ?thesis using ed_inv_save [OF assms(1)] by blast
next
  case other: False
  show ?thesis
  proof (cases "\<exists>key title. c = Ck_open key title")
    case True
    then obtain key title where c: "c = Ck_open key title" by blast
    then have "s' = fst (ed_open key title s)" "o' = [Ed_redraw]"
      using assms(2) by (auto simp: ed_open_def Let_def)
    then show ?thesis using ed_inv_open [OF assms(1)] by (simp add: call_ready_def)
  next
    case False
    have "calls_of o' = [] \<and> list_all call_ready o' \<and> ed_next s' = ed_next s \<and>
      (\<forall>f'. ed_form s' = Some f' \<longrightarrow> (\<exists>f. ed_form s = Some f \<and> sf_id f' = sf_id f \<and> sf_busy f' = sf_busy f))"
      using assms(2) other False
      by (cases c; cases "ed_form s") (auto simp: ed_close_def with_windows_def call_ready_def split: if_splits)
    then show ?thesis using ed_inv_same [OF assms(1)] by simp
  qed
qed

lemma ed_inv_act:
  assumes "ed_inv s p" "ed_act e s = (s', o')"
  shows "ed_inv s' (p @ calls_of o') \<and> list_all call_ready o'"
proof (cases "\<exists>c. e = Ev_click c")
  case True
  then show ?thesis using ed_inv_click [OF assms(1)] assms(2) by auto
next
  case False
  have "calls_of o' = [] \<and> list_all call_ready o' \<and> ed_next s' = ed_next s \<and>
      (\<forall>f'. ed_form s' = Some f' \<longrightarrow> (\<exists>f. ed_form s = Some f \<and> sf_id f' = sf_id f \<and> sf_busy f' = sf_busy f))"
    using assms(2) False
    by (cases e) (auto simp: ed_set_def ed_change_def ed_press_def ed_over_def ed_release_def ed_paint_def
        with_windows_def call_ready_def Let_def split: option.splits prod.splits change_act.splits)
  then show ?thesis using ed_inv_same [OF assms(1)] by simp
qed

lemma ed_inv_answer:
  assumes "ed_inv s p" "ed_answer fid title res s = (s', o')"
  shows "ed_inv s' (remove1 fid p) \<and> list_all call_ready o'"
proof (cases res)
  case (Inr ans)
  with assms have "s' = s\<lparr>ed_form := None\<rparr>" "list_all call_ready o'"
    by (auto simp: ed_answer_def call_ready_def)
  with assms(1) show ?thesis by (auto simp: ed_inv_def dest: notin_set_remove1)
next
  case (Inl err)
  let ?g = "\<lambda>f. if sf_id f = fid then f\<lparr>sf_busy := False\<rparr> else f"
  have s': "s' = s\<lparr>ed_form := map_option ?g (ed_form s)\<rparr>" "list_all call_ready o'"
    using assms(2) Inl by (auto simp: ed_answer_def call_ready_def)
  have "sf_id (?g f) < ed_next s \<and> (sf_busy (?g f) \<longleftrightarrow> sf_id (?g f) \<in> set (remove1 fid p))"
    if "ed_form s = Some f" for f
    using assms(1) that by (simp add: ed_inv_def)
  then have form: "\<forall>f. ed_form s' = Some f \<longrightarrow> sf_id f < ed_next s \<and> (sf_busy f \<longleftrightarrow> sf_id f \<in> set (remove1 fid p))"
    unfolding s'(1) by (cases "ed_form s") simp_all
  have next': "ed_next s' = ed_next s" by (simp add: s'(1))
  have "distinct (remove1 fid p)" "\<forall>i \<in> set (remove1 fid p). i < ed_next s"
    using assms(1) by (auto simp: ed_inv_def dest: notin_set_remove1)
  with form show ?thesis unfolding ed_inv_def next' by (simp add: s'(2))
qed

lemma ed_runs_inv: "ed_runs s p outs \<Longrightarrow> ed_inv s p \<and> list_all call_ready outs"
proof (induction rule: ed_runs.induct)
  case start
  then show ?case by (simp add: ed_inv_def ed_new_def)
next
  case (act s p outs e s' o')
  then show ?case using ed_inv_act by auto
next
  case (answer s p outs fid title res s' o')
  then show ?case using ed_inv_answer by auto
qed

text \<open>(C15) Whatever the operator does and whenever the answers come, each window opened has at most one
  save on its way, its Save button is shut exactly while it has, and no schedule is ever sent that is
  switched on with no window in it.\<close>

theorem ms_saves_are_ready_and_one_at_a_time:
  assumes "ed_runs s p outs"
  shows "distinct p \<and> (\<forall>f. ed_form s = Some f \<longrightarrow> sf_busy f = (sf_id f \<in> set p)) \<and>
    (\<forall>fid key on ws. Ed_call fid key on ws \<in> set outs \<longrightarrow> on \<longrightarrow> ws \<noteq> [])"
  using ed_runs_inv [OF assms] by (fastforce simp: ed_inv_def list_all_iff call_ready_def)

lemma ed_run_save:
  assumes "ed_runs s p outs" "ed_form s = Some f" "\<not> sf_busy f" "sf_windows f \<noteq> []"
  shows "ed_runs (s\<lparr>ed_form := Some (f\<lparr>sf_busy := True\<rparr>)\<rparr>) (p @ [sf_id f])
     (outs @ [Ed_redraw, Ed_call (sf_id f) (sf_key f) (sf_enabled f) (sf_windows f)])"
proof -
  have "ed_act (Ev_click Ck_save) s = (s\<lparr>ed_form := Some (f\<lparr>sf_busy := True\<rparr>)\<rparr>,
      [Ed_redraw, Ed_call (sf_id f) (sf_key f) (sf_enabled f) (sf_windows f)])"
    using assms(2-4) by (simp add: ed_save_def)
  from ed_runs.act [OF assms(1) this] show ?thesis by simp
qed

lemma ed_run_add:
  assumes "ed_runs s p outs" "ed_form s = Some f"
  shows "ed_runs (s\<lparr>ed_form := Some (f\<lparr>sf_windows := sf_windows f @ [new_window]\<rparr>)\<rparr>) p (outs @ [Ed_redraw])"
proof -
  have "ed_act (Ev_click Ck_add) s =
      (s\<lparr>ed_form := Some (f\<lparr>sf_windows := sf_windows f @ [new_window]\<rparr>)\<rparr>, [Ed_redraw])"
    using assms(2) by (simp add: with_windows_def)
  from ed_runs.act [OF assms(1) this] show ?thesis by simp
qed

text \<open>A window opened and saved, shut while its save is on its way, and another opened.\<close>

definition form_of :: "nat \<Rightarrow> string \<Rightarrow> sched_form" where
  "form_of n key = \<lparr>sf_id = n, sf_key = key, sf_title = key, sf_cell = False, sf_enabled = True,
     sf_windows = [], sf_busy = False\<rparr>"

lemma ed_open_fresh: "ed_top s = JNull \<Longrightarrow> \<not> prefix ''out:'' key \<Longrightarrow>
    ed_open key [] s = (s\<lparr>ed_form := Some (form_of (ed_next s) key), ed_next := Suc (ed_next s)\<rparr>, [Ed_redraw])"
  by (simp add: ed_open_def ed_entry_def ed_schedules_def Let_def jget_def js_or_def form_of_def)

lemma ed_run_open:
  assumes "ed_runs s p outs" "ed_top s = JNull" "\<not> prefix ''out:'' key"
  shows "ed_runs (s\<lparr>ed_form := Some (form_of (ed_next s) key), ed_next := Suc (ed_next s)\<rparr>) p (outs @ [Ed_redraw])"
  using ed_runs.act [OF assms(1), of "Ev_click (Ck_open key [])"] ed_open_fresh [OF assms(2,3)] by simp

lemma ed_run_close:
  assumes "ed_runs s p outs" "ed_form s = Some f"
  shows "ed_runs (s\<lparr>ed_form := None, ed_painting := None\<rparr>) p (outs @ [Ed_redraw])"
  using ed_runs.act [OF assms(1), of "Ev_click Ck_close"] assms(2) by (simp add: ed_close_def)

lemma ms_two_windows:
  "\<exists>s outs. ed_runs s [0] outs \<and> ed_form s = Some (form_of 1 ''b'')"
proof -
  let ?s1 = "ed_new\<lparr>ed_form := Some (form_of 0 ''a''), ed_next := 1\<rparr>"
  have 1: "ed_runs ?s1 [] [Ed_redraw]"
    using ed_run_open [OF start, of "''a''"] by (simp add: ed_new_def)
  let ?f2 = "(form_of 0 ''a'')\<lparr>sf_windows := [new_window]\<rparr>"
  let ?s2 = "?s1\<lparr>ed_form := Some ?f2\<rparr>"
  have 2: "ed_runs ?s2 [] [Ed_redraw, Ed_redraw]"
    using ed_run_add [OF 1] by (simp add: form_of_def)
  let ?s3 = "?s2\<lparr>ed_form := Some (?f2\<lparr>sf_busy := True\<rparr>)\<rparr>"
  obtain outs3 where 3: "ed_runs ?s3 [0] outs3"
    using ed_run_save [OF 2] by (simp add: form_of_def)
  then have 4: "ed_runs (?s3\<lparr>ed_form := None, ed_painting := None\<rparr>) [0] (outs3 @ [Ed_redraw])"
    by (rule ed_run_close) simp
  show ?thesis
    using ed_run_open [OF 4, of "''b''"] by (intro exI conjI) (assumption | simp add: ed_new_def)+
qed

lemma ms_saves_are_ready_and_one_at_a_time_witness:
  "\<exists>s outs. ed_runs s [0] outs \<and> ed_form s = Some (form_of 1 ''b'') \<and> distinct [0::nat] \<and>
     sf_busy (form_of 1 ''b'') = (sf_id (form_of 1 ''b'') \<in> set [0])"
proof -
  obtain s outs where r: "ed_runs s [0] outs" "ed_form s = Some (form_of 1 ''b'')" using ms_two_windows by blast
  then show ?thesis using ms_saves_are_ready_and_one_at_a_time [OF r(1)] by blast
qed

text \<open>The answer of a save shuts whatever window is open, also one of another model opened while
  the save was on its way: its windows go unsaved, and when the pointer was held on its grid, letting
  go throws. The operator comes there by saving one model's schedule, shutting its window and
  opening another's before the answer.\<close>

theorem ms_late_answer_shuts_another_window:
  "\<exists>s outs f. ed_runs s [0] outs \<and> ed_form s = Some f \<and> sf_id f = 1 \<and> sf_windows f \<noteq> [] \<and>
     ed_form (fst (ed_answer 0 title (Inr ans) s)) = None \<and>
     snd (ed_release (fst (ed_answer 0 title (Inr ans) s))) = [Ed_type_error]"
proof -
  obtain s outs where r: "ed_runs s [0] outs" "ed_form s = Some (form_of 1 ''b'')" using ms_two_windows by blast
  define f where "f = (form_of 1 ''b'')\<lparr>sf_windows := [new_window]\<rparr>"
  define s1 where "s1 = s\<lparr>ed_form := Some f\<rparr>"
  have 1: "ed_runs s1 [0] (outs @ [Ed_redraw])"
    using ed_run_add [OF r] by (simp add: form_of_def s1_def f_def)
  obtain s2 where s2: "ed_act (Ev_press (Some (0, 1))) s1 = (s2, [])" "ed_form s2 = Some f" "ed_painting s2 \<noteq> None"
    by (simp add: ed_press_def ed_paint_def s1_def Let_def)
  have 2: "ed_runs s2 [0] (outs @ [Ed_redraw])"
    using ed_runs.act [OF 1 s2(1)] by simp
  have "sf_id f = 1 \<and> sf_windows f \<noteq> []" by (simp add: f_def form_of_def)
  moreover have "ed_form (fst (ed_answer 0 title (Inr ans) s2)) = None \<and>
      snd (ed_release (fst (ed_answer 0 title (Inr ans) s2))) = [Ed_type_error]"
    using s2(3) by (auto simp: ed_answer_def ed_release_def)
  ultimately show ?thesis using 2 s2(2) by blast
qed

end
