(* ===== verification/CableFlow.thy ===== *)
theory CableFlow
  imports Utils
begin

text \<open>
  The drops that run along a cable carrying a request (\<open>static/js/cable-flow.js\<close>). The board draws its
  cables anew many times a second; the class keeps what it knows of each cable by its key, so that a
  cable that begins to carry brings its drops up and one that stops lets them go down. The clock is the
  argument \<open>now\<close> of each call (a finite number; anything else is replaced by \<open>Date.now()\<close>, which is the
  caller's clock too).
\<close>

definition cf_lap :: rat where
  "cf_lap = 380"

definition cf_rise :: rat where
  "cf_rise = 600"

definition cf_fall :: rat where
  "cf_fall = 900"

definition cf_grace :: rat where
  "cf_grace = 3000"

type_synonym cf_point = "rat \<times> rat"

record cf_entry =
  cf_d :: string
  cf_kin :: string
  cf_from :: "cf_point option"
  cf_to :: "cf_point option"
  cf_since :: rat
  cf_last :: rat
  cf_ended :: "rat option"

text \<open>\<open>seen\<close> in the order its keys were first set, \<open>drawn\<close> as the keys added.\<close>

record cf_state =
  cf_serial :: nat
  cf_seen :: "(string \<times> cf_entry) list"
  cf_drawn :: "string list"

definition cf_reset :: cf_state where
  "cf_reset = \<lparr>cf_serial = 0, cf_seen = [], cf_drawn = []\<rparr>"

definition cf_round :: "cf_state \<Rightarrow> cf_state" where
  "cf_round s = s\<lparr>cf_drawn := []\<rparr>"

definition cf_lap_at :: "rat \<Rightarrow> int" where
  "cf_lap_at clock = js_round (js_rem clock cf_lap)"

section \<open>The twin's markup\<close>

definition cf_stop :: "string \<Rightarrow> string \<Rightarrow> string" where
  "cf_stop offset opacity =
     ''<stop class=\"cable-flow-stop\" offset=\"'' @ offset @ ''\" stop-opacity=\"'' @ opacity @ ''\"></stop>''"

definition cf_gradient :: "nat \<Rightarrow> cf_point \<Rightarrow> cf_point \<Rightarrow> string" where
  "cf_gradient n from to =
     ''<defs><linearGradient id=\"cf'' @ nat_str n @ ''\" gradientUnits=\"userSpaceOnUse\" x1=\"'' @ rat_str (fst from)
       @ ''\" y1=\"'' @ rat_str (snd from) @ ''\" x2=\"'' @ rat_str (fst to) @ ''\" y2=\"'' @ rat_str (snd to) @ ''\">''
       @ cf_stop ''0'' ''0'' @ cf_stop ''0.16'' ''1'' @ cf_stop ''0.84'' ''1'' @ cf_stop ''1'' ''0''
       @ ''</linearGradient></defs>''"

datatype cf_fade = Steady | Rising int | Falling int

definition cf_style :: "nat option \<Rightarrow> cf_fade \<Rightarrow> int \<Rightarrow> string" where
  "cf_style paint fade phase =
     (case paint of Some n \<Rightarrow> ''stroke:url(#cf'' @ nat_str n @ '') var(--accent-strong, var(--accent));'' | None \<Rightarrow> [])
     @ ''animation-duration:380ms''
     @ (case fade of Steady \<Rightarrow> [] | Falling n \<Rightarrow> '',900ms'' | Rising n \<Rightarrow> '',600ms'') @ '';''
     @ ''animation-delay:-'' @ int_str phase @ ''ms''
     @ (case fade of Steady \<Rightarrow> [] | Falling n \<Rightarrow> '',-'' @ int_str n @ ''ms'' | Rising n \<Rightarrow> '',-'' @ int_str n @ ''ms'') @ '';''"

definition cf_classes :: "string \<Rightarrow> string \<Rightarrow> cf_fade \<Rightarrow> string" where
  "cf_classes kin way fade =
     js_join '' '' (filter (\<lambda>w. w \<noteq> [])
       ([''cable-flow'', way, case fade of Steady \<Rightarrow> [] | Rising n \<Rightarrow> ''rising'' | Falling n \<Rightarrow> ''fading''] @ split_by is_ws kin))"

definition cf_path :: "string \<Rightarrow> string \<Rightarrow> string \<Rightarrow> string" where
  "cf_path classes d style = ''<path class=\"'' @ classes @ ''\" d=\"'' @ d @ ''\" style=\"'' @ style @ ''\"></path>''"

definition cf_pair :: "string \<Rightarrow> string \<Rightarrow> rat \<Rightarrow> cf_point option \<Rightarrow> cf_point option \<Rightarrow> cf_fade \<Rightarrow> nat \<Rightarrow> nat \<times> string" where
  "cf_pair d kin now from to fade serial =
     (let lap = cf_lap_at now;
          back = \<lfloor>js_rem (of_int lap + cf_lap / 2) cf_lap\<rfloor>;
          both = (from \<noteq> None \<and> to \<noteq> None);
          serial = (if both then serial + 1 else serial);
          paint = (if both then Some serial else None)
      in (serial,
          (case (from, to) of (Some a, Some b) \<Rightarrow> cf_gradient serial a b | _ \<Rightarrow> [])
          @ cf_path (cf_classes kin ''fwd'' fade) d (cf_style paint fade lap)
          @ cf_path (cf_classes kin ''back'' fade) d (cf_style paint fade back)))"

section \<open>A cable that carries now\<close>

text \<open>The entry a drawing of the cable leaves: begun anew, gone on, or come up again from where its
  drops had got to in going down.\<close>

definition cf_resume :: "rat \<Rightarrow> cf_entry \<Rightarrow> cf_entry" where
  "cf_resume clock e =
     (case cf_ended e of None \<Rightarrow> e
      | Some t \<Rightarrow> let gone = min 1 ((clock - t) / cf_fall)
                 in e\<lparr>cf_since := clock - of_int (js_round (cf_rise * (1 - gone))), cf_ended := None\<rparr>)"

definition cf_entry_at :: "string \<Rightarrow> string \<Rightarrow> cf_point option \<Rightarrow> cf_point option \<Rightarrow> rat \<Rightarrow> cf_entry option \<Rightarrow> cf_entry" where
  "cf_entry_at d kin from to clock old =
     (let new = \<lparr>cf_d = d, cf_kin = kin, cf_from = from, cf_to = to, cf_since = clock, cf_last = clock, cf_ended = None\<rparr>
      in case old of None \<Rightarrow> new
         | Some e \<Rightarrow> if clock - cf_last e > cf_grace then new
                    else (cf_resume clock e)\<lparr>cf_d := d, cf_kin := kin, cf_from := from, cf_to := to, cf_last := clock\<rparr>)"

fun cf_set :: "string \<Rightarrow> cf_entry \<Rightarrow> (string \<times> cf_entry) list \<Rightarrow> (string \<times> cf_entry) list" where
  "cf_set k e [] = [(k, e)]"
| "cf_set k e ((k', e') # es) = (if k' = k then (k, e) # es else (k', e') # cf_set k e es)"

definition cf_rising :: "rat \<Rightarrow> cf_fade" where
  "cf_rising age = (if age < cf_rise then Rising (max 0 (js_round age)) else Steady)"

definition cf_twin :: "string \<Rightarrow> string \<Rightarrow> rat \<Rightarrow> string \<Rightarrow> cf_point option \<Rightarrow> cf_point option \<Rightarrow> cf_state \<Rightarrow> cf_state \<times> string" where
  "cf_twin d kin clock key from to s =
     (if key = [] then let (n, html) = cf_pair d kin clock from to Steady (cf_serial s) in (s\<lparr>cf_serial := n\<rparr>, html)
      else let e = cf_entry_at d kin from to clock (map_of (cf_seen s) key);
               (n, html) = cf_pair d kin clock from to (cf_rising (clock - cf_since e)) (cf_serial s)
           in (s\<lparr>cf_serial := n, cf_seen := cf_set key e (cf_seen s), cf_drawn := key # cf_drawn s\<rparr>, html))"

section \<open>The cables that stopped\<close>

text \<open>One entry of the map in \<open>ghosts\<close>: what is left of it, the serial after it, what is drawn.\<close>

definition cf_ghost :: "rat \<Rightarrow> string list \<Rightarrow> nat \<Rightarrow> string \<times> cf_entry \<Rightarrow> cf_entry option \<times> nat \<times> string" where
  "cf_ghost clock drawn n ke =
     (case ke of (key, e) \<Rightarrow>
       if key \<in> set drawn then (Some e, n, [])
       else if clock - cf_last e > cf_grace then (None, n, [])
       else let e = e\<lparr>cf_ended := Some (case cf_ended e of None \<Rightarrow> clock | Some t \<Rightarrow> t)\<rparr>;
                gone = clock - (case cf_ended e of None \<Rightarrow> clock | Some t \<Rightarrow> t)
            in if gone \<ge> cf_fall then (None, n, [])
               else let (n', html) = cf_pair (cf_d e) (cf_kin e) clock (cf_from e) (cf_to e)
                                       (Falling (max 0 (js_round gone))) n
                    in (Some e, n', html))"

fun cf_ghosts_go :: "rat \<Rightarrow> string list \<Rightarrow> nat \<Rightarrow> (string \<times> cf_entry) list \<Rightarrow> (string \<times> cf_entry) list \<times> nat \<times> string" where
  "cf_ghosts_go clock drawn n [] = ([], n, [])"
| "cf_ghosts_go clock drawn n (ke # es) =
     (case cf_ghost clock drawn n ke of (left, n', html) \<Rightarrow>
       case cf_ghosts_go clock drawn n' es of (kept, n'', rest) \<Rightarrow>
         ((case left of None \<Rightarrow> kept | Some e \<Rightarrow> (fst ke, e) # kept), n'', html @ rest))"

definition cf_ghosts :: "rat \<Rightarrow> cf_state \<Rightarrow> cf_state \<times> string" where
  "cf_ghosts clock s =
     (case cf_ghosts_go clock (cf_drawn s) (cf_serial s) (cf_seen s) of
        (kept, n, html) \<Rightarrow> (s\<lparr>cf_seen := kept, cf_serial := n\<rparr>, html))"

section \<open>What is kept of a cable\<close>

text \<open>What \<open>ghosts\<close> keeps of one entry, whatever it draws.\<close>

definition cf_keep :: "rat \<Rightarrow> string list \<Rightarrow> string \<times> cf_entry \<Rightarrow> cf_entry option" where
  "cf_keep clock drawn ke = fst (cf_ghost clock drawn 0 ke)"

lemma cf_ghost_keep: "fst (cf_ghost clock drawn n ke) = cf_keep clock drawn ke"
  by (auto simp: cf_keep_def cf_ghost_def Let_def split: prod.splits)

lemma cf_keep_drawn: "k \<in> set drawn \<Longrightarrow> cf_keep clock drawn (k, e) = Some e"
  by (simp add: cf_keep_def cf_ghost_def)

lemma cf_keep_stopped: "k \<notin> set drawn \<Longrightarrow> cf_keep clock drawn (k, e) =
  (if clock - cf_last e > cf_grace then None
   else let t = (case cf_ended e of None \<Rightarrow> clock | Some t \<Rightarrow> t)
        in if clock - t \<ge> cf_fall then None else Some (e\<lparr>cf_ended := Some t\<rparr>))"
  by (auto simp: cf_keep_def cf_ghost_def Let_def split: prod.splits option.splits)

lemma cf_ghosts_go_kept: "(k, e') \<in> set (fst (cf_ghosts_go clock drawn n es)) \<Longrightarrow>
  \<exists>e. (k, e) \<in> set es \<and> cf_keep clock drawn (k, e) = Some e'"
proof (induction es arbitrary: n)
  case Nil
  then show ?case by simp
next
  case (Cons ke es)
  obtain left n' html where g: "cf_ghost clock drawn n ke = (left, n', html)" by (metis prod_cases3)
  then have left: "left = cf_keep clock drawn ke" using cf_ghost_keep [of clock drawn n ke] by simp
  obtain kept n'' rest where go: "cf_ghosts_go clock drawn n' es = (kept, n'', rest)" by (metis prod_cases3)
  have "(k, e') \<in> set kept \<or> (left = Some e' \<and> k = fst ke)"
    using Cons.prems by (auto simp: g go split: option.splits)
  then show ?case
  proof
    assume "(k, e') \<in> set kept"
    then show ?thesis using Cons.IH [of n'] go by auto
  next
    assume "left = Some e' \<and> k = fst ke"
    then show ?thesis using left by (cases ke) auto
  qed
qed

lemma cf_ghosts_seen: "(k, e') \<in> set (cf_seen (fst (cf_ghosts clock s))) \<Longrightarrow>
  \<exists>e. (k, e) \<in> set (cf_seen s) \<and> cf_keep clock (cf_drawn s) (k, e) = Some e'"
  using cf_ghosts_go_kept [of k e' clock "cf_drawn s" "cf_serial s" "cf_seen s"]
  by (auto simp: cf_ghosts_def split: prod.splits)

lemma cf_ghosts_drawn [simp]: "cf_drawn (fst (cf_ghosts clock s)) = cf_drawn s"
  by (simp add: cf_ghosts_def split: prod.splits)

lemma map_of_cf_set: "map_of (cf_set k e es) = (map_of es)(k \<mapsto> e)"
  by (induction es) (auto simp: fun_upd_twist)

lemma cf_scale: "\<bar>r - 600 * q\<bar> \<le> 1 / 2 \<Longrightarrow> \<bar>r / 600 - q\<bar> \<le> (1 / 1200 :: rat)"
  by linarith

section \<open>Properties\<close>

text \<open>The drops of a cable that stopped are gone in time: once a drawing has missed a cable, every
  later drawing that misses it keeps it for less than 900 ms from that first one, and a drawing at
  900 ms or more after it has forgotten the cable, so nothing fades for ever.\<close>

theorem cf_stopped_cable_is_forgotten:
  assumes "key \<notin> set (cf_drawn s)"
    and "\<forall>(k, e) \<in> set (cf_seen s). \<forall>t. cf_ended e = Some t \<longrightarrow> t \<le> t1"
    and "t1 + 900 \<le> t2"
  shows "(\<forall>(k, e) \<in> set (cf_seen (fst (cf_ghosts t1 s))). k = key \<longrightarrow>
           (\<exists>t. cf_ended e = Some t \<and> t \<le> t1 \<and> t1 - t < 900 \<and> t1 - cf_last e \<le> 3000)) \<and>
         key \<notin> fst ` set (cf_seen (fst (cf_ghosts t2 (cf_round (fst (cf_ghosts t1 s))))))"
proof -
  have one: "\<exists>t. cf_ended e' = Some t \<and> t \<le> t1 \<and> t1 - t < 900 \<and> t1 - cf_last e' \<le> 3000"
    if "(key, e') \<in> set (cf_seen (fst (cf_ghosts t1 s)))" for e'
    using cf_ghosts_seen [OF that] assms(1,2)
    by (fastforce simp: cf_keep_stopped Let_def cf_grace_def cf_fall_def split: if_splits option.splits)
  have "key \<notin> fst ` set (cf_seen (fst (cf_ghosts t2 (cf_round (fst (cf_ghosts t1 s))))))"
  proof
    assume "key \<in> fst ` set (cf_seen (fst (cf_ghosts t2 (cf_round (fst (cf_ghosts t1 s))))))"
    then obtain e'' where "(key, e'') \<in> set (cf_seen (fst (cf_ghosts t2 (cf_round (fst (cf_ghosts t1 s))))))" by auto
    from cf_ghosts_seen [OF this] obtain e' where e':
      "(key, e') \<in> set (cf_seen (fst (cf_ghosts t1 s)))" "cf_keep t2 [] (key, e') \<noteq> None"
      by (auto simp: cf_round_def)
    from one [OF e'(1)] obtain t where "cf_ended e' = Some t" "t \<le> t1" by blast
    then show False using e'(2) assms(3) by (simp add: cf_keep_stopped cf_fall_def Let_def split: if_splits)
  qed
  then show ?thesis using one by auto
qed

definition cf_demo :: cf_state where
  "cf_demo = fst (cf_twin ''M0,0'' [] 1000 ''a'' None None cf_reset)"

theorem cf_stopped_cable_is_forgotten_witness:
  "''a'' \<in> fst ` set (cf_seen cf_demo) \<and>
   ''a'' \<notin> fst ` set (cf_seen (fst (cf_ghosts 2000 (cf_round (fst (cf_ghosts 1100 (cf_round cf_demo)))))))"
proof -
  have seen: "cf_seen (cf_round cf_demo) = [(''a'', \<lparr>cf_d = ''M0,0'', cf_kin = [], cf_from = None, cf_to = None,
      cf_since = 1000, cf_last = 1000, cf_ended = None\<rparr>)]"
    by (simp add: cf_demo_def cf_twin_def cf_reset_def cf_entry_at_def cf_round_def Let_def split: prod.splits)
  then have "''a'' \<in> fst ` set (cf_seen cf_demo)" by (simp add: cf_round_def)
  moreover have "''a'' \<notin> set (cf_drawn (cf_round cf_demo))" by (simp add: cf_round_def)
  ultimately show ?thesis
    using cf_stopped_cable_is_forgotten [of "''a''" "cf_round cf_demo" 1100 2000] seen by simp
qed

text \<open>The drops neither jump nor start over: a cable that carries again before its drops were gone
  comes up from the very share they had left, to within half a millisecond of the rise's 600.\<close>

theorem cf_comes_up_from_where_it_was:
  assumes "key \<noteq> []" and "map_of (cf_seen s) key = Some e" and "cf_ended e = Some t"
    and "t \<le> clock" "clock - t < 900" "clock - cf_last e \<le> 3000"
    and "cf_twin d kin clock key from to s = (s', html)"
  shows "\<exists>e'. map_of (cf_seen s') key = Some e' \<and> cf_ended e' = None \<and> cf_last e' = clock \<and>
    \<bar>(clock - cf_since e') / 600 - (1 - (clock - t) / 900)\<bar> \<le> 1 / 1200"
proof -
  let ?r = "of_int (js_round (600 * (1 - (clock - t) / 900))) :: rat"
  let ?e = "e\<lparr>cf_since := clock - ?r, cf_ended := None, cf_d := d, cf_kin := kin, cf_from := from, cf_to := to, cf_last := clock\<rparr>"
  have "map_of (cf_seen s') key = Some ?e"
    using assms by (auto simp: cf_twin_def cf_entry_at_def cf_resume_def cf_grace_def cf_fall_def cf_rise_def
        Let_def map_of_cf_set min_def split: prod.splits)
  moreover have "\<bar>?r - 600 * (1 - (clock - t) / 900)\<bar> \<le> 1 / 2"
    by (rule js_round_near)
  then have "\<bar>?r / 600 - (1 - (clock - t) / 900)\<bar> \<le> 1 / 1200" by (rule cf_scale)
  ultimately show ?thesis by (intro exI [where x = ?e]) simp
qed

theorem cf_comes_up_from_where_it_was_witness:
  "map_of (cf_seen (fst (cf_twin ''M0,0'' [] 1250 ''a'' None None (fst (cf_ghosts 1100 (cf_round cf_demo)))))) ''a'' \<noteq> None"
proof -
  let ?s = "fst (cf_ghosts 1100 (cf_round cf_demo))"
  let ?e = "\<lparr>cf_d = ''M0,0'', cf_kin = [], cf_from = None, cf_to = None,
      cf_since = 1000, cf_last = 1000, cf_ended = Some 1100\<rparr>"
  have "map_of (cf_seen ?s) ''a'' = Some ?e"
    by (simp add: cf_demo_def cf_twin_def cf_reset_def cf_entry_at_def cf_round_def cf_ghosts_def cf_ghost_def
        cf_grace_def cf_fall_def Let_def split: prod.splits)
  moreover obtain s' html where r: "cf_twin ''M0,0'' [] 1250 ''a'' None None ?s = (s', html)" by fastforce
  ultimately show ?thesis using cf_comes_up_from_where_it_was [OF _ _ _ _ _ _ r, of ?e 1100] by auto
qed

end
