(* ===== verification/Cables.thy ===== *)
theory Cables
  imports CableFlow "HOL-Library.Word"
begin

text \<open>
  The cables of the main board (\<open>cables.js\<close>): their curve, their classes and colours, where Routing's pools
  lead (\<open>PoolReach\<close> in \<open>provider-glances.js\<close>), how lively a request's way is (the readings of
  \<open>topology-activity.js\<close> and \<open>topology-proxies.js\<close> the cables use), and one drawing of them all: which are
  drawn, which are not and why, and whose ends are marked. The places of the cards in the window are given,
  and so is the reading of one proxy's activity, which is the cards'.
\<close>

section \<open>Points and curves\<close>

record rect =
  re_left :: rat
  re_top :: rat
  re_width :: rat
  re_height :: rat

definition point_for :: "rect option \<Rightarrow> rect option \<Rightarrow> string \<Rightarrow> cf_point option" where
  "point_for board el side = (case (board, el) of
       (Some b, Some r) \<Rightarrow>
         (let x = (if side = ''left'' then re_left r
                   else if side = ''right'' then re_left r + re_width r else re_left r + re_width r / 2)
          in Some (x - re_left b, re_top r + re_height r / 2 - re_top b))
     | _ \<Rightarrow> None)"

definition cable_path :: "cf_point \<Rightarrow> cf_point \<Rightarrow> string" where
  "cable_path from to =
     (let dx = max 48 (\<bar>fst to - fst from\<bar> * 48 / 100); p = (\<lambda>x y. rat_str x @ '' '' @ rat_str y)
      in ''M '' @ p (fst from) (snd from) @ '' C '' @ p (fst from + dx) (snd from) @ '', ''
         @ p (fst to - dx) (snd to) @ '', '' @ p (fst to) (snd to))"

definition cable_kin :: "string \<Rightarrow> bool" where
  "cable_kin c = (prefix ''proxy-'' c \<or> prefix ''route-'' c)"

definition svg_path ::
  "rat \<Rightarrow> cf_point option \<Rightarrow> cf_point option \<Rightarrow> string \<Rightarrow> string \<Rightarrow> string \<Rightarrow> cf_state \<Rightarrow> cf_state \<times> string" where
  "svg_path now from to cls title key s = (case (from, to) of
       (Some a, Some b) \<Rightarrow>
         (let d = cable_path a b;
              cable = ''<path class=\"'' @ cls @ ''\" d=\"'' @ d @ ''\">''
                @ (if title \<noteq> [] then ''<title>'' @ escape_html title @ ''</title>'' else []) @ ''</path>'';
              classes = split_by is_ws cls
          in if ''activity-active'' \<in> set classes
             then (case cf_twin d (js_join '' '' (filter cable_kin classes)) now
                     (if key \<noteq> [] then ''main:'' @ key else []) (Some a) (Some b) s of
                     (s', twin) \<Rightarrow> (s', cable @ twin))
             else (s, cable))
     | _ \<Rightarrow> (s, []))"

section \<open>Names and colours\<close>

definition css_char :: "char \<Rightarrow> char" where
  "css_char c = (let n = (of_char c :: nat) in
     if is_digit c \<or> (65 \<le> n \<and> n \<le> 90) \<or> (97 \<le> n \<and> n \<le> 122) \<or> c = CHR ''_'' \<or> c = CHR ''-'' then c else CHR ''-'')"

definition css_name :: "js \<Rightarrow> string" where
  "css_name v = map css_char (js_text v)"

definition proxy_class :: "js \<Rightarrow> string" where
  "proxy_class i = ''proxy-'' @ css_name i"

definition route_class :: "js \<Rightarrow> js \<Rightarrow> js \<Rightarrow> string" where
  "route_class host agent role = ''route-'' @ js_join ''-'' [css_name host, css_name agent, css_name role]"

definition accent_hues :: "nat list" where
  "accent_hues = [174, 202, 268, 326, 36, 142, 218, 288, 18, 96, 234, 4]"

text \<open>\<open>hash = ((hash << 5) - hash + code) | 0\<close>, at 32 bits.\<close>

definition accent_hash :: "string \<Rightarrow> 32 word" where
  "accent_hash txt = foldl (\<lambda>h c. push_bit 5 h - h + of_char c) 0 txt"

definition accent_hue :: "js \<Rightarrow> nat" where
  "accent_hue key =
     accent_hues ! nat (\<bar>sint (accent_hash (js_string (js_or key (JStr ''item''))))\<bar> mod int (length accent_hues))"

definition accent_style :: "js \<Rightarrow> string" where
  "accent_style key =
     (let h = nat_str (accent_hue key) in
      ''--topology-accent: hsl('' @ h @ '' 70% 62%); --topology-accent-soft: hsl('' @ h @ '' 70% 62% / 0.13);'')"

definition accent_color :: "js \<Rightarrow> rat \<Rightarrow> string" where
  "accent_color key alpha = ''hsl('' @ nat_str (accent_hue key) @ '' 70% 62% / '' @ rat_str alpha @ '')''"

section \<open>How lively a way is\<close>

record activity =
  ac_state :: string
  ac_health :: string

definition activity_class :: "activity \<Rightarrow> string" where
  "activity_class a =
     (if ac_state a \<in> {''active'', ''error'', ''recent''} then ''activity-'' @ ac_state a else [])"

definition health_class :: "activity \<Rightarrow> string" where
  "health_class a =
     (if ac_health a \<in> {''failed'', ''degraded'', ''fallback'', ''ok''} then ''health-'' @ ac_health a else [])"

definition state_health_classes :: "activity \<Rightarrow> string" where
  "state_health_classes a = js_join '' '' (filter (\<lambda>w. w \<noteq> []) [activity_class a, health_class a])"

text \<open>The monitor's rows, and whether a request that matches is served now, or was in the last 8 s.\<close>

definition item_port :: "js \<Rightarrow> js \<Rightarrow> jnum" where
  "item_port it row = js_number (js_nn (jget it ''port'') (jget row ''port''))"

definition row_items :: "string \<Rightarrow> js \<Rightarrow> js list" where
  "row_items k row = js_list (js_or (jget row k) (JArr []))"

definition items_activity :: "rat \<Rightarrow> js list \<Rightarrow> (js \<Rightarrow> jnum \<Rightarrow> bool) \<Rightarrow> activity" where
  "items_activity now rows match =
     (let active = list_ex (\<lambda>row. list_ex (\<lambda>it. jget it ''phase'' \<noteq> JStr ''queued'' \<and> match it (item_port it row))
            (row_items ''active'' row)) rows;
          recent = list_ex (\<lambda>row. list_ex (\<lambda>it. num_of (js_or (jget it ''finishedAt'') (JNum 0)) * 1000 > now - 8000
              \<and> match it (item_port it row)) (row_items ''recent'' row)) rows
      in \<lparr>ac_state = (if active then ''active'' else if recent then ''recent'' else ''idle''), ac_health = []\<rparr>)"

definition proxy_rows :: "js \<Rightarrow> js list" where
  "proxy_rows bd = js_list (js_or (jget bd ''proxies'') (JArr []))"

definition proxy_by_id :: "js \<Rightarrow> js \<Rightarrow> js" where
  "proxy_by_id bd i = (case find (\<lambda>p. jget p ''id'' = i) (proxy_rows bd) of Some p \<Rightarrow> p | None \<Rightarrow> JUndef)"

definition route_usage :: "js \<Rightarrow> js \<Rightarrow> string" where
  "route_usage bd route =
     (let p = (if js_truthy (jget route ''proxyId'') then proxy_by_id bd (jget route ''proxyId'') else JNull)
      in if jnum_pos (js_number (js_or (jget p ''lastRequestAt'') (JNum 0))) then ''confirmed'' else ''unverified'')"

definition is_entry_client :: "js \<Rightarrow> bool" where
  "is_entry_client p = (js_text (jget p ''kind'') = ''consumer'')"

definition assignments_for :: "js \<Rightarrow> js \<Rightarrow> js list" where
  "assignments_for bd host = js_list (jget (jget (jget bd ''assignments'') (js_string host)) ''assignments'')"

section \<open>Where Routing's pools lead\<close>

datatype lead = To_account js | To_machine string js

definition pool_rows :: "js \<Rightarrow> js list" where
  "pool_rows bd = concat (map (\<lambda>p. js_list (js_or (jget p ''steps'') (JArr []))) (js_list (js_or (jget bd ''pools'') (JArr []))))"

definition router_outputs :: "js \<Rightarrow> js list" where
  "router_outputs bd = filter (\<lambda>out. js_truthy (jget out ''id''))
     (concat (map (\<lambda>r. js_list (js_or (jget r ''outputs'') (JArr []))) (js_list (js_or (jget bd ''routers'') (JArr [])))))"

text \<open>A row that is on leads to its account, or to the machine its output answers at.\<close>

definition pool_row_lead :: "(js \<Rightarrow> string) \<Rightarrow> js \<Rightarrow> js \<Rightarrow> lead option" where
  "pool_row_lead machine_of bd row =
     (if \<not> js_truthy row \<or> jget row ''enabled'' = JBool False then None
      else if jget row ''kind'' = JStr ''account'' \<and> js_truthy (jget row ''accountId'') then Some (To_account (jget row ''accountId''))
      else if jget row ''kind'' = JStr ''output'' \<and> js_truthy (jget row ''output'') then
        (case find (\<lambda>out. jget out ''id'' = jget row ''output'') (router_outputs bd) of
           None \<Rightarrow> None
         | Some out \<Rightarrow>
             if js_string (js_or (jget out ''upstreamType'') (JStr ''llama'')) = ''cloud'' then None
             else Some (To_machine (machine_of (js_or (jget out ''upstreamHost'') (JStr ''127.0.0.1''))) (jget row ''output'')))
      else None)"

record reach =
  rc_accounts :: "js list"
  rc_machines :: "(string \<times> js list) list"

fun machine_add :: "string \<Rightarrow> js \<Rightarrow> (string \<times> js list) list \<Rightarrow> (string \<times> js list) list" where
  "machine_add k out [] = [(k, [out])]"
| "machine_add k out ((k', outs) # ms) = (if k' = k then (k, set_add out outs) # ms else (k', outs) # machine_add k out ms)"

definition reach_add :: "reach \<Rightarrow> lead \<Rightarrow> reach" where
  "reach_add r l = (case l of
       To_account a \<Rightarrow> r\<lparr>rc_accounts := set_add a (rc_accounts r)\<rparr>
     | To_machine k out \<Rightarrow> r\<lparr>rc_machines := machine_add k out (rc_machines r)\<rparr>)"

definition pool_leads :: "(js \<Rightarrow> string) \<Rightarrow> js \<Rightarrow> lead list" where
  "pool_leads machine_of bd = List.map_filter (pool_row_lead machine_of bd) (pool_rows bd)"

definition pool_reach :: "(js \<Rightarrow> string) \<Rightarrow> js \<Rightarrow> reach" where
  "pool_reach machine_of bd = foldl reach_add \<lparr>rc_accounts = [], rc_machines = []\<rparr> (pool_leads machine_of bd)"

section \<open>One drawing\<close>

text \<open>Where the ends of the cables are; the card whose end a cable's is.\<close>

record places =
  pl_board :: "rect option"
  pl_route :: "js \<Rightarrow> js \<Rightarrow> js \<Rightarrow> rect option"
  pl_router_in :: "string \<Rightarrow> rect option"
  pl_router_out :: "string \<Rightarrow> rect option"
  pl_proxy_out :: "js \<Rightarrow> rect option"
  pl_machine :: "string \<Rightarrow> rect option"
  pl_provider :: "js \<Rightarrow> rect option"

datatype end_card = Machine_head string | Provider_head js

record cable =
  cb_what :: string
  cb_from :: "cf_point option"
  cb_to :: "cf_point option"
  cb_class :: string
  cb_title :: string
  cb_key :: string
  cb_why :: "(string \<times> js) list"
  cb_end :: "(end_card \<times> bool) option"

definition route_cable :: "dict \<Rightarrow> (js \<Rightarrow> activity) \<Rightarrow> places \<Rightarrow> js \<Rightarrow> js \<Rightarrow> js \<Rightarrow> js \<Rightarrow> cable" where
  "route_cable t pact pl bd client assignment route =
     (let role = js_or (jget route ''role'') (JStr ''primary''); host = jget client ''id''; agent = jget assignment ''agentId'';
          proxy_id = jget route ''proxyId''; proxy = proxy_by_id bd proxy_id; router = js_text (jget proxy ''routerId'');
          source = pl_route pl host agent role; target = pl_router_in pl router;
          unverified = (route_usage bd route = ''unverified''); act = pact (js_or proxy_id (JStr []));
          word = (\<lambda>b w. if b then w else [])
      in \<lparr>cb_what = js_string host @ ''/'' @ js_string agent @ '' '' @ js_string role @ '' -> router'',
          cb_from = point_for (pl_board pl) source ''center'', cb_to = point_for (pl_board pl) target ''center'',
          cb_class = js_join '' '' [''topology-cable'', escape_html (js_string role), word unverified ''unverified'',
             word (ac_state act = ''idle'') ''idle'',
             word (jnum_pos (js_number (js_or (jget proxy ''priority'') (JNum 0)))) ''priority'',
             state_health_classes act, proxy_class proxy_id, route_class host agent role],
          cb_title = (if unverified then t ''taTitleUnverifiedRoute'' [] else []),
          cb_key = ''route:'' @ js_string host @ ''/'' @ js_string agent @ ''/'' @ js_string role,
          cb_why = [(''routeHandleFound'', JBool (source \<noteq> None)),
             (''proxyId'', js_or proxy_id (JStr (''(empty '' @ dash @ '' live report carried none)''))),
             (''proxyResolved'', JBool (js_truthy proxy)),
             (''routerId'', JStr (if router \<noteq> [] then router else ''(unresolved)'')), (''routerInputFound'', JBool (target \<noteq> None))],
          cb_end = None\<rparr>)"

definition route_cables :: "dict \<Rightarrow> (js \<Rightarrow> activity) \<Rightarrow> places \<Rightarrow> js \<Rightarrow> cable list" where
  "route_cables t pact pl bd =
     concat (map (\<lambda>client. concat (map (\<lambda>assignment.
         map (route_cable t pact pl bd client assignment) (js_list (js_or (jget assignment ''routes'') (JArr []))))
       (assignments_for bd (jget client ''id'')))) (js_list (js_or (jget bd ''clients'') (JArr []))))"

definition way_class :: "string \<Rightarrow> activity \<Rightarrow> string" where
  "way_class kind act =
     ''topology-cable '' @ kind @ '' '' @ (if ac_state act = ''idle'' then ''idle'' else state_health_classes act)"

definition client_cable :: "rat \<Rightarrow> js list \<Rightarrow> places \<Rightarrow> js \<Rightarrow> cable" where
  "client_cable now rows pl p =
     (let source = pl_proxy_out pl (jget p ''id''); target = pl_router_in pl ''router:default'';
          act = items_activity now rows (\<lambda>it port. jnum_eq port (js_number (jget p ''port'')))
      in \<lparr>cb_what = ''client '' @ js_string (js_or (jget p ''label'') (jget p ''id'')) @ '' -> routing'',
          cb_from = point_for (pl_board pl) source ''center'', cb_to = point_for (pl_board pl) target ''center'',
          cb_class = way_class ''consumer'' act @ '' '' @ proxy_class (jget p ''id''), cb_title = [],
          cb_key = ''consumer:'' @ js_string (jget p ''id''),
          cb_why = [(''handleFound'', JBool (source \<noteq> None)), (''routingFound'', JBool (target \<noteq> None))],
          cb_end = None\<rparr>)"

definition client_cables :: "rat \<Rightarrow> js list \<Rightarrow> places \<Rightarrow> js \<Rightarrow> cable list" where
  "client_cables now rows pl bd =
     map (client_cable now rows pl) (filter (\<lambda>p. js_text (jget p ''set'') \<noteq> []) (filter is_entry_client (proxy_rows bd)))"

definition towards :: "places \<Rightarrow> end_card \<Rightarrow> rect option \<Rightarrow> activity \<Rightarrow> string \<Rightarrow> cable" where
  "towards pl head target act what =
     (let out = pl_router_out pl ''router:default'' in
      \<lparr>cb_what = ''routing -> '' @ what, cb_from = point_for (pl_board pl) out ''center'',
       cb_to = point_for (pl_board pl) target ''left'', cb_class = way_class ''router'' act, cb_title = [],
       cb_key = ''router:'' @ what,
       cb_why = [(''routingOutputFound'', JBool (out \<noteq> None)), (''targetFound'', JBool (target \<noteq> None))],
       cb_end = Some (head, ac_state act = ''active'')\<rparr>)"

definition reach_cables :: "rat \<Rightarrow> js list \<Rightarrow> places \<Rightarrow> reach \<Rightarrow> cable list" where
  "reach_cables now rows pl r =
     map (\<lambda>(k, outs). towards pl (Machine_head k) (pl_machine pl k)
         (items_activity now rows (\<lambda>it port. js_text (jget it ''upstreamType'') = ''llama''
            \<and> JStr (js_text (jget it ''routedOutputId'')) \<in> set outs)) (''machine '' @ k)) (rc_machines r)
     @ map (\<lambda>i. towards pl (Provider_head i) (pl_provider pl i)
         (items_activity now rows (\<lambda>it port. JStr (js_text (jget it ''cloudAccountId'')) = i)) (''provider '' @ js_string i)) (rc_accounts r)"

text \<open>What is not drawn is said: an entry of this drawing, and a line of the console the first time.\<close>

type_synonym drop_entry = "string \<times> (string \<times> js) list"

fun drop_put :: "drop_entry \<Rightarrow> drop_entry list \<Rightarrow> drop_entry list" where
  "drop_put e [] = [e]"
| "drop_put e (d # ds) = (if fst d = fst e then e # ds else d # drop_put e ds)"

record cables =
  cs_flow :: cf_state
  cs_drops :: "drop_entry list"
  cs_sigs :: "drop_entry list"
  cs_warned :: "drop_entry list"
  cs_ends :: "(end_card \<times> bool) list"
  cs_html :: string

definition note_drop :: "drop_entry \<Rightarrow> cables \<Rightarrow> cables" where
  "note_drop e s =
     s\<lparr>cs_drops := drop_put e (cs_drops s), cs_sigs := set_add e (cs_sigs s),
       cs_warned := (if e \<in> set (cs_sigs s) then cs_warned s else cs_warned s @ [e])\<rparr>"

definition draw_cable :: "rat \<Rightarrow> cables \<Rightarrow> cable \<Rightarrow> cables" where
  "draw_cable now s c = (case svg_path now (cb_from c) (cb_to c) (cb_class c) (cb_title c) (cb_key c) (cs_flow s) of
       (flow, html) \<Rightarrow>
         (let s1 = s\<lparr>cs_flow := flow, cs_html := cs_html s @ html\<rparr> in
          if html = [] then note_drop (cb_what c, cb_why c) s1
          else s1\<lparr>cs_ends := cs_ends s1 @ (case cb_end c of None \<Rightarrow> [] | Some e \<Rightarrow> [e])\<rparr>))"

definition board_cables ::
  "dict \<Rightarrow> (js \<Rightarrow> activity) \<Rightarrow> (js \<Rightarrow> string) \<Rightarrow> rat \<Rightarrow> js list \<Rightarrow> places \<Rightarrow> js \<Rightarrow> cable list" where
  "board_cables t pact machine_of now rows pl bd =
     route_cables t pact pl bd @ client_cables now rows pl bd @ reach_cables now rows pl (pool_reach machine_of bd)"

definition draw_cables ::
  "dict \<Rightarrow> (js \<Rightarrow> activity) \<Rightarrow> (js \<Rightarrow> string) \<Rightarrow> bool \<Rightarrow> rat \<Rightarrow> js list \<Rightarrow> places \<Rightarrow> js \<Rightarrow> cables \<Rightarrow> cables" where
  "draw_cables t pact machine_of machine_view now rows pl bd s0 =
     (if pl_board pl = None \<or> \<not> js_truthy bd then s0
      else let s = s0\<lparr>cs_drops := [], cs_html := [], cs_ends := []\<rparr> in
      if machine_view then s
      else (let s1 = foldl (draw_cable now) (s\<lparr>cs_flow := cf_round (cs_flow s)\<rparr>) (board_cables t pact machine_of now rows pl bd)
        in case cf_ghosts now (cs_flow s1) of (flow, ghosts) \<Rightarrow> s1\<lparr>cs_flow := flow, cs_html := cs_html s1 @ ghosts\<rparr>))"

section \<open>The heads that have a cable\<close>

text \<open>The classes \<open>cable-end\<close> and \<open>flowing\<close> of the cards, and the cards marked by the last drawing.\<close>

record ends =
  en_marked :: "end_card set"
  en_end :: "end_card \<Rightarrow> bool"
  en_flowing :: "end_card \<Rightarrow> bool"

definition mark_one :: "ends \<Rightarrow> end_card \<times> bool \<Rightarrow> ends" where
  "mark_one m e = m\<lparr>en_end := (en_end m)(fst e := True), en_flowing := (en_flowing m)(fst e := snd e)\<rparr>"

definition mark_ends :: "(end_card \<times> bool) list \<Rightarrow> ends \<Rightarrow> ends" where
  "mark_ends es m =
     (let now = set (map fst es);
          gone = m\<lparr>en_end := (\<lambda>c. en_end m c \<and> \<not> (c \<in> en_marked m \<and> c \<notin> now)),
                   en_flowing := (\<lambda>c. en_flowing m c \<and> \<not> (c \<in> en_marked m \<and> c \<notin> now))\<rparr>
      in (foldl mark_one gone es)\<lparr>en_marked := now\<rparr>)"

section \<open>A pool leads where its rows lead\<close>

lemma machine_add_keys: "set (map fst (machine_add k out ms)) = insert k (set (map fst ms))"
proof (induction ms)
  case (Cons m ms)
  then show ?case by (cases m; cases "fst m = k") (simp_all add: insert_commute)
qed simp

lemma machine_add_distinct: "distinct (map fst ms) \<Longrightarrow> distinct (map fst (machine_add k out ms))"
proof (induction ms)
  case (Cons m ms)
  then show ?case using machine_add_keys [of k out ms] by (cases m) auto
qed simp

lemma machine_add_outs:
  "(\<exists>outs. (k', outs) \<in> set (machine_add k out ms) \<and> x \<in> set outs) \<longleftrightarrow>
     (\<exists>outs. (k', outs) \<in> set ms \<and> x \<in> set outs) \<or> (k' = k \<and> x = out)"
proof (induction ms)
  case Nil
  then show ?case by auto
next
  case (Cons m ms)
  obtain k0 outs0 where m: "m = (k0, outs0)" by fastforce
  show ?case
  proof (cases "k0 = k")
    case True
    then show ?thesis unfolding m by auto
  next
    case False
    then show ?thesis unfolding m using Cons.IH by auto
  qed
qed

lemma reach_fold:
  "set (rc_accounts (foldl reach_add r ls)) = set (rc_accounts r) \<union> {a. To_account a \<in> set ls}
   \<and> (distinct (rc_accounts r) \<longrightarrow> distinct (rc_accounts (foldl reach_add r ls)))
   \<and> (distinct (map fst (rc_machines r)) \<longrightarrow> distinct (map fst (rc_machines (foldl reach_add r ls))))
   \<and> (\<forall>k x. (\<exists>outs. (k, outs) \<in> set (rc_machines (foldl reach_add r ls)) \<and> x \<in> set outs) \<longleftrightarrow>
        (\<exists>outs. (k, outs) \<in> set (rc_machines r) \<and> x \<in> set outs) \<or> To_machine k x \<in> set ls)"
proof (induction ls arbitrary: r)
  case Nil
  then show ?case by simp
next
  case (Cons l ls)
  show ?case
  proof (cases l)
    case (To_account a)
    then show ?thesis using Cons.IH [of "reach_add r l"] by (auto simp: reach_add_def)
  next
    case (To_machine k out)
    then show ?thesis using Cons.IH [of "reach_add r l"] machine_add_distinct [of "rc_machines r" k out]
      by (simp add: reach_add_def machine_add_outs)
  qed
qed

lemma in_pool_leads: "l \<in> set (pool_leads machine_of bd) \<longleftrightarrow> (\<exists>row \<in> set (pool_rows bd). pool_row_lead machine_of bd row = Some l)"
  by (force simp: pool_leads_def List.map_filter_def)

text \<open>Routing's card is cabled to exactly the accounts and the machines a row that is on leads to, each once,
  and a machine's cable lights for exactly the outputs such rows name on it.\<close>

theorem cb_reach_is_where_rows_lead:
  "distinct (rc_accounts (pool_reach machine_of bd)) \<and> distinct (map fst (rc_machines (pool_reach machine_of bd))) \<and>
   (a \<in> set (rc_accounts (pool_reach machine_of bd)) \<longleftrightarrow>
      (\<exists>row \<in> set (pool_rows bd). pool_row_lead machine_of bd row = Some (To_account a))) \<and>
   ((\<exists>outs. (k, outs) \<in> set (rc_machines (pool_reach machine_of bd)) \<and> x \<in> set outs) \<longleftrightarrow>
      (\<exists>row \<in> set (pool_rows bd). pool_row_lead machine_of bd row = Some (To_machine k x)))"
  using reach_fold [of "\<lparr>rc_accounts = [], rc_machines = []\<rparr>" "pool_leads machine_of bd"]
  by (simp add: pool_reach_def in_pool_leads [symmetric])

section \<open>No cable is missing in silence\<close>

definition undrawn :: "cable \<Rightarrow> bool" where
  "undrawn c \<longleftrightarrow> cb_from c = None \<or> cb_to c = None"

lemma svg_path_empty: "snd (svg_path now from to cls title key s) = [] \<longleftrightarrow> from = None \<or> to = None"
  by (auto simp: svg_path_def Let_def split: option.splits prod.splits)

lemma drop_put_whats: "set (map fst (drop_put e ds)) = insert (fst e) (set (map fst ds))"
proof (induction ds)
  case (Cons d ds)
  then show ?case by (cases "fst d = fst e") (simp_all add: insert_commute)
qed simp

lemma drop_put_distinct: "distinct (map fst ds) \<Longrightarrow> distinct (map fst (drop_put e ds))"
proof (induction ds)
  case (Cons d ds)
  then show ?case using drop_put_whats [of e ds] by (cases "fst d = fst e") simp_all
qed simp

lemma draw_cable_effect:
  "cs_drops (draw_cable now s c) = (if undrawn c then drop_put (cb_what c, cb_why c) (cs_drops s) else cs_drops s)"
  "cs_ends (draw_cable now s c) = (if undrawn c then cs_ends s
     else cs_ends s @ (case cb_end c of None \<Rightarrow> [] | Some e \<Rightarrow> [e]))"
  using svg_path_empty [of now "cb_from c" "cb_to c" "cb_class c" "cb_title c" "cb_key c" "cs_flow s"]
  by (auto simp: draw_cable_def undrawn_def note_drop_def Let_def split: prod.splits)

lemma draw_all:
  "set (map fst (cs_drops (foldl (draw_cable now) s cs))) =
     set (map fst (cs_drops s)) \<union> cb_what ` {c \<in> set cs. undrawn c}
   \<and> (distinct (map fst (cs_drops s)) \<longrightarrow> distinct (map fst (cs_drops (foldl (draw_cable now) s cs))))
   \<and> cs_ends (foldl (draw_cable now) s cs) =
       cs_ends s @ concat (map (\<lambda>c. case cb_end c of None \<Rightarrow> [] | Some e \<Rightarrow> [e]) (filter (\<lambda>c. \<not> undrawn c) cs))"
proof (induction cs arbitrary: s)
  case Nil
  then show ?case by simp
next
  case (Cons c cs)
  show ?case
    using Cons.IH [of "draw_cable now s c"] drop_put_distinct [of "cs_drops s" "(cb_what c, cb_why c)"]
      drop_put_whats [of "(cb_what c, cb_why c)" "cs_drops s"]
    by (simp add: draw_cable_effect) auto
qed

text \<open>(C25) A cable the board could not draw is not missing in silence: after a drawing of the board, the drops name,
  each once, exactly the cables one of whose ends is not on the page, and the heads to be marked are
  those of the cables that are drawn.\<close>

theorem cb_every_gap_is_named:
  assumes "pl_board pl \<noteq> None" and "js_truthy bd"
  shows "let s' = draw_cables t pact machine_of False now rows pl bd s;
             cs = board_cables t pact machine_of now rows pl bd
    in distinct (map fst (cs_drops s')) \<and> set (map fst (cs_drops s')) = cb_what ` {c \<in> set cs. undrawn c} \<and>
       cs_ends s' = concat (map (\<lambda>c. case cb_end c of None \<Rightarrow> [] | Some e \<Rightarrow> [e]) (filter (\<lambda>c. \<not> undrawn c) cs))"
proof -
  define s0 where "s0 = s\<lparr>cs_drops := [], cs_html := [], cs_ends := [], cs_flow := cf_round (cs_flow s)\<rparr>"
  define cs where "cs = board_cables t pact machine_of now rows pl bd"
  have s0: "cs_drops s0 = []" "cs_ends s0 = []" by (simp_all add: s0_def)
  have same: "cs_drops (draw_cables t pact machine_of False now rows pl bd s) = cs_drops (foldl (draw_cable now) s0 cs)"
    "cs_ends (draw_cables t pact machine_of False now rows pl bd s) = cs_ends (foldl (draw_cable now) s0 cs)"
    using assms by (auto simp: draw_cables_def s0_def cs_def case_prod_beta Let_def)
  show ?thesis
    using draw_all [of now s0 cs] unfolding s0 Let_def same cs_def [symmetric] by simp
qed

text \<open>A board with one client whose route's card is not on the page.\<close>

definition one_route :: js where
  "one_route = JObj [(''clients'', JArr [JObj [(''id'', JStr ''c'')]]),
     (''assignments'', JObj [(''c'', JObj [(''assignments'', JArr [JObj [(''agentId'', JStr ''a''),
        (''routes'', JArr [JObj [(''role'', JStr ''primary''), (''proxyId'', JStr ''p'')]])]])])])]"

definition bare_places :: places where
  "bare_places = \<lparr>pl_board = Some \<lparr>re_left = 0, re_top = 0, re_width = 800, re_height = 600\<rparr>, pl_route = (\<lambda>h a r. None),
     pl_router_in = (\<lambda>r. None), pl_router_out = (\<lambda>r. None), pl_proxy_out = (\<lambda>p. None), pl_machine = (\<lambda>k. None),
     pl_provider = (\<lambda>p. None)\<rparr>"

definition no_cables :: cables where
  "no_cables = \<lparr>cs_flow = cf_reset, cs_drops = [], cs_sigs = [], cs_warned = [], cs_ends = [], cs_html = []\<rparr>"

lemma cb_every_gap_is_named_witness:
  "let s' = draw_cables (\<lambda>k vs. k) (\<lambda>i. \<lparr>ac_state = ''idle'', ac_health = []\<rparr>) js_string False 0 [] bare_places one_route no_cables;
       cs = board_cables (\<lambda>k vs. k) (\<lambda>i. \<lparr>ac_state = ''idle'', ac_health = []\<rparr>) js_string 0 [] bare_places one_route
    in distinct (map fst (cs_drops s')) \<and> set (map fst (cs_drops s')) = cb_what ` {c \<in> set cs. undrawn c} \<and>
       cs_ends s' = concat (map (\<lambda>c. case cb_end c of None \<Rightarrow> [] | Some e \<Rightarrow> [e]) (filter (\<lambda>c. \<not> undrawn c) cs))"
  by (rule cb_every_gap_is_named) (simp_all add: bare_places_def one_route_def)

section \<open>The marks follow the cables\<close>

lemma mark_fold:
  "en_end (foldl mark_one m es) c \<longleftrightarrow> en_end m c \<or> c \<in> set (map fst es)"
  by (induction es arbitrary: m) (auto simp: mark_one_def)

lemma mark_ends_exact:
  assumes "\<And>c. en_end m c \<Longrightarrow> c \<in> en_marked m"
  shows "en_end (mark_ends es m) c \<longleftrightarrow> c \<in> set (map fst es)" and "en_marked (mark_ends es m) = set (map fst es)"
  using assms by (auto simp: mark_ends_def Let_def mark_fold)

section \<open>A colour is one of the twelve\<close>

lemma accent_hue_known: "accent_hue key \<in> set accent_hues"
  unfolding accent_hue_def by (rule nth_mem) (simp add: accent_hues_def nat_less_iff)

end
