(* ===== verification/ProviderRules.thy ===== *)
theory ProviderRules
  imports Utils
begin

text \<open>
  The rules of the board around providers and pools: which of Routing's cables carry a request
  (\<open>pool-flow.js\<close>), what the strip under Routing says (\<open>pool-dock.js\<close>), what is left of a typed credit
  (\<open>credit-left.js\<close>), dollars (\<open>money.js\<close>), speeds and times left (\<open>pace.js\<close>, \<open>pace-rule.js\<close>), the words
  of what still points at a pool (\<open>cloud-ref-words.js\<close>), and which board a page shows (\<open>board-view.js\<close>).
  The dictionary \<open>t\<close>, the grouping of thousands, a printed date and the reading of an address's query are
  parameters.
\<close>

section \<open>The cables that carry a request\<close>

definition pf_recent_ms :: rat where
  "pf_recent_ms = 8000"

text \<open>The port of a client and of an item: a number, as the map's keys are.\<close>

definition pf_set_of :: "js \<Rightarrow> (jnum \<times> string) list" where
  "pf_set_of clients = rev (List.map_filter (\<lambda>c. if js_truthy (jget c ''set'')
     then Some (js_number (jget c ''port''), js_string (jget c ''set'')) else None) (js_list clients))"

definition pf_way :: "js \<Rightarrow> jnum \<Rightarrow> (jnum \<times> string) list \<Rightarrow> string list \<Rightarrow> string list" where
  "pf_way item port set_of pools =
     (let grp = (case map_of set_of port of Some w \<Rightarrow> w | None \<Rightarrow> []);
          keys = (if grp \<noteq> [] then [''client:'' @ num_str port] else []);
          pool = js_text (jget item ''cloudPoolId'')
      in if pool = [] \<or> pool \<notin> set pools then keys
         else let row = js_text_nn (jget item ''poolStepId'')
              in keys @ (if grp \<noteq> [] then [''set:'' @ grp @ ''/'' @ pool] else [])
                   @ (if row \<noteq> [] then [''row:'' @ pool @ ''/'' @ row] else []))"

definition pf_item_port :: "js \<Rightarrow> js \<Rightarrow> jnum" where
  "pf_item_port row item = js_number (js_nn (jget item ''port'') (jget row ''port''))"

text \<open>Whether a request of \<open>active\<close>, or of \<open>recent\<close>, lights its way.\<close>

definition pf_lights :: "bool \<Rightarrow> rat \<Rightarrow> js \<Rightarrow> bool" where
  "pf_lights running now item =
     (if running then jget item ''phase'' \<noteq> JStr ''queued''
      else case js_number (js_or (jget item ''finishedAt'') (JNum 0)) of
        Fin s \<Rightarrow> s * 1000 > now - pf_recent_ms | _ \<Rightarrow> False)"

definition pf_row_keys :: "bool \<Rightarrow> rat \<Rightarrow> (jnum \<times> string) list \<Rightarrow> string list \<Rightarrow> js \<Rightarrow> string list" where
  "pf_row_keys running now set_of pools row =
     concat (map (\<lambda>item. pf_way item (pf_item_port row item) set_of pools)
       (filter (pf_lights running now) (js_list (jget row (if running then ''active'' else ''recent'')))))"

definition pf_values :: "js \<Rightarrow> js list" where
  "pf_values v = map (jget v) (js_keys v)"

record pool_flow =
  pf_active :: "string list"
  pf_recent :: "string list"
  pf_signature :: string

definition pf_of :: "js \<Rightarrow> js \<Rightarrow> rat \<Rightarrow> pool_flow" where
  "pf_of board agents now =
     (let set_of = pf_set_of (jget board ''clients'');
          pools = map (\<lambda>p. js_string (jget p ''id'')) (js_list (jget board ''pools''));
          rows = pf_values agents;
          active = js_uniq (concat (map (pf_row_keys True now set_of pools) rows));
          recent = filter (\<lambda>k. k \<notin> set active) (js_uniq (concat (map (pf_row_keys False now set_of pools) rows)))
      in \<lparr>pf_active = active, pf_recent = recent,
          pf_signature = js_join ''|'' (sort active) @ ''~'' @ js_join ''|'' (sort recent)\<rparr>)"

section \<open>The strip under Routing\<close>

definition pd_aim :: "string \<Rightarrow> (string \<times> string) option" where
  "pd_aim key =
     (let parts = js_split CHR '':'' key; prefix' = hd parts; i = js_join '':'' (tl parts);
          head = hd (js_split CHR ''/'' i)
      in if i = [] then None
         else if prefix' = ''client'' then Some (''client'', i)
         else if prefix' = ''set'' then Some (''set'', i)
         else if prefix' = ''setpool'' then Some (''set'', head)
         else if prefix' = ''pool'' then Some (''pool'', i)
         else if prefix' = ''row'' then Some (''pool'', head)
         else if prefix' = ''model'' then Some (''model'', i)
         else None)"

record pd_reader =
  pd_kind :: string
  pd_pinned :: bool
  pd_name :: string
  pd_sub :: string
  pd_route :: "(string \<times> string list) list"
  pd_details :: string

definition pd_level :: "string \<times> string list \<Rightarrow> string" where
  "pd_level r = (let label = escape_html (fst r); said = js_join '', '' (snd r)
     in ''<div><dt title=\"'' @ label @ ''\">'' @ label @ ''</dt><dd title=\"'' @ escape_html said @ ''\">''
        @ (if said \<noteq> [] then escape_html said else dash) @ ''</dd></div>'')"

definition pd_html :: "dict \<Rightarrow> pd_reader \<Rightarrow> string" where
  "pd_html t r =
     ''<div class=\"pb-dock-id\" data-t=\"pb-dock-id\">''
     @ ''<b class=\"pb-dock-name\" title=\"'' @ escape_html (pd_name r) @ ''\">'' @ escape_html (pd_name r) @ ''</b>''
     @ ''<span class=\"pb-dock-sub\">'' @ pd_sub r @ ''</span>''
     @ ''<dl class=\"pb-route\" data-t=\"pb-route\">'' @ concat (map pd_level (pd_route r)) @ ''</dl>''
     @ ''<span class=\"pb-dock-foot\" data-t=\"pb-dock-foot\">'' @ escape_html (t (if pd_pinned r then ''pbDockPinned'' else ''pbDockPin'') []) @ ''</span>''
     @ ''</div><div class=\"pb-dock-body\" data-t=\"pb-dock-body\">'' @ pd_details r @ ''</div>''"

definition pd_state :: "pd_reader option \<Rightarrow> string" where
  "pd_state r = (case r of Some x \<Rightarrow> pd_kind x | None \<Rightarrow> ''empty'')"

section \<open>Dollars, speeds, times left\<close>

definition mn_dollars :: "(int \<Rightarrow> string) \<Rightarrow> js \<Rightarrow> string" where
  "mn_dollars grouped amount =
     (let value = num_of amount
      in if value > 0 \<and> value < 5 / 1000 then ''<$0.01''
         else ''$'' @ (if value \<ge> 100 then grouped (js_round value)
           else let s = to_fixed 2 value in if suffix ''.00'' s then take (length s - 3) s else s))"

definition pc_speed :: "rat \<Rightarrow> string" where
  "pc_speed bps =
     (if \<not> bps > 0 then []
      else if bps \<ge> 2 ^ 30 then to_fixed 1 (bps / 2 ^ 30) @ '' GB/s''
      else int_str (max 1 (js_round (bps / 2 ^ 20))) @ '' MB/s'')"

definition pc_eta :: "rat \<Rightarrow> dict \<Rightarrow> string" where
  "pc_eta seconds say =
     (if seconds \<le> 0 then []
      else let five = \<lceil>seconds / 5\<rceil> * 5
           in if five < 60 then say ''moveEtaSeconds'' [(''n'', int_str five)]
              else let minutes = \<lceil>seconds / 60\<rceil>
                   in if minutes < 60 then say ''moveEtaMinutes'' [(''n'', int_str minutes)]
                      else say ''moveEtaHours'' [(''h'', int_str (minutes div 60)), (''m'', int_str (minutes mod 60))])"

section \<open>The credit left\<close>

definition cl_typed :: "js \<Rightarrow> rat option" where
  "cl_typed account =
     (case jget account ''creditUsd'' of
        JBool b \<Rightarrow> None | JNull \<Rightarrow> None | JUndef \<Rightarrow> None
      | v \<Rightarrow> if v = JStr [] then None else case js_number v of Fin r \<Rightarrow> Some r | _ \<Rightarrow> None)"

record credit_left =
  cl_credit :: rat
  cl_spent :: rat
  cl_left :: rat
  cl_pct :: int
  cl_unpriced :: rat
  cl_partial :: bool
  cl_as_of :: rat

definition cl_of :: "js \<Rightarrow> js \<Rightarrow> credit_left option" where
  "cl_of account spend =
     (case cl_typed account of None \<Rightarrow> None
      | Some credit \<Rightarrow>
          if \<not> js_truthy spend then None
          else let since = jget (jget spend (js_string (jget account ''id''))) ''sinceCredit''
               in if \<not> js_truthy since \<or> \<not> jnum_eq (js_number (jget since ''asOf'')) (js_number (jget account ''creditAsOf'')) then None
                  else let spent = num_of (jget since ''total''); left = max 0 (credit - spent)
                       in Some \<lparr>cl_credit = credit, cl_spent = spent, cl_left = left,
                            cl_pct = (if credit > 0 then js_round (min 100 (left / credit * 100)) else 0),
                            cl_unpriced = num_of (jget since ''unpriced''), cl_partial = (jget since ''partial'' = JBool True),
                            cl_as_of = num_of (jget account ''creditAsOf'')\<rparr>)"

definition limit_tone :: "int \<Rightarrow> string" where
  "limit_tone pct = (if pct > 50 then ''#22c55e'' else if pct > 15 then ''#f59e0b'' else ''#ef4444'')"

definition cl_html :: "dict \<Rightarrow> (int \<Rightarrow> string) \<Rightarrow> (rat \<Rightarrow> string) \<Rightarrow> js \<Rightarrow> js \<Rightarrow> string" where
  "cl_html t grouped day account spend =
     (case cl_typed account of None \<Rightarrow> []
      | Some credit \<Rightarrow>
        let i = escape_html (js_string (jget account ''id'')); hint = escape_html (t ''creditHint'' []);
            money = (\<lambda>r. mn_dollars grouped (JNum r))
        in case cl_of account spend of
          None \<Rightarrow> ''<div class=\"credit-left\" data-t=\"credit-left\" data-t-id=\"'' @ i @ ''\" data-t-state=\"unread\" title=\"'' @ hint @ ''\">''
            @ ''<span class=\"credit-line\">'' @ escape_html (t ''creditUnread'' [(''credit'', money credit)]) @ ''</span></div>''
        | Some f \<Rightarrow>
          let left = t ''creditLeft'' [(''left'', money (cl_left f))];
              of' = t ''creditOf'' [(''credit'', money (cl_credit f))];
              warnings = (if cl_unpriced f > 0 then [t ''creditUnpriced'' [(''n'', rat_str (cl_unpriced f))]] else [])
                @ (if cl_partial f then [t ''creditPartial'' []] else [])
          in ''<div class=\"credit-left sub-meters single\" data-t=\"credit-left\" data-t-id=\"'' @ i @ ''\" data-t-state=\"known\" title=\"'' @ hint @ ''\">''
            @ ''<div class=\"sub-meter credit-meter\" role=\"meter\" aria-label=\"'' @ escape_html (left @ '' '' @ of')
            @ ''\" aria-valuemin=\"0\" aria-valuemax=\"'' @ rat_str (cl_credit f) @ ''\" aria-valuenow=\"'' @ rat_str (cl_left f) @ ''\">''
            @ ''<span class=\"sub-meter-label\">'' @ escape_html left @ ''</span>''
            @ ''<span class=\"sub-meter-bar\"><i class=\"sub-meter-fill\" style=\"width:'' @ int_str (cl_pct f) @ ''%;background:'' @ limit_tone (cl_pct f) @ ''\"></i></span>''
            @ ''<span class=\"sub-meter-pct\">'' @ escape_html of' @ ''</span></div>''
            @ ''<div class=\"credit-note\" data-t=\"credit-since\">'' @ escape_html (t ''creditSince'' [(''date'', day (cl_as_of f))]) @ ''</div>''
            @ concat (map (\<lambda>words. ''<div class=\"credit-note warn\" data-t=\"credit-warn\">'' @ escape_html words @ ''</div>'') warnings)
            @ ''</div>'')"

section \<open>What still points at a pool\<close>

definition cr_label :: "js \<Rightarrow> string" where
  "cr_label x = (if js_truthy (jget x ''label'') then middot @ js_string (jget x ''label'') else [])"

definition cr_lines :: "dict \<Rightarrow> js \<Rightarrow> string list" where
  "cr_lines t refs =
     map (\<lambda>r. t ''refAgentRoute'' [(''port'', js_string (jget r ''port''))] @ cr_label r) (js_list (jget refs ''routes''))
     @ map (\<lambda>r. t ''refCloudFallback'' [(''port'', js_string (jget r ''port''))] @ cr_label r) (js_list (jget refs ''fallbacks''))
     @ map (\<lambda>q. t ''refQueueRole'' [(''role'', js_string (jget q ''role''))]) (js_list (jget refs ''queueRoles''))
     @ map (\<lambda>q. t ''refRescueRole'' [(''role'', js_string (jget q ''role''))]) (js_list (jget refs ''rescueRoles''))
     @ map (\<lambda>r. t ''refRule'' [(''rule'', js_string (jget r ''rule''))]) (js_list (jget refs ''rules''))
     @ (if js_list (jget refs ''edges'') \<noteq> [] then [t ''refCables'' [(''n'', nat_str (length (js_list (jget refs ''edges''))))]] else [])"

definition bullet :: string where
  "bullet = [CHR 0xE2, CHR 0x80, CHR 0xA2]"

definition cr_detail :: "dict \<Rightarrow> string list \<Rightarrow> string" where
  "cr_detail t lines =
     (if lines \<noteq> [] then t ''refsUsedBy'' [] @ [CHR 10] @ js_join [CHR 10] (map (\<lambda>l. bullet @ '' '' @ l) lines) else t ''refsNone'' [])"

section \<open>Which board a page shows\<close>

text \<open>\<open>query\<close> is \<open>new URLSearchParams(search).get("host")\<close>. \<open>None\<close> on the main board.\<close>

definition bv_machine :: "string \<Rightarrow> string option \<Rightarrow> string option" where
  "bv_machine pathname query =
     (if pathname = ''/machine'' then Some (js_trim (case query of Some q \<Rightarrow> q | None \<Rightarrow> [])) else None)"

definition bv_name :: "string option \<Rightarrow> string" where
  "bv_name machine = (if machine \<noteq> None then ''machine'' else ''main'')"

definition bv_url :: "(string \<Rightarrow> string) \<Rightarrow> string \<Rightarrow> string" where
  "bv_url encode host = ''/machine?host='' @ encode host"

section \<open>Properties\<close>

text \<open>A cable is lit because of a request, and shown as lit now or as just lit, never both: every key lit
  comes from an item of the monitor that is being served (not queued), or that ended at a known time less
  than eight seconds ago; and a client's and a set's cable is lit only for a port whose client has that set.\<close>

theorem pf_cables_are_of_requests:
  assumes "f = pf_of board agents now"
  shows "set (pf_active f) \<inter> set (pf_recent f) = {} \<and> distinct (pf_active f) \<and> distinct (pf_recent f) \<and>
    (\<forall>key \<in> set (pf_active f). \<exists>row \<in> set (pf_values agents). \<exists>item \<in> set (js_list (jget row ''active'')).
       jget item ''phase'' \<noteq> JStr ''queued'' \<and>
       key \<in> set (pf_way item (pf_item_port row item) (pf_set_of (jget board ''clients''))
         (map (\<lambda>p. js_string (jget p ''id'')) (js_list (jget board ''pools''))))) \<and>
    (\<forall>key \<in> set (pf_recent f). \<exists>row \<in> set (pf_values agents). \<exists>item \<in> set (js_list (jget row ''recent'')).
       (\<exists>s. js_number (js_or (jget item ''finishedAt'') (JNum 0)) = Fin s \<and> s * 1000 > now - 8000) \<and>
       key \<in> set (pf_way item (pf_item_port row item) (pf_set_of (jget board ''clients''))
         (map (\<lambda>p. js_string (jget p ''id'')) (js_list (jget board ''pools'')))))"
proof -
  have fin: "pf_lights False now item \<longleftrightarrow>
      (\<exists>s. js_number (js_or (jget item ''finishedAt'') (JNum 0)) = Fin s \<and> s * 1000 > now - 8000)" for item
    by (simp add: pf_lights_def pf_recent_ms_def split: jnum.split)
  have run: "pf_lights True now item \<longleftrightarrow> jget item ''phase'' \<noteq> JStr ''queued''" for item
    by (simp add: pf_lights_def)
  let ?way = "\<lambda>row item. pf_way item (pf_item_port row item) (pf_set_of (jget board ''clients''))
         (map (\<lambda>p. js_string (jget p ''id'')) (js_list (jget board ''pools'')))"
  have active: "set (pf_active f) = (\<Union>row \<in> set (pf_values agents). \<Union>item \<in> {item \<in> set (js_list (jget row ''active'')).
      jget item ''phase'' \<noteq> JStr ''queued''}. set (?way row item))"
    by (simp add: assms pf_of_def Let_def pf_row_keys_def run)
  have recent: "set (pf_recent f) \<subseteq> (\<Union>row \<in> set (pf_values agents). \<Union>item \<in> {item \<in> set (js_list (jget row ''recent'')).
      (\<exists>s. js_number (js_or (jget item ''finishedAt'') (JNum 0)) = Fin s \<and> s * 1000 > now - 8000)}. set (?way row item))"
    unfolding assms pf_of_def Let_def pf_row_keys_def by (simp add: fin) blast
  have "set (pf_active f) \<inter> set (pf_recent f) = {}" "distinct (pf_active f)" "distinct (pf_recent f)"
    unfolding assms pf_of_def Let_def by (simp_all add: disjoint_iff)
  then show ?thesis using active recent by blast
qed

definition pf_demo_board :: js where
  "pf_demo_board = JObj [(''clients'', JArr [JObj [(''port'', JNum 8), (''set'', JStr ''s'')]]), (''pools'', JArr [JObj [(''id'', JStr ''p'')]])]"

definition pf_demo_agents :: js where
  "pf_demo_agents = JObj [(''8'', JObj [(''port'', JNum 8), (''active'', JArr [JObj [(''cloudPoolId'', JStr ''p''), (''poolStepId'', JStr ''r'')]])])]"

theorem pf_cables_are_of_requests_witness:
  "pf_active (pf_of pf_demo_board pf_demo_agents 0) = [''client:8'', ''set:s/p'', ''row:p/r''] \<and>
   pf_recent (pf_of pf_demo_board pf_demo_agents 0) = []"
proof -
  have a: "pf_active (pf_of pf_demo_board pf_demo_agents 0) = [''client:8'', ''set:s/p'', ''row:p/r'']" by code_simp
  have "set (js_list (jget row ''recent'')) = {}" if "row \<in> set (pf_values pf_demo_agents)" for row
    using that by (auto simp: pf_values_def pf_demo_agents_def js_keys_def js_uniq_def)
  then show ?thesis using pf_cables_are_of_requests [OF refl, of pf_demo_board pf_demo_agents 0] a
    by (metis empty_iff equals0I set_empty)
qed

text \<open>"All of it left" is never said of a spend nobody read: figures are given only when the spend reading
  counts from the very moment the credit was typed; then what is left is the credit less the spend, never
  below zero, never more than the credit for a spend of zero or more, and the share is between 0 and 100.\<close>

theorem cl_figures_are_read:
  assumes "cl_of account spend = Some f"
  shows "cl_typed account = Some (cl_credit f) \<and>
    jnum_eq (js_number (jget (jget (jget spend (js_string (jget account ''id''))) ''sinceCredit'') ''asOf'')) (js_number (jget account ''creditAsOf'')) \<and>
    cl_left f = max 0 (cl_credit f - cl_spent f) \<and> 0 \<le> cl_pct f \<and> cl_pct f \<le> 100 \<and>
    (cl_spent f \<ge> 0 \<and> cl_credit f \<ge> 0 \<longrightarrow> cl_left f \<le> cl_credit f)"
proof -
  obtain credit where credit: "cl_typed account = Some credit" using assms by (cases "cl_typed account") (auto simp: cl_of_def)
  let ?since = "jget (jget spend (js_string (jget account ''id''))) ''sinceCredit''"
  have eq: "jnum_eq (js_number (jget ?since ''asOf'')) (js_number (jget account ''creditAsOf''))"
    using assms credit by (auto simp: cl_of_def Let_def split: if_splits)
  have f: "cl_credit f = credit" "cl_left f = max 0 (credit - cl_spent f)"
    "cl_pct f = (if credit > 0 then js_round (min 100 (cl_left f / credit * 100)) else 0)"
    using assms credit by (auto simp: cl_of_def Let_def split: if_splits)
  have "0 \<le> cl_pct f \<and> cl_pct f \<le> 100"
  proof (cases "credit > 0")
    case True
    let ?x = "min 100 (cl_left f / credit * 100)"
    have "0 \<le> ?x" "?x \<le> 100" using True f(2) by simp_all
    then have "js_round 0 \<le> js_round ?x" "js_round ?x \<le> js_round 100" by (auto intro: js_round_mono)
    then show ?thesis using True f(3) js_round_of_int [of 0] js_round_of_int [of 100] by simp
  next
    case False
    then show ?thesis using f(3) by simp
  qed
  then show ?thesis using credit eq f by simp
qed

theorem cl_figures_are_read_witness:
  "\<exists>f. cl_of (JObj [(''id'', JStr ''k''), (''creditUsd'', JNum 20), (''creditAsOf'', JNum 5)])
      (JObj [(''k'', JObj [(''sinceCredit'', JObj [(''asOf'', JNum 5), (''total'', JNum 15)])])]) = Some f \<and> cl_left f = 5"
proof -
  let ?c = "cl_of (JObj [(''id'', JStr ''k''), (''creditUsd'', JNum 20), (''creditAsOf'', JNum 5)])
      (JObj [(''k'', JObj [(''sinceCredit'', JObj [(''asOf'', JNum 5), (''total'', JNum 15)])])])"
  have "map_option (\<lambda>f. (cl_credit f, cl_spent f)) ?c = Some (20, 15)" by code_simp
  then obtain f where "?c = Some f" "cl_credit f = 20" "cl_spent f = 15" by auto
  then show ?thesis using cl_figures_are_read [of _ _ f] by auto
qed

end
