(* ===== verification/Pools.thy ===== *)
theory Pools
  imports JsValue Utils Interfaces ProviderRules
begin

text \<open>
  Pools on the board (\<open>pools.js\<close>): an ordered chain of steps, each an account and a model. \<open>PoolCards\<close>
  keeps what the lane was handed (the pools, the accounts, the proxy's word of the moment) and what
  the operator opened; its operations send a pool back as the server takes it, carry steps into
  another order, edit one field, delete a pool or a step. A question to the operator and an answer
  of the controller are given; what a handler asks, sends, says and hands on is listed in its result.
  The card's markup is the lane's and is not here, but for the status, the readings of a step's head
  and the strip of accounts in no pool.
\<close>

section \<open>What the lane was handed\<close>

record pool_cards =
  po_pools :: "js list"
  po_accounts :: "js list"
  po_runtime :: js
  po_open :: "string list"
  po_shown :: "string list"

definition po_new :: pool_cards where
  "po_new = \<lparr>po_pools = [], po_accounts = [], po_runtime = JObj [], po_open = [], po_shown = []\<rparr>"

definition po_set :: "js list \<Rightarrow> js list \<Rightarrow> js \<Rightarrow> pool_cards \<Rightarrow> pool_cards" where
  "po_set pools accounts runtime s =
     s\<lparr>po_pools := pools, po_accounts := accounts, po_runtime := js_or runtime (JObj [])\<rparr>"

text \<open>\<open>find\<close> by \<open>id\<close>; \<open>null\<close> when there is none.\<close>

definition find_id :: "js list \<Rightarrow> js \<Rightarrow> js" where
  "find_id xs i = (case find (\<lambda>a. jget a ''id'' = i) xs of Some a \<Rightarrow> a | None \<Rightarrow> JNull)"

definition po_account :: "pool_cards \<Rightarrow> js \<Rightarrow> js" where
  "po_account s i = find_id (po_accounts s) i"

definition po_stored :: "pool_cards \<Rightarrow> js \<Rightarrow> js" where
  "po_stored s i = find_id (po_pools s) i"

definition is_subscription :: "js \<Rightarrow> bool" where
  "is_subscription a =
     (js_truthy a \<and> (jget a ''subscription'' = JBool True \<or> jget a ''accountType'' = JStr ''openai-subscription'' \<or>
        str_includes (js_text (jget a ''baseUrl'')) ''chatgpt.com''))"

definition step_name :: "pool_cards \<Rightarrow> js \<Rightarrow> string" where
  "step_name s st =
     js_string (js_or (jget (po_account s (jget st ''accountId'')) ''name'') (jget st ''accountId'')) @ middot
     @ js_string (jget st ''model'')"

text \<open>\<open>JSON.parse(JSON.stringify(o))\<close> drops a field that is \<open>undefined\<close>.\<close>

definition said_fields :: "(string \<times> js) list \<Rightarrow> js" where
  "said_fields kvs = JObj (filter (\<lambda>(k, v). v \<noteq> JUndef) kvs)"

definition pool_steps :: "js \<Rightarrow> js list" where
  "pool_steps p = js_list (js_or (jget p ''steps'') (JArr []))"

definition levels :: "js \<Rightarrow> js" where
  "levels v = JObj (js_fields (js_or v (JObj [])))"

definition step_payload :: "js \<Rightarrow> js" where
  "step_payload st = said_fields
     [(''id'', jget st ''id''), (''accountId'', jget st ''accountId''), (''model'', jget st ''model''),
      (''enabled'', JBool (jget st ''enabled'' \<noteq> JBool False)),
      (''switchAt'', levels (jget st ''switchAt'')), (''stopAt'', levels (jget st ''stopAt''))]"

definition pool_payload :: "js \<Rightarrow> js" where
  "pool_payload p = said_fields
     [(''id'', jget p ''id''), (''name'', jget p ''name''), (''contextAuto'', JBool (js_truthy (jget p ''contextAuto''))),
      (''contextLength'', js_nn (jget p ''contextLength'') (JStr [])),
      (''steps'', JArr (map step_payload (pool_steps p)))]"

text \<open>\<open>ordered\<close>: where each id stands (the last step of that id), all of them found, and not the order
  there is.\<close>

definition place_of :: "js list \<Rightarrow> string \<Rightarrow> nat option" where
  "place_of steps i = find (\<lambda>k. jget (steps ! k) ''id'' = JStr i) (rev [0..<length steps])"

definition pool_ordered :: "string list \<Rightarrow> js list \<Rightarrow> js list option" where
  "pool_ordered ids steps =
     (if length ids \<noteq> length steps \<or> \<not> distinct ids then None
      else (let ks = map (place_of steps) ids in
        if None \<in> set ks then None
        else if map the ks = [0..<length steps] then None
        else Some (map (\<lambda>k. steps ! the k) ks)))"

section \<open>What a step says\<close>

definition reason_words :: "(string \<times> string \<times> string) list" where
  "reason_words =
     [(''ready'', ''poolReady'', ''ready''), (''switch'', ''poolSwitchReached'', ''reserve''),
      (''reserve'', ''poolStopReached'', ''stop''), (''quota'', ''poolQuota'', ''reserve''),
      (''payment'', ''poolPayment'', ''reserve''), (''upstream_refused'', ''poolRefused'', ''reserve''),
      (''model_unavailable'', ''poolModelGone'', ''reserve''), (''auth_rejected'', ''poolAuthRejected'', ''login''),
      (''credential_missing'', ''poolLoginNeeded'', ''login''), (''usage_unknown'', ''poolUsageUnknown'', ''unknown''),
      (''format_unsupported'', ''poolChatOnly'', ''off''), (''disabled'', ''poolDisabled'', ''off''),
      (''busy'', ''poolBusy'', ''ready''), (''unavailable'', ''poolCellOff'', ''off-cell''),
      (''output_missing'', ''poolOutputMissing'', ''missing''), (''not_connected'', ''poolNotConnected'', ''open''),
      (''tried'', ''poolTried'', ''reserve''), (''closed'', ''poolClosed'', ''closed'')]"

record pill_words =
  pw_look :: string
  pw_text :: string
  pw_title :: string

definition step_row :: "js \<Rightarrow> js \<Rightarrow> js" where
  "step_row state st =
     (case find (\<lambda>r. jget r ''stepId'' = jget st ''id'') (js_list (js_or (jget state ''steps'') (JArr []))) of
        Some r \<Rightarrow> r | None \<Rightarrow> JUndef)"

definition step_status :: "dict \<Rightarrow> pool_cards \<Rightarrow> js \<Rightarrow> js \<Rightarrow> pill_words" where
  "step_status t s st state =
     (let account = po_account s (jget st ''accountId''); row = step_row state st; reason = jget row ''reason'' in
      if jget state ''selectedStepId'' = jget st ''id'' \<and> (\<not> js_truthy row \<or> reason = JStr ''ready'' \<or> reason = JStr ''switch'')
      then \<lparr>pw_look = ''serving'', pw_text = t ''poolServing'' [],
            pw_title = (if reason = JStr ''switch'' then t ''poolSwitchReached'' [] else [])\<rparr>
      else if js_truthy account \<and> \<not> js_truthy (jget account ''hasCredential'')
      then \<lparr>pw_look = ''login'', pw_text = t (if is_subscription account then ''poolLoginNeeded'' else ''cloudNoKeyYet'') [],
            pw_title = []\<rparr>
      else if \<not> js_truthy row
      then \<lparr>pw_look = ''unknown'',
            pw_text = t (if js_truthy (jget (po_runtime s) ''available'') then ''poolNoRequest'' else ''poolProxySilent'') [],
            pw_title = []\<rparr>
      else (case (case map_of reason_words (js_string reason) of Some w \<Rightarrow> w | None \<Rightarrow> (''poolUnavailable'', ''unknown'')) of
          (key, look) \<Rightarrow> \<lparr>pw_look = look, pw_text = t key [], pw_title = js_text reason\<rparr>))"

definition turn_sign :: string where
  "turn_sign = [CHR 0xE2, CHR 0x86, CHR 0xBA]"

definition step_meta :: "dict \<Rightarrow> js \<Rightarrow> string \<Rightarrow> string" where
  "step_meta t s owner =
     (let resets = jget s ''resets''; n = js_string resets; some = jnum_pos (js_number resets);
          title = escape_html (t (if some then ''resetChoose'' else ''resetAvailable'') [(''count'', n)]);
          count = escape_html (t ''resetCount'' [(''count'', n)])
      in (if js_truthy (jget s ''pending'') then ''<span class=\"pool-warn\" title=\"'' @ escape_html (t ''resetPending'' [])
            @ ''\">'' @ [CHR 0xE2, CHR 0x9A, CHR 0xA0] @ ''</span>'' else [])
         @ (if \<not> js_nullish resets then
              (if some then ''<button class=\"pool-resets\" type=\"button\" data-pool-resets=\"'' @ escape_html owner
                 @ ''\" title=\"'' @ title @ ''\" aria-label=\"'' @ title @ ''\">'' @ turn_sign @ '' '' @ count @ ''</button>''
               else ''<span class=\"pool-resets none\" title=\"'' @ title @ ''\">'' @ turn_sign @ '' '' @ count @ ''</span>'')
            else if js_truthy (jget s ''resetsFailed'') then ''<span class=\"pool-resets none\" title=\"''
              @ escape_html (t ''resetUnavailable'' []) @ ''\">'' @ turn_sign @ '' ?</span>'' else [])
         @ (if js_truthy (jget s ''cost'') then ''<span title=\"'' @ escape_html (js_text (jget s ''costTitle'')) @ ''\">''
              @ [CHR 0xE2, CHR 0x89, CHR 0x88] @ '' '' @ escape_html (js_string (jget s ''cost'')) @ ''</span>'' else []))"

text \<open>The last five switches of a pool, newest first; the accounts no pool stands on.\<close>

definition last_n :: "nat \<Rightarrow> 'a list \<Rightarrow> 'a list" where
  "last_n n xs = drop (length xs - n) xs"

definition po_events :: "pool_cards \<Rightarrow> js \<Rightarrow> js list" where
  "po_events s p = rev (last_n 5 (filter (\<lambda>e. jget e ''poolId'' = jget p ''id'')
     (js_list (js_or (jget (po_runtime s) ''events'') (JArr [])))))"

definition loose_accounts :: "pool_cards \<Rightarrow> js list" where
  "loose_accounts s =
     (let used = concat (map (\<lambda>p. map (\<lambda>st. jget st ''accountId'') (pool_steps p)) (po_pools s))
      in filter (\<lambda>a. jget a ''id'' \<notin> set used \<and> \<not> js_truthy (jget a ''testAliasOf'')) (po_accounts s))"

section \<open>Acting\<close>

datatype pool_out = Po_save js | Po_refs js | Po_confirm string | Po_choose string "(js \<times> js) list"
  | Po_delete js "js option" | Po_remove_step js js | Po_say string | Po_apply js | Po_redraw
  | Po_add_step string | Po_choose_reset string | Po_edit_account string

text \<open>The answer of a call: an error's message, or a value.\<close>

type_synonym answer = "string + js"

definition po_save :: "js \<Rightarrow> answer \<Rightarrow> pool_out list \<times> answer" where
  "po_save p ans = (case ans of
       Inl err \<Rightarrow> ([Po_save (pool_payload p)], Inl err)
     | Inr res \<Rightarrow> ([Po_save (pool_payload p), Po_apply (jget res ''topology'')], Inr res))"

text \<open>\<open>sort\<close>: a carried order saved, its refusal said.\<close>

definition po_sort :: "js \<Rightarrow> string list \<Rightarrow> answer \<Rightarrow> pool_cards \<Rightarrow> pool_out list \<times> js" where
  "po_sort pool_id ids ans s =
     (let stored = po_stored s pool_id in
      if \<not> js_truthy stored then ([], JNull)
      else case pool_ordered ids (js_list (jget stored ''steps'')) of
          None \<Rightarrow> ([], JNull)
        | Some steps \<Rightarrow> (case po_save (js_put ''steps'' (JArr steps) stored) ans of
              (outs, Inl err) \<Rightarrow> (outs @ [Po_say err], JNull)
            | (outs, Inr res) \<Rightarrow> (outs, res)))"

definition fold_step :: "string \<Rightarrow> string \<Rightarrow> pool_cards \<Rightarrow> pool_cards \<times> bool" where
  "fold_step pool_id step_id s =
     (let key = pool_id @ ''/'' @ step_id; opens = (key \<notin> set (po_open s))
      in (s\<lparr>po_open := (if opens then set_add key (po_open s) else set_del key (po_open s))\<rparr>, opens))"

definition toggle_part :: "string \<Rightarrow> pool_cards \<Rightarrow> pool_cards" where
  "toggle_part key s =
     s\<lparr>po_shown := (if key \<in> set (po_shown s) then set_del key (po_shown s) else set_add key (po_shown s))\<rparr>"

definition cut_id :: string where
  "cut_id = ''__cut__''"

definition pool_label :: "js \<Rightarrow> js" where
  "pool_label p = js_or (jget p ''name'') (jget p ''id'')"

text \<open>\<open>[a, b, ...].filter(Boolean).join(" ")\<close>.\<close>

definition join_words :: "string list \<Rightarrow> string" where
  "join_words ws = js_join '' '' (filter (\<lambda>w. w \<noteq> []) ws)"

definition delete_done :: "dict \<Rightarrow> pool_cards \<Rightarrow> string \<Rightarrow> js \<Rightarrow> pool_out list" where
  "delete_done t s name res =
     Po_say (if js_truthy (jget res ''onto'')
             then t ''poolDeletedMoved'' [(''name'', name),
               (''onto'', js_string (js_or (jget (find_id (po_pools s) (jget res ''onto'')) ''name'') (jget res ''onto''))),
               (''n'', js_string (js_nn (jget res ''moved'') (JNum 0)))]
             else if js_truthy (jget res ''cut'') then t ''poolDeletedCut'' [(''name'', name), (''n'', js_string (jget res ''cut''))]
             else t ''poolDeleted'' [(''name'', name)])
     # (if js_truthy (jget res ''topology'') then [Po_apply (jget res ''topology'')] else [])"

definition delete_call :: "dict \<Rightarrow> pool_cards \<Rightarrow> js \<Rightarrow> string \<Rightarrow> js option \<Rightarrow> answer \<Rightarrow> pool_out list \<times> js" where
  "delete_call t s pool_id name resolution ans =
     (case ans of
        Inl err \<Rightarrow> ([Po_delete pool_id resolution, Po_say err], JNull)
      | Inr res \<Rightarrow> (Po_delete pool_id resolution # delete_done t s name res, res))"

text \<open>\<open>remove\<close>: what leads to the pool is asked first; with nothing leading to it the question is
  plain (\<open>sure\<close>), else it asks where the cables go (\<open>choice\<close>).\<close>

definition po_remove ::
  "dict \<Rightarrow> js \<Rightarrow> answer \<Rightarrow> bool \<Rightarrow> js option \<Rightarrow> answer \<Rightarrow> pool_cards \<Rightarrow> pool_out list \<times> js" where
  "po_remove t pool_id refs sure choice ans s =
     (let pool = po_stored s pool_id in
      if \<not> js_truthy pool then ([], JNull)
      else case refs of
          Inl err \<Rightarrow> ([Po_refs pool_id, Po_say err], JNull)
        | Inr answer \<Rightarrow>
            (let held = jget answer ''held'' in
             if \<not> js_truthy held then ([Po_refs pool_id, Po_say (t ''poolDeleteUnknown'' [])], JNull)
             else
               (let name = js_string (pool_label pool);
                    clients = map js_string (js_list (js_or (jget answer ''clients'') (JArr [])));
                    clients_line = (if clients \<noteq> [] then t ''poolDeleteClients'' [(''names'', js_join '', '' clients)] else []);
                    rules = js_list (js_or (jget held ''rules'') (JArr []));
                    others = filter (\<lambda>p. jget p ''id'' \<noteq> pool_id) (po_pools s)
                in if \<not> js_truthy (jget held ''cables'') \<and> rules = []
                   then (let asked = [Po_refs pool_id, Po_confirm (join_words [t ''poolDeleteText'' [(''name'', name)], clients_line])] in
                         if \<not> sure then (asked, JNull)
                         else case delete_call t s pool_id name None ans of (outs, r) \<Rightarrow> (asked @ outs, r))
                   else (let asked = [Po_refs pool_id, Po_choose (join_words
                               [t ''poolDeleteHeld'' [(''name'', name), (''cables'', js_string (jget held ''cables'')),
                                  (''rules'', nat_str (length rules))],
                                if JStr ''default'' \<in> set rules then t ''portCloseDefault'' [] else [], clients_line])
                               (map (\<lambda>p. (jget p ''id'', pool_label p)) others @ [(JStr cut_id, JStr (t ''portCloseCut'' []))])] in
                         case choice of
                           None \<Rightarrow> (asked, JNull)
                         | Some c \<Rightarrow>
                             if \<not> js_truthy c then (asked, JNull)
                             else case delete_call t s pool_id name
                                 (Some (if c = JStr cut_id then JObj [(''cut'', JBool True)] else JObj [(''moveTo'', c)])) ans of
                               (outs, r) \<Rightarrow> (asked @ outs, r)))))"

definition po_remove_step ::
  "dict \<Rightarrow> string \<Rightarrow> string \<Rightarrow> bool \<Rightarrow> answer \<Rightarrow> pool_cards \<Rightarrow> pool_cards \<times> pool_out list \<times> js" where
  "po_remove_step t pool_id step_id sure ans s =
     (let pool = po_stored s (JStr pool_id); st = find_id (js_list (jget pool ''steps'')) (JStr step_id) in
      if \<not> js_truthy st then (s, [], JNull)
      else (let asked = Po_confirm (t ''poolStepRemoveText'' [(''step'', step_name s st), (''pool'', js_string (pool_label pool))]) in
        if \<not> sure then (s, [asked], JNull)
        else (let sent = [asked, Po_remove_step (JStr pool_id) (JStr step_id)] in
          case ans of
            Inl err \<Rightarrow> (s, sent @ [Po_say err], JNull)
          | Inr res \<Rightarrow> (s\<lparr>po_open := set_del (pool_id @ ''/'' @ step_id) (po_open s)\<rparr>,
                sent @ (if js_truthy (jget res ''topology'') then [Po_apply (jget res ''topology'')] else []), res))))"

text \<open>A field of a pool changed where it stands: the pool to save, or nothing.\<close>

datatype pool_field = Context_auto bool | Context_length js | Pool_name js | Step_enabled string bool
  | Step_move string int | No_field

definition swap_at :: "nat \<Rightarrow> nat \<Rightarrow> 'a list \<Rightarrow> 'a list" where
  "swap_at i j xs = xs[i := xs ! j, j := xs ! i]"

definition step_index :: "js list \<Rightarrow> string \<Rightarrow> int" where
  "step_index steps i = js_index (map (\<lambda>s. jget s ''id'') steps) (JStr i)"

definition pool_edit :: "pool_field \<Rightarrow> js \<Rightarrow> js option" where
  "pool_edit fld stored =
     (let pool = pool_payload stored; steps = js_list (jget pool ''steps'') in
      case fld of
        Context_auto on \<Rightarrow> Some (js_put ''contextAuto'' (JBool on) pool)
      | Context_length v \<Rightarrow> Some (js_put ''contextLength'' (JStr (js_trim (js_text v))) pool)
      | Pool_name v \<Rightarrow>
          (let name = js_trim (js_text v) in
           if name = [] \<or> JStr name = jget stored ''name'' then None else Some (js_put ''name'' (JStr name) pool))
      | Step_enabled i on \<Rightarrow>
          (let k = step_index steps i in
           if k < 0 then None
           else Some (js_put ''steps'' (JArr (steps[nat k := js_put ''enabled'' (JBool on) (steps ! nat k)])) pool))
      | Step_move i d \<Rightarrow>
          (let from = step_index steps i; to = from + d in
           if from < 0 \<or> to < 0 \<or> to \<ge> int (length steps) then None
           else Some (js_put ''steps'' (JArr (swap_at (nat from) (nat to) steps)) pool))
      | No_field \<Rightarrow> None)"

text \<open>The lane's change of a field: the edited pool is sent, a refusal said.\<close>

definition pool_field_save :: "pool_field \<Rightarrow> string \<Rightarrow> answer \<Rightarrow> pool_cards \<Rightarrow> pool_out list" where
  "pool_field_save fld pool_id ans s =
     (let stored = po_stored s (JStr pool_id) in
      if \<not> js_truthy stored then []
      else case pool_edit fld stored of
          None \<Rightarrow> []
        | Some p \<Rightarrow> (case po_save p ans of (outs, Inl err) \<Rightarrow> outs @ [Po_say err] | (outs, Inr res) \<Rightarrow> outs))"

section \<open>A carried order is a rearrangement\<close>

definition step_id :: "js \<Rightarrow> js" where
  "step_id st = jget st ''id''"

lemma place_of_Some:
  assumes "place_of steps i = Some k"
  shows "k < length steps" "step_id (steps ! k) = JStr i"
  using assms unfolding place_of_def step_id_def by (auto dest!: find_SomeD)

lemma place_of_None: "place_of steps i = None \<longleftrightarrow> JStr i \<notin> set (map step_id steps)"
  unfolding place_of_def step_id_def find_None_iff set_map set_rev set_upt
  by (auto simp: image_iff in_set_conv_nth set_conv_nth)

lemma place_of_nth:
  assumes "distinct (map step_id steps)" "k < length steps" "step_id (steps ! k) = JStr i"
  shows "place_of steps i = Some k"
proof -
  have "place_of steps i \<noteq> None"
    using assms place_of_None [of steps i] by (metis in_set_conv_nth length_map nth_map)
  then obtain j where j: "place_of steps i = Some j" by blast
  with place_of_Some [OF j] assms have "j = k"
    by (metis distinct_conv_nth length_map nth_map)
  with j show ?thesis by simp
qed

lemma distinct_indices_perm:
  assumes "distinct ks" "length ks = n" "set ks \<subseteq> {..<n}"
  shows "mset ks = mset [0..<n]"
proof -
  have "set ks = {..<n}"
    using assms by (intro card_subset_eq) (auto simp: distinct_card)
  with assms(1) show ?thesis
    by (metis atLeast0LessThan mset_set_set mset_upt)
qed

lemma map_nth_mset:
  "mset ks = mset [0..<length xs] \<Longrightarrow> mset (map ((!) xs) ks) = mset xs"
  by (metis map_nth mset_map)

lemma pool_ordered_eq:
  "pool_ordered ids steps = Some ys \<longleftrightarrow>
     length ids = length steps \<and> distinct ids \<and> (\<forall>i\<in>set ids. place_of steps i \<noteq> None)
     \<and> map (the \<circ> place_of steps) ids \<noteq> [0..<length steps]
     \<and> ys = map ((!) steps) (map (the \<circ> place_of steps) ids)"
proof -
  have n: "None \<in> set (map (place_of steps) ids) \<longleftrightarrow> \<not> (\<forall>i\<in>set ids. place_of steps i \<noteq> None)"
    by (auto simp: image_iff intro: bexI sym)
  show ?thesis
    unfolding pool_ordered_def Let_def n map_map comp_def by auto
qed

lemma pool_ordered_Some:
  assumes "pool_ordered ids steps = Some ys"
  shows "distinct ids" "length ids = length steps" "map step_id ys = map JStr ids" "mset ys = mset steps"
    "map (the \<circ> place_of steps) ids \<noteq> [0..<length steps]"
proof -
  let ?ks = "map (the \<circ> place_of steps) ids"
  from assms have d: "distinct ids" and l: "length ids = length steps"
    and n: "\<forall>i\<in>set ids. place_of steps i \<noteq> None" and ne: "?ks \<noteq> [0..<length steps]"
    and ys: "ys = map ((!) steps) ?ks"
    unfolding pool_ordered_eq by blast+
  have at: "the (place_of steps i) < length steps \<and> step_id (steps ! the (place_of steps i)) = JStr i"
    if "i \<in> set ids" for i
    using n that place_of_Some by fastforce
  have "inj_on (the \<circ> place_of steps) (set ids)"
    by (rule inj_onI) (metis at comp_apply js.inject(3))
  with d have "distinct ?ks" by (simp add: distinct_map)
  moreover have "set ?ks \<subseteq> {..<length steps}" using at by auto
  ultimately have "mset ?ks = mset [0..<length steps]"
    using l distinct_indices_perm by (metis length_map)
  then show "mset ys = mset steps" unfolding ys by (rule map_nth_mset)
  show "map step_id ys = map JStr ids" unfolding ys using at by simp
  show "distinct ids" by (rule d)
  show "length ids = length steps" by (rule l)
  show "?ks \<noteq> [0..<length steps]" by (rule ne)
qed

lemma pool_ordered_ids_distinct:
  assumes "map step_id ys = map JStr ids" "mset ys = mset steps" "distinct ids"
  shows "distinct (map step_id steps)"
proof -
  have "distinct (map step_id ys)" using assms(1,3) by (simp add: distinct_map inj_on_def)
  moreover have "mset (map step_id ys) = mset (map step_id steps)" using assms(2) by simp
  ultimately show ?thesis by (metis mset_eq_imp_distinct_iff)
qed

lemma places_of_ids:
  assumes "distinct (map step_id steps)" "map step_id steps = map JStr ids"
  shows "map (the \<circ> place_of steps) ids = [0..<length steps]"
proof (rule nth_equalityI)
  show "length (map (the \<circ> place_of steps) ids) = length [0..<length steps]"
    using assms(2) by (metis length_map length_upt minus_nat.diff_0)
next
  fix k assume "k < length (map (the \<circ> place_of steps) ids)"
  moreover from this have "k < length steps" "step_id (steps ! k) = JStr (ids ! k)"
    using assms(2) by (metis length_map, metis length_map nth_map)
  ultimately show "map (the \<circ> place_of steps) ids ! k = [0..<length steps] ! k"
    using place_of_nth [OF assms(1)] by simp
qed

lemma pool_ordered_changes:
  assumes "pool_ordered ids steps = Some ys"
  shows "ys \<noteq> steps"
proof
  assume eq: "ys = steps"
  note s = pool_ordered_Some [OF assms]
  from pool_ordered_ids_distinct [OF s(3,4,1)] s(3,5) eq show False
    using places_of_ids by blast
qed

interpretation po_order: reordering pool_ordered
  by unfold_locales (auto dest: pool_ordered_Some(4) pool_ordered_changes)

lemma pool_ordered_of_ids:
  assumes ids: "map step_id ys = map JStr ids" and m: "mset ys = mset steps" and d: "distinct ids"
    and ne: "ys \<noteq> steps"
  shows "pool_ordered ids steps = Some ys"
proof -
  note ds = pool_ordered_ids_distinct [OF ids m d]
  have l: "length ids = length steps" using ids m by (metis length_map size_mset)
  have ly: "length ys = length ids" using ids by (metis length_map)
  have found: "\<exists>j. place_of steps (ids ! k) = Some j \<and> steps ! j = ys ! k" if k: "k < length ids" for k
  proof -
    have "ys ! k \<in> set steps" using k ly m by (metis nth_mem set_mset_mset)
    then obtain j where j: "j < length steps" "steps ! j = ys ! k" by (auto simp: in_set_conv_nth)
    have "step_id (ys ! k) = JStr (ids ! k)" using ids k ly by (metis nth_map)
    with j place_of_nth [OF ds j(1)] show ?thesis by metis
  qed
  then have n: "None \<notin> set (map (place_of steps) ids)" by (fastforce simp: in_set_conv_nth)
  have ys: "ys = map (\<lambda>k. steps ! the k) (map (place_of steps) ids)"
    by (rule nth_equalityI) (use ly found in fastforce)+
  have "map the (map (place_of steps) ids) \<noteq> [0..<length steps]"
  proof
    assume "map the (map (place_of steps) ids) = [0..<length steps]"
    moreover have "ys = map ((!) steps) (map the (map (place_of steps) ids))" using ys by (simp add: comp_def)
    ultimately have "ys = map ((!) steps) [0..<length steps]" by simp
    with ne show False by (simp add: map_nth)
  qed
  with n l d ys show ?thesis unfolding pool_ordered_def Let_def by simp
qed

text \<open>(C23) A carried order of a pool's steps is taken exactly when it is one: the answer, when there is
  one, holds the very steps of the pool, each once, in the order the ids name them, and is not the
  order there was; and every such order is taken.
\<close>

theorem po_order_is_a_rearrangement:
  "pool_ordered ids steps = Some ys \<longleftrightarrow>
     map (\<lambda>st. jget st ''id'') ys = map JStr ids \<and> mset ys = mset steps \<and> distinct ids \<and> ys \<noteq> steps"
  using pool_ordered_Some [of ids steps ys] pool_ordered_changes pool_ordered_of_ids
  unfolding step_id_def by blast

section \<open>What is sent back\<close>

lemma said_fields_get:
  "jget (said_fields kvs) k = (case map_of (filter (\<lambda>(k, v). v \<noteq> JUndef) kvs) k of Some v \<Rightarrow> v | None \<Rightarrow> JUndef)"
  by (simp add: said_fields_def jget_def)

lemma said_fields_Nil [simp]: "jget (said_fields []) k = JUndef"
  by (simp add: said_fields_def)

lemma said_fields_Cons [simp]:
  "k \<notin> fst ` set kvs \<Longrightarrow> jget (said_fields ((k, v) # kvs)) k = v"
  "k' \<noteq> k \<Longrightarrow> jget (said_fields ((k, v) # kvs)) k' = jget (said_fields kvs) k'"
  by (auto simp: said_fields_def jget_def split: option.splits dest!: map_of_SomeD)
    (metis fst_conv image_eqI)

lemma levels_levels [simp]: "levels (levels v) = levels v"
  by (simp add: levels_def js_fields_def)

lemma js_nn_idem [simp]: "js_nn (js_nn v (JStr [])) (JStr []) = js_nn v (JStr [])"
  by (simp add: js_nn_def)

lemma step_payload_get [simp]:
  "jget (step_payload st) ''id'' = jget st ''id''"
  "jget (step_payload st) ''accountId'' = jget st ''accountId''"
  "jget (step_payload st) ''model'' = jget st ''model''"
  "jget (step_payload st) ''enabled'' = JBool (jget st ''enabled'' \<noteq> JBool False)"
  "jget (step_payload st) ''switchAt'' = levels (jget st ''switchAt'')"
  "jget (step_payload st) ''stopAt'' = levels (jget st ''stopAt'')"
  by (simp_all add: step_payload_def)

lemma pool_payload_get [simp]:
  "jget (pool_payload p) ''id'' = jget p ''id''"
  "jget (pool_payload p) ''name'' = jget p ''name''"
  "jget (pool_payload p) ''contextAuto'' = JBool (js_truthy (jget p ''contextAuto''))"
  "jget (pool_payload p) ''contextLength'' = js_nn (jget p ''contextLength'') (JStr [])"
  "jget (pool_payload p) ''steps'' = JArr (map step_payload (pool_steps p))"
  by (simp_all add: pool_payload_def)

lemma step_payload_idem: "step_payload (step_payload st) = step_payload st"
  unfolding step_payload_def [of "step_payload st"] step_payload_get levels_levels
  by (simp add: step_payload_def)

lemma pool_steps_payload [simp]: "pool_steps (pool_payload p) = map step_payload (pool_steps p)"
  by (simp add: pool_steps_def)

text \<open>A pool sent back is sent as the server takes it: preparing it once more changes nothing, so
  an edit that starts from the prepared pool sends its own change and nothing else.
\<close>

theorem po_payload_is_stable: "pool_payload (pool_payload p) = pool_payload p"
  unfolding pool_payload_def [of "pool_payload p"] pool_payload_get pool_steps_payload js_nn_idem
    map_map comp_def step_payload_idem
  by (simp add: pool_payload_def)

section \<open>Nothing is deleted unasked\<close>

lemma delete_done_no_delete: "Po_delete i r \<notin> set (delete_done t s name res)"
  by (simp add: delete_done_def)

lemma delete_call_sends:
  "Po_delete i r \<in> set (fst (delete_call t s pid name res ans)) \<longleftrightarrow> i = pid \<and> r = res"
  by (auto simp: delete_call_def delete_done_no_delete split: sum.splits)

text \<open>What leads to the pool, as the controller answered.\<close>

definition nothing_leads :: "js \<Rightarrow> bool" where
  "nothing_leads held \<longleftrightarrow> \<not> js_truthy (jget held ''cables'') \<and> js_list (js_or (jget held ''rules'') (JArr [])) = []"

text \<open>(C22) A pool's delete is sent exactly when the pool is there, the controller said what leads to it,
  and the operator answered that question: yes to the plain one when nothing leads to it, and then
  with no resolution; with cables or rules, a choice where they go, and then with that choice.
\<close>

theorem po_delete_is_answered_for:
  "Po_delete i r \<in> set (fst (po_remove t pid refs sure choice ans s)) \<longleftrightarrow>
     i = pid \<and> js_truthy (po_stored s pid) \<and>
     (\<exists>a. refs = Inr a \<and> js_truthy (jget a ''held'') \<and>
        (if nothing_leads (jget a ''held'') then sure \<and> r = None
         else \<exists>c. choice = Some c \<and> js_truthy c
               \<and> r = Some (if c = JStr cut_id then JObj [(''cut'', JBool True)] else JObj [(''moveTo'', c)])))"
proof (cases refs)
  case (Inl err)
  then show ?thesis by (simp add: po_remove_def Let_def)
next
  case (Inr a)
  define dc where "dc = delete_call t s pid (js_string (pool_label (po_stored s pid)))"
  have sends: "Po_delete i r \<in> set (fst (dc res ans)) \<longleftrightarrow> i = pid \<and> r = res" for res
    unfolding dc_def by (rule delete_call_sends)
  show ?thesis
  proof (cases "js_truthy (po_stored s pid) \<and> js_truthy (jget a ''held'')")
    case False
    then show ?thesis unfolding Inr po_remove_def Let_def by auto
  next
    case True
    show ?thesis
    proof (cases "nothing_leads (jget a ''held'')")
      case led: True
      with True show ?thesis
        unfolding Inr po_remove_def Let_def nothing_leads_def [symmetric] dc_def [symmetric]
        by (simp add: case_prod_beta sends)
    next
      case led: False
      with True show ?thesis
        unfolding Inr po_remove_def Let_def nothing_leads_def [symmetric] dc_def [symmetric]
        by (cases choice) (simp_all add: case_prod_beta sends)
    qed
  qed
qed

end
