(* ===== verification/ModelJobs.thy ===== *)
theory ModelJobs
  imports JsValue
begin

text \<open>
  What a model does (\<open>static/js/model-jobs.js\<close>): the vocabulary of jobs, in the order its chips are drawn,
  and the rules that name the jobs of a model in the picker, of what a cell reports, and of a running
  cell. A job is a datatype ordered as the vocabulary is; a set of found jobs is the list they were
  found in.
\<close>

datatype job = Llm | Embed | Asr | Tts | Translate | SpeechTranslate | VoiceChat | RobotPolicy

definition jobs_all :: "job list" where
  "jobs_all = [Llm, Embed, Asr, Tts, Translate, SpeechTranslate, VoiceChat, RobotPolicy]"

fun job_index :: "job \<Rightarrow> nat" where
  "job_index Llm = 0"
| "job_index Embed = 1"
| "job_index Asr = 2"
| "job_index Tts = 3"
| "job_index Translate = 4"
| "job_index SpeechTranslate = 5"
| "job_index VoiceChat = 6"
| "job_index RobotPolicy = 7"

text \<open>The vocabulary's order is the order of the type.\<close>

instantiation job :: linorder
begin

definition less_eq_job :: "job \<Rightarrow> job \<Rightarrow> bool" where
  "less_eq_job a b = (job_index a \<le> job_index b)"

definition less_job :: "job \<Rightarrow> job \<Rightarrow> bool" where
  "less_job a b = (job_index a < job_index b)"

instance
proof
  fix a b c :: job
  show "a < b \<longleftrightarrow> a \<le> b \<and> \<not> b \<le> a" by (auto simp: less_eq_job_def less_job_def)
  show "a \<le> a" by (simp add: less_eq_job_def)
  show "a \<le> b \<Longrightarrow> b \<le> c \<Longrightarrow> a \<le> c" by (simp add: less_eq_job_def)
  show "a \<le> b \<Longrightarrow> b \<le> a \<Longrightarrow> a = b" by (cases a; cases b) (simp_all add: less_eq_job_def)
  show "a \<le> b \<or> b \<le> a" by (auto simp: less_eq_job_def)
qed

end

fun job_name :: "job \<Rightarrow> string" where
  "job_name Llm = ''llm''"
| "job_name Embed = ''embed''"
| "job_name Asr = ''asr''"
| "job_name Tts = ''tts''"
| "job_name Translate = ''translate''"
| "job_name SpeechTranslate = ''speech-translate''"
| "job_name VoiceChat = ''voice-chat''"
| "job_name RobotPolicy = ''robot-policy''"

fun job_mark :: "job \<Rightarrow> string" where
  "job_mark Llm = [CHR 0xF0, CHR 0x9F, CHR 0x92, CHR 0xAC]"
| "job_mark Embed = [CHR 0xF0, CHR 0x9F, CHR 0xA7, CHR 0xAC]"
| "job_mark Asr = [CHR 0xF0, CHR 0x9F, CHR 0x8E, CHR 0xA7]"
| "job_mark Tts = [CHR 0xF0, CHR 0x9F, CHR 0x94, CHR 0x8A]"
| "job_mark Translate = [CHR 0xF0, CHR 0x9F, CHR 0x8C, CHR 0x90]"
| "job_mark SpeechTranslate = [CHR 0xF0, CHR 0x9F, CHR 0x8E, CHR 0xA7, CHR 0xF0, CHR 0x9F, CHR 0x8C, CHR 0x90]"
| "job_mark VoiceChat = [CHR 0xF0, CHR 0x9F, CHR 0x97, CHR 0xA3, CHR 0xEF, CHR 0xB8, CHR 0x8F]"
| "job_mark RobotPolicy = [CHR 0xF0, CHR 0x9F, CHR 0xA6, CHR 0xBE]"

fun job_label :: "job \<Rightarrow> string" where
  "job_label Llm = ''jobLlm''"
| "job_label Embed = ''jobEmbed''"
| "job_label Asr = ''jobAsr''"
| "job_label Tts = ''jobTts''"
| "job_label Translate = ''jobTranslate''"
| "job_label SpeechTranslate = ''jobSpeechTranslate''"
| "job_label VoiceChat = ''jobVoiceChat''"
| "job_label RobotPolicy = ''jobRobotPolicy''"

section \<open>The tables\<close>

definition kind_aliases :: "(string \<times> job) list" where
  "kind_aliases = [(''stt'', Asr),
     (''asr'', Asr),
     (''tts'', Tts),
     (''translate'', Translate),
     (''speech-translate'', SpeechTranslate),
     (''llm'', Llm),
     (''embed'', Embed),
     (''vlm'', Llm),
     (''embedding'', Embed),
     (''voice-chat'', VoiceChat),
     (''robot-policy'', RobotPolicy),
     (''vla'', RobotPolicy)]"

definition runner_jobs :: "(string \<times> job list) list" where
  "runner_jobs = [(''llama-server'', [Llm]),
     (''prism'', [Llm]),
     (''vllm'', [Llm]),
     (''strata'', [Llm]),
     (''whisper'', [Asr]),
     (''moonshine'', [Asr, Tts]),
     (''transcribe'', [Asr]),
     (''seamless'', [SpeechTranslate]),
     (''translate'', [Translate]),
     (''gr00t'', [RobotPolicy]),
     (''personaplex'', [VoiceChat]),
     (''lfm-audio'', [Tts]),
     (''step-audio2'', [Llm, VoiceChat]),
     (''qwen3-omni'', [Llm, VoiceChat]),
     (''minicpm-omni'', [VoiceChat])]"

definition arch_jobs :: "(string \<times> job list) list" where
  "arch_jobs = [(''personaplex'', [VoiceChat]),
     (''Lfm2AudioForConditionalGeneration'', [Tts]),
     (''step_audio_2'', [Llm, VoiceChat]),
     (''qwen3_omni_moe'', [Llm, VoiceChat])]"

section \<open>The rules\<close>

definition jobs_ordered :: "job list \<Rightarrow> job list" where
  "jobs_ordered found = filter (\<lambda>job. job \<in> set found) jobs_all"

definition jobs_for_artifact :: "js \<Rightarrow> js \<Rightarrow> js \<Rightarrow> js \<Rightarrow> job list" where
  "jobs_for_artifact kind stt_variant arch family =
     (let k = js_trim (js_string (js_or kind (JStr [])))
      in if k = ''model'' then
           (if js_trim (js_string (js_or stt_variant (JStr []))) \<noteq> [] then [Asr]
            else if js_string (js_or family (JStr [])) = ''embedding'' then [Embed] else [Llm])
         else if k = ''st'' then
           (let a = js_string (js_or arch (JStr []))
            in if prefix ''seamless_m4t'' a then [SpeechTranslate]
               else case map_of arch_jobs a of Some js \<Rightarrow> js
                 | None \<Rightarrow> if prefix ''gr00t'' (js_lower a) then [RobotPolicy] else [Llm])
         else if k = ''whisper'' then [Asr]
         else if k = ''moonshine'' then [Asr, Tts]
         else if k = ''translate'' then [Translate]
         else [])"

text \<open>A word of \<open>kinds\<close> is read by its first segment.\<close>

definition job_of_kind :: "js \<Rightarrow> job option" where
  "job_of_kind raw =
     map_of kind_aliases (hd (js_split CHR ''.'' (js_lower (js_trim (js_string (js_or raw (JStr [])))))))"

definition jobs_from_kinds :: "js \<Rightarrow> job list" where
  "jobs_from_kinds kinds = jobs_ordered (List.map_filter job_of_kind (js_list kinds))"

definition jobs_for_cell :: "js \<Rightarrow> js \<Rightarrow> job list" where
  "jobs_for_cell runner_id kinds =
     (let live = jobs_from_kinds kinds
      in if live \<noteq> [] then live
         else jobs_ordered (case map_of runner_jobs (js_lower (js_trim (js_string (js_or runner_id (JStr []))))) of
                Some js \<Rightarrow> js | None \<Rightarrow> []))"

definition cell_runner_id :: "js \<Rightarrow> string" where
  "cell_runner_id cfg =
     (let r = js_lower (js_trim (js_string (js_or (jget cfg ''RUNNER'') (JStr []))))
      in if r \<noteq> [] then r
         else if js_lower (js_string (js_or (jget cfg ''CELL_KIND'') (JStr []))) = ''command'' then ''custom''
         else ''llama-server'')"

definition cell_jobs :: "js \<Rightarrow> js \<Rightarrow> js \<Rightarrow> job list" where
  "cell_jobs runner_id cell_meta cfg =
     (let embeds = js_lower (js_trim (js_string (js_or (jget cfg ''ENABLE_EMBEDDINGS'') (JStr []))))
      in if embeds \<notin> {[], ''0'', ''no'', ''false'', ''off''} then [Embed]
         else if js_keys cfg = [] then jobs_for_cell (JStr []) (jget cell_meta ''kinds'')
         else jobs_for_cell runner_id (jget cell_meta ''kinds''))"

section \<open>What the rules name\<close>

lemma set_jobs_all: "set jobs_all = UNIV"
proof -
  have "j \<in> set jobs_all" for j by (cases j) (simp_all add: jobs_all_def)
  then show ?thesis by blast
qed

lemma set_jobs_ordered [simp]: "set (jobs_ordered found) = set found"
  by (simp add: jobs_ordered_def set_jobs_all)

lemma sorted_jobs_all: "sorted_wrt (<) jobs_all"
  by (simp add: jobs_all_def less_job_def)

lemma sorted_jobs_ordered: "sorted_wrt (<) (jobs_ordered found)"
  unfolding jobs_ordered_def by (rule sorted_wrt_filter [OF sorted_jobs_all])

lemma job_of_kind_name [simp]: "job_of_kind (JStr (job_name j)) = Some j"
proof -
  have "list_all (\<lambda>j. job_of_kind (JStr (job_name j)) = Some j) jobs_all" by code_simp
  then show ?thesis by (simp add: list_all_iff set_jobs_all)
qed

lemma mem_map_filter: "j \<in> set (List.map_filter f xs) \<longleftrightarrow> (\<exists>x \<in> set xs. f x = Some j)"
  by (induction xs) (auto simp: List.map_filter_def split: option.splits)

lemma jobs_ordered_eq_iff: "jobs_ordered xs = jobs_ordered ys \<longleftrightarrow> set xs = set ys"
  by (metis jobs_ordered_def set_jobs_ordered)

section \<open>Properties\<close>

text \<open>Two cells that report the same jobs draw the same chips in the same places: what is read from a
  report is the reported jobs in the order of the vocabulary, each once, whatever the order, the
  repetitions and the unknown words of the report; the names of the jobs themselves are read back
  exactly; and a report that names a job outranks the runner's table.\<close>

theorem jobs_reports_are_ordered:
  "sorted_wrt (<) (jobs_from_kinds kinds) \<and>
   (\<forall>j. j \<in> set (jobs_from_kinds kinds) \<longleftrightarrow> (\<exists>raw \<in> set (js_list kinds). job_of_kind raw = Some j)) \<and>
   jobs_from_kinds (JArr (map (\<lambda>j. JStr (job_name j)) js)) = jobs_ordered js \<and>
   (jobs_from_kinds kinds \<noteq> [] \<longrightarrow> jobs_for_cell runner_id kinds = jobs_from_kinds kinds)"
proof -
  have "List.map_filter job_of_kind (map (\<lambda>j. JStr (job_name j)) js) = js"
    by (induction js) (simp_all add: List.map_filter_def)
  then show ?thesis
    by (simp add: jobs_from_kinds_def sorted_jobs_ordered jobs_for_cell_def Let_def mem_map_filter)
qed

theorem jobs_reports_are_ordered_witness:
  "jobs_for_cell (JStr ''custom'') (JArr [JStr ''tts.xtts'', JStr ''stt.whisper'']) = [Asr, Tts]"
proof -
  have k: "jobs_from_kinds (JArr [JStr ''tts.xtts'', JStr ''stt.whisper'']) = [Asr, Tts]" by code_simp
  then show ?thesis
    using jobs_reports_are_ordered [of "JArr [JStr ''tts.xtts'', JStr ''stt.whisper'']" "[]" "JStr ''custom''"] by simp
qed

text \<open>An embedding server is never drawn as a chat model: whatever its runner and its report, a cell
  whose settings switch embeddings on does embeddings and nothing else, and a cell with no settings on
  record does what it reports, never what llama-server usually does.\<close>

theorem jobs_of_embedding_cells:
  assumes "jget cfg ''ENABLE_EMBEDDINGS'' = JStr w" "js_lower (js_trim w) \<notin> {[], ''0'', ''no'', ''false'', ''off''}"
  shows "cell_jobs runner_id cell_meta cfg = [Embed] \<and>
    cell_jobs runner_id cell_meta (JObj []) = jobs_from_kinds (jget cell_meta ''kinds'')"
proof -
  have "map_of runner_jobs (js_lower (js_trim (js_string (js_or (JStr []) (JStr []))))) = None" by code_simp
  then have "jobs_for_cell (JStr []) kinds = jobs_from_kinds kinds" for kinds
    by (simp add: jobs_for_cell_def Let_def jobs_ordered_def)
  moreover have none: "js_lower (js_trim []) = []" by code_simp
  moreover have "w \<noteq> []" using assms(2) none by auto
  ultimately show ?thesis using assms
    by (auto simp: cell_jobs_def Let_def js_or_def js_keys_def js_uniq_def)
qed

theorem jobs_of_embedding_cells_witness:
  "cell_jobs (JStr ''llama-server'') JUndef (JObj [(''ENABLE_EMBEDDINGS'', JStr '' ON '')]) = [Embed]"
proof -
  have "js_lower (js_trim '' ON '') \<notin> {[], ''0'', ''no'', ''false'', ''off''}" by code_simp
  then show ?thesis using jobs_of_embedding_cells [of "JObj [(''ENABLE_EMBEDDINGS'', JStr '' ON '')]" "'' ON ''"] by simp
qed

end
