(* ===== verification/OutputCells.thy ===== *)
theory OutputCells
  imports ModelJobs
begin

text \<open>
  The cell behind each local row of Routing (\<open>static/js/output-cells.js\<close>), with the machine an address
  names (\<open>machineAt\<close> in \<open>static/js/topology-nodes.js\<close>). The board's topology and a router's record are
  JSON values; an output (\<open>out\<close>) is one too. The short name read from a model's path (\<open>parseModelName\<close>
  in \<open>model-meta.js\<close>) is the parameter \<open>model_label\<close>, empty where the source gets none.
\<close>

section \<open>Machines and records\<close>

definition oc_loopback :: "string list" where
  "oc_loopback = [''127.0.0.1'', ''localhost'', ''::1'']"

record oc_place =
  oc_key :: string
  oc_name :: string
  oc_address :: string

definition oc_machine_at :: "js \<Rightarrow> js \<Rightarrow> oc_place" where
  "oc_machine_at topology address =
     (let addr = js_trim (js_text address);
          nodes = js_list (jget topology ''nodes'');
          server = jget topology ''server'';
          own = (addr = [] \<or> addr \<in> set oc_loopback \<or> addr = js_text (jget server ''ip''));
          node = (if own then find (\<lambda>n. js_truthy (jget n ''controllerMachine'')) nodes
                  else find (\<lambda>n. js_text (jget n ''ip'') = addr) nodes)
      in case node of
           Some n \<Rightarrow> \<lparr>oc_key = js_string (jget n ''id''), oc_name = js_string (js_or (jget n ''name'') (jget n ''id'')),
                      oc_address = js_string (js_or (jget n ''ip'') (JStr addr))\<rparr>
         | None \<Rightarrow>
             if own then let address = js_string (js_or (js_or (jget server ''ip'') (JStr addr)) (JStr ''127.0.0.1''))
                         in \<lparr>oc_key = ''controller'', oc_name = js_string (js_or (jget server ''hostname'') (JStr address)),
                             oc_address = address\<rparr>
             else \<lparr>oc_key = addr, oc_name = addr, oc_address = addr\<rparr>)"

definition oc_phases :: "(string \<times> string) list" where
  "oc_phases = [(''running'', ''running''), (''stopped'', ''stopped''), (''reserved'', ''stopped''),
     (''starting'', ''starting''), (''loading'', ''starting''), (''warming'', ''starting''), (''downloading'', ''starting''),
     (''stopping'', ''stopping''), (''error'', ''failed''), (''broken'', ''failed'')]"

definition oc_engine :: "(string \<times> string) list" where
  "oc_engine = [(''ok'', ''running''), (''stopped'', ''stopped''), (''auth'', ''failed''), (''unreachable'', ''failed'')]"

definition oc_machine :: "(string \<times> string) list" where
  "oc_machine = [(''running'', ''running''), (''starting'', ''starting''), (''failed'', ''failed''), (''stopped'', ''stopped'')]"

definition oc_words :: "(string \<times> string) list" where
  "oc_words = [(''stopped'', ''stopped''), (''starting'', ''starting''), (''stopping'', ''rtCellStopping''),
     (''failed'', ''failed''), (''unknown'', ''unknown'')]"

definition oc_named :: "js \<Rightarrow> bool" where
  "oc_named out = (js_text (jget out ''upstreamType'') \<in> {''engine'', ''machine''})"

definition oc_is_machine :: "js \<Rightarrow> bool" where
  "oc_is_machine out = (js_text (jget out ''upstreamType'') = ''machine'')"

definition oc_upstream :: "js \<Rightarrow> string" where
  "oc_upstream out =
     (let base = js_text (jget out ''upstreamHost'') @ '':'' @ js_text (jget out ''upstreamPort'')
      in if oc_is_machine out then base @ ''/'' @ js_text (jget out ''upstreamModel'') else base)"

definition oc_node_at :: "js \<Rightarrow> js \<Rightarrow> js option" where
  "oc_node_at topology out =
     (let key = (if oc_named out then js_text (jget out ''hostId'')
                 else oc_key (oc_machine_at topology (js_or (jget out ''upstreamHost'') (JStr ''127.0.0.1''))))
      in find (\<lambda>n. js_string (jget n ''id'') = key) (js_list (jget topology ''nodes'')))"

text \<open>\<open>this.nodeAt(out)?.field || []\<close>.\<close>

definition oc_node_list :: "js \<Rightarrow> js \<Rightarrow> string \<Rightarrow> js list" where
  "oc_node_list topology out field = (case oc_node_at topology out of None \<Rightarrow> [] | Some n \<Rightarrow> js_list (jget n field))"

definition oc_cell_of :: "js \<Rightarrow> js \<Rightarrow> js option" where
  "oc_cell_of topology out =
     (if oc_is_machine out then None
      else find (\<lambda>s. jnum_eq (js_number (jget s ''port'')) (js_number (jget out ''upstreamPort'')))
             (oc_node_list topology out ''servers''))"

definition oc_model_of :: "js \<Rightarrow> js \<Rightarrow> js option" where
  "oc_model_of topology out =
     (if \<not> oc_is_machine out then None
      else find (\<lambda>m. js_string (jget m ''id'') = js_text (jget out ''upstreamModel''))
             (oc_node_list topology out ''entryModels''))"

definition oc_copies :: "js \<Rightarrow> js \<Rightarrow> nat" where
  "oc_copies topology out =
     (case oc_model_of topology out of None \<Rightarrow> 0 | Some m \<Rightarrow> length (js_list (jget m ''copies'')))"

definition oc_word :: "(string \<times> string) list \<Rightarrow> string \<Rightarrow> string" where
  "oc_word table w = (case map_of table w of Some x \<Rightarrow> x | None \<Rightarrow> ''unknown'')"

definition oc_field :: "js option \<Rightarrow> string \<Rightarrow> js" where
  "oc_field v k = (case v of None \<Rightarrow> JUndef | Some x \<Rightarrow> jget x k)"

definition oc_state :: "js \<Rightarrow> js \<Rightarrow> string" where
  "oc_state topology out =
     (let kind = js_string (js_or (jget out ''upstreamType'') (JStr ''llama''))
      in if kind = ''cloud'' then []
         else if kind = ''engine'' then
           oc_word oc_engine (js_text (oc_field
             (find (\<lambda>e. js_text (jget e ''kind'') = js_text (jget out ''engine'')) (oc_node_list topology out ''engines'')) ''state''))
         else if kind = ''machine'' then oc_word oc_machine (js_text (oc_field (oc_model_of topology out) ''state''))
         else let cell = oc_cell_of topology out
              in oc_word oc_phases (js_text (js_or (oc_field cell ''phase'') (jget (oc_field cell ''status'') ''phase''))))"

text \<open>\<open>label.replace(/\s*:\d+\s*$/, "")\<close>.\<close>

definition oc_strip_port :: "string \<Rightarrow> string" where
  "oc_strip_port s =
     (let r = dropWhile is_ws (rev s); rest = dropWhile is_digit r
      in if takeWhile is_digit r \<noteq> [] \<and> rest \<noteq> [] \<and> hd rest = CHR '':''
         then rev (dropWhile is_ws (tl rest)) else s)"

definition oc_row_name :: "(js \<Rightarrow> string) \<Rightarrow> js \<Rightarrow> js \<Rightarrow> string" where
  "oc_row_name model_label topology out =
     (if oc_is_machine out then js_string (js_or (js_or (jget out ''upstreamModel'') (jget out ''label'')) (JStr []))
      else let cell = oc_cell_of topology out;
               label = js_trim (js_text (oc_field cell ''cellLabel''));
               own = (if label \<noteq> [] then label else model_label (oc_field cell ''model''))
           in if own \<noteq> [] then own else js_trim (oc_strip_port (js_text (jget out ''label''))))"

definition oc_jobs :: "js \<Rightarrow> js \<Rightarrow> string list" where
  "oc_jobs topology out =
     (if oc_is_machine out then map js_string (js_list (jget out ''jobs''))
      else case oc_cell_of topology out of None \<Rightarrow> []
        | Some cell \<Rightarrow> let cfg = js_or (jget cell ''slotConfig'') (JObj [])
                      in map job_name (cell_jobs (JStr (cell_runner_id cfg)) (jget cell ''cellMeta'') cfg))"

definition oc_marks :: "js \<Rightarrow> js \<Rightarrow> string" where
  "oc_marks topology out = concat (map (\<lambda>w. case find (\<lambda>j. job_name j = w) jobs_all of
     Some j \<Rightarrow> job_mark j | None \<Rightarrow> []) (oc_jobs topology out))"

section \<open>What is folded\<close>

definition oc_reached :: "js \<Rightarrow> string list" where
  "oc_reached router =
     (let rules = jget router ''rules'';
          named = [jget rules ''default'', jget rules ''audioOutput'', jget rules ''embeddingsOutput'']
            @ js_list (jget rules ''failover'')
            @ map (\<lambda>r. jget r ''output'') (js_list (jget rules ''schedule''))
            @ map (\<lambda>r. jget r ''output'') (js_list (jget rules ''bySource''));
          to = map (\<lambda>e. js_text (jget e ''to'')) (js_list (jget (jget router ''graph'') ''edges''))
      in map js_string (filter js_truthy named) @ map (drop 4) (filter (prefix ''out:'') to))"

definition oc_quiet :: "js \<Rightarrow> js \<Rightarrow> js list \<Rightarrow> js list" where
  "oc_quiet topology router outs =
     filter (\<lambda>o'. oc_state topology o' = ''stopped'' \<and> js_string (jget o' ''id'') \<notin> set (oc_reached router)) outs"

definition oc_split :: "js \<Rightarrow> js \<Rightarrow> js list \<Rightarrow> js list \<times> js list" where
  "oc_split topology router outs =
     (let quiet = oc_quiet topology router outs
      in if length quiet < 2 then (outs, []) else (filter (\<lambda>o'. o' \<notin> set quiet) outs, quiet))"

section \<open>What sets twins apart\<close>

definition oc_secret_words :: "string list" where
  "oc_secret_words = [''key'', ''token'', ''secret'', ''pass'', ''auth'', ''cred'', ''env'', ''args'', ''command'', ''cmd'']"

definition oc_secret :: "string \<Rightarrow> bool" where
  "oc_secret k = list_ex (str_includes (js_lower k)) oc_secret_words"

definition oc_own :: "string list" where
  "oc_own = [''PORT'']"

datatype oc_note = OcSame rat | OcDiffer "(string \<times> string option) list"

fun oc_group :: "(string \<times> js list) list \<Rightarrow> string \<Rightarrow> js \<Rightarrow> (string \<times> js list) list" where
  "oc_group [] n o' = [(n, [o'])]"
| "oc_group ((m, os) # gs) n o' = (if m = n then (m, os @ [o']) # gs else (m, os) # oc_group gs n o')"

definition oc_by_name :: "(js \<Rightarrow> string) \<Rightarrow> js \<Rightarrow> js list \<Rightarrow> (string \<times> js list) list" where
  "oc_by_name model_label topology outs =
     foldl (\<lambda>gs o'. oc_group gs (oc_row_name model_label topology o') o') []
       (filter (\<lambda>o'. js_string (js_or (jget o' ''upstreamType'') (JStr ''llama'')) = ''llama'') outs)"

definition oc_setting :: "js \<Rightarrow> string \<Rightarrow> string" where
  "oc_setting cfg k = js_text_nn (jget cfg k)"

definition oc_keys :: "js list \<Rightarrow> string list" where
  "oc_keys cfgs = sort (filter (\<lambda>k. k \<notin> set oc_own \<and> length (js_uniq (map (\<lambda>c. oc_setting c k) cfgs)) > 1)
     (js_uniq (concat (map js_keys cfgs))))"

definition oc_port :: "js \<Rightarrow> rat" where
  "oc_port o' = (case js_number (jget o' ''upstreamPort'') of Fin r \<Rightarrow> r | _ \<Rightarrow> 0)"

definition oc_note_of :: "js list \<Rightarrow> js list \<Rightarrow> nat \<Rightarrow> oc_note" where
  "oc_note_of grp cfgs i =
     (let keys = oc_keys cfgs
      in if keys = [] then OcSame (hd (sort (map oc_port (take i grp @ drop (i + 1) grp))))
         else OcDiffer (map (\<lambda>k. (k, if oc_secret k then None else Some (oc_setting (cfgs ! i) k))) keys))"

text \<open>The notes, in the order they are set: a later one of the same output id stands.\<close>

definition oc_group_notes :: "js \<Rightarrow> js list \<Rightarrow> (js \<times> oc_note) list" where
  "oc_group_notes topology grp =
     (let cfgs = map (\<lambda>o'. oc_field (oc_cell_of topology o') ''slotConfig'') grp
      in if length grp < 2 \<or> list_ex (\<lambda>c. \<not> js_is_object c) cfgs then []
         else map (\<lambda>i. (jget (grp ! i) ''id'', oc_note_of grp cfgs i)) [0 ..< length grp])"

definition oc_twins :: "(js \<Rightarrow> string) \<Rightarrow> js \<Rightarrow> js list \<Rightarrow> (js \<times> oc_note) list" where
  "oc_twins model_label topology outs =
     concat (map (\<lambda>(n, grp). oc_group_notes topology grp) (oc_by_name model_label topology outs))"

section \<open>Properties\<close>

lemma oc_word_range: "oc_word table w \<in> insert ''unknown'' (snd ` set table)"
  by (force simp: oc_word_def split: option.splits dest: map_of_SomeD)

text \<open>A row with no record is never drawn as stopped or idle: the state of a local output is one of six
  words, it is empty for a cloud output alone, and a cell the board has no record of reads unknown.\<close>

theorem oc_state_never_guesses:
  assumes "js_string (js_or (jget out ''upstreamType'') (JStr ''llama'')) = k"
  shows "(k = ''cloud'' \<longleftrightarrow> oc_state topology out = []) \<and>
    (k \<noteq> ''cloud'' \<longrightarrow> oc_state topology out \<in>
       {''running'', ''stopped'', ''starting'', ''stopping'', ''failed'', ''unknown''}) \<and>
    (k \<notin> {''cloud'', ''engine'', ''machine''} \<and> oc_cell_of topology out = None \<longrightarrow> oc_state topology out = ''unknown'') \<and>
    (k = ''machine'' \<and> oc_model_of topology out = None \<longrightarrow> oc_state topology out = ''unknown'')"
proof -
  have words: "oc_word table w \<in> {''running'', ''stopped'', ''starting'', ''stopping'', ''failed'', ''unknown''}"
    if "table \<in> {oc_phases, oc_engine, oc_machine}" for table w
    using oc_word_range [of table w] that by (auto simp: oc_phases_def oc_engine_def oc_machine_def)
  have ne: "oc_word table w \<noteq> []" if "table \<in> {oc_phases, oc_engine, oc_machine}" for table w
    using words [OF that, of w] by auto
  have none: "oc_word oc_phases [] = ''unknown''" "oc_word oc_machine [] = ''unknown''" by code_simp+
  show ?thesis using assms words ne none by (simp add: oc_state_def Let_def oc_field_def)
qed

theorem oc_state_never_guesses_witness:
  "oc_state (JObj []) (JObj [(''upstreamHost'', JStr ''10.0.0.9''), (''upstreamPort'', JNum 8080)]) = ''unknown''"
proof -
  let ?o = "JObj [(''upstreamHost'', JStr ''10.0.0.9''), (''upstreamPort'', JNum 8080)]"
  have k: "js_string (js_or (jget ?o ''upstreamType'') (JStr ''llama'')) = ''llama''" by simp
  have "oc_cell_of (JObj []) ?o = None"
    by (simp add: oc_cell_of_def oc_node_list_def oc_node_at_def Let_def)
  then show ?thesis using oc_state_never_guesses [OF k, of "JObj []"] by simp
qed

text \<open>Folding hides only what nothing leads to: the rows shown and the rows folded are the given rows,
  each in the given order and none twice; only stopped cells that no cable and no rule of the router
  leads to are folded, and never a single row.\<close>

theorem oc_split_folds_only_quiet:
  assumes "oc_split topology router outs = (shown, quiet)"
  shows "mset shown + mset quiet = mset outs \<and> subseq shown outs \<and> subseq quiet outs \<and> length quiet \<noteq> 1 \<and>
    (\<forall>o' \<in> set quiet. oc_state topology o' = ''stopped'' \<and> js_string (jget o' ''id'') \<notin> set (oc_reached router))"
proof (cases "length (oc_quiet topology router outs) < 2")
  case True
  then show ?thesis using assms by (auto simp: oc_split_def)
next
  case False
  let ?q = "\<lambda>o'. oc_state topology o' = ''stopped'' \<and> js_string (jget o' ''id'') \<notin> set (oc_reached router)"
  have parts: "shown = filter (\<lambda>o'. \<not> ?q o') outs" "quiet = filter ?q outs"
    using assms False by (auto simp: oc_split_def oc_quiet_def intro!: filter_cong)
  have "mset shown + mset quiet = mset outs"
    unfolding parts by (induction outs) simp_all
  then show ?thesis using False parts by (auto simp: oc_quiet_def subseq_filter_left)
qed

theorem oc_split_folds_only_quiet_witness:
  "length (snd (oc_split (JObj []) (JObj []) [JObj [(''upstreamType'', JStr ''cloud'')]])) \<noteq> 1"
  using oc_split_folds_only_quiet [of "JObj []" "JObj []" "[JObj [(''upstreamType'', JStr ''cloud'')]]"]
  by (metis prod.collapse)

lemma oc_group_mem:
  "(n, os) \<in> set (oc_group gs m o') \<Longrightarrow> x \<in> set os \<Longrightarrow>
   (n = m \<and> x = o') \<or> (\<exists>os'. (n, os') \<in> set gs \<and> x \<in> set os')"
  by (induction gs m o' rule: oc_group.induct) (auto split: if_splits)

lemma oc_by_name_mem:
  assumes "(n, os) \<in> set (oc_by_name model_label topology outs)" "x \<in> set os"
  shows "x \<in> set outs \<and> oc_row_name model_label topology x = n"
proof -
  let ?name = "oc_row_name model_label topology"
  have gen: "\<forall>(n, os) \<in> set gs. \<forall>x \<in> set os. x \<in> A \<and> ?name x = n \<Longrightarrow> set xs \<subseteq> A \<Longrightarrow>
      (n, os) \<in> set (foldl (\<lambda>gs o'. oc_group gs (?name o') o') gs xs) \<Longrightarrow> x \<in> set os \<Longrightarrow> x \<in> A \<and> ?name x = n" for gs xs A n os x
  proof (induction xs arbitrary: gs)
    case Nil
    then show ?case by auto
  next
    case (Cons o' xs)
    have "\<forall>(n, os) \<in> set (oc_group gs (?name o') o'). \<forall>x \<in> set os. x \<in> A \<and> ?name x = n"
    proof clarify
      fix n os x assume m: "(n, os) \<in> set (oc_group gs (?name o') o')" "x \<in> set os"
      from oc_group_mem [OF m] show "x \<in> A \<and> ?name x = n"
      proof
        assume "n = ?name o' \<and> x = o'"
        then show ?thesis using Cons.prems(2) by simp
      next
        assume "\<exists>os'. (n, os') \<in> set gs \<and> x \<in> set os'"
        then show ?thesis using Cons.prems(1) by blast
      qed
    qed
    then show ?case using Cons.IH [of "oc_group gs (?name o') o'"] Cons.prems by simp
  qed
  show ?thesis by (rule gen [OF _ filter_is_subset assms(1) [unfolded oc_by_name_def] assms(2)]) simp
qed

text \<open>A row never says a secret: among the settings that tell twins apart, one whose name may hold a
  key, a token, an environment or a command line is named without its value, a row's port is never
  listed, the settings are in order, and each one listed really differs between the cells of two rows
  of one name.\<close>

definition oc_settings_of :: "js \<Rightarrow> js \<Rightarrow> js" where
  "oc_settings_of topology o' = oc_field (oc_cell_of topology o') ''slotConfig''"

theorem oc_twins_keep_secrets:
  assumes "(out_id, OcDiffer entries) \<in> set (oc_twins model_label topology outs)"
  shows "(\<forall>(k, v) \<in> set entries. (oc_secret k \<longrightarrow> v = None) \<and> k \<noteq> ''PORT'') \<and> sorted (map fst entries) \<and>
    (\<forall>(k, v) \<in> set entries. \<exists>a \<in> set outs. \<exists>b \<in> set outs.
       oc_row_name model_label topology a = oc_row_name model_label topology b \<and>
       oc_setting (oc_settings_of topology a) k \<noteq> oc_setting (oc_settings_of topology b) k)"
proof -
  from assms obtain n grp i where g: "(n, grp) \<in> set (oc_by_name model_label topology outs)"
    and note_: "OcDiffer entries = oc_note_of grp (map (oc_settings_of topology) grp) i"
    by (auto simp: oc_twins_def oc_group_notes_def oc_settings_of_def [abs_def] Let_def split: if_splits)
  let ?cfgs = "map (oc_settings_of topology) grp"
  have e: "entries = map (\<lambda>k. (k, if oc_secret k then None else Some (oc_setting (?cfgs ! i) k))) (oc_keys ?cfgs)"
    using note_ by (auto simp: oc_note_of_def Let_def split: if_splits)
  have keys: "map fst entries = oc_keys ?cfgs" by (simp add: e comp_def)
  have differ: "\<exists>a \<in> set grp. \<exists>b \<in> set grp. oc_setting (oc_settings_of topology a) k \<noteq> oc_setting (oc_settings_of topology b) k"
    if "k \<in> set (oc_keys ?cfgs)" for k
  proof (rule ccontr)
    assume same: "\<not> (\<exists>a \<in> set grp. \<exists>b \<in> set grp. oc_setting (oc_settings_of topology a) k \<noteq> oc_setting (oc_settings_of topology b) k)"
    let ?u = "js_uniq (map (\<lambda>c. oc_setting c k) ?cfgs)"
    have "\<forall>x \<in> set ?u. \<forall>y \<in> set ?u. x = y"
    proof (intro ballI)
      fix x y assume "x \<in> set ?u" "y \<in> set ?u"
      then obtain a b where "a \<in> set grp" "x = oc_setting (oc_settings_of topology a) k"
        "b \<in> set grp" "y = oc_setting (oc_settings_of topology b) k" by auto
      then show "x = y" using same by blast
    qed
    then have "card (set ?u) \<le> 1" by (metis card_le_Suc0_iff_eq One_nat_def List.finite_set)
    then have "length ?u \<le> 1" using distinct_card [OF distinct_js_uniq [of "map (\<lambda>c. oc_setting c k) ?cfgs"]] by simp
    moreover have "length ?u > 1" using that by (simp add: oc_keys_def)
    ultimately show False by simp
  qed
  have "\<forall>(k, v) \<in> set entries. \<exists>a \<in> set outs. \<exists>b \<in> set outs.
      oc_row_name model_label topology a = oc_row_name model_label topology b \<and>
      oc_setting (oc_settings_of topology a) k \<noteq> oc_setting (oc_settings_of topology b) k"
  proof clarify
    fix k v assume "(k, v) \<in> set entries"
    then have "k \<in> set (oc_keys ?cfgs)" unfolding keys [symmetric] by (metis fst_conv image_eqI set_map)
    from differ [OF this] show "\<exists>a \<in> set outs. \<exists>b \<in> set outs.
      oc_row_name model_label topology a = oc_row_name model_label topology b \<and>
      oc_setting (oc_settings_of topology a) k \<noteq> oc_setting (oc_settings_of topology b) k"
      using oc_by_name_mem [OF g] by metis
  qed
  moreover have "\<forall>(k, v) \<in> set entries. (oc_secret k \<longrightarrow> v = None) \<and> k \<noteq> ''PORT''"
    by (auto simp: e oc_keys_def oc_own_def)
  moreover have "sorted (map fst entries)" by (simp add: keys oc_keys_def)
  ultimately show ?thesis by blast
qed

definition oc_demo_topology :: js where
  "oc_demo_topology = JObj [(''nodes'', JArr [JObj [(''id'', JStr ''nas''), (''controllerMachine'', JBool True), (''servers'', JArr
     [JObj [(''port'', JNum 1), (''cellLabel'', JStr ''m''), (''slotConfig'', JObj [(''API_KEY'', JStr ''x''), (''PORT'', JStr ''1'')])],
      JObj [(''port'', JNum 2), (''cellLabel'', JStr ''m''), (''slotConfig'', JObj [(''API_KEY'', JStr ''y''), (''PORT'', JStr ''2'')])]])]])]"

theorem oc_twins_keep_secrets_witness:
  "\<exists>entries. (JStr ''a'', OcDiffer entries) \<in> set (oc_twins (\<lambda>m. []) oc_demo_topology
      [JObj [(''id'', JStr ''a''), (''upstreamPort'', JNum 1)], JObj [(''id'', JStr ''b''), (''upstreamPort'', JNum 2)]]) \<and>
     entries \<noteq> [] \<and> (\<forall>(k, v) \<in> set entries. v = None \<or> \<not> oc_secret k)"
proof -
  let ?t = "oc_twins (\<lambda>m. []) oc_demo_topology
      [JObj [(''id'', JStr ''a''), (''upstreamPort'', JNum 1)], JObj [(''id'', JStr ''b''), (''upstreamPort'', JNum 2)]]"
  have "?t = [(JStr ''a'', OcDiffer [(''API_KEY'', None)]), (JStr ''b'', OcDiffer [(''API_KEY'', None)])]" by code_simp
  then have m: "(JStr ''a'', OcDiffer [(''API_KEY'', None)]) \<in> set ?t" by simp
  then show ?thesis using oc_twins_keep_secrets [OF m] by (intro exI [where x = "[(''API_KEY'', None)]"]) auto
qed

end
