(* ===== verification/SubscriptionResets.thy ===== *)
theory SubscriptionResets
  imports Utils Interfaces "HOL-Library.Word" "HOL-Library.Product_Lexorder"
begin

unbundle bit_operations_syntax

text \<open>
  The saved resets of a subscription (\<open>static/js/subscription-resets.js\<close>): what is read of them, what the
  page shows, and the one spend. Everything is kept per account, so the state here is one account's. The
  calls are asynchronous: a read or a spend on its way is part of the state, and its answer is an event.
  The controller answers with a JSON object or refuses with a message; the operator's word, the clock,
  the dictionary \<open>t\<close>, \<open>Date.parse\<close> and the printing of a date are given from outside.
\<close>

section \<open>What is read and shown\<close>

record rs_entry =
  rs_loading :: bool
  rs_data :: js
  rs_at :: rat
  rs_error :: js

definition rs_count :: "rs_entry option \<Rightarrow> rat option" where
  "rs_count entry = (case entry of None \<Rightarrow> None
     | Some e \<Rightarrow> (case jget (rs_data e) ''availableCount'' of JNum n \<Rightarrow> Some n | _ \<Rightarrow> None))"

definition rs_failed :: "rs_entry option \<Rightarrow> bool" where
  "rs_failed entry = (case entry of None \<Rightarrow> False | Some e \<Rightarrow> js_truthy (rs_error e) \<and> \<not> js_truthy (rs_data e))"

definition rs_sign :: string where
  "rs_sign = [CHR 0xE2, CHR 0x86, CHR 0xBA]"

definition rs_warn_sign :: string where
  "rs_warn_sign = [CHR 0xE2, CHR 0x9A, CHR 0xA0]"

definition rs_chip :: "(string \<Rightarrow> (string \<times> string) list \<Rightarrow> string) \<Rightarrow> string \<Rightarrow> rs_entry option \<Rightarrow> js option \<Rightarrow> string" where
  "rs_chip t account_id entry attempt =
     (let i = escape_html account_id;
          warn = (if attempt \<noteq> None then ''<span class=\"pool-warn\" title=\"'' @ escape_html (t ''resetPending'' []) @ ''\">'' @ rs_warn_sign @ ''</span>'' else [])
      in case rs_count entry of
        None \<Rightarrow> warn @ (if rs_failed entry
          then ''<span class=\"pool-resets none\" data-t=\"provider-resets\" data-t-state=\"unknown\" title=\"'' @ escape_html (t ''resetUnavailable'' [])
               @ ''\">'' @ rs_sign @ '' ?</span>'' else [])
      | Some n \<Rightarrow>
          let title = escape_html (t (if n > 0 then ''resetChoose'' else ''resetAvailable'') [(''count'', rat_str n)])
          in warn @ (if n > 0
            then ''<button class=\"pool-resets\" type=\"button\" data-pool-resets=\"'' @ i
                 @ ''\" data-t=\"provider-resets\" data-t-state=\"some\" title=\"'' @ title @ ''\" aria-label=\"'' @ title @ ''\">'' @ rs_sign @ '' '' @ rat_str n @ ''</button>''
            else ''<span class=\"pool-resets none\" data-t=\"provider-resets\" data-t-state=\"none\" title=\"'' @ title @ ''\">'' @ rs_sign @ '' 0</span>''))"

definition rs_title :: "(string \<Rightarrow> (string \<times> string) list \<Rightarrow> string) \<Rightarrow> js \<Rightarrow> string" where
  "rs_title t credit =
     (if jget credit ''resetType'' = JStr ''codex_rate_limits'' then t ''resetFull'' []
      else js_string (js_or (jget credit ''title'') (JStr (t ''poolUnavailable'' []))))"

definition rs_expiry :: "(string \<Rightarrow> (string \<times> string) list \<Rightarrow> string) \<Rightarrow> (js \<Rightarrow> string) \<Rightarrow> js \<Rightarrow> string" where
  "rs_expiry t date credit =
     (if js_truthy (jget credit ''expiresAt'') then t ''resetExpires'' [(''date'', date (jget credit ''expiresAt''))] else [])"

definition rs_named :: "(string \<Rightarrow> (string \<times> string) list \<Rightarrow> string) \<Rightarrow> (js \<Rightarrow> string) \<Rightarrow> js \<Rightarrow> string \<times> string" where
  "rs_named t date credit = (js_string (jget credit ''id''),
     js_join middot (filter (\<lambda>w. w \<noteq> []) [rs_title t credit, rs_expiry t date credit]))"

text \<open>When a credit ends, \<open>None\<close> for never (\<open>Infinity\<close>).\<close>

definition rs_ends_le :: "(js \<Rightarrow> rat option) \<Rightarrow> js \<Rightarrow> js \<Rightarrow> int" where
  "rs_ends_le parse a b =
     (case (parse (jget a ''expiresAt''), parse (jget b ''expiresAt'')) of
        (None, None) \<Rightarrow> 0 | (None, Some y) \<Rightarrow> 1 | (Some x, None) \<Rightarrow> -1
      | (Some x, Some y) \<Rightarrow> if x = y then 0 else if x < y then -1 else 1)"

definition rs_usable :: "(js \<Rightarrow> rat option) \<Rightarrow> js \<Rightarrow> js list" where
  "rs_usable parse credits =
     js_sort (rs_ends_le parse) (filter (\<lambda>credit. js_truthy (jget credit ''usable'')) (js_list credits))"

definition rs_options :: "(string \<Rightarrow> (string \<times> string) list \<Rightarrow> string) \<Rightarrow> (js \<Rightarrow> string) \<Rightarrow> (js \<Rightarrow> rat option) \<Rightarrow> js \<Rightarrow> js option \<Rightarrow> (string \<times> string) list" where
  "rs_options t date parse credits attempt =
     (case attempt of
        Some a \<Rightarrow> (case find (\<lambda>credit. jget credit ''id'' = jget a ''creditId'') (js_list credits) of
            Some kept \<Rightarrow> [rs_named t date kept]
          | None \<Rightarrow> [(js_string (jget a ''creditId''), t ''resetRetry'' [])])
      | None \<Rightarrow> map (rs_named t date) (rs_usable parse credits))"

section \<open>The read and the spend\<close>

text \<open>
  The run of \<open>run(id, ask)\<close>: waiting for the operator's word with the attempt it found, waiting for the
  controller's answer, and waiting for the read that settles it. \<open>rs_reading\<close> is the read on its way, with
  its \<open>settledAttempt\<close>.
\<close>

datatype rs_phase = RIdle | RAsking "js option" | RPosting | RSettling

record rs_state =
  rs_cache :: "rs_entry option"
  rs_reading :: "bool option"
  rs_attempt :: "js option"
  rs_phase_of :: rs_phase

datatype rs_effect = RPost js | RToast string | RToastText js | RRefreshed

definition rs_init :: rs_state where
  "rs_init = \<lparr>rs_cache = None, rs_reading = None, rs_attempt = None, rs_phase_of = RIdle\<rparr>"

definition rs_busy :: "rs_state \<Rightarrow> bool" where
  "rs_busy s = (rs_phase_of s \<noteq> RIdle)"

definition rs_fetch :: "rat \<Rightarrow> bool \<Rightarrow> bool \<Rightarrow> rs_state \<Rightarrow> rs_state" where
  "rs_fetch now force settled s =
     (case rs_cache s of
        None \<Rightarrow> s\<lparr>rs_cache := Some \<lparr>rs_loading = True, rs_data = JUndef, rs_at = now, rs_error = JUndef\<rparr>, rs_reading := Some settled\<rparr>
      | Some old \<Rightarrow>
          if rs_loading old \<or> (\<not> force \<and> now - rs_at old < 60000) then s
          else s\<lparr>rs_cache := Some (old\<lparr>rs_loading := True, rs_at := now\<rparr>), rs_reading := Some settled\<rparr>)"

definition rs_fetched :: "rat \<Rightarrow> js + js \<Rightarrow> rs_state \<Rightarrow> rs_state" where
  "rs_fetched now answer s =
     (case rs_reading s of None \<Rightarrow> s
      | Some settled \<Rightarrow>
          let s' = (case answer of
              Inr d \<Rightarrow>
                let pending = js_at (js_list (jget d ''pending'')) 0;
                    s = s\<lparr>rs_cache := Some \<lparr>rs_loading = False, rs_data = d, rs_at = now, rs_error = JUndef\<rparr>\<rparr>
                in (case pending of
                      Some p \<Rightarrow> if js_truthy p then s\<lparr>rs_attempt := Some p\<rparr>
                               else if settled then s\<lparr>rs_attempt := None\<rparr> else s
                    | None \<Rightarrow> if settled then s\<lparr>rs_attempt := None\<rparr> else s)
            | Inl message \<Rightarrow>
                s\<lparr>rs_cache := Some \<lparr>rs_loading = False, rs_data = (case rs_cache s of Some e \<Rightarrow> rs_data e | None \<Rightarrow> JUndef),
                                    rs_at = now, rs_error = message\<rparr>\<rparr>)
          in s'\<lparr>rs_reading := None,
                 rs_phase_of := (if settled \<and> rs_phase_of s = RSettling then RIdle else rs_phase_of s)\<rparr>)"

text \<open>The read at the end of the run: the run waits for it, or ends at once when another is on its way.\<close>

definition rs_settle :: "rat \<Rightarrow> rs_state \<Rightarrow> rs_state" where
  "rs_settle now s =
     (let s' = rs_fetch now True True s
      in s'\<lparr>rs_phase_of := (if rs_reading s = None then RSettling else RIdle)\<rparr>)"

definition rs_open :: "rs_state \<Rightarrow> rs_state" where
  "rs_open s = (if rs_busy s then s else s\<lparr>rs_phase_of := RAsking (rs_attempt s)\<rparr>)"

definition rs_blocked :: "js \<Rightarrow> rs_state \<Rightarrow> bool" where
  "rs_blocked credit_id s = (case rs_attempt s of None \<Rightarrow> False | Some a \<Rightarrow> jget a ''creditId'' \<noteq> credit_id)"

definition rs_body :: "string \<Rightarrow> js \<Rightarrow> js" where
  "rs_body account_id attempt = JObj ([(''confirmed'', JBool True)]
     @ (case attempt of JObj kvs \<Rightarrow> kvs | _ \<Rightarrow> []) @ [(''id'', JStr account_id)])"

text \<open>The operator's word: the chosen reset's id, or nothing (\<open>JNull\<close>, the empty text). \<open>key\<close> is the fresh request id.\<close>

definition rs_word :: "string \<Rightarrow> js \<Rightarrow> string \<Rightarrow> rs_state \<Rightarrow> rs_state \<times> rs_effect list" where
  "rs_word account_id credit_id key s =
     (case rs_phase_of s of
        RAsking pending \<Rightarrow>
          if \<not> js_truthy credit_id \<or> rs_blocked credit_id s then (s\<lparr>rs_phase_of := RIdle\<rparr>, [])
          else let attempt = (case pending of Some p \<Rightarrow> p
                              | None \<Rightarrow> JObj [(''creditId'', credit_id), (''idempotencyKey'', JStr key)])
               in (s\<lparr>rs_attempt := Some attempt, rs_phase_of := RPosting\<rparr>, [RPost (rs_body account_id attempt)])
      | _ \<Rightarrow> (s, []))"

definition rs_outcome_key :: "js \<Rightarrow> string" where
  "rs_outcome_key outcome =
     (if outcome = JStr ''reset'' \<or> outcome = JStr ''already_redeemed'' then ''resetDone''
      else if outcome = JStr ''nothing_to_reset'' then ''resetNothing''
      else if outcome = JStr ''no_credit'' then ''resetNoCredit'' else ''resetPending'')"

definition rs_posted :: "rat \<Rightarrow> js + js \<Rightarrow> rs_state \<Rightarrow> rs_state \<times> rs_effect list" where
  "rs_posted now answer s =
     (if rs_phase_of s \<noteq> RPosting then (s, [])
      else case answer of
        Inr result \<Rightarrow> (rs_settle now (s\<lparr>rs_attempt := None\<rparr>),
          RToast (rs_outcome_key (jget result ''outcome'')) #
          (if jget result ''outcome'' = JStr ''reset'' \<or> jget result ''outcome'' = JStr ''already_redeemed'' then [RRefreshed] else []))
      | Inl message \<Rightarrow> (rs_settle now s, [RToastText message]))"

datatype rs_event = RRead rat | RReadAnswer rat "js + js" | ROpen | RWord js string | RPostAnswer rat "js + js"

fun rs_step :: "string \<Rightarrow> rs_state \<Rightarrow> rs_event \<Rightarrow> rs_state \<times> rs_effect list" where
  "rs_step i s (RRead now) = (rs_fetch now False False s, [])"
| "rs_step i s (RReadAnswer now answer) = (rs_fetched now answer s, [])"
| "rs_step i s ROpen = (rs_open s, [])"
| "rs_step i s (RWord credit_id key) = rs_word i credit_id key s"
| "rs_step i s (RPostAnswer now answer) = rs_posted now answer s"

fun rs_run :: "string \<Rightarrow> rs_event list \<Rightarrow> rs_state \<Rightarrow> rs_state \<times> rs_effect list" where
  "rs_run i [] s = (s, [])"
| "rs_run i (e # es) s =
     (case rs_step i s e of (s', out) \<Rightarrow> case rs_run i es s' of (s'', rest) \<Rightarrow> (s'', out @ rest))"

definition rs_posts :: "rs_effect list \<Rightarrow> js list" where
  "rs_posts out = concat (map (\<lambda>e. case e of RPost b \<Rightarrow> [b] | _ \<Rightarrow> []) out)"

section \<open>The request id\<close>

definition rs_hex :: "nat \<Rightarrow> char" where
  "rs_hex d = (if d < 10 then digit_char d else char_of (87 + d))"

definition rs_hex2 :: "8 word \<Rightarrow> string" where
  "rs_hex2 b = [rs_hex (unat b div 16), rs_hex (unat b mod 16)]"

text \<open>The id from sixteen random bytes, where the page has no \<open>randomUUID\<close> of its own.\<close>

definition rs_request_id :: "8 word list \<Rightarrow> string" where
  "rs_request_id bytes =
     (let bytes = bytes[6 := ((bytes ! 6) AND 15) OR 64];
          bytes = bytes[8 := ((bytes ! 8) AND 63) OR 128];
          hex = concat (map rs_hex2 bytes)
      in js_join ''-'' [take 8 hex, take 4 (drop 8 hex), take 4 (drop 12 hex), take 4 (drop 16 hex), drop 20 hex])"

section \<open>What every step keeps\<close>

lemma rs_fetch_frame [simp]:
  "rs_attempt (rs_fetch now force settled s) = rs_attempt s"
  "rs_phase_of (rs_fetch now force settled s) = rs_phase_of s"
  by (auto simp: rs_fetch_def split: option.splits)

lemma rs_settle_frame [simp]:
  "rs_attempt (rs_settle now s) = rs_attempt s"
  "rs_phase_of (rs_settle now s) = (if rs_reading s = None then RSettling else RIdle)"
  by (auto simp: rs_settle_def Let_def)

lemma rs_fetched_phase: "rs_phase_of (rs_fetched now answer s) = rs_phase_of s \<or>
  (rs_phase_of s = RSettling \<and> rs_phase_of (rs_fetched now answer s) = RIdle)"
  by (auto simp: rs_fetched_def Let_def split: option.splits sum.splits)

lemma rs_fetched_refused [simp]: "rs_attempt (rs_fetched now (Inl m) s) = rs_attempt s"
  by (auto simp: rs_fetched_def Let_def split: option.splits)

lemma rs_posts_simps [simp]:
  "rs_posts [] = []" "rs_posts (RPost b # out) = b # rs_posts out" "rs_posts (RToast k # out) = rs_posts out"
  "rs_posts (RToastText m # out) = rs_posts out" "rs_posts (RRefreshed # out) = rs_posts out"
  "rs_posts (out @ out') = rs_posts out @ rs_posts out'"
  by (simp_all add: rs_posts_def)

fun rs_says :: "rs_effect \<Rightarrow> bool" where
  "rs_says (RToast k) = True"
| "rs_says (RToastText m) = True"
| "rs_says e = False"

text \<open>One step sends a spend, or answers one with a message, or does neither.\<close>

lemma rs_step_count:
  assumes "rs_step i s e = (s', out)"
  shows "length (rs_posts out) + (if rs_phase_of s = RPosting then 1 else 0) =
    length (filter rs_says out) + (if rs_phase_of s' = RPosting then 1 else 0)"
proof (cases e)
  case (RReadAnswer now answer)
  then show ?thesis using assms rs_fetched_phase [of now answer s] by auto
next
  case (RWord c key)
  then show ?thesis using assms by (auto simp: rs_word_def Let_def split: rs_phase.splits if_splits)
next
  case (RPostAnswer now answer)
  then show ?thesis using assms by (auto simp: rs_posted_def split: if_splits sum.splits)
qed (use assms in \<open>auto simp: rs_open_def rs_busy_def split: if_splits\<close>)

lemma rs_run_count:
  "rs_run i es s = (s', out) \<Longrightarrow>
   length (rs_posts out) + (if rs_phase_of s = RPosting then 1 else 0) =
   length (filter rs_says out) + (if rs_phase_of s' = RPosting then 1 else 0)"
proof (induction es arbitrary: s s' out)
  case Nil
  then show ?case by simp
next
  case (Cons e es)
  obtain s1 o1 where s1: "rs_step i s e = (s1, o1)" by fastforce
  obtain s2 o2 where s2: "rs_run i es s1 = (s2, o2)" by fastforce
  have "s2 = s'" "out = o1 @ o2" using Cons.prems s1 s2 by auto
  then show ?case using Cons.IH [OF s2] rs_step_count [OF s1] by simp
qed

text \<open>The spend keeps the contract \<open>single_flight\<close>: the operator's word starts it, its answer settles it.\<close>

interpretation spend: single_flight "\<lambda>s. rs_phase_of s = RPosting" "\<lambda>(i, c, key) s. map_prod id rs_posts (rs_word i c key s)"
  "\<lambda>(now, answer) s. map_prod id rs_posts (rs_posted now answer s)"
proof (unfold_locales, goal_cases)
  case (1 r s s' cs)
  then show ?case by (cases r) (auto simp: rs_word_def Let_def split: rs_phase.splits if_splits)
next
  case (2 s a s' cs)
  then show ?case by (cases a) (auto simp: rs_posted_def split: sum.splits if_splits)
qed

text \<open>An attempt is its reset and its key. Only two kinds of answers resolve the one on record: a spend's own answer, and a
  read after a spend that finds nothing pending, or any that finds another one. A read that names it again, one that failed,
  and one with nothing pending that settles no spend leave it.\<close>

definition same_attempt :: "js \<Rightarrow> js \<Rightarrow> bool" where
  "same_attempt a b = (jget a ''creditId'' = jget b ''creditId'' \<and> jget a ''idempotencyKey'' = jget b ''idempotencyKey'')"

definition read_pending :: "js \<Rightarrow> js option" where
  "read_pending d = (case js_at (js_list (jget d ''pending'')) 0 of Some p \<Rightarrow> if js_truthy p then Some p else None | None \<Rightarrow> None)"

definition rs_resolves :: "rs_state \<Rightarrow> rs_event \<Rightarrow> bool" where
  "rs_resolves s e = (case e of
       RReadAnswer now (Inr d) \<Rightarrow> (case (rs_reading s, read_pending d, rs_attempt s) of
           (None, _, _) \<Rightarrow> False
         | (Some settled, None, _) \<Rightarrow> settled
         | (Some settled, Some p, a) \<Rightarrow> (case a of None \<Rightarrow> False | Some a \<Rightarrow> \<not> same_attempt p a))
     | RPostAnswer now (Inr r) \<Rightarrow> rs_phase_of s = RPosting
     | _ \<Rightarrow> False)"

fun rs_unresolved :: "string \<Rightarrow> rs_event list \<Rightarrow> rs_state \<Rightarrow> bool" where
  "rs_unresolved i [] s = True"
| "rs_unresolved i (e # es) s = (\<not> rs_resolves s e \<and> rs_unresolved i es (fst (rs_step i s e)))"

lemma same_attempt_trans: "same_attempt a b \<Longrightarrow> same_attempt b c \<Longrightarrow> same_attempt a c"
  and same_attempt_refl [simp]: "same_attempt a a"
  and same_attempt_sym: "same_attempt a b \<Longrightarrow> same_attempt b a"
  by (simp_all add: same_attempt_def)

lemma same_body: "same_attempt (rs_body i a) a"
  by (cases a) (auto simp: same_attempt_def rs_body_def jget_def map_add_def split: option.splits)

text \<open>The attempt is on record, and a window that is open was opened on it.\<close>

definition rs_holds :: "js \<Rightarrow> rs_state \<Rightarrow> bool" where
  "rs_holds a s = ((\<exists>b. rs_attempt s = Some b \<and> same_attempt b a)
     \<and> (\<forall>p. rs_phase_of s = RAsking p \<longrightarrow> (\<exists>b. p = Some b \<and> same_attempt b a)))"

lemma rs_fetched_unresolved:
  assumes "rs_attempt s = Some a" "\<not> rs_resolves s (RReadAnswer now answer)"
  shows "\<exists>b. rs_attempt (rs_fetched now answer s) = Some b \<and> same_attempt b a"
  using assms by (auto simp: rs_fetched_def rs_resolves_def read_pending_def Let_def split: option.splits sum.splits if_splits)

lemma rs_holds_step:
  assumes "rs_holds a s" "\<not> rs_resolves s e" "rs_step i s e = (s', out)"
  shows "rs_holds a s' \<and> (\<forall>b \<in> set (rs_posts out). same_attempt b a)"
proof (cases e)
  case (RReadAnswer now answer)
  from assms(1) obtain b where b: "rs_attempt s = Some b" "same_attempt b a" by (auto simp: rs_holds_def)
  then show ?thesis
    using assms RReadAnswer rs_fetched_phase [of now answer s] rs_fetched_unresolved [OF b(1), of now answer] same_attempt_trans
    by (fastforce simp: rs_holds_def)
next
  case (RWord c key)
  then show ?thesis using assms same_attempt_trans [OF same_body]
    by (auto simp: rs_holds_def rs_word_def Let_def split: rs_phase.splits if_splits)
next
  case (RPostAnswer now answer)
  then show ?thesis using assms by (cases answer) (auto simp: rs_holds_def rs_posted_def rs_resolves_def split: if_splits)
next
  case ROpen
  then have "s' = rs_open s" "out = []" using assms(3) by auto
  then show ?thesis using assms(1) by (simp add: rs_holds_def rs_open_def)
qed (use assms in \<open>auto simp: rs_holds_def\<close>)

lemma rs_holds_run:
  "rs_holds a s \<Longrightarrow> rs_unresolved i es s \<Longrightarrow> rs_run i es s = (s', out) \<Longrightarrow>
   rs_holds a s' \<and> (\<forall>b \<in> set (rs_posts out). same_attempt b a)"
proof (induction es arbitrary: s s' out)
  case Nil
  then show ?case by simp
next
  case (Cons e es)
  obtain s1 o1 where s1: "rs_step i s e = (s1, o1)" by fastforce
  obtain s2 o2 where s2: "rs_run i es s1 = (s2, o2)" by fastforce
  have one: "rs_holds a s1" "\<forall>b \<in> set (rs_posts o1). same_attempt b a"
    using rs_holds_step [OF Cons.prems(1) _ s1] Cons.prems(2) by auto
  have "rs_unresolved i es s1" using Cons.prems(2) s1 by simp
  note Cons.IH [OF one(1) this s2]
  then show ?case using one Cons.prems(3) s1 s2 by auto
qed

text \<open>With a window open on nothing: until it is answered nothing is sent and the attempt stays; its spend, if it is one, is of the
  same reset, and is the attempt on record from then on.\<close>

lemma rs_late_step:
  assumes "rs_attempt s = Some a" "rs_phase_of s = RAsking p" "\<not> rs_resolves s e" "rs_step i s e = (s', out)"
  shows "(rs_posts out = [] \<and> (\<exists>b. rs_attempt s' = Some b \<and> same_attempt b a) \<and> (rs_phase_of s' = RAsking p \<or> rs_phase_of s' = RIdle))
    \<or> (\<exists>b. rs_attempt s' = Some b \<and> rs_phase_of s' = RPosting \<and> rs_posts out = [rs_body i b]
         \<and> (p = None \<longrightarrow> jget b ''creditId'' = jget a ''creditId'') \<and> (\<forall>q. p = Some q \<longrightarrow> b = q))"
proof (cases e)
  case (RReadAnswer now answer)
  then show ?thesis
    using assms rs_fetched_phase [of now answer s] rs_fetched_unresolved [OF assms(1), of now answer] by auto
next
  case (RWord c key)
  then show ?thesis using assms by (auto simp: rs_word_def rs_blocked_def Let_def split: if_splits option.splits)
qed (use assms in \<open>auto simp: rs_posted_def rs_open_def rs_busy_def same_attempt_def split: if_splits sum.splits\<close>)

lemma rs_late_run:
  "rs_attempt s = Some a \<Longrightarrow> rs_phase_of s = RAsking p \<Longrightarrow> rs_unresolved i es s \<Longrightarrow> rs_run i es s = (s', out) \<Longrightarrow>
   \<exists>b. (\<exists>c. rs_attempt s' = Some c \<and> same_attempt c b) \<and> (\<forall>x \<in> set (rs_posts out). same_attempt x b)
     \<and> (p = None \<longrightarrow> jget b ''creditId'' = jget a ''creditId'')"
proof (induction es arbitrary: s s' out a)
  case Nil
  then show ?case by (intro exI [of _ a]) auto
next
  case (Cons e es)
  obtain s1 o1 where s1: "rs_step i s e = (s1, o1)" by fastforce
  obtain s2 o2 where s2: "rs_run i es s1 = (s2, o2)" by fastforce
  have ends: "s' = s2" "out = o1 @ o2" using Cons.prems(4) s1 s2 by auto
  have un: "\<not> rs_resolves s e" "rs_unresolved i es s1" using Cons.prems(3) s1 by simp_all
  from rs_late_step [OF Cons.prems(1,2) un(1) s1] show ?case
  proof (elim disjE exE conjE)
    fix b assume posts: "rs_posts o1 = []" and b: "rs_attempt s1 = Some b" "same_attempt b a" and ph: "rs_phase_of s1 = RAsking p"
    from Cons.IH [OF b(1) ph un(2) s2] show ?case using posts b(2) ends by (auto simp: same_attempt_def)
  next
    fix b assume posts: "rs_posts o1 = []" and b: "rs_attempt s1 = Some b" "same_attempt b a" and ph: "rs_phase_of s1 = RIdle"
    have "rs_holds a s1" using b ph by (auto simp: rs_holds_def)
    from rs_holds_run [OF this un(2) s2] show ?case using posts ends by (auto simp: rs_holds_def)
  next
    fix b assume b: "rs_attempt s1 = Some b" and ph: "rs_phase_of s1 = RPosting" and posts: "rs_posts o1 = [rs_body i b]"
      and credit: "p = None \<longrightarrow> jget b ''creditId'' = jget a ''creditId''"
    have "rs_holds b s1" using b ph by (auto simp: rs_holds_def)
    from rs_holds_run [OF this un(2) s2] show ?case
      using posts credit ends same_body by (intro exI [of _ b]) (auto simp: rs_holds_def)
  qed
qed

text \<open>A race: an attempt another page made, read while the window of choice is open, does not lend its key
  to the spend of the same reset: the spend goes out with a key of its own.\<close>

lemma rs_attempt_read_while_asking_loses_its_key:
  assumes "rs_phase_of s = RAsking None" "rs_attempt s = Some a" "jget a ''creditId'' = c" "js_truthy c"
    and "rs_word i c key s = (s', out)"
  shows "out = [RPost (rs_body i (JObj [(''creditId'', c), (''idempotencyKey'', JStr key)]))]"
  using assms by (simp add: rs_word_def rs_blocked_def Let_def)

text \<open>And a read that left before a spend settled brings back the attempt the spend has just resolved;
  the later reads, however often they find nothing pending, leave it there.\<close>

lemma rs_late_read_leaves_an_attempt:
  "rs_attempt (fst (rs_run ''acc''
     [ROpen, RWord (JStr ''c1'') ''k1'', RRead 0, RPostAnswer 1 (Inr (JObj [(''outcome'', JStr ''reset'')])),
      RReadAnswer 2 (Inr (JObj [(''pending'', JArr [JObj [(''creditId'', JStr ''c1''), (''idempotencyKey'', JStr ''k1'')]])])),
      RRead 70000, RReadAnswer 70001 (Inr (JObj [])), RRead 140000, RReadAnswer 140001 (Inr (JObj []))] rs_init))
   = Some (JObj [(''creditId'', JStr ''c1''), (''idempotencyKey'', JStr ''k1'')])"
  by code_simp

section \<open>Properties\<close>

text \<open>(C8) One unresolved attempt is one key. Along any run of reads that bring whatever news or fail, of openings, words and
  answers in which nothing resolves the attempt on record (no spend is answered, no read says it is gone), an attempt stays on
  record and every spend sent carries one and the same reset and key. They are the attempt's own, unless a window of choice
  was open already when the attempt became known: then they are those of that window's spend, which every later retry
  keeps, and where it had been opened on nothing the reset is the attempt's still.\<close>

theorem rs_retry_keeps_its_key:
  assumes "rs_attempt s = Some a" "rs_unresolved i es s" "rs_run i es s = (s', out)"
  shows "\<exists>b. (\<exists>c. rs_attempt s' = Some c \<and> same_attempt c b) \<and> (\<forall>x \<in> set (rs_posts out). same_attempt x b)
    \<and> (rs_phase_of s = RAsking None \<longrightarrow> jget b ''creditId'' = jget a ''creditId'')
    \<and> ((\<forall>q. rs_phase_of s = RAsking q \<longrightarrow> q = Some a) \<longrightarrow> b = a)"
proof (cases "\<forall>q. rs_phase_of s = RAsking q \<longrightarrow> q = Some a")
  case True
  then have "rs_holds a s" using assms(1) by (auto simp: rs_holds_def)
  from rs_holds_run [OF this assms(2,3)] show ?thesis by (auto simp: rs_holds_def)
next
  case False
  then obtain q where q: "rs_phase_of s = RAsking q" "q \<noteq> Some a" by blast
  from rs_late_run [OF assms(1) q(1) assms(2,3)] show ?thesis using q by auto
qed

text \<open>The spend goes out, is lost, the read that follows still finds it pending, a later one on the clock too; the retry keeps its key.\<close>

definition retried :: "rs_event list" where
  "retried = [ROpen, RWord (JStr ''c1'') ''k2'', RPostAnswer 9 (Inl (JStr ''lost'')),
     RReadAnswer 10 (Inr (JObj [(''pending'', JArr [JObj [(''idempotencyKey'', JStr ''k1''), (''creditId'', JStr ''c1'')]])])),
     RRead 70011, RReadAnswer 70012 (Inr (JObj [])), ROpen, RWord (JStr ''c1'') ''k3'']"

definition one_attempt :: rs_state where
  "one_attempt = \<lparr>rs_cache = None, rs_reading = None,
     rs_attempt = Some (JObj [(''creditId'', JStr ''c1''), (''idempotencyKey'', JStr ''k1'')]), rs_phase_of = RIdle\<rparr>"

theorem rs_retry_keeps_its_key_witness:
  "length (rs_posts (snd (rs_run ''acc'' retried one_attempt))) = 2 \<and>
     list_all (\<lambda>b. jget b ''idempotencyKey'' = JStr ''k1'') (rs_posts (snd (rs_run ''acc'' retried one_attempt)))"
proof -
  let ?a = "JObj [(''creditId'', JStr ''c1''), (''idempotencyKey'', JStr ''k1'')]"
  obtain s out where r: "rs_run ''acc'' retried one_attempt = (s, out)" by fastforce
  have a: "rs_attempt one_attempt = Some ?a" "rs_phase_of one_attempt = RIdle" by (simp_all add: one_attempt_def)
  have "rs_unresolved ''acc'' retried one_attempt" by code_simp
  from rs_retry_keeps_its_key [OF a(1) this r] have "\<forall>x \<in> set (rs_posts out). same_attempt x ?a" using a(2) by simp
  moreover have "length (rs_posts (snd (rs_run ''acc'' retried one_attempt))) = 2" by code_simp
  ultimately show ?thesis using r by (auto simp: list_all_iff same_attempt_def)
qed

text \<open>(C9) One spend at a time, and none left unanswered: along any run of reads, openings, words and answers,
  the spends sent are as many as the messages that answered them, and one more exactly while one is on its way.\<close>

theorem rs_one_spend_at_a_time:
  assumes "rs_run i es rs_init = (s, out)"
  shows "length (rs_posts out) = length (filter rs_says out) + (if rs_phase_of s = RPosting then 1 else 0)"
  using rs_run_count [OF assms] by (simp add: rs_init_def)

theorem rs_one_spend_at_a_time_witness:
  "length (rs_posts (snd (rs_run ''acc'' [ROpen, ROpen, RWord (JStr ''c1'') ''k1'', ROpen, RWord (JStr ''c1'') ''k2''] rs_init))) = 1"
proof -
  let ?es = "[ROpen, ROpen, RWord (JStr ''c1'') ''k1'', ROpen, RWord (JStr ''c1'') ''k2'']"
  obtain s out where r: "rs_run ''acc'' ?es rs_init = (s, out)" by fastforce
  have "map_prod rs_phase_of (filter rs_says) (rs_run ''acc'' ?es rs_init) = (RPosting, [])"
    by (simp add: rs_init_def rs_open_def rs_busy_def rs_word_def rs_blocked_def Let_def)
  then show ?thesis using rs_one_spend_at_a_time [OF r] r by simp
qed

text \<open>The window offers what may be spent, the one that ends first leading: with no attempt unresolved,
  exactly the usable resets, each once, none before one that ends earlier; with one unresolved, that
  reset alone.\<close>

lemma rs_ends_le_key: "(rs_ends_le parse a b \<le> 0) =
  ((case parse (jget a ''expiresAt'') of None \<Rightarrow> (1 :: nat, 0) | Some x \<Rightarrow> (0, x)) \<le>
   (case parse (jget b ''expiresAt'') of None \<Rightarrow> (1, 0) | Some x \<Rightarrow> (0, x)))"
  by (auto simp: rs_ends_le_def less_eq_prod_def split: option.splits)

theorem rs_options_offer_the_spendable:
  "map fst (rs_options t date parse credits None) = map (\<lambda>c. js_string (jget c ''id'')) (rs_usable parse credits) \<and>
   mset (rs_usable parse credits) = filter_mset (\<lambda>c. js_truthy (jget c ''usable'')) (mset (js_list credits)) \<and>
   sorted_wrt (\<lambda>a b. rs_ends_le parse a b \<le> 0) (rs_usable parse credits) \<and>
   map fst (rs_options t date parse credits (Some a)) = [js_string (jget a ''creditId'')]"
proof -
  let ?f = "\<lambda>a. case parse (jget a ''expiresAt'') of None \<Rightarrow> (1 :: nat, 0) | Some x \<Rightarrow> (0, x)"
  have "rs_usable parse credits = sort_key ?f (filter (\<lambda>c. js_truthy (jget c ''usable'')) (js_list credits))"
    unfolding rs_usable_def by (rule js_sort_sort_key) (rule rs_ends_le_key)
  then have "sorted (map ?f (rs_usable parse credits))" by simp
  then have "sorted_wrt (\<lambda>a b. rs_ends_le parse a b \<le> 0) (rs_usable parse credits)"
    by (simp add: sorted_wrt_map rs_ends_le_key)
  then show ?thesis
    by (auto simp: rs_options_def rs_named_def comp_def rs_usable_def find_Some_iff split: option.splits)
qed

end
