(* ===== verification/FoldPeek.thy ===== *)
theory FoldPeek
  imports CardFold
begin

text \<open>
  The pointer and keyboard side of folding (\<open>FoldPeek\<close> in \<open>card-fold.js\<close>). The document is the
  list of its fold slots, each with its \<open>peek\<close> and \<open>open\<close> classes; an event says which slots its
  target lies in, innermost first. A repaint of the board (\<open>Repaint\<close>) replaces every slot, drawn by
  the rule of \<open>FoldSlot\<close> from the keys the fold keeps; the timer of a rest may then be of a slot that
  is gone.
\<close>

record fold_slot =
  sl_key :: string
  sl_lane :: string
  sl_mode :: string
  sl_peek :: bool
  sl_open :: bool

datatype slot_ref = Attached nat | Detached string

record fold_peek =
  pk_fold :: card_fold
  pk_slots :: "fold_slot list"
  pk_timer :: "slot_ref option"

datatype pk_out = Pk_changed | Pk_focus_close nat | Pk_focus_line nat | Pk_write string js

definition pk_new :: "card_fold \<Rightarrow> fold_slot list \<Rightarrow> fold_peek" where
  "pk_new f slots = \<lparr>pk_fold = f, pk_slots = slots, pk_timer = None\<rparr>"

text \<open>\<open>slotOf\<close>: the nearest slot around the target that holds a line.\<close>

definition slot_of :: "fold_peek \<Rightarrow> nat list \<Rightarrow> nat option" where
  "slot_of s around =
     find (\<lambda>i. i < length (pk_slots s) \<and> sl_mode (pk_slots s ! i) = ''line'') around"

definition slot_floats :: "fold_peek \<Rightarrow> nat \<Rightarrow> bool" where
  "slot_floats s i = (\<not> opens_in_window (sl_lane (pk_slots s ! i)))"

definition unpeek_all :: "fold_slot list \<Rightarrow> fold_slot list" where
  "unpeek_all slots = map (\<lambda>c. c\<lparr>sl_peek := False\<rparr>) slots"

definition shut_all :: "fold_slot list \<Rightarrow> fold_slot list" where
  "shut_all slots = map (\<lambda>c. c\<lparr>sl_open := False\<rparr>) slots"

definition pk_open :: "bool \<Rightarrow> slot_ref \<Rightarrow> fold_peek \<Rightarrow> fold_peek" where
  "pk_open busy ref s0 =
     (let s = s0\<lparr>pk_timer := None\<rparr> in
      if busy then s
      else case ref of
          Attached i \<Rightarrow>
            (let slots = unpeek_all (pk_slots s) in
             s\<lparr>pk_slots := slots[i := (slots ! i)\<lparr>sl_peek := True\<rparr>],
               pk_fold := (pk_fold s)\<lparr>fd_peek_key := sl_key (slots ! i)\<rparr>\<rparr>)
        | Detached key \<Rightarrow>
            s\<lparr>pk_slots := unpeek_all (pk_slots s), pk_fold := (pk_fold s)\<lparr>fd_peek_key := key\<rparr>\<rparr>)"

text \<open>\<open>close\<close>: of one slot, or of every one.\<close>

definition pk_close :: "nat option \<Rightarrow> fold_peek \<Rightarrow> fold_peek" where
  "pk_close slot s =
     s\<lparr>pk_timer := None,
       pk_slots := (case slot of
           Some i \<Rightarrow> (pk_slots s)[i := (pk_slots s ! i)\<lparr>sl_peek := False\<rparr>]
         | None \<Rightarrow> unpeek_all (pk_slots s)),
       pk_fold := (pk_fold s)\<lparr>fd_peek_key := []\<rparr>\<rparr>"

definition close_window :: "fold_peek \<Rightarrow> fold_peek \<times> string" where
  "close_window s =
     (s\<lparr>pk_slots := shut_all (pk_slots s), pk_fold := (pk_fold s)\<lparr>fd_open_key := []\<rparr>\<rparr>,
      fd_open_key (pk_fold s))"

definition open_window :: "bool \<Rightarrow> nat \<Rightarrow> fold_peek \<Rightarrow> fold_peek \<times> pk_out list" where
  "open_window busy i s =
     (if busy then (s, [])
      else (let s1 = fst (close_window s) in
        (s1\<lparr>pk_slots := (pk_slots s1)[i := (pk_slots s1 ! i)\<lparr>sl_open := True\<rparr>],
            pk_fold := (pk_fold s1)\<lparr>fd_open_key := sl_key (pk_slots s1 ! i)\<rparr>\<rparr>,
         [Pk_focus_close i])))"

text \<open>\<open>lineOf\<close>: the first slot under a key that holds a line.\<close>

definition line_of :: "string \<Rightarrow> fold_peek \<Rightarrow> nat option" where
  "line_of k s = find (\<lambda>i. sl_key (pk_slots s ! i) = k \<and> sl_mode (pk_slots s ! i) = ''line'')
     [0..<length (pk_slots s)]"

text \<open>What the handler of a click asks of its target.\<close>

record click_at =
  ck_density :: "string option"  \<comment> \<open>the lane of the switch around it\<close>
  ck_close :: bool               \<comment> \<open>inside a mark that closes the window\<close>
  ck_pin :: bool                 \<comment> \<open>inside a pin\<close>
  ck_row :: bool                 \<comment> \<open>inside a line\<close>
  ck_control :: bool             \<comment> \<open>inside a button, a link or a cable's handle\<close>
  ck_slot :: "nat option"        \<comment> \<open>the slot around the pin or the line\<close>

definition pk_writes :: "fd_writes \<Rightarrow> pk_out list" where
  "pk_writes ws = map (\<lambda>(k, v). Pk_write k v) ws"

definition pk_click :: "bool \<Rightarrow> click_at \<Rightarrow> fold_peek \<Rightarrow> fold_peek \<times> pk_out list" where
  "pk_click busy c s =
     (case ck_density c of
        Some lane \<Rightarrow>
          (case toggle_density lane (pk_fold s) of
             (f, w, r) \<Rightarrow> (s\<lparr>pk_fold := f\<rparr>, pk_writes w @ [Pk_changed]))
      | None \<Rightarrow>
          if ck_close c then (fst (close_window s), [])
          else
            (let line = (\<not> ck_pin c \<and> ck_row c) in
             if \<not> ck_pin c \<and> (\<not> line \<or> ck_control c) then (s, [])
             else case ck_slot c of
                 None \<Rightarrow> (s, [])
               | Some i \<Rightarrow>
                   if sl_key (pk_slots s ! i) = [] then (s, [])
                   else if line \<and> \<not> slot_floats s i then open_window busy i s
                   else (case toggle_pin (sl_key (pk_slots s ! i)) (pk_fold s) of
                           (f, w, r) \<Rightarrow> (s\<lparr>pk_fold := f\<rparr>, pk_writes w @ [Pk_changed]))))"

datatype pk_event =
    Pointer_over "nat list"
  | Pointer_out "nat list" "nat list"       \<comment> \<open>what it leaves, what it enters\<close>
  | Focus_in "nat list" bool bool           \<comment> \<open>the ring is shown; the page is busy\<close>
  | Focus_out "nat list" "nat list"
  | Timer_ends bool                         \<comment> \<open>the page is busy\<close>
  | Click bool click_at
  | Enter bool click_at bool                \<comment> \<open>the target is a line\<close>
  | Escape
  | Repaint "(string \<times> string \<times> string) list"  \<comment> \<open>key, lane and mode of each slot\<close>

text \<open>\<open>FoldSlot\<close>, as the two lanes draw it: the agents' lane says which card floats, the cells' lane
  which window is open, and only a line has either.\<close>

definition drawn_slot :: "card_fold \<Rightarrow> string \<times> string \<times> string \<Rightarrow> fold_slot" where
  "drawn_slot f d = (case d of (key, lane, mode) \<Rightarrow>
     \<lparr>sl_key = key, sl_lane = lane, sl_mode = mode,
      sl_peek = (lane = ''clients'' \<and> fd_peek_key f = key \<and> mode = ''line''),
      sl_open = (lane = ''cells'' \<and> fd_open_key f = key \<and> mode = ''line'')\<rparr>)"

fun detach :: "fold_slot list \<Rightarrow> slot_ref \<Rightarrow> slot_ref" where
  "detach slots (Attached i) = Detached (sl_key (slots ! i))"
| "detach slots (Detached k) = Detached k"

fun pk_step :: "pk_event \<Rightarrow> fold_peek \<Rightarrow> fold_peek \<times> pk_out list" where
  "pk_step (Pointer_over around) s0 =
     (let s = s0\<lparr>pk_timer := None\<rparr> in
      case slot_of s around of
        None \<Rightarrow> (s, [])
      | Some i \<Rightarrow> if \<not> slot_floats s i \<or> sl_peek (pk_slots s ! i) then (s, [])
                  else (s\<lparr>pk_timer := Some (Attached i)\<rparr>, []))"
| "pk_step (Pointer_out around into) s =
     (case slot_of s around of
        None \<Rightarrow> (s, [])
      | Some i \<Rightarrow> if \<not> slot_floats s i \<or> i \<in> set into then (s, []) else (pk_close (Some i) s, []))"
| "pk_step (Focus_in around ring busy) s =
     (case slot_of s around of
        None \<Rightarrow> (s, [])
      | Some i \<Rightarrow> if slot_floats s i \<and> ring then (pk_open busy (Attached i) s, []) else (s, []))"
| "pk_step (Focus_out around into) s =
     (case slot_of s around of
        None \<Rightarrow> (s, [])
      | Some i \<Rightarrow> if slot_floats s i \<and> i \<notin> set into then (pk_close (Some i) s, []) else (s, []))"
| "pk_step (Timer_ends busy) s =
     (case pk_timer s of None \<Rightarrow> (s, []) | Some ref \<Rightarrow> (pk_open busy ref s, []))"
| "pk_step (Click busy c) s = pk_click busy c s"
| "pk_step (Enter busy c row) s = (if row then pk_click busy c s else (s, []))"
| "pk_step Escape s =
     (case close_window (pk_close None s) of
        (s', was) \<Rightarrow> (s', if was = [] then []
           else case line_of was s' of None \<Rightarrow> [] | Some i \<Rightarrow> [Pk_focus_line i]))"
| "pk_step (Repaint drawn) s =
     (s\<lparr>pk_slots := map (drawn_slot (pk_fold s)) drawn,
        pk_timer := map_option (detach (pk_slots s)) (pk_timer s)\<rparr>, [])"

fun pk_run :: "pk_event list \<Rightarrow> fold_peek \<Rightarrow> fold_peek" where
  "pk_run [] s = s"
| "pk_run (e # es) s = pk_run es (fst (pk_step e s))"

section \<open>At most one card floats and one window is open\<close>

definition only_one :: "('a \<Rightarrow> bool) \<Rightarrow> 'a list \<Rightarrow> bool" where
  "only_one P xs = (\<forall>i < length xs. \<forall>j < length xs. P (xs ! i) \<longrightarrow> P (xs ! j) \<longrightarrow> i = j)"

lemma only_one_none: "(\<And>x. x \<in> set xs \<Longrightarrow> \<not> P x) \<Longrightarrow> only_one P xs"
  by (auto simp: only_one_def)

lemma only_one_update_none:
  "(\<And>x. x \<in> set xs \<Longrightarrow> \<not> P x) \<Longrightarrow> only_one P (xs[i := y])"
  by (cases "i < length xs") (auto simp: only_one_def nth_list_update split: if_splits)

lemma only_one_update_off: "only_one P xs \<Longrightarrow> \<not> P y \<Longrightarrow> only_one P (xs[i := y])"
  by (cases "i < length xs") (auto simp: only_one_def nth_list_update split: if_splits)

lemma only_one_map: "(\<And>x. P (f x) = P x) \<Longrightarrow> only_one P (map f xs) = only_one P xs"
  by (simp add: only_one_def)

lemma only_one_update_same: "i < length xs \<Longrightarrow> P y = P (xs ! i) \<Longrightarrow> only_one P (xs[i := y]) = only_one P xs"
  by (auto simp: only_one_def nth_list_update split: if_splits)

lemma only_one_key:
  "distinct (map f xs) \<Longrightarrow> (\<And>x. x \<in> set xs \<Longrightarrow> P x \<Longrightarrow> f x = k) \<Longrightarrow> only_one P xs"
  by (auto simp: only_one_def) (metis distinct_map inj_on_eq_iff nth_eq_iff_index_eq nth_mem)

definition slot_ok :: "string \<Rightarrow> fold_slot \<Rightarrow> bool" where
  "slot_ok open_key c =
     ((sl_peek c \<longrightarrow> \<not> opens_in_window (sl_lane c)) \<and>
      (sl_open c \<longrightarrow> opens_in_window (sl_lane c) \<and> sl_key c = open_key))"

definition pk_inv :: "fold_peek \<Rightarrow> bool" where
  "pk_inv s =
     (only_one sl_peek (pk_slots s) \<and> only_one sl_open (pk_slots s) \<and>
      (\<forall>c \<in> set (pk_slots s). slot_ok (fd_open_key (pk_fold s)) c) \<and>
      (\<forall>i. pk_timer s = Some (Attached i) \<longrightarrow> i < length (pk_slots s) \<and> slot_floats s i))"

text \<open>An event of this document: a click's slot is one of its slots, and a repaint draws each card
  once.\<close>

fun pk_event_ok :: "fold_peek \<Rightarrow> pk_event \<Rightarrow> bool" where
  "pk_event_ok s (Click busy c) = (\<forall>i. ck_slot c = Some i \<longrightarrow> i < length (pk_slots s))"
| "pk_event_ok s (Enter busy c row) = (\<forall>i. ck_slot c = Some i \<longrightarrow> i < length (pk_slots s))"
| "pk_event_ok s (Repaint drawn) = distinct (map fst drawn)"
| "pk_event_ok s e = True"

fun pk_events_ok :: "fold_peek \<Rightarrow> pk_event list \<Rightarrow> bool" where
  "pk_events_ok s [] = True"
| "pk_events_ok s (e # es) = (pk_event_ok s e \<and> pk_events_ok (fst (pk_step e s)) es)"

lemma set_list_update_cases: "y \<in> set (xs[i := x]) \<Longrightarrow> y = x \<or> y \<in> set xs"
  using set_update_subset_insert [of xs i x] by auto

lemma slot_of_in: "slot_of s around = Some i \<Longrightarrow> i < length (pk_slots s)"
  using find_SomeD by (fastforce simp: slot_of_def)

lemma pk_inv_timer: "pk_inv s \<Longrightarrow> pk_inv (s\<lparr>pk_timer := None\<rparr>)"
  by (simp add: pk_inv_def)

lemma pk_inv_fold: "pk_inv s \<Longrightarrow> fd_open_key f = fd_open_key (pk_fold s) \<Longrightarrow> pk_inv (s\<lparr>pk_fold := f\<rparr>)"
  by (simp add: pk_inv_def slot_floats_def)

lemma slot_floats_timer [simp]: "slot_floats (s\<lparr>pk_timer := x\<rparr>) i = slot_floats s i"
  by (simp add: slot_floats_def)

lemma unpeek_all_none: "c \<in> set (unpeek_all slots) \<Longrightarrow> \<not> sl_peek c"
  by (auto simp: unpeek_all_def)

lemma shut_all_none: "c \<in> set (shut_all slots) \<Longrightarrow> \<not> sl_open c"
  by (auto simp: shut_all_def)

lemma pk_inv_open:
  assumes "pk_inv s" "\<And>i. ref = Attached i \<Longrightarrow> i < length (pk_slots s) \<and> slot_floats s i"
  shows "pk_inv (pk_open busy ref s)"
proof (cases busy)
  case True
  then show ?thesis using assms(1) by (simp add: pk_open_def pk_inv_timer)
next
  case False
  have one: "only_one sl_open (unpeek_all (pk_slots s))"
    using assms(1) by (simp add: unpeek_all_def only_one_map pk_inv_def)
  have ok: "\<forall>c \<in> set (unpeek_all (pk_slots s)). slot_ok (fd_open_key (pk_fold s)) c"
    using assms(1) by (auto simp: unpeek_all_def pk_inv_def slot_ok_def)
  show ?thesis
  proof (cases ref)
    case (Attached i)
    let ?slots = "unpeek_all (pk_slots s)" let ?c = "(?slots ! i)\<lparr>sl_peek := True\<rparr>"
    have i: "i < length ?slots" using assms(2) [OF Attached] by (simp add: unpeek_all_def)
    have c: "slot_ok (fd_open_key (pk_fold s)) ?c"
      using i ok [rule_format, OF nth_mem [OF i]] assms(2) [OF Attached]
      by (simp add: slot_ok_def slot_floats_def unpeek_all_def)
    have "only_one sl_peek (?slots[i := ?c])"
      by (rule only_one_update_none) (rule unpeek_all_none)
    moreover have "only_one sl_open (?slots[i := ?c])"
      using one by (simp add: only_one_update_same [OF i])
    moreover have "\<forall>x \<in> set (?slots[i := ?c]). slot_ok (fd_open_key (pk_fold s)) x"
      using ok c set_list_update_cases by metis
    ultimately show ?thesis
      using False Attached by (simp add: pk_open_def pk_inv_def Let_def)
  next
    case (Detached k)
    have "only_one sl_peek (unpeek_all (pk_slots s))"
      by (rule only_one_none) (rule unpeek_all_none)
    then show ?thesis
      using False Detached one ok by (simp add: pk_open_def pk_inv_def Let_def)
  qed
qed

lemma pk_inv_close:
  assumes "pk_inv s" "\<And>i. slot = Some i \<Longrightarrow> i < length (pk_slots s)"
  shows "pk_inv (pk_close slot s)"
proof (cases slot)
  case None
  have "only_one sl_peek (unpeek_all (pk_slots s))"
    by (rule only_one_none) (rule unpeek_all_none)
  with assms(1) None show ?thesis
    by (auto simp: pk_close_def pk_inv_def unpeek_all_def only_one_map slot_ok_def)
next
  case (Some i)
  let ?c = "(pk_slots s ! i)\<lparr>sl_peek := False\<rparr>"
  have i: "i < length (pk_slots s)" using assms(2) [OF Some] .
  have "slot_ok (fd_open_key (pk_fold s)) ?c"
    using assms(1) nth_mem [OF i] by (auto simp: pk_inv_def slot_ok_def)
  then have "\<forall>x \<in> set ((pk_slots s)[i := ?c]). slot_ok (fd_open_key (pk_fold s)) x"
    using assms(1) set_list_update_cases unfolding pk_inv_def by metis
  moreover have "only_one sl_peek ((pk_slots s)[i := ?c])" "only_one sl_open ((pk_slots s)[i := ?c])"
    using assms(1) by (simp_all add: pk_inv_def only_one_update_off only_one_update_same [OF i])
  ultimately show ?thesis using Some by (simp add: pk_close_def pk_inv_def)
qed

lemma pk_inv_close_window:
  assumes "pk_inv s" shows "pk_inv (fst (close_window s))"
proof -
  have "only_one sl_open (shut_all (pk_slots s))"
    by (rule only_one_none) (rule shut_all_none)
  with assms show ?thesis
    by (auto simp: close_window_def pk_inv_def shut_all_def only_one_map slot_ok_def slot_floats_def)
qed

lemma pk_inv_open_window:
  assumes "pk_inv s" "i < length (pk_slots s)" "\<not> slot_floats s i"
  shows "pk_inv (fst (open_window busy i s))"
proof (cases busy)
  case True
  then show ?thesis using assms(1) by (simp add: open_window_def)
next
  case False
  define s1 where "s1 = fst (close_window s)"
  have s1: "pk_inv s1" using pk_inv_close_window [OF assms(1)] by (simp add: s1_def)
  have slots: "pk_slots s1 = shut_all (pk_slots s)" by (simp add: s1_def close_window_def)
  let ?c = "(pk_slots s1 ! i)\<lparr>sl_open := True\<rparr>"
  have i: "i < length (pk_slots s1)" using assms(2) by (simp add: slots shut_all_def)
  have w: "opens_in_window (sl_lane (pk_slots s1 ! i))"
    using assms(2,3) by (simp add: slots shut_all_def slot_floats_def)
  have none: "\<And>c. c \<in> set (pk_slots s1) \<Longrightarrow> \<not> sl_open c" using slots shut_all_none by metis
  have c: "slot_ok (sl_key (pk_slots s1 ! i)) ?c"
    using s1 nth_mem [OF i] w by (auto simp: slot_ok_def pk_inv_def)
  have "\<forall>x \<in> set ((pk_slots s1)[i := ?c]). slot_ok (sl_key (pk_slots s1 ! i)) x"
  proof
    fix x assume "x \<in> set ((pk_slots s1)[i := ?c])"
    then consider "x = ?c" | "x \<in> set (pk_slots s1)" using set_list_update_cases by metis
    then show "slot_ok (sl_key (pk_slots s1 ! i)) x"
    proof cases
      case 1
      with c show ?thesis by simp
    next
      case 2
      then show ?thesis using none s1 by (auto simp: slot_ok_def pk_inv_def)
    qed
  qed
  moreover have "only_one sl_open ((pk_slots s1)[i := ?c])"
    by (rule only_one_update_none) (rule none)
  moreover have "only_one sl_peek ((pk_slots s1)[i := ?c])"
    using s1 by (simp add: pk_inv_def only_one_update_same [OF i])
  moreover have "\<forall>j. pk_timer s1 = Some (Attached j) \<longrightarrow> j < length (pk_slots s1) \<and>
      \<not> opens_in_window (sl_lane ((pk_slots s1)[i := ?c] ! j))"
    using s1 i by (auto simp: pk_inv_def slot_floats_def nth_list_update)
  ultimately show ?thesis
    using False by (simp add: open_window_def pk_inv_def slot_floats_def Let_def s1_def [symmetric])
qed

lemma pk_inv_click:
  assumes "pk_inv s" "\<And>i. ck_slot c = Some i \<Longrightarrow> i < length (pk_slots s)"
  shows "pk_inv (fst (pk_click busy c s))"
proof -
  have pin: "pk_inv (fst (case toggle_pin k (pk_fold s) of
      (f, w, r) \<Rightarrow> (s\<lparr>pk_fold := f\<rparr>, pk_writes w @ [Pk_changed])))" for k
  proof -
    obtain f w r where t: "toggle_pin k (pk_fold s) = (f, w, r)" by (cases "toggle_pin k (pk_fold s)")
    show ?thesis using pk_inv_fold [OF assms(1)] toggle_pin_frame [OF t] by (simp add: t)
  qed
  have lane: "pk_inv (fst (case toggle_density l (pk_fold s) of
      (f, w, r) \<Rightarrow> (s\<lparr>pk_fold := f\<rparr>, pk_writes w @ [Pk_changed])))" for l
  proof -
    obtain f w r where t: "toggle_density l (pk_fold s) = (f, w, r)" by (cases "toggle_density l (pk_fold s)")
    show ?thesis
      using pk_inv_fold [OF assms(1)] toggle_density_frame [of l "pk_fold s"] by (simp add: t)
  qed
  show ?thesis
  proof (cases "ck_density c")
    case (Some l)
    then show ?thesis using lane by (simp add: pk_click_def)
  next
    case None
    show ?thesis
    proof (cases "ck_slot c")
      case None': None
      then show ?thesis
        using None assms(1) pk_inv_close_window [OF assms(1)] by (simp add: pk_click_def Let_def)
    next
      case (Some i)
      then show ?thesis
        using None assms pin pk_inv_close_window [OF assms(1)] pk_inv_open_window [OF assms(1)]
        by (simp add: pk_click_def Let_def)
    qed
  qed
qed

lemma pk_inv_drawn:
  assumes "distinct (map fst drawn)"
  shows "pk_inv \<lparr>pk_fold = f, pk_slots = map (drawn_slot f) drawn, pk_timer = map_option (detach old) tm\<rparr>"
proof -
  have keys: "distinct (map sl_key (map (drawn_slot f) drawn))"
    using assms by (simp add: drawn_slot_def comp_def case_prod_unfold)
  have "only_one sl_peek (map (drawn_slot f) drawn)"
    by (rule only_one_key [OF keys, where k = "fd_peek_key f"]) (auto simp: drawn_slot_def)
  moreover have "only_one sl_open (map (drawn_slot f) drawn)"
    by (rule only_one_key [OF keys, where k = "fd_open_key f"]) (auto simp: drawn_slot_def)
  moreover have "\<forall>c \<in> set (map (drawn_slot f) drawn). slot_ok (fd_open_key f) c"
    by (auto simp: slot_ok_def drawn_slot_def opens_in_window_def)
  moreover have "map_option (detach old) tm \<noteq> Some (Attached i)" for i
    by (cases tm; cases "the tm") auto
  ultimately show ?thesis by (auto simp: pk_inv_def)
qed

lemma pk_inv_step:
  assumes "pk_inv s" "pk_event_ok s e" shows "pk_inv (fst (pk_step e s))"
proof (cases e)
  case (Pointer_over around)
  have "slot_of (s\<lparr>pk_timer := None\<rparr>) around = slot_of s around" by (simp add: slot_of_def)
  then show ?thesis
    using assms(1) slot_of_in [of s around] unfolding Pointer_over
    by (auto simp: pk_inv_def slot_floats_def Let_def split: option.split)
next
  case (Pointer_out around into)
  then show ?thesis using assms(1) pk_inv_close [OF assms(1)] slot_of_in [of s around]
    by (auto split: option.split)
next
  case (Focus_in around ring busy)
  have "pk_inv (pk_open busy (Attached i) s)" if "slot_of s around = Some i" "slot_floats s i" for i
    by (rule pk_inv_open [OF assms(1)]) (use that slot_of_in in auto)
  then show ?thesis using assms(1) by (simp add: Focus_in split: option.split)
next
  case (Focus_out around into)
  then show ?thesis using assms(1) pk_inv_close [OF assms(1)] slot_of_in [of s around]
    by (auto split: option.split)
next
  case (Timer_ends busy)
  have "pk_inv (pk_open busy ref s)" if "pk_timer s = Some ref" for ref
    by (rule pk_inv_open [OF assms(1)]) (use that assms(1) in \<open>auto simp: pk_inv_def\<close>)
  then show ?thesis using assms(1) by (simp add: Timer_ends split: option.split)
next
  case (Click busy c)
  then show ?thesis using pk_inv_click [OF assms(1)] assms(2) by simp
next
  case (Enter busy c row)
  then show ?thesis using pk_inv_click [OF assms(1)] assms by simp
next
  case Escape
  then show ?thesis
    using pk_inv_close_window [OF pk_inv_close [OF assms(1), of None]]
    by (cases "close_window (pk_close None s)") simp
next
  case (Repaint drawn)
  then show ?thesis using pk_inv_drawn [of drawn "pk_fold s" "pk_slots s" "pk_timer s"] assms(2)
    by (auto simp: pk_inv_def slot_floats_def)
qed

lemma pk_inv_run: "pk_inv s \<Longrightarrow> pk_events_ok s es \<Longrightarrow> pk_inv (pk_run es s)"
  by (induction es arbitrary: s) (auto intro: pk_inv_step)

text \<open>(C27) On a board drawn by the rule of \<open>FoldSlot\<close>, whatever the pointer, the keyboard, the timer
  of a rest and the repaints do: at most one card floats over its lane and at most one window is
  open; a card floats only in a lane whose cards float and a window opens only in a lane whose cards
  open in one, so that a resting pointer or a passing focus opens no window; and the open window is
  the one the fold keeps for the next repaint.\<close>

theorem pk_one_card_floats_one_window_opens:
  assumes "distinct (map fst drawn)"
    and "pk_events_ok (pk_new f (map (drawn_slot f) drawn)) es"
    and "pk_run es (pk_new f (map (drawn_slot f) drawn)) = s"
  shows "only_one sl_peek (pk_slots s) \<and> only_one sl_open (pk_slots s) \<and>
    (\<forall>c \<in> set (pk_slots s).
       (sl_peek c \<longrightarrow> \<not> opens_in_window (sl_lane c)) \<and>
       (sl_open c \<longrightarrow> opens_in_window (sl_lane c) \<and> sl_key c = fd_open_key (pk_fold s)))"
proof -
  have "pk_inv (pk_new f (map (drawn_slot f) drawn))"
    using pk_inv_drawn [OF assms(1), of f "[]" None] by (simp add: pk_new_def)
  then have "pk_inv s" using pk_inv_run assms(2,3) by blast
  then show ?thesis by (simp add: pk_inv_def slot_ok_def)
qed

lemma pk_one_card_floats_one_window_opens_witness:
  "let d = [(''a'', ''cells'', ''line''), (''b'', ''clients'', ''line''), (''c'', ''clients'', ''line'')];
       f = fd_new (\<lambda>k. Some JNull) False;
       row = \<lparr>ck_density = None, ck_close = False, ck_pin = False, ck_row = True, ck_control = False,
              ck_slot = Some 0\<rparr>;
       s = pk_run [Pointer_over [1], Timer_ends False, Click False row, Focus_in [2] True False, Repaint d]
             (pk_new f (map (drawn_slot f) d))
   in map sl_peek (pk_slots s) = [False, False, True] \<and> map sl_open (pk_slots s) = [True, False, False] \<and>
      only_one sl_peek (pk_slots s)"
proof -
  let ?d = "[(''a'', ''cells'', ''line''), (''b'', ''clients'', ''line''), (''c'', ''clients'', ''line'')]"
  let ?f = "fd_new (\<lambda>k. Some JNull) False"
  let ?row = "\<lparr>ck_density = None, ck_close = False, ck_pin = False, ck_row = True, ck_control = False,
              ck_slot = Some 0\<rparr>"
  let ?es = "[Pointer_over [1], Timer_ends False, Click False ?row, Focus_in [2] True False, Repaint ?d]"
  let ?s = "pk_run ?es (pk_new ?f (map (drawn_slot ?f) ?d))"
  have d: "distinct (map fst ?d)" by simp
  have row_ok: "(\<forall>i. ck_slot ?row = Some i \<longrightarrow> i < n) \<longleftrightarrow> 0 < n" for n by simp
  have ok: "pk_events_ok (pk_new ?f (map (drawn_slot ?f) ?d)) ?es"
  proof -
    have "length (pk_slots (pk_run [Pointer_over [1], Timer_ends False] (pk_new ?f (map (drawn_slot ?f) ?d)))) = 3"
      by code_simp
    then show ?thesis by (simp add: row_ok)
  qed
  have "map sl_peek (pk_slots ?s) = [False, False, True]" "map sl_open (pk_slots ?s) = [True, False, False]"
    by code_simp+
  then show ?thesis
    using pk_one_card_floats_one_window_opens [OF d ok refl] by (simp only: Let_def simp_thms)
qed

end
