(* ===== verification/CardRows.thy ===== *)
theory CardRows
  imports CardFold Utils
begin

text \<open>
  The folded line of a board card, the slot that holds the line and the card, and the window a
  cell's card opens in (\<open>card-rows.js\<close>). Each class of the source is a record of what its
  constructor keeps, built from the facts it is handed, and a function to the HTML it draws. The
  pieces a builder hands over ready made (a chip, a cable's handle, a button's attributes) are raw;
  every name, address and word goes through the escape. A printed date and the dictionary are
  parameters.
\<close>

section \<open>Facts\<close>

text \<open>\<open>f.k || ""\<close> of a piece of HTML, \<open>String(f.k || "")\<close> of a text, \<open>!!f.k\<close>.\<close>

definition fact_text :: "js \<Rightarrow> string \<Rightarrow> string" where
  "fact_text f k = js_text (jget f k)"

definition fact_flag :: "js \<Rightarrow> string \<Rightarrow> bool" where
  "fact_flag f k = js_truthy (jget f k)"

text \<open>\<open>/^[a-z][a-z0-9-]*$/\<close>: a runner's name fit to name a class.\<close>

definition is_low :: "char \<Rightarrow> bool" where
  "is_low c = (let n = (of_char c :: nat) in 97 \<le> n \<and> n \<le> 122)"

definition class_word :: "string \<Rightarrow> bool" where
  "class_word s = (s \<noteq> [] \<and> is_low (hd s) \<and> list_all (\<lambda>c. is_low c \<or> is_digit c \<or> c = CHR ''-'') (tl s))"

definition runner_class :: "js \<Rightarrow> string" where
  "runner_class v = (if class_word (js_text v) then js_text v else [])"

definition engine_mark :: "string \<Rightarrow> string" where
  "engine_mark e = (if e \<noteq> [] then '' engine-'' @ e else [])"

text \<open>A class name with a space before it, when it stands.\<close>

definition mark :: "bool \<Rightarrow> string \<Rightarrow> string" where
  "mark on s = (if on then s else [])"

section \<open>A cell's line\<close>

record cell_row =
  rw_key :: string
  rw_port :: string
  rw_name :: string
  rw_title :: string
  rw_state :: string
  rw_cpu :: bool
  rw_engine :: string
  rw_chip :: string
  rw_launch :: string
  rw_stop :: string
  rw_why :: string
  rw_warn :: bool
  rw_failed :: bool
  rw_reason :: string
  rw_tps :: string
  rw_held :: bool
  rw_tps_hint :: string
  rw_busy :: bool
  rw_motion :: string
  rw_anchor :: string
  rw_strip :: string

definition cell_row_of :: "js \<Rightarrow> cell_row" where
  "cell_row_of f =
     \<lparr>rw_key = fact_text f ''key'', rw_port = fact_text f ''port'', rw_name = fact_text f ''name'',
      rw_title = js_text (js_or (jget f ''title'') (jget f ''name'')),
      rw_state = (if jget f ''state'' = JStr ''running'' then ''running''
                  else if jget f ''state'' = JStr ''reserved'' then ''reserved'' else ''parked''),
      rw_cpu = fact_flag f ''cpu'', rw_engine = runner_class (jget f ''engine''),
      rw_chip = fact_text f ''chip'', rw_launch = fact_text f ''launch'', rw_stop = fact_text f ''stop'',
      rw_why = fact_text f ''why'', rw_warn = fact_flag f ''warn'', rw_failed = fact_flag f ''failed'',
      rw_reason = fact_text f ''reason'', rw_tps = fact_text f ''tps'', rw_held = fact_flag f ''held'',
      rw_tps_hint = fact_text f ''tpsHint'', rw_busy = fact_flag f ''busy'',
      rw_motion = (if jget f ''motion'' = JStr ''start'' then ''start''
                   else if jget f ''motion'' = JStr ''stop'' then ''stop'' else []),
      rw_anchor = fact_text f ''anchor'', rw_strip = fact_text f ''strip''\<rparr>"

definition row_lead :: "cell_row \<Rightarrow> string" where
  "row_lead r =
     (let on = (rw_state r = ''running'');
          act = (if on then rw_stop r else rw_launch r);
          hook = (if on then ''cell-row-stop'' else ''cell-row-start'');
          attrs = (if rw_motion r \<noteq> [] then ''disabled aria-busy=\"true\"''
                   else if act \<noteq> [] then act @ '' data-t=\"'' @ hook @ ''\" data-t-id=\"'' @ escape_html (rw_key r) @ ''\"''
                   else ''disabled'');
          why = escape_html (rw_why r)
      in ''<button type=\"button\" class=\"fr-switch\" role=\"switch\" aria-checked=\"''
         @ (if on then ''true'' else ''false'') @ ''\" '' @ attrs
         @ '' title=\"'' @ why @ ''\" aria-label=\"'' @ why @ ''\">''
         @ (if rw_motion r \<noteq> []
            then ''<span class=\"topology-spinner'' @ mark (rw_motion r = ''stop'') '' stopping-spinner''
                 @ ''\" aria-hidden=\"true\"></span>''
            else ''<span class=\"fr-knob\" aria-hidden=\"true\"></span>'')
         @ ''</button>'')"

definition shown_name :: "dict \<Rightarrow> cell_row \<Rightarrow> string" where
  "shown_name t r = (if rw_state r = ''reserved'' then t ''topologyReservedCellLabel'' [] else rw_name r)"

definition warn_sign :: string where
  "warn_sign = [CHR 0xE2, CHR 0x9A, CHR 0xA0]"

definition row_class :: "cell_row \<Rightarrow> string" where
  "row_class r = js_join '' '' (filter (\<lambda>w. w \<noteq> [])
     [''fold-row'', ''cell-row'', rw_state r, mark (rw_cpu r) ''cpu'',
      (if rw_engine r \<noteq> [] then ''engine-'' @ rw_engine r else []),
      mark (rw_busy r) ''busy'', mark (rw_failed r) ''failed''])"

definition row_html :: "dict \<Rightarrow> cell_row \<Rightarrow> string" where
  "row_html t r =
     (let warn = (if rw_warn r then ''<span class=\"fr-warn\" title=\"'' @ escape_html (t ''cellRowWarnTitle'' [])
                    @ ''\">'' @ warn_sign @ ''</span>'' else []);
          failed = (if rw_failed r then ''<span class=\"fr-fail\" data-t=\"cell-row-failed\" title=\"''
                    @ escape_html (rw_reason r) @ ''\">'' @ escape_html (t ''failed'' []) @ ''</span>'' else [])
      in ''<div class=\"'' @ row_class r @ ''\" role=\"button\" tabindex=\"0\" data-t=\"cell-row\"''
         @ mark (rw_failed r) '' data-t-state=\"failed\"''
         @ '' data-t-id=\"'' @ escape_html (rw_key r) @ ''\" data-llama-port=\"'' @ escape_html (rw_port r) @ ''\"''
         @ '' title=\"'' @ escape_html (rw_title r) @ ''\">'' @ rw_anchor r @ row_lead r
         @ ''<span class=\"fr-port\">:'' @ escape_html (rw_port r) @ ''</span>''
         @ ''<span class=\"fr-name\">'' @ escape_html (shown_name t r) @ ''</span>'' @ failed @ warn
         @ ''<span class=\"fr-tps'' @ mark (rw_held r) '' held'' @ ''\" data-live-rowtps''
         @ (if rw_tps_hint r \<noteq> [] then '' title=\"'' @ escape_html (rw_tps_hint r) @ ''\"'' else [])
         @ ''>'' @ escape_html (rw_tps r) @ ''</span>''
         @ rw_chip r @ rw_strip r @ ''</div>'')"

section \<open>An agent's line\<close>

record agent_row =
  ar_key :: string
  ar_name :: string
  ar_kind :: string
  ar_seen :: jnum
  ar_routes :: "js list"

definition agent_row_of :: "js \<Rightarrow> agent_row" where
  "agent_row_of f =
     \<lparr>ar_key = fact_text f ''key'', ar_name = fact_text f ''name'', ar_kind = fact_text f ''kind'',
      ar_seen = num_or0 (js_number (jget f ''seen'')),
      ar_routes = filter (\<lambda>r. js_truthy r \<and> js_truthy (jget r ''port'')) (js_list (js_or (jget f ''routes'') (JArr [])))\<rparr>"

text \<open>The dot before an agent's name; \<open>clock\<close> prints a time as the page does.\<close>

definition agent_dot :: "dict \<Rightarrow> (jnum \<Rightarrow> string) \<Rightarrow> jnum \<Rightarrow> string \<Rightarrow> string" where
  "agent_dot t clock seen cls =
     (if seen = NaN \<or> seen = Fin 0
      then ''<span class=\"'' @ cls @ '' unseen\" title=\"'' @ escape_html (t ''agentDotUnseen'' []) @ ''\"></span>''
      else ''<span class=\"'' @ cls @ ''\" title=\"'' @ escape_html (t ''agentDotSeen'' [(''time'', clock seen)]) @ ''\"></span>'')"

definition default_face :: js where
  "default_face = JObj [(''cls'', JStr ''route-confirmed-tag''), (''glyph'', JStr [CHR 0xE2, CHR 0x9C, CHR 0x93]),
     (''tip'', JStr [])]"

definition route_html :: "dict \<Rightarrow> js \<Rightarrow> string" where
  "route_html t r =
     (let face = js_or (jget r ''face'') default_face;
          g = (\<lambda>k. jget r k);
          facts =
            (if js_truthy (g ''model'') then ''<span class=\"ar-model\">'' @ escape_html (js_string (g ''model''))
               @ mark (js_truthy (g ''locked'')) ('' '' @ [CHR 0xF0, CHR 0x9F, CHR 0x94, CHR 0x92]) @ ''</span>'' else [])
            @ (if js_truthy (g ''waitSec'') then ''<span class=\"ar-meta\">''
               @ escape_html (t ''routeWaitLabel'' [(''sec'', js_string (g ''waitSec''))]) @ ''</span>'' else [])
            @ (if js_truthy (g ''limit'') then ''<span class=\"ar-meta\">''
               @ escape_html (t ''routeCtxLimit'' [(''value'', js_string (g ''limit''))]) @ ''</span>'' else [])
      in ''<div class=\"ar-route '' @ escape_html (js_string (g ''role'')) @ ''\">'' @ js_text (g ''anchor'')
         @ ''<span class=\"'' @ js_string (jget face ''cls'') @ ''\" title=\"''
         @ escape_html (if js_truthy (jget face ''tip'') then t (js_string (jget face ''tip'')) [] else [])
         @ ''\">'' @ js_string (jget face ''glyph'') @ ''</span>''
         @ ''<span class=\"ar-port\" title=\"'' @ escape_html (js_text (g ''address'')) @ ''\">''
         @ mark (g ''role'' = JStr ''fallback'') ([CHR 0xE2, CHR 0x86, CHR 0xAA] @ '' '')
         @ '':'' @ escape_html (js_string (g ''port'')) @ ''</span>''
         @ facts @ js_text (g ''errBadge'') @ ''</div>'')"

definition agent_html :: "dict \<Rightarrow> (jnum \<Rightarrow> string) \<Rightarrow> agent_row \<Rightarrow> string" where
  "agent_html t clock a =
     ''<div class=\"fold-row agent-row\" role=\"button\" tabindex=\"0\" data-t=\"agent-row\"''
     @ '' data-t-id=\"'' @ escape_html (ar_key a) @ ''\"><div class=\"ar-head\">'' @ agent_dot t clock (ar_seen a) ''ar-dot''
     @ ''<strong>'' @ escape_html (ar_name a) @ ''</strong><span class=\"ar-kind\">'' @ escape_html (ar_kind a)
     @ ''</span></div>'' @ concat (map (route_html t) (ar_routes a)) @ ''</div>''"

section \<open>A cell's window\<close>

record cell_window =
  cw_key :: string
  cw_name :: string
  cw_port :: string
  cw_address :: string
  cw_via :: string
  cw_via_title :: string
  cw_engine :: string
  cw_card :: string
  cw_notice :: string

definition cell_window_of :: "js \<Rightarrow> cell_window" where
  "cell_window_of f =
     \<lparr>cw_key = fact_text f ''key'', cw_name = fact_text f ''name'', cw_port = fact_text f ''port'',
      cw_address = fact_text f ''address'', cw_via = fact_text f ''via'', cw_via_title = fact_text f ''viaTitle'',
      cw_engine = runner_class (jget f ''engine''), cw_card = fact_text f ''card'', cw_notice = fact_text f ''notice''\<rparr>"

definition window_html :: "dict \<Rightarrow> cell_window \<Rightarrow> string" where
  "window_html t w =
     (let k = escape_html (cw_key w); shut = escape_html (t ''close'' []);
          label = escape_html (js_trim (t ''a11yCell'' [] @ '' :'' @ cw_port w @ '' '' @ cw_name w));
          address = (if cw_address w \<noteq> [] then ''<span class=\"cwh-addr\">'' @ escape_html (cw_address w) @ ''</span>'' else []);
          via = (if cw_via w \<noteq> [] then ''<span class=\"cwh-via\" data-t=\"cell-window-via\" title=\"''
                   @ escape_html (cw_via_title w) @ ''\">'' @ [CHR 0xE2, CHR 0x86, CHR 0x92] @ '' ''
                   @ escape_html (cw_via w) @ ''</span>'' else [])
      in ''<div class=\"cell-window-backdrop\" data-cell-window-close=\"1\" aria-hidden=\"true\"></div>''
         @ ''<div class=\"cell-window'' @ engine_mark (cw_engine w)
         @ ''\" role=\"dialog\" aria-modal=\"true\" aria-label=\"'' @ label @ ''\"''
         @ '' data-t=\"cell-window\" data-t-id=\"'' @ k @ ''\"><div class=\"cell-window-head\">''
         @ ''<strong class=\"cwh-name\">'' @ escape_html (cw_name w) @ ''</strong>''
         @ ''<span class=\"cwh-port\">:'' @ escape_html (cw_port w) @ ''</span>'' @ address @ via
         @ ''<button type=\"button\" class=\"cwh-close\" data-cell-window-close=\"1\" data-t=\"cell-window-close\"''
         @ '' data-t-id=\"'' @ k @ ''\" title=\"'' @ shut @ ''\" aria-label=\"'' @ shut @ ''\">''
         @ [CHR 0xE2, CHR 0x9C, CHR 0x95] @ ''</button></div>'' @ cw_notice w @ cw_card w @ ''</div>'')"

section \<open>A machine's eye and chips\<close>

text \<open>\<open>Math.max(0, Number(x) || 0)\<close>.\<close>

definition count_of :: "js \<Rightarrow> jnum" where
  "count_of v = (case num_or0 (js_number v) of Fin r \<Rightarrow> Fin (max 0 r) | Inf neg \<Rightarrow> (if neg then Fin 0 else Inf False)
     | NaN \<Rightarrow> NaN)"

definition eye_open :: string where
  "eye_open = ''<path d=\"M1.5 8s2.5-4.5 6.5-4.5S14.5 8 14.5 8s-2.5 4.5-6.5 4.5S1.5 8 1.5 8z\"></path><circle cx=\"8\" cy=\"8\" r=\"2\"></circle>''"

definition eye_shut :: string where
  "eye_shut = eye_open @ ''<path d=\"M2.5 13.5l11-11\"></path>''"

record cell_eye =
  ey_host :: string
  ey_on :: bool
  ey_hidden :: jnum

definition cell_eye_of :: "js \<Rightarrow> cell_eye" where
  "cell_eye_of f = \<lparr>ey_host = fact_text f ''hostId'', ey_on = fact_flag f ''on'', ey_hidden = count_of (jget f ''hidden'')\<rparr>"

definition eye_html :: "dict \<Rightarrow> cell_eye \<Rightarrow> string" where
  "eye_html t e =
     (let ws = escape_html (if ey_on e then t ''cellsHideIdleOn'' [(''count'', num_str (ey_hidden e))]
                            else t ''cellsHideIdleOff'' []);
          n = escape_html (ey_host e)
      in ''<button type=\"button\" class=\"node-eye\" data-cell-eye=\"'' @ n @ ''\" data-t=\"node-hide-idle\" data-t-id=\"''
         @ n @ ''\"'' @ '' aria-pressed=\"'' @ (if ey_on e then ''true'' else ''false'') @ ''\" title=\"'' @ ws
         @ ''\" aria-label=\"'' @ ws @ ''\">''
         @ ''<svg width=\"14\" height=\"14\" viewBox=\"0 0 16 16\" fill=\"none\" stroke=\"currentColor\" stroke-width=\"1.5\"''
         @ '' stroke-linecap=\"round\" stroke-linejoin=\"round\" aria-hidden=\"true\">''
         @ (if ey_on e then eye_shut else eye_open) @ ''</svg>''
         @ (if ey_on e then ''<span class=\"node-eye-count\">'' @ num_str (ey_hidden e) @ ''</span>'' else [])
         @ ''</button>'')"

record filter_option =
  fo_id :: string
  fo_label :: string
  fo_count :: jnum
  fo_up :: "bool option"
  fo_title :: string

record cell_filter =
  cl_host :: string
  cl_chosen :: string
  cl_anchors :: string
  cl_options :: "filter_option list"

definition filter_option_of :: "js \<Rightarrow> filter_option" where
  "filter_option_of v =
     \<lparr>fo_id = fact_text v ''id'', fo_label = fact_text v ''label'',
      fo_count = (case count_of (jget v ''count'') of Fin r \<Rightarrow> Fin (of_int \<lfloor>r\<rfloor>) | n \<Rightarrow> n),
      fo_up = (case jget v ''up'' of JBool b \<Rightarrow> Some b | _ \<Rightarrow> None), fo_title = fact_text v ''title''\<rparr>"

definition cell_filter_of :: "js \<Rightarrow> cell_filter" where
  "cell_filter_of f =
     \<lparr>cl_host = fact_text f ''hostId'', cl_chosen = fact_text f ''chosen'', cl_anchors = fact_text f ''anchors'',
      cl_options = map filter_option_of (js_list (jget f ''options''))\<rparr>"

definition chip_button :: "cell_filter \<Rightarrow> filter_option \<Rightarrow> string" where
  "chip_button f x =
     (let host = escape_html (cl_host f);
          engine = (if fo_id x \<noteq> [] \<and> fo_id x \<noteq> ''caravan'' then runner_class (JStr (fo_id x)) else []);
          dot = (case fo_up x of None \<Rightarrow> []
                 | Some up \<Rightarrow> ''<span class=\"ncf-dot'' @ mark up '' up'' @ ''\" aria-hidden=\"true\"></span>'')
      in ''<button type=\"button\" class=\"ncf-chip'' @ engine_mark engine @ ''\" data-cell-filter=\"'' @ host @ ''\"''
         @ '' data-cell-filter-id=\"'' @ escape_html (fo_id x) @ ''\" data-t=\"node-cell-filter\" data-t-id=\"'' @ host @ '':''
         @ escape_html (if fo_id x \<noteq> [] then fo_id x else ''all'') @ ''\"''
         @ '' aria-pressed=\"'' @ (if fo_id x = cl_chosen f then ''true'' else ''false'') @ ''\" title=\"''
         @ escape_html (fo_title x) @ ''\">'' @ dot @ escape_html (fo_label x)
         @ ''<span class=\"ncf-count\">'' @ num_str (fo_count x) @ ''</span></button>'')"

definition filter_html :: "dict \<Rightarrow> cell_filter \<Rightarrow> string" where
  "filter_html t f =
     (if cl_options f = [] then []
      else ''<div class=\"node-cell-filter\" role=\"group\" aria-label=\"'' @ escape_html (t ''cellsFilterLabel'' []) @ ''\">''
           @ cl_anchors f @ concat (map (chip_button f) (cl_options f)) @ ''</div>'')"

section \<open>An engine's strip and a model on its shelf\<close>

record engine_strip =
  es_hook :: string
  es_key :: string
  es_engine :: string
  es_state :: string
  es_label :: string
  es_version :: string
  es_build :: string
  es_lever :: string
  es_boot :: string
  es_memory :: string
  es_where :: string
  es_notes :: string
  es_links :: string
  es_title :: string

definition engine_strip_of :: "js \<Rightarrow> engine_strip" where
  "engine_strip_of f =
     \<lparr>es_hook = js_text (js_or (jget f ''hook'') (JStr ''node-engine'')), es_key = fact_text f ''key'',
      es_engine = runner_class (jget f ''engine''), es_state = fact_text f ''state'', es_label = fact_text f ''label'',
      es_version = fact_text f ''version'', es_build = fact_text f ''build'', es_lever = fact_text f ''lever'',
      es_boot = fact_text f ''boot'', es_memory = fact_text f ''memory'', es_where = fact_text f ''where'',
      es_notes = fact_text f ''notes'', es_links = fact_text f ''links'', es_title = fact_text f ''title''\<rparr>"

definition strip_html :: "engine_strip \<Rightarrow> string" where
  "strip_html e =
     (let version = (if es_version e \<noteq> [] then ''<span class=\"es-ver\">'' @ escape_html (es_version e) @ ''</span>'' else [])
      in ''<div class=\"engine-strip'' @ engine_mark (es_engine e) @ ''\" data-t=\"'' @ escape_html (es_hook e) @ ''\"''
         @ '' data-t-id=\"'' @ escape_html (es_key e) @ ''\" data-t-state=\"'' @ escape_html (es_state e) @ ''\" title=\"''
         @ escape_html (es_title e) @ ''\">''
         @ ''<div class=\"es-main\">'' @ es_lever e @ ''<strong class=\"es-name\">'' @ escape_html (es_label e) @ ''</strong>''
         @ version @ es_build e
         @ ''<span class=\"es-fill\"></span>'' @ es_boot e @ es_memory e @ ''</div>''
         @ (if es_where e \<noteq> [] \<or> es_notes e \<noteq> [] \<or> es_links e \<noteq> []
            then ''<div class=\"es-sub\">'' @ es_where e @ es_notes e @ es_links e @ ''</div>'' else [])
         @ ''</div>'')"

record shelf_line =
  sh_key :: string
  sh_engine :: string
  sh_name :: string
  sh_remote :: string
  sh_job :: string
  sh_params :: string
  sh_memory :: string
  sh_reserve :: string
  sh_why :: string
  sh_acts :: string
  sh_error :: string
  sh_loaded :: bool

definition shelf_line_of :: "js \<Rightarrow> shelf_line" where
  "shelf_line_of f =
     \<lparr>sh_key = fact_text f ''key'', sh_engine = runner_class (jget f ''engine''), sh_name = fact_text f ''name'',
      sh_remote = fact_text f ''remote'', sh_job = fact_text f ''job'', sh_params = fact_text f ''params'',
      sh_memory = fact_text f ''memory'', sh_reserve = fact_text f ''reserve'', sh_why = fact_text f ''why'',
      sh_acts = fact_text f ''acts'', sh_error = fact_text f ''error'', sh_loaded = fact_flag f ''loaded''\<rparr>"

definition shelf_html :: "shelf_line \<Rightarrow> string" where
  "shelf_html l =
     (let why = escape_html (sh_why l);
          plus = ''<button type=\"button\" class=\"sl-plus\" data-t=\"engine-model-reserve\" data-t-id=\"''
            @ escape_html (sh_key l) @ ''\"'' @ '' '' @ (if sh_reserve l \<noteq> [] then sh_reserve l else ''disabled'')
            @ '' title=\"'' @ why @ ''\" aria-label=\"'' @ why @ ''\">+</button>'';
          params = (if sh_params l \<noteq> [] then ''<span class=\"sl-params\">'' @ escape_html (sh_params l) @ ''</span>'' else [])
      in ''<div class=\"shelf-line'' @ engine_mark (sh_engine l) @ mark (sh_loaded l) '' loaded'' @ ''\"''
         @ '' data-t=\"engine-model\" data-t-id=\"'' @ escape_html (sh_key l) @ ''\">'' @ plus
         @ ''<span class=\"sl-name\" title=\"'' @ escape_html (sh_name l) @ ''\">'' @ escape_html (sh_name l) @ ''</span>''
         @ sh_remote l @ sh_job l @ params @ sh_acts l @ sh_memory l @ sh_error l @ ''</div>'')"

section \<open>The slot of a folding card\<close>

record fold_place =
  fp_key :: string
  fp_lane :: string
  fp_mode :: string
  fp_line :: string
  fp_card :: string
  fp_peek :: bool
  fp_open :: bool

definition fold_place_of :: "string \<Rightarrow> string \<Rightarrow> string \<Rightarrow> string \<Rightarrow> string \<Rightarrow> bool \<Rightarrow> bool \<Rightarrow> fold_place" where
  "fold_place_of key lane mode line body peek shown =
     (let m = (if mode = ''pinned'' then ''pinned'' else ''line'')
      in \<lparr>fp_key = key, fp_lane = (if lane = ''clients'' then ''clients'' else ''cells''), fp_mode = m,
          fp_line = line, fp_card = body, fp_peek = (peek \<and> m = ''line''), fp_open = (shown \<and> m = ''line'')\<rparr>)"

definition slot_pins :: "fold_place \<Rightarrow> bool" where
  "slot_pins s = (\<not> opens_in_window (fp_lane s))"

definition slot_control :: "dict \<Rightarrow> fold_place \<Rightarrow> string" where
  "slot_control t s =
     (let pinned = (fp_mode s = ''pinned'')
      in ''<button type=\"button\" class=\"fold-pin\" data-fold-pin=\"1\" data-t=\"''
         @ (if pinned then ''fold-unpin'' else ''fold-pin'') @ ''\"''
         @ '' data-t-id=\"'' @ escape_html (fp_key s) @ ''\" title=\"''
         @ escape_html (t (if pinned then ''foldUnpinTitle'' else ''foldPinTitle'') []) @ ''\">''
         @ (if pinned then [CHR 0xE2, CHR 0x96, CHR 0xB4] else [CHR 0xF0, CHR 0x9F, CHR 0x93, CHR 0x8C])
         @ ''</button>'')"

definition slot_html :: "dict \<Rightarrow> fold_place \<Rightarrow> string" where
  "slot_html t s =
     ''<div class=\"fold-slot '' @ fp_lane s @ ''-fold'' @ mark (fp_peek s) '' peek'' @ mark (fp_open s) '' open'' @ ''\"''
     @ '' data-fold-key=\"'' @ escape_html (fp_key s) @ ''\" data-fold-lane=\"'' @ fp_lane s @ ''\" data-fold-mode=\"''
     @ fp_mode s @ ''\">''
     @ (if fp_mode s = ''line'' then fp_line s else []) @ fp_card s
     @ (if slot_pins s then slot_control t s else []) @ ''</div>''"

text \<open>A cell folded into its slot, as \<open>topology-nodes.js\<close> puts the pieces together.\<close>

definition folded_cell :: "dict \<Rightarrow> cell_row \<Rightarrow> cell_window \<Rightarrow> bool \<Rightarrow> string" where
  "folded_cell t r w shown =
     slot_html t (fold_place_of (rw_key r) ''cells'' ''line'' (row_html t r) (window_html t w) False shown)"

section \<open>No text reaches the markup\<close>

lemma is_low_inert: "is_low c \<Longrightarrow> \<not> markup_char c"
  by (auto simp: is_low_def markup_char_def Let_def)

lemma class_word_inert: "class_word s \<Longrightarrow> html_inert s"
  using is_low_inert digit_inert
  by (cases s) (auto simp: class_word_def html_inert_def list_all_iff markup_char_def)

lemma runner_class_inert [simp]: "markup_of (runner_class v) = []"
  using class_word_inert by (simp add: runner_class_def markup_of_inert)

text \<open>The shape of a line: its states, and which of its optional words stand.\<close>

definition row_shape :: "cell_row \<Rightarrow> cell_row" where
  "row_shape r = r\<lparr>rw_key := [], rw_port := [], rw_name := [], rw_title := [], rw_why := [], rw_reason := [],
     rw_tps := [], rw_engine := mark (rw_engine r \<noteq> []) ''e'',
     rw_tps_hint := mark (rw_tps_hint r \<noteq> []) ''h''\<rparr>"

definition window_shape :: "cell_window \<Rightarrow> cell_window" where
  "window_shape w = w\<lparr>cw_key := [], cw_name := [], cw_port := [], cw_via_title := [],
     cw_address := mark (cw_address w \<noteq> []) ''a'', cw_via := mark (cw_via w \<noteq> []) ''v'', cw_engine := []\<rparr>"

lemma markup_of_mark [simp]: "markup_of (mark b s) = (if b then markup_of s else [])"
  by (simp add: mark_def)

lemma mark_Nil_iff [simp]: "mark b s = [] \<longleftrightarrow> \<not> b \<or> s = []"
  by (simp add: mark_def)

lemma markup_of_join: "markup_of sep = [] \<Longrightarrow> markup_of (js_join sep ws) = concat (map markup_of ws)"
  by (induction sep ws rule: js_join.induct) simp_all

lemma markup_of_row_class:
  "markup_of (rw_engine r) = [] \<Longrightarrow> markup_of (row_class r) = markup_of (rw_state r)"
  by (simp add: row_class_def markup_of_join mark_def) (simp add: markup_of_def markup_char_def)

lemma mark_iff: "s \<noteq> [] \<Longrightarrow> mark b s = mark b' s \<longleftrightarrow> b = b'"
  by (simp add: mark_def)

lemma row_shapeD:
  assumes "row_shape r = row_shape r'"
  shows "rw_state r = rw_state r'" "rw_cpu r = rw_cpu r'" "rw_chip r = rw_chip r'" "rw_launch r = rw_launch r'"
    "rw_stop r = rw_stop r'" "rw_warn r = rw_warn r'" "rw_failed r = rw_failed r'" "rw_held r = rw_held r'"
    "rw_busy r = rw_busy r'" "rw_motion r = rw_motion r'" "rw_anchor r = rw_anchor r'" "rw_strip r = rw_strip r'"
    "rw_engine r = [] \<longleftrightarrow> rw_engine r' = []" "rw_tps_hint r = [] \<longleftrightarrow> rw_tps_hint r' = []"
  using assms by (cases r; cases r'; simp add: row_shape_def mark_iff)+

lemma window_shapeD:
  assumes "window_shape w = window_shape w'"
  shows "cw_card w = cw_card w'" "cw_notice w = cw_notice w'"
    "cw_address w = [] \<longleftrightarrow> cw_address w' = []" "cw_via w = [] \<longleftrightarrow> cw_via w' = []"
  using assms by (cases w; cases w'; simp add: window_shape_def mark_iff)+

lemma markup_of_engine_mark: "markup_of e = [] \<Longrightarrow> markup_of (engine_mark e) = []"
  by (simp add: engine_mark_def) (simp add: markup_of_def markup_char_def)

lemma markup_row_lead:
  "row_shape r = row_shape r' \<Longrightarrow> markup_of (row_lead r) = markup_of (row_lead r')"
  by (simp only: row_lead_def Let_def row_shapeD [of r r'] markup_of_append markup_of_escape
      if_distrib [of markup_of])

lemma markup_row_html:
  assumes "row_shape r = row_shape r'" "markup_of (rw_engine r) = []" "markup_of (rw_engine r') = []"
  shows "markup_of (row_html t r) = markup_of (row_html t' r')"
  by (simp only: row_html_def Let_def markup_of_append markup_of_escape if_distrib [of markup_of]
      markup_of_row_class [OF assms(2)] markup_of_row_class [OF assms(3)] markup_row_lead [OF assms(1)]
      row_shapeD [OF assms(1)] markup_of_mark markup_of_Nil)

lemma markup_window_html:
  assumes "window_shape w = window_shape w'" "markup_of (cw_engine w) = []" "markup_of (cw_engine w') = []"
  shows "markup_of (window_html t w) = markup_of (window_html t' w')"
  by (simp only: window_html_def Let_def markup_of_append markup_of_escape if_distrib [of markup_of]
      markup_of_engine_mark [OF assms(2)] markup_of_engine_mark [OF assms(3)] window_shapeD [OF assms(1)] markup_of_Nil)

lemma markup_slot_control:
  "fp_mode s = fp_mode s' \<Longrightarrow> markup_of (slot_control t s) = markup_of (slot_control t' s')"
  by (simp only: slot_control_def Let_def markup_of_append markup_of_escape if_distrib [of markup_of])

lemma markup_slot_html:
  assumes "markup_of line = markup_of line'" "markup_of body = markup_of body'"
  shows "markup_of (slot_html t (fold_place_of k lane mode line body peek shown)) =
    markup_of (slot_html t' (fold_place_of k' lane mode line' body' peek shown))"
proof -
  let ?s = "fold_place_of k lane mode line body peek shown"
  let ?s' = "fold_place_of k' lane mode line' body' peek shown"
  have f: "fp_mode ?s = fp_mode ?s'" "fp_lane ?s = fp_lane ?s'" "fp_peek ?s = fp_peek ?s'" "fp_open ?s = fp_open ?s'"
    "fp_line ?s = line" "fp_line ?s' = line'" "fp_card ?s = body" "fp_card ?s' = body'" "slot_pins ?s = slot_pins ?s'"
    by (simp_all add: fold_place_of_def slot_pins_def Let_def)
  show ?thesis
    by (simp only: slot_html_def markup_of_append markup_of_escape if_distrib [of markup_of] f assms
        markup_slot_control [OF f(1), of t t'])
qed

text \<open>(C24) No text reaches the markup of a folded cell: its line, its window and the slot around them,
  drawn in any two languages for any two cells whose states and ready-made pieces are the same and
  that show the same optional words, have the same tags and quotes in the same order, whatever their
  keys, names, ports, addresses, reasons, speeds, hints and runners say.\<close>

theorem cr_texts_never_reach_the_markup:
  assumes r: "r = cell_row_of f" "r' = cell_row_of f'" "row_shape r = row_shape r'"
    and w: "w = cell_window_of g" "w' = cell_window_of g'" "window_shape w = window_shape w'"
  shows "markup_of (folded_cell t r w shown) = markup_of (folded_cell t' r' w' shown)"
proof -
  have "markup_of (row_html t r) = markup_of (row_html t' r')"
    by (rule markup_row_html [OF r(3)]) (simp_all add: r(1,2) cell_row_of_def)
  moreover have "markup_of (window_html t w) = markup_of (window_html t' w')"
    by (rule markup_window_html [OF w(3)]) (simp_all add: w(1,2) cell_window_of_def)
  ultimately show ?thesis unfolding folded_cell_def by (rule markup_slot_html)
qed

lemma cr_texts_never_reach_the_markup_witness:
  "markup_of (folded_cell (\<lambda>k ps. k) (cell_row_of (JObj [(''name'', JStr ''<script>'')]))
      (cell_window_of (JObj [(''name'', JStr ''<script>'')])) True) =
   markup_of (folded_cell (\<lambda>k ps. k) (cell_row_of (JObj [])) (cell_window_of (JObj [])) True)"
  by (rule cr_texts_never_reach_the_markup [OF refl refl _ refl refl]) code_simp+

end
