(* ===== verification/CellRules.thy ===== *)
theory CellRules
  imports Utils Interfaces
begin

text \<open>
  The small rules of a cell and its form: the pair of flash attention and V cache llama.cpp refuses
  (\<open>kv-cache.js\<close>), the split of a model between cards (\<open>split-mode.js\<close>), the type of a draft file
  (\<open>draft-file.js\<close>), what a cell holds in memory (\<open>cell-memory.js\<close>), its speed (\<open>cell-speed.js\<close>), what it
  will keep in RAM (\<open>ram-plan.js\<close>), and the one policy of every queue (\<open>queue-settings.js\<close>). The
  dictionary is the parameter \<open>t\<close>.
\<close>

section \<open>KV cache\<close>

definition kv_plain :: "string list" where
  "kv_plain = [[], ''f32'', ''f16'', ''bf16'']"

definition kv_yes :: "string list" where
  "kv_yes = [''1'', ''true'', ''yes'', ''on'']"

definition kv_word :: "js \<Rightarrow> string" where
  "kv_word v = js_lower (js_trim (js_text_nn v))"

definition kv_refused_type :: "js \<Rightarrow> string" where
  "kv_refused_type config =
     (let flash = kv_word (jget config ''ENABLE_FLASH_ATTN'')
      in if flash = [] \<or> flash \<in> set kv_yes then []
         else let kind = kv_word (jget config ''CACHE_TYPE_V'') in if kind \<in> set kv_plain then [] else kind)"

section \<open>The split between cards\<close>

definition sm_values :: "string list" where
  "sm_values = [''none'', ''layer'', ''row'', ''tensor'']"

definition sm_shown :: "string list" where
  "sm_shown = [''layer'', ''row'', ''tensor'']"

definition sm_parallel :: "string list" where
  "sm_parallel = [''row'', ''tensor'']"

definition sm_default :: string where
  "sm_default = ''layer''"

definition sm_of :: "js \<Rightarrow> string" where
  "sm_of v = js_lower (js_trim (js_text_nn v))"

definition sm_known :: "string \<Rightarrow> bool" where
  "sm_known v = (v \<in> set sm_values)"

definition sm_even_by_default :: "string \<Rightarrow> bool" where
  "sm_even_by_default v = (v = ''tensor'')"

text \<open>\<open>Number(c?.memoryTotalMiB || 0)\<close>; \<open>None\<close> where it is no finite number.\<close>

definition sm_size :: "js \<Rightarrow> int option" where
  "sm_size c = (case js_number (js_or (jget c ''memoryTotalMiB'') (JNum 0)) of
     Fin r \<Rightarrow> Some (js_round (r / 1024)) | _ \<Rightarrow> None)"

definition sm_suggested_split :: "string \<Rightarrow> js \<Rightarrow> string" where
  "sm_suggested_split v cards =
     (if \<not> sm_even_by_default v then []
      else let sizes = map sm_size (js_list cards)
           in if length sizes < 2 \<or> list_ex (\<lambda>gb. case gb of Some n \<Rightarrow> \<not> n > 0 | None \<Rightarrow> True) sizes then []
              else let ns = map the sizes; top = Max (set ns); low = Min (set ns)
                   in if of_int (top - low) > of_int top * (1 / 10 :: rat) then js_join '','' (map int_str ns) else [])"

definition sm_label :: "dict \<Rightarrow> string \<Rightarrow> string" where
  "sm_label t v = (let w = (if v = ''layer'' then t ''splitLayer'' [] else if v = ''row'' then t ''splitRow'' []
       else if v = ''tensor'' then t ''splitTensor'' [] else []) in if w \<noteq> [] then w else v)"

definition sm_hint :: "dict \<Rightarrow> string \<Rightarrow> string" where
  "sm_hint t v =
     (if v \<notin> set sm_shown then []
      else if v = ''row'' then t ''splitHintRow'' [(''layer'', t ''splitLayer'' []), (''tensor'', t ''splitTensor'' [])]
      else if v \<in> set sm_parallel then t ''splitHintParallel'' [] else t ''splitHintLayer'' [])"

definition sm_for_cards :: "string \<Rightarrow> js \<Rightarrow> string" where
  "sm_for_cards v cards =
     (if (case js_number cards of Fin r \<Rightarrow> r \<le> 1 | Inf neg \<Rightarrow> neg | NaN \<Rightarrow> False) then []
      else if v \<in> set sm_shown then v else sm_default)"

definition sm_button :: "dict \<Rightarrow> string \<Rightarrow> string \<Rightarrow> string \<Rightarrow> string" where
  "sm_button t hook value v =
     (let exp = (if v = ''tensor'' then ''<span class=\"compute-split-exp\">'' @ escape_html (t ''splitExperimental'' []) @ ''</span>'' else [])
      in ''<button type=\"button\" class=\"compute-split-btn'' @ (if v = value then '' on'' else []) @ ''\"''
         @ '' data-split=\"'' @ v @ ''\" data-t=\"'' @ hook @ ''\" data-t-id=\"'' @ v @ ''\"''
         @ '' title=\"'' @ escape_html (js_join middot (filter (\<lambda>w. w \<noteq> []) [sm_label t v, sm_hint t v])) @ ''\">''
         @ escape_html (sm_label t v) @ exp @ ''</button>'')"

definition warn_sign :: string where
  "warn_sign = [CHR 0xE2, CHR 0x9A, CHR 0xA0]"

definition sm_html :: "dict \<Rightarrow> string \<Rightarrow> string \<Rightarrow> string" where
  "sm_html t hook value =
     (let seg = concat (map (sm_button t hook value) sm_shown);
          warn = (if value \<noteq> [] \<and> \<not> sm_known value
                  then ''<p class=\"compute-split-warn\">'' @ warn_sign @ '' '' @ escape_html (t ''splitUnknown'' [(''value'', value)]) @ ''</p>'' else []);
          hint = (if sm_hint t value \<noteq> [] then ''<p class=\"compute-split-hint\">'' @ escape_html (sm_hint t value) @ ''</p>'' else [])
      in ''<div class=\"compute-split\">''
         @ ''<div class=\"compute-split-label\">'' @ escape_html (t ''splitMode'' []) @ ''</div>''
         @ ''<div class=\"compute-split-seg\">'' @ seg @ ''</div>'' @ warn @ hint @ ''</div>'')"

section \<open>Draft files\<close>

definition df_prefixes :: "(string \<times> string) list" where
  "df_prefixes = [(''dflash'', ''draft-dflash''), (''dspark'', ''draft-dspark''), (''eagle3'', ''draft-eagle3''), (''mtp'', ''draft-mtp'')]"

definition df_break :: "char \<Rightarrow> bool" where
  "df_break c = (c = CHR ''-'' \<or> c = CHR ''_'' \<or> c = CHR ''.'')"

definition df_sidecar_type :: "string \<Rightarrow> string" where
  "df_sidecar_type path =
     (let parts = js_split CHR ''/'' path; folders = butlast parts; name = js_lower (last parts);
          head = hd (split_by df_break name)
      in case map_of df_prefixes head of
           Some kind \<Rightarrow> kind
         | None \<Rightarrow> if list_ex (\<lambda>f. js_lower f = ''mtp'') folders then ''draft-mtp'' else [])"

definition df_launch_type :: "string \<Rightarrow> string" where
  "df_launch_type path = (let s = df_sidecar_type path in if s \<noteq> [] then s else ''draft-simple'')"

definition df_cell_type :: "js \<Rightarrow> js \<Rightarrow> string" where
  "df_cell_type draft family =
     (if js_truthy draft then df_launch_type (js_text draft) else js_string (js_or family (JStr ''draft-mtp'')))"

section \<open>What a cell holds in memory\<close>

definition gib :: rat where
  "gib = 2 ^ 30"

definition cm_gb :: "js \<Rightarrow> string" where
  "cm_gb bytes =
     (case bytes of JUndef \<Rightarrow> [] | JNull \<Rightarrow> [] | JBool b \<Rightarrow> []
      | _ \<Rightarrow> if bytes = JStr [] then []
            else case js_number bytes of
              Fin n \<Rightarrow> if n < 0 then [] else if n = 0 then ''0''
                      else let gb = n / gib in if gb < 1 / 20 then ''<0.1G'' else to_fixed 1 gb @ ''G''
            | _ \<Rightarrow> [])"

datatype cm_kind = CMUnknown | CMNone | CMHeld | CMExpected | CMIdle

fun cm_kind_name :: "cm_kind \<Rightarrow> string" where
  "cm_kind_name CMUnknown = ''unknown''"
| "cm_kind_name CMNone = ''none''"
| "cm_kind_name CMHeld = ''held''"
| "cm_kind_name CMExpected = ''expected''"
| "cm_kind_name CMIdle = ''idle''"

record cm_part =
  cm_kind :: cm_kind
  cm_bytes :: rat
  cm_title :: string

text \<open>A byte count as told: a finite number from 0, or nothing told.\<close>

definition cm_number :: "js \<Rightarrow> rat option" where
  "cm_number v =
     (case v of JBool b \<Rightarrow> None | JNull \<Rightarrow> None
      | _ \<Rightarrow> if v = JStr [] then None else case js_number v of Fin r \<Rightarrow> if r \<ge> 0 then Some r else None | _ \<Rightarrow> None)"

text \<open>\<open>Number(x) > 0 ? Number(x) * unit : 0\<close>.\<close>

definition cm_positive :: "js \<Rightarrow> rat \<Rightarrow> rat" where
  "cm_positive v unit = (case js_number v of Fin r \<Rightarrow> if r > 0 then r * unit else 0 | _ \<Rightarrow> 0)"

definition cm_ram :: "dict \<Rightarrow> js \<Rightarrow> cm_part" where
  "cm_ram t f =
     (let file = cm_positive (jget f ''fileBytes'') 1; held = js_text (jget f ''heldTitle'')
      in if js_truthy (jget f ''live'') then
           (case cm_number (jget f ''ramBytes'') of
              None \<Rightarrow> \<lparr>cm_kind = CMUnknown, cm_bytes = 0, cm_title = t ''cellMemUnknownTitle'' []\<rparr>
            | Some ram \<Rightarrow> \<lparr>cm_kind = (if ram = 0 then CMNone else CMHeld), cm_bytes = ram,
                          cm_title = (if held \<noteq> [] then held else t ''cellRamTitle'' [])\<rparr>)
         else if js_truthy (jget f ''cpu'') \<and> file \<noteq> 0
           then \<lparr>cm_kind = CMExpected, cm_bytes = file, cm_title = t ''cellRamEstChipTitle'' []\<rparr>
           else \<lparr>cm_kind = CMIdle, cm_bytes = 0, cm_title = t ''cellMemIdleTitle'' []\<rparr>)"

definition cm_gpu :: "dict \<Rightarrow> js \<Rightarrow> cm_part" where
  "cm_gpu t f =
     (let file = cm_positive (jget f ''fileBytes'') 1; plan = cm_positive (jget f ''plannedGb'') gib;
          held = js_text (jget f ''heldTitle''); split = js_text (jget f ''split'')
      in if js_truthy (jget f ''live'') then
           (case cm_number (jget f ''vramBytes'') of
              None \<Rightarrow> \<lparr>cm_kind = CMUnknown, cm_bytes = 0, cm_title = t ''cellMemUnknownTitle'' []\<rparr>
            | Some vram \<Rightarrow>
                if \<not> js_truthy (jget f ''gpuKnown'') then \<lparr>cm_kind = CMUnknown, cm_bytes = 0, cm_title = t ''cellMemUnknownTitle'' []\<rparr>
                else \<lparr>cm_kind = (if vram = 0 then CMNone else CMHeld), cm_bytes = vram,
                      cm_title = (if held \<noteq> [] then held
                        else t ''vramChipTitle'' [] @ (if split \<noteq> [] then '' '' @ dash @ '' '' @ split else []))\<rparr>)
         else if js_truthy (jget f ''cpu'') then \<lparr>cm_kind = CMNone, cm_bytes = 0, cm_title = t ''topologyCpuCellsHint'' []\<rparr>
         else if plan \<noteq> 0 then \<lparr>cm_kind = CMExpected, cm_bytes = plan, cm_title = t ''vramPlanChipTitle'' []\<rparr>
         else if file \<noteq> 0 then \<lparr>cm_kind = CMExpected, cm_bytes = file, cm_title = t ''vramEstChipTitle'' []\<rparr>
         else \<lparr>cm_kind = CMIdle, cm_bytes = 0, cm_title = t ''cellMemIdleTitle'' []\<rparr>)"

definition cm_class_of :: "bool \<Rightarrow> cm_kind \<Rightarrow> string" where
  "cm_class_of ram kind =
     (case kind of CMHeld \<Rightarrow> if ram then ''mbadge-ram'' else ''mbadge-vram''
      | CMExpected \<Rightarrow> if ram then ''mbadge-ram-est'' else ''mbadge-vram-est''
      | CMNone \<Rightarrow> ''mbadge-mem-zero'' | _ \<Rightarrow> ''mbadge-mem-unknown'')"

definition almost_sign :: string where
  "almost_sign = [CHR 0xE2, CHR 0x89, CHR 0x88]"

definition cm_text_of :: "string \<Rightarrow> cm_part \<Rightarrow> string" where
  "cm_text_of label part =
     (if cm_kind part = CMUnknown \<or> cm_kind part = CMIdle then label @ '' '' @ dash
      else label @ '' '' @ (if cm_kind part = CMExpected then almost_sign else []) @ cm_gb (JNum (cm_bytes part)))"

definition cm_badge :: "bool \<Rightarrow> cm_part \<Rightarrow> string" where
  "cm_badge ram part =
     ''<span class=\"mbadge '' @ cm_class_of ram (cm_kind part) @ ''\" data-t=\"'' @ (if ram then ''cell-ram'' else ''cell-gpu'')
     @ ''\" data-t-state=\"'' @ cm_kind_name (cm_kind part) @ ''\"''
     @ '' title=\"'' @ escape_html (cm_title part) @ ''\">''
     @ escape_html (cm_text_of (if ram then ''RAM'' else ''GPU'') part) @ ''</span>''"

definition cm_html :: "dict \<Rightarrow> js \<Rightarrow> string" where
  "cm_html t f = (if js_truthy (jget f ''reserved'') then [] else cm_badge True (cm_ram t f) @ cm_badge False (cm_gpu t f))"

section \<open>The speed on a cell's line\<close>

record cell_speed =
  cs_running :: bool
  cs_requests :: "rat option"
  cs_speed :: rat
  cs_working :: bool
  cs_held :: bool

definition cs_count :: "js \<Rightarrow> rat option" where
  "cs_count v = (case v of JNum r \<Rightarrow> if rat_int r \<and> r \<ge> 0 then Some r else None | _ \<Rightarrow> None)"

definition cs_of :: "js \<Rightarrow> bool \<Rightarrow> cell_speed" where
  "cs_of server running =
     (let requests = cs_count (jget server ''requestsProcessing'');
          speed = (case js_number (jget server ''genTps'') of Fin r \<Rightarrow> if running \<and> r > 0 then r else 0 | _ \<Rightarrow> 0);
          working = (running \<and> (case requests of None \<Rightarrow> False | Some n \<Rightarrow> n > 0))
      in \<lparr>cs_running = running, cs_requests = requests, cs_speed = speed, cs_working = working,
          cs_held = (speed > 0 \<and> \<not> working)\<rparr>)"

definition cs_words :: "dict \<Rightarrow> (rat \<Rightarrow> string) \<Rightarrow> cell_speed \<Rightarrow> string" where
  "cs_words t format s =
     (if \<not> cs_speed s > 0 then []
      else let speed = format (cs_speed s) @ '' t/s'' in if cs_held s then t ''tpsLastLabel'' [] @ '' '' @ speed else speed)"

definition cs_hint :: "dict \<Rightarrow> cell_speed \<Rightarrow> string" where
  "cs_hint t s = (if cs_held s then t ''tpsLastHelp'' [] else [])"

section \<open>The RAM plan\<close>

record ram_plan =
  rp_reserve :: rat
  rp_headroom :: rat
  rp_who :: string

definition rp_from :: "js \<Rightarrow> ram_plan option" where
  "rp_from answer =
     (case js_number (jget (jget answer ''ram'') ''reserveMiB'') of
        Fin mib \<Rightarrow> if mib \<le> 0 then None
          else Some \<lparr>rp_reserve = mib, rp_headroom = max 0 (num_of (jget answer ''headroomMiB'')), rp_who = js_text (jget (jget answer ''ram'') ''who'')\<rparr>
      | _ \<Rightarrow> None)"

definition rp_fits :: "ram_plan \<Rightarrow> rat \<Rightarrow> bool" where
  "rp_fits p free_gb = (rp_reserve p / 1024 \<le> free_gb - rp_headroom p / 1024)"

text \<open>One form's asking: the config it holds as text, its plan, and whether the timer of its asking runs.\<close>

record rp_form =
  rp_key :: string
  rp_plan :: "ram_plan option"
  rp_timer :: "string option"

definition rp_init :: rp_form where
  "rp_init = \<lparr>rp_key = [], rp_plan = None, rp_timer = None\<rparr>"

definition rp_plan_for :: "string \<Rightarrow> rp_form \<Rightarrow> rp_form" where
  "rp_plan_for key s = (if key = rp_key s then s else s\<lparr>rp_key := key, rp_plan := None, rp_timer := Some key\<rparr>)"

definition rp_ask :: "rp_form \<Rightarrow> rp_form" where
  "rp_ask s = s\<lparr>rp_timer := None\<rparr>"

definition rp_answer :: "string \<Rightarrow> js \<Rightarrow> rp_form \<Rightarrow> rp_form" where
  "rp_answer key answer s = (if key \<noteq> rp_key s then s else s\<lparr>rp_plan := rp_from answer\<rparr>)"

datatype rp_event = RPConfig string | RPAsk | RPAnswer string js | RPRefused string

fun rp_step :: "rp_form \<Rightarrow> rp_event \<Rightarrow> rp_form" where
  "rp_step s (RPConfig key) = rp_plan_for key s"
| "rp_step s RPAsk = rp_ask s"
| "rp_step s (RPAnswer key answer) = rp_answer key answer s"
| "rp_step s (RPRefused key) = s"

definition rp_run :: "rp_event list \<Rightarrow> rp_form \<Rightarrow> rp_form" where
  "rp_run es s = foldl rp_step s es"

text \<open>The asking keeps the contract \<open>stale_guard\<close>.\<close>

interpretation plan: stale_guard rp_key rp_plan rp_plan_for rp_answer rp_from
  by unfold_locales (auto simp: rp_plan_for_def rp_answer_def)

section \<open>The policy of the queues\<close>

record qs_field =
  qs_key :: string
  qs_spec :: string
  qs_label :: string
  qs_tip :: string
  qs_max :: nat
  qs_unit :: string
  qs_fallback :: nat

definition qs_fields :: "qs_field list" where
  "qs_fields = [
     \<lparr>qs_key = ''cloudFallbackPct'', qs_spec = ''spillPct'', qs_label = ''cvLabelOverflowAt'', qs_tip = ''cvTipOverflowAt'',
      qs_max = 100, qs_unit = ''%'', qs_fallback = 20\<rparr>,
     \<lparr>qs_key = ''stickySlotSec'', qs_spec = ''stickySlotSec'', qs_label = ''cvLabelHold'', qs_tip = ''cvTipHold'',
      qs_max = 120, qs_unit = ''s'', qs_fallback = 0\<rparr>,
     \<lparr>qs_key = ''loadingModelWaitSec'', qs_spec = ''loadingModelWaitSec'', qs_label = ''cvLabelLoadWait'', qs_tip = ''cvTipLoadWait'',
      qs_max = 900, qs_unit = ''s'', qs_fallback = 60\<rparr>]"

definition qs_field_of :: "string \<Rightarrow> qs_field option" where
  "qs_field_of key = find (\<lambda>f. qs_key f = key) qs_fields"

definition qs_value :: "js \<Rightarrow> qs_field \<Rightarrow> js" where
  "qs_value policy f = js_nn (jget policy (qs_key f)) (JNum (of_nat (qs_fallback f)))"

definition qs_summary :: "dict \<Rightarrow> js \<Rightarrow> string" where
  "qs_summary t policy = js_join middot (map (\<lambda>f. t (qs_label f) [] @ '' '' @ js_string (qs_value policy f) @ qs_unit f) qs_fields)"

definition qs_help_tip :: "dict \<Rightarrow> string \<Rightarrow> string" where
  "qs_help_tip t key =
     (let txt = escape_html (t key []); nl = [CHR 10]
      in nl @ ''    <span class=\"inline-tip help-tip\" tabindex=\"0\" data-i18n-tip=\"'' @ key @ ''\" aria-label=\"'' @ txt @ ''\">'' @ nl
         @ ''      ?'' @ nl @ ''      <span class=\"tooltip\" role=\"tooltip\">'' @ txt @ ''</span>'' @ nl @ ''    </span>'' @ nl @ ''  '')"

definition hourglass :: string where
  "hourglass = [CHR 0xE2, CHR 0x8F, CHR 0xB3]"

definition pencil :: string where
  "pencil = [CHR 0xE2, CHR 0x9C, CHR 0x8E]"

definition qs_field_html :: "dict \<Rightarrow> js \<Rightarrow> qs_field \<Rightarrow> string" where
  "qs_field_html t policy f =
     ''<label class=\"cv-shared-q-field\"><span>'' @ escape_html (t (qs_label f) []) @ '' '' @ qs_help_tip t (qs_tip f) @ ''</span>''
     @ ''<input type=\"number\" min=\"0\" max=\"'' @ nat_str (qs_max f) @ ''\" value=\"'' @ js_string (qs_value policy f)
     @ ''\" data-t=\"routing-queue-setting\"'' @ '' data-t-id=\"'' @ qs_key f @ ''\" data-cv-queue-policy=\"'' @ qs_key f @ ''\"><span>''
     @ qs_unit f @ ''</span></label>''"

definition qs_html :: "dict \<Rightarrow> bool \<Rightarrow> js \<Rightarrow> string" where
  "qs_html t editing policy =
     ''<section class=\"cv-queue-settings'' @ (if editing then '' open'' else []) @ ''\" data-t=\"routing-queue-settings\" data-cv-queue-settings>''
     @ ''<button class=\"cv-qs-line\" type=\"button\" data-t=\"routing-queue-settings-toggle\" data-cv-qs-toggle''
     @ '' aria-expanded=\"'' @ (if editing then ''true'' else ''false'') @ ''\" title=\"'' @ escape_html (t ''cvSharedQueueSettings'' []) @ ''\">''
     @ ''<span class=\"cv-qs-glyph\" aria-hidden=\"true\">'' @ hourglass @ ''</span>''
     @ ''<span class=\"cv-qs-text\" data-cv-qs-text>'' @ escape_html (qs_summary t policy) @ ''</span>''
     @ ''<span class=\"cv-qs-pen\" aria-hidden=\"true\">'' @ pencil @ ''</span></button>''
     @ ''<div class=\"cv-qs-fields\">'' @ concat (map (qs_field_html t policy) qs_fields) @ ''</div></section>''"

text \<open>What \<open>sync\<close> writes into the page: the lines whose words changed (counted, since each write wakes the
  observer that calls it again), and the value of each input that is not the one being typed in.\<close>

record qs_input =
  qi_policy :: string
  qi_value :: string
  qi_disabled :: bool
  qi_active :: bool

definition qs_sync_lines :: "dict \<Rightarrow> js \<Rightarrow> string list \<Rightarrow> string list \<times> nat" where
  "qs_sync_lines t policy lines =
     (let summary = qs_summary t policy in (map (\<lambda>l. summary) lines, length (filter (\<lambda>l. l \<noteq> summary) lines)))"

definition qs_sync_input :: "bool \<Rightarrow> js \<Rightarrow> qs_input \<Rightarrow> qs_input" where
  "qs_sync_input saving policy i =
     (case qs_field_of (qi_policy i) of
        Some f \<Rightarrow> i\<lparr>qi_disabled := saving, qi_value := (if \<not> saving \<and> \<not> qi_active i then js_string (qs_value policy f) else qi_value i)\<rparr>
      | None \<Rightarrow> i\<lparr>qi_disabled := saving\<rparr>)"

text \<open>\<open>save\<close> up to its call: nothing, the refusal of a value, or the policy that is sent.\<close>

datatype qs_act = QSNothing | QSInvalid nat | QSSend string rat

definition qs_save :: "bool \<Rightarrow> string \<Rightarrow> js \<Rightarrow> bool \<times> qs_act" where
  "qs_save saving key raw =
     (case qs_field_of key of
        None \<Rightarrow> (saving, QSNothing)
      | Some f \<Rightarrow>
          if saving then (saving, QSNothing)
          else (case js_number raw of
              Fin v \<Rightarrow> if js_trim (js_string raw) = [] \<or> \<not> rat_int v \<or> v < 0 \<or> v > of_nat (qs_max f) then (saving, QSInvalid (qs_max f))
                      else (True, QSSend key v)
            | _ \<Rightarrow> (saving, QSInvalid (qs_max f))))"

definition qs_saved :: "bool \<Rightarrow> bool" where
  "qs_saved saving = False"

section \<open>Properties\<close>

lemma rp_run_asked: "\<exists>A. plan.asked rp_init (rp_run es rp_init) A \<and> (\<forall>(k, a) \<in> A. RPAnswer k a \<in> set es)"
proof (induction es rule: rev_induct)
  case Nil
  have "plan.asked rp_init rp_init {}" by (rule plan.asked.init) (simp add: rp_init_def)
  then show ?case by (auto simp: rp_run_def)
next
  case (snoc e es)
  then obtain A where A: "plan.asked rp_init (rp_run es rp_init) A" "\<forall>(k, a) \<in> A. RPAnswer k a \<in> set es" by blast
  have run: "rp_run (es @ [e]) rp_init = rp_step (rp_run es rp_init) e" by (simp add: rp_run_def)
  show ?case
  proof (cases e)
    case (RPConfig k)
    show ?thesis unfolding run unfolding RPConfig using plan.asked.ask [OF A(1), of k] A(2) by auto
  next
    case RPAsk
    have "plan.asked rp_init (rp_ask (rp_run es rp_init)) A"
      by (rule plan.asked.other [OF A(1)]) (simp_all add: rp_ask_def)
    then show ?thesis unfolding run unfolding RPAsk using A(2) by auto
  next
    case (RPAnswer k a)
    show ?thesis unfolding run unfolding RPAnswer using plan.asked.arrive [OF A(1), of k a] A(2)
      by (intro exI [where x = "insert (k, a) A"]) auto
  next
    case (RPRefused k)
    show ?thesis unfolding run unfolding RPRefused using A by auto
  qed
qed

text \<open>The plan drawn is the plan of what the form holds: whatever the order in which the form changes
  and the controller answers or refuses, a plan on the scale is what the controller answered for exactly
  the config the form holds now, and it is a plan of more than zero.\<close>

theorem rp_plan_is_of_the_form:
  assumes "rp_plan (rp_run es rp_init) = Some p"
  shows "(\<exists>a. RPAnswer (rp_key (rp_run es rp_init)) a \<in> set es \<and> rp_from a = Some p) \<and> rp_reserve p > 0 \<and> rp_headroom p \<ge> 0"
proof -
  obtain A where A: "plan.asked rp_init (rp_run es rp_init) A" "\<forall>(k, a) \<in> A. RPAnswer k a \<in> set es"
    using rp_run_asked by blast
  from plan.shown_is_answer [OF A(1) assms] obtain a where
    a: "(rp_key (rp_run es rp_init), a) \<in> A" "rp_from a = Some p" by blast
  have "rp_reserve p > 0 \<and> rp_headroom p \<ge> 0" using a(2) by (auto simp: rp_from_def split: jnum.splits if_splits)
  then show ?thesis using a A(2) by blast
qed

theorem rp_plan_is_of_the_form_witness:
  "rp_plan (rp_run [RPConfig ''b'', RPAsk, RPConfig ''a'', RPAsk,
      RPAnswer ''a'' (JObj [(''ram'', JObj [(''reserveMiB'', JNum 2048)])]),
      RPAnswer ''b'' (JObj [(''ram'', JObj [(''reserveMiB'', JNum 9)])])] rp_init) \<noteq> None"
proof -
  let ?es = "[RPConfig ''b'', RPAsk, RPConfig ''a'', RPAsk,
      RPAnswer ''a'' (JObj [(''ram'', JObj [(''reserveMiB'', JNum 2048)])]),
      RPAnswer ''b'' (JObj [(''ram'', JObj [(''reserveMiB'', JNum 9)])])]"
  let ?p = "\<lparr>rp_reserve = 2048, rp_headroom = 0, rp_who = []\<rparr>"
  have p: "rp_plan (rp_run ?es rp_init) = Some ?p"
    by (simp add: rp_run_def rp_init_def rp_plan_for_def rp_ask_def rp_answer_def rp_from_def num_of_def)
  show ?thesis using rp_plan_is_of_the_form [OF p] p by simp
qed

text \<open>A policy that is sent is a whole number its queue's field allows, of a known field, sent only when
  no other save is on its way; every other value is refused with the field's bound and nothing is sent; and
  after a send no second one starts before the first has ended.\<close>

theorem qs_save_sends_only_valid:
  assumes "qs_save saving key raw = (saving', act)"
  shows "(\<forall>k v. act = QSSend k v \<longrightarrow> \<not> saving \<and> saving' \<and> k = key \<and>
       (\<exists>f \<in> set qs_fields. qs_key f = key \<and> (\<exists>n. v = of_nat n \<and> n \<le> qs_max f)) \<and> js_number raw = Fin v) \<and>
    (\<forall>m. act = QSInvalid m \<longrightarrow> saving' = saving) \<and>
    (saving \<longrightarrow> act = QSNothing \<and> saving' = saving)"
proof (cases "qs_field_of key")
  case None
  then show ?thesis using assms by (auto simp: qs_save_def)
next
  case (Some f)
  then have f: "f \<in> set qs_fields" "qs_key f = key" by (auto simp: qs_field_of_def find_Some_iff)
  have nat_of: "\<exists>n. v = of_nat n \<and> n \<le> m" if "rat_int v" "0 \<le> v" "v \<le> of_nat m" for v m
  proof -
    have v: "of_nat (nat \<lfloor>v\<rfloor>) = v" using that(1,2) by (simp add: rat_int_def)
    then have "nat \<lfloor>v\<rfloor> \<le> m" using that(3) by (metis of_nat_le_iff)
    then show ?thesis using v by metis
  qed
  show ?thesis
  proof (cases "js_number raw")
    case (Fin v)
    then show ?thesis using assms Some f nat_of [of v "qs_max f"] by (auto simp: qs_save_def split: if_splits)
  qed (use assms Some in \<open>auto simp: qs_save_def split: if_splits\<close>)
qed

theorem qs_save_sends_only_valid_witness:
  "\<exists>f \<in> set qs_fields. qs_key f = ''stickySlotSec'' \<and> snd (qs_save False ''stickySlotSec'' (JStr '' 30 '')) = QSSend ''stickySlotSec'' 30"
proof -
  have s: "qs_save False ''stickySlotSec'' (JStr '' 30 '') = (True, QSSend ''stickySlotSec'' 30)" by code_simp
  show ?thesis using qs_save_sends_only_valid [OF s] s by auto
qed

text \<open>A zero and "nobody measured" are not drawn alike: the badge of a running cell wears the dash
  exactly when its figure is not told, and says "0" exactly when the figure told is zero, so a held amount,
  however small, is never drawn as nothing.\<close>

lemma cm_gb_zero: "cm_gb (JNum r) = ''0'' \<longleftrightarrow> r = 0"
  by (auto simp: cm_gb_def Let_def)

lemma dash_not_figure: "cm_gb (JNum r) \<noteq> dash"
proof -
  have "last dash = CHR 0x94" by (simp add: dash_def)
  then show ?thesis by (auto simp: cm_gb_def Let_def dash_def)
qed

theorem cm_zero_is_not_unknown:
  assumes "js_truthy (jget f ''live'')"
  shows "(cm_text_of ''RAM'' (cm_ram t f) = ''RAM '' @ dash \<longleftrightarrow> cm_number (jget f ''ramBytes'') = None) \<and>
    (cm_text_of ''RAM'' (cm_ram t f) = ''RAM 0'' \<longleftrightarrow> cm_number (jget f ''ramBytes'') = Some 0) \<and>
    (cm_text_of ''GPU'' (cm_gpu t f) = ''GPU '' @ dash \<longleftrightarrow> cm_number (jget f ''vramBytes'') = None \<or> \<not> js_truthy (jget f ''gpuKnown'')) \<and>
    (cm_text_of ''GPU'' (cm_gpu t f) = ''GPU 0'' \<longleftrightarrow> cm_number (jget f ''vramBytes'') = Some 0 \<and> js_truthy (jget f ''gpuKnown''))"
proof -
  have zero: "dash \<noteq> ''0''" "''0'' \<noteq> dash" by (simp_all add: dash_def)
  have ram: "cm_ram t f = (case cm_number (jget f ''ramBytes'') of
      None \<Rightarrow> \<lparr>cm_kind = CMUnknown, cm_bytes = 0, cm_title = t ''cellMemUnknownTitle'' []\<rparr>
    | Some r \<Rightarrow> \<lparr>cm_kind = (if r = 0 then CMNone else CMHeld), cm_bytes = r, cm_title = cm_title (cm_ram t f)\<rparr>)"
    using assms by (simp add: cm_ram_def Let_def split: option.split)
  have gpu: "cm_gpu t f = (case cm_number (jget f ''vramBytes'') of
      None \<Rightarrow> \<lparr>cm_kind = CMUnknown, cm_bytes = 0, cm_title = t ''cellMemUnknownTitle'' []\<rparr>
    | Some r \<Rightarrow> if \<not> js_truthy (jget f ''gpuKnown'') then \<lparr>cm_kind = CMUnknown, cm_bytes = 0, cm_title = t ''cellMemUnknownTitle'' []\<rparr>
        else \<lparr>cm_kind = (if r = 0 then CMNone else CMHeld), cm_bytes = r, cm_title = cm_title (cm_gpu t f)\<rparr>)"
    using assms by (simp add: cm_gpu_def Let_def split: option.split)
  have held: "cm_text_of label \<lparr>cm_kind = (if r = 0 then CMNone else CMHeld), cm_bytes = r, cm_title = w\<rparr> = label @ '' '' @ cm_gb (JNum r)"
    for label r w by (simp add: cm_text_of_def)
  have unknown: "cm_text_of label \<lparr>cm_kind = CMUnknown, cm_bytes = 0, cm_title = w\<rparr> = label @ '' '' @ dash" for label w
    by (simp add: cm_text_of_def)
  have "(cm_text_of ''RAM'' (cm_ram t f) = ''RAM '' @ dash \<longleftrightarrow> cm_number (jget f ''ramBytes'') = None) \<and>
      (cm_text_of ''RAM'' (cm_ram t f) = ''RAM 0'' \<longleftrightarrow> cm_number (jget f ''ramBytes'') = Some 0)"
  proof (cases "cm_number (jget f ''ramBytes'')")
    case None
    show ?thesis by (subst (1 2) ram) (simp add: None unknown zero)
  next
    case (Some r)
    show ?thesis by (subst (1 2) ram) (simp add: Some held cm_gb_zero dash_not_figure)
  qed
  moreover have "(cm_text_of ''GPU'' (cm_gpu t f) = ''GPU '' @ dash \<longleftrightarrow> cm_number (jget f ''vramBytes'') = None \<or> \<not> js_truthy (jget f ''gpuKnown'')) \<and>
      (cm_text_of ''GPU'' (cm_gpu t f) = ''GPU 0'' \<longleftrightarrow> cm_number (jget f ''vramBytes'') = Some 0 \<and> js_truthy (jget f ''gpuKnown''))"
  proof (cases "cm_number (jget f ''vramBytes'')")
    case None
    show ?thesis by (subst (1 2) gpu) (simp add: None unknown zero)
  next
    case (Some r)
    show ?thesis by (subst (1 2) gpu) (simp add: Some held unknown zero cm_gb_zero dash_not_figure)
  qed
  ultimately show ?thesis by blast
qed

theorem cm_zero_is_not_unknown_witness:
  "cm_text_of ''RAM'' (cm_ram (\<lambda>k v. k) (JObj [(''live'', JBool True), (''ramBytes'', JNum 0)])) = ''RAM 0'' \<and>
   cm_text_of ''GPU'' (cm_gpu (\<lambda>k v. k) (JObj [(''live'', JBool True), (''ramBytes'', JNum 0)])) = ''GPU '' @ dash"
  using cm_zero_is_not_unknown [of "JObj [(''live'', JBool True), (''ramBytes'', JNum 0)]" "\<lambda>k v. k"]
  by (simp add: cm_number_def)

end
