(* ===== verification/CommandPreview.thy ===== *)
theory CommandPreview
  imports Utils
begin

text \<open>
  The preview of the command a cell would run (\<open>static/js/command-preview.js\<close>): the command's tokens,
  the lines it is shown in, the longest common subsequence of the current command and the new one that
  decides which tokens are drawn as changed, the preview's markup, and the request that computes it: a
  debounced timer per form and a sequence number that drops an answer a newer request has superseded.
  The dictionary \<open>t\<close> and the form's configuration are parameters.
\<close>

section \<open>Tokens and lines\<close>

definition cp_split :: "js \<Rightarrow> string list" where
  "cp_split command = js_words (js_trim (js_string (js_or command (JStr []))))"

definition cp_has_value :: "string \<Rightarrow> string list \<Rightarrow> bool" where
  "cp_has_value tok rest = (prefix ''--'' tok \<and> (case rest of [] \<Rightarrow> False | v # vs \<Rightarrow> \<not> prefix ''-'' v))"

fun cp_lines :: "string list \<Rightarrow> string list" where
  "cp_lines [] = []"
| "cp_lines [tok] = [tok]"
| "cp_lines (tok # v # rest) =
     (if cp_has_value tok (v # rest) then (tok @ '' '' @ v) # cp_lines rest else tok # cp_lines (v # rest))"

definition cp_newline :: string where
  "cp_newline = [CHR 10]"

definition cp_format :: "js \<Rightarrow> string" where
  "cp_format command = js_join cp_newline (cp_lines (cp_split command))"

lemma js_words_ws_tail: "\<forall>c \<in> set w. is_ws c \<Longrightarrow> js_words (s @ w) = js_words s"
proof (induction s)
  case Nil
  then show ?case by (induction w) (simp_all add: js_words_cons_ws)
next
  case (Cons a s)
  show ?case
  proof (cases "is_ws a")
    case True
    with Cons show ?thesis by (simp add: js_words_cons_ws)
  next
    case False
    obtain u us where u: "split_by is_ws s = u # us" by (cases "split_by is_ws s") auto
    obtain v vs where v: "split_by is_ws (s @ w) = v # vs" by (cases "split_by is_ws (s @ w)") auto
    have tails: "\<forall>c \<in> set w. is_ws c \<Longrightarrow> \<exists>n. split_by is_ws (x @ w) = split_by is_ws x @ replicate n []" for x
    proof (induction x)
      case Nil
      then show ?case
      proof (induction w)
        case (Cons c w)
        then obtain n where "split_by is_ws w = [] # replicate n []" by auto
        then show ?case using Cons.prems by (intro exI [where x = "Suc n"]) simp
      qed (rule exI [where x = 0], simp)
    next
      case (Cons b x)
      then obtain n where "split_by is_ws (x @ w) = split_by is_ws x @ replicate n []" by auto
      then show ?case by (intro exI [where x = n]) (auto split: list.splits)
    qed
    obtain n where "split_by is_ws ((a # s) @ w) = split_by is_ws (a # s) @ replicate n []"
      using tails [of "a # s"] Cons.prems by blast
    then show ?thesis by (simp add: js_words_def)
  qed
qed

lemma js_words_trim: "js_words (js_trim s) = js_words s"
proof -
  have start: "js_words (dropWhile is_ws x) = js_words x" for x
    by (induction x) (simp_all add: js_words_cons_ws)
  let ?x = "dropWhile is_ws s"
  have "?x = js_trim s @ rev (takeWhile is_ws (rev ?x))"
    by (metis js_trim_def trim_start_def trim_end_def rev_append rev_rev_ident takeWhile_dropWhile_id)
  then have "js_words ?x = js_words (js_trim s)"
    by (metis js_words_ws_tail set_rev set_takeWhileD)
  then show ?thesis using start by simp
qed

text \<open>The words of a text whose lines are words, or pairs of words.\<close>

lemma js_words_lines:
  "\<forall>w \<in> set toks. w \<noteq> [] \<and> (\<forall>c \<in> set w. \<not> is_ws c) \<Longrightarrow> js_words (js_join cp_newline (cp_lines toks)) = toks"
proof (induction toks rule: cp_lines.induct)
  case (3 tok v rest)
  have ws: "is_ws CHR '' ''" "is_ws (CHR 10)" by code_simp+
  have cons: "js_join sep (x # xs) = (if xs = [] then x else x @ sep @ js_join sep xs)" for sep x xs
    by (cases xs) simp_all
  have lines_Nil: "cp_lines xs = [] \<longleftrightarrow> xs = []" for xs by (induction xs rule: cp_lines.induct) auto
  show ?case
  proof (cases "cp_has_value tok (v # rest)")
    case True
    with 3 show ?thesis
      by (auto simp: cons lines_Nil js_words_append_ws js_words_single ws cp_newline_def)
  next
    case False
    with 3 show ?thesis
      by (auto simp: cons lines_Nil js_words_append_ws js_words_single ws cp_newline_def)
  qed
qed (simp_all add: js_words_single)

section \<open>The longest common subsequence\<close>

text \<open>A row of the table \<open>dp\<close>, from the row below it: the entry at the end of the row is 0.\<close>

fun cp_row :: "'a \<Rightarrow> 'a list \<Rightarrow> nat list \<Rightarrow> nat list" where
  "cp_row c (p # ps) (below # belows) =
     (let right = cp_row c ps belows
      in (if c = p then hd belows + 1 else max below (hd right)) # right)"
| "cp_row c ps belows = [0]"

fun cp_table :: "'a list \<Rightarrow> 'a list \<Rightarrow> nat list list" where
  "cp_table [] preview = [replicate (length preview + 1) 0]"
| "cp_table (c # cs) preview = (let rows = cp_table cs preview in cp_row c preview (hd rows) # rows)"

function cp_walk :: "'a list \<Rightarrow> 'a list \<Rightarrow> nat list list \<Rightarrow> nat \<Rightarrow> nat \<Rightarrow> nat list" where
  "cp_walk current preview dp i j =
     (if i < length current \<and> j < length preview then
        (if current ! i = preview ! j then j # cp_walk current preview dp (i + 1) (j + 1)
         else if dp ! (i + 1) ! j \<ge> dp ! i ! (j + 1) then cp_walk current preview dp (i + 1) j
         else cp_walk current preview dp i (j + 1))
      else [])"
  by pat_completeness auto
termination
  by (relation "measure (\<lambda>(current, preview, dp, i, j). (length current - i) + (length preview - j))") auto

declare cp_walk.simps [simp del]

text \<open>The set of the unchanged positions, as the list they are added in.\<close>

definition cp_unchanged :: "'a list \<Rightarrow> 'a list \<Rightarrow> nat list" where
  "cp_unchanged current preview = cp_walk current preview (cp_table current preview) 0 0"

text \<open>The length the table stands for.\<close>

fun cp_lcs :: "'a list \<Rightarrow> 'a list \<Rightarrow> nat" where
  "cp_lcs (x # xs) (y # ys) = (if x = y then cp_lcs xs ys + 1 else max (cp_lcs xs (y # ys)) (cp_lcs (x # xs) ys))"
| "cp_lcs xs ys = 0"

lemma cp_upt_up: "[0 ..< Suc n + 1] = 0 # map Suc [0 ..< n + 1]"
  by (simp add: map_Suc_upt upt_conv_Cons del: upt_Suc)

lemma cp_row_lcs:
  "belows = map (\<lambda>j. cp_lcs cs (drop j ps)) [0 ..< length ps + 1] \<Longrightarrow>
   cp_row c ps belows = map (\<lambda>j. cp_lcs (c # cs) (drop j ps)) [0 ..< length ps + 1]"
proof (induction ps arbitrary: belows)
  case Nil
  then show ?case by simp
next
  case (Cons p ps)
  let ?rest = "map (\<lambda>j. cp_lcs cs (drop j ps)) [0 ..< length ps + 1]"
  have up: "[0 ..< Suc (length ps) + 1] = 0 # map Suc [0 ..< length ps + 1]" by (rule cp_upt_up)
  have belows: "belows = cp_lcs cs (p # ps) # ?rest"
    using Cons.prems by (simp only: length_Cons up list.map map_map comp_def drop_Suc_Cons drop0)
  have heads: "hd (map (\<lambda>j. f (drop j ps)) [0 ..< length ps + 1]) = f ps" for f :: "'a list \<Rightarrow> nat"
    by (subst upt_conv_Cons) simp_all
  have right: "cp_row c ps ?rest = map (\<lambda>j. cp_lcs (c # cs) (drop j ps)) [0 ..< length ps + 1]"
    by (rule Cons.IH) simp
  have "cp_row c (p # ps) belows = cp_lcs (c # cs) (p # ps) # map (\<lambda>j. cp_lcs (c # cs) (drop j ps)) [0 ..< length ps + 1]"
    by (simp only: belows cp_row.simps Let_def right heads cp_lcs.simps)
  then show ?case by (simp only: length_Cons up list.map map_map comp_def drop_Suc_Cons drop0)
qed

lemma cp_table_lcs:
  "cp_table current preview =
     map (\<lambda>i. map (\<lambda>j. cp_lcs (drop i current) (drop j preview)) [0 ..< length preview + 1]) [0 ..< length current + 1]"
proof (induction current)
  case Nil
  have "cp_lcs [] ys = 0" for ys :: "'a list" by (cases ys) simp_all
  then show ?case by (simp add: map_replicate_const)
next
  case (Cons c cs)
  let ?rows = "map (\<lambda>i. map (\<lambda>j. cp_lcs (drop i cs) (drop j preview)) [0 ..< length preview + 1]) [0 ..< length cs + 1]"
  have up: "[0 ..< Suc (length cs) + 1] = 0 # map Suc [0 ..< length cs + 1]" by (rule cp_upt_up)
  have hd: "hd ?rows = map (\<lambda>j. cp_lcs cs (drop j preview)) [0 ..< length preview + 1]"
    by (subst upt_conv_Cons) simp_all
  have "cp_table (c # cs) preview = cp_row c preview (hd ?rows) # ?rows"
    by (simp only: cp_table.simps Let_def Cons.IH)
  also have "cp_row c preview (hd ?rows) = map (\<lambda>j. cp_lcs (c # cs) (drop j preview)) [0 ..< length preview + 1]"
    by (rule cp_row_lcs) (rule hd)
  finally show ?case by (simp only: length_Cons up list.map map_map comp_def drop_Suc_Cons drop0)
qed

lemma cp_table_nth:
  "i \<le> length current \<Longrightarrow> j \<le> length preview \<Longrightarrow>
   cp_table current preview ! i ! j = cp_lcs (drop i current) (drop j preview)"
  by (simp add: cp_table_lcs nth_append less_Suc_eq_le del: upt_Suc)

lemma cp_lcs_bound: "subseq zs xs \<Longrightarrow> subseq zs ys \<Longrightarrow> length zs \<le> cp_lcs xs ys"
proof (induction xs ys arbitrary: zs rule: cp_lcs.induct)
  case (1 x xs y ys)
  show ?case
  proof (cases zs)
    case (Cons z zs')
    show ?thesis
    proof (cases "x = y")
      case True
      have "subseq zs' xs" "subseq zs' ys"
        using "1.prems" Cons by (auto simp: subseq_Cons2_iff split: if_splits dest: subseq_Cons')
      then show ?thesis using "1.IH"(1) True Cons by simp
    next
      case False
      then have "subseq zs xs \<or> subseq zs ys"
        using "1.prems" Cons by (auto simp: subseq_Cons2_iff split: if_splits)
      then show ?thesis using "1.IH"(2,3) [OF False] "1.prems" False by (auto simp: le_max_iff_disj)
    qed
  qed simp
qed (auto dest: list_emb_length)

text \<open>The walk picks a common subsequence of the length the table gives.\<close>

lemma cp_walk_picks:
  "dp = cp_table current preview \<Longrightarrow> i \<le> length current \<Longrightarrow> j \<le> length preview \<Longrightarrow>
   sorted_wrt (<) (cp_walk current preview dp i j) \<and>
   (\<forall>k \<in> set (cp_walk current preview dp i j). j \<le> k \<and> k < length preview) \<and>
   subseq (map ((!) preview) (cp_walk current preview dp i j)) (drop i current) \<and>
   length (cp_walk current preview dp i j) = cp_lcs (drop i current) (drop j preview)"
proof (induction current preview dp i j rule: cp_walk.induct)
  case (1 current preview dp i j)
  let ?w = "cp_walk current preview dp"
  show ?case
  proof (cases "i < length current \<and> j < length preview")
    case False
    then have "drop i current = [] \<or> drop j preview = []" using "1.prems" by auto
    then show ?thesis
      using False by (cases "drop i current") (auto simp: cp_walk.simps [of current preview dp i j])
  next
    case True
    then have di: "drop i current = current ! i # drop (i + 1) current"
      and dj: "drop j preview = preview ! j # drop (j + 1) preview"
      by (simp_all add: Cons_nth_drop_Suc)
    show ?thesis
    proof (cases "current ! i = preview ! j")
      case eq: True
      have "?w i j = j # ?w (i + 1) (j + 1)" using True eq by (simp add: cp_walk.simps [of current preview dp i j])
      then show ?thesis using "1.IH"(1) [OF True eq "1.prems"(1)] True eq di dj by fastforce
    next
      case neq: False
      have tab: "dp ! (i + 1) ! j = cp_lcs (drop (i + 1) current) (drop j preview)"
        "dp ! i ! (j + 1) = cp_lcs (drop i current) (drop (j + 1) preview)"
        using "1.prems"(1) True by (simp_all add: cp_table_nth)
      show ?thesis
      proof (cases "dp ! (i + 1) ! j \<ge> dp ! i ! (j + 1)")
        case le: True
        have "?w i j = ?w (i + 1) j" using True neq le by (simp add: cp_walk.simps [of current preview dp i j])
        then show ?thesis using "1.IH"(2) [OF True neq le "1.prems"(1)] True neq le di dj tab by auto
      next
        case gt: False
        have "?w i j = ?w i (j + 1)" using True neq gt by (simp add: cp_walk.simps [of current preview dp i j])
        then show ?thesis using "1.IH"(3) [OF True neq gt "1.prems"(1)] True neq gt di dj tab by fastforce
      qed
    qed
  qed
qed

lemma cp_unchanged_picks:
  "sorted_wrt (<) (cp_unchanged current preview) \<and> (\<forall>k \<in> set (cp_unchanged current preview). k < length preview) \<and>
   subseq (map ((!) preview) (cp_unchanged current preview)) current \<and>
   length (cp_unchanged current preview) = cp_lcs current preview"
  using cp_walk_picks [of "cp_table current preview" current preview 0 0] by (simp add: cp_unchanged_def)

section \<open>What the preview says\<close>

definition cp_preview_changed :: "string list \<Rightarrow> string list \<Rightarrow> bool" where
  "cp_preview_changed current preview =
     list_ex (\<lambda>i. i \<notin> set (cp_unchanged current preview)) [0 ..< length preview]"

definition cp_removed :: "string list \<Rightarrow> string list \<Rightarrow> string list" where
  "cp_removed current preview = filter (\<lambda>tok. tok \<notin> set preview) current"

definition cp_has_changes :: "string list \<Rightarrow> string list \<Rightarrow> bool" where
  "cp_has_changes current preview = (cp_preview_changed current preview \<or> cp_removed current preview \<noteq> [])"

definition cp_owner_attr :: "js list \<Rightarrow> nat \<Rightarrow> string" where
  "cp_owner_attr owners i =
     (case js_at owners (int i) of None \<Rightarrow> []
      | Some field \<Rightarrow> if js_truthy field then '' data-cmd-field=\"'' @ escape_html (js_string field) @ ''\"'' else [])"

definition cp_class :: "bool \<Rightarrow> string" where
  "cp_class changed = (if changed then ''cmd-token changed'' else ''cmd-token'')"

fun cp_parts :: "nat list \<Rightarrow> js list \<Rightarrow> nat \<Rightarrow> string list \<Rightarrow> string list" where
  "cp_parts un owners ti [] = []"
| "cp_parts un owners ti (tok # rest) =
     (case rest of
        v # vs \<Rightarrow>
          if cp_has_value tok rest then
            (''<span class=\"'' @ cp_class (ti \<notin> set un \<or> ti + 1 \<notin> set un) @ ''\"'' @ cp_owner_attr owners ti @ ''>''
               @ escape_html tok @ '' <span class=\"cmd-value\">'' @ escape_html v @ ''</span></span>'')
            # cp_parts un owners (ti + 2) vs
          else (''<span class=\"'' @ cp_class (ti \<notin> set un) @ ''\"'' @ cp_owner_attr owners ti @ ''>''
                  @ escape_html tok @ ''</span>'') # cp_parts un owners (ti + 1) rest
      | [] \<Rightarrow> [''<span class=\"'' @ cp_class (ti \<notin> set un) @ ''\"'' @ cp_owner_attr owners ti @ ''>''
                  @ escape_html tok @ ''</span>''])"

datatype cp_content = CPText string | CPHtml string

record cp_target =
  cp_loading :: bool
  cp_ready :: bool
  cp_content :: cp_content

definition cp_removed_html :: "(string \<Rightarrow> string) \<Rightarrow> string list \<Rightarrow> string" where
  "cp_removed_html t removed =
     cp_newline @ ''<span class=\"cmd-removed-row\"><span class=\"cmd-removed-label\">'' @ t ''removedFlags'' @ '':</span> ''
     @ js_join '' '' (map (\<lambda>tk. ''<span class=\"cmd-token cmd-removed\">'' @ escape_html tk @ ''</span>'') removed)
     @ ''</span>''"

definition cp_render_tokens :: "(string \<Rightarrow> string) \<Rightarrow> string list \<Rightarrow> string list \<times> js list \<Rightarrow> cp_target \<Rightarrow> cp_target" where
  "cp_render_tokens t current answer target =
     (let (preview, owners) = answer
      in if preview = [] then target\<lparr>cp_loading := False, cp_ready := False, cp_content := CPText (t ''noPreviewCommand'')\<rparr>
         else let has_changes = cp_has_changes current preview;
                  removed = cp_removed current preview;
                  removed_html = (if has_changes \<and> current \<noteq> [] \<and> removed \<noteq> [] then cp_removed_html t removed else []);
                  parts = cp_parts (cp_unchanged current preview) owners 0 preview
              in target\<lparr>cp_loading := False, cp_ready := True,
                   cp_content := CPHtml (js_join cp_newline parts
                     @ (if has_changes then removed_html
                        else cp_newline @ ''<span class=\"cmd-note\">'' @ t ''noCommandChanges'' @ ''</span>''))\<rparr>)"

section \<open>The request\<close>

text \<open>
  One form. \<open>'c\<close> is the configuration its fields hold. A render reads the form, takes the next number,
  and starts the timer anew; the timer sends the request; answers come in any order. The controller
  (\<open>/api/llama-command-preview\<close>) is a parameter: what it answers to the request with that number, \<open>None\<close>
  for a refusal.
\<close>

record 'c cp_form =
  cp_seq :: nat
  cp_timer :: "(nat \<times> 'c) option"
  cp_wire :: "(nat \<times> 'c) list"
  cp_target :: cp_target

definition cp_render :: "(string \<Rightarrow> string) \<Rightarrow> 'c \<Rightarrow> 'c cp_form \<Rightarrow> 'c cp_form" where
  "cp_render t cfg s =
     (let target = (cp_target s)\<lparr>cp_loading := True\<rparr>;
          target = (if cp_ready target then target
                    else target\<lparr>cp_content := CPHtml (''<span class=\"cmd-note\">'' @ escape_html (t ''commandComputing'') @ ''</span>'')\<rparr>);
          n = cp_seq s + 1
      in s\<lparr>cp_seq := n, cp_timer := Some (n, cfg), cp_target := target\<rparr>)"

definition cp_fire :: "'c cp_form \<Rightarrow> 'c cp_form" where
  "cp_fire s = (case cp_timer s of None \<Rightarrow> s
     | Some r \<Rightarrow> s\<lparr>cp_timer := None, cp_wire := cp_wire s @ [r]\<rparr>)"

definition cp_answer :: "(string \<Rightarrow> string) \<Rightarrow> string list \<Rightarrow> nat \<Rightarrow> (string list \<times> js list) option \<Rightarrow> 'c cp_form \<Rightarrow> 'c cp_form" where
  "cp_answer t current n answer s =
     (if n \<noteq> cp_seq s then s
      else case answer of
        None \<Rightarrow> s\<lparr>cp_target := (cp_target s)\<lparr>cp_loading := False, cp_content := CPText (t ''noPreviewCommand'')\<rparr>\<rparr>
      | Some a \<Rightarrow> s\<lparr>cp_target := cp_render_tokens t current a (cp_target s)\<rparr>)"

datatype 'c cp_event = CPRender 'c | CPFire | CPAnswer nat

fun cp_step :: "(string \<Rightarrow> string) \<Rightarrow> string list \<Rightarrow> (nat \<Rightarrow> 'c \<Rightarrow> (string list \<times> js list) option) \<Rightarrow>
    'c cp_form \<Rightarrow> 'c cp_event \<Rightarrow> 'c cp_form" where
  "cp_step t current serve s (CPRender cfg) = cp_render t cfg s"
| "cp_step t current serve s CPFire = cp_fire s"
| "cp_step t current serve s (CPAnswer i) =
     (case js_at (cp_wire s) (int i) of None \<Rightarrow> s
      | Some (n, cfg) \<Rightarrow> cp_answer t current n (serve n cfg)
          (s\<lparr>cp_wire := take i (cp_wire s) @ drop (i + 1) (cp_wire s)\<rparr>))"

definition cp_init :: "cp_target \<Rightarrow> 'c cp_form" where
  "cp_init target = \<lparr>cp_seq = 0, cp_timer = None, cp_wire = [], cp_target = target\<rparr>"

definition cp_run :: "(string \<Rightarrow> string) \<Rightarrow> string list \<Rightarrow> (nat \<Rightarrow> 'c \<Rightarrow> (string list \<times> js list) option) \<Rightarrow>
    'c cp_event list \<Rightarrow> 'c cp_form \<Rightarrow> 'c cp_form" where
  "cp_run t current serve es s = foldl (cp_step t current serve) s es"

text \<open>The configuration the form was last read with.\<close>

fun cp_newest :: "'c cp_event list \<Rightarrow> 'c option" where
  "cp_newest [] = None"
| "cp_newest (e # es) = (case cp_newest es of Some c \<Rightarrow> Some c | None \<Rightarrow> (case e of CPRender c \<Rightarrow> Some c | _ \<Rightarrow> None))"

text \<open>What an answer shows, whatever stood there before.\<close>

definition cp_shows :: "(string \<Rightarrow> string) \<Rightarrow> string list \<Rightarrow> (string list \<times> js list) option \<Rightarrow> cp_content" where
  "cp_shows t current answer =
     (case answer of None \<Rightarrow> CPText (t ''noPreviewCommand'')
      | Some a \<Rightarrow> cp_content (cp_render_tokens t current a \<lparr>cp_loading = False, cp_ready = False, cp_content = CPText []\<rparr>))"

definition cp_inv :: "(string \<Rightarrow> string) \<Rightarrow> string list \<Rightarrow> (nat \<Rightarrow> 'c \<Rightarrow> (string list \<times> js list) option) \<Rightarrow>
    'c option \<Rightarrow> 'c cp_form \<Rightarrow> bool" where
  "cp_inv t current serve newest s \<longleftrightarrow>
     (cp_seq s > 0 \<longleftrightarrow> newest \<noteq> None) \<and>
     (\<forall>n c. cp_timer s = Some (n, c) \<longrightarrow> n = cp_seq s \<and> newest = Some c \<and> n \<notin> fst ` set (cp_wire s)) \<and>
     (\<forall>r \<in> set (cp_wire s). fst r \<le> cp_seq s \<and> (fst r = cp_seq s \<longrightarrow> newest = Some (snd r))) \<and>
     distinct (map fst (cp_wire s)) \<and>
     (cp_seq s > 0 \<and> \<not> cp_loading (cp_target s) \<longrightarrow>
        cp_timer s = None \<and> cp_seq s \<notin> fst ` set (cp_wire s) \<and>
        (\<forall>c. newest = Some c \<longrightarrow> cp_content (cp_target s) = cp_shows t current (serve (cp_seq s) c)))"

lemma cp_newest_snoc: "cp_newest (es @ [e]) = (case e of CPRender c \<Rightarrow> Some c | _ \<Rightarrow> cp_newest es)"
  by (induction es) (auto split: option.splits cp_event.splits)

lemma cp_shows_render:
  "cp_content (cp_render_tokens t current a target) = cp_shows t current (Some a)"
  "\<not> cp_loading (cp_render_tokens t current a target)"
  by (auto simp: cp_shows_def cp_render_tokens_def Let_def split: prod.splits)

lemma cp_render_fields [simp]:
  "cp_seq (cp_render t cfg s) = Suc (cp_seq s)" "cp_timer (cp_render t cfg s) = Some (Suc (cp_seq s), cfg)"
  "cp_wire (cp_render t cfg s) = cp_wire s" "cp_loading (cp_target (cp_render t cfg s))"
  by (simp_all add: cp_render_def Let_def)

lemma cp_inv_render: "cp_inv t current serve newest s \<Longrightarrow> cp_inv t current serve (Some cfg) (cp_render t cfg s)"
proof -
  assume "cp_inv t current serve newest s"
  then have w: "\<forall>r \<in> set (cp_wire s). fst r \<le> cp_seq s" "distinct (map fst (cp_wire s))"
    unfolding cp_inv_def by blast+
  then have "Suc (cp_seq s) \<notin> fst ` set (cp_wire s)" by fastforce
  moreover have "\<forall>r \<in> set (cp_wire s). fst r \<le> Suc (cp_seq s) \<and> fst r \<noteq> Suc (cp_seq s)" using w(1) by fastforce
  ultimately show ?thesis using w(2) by (simp add: cp_inv_def)
qed

lemma cp_inv_fire: "cp_inv t current serve newest s \<Longrightarrow> cp_inv t current serve newest (cp_fire s)"
proof (cases "cp_timer s")
  case (Some r)
  assume inv: "cp_inv t current serve newest s"
  obtain n c where r: "r = (n, c)" by (cases r)
  have "n = cp_seq s" "newest = Some c" "n \<notin> fst ` set (cp_wire s)" "distinct (map fst (cp_wire s))"
    "\<forall>r \<in> set (cp_wire s). fst r \<le> cp_seq s \<and> (fst r = cp_seq s \<longrightarrow> newest = Some (snd r))"
    using inv Some r unfolding cp_inv_def by blast+
  moreover have "cp_seq s > 0 \<longleftrightarrow> newest \<noteq> None" "cp_loading (cp_target s) \<or> cp_seq s = 0"
    using inv Some unfolding cp_inv_def by fastforce+
  ultimately show ?thesis using Some r by (auto simp: cp_inv_def cp_fire_def)
qed (simp add: cp_fire_def)

lemma take_drop_nth_set:
  "i < length xs \<Longrightarrow> distinct (map f xs) \<Longrightarrow>
   f ` set (take i xs @ drop (i + 1) xs) = f ` set xs - {f (xs ! i)} \<and> distinct (map f (take i xs @ drop (i + 1) xs))"
proof -
  have mid: "distinct (map f (a @ x # b)) \<Longrightarrow>
      f ` set (a @ b) = f ` set (a @ x # b) - {f x} \<and> distinct (map f (a @ b))" for a x b
    by (simp add: image_Un)
  assume i: "i < length xs" "distinct (map f xs)"
  then have "take i xs @ xs ! i # drop (i + 1) xs = xs"
    by (simp only: Suc_eq_plus1 [symmetric] id_take_nth_drop [OF i(1), symmetric])
  then show ?thesis using mid [of "take i xs" "xs ! i" "drop (i + 1) xs"] i(2) by simp
qed

lemma cp_inv_answer:
  assumes inv: "cp_inv t current serve newest s" and i: "i < length (cp_wire s)" "cp_wire s ! i = (n, cfg)"
  shows "cp_inv t current serve newest (cp_answer t current n (serve n cfg)
     (s\<lparr>cp_wire := take i (cp_wire s) @ drop (i + 1) (cp_wire s)\<rparr>))"
proof -
  let ?w = "take i (cp_wire s) @ drop (i + 1) (cp_wire s)"
  have wires: "distinct (map fst (cp_wire s))" using inv unfolding cp_inv_def by blast
  have w: "fst ` set ?w = fst ` set (cp_wire s) - {n}" "distinct (map fst ?w)"
    using take_drop_nth_set [OF i(1) wires] i(2) by simp_all
  have sub: "set ?w \<subseteq> set (cp_wire s)" by (auto dest: in_set_takeD in_set_dropD)
  have mem: "(n, cfg) \<in> set (cp_wire s)" using i by (metis nth_mem)
  show ?thesis
  proof (cases "n = cp_seq s")
    case True
    have rs: "\<forall>r \<in> set (cp_wire s). fst r \<le> cp_seq s \<and> (fst r = cp_seq s \<longrightarrow> newest = Some (snd r))"
      and tm: "\<forall>n c. cp_timer s = Some (n, c) \<longrightarrow> n = cp_seq s \<and> newest = Some c \<and> n \<notin> fst ` set (cp_wire s)"
      and sq: "cp_seq s > 0 \<longleftrightarrow> newest \<noteq> None"
      using inv unfolding cp_inv_def by blast+
    have nw: "newest = Some cfg" using rs mem True by force
    have nt: "cp_timer s = None"
    proof (cases "cp_timer s")
      case (Some r)
      then have "cp_seq s \<notin> fst ` set (cp_wire s)" using tm by (cases r) auto
      then show ?thesis using mem True by force
    qed
    have c: "cp_content (cp_target (cp_answer t current n (serve n cfg) (s\<lparr>cp_wire := ?w\<rparr>))) = cp_shows t current (serve n cfg)"
      "\<not> cp_loading (cp_target (cp_answer t current n (serve n cfg) (s\<lparr>cp_wire := ?w\<rparr>)))"
      using True by (cases "serve n cfg"; simp add: cp_answer_def cp_shows_render; simp add: cp_shows_def)+
    have f: "cp_seq (cp_answer t current n (serve n cfg) (s\<lparr>cp_wire := ?w\<rparr>)) = cp_seq s"
      "cp_timer (cp_answer t current n (serve n cfg) (s\<lparr>cp_wire := ?w\<rparr>)) = None"
      "cp_wire (cp_answer t current n (serve n cfg) (s\<lparr>cp_wire := ?w\<rparr>)) = ?w"
      using nt by (simp_all add: cp_answer_def split: option.splits)
    have "\<forall>r \<in> set ?w. fst r \<le> cp_seq s \<and> (fst r = cp_seq s \<longrightarrow> newest = Some (snd r))" using rs sub by blast
    moreover have "cp_seq s \<notin> fst ` set ?w" using w(1) True by blast
    moreover have "\<forall>c. newest = Some c \<longrightarrow> cp_shows t current (serve n cfg) = cp_shows t current (serve (cp_seq s) c)"
      using nw True by simp
    ultimately show ?thesis unfolding cp_inv_def f c using sq w(2) by blast
  next
    case False
    then have a: "cp_answer t current n (serve n cfg) (s\<lparr>cp_wire := ?w\<rparr>) = s\<lparr>cp_wire := ?w\<rparr>" by (simp add: cp_answer_def)
    have keep: "cp_seq s \<notin> fst ` set ?w \<longleftrightarrow> cp_seq s \<notin> fst ` set (cp_wire s)" "fst ` set ?w \<subseteq> fst ` set (cp_wire s)"
      using w(1) False by blast+
    have f: "cp_seq (s\<lparr>cp_wire := ?w\<rparr>) = cp_seq s" "cp_timer (s\<lparr>cp_wire := ?w\<rparr>) = cp_timer s"
      "cp_wire (s\<lparr>cp_wire := ?w\<rparr>) = ?w" "cp_target (s\<lparr>cp_wire := ?w\<rparr>) = cp_target s" by simp_all
    show ?thesis using inv sub w(2) keep unfolding a cp_inv_def f by blast
  qed
qed

lemma cp_run_inv: "cp_inv t current serve (cp_newest es) (cp_run t current serve es (cp_init target))"
proof (induction es rule: rev_induct)
  case Nil
  then show ?case by (simp add: cp_run_def cp_inv_def cp_init_def)
next
  case (snoc e es)
  let ?s = "cp_run t current serve es (cp_init target)"
  have run: "cp_run t current serve (es @ [e]) (cp_init target) = cp_step t current serve ?s e" by (simp add: cp_run_def)
  show ?case
  proof (cases e)
    case (CPAnswer i)
    show ?thesis
    proof (cases "i < length (cp_wire ?s)")
      case True
      obtain n cfg where "cp_wire ?s ! i = (n, cfg)" by fastforce
      then show ?thesis using cp_inv_answer [OF snoc True] True
        unfolding run unfolding CPAnswer by (simp add: cp_newest_snoc js_at_def)
    next
      case False
      then show ?thesis using snoc unfolding run unfolding CPAnswer by (simp add: cp_newest_snoc js_at_def)
    qed
  next
    case (CPRender c)
    show ?thesis unfolding run unfolding CPRender using cp_inv_render [OF snoc] by (simp add: cp_newest_snoc)
  next
    case CPFire
    show ?thesis unfolding run unfolding CPFire using cp_inv_fire [OF snoc] by (simp add: cp_newest_snoc)
  qed
qed

section \<open>Properties\<close>

text \<open>Laying a command out in lines loses nothing and splits nothing: the words of the laid-out text
  are the command's tokens, in their order.\<close>

theorem cp_format_keeps_tokens: "js_words (cp_format command) = cp_split command"
  unfolding cp_format_def
  by (rule js_words_lines) (use js_words_word in \<open>auto simp: cp_split_def js_words_trim\<close>)

text \<open>The tokens drawn as unchanged are a longest common subsequence: their positions go up, each is
  a token of the preview, together they stand in the current command in that order, and no common
  subsequence of the two commands is longer.\<close>

theorem cp_unchanged_is_longest:
  assumes "subseq zs current" "subseq zs preview"
  shows "sorted_wrt (<) (cp_unchanged current preview) \<and>
    (\<forall>k \<in> set (cp_unchanged current preview). k < length preview) \<and>
    subseq (map ((!) preview) (cp_unchanged current preview)) current \<and>
    length zs \<le> length (cp_unchanged current preview)"
  using cp_unchanged_picks [of current preview] cp_lcs_bound [OF assms] by simp

theorem cp_unchanged_is_longest_witness:
  "length [''--ctx'', ''8''] \<le> length (cp_unchanged [''--ctx'', ''8'', ''-v''] [''--ctx'', ''-q'', ''8''])"
  using cp_unchanged_is_longest [of "[''--ctx'', ''8'']" "[''--ctx'', ''8'', ''-v'']" "[''--ctx'', ''-q'', ''8'']"]
  by simp

text \<open>What counts as no change: the preview says "no changes" exactly when the new command is a
  subsequence of the current one that keeps at least one of every token. So a token the new command
  drops goes unseen when the same word stands elsewhere in it: the second value of two equal flags can
  go and the page says that nothing changed.\<close>

lemma cp_sorted_full:
  assumes "sorted_wrt (<) ks" "\<forall>k \<in> set ks. k < n"
  shows "set ks = {..<n} \<longleftrightarrow> length ks = n"
proof
  have d: "distinct ks" using assms(1) by (simp add: strict_sorted_iff)
  show "set ks = {..<n} \<Longrightarrow> length ks = n" using d by (metis card_lessThan distinct_card)
  assume "length ks = n"
  then have "card (set ks) = card {..<n}" using d by (simp add: distinct_card)
  moreover have "set ks \<subseteq> {..<n}" using assms(2) by auto
  ultimately show "set ks = {..<n}" by (intro card_subset_eq) auto
qed

lemma cp_preview_unchanged_iff: "\<not> cp_preview_changed current preview \<longleftrightarrow> subseq preview current"
proof -
  let ?u = "cp_unchanged current preview"
  have u: "sorted_wrt (<) ?u" "\<forall>k \<in> set ?u. k < length preview" "subseq (map ((!) preview) ?u) current"
    "length ?u = cp_lcs current preview" using cp_unchanged_picks [of current preview] by auto
  have "\<not> cp_preview_changed current preview \<longleftrightarrow> {..<length preview} \<subseteq> set ?u"
    by (auto simp: cp_preview_changed_def list_ex_iff)
  also have "\<dots> \<longleftrightarrow> set ?u = {..<length preview}" using u(2) by auto
  also have "\<dots> \<longleftrightarrow> length ?u = length preview" by (rule cp_sorted_full [OF u(1,2)])
  also have "\<dots> \<longleftrightarrow> subseq preview current"
  proof
    assume l: "length ?u = length preview"
    then have "set ?u = {..<length preview}" using cp_sorted_full [OF u(1,2)] by simp
    then have same: "set ?u = set [0 ..< length preview]" by (simp add: atLeast0LessThan)
    have "sorted ?u" "distinct ?u" using u(1) by (simp_all add: strict_sorted_iff)
    then have "?u = [0 ..< length preview]" using same by (intro sorted_distinct_set_unique) simp_all
    then show "subseq preview current" using u(3) by (simp add: map_nth)
  next
    assume "subseq preview current"
    then have "length preview \<le> length ?u" using cp_lcs_bound [of preview current preview] u(4) by simp
    moreover have "card (set ?u) \<le> card {..<length preview}" using u(2) by (intro card_mono) auto
    then have "length ?u \<le> length preview" using u(1) by (simp add: distinct_card strict_sorted_iff)
    ultimately show "length ?u = length preview" by simp
  qed
  finally show ?thesis .
qed

theorem cp_no_changes_iff:
  "\<not> cp_has_changes current preview \<longleftrightarrow> subseq preview current \<and> set current = set preview"
  using cp_preview_unchanged_iff [of current preview]
  by (auto simp: cp_has_changes_def cp_removed_def filter_empty_conv dest: list_emb_set)

lemma cp_lost_repeat_goes_unseen:
  "\<not> cp_has_changes [''--temp'', ''1'', ''--top-p'', ''1''] [''--temp'', ''1'', ''--top-p'']"
  by code_simp

text \<open>What stands undimmed answers the form as it is: whatever the order in which the requests are
  answered or refused, a preview that is not marked as being computed shows the answer to the request
  made from the configuration the form was last read with, and no request of it is pending.\<close>

theorem cp_undimmed_is_newest:
  assumes "s = cp_run t current serve es (cp_init target)"
    and "cp_newest es = Some cfg" and "\<not> cp_loading (cp_target s)"
  shows "cp_content (cp_target s) = cp_shows t current (serve (cp_seq s) cfg) \<and> cp_timer s = None \<and>
    cp_seq s \<notin> fst ` set (cp_wire s)"
proof -
  have inv: "cp_inv t current serve (Some cfg) s" using cp_run_inv [of t current serve es target] assms(1,2) by simp
  then have "cp_seq s > 0" unfolding cp_inv_def by blast
  then show ?thesis using inv assms(3) unfolding cp_inv_def by blast
qed

theorem cp_undimmed_is_newest_witness:
  "cp_content (cp_target (cp_run (\<lambda>k. k) [''-v''] (\<lambda>n c. Some ([c], []))
     [CPRender ''-a'', CPFire, CPRender ''-b'', CPFire, CPAnswer 1, CPAnswer 0]
     (cp_init \<lparr>cp_loading = False, cp_ready = False, cp_content = CPText []\<rparr>))) =
   cp_shows (\<lambda>k. k) [''-v''] (Some ([''-b''], []))"
proof -
  let ?s = "cp_run (\<lambda>k. k) [''-v''] (\<lambda>n c. Some ([c], []))
     [CPRender ''-a'', CPFire, CPRender ''-b'', CPFire, CPAnswer 1, CPAnswer 0]
     (cp_init \<lparr>cp_loading = False, cp_ready = False, cp_content = CPText []\<rparr>)"
  have still: "\<not> cp_loading (cp_target ?s)" by code_simp
  have newest: "cp_newest [CPRender ''-a'', CPFire, CPRender ''-b'', CPFire, CPAnswer 1, CPAnswer 0] = Some ''-b''"
    by simp
  show ?thesis using cp_undimmed_is_newest [OF refl newest still] by simp
qed

end
