(* ===== verification/ConfigForm.thy ===== *)
theory ConfigForm
  imports Utils Interfaces
begin

text \<open>
  The launch form's fields: their tables (\<open>constants.js\<close>), finding one of them (\<open>config-locator.js\<close>) and the
  starred ones (\<open>favorites.js\<close>). Which fields have an input in this editor, their flags and their help
  are given; \<open>lc\<close> is \<open>localeCompare\<close>; the line breaks of a template are left out. What the page lights, opens and saves is listed in a step's result.
\<close>

section \<open>The tables\<close>

definition numeric_fields :: "string list" where
  "numeric_fields =
     [''HOST'', ''PORT'', ''CTX_SIZE'', ''THREADS'', ''THREADS_BATCH'', ''BATCH_SIZE'', ''UBATCH_SIZE'',
      ''PARALLEL'', ''N_GPU_LAYERS'', ''CACHE_TYPE_K'', ''CACHE_TYPE_V'', ''N_PREDICT'', ''KEEP'',
      ''CPU_RANGE'', ''POLL'', ''ROPE_SCALING'', ''ROPE_SCALE'', ''ROPE_FREQ_BASE'', ''ROPE_FREQ_SCALE'',
      ''NUMA'', ''DEVICE'', ''SPLIT_MODE'', ''TENSOR_SPLIT'', ''MAIN_GPU'', ''FIT_TARGET'', ''FIT_CTX'',
      ''ALIAS'', ''API_PREFIX'', ''TIMEOUT'', ''THREADS_HTTP'', ''CACHE_REUSE'', ''CACHE_RAM'',
      ''SLEEP_IDLE_SECONDS'', ''API_KEY'', ''SSL_CERT_FILE'', ''SSL_KEY_FILE'', ''IMAGE_MIN_TOKENS'',
      ''IMAGE_MAX_TOKENS'', ''REASONING'', ''REASONING_FORMAT'', ''REASONING_BUDGET'', ''TEMPERATURE'',
      ''TOP_K'', ''TOP_P'', ''MIN_P'', ''CHAT_TEMPLATE'', ''CHAT_TEMPLATE_FILE'', ''CHAT_TEMPLATE_KWARGS'',
      ''SPEC_TYPE'', ''SPEC_DRAFT_MODEL_FILE'', ''SPEC_DRAFT_N_GPU_LAYERS'', ''SPEC_DRAFT_N_MAX'',
      ''SPEC_DRAFT_N_MIN'', ''SPEC_DRAFT_CACHE_TYPE_K'', ''SPEC_DRAFT_CACHE_TYPE_V'', ''SPEC_DRAFT_P_MIN'',
      ''POOLING'', ''EMBD_NORMALIZE'', ''LOAD_MODE'', ''N_CPU_MOE'', ''MTMD_BATCH_MAX_TOKENS'',
      ''CTX_CHECKPOINTS'', ''LOG_VERBOSITY'', ''CORS_ORIGINS'', ''TOOLS_RUNTIME'', ''API_KEY_FILE'',
      ''CHECKPOINT_MIN_STEP'', ''SLOT_PROMPT_SIMILARITY'', ''SLOT_SAVE_PATH'', ''SSE_PING_INTERVAL'',
      ''PRIO'', ''YARN_ORIG_CTX'', ''YARN_EXT_FACTOR'', ''YARN_ATTN_FACTOR'', ''YARN_BETA_FAST'',
      ''YARN_BETA_SLOW'', ''SPEC_DRAFT_P_SPLIT'', ''CORS_METHODS'', ''CORS_HEADERS'', ''EXTRA_ARGS'']"

definition toggle_fields :: "string list" where
  "toggle_fields =
     [''ENABLE_JINJA'', ''ENABLE_THINKING'', ''ENABLE_FLASH_ATTN'', ''ENABLE_MLOCK'', ''ENABLE_METRICS'',
      ''ENABLE_CONT_BATCHING'', ''ENABLE_WEBUI'', ''OFFLOAD_MMPROJ'', ''CPU_STRICT'', ''KV_OFFLOAD'',
      ''MMAP'', ''FIT'', ''CACHE_PROMPT'', ''ENABLE_PROPS'', ''ENABLE_SLOTS'', ''SKIP_CHAT_PARSING'',
      ''ENABLE_TOOLS'', ''ENABLE_AGENT'', ''ENABLE_MCP_PROXY'', ''ENABLE_EMBEDDINGS'', ''CONTEXT_SHIFT'',
      ''KV_UNIFIED'', ''REASONING_PRESERVE'', ''CACHE_IDLE_SLOTS'', ''MMPROJ_AUTO'', ''SWA_FULL'',
      ''ENABLE_RERANK'', ''CORS_CREDENTIALS'', ''CPU_MOE'', ''CPU_MOE_DRAFT'', ''OP_OFFLOAD'', ''REPACK'',
      ''WARMUP'', ''CHECK_TENSORS'']"

definition advanced_groups :: "(string \<times> string list) list" where
  "advanced_groups =
     [(''grpEndpoint'', [''HOST'', ''PORT'', ''ALIAS'', ''API_PREFIX'']),
      (''grpRuntime'', [''CTX_SIZE'', ''N_GPU_LAYERS'', ''PARALLEL'', ''ENABLE_JINJA'', ''ENABLE_WEBUI'']),
      (''grpBatching'', [''THREADS'', ''THREADS_BATCH'', ''BATCH_SIZE'', ''UBATCH_SIZE'', ''ENABLE_CONT_BATCHING'', ''ENABLE_FLASH_ATTN'']),
      (''grpThroughput'', [''THREADS_HTTP'', ''TIMEOUT'', ''SLEEP_IDLE_SECONDS'', ''SSE_PING_INTERVAL'']),
      (''grpCpu'', [''CPU_RANGE'', ''CPU_STRICT'', ''POLL'', ''NUMA'', ''PRIO'']),
      (''advancedSpeculative'', [''SPEC_TYPE'', ''SPEC_DRAFT_N_GPU_LAYERS'', ''SPEC_DRAFT_N_MAX'', ''SPEC_DRAFT_N_MIN'', ''SPEC_DRAFT_P_MIN'', ''SPEC_DRAFT_P_SPLIT'', ''SPEC_DRAFT_CACHE_TYPE_K'', ''SPEC_DRAFT_CACHE_TYPE_V'', ''CPU_MOE_DRAFT'']),
      (''grpKvCache'', [''CACHE_TYPE_K'', ''CACHE_TYPE_V'', ''KV_OFFLOAD'', ''KV_UNIFIED'', ''CTX_CHECKPOINTS'', ''CHECKPOINT_MIN_STEP'', ''SWA_FULL'']),
      (''advancedCache'', [''CACHE_PROMPT'', ''CACHE_REUSE'', ''CACHE_RAM'', ''CACHE_IDLE_SLOTS'', ''SLOT_PROMPT_SIMILARITY'', ''SLOT_SAVE_PATH'']),
      (''advancedLoading'', [''LOAD_MODE'', ''MMAP'', ''ENABLE_MLOCK'', ''REPACK'', ''WARMUP'', ''CHECK_TENSORS'']),
      (''grpDevices'', [''DEVICE'', ''MAIN_GPU'', ''SPLIT_MODE'', ''TENSOR_SPLIT'', ''N_CPU_MOE'', ''CPU_MOE'', ''OP_OFFLOAD'']),
      (''grpAutofit'', [''FIT'', ''FIT_TARGET'', ''FIT_CTX'']),
      (''advancedRope'', [''ROPE_SCALING'', ''ROPE_SCALE'', ''ROPE_FREQ_BASE'', ''ROPE_FREQ_SCALE'', ''YARN_ORIG_CTX'', ''YARN_EXT_FACTOR'', ''YARN_ATTN_FACTOR'', ''YARN_BETA_FAST'', ''YARN_BETA_SLOW'']),
      (''grpGeneration'', [''N_PREDICT'', ''KEEP'', ''CONTEXT_SHIFT'']),
      (''grpChatTemplate'', [''CHAT_TEMPLATE'', ''CHAT_TEMPLATE_KWARGS'', ''SKIP_CHAT_PARSING'']),
      (''grpSampling'', [''TEMPERATURE'', ''TOP_K'', ''TOP_P'', ''MIN_P'']),
      (''advancedReasoning'', [''ENABLE_THINKING'', ''REASONING'', ''REASONING_FORMAT'', ''REASONING_BUDGET'', ''REASONING_PRESERVE'']),
      (''advancedVision'', [''IMAGE_MIN_TOKENS'', ''IMAGE_MAX_TOKENS'', ''MTMD_BATCH_MAX_TOKENS'', ''MMPROJ_AUTO'']),
      (''advancedEmbeddings'', [''ENABLE_EMBEDDINGS'', ''ENABLE_RERANK'', ''POOLING'', ''EMBD_NORMALIZE'']),
      (''advancedNetwork'', [''API_KEY'', ''API_KEY_FILE'', ''SSL_CERT_FILE'', ''SSL_KEY_FILE'']),
      (''advancedCors'', [''CORS_ORIGINS'', ''CORS_METHODS'', ''CORS_HEADERS'', ''CORS_CREDENTIALS'']),
      (''advancedTools'', [''ENABLE_TOOLS'', ''ENABLE_AGENT'', ''ENABLE_MCP_PROXY'', ''TOOLS_RUNTIME'']),
      (''grpDiagnostics'', [''ENABLE_METRICS'', ''ENABLE_PROPS'', ''ENABLE_SLOTS'', ''LOG_VERBOSITY''])]"

definition advanced_tab_defs :: "(string \<times> string list) list" where
  "advanced_tab_defs =
     [(''tabBasics'', [''grpEndpoint'', ''grpRuntime'']),
      (''tabPerformance'', [''grpBatching'', ''grpThroughput'', ''grpCpu'']),
      (''tabSpeculation'', [''advancedSpeculative'']),
      (''tabMemory'', [''grpKvCache'', ''advancedCache'', ''advancedLoading'']),
      (''tabPlacement'', [''grpDevices'', ''grpAutofit'']),
      (''tabContext'', [''advancedRope'', ''grpGeneration'']),
      (''tabChat'', [''grpChatTemplate'', ''grpSampling'', ''advancedReasoning'']),
      (''tabVision'', [''advancedVision'']),
      (''tabEmbeddings'', [''advancedEmbeddings'']),
      (''tabAccess'', [''advancedNetwork'', ''advancedCors'']),
      (''tabToolsService'', [''advancedTools'', ''grpDiagnostics''])]"

definition optional_toggle_fields :: "string list" where
  "optional_toggle_fields =
     [''CPU_STRICT'', ''KV_OFFLOAD'', ''MMAP'', ''FIT'', ''CACHE_PROMPT'', ''ENABLE_PROPS'', ''ENABLE_SLOTS'',
      ''SKIP_CHAT_PARSING'', ''ENABLE_THINKING'', ''OP_OFFLOAD'', ''REPACK'', ''WARMUP'']"

definition default_on_optional_toggles :: "string list" where
  "default_on_optional_toggles =
     [''KV_OFFLOAD'', ''MMAP'', ''FIT'', ''CACHE_PROMPT'', ''ENABLE_SLOTS'', ''ENABLE_THINKING'',
      ''OP_OFFLOAD'', ''REPACK'', ''WARMUP'']"

section \<open>Where a field stands\<close>

record field_loc =
  fl_tab :: nat
  fl_key :: string
  fl_group :: string

definition group_fields :: "string \<Rightarrow> string list" where
  "group_fields g = (case map_of advanced_groups g of Some fs \<Rightarrow> fs | None \<Rightarrow> [])"

definition location_list :: "(string \<times> field_loc) list" where
  "location_list =
     concat (map (\<lambda>(i, key, groups). concat (map (\<lambda>g. map (\<lambda>f. (f, \<lparr>fl_tab = i, fl_key = key, fl_group = g\<rparr>))
         (group_fields g)) groups)) (zip [0..<length advanced_tab_defs] advanced_tab_defs))"

text \<open>The first place a field is named at is its own.\<close>

definition field_location :: "string \<Rightarrow> field_loc option" where
  "field_location f = map_of location_list f"

section \<open>Search\<close>

record search_entry =
  se_field :: string
  se_tab_key :: string
  se_tab :: int
  se_flags :: "string list"
  se_help :: string

record form_facts =
  ff_fields :: "string list option"      \<comment> \<open>the server's list, when there is one\<close>
  ff_present :: "string \<Rightarrow> bool"     \<comment> \<open>an input in this editor\<close>
  ff_row :: "string \<Rightarrow> bool"         \<comment> \<open>and a row of the form around it\<close>
  ff_flags :: "string \<Rightarrow> string list"
  ff_help :: "string \<Rightarrow> string"

definition search_index :: "form_facts \<Rightarrow> search_entry list" where
  "search_index w =
     map (\<lambda>f. \<lparr>se_field = f,
         se_tab_key = (case field_location f of Some l \<Rightarrow> fl_key l | None \<Rightarrow> []),
         se_tab = (case field_location f of Some l \<Rightarrow> int (fl_tab l) | None \<Rightarrow> -1),
         se_flags = ff_flags w f, se_help = ff_help w f\<rparr>)
       (filter (ff_present w) (case ff_fields w of Some fs \<Rightarrow> fs | None \<Rightarrow> js_uniq (map fst location_list)))"

definition score_entry :: "search_entry \<Rightarrow> string \<Rightarrow> nat" where
  "score_entry e query =
     (let q = js_lower query; name = js_lower (se_field e) in
      if name = q then 100
      else if prefix q name then 80
      else if list_ex (\<lambda>f. js_lower f = q) (se_flags e) then 75
      else if list_ex (\<lambda>f. str_includes (js_lower f) q) (se_flags e) then 60
      else if str_includes name q then 50
      else if str_includes (js_lower (se_help e)) q then 20 else 0)"

definition hit_cmp :: "(string \<Rightarrow> string \<Rightarrow> int) \<Rightarrow> search_entry \<times> nat \<Rightarrow> search_entry \<times> nat \<Rightarrow> int" where
  "hit_cmp lc a b = (if snd a \<noteq> snd b then int (snd b) - int (snd a) else lc (se_field (fst a)) (se_field (fst b)))"

definition search_hits :: "(string \<Rightarrow> string \<Rightarrow> int) \<Rightarrow> form_facts \<Rightarrow> string \<Rightarrow> search_entry list" where
  "search_hits lc w q =
     map fst (take 12 (js_sort (hit_cmp lc) (filter (\<lambda>m. snd m > 0) (map (\<lambda>e. (e, score_entry e q)) (search_index w)))))"

definition hit_html :: "dict \<Rightarrow> nat \<Rightarrow> search_entry \<Rightarrow> string" where
  "hit_html t i e =
     ''<button type=\"button\" class=\"config-search-hit'' @ (if i = 0 then '' active'' else [])
     @ ''\" data-t=\"cell-config-search-hit\" data-t-id=\"'' @ escape_html (se_field e) @ ''\" data-hit=\"'' @ nat_str i
     @ ''\"><span class=\"hit-head\"><span class=\"hit-field\">'' @ escape_html (se_field e) @ ''</span>''
     @ (if se_flags e \<noteq> [] then ''<code class=\"hit-flag\">'' @ escape_html (hd (se_flags e)) @ ''</code>'' else [])
     @ (if se_tab_key e \<noteq> [] then ''<span class=\"hit-tab\">'' @ escape_html (t (se_tab_key e) []) @ ''</span>'' else [])
     @ ''</span><span class=\"hit-help\">'' @ escape_html (se_help e) @ ''</span></button>''"

section \<open>The search box\<close>

record locator =
  lo_value :: string
  lo_matches :: "search_entry list"
  lo_cursor :: int
  lo_shown :: bool
  lo_html :: string
  lo_marked :: "string option"

datatype lo_out = Lo_open_tab nat | Lo_reveal string

definition lo_new :: locator where
  "lo_new = \<lparr>lo_value = [], lo_matches = [], lo_cursor = -1, lo_shown = False, lo_html = [], lo_marked = None\<rparr>"

text \<open>\<open>markFieldTab\<close>: the old mark goes; a field is marked anew.\<close>

definition mark_field_tab :: "string option \<Rightarrow> locator \<Rightarrow> locator" where
  "mark_field_tab f s = s\<lparr>lo_marked := (case f of Some x \<Rightarrow> if x = [] then None else Some x | None \<Rightarrow> None)\<rparr>"

definition lo_close :: "locator \<Rightarrow> locator" where
  "lo_close s = s\<lparr>lo_shown := False, lo_html := [], lo_matches := [], lo_cursor := -1, lo_marked := None\<rparr>"

definition lo_search :: "dict \<Rightarrow> (string \<Rightarrow> string \<Rightarrow> int) \<Rightarrow> form_facts \<Rightarrow> locator \<Rightarrow> locator" where
  "lo_search t lc w s =
     (let q = js_trim (lo_value s); hits = search_hits lc w q in
      if q = [] then lo_close s
      else if hits = [] then
        s\<lparr>lo_matches := [], lo_cursor := -1, lo_shown := True,
          lo_html := ''<div class=\"config-search-empty\">'' @ escape_html (t ''configSearchEmpty'' []) @ ''</div>''\<rparr>
      else mark_field_tab (Some (se_field (hd hits)))
        (s\<lparr>lo_matches := hits, lo_cursor := 0, lo_shown := True,
           lo_html := concat (map (\<lambda>(i, e). hit_html t i e) (zip [0..<length hits] hits))\<rparr>))"

text \<open>\<open>revealField\<close>: its tab, then, when it is in this editor, itself; and its mark.\<close>

definition reveal_field :: "form_facts \<Rightarrow> string \<Rightarrow> locator \<Rightarrow> locator \<times> lo_out list" where
  "reveal_field w f s =
     (let tab = (case field_location f of Some l \<Rightarrow> [Lo_open_tab (fl_tab l)] | None \<Rightarrow> []) in
      if ff_present w f \<and> ff_row w f then (mark_field_tab (Some f) s, tab @ [Lo_reveal f]) else (s, tab))"

definition lo_pick :: "form_facts \<Rightarrow> int \<Rightarrow> locator \<Rightarrow> locator \<times> lo_out list" where
  "lo_pick w i s = (case js_at (lo_matches s) i of
       None \<Rightarrow> (s, [])
     | Some e \<Rightarrow> (case reveal_field w (se_field e) s of (s', outs) \<Rightarrow> (s'\<lparr>lo_shown := False\<rparr>, outs)))"

datatype lo_event = Lo_input string | Lo_focus | Lo_escape | Lo_arrow bool | Lo_enter | Lo_hover nat
  | Lo_click nat | Lo_outside

definition lo_arrow :: "bool \<Rightarrow> locator \<Rightarrow> locator" where
  "lo_arrow down s =
     (let n = int (length (lo_matches s)) in
      if n = 0 then s
      else (let c = (lo_cursor s + (if down then 1 else n - 1)) mod n in
        mark_field_tab (map_option se_field (js_at (lo_matches s) c)) (s\<lparr>lo_cursor := c\<rparr>)))"

definition lo_step :: "dict \<Rightarrow> (string \<Rightarrow> string \<Rightarrow> int) \<Rightarrow> form_facts \<Rightarrow> lo_event \<Rightarrow> locator \<Rightarrow> locator \<times> lo_out list" where
  "lo_step t lc w e s = (case e of
       Lo_input v \<Rightarrow> (lo_search t lc w (s\<lparr>lo_value := v\<rparr>), [])
     | Lo_focus \<Rightarrow> (if js_trim (lo_value s) \<noteq> [] then lo_search t lc w s else s, [])
     | Lo_escape \<Rightarrow> (lo_close (s\<lparr>lo_value := []\<rparr>), [])
     | Lo_arrow down \<Rightarrow> (lo_arrow down s, [])
     | Lo_enter \<Rightarrow> if lo_matches s = [] then (s, []) else lo_pick w (lo_cursor s) s
     | Lo_hover i \<Rightarrow> if i < length (lo_matches s)
         then (mark_field_tab (map_option se_field (js_at (lo_matches s) (int i))) (s\<lparr>lo_cursor := int i\<rparr>), []) else (s, [])
     | Lo_click i \<Rightarrow> if i < length (lo_matches s) then lo_pick w (int i) s else (s, [])
     | Lo_outside \<Rightarrow> (s\<lparr>lo_shown := False\<rparr>, []))"

section \<open>Starred fields\<close>

text \<open>The set is one for all forms; \<open>None\<close> when the page holds no list. A change gives what is saved.\<close>

definition fav_fields :: "string list option \<Rightarrow> string list" where
  "fav_fields f = (case f of Some xs \<Rightarrow> xs | None \<Rightarrow> [])"

definition is_fav :: "string list option \<Rightarrow> string \<Rightarrow> bool" where
  "is_fav favs f = (f \<in> set (fav_fields favs))"

definition fav_toggle :: "string \<Rightarrow> string list option \<Rightarrow> string list" where
  "fav_toggle f favs =
     (let cur = fav_fields favs in if f \<in> set cur then remove1 f cur else cur @ [f])"

text \<open>The mirrors shown: in the order of the set, those with an input here; \<open>EXTRA_ARGS\<close> is pinned above.\<close>

definition fav_mirrors :: "form_facts \<Rightarrow> string list option \<Rightarrow> string list" where
  "fav_mirrors w favs = filter (\<lambda>f. f \<noteq> ''EXTRA_ARGS'' \<and> ff_present w f) (fav_fields favs)"

text \<open>A mirror dropped on another: the list to save, or nothing.\<close>

definition drop_after :: "rat \<Rightarrow> rat \<Rightarrow> rat \<Rightarrow> bool" where
  "drop_after x left width = (x - left > width / 2)"

definition reorder_favorites :: "string \<times> string \<times> bool \<Rightarrow> string list \<Rightarrow> string list option" where
  "reorder_favorites p cur = (case p of (source, target, after) \<Rightarrow>
     if source = [] \<or> source = target \<or> source \<notin> set cur \<or> target \<notin> set cur then None
     else (let rest = remove1 source cur; ti = nat (js_index rest target) + (if after then 1 else 0)
       in Some (take ti rest @ source # drop ti rest)))"

section \<open>Every field has one home\<close>

text \<open>The fields with an input of their own, outside the tabs.\<close>

definition fields_outside :: "string list" where
  "fields_outside = [''CHAT_TEMPLATE_FILE'', ''SPEC_DRAFT_MODEL_FILE'', ''EXTRA_ARGS'', ''OFFLOAD_MMPROJ'']"

definition sorted_fields :: "string list" where
  "sorted_fields = sort (map fst location_list)"

lemma sorted_fields_strict: "successively (<) sorted_fields"
  by code_simp

lemma sorted_fields_known:
  "sorted_fields = sort (filter (\<lambda>f. f \<notin> set fields_outside) (numeric_fields @ toggle_fields))"
  by code_simp

lemma location_list_distinct: "distinct (map fst location_list)"
proof -
  have "sorted_wrt (<) sorted_fields"
    using sorted_fields_strict by (simp add: successively_conv_sorted_wrt transp_on_less)
  then have "distinct sorted_fields" by (simp add: strict_sorted_iff)
  then show ?thesis by (simp add: sorted_fields_def)
qed

lemma location_list_fields:
  "set (map fst location_list) = {f \<in> set (numeric_fields @ toggle_fields). f \<notin> set fields_outside}"
proof -
  have "set sorted_fields = set (filter (\<lambda>f. f \<notin> set fields_outside) (numeric_fields @ toggle_fields))"
    by (subst sorted_fields_known) (simp only: set_sort)
  then show ?thesis by (auto simp: sorted_fields_def)
qed

lemma field_location_iff: "field_location f = Some l \<longleftrightarrow> (f, l) \<in> set location_list"
  unfolding field_location_def using location_list_distinct by (simp add: map_of_eq_Some_iff)

lemma in_zip_upt: "(i, x) \<in> set (zip [0..<length xs] xs) \<longleftrightarrow> i < length xs \<and> xs ! i = x"
  by (force simp: set_zip)

lemma in_location_list:
  "(f, l) \<in> set location_list \<longleftrightarrow>
     (\<exists>groups. fl_tab l < length advanced_tab_defs \<and> advanced_tab_defs ! fl_tab l = (fl_key l, groups)
        \<and> fl_group l \<in> set groups \<and> f \<in> set (group_fields (fl_group l)))"
proof -
  have "(f, l) \<in> set location_list \<longleftrightarrow>
      (\<exists>i key groups g. (i, key, groups) \<in> set (zip [0..<length advanced_tab_defs] advanced_tab_defs) \<and> g \<in> set groups
         \<and> f \<in> set (group_fields g) \<and> l = \<lparr>fl_tab = i, fl_key = key, fl_group = g\<rparr>)"
    unfolding location_list_def by fastforce
  then show ?thesis unfolding in_zip_upt by (cases l) auto
qed

text \<open>Every field of the launch form has one home: the search finds a place exactly for the fields of the two
  tables that have no input of their own outside the tabs, no field is named by two groups, and the tab
  it points at is the one whose groups name the field.\<close>

theorem form_fields_have_one_home:
  "(field_location f \<noteq> None \<longleftrightarrow> f \<in> set (numeric_fields @ toggle_fields) \<and> f \<notin> set fields_outside) \<and>
   (\<forall>l. field_location f = Some l \<longleftrightarrow>
      (\<exists>groups. fl_tab l < length advanced_tab_defs \<and> advanced_tab_defs ! fl_tab l = (fl_key l, groups)
         \<and> fl_group l \<in> set groups \<and> f \<in> set (group_fields (fl_group l))))"
proof (intro conjI allI)
  have "field_location f \<noteq> None \<longleftrightarrow> f \<in> set (map fst location_list)"
    by (force simp: field_location_iff)
  then show "field_location f \<noteq> None \<longleftrightarrow> f \<in> set (numeric_fields @ toggle_fields) \<and> f \<notin> set fields_outside"
    unfolding location_list_fields by simp
next
  fix l
  show "field_location f = Some l \<longleftrightarrow>
      (\<exists>groups. fl_tab l < length advanced_tab_defs \<and> advanced_tab_defs ! fl_tab l = (fl_key l, groups)
         \<and> fl_group l \<in> set groups \<and> f \<in> set (group_fields (fl_group l)))"
    unfolding field_location_iff by (rule in_location_list)
qed

section \<open>The best matches, the best first\<close>

definition hit_before :: "(string \<Rightarrow> string \<Rightarrow> int) \<Rightarrow> search_entry \<times> nat \<Rightarrow> search_entry \<times> nat \<Rightarrow> bool" where
  "hit_before lc a b \<longleftrightarrow> snd b < snd a \<or> (snd a = snd b \<and> lc (se_field (fst a)) (se_field (fst b)) \<le> 0)"

lemma sorted_take_drop: "sorted_wrt P xs \<Longrightarrow> x \<in> set (take n xs) \<Longrightarrow> y \<in> set (drop n xs) \<Longrightarrow> P x y"
  by (metis append_take_drop_id sorted_wrt_append)

text \<open>With a comparison of names that is one, the search shows at most twelve fields, each a match of this
  editor, the better first; and what it leaves out is either no match or, the twelve being full, no
  better than any of them.\<close>

theorem lo_search_shows_the_best:
  assumes total: "\<And>a b. lc a b \<le> 0 \<or> lc b a \<le> 0" and trans: "\<And>a b c. lc a b \<le> 0 \<Longrightarrow> lc b c \<le> 0 \<Longrightarrow> lc a c \<le> 0"
  shows "length (search_hits lc w q) \<le> 12 \<and> set (search_hits lc w q) \<subseteq> {e \<in> set (search_index w). score_entry e q > 0}
    \<and> sorted_wrt (\<lambda>a b. score_entry b q \<le> score_entry a q) (search_hits lc w q)
    \<and> (\<forall>e \<in> set (search_index w) - set (search_hits lc w q). score_entry e q = 0 \<or>
         (length (search_hits lc w q) = 12 \<and> (\<forall>h \<in> set (search_hits lc w q). score_entry e q \<le> score_entry h q)))"
proof -
  define ms where "ms = filter (\<lambda>m. snd m > 0) (map (\<lambda>e. (e, score_entry e q)) (search_index w))"
  define ss where "ss = js_sort (hit_cmp lc) ms"
  have set: "set ss = set ms" by (simp add: ss_def)
  have ms: "(e, n) \<in> set ms \<longleftrightarrow> e \<in> set (search_index w) \<and> n = score_entry e q \<and> n > 0" for e n
    by (auto simp: ms_def)
  have hits: "search_hits lc w q = map fst (take 12 ss)" by (simp add: search_hits_def ss_def ms_def)
  have sorted: "sorted_wrt (hit_before lc) ss"
    unfolding ss_def
  proof (rule js_sort_sorted)
    show "hit_before lc a b \<longleftrightarrow> hit_cmp lc a b \<le> 0" for a b by (auto simp: hit_before_def hit_cmp_def)
    show "hit_before lc a b \<or> hit_before lc b a" for a b using total by (auto simp: hit_before_def)
    show "hit_before lc a b \<Longrightarrow> hit_before lc b c \<Longrightarrow> hit_before lc a c" for a b c
      using trans by (auto simp: hit_before_def)
  qed
  have snd: "snd m = score_entry (fst m) q" if "m \<in> set ss" for m using that ms [of "fst m" "snd m"] set by simp
  have "sorted_wrt (hit_before lc) (take 12 ss)" using sorted by (rule sorted_wrt_take)
  then have "sorted_wrt (\<lambda>a b. score_entry (fst b) q \<le> score_entry (fst a) q) (take 12 ss)"
    by (rule sorted_wrt_mono_rel [rotated]) (auto simp: hit_before_def dest!: in_set_takeD snd)
  then have 1: "sorted_wrt (\<lambda>a b. score_entry b q \<le> score_entry a q) (search_hits lc w q)"
    by (simp add: hits sorted_wrt_map)
  have 2: "set (search_hits lc w q) \<subseteq> {e \<in> set (search_index w). score_entry e q > 0}"
    using set ms by (fastforce simp: hits dest: in_set_takeD)
  have 3: "score_entry e q = 0 \<or>
      (length (search_hits lc w q) = 12 \<and> (\<forall>h \<in> set (search_hits lc w q). score_entry e q \<le> score_entry h q))"
    if e: "e \<in> set (search_index w)" "e \<notin> set (search_hits lc w q)" for e
  proof (cases "score_entry e q = 0")
    case False
    with e(1) have "(e, score_entry e q) \<in> set ss" by (simp add: set ms)
    moreover have "(e, score_entry e q) \<notin> set (take 12 ss)" using e(2) by (force simp: hits)
    ultimately have d: "(e, score_entry e q) \<in> set (drop 12 ss)"
      by (metis Un_iff append_take_drop_id set_append)
    then have "length ss > 12" by (metis drop_eq_Nil empty_iff empty_set not_le)
    moreover have "score_entry e q \<le> score_entry h q" if h: "h \<in> set (search_hits lc w q)" for h
    proof -
      from h obtain m where m: "m \<in> set (take 12 ss)" "h = fst m" by (auto simp: hits)
      from sorted_take_drop [OF sorted m(1) d] show ?thesis
        using snd [OF in_set_takeD [OF m(1)]] m(2) by (auto simp: hit_before_def)
    qed
    ultimately show ?thesis by (simp add: hits)
  qed simp
  have "length (search_hits lc w q) \<le> 12" by (simp add: hits)
  with 1 2 3 show ?thesis by blast
qed

definition two_fields :: form_facts where
  "two_fields = \<lparr>ff_fields = Some [''HOST'', ''PORT''], ff_present = (\<lambda>f. True), ff_row = (\<lambda>f. True),
     ff_flags = (\<lambda>f. []), ff_help = (\<lambda>f. ''the port'')\<rparr>"

lemma lo_search_shows_the_best_witness:
  "length (search_hits (\<lambda>a b. 0) two_fields ''port'') \<le> 12 \<and>
    sorted_wrt (\<lambda>a b. score_entry b ''port'' \<le> score_entry a ''port'') (search_hits (\<lambda>a b. 0) two_fields ''port'')"
  using lo_search_shows_the_best [of "\<lambda>a b. 0" two_fields "''port''"] by simp

section \<open>The cursor\<close>

definition lo_run :: "dict \<Rightarrow> (string \<Rightarrow> string \<Rightarrow> int) \<Rightarrow> form_facts \<Rightarrow> lo_event list \<Rightarrow> locator" where
  "lo_run t lc w es = foldl (\<lambda>s e. fst (lo_step t lc w e s)) lo_new es"

definition lo_ok :: "locator \<Rightarrow> bool" where
  "lo_ok s \<longleftrightarrow> (if lo_matches s = [] then lo_cursor s = -1
     else 0 \<le> lo_cursor s \<and> lo_cursor s < int (length (lo_matches s)))"

lemma mark_field_tab_keeps [simp]:
  "lo_matches (mark_field_tab f s) = lo_matches s" "lo_cursor (mark_field_tab f s) = lo_cursor s"
  by (simp_all add: mark_field_tab_def)

lemma lo_pick_keeps: "lo_matches (fst (lo_pick w i s)) = lo_matches s \<and> lo_cursor (fst (lo_pick w i s)) = lo_cursor s"
  by (simp add: lo_pick_def reveal_field_def Let_def split: option.splits)

lemma lo_search_ok: "lo_ok (lo_search t lc w s)"
  by (simp add: lo_ok_def lo_search_def lo_close_def Let_def)

lemma lo_arrow_ok: "lo_ok s \<Longrightarrow> lo_ok (lo_arrow down s)"
  by (auto simp: lo_ok_def lo_arrow_def Let_def)

lemma lo_pick_ok: "lo_ok s \<Longrightarrow> lo_ok (fst (lo_pick w i s))"
  using lo_pick_keeps [of w i s] by (simp add: lo_ok_def)

lemma lo_hover_ok: "i < length (lo_matches s) \<Longrightarrow> lo_ok (mark_field_tab f (s\<lparr>lo_cursor := int i\<rparr>))"
  by (auto simp: lo_ok_def)

lemma lo_close_ok: "lo_ok (lo_close s)"
  by (simp add: lo_ok_def lo_close_def)

lemma lo_step_ok: "lo_ok s \<Longrightarrow> lo_ok (fst (lo_step t lc w e s))"
  by (cases e) (simp_all add: lo_step_def lo_search_ok lo_arrow_ok lo_close_ok lo_pick_ok lo_hover_ok,
      simp_all add: lo_ok_def)

text \<open>Whatever is typed, pressed and pointed at, the cursor of the search is on one of the fields it shows,
  or nowhere when it shows none.\<close>

theorem lo_cursor_is_on_a_hit:
  "if lo_matches (lo_run t lc w es) = [] then lo_cursor (lo_run t lc w es) = -1
   else js_at (lo_matches (lo_run t lc w es)) (lo_cursor (lo_run t lc w es)) \<noteq> None"
proof -
  have "lo_ok (foldl (\<lambda>s e. fst (lo_step t lc w e s)) s es)" if "lo_ok s" for s
    using that by (induction es arbitrary: s) (simp_all add: lo_step_ok)
  moreover have "lo_ok lo_new" by (simp add: lo_ok_def lo_new_def)
  ultimately have "lo_ok (lo_run t lc w es)" by (simp add: lo_run_def)
  then show ?thesis by (auto simp: lo_ok_def js_at_def)
qed

section \<open>A dropped star stands beside its target\<close>

interpretation fav: rearranging reorder_favorites
proof unfold_locales
  fix p :: "string \<times> string \<times> bool" and xs ys
  assume a: "reorder_favorites p xs = Some ys"
  obtain source target after where p: "p = (source, target, after)" by (cases p) auto
  from a have m: "source \<in> set xs" and ys: "\<exists>n. ys = take n (remove1 source xs) @ source # drop n (remove1 source xs)"
    by (auto simp: reorder_favorites_def p Let_def split: if_splits)
  then show "mset ys = mset xs"
    by (auto simp del: append_take_drop_id mset_append simp: mset_take_insert_drop)
qed

text \<open>A starred field dropped on another one stands right beside it, on the side it was dropped on, and the
  other fields keep their order.\<close>

theorem fav_drop_stands_beside:
  assumes "reorder_favorites (source, target, after) xs = Some ys"
  shows "\<exists>us vs. remove1 source xs = us @ target # vs \<and>
    ys = us @ (if after then [target, source] else [source, target]) @ vs"
proof -
  let ?rest = "remove1 source xs"
  from assms have ne: "source \<noteq> target" "target \<in> set xs"
    by (auto simp: reorder_favorites_def split: if_splits)
  then have "target \<in> set ?rest" by (simp add: in_set_remove1)
  then obtain n where n: "index_of target ?rest = Some n" using index_of_mem by metis
  from index_of_SomeD [OF n] have r: "?rest = take n ?rest @ target # drop (Suc n) ?rest"
    using id_take_nth_drop by fastforce
  from assms n have ys: "ys = take (n + (if after then 1 else 0)) ?rest @ source # drop (n + (if after then 1 else 0)) ?rest"
    by (auto simp: reorder_favorites_def js_index_def Let_def split: if_splits)
  have nl: "n < length ?rest" and nt: "?rest ! n = target" using index_of_SomeD [OF n] by simp_all
  show ?thesis
  proof (intro exI conjI)
    show "?rest = take n ?rest @ target # drop (Suc n) ?rest" by (rule r)
    show "ys = take n ?rest @ (if after then [target, source] else [source, target]) @ drop (Suc n) ?rest"
      unfolding ys using nl nt by (simp add: take_Suc_conv_app_nth Cons_nth_drop_Suc [symmetric])
  qed
qed

lemma fav_drop_stands_beside_witness:
  "\<exists>us vs. remove1 ''PORT'' [''HOST'', ''KEEP'', ''PORT''] = us @ ''HOST'' # vs \<and>
    [''HOST'', ''PORT'', ''KEEP''] = us @ (if True then [''HOST'', ''PORT''] else [''PORT'', ''HOST'']) @ vs"
  by (rule fav_drop_stands_beside) (simp add: reorder_favorites_def js_index_def)

end
