(* ===== verification/ModelFiles.thy ===== *)
theory ModelFiles
  imports Utils Interfaces
begin

text \<open>
  The files of a model: a copy against the one on Hugging Face (\<open>model-freshness.js\<close>), how far a copy has
  got (\<open>model-copy.js\<close>), its strip in a cell's line (\<open>start-strip.js\<close>), the list of models an open page
  follows (\<open>model-list.js\<close>), and what a machine's update installs (\<open>client-llama-update.js\<close>). The local
  calendar day of a moment is the parameter \<open>day\<close>. Figures are finite numbers.
\<close>

section \<open>Our copy against the one on Hugging Face\<close>

datatype mf_state = MFMissing | MFUnknown | MFSize | MFDate | MFSame

definition mf_day_from_epoch :: "(rat \<Rightarrow> string) \<Rightarrow> js \<Rightarrow> string" where
  "mf_day_from_epoch day mtime =
     (case js_number (js_or mtime (JNum 0)) of Fin s \<Rightarrow> if s \<le> 0 then [] else day s | _ \<Rightarrow> [])"

definition mf_size :: "js \<Rightarrow> jnum" where
  "mf_size v = js_number (js_or (jget v ''size'') (JNum 0))"

definition mf_no_size :: "jnum \<Rightarrow> bool" where
  "mf_no_size n = (n = NaN \<or> n = Fin 0)"

definition mf_compare :: "(rat \<Rightarrow> string) \<Rightarrow> js \<Rightarrow> js \<Rightarrow> mf_state" where
  "mf_compare day here remote =
     (if \<not> js_is_object here then MFMissing
      else let local_size = mf_size here; remote_size = mf_size remote;
               local_date = mf_day_from_epoch day (jget here ''mtime'');
               remote_date = take 10 (js_text (jget remote ''date''))
           in if mf_no_size local_size \<or> mf_no_size remote_size then MFUnknown
              else if local_size \<noteq> remote_size then MFSize
              else if local_date \<noteq> [] \<and> remote_date \<noteq> [] \<and> remote_date > local_date then MFDate
              else if local_date = [] \<or> remote_date = [] then MFUnknown
              else MFSame)"

definition mf_mark :: "mf_state option \<Rightarrow> string" where
  "mf_mark s = (case s of Some MFSize \<Rightarrow> [CHR 0xE2, CHR 0x87, CHR 0xAA] | Some MFDate \<Rightarrow> [CHR 0xE2, CHR 0x87, CHR 0xAA]
     | Some MFUnknown \<Rightarrow> ''?'' | _ \<Rightarrow> [CHR 0xE2, CHR 0x9C, CHR 0x93])"

record mf_summary =
  mf_differs :: nat
  mf_by_size :: nat
  mf_by_date :: nat
  mf_unknown :: nat
  mf_same :: nat
  mf_missing :: nat

definition mf_count :: "mf_summary \<Rightarrow> mf_state \<Rightarrow> mf_summary" where
  "mf_count out s =
     (case s of
        MFSize \<Rightarrow> out\<lparr>mf_differs := mf_differs out + 1, mf_by_size := mf_by_size out + 1\<rparr>
      | MFDate \<Rightarrow> out\<lparr>mf_differs := mf_differs out + 1, mf_by_date := mf_by_date out + 1\<rparr>
      | MFUnknown \<Rightarrow> out\<lparr>mf_unknown := mf_unknown out + 1\<rparr>
      | MFSame \<Rightarrow> out\<lparr>mf_same := mf_same out + 1\<rparr>
      | MFMissing \<Rightarrow> out\<lparr>mf_missing := mf_missing out + 1\<rparr>)"

definition mf_repo_summary :: "mf_state list \<Rightarrow> mf_summary" where
  "mf_repo_summary states = foldl mf_count
     \<lparr>mf_differs = 0, mf_by_size = 0, mf_by_date = 0, mf_unknown = 0, mf_same = 0, mf_missing = 0\<rparr> states"

section \<open>How far a copy has got\<close>

text \<open>The twenty characters \<open>-00001-of-00002.gguf\<close>: the part and the number of parts.\<close>

definition mc_tail :: "string \<Rightarrow> (string \<times> string) option" where
  "mc_tail s =
     (if length s = 20 \<and> take 1 s = ''-'' \<and> list_all is_digit (take 5 (drop 1 s)) \<and>
         js_lower (take 4 (drop 6 s)) = ''-of-'' \<and> list_all is_digit (take 5 (drop 10 s)) \<and> js_lower (drop 15 s) = ''.gguf''
      then Some (take 5 (drop 1 s), take 5 (drop 10 s)) else None)"

definition mc_part :: "string \<Rightarrow> (string \<times> string \<times> string) option" where
  "mc_part path =
     (if length path < 20 then None
      else let k = length path - 20
           in map_option (\<lambda>(part, parts). (take k path, part, parts)) (mc_tail (drop k path)))"

text \<open>The first such place in a name.\<close>

fun mc_part_in :: "string \<Rightarrow> (string \<times> string) option" where
  "mc_part_in [] = None"
| "mc_part_in (c # s) = (case mc_tail (take 20 (c # s)) of Some p \<Rightarrow> Some p | None \<Rightarrow> mc_part_in s)"

definition mc_gb :: "rat \<Rightarrow> string" where
  "mc_gb bytes = to_fixed 1 (bytes / 2 ^ 30)"

definition mc_row :: "js \<Rightarrow> string \<Rightarrow> js option" where
  "mc_row rows path = find (\<lambda>r. jget r ''path'' = JStr path) (js_list rows)"

definition mc_part_path :: "string \<Rightarrow> string \<Rightarrow> nat \<Rightarrow> string" where
  "mc_part_path base parts i = base @ ''-'' @ pad_start 5 CHR ''0'' (nat_str i) @ ''-of-'' @ parts @ ''.gguf''"

fun mc_rest :: "js \<Rightarrow> string \<Rightarrow> string \<Rightarrow> nat list \<Rightarrow> rat list option" where
  "mc_rest rows base parts [] = Some []"
| "mc_rest rows base parts (i # is) =
     (case mc_row rows (mc_part_path base parts i) of None \<Rightarrow> None
      | Some row \<Rightarrow> (case js_number (jget row ''size'') of
          Fin sz \<Rightarrow> map_option ((#) sz) (mc_rest rows base parts is) | _ \<Rightarrow> None))"

definition mc_sizes :: "js \<Rightarrow> js \<Rightarrow> rat list option" where
  "mc_sizes slot rows =
     (let path = js_text (jget (jget slot ''slotConfig'') ''MODEL_FILE'')
      in case (mc_part path, mc_row rows path) of
           (Some (base, part, parts), Some first) \<Rightarrow>
             let count = digits_val parts
             in if jget first ''parts'' \<noteq> JNum (of_nat count) \<or> jget first ''partsFound'' \<noteq> JNum (of_nat count) then None
                else (case mc_rest rows base parts [2 ..< count + 1] of None \<Rightarrow> None
                  | Some rest \<Rightarrow> (case js_number (jget first ''size'') of
                      Fin sz \<Rightarrow> let head = sz - sum_list rest in if head > 0 then Some (head # rest) else None
                    | _ \<Rightarrow> None))
         | _ \<Rightarrow> None)"

record mc_copy =
  mc_done :: rat
  mc_total :: rat
  mc_pct :: "int option"

definition mc_said :: "rat \<Rightarrow> rat \<Rightarrow> mc_copy" where
  "mc_said got whole = \<lparr>mc_done = got, mc_total = whole,
     mc_pct = (if whole > 0 then Some (js_round (got / whole * 100)) else None)\<rparr>"

definition mc_of :: "js \<Rightarrow> js \<Rightarrow> mc_copy" where
  "mc_of slot rows =
     (let here = num_of (js_or (jget slot ''downloadedBytes'') (JNum 0));
          own = num_of (js_or (jget slot ''totalBytes'') (JNum 0))
      in case (mc_part_in (js_text (jget slot ''downloadingFile'')), mc_sizes slot rows) of
           (Some (part, parts), Some sizes) \<Rightarrow>
             if length sizes = digits_val parts \<and> js_at sizes (int (digits_val part) - 1) = Some own
             then mc_said (sum_list (take (digits_val part - 1) sizes) + here) (sum_list sizes)
             else mc_said here own
         | _ \<Rightarrow> mc_said here own)"

definition mc_line :: "mc_copy \<Rightarrow> string \<Rightarrow> string" where
  "mc_line copy label =
     label @ middot @ mc_gb (mc_done copy) @ ''/'' @ mc_gb (mc_total copy) @ '' GB''
     @ (case mc_pct copy of Some p \<Rightarrow> middot @ int_str p @ ''%'' | None \<Rightarrow> [])"

section \<open>The strip of a start\<close>

definition ss_break :: "char \<Rightarrow> bool" where
  "ss_break c = (is_ws c \<or> c = CHR ''_'' \<or> c = CHR ''-'')"

definition ss_label :: "js \<Rightarrow> js \<Rightarrow> string" where
  "ss_label file name =
     (let txt = js_text_nn file; model = js_trim (js_text_nn name)
      in if model = [] \<or> \<not> prefix (js_lower model) (js_lower txt) then txt
         else let rest = drop (length model) txt
              in if rest = [] \<or> \<not> ss_break (hd rest) then txt
                 else let kept = dropWhile ss_break rest in if kept \<noteq> [] then kept else txt)"

definition ss_words :: "mc_copy \<Rightarrow> js \<Rightarrow> js \<Rightarrow> string" where
  "ss_words copy file name = mc_line copy (ss_label file name)"

definition ss_wrap :: "string \<Rightarrow> string" where
  "ss_wrap inner = ''<div class=\"fr-strip model-status-line\" data-t=\"cell-row-strip\">'' @ inner @ ''</div>''"

definition ss_download :: "mc_copy \<Rightarrow> js \<Rightarrow> js \<Rightarrow> string" where
  "ss_download copy file name =
     (let pct = (case mc_pct copy of Some p \<Rightarrow> p | None \<Rightarrow> 0)
      in ss_wrap (''<span class=\"msl-bar\"><span style=\"width:'' @ int_str pct @ ''%\"></span></span>''
         @ ''<span class=\"msl-text\" data-live-rowdl data-strip-name=\"'' @ escape_html (js_text_nn name) @ ''\">''
         @ escape_html (ss_words copy file name) @ ''</span>''))"

definition ss_status :: "string \<Rightarrow> string" where
  "ss_status inner = (if inner \<noteq> [] then ss_wrap inner else [])"

section \<open>The models an open page follows\<close>

text \<open>
  \<open>ml_page\<close> is the page's state (its rows and their stamp), \<open>None\<close> while it has none; \<open>ml_waiting\<close> the stamps
  of the calls that wait for the one fetch on its way.
\<close>

record ml_state =
  ml_page :: "(js list \<times> js) option"
  ml_inflight :: bool
  ml_waiting :: "js list"

definition ml_behind :: "js \<Rightarrow> ml_state \<Rightarrow> bool" where
  "ml_behind stamp s = (case ml_page s of None \<Rightarrow> False | Some (rows, held) \<Rightarrow> js_truthy stamp \<and> stamp \<noteq> held)"

definition ml_follow :: "js \<Rightarrow> ml_state \<Rightarrow> ml_state \<times> unit list" where
  "ml_follow stamp s =
     (if \<not> ml_behind stamp s then (s, [])
      else (s\<lparr>ml_inflight := True, ml_waiting := ml_waiting s @ [stamp]\<rparr>, if ml_inflight s then [] else [()]))"

text \<open>What each waiting call does with the reply, in the order they came.\<close>

definition ml_take :: "js \<Rightarrow> (js list \<times> js) option \<Rightarrow> js \<Rightarrow> (js list \<times> js) option" where
  "ml_take reply page stamp =
     (case page of None \<Rightarrow> None
      | Some p \<Rightarrow> if js_is_array (jget reply ''models'')
                 then Some (js_list (jget reply ''models''), JStr (js_string (js_or (jget reply ''stamp'') stamp))) else Some p)"

definition ml_reply :: "js option \<Rightarrow> ml_state \<Rightarrow> ml_state \<times> unit list" where
  "ml_reply reply s =
     (case reply of
        None \<Rightarrow> (s\<lparr>ml_inflight := False, ml_waiting := []\<rparr>, [])
      | Some r \<Rightarrow> (s\<lparr>ml_inflight := False, ml_waiting := [], ml_page := foldl (ml_take r) (ml_page s) (ml_waiting s)\<rparr>, []))"

interpretation rows: single_flight ml_inflight ml_follow ml_reply
  by unfold_locales (auto simp: ml_follow_def ml_reply_def split: if_splits option.splits)

section \<open>What a machine's update installs\<close>

record llama_update =
  lu_read :: bool
  lu_commit :: string

definition lu_of :: "js \<Rightarrow> llama_update" where
  "lu_of info =
     (let git = (if js_is_object info then jget info ''git'' else JNull); read = js_is_object git
      in \<lparr>lu_read = read, lu_commit = (if read then js_trim (js_text_nn (jget git ''head'')) else [])\<rparr>)"

definition lu_follows :: "llama_update \<Rightarrow> bool" where
  "lu_follows u = (lu_commit u \<noteq> [])"

definition lu_tag :: "llama_update \<Rightarrow> string" where
  "lu_tag u = lu_commit u"

definition lu_title_key :: "llama_update \<Rightarrow> string" where
  "lu_title_key u = (if lu_follows u then ''updateClientLlama'' else ''updateClientLlamaLatest'')"

definition lu_confirm_key :: "llama_update \<Rightarrow> string" where
  "lu_confirm_key u = (if lu_follows u then ''updateClientLlamaConfirm'' else ''updateClientLlamaLatestConfirm'')"

text \<open>The click: the words asked, and the body sent when the operator says yes.\<close>

definition lu_start :: "js \<Rightarrow> string \<Rightarrow> bool \<Rightarrow> string \<times> (string \<times> string) option" where
  "lu_start info host yes = (let u = lu_of info in (lu_confirm_key u, if yes then Some (host, lu_tag u) else None))"

section \<open>Properties\<close>

lemma mf_count_total:
  "mf_differs (foldl mf_count out states) + mf_unknown (foldl mf_count out states) + mf_same (foldl mf_count out states) +
     mf_missing (foldl mf_count out states) =
   mf_differs out + mf_unknown out + mf_same out + mf_missing out + length states"
proof (induction states arbitrary: out)
  case (Cons a states)
  show ?case unfolding foldl.simps Cons.IH by (cases a) (simp_all add: mf_count_def)
qed simp

lemma mc_rest_length: "mc_rest rows base parts is = Some sizes \<Longrightarrow> length sizes = length is"
  by (induction "is" arbitrary: sizes) (auto split: option.splits jnum.splits)

lemma mc_sizes_sum:
  assumes "mc_sizes slot rows = Some sizes"
  shows "\<exists>first. mc_row rows (js_text (jget (jget slot ''slotConfig'') ''MODEL_FILE'')) = Some first \<and>
    js_number (jget first ''size'') = Fin (sum_list sizes)"
  using assms by (auto simp: mc_sizes_def Let_def split: option.splits if_splits jnum.splits)

lemma take_one_more: "js_at xs (int n - 1) = Some x \<Longrightarrow> sum_list (take (n - 1) xs) + x = sum_list (take n xs)"
  for xs :: "rat list"
proof -
  assume "js_at xs (int n - 1) = Some x"
  then obtain m where "n = Suc m" "m < length xs" "xs ! m = x"
    by (cases n) (auto simp: js_at_def split: if_splits)
  then show ?thesis by (simp add: take_Suc_conv_app_nth)
qed

lemma sum_list_take_le: "\<forall>x \<in> set xs. 0 \<le> x \<Longrightarrow> sum_list (take n xs) \<le> (sum_list xs :: rat)"
proof -
  assume "\<forall>x \<in> set xs. 0 \<le> x"
  then have "0 \<le> sum_list (drop n xs)" by (intro sum_list_nonneg) (auto dest: in_set_dropD)
  then show ?thesis by (metis add.commute append_take_drop_id le_add_same_cancel2 sum_list_append)
qed

text \<open>The bar of a split model is the bar of the whole model: while the scout copies part \<open>k\<close> of a model
  whose parts the list knows, the total is the model's own size, the figure is the parts before plus what
  is here of this one, between what the earlier parts came to and what they come to with this one (so
  the end of a part is the start of the next, and the bar never runs back), and the share is between 0 and 100.\<close>

theorem mc_progress_is_of_the_whole_model:
  assumes "mc_sizes slot rows = Some sizes" "\<forall>sz \<in> set sizes. 0 \<le> sz"
    and "mc_part_in (js_text (jget slot ''downloadingFile'')) = Some (part, parts)" "length sizes = digits_val parts"
    and "jget slot ''totalBytes'' = JNum own" "jget slot ''downloadedBytes'' = JNum here"
    and "js_at sizes (int (digits_val part) - 1) = Some own" "0 \<le> here" "here \<le> own"
  shows "(\<exists>first. mc_row rows (js_text (jget (jget slot ''slotConfig'') ''MODEL_FILE'')) = Some first \<and>
      js_number (jget first ''size'') = Fin (mc_total (mc_of slot rows))) \<and>
    sum_list (take (digits_val part - 1) sizes) \<le> mc_done (mc_of slot rows) \<and>
    mc_done (mc_of slot rows) \<le> sum_list (take (digits_val part) sizes) \<and>
    (\<exists>p. mc_pct (mc_of slot rows) = Some p \<and> 0 \<le> p \<and> p \<le> 100)"
proof -
  let ?k = "digits_val part" and ?total = "sum_list sizes"
  have own: "num_of (js_or (JNum own) (JNum 0)) = own" "num_of (js_or (JNum here) (JNum 0)) = here"
    by (simp_all add: num_of_def js_or_def)
  have of_: "mc_of slot rows = mc_said (sum_list (take (?k - 1) sizes) + here) ?total"
    using assms(1,3-7) own by (simp add: mc_of_def Let_def)
  obtain h rest where hr: "sizes = h # rest" "h > 0"
    using assms(1) by (auto simp: mc_sizes_def Let_def split: option.splits if_splits jnum.splits)
  have "0 \<le> sum_list rest" using assms(2) hr(1) by (intro sum_list_nonneg) simp
  then have pos: "?total > 0" using hr by simp
  have bounds: "0 \<le> sum_list (take (?k - 1) sizes)" "sum_list (take (?k - 1) sizes) + here \<le> sum_list (take ?k sizes)"
    "sum_list (take ?k sizes) \<le> ?total"
    using assms(2,8,9) take_one_more [OF assms(7)] sum_list_take_le [of sizes ?k]
    by (auto intro!: sum_list_nonneg dest: in_set_takeD)
  let ?x = "(sum_list (take (?k - 1) sizes) + here) / ?total * 100"
  have "0 \<le> ?x" "?x \<le> 100" using bounds assms(8) pos by (simp_all add: divide_le_eq)
  then have "js_round 0 \<le> js_round ?x" "js_round ?x \<le> js_round 100" by (auto intro: js_round_mono)
  then have "0 \<le> js_round ?x \<and> js_round ?x \<le> 100"
    using js_round_of_int [of 0] js_round_of_int [of 100] by simp
  then show ?thesis using mc_sizes_sum [OF assms(1)] bounds assms(8) pos by (simp add: of_ mc_said_def)
qed

definition mc_demo_slot :: js where
  "mc_demo_slot = JObj [(''slotConfig'', JObj [(''MODEL_FILE'', JStr ''m-00001-of-00002.gguf'')]),
     (''downloadingFile'', JStr ''m-00002-of-00002.gguf (2/2)''), (''totalBytes'', JNum 30), (''downloadedBytes'', JNum 15)]"

definition mc_demo_rows :: js where
  "mc_demo_rows = JArr [JObj [(''path'', JStr ''m-00001-of-00002.gguf''), (''size'', JNum 100), (''parts'', JNum 2), (''partsFound'', JNum 2)],
     JObj [(''path'', JStr ''m-00002-of-00002.gguf''), (''size'', JNum 30)]]"

theorem mc_progress_is_of_the_whole_model_witness:
  "\<exists>p. mc_pct (mc_of mc_demo_slot mc_demo_rows) = Some p \<and> 0 \<le> p \<and> p \<le> 100"
proof -
  have sizes: "mc_sizes mc_demo_slot mc_demo_rows = Some [70, 30]" by code_simp
  have part: "mc_part_in (js_text (jget mc_demo_slot ''downloadingFile'')) = Some (''00002'', ''00002'')" by code_simp
  have two: "digits_val ''00002'' = 2" by code_simp
  have "jget mc_demo_slot ''totalBytes'' = JNum 30" "jget mc_demo_slot ''downloadedBytes'' = JNum 15"
    by (simp_all add: mc_demo_slot_def)
  moreover have "js_at [70, 30 :: rat] (int (digits_val ''00002'') - 1) = Some 30" by (simp add: two js_at_def)
  ultimately show ?thesis
    using mc_progress_is_of_the_whole_model [OF sizes _ part] two by simp
qed

end
