(* ===== verification/ModelCache.thy ===== *)
theory ModelCache
  imports Utils Flows
begin

text \<open>
  A machine's model cache on its card (\<open>model-cache.js\<close>): what the scout said of it, cleaned; the
  choices of the box; how full the disk is, and the sign for it; the line's markup; and the two acts,
  the setting and the delete of foreign files, as flows. The board's redraw (\<open>refresh\<close>) is a reading of
  the board.
\<close>

section \<open>What the scout said\<close>

record cache_line =
  cl_id :: string
  cl_name :: string
  cl_facts :: "js option"

definition js_finite :: "js \<Rightarrow> bool" where
  "js_finite v = (case v of JNum r \<Rightarrow> True | _ \<Rightarrow> False)"

definition js_rat :: "js \<Rightarrow> rat" where
  "js_rat v = (case v of JNum r \<Rightarrow> r | _ \<Rightarrow> 0)"

definition cache_of :: "js \<Rightarrow> cache_line" where
  "cache_of node =
     (let facts = jget node ''modelCache'' in
      \<lparr>cl_id = js_text_nn (jget node ''id''), cl_name = js_text (js_or (jget node ''name'') (jget node ''id'')),
       cl_facts = (if js_truthy facts \<and> js_is_object facts \<and> js_is_integer (jget facts ''keep'')
                      \<and> js_rat (jget facts ''keep'') > 0 then Some facts else None)\<rparr>)"

definition cl_fact :: "cache_line \<Rightarrow> string \<Rightarrow> js" where
  "cl_fact c k = (case cl_facts c of None \<Rightarrow> JUndef | Some f \<Rightarrow> jget f k)"

definition cache_foreign :: "cache_line \<Rightarrow> js option" where
  "cache_foreign c =
     (let f = cl_fact c ''foreign'' in
      if js_truthy f \<and> js_finite (jget f ''files'') \<and> js_rat (jget f ''files'') > 0 \<and> js_finite (jget f ''bytes'')
      then Some f else None)"

definition cache_keeps :: "rat list" where
  "cache_keeps = [1, 2, 3, 4, 5]"

definition cache_keep :: "cache_line \<Rightarrow> rat" where
  "cache_keep c = js_rat (cl_fact c ''keep'')"

definition rat_cmp :: "rat \<Rightarrow> rat \<Rightarrow> int" where
  "rat_cmp a b = (if a < b then -1 else if a = b then 0 else 1)"

definition cache_choices :: "cache_line \<Rightarrow> rat list" where
  "cache_choices c =
     (if cache_keep c \<in> set cache_keeps then cache_keeps else js_sort rat_cmp (cache_keeps @ [cache_keep c]))"

definition cache_held :: "cache_line \<Rightarrow> rat option" where
  "cache_held c = (let b = cl_fact c ''managedBytes'' in if js_finite b then Some (js_rat b) else None)"

text \<open>The bytes free and the bytes of the cache folder's disk.\<close>

definition cache_disk :: "cache_line \<Rightarrow> (rat \<times> rat) option" where
  "cache_disk c =
     (let d = cl_fact c ''disk''; free = jget d ''freeBytes''; all = jget d ''totalBytes'' in
      if js_truthy d \<and> js_finite free \<and> js_finite all \<and> js_rat all > 0 \<and> js_rat free \<le> js_rat all
      then Some (js_rat free, js_rat all) else None)"

definition disk_used_pct :: "cache_line \<Rightarrow> int option" where
  "disk_used_pct c = map_option (\<lambda>(free, all). \<lfloor>((all - free) / all) * 100\<rfloor>) (cache_disk c)"

definition disk_low_from :: int where
  "disk_low_from = 90"

definition disk_low :: "cache_line \<Rightarrow> bool" where
  "disk_low c = (case disk_used_pct c of None \<Rightarrow> False | Some p \<Rightarrow> p \<ge> disk_low_from)"

section \<open>What the card shows\<close>

definition disk_words :: "dict \<Rightarrow> cache_line \<Rightarrow> string" where
  "disk_words t c = (case disk_used_pct c of None \<Rightarrow> [] | Some p \<Rightarrow> t ''diskLowChip'' [(''pct'', int_str p)])"

definition disk_chip_html :: "dict \<Rightarrow> cache_line \<Rightarrow> string" where
  "disk_chip_html t c =
     (if \<not> disk_low c then []
      else ''<span class=\"node-disk-low\" data-t=\"node-disk-low\" data-t-id=\"'' @ escape_html (cl_id c) @ ''\" title=\"''
        @ escape_html (t ''diskLowTitle'' [(''limit'', int_str disk_low_from)]) @ ''\">'' @ [CHR 0xE2, CHR 0x9A, CHR 0xA0]
        @ '' <span data-live-diskpct>'' @ escape_html (disk_words t c) @ ''</span></span>'')"

definition cache_figures :: "dict \<Rightarrow> cache_line \<Rightarrow> string" where
  "cache_figures t c =
     js_join middot (filter (\<lambda>w. w \<noteq> [])
       [(case cache_held c of None \<Rightarrow> [] | Some b \<Rightarrow> t ''modelCacheHeld'' [(''size'', fmt_gb b)]),
        (case cache_disk c of None \<Rightarrow> []
         | Some (free, all) \<Rightarrow> t ''modelCacheFree'' [(''free'', fmt_space free), (''total'', fmt_space all)])])"

definition cache_folders :: "cache_line \<Rightarrow> string" where
  "cache_folders c =
     js_join [CHR 10] (map (\<lambda>row. js_string (jget row ''folder'') @ middot @ fmt_gb (num_of (jget row ''bytes'')))
       (case cache_foreign c of None \<Rightarrow> [] | Some f \<Rightarrow> js_list (js_or (jget f ''folders'') (JArr []))))"

definition cache_fingerprint :: "cache_line \<Rightarrow> string" where
  "cache_fingerprint c =
     (if cl_facts c = None then ''-''
      else rat_str (cache_keep c) @ '':''
        @ (case cache_foreign c of None \<Rightarrow> ''none''
           | Some f \<Rightarrow> js_string (jget f ''files'') @ ''/'' @ js_string (jget f ''bytes''))
        @ '':'' @ (if cache_held c = None then ''0'' else ''1'') @ (if cache_disk c = None then ''0'' else ''1'')
        @ (if disk_low c then ''!'' else []))"

definition foreign_html :: "dict \<Rightarrow> cache_line \<Rightarrow> string" where
  "foreign_html t c = (case cache_foreign c of None \<Rightarrow> []
     | Some f \<Rightarrow> (let i = escape_html (cl_id c) in
         ''<div class=\"cache-foreign\" data-t=\"node-cache-foreign\" data-t-id=\"'' @ i @ ''\" title=\"''
         @ escape_html (js_trim (t ''modelCacheForeignHelp'' [] @ [CHR 10] @ cache_folders c)) @ ''\">''
         @ ''<span class=\"cache-foreign-text\">''
         @ escape_html (t ''modelCacheForeign'' [(''n'', js_string (jget f ''files'')), (''size'', fmt_gb (js_rat (jget f ''bytes'')))])
         @ ''</span><button type=\"button\" class=\"cache-foreign-delete\" data-t=\"node-cache-delete\" data-t-id=\"'' @ i
         @ ''\" data-cache-delete-foreign=\"'' @ i @ ''\">'' @ escape_html (t ''modelCacheDeleteBtn'' []) @ ''</button></div>''))"

definition cache_html :: "dict \<Rightarrow> cache_line \<Rightarrow> string" where
  "cache_html t c =
     (if cl_facts c = None then []
      else (let i = escape_html (cl_id c); help = escape_html (t ''modelCacheKeepHelp'' []) in
        ''<div class=\"cache-line\" data-t=\"node-cache\" data-t-id=\"'' @ i @ ''\">''
        @ ''<span class=\"cache-title\" title=\"'' @ help @ ''\">'' @ escape_html (t ''modelCacheHead'' []) @ ''</span>''
        @ ''<label class=\"cache-keep-label\" title=\"'' @ help @ ''\"><span>'' @ escape_html (t ''modelCacheKeepLabel'' []) @ ''</span>''
        @ ''<select class=\"cache-keep\" data-t=\"node-cache-keep\" data-t-id=\"'' @ i @ ''\" data-cache-keep=\"'' @ i @ ''\">''
        @ concat (map (\<lambda>n. ''<option value=\"'' @ rat_str n @ ''\"'' @ (if n = cache_keep c then '' selected'' else []) @ ''>''
            @ rat_str n @ ''</option>'') (cache_choices c)) @ ''</select></label>''
        @ ''<span class=\"cache-figures\" data-t=\"node-cache-figures\" data-t-id=\"'' @ i @ ''\" data-live-cachefigures>''
        @ escape_html (cache_figures t c) @ ''</span>'' @ foreign_html t c @ ''</div>''))"

section \<open>The acts\<close>

definition freed_words :: "dict \<Rightarrow> js \<Rightarrow> string" where
  "freed_words t result = t ''modelCacheFreed'' [(''size'', fmt_gb (num_of (jget result ''freedBytes''))),
     (''n'', rat_str (num_of (jget result ''removed'')))]"

definition kept_words :: "dict \<Rightarrow> string \<Rightarrow> js \<Rightarrow> js \<Rightarrow> string" where
  "kept_words t host keep answer =
     (let result = js_or (jget answer ''result'') (JObj []);
          kept = t ''modelCacheKept'' [(''host'', host), (''n'', js_string (js_nn (jget result ''keep'') keep))]
      in if jget result ''waiting'' = JBool True then kept @ ''. '' @ t ''modelCacheNothingYet'' [(''host'', host)]
         else if jnum_pos (js_number (jget result ''removed'')) then kept @ middot @ freed_words t result
         else kept)"

definition cache_node_of :: "js \<Rightarrow> string \<Rightarrow> js" where
  "cache_node_of bd host = (case find (\<lambda>n. js_string (jget n ''id'') = host) (js_list (js_or (jget bd ''nodes'') (JArr []))) of
     Some n \<Rightarrow> n | None \<Rightarrow> JNull)"

text \<open>The value the box holds when the answer is in: after a refusal, the setting the controller holds.\<close>

definition box_after :: "js \<Rightarrow> string \<Rightarrow> string \<Rightarrow> string" where
  "box_after bd host chosen =
     (let held = cl_fact (cache_of (cache_node_of bd host)) ''keep'' in if held = JUndef then chosen else js_string held)"

definition set_keep :: "dict \<Rightarrow> string \<Rightarrow> string \<Rightarrow> js \<Rightarrow> flow" where
  "set_keep t host chosen bd =
     (let keep = (case str_number chosen of Fin r \<Rightarrow> JNum r | _ \<Rightarrow> JNull);
          name = js_string (js_or (jget (cache_node_of bd host) ''name'') (JStr host))
      in await (Send_req ''/api/topology/client-llama/cache-keep'' (JObj [(''hostId'', JStr host), (''keep'', keep)]))
        (\<lambda>a bd1. case a of
           Inl err \<Rightarrow> Say err (ask_value Read_board (\<lambda>b bd2. Done (JStr (box_after bd1 host chosen)) bd2))
         | Inr answer \<Rightarrow> Say (kept_words t name keep answer) (ask_value Read_board (\<lambda>b bd2. Done (JStr chosen) bd2))))"

definition delete_foreign :: "dict \<Rightarrow> string \<Rightarrow> js \<Rightarrow> flow" where
  "delete_foreign t host bd =
     (let line = cache_of (cache_node_of bd host) in
      case cache_foreign line of
        None \<Rightarrow> Done JUndef bd
      | Some f \<Rightarrow>
          ask_value (Confirm_req (t ''modelCacheDeleteConfirm'' [(''host'', cl_name line), (''n'', js_string (jget f ''files'')),
                (''size'', fmt_gb (js_rat (jget f ''bytes'')))])
              (JObj [(''title'', JStr (t ''modelCacheDeleteTitle'' [])),
                (''detail'', JStr (concat (map (\<lambda>c. if c = CHR 10 then middot else [c]) (cache_folders line)))),
                (''confirmLabel'', JStr (t ''deleteAction'' []))]))
            (\<lambda>asked bd1. if \<not> js_truthy asked then Done JUndef bd1
             else await (Send_req ''/api/topology/client-llama/cache-delete-foreign''
                 (JObj [(''hostId'', JStr host), (''expectBytes'', jget f ''bytes'')]))
               (\<lambda>a bd2. Say (case a of Inl err \<Rightarrow> err | Inr answer \<Rightarrow> freed_words t (jget answer ''result''))
                  (ask_value Read_board (\<lambda>b bd3. Done JUndef bd3)))))"

section \<open>The figures are of the disk, the box of the setting\<close>

lemma rat_cmp_le: "rat_cmp a b \<le> 0 \<longleftrightarrow> a \<le> b"
  by (auto simp: rat_cmp_def)

lemma cache_choices_sorted: "sorted (cache_choices c)"
proof -
  have "sorted_wrt (\<le>) (js_sort rat_cmp xs)" for xs
    by (rule js_sort_sorted) (auto simp: rat_cmp_le)
  then show ?thesis by (simp add: cache_choices_def cache_keeps_def)
qed

lemma cache_choices_set: "set (cache_choices c) = insert (cache_keep c) (set cache_keeps)"
  by (auto simp: cache_choices_def)

lemma cache_choices_distinct: "distinct (cache_choices c)"
  by (auto simp: cache_choices_def cache_keeps_def)

text \<open>The sign of a disk says nothing the scout did not measure: the percent it shows is the share of the
  disk in use, rounded down, and it stands exactly when that share is nine tenths or more.\<close>

theorem mc_disk_sign_is_measured:
  "disk_low c \<longleftrightarrow> (\<exists>free all p. cache_disk c = Some (free, all) \<and> disk_used_pct c = Some p \<and>
     10 * (all - free) \<ge> 9 * all \<and> of_int p * all \<le> 100 * (all - free) \<and> 100 * (all - free) < (of_int p + 1) * all)"
proof (cases "cache_disk c")
  case None
  then show ?thesis by (simp add: disk_low_def disk_used_pct_def)
next
  case (Some d)
  then obtain free all where d: "cache_disk c = Some (free, all)" by (cases d) auto
  then have pos: "all > 0" by (auto simp: cache_disk_def Let_def split: if_splits)
  define q where "q = (all - free) / all * 100"
  have q: "q * all = 100 * (all - free)" using pos by (simp add: q_def)
  have p: "disk_used_pct c = Some \<lfloor>q\<rfloor>" using d by (simp add: disk_used_pct_def q_def)
  have "of_int \<lfloor>q\<rfloor> * all \<le> q * all" "q * all < (of_int \<lfloor>q\<rfloor> + 1) * all"
    using pos floor_correct [of q] by simp_all
  moreover have "disk_low c \<longleftrightarrow> 90 \<le> q"
    by (simp add: disk_low_def p disk_low_from_def le_floor_iff)
  moreover have "90 \<le> q \<longleftrightarrow> 90 * all \<le> q * all" using pos by simp
  ultimately show ?thesis using d p q by auto
qed

text \<open>Foreign files are deleted only right after a yes.\<close>

lemma cache_delete_asks: "asks_first (\<lambda>q. case q of Send_req p b \<Rightarrow> p = ''/api/topology/client-llama/cache-delete-foreign'' | _ \<Rightarrow> False)
    (delete_foreign t host bd) False"
  by (auto simp: delete_foreign_def Let_def ask_value_def yes_to_def reply_value_def split: option.splits sum.splits)

end
