(* ===== verification/HfCatalog.thy ===== *)
theory HfCatalog
  imports JsValue "HOL-Library.Product_Lexorder"
begin

text \<open>
  What the page of repositories knows and which of them it shows (\<open>hf-catalog.js\<close>). \<open>facts\<close> is one
  repository (\<open>HfRepoFacts\<close>): the search record, its file list, what of it is on disk, and every fact
  read off those. \<open>catalog\<close> is \<open>HfCatalog\<close>: results, favorites, filters and the order. A repository
  is an object made the first time it is named; one not made yet reads as a new one, so making it
  changes no answer. The comparison of words in a language (\<open>localeCompare\<close>) and the scores of the
  benchmarks are parameters; letter case is the ASCII one.
\<close>

section \<open>Tables\<close>

text \<open>The sizes of the filter: an id, where it starts and where the next one does.\<close>

definition size_buckets :: "(string \<times> rat \<times> rat option) list" where
  "size_buckets = [(''0-9'', 0, Some 10), (''10-19'', 10, Some 20), (''20-29'', 20, Some 30), (''30-39'', 30, Some 40),
     (''40-74'', 40, Some 75), (''75+'', 75, None)]"

definition bucket_ids :: "string list" where
  "bucket_ids = ''all'' # map fst size_buckets"

definition capability_ids :: "string list" where
  "capability_ids = [''it'', ''vision'', ''audio'', ''mmproj'', ''mtp'', ''uncensored'']"

text \<open>\<open>KIND_ORDER[kind] ?? 9\<close>.\<close>

definition kind_rank :: "js \<Rightarrow> int" where
  "kind_rank k = (if k = JStr ''model'' then 0 else if k = JStr ''mmproj'' then 1 else if k = JStr ''mtp'' then 2
     else if k = JStr ''vocab'' then 3 else 9)"

section \<open>One repository\<close>

record facts =
  hf_id :: string
  hf_record :: js
  hf_files :: "js list option"
  hf_meta :: js
  hf_error :: string
  hf_local_names :: "string list option"
  hf_local_files :: js
  hf_library_files :: js
  hf_checkpoints :: "js list"

definition new_facts :: "string \<Rightarrow> facts" where
  "new_facts i = \<lparr>hf_id = i, hf_record = JObj [(''id'', JStr i)], hf_files = None, hf_meta = JNull, hf_error = [],
     hf_local_names = None, hf_local_files = JObj [], hf_library_files = JObj [], hf_checkpoints = []\<rparr>"

definition merge_key :: "js \<Rightarrow> js \<Rightarrow> string \<Rightarrow> js" where
  "merge_key from rec k = (if jget from k \<noteq> JUndef \<and> jget from k \<noteq> JStr [] then js_put k (jget from k) rec else rec)"

definition hf_merge :: "js \<Rightarrow> facts \<Rightarrow> facts" where
  "hf_merge r f =
     f\<lparr>hf_record := foldl (merge_key r) (hf_record f) [''downloads'', ''likes'', ''createdAt'', ''pipelineTag'', ''tags'']\<rparr>"

definition or_else :: "int \<Rightarrow> int \<Rightarrow> int" where
  "or_else a b = (if a \<noteq> 0 then a else b)"

definition file_cmp :: "(string \<Rightarrow> string \<Rightarrow> int) \<Rightarrow> js \<Rightarrow> js \<Rightarrow> int" where
  "file_cmp loc a b =
     or_else (kind_rank (jget a ''kind'') - kind_rank (jget b ''kind''))
       (or_else (loc (js_text (jget a ''quant'')) (js_text (jget b ''quant'')))
          (loc (js_string (jget a ''name'')) (js_string (jget b ''name''))))"

definition list_or :: "js \<Rightarrow> js list" where
  "list_or v = js_list (js_or v (JArr []))"

definition hf_set_files :: "(string \<Rightarrow> string \<Rightarrow> int) \<Rightarrow> js \<Rightarrow> facts \<Rightarrow> facts" where
  "hf_set_files loc d f =
     f\<lparr>hf_files := Some (js_sort (file_cmp loc) (list_or (jget d ''files''))),
       hf_meta := JObj [(''lastModified'', js_or (jget d ''lastModified'') (JStr [])),
         (''safetensors'', js_or (jget d ''safetensors'') JNull), (''otherFiles'', JArr (list_or (jget d ''otherFiles'')))],
       hf_error := []\<rparr>"

definition hf_set_local :: "js \<Rightarrow> facts \<Rightarrow> facts" where
  "hf_set_local d f =
     f\<lparr>hf_local_names := Some (js_uniq (map js_string (list_or (jget d ''localNames'')))),
       hf_local_files := js_or (jget d ''localFiles'') (JObj []),
       hf_library_files := js_or (jget d ''libraryFiles'') (JObj []),
       hf_checkpoints := list_or (jget d ''checkpointFolders'')\<rparr>"

definition in_library :: "facts \<Rightarrow> string \<Rightarrow> js list" where
  "in_library f name = list_or (jget (hf_library_files f) name)"

definition hf_author :: "facts \<Rightarrow> string" where
  "hf_author f = (if CHR ''/'' \<in> set (hf_id f) then hd (js_split CHR ''/'' (hf_id f)) else ''unknown'')"

definition hf_model :: "facts \<Rightarrow> string" where
  "hf_model f = last (js_split CHR ''/'' (hf_id f))"

definition hf_downloads :: "facts \<Rightarrow> jnum" where
  "hf_downloads f = num_or0 (js_number (jget (hf_record f) ''downloads''))"

definition hf_likes :: "facts \<Rightarrow> jnum" where
  "hf_likes f = num_or0 (js_number (jget (hf_record f) ''likes''))"

text \<open>\<open>HfFormat.count\<close>.\<close>

definition fmt_count :: "js \<Rightarrow> string" where
  "fmt_count n = (case num_or0 (js_number n) of
       Fin v \<Rightarrow> (if v \<ge> 1000000 then to_fixed 1 (v / 1000000) @ ''M''
                 else if v \<ge> 1000 then to_fixed 1 (v / 1000) @ ''k'' else rat_str v)
     | Inf neg \<Rightarrow> (if neg then ''-Infinity'' else ''InfinityM'')
     | NaN \<Rightarrow> ''0'')"

definition count_label :: "facts \<Rightarrow> string \<Rightarrow> string" where
  "count_label f k = (let v = jget (hf_record f) k in if js_nullish v then dash else fmt_count v)"

subsection \<open>The size in its name\<close>

text \<open>\<open>/(?:^|[-_])(\d+(?:\.\d+)?)[Bb](?:[-_]|$)/\<close>: the first number of a name that stands as a whole
  token before a B. A run of digits is followed by no digit, so the greedy reading is the only one.\<close>

definition is_sep :: "char \<Rightarrow> bool" where
  "is_sep c = (c = CHR ''-'' \<or> c = CHR ''_'')"

definition size_here :: "string \<Rightarrow> string option" where
  "size_here s =
     (let whole = takeWhile is_digit s; r = dropWhile is_digit s;
          frac = (if r \<noteq> [] \<and> hd r = CHR ''.'' then takeWhile is_digit (tl r) else []);
          r2 = (if frac = [] then r else dropWhile is_digit (tl r))
      in if whole \<noteq> [] \<and> r2 \<noteq> [] \<and> (hd r2 = CHR ''B'' \<or> hd r2 = CHR ''b'') \<and> (tl r2 = [] \<or> is_sep (hd (tl r2)))
         then Some (if frac = [] then whole else whole @ ''.'' @ frac) else None)"

fun size_after :: "string \<Rightarrow> string option" where
  "size_after [] = None"
| "size_after (c # s) = (if is_sep c then (case size_here s of Some x \<Rightarrow> Some x | None \<Rightarrow> size_after s) else size_after s)"

definition size_in :: "string \<Rightarrow> string option" where
  "size_in s = (case size_here s of Some x \<Rightarrow> Some x | None \<Rightarrow> size_after s)"

definition hf_params :: "facts \<Rightarrow> rat option" where
  "hf_params f = (case size_in (hf_model f) of None \<Rightarrow> None
     | Some x \<Rightarrow> (case str_number x of Fin n \<Rightarrow> if 1 / 10 \<le> n \<and> n \<le> 10000 then Some n else None | _ \<Rightarrow> None))"

definition params_label :: "facts \<Rightarrow> string" where
  "params_label f = (case hf_params f of None \<Rightarrow> [] | Some n \<Rightarrow> rat_str n @ ''B'')"

definition in_bucket :: "rat \<Rightarrow> string \<times> rat \<times> rat option \<Rightarrow> bool" where
  "in_bucket n b = (case b of (i, lo, below) \<Rightarrow> lo \<le> n \<and> (case below of None \<Rightarrow> True | Some x \<Rightarrow> n < x))"

definition hf_bucket :: "facts \<Rightarrow> string option" where
  "hf_bucket f = (case hf_params f of None \<Rightarrow> None | Some n \<Rightarrow> map_option fst (find (in_bucket n) size_buckets))"

subsection \<open>What it can do\<close>

definition hf_kinds :: "facts \<Rightarrow> js list option" where
  "hf_kinds f = map_option (map (\<lambda>x. jget x ''kind'')) (hf_files f)"

definition has_kind :: "facts \<Rightarrow> string \<Rightarrow> bool" where
  "has_kind f k = (case hf_kinds f of None \<Rightarrow> False | Some ks \<Rightarrow> JStr k \<in> set ks)"

definition tag_words :: "facts \<Rightarrow> string list" where
  "tag_words f = map (\<lambda>v. if js_nullish v then [] else js_string v) (list_or (jget (hf_record f) ''tags''))"

definition hf_modality :: "facts \<Rightarrow> string" where
  "hf_modality f = js_lower (js_join '' '' (js_text (jget (hf_record f) ''pipelineTag'') # tag_words f))"

text \<open>\<open>\b\<close>: a word's edge is where a letter, digit or low line meets anything else.\<close>

definition word_char :: "char \<Rightarrow> bool" where
  "word_char c = (let n = (of_char (lower_char c) :: nat) in (97 \<le> n \<and> n \<le> 122) \<or> is_digit c \<or> c = CHR ''_'')"

fun word_after :: "bool \<Rightarrow> string \<Rightarrow> string \<Rightarrow> bool" where
  "word_after edge w [] = (edge \<and> w = [])"
| "word_after edge w (c # s) =
     ((edge \<and> prefix w (c # s) \<and> (case drop (length w) (c # s) of [] \<Rightarrow> True | x # xs \<Rightarrow> \<not> word_char x))
      \<or> word_after (\<not> word_char c) w s)"

definition has_word :: "string \<Rightarrow> string \<Rightarrow> bool" where
  "has_word s w = word_after True w s"

text \<open>\<open>/[-_]it[-_/]|[-_]it-gguf|[-_]it$/i\<close>.\<close>

definition it_here :: "string \<Rightarrow> bool" where
  "it_here s = (case s of c # r \<Rightarrow> is_sep c \<and> prefix ''it'' r \<and>
       (case drop 2 r of [] \<Rightarrow> True | x # xs \<Rightarrow> is_sep x \<or> x = CHR ''/'') | [] \<Rightarrow> False)"

definition names_it :: "string \<Rightarrow> bool" where
  "names_it s = list_ex it_here (suffixes (js_lower s))"

definition names_uncensored :: "string \<Rightarrow> bool" where
  "names_uncensored s = list_ex (str_includes (js_lower s))
     [''uncensored'', ''heretic'', ''abliterat'', ''unfiltered'', ''unrestricted'']"

definition hf_has :: "facts \<Rightarrow> string \<Rightarrow> bool" where
  "hf_has f cap =
     (if cap = ''it'' then names_it (hf_id f)
      else if cap = ''uncensored'' then names_uncensored (hf_id f)
      else if cap = ''vision'' then has_kind f ''mmproj'' \<or>
        (let m = hf_modality f in str_includes m ''image-text-to-text'' \<or> str_includes m ''any-to-any'' \<or>
           has_word m ''vision'' \<or> has_word m ''vlm'' \<or> str_includes m ''multimodal'')
      else if cap = ''audio'' then
        (let m = hf_modality f in str_includes m ''audio-text-to-text'' \<or> str_includes m ''any-to-any'' \<or>
           str_includes m ''automatic-speech-recognition'' \<or> has_word m ''audio'')
      else if cap = ''mmproj'' \<or> cap = ''mtp'' then has_kind f cap
      else False)"

definition hf_knows :: "facts \<Rightarrow> string \<Rightarrow> bool" where
  "hf_knows f cap = (hf_files f \<noteq> None \<or> cap \<notin> {''mmproj'', ''mtp'', ''vision''})"

definition hf_capabilities :: "facts \<Rightarrow> string list" where
  "hf_capabilities f = filter (hf_has f) capability_ids"

subsection \<open>Format, date, copies\<close>

definition upper_char :: "char \<Rightarrow> char" where
  "upper_char c = (let n = (of_char c :: nat) in if 97 \<le> n \<and> n \<le> 122 then char_of (n - 32) else c)"

definition js_upper :: "string \<Rightarrow> string" where
  "js_upper s = map upper_char s"

definition format_hints :: "string list" where
  "format_hints = [''NVFP4'', ''MXFP4'', ''AWQ'', ''GPTQ'', ''AUTOROUND'', ''FP8'', ''W4A16'', ''BNB'']"

definition hf_format :: "facts \<Rightarrow> js" where
  "hf_format f =
     (let tags = map (\<lambda>x. js_lower (js_string x)) (list_or (jget (hf_record f) ''tags''));
          st = jget (hf_meta f) ''safetensors''; up = js_upper (hf_id f)
      in if ''gguf'' \<in> set tags then JStr ''GGUF''
         else if js_truthy st \<and> js_truthy (jget st ''format'') then jget st ''format''
         else if ''mlx'' \<in> set tags then JStr ''MLX''
         else if suffix ''-GGUF'' up \<or> str_includes up ''-GGUF-'' then JStr ''GGUF''
         else (case find (\<lambda>h. str_includes up h \<or> js_lower h \<in> set tags) format_hints of
                 Some h \<Rightarrow> JStr h
               | None \<Rightarrow> if ''safetensors'' \<in> set tags then JStr ''ST'' else JStr []))"

definition hf_date :: "facts \<Rightarrow> js" where
  "hf_date f = js_or (js_or (jget (hf_record f) ''createdAt'') (jget (hf_meta f) ''lastModified'')) (JStr [])"

definition local_count :: "facts \<Rightarrow> nat" where
  "local_count f = (case hf_local_names f of None \<Rightarrow> 0 | Some ns \<Rightarrow> length ns)"

definition hf_verifiable :: "facts \<Rightarrow> bool" where
  "hf_verifiable f = (local_count f > 0 \<or> hf_checkpoints f \<noteq> [])"

definition library_count :: "facts \<Rightarrow> nat" where
  "library_count f = length (js_keys (js_or (hf_library_files f) (JObj [])))"

definition library_names :: "facts \<Rightarrow> js list" where
  "library_names f =
     (let copies = concat (map (\<lambda>k. js_list (jget (hf_library_files f) k)) (js_keys (hf_library_files f)))
      in js_uniq (filter js_truthy (map (\<lambda>c. jget (jget c ''store'') ''name'') copies)))"

section \<open>The catalog\<close>

record catalog =
  ct_repos :: "(string \<times> facts) list"
  ct_results :: "string list"
  ct_favorites :: "string list"
  ct_searched :: bool
  ct_tab :: string
  ct_size :: string
  ct_caps :: "string list"
  ct_text :: string
  ct_sort_key :: string
  ct_sort_dir :: string

definition new_catalog :: catalog where
  "new_catalog = \<lparr>ct_repos = [], ct_results = [], ct_favorites = [], ct_searched = False, ct_tab = ''results'',
     ct_size = ''all'', ct_caps = [], ct_text = [], ct_sort_key = ''downloads'', ct_sort_dir = ''desc''\<rparr>"

definition ct_repo :: "catalog \<Rightarrow> string \<Rightarrow> facts" where
  "ct_repo c i = (case map_of (ct_repos c) i of Some f \<Rightarrow> f | None \<Rightarrow> new_facts i)"

definition ct_put :: "facts \<Rightarrow> catalog \<Rightarrow> catalog" where
  "ct_put f c = c\<lparr>ct_repos := (hf_id f, f) # filter (\<lambda>(i, g). i \<noteq> hf_id f) (ct_repos c)\<rparr>"

text \<open>The records that name a repository, each merged into its facts.\<close>

definition named_records :: "js \<Rightarrow> js list" where
  "named_records rs = filter (\<lambda>r. js_truthy r \<and> js_truthy (jget r ''id'')) (list_or rs)"

definition record_id :: "js \<Rightarrow> string" where
  "record_id r = js_string (jget r ''id'')"

definition ct_merge :: "js list \<Rightarrow> catalog \<Rightarrow> catalog" where
  "ct_merge rs c = foldl (\<lambda>c r. ct_put (hf_merge r (ct_repo c (record_id r))) c) c rs"

definition set_results :: "js \<Rightarrow> catalog \<Rightarrow> catalog" where
  "set_results rs c =
     (ct_merge (named_records rs) c)\<lparr>ct_searched := True, ct_results := map record_id (named_records rs)\<rparr>"

definition set_favorites :: "js \<Rightarrow> catalog \<Rightarrow> catalog" where
  "set_favorites rs c = (ct_merge (named_records rs) c)\<lparr>ct_favorites := map record_id (named_records rs)\<rparr>"

definition is_favorite :: "catalog \<Rightarrow> string \<Rightarrow> bool" where
  "is_favorite c i = (i \<in> set (ct_favorites c))"

definition payload_number :: "js \<Rightarrow> string \<Rightarrow> (string \<times> jnum + string \<times> js) list" where
  "payload_number r k = (if js_nullish (jget r k) then [] else [Inl (k, num_or0 (js_number (jget r k)))])"

definition payload_value :: "js \<Rightarrow> string \<Rightarrow> (string \<times> jnum + string \<times> js) list" where
  "payload_value r k = (if jget r k = JUndef then [] else [Inr (k, jget r k)])"

text \<open>What the server stores of a favorite: its id and only what is known.\<close>

definition favorites_payload :: "catalog \<Rightarrow> (string \<times> (string \<times> jnum + string \<times> js) list) list" where
  "favorites_payload c = map (\<lambda>i. let r = hf_record (ct_repo c i) in
     (i, concat (map (payload_number r) [''downloads'', ''likes''])
         @ concat (map (payload_value r) [''createdAt'', ''pipelineTag'', ''tags'']))) (ct_favorites c)"

definition toggle_favorite ::
  "string \<Rightarrow> catalog \<Rightarrow> catalog \<times> (string \<times> (string \<times> jnum + string \<times> js) list) list" where
  "toggle_favorite i c =
     (let c' = c\<lparr>ct_favorites := (if is_favorite c i then filter (\<lambda>x. x \<noteq> i) (ct_favorites c)
                                  else i # ct_favorites c)\<rparr>
      in (c', favorites_payload c'))"

definition ct_ids :: "catalog \<Rightarrow> string \<Rightarrow> string list" where
  "ct_ids c tab = (if tab = ''favorites'' then ct_favorites c else ct_results c)"

definition all_ids :: "catalog \<Rightarrow> string list" where
  "all_ids c = js_uniq (ct_favorites c @ ct_results c)"

definition passes_text :: "catalog \<Rightarrow> facts \<Rightarrow> bool" where
  "passes_text c f = (ct_text c = [] \<or> str_includes (js_lower (hf_id f)) (js_lower (ct_text c)))"

datatype verdict = Yes | No | Unknown

definition caps_verdict :: "catalog \<Rightarrow> facts \<Rightarrow> verdict" where
  "caps_verdict c f =
     (if ct_caps c = [] then Yes
      else if list_ex (hf_has f) (ct_caps c) then Yes
      else if list_all (hf_knows f) (ct_caps c) then No else Unknown)"

text \<open>The values a tab is ordered by, and \<open><\<close> on them. Two values of one order are of one kind.\<close>

datatype sort_val = Number jnum | Word string

fun jnum_lt :: "jnum \<Rightarrow> jnum \<Rightarrow> bool" where
  "jnum_lt (Fin a) (Fin b) = (a < b)"
| "jnum_lt (Fin a) (Inf neg) = (\<not> neg)"
| "jnum_lt (Inf neg) (Fin b) = neg"
| "jnum_lt (Inf n) (Inf m) = (n \<and> \<not> m)"
| "jnum_lt _ _ = False"

fun val_lt :: "sort_val \<Rightarrow> sort_val \<Rightarrow> bool" where
  "val_lt (Number a) (Number b) = jnum_lt a b"
| "val_lt (Word a) (Word b) = (a < b)"
| "val_lt _ _ = False"

definition score_or :: "rat option \<Rightarrow> sort_val" where
  "score_or s = Number (Fin (case s of Some x \<Rightarrow> x | None \<Rightarrow> -1))"

definition sort_value :: "(string \<Rightarrow> string \<Rightarrow> rat option) \<Rightarrow> catalog \<Rightarrow> facts \<Rightarrow> sort_val" where
  "sort_value score c f =
     (let k = ct_sort_key c in
      if k = ''likes'' then Number (hf_likes f)
      else if k = ''params'' then score_or (hf_params f)
      else if k = ''date'' then Word (js_string (hf_date f))
      else if k = ''aa'' then score_or (score (hf_id f) ''aa_intelligence'')
      else if k = ''olb'' then score_or (score (hf_id f) ''open_llm_avg'')
      else Number (hf_downloads f))"

definition view_cmp :: "(string \<Rightarrow> string \<Rightarrow> rat option) \<Rightarrow> catalog \<Rightarrow> facts \<times> nat \<Rightarrow> facts \<times> nat \<Rightarrow> int" where
  "view_cmp score c a b =
     (let dir = (if ct_sort_dir c = ''asc'' then 1 else -1);
          va = sort_value score c (fst a); vb = sort_value score c (fst b)
      in if val_lt va vb then - dir else if val_lt vb va then dir else int (snd a) - int (snd b))"

definition sorted_items :: "(string \<Rightarrow> string \<Rightarrow> rat option) \<Rightarrow> catalog \<Rightarrow> facts list \<Rightarrow> facts list" where
  "sorted_items score c items = map fst (js_sort (view_cmp score c) (zip items [0..<length items]))"

text \<open>One pass over a tab: what is shown, how many a size filter could not place, how many a
  capability filter could not check.\<close>

fun view_go :: "catalog \<Rightarrow> facts list \<Rightarrow> facts list \<times> nat \<times> nat" where
  "view_go c [] = ([], 0, 0)"
| "view_go c (f # fs) =
     (case view_go c fs of (items, no_size, unchecked) \<Rightarrow>
        if \<not> passes_text c f then (items, no_size, unchecked)
        else if ct_size c \<noteq> ''all'' \<and> hf_bucket f = None then (items, Suc no_size, unchecked)
        else if ct_size c \<noteq> ''all'' \<and> hf_bucket f \<noteq> Some (ct_size c) then (items, no_size, unchecked)
        else case caps_verdict c f of
            Unknown \<Rightarrow> (items, no_size, Suc unchecked)
          | No \<Rightarrow> (items, no_size, unchecked)
          | Yes \<Rightarrow> (f # items, no_size, unchecked))"

record tab_view =
  tv_items :: "facts list"
  tv_total :: nat
  tv_no_size :: nat
  tv_unchecked :: nat

definition ct_view :: "(string \<Rightarrow> string \<Rightarrow> rat option) \<Rightarrow> catalog \<Rightarrow> string \<Rightarrow> tab_view" where
  "ct_view score c tab =
     (case view_go c (map (ct_repo c) (ct_ids c tab)) of (items, no_size, unchecked) \<Rightarrow>
        \<lparr>tv_items = sorted_items score c items, tv_total = length (ct_ids c tab), tv_no_size = no_size,
         tv_unchecked = unchecked\<rparr>)"

text \<open>How many each size chip would show, and how many repositories have a capability.\<close>

definition count_up :: "string \<Rightarrow> (string \<Rightarrow> nat) \<Rightarrow> string \<Rightarrow> nat" where
  "count_up k n = n(k := Suc (n k))"

definition size_step :: "catalog \<Rightarrow> (string \<Rightarrow> nat) \<Rightarrow> facts \<Rightarrow> string \<Rightarrow> nat" where
  "size_step c n f =
     (if \<not> passes_text c f \<or> caps_verdict c f \<noteq> Yes then n
      else (let n = count_up ''all'' n in case hf_bucket f of None \<Rightarrow> n | Some b \<Rightarrow> count_up b n))"

definition size_counts :: "catalog \<Rightarrow> string \<Rightarrow> string \<Rightarrow> nat" where
  "size_counts c tab = foldl (size_step c) (\<lambda>b. 0) (map (ct_repo c) (ct_ids c tab))"

definition cap_count :: "catalog \<Rightarrow> string \<Rightarrow> string \<Rightarrow> nat" where
  "cap_count c tab cap = length (filter (\<lambda>f. passes_text c f \<and> (ct_size c = ''all'' \<or> hf_bucket f = Some (ct_size c))
     \<and> hf_has f cap) (map (ct_repo c) (ct_ids c tab)))"

definition cap_counts :: "catalog \<Rightarrow> string \<Rightarrow> (string \<times> nat) list" where
  "cap_counts c tab = filter (\<lambda>(cap, n). n > 0 \<or> cap \<in> set (ct_caps c))
     (map (\<lambda>cap. (cap, cap_count c tab cap)) capability_ids)"

section \<open>Buckets\<close>

text \<open>Every size falls into one bucket, the one it lies in.\<close>

lemma bucket_of_size:
  assumes "0 \<le> n"
  shows "\<exists>b \<in> set size_buckets. in_bucket n b \<and> find (in_bucket n) size_buckets = Some b \<and>
     (\<forall>b' \<in> set size_buckets. in_bucket n b' \<longrightarrow> b' = b)"
  using assms by (simp add: size_buckets_def in_bucket_def)

lemma params_bounds: "hf_params f = Some n \<Longrightarrow> 1 / 10 \<le> n \<and> n \<le> 10000"
  by (auto simp: hf_params_def split: option.splits jnum.splits if_splits)

lemma bucket_known: "hf_bucket f = None \<longleftrightarrow> hf_params f = None"
proof (cases "hf_params f")
  case None
  then show ?thesis by (simp add: hf_bucket_def)
next
  case (Some n)
  then have "0 \<le> n" using params_bounds [OF Some] by linarith
  then show ?thesis using bucket_of_size [of n] Some by (auto simp: hf_bucket_def)
qed

lemma bucket_not_all: "hf_bucket f \<noteq> Some ''all''"
proof
  assume "hf_bucket f = Some ''all''"
  then obtain n b where "find (in_bucket n) size_buckets = Some b" "fst b = ''all''"
    by (auto simp: hf_bucket_def split: option.splits)
  then have "b \<in> set size_buckets" "fst b = ''all''" using find_SomeD by fastforce+
  then show False by (auto simp: size_buckets_def)
qed

section \<open>The view\<close>

definition matches :: "catalog \<Rightarrow> facts \<Rightarrow> bool" where
  "matches c f = (passes_text c f \<and> (ct_size c = ''all'' \<or> hf_bucket f = Some (ct_size c)) \<and> caps_verdict c f = Yes)"

lemma view_go_eq:
  "view_go c fs =
     (filter (matches c) fs,
      length (filter (\<lambda>f. passes_text c f \<and> ct_size c \<noteq> ''all'' \<and> hf_bucket f = None) fs),
      length (filter (\<lambda>f. passes_text c f \<and> (ct_size c = ''all'' \<or> hf_bucket f = Some (ct_size c)) \<and>
        caps_verdict c f = Unknown) fs))"
  by (induction fs) (auto simp: matches_def split: verdict.split)

text \<open>The order of a tab is that of a key of a linear order.\<close>

fun num_key :: "jnum \<Rightarrow> nat \<times> rat" where
  "num_key NaN = (0, 0)"
| "num_key (Inf neg) = (if neg then (1, 0) else (3, 0))"
| "num_key (Fin r) = (2, r)"

fun val_key :: "sort_val \<Rightarrow> nat \<times> (nat \<times> rat) \<times> string" where
  "val_key (Number n) = (0, num_key n, [])"
| "val_key (Word w) = (1, (0, 0), w)"

definition of_key :: "string \<Rightarrow> sort_val \<Rightarrow> bool" where
  "of_key k v = (if k = ''date'' then \<exists>w. v = Word w else \<exists>n. v = Number n \<and> n \<noteq> NaN)"

lemma num_or0_not_NaN: "num_or0 n \<noteq> NaN"
  by (cases n) (simp_all add: num_or0_def)

lemma sort_value_kind: "of_key (ct_sort_key c) (sort_value score c f)"
  by (simp add: of_key_def sort_value_def score_or_def hf_likes_def hf_downloads_def num_or0_not_NaN Let_def)

lemma jnum_lt_key: "a \<noteq> NaN \<Longrightarrow> b \<noteq> NaN \<Longrightarrow> jnum_lt a b \<longleftrightarrow> num_key a < num_key b"
  by (cases a; cases b) (auto simp: less_prod_simp)

lemma val_lt_key: "of_key k a \<Longrightarrow> of_key k b \<Longrightarrow> val_lt a b \<longleftrightarrow> val_key a < val_key b"
  by (auto simp: of_key_def jnum_lt_key less_prod_simp split: if_splits)

lemma num_key_inj: "num_key a = num_key b \<longleftrightarrow> a = b"
  by (cases a; cases b) auto

lemma val_key_inj: "val_key a = val_key b \<longleftrightarrow> a = b"
  by (cases a; cases b) (auto simp: num_key_inj)

definition view_le :: "(string \<Rightarrow> string \<Rightarrow> rat option) \<Rightarrow> catalog \<Rightarrow> facts \<times> nat \<Rightarrow> facts \<times> nat \<Rightarrow> bool" where
  "view_le score c a b =
     (let ka = val_key (sort_value score c (fst a)); kb = val_key (sort_value score c (fst b))
      in (if ct_sort_dir c = ''asc'' then ka < kb else kb < ka) \<or> (ka = kb \<and> snd a \<le> snd b))"

lemma view_le_cmp: "view_le score c a b \<longleftrightarrow> view_cmp score c a b \<le> 0"
  using val_lt_key [OF sort_value_kind sort_value_kind, of score c "fst a" score "fst b"]
    val_lt_key [OF sort_value_kind sort_value_kind, of score c "fst b" score "fst a"]
  by (auto simp: view_le_def view_cmp_def Let_def)

lemma view_sorted: "sorted_wrt (view_le score c) (js_sort (view_cmp score c) ps)"
  by (rule js_sort_sorted) (rule view_le_cmp, auto simp: view_le_def Let_def split: if_splits)

lemma sorted_wrt_filter_imp: "sorted_wrt P xs \<Longrightarrow> sorted_wrt P (filter Q xs)"
  by (induction xs) auto

lemma mset_sorted_items: "mset (sorted_items score c items) = mset items"
proof -
  have "mset (map fst (js_sort (view_cmp score c) (zip items [0..<length items]))) =
      mset (map fst (zip items [0..<length items]))"
    by (simp only: mset_map mset_js_sort)
  then show ?thesis by (simp add: sorted_items_def)
qed

lemma sorted_items_order:
  "sorted_wrt (\<lambda>a b. \<not> (if ct_sort_dir c = ''asc'' then val_lt (sort_value score c b) (sort_value score c a)
      else val_lt (sort_value score c a) (sort_value score c b))) (sorted_items score c items)"
  unfolding sorted_items_def sorted_wrt_map
  by (rule sorted_wrt_mono_rel [OF _ view_sorted [where score = score and c = c]])
    (auto simp: view_le_def Let_def val_lt_key [OF sort_value_kind sort_value_kind] split: if_splits)

text \<open>Repositories of one value stand in the order they came in.\<close>

lemma sorted_items_stable:
  "filter (\<lambda>f. sort_value score c f = v) (sorted_items score c items) = filter (\<lambda>f. sort_value score c f = v) items"
proof -
  let ?P = "\<lambda>p :: facts \<times> nat. sort_value score c (fst p) = v"
  let ?zs = "zip items [0..<length items]" let ?ss = "js_sort (view_cmp score c) ?zs"
  have dz: "distinct (map snd ?zs)" by simp
  have inj: "inj_on snd (set ?zs)" using dz by (simp only: distinct_map)
  have ms: "mset (map snd ?ss) = mset (map snd ?zs)" by (simp only: mset_map mset_js_sort)
  have ds: "distinct (map snd ?ss)" using ms dz mset_eq_imp_distinct_iff by blast
  have sub: "distinct (map snd (filter P qs))" if "distinct (map snd qs)" for P and qs :: "(facts \<times> nat) list"
    using that by (simp add: distinct_map_filter)
  have eq: "filter ?P ?ss = filter ?P ?zs"
  proof (rule map_sorted_distinct_set_unique [where f = snd])
    show "inj_on snd (set (filter ?P ?ss) \<union> set (filter ?P ?zs))"
      by (rule inj_on_subset [OF inj]) auto
    have w: "sorted_wrt (view_le score c) (filter ?P ?ss)"
      by (rule sorted_wrt_filter_imp [OF view_sorted])
    have "sorted_wrt (\<lambda>a b. snd a \<le> snd b) (filter ?P ?ss)"
    proof (rule sorted_wrt_mono_rel [OF _ w])
      fix a b assume "a \<in> set (filter ?P ?ss)" "b \<in> set (filter ?P ?ss)" and le: "view_le score c a b"
      then have "sort_value score c (fst a) = v" "sort_value score c (fst b) = v" by (simp_all only: set_filter mem_Collect_eq)
      with le show "snd a \<le> snd b" by (simp add: view_le_def)
    qed
    then show "sorted (map snd (filter ?P ?ss))" by (simp add: sorted_map)
    have "sorted (map snd ?zs)" by simp
    then have "sorted_wrt (\<lambda>a b. snd a \<le> snd b) ?zs" unfolding sorted_map .
    from sorted_wrt_filter_imp [OF this] show "sorted (map snd (filter ?P ?zs))" unfolding sorted_map .
    show "distinct (map snd (filter ?P ?ss))" "distinct (map snd (filter ?P ?zs))" using sub ds dz by blast+
    show "set (filter ?P ?ss) = set (filter ?P ?zs)" by simp
  qed
  have fm: "filter (\<lambda>f. sort_value score c f = v) (map fst ps) = map fst (filter (\<lambda>p. sort_value score c (fst p) = v) ps)"
    for ps :: "(facts \<times> nat) list"
    by (simp add: filter_map comp_def)
  have "filter (\<lambda>f. sort_value score c f = v) (map fst ?ss) = filter (\<lambda>f. sort_value score c f = v) (map fst ?zs)"
    unfolding fm eq ..
  then show ?thesis by (simp add: sorted_items_def)
qed

text \<open>A tab shows exactly its repositories that pass every filter, each as often as it stands there,
  in the chosen order and, where the order says nothing, in the order the server gave; what a filter
  could not place or check is not shown but counted.\<close>

theorem hf_view_shows_what_matches:
  assumes "v = ct_view score c tab" and "fs = map (ct_repo c) (ct_ids c tab)"
  shows "mset (tv_items v) = mset (filter (matches c) fs) \<and>
    sorted_wrt (\<lambda>a b. \<not> (if ct_sort_dir c = ''asc'' then val_lt (sort_value score c b) (sort_value score c a)
      else val_lt (sort_value score c a) (sort_value score c b))) (tv_items v) \<and>
    filter (\<lambda>f. sort_value score c f = x) (tv_items v) =
      filter (\<lambda>f. sort_value score c f = x) (filter (matches c) fs) \<and>
    tv_total v = length fs \<and>
    tv_no_size v = length (filter (\<lambda>f. passes_text c f \<and> ct_size c \<noteq> ''all'' \<and> hf_params f = None) fs) \<and>
    tv_unchecked v = length (filter (\<lambda>f. passes_text c f \<and> (ct_size c = ''all'' \<or> hf_bucket f = Some (ct_size c)) \<and>
        caps_verdict c f = Unknown) fs)"
  using assms mset_sorted_items [where score = score and c = c] sorted_items_order [where score = score and c = c]
    sorted_items_stable [where score = score and c = c]
  by (simp add: ct_view_def view_go_eq bucket_known)

lemma hf_view_shows_what_matches_witness:
  "map hf_id (tv_items (ct_view (\<lambda>i k. None)
     (set_results (JArr [JObj [(''id'', JStr ''a/x-7B'')], JObj [(''id'', JStr ''a/y''), (''likes'', JNum 5)],
        JObj [(''id'', JStr ''b/z-3B''), (''likes'', JNum 2)]])
      (new_catalog\<lparr>ct_size := ''0-9'', ct_sort_key := ''likes''\<rparr>)) ''results'')) = [''b/z-3B'', ''a/x-7B''] \<and>
   tv_no_size (ct_view (\<lambda>i k. None)
     (set_results (JArr [JObj [(''id'', JStr ''a/x-7B'')], JObj [(''id'', JStr ''a/y''), (''likes'', JNum 5)],
        JObj [(''id'', JStr ''b/z-3B''), (''likes'', JNum 2)]])
      (new_catalog\<lparr>ct_size := ''0-9'', ct_sort_key := ''likes''\<rparr>)) ''results'') = 1"
  (is "?order \<and> tv_no_size (ct_view ?s ?c ?t) = 1")
proof
  show ?order by code_simp
  have "length (filter (\<lambda>f. passes_text ?c f \<and> ct_size ?c \<noteq> ''all'' \<and> hf_params f = None)
      (map (ct_repo ?c) (ct_ids ?c ?t))) = 1"
    by code_simp
  then show "tv_no_size (ct_view ?s ?c ?t) = 1"
    using hf_view_shows_what_matches [OF refl refl, of ?s ?c ?t] by simp
qed

section \<open>The chips say what they would show\<close>

lemma size_counts_fold:
  "foldl (size_step c) n fs b = n b + length (filter (\<lambda>f. passes_text c f \<and> caps_verdict c f = Yes \<and>
     (b = ''all'' \<or> hf_bucket f = Some b)) fs)"
proof (induction fs arbitrary: n)
  case Nil
  then show ?case by simp
next
  case (Cons f fs)
  then show ?case using bucket_not_all [of f]
    by (auto simp: size_step_def count_up_def Let_def split: option.splits)
qed

lemma matches_size: "matches (c\<lparr>ct_size := b\<rparr>) f \<longleftrightarrow>
    passes_text c f \<and> caps_verdict c f = Yes \<and> (b = ''all'' \<or> hf_bucket f = Some b)"
  by (auto simp: matches_def passes_text_def caps_verdict_def)

text \<open>The number on every size chip is how many repositories the tab would show if that chip were
  pressed: the counts, made in one pass over the tab, agree with the view under each size.\<close>

theorem hf_size_chips_count_the_view:
  "size_counts c tab b = length (tv_items (ct_view score (c\<lparr>ct_size := b\<rparr>) tab))"
proof -
  let ?c = "c\<lparr>ct_size := b\<rparr>"
  have fs: "map (ct_repo ?c) (ct_ids ?c tab) = map (ct_repo c) (ct_ids c tab)"
    by (simp add: ct_ids_def ct_repo_def)
  have "length (tv_items (ct_view score ?c tab)) = length (filter (matches ?c) (map (ct_repo c) (ct_ids c tab)))"
    using mset_sorted_items [where score = score and c = ?c and items = "filter (matches ?c) (map (ct_repo c) (ct_ids c tab))"]
    unfolding ct_view_def view_go_eq fs by (simp flip: size_mset)
  moreover have "matches ?c = (\<lambda>f. passes_text c f \<and> caps_verdict c f = Yes \<and> (b = ''all'' \<or> hf_bucket f = Some b))"
    by (rule ext) (rule matches_size)
  ultimately show ?thesis unfolding size_counts_def size_counts_fold by simp
qed

section \<open>Favorites\<close>

lemma toggle_flips: "is_favorite (fst (toggle_favorite i c)) j \<longleftrightarrow> (if j = i then \<not> is_favorite c i else is_favorite c j)"
  by (auto simp: toggle_favorite_def is_favorite_def Let_def)

lemma toggle_distinct: "distinct (ct_favorites c) \<Longrightarrow> distinct (ct_favorites (fst (toggle_favorite i c)))"
  by (auto simp: toggle_favorite_def is_favorite_def Let_def)

lemma toggle_new_twice:
  "\<not> is_favorite c i \<Longrightarrow> fst (toggle_favorite i (fst (toggle_favorite i c))) = c"
  by (simp add: toggle_favorite_def is_favorite_def Let_def)

end
