(* ===== verification/HfBench.thy ===== *)
theory HfBench
  imports HfCatalog Utils
begin

text \<open>
  Benchmarks of repositories and the frontier models they are read against (\<open>hf-bench.js\<close>): what has
  been loaded and what is on its way, the queue that loads everything not loaded yet, the scale, the
  neighbours and the ticks of a score, and the lines they are drawn in. An answer of the controller
  is given; a request is an entry of a list until its answer comes. A running queue is what is left of its loop.
\<close>

section \<open>Loading\<close>

text \<open>Where a queue's loop stands: waiting for one repository, or in the pause after it.\<close>

datatype queue_at = Loading string "string list" | Pausing "string list"

record bench =
  hb_cache :: "(string \<times> js) list"
  hb_pending :: "string list"
  hb_frontier :: js
  hb_token :: nat
  hb_done :: nat
  hb_total :: nat
  hb_queues :: "(nat \<times> queue_at) list"

definition new_bench :: bench where
  "new_bench = \<lparr>hb_cache = [], hb_pending = [], hb_frontier = JNull, hb_token = 0, hb_done = 0, hb_total = 0,
     hb_queues = []\<rparr>"

text \<open>\<open>data\<close>: \<open>undefined\<close> while nothing has come, \<open>null\<close> when the server has nothing.\<close>

definition hb_data :: "bench \<Rightarrow> string \<Rightarrow> js" where
  "hb_data b i = (case map_of (hb_cache b) i of Some v \<Rightarrow> v | None \<Rightarrow> JUndef)"

definition hb_cached :: "bench \<Rightarrow> string \<Rightarrow> bool" where
  "hb_cached b i = (map_of (hb_cache b) i \<noteq> None)"

definition hb_scores :: "bench \<Rightarrow> string \<Rightarrow> js" where
  "hb_scores b i = js_or (jget (hb_data b i) ''scores'') (JObj [])"

fun number_only :: "js \<Rightarrow> rat option" where
  "number_only (JNum r) = Some r"
| "number_only v = None"

definition hb_aa :: "bench \<Rightarrow> string \<Rightarrow> rat option" where
  "hb_aa b i = number_only (jget (hb_scores b i) ''aa_intelligence'')"

text \<open>\<open>load\<close>: the state and the requests sent.\<close>

definition hb_load :: "string \<Rightarrow> bool \<Rightarrow> bench \<Rightarrow> bench \<times> (string \<times> bool) list" where
  "hb_load i force b =
     (if \<not> force \<and> hb_cached b i then (b, [])
      else if \<not> force \<and> i \<in> set (hb_pending b) then (b, [])
      else (b\<lparr>hb_pending := set_add i (hb_pending b)\<rparr>, [(i, force)]))"

text \<open>Its answer (\<open>None\<close>: it failed).\<close>

definition hb_loaded :: "string \<Rightarrow> js option \<Rightarrow> bench \<Rightarrow> bench" where
  "hb_loaded i ans b =
     (let v = (case ans of Some d \<Rightarrow> if js_truthy d \<and> js_truthy (jget d ''ok'') then d else JNull | None \<Rightarrow> JNull)
      in b\<lparr>hb_cache := (i, v) # hb_cache b, hb_pending := set_del i (hb_pending b)\<rparr>)"

section \<open>The queue\<close>

definition queue_start :: "string list \<Rightarrow> bench \<Rightarrow> bench" where
  "queue_start ids b =
     (let todo = filter (\<lambda>i. \<not> hb_cached b i) ids; token = Suc (hb_token b);
          b1 = b\<lparr>hb_token := token, hb_total := length todo, hb_done := 0\<rparr>
      in case todo of [] \<Rightarrow> b1
         | i # is \<Rightarrow> fst (hb_load i False (b1\<lparr>hb_queues := (token, Loading i is) # hb_queues b\<rparr>)))"

text \<open>A queue goes on: its repository has come, or its pause is over and the next one is loaded. A newer
  queue ends it.\<close>

definition queue_step :: "nat \<Rightarrow> bench \<Rightarrow> bench" where
  "queue_step k b =
     (if k < length (hb_queues b) then
        (let gone = b\<lparr>hb_queues := take k (hb_queues b) @ drop (Suc k) (hb_queues b)\<rparr> in
         case hb_queues b ! k of
           (token, Loading i is) \<Rightarrow>
             if \<not> hb_cached b i then b
             else if token \<noteq> hb_token b then gone
             else b\<lparr>hb_done := Suc (hb_done b), hb_queues := (hb_queues b)[k := (token, Pausing is)]\<rparr>
         | (token, Pausing is) \<Rightarrow>
             (case is of [] \<Rightarrow> gone
              | i # is' \<Rightarrow> if token \<noteq> hb_token b then gone
                           else fst (hb_load i False (b\<lparr>hb_queues := (hb_queues b)[k := (token, Loading i is')]\<rparr>))))
      else b)"

definition hb_running :: "bench \<Rightarrow> bool" where
  "hb_running b = (hb_total b > 0 \<and> hb_done b < hb_total b)"

section \<open>The frontier\<close>

definition model_aa :: "js \<Rightarrow> rat" where
  "model_aa m = (case jget m ''aa'' of JNum r \<Rightarrow> r | _ \<Rightarrow> 0)"

definition aa_cmp :: "js \<Rightarrow> js \<Rightarrow> int" where
  "aa_cmp a b = (if model_aa b < model_aa a then -1 else if model_aa b = model_aa a then 0 else 1)"

definition frontier_loaded :: "js option \<Rightarrow> bench \<Rightarrow> bench" where
  "frontier_loaded ans b =
     (case ans of None \<Rightarrow> b
      | Some d \<Rightarrow> if js_truthy d \<and> js_truthy (jget d ''ok'')
          then b\<lparr>hb_frontier := JObj [(''source'', JStr (js_text (jget d ''source''))),
                 (''models'', JArr (js_sort aa_cmp (filter (\<lambda>m. number_only (jget m ''aa'') \<noteq> None) (list_or (jget d ''models'')))))]\<rparr>
          else b)"

definition frontier_models :: "bench \<Rightarrow> js list" where
  "frontier_models b = js_list (js_or (jget (hb_frontier b) ''models'') (JArr []))"

definition hb_scale :: "bench \<Rightarrow> rat \<Rightarrow> rat" where
  "hb_scale b v = max 65 (max (foldl (\<lambda>m x. max m (model_aa x)) 0 (frontier_models b)) v)"

text \<open>\<open>reduce((a, b) => (b.aa > a.aa ? b : a))\<close> and its mirror.\<close>

definition highest :: "js list \<Rightarrow> js option" where
  "highest ms = (case ms of [] \<Rightarrow> None | m # ms \<Rightarrow> Some (foldl (\<lambda>a b. if model_aa b > model_aa a then b else a) m ms))"

definition lowest :: "js list \<Rightarrow> js option" where
  "lowest ms = (case ms of [] \<Rightarrow> None | m # ms \<Rightarrow> Some (foldl (\<lambda>a b. if model_aa b < model_aa a then b else a) m ms))"

definition hb_neighbours :: "bench \<Rightarrow> rat \<Rightarrow> js option \<times> js option" where
  "hb_neighbours b aa =
     (highest (filter (\<lambda>m. model_aa m \<le> aa) (frontier_models b)),
      lowest (filter (\<lambda>m. model_aa m > aa) (frontier_models b)))"

definition tick_places :: "nat \<Rightarrow> nat \<Rightarrow> nat list" where
  "tick_places n k = sort (js_uniq (map (\<lambda>i. nat (js_round (of_nat (i * (n - 1)) / of_nat (k - 1)))) [0..<k]))"

definition hb_ticks :: "bench \<Rightarrow> nat \<Rightarrow> js list" where
  "hb_ticks b k =
     (let ms = frontier_models b in
      if length ms \<le> k then ms else map (\<lambda>i. ms ! i) (tick_places (length ms) k))"

section \<open>The lines\<close>

definition tick_mark :: "rat \<Rightarrow> js \<Rightarrow> string" where
  "tick_mark scale m =
     ''<i class=\"hfp-tick\" style=\"left:'' @ to_fixed 1 (model_aa m / scale * 100) @ ''%\" title=\"''
     @ escape_html (js_string (jget m ''name'') @ '' '' @ rat_str (model_aa m)) @ ''\"></i>''"

definition bar_html :: "bench \<Rightarrow> rat \<Rightarrow> js list \<Rightarrow> string" where
  "bar_html b aa ticks =
     (let scale = hb_scale b aa
      in ''<span class=\"hfp-aa\" title=\"AA Intelligence '' @ rat_str aa @ ''\"><span class=\"hfp-aa-k\">AA</span>''
         @ ''<span class=\"hfp-aa-track\"><i class=\"hfp-aa-fill\" style=\"width:'' @ to_fixed 1 (aa / scale * 100)
         @ ''%\"></i>'' @ concat (map (tick_mark scale) ticks) @ ''</span>''
         @ ''<b>'' @ escape_html (rat_str aa) @ ''</b></span>'')"

definition chip_meta :: "js \<Rightarrow> string \<Rightarrow> string" where
  "chip_meta d k = (let meta = jget (js_or (jget d ''meta'') (JObj [])) k
     in if js_truthy meta then (case js_list meta of x # xs \<Rightarrow> js_string x | [] \<Rightarrow> ''undefined'') else k)"

definition bench_chip :: "js \<Rightarrow> string \<Rightarrow> string" where
  "bench_chip d k =
     (let raw = jget (jget d ''scores'') k;
          v = (if k = ''mt_bench'' then (case js_number raw of Fin r \<Rightarrow> to_fixed 1 r | n \<Rightarrow> num_str n) else js_string raw)
      in ''<span class=\"hfp-bchip'' @ (if k = ''arena_elo'' then '' is-elo'' else []) @ ''\" title=\"''
         @ escape_html (chip_meta d k) @ ''\">'' @ escape_html (chip_meta d k) @ '' <b>'' @ escape_html v @ ''</b></span>'')"

definition bench_row :: "dict \<Rightarrow> bench \<Rightarrow> string \<Rightarrow> string" where
  "bench_row t b i =
     (let d = hb_data b i; aa = hb_aa b i;
          keys = (if js_truthy d \<and> js_truthy (jget d ''inline'') then js_list (jget d ''inline'') else []);
          chips = concat (map (bench_chip d) (take 2 (filter (\<lambda>k. k \<noteq> ''aa_intelligence'') (map js_string keys))))
      in if d = JUndef then ''<span class=\"hfp-aa is-pending\" aria-hidden=\"true\"></span>''
         else if aa = None \<and> chips = [] then ''<span class=\"hfp-aa is-none\">'' @ escape_html (t ''noBenchShort'' []) @ ''</span>''
         else (case aa of None \<Rightarrow> [] | Some a \<Rightarrow> bar_html b a (hb_ticks b 4)) @ chips)"

section \<open>The bar of progress\<close>

fun left_of :: "queue_at \<Rightarrow> nat" where
  "left_of (Loading i is) = Suc (length is)"
| "left_of (Pausing is) = length is"

inductive hb_runs :: "bench \<Rightarrow> bool" where
  new: "hb_runs new_bench"
| load: "hb_runs b \<Longrightarrow> hb_runs (fst (hb_load i force b))"
| loaded: "hb_runs b \<Longrightarrow> hb_runs (hb_loaded i ans b)"
| queue: "hb_runs b \<Longrightarrow> hb_runs (queue_start ids b)"
| step: "hb_runs b \<Longrightarrow> hb_runs (queue_step k b)"

text \<open>What the newest queue has left.\<close>

definition newest_left :: "bench \<Rightarrow> nat" where
  "newest_left b = sum_list (map (left_of \<circ> snd) (filter (\<lambda>q. fst q = hb_token b) (hb_queues b)))"

definition queues_ok :: "bench \<Rightarrow> bool" where
  "queues_ok b = (distinct (map fst (hb_queues b)) \<and> (\<forall>q \<in> set (hb_queues b). fst q \<le> hb_token b) \<and>
     hb_done b + newest_left b = hb_total b)"

lemma filter_distinct_key:
  assumes "distinct (map fst xs)" "k < length xs"
  shows "filter (\<lambda>q. fst q = fst (xs ! k)) xs = [xs ! k]"
  using assms
proof (induction xs arbitrary: k)
  case Nil
  then show ?case by simp
next
  case (Cons x xs)
  show ?case
  proof (cases k)
    case 0
    with Cons.prems(1) have "filter (\<lambda>q. fst q = fst x) xs = []" by (auto simp: filter_empty_conv image_iff)
    with 0 show ?thesis by simp
  next
    case (Suc j)
    with Cons.prems have "fst x \<noteq> fst (xs ! j)" by (auto simp: image_iff)
    with Suc Cons show ?thesis by simp
  qed
qed

lemma newest_left_eq:
  assumes "distinct (map fst (hb_queues b))" "k < length (hb_queues b)" "fst (hb_queues b ! k) = hb_token b"
  shows "newest_left b = left_of (snd (hb_queues b ! k))"
  using filter_distinct_key [OF assms(1,2)] assms(3) by (simp add: newest_left_def)

lemma queues_ok_gone:
  assumes "queues_ok b" "k < length (hb_queues b)"
    and "fst (hb_queues b ! k) = hb_token b \<Longrightarrow> left_of (snd (hb_queues b ! k)) = 0"
  shows "queues_ok (b\<lparr>hb_queues := take k (hb_queues b) @ drop (Suc k) (hb_queues b)\<rparr>)"
proof -
  let ?qs = "hb_queues b" let ?q = "?qs ! k" let ?N = "\<lambda>xs. sum_list (map (left_of \<circ> snd) (filter (\<lambda>q. fst q = hb_token b) xs))"
  have qs: "?qs = take k ?qs @ ?q # drop (Suc k) ?qs" using assms(2) by (rule id_take_nth_drop)
  have "?N ?qs = ?N (take k ?qs @ ?q # drop (Suc k) ?qs)" using qs by metis
  also have "\<dots> = ?N (take k ?qs @ drop (Suc k) ?qs)" using assms(3) by simp
  finally have n: "?N (take k ?qs @ drop (Suc k) ?qs) = newest_left b" by (simp add: newest_left_def)
  have "distinct (map fst (take k ?qs @ ?q # drop (Suc k) ?qs))" using assms(1) qs by (metis queues_ok_def)
  then have "distinct (map fst (take k ?qs @ drop (Suc k) ?qs))" by auto
  moreover have "set (take k ?qs @ drop (Suc k) ?qs) \<subseteq> set ?qs" using set_take_subset set_drop_subset by fastforce
  moreover have "newest_left (b\<lparr>hb_queues := take k ?qs @ drop (Suc k) ?qs\<rparr>) = newest_left b"
    using n by (simp add: newest_left_def)
  ultimately show ?thesis using assms(1) unfolding queues_ok_def by auto
qed

lemma queues_ok_update:
  assumes ok: "queues_ok b" and k: "k < length (hb_queues b)" "fst (hb_queues b ! k) = hb_token b"
    and "left_of (snd (hb_queues b ! k)) = left_of p + m"
  shows "queues_ok (b\<lparr>hb_done := hb_done b + m, hb_queues := (hb_queues b)[k := (hb_token b, p)]\<rparr>)"
proof -
  let ?b = "b\<lparr>hb_done := hb_done b + m, hb_queues := (hb_queues b)[k := (hb_token b, p)]\<rparr>"
  have keys: "map fst (hb_queues ?b) = map fst (hb_queues b)"
    using k by (simp add: map_update) (metis length_map list_update_id nth_map)
  then have d: "distinct (map fst (hb_queues ?b))" using ok by (simp only: queues_ok_def)
  have "newest_left ?b = left_of p" using newest_left_eq [OF d, of k] k(1) by simp
  moreover have "newest_left b = left_of p + m" using newest_left_eq [of b k] ok k assms(4) by (simp add: queues_ok_def)
  moreover have "\<forall>q \<in> set (hb_queues ?b). fst q \<le> hb_token b"
    using keys ok by (metis (no_types, lifting) image_iff list.set_map queues_ok_def)
  ultimately show ?thesis using ok d by (simp add: queues_ok_def)
qed

lemma queues_ok_load: "queues_ok (fst (hb_load i force b)) = queues_ok b"
  by (simp add: queues_ok_def hb_load_def newest_left_def)

lemma hb_load_frame [simp]:
  "hb_done (fst (hb_load i force b)) = hb_done b" "hb_total (fst (hb_load i force b)) = hb_total b"
  by (simp_all add: hb_load_def)

lemma queues_ok_step: "queues_ok b \<Longrightarrow> queues_ok (queue_step k b)"
proof -
  assume ok: "queues_ok b"
  show ?thesis
  proof (cases "k < length (hb_queues b)")
    case False
    then show ?thesis using ok by (simp add: queue_step_def)
  next
    case True
    obtain tok w where q: "hb_queues b ! k = (tok, w)" by (cases "hb_queues b ! k")
    note gone = queues_ok_gone [OF ok True] note up = queues_ok_update [OF ok True]
    show ?thesis
    proof (cases w)
      case (Loading i "is")
      then show ?thesis using True q gone up [of "Pausing is" 1] ok by (simp add: queue_step_def)
    next
      case (Pausing "is")
      then show ?thesis
        using True q gone up [of "Loading (hd is) (tl is)" 0]
        by (cases "is") (simp_all add: queue_step_def queues_ok_load)
    qed
  qed
qed

lemma queues_ok_start: "queues_ok b \<Longrightarrow> queues_ok (queue_start ids b)"
proof -
  assume ok: "queues_ok b"
  let ?todo = "filter (\<lambda>i. \<not> hb_cached b i) ids"
  have old: "filter (\<lambda>q. fst q = Suc (hb_token b)) (hb_queues b) = []"
    "Suc (hb_token b) \<notin> fst ` set (hb_queues b)" "\<forall>q \<in> set (hb_queues b). fst q \<le> Suc (hb_token b)"
    using ok by (fastforce simp: queues_ok_def filter_empty_conv)+
  show ?thesis
    using ok old
    by (cases ?todo) (simp_all add: queue_start_def queues_ok_load Let_def, auto simp: queues_ok_def newest_left_def)
qed

lemma queues_ok_run: "hb_runs b \<Longrightarrow> queues_ok b"
proof (induction rule: hb_runs.induct)
  case new
  then show ?case by (simp add: queues_ok_def new_bench_def newest_left_def)
next
  case (load b i force)
  then show ?case by (simp add: queues_ok_load)
next
  case (loaded b i ans)
  then show ?case by (simp add: queues_ok_def hb_loaded_def newest_left_def Let_def)
next
  case (queue b ids)
  then show ?case using queues_ok_start by blast
next
  case (step b k)
  then show ?case using queues_ok_step by blast
qed

text \<open>(C26) However the queues of loads start and overtake one another, the bar of progress is the newest
  queue's: what it has loaded and what it has left make the total it stated, so the bar is never
  over its end; it says it runs exactly while the newest queue has something left; and a step of a
  queue moves it by one, forward, or not at all.\<close>

theorem hb_progress_is_the_newest_queues:
  assumes "hb_runs b"
  shows "hb_done b + newest_left b = hb_total b \<and> (hb_running b \<longleftrightarrow> newest_left b > 0) \<and>
    hb_done (queue_step k b) \<in> {hb_done b, Suc (hb_done b)} \<and> hb_total (queue_step k b) = hb_total b"
  using queues_ok_run [OF assms]
  by (auto simp: queues_ok_def hb_running_def queue_step_def Let_def split: prod.splits queue_at.splits list.splits)

lemma hb_progress_is_the_newest_queues_witness:
  "let b = queue_step 1 (queue_start [''c''] (queue_step 0 (hb_loaded ''a'' None (queue_start [''a'', ''b''] new_bench))))
   in hb_done b + newest_left b = 1 \<and> hb_running b"
proof -
  let ?b = "queue_step 1 (queue_start [''c''] (queue_step 0 (hb_loaded ''a'' None (queue_start [''a'', ''b''] new_bench))))"
  have r: "hb_runs ?b" by (intro hb_runs.intros)
  have "hb_total ?b = 1" "newest_left ?b = 1" by code_simp+
  then show ?thesis using hb_progress_is_the_newest_queues [OF r] by (simp add: Let_def)
qed

section \<open>A score among the frontier\<close>

lemma foldl_best:
  fixes key :: "'a \<Rightarrow> 'k::linorder"
  shows "foldl (\<lambda>a b. if key b > key a then b else a) m ms \<in> insert m (set ms) \<and>
    (\<forall>x \<in> insert m (set ms). key x \<le> key (foldl (\<lambda>a b. if key b > key a then b else a) m ms))"
proof (induction ms arbitrary: m)
  case Nil
  then show ?case by simp
next
  case (Cons y ys)
  let ?m = "if key y > key m then y else m"
  have "key m \<le> key ?m" "key y \<le> key ?m" by auto
  then show ?case using Cons.IH [of ?m] by (auto split: if_splits)
qed

lemma highest_Some: "highest ms = Some m \<Longrightarrow> m \<in> set ms \<and> (\<forall>x \<in> set ms. model_aa x \<le> model_aa m)"
  using foldl_best [of model_aa] by (cases ms) (auto simp: highest_def)

lemma lowest_Some: "lowest ms = Some m \<Longrightarrow> m \<in> set ms \<and> (\<forall>x \<in> set ms. model_aa m \<le> model_aa x)"
  using foldl_best [of "\<lambda>x. - model_aa x"] by (cases ms) (fastforce simp: lowest_def)+

lemma highest_None [simp]: "highest ms = None \<longleftrightarrow> ms = []"
  by (simp add: highest_def split: list.split)

lemma lowest_None [simp]: "lowest ms = None \<longleftrightarrow> ms = []"
  by (simp add: lowest_def split: list.split)

text \<open>The neighbours of a score are its neighbours: the one below is a frontier model at or under
  the score, the one above a model over it, no model stands between either and the score, and one is
  missing only when no model is on that side.\<close>

theorem hb_neighbours_are_next:
  assumes "hb_neighbours b aa = (lo, hi)"
  shows "(lo = None \<longleftrightarrow> (\<forall>m \<in> set (frontier_models b). aa < model_aa m)) \<and>
    (hi = None \<longleftrightarrow> (\<forall>m \<in> set (frontier_models b). model_aa m \<le> aa)) \<and>
    (\<forall>m. lo = Some m \<longrightarrow> m \<in> set (frontier_models b) \<and> model_aa m \<le> aa \<and>
       (\<forall>x \<in> set (frontier_models b). \<not> (model_aa m < model_aa x \<and> model_aa x \<le> aa))) \<and>
    (\<forall>m. hi = Some m \<longrightarrow> m \<in> set (frontier_models b) \<and> aa < model_aa m \<and>
       (\<forall>x \<in> set (frontier_models b). \<not> (aa < model_aa x \<and> model_aa x < model_aa m)))"
proof -
  let ?ms = "frontier_models b"
  have lo: "lo = highest (filter (\<lambda>m. model_aa m \<le> aa) ?ms)" and hi: "hi = lowest (filter (\<lambda>m. model_aa m > aa) ?ms)"
    using assms by (auto simp: hb_neighbours_def)
  have n: "lo = None \<longleftrightarrow> (\<forall>m \<in> set ?ms. aa < model_aa m)" "hi = None \<longleftrightarrow> (\<forall>m \<in> set ?ms. model_aa m \<le> aa)"
    by (auto simp: lo hi filter_empty_conv)
  have "m \<in> set ?ms \<and> model_aa m \<le> aa \<and> (\<forall>x \<in> set ?ms. \<not> (model_aa m < model_aa x \<and> model_aa x \<le> aa))"
    if "lo = Some m" for m
    using highest_Some that unfolding lo by fastforce
  moreover have "m \<in> set ?ms \<and> aa < model_aa m \<and> (\<forall>x \<in> set ?ms. \<not> (aa < model_aa x \<and> model_aa x < model_aa m))"
    if "hi = Some m" for m
    using lowest_Some that unfolding hi by fastforce
  ultimately show ?thesis using n by blast
qed

lemma hb_neighbours_are_next_witness:
  "let m = (\<lambda>n. JObj [(''aa'', JNum n)]);
       b = frontier_loaded (Some (JObj [(''ok'', JBool True), (''models'', JArr [m 3, m 9, m 5])])) new_bench
   in hb_neighbours b 5 = (Some (m 5), Some (m 9)) \<and> 5 < model_aa (m 9)"
proof -
  let ?m = "\<lambda>n. JObj [(''aa'', JNum n)]"
  let ?b = "frontier_loaded (Some (JObj [(''ok'', JBool True), (''models'', JArr [?m 3, ?m 9, ?m 5])])) new_bench"
  have e: "hb_neighbours ?b 5 = (Some (?m 5), Some (?m 9))" by code_simp
  then show ?thesis using hb_neighbours_are_next [OF e] by (simp add: Let_def)
qed

text \<open>A bar and its ticks stay within the track.\<close>

lemma foldl_max_bounds: "m \<le> foldl (\<lambda>m x. max m (model_aa x)) m ms \<and>
    (\<forall>x \<in> set ms. model_aa x \<le> foldl (\<lambda>m x. max m (model_aa x)) m ms)"
proof (induction ms arbitrary: m)
  case Nil
  then show ?case by simp
next
  case (Cons y ys)
  have "max m (model_aa y) \<le> foldl (\<lambda>m x. max m (model_aa x)) (max m (model_aa y)) ys"
    using Cons.IH [of "max m (model_aa y)"] by blast
  then show ?case using Cons.IH [of "max m (model_aa y)"] by simp
qed

lemma scale_bounds: "65 \<le> hb_scale b v \<and> v \<le> hb_scale b v \<and> (\<forall>m \<in> set (frontier_models b). model_aa m \<le> hb_scale b v)"
  using foldl_max_bounds [of 0 "frontier_models b"] by (auto simp: hb_scale_def le_max_iff_disj)

lemma bar_in_track: "0 \<le> v \<Longrightarrow> 0 \<le> v / hb_scale b v * 100 \<and> v / hb_scale b v * 100 \<le> 100"
  using scale_bounds [of b v] by (auto simp: divide_le_eq)

end
