(* ===== verification/Dialogs.thy ===== *)
theory Dialogs
  imports JsValue Utils
begin

text \<open>
  The page's own confirm and prompt (\<open>dialogs.js\<close>): one dialog, one question at a time, five kinds
  of it. A question is the promise that waits for its answer, named here by a number; what the module
  keeps of it (\<open>_resolve\<close>, \<open>_mode\<close>, \<open>_choice\<close>, \<open>_checks\<close>, \<open>_must\<close>) and what the dialog's
  elements show are one record. Focus is set a frame later and is only named. The events are what a
  page can do while the dialog stands: typing, Enter and Tab in the box, a press of a choice, a tick,
  its two buttons. A line break inside a tag of a template is a space here.
\<close>

section \<open>The module and its dialog\<close>

datatype dlg_mode = Confirm_mode | Typed_mode | Choice_mode | Checks_mode | Prompt_mode

record dlg_checks =
  ck_all :: bool
  ck_picked :: "string list"
  ck_order :: "string list"

record check_box =
  bx_value :: string
  bx_on :: bool
  bx_off :: bool  \<comment> \<open>disabled\<close>

datatype dlg_focus = Focus_box | Focus_cancel | Focus_confirm

record dialog =
  dg_resolve :: "nat option"
  dg_mode :: dlg_mode
  dg_choice :: "string option"
  dg_checks :: "dlg_checks option"
  dg_must :: "string option"
  dg_pending :: bool
  dg_shown :: bool
  dg_tone :: string
  dg_scene :: "string option"
  dg_title :: string
  dg_text :: string
  dg_meta :: "string option"
  dg_buttons :: "(string \<times> bool) list"
  dg_all :: "bool option"
  dg_boxes :: "check_box list"
  dg_detail :: string
  dg_type :: string
  dg_autocomplete :: string
  dg_value :: string
  dg_placeholder :: string
  dg_input :: bool
  dg_hint :: bool
  dg_hint_title :: string
  dg_disabled :: bool
  dg_label :: string
  dg_danger :: bool
  dg_cancel :: string
  dg_focus :: dlg_focus

definition trimmed_is :: "string option \<Rightarrow> string \<Rightarrow> bool" where
  "trimmed_is must v = (case must of None \<Rightarrow> False | Some m \<Rightarrow> js_trim v = m)"

definition typed_matches :: "dialog \<Rightarrow> bool" where
  "typed_matches s = trimmed_is (dg_must s) (dg_value s)"

section \<open>Choices and ticks\<close>

definition opt_choices :: "js \<Rightarrow> js list" where
  "opt_choices ob = js_list (jget ob ''choices'')"

definition choice_value :: "js \<Rightarrow> string" where
  "choice_value c = js_string (jget c ''value'')"

text \<open>\<open>a ? b : ""\<close> of a text.\<close>

definition when_text :: "js \<Rightarrow> string \<Rightarrow> string" where
  "when_text v s = (if js_truthy v then s else [])"

definition first_choice :: "js \<Rightarrow> string" where
  "first_choice ob =
     (if list_ex (\<lambda>c. choice_value c = js_string (jget ob ''choice'')) (opt_choices ob)
      then js_string (jget ob ''choice'') else choice_value (hd (opt_choices ob)))"

definition choices_label :: "js \<Rightarrow> string" where
  "choices_label ob = when_text (jget ob ''choiceLabel'')
     (''<span class=\"dlg-choices-label\">'' @ escape_html (js_string (jget ob ''choiceLabel'')) @ ''</span>'')"

definition choices_html :: "js \<Rightarrow> string" where
  "choices_html ob =
     ''<div class=\"dlg-choices'' @ when_text (jget ob ''list'') '' dlg-choices-list'' @ ''\" role=\"radiogroup\" aria-label=\"''
     @ escape_html (js_text (jget ob ''choiceLabel'')) @ ''\">'' @ choices_label ob
     @ concat (map (\<lambda>c. ''<button type=\"button\" class=\"dlg-choice\" role=\"radio\" data-t=\"confirm-choice\" data-t-id=\"''
         @ escape_html (choice_value c) @ ''\" data-choice=\"'' @ escape_html (choice_value c) @ ''\" aria-checked=\"''
         @ (if choice_value c = first_choice ob then ''true'' else ''false'') @ ''\">''
         @ escape_html (js_string (jget c ''label'')) @ ''</button>'') (opt_choices ob))
     @ ''</div>''"

definition render_choices :: "js \<Rightarrow> dialog \<Rightarrow> dialog" where
  "render_choices ob s =
     (if opt_choices ob = [] then s
      else s\<lparr>dg_choice := Some (first_choice ob), dg_meta := Some (choices_html ob),
             dg_buttons := map (\<lambda>c. (choice_value c, choice_value c = first_choice ob)) (opt_choices ob)\<rparr>)"

definition checked_first :: "js \<Rightarrow> string list" where
  "checked_first ob =
     (if jget ob ''checked'' = JStr ''all'' then [] else js_uniq (map js_string (js_list (jget ob ''checked''))))"

definition all_first :: "js \<Rightarrow> bool" where
  "all_first ob = (jget ob ''checked'' = JStr ''all'' \<and> js_truthy (jget ob ''allLabel''))"

definition box_html :: "string \<Rightarrow> js \<Rightarrow> bool \<Rightarrow> bool \<Rightarrow> string" where
  "box_html attrs label on off =
     ''<label class=\"dlg-check\"><input type=\"checkbox\" '' @ attrs @ (if on then '' checked'' else [])
     @ (if off then '' disabled'' else []) @ ''><span>'' @ escape_html (js_string label) @ ''</span></label>''"

definition checks_html :: "js \<Rightarrow> string" where
  "checks_html ob =
     ''<div class=\"dlg-checks\" role=\"group\" aria-label=\"'' @ escape_html (js_text (jget ob ''choiceLabel'')) @ ''\">''
     @ choices_label ob
     @ when_text (jget ob ''allLabel'')
         (box_html ''data-check-all data-t=\"confirm-check-all\"'' (jget ob ''allLabel'') (all_first ob) False)
     @ concat (map (\<lambda>c. box_html (''data-check=\"'' @ escape_html (choice_value c)
           @ ''\" data-t=\"confirm-check\" data-t-id=\"'' @ escape_html (choice_value c) @ ''\"'') (jget c ''label'')
           (all_first ob \<or> choice_value c \<in> set (checked_first ob)) (all_first ob)) (opt_choices ob))
     @ (if opt_choices ob \<noteq> [] then []
        else ''<span class=\"dlg-checks-empty\">'' @ escape_html (js_text (jget ob ''emptyLabel'')) @ ''</span>'')
     @ ''</div>''"

definition render_checks :: "js \<Rightarrow> dialog \<Rightarrow> dialog" where
  "render_checks ob s =
     s\<lparr>dg_checks := Some \<lparr>ck_all = all_first ob, ck_picked = checked_first ob, ck_order = map choice_value (opt_choices ob)\<rparr>,
       dg_meta := Some (checks_html ob),
       dg_all := (if js_truthy (jget ob ''allLabel'') then Some (all_first ob) else None),
       dg_boxes := map (\<lambda>c. \<lparr>bx_value = choice_value c,
                             bx_on = (all_first ob \<or> choice_value c \<in> set (checked_first ob)),
                             bx_off = all_first ob\<rparr>) (opt_choices ob)\<rparr>"

section \<open>A question is put\<close>

definition dg_asks :: "dlg_mode \<Rightarrow> bool" where
  "dg_asks m = (m = Prompt_mode)"

text \<open>The suggestion is on offer while the box holds a beginning of it.\<close>

definition hint_offered :: "string \<Rightarrow> string \<Rightarrow> bool" where
  "hint_offered placeholder v = (placeholder \<noteq> [] \<and> v \<noteq> placeholder \<and> prefix v placeholder)"

definition dg_offered :: "dialog \<Rightarrow> bool" where
  "dg_offered s = hint_offered (dg_placeholder s) (dg_value s)"

definition sync_hint :: "dict \<Rightarrow> dialog \<Rightarrow> dialog" where
  "sync_hint t s = s\<lparr>dg_hint := dg_offered s, dg_hint_title := t ''promptTabHint'' []\<rparr>"

definition sync_typed :: "dialog \<Rightarrow> dialog" where
  "sync_typed s = s\<lparr>dg_disabled := \<not> typed_matches s\<rparr>"

definition dg_box :: "dict \<Rightarrow> js \<Rightarrow> dlg_mode \<Rightarrow> dialog \<Rightarrow> dialog" where
  "dg_box t ob m s =
     (if m = Typed_mode then
        sync_typed (s\<lparr>dg_type := ''text'', dg_autocomplete := ''off'', dg_value := [],
          dg_placeholder := js_string (js_or (jget ob ''placeholder'') (JStr (t ''confirmTypeName'' [])))\<rparr>)
      else if dg_asks m then
        sync_hint t (s\<lparr>dg_type := (if js_truthy (jget ob ''password'') then ''password'' else ''text''),
          dg_autocomplete := (if js_truthy (jget ob ''password'') then ''off'' else []),
          dg_value := js_text_nn (jget ob ''value''), dg_placeholder := js_text (jget ob ''placeholder'')\<rparr>)
      else s)"

definition dg_tone_of :: "js \<Rightarrow> dlg_mode \<Rightarrow> string" where
  "dg_tone_of ob m = (if dg_asks m \<or> jget ob ''danger'' = JBool False then ''ask'' else ''danger'')"

definition open_dialog :: "dict \<Rightarrow> nat \<Rightarrow> js \<Rightarrow> js \<Rightarrow> dlg_mode \<Rightarrow> dialog \<Rightarrow> dialog" where
  "open_dialog t q message ob m s0 =
     (let s1 = s0\<lparr>dg_resolve := Some q, dg_mode := m, dg_choice := None, dg_checks := None,
            dg_must := (if m = Typed_mode then Some (js_text_nn (jget ob ''must'')) else None),
            dg_tone := dg_tone_of ob m,
            dg_scene := (if js_truthy (jget ob ''scene'') then Some (js_string (jget ob ''scene'')) else None),
            dg_title := js_string (js_or (jget ob ''title'') (if dg_asks m then message else JStr (t ''confirmActionTitle'' []))),
            dg_text := (if dg_asks m then js_text (jget ob ''text'') else js_string message),
            dg_meta := None, dg_buttons := [], dg_all := None, dg_boxes := []\<rparr>;
          s2 = (if m = Choice_mode then render_choices ob s1 else if m = Checks_mode then render_checks ob s1 else s1);
          s3 = s2\<lparr>dg_detail := js_text (jget ob ''detail''), dg_disabled := False,
            dg_input := (dg_asks m \<or> m = Typed_mode), dg_hint := False\<rparr>;
          s4 = dg_box t ob m s3
      in s4\<lparr>dg_label := js_string (js_or (jget ob ''confirmLabel'') (JStr (t ''okAction'' []))),
            dg_danger := (\<not> dg_asks m \<and> jget ob ''danger'' \<noteq> JBool False),
            dg_cancel := js_string (js_or (jget ob ''cancelLabel'') (JStr (t ''cancel'' []))),
            dg_pending := True, dg_shown := True,
            dg_focus := (if dg_asks m \<or> m = Typed_mode then Focus_box
                         else if dg_tone_of ob m = ''danger'' then Focus_cancel else Focus_confirm)\<rparr>)"

text \<open>The five questions.\<close>

definition app_confirm :: "dict \<Rightarrow> nat \<Rightarrow> js \<Rightarrow> js \<Rightarrow> dialog \<Rightarrow> dialog" where
  "app_confirm t q message ob = open_dialog t q message ob Confirm_mode"

definition app_confirm_typed :: "dict \<Rightarrow> nat \<Rightarrow> js \<Rightarrow> js \<Rightarrow> js \<Rightarrow> dialog \<Rightarrow> dialog" where
  "app_confirm_typed t q message phrase ob =
     open_dialog t q message (JObj (kv_put ''must'' phrase (js_fields ob))) Typed_mode"

definition app_confirm_checks :: "dict \<Rightarrow> nat \<Rightarrow> js \<Rightarrow> js \<Rightarrow> dialog \<Rightarrow> dialog" where
  "app_confirm_checks t q message ob = open_dialog t q message ob Checks_mode"

definition app_prompt :: "dict \<Rightarrow> nat \<Rightarrow> js \<Rightarrow> js \<Rightarrow> dialog \<Rightarrow> dialog" where
  "app_prompt t q message ob = open_dialog t q message ob Prompt_mode"

definition app_confirm_choice :: "dict \<Rightarrow> nat \<Rightarrow> js \<Rightarrow> js \<Rightarrow> dialog \<Rightarrow> dialog" where
  "app_confirm_choice t q message ob = open_dialog t q message ob Choice_mode"

section \<open>It is answered\<close>

definition checks_value :: "dialog \<Rightarrow> js" where
  "checks_value s = (case dg_checks s of
       None \<Rightarrow> JArr []
     | Some c \<Rightarrow> if ck_all c then JStr ''all''
         else JArr (map JStr (filter (\<lambda>v. v \<in> set (ck_picked c)) (ck_order c))))"

definition settled_value :: "bool \<Rightarrow> dialog \<Rightarrow> js" where
  "settled_value ok s = (case dg_mode s of
       Prompt_mode \<Rightarrow> if ok then JStr (dg_value s) else JNull
     | Choice_mode \<Rightarrow> if ok then (case dg_choice s of Some c \<Rightarrow> JStr c | None \<Rightarrow> JNull) else JNull
     | Checks_mode \<Rightarrow> if ok then checks_value s else JNull
     | Confirm_mode \<Rightarrow> JBool ok
     | Typed_mode \<Rightarrow> JBool ok)"

text \<open>The dialog after it, the question answered and its answer, and what the call returns.\<close>

definition settle_app_confirm :: "dict \<Rightarrow> bool \<Rightarrow> dialog \<Rightarrow> dialog \<times> (nat \<times> js) option \<times> bool" where
  "settle_app_confirm t ok s =
     (if ok \<and> dg_must s \<noteq> None \<and> dg_resolve s \<noteq> None \<and> \<not> typed_matches s then (s, None, True)
      else (s\<lparr>dg_resolve := None, dg_mode := Confirm_mode, dg_must := None, dg_shown := False, dg_input := False,
              dg_disabled := False, dg_hint := False, dg_meta := None, dg_buttons := [], dg_all := None, dg_boxes := [],
              dg_danger := False, dg_cancel := t ''cancel'' [], dg_tone := ''danger'', dg_pending := False\<rparr>,
            map_option (\<lambda>q. (q, settled_value ok s)) (dg_resolve s), dg_resolve s \<noteq> None))"

section \<open>What the page does\<close>

datatype dlg_event = Ask nat js js dlg_mode | Type_text string | Press_choice nat | Tick nat bool | Tick_all bool
  | Key_enter | Key_tab | Confirm_pressed | Cancelled

definition press_choice :: "nat \<Rightarrow> dialog \<Rightarrow> dialog" where
  "press_choice i s =
     (if i < length (dg_buttons s)
      then s\<lparr>dg_choice := Some (fst (dg_buttons s ! i)),
             dg_buttons := map (\<lambda>k. (fst (dg_buttons s ! k), k = i)) [0..<length (dg_buttons s)]\<rparr>
      else s)"

definition tick_all :: "bool \<Rightarrow> dialog \<Rightarrow> dialog" where
  "tick_all on s = (case (dg_all s, dg_checks s) of
       (Some _, Some c) \<Rightarrow>
         s\<lparr>dg_all := Some on, dg_checks := Some (c\<lparr>ck_all := on\<rparr>),
           dg_boxes := map (\<lambda>b. b\<lparr>bx_off := on, bx_on := (on \<or> bx_value b \<in> set (ck_picked c))\<rparr>) (dg_boxes s)\<rparr>
     | _ \<Rightarrow> s)"

definition tick_box :: "nat \<Rightarrow> bool \<Rightarrow> dialog \<Rightarrow> dialog" where
  "tick_box i on s = (case dg_checks s of
       Some c \<Rightarrow>
         if i < length (dg_boxes s) \<and> \<not> bx_off (dg_boxes s ! i)
         then s\<lparr>dg_boxes := (dg_boxes s)[i := (dg_boxes s ! i)\<lparr>bx_on := on\<rparr>],
                dg_checks := Some (c\<lparr>ck_picked := (if on then set_add else set_del) (bx_value (dg_boxes s ! i)) (ck_picked c)\<rparr>)\<rparr>
         else s
     | None \<Rightarrow> s)"

definition type_text :: "dict \<Rightarrow> string \<Rightarrow> dialog \<Rightarrow> dialog" where
  "type_text t v s =
     (let s1 = s\<lparr>dg_value := v\<rparr> in
      if \<not> dg_input s then s else if dg_must s \<noteq> None then sync_typed s1 else sync_hint t s1)"

definition key_tab :: "dict \<Rightarrow> dialog \<Rightarrow> dialog" where
  "key_tab t s =
     (if dg_input s \<and> dg_must s = None \<and> dg_offered s then sync_hint t (s\<lparr>dg_value := dg_placeholder s\<rparr>) else s)"

definition key_enter :: "dict \<Rightarrow> dialog \<Rightarrow> dialog \<times> (nat \<times> js) option" where
  "key_enter t s =
     (if dg_input s \<and> (dg_must s \<noteq> None \<longrightarrow> typed_matches s)
      then (case settle_app_confirm t True s of (s', r, _) \<Rightarrow> (s', r)) else (s, None))"

text \<open>The confirm button calls \<open>ui.pendingConfirm\<close> when it is on; Cancel, Escape and a press beside
  the dialog settle it with no.\<close>

definition dg_step :: "dict \<Rightarrow> dlg_event \<Rightarrow> dialog \<Rightarrow> dialog \<times> (nat \<times> js) option" where
  "dg_step t e s = (case e of
       Ask q message ob m \<Rightarrow> (open_dialog t q message ob m s, None)
     | Type_text v \<Rightarrow> (type_text t v s, None)
     | Press_choice i \<Rightarrow> (press_choice i s, None)
     | Tick i on \<Rightarrow> (tick_box i on s, None)
     | Tick_all on \<Rightarrow> (tick_all on s, None)
     | Key_enter \<Rightarrow> key_enter t s
     | Key_tab \<Rightarrow> (key_tab t s, None)
     | Confirm_pressed \<Rightarrow>
         if dg_pending s \<and> \<not> dg_disabled s
         then (case settle_app_confirm t True s of (s', r, _) \<Rightarrow> (s', r)) else (s, None)
     | Cancelled \<Rightarrow> (case settle_app_confirm t False s of (s', r, _) \<Rightarrow> (s', r)))"

section \<open>What holds between two events\<close>

definition boxes_ok :: "dialog \<Rightarrow> bool" where
  "boxes_ok s = (case dg_checks s of
       None \<Rightarrow> False
     | Some c \<Rightarrow> map bx_value (dg_boxes s) = ck_order c \<and> (\<forall>b \<in> set (dg_boxes s). bx_off b = ck_all c)
         \<and> (distinct (ck_order c) \<longrightarrow>
              (\<forall>b \<in> set (dg_boxes s). bx_on b = (ck_all c \<or> bx_value b \<in> set (ck_picked c)))))"

definition buttons_ok :: "dialog \<Rightarrow> bool" where
  "buttons_ok s = (case dg_choice s of None \<Rightarrow> dg_buttons s = [] | Some c \<Rightarrow> (c, True) \<in> set (dg_buttons s))"

definition dg_ok :: "dialog \<Rightarrow> bool" where
  "dg_ok s \<longleftrightarrow>
     (dg_mode s = Typed_mode) = (dg_must s \<noteq> None)
     \<and> dg_disabled s = (dg_must s \<noteq> None \<and> \<not> typed_matches s)
     \<and> dg_pending s = (dg_resolve s \<noteq> None) \<and> dg_shown s = (dg_resolve s \<noteq> None)
     \<and> dg_input s = (dg_mode s = Typed_mode \<or> dg_mode s = Prompt_mode)
     \<and> (dg_mode s = Prompt_mode \<longrightarrow> dg_hint s = dg_offered s)
     \<and> (if dg_mode s = Checks_mode then boxes_ok s else dg_boxes s = [] \<and> dg_all s = None)
     \<and> (if dg_mode s = Choice_mode then buttons_ok s else dg_buttons s = [])"

lemma first_choice_in:
  "opt_choices ob \<noteq> [] \<Longrightarrow> \<exists>c \<in> set (opt_choices ob). choice_value c = first_choice ob"
  by (auto simp: first_choice_def list_ex_iff)

lemma first_choice_pressed:
  "opt_choices ob \<noteq> [] \<Longrightarrow>
     (first_choice ob, True) \<in> set (map (\<lambda>c. (choice_value c, choice_value c = first_choice ob)) (opt_choices ob))"
  using first_choice_in [of ob] by (metis (mono_tags, lifting) image_eqI list.set_map)

text \<open>What putting a question sets, whatever was there.\<close>

lemma open_dialog_fields:
  "dg_resolve (open_dialog t q msg ob m s) = Some q" "dg_mode (open_dialog t q msg ob m s) = m"
  "dg_must (open_dialog t q msg ob m s) = (if m = Typed_mode then Some (js_text_nn (jget ob ''must'')) else None)"
  by (cases m; simp add: open_dialog_def Let_def dg_box_def dg_asks_def sync_typed_def sync_hint_def
      render_choices_def render_checks_def)+

lemma open_dialog_ok: "dg_ok (open_dialog t q msg ob m s)"
proof (cases m)
  case Choice_mode
  show ?thesis
  proof (cases "opt_choices ob = []")
    case True
    then show ?thesis unfolding Choice_mode
      by (simp add: dg_ok_def open_dialog_def Let_def dg_box_def dg_asks_def render_choices_def buttons_ok_def)
  next
    case False
    then show ?thesis using first_choice_pressed [OF False] unfolding Choice_mode
      by (simp add: dg_ok_def open_dialog_def Let_def dg_box_def dg_asks_def render_choices_def buttons_ok_def)
  qed
next
  case Checks_mode
  then show ?thesis
    by (simp add: dg_ok_def open_dialog_def Let_def dg_box_def dg_asks_def render_checks_def boxes_ok_def comp_def)
qed (simp_all add: dg_ok_def open_dialog_def Let_def dg_box_def dg_asks_def sync_typed_def sync_hint_def
    typed_matches_def dg_offered_def)

lemma press_choice_ok: "dg_ok s \<Longrightarrow> dg_ok (press_choice i s)"
  by (auto simp: dg_ok_def press_choice_def buttons_ok_def boxes_ok_def typed_matches_def dg_offered_def
      image_iff split: if_splits)

lemma tick_all_ok: "dg_ok s \<Longrightarrow> dg_ok (tick_all on s)"
  by (auto simp: dg_ok_def tick_all_def buttons_ok_def boxes_ok_def typed_matches_def dg_offered_def comp_def
      split: if_splits option.splits)

lemma boxes_ok_update:
  assumes b: "boxes_ok s" and c: "dg_checks s = Some c" and i: "i < length (dg_boxes s)" "\<not> bx_off (dg_boxes s ! i)"
  shows "boxes_ok (tick_box i on s)"
proof -
  let ?v = "bx_value (dg_boxes s ! i)"
  have vals: "map bx_value ((dg_boxes s)[i := (dg_boxes s ! i)\<lparr>bx_on := on\<rparr>]) = map bx_value (dg_boxes s)"
    using i(1) by (simp add: map_update list_update_same_conv)
  have nall: "\<not> ck_all c" using b c i by (auto simp: boxes_ok_def)
  have on: "bx_on b = (bx_value b \<in> set ((if on then set_add else set_del) ?v (ck_picked c)))"
    if d: "distinct (ck_order c)" and m: "b \<in> set ((dg_boxes s)[i := (dg_boxes s ! i)\<lparr>bx_on := on\<rparr>])" for b
  proof -
    from m obtain k where k: "k < length (dg_boxes s)" and bk: "b = (dg_boxes s)[i := (dg_boxes s ! i)\<lparr>bx_on := on\<rparr>] ! k"
      by (metis in_set_conv_nth length_list_update)
    show ?thesis
    proof (cases "k = i")
      case True
      with bk i(1) show ?thesis by simp
    next
      case False
      have o: "map bx_value (dg_boxes s) = ck_order c" using b c by (simp add: boxes_ok_def)
      have "bx_value (dg_boxes s ! k) \<noteq> ?v"
        using False k i(1) d unfolding o [symmetric] by (auto simp: distinct_conv_nth)
      moreover have "bx_on (dg_boxes s ! k) = (bx_value (dg_boxes s ! k) \<in> set (ck_picked c))"
        using b c d k nall by (simp add: boxes_ok_def)
      ultimately show ?thesis using bk False by simp
    qed
  qed
  have off: "bx_off b = ck_all c" if m: "b \<in> set ((dg_boxes s)[i := (dg_boxes s ! i)\<lparr>bx_on := on\<rparr>])" for b
  proof -
    have "b \<in> insert ((dg_boxes s ! i)\<lparr>bx_on := on\<rparr>) (set (dg_boxes s))"
      using m set_update_subset_insert by (rule subsetD [rotated])
    then show ?thesis using b c i nall by (auto simp: boxes_ok_def)
  qed
  show ?thesis
    using on off vals nall b c i unfolding tick_box_def by (simp add: boxes_ok_def)
qed

lemma tick_box_ok: "dg_ok s \<Longrightarrow> dg_ok (tick_box i on s)"
proof -
  assume ok: "dg_ok s"
  have same: "dg_mode (tick_box i on s) = dg_mode s" "dg_must (tick_box i on s) = dg_must s"
    "dg_disabled (tick_box i on s) = dg_disabled s" "dg_pending (tick_box i on s) = dg_pending s"
    "dg_resolve (tick_box i on s) = dg_resolve s" "dg_shown (tick_box i on s) = dg_shown s"
    "dg_input (tick_box i on s) = dg_input s" "dg_hint (tick_box i on s) = dg_hint s"
    "dg_value (tick_box i on s) = dg_value s" "dg_placeholder (tick_box i on s) = dg_placeholder s"
    "dg_buttons (tick_box i on s) = dg_buttons s" "dg_choice (tick_box i on s) = dg_choice s"
    "dg_all (tick_box i on s) = dg_all s" "dg_boxes s = [] \<Longrightarrow> dg_boxes (tick_box i on s) = []"
    by (auto simp: tick_box_def split: option.splits)
  have "boxes_ok s \<Longrightarrow> boxes_ok (tick_box i on s)"
    using boxes_ok_update [of s] by (cases "dg_checks s") (auto simp: tick_box_def)
  moreover have "buttons_ok (tick_box i on s) = buttons_ok s"
    by (simp add: buttons_ok_def tick_box_def split: option.splits)
  ultimately show ?thesis
    using ok same unfolding dg_ok_def typed_matches_def dg_offered_def by simp
qed

lemma type_text_ok: "dg_ok s \<Longrightarrow> dg_ok (type_text t v s)"
  by (auto simp: dg_ok_def type_text_def sync_typed_def sync_hint_def typed_matches_def dg_offered_def
      boxes_ok_def buttons_ok_def Let_def)

lemma key_tab_ok: "dg_ok s \<Longrightarrow> dg_ok (key_tab t s)"
  by (auto simp: dg_ok_def key_tab_def sync_hint_def typed_matches_def dg_offered_def boxes_ok_def buttons_ok_def)

lemma settle_ok: "dg_ok s \<Longrightarrow> dg_ok (fst (settle_app_confirm t ok s))"
  unfolding settle_app_confirm_def by (simp add: dg_ok_def typed_matches_def)

lemma dg_step_ok: "dg_ok s \<Longrightarrow> dg_ok (fst (dg_step t e s))"
  using settle_ok [of s t]
  by (cases e) (auto simp: dg_step_def key_enter_def open_dialog_ok press_choice_ok tick_all_ok tick_box_ok
      type_text_ok key_tab_ok case_prod_beta)

section \<open>A page's dialog from its opening\<close>

definition dg_closed :: "dialog \<Rightarrow> bool" where
  "dg_closed s \<longleftrightarrow> dg_resolve s = None \<and> dg_mode s = Confirm_mode \<and> dg_ok s"

fun is_ask :: "dlg_event \<Rightarrow> bool" where
  "is_ask (Ask q msg ob m) = True"
| "is_ask e = False"

text \<open>The questions put so far, newest first, each with its options, and the answers given.\<close>

inductive dg_run :: "dict \<Rightarrow> dialog \<Rightarrow> (nat \<times> js \<times> dlg_mode) list \<Rightarrow> (nat \<times> js) list \<Rightarrow> bool" for t where
  start: "dg_closed s \<Longrightarrow> dg_run t s [] []"
| ask: "dg_run t s asked given \<Longrightarrow> q \<notin> fst ` set asked \<Longrightarrow>
    dg_run t (open_dialog t q msg ob m s) ((q, ob, m) # asked) given"
| act: "dg_run t s asked given \<Longrightarrow> \<not> is_ask e \<Longrightarrow> dg_step t e s = (s', r) \<Longrightarrow>
    dg_run t s' asked (case r of None \<Rightarrow> given | Some a \<Rightarrow> a # given)"

text \<open>An event that is no question keeps the question there is, or ends it.\<close>

definition dg_keeps :: "dialog \<Rightarrow> dialog \<Rightarrow> bool" where
  "dg_keeps s s' \<longleftrightarrow> dg_resolve s' = dg_resolve s \<and> dg_mode s' = dg_mode s \<and> dg_must s' = dg_must s"

lemma settle_cases:
  "settle_app_confirm t ok s = (s', r, b) \<Longrightarrow>
     (r = None \<and> dg_keeps s s') \<or> (dg_resolve s' = None \<and> r = map_option (\<lambda>q. (q, settled_value ok s)) (dg_resolve s)
        \<and> (ok \<and> dg_must s \<noteq> None \<and> dg_resolve s \<noteq> None \<longrightarrow> typed_matches s))"
  by (auto simp: settle_app_confirm_def dg_keeps_def split: if_splits)

lemma keeps_simps:
  "dg_keeps s (press_choice i s)" "dg_keeps s (tick_all on s)" "dg_keeps s (tick_box i on s)"
  "dg_keeps s (type_text t v s)" "dg_keeps s (key_tab t s)" "dg_keeps s s"
  by (auto simp: dg_keeps_def press_choice_def tick_all_def tick_box_def type_text_def key_tab_def
      sync_typed_def sync_hint_def Let_def split: option.splits)

lemma dg_step_cases:
  assumes "\<not> is_ask e" "dg_step t e s = (s', r)"
  obtains (keeps) "r = None" "dg_keeps s s'"
  | (answers) ok where "dg_resolve s' = None" "r = map_option (\<lambda>q. (q, settled_value ok s)) (dg_resolve s)"
      "ok \<Longrightarrow> dg_must s \<noteq> None \<Longrightarrow> dg_resolve s \<noteq> None \<Longrightarrow> typed_matches s"
proof -
  have "(r = None \<and> dg_keeps s s') \<or> (\<exists>ok b. settle_app_confirm t ok s = (s', r, b))"
    using assms keeps_simps
    by (cases e) (auto simp: dg_step_def key_enter_def split: prod.splits if_splits)
  with that settle_cases show thesis by metis
qed

lemma dg_run_inv:
  "dg_run t s asked given \<Longrightarrow>
     dg_ok s \<and> distinct (map fst given) \<and> fst ` set given \<subseteq> fst ` set asked \<and>
     (case dg_resolve s of None \<Rightarrow> True
      | Some q \<Rightarrow> q \<notin> fst ` set given \<and>
          (\<exists>ob rest. asked = (q, ob, dg_mode s) # rest \<and>
             (dg_mode s = Typed_mode \<longrightarrow> dg_must s = Some (js_text_nn (jget ob ''must'')))))"
proof (induction rule: dg_run.induct)
  case (start s)
  then show ?case by (simp add: dg_closed_def)
next
  case (ask s asked given q msg ob m)
  then show ?case using open_dialog_ok open_dialog_fields by (auto simp: image_iff)
next
  case (act s asked given e s' r)
  have ok: "dg_ok s'" using dg_step_ok [of s t e] act by simp
  from act.hyps(2,3) show ?case
  proof (cases rule: dg_step_cases)
    case keeps
    then show ?thesis using act.IH ok by (cases "dg_resolve s") (auto simp: dg_keeps_def)
  next
    case (answers b)
    show ?thesis
    proof (cases "dg_resolve s")
      case None
      then show ?thesis using answers act.IH ok by simp
    next
      case (Some q)
      then show ?thesis using answers act.IH ok by auto
    qed
  qed
qed

text \<open>However a page asks, over a dialog still open or not, and whatever is typed and pressed in between, a
  question is answered at most once.\<close>

theorem dg_answers_once:
  assumes "dg_run t s asked given"
  shows "distinct (map fst given)"
  using dg_run_inv [OF assms] by simp

definition dg_blank :: dialog where
  "dg_blank = \<lparr>dg_resolve = None, dg_mode = Confirm_mode, dg_choice = None, dg_checks = None, dg_must = None,
     dg_pending = False, dg_shown = False, dg_tone = ''danger'', dg_scene = None, dg_title = [], dg_text = [],
     dg_meta = None, dg_buttons = [], dg_all = None, dg_boxes = [], dg_detail = [], dg_type = ''text'',
     dg_autocomplete = ''off'', dg_value = [], dg_placeholder = [], dg_input = False, dg_hint = False,
     dg_hint_title = [], dg_disabled = False, dg_label = [], dg_danger = False, dg_cancel = [],
     dg_focus = Focus_cancel\<rparr>"

lemma dg_blank_run: "dg_run t dg_blank [] []"
  by (rule dg_run.start) (simp add: dg_closed_def dg_ok_def dg_blank_def typed_matches_def)

text \<open>A question put over another one, then answered; and a typed one with its phrase in the box.\<close>

definition dg_asked_twice :: dialog where
  "dg_asked_twice = open_dialog (\<lambda>k vs. k) 1 (JStr ''B'') (JObj []) Confirm_mode
     (open_dialog (\<lambda>k vs. k) 0 (JStr ''A'') (JObj []) Confirm_mode dg_blank)"

definition dg_phrase :: js where
  "dg_phrase = JObj [(''must'', JStr ''box'')]"

definition dg_typed_in :: dialog where
  "dg_typed_in = type_text (\<lambda>k vs. k) '' box '' (open_dialog (\<lambda>k vs. k) 0 (JStr ''A'') dg_phrase Typed_mode dg_blank)"

lemma dg_typed_run: "dg_run (\<lambda>k vs. k) dg_typed_in [(0, dg_phrase, Typed_mode)] []"
proof -
  have "dg_run (\<lambda>k vs. k) (open_dialog (\<lambda>k vs. k) 0 (JStr ''A'') dg_phrase Typed_mode dg_blank)
      [(0, dg_phrase, Typed_mode)] []"
    using dg_run.ask [OF dg_blank_run] by fastforce
  from dg_run.act [OF this, of "Type_text '' box ''" dg_typed_in None] show ?thesis
    by (simp add: dg_step_def dg_typed_in_def)
qed

lemma dg_answers_once_witness:
  "distinct (map fst [(1 :: nat, JBool True)])"
proof -
  have "dg_run (\<lambda>k vs. k) dg_asked_twice
      [(1, JObj [], Confirm_mode), (0, JObj [], Confirm_mode)] []"
    unfolding dg_asked_twice_def
    by (rule dg_run.ask, rule dg_run.ask [OF dg_blank_run]) simp_all
  moreover have "snd (dg_step (\<lambda>k vs. k) Confirm_pressed dg_asked_twice) = Some (1, JBool True)"
    by (simp add: dg_step_def dg_asked_twice_def open_dialog_def dg_box_def dg_asks_def settle_app_confirm_def
        settled_value_def Let_def)
  moreover obtain s' r where st: "dg_step (\<lambda>k vs. k) Confirm_pressed dg_asked_twice = (s', r)" by fastforce
  ultimately have run: "dg_run (\<lambda>k vs. k) dg_asked_twice [(1, JObj [], Confirm_mode), (0, JObj [], Confirm_mode)] []"
    and r: "r = Some (1, JBool True)" by simp_all
  from dg_run.act [OF run _ st] r
  have "dg_run (\<lambda>k vs. k) s' [(1, JObj [], Confirm_mode), (0, JObj [], Confirm_mode)] [(1, JBool True)]" by simp
  from dg_answers_once [OF this] show ?thesis .
qed

text \<open>The question that waits for typed words is confirmed by nothing else: whatever the event, it is
  answered yes only while what stands in the box, trimmed, is the phrase it was put with.\<close>

theorem dg_typed_takes_the_words:
  assumes "dg_run t s ((q, ob, Typed_mode) # asked) given" and "\<not> is_ask e"
    and "dg_step t e s = (s', Some (q', JBool True))"
  shows "js_trim (dg_value s) = js_text_nn (jget ob ''must'')"
  using assms(2,3)
proof (cases rule: dg_step_cases)
  case keeps
  then show ?thesis by simp
next
  case (answers ok)
  then obtain p where p: "dg_resolve s = Some p" "settled_value ok s = JBool True"
    by (cases "dg_resolve s") auto
  with dg_run_inv [OF assms(1)] have m: "dg_mode s = Typed_mode" "dg_must s = Some (js_text_nn (jget ob ''must''))"
    by auto
  with p have "ok" by (simp add: settled_value_def)
  with answers(3) m p show ?thesis by (simp add: typed_matches_def trimmed_is_def)
qed

lemma dg_typed_takes_the_words_witness:
  "js_trim (dg_value dg_typed_in) = js_text_nn (jget dg_phrase ''must'')"
proof -
  have "js_trim '' box '' = ''box''" by code_simp
  then have "snd (dg_step (\<lambda>k vs. k) Key_enter dg_typed_in) = Some (0, JBool True)"
    by (simp add: dg_step_def key_enter_def dg_typed_in_def type_text_def open_dialog_def dg_box_def dg_asks_def
        sync_typed_def typed_matches_def trimmed_is_def dg_phrase_def js_text_nn_def settle_app_confirm_def
        settled_value_def Let_def)
  then have "dg_step (\<lambda>k vs. k) Key_enter dg_typed_in =
      (fst (dg_step (\<lambda>k vs. k) Key_enter dg_typed_in), Some (0, JBool True))"
    by (metis prod.collapse)
  from dg_typed_takes_the_words [OF dg_typed_run _ this] show ?thesis by simp
qed

section \<open>The answers are what the dialog shows\<close>

text \<open>What the dialog shows ticked, and pressed.\<close>

definition shown_answer :: "dialog \<Rightarrow> js" where
  "shown_answer s = (if dg_all s = Some True then JStr ''all''
     else JArr (map (\<lambda>b. JStr (bx_value b)) (filter bx_on (dg_boxes s))))"

lemma filter_map_values:
  "map bx_value bs = vs \<Longrightarrow> \<forall>b \<in> set bs. bx_on b = P (bx_value b) \<Longrightarrow>
     map (\<lambda>b. JStr (bx_value b)) (filter bx_on bs) = map JStr (filter P vs)"
  by (induction bs arbitrary: vs) auto

definition boxes_distinct :: "dialog \<Rightarrow> bool" where
  "boxes_distinct s \<longleftrightarrow> distinct (map bx_value (dg_boxes s))"

definition all_agrees :: "dialog \<Rightarrow> bool" where
  "all_agrees s = (case (dg_checks s, dg_all s) of (Some c, Some a) \<Rightarrow> ck_all c = a
     | (Some c, None) \<Rightarrow> \<not> ck_all c | (None, _) \<Rightarrow> False)"

lemma all_agrees_steps:
  "all_agrees s \<Longrightarrow> all_agrees (press_choice i s)" "all_agrees s \<Longrightarrow> all_agrees (tick_all on s)"
  "all_agrees s \<Longrightarrow> all_agrees (tick_box i on s)" "all_agrees s \<Longrightarrow> all_agrees (type_text t v s)"
  "all_agrees s \<Longrightarrow> all_agrees (key_tab t s)"
  by (auto simp: all_agrees_def press_choice_def tick_all_def tick_box_def type_text_def key_tab_def
      sync_typed_def sync_hint_def Let_def split: option.splits)

lemma open_checks_all_agrees: "all_agrees (open_dialog t q msg ob Checks_mode s)"
  by (auto simp: all_agrees_def open_dialog_def Let_def dg_box_def dg_asks_def render_checks_def all_first_def)

lemma settle_keeps_or_ends:
  "settle_app_confirm t ok s = (s', r, b) \<Longrightarrow> s' = s \<or> dg_mode s' = Confirm_mode"
  by (auto simp: settle_app_confirm_def split: if_splits)

lemma dg_run_all_agrees: "dg_run t s asked given \<Longrightarrow> dg_mode s = Checks_mode \<Longrightarrow> all_agrees s"
proof (induction rule: dg_run.induct)
  case (start s)
  then show ?case by (simp add: dg_closed_def)
next
  case (ask s asked given q msg ob m)
  then show ?case using open_checks_all_agrees by (simp add: open_dialog_fields)
next
  case (act s asked given e s' r)
  from act.hyps(2,3) have "(\<exists>ok r b. settle_app_confirm t ok s = (s', r, b)) \<or>
      (dg_mode s' = dg_mode s \<and> (all_agrees s \<longrightarrow> all_agrees s'))"
    using all_agrees_steps [of s] keeps_simps [of s]
    by (cases e) (auto simp: dg_step_def key_enter_def dg_keeps_def split: prod.splits if_splits)
  then consider (settles) ok r b where "settle_app_confirm t ok s = (s', r, b)"
    | (moves) "dg_mode s' = dg_mode s" "all_agrees s \<Longrightarrow> all_agrees s'"
    by metis
  then show ?case
  proof cases
    case settles
    from settle_keeps_or_ends [OF settles] act.prems act.IH show ?thesis by auto
  qed (use act in auto)
qed

text \<open>What a dialog of ticks answers is what it shows ticked: the values of the boxes that stand ticked, in
  the dialog's order, or all of them when the box for all is ticked.\<close>

theorem dg_ticks_are_answered:
  assumes "dg_run t s asked given" and "dg_mode s = Checks_mode" and "distinct (map bx_value (dg_boxes s))"
  shows "settled_value True s = shown_answer s"
proof -
  from dg_run_inv [OF assms(1)] assms(2) have b: "boxes_ok s" by (simp add: dg_ok_def)
  then obtain c where c: "dg_checks s = Some c" by (auto simp: boxes_ok_def split: option.splits)
  note agr = dg_run_all_agrees [OF assms(1,2)]
  show ?thesis
  proof (cases "ck_all c")
    case True
    with agr c assms(2) show ?thesis
      by (auto simp: settled_value_def checks_value_def shown_answer_def all_agrees_def split: option.splits)
  next
    case False
    with b c assms(3) have "map bx_value (dg_boxes s) = ck_order c"
      "\<forall>b \<in> set (dg_boxes s). bx_on b = (bx_value b \<in> set (ck_picked c))"
      by (auto simp: boxes_ok_def)
    note m = filter_map_values [OF this]
    have "dg_all s \<noteq> Some True" using agr c False by (auto simp: all_agrees_def split: option.splits)
    with m False c assms(2) show ?thesis
      by (simp add: settled_value_def checks_value_def shown_answer_def)
  qed
qed

definition two_choices :: js where
  "two_choices = JObj [(''choices'', JArr [JObj [(''value'', JStr ''p''), (''label'', JStr ''P'')],
                                         JObj [(''value'', JStr ''q''), (''label'', JStr ''Q'')]])]"

definition dg_two_boxes :: dialog where
  "dg_two_boxes = tick_box 1 True (open_dialog (\<lambda>k vs. k) 0 (JStr ''A'') two_choices Checks_mode dg_blank)"

lemma dg_ticks_are_answered_witness: "settled_value True dg_two_boxes = shown_answer dg_two_boxes"
proof -
  have "dg_run (\<lambda>k vs. k) (open_dialog (\<lambda>k vs. k) 0 (JStr ''A'') two_choices Checks_mode dg_blank)
      [(0, two_choices, Checks_mode)] []"
    using dg_run.ask [OF dg_blank_run] by fastforce
  from dg_run.act [OF this, of "Tick 1 True" dg_two_boxes None]
  have run: "dg_run (\<lambda>k vs. k) dg_two_boxes [(0, two_choices, Checks_mode)] []"
    by (simp add: dg_step_def dg_two_boxes_def)
  have "dg_mode dg_two_boxes = Checks_mode" "distinct (map bx_value (dg_boxes dg_two_boxes))"
    by (simp_all add: dg_two_boxes_def tick_box_def open_dialog_def Let_def dg_box_def dg_asks_def render_checks_def
        opt_choices_def choice_value_def two_choices_def)
  with run show ?thesis using dg_ticks_are_answered by blast
qed

section \<open>What is promised of a question\<close>

text \<open>
  The contract, for a reader of the page: what it was asked, what the dialog shows, and what ends it. Nothing of the
  module's own state is in it. A phrase is typed when it stands in the box with nothing but blanks around it; a phrase that
  begins or ends with a blank cannot be typed.
\<close>

definition blanks :: "string \<Rightarrow> bool" where
  "blanks w = list_all is_ws w"

definition phrase_stands :: "string \<Rightarrow> string \<Rightarrow> bool" where
  "phrase_stands phrase box = ((phrase = [] \<or> \<not> is_ws (hd phrase) \<and> \<not> is_ws (last phrase))
     \<and> (\<exists>before after. box = before @ phrase @ after \<and> blanks before \<and> blanks after))"

definition pressed_now :: "(string \<times> bool) list \<Rightarrow> string option" where
  "pressed_now buttons = map_option fst (find snd buttons)"

definition ticked_now :: "bool option \<Rightarrow> check_box list \<Rightarrow> js" where
  "ticked_now all boxes = (if all = Some True then JStr ''all'' else JArr [JStr (bx_value b). b \<leftarrow> boxes, bx_on b])"

text \<open>What yes answers; \<open>None\<close>: yes is not taken yet.\<close>

fun promised_yes :: "dlg_mode \<Rightarrow> string \<Rightarrow> dialog \<Rightarrow> js option" where
  "promised_yes Confirm_mode phrase s = Some (JBool True)"
| "promised_yes Typed_mode phrase s = (if phrase_stands phrase (dg_value s) then Some (JBool True) else None)"
| "promised_yes Prompt_mode phrase s = Some (JStr (dg_value s))"
| "promised_yes Choice_mode phrase s = Some (case pressed_now (dg_buttons s) of Some v \<Rightarrow> JStr v | None \<Rightarrow> JNull)"
| "promised_yes Checks_mode phrase s = Some (ticked_now (dg_all s) (dg_boxes s))"

definition promised_no :: "dlg_mode \<Rightarrow> js" where
  "promised_no m = (if m = Confirm_mode \<or> m = Typed_mode then JBool False else JNull)"

definition promised :: "dlg_mode \<Rightarrow> string \<Rightarrow> dialog \<Rightarrow> dlg_event \<Rightarrow> js option" where
  "promised m phrase s e = (case e of
       Cancelled \<Rightarrow> Some (promised_no m)
     | Confirm_pressed \<Rightarrow> promised_yes m phrase s
     | Key_enter \<Rightarrow> if m = Prompt_mode \<or> m = Typed_mode then promised_yes m phrase s else None
     | _ \<Rightarrow> None)"

lemma trim_splits: "\<exists>before after. v = before @ js_trim v @ after \<and> blanks before \<and> blanks after"
proof -
  obtain b where b: "v = b @ trim_start v" "blanks b"
    by (metis trim_start_def takeWhile_dropWhile_id blanks_def list_all_iff set_takeWhileD)
  obtain a where a: "trim_start v = trim_end (trim_start v) @ a" "blanks a"
  proof -
    have "trim_start v = rev (dropWhile is_ws (rev (trim_start v))) @ rev (takeWhile is_ws (rev (trim_start v)))"
      by (metis rev_append rev_rev_ident takeWhile_dropWhile_id)
    moreover have "blanks (rev (takeWhile is_ws (rev (trim_start v))))"
      by (auto simp: blanks_def list_all_iff dest: set_takeWhileD)
    ultimately show thesis using that by (simp add: trim_end_def)
  qed
  show ?thesis using a b by (metis js_trim_def append.assoc)
qed

lemma trim_start_blanks: "blanks b \<Longrightarrow> w = [] \<or> \<not> is_ws (hd w) \<Longrightarrow> trim_start (b @ w) = w"
  by (induction b) (cases w; auto simp: trim_start_def blanks_def)+

lemma trim_end_blanks: "blanks a \<Longrightarrow> w = [] \<or> \<not> is_ws (last w) \<Longrightarrow> trim_end (w @ a) = w"
  using trim_start_blanks [of "rev a" "rev w"] by (auto simp: trim_end_def trim_start_def blanks_def hd_rev)

lemma phrase_stands_trim: "phrase_stands phrase v \<longleftrightarrow> js_trim v = phrase"
proof
  assume "phrase_stands phrase v"
  then obtain b a where w: "phrase = [] \<or> \<not> is_ws (hd phrase) \<and> \<not> is_ws (last phrase)"
    and v: "v = b @ phrase @ a" "blanks b" "blanks a" by (auto simp: phrase_stands_def)
  show "js_trim v = phrase"
  proof (cases "phrase = []")
    case True
    then have "blanks v" using v by (simp add: blanks_def)
    then show ?thesis using True trim_start_blanks [of v "[]"] by (simp add: js_trim_def trim_end_def)
  next
    case False
    then have "hd (phrase @ a) = hd phrase" by simp
    then have "trim_start v = phrase @ a" using trim_start_blanks [OF v(2), of "phrase @ a"] w False v(1) by simp
    then show ?thesis using trim_end_blanks [OF v(3)] w by (auto simp: js_trim_def)
  qed
next
  assume "js_trim v = phrase"
  then show "phrase_stands phrase v" using trim_splits [of v] trim_ends [of v] by (auto simp: phrase_stands_def)
qed

text \<open>Only the choice that counts is shown pressed.\<close>

definition pressed_ok :: "dialog \<Rightarrow> bool" where
  "pressed_ok s = (\<forall>b \<in> set (dg_buttons s). snd b \<longrightarrow> dg_choice s = Some (fst b))"

lemma pressed_ok_steps:
  "pressed_ok (open_dialog t q msg ob m s)" "pressed_ok (press_choice i s) \<or> \<not> pressed_ok s"
  "pressed_ok (tick_all on s) = pressed_ok s" "pressed_ok (tick_box i on s) = pressed_ok s"
  "pressed_ok (type_text t v s) = pressed_ok s" "pressed_ok (key_tab t s) = pressed_ok s"
  by (auto simp: pressed_ok_def open_dialog_def Let_def dg_box_def dg_asks_def render_choices_def render_checks_def press_choice_def
      tick_all_def tick_box_def type_text_def key_tab_def sync_typed_def sync_hint_def split: option.splits)

lemma pressed_ok_settle: "settle_app_confirm t ok s = (s', r, b) \<Longrightarrow> pressed_ok s \<Longrightarrow> pressed_ok s'"
  by (auto simp: settle_app_confirm_def pressed_ok_def split: if_splits)

lemma dg_run_pressed: "dg_run t s asked given \<Longrightarrow> pressed_ok s"
proof (induction rule: dg_run.induct)
  case (start s)
  then show ?case by (simp add: dg_closed_def dg_ok_def pressed_ok_def)
next
  case (act s asked given e s' r)
  then show ?case using pressed_ok_steps [where s = s] pressed_ok_settle
    by (cases e) (auto simp: dg_step_def key_enter_def split: prod.splits if_splits)
qed (rule pressed_ok_steps)

text \<open>What the module answers yes with is what the contract reads off the dialog.\<close>

lemma pressed_is_chosen:
  assumes "pressed_ok s" "buttons_ok s"
  shows "pressed_now (dg_buttons s) = dg_choice s"
proof (cases "dg_choice s")
  case None
  then show ?thesis using assms(2) by (simp add: buttons_ok_def pressed_now_def)
next
  case (Some c)
  then have "(c, True) \<in> set (dg_buttons s)" using assms(2) by (simp add: buttons_ok_def)
  then obtain b where b: "find snd (dg_buttons s) = Some b" by (cases "find snd (dg_buttons s)") (auto simp: find_None_iff)
  then have "b \<in> set (dg_buttons s)" "snd b" by (auto simp: find_Some_iff)
  then show ?thesis using assms(1) b by (auto simp: pressed_ok_def pressed_now_def)
qed

lemma ticked_list: "[JStr (bx_value b). b \<leftarrow> bs, bx_on b] = map (\<lambda>b. JStr (bx_value b)) (filter bx_on bs)"
  by (induction bs) simp_all

lemma yes_as_promised:
  assumes "dg_run t s ((q, ob, m) # asked) given" "dg_resolve s = Some q"
    and "m = Checks_mode \<Longrightarrow> distinct (map bx_value (dg_boxes s))"
  shows "promised_yes m (js_text_nn (jget ob ''must'')) s =
      (if dg_must s \<noteq> None \<and> \<not> typed_matches s then None else Some (settled_value True s))"
    and "promised_no m = settled_value False s" and "dg_mode s = m" and "dg_ok s"
proof -
  show m: "dg_mode s = m" and ok: "dg_ok s" using dg_run_inv [OF assms(1)] assms(2) by auto
  have must: "dg_must s = (if m = Typed_mode then Some (js_text_nn (jget ob ''must'')) else None)"
    using dg_run_inv [OF assms(1)] assms(2) m by (auto simp: dg_ok_def)
  show "promised_no m = settled_value False s" using m by (cases m) (simp_all add: promised_no_def settled_value_def)
  show "promised_yes m (js_text_nn (jget ob ''must'')) s =
      (if dg_must s \<noteq> None \<and> \<not> typed_matches s then None else Some (settled_value True s))"
  proof (cases m)
    case Choice_mode
    then have "pressed_now (dg_buttons s) = dg_choice s" using pressed_is_chosen [OF dg_run_pressed [OF assms(1)]] ok m by (simp add: dg_ok_def)
    then show ?thesis using Choice_mode m must by (simp add: settled_value_def)
  next
    case Checks_mode
    then have "settled_value True s = shown_answer s" using dg_ticks_are_answered [OF assms(1)] assms(3) m by simp
    moreover have "ticked_now (dg_all s) (dg_boxes s) = shown_answer s"
      by (simp add: ticked_now_def shown_answer_def ticked_list)
    ultimately show ?thesis using Checks_mode must by simp
  qed (use m must in \<open>simp_all add: settled_value_def phrase_stands_trim typed_matches_def trimmed_is_def\<close>)
qed

text \<open>(C5) The dialog keeps its contract. After any run of questions, also one put over another, of typing, presses and ticks, an
  event ends the question that waits exactly when the contract says so and answers it with what the contract reads off
  the page: no for Cancel; for the button, and Enter in the box, yes, the text in the box, the choice shown pressed or the values
  shown ticked; and a question that waits for a phrase is not taken for a yes until the phrase stands in the box.\<close>

theorem dg_answers_as_promised:
  assumes "dg_run t s ((q, ob, m) # asked) given" "dg_resolve s = Some q" "\<not> is_ask e"
    and "m = Checks_mode \<Longrightarrow> distinct (map bx_value (dg_boxes s))"
  shows "snd (dg_step t e s) = map_option (Pair q) (promised m (js_text_nn (jget ob ''must'')) s e)
    \<and> dg_resolve (fst (dg_step t e s)) = (if promised m (js_text_nn (jget ob ''must'')) s e = None then Some q else None)"
proof -
  note yes = yes_as_promised [OF assms(1,2,4)]
  have ok: "dg_pending s" "dg_disabled s = (dg_must s \<noteq> None \<and> \<not> typed_matches s)" "dg_input s = (m = Typed_mode \<or> m = Prompt_mode)"
    "(m = Typed_mode) = (dg_must s \<noteq> None)"
    using yes(3,4) assms(2) by (auto simp: dg_ok_def)
  have settle: "settle_app_confirm t b s = (s', r, w) \<Longrightarrow>
      r = (if b \<and> dg_must s \<noteq> None \<and> \<not> typed_matches s then None else Some (q, settled_value b s))
      \<and> dg_resolve s' = (if b \<and> dg_must s \<noteq> None \<and> \<not> typed_matches s then Some q else None)" for b s' r w
    using assms(2) by (auto simp: settle_app_confirm_def split: if_splits)
  have keep: "dg_resolve (press_choice i s) = Some q" "dg_resolve (tick_box i on s) = Some q" "dg_resolve (tick_all on s) = Some q"
    "dg_resolve (type_text t v s) = Some q" "dg_resolve (key_tab t s) = Some q" for i on v
    using keeps_simps assms(2) by (auto simp: dg_keeps_def)
  obtain s1 r1 w1 s2 r2 w2 where runs: "settle_app_confirm t True s = (s1, r1, w1)" "settle_app_confirm t False s = (s2, r2, w2)"
    by (metis prod_cases3)
  note said = settle [OF runs(1)] settle [OF runs(2)]
  show ?thesis
  proof (cases e)
    case Key_enter
    then show ?thesis using ok said yes(1) assms(2) by (simp add: dg_step_def key_enter_def promised_def runs)
  next
    case Confirm_pressed
    then show ?thesis using ok said yes(1) assms(2) by (simp add: dg_step_def promised_def runs)
  next
    case Cancelled
    then show ?thesis using said yes(2) by (simp add: dg_step_def promised_def runs)
  qed (use assms(3) keep in \<open>simp_all add: dg_step_def promised_def\<close>)
qed

lemma dg_answers_as_promised_witness:
  "snd (dg_step (\<lambda>k vs. k) Key_enter dg_typed_in) = Some (0, JBool True)"
proof -
  have "js_trim '' box '' = ''box''" by code_simp
  then have "phrase_stands ''box'' '' box ''" by (simp only: phrase_stands_trim)
  moreover have "dg_value dg_typed_in = '' box ''" "dg_resolve dg_typed_in = Some 0" "js_text_nn (jget dg_phrase ''must'') = ''box''"
    by (simp_all add: dg_typed_in_def type_text_def open_dialog_def dg_box_def dg_asks_def sync_typed_def dg_phrase_def js_text_nn_def Let_def)
  ultimately show ?thesis
    using dg_answers_as_promised [OF dg_typed_run, of Key_enter] by (simp add: promised_def)
qed

end
