(* ===== verification/Consumers.thy ===== *)
theory Consumers
  imports Utils Flows
begin

text \<open>
  The consumers of the entry: how one gets in (\<open>consumer-access.js\<close>) and its card with its three
  actions (\<open>consumers.js\<close>). An action is a flow: what it asks, sends, applies and says, in its order,
  for every answer of the operator and of the controller and with the board as it is then. The class
  of a card that is lit and the text of a time of day are the board's and the browser's, and are given.
\<close>

section \<open>The entry's own desk\<close>

definition num_js :: "jnum \<Rightarrow> js" where
  "num_js n = (case n of Fin r \<Rightarrow> JNum r | _ \<Rightarrow> JNull)"

definition entry_of :: "js \<Rightarrow> js" where
  "entry_of bd = jget bd ''entry''"

definition entry_url :: "js \<Rightarrow> string" where
  "entry_url bd = js_text (jget (entry_of bd) ''url'')"

text \<open>\<open>Number(x || 0)\<close>, and whether it is one to go by.\<close>

definition port_number :: "js \<Rightarrow> jnum" where
  "port_number v = js_number (js_or v (JNum 0))"

definition num_truthy :: "jnum \<Rightarrow> bool" where
  "num_truthy n = (n \<noteq> NaN \<and> n \<noteq> Fin 0)"

definition entry_port_offered :: string where
  "entry_port_offered = ''23999''"

definition suggested_address :: "string \<Rightarrow> string" where
  "suggested_address host =
     (if CHR ''.'' \<notin> set host \<or> list_all (\<lambda>c. is_digit c \<or> c = CHR ''.'') host \<or> CHR '':'' \<in> set host then []
      else (let ws = js_split CHR ''.'' host in ''https://'' @ hd ws @ ''-api.'' @ js_join ''.'' (tl ws) @ ''/v1''))"

definition seen_html :: "dict \<Rightarrow> (rat \<Rightarrow> string) \<Rightarrow> js \<Rightarrow> string" where
  "seen_html t clock since =
     (let sec = num_of since in
      if sec = 0 then []
      else ''<span class=\"cv-in-seen\" title=\"'' @ escape_html (t ''consumerSeenTitle'' []) @ ''\">''
        @ [CHR 0xC2, CHR 0xB7] @ '' '' @ escape_html (clock sec) @ ''</span>'')"

definition key_sign :: string where
  "key_sign = [CHR 0xF0, CHR 0x9F, CHR 0x94, CHR 0x91] @ '' '' @ [CHR 0xE2, CHR 0x80, CHR 0xA6]"

definition back_sign :: string where "back_sign = [CHR 0xE2, CHR 0x86, CHR 0xBA]"
definition edit_sign :: string where "edit_sign = [CHR 0xE2, CHR 0x9C, CHR 0x8E]"
definition cross_sign :: string where "cross_sign = [CHR 0xE2, CHR 0x9C, CHR 0x95]"
definition copy_sign :: string where "copy_sign = [CHR 0xE2, CHR 0xA7, CHR 0x89]"

definition line_html :: "dict \<Rightarrow> (rat \<Rightarrow> string) \<Rightarrow> js \<Rightarrow> js \<Rightarrow> string" where
  "line_html t clock bd p =
     (let port = escape_html (js_string (jget p ''port'')); seen = seen_html t clock (jget p ''lastRequestAt'');
          tail = js_text (jget p ''keyTail''); is_closed = js_truthy (jget p ''portClosed'');
          key = ''<span class=\"cv-in-key\" data-t=\"routing-consumer-key\" data-t-state=\"''
            @ (if is_closed then ''entry'' else ''open'') @ ''\" title=\"'' @ escape_html (t ''consumerKeyTitle'' []) @ ''\">''
            @ key_sign @ escape_html tail @ ''</span>'';
          again = escape_html (t ''consumerReopenTitle'' [(''port'', js_string (jget p ''port''))])
      in if tail = [] then
           ''<span class=\"cv-in-key none'' @ (if jget bd ''portsReachable'' = JBool False then [] else '' quiet'')
           @ ''\" data-t=\"routing-consumer-key\" data-t-state=\"none\">'' @ escape_html (t ''consumerNoKey'' []) @ ''</span>''
           @ ''<span class=\"cv-in-port-num\">:'' @ port @ ''</span>'' @ seen
           @ ''<button class=\"cv-in-act\" type=\"button\" data-cv-port-key=\"'' @ port
           @ ''\" data-t=\"routing-consumer-give-key\">'' @ escape_html (t ''consumerGiveKey'' []) @ ''</button>''
         else if is_closed then
           key @ ''<span class=\"cv-in-access entry\">'' @ escape_html (t ''consumerEntryOnly'' []) @ ''</span>'' @ seen
           @ ''<button class=\"cv-in-act quiet\" type=\"button\" data-cv-port-reopen=\"'' @ port
           @ ''\" data-t=\"routing-consumer-reopen\" title=\"'' @ again @ ''\" aria-label=\"'' @ again @ ''\">'' @ back_sign @ ''</button>''
         else
           key @ ''<span class=\"cv-in-access open\">''
           @ escape_html (t ''consumerPortOpen'' [(''port'', js_string (jget p ''port''))]) @ ''</span>'' @ seen
           @ ''<button class=\"cv-in-act\" type=\"button\" data-cv-port-close=\"'' @ port
           @ ''\" data-t=\"routing-consumer-close\">'' @ escape_html (t ''consumerClosePort'' []) @ ''</button>'')"

text \<open>\<open>url.replace(/^https?:\/\//, "")\<close>.\<close>

definition drop_scheme :: "string \<Rightarrow> string" where
  "drop_scheme url = (if prefix ''http://'' url then drop 7 url else if prefix ''https://'' url then drop 8 url else url)"

definition entry_html :: "dict \<Rightarrow> js \<Rightarrow> string" where
  "entry_html t entry =
     (let url = js_text (jget entry ''url''); port = port_number (jget entry ''port''); has = num_truthy port; pt = num_str port;
          off = (if has then ''<button class=\"cv-in-act quiet\" type=\"button\" data-cv-entry-off data-t=\"routing-entry-off\" title=\"''
              @ escape_html (t ''consumerEntryTurnOff'' []) @ ''\" aria-label=\"'' @ escape_html (t ''consumerEntryTurnOff'' [])
              @ ''\">'' @ cross_sign @ ''</button>'' else []);
          shown = drop_scheme url
      in if url = [] then
           ''<div class=\"cv-entry off\" data-t=\"routing-entry\" data-t-state=\"'' @ (if has then ''nameless'' else ''off'')
           @ ''\" title=\"'' @ escape_html (t ''consumerEntryOffTitle'' []) @ ''\"><span>''
           @ escape_html (if has then t ''consumerEntryNoName'' [(''port'', pt)] else t ''consumerEntryOff'' []) @ ''</span>''
           @ ''<button class=\"cv-in-act\" type=\"button\" data-cv-entry-setup data-t=\"routing-entry-setup\">''
           @ escape_html (t ''consumerEntrySetup'' []) @ ''</button>'' @ off
           @ ''<small class=\"cv-entry-why\" data-t=\"routing-entry-why\">'' @ escape_html (t ''consumerEntryWhy'' []) @ ''</small></div>''
         else
           ''<div class=\"cv-entry\" data-t=\"routing-entry\" data-t-state=\"on\" title=\"'' @ escape_html (t ''consumerEntryTitle'' [])
           @ ''\"><span class=\"cv-entry-url\">'' @ escape_html shown @ ''</span>''
           @ (if has \<and> \<not> str_includes shown ('':'' @ pt)
              then ''<span class=\"cv-entry-port\" data-t=\"routing-entry-port\" title=\"''
                @ escape_html (t ''consumerEntryPortTitle'' [(''port'', pt)]) @ ''\">''
                @ escape_html (t ''consumerEntryPort'' [(''port'', pt)]) @ ''</span>'' else [])
           @ ''<button class=\"cv-in-act quiet\" type=\"button\" data-cv-entry-copy data-t=\"routing-entry-copy\" title=\"''
           @ escape_html (t ''consumerCopyEntry'' []) @ ''\" aria-label=\"'' @ escape_html (t ''consumerCopyEntry'' []) @ ''\">'' @ copy_sign @ ''</button>''
           @ ''<button class=\"cv-in-act quiet\" type=\"button\" data-cv-entry-setup data-t=\"routing-entry-setup\" title=\"''
           @ escape_html (t ''consumerEntryEdit'' []) @ ''\" aria-label=\"'' @ escape_html (t ''consumerEntryEdit'' []) @ ''\">'' @ edit_sign
           @ ''</button>'' @ off @ ''</div>'')"

section \<open>The desk's actions\<close>

definition danger_opts :: "string \<Rightarrow> string \<Rightarrow> js" where
  "danger_opts title label = JObj [(''title'', JStr title), (''danger'', JBool True), (''confirmLabel'', JStr label)]"

definition typed_port :: "js \<Rightarrow> js" where
  "typed_port v = (let s = js_trim (js_string v) in if s = [] then JNum 0 else num_js (str_number s))"

definition setup_entry :: "dict \<Rightarrow> string \<Rightarrow> js \<Rightarrow> flow" where
  "setup_entry t host bd =
     (let entry = js_or (entry_of bd) (JObj []) in
      ask_value (Prompt_req (t ''entryAddressAsk'' []) (JObj [(''text'', JStr (t ''entryAddressText'' [])),
          (''value'', JStr (js_text (jget entry ''publicUrl''))), (''placeholder'', JStr (suggested_address host))]))
        (\<lambda>url bd1. if url = JNull then Done JNull bd1
         else ask_value (Prompt_req (t ''entryPortAsk'' []) (JObj [(''text'', JStr (t ''entryPortText'' [])),
             (''value'', JStr (if js_truthy (jget entry ''port'') then js_string (jget entry ''port'') else [])),
             (''placeholder'', JStr entry_port_offered)]))
           (\<lambda>port bd2. if port = JNull then Done JNull bd2
            else try_call (Send_req ''/api/agent-proxy-entry''
                (JObj [(''port'', typed_port port), (''publicUrl'', JStr (js_trim (js_string url)))]))
              (\<lambda>res bd3. ask_value Read_board (\<lambda>b bd4. apply_if b bd4 (\<lambda>now.
                 Say (if js_truthy (jget res ''port'')
                      then t ''entrySaved'' [(''port'', js_string (jget res ''port'')),
                        (''url'', (let u = js_text (jget res ''publicUrl'') in if u = [] then dash else u))]
                      else t ''consumerEntryOff'' []) (Done res now)))))))"

definition turn_off_entry :: "dict \<Rightarrow> js \<Rightarrow> flow" where
  "turn_off_entry t bd =
     (let port = port_number (jget (entry_of bd) ''port'') in
      if \<not> num_truthy port then Done JNull bd
      else ask_value (Confirm_req (t ''entryOffText'' [(''port'', num_str port)])
          (danger_opts (t ''entryOffAsk'' []) (t ''entryOffConfirm'' [])))
        (\<lambda>sure bd1. if \<not> js_truthy sure then Done JNull bd1
         else try_call (Send_req ''/api/agent-proxy-entry'' (JObj [(''port'', JNum 0), (''publicUrl'', JStr [])]))
           (\<lambda>res bd2. ask_value Read_board (\<lambda>b bd3. apply_if b bd3 (\<lambda>now.
              Say (t ''consumerEntryOff'' []) (Done res now))))))"

definition proxies_of :: "js \<Rightarrow> js list" where
  "proxies_of bd = js_list (js_or (jget bd ''proxies'') (JArr []))"

definition on_port :: "js \<Rightarrow> js \<Rightarrow> bool" where
  "on_port port p = jnum_eq (js_number (jget p ''port'')) (js_number port)"

definition cn_route :: "js \<Rightarrow> js \<Rightarrow> js" where
  "cn_route bd port = (case find (on_port port) (proxies_of bd) of Some p \<Rightarrow> p | None \<Rightarrow> JNull)"

text \<open>\<open>s.replace(/\s+(primary|fallback)$/i, "")\<close>.\<close>

definition drop_role :: "string \<Rightarrow> string" where
  "drop_role s =
     (let cut = (\<lambda>w. let h = take (length s - length w) s in
          if length w < length s \<and> js_lower (drop (length s - length w) s) = w \<and> is_ws (last h) then Some (trim_end h) else None)
      in case cut ''primary'' of Some h \<Rightarrow> h | None \<Rightarrow> (case cut ''fallback'' of Some h \<Rightarrow> h | None \<Rightarrow> s))"

definition cn_name :: "js \<Rightarrow> js \<Rightarrow> string" where
  "cn_name bd port =
     (let n = js_trim (drop_role (js_text (jget (cn_route bd port) ''label''))) in if n = [] then '':'' @ js_string port else n)"

definition key_answer :: "dict \<Rightarrow> string \<Rightarrow> js \<Rightarrow> js \<Rightarrow> js \<Rightarrow> (js \<Rightarrow> flow) \<Rightarrow> flow" where
  "key_answer t w opts res bd k =
     ask_value (Confirm_req w opts) (\<lambda>copy bd1. if js_truthy copy \<and> js_truthy (jget res ''key'')
       then ask_value (Copy_req (js_string (jget res ''key''))) (\<lambda>copied bd2.
         Say (if js_truthy copied then t ''consumerKeyCopied'' [] else js_string (jget res ''key'')) (k bd2))
       else k bd1)"

definition copy_opts :: "dict \<Rightarrow> string \<Rightarrow> js" where
  "copy_opts t title = JObj [(''title'', JStr title), (''danger'', JBool False),
     (''confirmLabel'', JStr (t ''consumerCopyKey'' [])), (''cancelLabel'', JStr (t ''consumerDone'' []))]"

text \<open>\<open>giveKey\<close>: with no entry the entry first, then the key.\<close>

function give_key :: "dict \<Rightarrow> string \<Rightarrow> js \<Rightarrow> js \<Rightarrow> flow" where
  "give_key t host port bd =
     (let name = cn_name bd port; address = entry_url bd in
      if address = [] then
        Say (t ''entryNeedsSetupFirst'' []) (flow_then (setup_entry t host bd) (\<lambda>made bd1.
          if \<not> js_truthy made \<or> entry_url bd1 = [] then Done JNull bd1 else give_key t host port bd1))
      else ask_value (Confirm_req (t ''consumerGiveKeyText'' [(''name'', name), (''port'', js_string port), (''address'', address)])
          (danger_opts (t ''consumerGiveKeyTitle'' [(''name'', name)]) (t ''consumerGiveKey'' [])))
        (\<lambda>sure bd1. if \<not> js_truthy sure then Done JNull bd1
         else try_call (Send_req ''/api/agent-proxies/route-key'' (JObj [(''port'', num_js (js_number port))]))
           (\<lambda>res bd2. apply_if (jget res ''topology'') bd2 (\<lambda>now.
              key_answer t (t ''consumerKeyGivenText'' [(''name'', name), (''key'', js_text (jget res ''key'')),
                  (''address'', js_string (js_or (jget res ''entryUrl'') (JStr address)))])
                (copy_opts t (t ''consumerKeyGivenTitle'' [(''name'', name)])) res now (\<lambda>bd3. Done res bd3)))))"
  by pat_completeness auto
termination by (relation "measure (\<lambda>(t, host, port, bd). if entry_url bd = [] then 1 else 0)") auto

declare give_key.simps [simp del]

definition port_policy :: "js \<Rightarrow> bool \<Rightarrow> string \<Rightarrow> js \<Rightarrow> flow" where
  "port_policy port is_closed said bd =
     try_call (Send_req ''/api/agent-proxies/route-policy''
         (JObj [(''port'', num_js (js_number port)), (''portClosed'', JBool is_closed)]))
       (\<lambda>res bd1. Say said (try_call Read_board (\<lambda>b bd2. apply_if b bd2 (\<lambda>now. Done res now))))"

definition close_port :: "dict \<Rightarrow> js \<Rightarrow> js \<Rightarrow> flow" where
  "close_port t port bd =
     ask_value (Confirm_req (t ''consumerCloseText'' [(''name'', cn_name bd port), (''port'', js_string port), (''address'', entry_url bd)])
         (danger_opts (t ''consumerCloseTitle'' [(''port'', js_string port)]) (t ''consumerClosePort'' [])))
       (\<lambda>sure bd1. if \<not> js_truthy sure then Done JNull bd1
        else port_policy port True (t ''consumerClosed'' [(''port'', js_string port)]) bd1)"

definition reopen_port :: "dict \<Rightarrow> js \<Rightarrow> js \<Rightarrow> flow" where
  "reopen_port t port bd = port_policy port False (t ''consumerReopened'' [(''port'', js_string port)]) bd"

definition copy_entry :: "dict \<Rightarrow> js \<Rightarrow> flow" where
  "copy_entry t bd =
     (let url = entry_url bd in
      if url = [] then Done (JBool False) bd
      else ask_value (Copy_req url) (\<lambda>copied bd1.
        Say (if js_truthy copied then t ''consumerEntryCopied'' [] else url) (Done copied bd1)))"

section \<open>The consumers of a board\<close>

text \<open>A consumer's place in the operator's order (\<open>None\<close>: not in it), and the comparator of \<open>of\<close>; \<open>lc\<close> is
  \<open>localeCompare\<close>.\<close>

definition cn_order :: "js \<Rightarrow> jnum list" where
  "cn_order bd = map js_number (js_list (js_or (jget (jget bd ''layout'') ''clientOrder'') (JArr [])))"

definition cn_rank :: "js \<Rightarrow> js \<Rightarrow> nat option" where
  "cn_rank bd p = find (\<lambda>k. jnum_eq (cn_order bd ! k) (js_number (jget p ''port''))) [0..<length (cn_order bd)]"

definition cn_label :: "js \<Rightarrow> string" where
  "cn_label p = js_text (jget p ''label'')"

definition cn_cmp :: "(string \<Rightarrow> string \<Rightarrow> int) \<Rightarrow> js \<Rightarrow> js \<Rightarrow> js \<Rightarrow> int" where
  "cn_cmp lc bd a b = (case (cn_rank bd a, cn_rank bd b) of
       (Some i, Some j) \<Rightarrow> if i \<noteq> j then int i - int j else lc (cn_label a) (cn_label b)
     | (Some i, None) \<Rightarrow> -1
     | (None, Some j) \<Rightarrow> 1
     | (None, None) \<Rightarrow> lc (cn_label a) (cn_label b))"

definition consumers_of :: "(string \<Rightarrow> string \<Rightarrow> int) \<Rightarrow> js \<Rightarrow> js list" where
  "consumers_of lc bd = js_sort (cn_cmp lc bd) (filter (\<lambda>p. jget p ''kind'' = JStr ''consumer'') (proxies_of bd))"

definition cn_consumer :: "(string \<Rightarrow> string \<Rightarrow> int) \<Rightarrow> js \<Rightarrow> js \<Rightarrow> js" where
  "cn_consumer lc bd port = (case find (on_port port) (consumers_of lc bd) of Some p \<Rightarrow> p | None \<Rightarrow> JNull)"

section \<open>A consumer's card\<close>

definition set_html :: "dict \<Rightarrow> js \<Rightarrow> string" where
  "set_html t p =
     (if js_nullish (jget p ''set'') then
        ''<span class=\"consumer-models unknown\" data-t=\"consumer-set\" data-t-state=\"unknown\">''
        @ escape_html (t ''consumerSetUnknown'' []) @ ''</span>''
      else if \<not> js_truthy (jget p ''set'') then
        ''<span class=\"consumer-models none\" data-t=\"consumer-set\" data-t-state=\"none\">''
        @ escape_html (t ''consumerSetNone'' []) @ ''</span>''
      else ''<span class=\"consumer-models\" data-t=\"consumer-set\" data-t-state=\"cabled\"><span class=\"consumer-model\">''
        @ escape_html (js_string (js_or (jget p ''setName'') (jget p ''set''))) @ ''</span></span>'')"

definition cn_activity_html :: "dict \<Rightarrow> js \<Rightarrow> string" where
  "cn_activity_html t p =
     ''<canvas class=\"consumer-activity\" data-consumer-activity=\"'' @ escape_html (cn_label p)
     @ ''\" data-open-route-activity data-t=\"consumer-activity\" data-t-id=\"'' @ escape_html (js_string (jget p ''port''))
     @ ''\" width=\"320\" height=\"16\" title=\"'' @ escape_html (t ''consumerActivityTitle'' []) @ ''\"></canvas>''"

definition cn_card_html :: "dict \<Rightarrow> (rat \<Rightarrow> string) \<Rightarrow> (js \<Rightarrow> string) \<Rightarrow> js \<Rightarrow> string" where
  "cn_card_html t clock lit_of p =
     (let port = escape_html (js_string (jget p ''port'')); pid = escape_html (js_text (jget p ''id''));
          mode = js_string (js_or (jget p ''mode'') (JStr ''open'')); lit = lit_of p; goes = js_truthy (jget p ''set'');
          act = (\<lambda>cls attr hook title label. ''<button class=\"consumer-act quiet'' @ cls @ ''\" type=\"button\" data-consumer-'' @ attr @ ''=\"''
            @ port @ ''\" data-t=\"'' @ hook @ ''\"'' @ title @ ''>'' @ label @ ''</button>'');
          named = (\<lambda>w. '' title=\"'' @ escape_html w @ ''\" aria-label=\"'' @ escape_html w @ ''\"'')
      in ''<article class=\"topology-card consumer-card'' @ (if mode \<in> {''paused'', ''drain''} then '' paused'' else [])
         @ (if lit \<noteq> [] then '' '' @ lit else []) @ ''\" data-t=\"board-consumer-card\" data-t-id=\"'' @ port
         @ ''\" data-topology-proxy=\"1\" data-proxy-id=\"'' @ pid @ ''\">''
         @ (if goes then ''<span class=\"topology-handle output consumer-out\" data-topology-proxy-output=\"1\" data-proxy-id=\"''
              @ pid @ ''\" aria-hidden=\"true\"></span>'' else [])
         @ ''<div class=\"consumer-head\"><strong class=\"consumer-name\">'' @ escape_html (cn_label p) @ ''</strong>''
         @ ''<span class=\"consumer-key\" data-t=\"consumer-key\" title=\"'' @ escape_html (t ''consumerKeyTitle'' []) @ ''\">'' @ key_sign
         @ escape_html (js_text (jget p ''keyTail'')) @ ''</span>'' @ seen_html t clock (jget p ''lastRequestAt'')
         @ ''<span class=\"consumer-acts\">''
         @ act [] ''key'' ''consumer-new-key'' [] (escape_html (t ''consumerNewKey'' []))
         @ act [] ''rename'' ''consumer-rename'' (named (t ''consumerRename'' [])) edit_sign
         @ act '' consumer-del'' ''delete'' ''consumer-delete'' (named (t ''consumerDelete'' [])) cross_sign
         @ ''</span></div>''
         @ (if goes then cn_activity_html t p else ''<div class=\"consumer-line\">'' @ set_html t p @ ''</div>'')
         @ ''</article>'')"

definition lane_html :: "dict \<Rightarrow> (rat \<Rightarrow> string) \<Rightarrow> (js \<Rightarrow> string) \<Rightarrow> (string \<Rightarrow> string \<Rightarrow> int) \<Rightarrow> js \<Rightarrow> string" where
  "lane_html t clock lit_of lc bd =
     ''<div class=\"consumer-entry\">'' @ entry_html t (entry_of bd) @ ''</div>''
     @ concat (map (cn_card_html t clock lit_of) (consumers_of lc bd))"

section \<open>The cards' actions\<close>

definition cn_send :: "string \<Rightarrow> js \<Rightarrow> string \<Rightarrow> bool \<Rightarrow> js \<Rightarrow> flow" where
  "cn_send path body said fetch bd =
     try_call (Send_req path body) (\<lambda>res bd1.
       let rest = (\<lambda>b bd2. apply_if b bd2 (\<lambda>now. if said \<noteq> [] then Say said (Done res now) else Done res now)) in
       if js_truthy (jget res ''topology'') then rest (jget res ''topology'') bd1
       else if fetch then ask_value Read_board rest else rest JNull bd1)"

definition show_key :: "dict \<Rightarrow> (string \<Rightarrow> string \<Rightarrow> int) \<Rightarrow> js \<Rightarrow> js \<Rightarrow> flow" where
  "show_key t lc res bd =
     (let models = js_list (js_or (jget (cn_consumer lc bd (jget res ''port'')) ''models'') (JArr []));
          model = (if models \<noteq> [] then js_join '', '' (map js_string models) else t ''consumerSetNone'' [])
      in key_answer t (t ''consumerKeyShownText'' [(''name'', js_text (jget res ''name'')), (''key'', js_text (jget res ''key'')),
             (''address'', js_string (js_or (js_or (jget res ''entryUrl'') (jget (entry_of bd) ''url'')) (JStr []))), (''model'', model)])
           (copy_opts t (t ''consumerKeyShownTitle'' [(''name'', js_text (jget res ''name''))])) res bd (\<lambda>bd1. Done res bd1))"

definition cn_create_named :: "dict \<Rightarrow> (string \<Rightarrow> string \<Rightarrow> int) \<Rightarrow> js \<Rightarrow> flow" where
  "cn_create_named t lc bd =
     ask_value (Prompt_req (t ''consumerNameAsk'' []) (JObj [(''text'', JStr (t ''consumerNameText'' [])), (''placeholder'', JStr ''Hermes'')]))
       (\<lambda>raw bd1. let name = js_trim (js_text_nn raw) in
          if name = [] then Done JNull bd1
          else try_call (Send_req ''/api/consumers/create'' (JObj [(''name'', JStr name)]))
            (\<lambda>res bd2. apply_if (jget res ''topology'') bd2 (\<lambda>now. show_key t lc res now)))"

definition cn_create :: "dict \<Rightarrow> string \<Rightarrow> (string \<Rightarrow> string \<Rightarrow> int) \<Rightarrow> js \<Rightarrow> flow" where
  "cn_create t host lc bd =
     (if entry_url bd = [] then
        Say (t ''entryNeedsSetupFirst'' []) (flow_then (setup_entry t host bd) (\<lambda>made bd1.
          if \<not> js_truthy made \<or> entry_url bd1 = [] then Done JNull bd1 else cn_create_named t lc bd1))
      else cn_create_named t lc bd)"

definition cn_new_key :: "dict \<Rightarrow> (string \<Rightarrow> string \<Rightarrow> int) \<Rightarrow> js \<Rightarrow> js \<Rightarrow> flow" where
  "cn_new_key t lc port bd =
     (let p = cn_consumer lc bd port; name = js_string (jget p ''label'') in
      if \<not> js_truthy p then Done JNull bd
      else ask_value (Confirm_req (t ''consumerNewKeyText'' [(''name'', name)])
          (danger_opts (t ''consumerNewKeyTitle'' [(''name'', name)]) (t ''consumerNewKey'' [])))
        (\<lambda>sure bd1. if \<not> js_truthy sure then Done JNull bd1
         else flow_then (cn_send ''/api/consumers/key'' (JObj [(''port'', num_js (js_number port))]) [] False bd1)
           (\<lambda>res bd2. if js_truthy res then show_key t lc res bd2 else Done res bd2)))"

definition cn_rename :: "dict \<Rightarrow> (string \<Rightarrow> string \<Rightarrow> int) \<Rightarrow> js \<Rightarrow> js \<Rightarrow> flow" where
  "cn_rename t lc port bd =
     (let p = cn_consumer lc bd port in
      if \<not> js_truthy p then Done JNull bd
      else ask_value (Prompt_req (t ''consumerRename'' []) (JObj [(''value'', JStr (cn_label p))]))
        (\<lambda>raw bd1. let name = js_trim (js_text_nn raw) in
           if name = [] \<or> JStr name = jget p ''label'' then Done JNull bd1
           else cn_send ''/api/agent-proxies/route-policy'' (JObj [(''port'', num_js (js_number port)), (''label'', JStr name)])
             (t ''consumerRenamed'' [(''name'', name)]) True bd1))"

definition cn_remove :: "dict \<Rightarrow> (string \<Rightarrow> string \<Rightarrow> int) \<Rightarrow> js \<Rightarrow> js \<Rightarrow> flow" where
  "cn_remove t lc port bd =
     (let p = cn_consumer lc bd port; name = js_string (jget p ''label'') in
      if \<not> js_truthy p then Done JNull bd
      else ask_value (Confirm_req (t ''consumerDeleteText'' [(''name'', name)])
          (danger_opts (t ''consumerDeleteTitle'' [(''name'', name)]) (t ''deleteAction'' [])))
        (\<lambda>sure bd1. if \<not> js_truthy sure then Done JNull bd1
         else cn_send ''/api/agent-proxies/route-delete'' (JObj [(''port'', num_js (js_number port))])
           (t ''consumerDeleted'' [(''name'', name)]) False bd1))"

text \<open>The buttons of the lane and of the clients' panel.\<close>

datatype cn_button = Entry_setup | Entry_copy | Entry_off | New_key js | Rename js | Remove js | Create
  | Give_key js | Close_port js | Reopen_port js

definition cn_press :: "dict \<Rightarrow> string \<Rightarrow> (string \<Rightarrow> string \<Rightarrow> int) \<Rightarrow> cn_button \<Rightarrow> js \<Rightarrow> flow" where
  "cn_press t host lc b bd = (case b of
       Entry_setup \<Rightarrow> setup_entry t host bd
     | Entry_copy \<Rightarrow> copy_entry t bd
     | Entry_off \<Rightarrow> turn_off_entry t bd
     | New_key port \<Rightarrow> cn_new_key t lc port bd
     | Rename port \<Rightarrow> cn_rename t lc port bd
     | Remove port \<Rightarrow> cn_remove t lc port bd
     | Create \<Rightarrow> cn_create t host lc bd
     | Give_key port \<Rightarrow> give_key t host port bd
     | Close_port port \<Rightarrow> close_port t port bd
     | Reopen_port port \<Rightarrow> reopen_port t port bd)"

section \<open>Nothing a client loses is done unasked\<close>

text \<open>What a client cannot undo: its key replaced or given (its port closes), its route deleted, its port closed.\<close>

definition cn_drastic :: "flow_req \<Rightarrow> bool" where
  "cn_drastic q = (case q of
       Send_req path body \<Rightarrow>
         path \<in> {''/api/consumers/key'', ''/api/agent-proxies/route-key'', ''/api/agent-proxies/route-delete''}
         \<or> (path = ''/api/agent-proxies/route-policy'' \<and> jget body ''portClosed'' = JBool True)
     | _ \<Rightarrow> False)"

lemma not_drastic [simp]:
  "\<not> cn_drastic (Confirm_req w opts)" "\<not> cn_drastic (Prompt_req w opts)" "\<not> cn_drastic Read_board"
  "\<not> cn_drastic (Copy_req w)" "\<not> cn_drastic (Send_req ''/api/agent-proxy-entry'' b)"
  "\<not> cn_drastic (Send_req ''/api/consumers/create'' b)"
  by (simp_all add: cn_drastic_def)

lemma yes_to_confirm [simp]: "yes_to (Confirm_req w opts) a \<longleftrightarrow> js_truthy (reply_value a)"
  by (simp add: yes_to_def reply_value_def split: sum.splits)

lemma asks_setup: "asks_first cn_drastic (setup_entry t host bd) y"
  by (simp add: setup_entry_def ask_value_def Let_def)

lemma asks_key_answer:
  "(\<And>bd y. asks_first D (k bd) y) \<Longrightarrow> (\<And>w opts. \<not> D (Confirm_req w opts)) \<Longrightarrow> (\<And>w. \<not> D (Copy_req w)) \<Longrightarrow>
     asks_first D (key_answer t w opts res bd k) y"
  by (simp add: key_answer_def ask_value_def)

lemma asks_show_key: "asks_first cn_drastic (show_key t lc res bd) y"
  by (simp add: show_key_def asks_key_answer Let_def)

lemma asks_send:
  "(cn_drastic (Send_req path body) \<longrightarrow> y) \<Longrightarrow> asks_first cn_drastic (cn_send path body said fetch bd) y"
  by (simp add: cn_send_def ask_value_def Let_def)

lemma asks_policy:
  "(is_closed \<longrightarrow> y) \<Longrightarrow> asks_first cn_drastic (port_policy port is_closed said bd) y"
  by (simp add: port_policy_def cn_drastic_def)

lemma asks_give_key: "asks_first cn_drastic (give_key t host port bd) y"
proof (induction t host port bd arbitrary: y rule: give_key.induct)
  case (1 t host port bd)
  show ?case
  proof (cases "entry_url bd = []")
    case True
    then show ?thesis
      by (subst give_key.simps) (auto simp: Let_def intro!: asks_first_then asks_setup "1.IH" [OF refl refl])
  next
    case False
    then show ?thesis
      by (subst give_key.simps) (simp add: Let_def ask_value_def asks_key_answer)
  qed
qed

lemma asks_create: "asks_first cn_drastic (cn_create t host lc bd) y"
  by (auto simp: cn_create_def cn_create_named_def ask_value_def Let_def asks_show_key
      intro!: asks_first_then asks_setup)

lemma asks_press: "asks_first cn_drastic (cn_press t host lc b bd) False"
proof (cases b)
  case (New_key port)
  then show ?thesis
    by (auto simp: cn_press_def cn_new_key_def ask_value_def Let_def asks_show_key intro!: asks_first_then asks_send)
next
  case (Rename port)
  then show ?thesis
    by (auto simp: cn_press_def cn_rename_def ask_value_def Let_def cn_drastic_def intro!: asks_send)
next
  case (Remove port)
  then show ?thesis
    by (auto simp: cn_press_def cn_remove_def ask_value_def Let_def intro!: asks_send)
next
  case (Close_port port)
  then show ?thesis
    by (auto simp: cn_press_def close_port_def ask_value_def intro!: asks_policy)
qed (auto simp: cn_press_def asks_setup asks_give_key asks_create turn_off_entry_def copy_entry_def reopen_port_def
    ask_value_def Let_def intro!: asks_policy)

text \<open>(C10) Whatever button of the clients is pressed, and whatever is answered in whatever state of the board: a
  key is replaced or given, a client deleted, a port closed only right after the operator said yes to
  the question about it.\<close>

theorem cn_nothing_lost_unasked:
  "asked_first cn_drastic False (flow_events (cn_press t host lc b bd) as)"
  by (rule asks_first_run) (rule asks_press)

section \<open>A press ends\<close>

lemma ends_ask_value [simp]:
  "ends_within (ask_value q k) n \<longleftrightarrow> n > 0 \<and> (\<forall>a bd. ends_within (k (reply_value a) bd) (n - 1))"
  by (simp add: ask_value_def)

lemma ends_setup: "ends_within (setup_entry t host bd) 4"
  by (simp add: setup_entry_def Let_def)

lemma ends_key_answer: "(\<And>bd n. ends_within (k bd) n) \<Longrightarrow> ends_within (key_answer t w opts res bd k) 2"
  by (simp add: key_answer_def)

lemma ends_show_key: "ends_within (show_key t lc res bd) 2"
  by (simp add: show_key_def Let_def ends_key_answer)

lemma ends_send: "ends_within (cn_send path body said fetch bd) 2"
  by (simp add: cn_send_def Let_def)

lemma ends_policy: "ends_within (port_policy port is_closed said bd) 2"
  by (simp add: port_policy_def)

lemma ends_give_key_with_entry: "entry_url bd \<noteq> [] \<Longrightarrow> ends_within (give_key t host port bd) 4"
  by (subst give_key.simps) (simp add: Let_def ends_key_answer)

lemma ends_give_key: "ends_within (give_key t host port bd) 8"
proof (cases "entry_url bd = []")
  case True
  have "ends_within (flow_then (setup_entry t host bd) (\<lambda>made bd1.
      if \<not> js_truthy made \<or> entry_url bd1 = [] then Done JNull bd1 else give_key t host port bd1)) (4 + 4)"
    by (rule ends_within_then [OF ends_setup]) (simp add: ends_give_key_with_entry)
  with True show ?thesis by (subst give_key.simps) (simp add: Let_def)
next
  case False
  then show ?thesis using ends_within_mono [OF ends_give_key_with_entry, of bd 8] by simp
qed

lemma ends_create_named: "ends_within (cn_create_named t lc bd) 4"
  using ends_show_key by (simp add: cn_create_named_def Let_def)

lemma ends_create: "ends_within (cn_create t host lc bd) 8"
proof (cases "entry_url bd = []")
  case True
  have "ends_within (flow_then (setup_entry t host bd) (\<lambda>made bd1.
      if \<not> js_truthy made \<or> entry_url bd1 = [] then Done JNull bd1 else cn_create_named t lc bd1)) (4 + 4)"
    by (rule ends_within_then [OF ends_setup]) (simp add: ends_create_named)
  with True show ?thesis by (simp add: cn_create_def)
next
  case False
  then show ?thesis using ends_within_mono [OF ends_create_named, of 8] by (simp add: cn_create_def)
qed

lemma ends_new_key: "ends_within (cn_new_key t lc port bd) 5"
proof -
  have "ends_within (flow_then (cn_send ''/api/consumers/key'' body [] False bd1)
      (\<lambda>res bd2. if js_truthy res then show_key t lc res bd2 else Done res bd2)) (2 + 2)" for body bd1
    by (rule ends_within_then [OF ends_send]) (simp add: ends_show_key)
  then show ?thesis by (simp add: cn_new_key_def Let_def)
qed

lemma ends_rest:
  "ends_within (cn_rename t lc port bd) 3" "ends_within (cn_remove t lc port bd) 3"
  "ends_within (close_port t port bd) 3" "ends_within (turn_off_entry t bd) 3" "ends_within (copy_entry t bd) 1"
  using ends_send ends_policy
  by (simp_all add: cn_rename_def cn_remove_def close_port_def turn_off_entry_def copy_entry_def Let_def)

text \<open>The call that sets the entry up.\<close>

definition sets_entry :: "flow_req \<Rightarrow> bool" where
  "sets_entry q = (case q of Send_req path body \<Rightarrow> path = ''/api/agent-proxy-entry'' | _ \<Rightarrow> False)"

lemma sets_entry_simps [simp]:
  "\<not> sets_entry (Confirm_req w opts)" "\<not> sets_entry (Prompt_req w opts)" "\<not> sets_entry Read_board" "\<not> sets_entry (Copy_req s)"
  "sets_entry (Send_req path body) = (path = ''/api/agent-proxy-entry'')"
  by (simp_all add: sets_entry_def)

lemma sets_setup: "asks_upto sets_entry (setup_entry t host bd) 1"
  by (simp add: setup_entry_def Let_def)

lemma sets_key_answer: "(\<And>bd. asks_upto sets_entry (k bd) n) \<Longrightarrow> asks_upto sets_entry (key_answer t w opts res bd k) n"
  by (simp add: key_answer_def)

lemma sets_show_key: "asks_upto sets_entry (show_key t lc res bd) n"
  by (simp add: show_key_def Let_def sets_key_answer)

lemma sets_send: "path \<noteq> ''/api/agent-proxy-entry'' \<Longrightarrow> asks_upto sets_entry (cn_send path body said fetch bd) n"
  by (simp add: cn_send_def Let_def)

lemma sets_policy: "asks_upto sets_entry (port_policy port is_closed said bd) n"
  by (simp add: port_policy_def)

lemma sets_give_key_with_entry: "entry_url bd \<noteq> [] \<Longrightarrow> asks_upto sets_entry (give_key t host port bd) n"
  by (subst give_key.simps) (simp add: Let_def sets_key_answer)

lemma sets_give_key: "asks_upto sets_entry (give_key t host port bd) 1"
proof (cases "entry_url bd = []")
  case True
  have "asks_upto sets_entry (flow_then (setup_entry t host bd) (\<lambda>made bd1.
      if \<not> js_truthy made \<or> entry_url bd1 = [] then Done JNull bd1 else give_key t host port bd1)) (1 + 0)"
    by (rule asks_upto_then [OF sets_setup]) (simp add: sets_give_key_with_entry)
  with True show ?thesis by (subst give_key.simps) (simp add: Let_def)
qed (rule sets_give_key_with_entry)

lemma sets_create_named: "asks_upto sets_entry (cn_create_named t lc bd) n"
  using sets_show_key by (simp add: cn_create_named_def Let_def)

lemma sets_create: "asks_upto sets_entry (cn_create t host lc bd) 1"
proof (cases "entry_url bd = []")
  case True
  have "asks_upto sets_entry (flow_then (setup_entry t host bd) (\<lambda>made bd1.
      if \<not> js_truthy made \<or> entry_url bd1 = [] then Done JNull bd1 else cn_create_named t lc bd1)) (1 + 0)"
    by (rule asks_upto_then [OF sets_setup]) (simp add: sets_create_named)
  with True show ?thesis by (simp add: cn_create_def)
qed (simp add: cn_create_def sets_create_named)

lemma sets_new_key: "asks_upto sets_entry (cn_new_key t lc port bd) 1"
proof -
  have "asks_upto sets_entry (flow_then (cn_send ''/api/consumers/key'' body [] False bd1)
      (\<lambda>res bd2. if js_truthy res then show_key t lc res bd2 else Done res bd2)) (0 + 1)" for body bd1
    by (rule asks_upto_then [OF sets_send]) (simp_all add: sets_show_key)
  then show ?thesis by (simp add: cn_new_key_def Let_def)
qed

lemma sets_rest:
  "asks_upto sets_entry (cn_rename t lc port bd) 1" "asks_upto sets_entry (cn_remove t lc port bd) 1"
  "asks_upto sets_entry (close_port t port bd) 1" "asks_upto sets_entry (turn_off_entry t bd) 1" "asks_upto sets_entry (copy_entry t bd) 1"
  "asks_upto sets_entry (reopen_port t port bd) 1"
  using sets_send sets_policy
  by (simp_all add: cn_rename_def cn_remove_def close_port_def turn_off_entry_def copy_entry_def reopen_port_def Let_def)

lemma press_ends: "\<exists>n \<le> 8. ends_within (cn_press t host lc b bd) n"
proof (cases b)
  case (New_key port)
  then show ?thesis using ends_new_key by (intro exI [of _ 5]) (simp add: cn_press_def)
next
  case Entry_setup
  then show ?thesis using ends_setup by (intro exI [of _ 4]) (simp add: cn_press_def)
next
  case Entry_copy
  then show ?thesis using ends_rest by (intro exI [of _ 1]) (simp add: cn_press_def)
next
  case (Reopen_port port)
  then show ?thesis using ends_policy by (intro exI [of _ 2]) (simp add: cn_press_def reopen_port_def)
next
  case Create
  then show ?thesis using ends_create by (intro exI [of _ 8]) (simp add: cn_press_def)
next
  case (Give_key port)
  then show ?thesis using ends_give_key by (intro exI [of _ 8]) (simp add: cn_press_def)
qed (use ends_rest in \<open>auto intro!: exI [of _ 3] simp: cn_press_def\<close>)

text \<open>(C14) A press of any button of the clients ends: after eight answers at most, whatever they are and whatever boards come with
  them, there is a result; and however far it has got, the call that sets the entry up has been made once at most, also where the
  entry is set up first and the press goes on by itself.\<close>

theorem cn_press_ends:
  "(8 \<le> length as \<longrightarrow> flow_result (cn_press t host lc b bd) as \<noteq> None)
    \<and> times_made sets_entry (flow_events (cn_press t host lc b bd) as) \<le> 1"
proof
  show "8 \<le> length as \<longrightarrow> flow_result (cn_press t host lc b bd) as \<noteq> None"
    using press_ends ends_within_run by (meson le_trans)
  have "asks_upto sets_entry (cn_press t host lc b bd) 1"
    using sets_setup sets_give_key sets_create sets_new_key sets_rest by (cases b) (simp_all add: cn_press_def)
  then show "times_made sets_entry (flow_events (cn_press t host lc b bd) as) \<le> 1" by (rule asks_upto_run)
qed

lemma cn_press_ends_witness:
  "flow_result (cn_press (\<lambda>k vs. k) ''caravan.home.lan'' (\<lambda>a b. 0) (Give_key (JNum 23001)) (JObj []))
     (replicate 8 (Inr JNull, JObj [])) \<noteq> None"
  using cn_press_ends [of "replicate 8 (Inr JNull, JObj [])"] by simp

section \<open>The order of the lane\<close>

text \<open>The lane's order: the operator's, then by name.\<close>

definition cn_before :: "(string \<Rightarrow> string \<Rightarrow> int) \<Rightarrow> js \<Rightarrow> js \<Rightarrow> js \<Rightarrow> bool" where
  "cn_before lc bd a b = (case (cn_rank bd a, cn_rank bd b) of
       (Some i, Some j) \<Rightarrow> i < j \<or> (i = j \<and> lc (cn_label a) (cn_label b) \<le> 0)
     | (Some i, None) \<Rightarrow> True
     | (None, Some j) \<Rightarrow> False
     | (None, None) \<Rightarrow> lc (cn_label a) (cn_label b) \<le> 0)"

lemma cn_before_cmp: "cn_before lc bd a b \<longleftrightarrow> cn_cmp lc bd a b \<le> 0"
  by (auto simp: cn_before_def cn_cmp_def split: option.splits)

text \<open>With a comparison of names that is one (\<open>localeCompare\<close>), the lane shows every consumer once: those the
  operator's order names first, in its order, then the rest by name.\<close>

theorem cn_lane_keeps_the_order:
  assumes total: "\<And>a b. lc a b \<le> 0 \<or> lc b a \<le> 0" and trans: "\<And>a b c. lc a b \<le> 0 \<Longrightarrow> lc b c \<le> 0 \<Longrightarrow> lc a c \<le> 0"
  shows "sorted_wrt (cn_before lc bd) (consumers_of lc bd) \<and>
    mset (consumers_of lc bd) = mset (filter (\<lambda>p. jget p ''kind'' = JStr ''consumer'') (proxies_of bd))"
proof -
  have "sorted_wrt (cn_before lc bd) (js_sort (cn_cmp lc bd) xs)" for xs
  proof (rule js_sort_sorted)
    show "cn_before lc bd a b \<longleftrightarrow> cn_cmp lc bd a b \<le> 0" for a b by (rule cn_before_cmp)
    show "cn_before lc bd a b \<or> cn_before lc bd b a" for a b
      using total by (auto simp: cn_before_def split: option.splits)
    show "cn_before lc bd a b \<Longrightarrow> cn_before lc bd b c \<Longrightarrow> cn_before lc bd a c" for a b c
      using trans by (fastforce simp: cn_before_def split: option.splits)
  qed
  then show ?thesis by (simp add: consumers_of_def)
qed

definition two_consumers :: js where
  "two_consumers = JObj [(''proxies'', JArr
     [JObj [(''kind'', JStr ''consumer''), (''port'', JNum 1), (''label'', JStr ''A'')],
      JObj [(''kind'', JStr ''consumer''), (''port'', JNum 2), (''label'', JStr ''B'')]]),
     (''layout'', JObj [(''clientOrder'', JArr [JNum 2])])]"

definition by_length :: "string \<Rightarrow> string \<Rightarrow> int" where
  "by_length a b = int (length a) - int (length b)"

lemma cn_lane_keeps_the_order_witness:
  "sorted_wrt (cn_before by_length two_consumers) (consumers_of by_length two_consumers) \<and>
    mset (consumers_of by_length two_consumers) =
      mset (filter (\<lambda>p. jget p ''kind'' = JStr ''consumer'') (proxies_of two_consumers))"
  by (rule cn_lane_keeps_the_order) (auto simp: by_length_def)

end
