(* ===== verification/ModelMoves.thy ===== *)
theory ModelMoves
  imports ProviderRules Flows
begin

text \<open>
  Moves of model files between the controller's disk and the libraries (\<open>model-moves.js\<close>). The controller
  does them; \<open>MoveTracker\<close> keeps its last answer, which job decides each file's row, the speed of each open
  job and the notes the operator hid. What a row, a branch and the line by the button say are functions
  of that; starting and stopping a move are flows, where taking a new answer of the controller is an
  \<open>Apply\<close>. The tree's own redraw, its menu's place and the poll's timer are the page's.
\<close>

section \<open>What is known\<close>

record job_pace =
  jp_t :: rat
  jp_work :: rat
  jp_rate :: rat

record moves =
  mv_jobs :: "js list option"
  mv_by :: "(string \<times> js \<times> js) list"
  mv_pace :: "(string \<times> job_pace) list"
  mv_seen :: "string list"

definition mv_new :: "string list \<Rightarrow> moves" where
  "mv_new seen = \<lparr>mv_jobs = None, mv_by = [], mv_pace = [], mv_seen = js_uniq seen\<rparr>"

text \<open>The stored notes: what cannot be read is none; the last two hundred are kept.\<close>

definition load_seen :: "js option \<Rightarrow> string list" where
  "load_seen stored = (case stored of None \<Rightarrow> [] | Some v \<Rightarrow> map js_string (js_list v))"

definition seen_max :: nat where
  "seen_max = 200"

definition saved_seen :: "moves \<Rightarrow> string list" where
  "saved_seen s = drop (length (mv_seen s) - seen_max) (mv_seen s)"

definition store_usable :: "js \<Rightarrow> bool" where
  "store_usable st = (jget st ''state'' = JStr ''ok'' \<or> jget st ''state'' = JStr ''low-space'')"

definition is_finished :: "js \<Rightarrow> bool" where
  "is_finished job = (jget job ''status'' \<in> {JStr ''done'', JStr ''failed'', JStr ''cancelled''})"

definition item_final :: "js \<Rightarrow> bool" where
  "item_final r = (jget r ''item'' \<in> {JStr ''done'', JStr ''skipped'', JStr ''cancelled''})"

definition local_id :: string where
  "local_id = ''local''"

definition move_notes :: "(string \<times> string) list" where
  "move_notes =
     [(''local-gone'', ''moveNoteLocalGone''), (''local-changed'', ''moveNoteLocalChanged''), (''mismatch'', ''moveNoteMismatch''),
      (''name-taken'', ''moveNoteNameTaken''), (''copy-missing'', ''moveNoteCopyMissing''), (''in-use'', ''moveNoteInUse''),
      (''unlink-failed'', ''moveNoteUnlinkFailed''), (''errors'', ''moveNoteErrors''), (''link-out'', ''moveNoteLinkOut''),
      (''folder-odd'', ''moveNoteFolderOdd''), (''folder-changed'', ''moveNoteFolderChanged'')]"

text \<open>\<open>x || 0\<close> of a figure of the controller's.\<close>

definition fig :: "js \<Rightarrow> string \<Rightarrow> rat" where
  "fig r k = (case jget r k of JNum x \<Rightarrow> x | _ \<Rightarrow> 0)"

definition mv_pct :: "rat \<Rightarrow> rat \<Rightarrow> int" where
  "mv_pct part all = (if all = 0 then 0 else min 100 (js_round (part * 100 / all)))"

section \<open>Where files can go\<close>

definition libraries :: "js list option \<Rightarrow> js list" where
  "libraries stores = filter (\<lambda>s. jget s ''role'' = JStr ''library'' \<and> store_usable s) (case stores of Some xs \<Rightarrow> xs | None \<Rightarrow> [])"

definition destinations :: "js list option \<Rightarrow> string \<Rightarrow> js list" where
  "destinations stores from = filter (\<lambda>s. jget s ''id'' \<noteq> JStr from \<and> store_usable s) (case stores of Some xs \<Rightarrow> xs | None \<Rightarrow> [])"

definition store_name :: "dict \<Rightarrow> js list option \<Rightarrow> js \<Rightarrow> string" where
  "store_name t stores store =
     (let i = js_or (jget store ''id'') (JStr []);
          row = (case find (\<lambda>s. jget s ''id'' = i) (case stores of Some xs \<Rightarrow> xs | None \<Rightarrow> []) of Some s \<Rightarrow> s | None \<Rightarrow> JObj [])
      in if js_truthy (jget row ''name'') then js_string (jget row ''name'')
         else if jget row ''role'' = JStr ''local'' then t ''storeLocalName'' []
         else js_string (js_or (jget store ''name'') i))"

definition stores_key :: "js list option \<Rightarrow> string" where
  "stores_key stores = js_join ''|'' (map (\<lambda>s. js_string (jget s ''id'') @ '':'' @ js_text (jget s ''name''))
     (filter store_usable (case stores of Some xs \<Rightarrow> xs | None \<Rightarrow> [])))"

text \<open>The button below the tree and its choice.\<close>

record move_button =
  mb_options :: "(string \<times> string) list"
  mb_hidden :: bool
  mb_value :: string
  mb_disabled :: bool
  mb_text :: string
  mb_title :: string

definition sync_button :: "dict \<Rightarrow> js list option \<Rightarrow> js list \<Rightarrow> string \<Rightarrow> move_button" where
  "sync_button t stores picked was =
     (let libs = destinations stores local_id; ids = map (\<lambda>s. js_string (jget s ''id'')) libs in
      \<lparr>mb_options = map (\<lambda>s. (js_string (jget s ''id''), store_name t stores s)) libs, mb_hidden = (length libs < 2),
       mb_value = (if was \<in> set ids then was else case ids of [] \<Rightarrow> [] | i # _ \<Rightarrow> i),
       mb_disabled = (picked = [] \<or> libs = []),
       mb_text = (if length libs = 1 then t ''moveSelectedTo'' [(''name'', store_name t stores (hd libs))] else t ''moveSelected'' []),
       mb_title = (if libs \<noteq> [] \<or> stores = None then [] else t ''moveNoLibrary'' [])\<rparr>)"

definition move_target :: "js list option \<Rightarrow> string option \<Rightarrow> js option" where
  "move_target stores chosen =
     (let libs = destinations stores local_id in
      case chosen of
        Some v \<Rightarrow> if length libs > 1 then find (\<lambda>s. jget s ''id'' = JStr v) libs
                  else (case libs of [] \<Rightarrow> None | l # _ \<Rightarrow> Some l)
      | None \<Rightarrow> (case libs of [] \<Rightarrow> None | l # _ \<Rightarrow> Some l))"

section \<open>What a row says\<close>

definition settled :: "js \<Rightarrow> bool" where
  "settled r = (jget r ''phase'' = JStr ''removed'' \<or> item_final r)"

definition move_why :: "dict \<Rightarrow> js \<Rightarrow> string" where
  "move_why t r = (case map_of move_notes (js_string (jget r ''note'')) of Some k \<Rightarrow> t k []
     | None \<Rightarrow> js_string (js_or (jget r ''note'') (JStr ''?'')))"

definition move_work :: "js \<Rightarrow> rat" where
  "move_work r =
     (let size = fig r ''size'' in
      if item_final r \<or> jget r ''phase'' = JStr ''proven'' \<or> jget r ''phase'' = JStr ''removed'' then 2 * size
      else if jget r ''phase'' = JStr ''copying'' then min size (fig r ''done'')
      else if jget r ''phase'' = JStr ''checking'' then size + min size (fig r ''done'')
      else 0)"

record move_view =
  vw_kind :: string
  vw_label :: string
  vw_width :: int
  vw_stalled :: bool

definition view_of :: "string \<Rightarrow> string \<Rightarrow> int \<Rightarrow> bool \<Rightarrow> move_view" where
  "view_of k l w b = \<lparr>vw_kind = k, vw_label = l, vw_width = w, vw_stalled = b\<rparr>"

definition row_view :: "dict \<Rightarrow> js \<Rightarrow> js \<Rightarrow> move_view" where
  "row_view t j r =
     (let pass = mv_pct (fig r ''done'') (fig r ''size''); phase = jget r ''phase'';
          passing = (\<lambda>k. t k [] @ '' '' @ int_str pass @ ''%'') in
      if phase = JStr ''removed'' \<or> jget r ''item'' = JStr ''done'' then view_of ''moved'' [] 100 False
      else if jget r ''item'' = JStr ''skipped'' then view_of ''skipped'' (t ''movePhaseSkipped'' [(''why'', move_why t r)]) 0 True
      else if jget r ''item'' = JStr ''cancelled'' \<or> is_finished j then view_of ''stopped'' [] 0 True
      else if (phase = JStr ''copying'' \<or> phase = JStr ''checking'') \<and> jget j ''status'' = JStr ''waiting'' then
        view_of ''waiting'' (if js_truthy (jget j ''reason'') then t ''moveRowWaiting'' [(''why'', js_string (jget j ''reason''))]
          else t ''moveStatusWaiting'' []) pass True
      else if phase = JStr ''copying'' then view_of ''copying'' (passing ''movePhaseCopying'') pass False
      else if phase = JStr ''checking'' then view_of ''checking'' (passing ''movePhaseChecking'') pass False
      else if phase = JStr ''proven'' then view_of ''checked'' (t ''movePhaseChecked'' []) 100 False
      else view_of ''queued'' (t ''movePhaseQueued'' []) 0 False)"

section \<open>What the tree asks\<close>

definition row_path :: "js \<Rightarrow> string" where
  "row_path r = js_string (jget r ''path'')"

definition job_files :: "js \<Rightarrow> js list" where
  "job_files j = js_list (js_or (jget j ''files'') (JArr []))"

definition mv_list :: "moves \<Rightarrow> js list" where
  "mv_list s = (case mv_jobs s of Some js \<Rightarrow> js | None \<Rightarrow> [])"

text \<open>The first of a list by a path, the others of the same path left out, in their order.\<close>

fun first_by :: "(string \<times> 'a) list \<Rightarrow> (string \<times> 'a) list \<Rightarrow> (string \<times> 'a) list" where
  "first_by [] acc = acc"
| "first_by ((k, v) # kvs) acc = first_by kvs (if k \<in> set (map fst acc) then acc else acc @ [(k, v)])"

definition reindex :: "moves \<Rightarrow> moves" where
  "reindex s = s\<lparr>mv_by := first_by (concat (map (\<lambda>j. map (\<lambda>r. (row_path r, (j, r))) (job_files j)) (mv_list s))) []\<rparr>"

definition on_way :: "moves \<Rightarrow> string \<Rightarrow> (js \<times> js) option" where
  "on_way s path = (case map_of (mv_by s) path of
       None \<Rightarrow> None
     | Some (j, r) \<Rightarrow> if is_finished j \<or> settled r then None else Some (j, r))"

definition seen_key :: "js \<Rightarrow> string \<Rightarrow> string" where
  "seen_key j path = js_string (jget j ''id'') @ ''|'' @ path"

definition stayed :: "dict \<Rightarrow> moves \<Rightarrow> string \<Rightarrow> (js \<times> js \<times> string) option" where
  "stayed t s path = (case map_of (mv_by s) path of
       None \<Rightarrow> None
     | Some (j, r) \<Rightarrow>
         if \<not> is_finished j \<or> seen_key j path \<in> set (mv_seen s) then None
         else if jget r ''item'' = JStr ''skipped'' then Some (j, r, move_why t r)
         else if jget j ''status'' = JStr ''failed'' \<and> \<not> settled r
         then Some (j, r, if js_truthy (jget j ''reason'') then js_string (jget j ''reason'') else t ''moveStatusFailed'' [])
         else None)"

definition job_rate :: "moves \<Rightarrow> js \<Rightarrow> rat" where
  "job_rate s j = (case map_of (mv_pace s) (js_string (jget j ''id'')) of Some p \<Rightarrow> jp_rate p | None \<Rightarrow> 0)"

definition go_sign :: string where
  "go_sign = [CHR 0xE2, CHR 0x87, CHR 0xA2]"

definition row_label :: "dict \<Rightarrow> js list option \<Rightarrow> moves \<Rightarrow> js \<Rightarrow> js \<Rightarrow> string" where
  "row_label t stores s j r =
     (let v = row_view t j r; rate = job_rate s j;
          left = pc_eta ((2 * fig r ''size'' - move_work r) / rate) t
      in js_join middot ([go_sign @ '' '' @ store_name t stores (jget j ''target''), vw_label v]
           @ (if (vw_kind v = ''copying'' \<or> vw_kind v = ''checking'') \<and> rate > 0
              then pc_speed rate # (if left \<noteq> [] then [left] else []) else [])
           @ (if vw_kind v = ''checked'' \<and> fig r ''removeIn'' > 0 then [pc_eta (fig r ''removeIn'') t] else [])))"

definition row_tip :: "js \<Rightarrow> string" where
  "row_tip r = fmt_gb (fig r ''done'') @ '' / '' @ fmt_gb (fig r ''size'')
     @ (if js_truthy (jget r ''detail'') then '' '' @ dash @ '' '' @ js_string (jget r ''detail'') else [])"

definition move_row_html :: "dict \<Rightarrow> js list option \<Rightarrow> moves \<Rightarrow> string \<Rightarrow> string" where
  "move_row_html t stores s path = (case on_way s path of
       None \<Rightarrow> []
     | Some (j, r) \<Rightarrow>
         (let v = row_view t j r; stop = escape_html (t ''moveStop'' []); p = escape_html path; i = escape_html (js_string (jget j ''id'')) in
          ''<span class=\"mdl-dl mdl-move-bar'' @ (if vw_stalled v then '' stalled'' else [])
          @ ''\" data-t=\"models-move-progress\" data-t-id=\"'' @ p @ ''\" data-move-job=\"'' @ i @ ''\" data-move-path=\"'' @ p
          @ ''\" title=\"'' @ escape_html (row_tip r) @ ''\"><span class=\"mdl-dl-bar\" style=\"width:'' @ int_str (vw_width v)
          @ ''%\"></span><span class=\"mdl-dl-text\">'' @ escape_html (row_label t stores s j r) @ ''</span></span>''
          @ ''<button class=\"mdl-mini mdl-move-stop\" type=\"button\" data-move-stop=\"'' @ i @ ''\" data-t=\"models-move-stop\" data-t-id=\"'' @ p
          @ ''\" title=\"'' @ stop @ ''\" aria-label=\"'' @ stop @ ''\">'' @ [CHR 0xE2, CHR 0x9C, CHR 0x95] @ ''</button>''))"

definition stayed_html :: "dict \<Rightarrow> moves \<Rightarrow> string \<Rightarrow> string" where
  "stayed_html t s path = (case stayed t s path of
       None \<Rightarrow> []
     | Some (j, r, why) \<Rightarrow>
         (let hide = escape_html (t ''moveStayedHide'' []); p = escape_html path in
          ''<span class=\"mdl-stayed\" data-t=\"models-move-stayed\" data-t-id=\"'' @ p @ ''\"''
          @ (if js_truthy (jget r ''detail'') then '' title=\"'' @ escape_html (js_string (jget r ''detail'')) @ ''\"'' else []) @ ''>''
          @ [CHR 0xE2, CHR 0x9A, CHR 0xA0] @ '' '' @ escape_html (t ''movePhaseSkipped'' [(''why'', why)]) @ ''</span>''
          @ ''<button class=\"mdl-mini\" type=\"button\" data-move-seen=\"'' @ escape_html (js_string (jget j ''id''))
          @ ''\" data-move-seen-path=\"'' @ p @ ''\" data-t=\"models-move-dismiss\" data-t-id=\"'' @ p
          @ ''\" title=\"'' @ hide @ ''\" aria-label=\"'' @ hide @ ''\">'' @ [CHR 0xC3, CHR 0x97] @ ''</button>''))"

text \<open>How far a branch's files are, and the button that moves one file or a branch.\<close>

record branch_sum =
  br_n :: nat
  br_pct :: int
  br_stalled :: bool

definition branch_rows :: "moves \<Rightarrow> string \<Rightarrow> (js \<times> js) list" where
  "branch_rows s trail = map snd (filter (\<lambda>(path, hit). prefix (trail @ ''/'') path \<and> on_way s path \<noteq> None) (mv_by s))"

definition mv_branch :: "dict \<Rightarrow> moves \<Rightarrow> string \<Rightarrow> branch_sum option" where
  "mv_branch t s trail =
     (let rows = branch_rows s trail;
          work = sum_list (map (\<lambda>(j, r). move_work r) rows);
          all = sum_list (map (\<lambda>(j, r). 2 * fig r ''size'') rows)
      in if rows = [] then None
         else Some \<lparr>br_n = length rows, br_pct = mv_pct work all,
                br_stalled = list_ex (\<lambda>(j, r). vw_stalled (row_view t j r)) rows\<rparr>)"

definition branch_html :: "dict \<Rightarrow> moves \<Rightarrow> string \<Rightarrow> string" where
  "branch_html t s trail = (case mv_branch t s trail of
       None \<Rightarrow> []
     | Some b \<Rightarrow>
         ''<span class=\"mdl-move-branch'' @ (if br_stalled b then '' stalled'' else [])
         @ ''\" data-t=\"models-move-branch\" data-t-id=\"'' @ escape_html trail @ ''\" data-move-branch=\"'' @ escape_html trail @ ''\">''
         @ go_sign @ '' '' @ int_str (int (br_n b)) @ '' '' @ [CHR 0xC2, CHR 0xB7] @ '' '' @ int_str (br_pct b) @ ''%</span>'')"

definition open_html :: "dict \<Rightarrow> js list option \<Rightarrow> string \<Rightarrow> string \<Rightarrow> js \<Rightarrow> string" where
  "open_html t stores scope val item =
     (let from = js_string (js_or (jget item ''from'') (JStr local_id)); places = destinations stores from;
          title = escape_html (if length places = 1 then t ''moveSelectedTo'' [(''name'', store_name t stores (hd places))]
            else t ''moveSelected'' []);
          file = (scope = ''file'')
      in if places = [] then []
         else ''<button class=\"mdl-go\" type=\"button\" data-move-open=\"'' @ escape_html val @ ''\" data-move-scope=\"''
           @ (if file then ''file'' else ''branch'') @ ''\"''
           @ (if from \<noteq> local_id then '' data-move-from=\"'' @ escape_html from @ ''\"'' else [])
           @ (if file then '' data-size=\"'' @ num_str (num_or0 (js_number (jget item ''size''))) @ ''\"'' else [])
           @ (if file \<and> js_truthy (jget item ''kind'') then '' data-kind=\"'' @ escape_html (js_string (jget item ''kind'')) @ ''\"'' else [])
           @ '' data-t=\"models-move-open\" data-t-id=\"'' @ escape_html val @ ''\" title=\"'' @ title @ ''\" aria-label=\"'' @ title @ ''\">''
           @ go_sign @ ''</button>'')"

section \<open>The line by the button\<close>

record move_totals =
  mt_n :: nat
  mt_pct :: int
  mt_left :: "rat option"

definition open_jobs :: "moves \<Rightarrow> js list" where
  "open_jobs s = filter (\<lambda>j. \<not> is_finished j) (mv_list s)"

definition open_rows :: "moves \<Rightarrow> js list" where
  "open_rows s = concat (map (\<lambda>j. filter (\<lambda>r. \<not> settled r) (job_files j)) (open_jobs s))"

text \<open>With bytes still to go and no speed read yet the time left is not known.\<close>

definition mv_totals :: "moves \<Rightarrow> move_totals" where
  "mv_totals s =
     (let rows = open_rows s;
          work = sum_list (map move_work rows);
          all = sum_list (map (\<lambda>r. 2 * fig r ''size'') rows);
          settle = foldl (\<lambda>m r. max m (fig r ''removeIn'')) 0 rows;
          rate = sum_list (map (job_rate s) (open_jobs s));
          bytes = all - work
      in \<lparr>mt_n = length rows, mt_pct = mv_pct work all,
          mt_left = (if bytes > 0 \<and> \<not> rate > 0 then None else Some (settle + (if bytes > 0 then bytes / rate else 0)))\<rparr>)"

definition summary_text :: "dict \<Rightarrow> moves \<Rightarrow> string" where
  "summary_text t s =
     (let m = mv_totals s; left = (case mt_left m of Some x \<Rightarrow> pc_eta x t | None \<Rightarrow> [])
      in if mt_n m = 0 then []
         else t ''movesInFlight'' [(''n'', int_str (int (mt_n m))), (''pct'', int_str (mt_pct m))]
           @ (if left \<noteq> [] then middot @ left else []))"

text \<open>The text of the line, whether it is hidden, and its title.\<close>

definition draw_summary :: "dict \<Rightarrow> moves \<Rightarrow> string \<times> bool \<times> string" where
  "draw_summary t s = (let x = summary_text t s in (x, x = [], if x \<noteq> [] then t ''movesInFlightTip'' [] else []))"

text \<open>The branches the line opens: every one a file on its way is in.\<close>

definition trails_of :: "string \<Rightarrow> string list" where
  "trails_of path = (let segs = js_split CHR ''/'' path in map (\<lambda>i. js_join ''/'' (take i segs)) [1..<length segs])"

definition reveal_trails :: "moves \<Rightarrow> string list" where
  "reveal_trails s = js_uniq (concat (map trails_of (filter (\<lambda>p. on_way s p \<noteq> None) (map fst (mv_by s)))))"

section \<open>An answer of the controller\<close>

definition pace_weight :: rat where
  "pace_weight = 3 / 10"

text \<open>One job read at \<open>now\<close>: what it did since the last answer moves its speed; a pause does not.\<close>

definition new_rate :: "job_pace option \<Rightarrow> rat \<Rightarrow> rat \<Rightarrow> rat" where
  "new_rate prev now work =
     (case prev of None \<Rightarrow> 0
      | Some p \<Rightarrow>
          if now > jp_t p \<and> work > jp_work p
          then let seen = (work - jp_work p) / ((now - jp_t p) / 1000)
               in if jp_rate p \<noteq> 0 then jp_rate p + pace_weight * (seen - jp_rate p) else seen
          else jp_rate p)"

fun map_set :: "string \<Rightarrow> 'a \<Rightarrow> (string \<times> 'a) list \<Rightarrow> (string \<times> 'a) list" where
  "map_set k v [] = [(k, v)]"
| "map_set k v ((k', v') # kvs) = (if k' = k then (k, v) # kvs else (k', v') # map_set k v kvs)"

definition job_id :: "js \<Rightarrow> string" where
  "job_id j = js_string (jget j ''id'')"

definition measure_job :: "rat \<Rightarrow> (string \<times> job_pace) list \<Rightarrow> js \<Rightarrow> (string \<times> job_pace) list" where
  "measure_job now pace j =
     map_set (job_id j) \<lparr>jp_t = now, jp_work = fig j ''workDone'', jp_rate = new_rate (map_of pace (job_id j)) now (fig j ''workDone'')\<rparr> pace"

definition mv_measure :: "rat \<Rightarrow> moves \<Rightarrow> moves" where
  "mv_measure now s =
     s\<lparr>mv_pace := filter (\<lambda>(i, p). i \<in> set (map job_id (open_jobs s))) (foldl (measure_job now) (mv_pace s) (open_jobs s))\<rparr>"

text \<open>A missed poll, and an answer that is no list of jobs, keeps the last picture.\<close>

definition mv_taken :: "rat \<Rightarrow> reply \<Rightarrow> moves \<Rightarrow> moves" where
  "mv_taken now a s = (case a of
       Inl err \<Rightarrow> s
     | Inr res \<Rightarrow> if js_is_array (jget res ''jobs'') then reindex (mv_measure now (s\<lparr>mv_jobs := Some (js_list (jget res ''jobs''))\<rparr>)) else s)"

definition mv_polls :: "moves \<Rightarrow> bool" where
  "mv_polls s = list_ex (\<lambda>j. \<not> is_finished j) (mv_list s)"

text \<open>What changes what the tree draws; a poll that changed nothing of it moves the bars in place.\<close>

definition mv_shape :: "dict \<Rightarrow> moves \<Rightarrow> string" where
  "mv_shape t s = js_join ''|'' (sort (concat (map (\<lambda>path.
     if on_way s path \<noteq> None then [''>'' @ path] else if stayed t s path \<noteq> None then [''!'' @ path] else []) (map fst (mv_by s)))))"

definition mv_tick :: "dict \<Rightarrow> rat \<Rightarrow> reply \<Rightarrow> moves \<Rightarrow> moves \<times> bool" where
  "mv_tick t now a s = (let s' = mv_taken now a s in (s', mv_shape t s' \<noteq> mv_shape t s))"

text \<open>Hiding a note.\<close>

definition mv_dismiss :: "string \<Rightarrow> string \<Rightarrow> moves \<Rightarrow> moves" where
  "mv_dismiss i path s = s\<lparr>mv_seen := set_add (i @ ''|'' @ path) (mv_seen s)\<rparr>"

datatype mv_event = Answered rat reply | Hidden string string

fun mv_step :: "moves \<Rightarrow> mv_event \<Rightarrow> moves" where
  "mv_step s (Answered now a) = mv_taken now a s"
| "mv_step s (Hidden i path) = mv_dismiss i path s"

definition mv_run :: "string list \<Rightarrow> mv_event list \<Rightarrow> moves" where
  "mv_run seen evs = foldl mv_step (mv_new seen) evs"

section \<open>Starting and stopping\<close>

text \<open>Taking the controller's new answer; the board of the flow is the last answer taken.\<close>

definition mv_refresh :: "(js \<Rightarrow> flow) \<Rightarrow> js \<Rightarrow> flow" where
  "mv_refresh k bd = await (Send_req ''/api/model-stores/moves'' JUndef)
     (\<lambda>a bd1. apply_if (if js_is_array (jget (reply_value a) ''jobs'') then reply_value a else JNull) bd1 k)"

definition mv_failed :: "js \<Rightarrow> string option" where
  "mv_failed res = (if js_truthy res \<and> jget res ''ok'' = JBool False then Some (js_string (js_or (jget res ''error'') (JStr ''failed''))) else None)"

text \<open>The call that starts or stops, what it answered, and the new picture.\<close>

definition mv_call :: "string \<Rightarrow> js \<Rightarrow> flow" where
  "mv_call path body =
     try_call (Send_req path body) (\<lambda>res bd1. case mv_failed res of
       Some err \<Rightarrow> Say err (Done JNull bd1)
     | None \<Rightarrow> mv_refresh (\<lambda>bd2. Done JUndef bd2) bd1)"

definition start_words :: "dict \<Rightarrow> js list option \<Rightarrow> js list \<Rightarrow> js \<Rightarrow> string" where
  "start_words t stores files target =
     (let size = fmt_gb (sum_list (map (\<lambda>f. fig f ''size'') files)); folders = length (filter (\<lambda>f. js_truthy (jget f ''kind'')) files)
      in t ''moveConfirm'' [(''count'', int_str (int (length files))), (''size'', size), (''name'', store_name t stores target)]
         @ (if folders > 0 then [CHR 0x0A, CHR 0x0A] @ t ''moveConfirmFolders'' [(''n'', int_str (int folders))] else []))"

definition mv_start :: "dict \<Rightarrow> js list option \<Rightarrow> js list \<Rightarrow> js option \<Rightarrow> string \<Rightarrow> js \<Rightarrow> flow" where
  "mv_start t stores files target from bd = (case target of
       None \<Rightarrow> Done JUndef bd
     | Some to \<Rightarrow>
         if files = [] then Done JUndef bd
         else ask_value (Confirm_req (start_words t stores files to)
             (JObj [(''title'', JStr (t ''movesTitle'' [])), (''confirmLabel'', JStr (t ''moveStart'' [])), (''danger'', JBool False), (''scene'', JStr ''move'')]))
           (\<lambda>sure bd1. if \<not> js_truthy sure then Done JUndef bd1
             else mv_call ''/api/model-stores/move''
               (JObj [(''files'', JArr (map (\<lambda>f. jget f ''path'') files)), (''to'', jget to ''id''), (''from'', JStr from)])))"

definition stop_words :: "dict \<Rightarrow> moves \<Rightarrow> string \<Rightarrow> string" where
  "stop_words t s i =
     (let left = (case find (\<lambda>j. jget j ''id'' = JStr i) (mv_list s) of
          Some j \<Rightarrow> length (filter (\<lambda>r. \<not> settled r) (job_files j)) | None \<Rightarrow> 0)
      in t ''moveStopConfirm'' [] @ (if left > 1 then [CHR 0x0A, CHR 0x0A] @ t ''moveStopConfirmJob'' [(''count'', int_str (int left))] else []))"

definition mv_stop :: "dict \<Rightarrow> moves \<Rightarrow> string \<Rightarrow> js \<Rightarrow> flow" where
  "mv_stop t s i bd =
     ask_value (Confirm_req (stop_words t s i)
         (JObj [(''title'', JStr (t ''movesTitle'' [])), (''confirmLabel'', JStr (t ''moveStop'' [])), (''scene'', JStr ''move'')]))
       (\<lambda>sure bd1. if \<not> js_truthy sure then Done JUndef bd1
         else mv_call ''/api/model-stores/moves/cancel'' (JObj [(''id'', JStr i)]))"

text \<open>What a button of the tree carries (its \<open>dataset\<close>, and those of the buttons in its branch), and what a
  press of it does: nothing, a start, or a list of the places to choose from.\<close>

definition carried :: "js \<Rightarrow> js" where
  "carried d = JObj [(''path'', jget d ''moveOpen''),
     (''size'', case num_or0 (js_number (js_or (jget d ''size'') (JNum 0))) of Fin x \<Rightarrow> JNum x | _ \<Rightarrow> JUndef),
     (''kind'', js_or (jget d ''kind'') (JStr []))]"

definition files_for :: "js \<Rightarrow> js list option \<Rightarrow> js list" where
  "files_for btn inside =
     (if jget btn ''moveScope'' = JStr ''file'' then [carried btn]
      else case inside of None \<Rightarrow> []
        | Some els \<Rightarrow> map carried (filter (\<lambda>d. jget d ''moveScope'' = JStr ''file'' \<and> \<not> js_truthy (jget d ''moveFrom'')) els))"

datatype move_press = No_move | Start_move "js list" js string | Choose_place "js list" "js list" string

definition mv_open :: "js list option \<Rightarrow> js \<Rightarrow> js list option \<Rightarrow> move_press" where
  "mv_open stores btn inside =
     (let from = js_string (js_or (jget btn ''moveFrom'') (JStr local_id)); files = files_for btn inside; places = destinations stores from
      in if files = [] \<or> places = [] then No_move
         else if length places = 1 then Start_move files (hd places) from
         else Choose_place places files from)"

definition menu_html :: "dict \<Rightarrow> js list option \<Rightarrow> js list \<Rightarrow> string" where
  "menu_html t stores libs = concat (map (\<lambda>s.
     (let i = escape_html (js_string (jget s ''id'')) in
      ''<button type=\"button\" role=\"menuitem\" data-move-dest=\"'' @ i @ ''\" data-t=\"models-move-dest\" data-t-id=\"'' @ i @ ''\">''
      @ (if jget s ''role'' = JStr ''local'' then [CHR 0xF0, CHR 0x9F, CHR 0x8F, CHR 0xA0] else [CHR 0xF0, CHR 0x9F, CHR 0x93, CHR 0x9A])
      @ '' '' @ escape_html (store_name t stores s)
      @ (if js_truthy (jget s ''total'') then ''<span class=\"meta\">'' @ escape_html (t ''storeFree''
           [(''free'', fmt_gb (fig s ''free'')), (''total'', fmt_gb (fig s ''total''))]) @ ''</span>'' else [])
      @ ''</button>'')) libs)"

definition menu_pick :: "js list \<Rightarrow> string \<Rightarrow> js option" where
  "menu_pick libs dest = find (\<lambda>s. jget s ''id'' = JStr dest) libs"

section \<open>Laws\<close>

text \<open>What a path's row is, over the controller's list: the jobs and rows of that path, newest first.\<close>

definition path_hits :: "js list \<Rightarrow> string \<Rightarrow> (js \<times> js) list" where
  "path_hits jobs path = concat (map (\<lambda>j. map (\<lambda>r. (j, r)) (filter (\<lambda>r. row_path r = path) (job_files j))) jobs)"

lemma map_of_first_by:
  "map_of (first_by kvs acc) k = (case map_of acc k of Some v \<Rightarrow> Some v | None \<Rightarrow> map_of kvs k)"
proof (induction kvs acc rule: first_by.induct)
  case (2 k' v kvs acc)
  then show ?case
    by (auto split: option.splits simp: map_add_def weak_map_of_SomeI map_of_eq_None_iff)
       (metis domI dom_map_of_conv_image_fst image_eqI)+
qed (simp split: option.splits)

lemma map_of_first_by_Nil [simp]: "map_of (first_by kvs []) = map_of kvs"
  by (rule ext) (simp add: map_of_first_by)

lemma distinct_first_by: "distinct (map fst acc) \<Longrightarrow> distinct (map fst (first_by kvs acc))"
  by (induction kvs acc rule: first_by.induct) auto

lemma map_of_filter_hd:
  "map_of kvs k = (case map snd (filter (\<lambda>kv. fst kv = k) kvs) of [] \<Rightarrow> None | v # _ \<Rightarrow> Some v)"
  by (induction kvs) auto

lemma path_hits_filter:
  "path_hits jobs path = map snd (filter (\<lambda>kv. fst kv = path)
     (concat (map (\<lambda>j. map (\<lambda>r. (row_path r, (j, r))) (job_files j)) jobs)))"
  by (induction jobs) (simp_all add: path_hits_def filter_map comp_def)

text \<open>A run keeps \<open>mv_ok\<close>: every path once with its newest row, a speed for open jobs only, none below zero.\<close>

definition pace_ok :: "(string \<times> job_pace) list \<Rightarrow> bool" where
  "pace_ok ps = list_all (\<lambda>(i, p). jp_rate p \<ge> 0) ps"

definition mv_ok :: "moves \<Rightarrow> bool" where
  "mv_ok s \<longleftrightarrow> mv_by s = mv_by (reindex s) \<and> pace_ok (mv_pace s) \<and> distinct (map fst (mv_pace s))
     \<and> set (map fst (mv_pace s)) = set (map job_id (open_jobs s)) \<and> distinct (mv_seen s)"

lemma reindex_simps [simp]:
  "mv_jobs (reindex s) = mv_jobs s" "mv_pace (reindex s) = mv_pace s" "mv_seen (reindex s) = mv_seen s"
  "mv_list (reindex s) = mv_list s" "open_jobs (reindex s) = open_jobs s"
  by (simp_all add: reindex_def mv_list_def open_jobs_def)

lemma measure_simps [simp]:
  "mv_jobs (mv_measure now s) = mv_jobs s" "mv_seen (mv_measure now s) = mv_seen s"
  "mv_list (mv_measure now s) = mv_list s" "open_jobs (mv_measure now s) = open_jobs s"
  by (simp_all add: mv_measure_def mv_list_def open_jobs_def)

lemma pace_ok_simps [simp]: "pace_ok []" "pace_ok ((i, p) # ps) \<longleftrightarrow> jp_rate p \<ge> 0 \<and> pace_ok ps"
  by (simp_all add: pace_ok_def)

lemma pace_ok_map_of: "pace_ok ps \<Longrightarrow> map_of ps i = Some p \<Longrightarrow> jp_rate p \<ge> 0"
  by (auto simp: pace_ok_def list_all_iff dest: map_of_SomeD)

lemma fst_map_set: "map fst (map_set k v kvs) = (if k \<in> set (map fst kvs) then map fst kvs else map fst kvs @ [k])"
  by (induction k v kvs rule: map_set.induct) (simp_all del: set_map)

lemma set_fst_map_set: "set (map fst (map_set k v kvs)) = insert k (set (map fst kvs))"
  by (simp add: fst_map_set insert_absorb del: set_map)

lemma distinct_map_set: "distinct (map fst kvs) \<Longrightarrow> distinct (map fst (map_set k v kvs))"
  by (simp add: fst_map_set del: set_map)

lemma pace_ok_map_set: "pace_ok ps \<Longrightarrow> jp_rate p \<ge> 0 \<Longrightarrow> pace_ok (map_set i p ps)"
  by (induction ps) auto

text \<open>The new speed lies between the last one and what was just seen; a pause keeps it.\<close>

definition seen_rate :: "job_pace \<Rightarrow> rat \<Rightarrow> rat \<Rightarrow> rat" where
  "seen_rate p now work = (work - jp_work p) / ((now - jp_t p) / 1000)"

lemma new_rate_between:
  assumes "now > jp_t p" "work > jp_work p" "jp_rate p \<noteq> 0"
  shows "min (jp_rate p) (seen_rate p now work) \<le> new_rate (Some p) now work
       \<and> new_rate (Some p) now work \<le> max (jp_rate p) (seen_rate p now work)"
proof -
  define a b where "a = jp_rate p" and "b = seen_rate p now work"
  have "new_rate (Some p) now work = a + 3 / 10 * (b - a)"
    using assms by (simp add: new_rate_def a_def b_def seen_rate_def pace_weight_def Let_def)
  moreover have "min a b \<le> a + 3 / 10 * (b - a)" "a + 3 / 10 * (b - a) \<le> max a b"
    by (auto simp: min_def max_def field_simps)
  ultimately show ?thesis by (simp add: a_def b_def)
qed

lemma seen_rate_pos: "now > jp_t p \<Longrightarrow> work > jp_work p \<Longrightarrow> seen_rate p now work > 0"
  by (simp add: seen_rate_def)

lemma new_rate_nonneg: "(case prev of None \<Rightarrow> True | Some p \<Rightarrow> jp_rate p \<ge> 0) \<Longrightarrow> new_rate prev now work \<ge> 0"
proof (cases prev)
  case (Some p)
  assume "case prev of None \<Rightarrow> True | Some p \<Rightarrow> jp_rate p \<ge> 0"
  with Some have p: "jp_rate p \<ge> 0" by simp
  show ?thesis
  proof (cases "now > jp_t p \<and> work > jp_work p")
    case True
    then have pos: "seen_rate p now work > 0" by (simp add: seen_rate_pos)
    show ?thesis
    proof (cases "jp_rate p = 0")
      case True
      with \<open>now > jp_t p \<and> work > jp_work p\<close> pos Some show ?thesis by (simp add: new_rate_def seen_rate_def)
    next
      case False
      with True have "min (jp_rate p) (seen_rate p now work) \<le> new_rate prev now work"
        using new_rate_between [of p now work] by (simp add: Some)
      with p pos show ?thesis by (simp add: min_def split: if_splits)
    qed
  qed (auto simp: Some new_rate_def p)
qed (simp add: new_rate_def)

lemma measure_job_ok: "pace_ok ps \<Longrightarrow> pace_ok (measure_job now ps j)"
  unfolding measure_job_def
  by (rule pace_ok_map_set) (auto intro!: new_rate_nonneg dest: pace_ok_map_of split: option.split)

lemma fold_measure:
  "pace_ok ps \<Longrightarrow> pace_ok (foldl (measure_job now) ps js)"
  "distinct (map fst ps) \<Longrightarrow> distinct (map fst (foldl (measure_job now) ps js))"
  "set (map fst (foldl (measure_job now) ps js)) = set (map fst ps) \<union> set (map job_id js)"
proof (induction js arbitrary: ps)
  case (Cons j js)
  { case 1 with Cons.IH(1) show ?case by (simp add: measure_job_ok) }
  { case 2 with Cons.IH(2) show ?case by (simp add: measure_job_def distinct_map_set) }
  { case 3
    have "set (map fst (measure_job now ps j)) = insert (job_id j) (set (map fst ps))"
      unfolding measure_job_def by (rule set_fst_map_set)
    with Cons.IH(3) show ?case by (metis Un_insert_left Un_insert_right foldl_Cons list.simps(15,9)) }
qed simp_all

lemma mv_by_reindex: "mv_jobs s = mv_jobs s' \<Longrightarrow> mv_by (reindex s) = mv_by (reindex s')"
  by (simp add: reindex_def mv_list_def)

lemma mv_measure_ok:
  assumes "pace_ok (mv_pace s)" "distinct (map fst (mv_pace s))"
  shows "pace_ok (mv_pace (mv_measure now s))" "distinct (map fst (mv_pace (mv_measure now s)))"
    "set (map fst (mv_pace (mv_measure now s))) = set (map job_id (open_jobs s))"
proof -
  let ?p = "foldl (measure_job now) (mv_pace s) (open_jobs s)"
  show "pace_ok (mv_pace (mv_measure now s))"
    using fold_measure(1) [OF assms(1), of now "open_jobs s"] by (auto simp: mv_measure_def pace_ok_def list_all_iff)
  show "distinct (map fst (mv_pace (mv_measure now s)))"
    using fold_measure(2) [OF assms(2)] by (simp add: mv_measure_def distinct_map_filter)
  have "set (map fst (mv_pace (mv_measure now s))) = set (map fst ?p) \<inter> set (map job_id (open_jobs s))"
    by (auto simp: mv_measure_def image_iff split: prod.splits)
  then show "set (map fst (mv_pace (mv_measure now s))) = set (map job_id (open_jobs s))"
    by (simp only: fold_measure(3) Int_Un_distrib2) auto
qed

lemma mv_taken_ok:
  assumes "mv_ok s"
  shows "mv_ok (mv_taken now a s)"
proof -
  define s' where "s' = s\<lparr>mv_jobs := Some (js_list (jget (reply_value a) ''jobs''))\<rparr>"
  have s': "pace_ok (mv_pace s')" "distinct (map fst (mv_pace s'))" "distinct (mv_seen s')"
    using assms by (simp_all add: s'_def mv_ok_def)
  have "mv_ok (reindex (mv_measure now s'))"
    unfolding mv_ok_def by (simp only: reindex_simps measure_simps mv_measure_ok [OF s'(1,2)] s' simp_thms)
      (rule mv_by_reindex, simp)
  with assms show ?thesis by (cases a) (simp_all add: mv_taken_def s'_def reply_value_def)
qed

lemma mv_step_ok: "mv_ok s \<Longrightarrow> mv_ok (mv_step s e)"
proof (cases e)
  case (Answered now a)
  then show "mv_ok s \<Longrightarrow> mv_ok (mv_step s e)" by (simp add: mv_taken_ok)
qed (auto simp: mv_dismiss_def mv_ok_def reindex_def mv_list_def open_jobs_def)

lemma mv_run_ok: "mv_ok (mv_run seen evs)"
proof -
  have "mv_ok s \<Longrightarrow> mv_ok (foldl mv_step s evs)" for s
    by (induction evs arbitrary: s) (simp_all add: mv_step_ok)
  moreover have "mv_ok (mv_new seen)"
    by (simp add: mv_ok_def mv_new_def reindex_def mv_list_def open_jobs_def)
  ultimately show ?thesis by (simp add: mv_run_def)
qed

lemma mv_ok_by: "mv_ok s \<Longrightarrow> map_of (mv_by s) path = (case path_hits (mv_list s) path of [] \<Rightarrow> None | hit # _ \<Rightarrow> Some hit)"
  unfolding path_hits_filter by (subst map_of_filter_hd [symmetric]) (simp add: mv_ok_def reindex_def)

lemma job_rate_nonneg: "mv_ok s \<Longrightarrow> job_rate s j \<ge> 0"
  by (auto simp: job_rate_def mv_ok_def dest: pace_ok_map_of split: option.split)

lemma foldl_max_ge: "m \<le> foldl (\<lambda>m r. max m (f r)) (m :: rat) rs"
proof (induction rs arbitrary: m)
  case (Cons r rs)
  from Cons [of "max m (f r)"] show ?case by simp
qed simp

lemma sum_zero_all:
  "(\<And>x. f x \<ge> 0) \<Longrightarrow> \<not> sum_list (map f xs) > (0 :: rat) \<Longrightarrow> \<forall>x \<in> set xs. f x = 0"
proof (induction xs)
  case (Cons x xs)
  have "sum_list (map f xs) \<ge> 0" using Cons.prems(1) by (intro sum_list_nonneg) auto
  moreover have "f x \<ge> 0" by (rule Cons.prems(1))
  ultimately have "\<not> sum_list (map f xs) > 0" "f x = 0" using Cons.prems(2) by simp_all
  with Cons show ?case by simp
qed simp

text \<open>A trail and the paths under it: the branches of a path are its proper prefixes that end before a slash.\<close>

lemma js_join_append: "xs \<noteq> [] \<Longrightarrow> ys \<noteq> [] \<Longrightarrow> js_join c (xs @ ys) = js_join c xs @ c @ js_join c ys"
proof (induction xs)
  case (Cons x xs)
  then show ?case by (cases xs; cases ys) simp_all
qed simp

lemma split_by_append: "p x \<Longrightarrow> split_by p (a @ x # b) = split_by p a @ split_by p b"
  by (induction a) (auto split: list.split)

lemma js_split_append: "js_split c (a @ c # b) = js_split c a @ js_split c b"
  by (simp add: js_split_def split_by_append)

lemma js_join_split [simp]: "js_join [c] (js_split c s) = s"
proof (induction s)
  case (Cons x s)
  obtain w ws where "js_split c s = w # ws" by (cases "js_split c s") (auto simp: js_split_def)
  with Cons show ?case by (cases ws) (auto simp: js_split_def)
qed (simp add: js_split_def)

lemma js_split_not_Nil [simp]: "js_split c s \<noteq> []"
  by (simp add: js_split_def)

lemma trails_of_iff: "trail \<in> set (trails_of path) \<longleftrightarrow> prefix (trail @ ''/'') path"
proof
  assume "trail \<in> set (trails_of path)"
  then obtain i where i: "1 \<le> i" "i < length (js_split CHR ''/'' path)" and t: "trail = js_join ''/'' (take i (js_split CHR ''/'' path))"
    by (auto simp: trails_of_def Let_def)
  have "path = js_join ''/'' (take i (js_split CHR ''/'' path) @ drop i (js_split CHR ''/'' path))" by simp
  also have "\<dots> = trail @ ''/'' @ js_join ''/'' (drop i (js_split CHR ''/'' path))"
    using i by (subst js_join_append) (auto simp: t)
  finally show "prefix (trail @ ''/'') path" by (metis append_assoc prefixI)
next
  assume "prefix (trail @ ''/'') path"
  then obtain rest where p: "path = trail @ CHR ''/'' # rest" by (auto simp: prefix_def)
  let ?i = "length (js_split CHR ''/'' trail)"
  have "trail = js_join ''/'' (take ?i (js_split CHR ''/'' path))" by (simp add: p js_split_append)
  moreover have "?i \<in> set [1..<length (js_split CHR ''/'' path)]" by (auto simp: p js_split_append Suc_le_eq)
  ultimately show "trail \<in> set (trails_of path)" unfolding trails_of_def Let_def by (simp only: set_map) (rule image_eqI)
qed

lemma set_reveal_trails:
  "trail \<in> set (reveal_trails s) \<longleftrightarrow> (\<exists>p \<in> set (map fst (mv_by s)). on_way s p \<noteq> None \<and> prefix (trail @ ''/'') p)"
  by (auto simp: reveal_trails_def trails_of_iff)

section \<open>Properties\<close>

text \<open>After any answers and hidden notes, a file is on its way exactly when the newest job
  that holds its path is open and the file is not settled in it; an older job never speaks for the file.\<close>

theorem mv_newest_job_decides:
  "on_way (mv_run seen evs) path
   = (case path_hits (mv_list (mv_run seen evs)) path of
        [] \<Rightarrow> None
      | (j, r) # _ \<Rightarrow> if is_finished j \<or> settled r then None else Some (j, r))"
  unfolding on_way_def mv_ok_by [OF mv_run_ok] by (auto split: list.split)

text \<open>The line by the button opens exactly the branches that count a file on its way: no move
  is behind a closed branch, and no branch without one is opened.\<close>

theorem mv_line_opens_counted_branches:
  "trail \<in> set (reveal_trails s) \<longleftrightarrow> mv_branch t s trail \<noteq> None"
proof -
  have "mv_branch t s trail \<noteq> None \<longleftrightarrow> branch_rows s trail \<noteq> []" by (simp add: mv_branch_def Let_def)
  also have "\<dots> \<longleftrightarrow> (\<exists>p \<in> set (map fst (mv_by s)). on_way s p \<noteq> None \<and> prefix (trail @ ''/'') p)"
    by (auto simp: branch_rows_def filter_empty_conv split: prod.splits) force+
  finally show ?thesis by (simp add: set_reveal_trails)
qed

text \<open>After any answers and hidden notes the time left is never negative, and it is kept back
  exactly when bytes are still to go and no open job has a speed.\<close>

theorem mv_time_left_is_honest:
  "case mt_left (mv_totals (mv_run seen evs)) of
     Some x \<Rightarrow> x \<ge> 0
   | None \<Rightarrow> sum_list (map (\<lambda>r. 2 * fig r ''size'') (open_rows (mv_run seen evs))) > sum_list (map move_work (open_rows (mv_run seen evs)))
       \<and> list_all (\<lambda>j. job_rate (mv_run seen evs) j = 0) (open_jobs (mv_run seen evs))"
proof -
  let ?s = "mv_run seen evs"
  have zero: "\<not> sum_list (map (job_rate ?s) (open_jobs ?s)) > 0 \<Longrightarrow> list_all (\<lambda>j. job_rate ?s j = 0) (open_jobs ?s)"
    using sum_zero_all [of "job_rate ?s" "open_jobs ?s"] job_rate_nonneg [OF mv_run_ok] by (simp add: list_all_iff)
  have settle: "0 \<le> foldl (\<lambda>m r. max m (fig r ''removeIn'')) 0 (open_rows ?s)" by (rule foldl_max_ge)
  show ?thesis
    using zero settle by (auto simp: mv_totals_def Let_def intro!: add_nonneg_nonneg divide_nonneg_nonneg)
qed

text \<open>What starts or stops a move.\<close>

fun mv_acts :: "flow_req \<Rightarrow> bool" where
  "mv_acts (Send_req path body) = (path = ''/api/model-stores/move'' \<or> path = ''/api/model-stores/moves/cancel'')"
| "mv_acts q = False"

lemma mv_refresh_asks [simp]: "asks_first mv_acts (mv_refresh (\<lambda>bd2. Done JUndef bd2) bd) y"
  by (simp add: mv_refresh_def)

lemma mv_call_asks: "asks_first mv_acts (mv_call path body) True"
  by (auto simp: mv_call_def split: option.split)

lemma mv_refresh_ends [simp]: "ends_within (mv_refresh (\<lambda>bd2. Done JUndef bd2) bd) n \<longleftrightarrow> n > 0"
  by (simp add: mv_refresh_def)

lemma mv_call_ends: "ends_within (mv_call path body) 2"
  by (auto simp: mv_call_def split: option.split)

text \<open>A move is started or stopped only right after the operator said yes to the question that
  says what it does, whatever the controller answers; both end within three answers.\<close>

theorem mv_asks_before_it_acts:
  "asked_first mv_acts False (flow_events (mv_start t stores files target from bd) as)
   \<and> asked_first mv_acts False (flow_events (mv_stop t s i bd) as)"
  by (auto intro!: asks_first_run simp: mv_start_def mv_stop_def ask_value_def yes_to_def reply_value_def mv_call_asks
       split: option.split sum.split)

lemma mv_start_ends: "ends_within (mv_start t stores files target from bd) 3"
  using mv_call_ends by (auto simp: mv_start_def ask_value_def split: option.split)

lemma mv_stop_ends: "ends_within (mv_stop t s i bd) 3"
  using mv_call_ends by (auto simp: mv_stop_def ask_value_def)

end
