(* ===== verification/Activity.thy ===== *)
theory Activity
  imports Cables
begin

text \<open>
  How lively the board's cards are (\<open>topology-activity.js\<close>): the monitor's requests of a proxy, running or
  queued, the last one once nothing runs, what counts as an incident and for how long it is news; the
  same readings for a router, a server and the graphics cards; the slots of a server with the place kept
  for a sticky client. What the browser keeps is in \<open>pulse\<close>: the monitor's last reading, the board, the
  queue's thresholds and the time in seconds. A figure that is not a number reads as 0.
\<close>

section \<open>What is read\<close>

record pulse =
  pu_monitor :: js
  pu_board :: js
  pu_thresholds :: js
  pu_now :: rat

text \<open>\<open>Number(o.k || 0)\<close>.\<close>

definition nfig :: "js \<Rightarrow> string \<Rightarrow> rat" where
  "nfig v k = num_of (js_or (jget v k) (JNum 0))"

definition latest_of :: "pulse \<Rightarrow> js" where
  "latest_of u = jget (pu_monitor u) ''latest''"

definition agents_of :: "pulse \<Rightarrow> js" where
  "agents_of u = js_or (jget (jget (latest_of u) ''agentProxies'') ''agents'') (JObj [])"

definition board_proxies :: "pulse \<Rightarrow> js list" where
  "board_proxies u = proxy_rows (pu_board u)"

definition arr_of :: "js \<Rightarrow> string \<Rightarrow> js list" where
  "arr_of v k = js_list (jget v k)"

definition proxy_on :: "pulse \<Rightarrow> rat \<Rightarrow> js option" where
  "proxy_on u port = (if port = 0 then None else find (\<lambda>p. nfig p ''port'' = port) (board_proxies u))"

section \<open>Names and their order\<close>

definition status_pill :: "dict \<Rightarrow> js \<Rightarrow> string" where
  "status_pill t v =
     (if v = JStr ''warming'' then pill (t ''topologyWarmingShort'' []) (JStr ''warn'')
      else pill (js_string (js_or v (JStr ''unknown''))) (JStr
        (if v \<in> {JStr ''online'', JStr ''running'', JStr ''ok''} then ''good''
         else if v \<in> {JStr ''stale'', JStr ''loading'', JStr ''pending'', JStr ''stored'', JStr ''warming''} then ''warn''
         else if v \<in> {JStr ''error'', JStr ''failed''} then ''bad'' else [])))"

definition agent_meta :: "js \<Rightarrow> string" where
  "agent_meta a = js_join '' '' (filter (\<lambda>w. w \<noteq> [])
     [if js_truthy (jget a ''scope'') \<and> jget a ''scope'' \<noteq> JStr ''agent'' then js_string (jget a ''scope'') else [],
      js_text (jget a ''runtime''), js_text (jget a ''container''),
      if js_truthy (jget a ''port'') then '':'' @ js_string (jget a ''port'') else []])"

definition agent_group :: "js \<Rightarrow> string" where
  "agent_group a =
     (let runtime = js_lower (js_text (jget a ''runtime'')); scope = js_lower (js_text (jget a ''scope''))
      in if scope = ''host'' \<or> runtime = ''host'' \<or> runtime = ''launchd'' then ''host''
         else if runtime = ''vm'' \<or> runtime = ''virtual-machine'' then ''vm''
         else if runtime = ''docker'' \<or> js_truthy (jget a ''container'') then ''docker''
         else ''other'')"

text \<open>\<open>/:(\d+)(?:\/|$)/\<close>: the digits after the first colon that end the text or stand before a slash.\<close>

fun port_after_colon :: "string \<Rightarrow> nat" where
  "port_after_colon [] = 0"
| "port_after_colon (c # s) =
     (let ds = takeWhile is_digit s; rest = dropWhile is_digit s
      in if c = CHR '':'' \<and> ds \<noteq> [] \<and> (rest = [] \<or> hd rest = CHR ''/'') then digits_val ds else port_after_colon s)"

definition agent_sort_port :: "js \<Rightarrow> rat" where
  "agent_sort_port a =
     (if nfig a ''port'' \<noteq> 0 then nfig a ''port''
      else of_nat (port_after_colon (js_string (js_or (js_or (jget a ''endpoint'') (jget a ''url'')) (JStr [])))))"

definition card_name :: "js \<Rightarrow> string" where
  "card_name a = js_string (js_or (js_or (jget a ''name'') (jget a ''id'')) (JStr []))"

text \<open>\<open>localeCompare\<close> is the parameter \<open>lc\<close>.\<close>

definition agent_cmp :: "(string \<Rightarrow> string \<Rightarrow> int) \<Rightarrow> js \<Rightarrow> js \<Rightarrow> int" where
  "agent_cmp lc a b =
     (let n = lc (card_name a) (card_name b);
          place = (\<lambda>x. if agent_sort_port x = 0 then 999999 else agent_sort_port x)
      in if n \<noteq> 0 then n else if place a < place b then -1 else if place a > place b then 1 else 0)"

definition sorted_agents :: "(string \<Rightarrow> string \<Rightarrow> int) \<Rightarrow> js list \<Rightarrow> js list" where
  "sorted_agents lc as = js_sort (agent_cmp lc) as"

definition sorted_clients :: "(string \<Rightarrow> string \<Rightarrow> int) \<Rightarrow> js list \<Rightarrow> js list" where
  "sorted_clients lc cs = js_sort (\<lambda>a b. lc (card_name a) (card_name b)) cs"

definition lane_cmp :: "(string \<Rightarrow> string \<Rightarrow> int) \<Rightarrow> js \<Rightarrow> js \<Rightarrow> int" where
  "lane_cmp lc a b =
     (let quiet = (\<lambda>x. if js_truthy (jget x ''live'') then 0 else 1 :: int); d = quiet a - quiet b
      in if d \<noteq> 0 then d else lc (js_text (jget a ''name'')) (js_text (jget b ''name'')))"

definition sorted_lane_cards :: "(string \<Rightarrow> string \<Rightarrow> int) \<Rightarrow> js list \<Rightarrow> js list" where
  "sorted_lane_cards lc cs = js_sort (lane_cmp lc) cs"

section \<open>How long a request is news\<close>

definition duration_ms :: "rat \<Rightarrow> js \<Rightarrow> js \<Rightarrow> rat" where
  "duration_ms now started fin =
     (let start = num_of (js_or started (JNum 0)); f = num_of (js_or fin (JNum 0)); stop = (if f = 0 then now else f)
      in if start = 0 then 0 else max 0 ((stop - start) * 1000))"

definition alarm_window :: "pulse \<Rightarrow> rat" where
  "alarm_window u = (let r = num_of (jget (pu_monitor u) ''retentionSeconds'') in if r = 0 then 600 else r)"

definition alarm_is_over :: "pulse \<Rightarrow> js \<Rightarrow> bool" where
  "alarm_is_over u item = (nfig item ''finishedAt'' > 0 \<and> pu_now u - nfig item ''finishedAt'' > alarm_window u)"

section \<open>The requests of a proxy\<close>

definition item_row :: "string \<Rightarrow> js \<Rightarrow> js \<Rightarrow> js" where
  "item_row rl row item =
     (let item0 = JObj (js_fields item) in
      js_put ''port'' (js_nn (jget item ''port'') (jget row ''port''))
        (js_put ''route'' (js_or (jget item ''route'') (js_or (jget item ''label'') (JStr rl)))
          (js_put ''label'' (js_or (jget item ''label'') (js_or (jget item ''route'') (JStr rl))) item0)))"

definition agent_proxy_rows :: "pulse \<Rightarrow> js list" where
  "agent_proxy_rows u = concat (map (\<lambda>k.
     let row = jget (agents_of u) k; rl = js_string (js_or (jget row ''label'') (JStr k))
     in map (item_row rl row) (arr_of row ''active'')) (js_keys (agents_of u)))"

definition row_of_proxy :: "js \<Rightarrow> js \<Rightarrow> bool" where
  "row_of_proxy p item =
     (let ip = nfig item ''port''; pp = nfig p ''port''
      in if ip \<noteq> 0 \<and> pp \<noteq> 0 then ip = pp
         else js_string (js_or (js_or (jget item ''label'') (jget item ''route'')) (JStr [])) = js_text (jget p ''label''))"

definition rows_for_proxy :: "pulse \<Rightarrow> js \<Rightarrow> js list" where
  "rows_for_proxy u p = (if js_truthy p then filter (row_of_proxy p) (agent_proxy_rows u) else [])"

definition is_queued :: "js \<Rightarrow> bool" where
  "is_queued item = (js_lower (js_text (jget item ''phase'')) = ''queued'')"

definition format_duration :: "rat \<Rightarrow> string" where
  "format_duration ms =
     (let s = js_round (ms / 1000)
      in if s < 60 then int_str s @ ''s'' else int_str (s div 60) @ ''m '' @ int_str (s mod 60) @ ''s'')"

text \<open>The wait a port's client allows: the operator's number, or none.\<close>

definition effective_wait :: "js \<Rightarrow> rat" where
  "effective_wait p = (let own = nfig p ''clientTimeoutSeconds'' in if own > 0 then own else 0)"

record queue_time =
  qt_queued :: rat
  qt_timeout :: rat
  qt_left :: rat
  qt_cloud :: rat
  qt_position :: "rat option"

definition queue_runtime :: "pulse \<Rightarrow> js \<Rightarrow> queue_time" where
  "queue_runtime u item =
     (let q = jget item ''queue'';
          queued = (if js_truthy (jget q ''queuedMs'') then num_of (jget q ''queuedMs'')
                    else duration_ms (pu_now u) (jget item ''startedAt'') JUndef);
          eff = (case proxy_on u (nfig item ''port'') of Some p \<Rightarrow> effective_wait p | None \<Rightarrow> 0);
          own = nfig (jget q ''thresholds'') ''clientTimeoutSeconds'';
          timeout = (if own \<noteq> 0 then own else if eff \<noteq> 0 then eff else 3600)
      in \<lparr>qt_queued = queued, qt_timeout = timeout, qt_left = max 0 (timeout * 1000 - queued),
          qt_cloud = nfig (jget q ''thresholds'') ''cloudAt'',
          qt_position = (if js_nullish (jget q ''position'') then None else Some (num_of (jget q ''position'')))\<rparr>)"

definition runtime_class :: "js \<Rightarrow> string" where
  "runtime_class item =
     (if is_queued item then ''queued'' else if js_text (jget item ''phase'') = ''preempting'' then ''preempting'' else ''running'')"

text \<open>The queue's place and what is left of the wait, or the phase and how long it has run.\<close>

definition runtime_label :: "pulse \<Rightarrow> js \<Rightarrow> bool \<Rightarrow> string" where
  "runtime_label u item short =
     (if is_queued item then
        (let q = queue_runtime u item;
             pos = (case qt_position q of None \<Rightarrow> [] | Some n \<Rightarrow> '' #'' @ rat_str (n + 1));
             left = format_duration (qt_left q)
         in ''queued'' @ pos @ middot
            @ (if short then left @ '' left''
               else format_duration (qt_queued q) @ ''/'' @ rat_str (qt_timeout q) @ ''s'' @ middot @ left @ '' left''))
      else
        (let elapsed = format_duration (if js_truthy (jget item ''elapsedMs'') then num_of (jget item ''elapsedMs'')
               else duration_ms (pu_now u) (jget item ''startedAt'') JUndef);
             phase = js_string (js_or (jget item ''phase'') (JStr ''running''))
         in phase @ (if short then '' '' else middot) @ elapsed))"

definition list_last :: "'a list \<Rightarrow> 'a option" where
  "list_last xs = (if xs = [] then None else Some (last xs))"

definition list_first :: "'a list \<Rightarrow> 'a option" where
  "list_first xs = (if xs = [] then None else Some (hd xs))"

record proxy_runtime =
  pr_running :: "js list"
  pr_queued :: "js list"
  pr_primary :: "js option"
  pr_detail :: string

definition proxy_runtime_of :: "pulse \<Rightarrow> js \<Rightarrow> proxy_runtime" where
  "proxy_runtime_of u p =
     (let rows = rows_for_proxy u p; queued = filter is_queued rows; running = filter (\<lambda>i. \<not> is_queued i) rows
      in \<lparr>pr_running = running, pr_queued = queued,
          pr_primary = (if running \<noteq> [] then list_last running else list_first queued),
          pr_detail = js_join middot (filter (\<lambda>w. w \<noteq> [])
            [if running \<noteq> [] then nat_str (length running) @ '' running'' else [],
             if queued \<noteq> [] then nat_str (length queued) @ '' queued'' else []])\<rparr>)"

section \<open>What went wrong\<close>

definition inference_paths :: "string list" where
  "inference_paths =
     [''/chat/completions'', ''/completions'', ''/embeddings'', ''/responses'', ''/messages'', ''/rerank'', ''/audio/transcriptions'',
      ''/audio/translations'', ''/audio/speech'', ''/infill'', ''/tokenize'', ''/detokenize'', ''/generate'', ''/predict'']"

definition is_inference :: "js \<Rightarrow> js \<Rightarrow> bool" where
  "is_inference meth path =
     (let clean = rev (dropWhile (\<lambda>c. c = CHR ''/'') (rev (hd (js_split CHR ''?'' (js_text path)))))
      in js_lower (js_text meth) = ''post'' \<and> list_ex (\<lambda>w. suffix w clean) inference_paths)"

definition is_probe :: "js \<Rightarrow> js \<Rightarrow> js \<Rightarrow> bool" where
  "is_probe meth path status =
     (js_trim (js_text path) \<noteq> [] \<and> js_number status \<in> {Fin 404, Fin 405, Fin 415, Fin 501} \<and> \<not> is_inference meth path)"

record incident =
  in_kind :: string
  in_title :: string
  in_summary :: string
  in_cause :: string

definition incident_cause :: "js \<Rightarrow> string \<Rightarrow> string" where
  "incident_cause item kind =
     (if js_truthy (jget item ''cause'') then js_string (jget item ''cause'')
      else if kind = ''client_disconnected'' then ''client closed connection while proxy was still streaming''
      else if kind = ''upstream_disconnected'' then ''upstream closed the connection while the proxy was waiting''
      else if kind = ''upstream_timeout'' then ''proxy waited too long for llama.cpp upstream''
      else if kind = ''slow_first_byte'' then
        (if nfig item ''chunks'' \<le> 1 then ''likely queued or busy in prompt processing'' else ''likely overloaded shared llama.cpp server'')
      else if kind = ''slow_request'' then ''long prompt/context or overloaded llama.cpp server''
      else ''proxy/upstream error'')"

definition error_kind :: "js \<Rightarrow> string" where
  "error_kind item =
     (let txt = js_lower (js_text (jget item ''error''))
      in if js_truthy (jget item ''errorKind'') then js_string (jget item ''errorKind'')
         else if list_ex (\<lambda>w. str_includes txt w) [''client disconnected'', ''broken pipe'', ''connection reset''] then ''client_disconnected''
         else if list_ex (\<lambda>w. str_includes txt w) [''timed out'', ''timeout''] then ''upstream_timeout'' else ''failed'')"

definition item_failed :: "js \<Rightarrow> bool" where
  "item_failed item =
     (let status = js_text (jget item ''status'')
      in js_truthy (jget item ''error'') \<or> status \<noteq> [] \<and> \<not> prefix ''2'' status \<and> status \<noteq> ''?'')"

definition chunks_text :: "js \<Rightarrow> string" where
  "chunks_text item = js_string (js_or (jget item ''chunks'') (JNum 0)) @ '' chunks''"

definition item_incident :: "js \<Rightarrow> incident option" where
  "item_incident item =
     (let label = js_string (js_or (js_or (jget item ''label'') (jget item ''route'')) (JStr ''route''));
          first = nfig item ''firstByteMs'';
          dur = num_of (js_or (js_or (jget item ''durationMs'') (jget item ''elapsedMs'')) (JNum 0))
      in if \<not> js_truthy item \<or> is_probe (jget item ''method'') (jget item ''path'') (jget item ''status'') then None
         else if item_failed item then
           (let kind = error_kind item; chain = js_trim (js_text (jget item ''chain''))
            in Some \<lparr>in_kind = kind, in_title = label @ '' '' @ (if kind = ''client_disconnected'' then ''client disconnected'' else ''failed''),
                 in_summary = (if js_truthy (jget item ''error'') then js_string (jget item ''error'') else ''status '' @ js_text (jget item ''status''))
                   @ (if chain \<noteq> [] then '' '' @ dash @ '' after '' @ chain else []),
                 in_cause = incident_cause item kind\<rparr>)
         else if first \<ge> 30000 then
           Some \<lparr>in_kind = ''slow'', in_title = label @ '' slow first byte'',
             in_summary = ''fb '' @ format_duration first @ middot @ chunks_text item, in_cause = incident_cause item ''slow_first_byte''\<rparr>
         else if dur \<ge> 120000 then
           Some \<lparr>in_kind = ''slow'', in_title = label @ '' slow request'',
             in_summary = format_duration dur @ middot @ chunks_text item, in_cause = incident_cause item ''slow_request''\<rparr>
         else None)"

definition incident_health :: "js \<Rightarrow> string \<Rightarrow> string" where
  "incident_health item fallback = (case item_incident item of
       None \<Rightarrow> fallback
     | Some i \<Rightarrow> if in_kind i \<in> {''failed'', ''upstream_timeout''} then ''failed'' else ''degraded'')"

text \<open>The lines of a record's telemetry.\<close>

definition telemetry_lines :: "js \<Rightarrow> string list" where
  "telemetry_lines item =
     (let rq = jget item ''request''; rs = jget item ''response''; st = jget item ''stream'';
          usage = js_or (js_or (jget rs ''usage'') (jget st ''usage'')) (JObj []);
          told = (\<lambda>v. js_string (js_nn v (JStr ''?'')));
          zero = (\<lambda>v. js_string (js_or v (JNum 0)));
          reasons = js_list (js_or (js_or (jget rs ''finishReasons'') (jget st ''finishReasons'')) (JArr []))
      in filter (\<lambda>w. w \<noteq> [])
        [if js_truthy (jget rq ''model'') then ''model: '' @ js_string (jget rq ''model'') else [],
         if jget rq ''stream'' \<noteq> JUndef then ''stream: '' @ (if js_truthy (jget rq ''stream'') then ''yes'' else ''no'') else [],
         if jget rq ''messages'' \<noteq> JUndef then ''messages: '' @ js_string (jget rq ''messages'') @ '', chars: '' @ zero (jget rq ''promptTextChars'')
           @ '', images: '' @ zero (jget rq ''imageParts'') else [],
         if js_truthy (jget rq ''maxTokens'') then ''max tokens: '' @ js_string (jget rq ''maxTokens'') else [],
         if js_truthy (jget item ''firstByteMs'') then ''first byte: '' @ js_string (jget item ''firstByteMs'') @ '' ms'' else [],
         if js_truthy (jget item ''chunks'') then ''chunks: '' @ js_string (jget item ''chunks'') else [],
         if js_truthy (jget st ''events'') then ''stream events: '' @ js_string (jget st ''events'') @ '', delta chars: '' @ zero (jget st ''deltaTextChars'') else [],
         if js_truthy (jget usage ''prompt_tokens'') \<or> js_truthy (jget usage ''completion_tokens'') \<or> js_truthy (jget usage ''total_tokens'')
           then ''usage: prompt '' @ told (jget usage ''prompt_tokens'') @ '', completion '' @ told (jget usage ''completion_tokens'')
             @ '', total '' @ told (jget usage ''total_tokens'') else [],
         if reasons \<noteq> [] then ''finish: '' @ js_join '', '' (map js_string reasons) else []])"

definition telemetry_summary :: "js \<Rightarrow> string" where
  "telemetry_summary item =
     (let rq = jget item ''request''; rs = jget item ''response''; st = jget item ''stream'';
          usage = js_or (js_or (jget rs ''usage'') (jget st ''usage'')) (JObj []);
          model = js_or (js_or (js_or (jget rq ''model'') (jget st ''model'')) (jget rs ''model'')) (JStr ''-'');
          all = js_or (js_or (js_or (jget usage ''total_tokens'') (jget usage ''totalTokens'')) (jget item ''usageTokens'')) (JStr ''-'');
          ask = js_nn (js_nn (jget usage ''prompt_tokens'') (jget usage ''promptTokens'')) (JStr ''-'');
          gave = js_nn (js_nn (jget usage ''completion_tokens'') (jget usage ''completionTokens'')) (JStr ''-'')
      in js_join middot
        [js_string model, if jget rq ''messages'' \<noteq> JUndef then js_string (jget rq ''messages'') @ '' msg'' else ''msg -'',
         js_string all @ '' tok'', js_string ask @ ''/'' @ js_string gave @ '' tok'',
         ''fb '' @ (if js_truthy (jget item ''firstByteMs'') then js_string (jget item ''firstByteMs'') @ ''ms'' else ''-''),
         (if jget item ''chunks'' \<noteq> JUndef then js_string (jget item ''chunks'') else ''-'') @ '' chunks''])"

definition correlated_lines :: "js \<Rightarrow> string list" where
  "correlated_lines item = (if js_truthy (jget item ''correlation'') then [''correlation: '' @ js_string (jget item ''correlation'')] else [])"

section \<open>A proxy's activity\<close>

record card_activity = activity +
  ca_label :: string
  ca_title :: string
  ca_detail :: string
  ca_over :: bool
  ca_item :: "js option"
  ca_incident :: "incident option"

definition idle_activity :: card_activity where
  "idle_activity = \<lparr>ac_state = ''idle'', ac_health = [], ca_label = [], ca_title = [], ca_detail = [], ca_over = False,
     ca_item = None, ca_incident = None\<rparr>"

definition proxy_upstream :: "js \<Rightarrow> string" where
  "proxy_upstream p =
     js_string (js_or (js_or (jget p ''resolvedUpstreamHost'') (jget p ''upstreamHost'')) (JStr ''127.0.0.1''))
     @ '':'' @ js_string (js_or (js_or (jget p ''resolvedUpstreamPort'') (jget p ''upstreamPort'')) (JNum 8080))"

definition proxy_called :: "js \<Rightarrow> string" where
  "proxy_called p = js_string (js_or (jget p ''label'') (jget p ''port''))"

definition text_lines :: "string list \<Rightarrow> string" where
  "text_lines ls = js_join [CHR 0x0A] (filter (\<lambda>w. w \<noteq> []) ls)"

definition request_line :: "js \<Rightarrow> string" where
  "request_line item = js_string (js_or (jget item ''method'') (JStr ''POST'')) @ '' '' @ js_text (jget item ''path'')"

definition client_line :: "js \<Rightarrow> string" where
  "client_line item = ''client: '' @ js_string (js_or (jget item ''client'') (JStr ''?''))"

definition bytes_line :: "js \<Rightarrow> string" where
  "bytes_line item = ''bytes: '' @ js_string (js_or (jget item ''bytes'') (JNum 0))"

definition proxy_line :: "js \<Rightarrow> string" where
  "proxy_line p = ''proxy: :'' @ js_string (jget p ''port'') @ '' -> '' @ proxy_upstream p"

definition incident_line :: "incident option \<Rightarrow> string" where
  "incident_line i = (case i of None \<Rightarrow> [] | Some x \<Rightarrow> ''Incident: '' @ in_title x @ '' - '' @ in_summary x)"

definition error_line :: "js \<Rightarrow> string" where
  "error_line item = (if js_truthy (jget item ''error'') then ''error: '' @ js_string (jget item ''error'') else [])"

definition ago_text :: "pulse \<Rightarrow> bool \<Rightarrow> js \<Rightarrow> string" where
  "ago_text u over item = (if over then '', '' @ format_duration (duration_ms (pu_now u) (jget item ''finishedAt'') JUndef) @ '' ago'' else [])"

text \<open>A request the proxy's rows hold: running, or first in line.\<close>

definition running_activity :: "pulse \<Rightarrow> js \<Rightarrow> string \<Rightarrow> js \<Rightarrow> card_activity" where
  "running_activity u p detail item =
     (let queued = is_queued item; state = (if queued then ''queued'' else ''active'')
      in \<lparr>ac_state = state, ac_health = ''ok'', ca_label = runtime_label u item True,
          ca_title = text_lines [proxy_called p @ '' '' @ (if queued then ''is queued'' else ''is running''), request_line item,
            ''phase: '' @ js_string (js_or (jget item ''phase'') (JStr state)), client_line item,
            (if queued then ''queue: '' else ''duration: '') @ runtime_label u item False, proxy_line p],
          ca_detail = detail, ca_over = False, ca_item = Some item, ca_incident = None\<rparr>)"

definition ran_for :: "pulse \<Rightarrow> js \<Rightarrow> string" where
  "ran_for u item = format_duration (if js_truthy (jget item ''durationMs'') then num_of (jget item ''durationMs'')
     else duration_ms (pu_now u) (jget item ''startedAt'') (jget item ''finishedAt''))"

definition runs_for :: "pulse \<Rightarrow> js \<Rightarrow> string" where
  "runs_for u item = format_duration (duration_ms (pu_now u) (jget item ''startedAt'') JUndef)"

text \<open>What the monitor's correlation has of the proxy.\<close>

definition correlated_of :: "pulse \<Rightarrow> js \<Rightarrow> js" where
  "correlated_of u p =
     (let by = jget (jget (latest_of u) ''correlatedActivity'') ''byProxy''; own = jget by (js_text (jget p ''label''))
      in if js_truthy own then own
         else (case find (\<lambda>r. jnum_eq (js_number (jget r ''port'')) (js_number (jget p ''port''))) (map (jget by) (js_keys by)) of
             Some r \<Rightarrow> r | None \<Rightarrow> JUndef))"

definition correlated_activity :: "pulse \<Rightarrow> js \<Rightarrow> js \<Rightarrow> card_activity" where
  "correlated_activity u p row =
     (let active = arr_of row ''active''; item = (if active \<noteq> [] then last active else jget row ''last'');
          queued = is_queued item; runs = (jget item ''state'' = JStr ''active'' \<and> \<not> queued);
          dur = (if runs then runs_for u item else ran_for u item);
          status = js_string (js_or (jget item ''status'') (JStr ''?''));
          failed = (js_truthy (jget item ''error'') \<or> \<not> runs \<and> \<not> prefix ''2'' status);
          over = (\<not> runs \<and> \<not> queued \<and> alarm_is_over u item);
          inc = (if over then None else item_incident item)
      in \<lparr>ac_state = (if queued then ''queued'' else if runs then ''active'' else if failed \<and> \<not> over then ''error'' else ''recent''),
          ac_health = (if over then ''ok'' else incident_health item (if failed then ''failed'' else ''ok'')),
          ca_label = (if queued then runtime_label u item True else if runs then ''active '' @ dur else status @ '' '' @ dur),
          ca_title = text_lines ([incident_line inc, proxy_called p @ '' '' @ (if runs then ''is active'' else ''last request'') @ ago_text u over item,
              request_line item, if runs then ''duration: '' @ dur else ''status: '' @ status @ '', duration: '' @ dur, client_line item, bytes_line item]
            @ telemetry_lines item @ correlated_lines item @ [proxy_line p, error_line item]),
          ca_detail = [], ca_over = over, ca_item = Some item, ca_incident = inc\<rparr>)"

text \<open>The proxy's own row of the monitor: one running, else the last one of its recent ones.\<close>

definition monitor_row :: "pulse \<Rightarrow> js \<Rightarrow> js" where
  "monitor_row u p =
     (let own = jget (agents_of u) (js_text (jget p ''label''))
      in if js_truthy own then own
         else (case find (\<lambda>r. jnum_eq (js_number (jget r ''port'')) (js_number (jget p ''port'')))
                 (map (jget (agents_of u)) (js_keys (agents_of u))) of Some r \<Rightarrow> r | None \<Rightarrow> JObj []))"

definition live_activity :: "pulse \<Rightarrow> js \<Rightarrow> js list \<Rightarrow> card_activity" where
  "live_activity u p active =
     (let item = (case find (\<lambda>r. \<not> is_queued r) active of Some r \<Rightarrow> r | None \<Rightarrow> hd active);
          queued = is_queued item; dur = runs_for u item; inc = item_incident item
      in \<lparr>ac_state = (if queued then ''queued'' else ''active''), ac_health = incident_health item ''ok'',
          ca_label = (if queued then runtime_label u item True else ''active '' @ dur),
          ca_title = text_lines ([incident_line inc, proxy_called p @ '' is active'', request_line item, client_line item, ''duration: '' @ dur, bytes_line item]
            @ telemetry_lines item @ [proxy_line p]),
          ca_detail = [], ca_over = False, ca_item = Some item, ca_incident = inc\<rparr>)"

definition last_activity :: "pulse \<Rightarrow> js \<Rightarrow> js \<Rightarrow> card_activity" where
  "last_activity u p item =
     (let dur = ran_for u item; status = js_string (js_or (jget item ''status'') (JStr ''?''));
          failed = (js_truthy (jget item ''error'') \<or> \<not> prefix ''2'' status);
          over = alarm_is_over u item; inc = (if over then None else item_incident item)
      in \<lparr>ac_state = (if failed \<and> \<not> over then ''error'' else ''recent''),
          ac_health = (if over then ''ok'' else incident_health item (if failed then ''failed'' else ''ok'')),
          ca_label = status @ '' '' @ dur,
          ca_title = text_lines ([incident_line inc, proxy_called p @ '' last request'' @ ago_text u over item, request_line item,
              ''status: '' @ status, ''duration: '' @ dur, client_line item, bytes_line item] @ telemetry_lines item @ [error_line item]),
          ca_detail = [], ca_over = over, ca_item = Some item, ca_incident = inc\<rparr>)"

definition proxy_activity :: "pulse \<Rightarrow> js \<Rightarrow> card_activity" where
  "proxy_activity u p =
     (if \<not> js_truthy p then idle_activity
      else let rt = proxy_runtime_of u p in
        case pr_primary rt of
          Some item \<Rightarrow> running_activity u p (pr_detail rt) item
        | None \<Rightarrow>
            if js_truthy (jget (correlated_of u p) ''last'') then correlated_activity u p (correlated_of u p)
            else let row = monitor_row u p; active = arr_of row ''active''; recent = arr_of row ''recent'' in
              if active \<noteq> [] then live_activity u p active
              else if recent \<noteq> [] \<and> js_truthy (last recent) then last_activity u p (last recent)
              else idle_activity)"

definition activity_of_id :: "pulse \<Rightarrow> string \<Rightarrow> card_activity" where
  "activity_of_id u i = proxy_activity u (proxy_by_id (pu_board u) (JStr i))"

text \<open>The incident a card shows now: none once its alarm is over.\<close>

definition activity_incident :: "card_activity \<Rightarrow> incident option" where
  "activity_incident a =
     (if ca_over a then None
      else case ca_incident a of Some i \<Rightarrow> Some i | None \<Rightarrow> (case ca_item a of Some item \<Rightarrow> item_incident item | None \<Rightarrow> None))"

text \<open>A card's last request as a key that changes with it, and when its alarm ends.\<close>

definition finished_key :: "pulse \<Rightarrow> js \<Rightarrow> string" where
  "finished_key u p =
     (let a = proxy_activity u p in
      case ca_item a of
        None \<Rightarrow> []
      | Some item \<Rightarrow>
          if \<not> js_truthy item \<or> (ac_state a \<noteq> ''error'' \<and> ac_state a \<noteq> ''recent'') then []
          else js_string (jget p ''id'') @ ''='' @ (if js_truthy (jget item ''id'') then js_string (jget item ''id'')
              else js_string (jget item ''startedAt'') @ ''-'' @ js_string (jget item ''finishedAt'')) @ (if ca_over a then ''!'' else []))"

text \<open>What would change a card's classes: the running requests, the sticky slots, the server's count and
  the last requests.\<close>

definition fingerprint :: "pulse \<Rightarrow> string" where
  "fingerprint u =
     (let items = js_join ''|'' (sort (concat (map (\<lambda>k. map (\<lambda>i. js_string (jget i ''route'') @ '':'' @ js_string (jget i ''phase'') @ '':'' @ js_text (jget i ''status''))
            (row_items ''active'' (jget (agents_of u) k))) (js_keys (agents_of u)))));
          slots = js_or (jget (jget (latest_of u) ''agentProxies'') ''stickySlots'') (JObj []);
          sticky = concat (sort (map (\<lambda>g. '':s'' @ g @ '':'' @ js_string (jget (jget slots g) ''port'') @ '':''
            @ int_str (\<lceil>num_of (jget (jget slots g) ''remainingSec'')\<rceil>)) (js_keys slots)));
          llama = js_nn (jget (jget (jget (latest_of u) ''correlatedActivity'') ''llamaServer'') ''activeRequestCount'') (JNum 0);
          finished = js_join '','' (sort (filter (\<lambda>w. w \<noteq> []) (map (finished_key u) (board_proxies u))))
      in items @ sticky @ '':l'' @ js_string llama @ '':r'' @ finished)"

text \<open>The classes are set again only when the key moved.\<close>

definition repaints :: "pulse \<Rightarrow> string option \<Rightarrow> bool" where
  "repaints u was = (was \<noteq> Some (fingerprint u))"

section \<open>A router, a server, the graphics cards\<close>

definition livest :: "card_activity list \<Rightarrow> card_activity" where
  "livest as = (case find (\<lambda>a. ac_state a = ''active'') as of Some a \<Rightarrow> a | None \<Rightarrow>
     (case find (\<lambda>a. ac_state a = ''error'') as of Some a \<Rightarrow> a | None \<Rightarrow>
       (case find (\<lambda>a. ac_state a = ''recent'') as of Some a \<Rightarrow> a | None \<Rightarrow> idle_activity)))"

definition feeds_router :: "pulse \<Rightarrow> js \<Rightarrow> js list" where
  "feeds_router u router =
     (let ids = map js_string (js_list (js_or (jget router ''inputs'') (JArr [])))
      in filter (\<lambda>p. js_text (jget p ''kind'') = ''consumer'' \<and> js_truthy (jget p ''set'')) (board_proxies u)
         @ filter (\<lambda>p. js_string (jget p ''id'') \<in> set ids) (board_proxies u))"

definition router_activity :: "pulse \<Rightarrow> js \<Rightarrow> card_activity" where
  "router_activity u router = livest (map (proxy_activity u) (feeds_router u router))"

record group_activity = activity +
  ga_label :: string
  ga_summary :: string

definition group_of :: "string \<Rightarrow> string \<Rightarrow> string \<Rightarrow> group_activity" where
  "group_of st l x = \<lparr>ac_state = st, ac_health = [], ga_label = l, ga_summary = x\<rparr>"

definition count_or :: "nat \<Rightarrow> nat \<Rightarrow> string" where
  "count_or n d = nat_str (if n = 0 then d else n)"

definition llama_activity :: "pulse \<Rightarrow> js \<Rightarrow> group_activity" where
  "llama_activity u port =
     (let related = filter (\<lambda>p. nfig p ''upstreamPort'' = num_of (js_or port (JNum 0))) (board_proxies u);
          entries = map (\<lambda>p. (p, proxy_activity u p)) related;
          of_state = (\<lambda>w. filter (\<lambda>(p, a). ac_state a = w) entries);
          active = of_state ''active''; errors = of_state ''error''; recent = of_state ''recent'';
          seen = active @ errors @ recent;
          items = filter js_truthy (List.map_filter (\<lambda>(p, a). ca_item a) seen);
          clients = length (js_uniq (filter js_truthy (map (\<lambda>i. jget i ''client'') items)));
          routes = length (js_uniq (map (\<lambda>(p, a). js_string (js_or (jget p ''label'') (JStr ('':'' @ js_string (jget p ''port''))))) seen));
          usage = sum_list (map (\<lambda>i. nfig (js_or (js_or (jget (jget i ''response'') ''usage'') (jget (jget i ''stream'') ''usage'')) (JObj [])) ''total_tokens'') items);
          words = (\<lambda>n tok. js_join middot (filter (\<lambda>w. w \<noteq> []) [count_or clients n @ '' clients'', count_or routes n @ '' routes'',
             if tok \<and> usage \<noteq> 0 then rat_str usage @ '' tok'' else []]))
      in if active \<noteq> [] then group_of ''active'' (nat_str (length active) @ '' active'') (words (length active) True)
         else if errors \<noteq> [] then group_of ''error'' (nat_str (length errors) @ '' error'') (words (length errors) False)
         else if recent \<noteq> [] then group_of ''recent'' (nat_str (length recent) @ '' recent'') (words (length recent) True)
         else group_of ''idle'' [] [])"

definition overview_running :: "pulse \<Rightarrow> js list" where
  "overview_running u = filter (\<lambda>i. \<not> is_queued i) (agent_proxy_rows u)"

definition queue_place :: "js \<Rightarrow> rat" where
  "queue_place i = num_of (js_nn (jget (jget i ''queue'') ''position'') (JNum 9999))"

definition overview_queued :: "pulse \<Rightarrow> js list" where
  "overview_queued u = js_sort (\<lambda>a b. if queue_place a < queue_place b then -1 else if queue_place a > queue_place b then 1 else 0)
     (filter is_queued (agent_proxy_rows u))"

definition gpu_activity :: "pulse \<Rightarrow> group_activity" where
  "gpu_activity u =
     (let c = jget (jget (latest_of u) ''correlatedActivity'') ''gpu''; n = nfig c ''activeRequestCount'';
          running = length (overview_running u); queued = length (overview_queued u);
          runs = (if running \<noteq> 0 then nat_str running else rat_str n) @ '' running'';
          waits = (if queued \<noteq> 0 then nat_str queued @ '' queued'' else []);
          many = (\<lambda>k w. if js_list (jget c k) \<noteq> [] then nat_str (length (js_list (jget c k))) @ w else [])
      in if js_truthy c \<and> n \<noteq> 0
         then group_of ''active'' (runs @ (if waits \<noteq> [] then middot @ waits else []))
           (js_join middot (filter (\<lambda>w. w \<noteq> []) [runs, waits, many ''activeClients'' '' clients'', many ''activeRoutes'' '' routes'',
              js_string (js_or (jget c ''utilPct'') (JNum 0)) @ ''% GPU'',
              if js_truthy (jget c ''memoryPct'') then js_string (jget c ''memoryPct'') @ ''% VRAM'' else []]))
         else group_of ''idle'' [] [])"

section \<open>Laws\<close>

text \<open>The same reading of the monitor, looked at when the clock says \<open>n\<close>.\<close>

abbreviation later :: "rat \<Rightarrow> pulse \<Rightarrow> pulse" where
  "later n u \<equiv> u\<lparr>pu_now := n\<rparr>"

lemma later_reads [simp]:
  "latest_of (later n u) = latest_of u" "agents_of (later n u) = agents_of u" "board_proxies (later n u) = board_proxies u"
  "agent_proxy_rows (later n u) = agent_proxy_rows u" "rows_for_proxy (later n u) p = rows_for_proxy u p"
  "alarm_window (later n u) = alarm_window u"
  by (simp_all add: latest_of_def agents_of_def board_proxies_def agent_proxy_rows_def rows_for_proxy_def alarm_window_def)

lemma later_reads2 [simp]:
  "proxy_runtime_of (later n u) p = proxy_runtime_of u p" "correlated_of (later n u) p = correlated_of u p"
  "monitor_row (later n u) p = monitor_row u p"
  by (simp_all add: proxy_runtime_of_def correlated_of_def monitor_row_def Let_def)

lemma alarm_stays_over: "pu_now u \<le> n \<Longrightarrow> alarm_is_over u item \<Longrightarrow> alarm_is_over (later n u) item"
  by (simp add: alarm_is_over_def)

text \<open>A card's request, and whether it is a finished one, whatever the clock says.\<close>

definition a_finished :: "card_activity \<Rightarrow> bool" where
  "a_finished a = (ac_state a = ''error'' \<or> ac_state a = ''recent'')"

definition clocked :: "pulse \<Rightarrow> card_activity \<Rightarrow> bool" where
  "clocked u a \<longleftrightarrow> ca_over a = (a_finished a \<and> (case ca_item a of Some item \<Rightarrow> alarm_is_over u item | None \<Rightarrow> False))
     \<and> (if ca_over a then ac_state a = ''recent'' \<and> ac_health a = ''ok'' \<and> ca_incident a = None else True)"

lemma clocked_parts:
  "clocked u idle_activity" "clocked u (running_activity u p d item)" "clocked u (live_activity u p active)"
  "clocked u (last_activity u p item)" "clocked u (correlated_activity u p row)"
  by (simp_all add: clocked_def a_finished_def idle_activity_def running_activity_def live_activity_def last_activity_def
      correlated_activity_def Let_def)

lemma proxy_activity_clocked: "clocked u (proxy_activity u p)"
  by (simp add: proxy_activity_def clocked_parts Let_def split: option.split)

text \<open>Nothing but the end of its alarm changes a card while nothing starts or ends.\<close>

definition same_card :: "card_activity \<Rightarrow> card_activity \<Rightarrow> bool" where
  "same_card a b \<longleftrightarrow> ca_item a = ca_item b \<and> a_finished a = a_finished b
     \<and> (if ca_over a = ca_over b then ac_state a = ac_state b \<and> ac_health a = ac_health b else True)"

lemma same_card_parts:
  "same_card idle_activity idle_activity" "same_card (running_activity (later n u) p d item) (running_activity u p d item)"
  "same_card (live_activity (later n u) p active) (live_activity u p active)"
  "same_card (last_activity (later n u) p item) (last_activity u p item)"
  "same_card (correlated_activity (later n u) p row) (correlated_activity u p row)"
  by (simp_all add: same_card_def a_finished_def idle_activity_def running_activity_def live_activity_def last_activity_def
      correlated_activity_def Let_def)

lemma same_card_later: "same_card (proxy_activity (later n u) p) (proxy_activity u p)"
  by (simp add: proxy_activity_def same_card_parts Let_def split: option.split)

lemma over_truthy: "alarm_is_over u item \<Longrightarrow> js_truthy item"
  by (cases item) (simp_all add: alarm_is_over_def nfig_def num_of_def)

lemma over_stays:
  assumes "pu_now u \<le> n" "ca_over (proxy_activity u p)"
  shows "ca_over (proxy_activity (later n u) p)"
  using assms proxy_activity_clocked [of u p] proxy_activity_clocked [of "later n u" p] same_card_later [of n u p]
  by (auto simp: clocked_def same_card_def alarm_stays_over split: option.splits)

definition key_base :: "js \<Rightarrow> js \<Rightarrow> string" where
  "key_base p item = js_string (jget p ''id'') @ ''='' @ (if js_truthy (jget item ''id'') then js_string (jget item ''id'')
     else js_string (jget item ''startedAt'') @ ''-'' @ js_string (jget item ''finishedAt''))"

lemma finished_key_eq:
  "finished_key u p = (case ca_item (proxy_activity u p) of None \<Rightarrow> [] | Some item \<Rightarrow>
     if js_truthy item \<and> a_finished (proxy_activity u p)
     then key_base p item @ (if ca_over (proxy_activity u p) then ''!'' else []) else [])"
  by (auto simp: finished_key_def key_base_def Let_def a_finished_def split: option.split)

lemma key_base_not_Nil [simp]: "key_base p item \<noteq> []"
  by (simp add: key_base_def)

lemma finished_key_later:
  assumes "pu_now u \<le> n"
  shows "(finished_key (later n u) p = []) = (finished_key u p = [])"
    and "length (finished_key u p) \<le> length (finished_key (later n u) p)"
    and "ca_over (proxy_activity (later n u) p) \<noteq> ca_over (proxy_activity u p)
       \<Longrightarrow> length (finished_key u p) < length (finished_key (later n u) p)"
proof -
  let ?a = "proxy_activity u p" and ?b = "proxy_activity (later n u) p"
  have same: "ca_item ?b = ca_item ?a" "a_finished ?b = a_finished ?a"
    using same_card_later [of n u p] by (simp_all add: same_card_def)
  have up: "ca_over ?a \<Longrightarrow> ca_over ?b" using over_stays [OF assms] .
  show "(finished_key (later n u) p = []) = (finished_key u p = [])"
    using same by (simp add: finished_key_eq split: option.split)
  show "length (finished_key u p) \<le> length (finished_key (later n u) p)"
    using same up by (auto simp: finished_key_eq split: option.split)
  assume "ca_over ?b \<noteq> ca_over ?a"
  with up have over: "ca_over ?b" "\<not> ca_over ?a" by auto
  then obtain item where b: "ca_item ?b = Some item" "js_truthy item" "a_finished ?b"
    using proxy_activity_clocked [of "later n u" p] by (auto simp: clocked_def over_truthy split: option.splits)
  then have a: "ca_item ?a = Some item" "a_finished ?a" using same by simp_all
  show "length (finished_key u p) < length (finished_key (later n u) p)"
    by (simp add: finished_key_eq a b over)
qed

lemma truncate_cong: "ac_state a = ac_state b \<Longrightarrow> ac_health a = ac_health b \<Longrightarrow> activity.truncate a = activity.truncate b"
  by (simp add: activity.truncate_def)

text \<open>The length of a joined list does not depend on its order.\<close>

lemma length_js_join: "length (js_join sep ws) = sum_list (map length ws) + length sep * (length ws - 1)"
  by (induction sep ws rule: js_join.induct) auto

lemma length_join_sort: "length (js_join sep (sort ws)) = sum_list (map length ws) + length sep * (length ws - 1)"
proof -
  have "sum_list (map length (sort ws)) = sum_mset (image_mset length (mset (sort ws)))"
    by (metis mset_map sum_mset_sum_list)
  then show ?thesis by (simp add: length_js_join flip: sum_mset_sum_list)
qed

lemma sum_length_filter: "sum_list (map length (filter (\<lambda>w. w \<noteq> []) ws)) = sum_list (map length ws)"
  by (induction ws) auto

definition last_part :: "pulse \<Rightarrow> string" where
  "last_part u = js_join '','' (sort (filter (\<lambda>w. w \<noteq> []) (map (finished_key u) (board_proxies u))))"

lemma length_last_part:
  "length (last_part u) = sum_list (map (\<lambda>p. length (finished_key u p)) (board_proxies u))
     + (length (filter (\<lambda>p. finished_key u p \<noteq> []) (board_proxies u)) - 1)"
  unfolding last_part_def length_join_sort sum_length_filter by (simp add: comp_def filter_map)

lemma sum_list_strict:
  "(\<And>x. x \<in> set xs \<Longrightarrow> f x \<le> (g x :: nat)) \<Longrightarrow> y \<in> set xs \<Longrightarrow> f y < g y \<Longrightarrow> sum_list (map f xs) < sum_list (map g xs)"
proof (induction xs)
  case (Cons x xs)
  show ?case
  proof (cases "y \<in> set xs")
    case True
    with Cons have "sum_list (map f xs) < sum_list (map g xs)" by simp
    moreover have "f x \<le> g x" using Cons.prems(1) by simp
    ultimately show ?thesis by simp
  next
    case False
    with Cons.prems have "f x < g x" by simp
    moreover have "sum_list (map f xs) \<le> sum_list (map g xs)" using Cons.prems(1) by (intro sum_list_mono) simp
    ultimately show ?thesis by simp
  qed
qed simp

lemma last_part_longer:
  assumes "pu_now u \<le> n" "p \<in> set (board_proxies u)" "ca_over (proxy_activity (later n u) p) \<noteq> ca_over (proxy_activity u p)"
  shows "length (last_part u) < length (last_part (later n u))"
proof -
  have "sum_list (map (\<lambda>p. length (finished_key u p)) (board_proxies u))
      < sum_list (map (\<lambda>p. length (finished_key (later n u) p)) (board_proxies u))"
    using finished_key_later [OF assms(1)] assms(2,3) by (intro sum_list_strict) auto
  then show ?thesis by (simp add: length_last_part finished_key_later(1) [OF assms(1)])
qed

lemma fingerprint_last:
  "\<exists>rest. fingerprint u = rest @ last_part u \<and> fingerprint (later n u) = rest @ last_part (later n u)"
  unfolding fingerprint_def last_part_def Let_def latest_of_def agents_of_def by auto

lemma clocked_says:
  assumes "clocked u a"
  shows "if ca_over a then ac_state a = ''recent'' \<and> ac_health a = ''ok'' \<and> activity_incident a = None
     else \<not> ((ac_state a = ''error'' \<or> ac_state a = ''recent'') \<and> (case ca_item a of Some item \<Rightarrow> alarm_is_over u item | None \<Rightarrow> False))"
proof (cases "ca_over a")
  case True
  with assms show ?thesis by (simp add: clocked_def activity_incident_def)
next
  case False
  with assms have "\<not> (a_finished a \<and> (case ca_item a of Some item \<Rightarrow> alarm_is_over u item | None \<Rightarrow> False))"
    unfolding clocked_def by blast
  with False show ?thesis unfolding a_finished_def by simp
qed

text \<open>A refused request of one proxy, read at nine seconds.\<close>

definition a_pulse :: pulse where
  "a_pulse = \<lparr>pu_monitor = JObj [(''latest'', JObj [(''agentProxies'', JObj [(''agents'', JObj [(''a'', JObj [(''port'', JNum 1),
       (''recent'', JArr [JObj [(''id'', JStr ''7''), (''status'', JStr ''500''), (''finishedAt'', JNum 5)]])])])])])],
     pu_board = JObj [(''proxies'', JArr [JObj [(''id'', JStr ''x''), (''port'', JNum 1)]])], pu_thresholds = JNull, pu_now = 9\<rparr>"

definition a_proxy :: js where
  "a_proxy = JObj [(''id'', JStr ''x''), (''port'', JNum 1)]"

lemma a_pulse_activity:
  "proxy_activity (later n a_pulse) a_proxy = last_activity (later n a_pulse) a_proxy (JObj [(''id'', JStr ''7''), (''status'', JStr ''500''), (''finishedAt'', JNum 5)])"
  by (simp add: a_pulse_def a_proxy_def proxy_activity_def proxy_runtime_of_def rows_for_proxy_def agent_proxy_rows_def agents_of_def latest_of_def
      correlated_of_def monitor_row_def arr_of_def js_keys_def js_uniq_def js_or_def list_first_def jnum_eq_def row_of_proxy_def)

lemma a_pulse_red:
  "ac_state (proxy_activity (later 9 a_pulse) a_proxy) = ''error''"
  unfolding a_pulse_activity
  by (simp add: last_activity_def Let_def alarm_is_over_def alarm_window_def a_pulse_def nfig_def num_of_def js_or_def)

lemma a_pulse_calm:
  "ac_state (proxy_activity (later 1000 a_pulse) a_proxy) = ''recent''"
  unfolding a_pulse_activity
  by (simp add: last_activity_def Let_def alarm_is_over_def alarm_window_def a_pulse_def nfig_def num_of_def js_or_def)

lemma a_pulse_now: "later 9 a_pulse = a_pulse"
  by (simp add: a_pulse_def)

section \<open>Properties\<close>

text \<open>A card is out of its alarm exactly when its last request finished longer ago than the window: then
  it is calm (recent, healthy, no incident), and until then a finished request stays what it was.\<close>

theorem act_alarm_ends_with_the_window:
  "let a = proxy_activity u p in
   if ca_over a then ac_state a = ''recent'' \<and> ac_health a = ''ok'' \<and> activity_incident a = None
   else \<not> ((ac_state a = ''error'' \<or> ac_state a = ''recent'') \<and> (case ca_item a of Some item \<Rightarrow> alarm_is_over u item | None \<Rightarrow> False))"
  unfolding Let_def by (rule clocked_says [OF proxy_activity_clocked])

text \<open>(C32) While nothing starts or ends, a card of the board changes its classes only by its alarm's
  end, and then the key has moved: the board is painted again and no card stays red.\<close>

theorem act_aged_alarm_repaints:
  assumes "pu_now u \<le> n" "p \<in> set (board_proxies u)"
    "state_health_classes (activity.truncate (proxy_activity (later n u) p)) \<noteq> state_health_classes (activity.truncate (proxy_activity u p))"
  shows "ca_over (proxy_activity (later n u) p) \<and> repaints (later n u) (Some (fingerprint u))"
proof -
  have ne: "ca_over (proxy_activity (later n u) p) \<noteq> ca_over (proxy_activity u p)"
  proof
    assume "ca_over (proxy_activity (later n u) p) = ca_over (proxy_activity u p)"
    with same_card_later [of n u p] have "activity.truncate (proxy_activity (later n u) p) = activity.truncate (proxy_activity u p)"
      by (intro truncate_cong) (simp_all add: same_card_def)
    with assms(3) show False by (metis (no_types))
  qed
  then have "length (last_part u) < length (last_part (later n u))"
    using assms(1,2) by (intro last_part_longer)
  moreover obtain rest where "fingerprint u = rest @ last_part u" "fingerprint (later n u) = rest @ last_part (later n u)"
    using fingerprint_last by blast
  ultimately have "fingerprint (later n u) \<noteq> fingerprint u" by (metis append_same_eq same_append_eq less_irrefl)
  moreover have "ca_over (proxy_activity (later n u) p)" using ne over_stays [OF assms(1)] by blast
  ultimately show ?thesis by (simp add: repaints_def)
qed

theorem act_aged_alarm_repaints_witness:
  "ca_over (proxy_activity (later 1000 a_pulse) a_proxy) \<and> repaints (later 1000 a_pulse) (Some (fingerprint a_pulse))"
proof (rule act_aged_alarm_repaints)
  show "pu_now a_pulse \<le> 1000" by (simp add: a_pulse_def)
  show "a_proxy \<in> set (board_proxies a_pulse)" by (simp add: a_pulse_def a_proxy_def board_proxies_def proxy_rows_def js_or_def)
  have "state_health_classes (activity.truncate (proxy_activity (later 9 a_pulse) a_proxy)) \<noteq> state_health_classes (activity.truncate (proxy_activity (later 1000 a_pulse) a_proxy))"
    using a_pulse_red a_pulse_calm
    by (auto simp: state_health_classes_def activity_class_def health_class_def activity.truncate_def)
  then show "state_health_classes (activity.truncate (proxy_activity (later 1000 a_pulse) a_proxy)) \<noteq> state_health_classes (activity.truncate (proxy_activity a_pulse a_proxy))"
    by (simp add: a_pulse_now)
qed

end
