(* ===== verification/ServerSlots.thy ===== *)
theory ServerSlots
  imports Activity
begin

text \<open>
  The slots of a server's card (\<open>topologyRuntimePanelHtml\<close> and what it uses, \<open>topology-activity.js\<close>): whose
  requests compete for a server, the rows of what runs, the pips they fill, and the place kept for a
  sticky client with a bar that drains by the browser's clock. The bar's anchor is the state the page keeps
  per server.
\<close>

section \<open>Whose a request is\<close>

definition proxy_owner :: "js \<Rightarrow> js \<Rightarrow> js option" where
  "proxy_owner bd i =
     (let routes = concat (map (\<lambda>client. concat (map (\<lambda>as. map (\<lambda>r. (client, as, r)) (js_list (js_or (jget as ''routes'') (JArr []))))
            (assignments_for bd (jget client ''id'')))) (js_list (js_or (jget bd ''clients'') (JArr []))))
      in case find (\<lambda>(client, as, r). jget r ''proxyId'' = i) routes of
          None \<Rightarrow> None
        | Some (client, as, r) \<Rightarrow>
            (let agent = (case find (\<lambda>a. jget a ''id'' = jget as ''agentId'') (js_list (js_or (jget client ''agents'') (JArr []))) of
                   Some a \<Rightarrow> a | None \<Rightarrow> JUndef);
                 who = js_or (jget agent ''id'') (jget as ''agentId''); name = js_or (jget agent ''name'') who;
                 at_client = js_or (jget client ''name'') (jget client ''id'')
             in Some (JObj [(''clientId'', jget client ''id''), (''clientName'', at_client), (''agentId'', jget as ''agentId''), (''agentName'', name),
                  (''title'', if who = JStr ''openclaw'' then at_client else name),
                  (''role'', js_or (jget r ''role'') (JStr ''primary'')), (''live'', JBool (js_truthy agent))])))"

definition item_group :: "pulse \<Rightarrow> js \<Rightarrow> string" where
  "item_group u item =
     (if js_truthy (jget item ''upstream'') then js_string (jget item ''upstream'')
      else case proxy_on u (nfig item ''port'') of None \<Rightarrow> [] | Some p \<Rightarrow> proxy_upstream p)"

definition route_upstream :: "pulse \<Rightarrow> js \<Rightarrow> string" where
  "route_upstream u route = (case proxy_on u (nfig route ''port'') of
       Some p \<Rightarrow> proxy_upstream p
     | None \<Rightarrow> js_string (js_or (jget route ''upstreamHost'') (JStr ''127.0.0.1'')) @ '':'' @ js_string (js_or (jget route ''upstreamPort'') (JNum 8080)))"

definition server_group :: "pulse \<Rightarrow> js \<Rightarrow> string" where
  "server_group u llama =
     (let port = nfig llama ''port'';
          outs = concat (map (\<lambda>r. js_list (js_or (jget r ''outputs'') (JArr []))) (js_list (js_or (jget (pu_board u) ''routers'') (JArr []))))
      in if port = 0 then ''__srv__:none''
         else case find (\<lambda>p. num_of (js_or (js_or (jget p ''resolvedUpstreamPort'') (jget p ''upstreamPort'')) (JNum 0)) = port) (board_proxies u) of
             Some p \<Rightarrow> proxy_upstream p
           | None \<Rightarrow> (case find (\<lambda>x. nfig x ''upstreamPort'' = port) outs of
               Some x \<Rightarrow> js_string (js_or (jget x ''upstreamHost'') (JStr ''127.0.0.1'')) @ '':'' @ js_string (jget x ''upstreamPort'')
             | None \<Rightarrow> ''__srv__:'' @ rat_str port))"

section \<open>The rows of what runs\<close>

record queue_row =
  qr_left :: rat
  qr_left_pct :: rat
  qr_elapsed_pct :: rat
  qr_timeout :: rat
  qr_preempt :: "(rat \<times> js) option"
  qr_cloud :: "(rat \<times> js) option"

record runtime_row =
  rr_name :: string
  rr_state :: string
  rr_text :: string
  rr_priority :: rat
  rr_queue :: "queue_row option"

definition clamp_pct :: "rat \<Rightarrow> rat" where
  "clamp_pct x = max 0 (min 100 x)"

definition row_proxy :: "pulse \<Rightarrow> js \<Rightarrow> js option" where
  "row_proxy u item = find (\<lambda>p. jget item ''port'' \<noteq> JUndef \<and> nfig p ''port'' = nfig item ''port''
       \<or> js_truthy (jget item ''label'') \<and> js_text (jget p ''label'') = js_string (jget item ''label'')) (board_proxies u)"

definition pct_of :: "js \<Rightarrow> string \<Rightarrow> rat \<Rightarrow> rat" where
  "pct_of policy k d = clamp_pct (num_of (js_nn (jget policy k) (JNum d)))"

definition queue_row_of :: "pulse \<Rightarrow> js \<Rightarrow> js option \<Rightarrow> rat \<Rightarrow> queue_row" where
  "queue_row_of u item p priority =
     (let q = queue_runtime u item; policy = js_or (jget (pu_board u) ''proxyPolicy'') (JObj []);
          pct = clamp_pct (qt_left q / max 1 (qt_timeout q * 1000) * 100);
          preempt = pct_of policy ''priorityPreemptPct'' 50; cloud = pct_of policy ''cloudFallbackPct'' 20;
          port = nfig item ''port''; label = js_text (jget item ''label'');
          entry = find (\<lambda>e. port \<noteq> 0 \<and> nfig e ''port'' = port \<or> label \<noteq> [] \<and> js_text (jget e ''label'') = label)
            (js_list (js_or (jget (pu_thresholds u) ''proxies'') (JArr [])));
          told = (\<lambda>k. case entry of Some e \<Rightarrow> js_nn (jget e k) JNull | None \<Rightarrow> JNull)
      in \<lparr>qr_left = qt_left q, qr_left_pct = pct, qr_elapsed_pct = clamp_pct (100 - pct), qr_timeout = qt_timeout q,
          qr_preempt = (if priority > 0 \<and> preempt > 0 \<and> preempt < 100 then Some (preempt, told ''priorityPreemptSec'') else None),
          qr_cloud = (if (case p of Some x \<Rightarrow> js_truthy (jget x ''cloudFallbackProviderId'') | None \<Rightarrow> False) \<and> cloud > 0 \<and> cloud < 100
            then Some (cloud, told ''cloudFallbackSec'') else None)\<rparr>)"

definition runtime_row_of :: "pulse \<Rightarrow> js \<Rightarrow> runtime_row" where
  "runtime_row_of u item =
     (let p = row_proxy u item; priority = (case p of Some x \<Rightarrow> max 0 (nfig x ''priority'') | None \<Rightarrow> 0);
          owner = (case p of Some x \<Rightarrow> (case proxy_owner (pu_board u) (jget x ''id'') of Some w \<Rightarrow> w | None \<Rightarrow> JNull) | None \<Rightarrow> JNull);
          name = js_or (js_or (js_or (jget owner ''title'') (jget item ''label'')) (jget item ''route'')) (JStr ('':'' @ js_string (jget item ''port'')));
          state = runtime_class item
      in \<lparr>rr_name = js_string name, rr_state = state, rr_text = runtime_label u item True, rr_priority = priority,
          rr_queue = (if state = ''queued'' then Some (queue_row_of u item p priority) else None)\<rparr>)"

definition more_row :: "nat \<Rightarrow> runtime_row" where
  "more_row n = \<lparr>rr_name = ''+'' @ nat_str n @ '' more'', rr_state = ''idle'', rr_text = [], rr_priority = 0, rr_queue = None\<rparr>"

definition runtime_list :: "pulse \<Rightarrow> js list \<Rightarrow> nat \<Rightarrow> runtime_row list" where
  "runtime_list u items limit =
     (let rows = map (runtime_row_of u) (take limit items); rest = length items - length rows
      in rows @ (if rest \<noteq> 0 then [more_row rest] else []))"

definition assign_slots :: "'a list \<Rightarrow> nat \<Rightarrow> 'a option list" where
  "assign_slots running n = map Some (take n running) @ replicate (n - length running) None"

section \<open>The place of a sticky client\<close>

record anchor =
  an_port :: jnum
  an_start :: rat
  an_duration :: rat

text \<open>The anchor is set when there is none, or it is of another client or length, or it has drifted from
  the poll by more than a second and a half; else the bar goes on by the browser's own clock.\<close>

definition anchor_step :: "anchor option \<Rightarrow> rat \<Rightarrow> jnum \<Rightarrow> rat \<Rightarrow> rat \<Rightarrow> anchor" where
  "anchor_step prev now port all left =
     (let gone = max 0 (all - left * 1000); fresh = \<lparr>an_port = port, an_start = now - gone, an_duration = all\<rparr>
      in case prev of None \<Rightarrow> fresh
         | Some a \<Rightarrow> if \<not> jnum_eq (an_port a) port \<or> an_duration a \<noteq> all \<or> \<bar>(now - an_start a) - gone\<bar> > 1500 then fresh else a)"

definition bar_left :: "rat \<Rightarrow> anchor \<Rightarrow> rat" where
  "bar_left now a = an_duration a - min (an_duration a) (max 0 (now - an_start a))"

definition bar_pct :: "rat \<Rightarrow> anchor \<Rightarrow> rat" where
  "bar_pct now a = (if an_duration a > 0 then bar_left now a / an_duration a * 100 else 0)"

text \<open>The ticker's own reading of the same anchor, each frame.\<close>

definition ticker_left :: "rat \<Rightarrow> anchor \<Rightarrow> rat" where
  "ticker_left now a = max 0 (an_duration a - (now - an_start a))"

definition ticker_clip :: "rat \<Rightarrow> anchor \<Rightarrow> string" where
  "ticker_clip now a = ''inset(0 '' @ to_fixed 3 (100 - (if an_duration a > 0 then ticker_left now a / an_duration a * 100 else 0)) @ ''% 0 0)''"

definition ticker_secs :: "rat \<Rightarrow> anchor \<Rightarrow> string" where
  "ticker_secs now a = int_str \<lceil>ticker_left now a / 1000\<rceil> @ ''s''"

definition sticky_data :: "pulse \<Rightarrow> string \<Rightarrow> js" where
  "sticky_data u g = (if g = [] then JNull else js_or (jget (jget (jget (latest_of u) ''agentProxies'') ''stickySlots'') g) JNull)"

definition board_policy :: "pulse \<Rightarrow> js" where
  "board_policy u = js_or (jget (pu_board u) ''proxyPolicy'') (JObj [])"

definition all_slots :: "pulse \<Rightarrow> string \<Rightarrow> nat" where
  "all_slots u g =
     (let own = (if g = [] then 0 else nfig (js_or (jget (jget (latest_of u) ''agentProxies'') ''slotTotals'') (JObj [])) g);
          eff = nfig (pu_board u) ''effectiveSlots'';
          policy = num_of (js_or (jget (board_policy u) ''maxSlots'') (JNum 1))
      in nat \<lfloor>max 1 (if own \<noteq> 0 then own else if eff \<noteq> 0 then eff else policy)\<rfloor>)"

definition slot_requests :: "pulse \<Rightarrow> string \<Rightarrow> js list" where
  "slot_requests u g = filter (\<lambda>item. (g = [] \<or> item_group u item = g)
     \<and> (case find (\<lambda>p. nfig p ''port'' = nfig item ''port'' \<or> js_text (jget p ''label'') = js_text (jget item ''label'')) (board_proxies u) of
          None \<Rightarrow> True | Some p \<Rightarrow> js_string (js_or (jget p ''upstreamType'') (JStr ''llama'')) \<noteq> ''cloud'')) (overview_running u)"

definition slots_of :: "pulse \<Rightarrow> string \<Rightarrow> runtime_row option list" where
  "slots_of u g = assign_slots (runtime_list u (slot_requests u g) (all_slots u g)) (all_slots u g)"

text \<open>The slot that shows the place: the first idle one.\<close>

definition sticky_index :: "pulse \<Rightarrow> string \<Rightarrow> nat option" where
  "sticky_index u g =
     (if js_truthy (sticky_data u g) \<and> nfig (board_policy u) ''stickySlotSec'' > 0 then index_of True (map (\<lambda>r. r = None) (slots_of u g)) else None)"

type_synonym anchors = "(string \<times> anchor) list"

text \<open>The anchors after a panel's drawing: dropped when there is no place, moved on when its slot is drawn.\<close>

definition panel_anchors :: "pulse \<Rightarrow> rat \<Rightarrow> string \<Rightarrow> anchors \<Rightarrow> anchors" where
  "panel_anchors u now g as =
     (let d = sticky_data u g; rest = filter (\<lambda>(k, a). k \<noteq> g) as;
          all = max 1 (of_int (js_round (nfig (board_policy u) ''stickySlotSec'' * 1000)))
      in if \<not> js_truthy d then rest
         else case sticky_index u g of None \<Rightarrow> as
           | Some n \<Rightarrow> (g, anchor_step (map_of as g) now (js_number (jget d ''port'')) all (max 0 (num_of (jget d ''remainingSec'')))) # rest)"

definition sticky_label :: "pulse \<Rightarrow> string \<Rightarrow> string" where
  "sticky_label u g =
     (let d = sticky_data u g in
      if \<not> js_truthy d then []
      else case find (\<lambda>p. jnum_eq (js_number (jget p ''port'')) (js_number (jget d ''port''))) (board_proxies u) of
          None \<Rightarrow> []
        | Some p \<Rightarrow> js_string (js_or (js_or (case proxy_owner (pu_board u) (jget p ''id'') of Some w \<Rightarrow> jget w ''title'' | None \<Rightarrow> JUndef)
            (jget p ''label'')) (JStr (''port '' @ js_string (jget d ''port'')))))"

definition crown_svg :: "string \<Rightarrow> string" where
  "crown_svg cls = ''<svg class=\"'' @ cls @ ''\" viewBox=\"0 0 24 24\" aria-hidden=\"true\"><path d=\"M4 17.5h16l1.1-9.2-5.1 3.4L12 4.5 8 11.7 2.9 8.3z\"/><rect x=\"4\" y=\"18.5\" width=\"16\" height=\"2\" rx=\"0.7\"/></svg>''"

definition sticky_html :: "string \<Rightarrow> string \<Rightarrow> string \<Rightarrow> rat \<Rightarrow> anchor \<Rightarrow> string" where
  "sticky_html g label who now a =
     ''<span class=\"slot-chip sticky-reserved\" title=\"'' @ escape_html label @ '': '' @ escape_html who @ ''\">''
     @ ''<span class=\"topology-sticky-bar\" data-sticky-group=\"'' @ escape_html g @ ''\" aria-hidden=\"true\"><i style=\"clip-path:inset(0 ''
     @ to_fixed 3 (100 - bar_pct now a) @ ''% 0 0)\"></i></span><span class=\"slot-chip-name\">'' @ escape_html who
     @ ''</span><span class=\"slot-chip-sub\" data-sticky-secs>'' @ int_str \<lceil>bar_left now a / 1000\<rceil> @ ''s</span></span>''"

definition slot_chip_html :: "string \<Rightarrow> runtime_row \<Rightarrow> string" where
  "slot_chip_html label row =
     (let name = escape_html (rr_name row) in
      ''<span class=\"slot-chip '' @ escape_html (rr_state row) @ ''\" title=\"'' @ escape_html label @ '': '' @ name
      @ (if rr_text row \<noteq> [] then middot @ rr_text row else []) @ ''\">''
      @ (if rr_priority row > 0 then ''<span class=\"topology-slot-crown\" title=\"Priority '' @ rat_str (rr_priority row) @ '' '' @ dash
          @ '' protected, will not be preempted\">'' @ crown_svg ''crown-icon'' @ ''</span>'' else [])
      @ ''<span class=\"slot-chip-name\">'' @ name @ ''</span>''
      @ (if rr_text row \<noteq> [] then ''<span class=\"slot-chip-sub\">'' @ escape_html (rr_text row) @ ''</span>'' else []) @ ''</span>'')"

definition slot_row_html :: "dict \<Rightarrow> pulse \<Rightarrow> rat \<Rightarrow> string \<Rightarrow> anchors \<Rightarrow> nat \<times> runtime_row option \<Rightarrow> string" where
  "slot_row_html t u now g as nr =
     (let label = t ''topologySlot'' [] @ '' '' @ nat_str (fst nr + 1) in
      case snd nr of
        Some row \<Rightarrow> slot_chip_html label row
      | None \<Rightarrow>
          (case (if sticky_index u g = Some (fst nr) then map_of as g else None) of
             Some a \<Rightarrow> sticky_html g label (sticky_label u g) now a
           | None \<Rightarrow> ''<span class=\"slot-chip idle\" title=\"'' @ escape_html label @ ''\"></span>''))"

definition board_servers :: "pulse \<Rightarrow> js list" where
  "board_servers u = js_list (js_or (jget (jget (pu_board u) ''server'') ''llamaServers'') (JArr []))
     @ concat (map (\<lambda>n. js_list (js_or (jget n ''servers'') (JArr []))) (js_list (js_or (jget (pu_board u) ''nodes'') (JArr []))))"

definition tps_html :: "dict \<Rightarrow> pulse \<Rightarrow> string \<Rightarrow> string" where
  "tps_html t u g =
     (let gen = (case (if g = [] then None else find (\<lambda>x. server_group u x = g) (board_servers u)) of Some x \<Rightarrow> nfig x ''genTps'' | None \<Rightarrow> 0)
      in if gen > 0 then ''<span class=\"slots-head-tps\" title=\"'' @ escape_html (t ''tpsLastHelp'' []) @ ''\"><span class=\"slots-head-tps-lbl\">''
           @ escape_html (t ''tpsLastLabel'' []) @ ''</span> '' @ escape_html (to_fixed 1 gen) @ '' t/s</span>'' else [])"

text \<open>The panel, and the anchors it leaves.\<close>

definition panel_html :: "dict \<Rightarrow> pulse \<Rightarrow> rat \<Rightarrow> string \<Rightarrow> anchors \<Rightarrow> string \<times> anchors" where
  "panel_html t u now g as =
     (let as' = panel_anchors u now g as; n = all_slots u g
      in (''<div class=\"topology-runtime-panel llama\" data-topology-runtime-panel=\"'' @ escape_html g
          @ ''\"><div class=\"topology-runtime-slots-head\"><strong>'' @ escape_html (t ''topologySlots'' [])
          @ '' <span class=\"topology-muted\">'' @ nat_str n @ ''</span></strong>'' @ tps_html t u g
          @ ''</div><div class=\"topology-runtime-slots slot-chips-row\">''
          @ concat (map (slot_row_html t u now g as') (enumerate 0 (slots_of u g))) @ ''</div></div>'', as'))"

section \<open>Laws\<close>

lemma length_assign_slots [simp]: "length (assign_slots running n) = n"
  by (simp add: assign_slots_def)

lemma assign_slots_nth: "i < n \<Longrightarrow> assign_slots running n ! i = (if i < length running then Some (running ! i) else None)"
  by (auto simp: assign_slots_def nth_append)

lemma length_slots_of [simp]: "length (slots_of u g) = all_slots u g"
  by (simp add: slots_of_def)

lemma clamp_pct_bounds: "0 \<le> clamp_pct x \<and> clamp_pct x \<le> 100"
  by (simp add: clamp_pct_def)

lemma clamp_pct_complement: "clamp_pct (100 - clamp_pct x) = 100 - clamp_pct x"
  by (auto simp: clamp_pct_def min_def max_def)

lemma ticker_is_bar: "an_duration a \<ge> 0 \<Longrightarrow> an_start a \<le> now \<Longrightarrow> ticker_left now a = bar_left now a"
  by (auto simp: ticker_left_def bar_left_def min_def max_def)

lemma anchor_step_duration: "an_duration (anchor_step prev now port all left) = all"
  by (auto simp: anchor_step_def Let_def split: option.split)

lemma bar_fresh: "0 \<le> left \<Longrightarrow> 0 \<le> all \<Longrightarrow>
    bar_left now \<lparr>an_port = port, an_start = now - max 0 (all - left * 1000), an_duration = all\<rparr> = min all (left * 1000)"
  by (auto simp: bar_left_def min_def max_def)

text \<open>Cutting to the bar's length brings no two readings further apart.\<close>

lemma clamp_near: "0 \<le> (d :: rat) \<Longrightarrow> 0 \<le> g \<Longrightarrow> g \<le> d \<Longrightarrow> \<bar>x - g\<bar> \<le> e \<Longrightarrow> \<bar>(d - min d (max 0 x)) - (d - g)\<bar> \<le> e"
  by (auto simp: min_def max_def abs_if split: if_splits)

lemma bar_near:
  assumes "0 \<le> left" "0 \<le> all"
  shows "\<bar>bar_left now (anchor_step prev now port all left) - min all (left * 1000)\<bar> \<le> 1500"
proof -
  let ?fresh = "\<lparr>an_port = port, an_start = now - max 0 (all - left * 1000), an_duration = all\<rparr>"
  have fresh: "bar_left now ?fresh = min all (left * 1000)" by (rule bar_fresh) (use assms in auto)
  show ?thesis
  proof (cases "anchor_step prev now port all left = ?fresh")
    case True
    with fresh show ?thesis by simp
  next
    case False
    then obtain a where a: "anchor_step prev now port all left = a" "an_duration a = all"
        "\<bar>(now - an_start a) - max 0 (all - left * 1000)\<bar> \<le> 1500"
      by (auto simp: anchor_step_def Let_def split: option.splits if_splits)
    have "\<bar>(all - min all (max 0 (now - an_start a))) - (all - max 0 (all - left * 1000))\<bar> \<le> 1500"
      by (rule clamp_near) (use assms a in auto)
    moreover have "all - max 0 (all - left * 1000) = min all (left * 1000)" by (auto simp: min_def max_def)
    ultimately show ?thesis by (simp add: a bar_left_def)
  qed
qed

lemma bar_pct_bounds: "0 \<le> bar_pct now a \<and> bar_pct now a \<le> 100"
proof (cases "an_duration a > 0")
  case True
  then have "0 \<le> bar_left now a" "bar_left now a \<le> an_duration a" by (auto simp: bar_left_def min_def max_def)
  with True show ?thesis by (simp add: bar_pct_def field_simps)
qed (simp add: bar_pct_def)

section \<open>Properties\<close>

text \<open>(C31) Whatever anchor there was, after a poll the bar stands within a second and a half of what the
  poll says is left, and its fill is between 0 and 100 percent; an anchor that agreed with it is kept.\<close>

theorem sl_bar_follows_the_poll:
  assumes "0 \<le> left" "0 \<le> all"
  shows "\<bar>bar_left now (anchor_step prev now port all left) - min all (left * 1000)\<bar> \<le> 1500
       \<and> 0 \<le> bar_pct now (anchor_step prev now port all left) \<and> bar_pct now (anchor_step prev now port all left) \<le> 100"
  using bar_near [OF assms] bar_pct_bounds by blast

theorem sl_bar_follows_the_poll_witness:
  "\<bar>bar_left 9000 (anchor_step (Some \<lparr>an_port = Fin 1, an_start = 0, an_duration = 10000\<rparr>) 9000 (Fin 1) 10000 2) - min 10000 (2 * 1000)\<bar> \<le> 1500"
  using sl_bar_follows_the_poll [of 2 10000 9000] by auto

text \<open>A server's panel has one pip per slot: the requests that run on it fill the first ones in their
  order, the rest are idle, and a sticky client's place is the first idle one.\<close>

theorem sl_slots_show_what_runs:
  assumes "i < all_slots u g"
  shows "length (slots_of u g) = all_slots u g
    \<and> slots_of u g ! i = (if i < length (slot_requests u g) then Some (runtime_row_of u (slot_requests u g ! i)) else None)
    \<and> (case sticky_index u g of None \<Rightarrow> True | Some n \<Rightarrow> n = length (slot_requests u g) \<and> n < all_slots u g)"
proof -
  let ?n = "all_slots u g" and ?rs = "slot_requests u g"
  have row: "j < ?n \<Longrightarrow> slots_of u g ! j = (if j < length ?rs then Some (runtime_row_of u (?rs ! j)) else None)" for j
    by (auto simp: slots_of_def assign_slots_nth runtime_list_def Let_def nth_append)
  have "n = length ?rs \<and> n < ?n" if "sticky_index u g = Some n" for n
  proof -
    from that have idx: "index_of True (map (\<lambda>r. r = None) (slots_of u g)) = Some n"
      by (simp add: sticky_index_def split: if_splits)
    from index_of_SomeD [OF idx] have "n < length (slots_of u g)" "map (\<lambda>r. r = None) (slots_of u g) ! n" by simp_all
    then have n: "n < ?n" "slots_of u g ! n = None" by (simp_all only: nth_map length_slots_of)
    have "True \<notin> set (take n (map (\<lambda>r. r = None) (slots_of u g)))" using idx by (rule index_of_first)
    then have before: "\<forall>j < n. slots_of u g ! j \<noteq> None" using n by (auto simp: in_set_conv_nth)
    have "\<not> n < length ?rs" using n row [of n] by auto
    moreover have "\<not> length ?rs < n" using before n row [of "length ?rs"] by auto
    ultimately show ?thesis using n by simp
  qed
  then show ?thesis using row [OF assms] by (auto split: option.split)
qed

text \<open>One request on a server with two slots, the second kept for its client.\<close>

definition slot_pulse :: pulse where
  "slot_pulse = \<lparr>pu_monitor = JObj [(''latest'', JObj [(''agentProxies'', JObj
       [(''agents'', JObj [(''a'', JObj [(''active'', JArr [JObj [(''upstream'', JStr ''h'')]])])]),
        (''slotTotals'', JObj [(''h'', JNum 2)]), (''stickySlots'', JObj [(''h'', JObj [(''port'', JNum 1)])])])])],
     pu_board = JObj [(''proxyPolicy'', JObj [(''stickySlotSec'', JNum 5)])], pu_thresholds = JNull, pu_now = 9\<rparr>"

lemma slot_pulse_reads:
  "all_slots slot_pulse ''h'' = 2" "length (slot_requests slot_pulse ''h'') = 1"
  by (simp_all add: all_slots_def slot_pulse_def latest_of_def nfig_def num_of_def js_or_def board_policy_def Let_def
      slot_requests_def overview_running_def agent_proxy_rows_def agents_of_def js_keys_def js_uniq_def arr_of_def item_row_def
      js_fields_def js_put_def is_queued_def js_text_def js_lower_def item_group_def board_proxies_def proxy_rows_def js_nn_def)

lemma slot_pulse_sticky: "sticky_index slot_pulse ''h'' \<noteq> None"
proof -
  have ne: "slot_requests slot_pulse ''h'' \<noteq> []" using slot_pulse_reads(2) by auto
  have "slots_of slot_pulse ''h'' ! 1 = None"
    using ne by (simp add: slots_of_def assign_slots_nth runtime_list_def Let_def slot_pulse_reads)
  then have "True \<in> set (map (\<lambda>r. r = None) (slots_of slot_pulse ''h''))"
    unfolding in_set_conv_nth by (intro exI [of _ 1]) (simp add: slot_pulse_reads)
  then obtain n where "index_of True (map (\<lambda>r. r = None) (slots_of slot_pulse ''h'')) = Some n" using index_of_mem by fast
  moreover have "js_truthy (sticky_data slot_pulse ''h'')" "nfig (board_policy slot_pulse) ''stickySlotSec'' > 0"
    by (simp_all add: sticky_data_def slot_pulse_def latest_of_def js_or_def board_policy_def nfig_def num_of_def)
  ultimately show ?thesis by (simp add: sticky_index_def)
qed

theorem sl_slots_show_what_runs_witness:
  "slots_of slot_pulse ''h'' ! 1 = None \<and> sticky_index slot_pulse ''h'' = Some 1"
  using sl_slots_show_what_runs [of 1 slot_pulse "''h''"] slot_pulse_sticky
  by (simp add: slot_pulse_reads split: option.splits)

end
