(* ===== verification/AgentRoutes.thy ===== *)
theory AgentRoutes
  imports Activity Flows
begin

text \<open>
  A client's agent on the board (\<open>topology-activity.js\<close>, from the wait countdown on): one row per role with
  its port, its model's name and lock, the wait its client allows, the three context windows, its incident
  and the errors of the hour; and the menu that binds an agent to a port, whose three choices are flows.
  The hour's summary (\<open>ui.routeErrHour\<close>) is an argument. A line break inside a template's markup is a space.
\<close>

section \<open>The wait a route allows\<close>

definition board_routers :: "pulse \<Rightarrow> js list" where
  "board_routers u = js_list (js_or (jget (pu_board u) ''routers'') (JArr []))"

definition route_pid :: "js \<Rightarrow> string" where
  "route_pid route = js_text (jget route ''proxyId'')"

text \<open>The first router's own number, and whether it is one; else the port's.\<close>

definition route_wait :: "pulse \<Rightarrow> js \<Rightarrow> rat \<times> bool" where
  "route_wait u route =
     (let pid = route_pid route; own = (\<lambda>r. nfig (jget (jget (jget r ''graph'') ''inputs'') pid) ''clientTimeoutSeconds'')
      in case find (\<lambda>r. own r > 0) (board_routers u) of
          Some r \<Rightarrow> (own r, True)
        | None \<Rightarrow> (case find (\<lambda>p. js_string (jget p ''id'') = pid) (board_proxies u) of
            Some p \<Rightarrow> nfig p ''clientTimeoutSeconds'' | None \<Rightarrow> 0, False))"

definition wait_bar :: "dict \<Rightarrow> string \<Rightarrow> rat \<Rightarrow> rat \<Rightarrow> string" where
  "wait_bar t cls sec gone =
     (let all = sec * 1000; left = max 0 (all - gone); pct = max 0 (min 100 (left / all * 100));
          label = t ''topologyTimeoutWaiting'' [(''left'', format_duration left), (''total'', rat_str sec)]
      in ''<div class=\"topology-route-timeout '' @ cls @ ''\"><span>'' @ escape_html label
         @ ''</span><span class=\"topology-wait-bar\" aria-hidden=\"true\"><i style=\"animation-duration:'' @ int_str (js_round left)
         @ ''ms;--queue-start:'' @ to_fixed 2 pct @ ''%\"></i></span></div>'')"

definition timeout_html :: "dict \<Rightarrow> pulse \<Rightarrow> js \<Rightarrow> card_activity \<Rightarrow> string" where
  "timeout_html t u route a =
     (let sec = fst (route_wait u route) in
      if sec = 0 then []
      else case ca_item a of
          None \<Rightarrow> []
        | Some item \<Rightarrow>
            if \<not> js_truthy item then []
            else if is_queued item then wait_bar t ''waiting queued'' sec (qt_queued (queue_runtime u item))
            else if ac_state a = ''active'' \<or> ac_state a = ''running''
            then wait_bar t ''waiting'' sec (if js_truthy (jget item ''elapsedMs'') then num_of (jget item ''elapsedMs'')
                   else duration_ms (pu_now u) (jget item ''startedAt'') JUndef)
            else [])"

section \<open>The errors of the hour\<close>

definition err_badge_min :: rat where
  "err_badge_min = 3"

definition err_title :: "js \<Rightarrow> string" where
  "err_title st =
     (let by = js_or (jget st ''byKind'') (JObj []);
          kinds = js_join '', '' (map (\<lambda>k. k @ '' '' @ js_string (jget by k)) (js_keys by))
      in js_string (jget st ''errors'') @ '' failed request'' @ (if jget st ''errors'' = JNum 1 then [] else ''s'')
         @ '' in the last hour'' @ (if kinds \<noteq> [] then '': '' @ kinds else []))"

definition err_sign :: string where
  "err_sign = [CHR 0xE2, CHR 0x9A, CHR 0xA0]"

definition err_badge_html :: "js \<Rightarrow> js \<Rightarrow> string" where
  "err_badge_html hour port =
     (let st = (if js_truthy port \<and> js_truthy hour then jget hour (js_string port) else JNull)
      in if \<not> js_truthy st \<or> nfig st ''errors'' < err_badge_min then []
         else ''<span class=\"route-err-badge\" title=\"'' @ escape_html (err_title st) @ ''\">'' @ err_sign @ '' '' @ js_string (jget st ''errors'') @ ''</span>'')"

text \<open>The port a route's row is about: its proxy's, else the last part of the proxy's id.\<close>

definition id_tail :: "string \<Rightarrow> string" where
  "id_tail s = last (js_split CHR '':'' s)"

definition row_port :: "pulse \<Rightarrow> js \<Rightarrow> js" where
  "row_port u route =
     (let p = (if js_truthy route then proxy_by_id (pu_board u) (jget route ''proxyId'') else JUndef)
      in if js_truthy (jget p ''port'') then jget p ''port'' else JStr (id_tail (route_pid route)))"

section \<open>Its address, and who calls\<close>

definition route_address :: "js \<Rightarrow> js \<Rightarrow> string" where
  "route_address route port =
     (let e = js_trim (js_text (jget route ''endpoint'')) in if e \<noteq> [] then e else if js_truthy port then '':'' @ js_string port else [])"

definition no_door :: "pulse \<Rightarrow> bool" where
  "no_door u = (jget (pu_board u) ''portsReachable'' = JBool False)"

definition address_tip :: "dict \<Rightarrow> pulse \<Rightarrow> js \<Rightarrow> js \<Rightarrow> string" where
  "address_tip t u route port =
     (let e = js_trim (js_text (jget route ''endpoint''))
      in if e \<noteq> [] then e else if js_truthy port \<and> no_door u then t ''portNoDoorTitle'' []
         else if js_truthy port then '':'' @ js_string port else [])"

definition all_digits :: "string \<Rightarrow> bool" where
  "all_digits s = (s \<noteq> [] \<and> list_all is_digit s)"

definition route_callers :: "pulse \<Rightarrow> js \<Rightarrow> js \<Rightarrow> string \<times> rat" where
  "route_callers u hour route =
     (let port = id_tail (route_pid route) in
      if \<not> all_digits port then ([], 0)
      else let live = filter (\<lambda>w. w \<noteq> []) (map (\<lambda>i. js_trim (js_text (jget i ''client'')))
                 (rows_for_proxy u (JObj [(''port'', JNum (of_nat (digits_val port)))])));
               st = js_or (jget hour port) (JObj [])
           in (case list_last live of Some w \<Rightarrow> w | None \<Rightarrow> js_text (jget st ''topClient''),
               max (nfig st ''clientCount'') (if live \<noteq> [] then 1 else 0)))"

definition caller_html :: "dict \<Rightarrow> pulse \<Rightarrow> js \<Rightarrow> js \<Rightarrow> string" where
  "caller_html t u hour route =
     (let (who, n) = route_callers u hour route; more = (if n > 1 then '' +'' @ rat_str (n - 1) else [])
      in if who = [] then []
         else ''<span class=\"route-caller\" data-t=\"route-caller\" title=\"''
           @ escape_html (if n > 1 then t ''routeCallerManyTip'' [(''count'', rat_str n)] else t ''routeCallerTip'' []) @ ''\">''
           @ [CHR 0xE2, CHR 0x86, CHR 0x90] @ '' '' @ escape_html who @ escape_html more @ ''</span>'')"

definition agent_caller_html :: "dict \<Rightarrow> pulse \<Rightarrow> js \<Rightarrow> js list \<Rightarrow> string" where
  "agent_caller_html t u hour routes =
     (case find (\<lambda>h. h \<noteq> []) (map (caller_html t u hour) routes) of Some h \<Rightarrow> h | None \<Rightarrow> [])"

section \<open>The chips of a row\<close>

definition esc_id :: "js \<Rightarrow> string" where
  "esc_id v = escape_html (js_text (jget v ''id''))"

definition wait_chip_html :: "dict \<Rightarrow> pulse \<Rightarrow> js \<Rightarrow> js \<Rightarrow> string \<Rightarrow> js \<Rightarrow> string" where
  "wait_chip_html t u client agent role route =
     (let (sec, own) = route_wait u route in
      if \<not> js_truthy route then []
      else ''<button type=\"button\" class=\"route-wait-chip'' @ (if own then '' set'' else []) @ ''\" data-route-wait=\"1\" data-wait-host=\"'' @ esc_id client
        @ ''\" data-wait-agent=\"'' @ esc_id agent @ ''\" data-wait-role=\"'' @ escape_html role @ ''\" data-wait-proxy=\"'' @ escape_html (route_pid route)
        @ ''\" data-wait-value=\"'' @ escape_html (if own then rat_str sec else []) @ ''\" data-t=\"route-wait\" title=\"''
        @ escape_html (if own then t ''routeWaitOwnTip'' [] else t ''routeWaitPortTip'' []) @ ''\" >''
        @ escape_html (if sec \<noteq> 0 then t ''routeWaitLabel'' [(''sec'', rat_str sec)] else t ''routeWaitUnset'' []) @ ''</button>'')"

definition model_lock_html :: "dict \<Rightarrow> string \<Rightarrow> bool \<Rightarrow> string \<Rightarrow> string" where
  "model_lock_html t name opened address =
     (if name = [] then []
      else ''<button type=\"button\" class=\"route-model-lock'' @ (if opened then '' open'' else []) @ ''\" data-route-model-lock=\"1\" '' @ address
        @ '' data-t=\"route-model-lock\" data-t-state=\"'' @ (if opened then ''open'' else ''closed'') @ ''\" title=\"''
        @ escape_html (if opened then t ''routeModelUnlockedTip'' [] else t ''routeModelLockedTip'' []) @ ''\" >''
        @ escape_html (if opened then t ''routeModelUnlocked'' [] else t ''routeModelLocked'' []) @ ''</button>'')"

definition model_chip_html :: "dict \<Rightarrow> js \<Rightarrow> js \<Rightarrow> string \<Rightarrow> js \<Rightarrow> string" where
  "model_chip_html t client agent role route =
     (let name = js_trim (js_text (jget route ''modelName'')); opened = js_truthy (jget route ''modelNameAuto'');
          address = ''data-model-host=\"'' @ esc_id client @ ''\" data-model-agent=\"'' @ esc_id agent @ ''\" data-model-role=\"'' @ escape_html role
            @ ''\" data-model-value=\"'' @ escape_html name @ ''\"'' @ (if opened then '' data-model-auto=\"1\"'' else []);
          tip = (if name \<noteq> [] then (if opened then t ''routeModelOpenTip'' [] else t ''routeModelOwnTip'' []) else t ''routeModelUnsetTip'' [])
      in if \<not> js_truthy route then []
         else ''<button type=\"button\" class=\"route-model-chip'' @ (if name \<noteq> [] \<and> \<not> opened then '' set'' else []) @ (if opened then '' open'' else [])
           @ ''\" data-route-model=\"1\" '' @ address @ '' data-t=\"route-model\" title=\"'' @ escape_html tip @ ''\" >''
           @ escape_html (t ''routeModelLabel'' [(''value'', if name \<noteq> [] then name else dash)]) @ ''</button>'' @ model_lock_html t name opened address)"

section \<open>The three windows\<close>

definition model_window_tip :: "dict \<Rightarrow> js \<Rightarrow> rat \<Rightarrow> string" where
  "model_window_tip t source model =
     (let kind = js_text (jget source ''kind'') in
      if kind = ''cell'' then
        (let address = js_text (jget source ''host'') @ '':'' @ js_text (jget source ''port'')
         in if model > 0 then t ''routeCtxModelCellTip'' [(''address'', address)] else t ''routeCtxModelSilentTip'' [(''address'', address)])
      else if kind = ''block'' then
        (let name = js_text (jget source ''name'')
         in if model > 0 then t ''routeCtxModelBlockTip'' [(''name'', name)] else t ''routeCtxModelBlockNoneTip'' [(''name'', name)])
      else if kind = ''account'' then t ''routeCtxAccountTip'' []
      else if kind = ''engine'' then t ''routeCtxModelEngineTip'' [(''model'', js_text (jget source ''model''))]
      else if kind = ''unrouted'' \<or> kind = ''error'' then
        t ''routeCtxUnroutedTip'' [(''reason'', js_string (js_or (jget source ''reason'') (JStr kind)))]
      else t ''routeCtxModelUnknownTip'' [])"

text \<open>The operator's limit, the model's window and what the port gives; which of the two is in force.\<close>

record windows =
  wd_own :: rat
  wd_model :: rat
  wd_gives :: rat
  wd_prefer :: bool
  wd_source :: js

definition route_windows :: "pulse \<Rightarrow> js \<Rightarrow> windows" where
  "route_windows u route =
     (let p = proxy_by_id (pu_board u) (jget route ''proxyId'')
      in \<lparr>wd_own = nfig route ''contextLength'', wd_model = nfig p ''modelWindow'', wd_gives = nfig p ''effectiveWindow'',
          wd_prefer = js_truthy (jget route ''contextAuto''), wd_source = jget p ''modelWindowSource''\<rparr>)"

definition limit_in_force :: "windows \<Rightarrow> bool" where
  "limit_in_force w = (wd_own w > 0 \<and> wd_gives w > 0 \<and> wd_gives w = wd_own w)"

definition model_in_force :: "windows \<Rightarrow> bool" where
  "model_in_force w = (wd_model w > 0 \<and> wd_gives w > 0 \<and> wd_gives w = wd_model w)"

definition context_line_html :: "dict \<Rightarrow> pulse \<Rightarrow> js \<Rightarrow> js \<Rightarrow> string \<Rightarrow> js \<Rightarrow> string" where
  "context_line_html t u client agent role route =
     (let w = route_windows u route; own = wd_own w; figure = (\<lambda>x. if x > 0 then rat_str x else dash);
          address = ''data-ctx-host=\"'' @ esc_id client @ ''\" data-ctx-agent=\"'' @ esc_id agent @ ''\" data-ctx-role=\"'' @ escape_html role
            @ ''\" data-ctx-value=\"'' @ escape_html (if own > 0 then rat_str own else []) @ ''\" data-ctx-prefer=\"'' @ (if wd_prefer w then ''1'' else []) @ ''\"'';
          limit_tip = (if own > 0 then t ''routeContextOwnTip'' [] else t ''routeContextUnsetTip'' []);
          in_force = middot @ t ''routeCtxInForce'' []
      in if \<not> js_truthy route then []
         else ''<div class=\"route-ctx-line\" data-t=\"route-context-line\"> <button type=\"button\" class=\"route-ctx-chip'' @ (if own > 0 then '' set'' else [])
           @ (if limit_in_force w then '' in-force'' else []) @ ''\" data-route-ctx=\"1\" '' @ address @ '' data-t=\"route-context\" title=\"''
           @ escape_html (limit_tip @ (if limit_in_force w then in_force else [])) @ ''\" >'' @ escape_html (t ''routeCtxLimit'' [(''value'', figure own)])
           @ ''</button> <span class=\"route-ctx-model-pill'' @ (if wd_model w > 0 then '' set'' else []) @ (if wd_prefer w then '' on'' else [])
           @ (if model_in_force w then '' in-force'' else []) @ ''\" ><button type=\"button\" class=\"route-ctx-model\" data-route-model-card=\"1\" data-t=\"route-context-model\" title=\"''
           @ escape_html (model_window_tip t (wd_source w) (wd_model w) @ (if model_in_force w then in_force else []) @ middot @ t ''routeCtxModelOpen'' [])
           @ ''\" >'' @ escape_html (t ''routeCtxModel'' [(''value'', figure (wd_model w))])
           @ ''</button ><label class=\"route-ctx-prefer\" data-route-ctx-prefer-label=\"1\" title=\"'' @ escape_html (t ''routeCtxPreferTip'' [])
           @ ''\" ><input type=\"checkbox\" data-route-ctx-prefer=\"1\" '' @ address @ (if wd_prefer w then '' checked'' else [])
           @ '' data-t=\"route-context-prefer\">'' @ escape_html (t ''routeCtxPrefer'' []) @ ''</label></span> </div>'')"

section \<open>The row\<close>

definition state_face :: "string \<Rightarrow> string \<times> string \<times> string" where
  "state_face usage = (if usage = ''unverified'' then (''route-unverified-tag'', ''?'', ''taTitleUnverifiedRoute'')
     else (''route-confirmed-tag'', [CHR 0xE2, CHR 0x9C, CHR 0x93], ''taTitleConfirmedRoute''))"

definition state_badge_html :: "dict \<Rightarrow> js \<Rightarrow> string \<Rightarrow> string" where
  "state_badge_html t route usage =
     (let (cls, glyph, tip) = state_face usage
      in if js_truthy route then ''<span class=\"'' @ cls @ ''\" data-t=\"route-state\" title=\"'' @ escape_html (t tip []) @ ''\">'' @ glyph @ ''</span>'' else [])"

definition route_handle_html :: "dict \<Rightarrow> js \<Rightarrow> js \<Rightarrow> string \<Rightarrow> js \<Rightarrow> string \<Rightarrow> string" where
  "route_handle_html t client agent role route usage =
     (if \<not> js_truthy route then []
      else '' <span class=\"topology-handle output '' @ escape_html role @ ''\" data-topology-route-handle=\"1\" data-host-id=\"'' @ esc_id client
        @ ''\" data-agent-id=\"'' @ esc_id agent @ ''\" data-route-role=\"'' @ escape_html role @ ''\" data-proxy-id=\"'' @ escape_html (route_pid route)
        @ ''\" title=\"'' @ escape_html (if usage = ''unverified'' then role @ '' '' @ dash @ '' '' @ t ''taTitleUnverifiedRoute'' [] else role) @ ''\"></span> '')"

definition route_incident :: "pulse \<Rightarrow> js \<Rightarrow> incident option" where
  "route_incident u route = (if js_truthy route then activity_incident (activity_of_id u (route_pid route)) else None)"

definition bindable_roles :: "string list" where
  "bindable_roles = [''primary'', ''fallback'']"

definition plus_sign :: string where
  "plus_sign = [CHR 0xEF, CHR 0xBC, CHR 0x8B]"

definition port_chip_html :: "dict \<Rightarrow> pulse \<Rightarrow> js \<Rightarrow> js \<Rightarrow> string \<Rightarrow> js \<Rightarrow> js \<Rightarrow> string" where
  "port_chip_html t u client agent role route port =
     (let has = js_truthy port in
      if role \<in> set bindable_roles then
        ''<button type=\"button\" class=\"route-port-chip bindable'' @ (if has then [] else '' unbound'') @ ''\" data-agent-bind=\"1\" data-bind-host=\"'' @ esc_id client
        @ ''\" data-bind-agent=\"'' @ esc_id agent @ ''\" data-bind-port=\"'' @ escape_html (if has then js_string port else [])
        @ ''\" data-bind-role=\"'' @ escape_html role @ ''\" data-t=\"agent-proxy-bind\" title=\"''
        @ escape_html (if has \<and> \<not> js_truthy (jget route ''endpoint'') \<and> no_door u
            then t ''taTitleBindProxy'' [] @ middot @ t ''portNoDoorTitle'' [] else t ''taTitleBindProxy'' [])
        @ ''\">'' @ escape_html (if has then route_address route port else plus_sign) @ ''</button>''
      else if has then ''<span class=\"route-port-chip\" title=\"'' @ escape_html (t ''taTitleProxyPort'' []) @ ''\">'' @ escape_html (route_address route port) @ ''</span>''
      else [])"

definition agent_route_row :: "dict \<Rightarrow> pulse \<Rightarrow> js \<Rightarrow> js \<Rightarrow> js \<Rightarrow> string \<Rightarrow> js \<Rightarrow> string \<Rightarrow> bool \<Rightarrow> string" where
  "agent_route_row t u hour client agent role route usage anchored =
     (let has = js_truthy route; a = (if has then activity_of_id u (route_pid route) else idle_activity);
          inc = (if has then activity_incident a else None); port = row_port u route;
          attrs = (if has then '' data-topology-route-detail=\"'' @ escape_html (route_pid route) @ ''\" data-client-ip=\"'' @ escape_html (js_text (jget client ''ip''))
            @ ''\" data-client-name=\"'' @ escape_html (js_string (js_or (js_or (jget client ''name'') (jget client ''id'')) (JStr []))) @ ''\" tabindex=\"0\" role=\"button\"'' else [])
      in '' <div class=\"topology-agent-route '' @ escape_html role @ '' '' @ (if has then [] else ''empty'') @ '' ''
         @ (if has \<and> usage = ''unverified'' then ''unverified'' else []) @ '' '' @ escape_html (if has then state_health_classes (activity.truncate a) else [])
         @ ''\"'' @ attrs @ ''> '' @ (if anchored then route_handle_html t client agent role route usage else [])
         @ '' <span class=\"route-role-label\">'' @ state_badge_html t route usage @ escape_html role @ port_chip_html t u client agent role route port
         @ err_badge_html hour port @ ''</span> <div class=\"route-settings\">'' @ model_chip_html t client agent role route
         @ wait_chip_html t u client agent role route @ ''</div> '' @ context_line_html t u client agent role route @ '' ''
         @ (if has then timeout_html t u route a else []) @ '' ''
         @ (case inc of None \<Rightarrow> [] | Some i \<Rightarrow> ''<small class=\"topology-incident-line '' @ (if in_kind i = ''failed'' then ''failed'' else [])
             @ ''\">'' @ escape_html (in_title i @ '': '' @ in_summary i) @ ''</small>'') @ '' </div> '')"

section \<open>Binding an agent to a port\<close>

definition neighbour_port :: "js \<Rightarrow> string \<Rightarrow> string \<Rightarrow> nat" where
  "neighbour_port bd host agent =
     (let rows = js_list (js_or (jget (jget (jget bd ''assignments'') host) ''assignments'') (JArr []));
          row = (case find (\<lambda>r. jget r ''agentId'' = JStr agent) rows of Some r \<Rightarrow> r | None \<Rightarrow> JUndef);
          primary = (case find (\<lambda>r. js_or (jget r ''role'') (JStr ''primary'') = JStr ''primary'') (js_list (js_or (jget row ''routes'') (JArr []))) of
              Some r \<Rightarrow> r | None \<Rightarrow> JUndef);
          tail = id_tail (route_pid primary); candidate = digits_val tail + 1
      in if \<not> all_digits tail \<or> list_ex (\<lambda>p. nfig p ''port'' = of_nat candidate) (proxy_rows bd) then 0 else candidate)"

text \<open>The holders of a port that are not the agent itself.\<close>

definition other_holders :: "string \<Rightarrow> string \<Rightarrow> js \<Rightarrow> js list" where
  "other_holders host agent p = filter (\<lambda>h. \<not> (jget h ''hostId'' = JStr host \<and> jget h ''agentId'' = JStr agent))
     (js_list (js_or (jget p ''holders'') (JArr [])))"

definition port_cmp :: "js \<Rightarrow> js \<Rightarrow> int" where
  "port_cmp a b = (if nfig a ''port'' < nfig b ''port'' then -1 else if nfig a ''port'' > nfig b ''port'' then 1 else 0)"

definition ports_on_offer :: "js list \<Rightarrow> string \<Rightarrow> string \<Rightarrow> js list" where
  "ports_on_offer ps host agent = js_sort port_cmp (filter (\<lambda>p. nfig p ''port'' > 0 \<and> other_holders host agent p = []) ps)"

definition ports_held :: "js list \<Rightarrow> string \<Rightarrow> string \<Rightarrow> js list" where
  "ports_held ps host agent = js_sort port_cmp
     (map (\<lambda>p. js_put ''others'' (JArr (other_holders host agent p)) p) (filter (\<lambda>p. nfig p ''port'' > 0 \<and> other_holders host agent p \<noteq> []) ps))"

definition held_tip :: "js list \<Rightarrow> string" where
  "held_tip taken = js_join [CHR 0x0A] (map (\<lambda>p. js_string (jget p ''port'') @ '' '' @ dash @ '' ''
     @ js_join '', '' (map (\<lambda>h. js_string (jget h ''agentId'') @ middot @ js_string (jget h ''role'')) (js_list (jget p ''others'')))) taken)"

definition bind_menu_html :: "dict \<Rightarrow> string \<Rightarrow> string \<Rightarrow> string \<Rightarrow> string \<Rightarrow> nat \<Rightarrow> js list \<Rightarrow> string" where
  "bind_menu_html t host agent role current neighbour ps =
     (let offered = ports_on_offer ps host agent; taken = ports_held ps host agent
      in '' <div class=\"agent-bind-head\">'' @ escape_html (t ''taBindHead'' []) @ '' <b>'' @ escape_html agent @ ''</b>'' @ middot @ escape_html role @ ''</div> ''
         @ (if current \<noteq> [] then ''<button type=\"button\" class=\"agent-bind-row remove\" data-bind-remove=\"1\">'' @ escape_html (t ''taBindRemoveRoute'' []) @ ''</button>'' else [])
         @ '' <button type=\"button\" class=\"agent-bind-row make\" data-bind-new=\"1\">'' @ escape_html (t ''taBindNewPort'' []) @ ''</button> ''
         @ (if neighbour \<noteq> 0 then ''<button type=\"button\" class=\"agent-bind-row make neighbour\" data-bind-new=\"1\" data-bind-neighbour=\"'' @ nat_str neighbour @ ''\">''
             @ escape_html (t ''taBindNeighbourPort'' [(''port'', nat_str neighbour)]) @ ''</button>'' else [])
         @ '' '' @ concat (map (\<lambda>p. '' <button type=\"button\" class=\"agent-bind-row'' @ (if js_string (jget p ''port'') = current then '' current'' else [])
             @ ''\" data-bind-choice=\"'' @ escape_html (js_string (jget p ''port'')) @ ''\"> <span class=\"bind-port\">'' @ escape_html (js_string (jget p ''port''))
             @ ''</span> <span class=\"bind-label\">'' @ escape_html (js_text (jget p ''label'')) @ ''</span> </button>'') offered)
         @ '' '' @ (if taken \<noteq> [] then ''<div class=\"agent-bind-taken\" data-t=\"agent-bind-taken\" title=\"'' @ escape_html (held_tip taken) @ ''\">''
             @ escape_html (t ''taBindTakenNote'' [(''count'', nat_str (length taken))]) @ ''</div>'' else []) @ '' '')"

text \<open>What a new port is announced with: its address copied, or why there is none.\<close>

definition announce_port :: "dict \<Rightarrow> js \<Rightarrow> js \<Rightarrow> flow" where
  "announce_port t port bd =
     (let row = (case find (\<lambda>p. jnum_eq (js_number (jget p ''port'')) (js_number port)) (proxy_rows bd) of Some p \<Rightarrow> p | None \<Rightarrow> JUndef);
          address = js_text (jget row ''endpoint'');
          told = (\<lambda>k bd1. let w = t k [(''port'', js_string port)] in Say w (Done (JStr w) bd1))
      in if js_truthy row \<and> address = [] \<and> jget bd ''portsReachable'' = JBool False
         then told (if js_truthy (jget (jget bd ''entry'') ''url'') then ''taBindNewPortNoDoor'' else ''taBindNewPortNoEntry'') bd
         else if address \<noteq> [] then ask_value (Copy_req address)
           (\<lambda>ok bd1. told (if js_truthy ok then ''taBindNewPortMade'' else ''taBindNewPortMadeNoCopy'') bd1)
         else told ''taBindNewPortMadeNoCopy'' bd)"

text \<open>A call of the menu: what it failed with is said; the answer's board is taken.\<close>

definition bind_call :: "dict \<Rightarrow> string \<Rightarrow> js \<Rightarrow> (js \<Rightarrow> js \<Rightarrow> flow) \<Rightarrow> flow" where
  "bind_call t path body k =
     await (Send_req path body) (\<lambda>a bd. case a of
       Inl err \<Rightarrow> Say (t ''taBindFailed'' [] @ '': '' @ err) (Done JUndef bd)
     | Inr res \<Rightarrow> apply_if (jget res ''topology'') bd (k res))"

definition bind_body :: "string \<Rightarrow> string \<Rightarrow> string \<Rightarrow> (string \<times> js) list" where
  "bind_body host agent role = [(''hostId'', JStr host), (''agentId'', JStr agent), (''role'', JStr role)]"

definition bind_new :: "dict \<Rightarrow> string \<Rightarrow> string \<Rightarrow> string \<Rightarrow> nat \<Rightarrow> js \<Rightarrow> flow" where
  "bind_new t host agent role wanted bd =
     ask_value (Prompt_req (t ''taBindNewPortName'' []) (JObj [(''placeholder'', JStr (agent @ '' port''))]))
       (\<lambda>label bd1. if label = JNull then Done JUndef bd1
         else bind_call t ''/api/agent-port'' (JObj ([(''clientId'', JStr host), (''agentId'', JStr agent), (''label'', label), (''role'', JStr role)]
             @ (if wanted \<noteq> 0 then [(''port'', JNum (of_nat wanted))] else [])))
           (\<lambda>res bd2. announce_port t (jget (jget res ''route'') ''port'') bd2))"

definition bind_remove :: "dict \<Rightarrow> string \<Rightarrow> string \<Rightarrow> string \<Rightarrow> string \<Rightarrow> js \<Rightarrow> flow" where
  "bind_remove t host agent role current bd =
     ask_value (Confirm_req (t ''dlgRemoveRoute'' [(''role'', role), (''port'', current)]) JUndef)
       (\<lambda>sure bd1. if \<not> js_truthy sure then Done JUndef bd1
         else bind_call t ''/api/topology/agent-route/remove'' (JObj (bind_body host agent role))
           (\<lambda>res bd2. await Read_board (\<lambda>a bd3. case a of
              Inl err \<Rightarrow> Say (t ''taBindFailed'' [] @ '': '' @ err) (Done JUndef bd3)
            | Inr b \<Rightarrow> apply_if b bd3 (\<lambda>now. Done JUndef now))))"

definition bind_choice :: "dict \<Rightarrow> string \<Rightarrow> string \<Rightarrow> string \<Rightarrow> string \<Rightarrow> js \<Rightarrow> flow" where
  "bind_choice t host agent role port bd =
     bind_call t ''/api/topology/agent-proxy-bind'' (JObj (bind_body host agent role @ [(''port'', JNum (num_of (JStr port)))]))
       (\<lambda>res bd1. Say (t ''taBindStored'' [(''port'', port)]) (Done JUndef bd1))"

section \<open>Laws\<close>

lemma sorted_ports: "sorted (map (\<lambda>p. nfig p ''port'') (js_sort port_cmp ps))"
proof -
  have "sorted_wrt (\<lambda>a b. nfig a ''port'' \<le> nfig b ''port'') (js_sort port_cmp ps)"
    by (rule js_sort_sorted) (auto simp: port_cmp_def)
  then show ?thesis by (simp add: sorted_map)
qed

definition removes_route :: "flow_req \<Rightarrow> bool" where
  "removes_route q = (case q of Send_req path body \<Rightarrow> path = ''/api/topology/agent-route/remove'' | _ \<Rightarrow> False)"

lemma removes_route_simps [simp]:
  "removes_route (Send_req path body) = (path = ''/api/topology/agent-route/remove'')"
  "\<not> removes_route (Confirm_req w opts)" "\<not> removes_route (Prompt_req w opts)" "\<not> removes_route Read_board" "\<not> removes_route (Copy_req w)"
  by (simp_all add: removes_route_def)

lemma asks_bind_call:
  "(path = ''/api/topology/agent-route/remove'' \<longrightarrow> y) \<Longrightarrow> (\<And>res b. asks_first removes_route (k res b) False)
   \<Longrightarrow> asks_first removes_route (bind_call t path body k) y"
  by (auto simp: bind_call_def yes_to_def split: sum.split)

lemma ends_bind_call: "(\<And>res b. ends_within (k res b) n) \<Longrightarrow> ends_within (bind_call t path body k) (Suc n)"
  by (auto simp: bind_call_def split: sum.split)

lemma asks_announce: "asks_first removes_route (announce_port t port bd) y"
  by (simp add: announce_port_def ask_value_def Let_def)

lemma ends_announce: "ends_within (announce_port t port bd) 1"
  by (simp add: announce_port_def ask_value_def Let_def)

lemma asks_bind_new: "asks_first removes_route (bind_new t host agent role wanted bd) y"
  by (auto simp: bind_new_def ask_value_def intro!: asks_bind_call asks_announce)

lemma asks_bind_choice: "asks_first removes_route (bind_choice t host agent role port bd) y"
  by (auto simp: bind_choice_def intro!: asks_bind_call)

lemma asks_bind_remove: "asks_first removes_route (bind_remove t host agent role current bd) y"
  by (auto simp: bind_remove_def ask_value_def reply_value_def yes_to_def intro!: asks_bind_call split: sum.split)

section \<open>Properties\<close>

text \<open>The menu offers exactly the ports that a click can get: every listening port no one else holds,
  by number; the ports held by others are counted, and no port is left out.\<close>

theorem ar_menu_offers_what_can_be_had:
  "set (ports_on_offer ps host agent) = {p \<in> set ps. nfig p ''port'' > 0 \<and> other_holders host agent p = []}
   \<and> sorted (map (\<lambda>p. nfig p ''port'') (ports_on_offer ps host agent))
   \<and> length (ports_on_offer ps host agent) + length (ports_held ps host agent) = length (filter (\<lambda>p. nfig p ''port'' > 0) ps)"
proof -
  have "length (filter (\<lambda>p. nfig p ''port'' > 0 \<and> other_holders host agent p = []) ps)
      + length (filter (\<lambda>p. nfig p ''port'' > 0 \<and> other_holders host agent p \<noteq> []) ps) = length (filter (\<lambda>p. nfig p ''port'' > 0) ps)"
    by (induction ps) auto
  then show ?thesis by (auto simp: ports_on_offer_def ports_held_def sorted_ports)
qed

text \<open>Whatever the menu's three choices are answered, a route is removed only right after a yes to
  the question that names it, and the choice ends within three answers.\<close>

theorem ar_route_is_removed_when_asked:
  "asked_first removes_route False (flow_events (bind_new t host agent role wanted bd) as)
   \<and> asked_first removes_route False (flow_events (bind_choice t host agent role port bd) as)
   \<and> asked_first removes_route False (flow_events (bind_remove t host agent role current bd) as)"
  by (auto intro!: asks_first_run asks_bind_new asks_bind_choice asks_bind_remove)

lemma bind_ends:
  "ends_within (bind_new t host agent role wanted bd) 3" "ends_within (bind_choice t host agent role port bd) 3"
  "ends_within (bind_remove t host agent role current bd) 3"
proof -
  have "ends_within (bind_call t path body (\<lambda>res bd2. announce_port t (jget (jget res ''route'') ''port'') bd2)) 2" for path body
    using ends_bind_call [of _ 1] ends_announce by (metis One_nat_def Suc_1)
  then show "ends_within (bind_new t host agent role wanted bd) 3" by (auto simp: bind_new_def ask_value_def)
  have "ends_within (bind_call t path body (\<lambda>res b. Say w (Done JUndef b))) (Suc 2)" for path body w
    by (rule ends_bind_call) simp
  then show "ends_within (bind_choice t host agent role port bd) 3" by (simp add: bind_choice_def eval_nat_numeral)
  have "ends_within (bind_call t path body (\<lambda>res bd2. await Read_board (\<lambda>a bd3. case a of
              Inl err \<Rightarrow> Say (w err) (Done JUndef bd3) | Inr b \<Rightarrow> apply_if b bd3 (\<lambda>now. Done JUndef now)))) (Suc 1)" for path body w
    by (rule ends_bind_call) (simp split: sum.split)
  then show "ends_within (bind_remove t host agent role current bd) 3"
    by (auto simp: bind_remove_def ask_value_def eval_nat_numeral)
qed

text \<open>The port offered beside the primary one is the next number, and no proxy listens there.\<close>

lemma ar_neighbour_is_free:
  "neighbour_port bd host agent = 0 \<or> list_all (\<lambda>p. nfig p ''port'' \<noteq> of_nat (neighbour_port bd host agent)) (proxy_rows bd)"
  unfolding neighbour_port_def Let_def by (simp add: list_all_iff list_ex_iff)

end
