(* ===== verification/RouteDetail.thy ===== *)
theory RouteDetail
  imports Activity
begin

text \<open>
  The window of one route (\<open>topology-activity.js\<close>, with its events in \<open>topology-dnd.js\<close>): the lines of the last
  request, the port's own answer about its model, the token history and the caravan's own time on the port.
  The window is the page's one \<open>topologyRouteDetail\<close>; each opening makes a new object, which \<open>rd_id\<close> names.
  Three questions to the controller may be on their way at once, and each answer is a separate event.
\<close>

section \<open>The window\<close>

record detail =
  rd_id :: nat
  rd_proxy :: string
  rd_port :: js
  rd_label :: string
  rd_ip :: string
  rd_client :: string
  rd_range :: string
  rd_tab :: string
  rd_card :: js
  rd_latency :: js
  rd_samples :: "js list"

record detail_page =
  dp_next :: nat
  dp_open :: "detail option"

text \<open>A route's history is asked for by its port, or, of a route without one, by the client's address.\<close>

datatype history_of = Of_port js | Of_client string

datatype detail_ask = Ask_card js | Ask_history string history_of string | Ask_latency nat js string

text \<open>The port's own answer: asked unless there is no port; the card says it is loading.\<close>

definition load_card :: "detail \<Rightarrow> detail \<times> detail_ask list" where
  "load_card d = (if js_truthy (rd_port d) then (d\<lparr>rd_card := JObj [(''state'', JStr ''loading'')]\<rparr>, [Ask_card (rd_port d)]) else (d, []))"

definition load_history :: "detail \<Rightarrow> detail_ask list" where
  "load_history d = (if js_truthy (rd_port d) \<or> rd_ip d \<noteq> [] then 
     [Ask_history (rd_proxy d) (if js_truthy (rd_port d) then Of_port (rd_port d) else Of_client (rd_ip d)) (if rd_range d = [] then ''all'' else rd_range d)] else [])"

definition load_latency :: "detail \<Rightarrow> detail \<times> detail_ask list" where
  "load_latency d = (if js_truthy (rd_port d) then (d\<lparr>rd_latency := JUndef\<rparr>, [Ask_latency (rd_id d) (rd_port d) (rd_range d)]) else (d, []))"

definition port_of_proxy :: "js \<Rightarrow> string \<Rightarrow> js" where
  "port_of_proxy bd i =
     (let p = proxy_by_id bd (JStr i); n = js_number (js_or (jget p ''port'') (JStr (last (js_split CHR '':'' i))))
      in case n of Fin x \<Rightarrow> if x = 0 then JNull else JNum x | _ \<Rightarrow> JNull)"

text \<open>A row is pressed: the same route keeps its range, its tab and its card.\<close>

definition kept_detail :: "string \<Rightarrow> detail_page \<Rightarrow> detail option" where
  "kept_detail i s = (case dp_open s of Some d \<Rightarrow> if rd_proxy d = i then Some d else None | None \<Rightarrow> None)"

definition fresh_detail :: "js \<Rightarrow> string \<Rightarrow> string \<Rightarrow> string \<Rightarrow> string option \<Rightarrow> detail_page \<Rightarrow> detail" where
  "fresh_detail bd i ip name tab s =
     (let kept = kept_detail i s in
      \<lparr>rd_id = dp_next s, rd_proxy = i, rd_port = port_of_proxy bd i, rd_label = js_text (jget (proxy_by_id bd (JStr i)) ''label''),
       rd_ip = ip, rd_client = name, rd_range = (case kept of Some d \<Rightarrow> rd_range d | None \<Rightarrow> ''all''),
       rd_tab = (case tab of Some w \<Rightarrow> w | None \<Rightarrow> (case kept of Some d \<Rightarrow> rd_tab d | None \<Rightarrow> ''details'')),
       rd_card = (case kept of Some d \<Rightarrow> rd_card d | None \<Rightarrow> JNull), rd_latency = JUndef, rd_samples = []\<rparr>)"

definition open_detail :: "js \<Rightarrow> string \<Rightarrow> string \<Rightarrow> string \<Rightarrow> string option \<Rightarrow> detail_page \<Rightarrow> detail_page \<times> detail_ask list" where
  "open_detail bd i ip name tab s =
     (let fresh = fresh_detail bd i ip name tab s; (d1, ask1) = load_latency fresh;
          (d2, ask2) = (if rd_tab d1 = ''model'' \<and> \<not> js_truthy (rd_card d1) then load_card d1 else (d1, []))
      in (\<lparr>dp_next = dp_next s + 1, dp_open = Some d2\<rparr>, load_history fresh @ ask1 @ ask2))"

definition press_tab :: "string \<Rightarrow> detail_page \<Rightarrow> detail_page \<times> detail_ask list" where
  "press_tab w s = (case dp_open s of
       None \<Rightarrow> (s, [])
     | Some d \<Rightarrow>
         (let tab = (if w = ''model'' then ''model'' else ''details''); d1 = d\<lparr>rd_tab := tab\<rparr>;
              (d2, asks) = (if tab = ''model'' \<and> \<not> js_truthy (rd_card d) then load_card d1 else (d1, []))
          in (s\<lparr>dp_open := Some d2\<rparr>, asks)))"

definition press_refresh :: "detail_page \<Rightarrow> detail_page \<times> detail_ask list" where
  "press_refresh s = (case dp_open s of None \<Rightarrow> (s, []) | Some d \<Rightarrow> (let (d1, asks) = load_card d in (s\<lparr>dp_open := Some d1\<rparr>, asks)))"

definition press_range :: "string \<Rightarrow> detail_page \<Rightarrow> detail_page \<times> detail_ask list" where
  "press_range r s = (case dp_open s of
       None \<Rightarrow> (s, [])
     | Some d \<Rightarrow> (let d1 = d\<lparr>rd_range := r\<rparr>; (d2, asks) = load_latency d1 in (s\<lparr>dp_open := Some d2\<rparr>, load_history d1 @ asks)))"

section \<open>Answers\<close>

type_synonym told = "string + js"

definition card_told :: "told \<Rightarrow> js" where
  "card_told a = (case a of
       Inr data \<Rightarrow> JObj [(''state'', JStr (if js_truthy (jget data ''ok'') then ''ok'' else ''error'')), (''data'', data)]
     | Inl err \<Rightarrow> JObj [(''state'', JStr ''error''), (''data'', JObj []), (''error'', JStr err)])"

definition card_answer :: "js \<Rightarrow> told \<Rightarrow> detail_page \<Rightarrow> detail_page" where
  "card_answer port a s = (case dp_open s of
       Some d \<Rightarrow> if rd_port d = port then s\<lparr>dp_open := Some (d\<lparr>rd_card := card_told a\<rparr>)\<rparr> else s
     | None \<Rightarrow> s)"

definition history_answer :: "string \<Rightarrow> told \<Rightarrow> detail_page \<Rightarrow> detail_page" where
  "history_answer i a s = (case (dp_open s, a) of
       (Some d, Inr res) \<Rightarrow> if rd_proxy d = i then s\<lparr>dp_open := Some (d\<lparr>rd_samples := js_list (js_or (jget res ''samples'') (JArr []))\<rparr>)\<rparr> else s
     | _ \<Rightarrow> s)"

definition latency_told :: "told \<Rightarrow> js" where
  "latency_told a = (case a of Inr res \<Rightarrow> js_or (jget res ''latency'') JNull | Inl err \<Rightarrow> JObj [(''error'', JStr err)])"

definition latency_answer :: "nat \<Rightarrow> string \<Rightarrow> told \<Rightarrow> detail_page \<Rightarrow> detail_page" where
  "latency_answer i r a s = (case dp_open s of
       Some d \<Rightarrow> if rd_id d = i \<and> rd_range d = r then s\<lparr>dp_open := Some (d\<lparr>rd_latency := latency_told a\<rparr>)\<rparr> else s
     | None \<Rightarrow> s)"

datatype detail_event = Opened js string string string "string option" | Closed | Tab string | Refresh | Range string
  | Card_told js told | History_told string string told | Latency_told nat string told

fun rd_step :: "detail_page \<Rightarrow> detail_event \<Rightarrow> detail_page \<times> detail_ask list" where
  "rd_step s (Opened bd i ip name tab) = open_detail bd i ip name tab s"
| "rd_step s Closed = (s\<lparr>dp_open := None\<rparr>, [])"
| "rd_step s (Tab w) = press_tab w s"
| "rd_step s Refresh = press_refresh s"
| "rd_step s (Range r) = press_range r s"
| "rd_step s (Card_told port a) = (card_answer port a s, [])"
| "rd_step s (History_told i r a) = (history_answer i a s, [])"
| "rd_step s (Latency_told i r a) = (latency_answer i r a s, [])"

definition rd_new :: detail_page where
  "rd_new = \<lparr>dp_next = 0, dp_open = None\<rparr>"

text \<open>A run in which only what was asked is answered: the window, the questions so far, the events so far.\<close>

fun answers_asked :: "detail_ask list \<Rightarrow> detail_event \<Rightarrow> bool" where
  "answers_asked asks (Card_told port a) = (Ask_card port \<in> set asks)"
| "answers_asked asks (History_told i r a) = (\<exists>w. Ask_history i w r \<in> set asks)"
| "answers_asked asks (Latency_told i r a) = list_ex (\<lambda>q. case q of Ask_latency i' p r' \<Rightarrow> i' = i \<and> r' = r | _ \<Rightarrow> False) asks"
| "answers_asked asks e = True"

inductive rd_reach :: "detail_page \<Rightarrow> detail_ask list \<Rightarrow> detail_event list \<Rightarrow> bool" where
  start: "rd_reach rd_new [] []"
| step: "rd_reach s asks evs \<Longrightarrow> answers_asked asks e \<Longrightarrow> rd_step s e = (s', new) \<Longrightarrow> rd_reach s' (asks @ new) (evs @ [e])"

inductive_cases rd_reachE: "rd_reach s asks evs"

section \<open>What it says\<close>

definition detail_lines :: "pulse \<Rightarrow> detail \<Rightarrow> string list" where
  "detail_lines u d =
     (let p = proxy_by_id (pu_board u) (JStr (rd_proxy d)); has = js_truthy p; a = proxy_activity u p;
          item = (case ca_item a of Some x \<Rightarrow> js_or x (JObj []) | None \<Rightarrow> JObj []);
          inc = (case ca_incident a of Some i \<Rightarrow> Some i | None \<Rightarrow> item_incident item);
          policy = js_or (jget (pu_board u) ''proxyPolicy'') (JObj []); priority = max 0 (nfig p ''priority'');
          said = (\<lambda>k w. if js_truthy (jget item k) then w @ js_string (jget item k) else []);
          q = jget item ''queue''
      in filter (\<lambda>w. w \<noteq> [])
        ([if ca_label a \<noteq> [] then ''state: '' @ ca_label a @ (if ca_detail a \<noteq> [] then '' - '' @ ca_detail a else []) else [],
          (case inc of Some i \<Rightarrow> ''incident: '' @ in_title i @ '' - '' @ in_summary i | None \<Rightarrow> []),
          if has then ''route: '' @ js_text (jget p ''label'') @ '' ('' @ js_string (js_or (jget p ''topologyRole'') (JStr ''route'')) @ '')'' else [],
          if priority > 0 then ''priority: '' @ rat_str priority @ ''/10'' @ (if js_truthy (jget policy ''priorityPreemptPct'')
             then middot @ ''preempts at '' @ js_string (jget policy ''priorityPreemptPct'') @ ''% of wait_timeout'' else []) else [],
          if js_truthy (jget p ''mode'') \<and> jget p ''mode'' \<noteq> JStr ''open'' then ''mode: '' @ js_string (jget p ''mode'') else [],
          if js_truthy (jget item ''method'') \<or> js_truthy (jget item ''path'')
             then js_trim (js_text (jget item ''method'') @ '' '' @ js_text (jget item ''path'')) else [],
          said ''status'' ''status: '', said ''error'' ''error: '', said ''client'' ''client: '',
          if jget item ''bytes'' \<noteq> JUndef then ''bytes: '' @ js_string (jget item ''bytes'') else [],
          if js_truthy (jget item ''durationMs'') then ''duration: '' @ format_duration (num_of (jget item ''durationMs'')) else [],
          if js_truthy (jget q ''queuedMs'') then ''queue: '' @ format_duration (num_of (jget q ''queuedMs''))
             @ (if js_nullish (jget q ''position'') then [] else '', position '' @ rat_str (num_of (jget q ''position'') + 1)) else [],
          if has then ''proxy: :'' @ js_string (jget p ''port'') @ '' -> '' @ js_string (jget p ''upstreamHost'') @ '':'' @ js_string (jget p ''upstreamPort'') else [],
          telemetry_summary item] @ telemetry_lines item))"

definition detail_tabs_html :: "dict \<Rightarrow> string \<Rightarrow> string" where
  "detail_tabs_html t tab =
     ''<div class=\"topology-detail-tabs\" role=\"tablist\">''
     @ concat (map (\<lambda>(k, label). ''<button type=\"button\" class=\"detail-tab'' @ (if tab = k then '' active'' else []) @ ''\" role=\"tab\" aria-selected=\"''
         @ (if tab = k then ''true'' else ''false'') @ ''\" data-route-detail-tab=\"'' @ escape_html k @ ''\" data-t=\"route-detail-tab\" data-t-id=\"'' @ escape_html k
         @ ''\" >'' @ escape_html label @ ''</button>'') [(''details'', t ''routeDetailTabDetails'' []), (''model'', t ''routeDetailTabModel'' [])]) @ ''</div>''"

definition card_row :: "string \<Rightarrow> js \<Rightarrow> string \<Rightarrow> string" where
  "card_row label v extra =
     (if v = JNull \<or> v = JUndef \<or> v = JStr [] then []
      else ''<div class=\"mc-row\"><span class=\"mc-key\">'' @ escape_html label @ ''</span><span class=\"mc-val\">'' @ escape_html (js_string v) @ extra @ ''</span></div>'')"

definition link_tips :: "(string \<times> string) list" where
  "link_tips = [(''list'', ''routeModelCardHint''), (''retrieve'', ''routeModelCardRetrieveHint''), (''props'', ''routeModelCardPropsHint'')]"

definition raw_block :: "dict \<Rightarrow> js \<Rightarrow> string" where
  "raw_block t raw = (if js_truthy raw then ''<details class=\"mc-raw\"><summary>'' @ escape_html (t ''routeModelCardRaw'' []) @ ''</summary><pre>''
     @ escape_html (js_string raw) @ ''</pre></details>'' else [])"

definition card_link_html :: "dict \<Rightarrow> string \<Rightarrow> js \<Rightarrow> string" where
  "card_link_html t keyed link =
     (let tip = (case map_of link_tips (js_string (jget link ''kind'')) of Some k \<Rightarrow> t k [] | None \<Rightarrow> [])
      in ''<a class=\"mc-url\" href=\"'' @ escape_html (js_string (jget link ''url'')) @ ''\" data-t=\"route-model-card-link\" title=\"'' @ escape_html (tip @ keyed)
         @ ''\">GET '' @ escape_html (js_string (jget link ''url'')) @ ''</a>'')"

definition card_entry_html :: "dict \<Rightarrow> js \<Rightarrow> string" where
  "card_entry_html t e =
     (let none = JStr []; ws = jget e ''windows'' in
      ''<div class=\"mc-entry\">'' @ card_row (t ''routeModelCardId'' []) (jget e ''id'') []
      @ card_row (t ''routeModelCardWindow'' []) (js_nn (jget e ''window'') none)
          (if js_truthy ws \<and> js_keys ws \<noteq> [] then ''<span class=\"mc-names\">''
             @ escape_html (t ''routeModelCardNames'' [(''names'', js_join '', '' (js_keys ws))]) @ ''</span>'' else [])
      @ card_row (t ''routeModelCardServed'' []) (js_nn (jget e ''servedWindow'') none) []
      @ card_row (t ''routeModelCardTrained'' []) (js_nn (jget e ''trainedWindow'') none) []
      @ card_row (t ''routeModelCardOwner'' []) (jget e ''ownedBy'') []
      @ card_row (t ''routeModelCardAliases'' []) (JStr (js_join '', '' (map js_string (js_list (js_or (jget e ''aliases'') (JArr [])))))) []
      @ ''</div>'')"

text \<open>The port's answer about its model; \<open>origin\<close> is the page's protocol and host.\<close>

definition model_card_html :: "dict \<Rightarrow> string \<Rightarrow> detail \<Rightarrow> string" where
  "model_card_html t origin d =
     (let card = rd_card d; data = js_or (jget card ''data'') (JObj []);
          url = js_or (jget data ''url'') (JStr (origin @ '':'' @ js_string (rd_port d) @ ''/v1/models''));
          given = js_list (jget data ''windowLinks'');
          links = (if given \<noteq> [] then given else [JObj [(''kind'', JStr ''list''), (''url'', url)]]);
          keyed = (if js_truthy (jget data ''keyed'') then middot @ t ''routeModelCardKeyed'' [] else []);
          top = ''<div class=\"mc-head\"> <div class=\"mc-urls\">'' @ concat (map (card_link_html t keyed) links)
            @ ''</div> <button type=\"button\" class=\"topology-detail-action\" data-route-model-card-refresh=\"1\" title=\"'' @ escape_html (t ''routeModelCardRefresh'' [])
            @ ''\">'' @ [CHR 0xE2, CHR 0x9F, CHR 0xB3] @ ''</button> </div>'';
          box = (\<lambda>x. ''<div class=\"topology-model-card\">'' @ top @ x @ ''</div>'');
          status = card_row (t ''routeModelCardStatus'' []) (JStr (js_string (js_or (jget data ''status'') (JStr dash)) @ middot
            @ js_string (js_nn (jget data ''tookMs'') (JStr ''?'')) @ '' ms'')) [];
          failed = (\<lambda>w. ''<div class=\"mc-failed\">'' @ escape_html w @ ''</div>''); raw = raw_block t (jget data ''raw'');
          entries = js_list (js_or (jget data ''entries'') (JArr []))
      in if \<not> js_truthy (rd_port d) then ''<div class=\"topology-detail-lines\"><div class=\"muted\">'' @ escape_html (t ''routeModelCardEmpty'' []) @ ''</div></div>''
         else if \<not> js_truthy card \<or> jget card ''state'' = JStr ''loading'' then box (''<div class=\"muted\">'' @ escape_html (t ''routeModelCardLoading'' []) @ ''</div>'')
         else if jget card ''state'' = JStr ''error'' \<or> \<not> js_truthy (jget data ''ok'') then
           box (failed (t ''routeModelCardFailed'' [(''error'', js_string (js_or (js_or (jget card ''error'') (jget data ''error''))
             (JStr (''HTTP '' @ js_string (js_or (jget data ''status'') (JStr ''?''))))))]) @ status @ raw)
         else if entries = [] then box (failed (t ''routeModelCardEmpty'' []) @ status @ raw)
         else box (concat (map (card_entry_html t) entries) @ status @ raw))"

definition history_html :: "dict \<Rightarrow> detail \<Rightarrow> string" where
  "history_html t d =
     (let ranges = [(''1h'', ''1h''), (''12h'', ''12h''), (''24h'', ''24h''), (''all'', t ''topologyTokenRangeAll'' [])];
          buttons = concat (map (\<lambda>(k, label). ''<button type=\"button\" class=\"token-range-btn '' @ (if rd_range d = k then ''active'' else []) @ ''\" data-token-range=\"''
            @ escape_html k @ ''\">'' @ escape_html label @ ''</button>'') ranges);
          who = (if rd_label d \<noteq> [] then rd_label d else if rd_client d \<noteq> [] then rd_client d else rd_ip d)
      in if \<not> js_truthy (rd_port d) \<and> rd_ip d = [] then []
         else '' <div class=\"topology-token-history\"> <div class=\"topology-token-history-head\"> <strong>'' @ escape_html (t ''topologyTokenHistoryTitle'' []) @ middot
           @ escape_html who @ ''</strong> <div class=\"token-range-group\">'' @ buttons @ ''</div> </div> <canvas id=\"routeTokenHistoryChart\" class=\"topology-token-speed-chart\" width=\"460\" height=\"96\"></canvas> <div id=\"routeTokenHistoryMeta\" class=\"topology-history-meta\"></div> <div class=\"topology-history-legend\"> <span class=\"topology-history-route\" style=\"--route-color: rgba(96,165,250,0.95)\">prompt</span> <span class=\"topology-history-route\" style=\"--route-color: rgba(105,208,144,0.95)\">gen</span> </div> </div> '')"

definition round_max :: "rat list \<Rightarrow> rat" where
  "round_max vs = max 10 (of_int (\<lceil>foldl max 0 vs / 10\<rceil> * 10))"

definition history_max :: "js list \<Rightarrow> string \<Rightarrow> rat" where
  "history_max samples k = round_max (filter (\<lambda>v. v > 0) (map (\<lambda>x. nfig x k) samples))"

text \<open>\<open>tps\<close> words a speed (\<open>polling.js\<close>).\<close>

definition history_meta :: "dict \<Rightarrow> (rat \<Rightarrow> string) \<Rightarrow> js list \<Rightarrow> string" where
  "history_meta t tps samples =
     (let derived = length (filter (\<lambda>x. jget x ''source'' = JStr ''usage'') samples);
          avg = (\<lambda>k. sum_list (map (\<lambda>x. nfig x k) samples) / of_nat (length samples))
      in if samples = [] then t ''topologyTokenHistoryEmpty'' []
         else (if derived \<noteq> 0 then t ''topologyTokenHistoryDerived'' [(''count'', nat_str derived)] @ middot else [])
           @ nat_str (length samples) @ '' '' @ t ''topologyTokenHistoryRuns'' [] @ middot @ ''avg prompt '' @ tps (avg ''promptTps'')
           @ '' / gen '' @ tps (avg ''evalTps'') @ '' t/s'')"

section \<open>The caravan's own time\<close>

definition format_latency :: "rat \<Rightarrow> string" where
  "format_latency v =
     (if v \<ge> 9995 / 10 then to_fixed 1 (v / 1000) @ '' s''
      else if v \<ge> 995 / 100 then int_str (js_round v) @ '' ms''
      else to_fixed 1 v @ '' ms'')"

definition latency_rows :: "(string \<times> string \<times> string) list" where
  "latency_rows = [(''prepMs'', ''routeLatencyPrep'', ''routeLatencyPrepTip''), (''connectMs'', ''routeLatencyConnect'', ''routeLatencyConnectTip''),
     (''cpuMs'', ''routeLatencyCpu'', ''routeLatencyCpuTip''), (''firstChunkMs'', ''routeLatencyModel'', ''routeLatencyModelTip'')]"

definition latency_block :: "dict \<Rightarrow> string \<Rightarrow> string \<Rightarrow> string \<Rightarrow> string" where
  "latency_block t st beside body =
     ''<div class=\"topology-route-latency\" data-t=\"route-latency\" data-t-state=\"'' @ st @ ''\"><div class=\"topology-route-latency-head\"><strong>''
     @ escape_html (t ''routeLatencyTitle'' []) @ ''</strong>'' @ beside @ ''</div>'' @ body @ ''</div>''"

definition latency_row :: "dict \<Rightarrow> js \<Rightarrow> string \<times> string \<times> string \<Rightarrow> string" where
  "latency_row t l row =
     (let (k, label, tip) = row; spread = jget l k; ru = jget l ''connReused'';
          val = (if js_truthy spread then t ''routeLatencySpread'' [(''p50'', format_latency (num_of (jget spread ''p50''))), (''p90'', format_latency (num_of (jget spread ''p90'')))]
            else t ''routeLatencyNotMeasured'' [])
            @ (if k = ''connectMs'' \<and> js_truthy ru then middot @ t ''routeLatencyReused'' [(''reused'', js_string (jget ru ''reused'')), (''n'', js_string (jget ru ''n''))] else [])
      in ''<div class=\"topology-route-latency-row\" data-t=\"route-latency-row\" data-t-id=\"'' @ k @ ''\" title=\"'' @ escape_html (t tip []) @ ''\"><span>''
         @ escape_html (t label []) @ ''</span><span>'' @ escape_html val @ ''</span></div>'')"

definition latency_html :: "dict \<Rightarrow> js \<Rightarrow> string" where
  "latency_html t l =
     (let note = (\<lambda>w. ''<div class=\"topology-muted\">'' @ escape_html w @ ''</div>'') in
      if l = JUndef then latency_block t ''loading'' [] (note [CHR 0xE2, CHR 0x80, CHR 0xA6])
      else if \<not> js_truthy l \<or> js_truthy (jget l ''error'') then latency_block t ''failed'' [] (note (t ''routeLatencyFailed'' [(''error'', js_text (jget l ''error''))]))
      else if \<not> js_truthy (jget l ''requests'') then latency_block t ''empty'' [] (note (t ''routeLatencyEmpty'' []))
      else latency_block t ''ready'' ('' <span class=\"topology-muted\">'' @ [CHR 0xC2, CHR 0xB7] @ '' '' @ escape_html (t ''routeLatencyRequests'' [(''count'', js_string (jget l ''requests''))]) @ ''</span>'')
        (concat (map (latency_row t l) latency_rows)))"

text \<open>The whole window.\<close>

definition detail_html :: "dict \<Rightarrow> string \<Rightarrow> pulse \<Rightarrow> detail \<Rightarrow> string" where
  "detail_html t origin u d =
     (let p = proxy_by_id (pu_board u) (JStr (rd_proxy d)); has = js_truthy p; a = proxy_activity u p;
          item = (case ca_item a of Some x \<Rightarrow> x | None \<Rightarrow> JUndef); tab = (if rd_tab d = ''model'' then ''model'' else ''details'');
          named = js_or (js_or (js_or (jget p ''label'') (jget item ''label'')) (jget item ''route'')) (JStr ''Route details''); lines = detail_lines u d;
          acts = (if has then ''<button class=\"topology-detail-action\" type=\"button\" data-route-detail-edit=\"'' @ escape_html (js_string (jget p ''id''))
            @ ''\" data-t=\"route-detail-edit\" title=\"'' @ escape_html (t ''cvPortEditTitle'' []) @ ''\">'' @ [CHR 0xE2, CHR 0x9C, CHR 0x8E] @ '' '' @ escape_html (t ''routeDetailEditPort'' [])
            @ ''</button> <button class=\"topology-detail-action danger\" type=\"button\" data-route-detail-delete=\"'' @ escape_html (js_string (jget p ''port''))
            @ ''\" data-t=\"route-detail-delete\" title=\"'' @ escape_html (t ''proxyDeleteTip'' []) @ ''\">'' @ [CHR 0xE2, CHR 0x9C, CHR 0x95] @ '' '' @ escape_html (t ''routeDetailDeletePort'' []) @ ''</button>'' else [])
      in '' <div class=\"topology-policy-overlay\" data-topology-route-detail-overlay> <div class=\"topology-policy-modal topology-detail-modal\" role=\"dialog\" aria-modal=\"true\" aria-label=\"Route details\"> <div class=\"topology-card-head\"> <strong>''
         @ escape_html (js_string named) @ ''</strong> <span class=\"topology-policy-head-actions\"> '' @ acts
         @ '' <button class=\"icon-action compact\" type=\"button\" data-topology-route-detail-close aria-label=\"Close route details\" title=\"Close\">'' @ [CHR 0xC3, CHR 0x97] @ ''</button> </span> </div> ''
         @ detail_tabs_html t tab @ '' <div data-route-detail-body>''
         @ (if tab = ''model'' then model_card_html t origin d
            else '' <div class=\"topology-detail-lines\"> '' @ (if lines \<noteq> [] then concat (map (\<lambda>l. ''<div>'' @ escape_html l @ ''</div>'') lines)
                else ''<div class=\"muted\">No request details yet.</div>'') @ '' </div> '' @ history_html t d @ '' ''
              @ (if js_truthy (rd_port d) then ''<div data-route-latency-host>'' @ latency_html t (rd_latency d) @ ''</div>'' else []))
         @ ''</div> </div> </div> '')"

section \<open>Laws\<close>

text \<open>What a run keeps: questions name windows opened before, a window's questions its own port; the
  latency shown is an answer to this window's question about this range, the history one about this route.\<close>

definition asks_ok :: "detail_page \<Rightarrow> detail_ask list \<Rightarrow> bool" where
  "asks_ok s asks \<longleftrightarrow> (\<forall>i p r. Ask_latency i p r \<in> set asks \<longrightarrow> js_truthy p \<and> i < dp_next s
     \<and> (\<forall>d. dp_open s = Some d \<and> rd_id d = i \<longrightarrow> p = rd_port d))"

definition shown_ok :: "detail \<Rightarrow> detail_event list \<Rightarrow> bool" where
  "shown_ok d evs \<longleftrightarrow>
     (rd_latency d = JUndef \<or> js_truthy (rd_port d) \<and> (\<exists>a. Latency_told (rd_id d) (rd_range d) a \<in> set evs \<and> rd_latency d = latency_told a))
     \<and> (rd_samples d = [] \<or> (\<exists>r a. History_told (rd_proxy d) r (Inr a) \<in> set evs \<and> rd_samples d = js_list (js_or (jget a ''samples'') (JArr []))))"

definition page_ok :: "detail_page \<Rightarrow> detail_ask list \<Rightarrow> detail_event list \<Rightarrow> bool" where
  "page_ok s asks evs \<longleftrightarrow> asks_ok s asks \<and> (case dp_open s of None \<Rightarrow> True | Some d \<Rightarrow> rd_id d < dp_next s \<and> shown_ok d evs)"

lemma shown_ok_more: "shown_ok d evs \<Longrightarrow> shown_ok d (evs @ [e])"
  unfolding shown_ok_def by auto

lemma shown_ok_cong:
  "shown_ok d evs \<Longrightarrow> rd_id d' = rd_id d \<Longrightarrow> rd_range d' = rd_range d \<Longrightarrow> rd_port d' = rd_port d \<Longrightarrow> rd_proxy d' = rd_proxy d
   \<Longrightarrow> rd_latency d' = rd_latency d \<Longrightarrow> rd_samples d' = rd_samples d \<Longrightarrow> shown_ok d' evs"
  by (simp add: shown_ok_def)

lemma load_card_frame [simp]:
  "rd_id (fst (load_card d)) = rd_id d" "rd_range (fst (load_card d)) = rd_range d" "rd_port (fst (load_card d)) = rd_port d"
  "rd_proxy (fst (load_card d)) = rd_proxy d" "rd_latency (fst (load_card d)) = rd_latency d" "rd_samples (fst (load_card d)) = rd_samples d"
  "Ask_latency i p r \<notin> set (snd (load_card d))"
  by (simp_all add: load_card_def)

lemma load_latency_frame [simp]:
  "rd_id (fst (load_latency d)) = rd_id d" "rd_range (fst (load_latency d)) = rd_range d" "rd_port (fst (load_latency d)) = rd_port d"
  "rd_proxy (fst (load_latency d)) = rd_proxy d" "rd_samples (fst (load_latency d)) = rd_samples d"
  "Ask_latency i p r \<in> set (snd (load_latency d)) \<longleftrightarrow> js_truthy (rd_port d) \<and> i = rd_id d \<and> p = rd_port d \<and> r = rd_range d"
  by (auto simp: load_latency_def)

lemma load_latency_value: "rd_latency (fst (load_latency d)) = (if js_truthy (rd_port d) then JUndef else rd_latency d)"
  by (simp add: load_latency_def)

lemma load_history_none [simp]: "Ask_latency i p r \<notin> set (load_history d)"
  by (simp add: load_history_def)

lemma open_detail_ok:
  assumes "page_ok s asks evs" "open_detail bd i ip name tab s = (s', new)"
  shows "page_ok s' (asks @ new) (evs @ [e])"
proof -
  let ?f = "fresh_detail bd i ip name tab s"
  define d where "d = (if rd_tab (fst (load_latency ?f)) = ''model'' \<and> \<not> js_truthy (rd_card (fst (load_latency ?f)))
     then fst (load_card (fst (load_latency ?f))) else fst (load_latency ?f))"
  have f: "rd_id ?f = dp_next s" "rd_latency ?f = JUndef" "rd_samples ?f = []" by (simp_all add: fresh_detail_def Let_def)
  from assms(2) have s': "s' = \<lparr>dp_next = dp_next s + 1, dp_open = Some d\<rparr>"
      and new: "\<And>i p r. Ask_latency i p r \<in> set new \<longleftrightarrow> Ask_latency i p r \<in> set (snd (load_latency ?f))"
    by (auto simp: open_detail_def d_def Let_def case_prod_beta split: if_splits)
  have dd: "rd_id d = dp_next s" "rd_port d = rd_port ?f" "rd_latency d = JUndef" "rd_samples d = []"
    by (simp_all add: d_def f load_latency_value)
  have old: "js_truthy p \<and> i < dp_next s" if "Ask_latency i p r \<in> set asks" for i p r
    using assms(1) that unfolding page_ok_def asks_ok_def by blast
  have "asks_ok s' (asks @ new)"
  proof (unfold asks_ok_def, intro allI impI conjI)
    fix j p r
    assume "Ask_latency j p r \<in> set (asks @ new)"
    then consider (old) "Ask_latency j p r \<in> set asks" | (fresh) "js_truthy p" "j = dp_next s" "p = rd_port ?f"
      using f by (auto simp: new)
    then show "js_truthy p" "j < dp_next s'" using old by (cases; auto simp: s' less_Suc_eq)+
    fix d'
    assume d': "dp_open s' = Some d' \<and> rd_id d' = j"
    show "p = rd_port d'"
      using \<open>Ask_latency j p r \<in> set (asks @ new)\<close> d' old [of j p r] dd f by (auto simp: s' new)
  qed
  moreover have "shown_ok d evs'" for evs' using dd by (simp add: shown_ok_def)
  ultimately show ?thesis by (simp add: page_ok_def s' dd)
qed

lemma press_range_ok:
  assumes "page_ok s asks evs" "press_range r s = (s', new)"
  shows "page_ok s' (asks @ new) (evs @ [e])"
proof (cases "dp_open s")
  case None
  with assms show ?thesis by (auto simp: press_range_def page_ok_def)
next
  case (Some d)
  let ?d = "d\<lparr>rd_range := r\<rparr>" and ?e = "fst (load_latency (d\<lparr>rd_range := r\<rparr>))"
  from assms(2) Some have s': "s' = s\<lparr>dp_open := Some ?e\<rparr>" and new: "new = load_history ?d @ snd (load_latency ?d)"
    by (auto simp: press_range_def Let_def case_prod_beta)
  have "asks_ok s' (asks @ new)" using assms(1) Some by (auto simp: page_ok_def asks_ok_def s' new)
  moreover have "shown_ok ?e (evs @ [e])"
    using assms(1) Some by (auto simp: page_ok_def shown_ok_def load_latency_value)
  ultimately show ?thesis using assms(1) Some by (simp add: page_ok_def s')
qed

lemma page_ok_card:
  assumes "page_ok s asks evs" "dp_open s = Some d" "s' = s\<lparr>dp_open := Some d'\<rparr>"
    and "rd_id d' = rd_id d" "rd_range d' = rd_range d" "rd_port d' = rd_port d" "rd_proxy d' = rd_proxy d"
    "rd_latency d' = rd_latency d" "rd_samples d' = rd_samples d" "\<And>i p r. Ask_latency i p r \<notin> set new"
  shows "page_ok s' (asks @ new) (evs @ [e])"
  using assms by (auto simp: page_ok_def asks_ok_def intro: shown_ok_more shown_ok_cong)

lemmas page_ok_kept = page_ok_card [where new = "[]", simplified]

lemma page_ok_same: "page_ok s asks evs \<Longrightarrow> page_ok s (asks @ []) (evs @ [e])"
  by (auto simp: page_ok_def intro: shown_ok_more split: option.split)

lemma page_ok_put:
  "page_ok s asks evs \<Longrightarrow> dp_open s = Some d \<Longrightarrow> rd_id d' = rd_id d \<Longrightarrow> rd_port d' = rd_port d \<Longrightarrow> shown_ok d' evs'
   \<Longrightarrow> page_ok (s\<lparr>dp_open := Some d'\<rparr>) asks evs'"
  by (auto simp: page_ok_def asks_ok_def)

lemma shown_history:
  "shown_ok d evs \<Longrightarrow> shown_ok (d\<lparr>rd_samples := js_list (js_or (jget res ''samples'') (JArr []))\<rparr>) (evs @ [History_told (rd_proxy d) r (Inr res)])"
  unfolding shown_ok_def by simp blast

lemma shown_latency:
  "js_truthy (rd_port d) \<Longrightarrow> shown_ok d evs \<Longrightarrow> shown_ok (d\<lparr>rd_latency := latency_told a\<rparr>) (evs @ [Latency_told (rd_id d) (rd_range d) a])"
  unfolding shown_ok_def by simp blast

lemma rd_step_ok:
  assumes "page_ok s asks evs" "answers_asked asks e" "rd_step s e = (s', new)"
  shows "page_ok s' (asks @ new) (evs @ [e])"
proof (cases e)
  case (Opened bd i ip name tab)
  with assms show ?thesis using open_detail_ok by simp
next
  case Closed
  with assms(3) have "s' = s\<lparr>dp_open := None\<rparr>" "new = []" by auto
  with assms(1) show ?thesis by (simp add: page_ok_def asks_ok_def)
next
  case (Tab w)
  show ?thesis
  proof (cases "dp_open s")
    case None
    with assms Tab show ?thesis using page_ok_same by (auto simp: press_tab_def)
  next
    case (Some d)
    with assms Tab show ?thesis
      by (auto simp: press_tab_def Let_def case_prod_beta split: if_splits
          intro!: page_ok_card [OF assms(1) Some] page_ok_kept [OF assms(1) Some])
  qed
next
  case Refresh
  show ?thesis
  proof (cases "dp_open s")
    case None
    with assms Refresh show ?thesis using page_ok_same by (auto simp: press_refresh_def)
  next
    case (Some d)
    with assms Refresh show ?thesis
      by (auto simp: press_refresh_def Let_def case_prod_beta intro!: page_ok_card [OF assms(1) Some])
  qed
next
  case (Range r)
  with assms show ?thesis using press_range_ok by simp
next
  case (Card_told port a)
  with assms show ?thesis using page_ok_same [of s asks evs]
    by (auto simp: card_answer_def split: option.splits if_splits intro!: page_ok_kept [of s asks evs])
next
  case (History_told i r a)
  with assms have s': "s' = history_answer i a s" and new: "new = []" by auto
  show ?thesis
  proof (cases "s' = s")
    case True
    then show ?thesis using page_ok_same [OF assms(1)] by (simp add: new)
  next
    case False
    then obtain d res where d: "dp_open s = Some d" "a = Inr res" "rd_proxy d = i"
        "s' = s\<lparr>dp_open := Some (d\<lparr>rd_samples := js_list (js_or (jget res ''samples'') (JArr []))\<rparr>)\<rparr>"
      by (auto simp: s' history_answer_def split: option.splits sum.splits if_splits)
    have "shown_ok d evs" using assms(1) d by (simp add: page_ok_def)
    from shown_history [OF this, of res r] show ?thesis
      using page_ok_put [OF assms(1) d(1)] d by (simp add: new History_told)
  qed
next
  case (Latency_told i r a)
  with assms have s': "s' = latency_answer i r a s" and new: "new = []" by auto
  show ?thesis
  proof (cases "s' = s")
    case True
    then show ?thesis using page_ok_same [OF assms(1)] by (simp add: new)
  next
    case False
    then obtain d where d: "dp_open s = Some d" "rd_id d = i" "rd_range d = r" "s' = s\<lparr>dp_open := Some (d\<lparr>rd_latency := latency_told a\<rparr>)\<rparr>"
      by (auto simp: s' latency_answer_def split: option.splits if_splits)
    obtain p where "Ask_latency i p r \<in> set asks"
    proof -
      obtain q where q: "q \<in> set asks" "case q of Ask_latency i' p r' \<Rightarrow> i' = i \<and> r' = r | _ \<Rightarrow> False"
        using assms(2) Latency_told by (auto simp: list_ex_iff)
      from q(2) obtain p where "q = Ask_latency i p r" by (cases q) simp_all
      with q(1) show ?thesis using that by simp
    qed
    then have "js_truthy (rd_port d)" using assms(1) d unfolding page_ok_def asks_ok_def by metis
    moreover have "shown_ok d evs" using assms(1) d by (simp add: page_ok_def)
    ultimately have "shown_ok (d\<lparr>rd_latency := latency_told a\<rparr>) (evs @ [Latency_told (rd_id d) (rd_range d) a])" by (intro shown_latency)
    then show ?thesis using page_ok_put [OF assms(1) d(1)] d by (simp add: new Latency_told)
  qed
qed

lemma rd_reach_ok: "rd_reach s asks evs \<Longrightarrow> page_ok s asks evs"
proof (induction rule: rd_reach.induct)
  case start
  show ?case by (simp add: page_ok_def asks_ok_def rd_new_def)
next
  case (step s asks evs e s' new)
  then show ?case using rd_step_ok by blast
qed

section \<open>Properties\<close>

text \<open>(C29) In any order of presses and answers, the latency the window shows is the answer to this very window's
  question about the range it shows (an answer to a window closed since, or to another range, is
  dropped), and the history shown is of this route.\<close>

theorem rd_answers_are_of_this_window:
  assumes "rd_reach s asks evs" "dp_open s = Some d"
  shows "(rd_latency d = JUndef \<or> (\<exists>a. Latency_told (rd_id d) (rd_range d) a \<in> set evs \<and> rd_latency d = latency_told a))
    \<and> (rd_samples d = [] \<or> (\<exists>r a. History_told (rd_proxy d) r (Inr a) \<in> set evs \<and> rd_samples d = js_list (js_or (jget a ''samples'') (JArr []))))"
  using rd_reach_ok [OF assms(1)] assms(2) by (auto simp: page_ok_def shown_ok_def)

text \<open>One port, pressed, its range changed to an hour, both of its questions answered late.\<close>

definition rd_board :: js where
  "rd_board = JObj [(''proxies'', JArr [JObj [(''id'', JStr ''x''), (''port'', JNum 7)]])]"

definition rd_pressed :: "string \<Rightarrow> nat \<Rightarrow> js \<Rightarrow> js list \<Rightarrow> detail_page" where
  "rd_pressed r n l xs = \<lparr>dp_next = n, dp_open = Some \<lparr>rd_id = 0, rd_proxy = ''x'', rd_port = JNum 7, rd_label = [], rd_ip = [], rd_client = [],
     rd_range = r, rd_tab = ''details'', rd_card = JNull, rd_latency = l, rd_samples = xs\<rparr>\<rparr>"

lemma rd_board_proxy: "proxy_by_id rd_board (JStr ''x'') = JObj [(''id'', JStr ''x''), (''port'', JNum 7)]"
  by (simp add: rd_board_def proxy_by_id_def proxy_rows_def)

lemma rd_opened:
  "rd_step rd_new (Opened rd_board ''x'' [] [] None) = (rd_pressed ''all'' 1 JUndef [], [Ask_history ''x'' (Of_port (JNum 7)) ''all'', Ask_latency 0 (JNum 7) ''all''])"
  by (simp add: rd_new_def open_detail_def fresh_detail_def kept_detail_def port_of_proxy_def rd_board_proxy js_or_def
      load_latency_def load_history_def load_card_def rd_pressed_def)

lemma rd_hour:
  "rd_step (rd_pressed r n l xs) (Range ''1h'') = (rd_pressed ''1h'' n JUndef xs, [Ask_history ''x'' (Of_port (JNum 7)) ''1h'', Ask_latency 0 (JNum 7) ''1h''])"
  by (simp add: press_range_def rd_pressed_def load_latency_def load_history_def)

lemma rd_told:
  "rd_step (rd_pressed r n l xs) (Latency_told 0 r' a) = (if r = r' then rd_pressed r n (latency_told a) xs else rd_pressed r n l xs, [])"
  "rd_step (rd_pressed r n l xs) (History_told ''x'' r' (Inr (JObj [(''samples'', JArr ys)]))) = (rd_pressed r n l ys, [])"
  by (simp_all add: latency_answer_def history_answer_def rd_pressed_def)

definition rd_late :: "detail_event list" where
  "rd_late = [Opened rd_board ''x'' [] [] None, Range ''1h'', Latency_told 0 ''1h'' (Inl ''no''), Latency_told 0 ''all'' (Inl ''old''),
     History_told ''x'' ''1h'' (Inr (JObj [(''samples'', JArr [])])), History_told ''x'' ''all'' (Inr (JObj [(''samples'', JArr [JNum 1])]))]"

lemma rd_late_reached:
  "rd_reach (rd_pressed ''1h'' 1 (JObj [(''error'', JStr ''no'')]) [JNum 1])
     [Ask_history ''x'' (Of_port (JNum 7)) ''all'', Ask_latency 0 (JNum 7) ''all'', Ask_history ''x'' (Of_port (JNum 7)) ''1h'', Ask_latency 0 (JNum 7) ''1h''] rd_late"
proof -
  let ?asks = "[Ask_history ''x'' (Of_port (JNum 7)) ''all'', Ask_latency 0 (JNum 7) ''all'', Ask_history ''x'' (Of_port (JNum 7)) ''1h'', Ask_latency 0 (JNum 7) ''1h'']"
  note st = rd_reach.step
  have 1: "rd_reach (rd_pressed ''all'' 1 JUndef []) (take 2 ?asks) (take 1 rd_late)"
    using st [OF rd_reach.start _ rd_opened] by (simp add: rd_late_def)
  have 2: "rd_reach (rd_pressed ''1h'' 1 JUndef []) ?asks (take 2 rd_late)"
    using st [OF 1 _ rd_hour] by (simp add: rd_late_def)
  have 3: "rd_reach (rd_pressed ''1h'' 1 (JObj [(''error'', JStr ''no'')]) []) ?asks (take 3 rd_late)"
    using st [OF 2 _ rd_told(1) [of _ _ _ _ "''1h''" "Inl ''no''"]] by (simp add: rd_late_def latency_told_def)
  have 4: "rd_reach (rd_pressed ''1h'' 1 (JObj [(''error'', JStr ''no'')]) []) ?asks (take 4 rd_late)"
    using st [OF 3 _ rd_told(1) [of _ _ _ _ "''all''" "Inl ''old''"]] by (simp add: rd_late_def latency_told_def)
  have 5: "rd_reach (rd_pressed ''1h'' 1 (JObj [(''error'', JStr ''no'')]) []) ?asks (take 5 rd_late)"
    using st [OF 4 _ rd_told(2) [of _ _ _ _ "''1h''" "[]"]] by (simp add: rd_late_def)
  show ?thesis
    using st [OF 5 _ rd_told(2) [of _ _ _ _ "''all''" "[JNum 1]"]] by (simp add: rd_late_def)
qed

theorem rd_answers_are_of_this_window_witness:
  "\<exists>a. Latency_told 0 ''1h'' a \<in> set rd_late \<and> JObj [(''error'', JStr ''no'')] = latency_told a"
  using rd_answers_are_of_this_window [OF rd_late_reached] by (simp add: rd_pressed_def)

text \<open>The history's answer is checked against the route only: one to the range shown before takes the place
  of the one to the range shown now.\<close>

lemma rd_late_history_of_another_range:
  "\<exists>s asks d. rd_reach s asks rd_late \<and> dp_open s = Some d \<and> rd_range d = ''1h''
     \<and> History_told (rd_proxy d) ''1h'' (Inr (JObj [(''samples'', JArr [])])) \<in> set rd_late \<and> rd_samples d = [JNum 1]"
  by (intro exI conjI) (rule rd_late_reached, auto simp: rd_pressed_def rd_late_def)

text \<open>A time keeps its form: whole milliseconds are of two or three digits, and \<open>1000 ms\<close> is never written.\<close>

lemma rd_latency_keeps_its_form:
  "if 995 / 100 \<le> v \<and> v < 9995 / 10 then format_latency v = int_str (js_round v) @ '' ms'' \<and> 10 \<le> js_round v \<and> js_round v \<le> 999 else True"
proof -
  have "10 \<le> js_round v \<and> js_round v \<le> 999" if "995 / 100 \<le> v" "v < 9995 / 10"
  proof -
    have "\<lfloor>v + 1 / 2\<rfloor> < 1000" using that(2) by (simp add: floor_less_iff)
    moreover have "10 \<le> \<lfloor>v + 1 / 2\<rfloor>" unfolding le_floor_iff using that(1) by simp
    ultimately show ?thesis by (simp add: js_round_def)
  qed
  then show ?thesis by (simp add: format_latency_def)
qed

end
