(* ===== verification/MemoryPlan.thy ===== *)
theory MemoryPlan
  imports CellRules
begin

text \<open>
  What a cell will take of its machine's memory, as its form works it out (\<open>memory.js\<close>): the caches and the
  buffers of the chosen model, which layers go on the cards and which stay in RAM, what each card holds, what fits,
  which device the form picks, and the rules of the runners that are not llama's. The page is a record: the
  elements of one form by the name of their field (\<open>None\<close> where the form has no such element), the answer of
  \<open>/api/state\<close>, the topology, and what the form of a machine's cell keeps of its machine (\<open>_trClientGpus\<close> and
  the others). Sizes are exact rationals; the boxes of numbers hold numbers, as their type says, so that a figure
  is 0 where it is no number.
\<close>

section \<open>The form and its page\<close>

record form_page =
  pf_value :: "string \<Rightarrow> string option"
  pf_checked :: "string \<Rightarrow> bool option"
  pf_pending :: bool \<comment> \<open>\<open>dataset.pickPending\<close> of MODEL_FILE: "+ Add model" waits for a pick\<close>
  pf_remote :: bool \<comment> \<open>the prefix is \<open>tr-\<close>\<close>
  pf_state :: js
  pf_topology :: js
  pf_gpus :: js
  pf_cpu :: js
  pf_port :: js
  pf_host :: js

text \<open>\<open>$(pfx + k)?.value\<close>, \<open>state.config?.k\<close>.\<close>

definition fld :: "form_page \<Rightarrow> string \<Rightarrow> js" where
  "fld f k = (case pf_value f k of Some s \<Rightarrow> JStr s | None \<Rightarrow> JUndef)"

definition cfg :: "form_page \<Rightarrow> string \<Rightarrow> js" where
  "cfg f k = jget (jget (pf_state f) ''config'') k"

definition fld_cfg :: "form_page \<Rightarrow> string \<Rightarrow> js" where
  "fld_cfg f k = js_or (fld f k) (cfg f k)"

definition models_by_path :: "form_page \<Rightarrow> js \<Rightarrow> js" where
  "models_by_path f path = (case find (\<lambda>r. jget r ''path'' = path) (rev (js_list (jget (pf_state f) ''models''))) of
     Some r \<Rightarrow> r | None \<Rightarrow> JUndef)"

record model_choice =
  mch_model :: js
  mch_mmproj :: js
  mch_draft :: js

definition model_choice_of :: "form_page \<Rightarrow> model_choice" where
  "model_choice_of f =
     (if pf_pending f then \<lparr>mch_model = JStr [], mch_mmproj = JStr [], mch_draft = JStr []\<rparr>
      else \<lparr>mch_model = js_or (fld_cfg f ''MODEL_FILE'') (JStr []),
            mch_mmproj = js_or (fld_cfg f ''MMPROJ_FILE'') (JStr []),
            mch_draft = js_or (fld_cfg f ''SPEC_DRAFT_MODEL_FILE'') (JStr [])\<rparr>)"

definition selected_model_rows :: "form_page \<Rightarrow> js \<times> js" where
  "selected_model_rows f = (let c = model_choice_of f in (models_by_path f (mch_model c), models_by_path f (mch_mmproj c)))"

section \<open>Caches and buffers\<close>

definition format_size_gb :: "js \<Rightarrow> string" where
  "format_size_gb v = (case js_number (js_or v (JNum 0)) of
     Fin n \<Rightarrow> if n \<le> 0 then ''n/a'' else to_fixed (if n \<ge> 10 then 1 else 2) n @ '' GB''
   | _ \<Rightarrow> ''n/a'')"

definition cache_bytes_per_element :: "js \<Rightarrow> rat" where
  "cache_bytes_per_element c =
     (let s = js_lower (js_string (js_or c (JStr ''f16'')))
      in if str_includes s ''q8_0'' then 34 / 32
         else if str_includes s ''q6_k'' then 8125 / 10000
         else if str_includes s ''q5'' then 7 / 10
         else if str_includes s ''q4'' then 5625 / 10000
         else if str_includes s ''iq4'' then 5625 / 10000
         else if str_includes s ''f32'' then 4
         else if str_includes s ''bf16'' \<or> str_includes s ''f16'' then 2 else 2)"

definition kv_widths :: "js \<Rightarrow> rat \<times> rat" where
  "kv_widths meta =
     (let heads = num_of (jget meta ''headCount'');
          heads_kv = (let n = num_of (jget meta ''headCountKv'') in if n = 0 then heads else n);
          key_length = num_of (jget meta ''keyLength''); value_length = num_of (jget meta ''valueLength'');
          fallback = (if heads \<noteq> 0 then num_of (jget meta ''embeddingLength'') / heads * heads_kv else 0);
          key_width = (if key_length \<noteq> 0 then key_length * heads_kv else fallback)
      in (key_width, if value_length \<noteq> 0 then value_length * heads_kv else key_width))"

definition estimate_kv_cache_gb :: "form_page \<Rightarrow> js \<Rightarrow> rat" where
  "estimate_kv_cache_gb f row =
     (let meta = jget row ''ggufMeta''; layers = num_of (jget meta ''blockCount'');
          (key_width, value_width) = kv_widths meta; ctx = num_of (fld_cfg f ''CTX_SIZE'')
      in if layers = 0 \<or> key_width = 0 \<or> value_width = 0 \<or> ctx = 0 then 0
         else ctx * layers * (key_width * cache_bytes_per_element (fld_cfg f ''CACHE_TYPE_K'')
                            + value_width * cache_bytes_per_element (fld_cfg f ''CACHE_TYPE_V'')) / gib)"

definition estimate_batch_buffers_gb :: "form_page \<Rightarrow> js \<Rightarrow> rat" where
  "estimate_batch_buffers_gb f row =
     (let meta = jget row ''ggufMeta''; layers = num_of (jget meta ''blockCount'');
          embedding = num_of (jget meta ''embeddingLength''); batch = num_of (fld_cfg f ''BATCH_SIZE'');
          ubatch = num_of (js_or (fld_cfg f ''UBATCH_SIZE'') (JNum batch))
      in if layers = 0 \<or> embedding = 0 \<or> (batch = 0 \<and> ubatch = 0) then 0
         else let bytes = cache_bytes_per_element (JStr ''f16'');
                  physical = max 0 (min (if ubatch \<noteq> 0 then ubatch else batch) (if batch \<noteq> 0 then batch else ubatch));
                  graph = physical * layers * embedding * bytes * (5 / 2);
                  scheduler = max 0 batch * embedding * bytes * 4
              in (graph + scheduler) / gib)"

record memory_estimate =
  est_model :: rat
  est_mmproj :: rat
  est_files :: rat
  est_kv :: rat
  est_batch :: rat
  est_runtime :: rat

definition estimate_runtime_memory_gb :: "form_page \<Rightarrow> memory_estimate" where
  "estimate_runtime_memory_gb f =
     (let (selected, mmproj) = selected_model_rows f
      in if \<not> js_truthy selected
         then \<lparr>est_model = 0, est_mmproj = 0, est_files = 0, est_kv = 0, est_batch = 0, est_runtime = 0\<rparr>
         else let m = num_of (jget selected ''sizeGb''); p = num_of (jget mmproj ''sizeGb'');
                  kv = estimate_kv_cache_gb f selected; b = estimate_batch_buffers_gb f selected
              in \<lparr>est_model = m, est_mmproj = p, est_files = m + p, est_kv = kv, est_batch = b,
                  est_runtime = m + p + kv + b\<rparr>)"

section \<open>The cards and what they have free\<close>

definition compute_target_gpus :: "form_page \<Rightarrow> js list" where
  "compute_target_gpus f =
     (if pf_remote f then js_list (pf_gpus f)
      else let gs = jget (jget (pf_topology f) ''server'') ''gpus''
           in if js_list gs \<noteq> [] then js_list gs else js_list (jget (jget (pf_state f) ''gpu'') ''gpus''))"

definition compute_target_cpu :: "form_page \<Rightarrow> js" where
  "compute_target_cpu f = (if pf_remote f then pf_cpu f else jget (pf_state f) ''cpu'')"

definition compute_target_cores :: "form_page \<Rightarrow> rat" where
  "compute_target_cores f =
     (let c = compute_target_cpu f; avail = num_of (jget c ''availableCores''); phys = num_of (jget c ''physicalCores'');
          logical = num_of (jget c ''logicalCores''); ncpu = num_of (jget c ''ncpu'')
      in if avail \<noteq> 0 \<and> phys \<noteq> 0 then min avail phys
         else if avail \<noteq> 0 then avail else if phys \<noteq> 0 then phys
         else if logical \<noteq> 0 then logical else if ncpu \<noteq> 0 then ncpu else 1)"

definition compute_target_ram_gb :: "form_page \<Rightarrow> rat" where
  "compute_target_ram_gb f =
     (if pf_remote f
      then let ram = jget (pf_cpu f) ''ram''; avail = num_of (jget ram ''totalGb'') - num_of (jget ram ''usedGb'')
           in if avail > 0 then avail else num_of (jget ram ''totalGb'')
      else num_of (jget (jget (pf_state f) ''memory'') ''availableMiB'') / 1024)"

definition gpu_index :: "js \<Rightarrow> rat" where
  "gpu_index g = num_of (jget g ''index'')"

definition gpu_total_gb :: "js \<Rightarrow> rat" where
  "gpu_total_gb g = num_of (jget g ''memoryTotalMiB'') / 1024"

definition gpu_free_mib :: "js \<Rightarrow> rat" where
  "gpu_free_mib g =
     (let free = num_of (jget g ''memoryFreeMiB'')
      in if free > 0 then free else max 0 (num_of (jget g ''memoryTotalMiB'') - num_of (jget g ''memoryUsedMiB'')))"

text \<open>The cell this form edits: the slot of its port on its machine.\<close>

definition command_cell_slot :: "form_page \<Rightarrow> js option" where
  "command_cell_slot f =
     (let port = (if pf_remote f then pf_port f else JStr [])
      in if \<not> js_truthy port then None
         else find (\<lambda>s. js_truthy (jget s ''isSlot'') \<and> js_string (jget s ''port'') = js_string port
                      \<and> js_text (jget s ''clientId'') = js_string (pf_host f))
                (concat (map (\<lambda>n. js_list (jget n ''servers'')) (js_list (jget (pf_topology f) ''nodes'')))))"

record cell_held =
  held_live :: bool
  held_cards :: "(string \<times> rat) list"

definition cell_holds :: "form_page \<Rightarrow> cell_held" where
  "cell_holds f = (case command_cell_slot f of
     None \<Rightarrow> \<lparr>held_live = False, held_cards = []\<rparr>
   | Some slot \<Rightarrow> (if js_text (jget slot ''phase'') \<in> {''running'', ''warming''}
       then \<lparr>held_live = True, held_cards = map (\<lambda>(i, mib). (i, num_of mib)) (js_fields (jget slot ''gpuMem''))\<rparr>
       else \<lparr>held_live = False, held_cards = []\<rparr>))"

definition held_gb :: "cell_held \<Rightarrow> rat" where
  "held_gb h = sum_list (map snd (held_cards h)) / 1024"

definition held_on :: "cell_held \<Rightarrow> js \<Rightarrow> rat" where
  "held_on h g = (case map_of (held_cards h) (js_string (jget g ''index'')) of Some m \<Rightarrow> m | None \<Rightarrow> 0)"

definition cell_free_mib :: "form_page \<Rightarrow> js \<Rightarrow> rat" where
  "cell_free_mib f g = gpu_free_mib g + held_on (cell_holds f) g"

definition n_gpu_layers_text :: "form_page \<Rightarrow> string" where
  "n_gpu_layers_text f = js_trim (js_text_nn (js_nn (fld f ''N_GPU_LAYERS'') (cfg f ''N_GPU_LAYERS'')))"

definition compute_is_cpu :: "form_page \<Rightarrow> bool" where
  "compute_is_cpu f = (n_gpu_layers_text f = ''0'')"

definition compute_selected_idx :: "form_page \<Rightarrow> rat list" where
  "compute_selected_idx f =
     (if compute_is_cpu f then []
      else let dev = js_trim (js_text (fld f ''DEVICE''))
           in if dev = [] then map gpu_index (compute_target_gpus f)
              else map (\<lambda>d. of_nat (digits_val (filter is_digit d))) (js_split CHR '','' dev))"

definition compute_selected_gpus :: "form_page \<Rightarrow> js list" where
  "compute_selected_gpus f =
     (let sel = compute_selected_idx f
      in if sel \<noteq> [] then filter (\<lambda>g. gpu_index g \<in> set sel) (compute_target_gpus f) else compute_target_gpus f)"

text \<open>The sign and the line of a need held against a room.\<close>

definition fit_kind :: "rat \<Rightarrow> string" where
  "fit_kind headroom = (if headroom < -1 then ''bad'' else if headroom < 1 then ''warn'' else ''good'')"

definition fit_label :: "string \<times> string \<times> string \<Rightarrow> rat \<Rightarrow> string" where
  "fit_label words headroom = (case words of (over, near, ok) \<Rightarrow>
     if headroom < -1 then over else if headroom < 1 then near else ok)"

definition vram_fit_from :: "dict \<Rightarrow> js list \<Rightarrow> rat \<Rightarrow> (js \<Rightarrow> rat) \<Rightarrow> string \<times> string" where
  "vram_fit_from t gpus need back =
     (let total_mib = sum_list (map (\<lambda>g. num_of (jget g ''memoryTotalMiB'')) gpus)
      in if need = 0 \<or> total_mib = 0 then ([], ''<b>n/a</b>'')
         else let free = sum_list (map (\<lambda>g. gpu_free_mib g + back g) gpus) / 1024; room = free - need; kind = fit_kind room
              in (kind, pill (t (fit_label (''vramOver'', ''vramNear'', ''vramOk'') room) []) (JStr kind)
                    @ '' <b>'' @ format_size_gb (JNum need) @ ''</b> / '' @ format_size_gb (JNum free) @ '' free''))"

definition vram_fit :: "dict \<Rightarrow> form_page \<Rightarrow> rat \<Rightarrow> string \<times> string" where
  "vram_fit t f need = vram_fit_from t (js_list (jget (jget (pf_state f) ''gpu'') ''gpus'')) need (\<lambda>g. 0)"

definition vram_fit_for_pfx :: "dict \<Rightarrow> form_page \<Rightarrow> rat \<Rightarrow> string \<times> string" where
  "vram_fit_for_pfx t f need = vram_fit_from t (compute_selected_gpus f) need (held_on (cell_holds f))"

definition ram_fit_with :: "dict \<Rightarrow> rat \<Rightarrow> rat \<Rightarrow> string \<times> string" where
  "ram_fit_with t available need =
     (if need = 0 \<or> available = 0 then ([], ''<b>n/a</b>'')
      else let room = available - need; kind = fit_kind room
           in (kind, pill (t (fit_label (''ramOver'', ''ramNear'', ''ramOk'') room) []) (JStr kind)
                 @ '' <b>'' @ format_size_gb (JNum need) @ ''</b> / '' @ format_size_gb (JNum available)))"

definition ram_fit :: "dict \<Rightarrow> form_page \<Rightarrow> rat \<Rightarrow> string \<times> string" where
  "ram_fit t f need = ram_fit_with t (num_of (jget (jget (pf_state f) ''memory'') ''availableMiB'') / 1024) need"

definition ram_fit_for_pfx :: "dict \<Rightarrow> form_page \<Rightarrow> rat \<Rightarrow> string \<times> string" where
  "ram_fit_for_pfx t f need = ram_fit_with t (compute_target_ram_gb f) need"

section \<open>How the weights divide\<close>

record card_share =
  cshare_index :: rat
  cshare_name :: string
  cshare_layers :: rat
  cshare_gb :: rat

record offload =
  off_layers :: rat
  off_layers_gpu :: rat
  off_vram :: rat
  off_ram :: rat
  off_mode :: string
  off_partial :: bool
  off_known :: bool
  off_cards :: "card_share list"
  off_auto :: rat

text \<open>\<open>String(name || "GPU").replace(/NVIDIA\s+GeForce\s+/i, "").replace(/NVIDIA\s+/i, "").trim() || "GPU"\<close>.\<close>

definition eat_word :: "string \<Rightarrow> string \<Rightarrow> string option" where
  "eat_word w s =
     (if js_lower (take (length w) s) = w \<and> drop (length w) s \<noteq> [] \<and> is_ws (hd (drop (length w) s))
      then Some (trim_start (drop (length w) s)) else None)"

fun drop_first :: "(string \<Rightarrow> string option) \<Rightarrow> string \<Rightarrow> string" where
  "drop_first m [] = []"
| "drop_first m (c # s) = (case m (c # s) of Some r \<Rightarrow> r | None \<Rightarrow> c # drop_first m s)"

definition short_gpu_name :: "js \<Rightarrow> string" where
  "short_gpu_name name =
     (let s = js_string (js_or name (JStr ''GPU''));
          one = drop_first (\<lambda>x. case eat_word ''nvidia'' x of Some r \<Rightarrow> eat_word ''geforce'' r | None \<Rightarrow> None) s;
          two = js_trim (drop_first (eat_word ''nvidia'') one)
      in if two = [] then ''GPU'' else two)"

definition times_sign :: string where
  "times_sign = [CHR 0xC3, CHR 0x97]"

definition machine_gpu_label :: "js list \<Rightarrow> string" where
  "machine_gpu_label gpus =
     (let named = filter (\<lambda>g. js_truthy (jget g ''name'')) gpus;
          names = map (\<lambda>g. short_gpu_name (jget g ''name'')) named
      in if length named \<le> 1 then (if named = [] then [] else js_text (jget (hd named) ''name''))
         else js_join '' + '' (map (\<lambda>w. let n = count_list names w
                in if n > 1 then nat_str n @ '' '' @ times_sign @ '' '' @ w else w) (js_uniq names)))"

definition is_all_digits :: "string \<Rightarrow> bool" where
  "is_all_digits s = (s \<noteq> [] \<and> list_all is_digit s)"

text \<open>Each card's share of the layers, in the order of the cards: by its weight, and the last one what is left.\<close>

fun card_layers :: "rat \<Rightarrow> rat \<Rightarrow> rat list \<Rightarrow> rat \<Rightarrow> rat list" where
  "card_layers on total_weight [] left = []"
| "card_layers on total_weight [w] left = [left]"
| "card_layers on total_weight (w # ws) left =
     (let share = min left (of_int (js_round (on * w / total_weight)))
      in share # card_layers on total_weight ws (left - share))"

text \<open>TENSOR_SPLIT as the operator typed it, its positive numbers.\<close>

definition manual_split :: "form_page \<Rightarrow> rat list" where
  "manual_split f = filter (\<lambda>x. x > 0) (List.map_filter (\<lambda>x. jnum_fin (str_number x))
     (js_split CHR '','' (js_trim (js_text (fld f ''TENSOR_SPLIT'')))))"

definition card_weights :: "form_page \<Rightarrow> js list \<Rightarrow> rat list" where
  "card_weights f gpus =
     (let manual = manual_split f
      in if length manual = length gpus then manual
         else map (\<lambda>g. if sm_even_by_default (sm_of (fld f ''SPLIT_MODE'')) then 1 else cell_free_mib f g / 1024) gpus)"

definition raw_layers :: "form_page \<Rightarrow> string" where
  "raw_layers f = js_lower (if n_gpu_layers_text f = [] then ''auto'' else n_gpu_layers_text f)"

definition auto_layers :: "string \<Rightarrow> rat \<Rightarrow> rat \<Rightarrow> rat \<Rightarrow> rat" where
  "auto_layers mode layers per_layer for_weights =
     (if mode = ''tensor'' then layers
      else if per_layer > 0 then max 0 (min layers (of_int \<lfloor>for_weights / per_layer\<rfloor>)) else 0)"

definition layers_on_cards :: "string \<Rightarrow> rat \<Rightarrow> rat \<Rightarrow> rat" where
  "layers_on_cards raw layers auto =
     (if raw = ''0'' then 0
      else if raw = ''all'' \<or> raw = ''max'' then layers
      else if is_all_digits raw then min layers (of_nat (digits_val raw)) else auto)"

definition kv_on_gpu :: "form_page \<Rightarrow> bool" where
  "kv_on_gpu f = (case pf_checked f ''KV_OFFLOAD'' of Some b \<Rightarrow> b | None \<Rightarrow> True)"

definition free_for_weights :: "form_page \<Rightarrow> rat" where
  "free_for_weights f =
     (let est = estimate_runtime_memory_gb f
      in sum_list (map (cell_free_mib f) (compute_selected_gpus f)) / 1024
           - (if kv_on_gpu f then est_kv est else 0) - est_batch est - 6 / 10)"

definition offload_split :: "form_page \<Rightarrow> offload" where
  "offload_split f =
     (let selected = fst (selected_model_rows f); est = estimate_runtime_memory_gb f;
          layers = num_of (jget (jget selected ''ggufMeta'') ''blockCount''); raw = raw_layers f; kv_gpu = kv_on_gpu f
      in if \<not> js_truthy selected \<or> layers = 0
         then \<lparr>off_layers = layers, off_layers_gpu = layers, off_vram = est_runtime est, off_ram = 0, off_mode = raw,
               off_partial = False, off_known = (layers > 0), off_cards = [], off_auto = layers\<rparr>
         else let per_layer = est_files est / layers; gpus = compute_selected_gpus f;
                  auto = auto_layers (sm_of (fld f ''SPLIT_MODE'')) layers per_layer (free_for_weights f);
                  on = layers_on_cards raw layers auto;
                  vram = on * per_layer + (if on > 0 then (if kv_gpu then est_kv est else 0) + est_batch est else 0);
                  weights = card_weights f gpus;
                  total_weight = (if sum_list weights = 0 then 1 else sum_list weights);
                  shares = card_layers on total_weight weights on;
                  extra = max 0 (vram - on * per_layer)
              in \<lparr>off_layers = layers, off_layers_gpu = on, off_vram = vram,
                  off_ram = (layers - on) * per_layer + (if on > 0 \<and> kv_gpu then 0 else est_kv est),
                  off_mode = raw, off_partial = (on < layers), off_known = (layers > 0),
                  off_cards = map2 (\<lambda>g n. \<lparr>cshare_index = gpu_index g, cshare_name = short_gpu_name (jget g ''name''),
                      cshare_layers = n,
                      cshare_gb = n * per_layer + (if on > 0 then extra * n / on else 0)\<rparr>) gpus shares,
                  off_auto = auto\<rparr>)"

section \<open>The compute target\<close>

text \<open>\<open>$(pfx + k)\<close> written to; nothing where the form has no such element.\<close>

definition pf_set :: "string \<Rightarrow> string \<Rightarrow> form_page \<Rightarrow> form_page" where
  "pf_set k v f = (if pf_value f k = None then f else f\<lparr>pf_value := (pf_value f)(k \<mapsto> v)\<rparr>)"

definition by_number :: "('a \<Rightarrow> rat) \<Rightarrow> 'a \<Rightarrow> 'a \<Rightarrow> int" where
  "by_number key a b = (if key a < key b then -1 else if key a > key b then 1 else 0)"

text \<open>\<open>sel\<close>: the mode, and the cards' indexes (none given: all).\<close>

definition apply_compute_target :: "string \<Rightarrow> rat list \<Rightarrow> form_page \<Rightarrow> form_page" where
  "apply_compute_target mode gpu_idx f =
     (if mode = ''cpu''
      then let cores = rat_str (compute_target_cores f)
           in (pf_set ''THREADS_BATCH'' cores \<circ> pf_set ''THREADS'' cores \<circ> pf_set ''MAIN_GPU'' [] \<circ> pf_set ''TENSOR_SPLIT'' []
               \<circ> pf_set ''SPLIT_MODE'' [] \<circ> pf_set ''DEVICE'' [] \<circ> pf_set ''N_GPU_LAYERS'' ''0'') f
      else let everyone = map gpu_index (compute_target_gpus f);
               idx = js_sort (by_number (\<lambda>x. x)) (if gpu_idx \<noteq> [] then gpu_idx else everyone);
               is_all = (length idx = length everyone);
               f1 = (pf_set ''MAIN_GPU'' (if is_all then [] else rat_str (hd idx))
                     \<circ> pf_set ''DEVICE'' (if is_all then [] else js_join '','' (map (\<lambda>i. ''CUDA'' @ rat_str i) idx))
                     \<circ> pf_set ''N_GPU_LAYERS'' ''auto'') f;
               split = sm_of (JStr (sm_for_cards (sm_of (fld f1 ''SPLIT_MODE'')) (JNum (of_nat (length idx)))));
               cards = js_sort (by_number gpu_index) (filter (\<lambda>g. gpu_index g \<in> set idx) (compute_target_gpus f1))
           in (pf_set ''THREADS_BATCH'' ''1'' \<circ> pf_set ''THREADS'' ''1''
               \<circ> pf_set ''TENSOR_SPLIT'' (sm_suggested_split split (JArr cards)) \<circ> pf_set ''SPLIT_MODE'' split) f1)"

section \<open>Every layer and every gigabyte has a place\<close>

lemma card_layers_sum: "ws \<noteq> [] \<Longrightarrow> sum_list (card_layers on tot ws left) = left"
  by (induction on tot ws left rule: card_layers.induct) (auto simp: Let_def)

lemma length_card_layers [simp]: "length (card_layers on tot ws left) = length ws"
  by (induction on tot ws left rule: card_layers.induct) (auto simp: Let_def)

lemma js_round_nonneg: "0 \<le> r \<Longrightarrow> 0 \<le> js_round r"
  by (simp add: js_round_def)

lemma card_layers_nonneg:
  "\<lbrakk>0 \<le> on; 0 < tot; 0 \<le> left; \<forall>w \<in> set ws. 0 \<le> w; n \<in> set (card_layers on tot ws left)\<rbrakk> \<Longrightarrow> 0 \<le> n"
proof (induction on tot ws left rule: card_layers.induct)
  case (3 on tot w v ws left)
  let ?s = "min left (of_int (js_round (on * w / tot)))"
  have s: "0 \<le> ?s" "0 \<le> left - ?s"
    using "3.prems" by (simp_all add: js_round_nonneg)
  show ?case
  proof (cases "n = ?s")
    case True
    then show ?thesis using s by simp
  next
    case False
    then have "n \<in> set (card_layers on tot (v # ws) (left - ?s))"
      using "3.prems"(5) by (simp add: Let_def)
    then show ?thesis
      using "3.IH" [OF refl _ _ s(2)] "3.prems" by simp
  qed
qed auto

lemma card_weights_length: "length (card_weights f gpus) = length gpus"
  by (simp add: card_weights_def Let_def)

lemma offload_known:
  assumes "off_known (offload_split f)"
  shows "js_truthy (fst (selected_model_rows f))" "num_of (jget (jget (fst (selected_model_rows f)) ''ggufMeta'') ''blockCount'') > 0"
proof -
  let ?sel = "fst (selected_model_rows f)" and ?l = "num_of (jget (jget (fst (selected_model_rows f)) ''ggufMeta'') ''blockCount'')"
  have pos: "?l > 0"
    using assms by (auto simp: offload_split_def Let_def split: if_splits)
  have undef: "num_of JUndef = 0"
    by (simp add: num_of_def)
  show "?l > 0" by (rule pos)
  show "js_truthy ?sel"
  proof (rule ccontr)
    assume "\<not> js_truthy ?sel"
    then have "jget ?sel ''ggufMeta'' = JUndef"
      by (cases ?sel) auto
    then show False using pos undef by simp
  qed
qed

lemma sum_shares:
  assumes "length ns = length gpus" "sum_list ns = (on :: rat)"
  shows "sum_list (map2 (\<lambda>g n. n * p + (if on > 0 then x * n / on else 0)) gpus ns) = on * p + (if on > 0 then x else 0)"
proof -
  have "sum_list (map2 (\<lambda>g n. n * p + (if on > 0 then x * n / on else 0)) gpus ns)
      = sum_list (map (\<lambda>n. n * p + (if on > 0 then x * n / on else 0)) ns)"
    using assms(1) by (induction gpus ns rule: list_induct2') auto
  also have "\<dots> = sum_list ns * p + (if on > 0 then x * sum_list ns / on else 0)"
    by (induction ns) (auto simp: algebra_simps add_divide_distrib)
  finally show ?thesis using assms(2) by auto
qed

lemma layers_on_cards_range:
  "0 < layers \<Longrightarrow> 0 \<le> auto \<Longrightarrow> auto \<le> layers \<Longrightarrow> 0 \<le> layers_on_cards raw layers auto \<and> layers_on_cards raw layers auto \<le> layers"
  by (auto simp: layers_on_cards_def)

lemma auto_layers_range: "0 < layers \<Longrightarrow> 0 \<le> auto_layers mode layers p w \<and> auto_layers mode layers p w \<le> layers"
  by (auto simp: auto_layers_def)

text \<open>The shape of an estimate whose model has a layer count.\<close>

lemma offload_split_known:
  assumes "off_known (offload_split f)"
  obtains layers per on vram where
    "layers = off_layers (offload_split f)" "0 < layers" "per = est_files (estimate_runtime_memory_gb f) / layers"
    "on = off_layers_gpu (offload_split f)" "on = layers_on_cards (raw_layers f) layers (off_auto (offload_split f))"
    "off_auto (offload_split f) = auto_layers (sm_of (fld f ''SPLIT_MODE'')) layers per (free_for_weights f)"
    "0 \<le> on" "on \<le> layers"
    "vram = off_vram (offload_split f)"
    "vram = on * per + (if on > 0 then (if kv_on_gpu f then est_kv (estimate_runtime_memory_gb f) else 0)
                                     + est_batch (estimate_runtime_memory_gb f) else 0)"
    "off_ram (offload_split f) = (layers - on) * per
       + (if on > 0 \<and> kv_on_gpu f then 0 else est_kv (estimate_runtime_memory_gb f))"
    "off_cards (offload_split f) = map2 (\<lambda>g n. \<lparr>cshare_index = gpu_index g, cshare_name = short_gpu_name (jget g ''name''),
        cshare_layers = n, cshare_gb = n * per + (if on > 0 then max 0 (vram - on * per) * n / on else 0)\<rparr>)
      (compute_selected_gpus f)
      (card_layers on (let s = sum_list (card_weights f (compute_selected_gpus f)) in if s = 0 then 1 else s)
         (card_weights f (compute_selected_gpus f)) on)"
proof -
  note k = offload_known [OF assms]
  let ?l = "num_of (jget (jget (fst (selected_model_rows f)) ''ggufMeta'') ''blockCount'')"
  let ?p = "est_files (estimate_runtime_memory_gb f) / ?l"
  let ?on = "layers_on_cards (raw_layers f) ?l (auto_layers (sm_of (fld f ''SPLIT_MODE'')) ?l ?p (free_for_weights f))"
  have o: "\<not> (\<not> js_truthy (fst (selected_model_rows f)) \<or> ?l = 0)" using k by simp
  show thesis
    apply (rule that [of ?l ?p ?on "?on * ?p + (if ?on > 0 then (if kv_on_gpu f then est_kv (estimate_runtime_memory_gb f) else 0)
                                     + est_batch (estimate_runtime_memory_gb f) else 0)"])
    using o k layers_on_cards_range [OF k(2)] auto_layers_range [OF k(2)]
    by (simp_all add: offload_split_def Let_def)
qed

lemma offload_cards_length:
  "off_known (offload_split f) \<Longrightarrow> length (off_cards (offload_split f)) = length (compute_selected_gpus f)"
  by (erule offload_split_known) (simp add: card_weights_length)

lemma map_map2_snd: "(\<And>g n. p (h g n) = n) \<Longrightarrow> length ns = length gs \<Longrightarrow> map p (map2 h gs ns) = ns"
  by (induction gs ns rule: list_induct2') auto

text \<open>(C34) 
  Nothing of the model is lost between the two memories: what the plan puts on the cards and what it puts in
  RAM are the files and the caches together, and the cards' own lines add up to what is on the cards, layers
  and gigabytes, however the split was chosen.
\<close>

theorem mem_every_gb_has_a_place:
  assumes "off_known (offload_split f)" "0 \<le> est_kv (estimate_runtime_memory_gb f)" "0 \<le> est_batch (estimate_runtime_memory_gb f)"
  shows "off_vram (offload_split f) + off_ram (offload_split f)
           = est_files (estimate_runtime_memory_gb f) + est_kv (estimate_runtime_memory_gb f)
             + (if off_layers_gpu (offload_split f) > 0 then est_batch (estimate_runtime_memory_gb f) else 0)
       \<and> (off_cards (offload_split f) \<noteq> [] \<longrightarrow>
            sum_list (map cshare_layers (off_cards (offload_split f))) = off_layers_gpu (offload_split f)
          \<and> sum_list (map cshare_gb (off_cards (offload_split f))) = off_vram (offload_split f))"
proof (rule offload_split_known [OF assms(1)])
  fix layers per on vram
  let ?e = "estimate_runtime_memory_gb f" and ?o = "offload_split f" and ?gpus = "compute_selected_gpus f"
  let ?ws = "card_weights f ?gpus"
  let ?ns = "card_layers on (let s = sum_list ?ws in if s = 0 then 1 else s) ?ws on"
  assume l: "0 < layers" and per: "per = est_files ?e / layers" and on: "on = off_layers_gpu ?o" "0 \<le> on"
    and vram: "vram = off_vram ?o"
      "vram = on * per + (if on > 0 then (if kv_on_gpu f then est_kv ?e else 0) + est_batch ?e else 0)"
    and ram: "off_ram ?o = (layers - on) * per + (if on > 0 \<and> kv_on_gpu f then 0 else est_kv ?e)"
    and cards: "off_cards ?o = map2 (\<lambda>g n. \<lparr>cshare_index = gpu_index g, cshare_name = short_gpu_name (jget g ''name''),
        cshare_layers = n, cshare_gb = n * per + (if on > 0 then max 0 (vram - on * per) * n / on else 0)\<rparr>) ?gpus ?ns"
  have files: "layers * per = est_files ?e" using l per by simp
  have a: "off_vram ?o + off_ram ?o = est_files ?e + est_kv ?e + (if off_layers_gpu ?o > 0 then est_batch ?e else 0)"
    using on vram ram files by (cases "on > 0"; cases "kv_on_gpu f") (simp_all add: algebra_simps)
  have b: "sum_list (map cshare_layers (off_cards ?o)) = off_layers_gpu ?o
         \<and> sum_list (map cshare_gb (off_cards ?o)) = off_vram ?o" if ne: "off_cards ?o \<noteq> []"
  proof
    have len: "length ?ns = length ?gpus" by (simp add: card_weights_length)
    have "?ws \<noteq> []" using ne len by (auto simp: cards card_weights_length)
    then have total: "sum_list ?ns = on" by (rule card_layers_sum)
    have "map cshare_layers (off_cards ?o) = ?ns"
      unfolding cards by (rule map_map2_snd) (use len in simp_all)
    then show "sum_list (map cshare_layers (off_cards ?o)) = off_layers_gpu ?o" using total on by simp
    have extra: "(if on > 0 then max 0 (vram - on * per) else 0) = vram - on * per"
      using vram(2) assms(2,3) on(2) by auto
    have "map cshare_gb (off_cards ?o)
        = map2 (\<lambda>g n. n * per + (if on > 0 then max 0 (vram - on * per) * n / on else 0)) ?gpus ?ns"
      by (simp add: cards case_prod_unfold)
    then show "sum_list (map cshare_gb (off_cards ?o)) = off_vram ?o"
      using sum_shares [OF len total, where p = per and x = "max 0 (vram - on * per)"] extra vram(1) by simp
  qed
  show ?thesis using a b by blast
qed

lemma auto_is_most:
  assumes "0 < layers" "0 < per" "on = max 0 (min layers (of_int \<lfloor>w / per\<rfloor> :: rat))"
  shows "(0 < on \<longrightarrow> on * per \<le> w) \<and> (on < layers \<longrightarrow> w < (on + 1) * per)"
proof
  have le: "of_int \<lfloor>w / per\<rfloor> * per \<le> w" "w < (of_int \<lfloor>w / per\<rfloor> + 1) * per"
    using floor_divide_lower [OF assms(2)] floor_divide_upper [OF assms(2)] by auto
  show "0 < on \<longrightarrow> on * per \<le> w"
  proof
    assume "0 < on"
    then have "on \<le> of_int \<lfloor>w / per\<rfloor>" unfolding assms(3) by linarith
    then have "on * per \<le> of_int \<lfloor>w / per\<rfloor> * per" using assms(2) by simp
    then show "on * per \<le> w" using le(1) by linarith
  qed
  show "on < layers \<longrightarrow> w < (on + 1) * per"
  proof
    assume "on < layers"
    then have "of_int \<lfloor>w / per\<rfloor> + 1 \<le> on + 1" using assms(3) by auto
    then have "(of_int \<lfloor>w / per\<rfloor> + 1) * per \<le> (on + 1) * per" using assms(2) by simp
    then show "w < (on + 1) * per" using le(2) by linarith
  qed
qed

text \<open>(C30) 
  "auto" under a layer split: what it puts on the cards fits their free memory with the 0.6 GB to spare, and
  one layer more would not.
\<close>

theorem mem_auto_is_the_most_that_fits:
  assumes "off_known (offload_split f)" "0 < est_files (estimate_runtime_memory_gb f)"
    "sm_of (fld f ''SPLIT_MODE'') \<noteq> ''tensor''"
    "raw_layers f \<notin> {''0'', ''all'', ''max''}" "\<not> is_all_digits (raw_layers f)"
  shows "(0 < off_layers_gpu (offload_split f) \<longrightarrow> off_vram (offload_split f) + 6 / 10
             \<le> sum_list (map (cell_free_mib f) (compute_selected_gpus f)) / 1024)
       \<and> (off_layers_gpu (offload_split f) < off_layers (offload_split f) \<longrightarrow>
            sum_list (map (cell_free_mib f) (compute_selected_gpus f)) / 1024
              < (off_layers_gpu (offload_split f) + 1) * (est_files (estimate_runtime_memory_gb f) / off_layers (offload_split f))
                + (if kv_on_gpu f then est_kv (estimate_runtime_memory_gb f) else 0)
                + est_batch (estimate_runtime_memory_gb f) + 6 / 10)"
proof (rule offload_split_known [OF assms(1)])
  fix layers per on vram
  let ?e = "estimate_runtime_memory_gb f" and ?o = "offload_split f"
  assume l: "layers = off_layers ?o" "0 < layers" and per: "per = est_files ?e / layers" and on: "on = off_layers_gpu ?o"
    "on = layers_on_cards (raw_layers f) layers (off_auto ?o)"
    and auto: "off_auto ?o = auto_layers (sm_of (fld f ''SPLIT_MODE'')) layers per (free_for_weights f)"
    and vram: "vram = off_vram ?o"
      "vram = on * per + (if on > 0 then (if kv_on_gpu f then est_kv ?e else 0) + est_batch ?e else 0)"
  have pp: "0 < per" using per l(2) assms(2) by simp
  have "on = max 0 (min layers (of_int \<lfloor>free_for_weights f / per\<rfloor>))"
    using on(2) auto assms(3,4,5) pp by (simp add: layers_on_cards_def auto_layers_def)
  note most = auto_is_most [OF l(2) pp this]
  define X where "X = (if kv_on_gpu f then est_kv ?e else 0) + est_batch ?e"
  define A where "A = sum_list (map (cell_free_mib f) (compute_selected_gpus f)) / 1024"
  have w: "free_for_weights f = A - X - 6 / 10"
    by (simp add: free_for_weights_def Let_def A_def X_def)
  have v: "0 < on \<Longrightarrow> vram = on * per + X"
    using vram(2) by (simp add: X_def)
  have "(0 < on \<longrightarrow> vram + 6 / 10 \<le> A) \<and> (on < layers \<longrightarrow> A < (on + 1) * per + X + 6 / 10)"
    using most v unfolding w by auto
  then show ?thesis
    unfolding A_def X_def l(1) vram(1) on(1) per by (simp add: add.assoc)
qed

section \<open>What is picked is what is read back\<close>

lemma pf_set_other [simp]:
  "pf_remote (pf_set k v f) = pf_remote f" "pf_gpus (pf_set k v f) = pf_gpus f" "pf_cpu (pf_set k v f) = pf_cpu f"
  "pf_topology (pf_set k v f) = pf_topology f" "pf_state (pf_set k v f) = pf_state f"
  by (simp_all add: pf_set_def)

lemma pf_set_value:
  "pf_value (pf_set k v f) k' = (if k = k' then (if pf_value f k = None then None else Some v) else pf_value f k')"
  by (simp add: pf_set_def)

lemma compute_target_gpus_set [simp]: "compute_target_gpus (pf_set k v f) = compute_target_gpus f"
  unfolding compute_target_gpus_def pf_set_other ..

lemma compute_target_cores_set [simp]: "compute_target_cores (pf_set k v f) = compute_target_cores f"
  unfolding compute_target_cores_def compute_target_cpu_def pf_set_other ..

lemma apply_compute_target_value:
  assumes "pf_value f ''N_GPU_LAYERS'' \<noteq> None" "pf_value f ''DEVICE'' \<noteq> None"
    "everyone = map gpu_index (compute_target_gpus f)"
    "idx = js_sort (by_number (\<lambda>x. x)) (if gpu_idx \<noteq> [] then gpu_idx else everyone)"
  shows "pf_value (apply_compute_target mode gpu_idx f) ''N_GPU_LAYERS'' = Some (if mode = ''cpu'' then ''0'' else ''auto'')"
    "pf_value (apply_compute_target mode gpu_idx f) ''DEVICE'' = Some (if mode = ''cpu'' \<or> length idx = length everyone then []
       else js_join '','' (map (\<lambda>i. ''CUDA'' @ rat_str i) idx))"
    "compute_target_gpus (apply_compute_target mode gpu_idx f) = compute_target_gpus f"
proof -
  obtain a b where "pf_value f ''N_GPU_LAYERS'' = Some a" "pf_value f ''DEVICE'' = Some b"
    using assms(1,2) by blast
  then show "pf_value (apply_compute_target mode gpu_idx f) ''N_GPU_LAYERS'' = Some (if mode = ''cpu'' then ''0'' else ''auto'')"
    "pf_value (apply_compute_target mode gpu_idx f) ''DEVICE'' = Some (if mode = ''cpu'' \<or> length idx = length everyone then []
       else js_join '','' (map (\<lambda>i. ''CUDA'' @ rat_str i) idx))"
    unfolding assms(3,4) by (simp_all add: apply_compute_target_def Let_def pf_set_value)
  show "compute_target_gpus (apply_compute_target mode gpu_idx f) = compute_target_gpus f"
    by (simp add: apply_compute_target_def Let_def)
qed

lemma cuda_digits: "filter is_digit (''CUDA'' @ nat_str n) = nat_str n"
proof -
  have "filter is_digit (nat_str n) = nat_str n"
    using nat_str_digits by (simp add: filter_id_conv)
  then show ?thesis by (simp add: is_digit_def)
qed

lemma split_join_cuda:
  "ns \<noteq> [] \<Longrightarrow> js_split CHR '','' (js_join '','' (map (\<lambda>n. ''CUDA'' @ nat_str n) ns)) = map (\<lambda>n. ''CUDA'' @ nat_str n) ns"
  unfolding js_split_def by (rule split_by_join) (auto dest: nat_str_digits simp: is_digit_def)

lemma join_chars: "c \<in> set (js_join sep ws) \<Longrightarrow> c \<in> set sep \<or> (\<exists>w \<in> set ws. c \<in> set w)"
  by (induction ws rule: induct_list012) auto

lemma rat_str_of_nat [simp]: "rat_str (of_nat n) = nat_str n"
  using rat_str_of_int [of "int n"] by (simp add: int_str_def)

lemma nats_of_rats: "set xs \<subseteq> range of_nat \<Longrightarrow> \<exists>ns. xs = map of_nat ns"
  by (metis ex_map_conv rangeE subsetD)

lemma trim_cuda: "js_trim (js_join '','' (map (\<lambda>n. ''CUDA'' @ nat_str n) ns)) = js_join '','' (map (\<lambda>n. ''CUDA'' @ nat_str n) ns)"
  (is "js_trim ?s = _")
proof (rule trim_no_ws, rule ballI)
  fix c assume "c \<in> set ?s"
  then have "c \<in> set '',''  \<or> (\<exists>n. c \<in> set (''CUDA'' @ nat_str n))"
    using join_chars [of c "'',''" "map (\<lambda>n. ''CUDA'' @ nat_str n) ns"] by (auto simp del: append_Cons)
  then show "\<not> is_ws c"
    using nat_str_digits by (fastforce simp: is_ws_def is_digit_def Let_def)
qed

lemma join_cuda_not_Nil: "ns \<noteq> [] \<Longrightarrow> js_join '','' (map (\<lambda>n. ''CUDA'' @ nat_str n) ns) \<noteq> []"
  by (induction ns rule: induct_list012) auto

lemma selected_idx_of_cuda:
  assumes "pf_value f ''N_GPU_LAYERS'' = Some ''auto''" "ns \<noteq> []"
    "pf_value f ''DEVICE'' = Some (js_join '','' (map (\<lambda>n. ''CUDA'' @ nat_str n) ns))"
  shows "compute_selected_idx f = map of_nat ns"
proof -
  have auto: "js_trim ''auto'' = ''auto''" by (rule trim_no_ws) (simp add: is_ws_def)
  have cpu: "\<not> compute_is_cpu f"
    by (simp add: compute_is_cpu_def n_gpu_layers_text_def fld_def assms(1) js_text_nn_def auto)
  have dev: "js_trim (js_text (fld f ''DEVICE'')) = js_join '','' (map (\<lambda>n. ''CUDA'' @ nat_str n) ns)"
    by (simp only: fld_def assms(3) option.case js_text_simps trim_cuda)
  show ?thesis
    unfolding compute_selected_idx_def
    unfolding dev Let_def if_not_P [OF cpu] if_not_P [OF join_cuda_not_Nil [OF assms(2)]] split_join_cuda [OF assms(2)]
    by (simp only: map_map comp_def cuda_digits digits_val_nat_str)
qed

lemma picked_cards_read_back:
  assumes "pf_value f ''N_GPU_LAYERS'' \<noteq> None" "pf_value f ''DEVICE'' \<noteq> None" "ns \<noteq> []"
  shows "compute_selected_idx (apply_compute_target ''gpu'' (map of_nat ns) f)
           = (if length ns = length (compute_target_gpus f) then map gpu_index (compute_target_gpus f)
              else js_sort (by_number (\<lambda>x. x)) (map of_nat ns))
       \<and> compute_selected_idx (apply_compute_target ''cpu'' [] f) = []
       \<and> compute_is_cpu (apply_compute_target ''cpu'' [] f) \<and> \<not> compute_is_cpu (apply_compute_target ''gpu'' (map of_nat ns) f)"
proof -
  let ?g = "apply_compute_target ''gpu'' (map of_nat ns) f" and ?c = "apply_compute_target ''cpu'' [] f"
  let ?idx = "js_sort (by_number (\<lambda>x. x)) (map of_nat ns) :: rat list"
  have zero: "js_trim ''0'' = ''0''" "js_trim ''auto'' = ''auto''" by (rule trim_no_ws; simp add: is_ws_def)+
  note val = apply_compute_target_value [OF assms(1,2) refl refl]
  have cpu: "compute_is_cpu ?c"
    by (simp add: compute_is_cpu_def n_gpu_layers_text_def fld_def val(1) js_text_nn_def zero)
  have gpu: "pf_value ?g ''N_GPU_LAYERS'' = Some ''auto''"
    by (simp add: val(1))
  have ncpu: "\<not> compute_is_cpu ?g"
    by (simp add: compute_is_cpu_def n_gpu_layers_text_def fld_def gpu js_text_nn_def zero)
  obtain ms where ms: "?idx = map of_nat ms"
    using nats_of_rats [of ?idx] by auto
  have ne: "ms \<noteq> []"
    using ms assms(3) by (metis length_0_conv length_js_sort length_map)
  have dev: "pf_value ?g ''DEVICE'' = Some (if length ns = length (compute_target_gpus f) then []
      else js_join '','' (map (\<lambda>n. ''CUDA'' @ nat_str n) ms))"
  proof -
    have "length ms = length ns" using ms by (metis length_js_sort length_map)
    then show ?thesis using assms(3) ms by (simp add: val(2) comp_def)
  qed
  have "compute_selected_idx ?g = (if length ns = length (compute_target_gpus f) then map gpu_index (compute_target_gpus f) else ?idx)"
  proof (cases "length ns = length (compute_target_gpus f)")
    case True
    have "js_trim [] = []" by (rule trim_no_ws) simp
    then show ?thesis
      using True ncpu by (simp add: compute_selected_idx_def fld_def dev val(3))
  next
    case False
    then show ?thesis
      using selected_idx_of_cuda [OF gpu ne] dev ms by simp
  qed
  then show ?thesis using cpu ncpu by (simp add: compute_selected_idx_def)
qed

text \<open>
  Round trip of the compute target: the cards a chip picks, written into the form, are the ones the form then
  reads back (all of them as an empty DEVICE, which follows the machine), and the CPU's choice leaves none.
\<close>

theorem mem_picked_cards_are_read_back:
  assumes "pf_value f ''N_GPU_LAYERS'' \<noteq> None" "pf_value f ''DEVICE'' \<noteq> None" "ns \<noteq> []"
  shows "compute_selected_idx (apply_compute_target ''gpu'' (map of_nat ns) f)
           = (if length ns = length (compute_target_gpus f) then map gpu_index (compute_target_gpus f)
              else js_sort (by_number (\<lambda>x. x)) (map of_nat ns))
       \<and> compute_selected_idx (apply_compute_target ''cpu'' [] f) = []
       \<and> compute_is_cpu (apply_compute_target ''cpu'' [] f) \<and> \<not> compute_is_cpu (apply_compute_target ''gpu'' (map of_nat ns) f)"
  using picked_cards_read_back [OF assms] .

section \<open>A machine with two cards\<close>

text \<open>A model of 4 layers and 8 GB with a cache of 4 GB, on cards with 3 and 6 GB free: two layers fit.\<close>

definition two_card_form :: form_page where
  "two_card_form =
     \<lparr>pf_value = [''N_GPU_LAYERS'' \<mapsto> ''auto'', ''DEVICE'' \<mapsto> [], ''MODEL_FILE'' \<mapsto> ''m.gguf'',
                  ''SPLIT_MODE'' \<mapsto> ''layer''],
      pf_checked = (\<lambda>k. None), pf_pending = False, pf_remote = True,
      pf_state = JObj [(''config'', JObj [(''CTX_SIZE'', JNum 1048576)]), (''models'', JArr [JObj [(''path'', JStr ''m.gguf''), (''sizeGb'', JNum 8),
        (''ggufMeta'', JObj [(''blockCount'', JNum 4), (''headCount'', JNum 8), (''headCountKv'', JNum 2), (''keyLength'', JNum 128)])]])],
      pf_topology = JUndef,
      pf_gpus = JArr [JObj [(''index'', JNum 0), (''memoryTotalMiB'', JNum 24576), (''memoryFreeMiB'', JNum 3072)], JObj [(''index'', JNum 1), (''memoryTotalMiB'', JNum 32768), (''memoryFreeMiB'', JNum 6144)]],
      pf_cpu = JUndef, pf_port = JUndef, pf_host = JUndef\<rparr>"

lemma two_card_words:
  "js_trim ''auto'' = ''auto''" "js_lower ''auto'' = ''auto''" "js_trim ''layer'' = ''layer''" "js_lower ''layer'' = ''layer''"
  "js_trim [] = []"
  by (simp_all add: js_trim_def trim_start_def trim_end_def is_ws_def js_lower_def lower_char_def)

lemma cache_f16: "cache_bytes_per_element JUndef = 2" "cache_bytes_per_element (JStr ''f16'') = 2"
  by (simp_all add: cache_bytes_per_element_def js_or_def js_lower_def lower_char_def str_includes_def)

lemma two_card_estimate:
  "estimate_runtime_memory_gb two_card_form
     = \<lparr>est_model = 8, est_mmproj = 0, est_files = 8, est_kv = 4, est_batch = 0, est_runtime = 12\<rparr>"
  by (simp add: estimate_runtime_memory_gb_def selected_model_rows_def model_choice_of_def models_by_path_def
      two_card_form_def fld_cfg_def fld_def cfg_def estimate_kv_cache_gb_def kv_widths_def estimate_batch_buffers_gb_def
      num_of_def js_or_def two_card_words cache_f16 gib_def Let_def)

lemma two_card_facts:
  "js_truthy (fst (selected_model_rows two_card_form))"
  "num_of (jget (jget (fst (selected_model_rows two_card_form)) ''ggufMeta'') ''blockCount'') = 4"
  "raw_layers two_card_form = ''auto''" "sm_of (fld two_card_form ''SPLIT_MODE'') = ''layer''" "kv_on_gpu two_card_form"
  by (simp_all add: selected_model_rows_def model_choice_of_def models_by_path_def two_card_form_def fld_cfg_def fld_def
      cfg_def num_of_def js_or_def raw_layers_def n_gpu_layers_text_def two_card_words js_text_nn_def sm_of_def kv_on_gpu_def Let_def)

lemma two_card_gpus:
  "compute_selected_gpus two_card_form
     = [JObj [(''index'', JNum 0), (''memoryTotalMiB'', JNum 24576), (''memoryFreeMiB'', JNum 3072)], JObj [(''index'', JNum 1), (''memoryTotalMiB'', JNum 32768), (''memoryFreeMiB'', JNum 6144)]]"
  by (simp add: compute_selected_gpus_def compute_selected_idx_def compute_is_cpu_def compute_target_gpus_def
      two_card_form_def fld_def cfg_def n_gpu_layers_text_def two_card_words js_text_nn_def gpu_index_def num_of_def)

lemma two_card_free:
  "map (cell_free_mib two_card_form) (compute_selected_gpus two_card_form) = [3072, 6144]"
  by (simp add: two_card_gpus)
    (simp add: cell_free_mib_def gpu_free_mib_def cell_holds_def command_cell_slot_def held_on_def two_card_form_def num_of_def)

lemma two_card_split:
  "off_known (offload_split two_card_form)" "off_layers (offload_split two_card_form) = 4"
  "off_layers_gpu (offload_split two_card_form) = 2" "off_cards (offload_split two_card_form) \<noteq> []"
proof -
  have w: "free_for_weights two_card_form = 22 / 5"
    by (simp add: free_for_weights_def two_card_free two_card_estimate two_card_facts(5))
  have auto: "auto_layers ''layer'' 4 2 (22 / 5) = 2"
  proof -
    have "\<lfloor>11 / 5 :: rat\<rfloor> = 2" by (rule floor_unique) simp_all
    then show ?thesis by (simp add: auto_layers_def)
  qed
  have on: "layers_on_cards ''auto'' 4 2 = 2"
    by (simp add: layers_on_cards_def is_all_digits_def is_digit_def)
  show "off_known (offload_split two_card_form)" "off_layers (offload_split two_card_form) = 4"
    "off_layers_gpu (offload_split two_card_form) = 2"
    by (simp_all add: offload_split_def Let_def two_card_facts two_card_estimate w auto on)
  then have "length (off_cards (offload_split two_card_form)) = 2"
    by (simp add: offload_cards_length two_card_gpus)
  then show "off_cards (offload_split two_card_form) \<noteq> []" by auto
qed

theorem mem_every_gb_has_a_place_witness:
  "off_vram (offload_split two_card_form) + off_ram (offload_split two_card_form) = 12
   \<and> sum_list (map cshare_layers (off_cards (offload_split two_card_form))) = 2"
  using mem_every_gb_has_a_place [of two_card_form] by (simp add: two_card_split two_card_estimate)

theorem mem_auto_is_the_most_that_fits_witness:
  "off_vram (offload_split two_card_form) + 6 / 10 \<le> 9"
  using mem_auto_is_the_most_that_fits [of two_card_form]
  by (simp add: two_card_split two_card_estimate two_card_facts two_card_free is_all_digits_def is_digit_def)

theorem mem_picked_cards_are_read_back_witness:
  "compute_selected_idx (apply_compute_target ''gpu'' [1] two_card_form) = [1]"
  using mem_picked_cards_are_read_back [of two_card_form "[1]"]
  by (simp add: two_card_form_def compute_target_gpus_def js_sort_def)

end
