(* ===== verification/DeviceTarget.thy ===== *)
theory DeviceTarget
  imports MemoryPlan
begin

text \<open>
  Which device a cell runs on, as its form shows and writes it (\<open>memory.js\<close>, with the ENV helpers and the
  runners' registry of \<open>llama-edit.js\<close> and the bar of \<open>form.js\<close>): the devices of each runner, the pin in a
  command cell's ENV, the card of a one-card runner, what vLLM asks of its cards, the start that takes a card's free
  memory, the panel of the layers, the tiles and the chips of the compute target, and the bar that says whether the
  start fits. A template's markup is not modelled, the words and the figures in it are.
\<close>

section \<open>The runners\<close>

definition builtin_runners :: "js list" where
  "builtin_runners =
     [JObj [(''id'', JStr ''llama-server''), (''icon'', JStr [CHR 0xF0, CHR 0x9F, CHR 0xA6, CHR 0x99]), (''labelKey'', JStr ''runnerLlama''),
            (''benefitsKey'', JStr ''runnerLlamaBenefits''), (''formats'', JArr [JStr ''gguf''])],
      JObj [(''id'', JStr ''custom''), (''icon'', JStr ([CHR 0xF0, CHR 0x9F, CHR 0x9B, CHR 0xA0, CHR 0xEF, CHR 0xB8, CHR 0x8F])),
            (''labelKey'', JStr ''runnerCustom''), (''benefitsKey'', JStr ''runnerCustomBenefits''), (''formats'', JArr [JStr ''*''])]]"

definition runner_registry :: "form_page \<Rightarrow> js list" where
  "runner_registry f = (let rs = js_list (jget (pf_state f) ''runners'') in if rs \<noteq> [] then rs else builtin_runners)"

definition runner_row :: "form_page \<Rightarrow> string \<Rightarrow> js" where
  "runner_row f runner = (case find (\<lambda>r. jget r ''id'' = JStr runner) (runner_registry f) of Some r \<Rightarrow> r | None \<Rightarrow> JUndef)"

definition uses_llama_config :: "form_page \<Rightarrow> string \<Rightarrow> bool" where
  "uses_llama_config f runner = (jget (runner_row f runner) ''llamaConfig'' = JBool True \<or> runner = ''llama-server'')"

definition runner_fixed_vram_gb :: "form_page \<Rightarrow> string \<Rightarrow> rat" where
  "runner_fixed_vram_gb f runner =
     (let mib = num_of (jget (jget (runner_row f runner) ''vramPlan'') ''fixedMiB'') in if mib > 0 then mib / 1024 else 0)"

definition runner_of :: "form_page \<Rightarrow> string" where
  "runner_of f =
     (let explicit = js_trim (js_text (fld f ''RUNNER''))
      in if explicit \<noteq> [] then explicit else if js_text (fld f ''CELL_KIND'') = ''command'' then ''custom'' else ''llama-server'')"

definition effective_runner_id :: "form_page \<Rightarrow> string" where
  "effective_runner_id f =
     (let explicit = js_lower (js_trim (js_text (fld f ''RUNNER'')))
      in if explicit \<noteq> [] then explicit
         else if js_lower (js_trim (js_text (fld f ''CELL_KIND''))) = ''command'' then ''custom'' else ''llama-server'')"

record device_caps =
  cap_cpu :: bool
  cap_gpu :: bool
  cap_auto :: bool

definition runner_device_caps :: "form_page \<Rightarrow> string \<Rightarrow> device_caps" where
  "runner_device_caps f runner =
     (if js_truthy (jget (runner_row f runner) ''gpuOnly'') then \<lparr>cap_cpu = False, cap_gpu = True, cap_auto = False\<rparr>
      else if runner = ''vllm'' \<or> runner = ''whisper'' then \<lparr>cap_cpu = False, cap_gpu = True, cap_auto = False\<rparr>
      else if runner = ''moonshine'' then \<lparr>cap_cpu = True, cap_gpu = False, cap_auto = False\<rparr>
      else if runner = ''custom'' then \<lparr>cap_cpu = True, cap_gpu = True, cap_auto = True\<rparr>
      else \<lparr>cap_cpu = True, cap_gpu = True, cap_auto = False\<rparr>)"

definition caps_allow :: "device_caps \<Rightarrow> string \<Rightarrow> bool" where
  "caps_allow caps mode = (if mode = ''cpu'' then cap_cpu caps else if mode = ''gpu'' then cap_gpu caps
     else if mode = ''auto'' then cap_auto caps else False)"

section \<open>The device in ENV\<close>

text \<open>The places of a text with the character before each, for the rules that look for a word anywhere in it.\<close>

fun spots :: "char option \<Rightarrow> string \<Rightarrow> (char option \<times> string) list" where
  "spots p [] = [(p, [])]"
| "spots p (c # s) = (p, c # s) # spots (Some c) s"

definition wordish :: "char \<Rightarrow> bool" where
  "wordish c = (let n = of_char (lower_char c) :: nat in (97 \<le> n \<and> n \<le> 122) \<or> is_digit c \<or> c = CHR ''_'')"

definition word_ends :: "string \<Rightarrow> bool" where
  "word_ends s = (s = [] \<or> \<not> wordish (hd s))"

definition eat_ci :: "string \<Rightarrow> string \<Rightarrow> string option" where
  "eat_ci w s = (if js_lower (take (length w) s) = w then Some (drop (length w) s) else None)"

text \<open>One of the devices, as a word of its own, at the start of the text.\<close>

definition device_word :: "string list \<Rightarrow> string \<Rightarrow> bool" where
  "device_word devices s = list_ex (\<lambda>d. case eat_ci d s of Some r \<Rightarrow> word_ends r | None \<Rightarrow> False) devices"

definition env_separator :: "char \<Rightarrow> bool" where
  "env_separator c = (is_ws c \<or> c = CHR '';'' \<or> c = CHR '','')"

definition after_separator :: "char option \<Rightarrow> bool" where
  "after_separator p = (case p of None \<Rightarrow> True | Some c \<Rightarrow> env_separator c)"

definition says_device :: "string list \<Rightarrow> char option \<times> string \<Rightarrow> bool" where
  "says_device devices place = (case place of (p, s) \<Rightarrow>
     (after_separator p \<and> list_ex (\<lambda>name. case eat_ci name s of Some r \<Rightarrow> device_word devices r | None \<Rightarrow> False)
                            [''tts_device='', ''device=''])
   \<or> (case eat_ci ''--device'' s of None \<Rightarrow> False
      | Some r \<Rightarrow> let q = (\<lambda>c. c = CHR ''='' \<or> is_ws c) in r \<noteq> [] \<and> q (hd r) \<and> device_word devices (dropWhile q r)))"

definition cvd_name :: string where
  "cvd_name = ''CUDA_VISIBLE_DEVICES''"

definition hides_cuda :: "char option \<times> string \<Rightarrow> bool" where
  "hides_cuda place = (case place of (p, s) \<Rightarrow>
     after_separator p \<and> prefix (cvd_name @ ''='') s
   \<and> (let r = drop (length cvd_name + 1) s; ends = (\<lambda>x. x = [] \<or> env_separator (hd x))
      in ends r \<or> ((prefix ''\"\"'' r \<or> prefix [CHR 39, CHR 39] r) \<and> ends (drop 2 r))))"

definition env_device_state :: "string \<Rightarrow> string \<Rightarrow> string" where
  "env_device_state env cmd =
     (let everything = env @ [CHR 10] @ cmd
      in if list_ex (says_device [''cpu'']) (spots None everything) \<or> list_ex hides_cuda (spots None env) then ''cpu''
         else if list_ex (says_device [''cuda'', ''gpu'']) (spots None everything) then ''gpu'' else ''auto'')"

definition env_rows :: "string \<Rightarrow> string list" where
  "env_rows env = filter (\<lambda>r. r \<noteq> []) (map js_trim (split_by (\<lambda>c. c = CHR 10 \<or> c = CHR '','') env))"

definition apply_device_to_env :: "string \<Rightarrow> string \<Rightarrow> string" where
  "apply_device_to_env env mode =
     (let rows = filter (\<lambda>r. eat_ci ''tts_device='' r = None \<and> eat_ci ''cuda_visible_devices='' r = None) (env_rows env)
      in js_join [CHR 10] (rows @ (if mode = ''cpu'' then [''TTS_DEVICE=cpu'', cvd_name @ ''=''] else [])
                                @ (if mode = ''gpu'' then [''TTS_DEVICE=cuda''] else [])))"

definition current_compute_mode :: "form_page \<Rightarrow> string" where
  "current_compute_mode f =
     (let runner = runner_of f; caps = runner_device_caps f runner
      in if uses_llama_config f runner then (if compute_is_cpu f then ''cpu'' else ''gpu'')
         else let st = env_device_state (js_text (fld f ''ENV'')) (js_text (fld f ''COMMAND''))
              in if caps_allow caps st then st else if cap_auto caps then ''auto'' else if cap_gpu caps then ''gpu'' else ''cpu'')"

definition apply_compute_mode :: "string \<Rightarrow> rat list \<Rightarrow> form_page \<Rightarrow> form_page" where
  "apply_compute_mode mode gpu_idx f =
     (if uses_llama_config f (runner_of f) then apply_compute_target mode gpu_idx f
      else pf_set ''CELL_DEVICE'' mode (pf_set ''ENV'' (apply_device_to_env (js_text (fld f ''ENV'')) mode) f))"

section \<open>The card of a one-card cell\<close>

definition strip_quotes :: "string \<Rightarrow> string" where
  "strip_quotes s = rev (dropWhile (\<lambda>c. c = CHR 34) (rev (dropWhile (\<lambda>c. c = CHR 34) s)))"

definition cvd_value :: "string \<Rightarrow> string option" where
  "cvd_value raw =
     (let key = takeWhile (\<lambda>c. c \<noteq> CHR ''='') raw
      in if CHR ''='' \<in> set raw \<and> key \<noteq> [] \<and> js_trim key = cvd_name then Some (js_trim (drop (length key + 1) raw)) else None)"

definition card_pin :: "js \<Rightarrow> string" where
  "card_pin env =
     (let pins = List.map_filter cvd_value (split_by (\<lambda>c. c = CHR 10 \<or> c = CHR '','') (js_text env));
          device = (if pins \<noteq> [] then strip_quotes (last pins) else ''0'')
      in if is_all_digits device then device else [])"

text \<open>A row that sets the variable, with white space before its sign or none.\<close>

definition pin_row :: "string \<Rightarrow> bool" where
  "pin_row r = (prefix cvd_name r \<and> (case trim_start (drop (length cvd_name) r) of c # s \<Rightarrow> c = CHR ''='' | [] \<Rightarrow> False))"

definition card_pin_write :: "js \<Rightarrow> rat \<Rightarrow> string" where
  "card_pin_write env index =
     (let rows = filter (\<lambda>r. (CHR ''='' \<in> set r \<or> prefix ''#'' r) \<and> \<not> pin_row r) (env_rows (js_text env))
      in js_join [CHR 10] (rows @ [cvd_name @ ''='' @ rat_str index]))"

section \<open>vLLM\<close>

record vllm_placement =
  vp_tp :: rat
  vp_util :: rat
  vp_cards :: "js list"
  vp_machine_cards :: nat
  vp_weights :: rat

definition vllm_margin_gb :: rat where
  "vllm_margin_gb = 1"

definition vllm_placement_of :: "form_page \<Rightarrow> vllm_placement" where
  "vllm_placement_of f =
     (let raw = js_trim (js_text (fld f ''TENSOR_PARALLEL''));
          tp = (if is_all_digits raw \<and> digits_val raw > 1 then digits_val raw else 1);
          util = (let u = num_of (fld f ''GPU_MEMORY_UTILIZATION'') in if u \<noteq> 0 then u else 9 / 10);
          gpus = js_sort (by_number gpu_index) (compute_target_gpus f);
          pin = card_pin (fld f ''ENV'')
      in \<lparr>vp_tp = of_nat tp, vp_util = util,
          vp_cards = (if tp > 1 then take tp gpus else filter (\<lambda>g. js_string (jget g ''index'') = pin) gpus),
          vp_machine_cards = length gpus, vp_weights = num_of (jget (fst (selected_model_rows f)) ''sizeGb'')\<rparr>)"

definition vp_per_card :: "vllm_placement \<Rightarrow> rat list" where
  "vp_per_card v =
     (let totals = map gpu_total_gb (vp_cards v)
      in map (\<lambda>gb. vp_util v * (if vp_tp v > 1 \<and> totals \<noteq> [] then Min (set totals) else gb)) totals)"

definition vp_total :: "vllm_placement \<Rightarrow> rat" where
  "vp_total v = sum_list (vp_per_card v)"

definition vp_indexes :: "vllm_placement \<Rightarrow> rat list" where
  "vp_indexes v = map gpu_index (vp_cards v)"

definition vp_weights_over :: "vllm_placement \<Rightarrow> bool" where
  "vp_weights_over v =
     (vp_weights v > 0 \<and> vp_cards v \<noteq> [] \<and> list_ex (\<lambda>budget. vp_weights v / vp_tp v > budget - vllm_margin_gb) (vp_per_card v))"

definition vp_note :: "dict \<Rightarrow> vllm_placement \<Rightarrow> string" where
  "vp_note t v =
     (if \<not> vp_weights_over v then []
      else t ''vllmWeightsOver'' [(''weights'', format_size_gb (JNum (vp_weights v))),
                                   (''budget'', format_size_gb (JNum (Min (set (vp_per_card v)))))])"

section \<open>A start that takes the free memory of its card\<close>

record free_start =
  fs_card :: js
  fs_floor :: rat
  fs_reserve :: rat
  fs_free :: rat

definition free_vram_start :: "js \<Rightarrow> js \<Rightarrow> js \<Rightarrow> js list \<Rightarrow> free_start option" where
  "free_vram_start plan env reserve gpus =
     (let device = card_pin env; raw = js_trim (js_text_nn reserve)
      in case (if device \<noteq> [] then find (\<lambda>g. js_string (jget g ''index'') = device) gpus else None) of
           None \<Rightarrow> None
         | Some g \<Rightarrow> if raw \<noteq> [] \<and> \<not> is_all_digits raw then None
             else Some \<lparr>fs_card = g, fs_floor = max 0 (num_of (jget plan ''floorMiB'')),
                        fs_reserve = (if raw \<noteq> [] then of_nat (digits_val raw) else 0), fs_free = gpu_free_mib g\<rparr>)"

definition fs_need :: "free_start \<Rightarrow> rat" where
  "fs_need s = fs_floor s + fs_reserve s"

definition fs_fits :: "free_start \<Rightarrow> bool" where
  "fs_fits s = (fs_free s \<ge> fs_need s)"

definition fs_add_gb :: "free_start \<Rightarrow> rat" where
  "fs_add_gb s = (if fs_fits s then fs_free s - fs_reserve s else fs_need s) / 1024"

section \<open>The bar of the estimate\<close>

definition whisper_model_gb :: "(string \<times> rat) list" where
  "whisper_model_gb = [(''tiny'', 75 / 1000), (''base'', 145 / 1000), (''small'', 48 / 100), (''medium'', 3 / 2), (''large-v3'', 3),
     (''large-v3-turbo'', 16 / 10), (''distil-large-v3'', 3 / 2)]"

definition moonshine_model_gb :: rat where
  "moonshine_model_gb = 1 / 4"

definition compute_fit_runtime_gb :: "form_page \<Rightarrow> rat" where
  "compute_fit_runtime_gb f =
     (let runner = runner_of f; fixed = runner_fixed_vram_gb f runner
      in if fixed > 0 then fixed
         else if uses_llama_config f runner then est_runtime (estimate_runtime_memory_gb f)
         else if runner = ''vllm'' then vp_total (vllm_placement_of f)
         else if runner = ''whisper''
           then (case map_of whisper_model_gb (js_trim (js_text (js_or (fld f ''WHISPER_MODEL'') (JStr ''large-v3'')))) of Some gb \<Rightarrow> gb | None \<Rightarrow> 0)
         else if runner = ''moonshine'' then moonshine_model_gb
         else if runner = ''transcribe'' then num_of (jget (fst (selected_model_rows f)) ''sizeGb'') else 0)"

record aside_bar =
  ab_gb :: rat
  ab_empty_ok :: bool
  ab_hard :: bool
  ab_cards :: "rat list option"
  ab_note :: string
  ab_plan :: "ram_plan option"

definition plain_bar :: "rat \<Rightarrow> bool \<Rightarrow> aside_bar" where
  "plain_bar gb empty_ok = \<lparr>ab_gb = gb, ab_empty_ok = empty_ok, ab_hard = False, ab_cards = None, ab_note = [], ab_plan = None\<rparr>"

definition fs_bar :: "dict \<Rightarrow> free_start \<Rightarrow> ram_plan option \<Rightarrow> aside_bar" where
  "fs_bar t s plan = \<lparr>ab_gb = fs_add_gb s, ab_empty_ok = True, ab_hard = True, ab_cards = Some [gpu_index (fs_card s)],
     ab_note = t ''vramTakesFree'' [(''gb'', format_size_gb (JNum (fs_need s / 1024)))], ab_plan = plan\<rparr>"

text \<open>Which bar is drawn; \<open>None\<close> leaves the one on the page. \<open>asked\<close> is what the form's RAM plan answers.\<close>

definition refresh_aside_panels :: "dict \<Rightarrow> ram_plan option \<Rightarrow> rat option \<Rightarrow> form_page \<Rightarrow> aside_bar option" where
  "refresh_aside_panels t asked llama_gb f =
     (let runner = runner_of f
      in if uses_llama_config f runner
         then (if \<not> js_truthy (fst (selected_model_rows f)) then Some (plain_bar 0 False)
               else map_option (\<lambda>gb. plain_bar gb False) llama_gb)
         else if runner = ''vllm''
         then (let place = vllm_placement_of f
               in Some \<lparr>ab_gb = vp_total place, ab_empty_ok = True, ab_hard = True, ab_cards = Some (vp_indexes place),
                        ab_note = vp_note t place, ab_plan = None\<rparr>)
         else let row = runner_row f runner; plan = jget row ''vramPlan'';
                  ram_plan = (if js_truthy (jget row ''keepsRam'') then asked else None);
                  start = (if js_truthy (jget plan ''takesFree'')
                           then free_vram_start plan (fld f ''ENV'') (fld f (js_string (jget plan ''reserveField''))) (compute_target_gpus f)
                           else None)
              in case start of
                   Some s \<Rightarrow> Some (fs_bar t s ram_plan)
                 | None \<Rightarrow>
                     let g = (if js_truthy (jget row ''oneCard'')
                              then find (\<lambda>g. js_string (jget g ''index'') = card_pin (fld f ''ENV'')) (compute_target_gpus f) else None);
                         gb = compute_fit_runtime_gb f
                     in Some (case g of
                          Some c \<Rightarrow> (plain_bar gb True)\<lparr>ab_hard := True, ab_cards := Some [gpu_index c], ab_plan := ram_plan\<rparr>
                        | None \<Rightarrow> (plain_bar gb True)\<lparr>ab_plan := ram_plan\<rparr>))"

text \<open>One pool of the bar: what is in use, the cell's own part of it, what the start adds, and whether it fits.\<close>

record aside_pool =
  pool_total :: rat
  pool_free :: rat
  pool_used :: rat
  pool_mine :: rat
  pool_add :: rat
  pool_others_pct :: rat
  pool_mine_pct :: rat
  pool_add_pct :: rat
  pool_overflow :: bool
  pool_kind :: string
  pool_note :: string
  pool_plan :: string

definition aside_pool_of :: "rat \<Rightarrow> rat \<Rightarrow> rat \<Rightarrow> rat \<Rightarrow> string \<Rightarrow> bool \<Rightarrow> string \<Rightarrow> rat \<Rightarrow> aside_pool option" where
  "aside_pool_of total_gb free add own note exact plan headroom =
     (if total_gb = 0 then None
      else let used = max 0 (total_gb - free); mine = min own used;
               others_pct = min 100 ((used - mine) / total_gb * 100);
               mine_pct = min (100 - others_pct) (mine / total_gb * 100);
               overflow = (add > free - headroom + (if exact then 0 else 1))
           in Some \<lparr>pool_total = total_gb, pool_free = free, pool_used = used, pool_mine = mine, pool_add = add,
                pool_others_pct = others_pct, pool_mine_pct = mine_pct,
                pool_add_pct = min (100 - others_pct - mine_pct) (add / total_gb * 100),
                pool_overflow = overflow,
                pool_kind = (if overflow then ''bad'' else if free - headroom - add < 1 then ''warn'' else ''good''),
                pool_note = note, pool_plan = plan\<rparr>)"

datatype aside_view = AsideAsk \<comment> \<open>"select a model for the estimate"\<close> | AsidePools "aside_pool option" "aside_pool option"

definition render_aside_vram_bar :: "dict \<Rightarrow> form_page \<Rightarrow> aside_bar \<Rightarrow> aside_view" where
  "render_aside_vram_bar t f bar =
     (if ab_gb bar = 0 \<and> \<not> ab_empty_ok bar then AsideAsk
      else let on_cpu = (current_compute_mode f = ''cpu'');
               ram = jget (pf_cpu f) ''ram''; memory = jget (pf_state f) ''memory'';
               ram_total = (if pf_remote f then num_of (jget ram ''totalGb'') else num_of (jget memory ''totalMiB'') / 1024);
               ram_free = (if pf_remote f then max 0 (ram_total - num_of (jget ram ''usedGb'')) else num_of (jget memory ''availableMiB'') / 1024);
               sel = (case ab_cards bar of Some ix \<Rightarrow> ix | None \<Rightarrow> compute_selected_idx f);
               gs = (if sel \<noteq> [] then filter (\<lambda>g. gpu_index g \<in> set sel) (compute_target_gpus f) else compute_target_gpus f);
               card_note = (if length gs = 1 then short_gpu_name (jget (hd gs) ''name'')
                            else if length gs > 1 then nat_str (length gs) @ '' GPUs'' else []);
               live = held_live (cell_holds f); own_vram = held_gb (cell_holds f);
               promised = (if \<not> on_cpu \<and> \<not> live then ab_plan bar else None)
           in AsidePools
                (aside_pool_of ram_total ram_free
                   (if on_cpu \<and> \<not> live then ab_gb bar else case promised of Some p \<Rightarrow> rp_reserve p / 1024 | None \<Rightarrow> 0)
                   (if on_cpu \<and> live then ab_gb bar else 0) [] (promised \<noteq> None)
                   (case promised of None \<Rightarrow> [] | Some p \<Rightarrow>
                      t ''ramKeepsResident'' [(''gb'', format_size_gb (JNum (rp_reserve p / 1024))),
                                              (''room'', format_size_gb (JNum (rp_headroom p / 1024)))])
                   (case promised of None \<Rightarrow> 0 | Some p \<Rightarrow> rp_headroom p / 1024))
                (aside_pool_of (sum_list (map gpu_total_gb gs)) (sum_list (map (\<lambda>g. gpu_free_mib g / 1024) gs))
                   (if \<not> on_cpu \<and> \<not> live then ab_gb bar else 0) own_vram card_note (ab_hard bar) (ab_note bar) 0))"

section \<open>The panel of the layers\<close>

definition plan_gb :: "rat \<Rightarrow> string" where
  "plan_gb value = (if value > 5 / 100 then format_size_gb (JNum value) else ''0 GB'')"

definition plan_readout :: "dict \<Rightarrow> offload \<Rightarrow> string" where
  "plan_readout t split =
     (if length (off_cards split) > 1
      then t ''offloadSplitMulti'' [(''n'', rat_str (off_layers_gpu split)), (''total'', rat_str (off_layers split)),
             (''cards'', js_join '' + '' (map (\<lambda>g. ''GPU'' @ rat_str (cshare_index g) @ '' '' @ plan_gb (cshare_gb g)) (off_cards split))),
             (''ram'', plan_gb (off_ram split))]
      else t ''offloadSplitValue'' [(''n'', rat_str (off_layers_gpu split)), (''total'', rat_str (off_layers split)),
             (''vram'', plan_gb (off_vram split)), (''ram'', plan_gb (off_ram split))])"

record plan_tile =
  ptile_id :: string
  ptile_active :: bool
  ptile_title :: string
  ptile_main :: string
  ptile_sub :: string
  ptile_warn :: bool

text \<open>The bar's segments are the percents of what the model takes, one for each card, then RAM.\<close>

record plan_panel =
  plan_mode :: string
  plan_tiles :: "plan_tile list"
  plan_slider :: "(rat \<times> rat) option" \<comment> \<open>its greatest value, from 1, and the value it shows\<close>
  plan_vram_pct :: "rat list"
  plan_ram_pct :: rat
  plan_short :: bool
  plan_line :: string

definition form_layers_text :: "form_page \<Rightarrow> string" where
  "form_layers_text f = (let w = js_trim (js_text_nn (fld f ''N_GPU_LAYERS'')) in js_lower (if w = [] then ''auto'' else w))"

definition plan_total :: "offload \<Rightarrow> rat" where
  "plan_total split = max (1 / 1000) (off_vram split + off_ram split)"

definition plan_percents :: "offload \<Rightarrow> rat list \<times> rat" where
  "plan_percents split =
     ((if length (off_cards split) > 1 then map (\<lambda>g. 100 * cshare_gb g / plan_total split) (off_cards split)
       else [100 * off_vram split / plan_total split]),
      100 * off_ram split / plan_total split)"

definition plan_line_of :: "dict \<Rightarrow> form_page \<Rightarrow> offload \<Rightarrow> bool \<times> string" where
  "plan_line_of t f split =
     (let lacks = off_ram split - compute_target_ram_gb f
      in (lacks > 0, plan_readout t split
            @ (if lacks > 0 then '' '' @ dash @ '' '' @ t ''planRamShort'' [(''n'', format_size_gb (JNum lacks))] else [])))"

definition plan_mode_of :: "string \<Rightarrow> rat \<Rightarrow> string" where
  "plan_mode_of raw layers =
     (if raw = ''all'' \<or> (is_all_digits raw \<and> of_nat (digits_val raw) \<ge> layers) then ''all''
      else if is_all_digits raw then ''manual'' else ''auto'')"

definition refresh_offload_plan :: "dict \<Rightarrow> form_page \<Rightarrow> plan_panel option" where
  "refresh_offload_plan t f =
     (let split = offload_split f; fits = (if off_known split then off_layers_gpu split \<ge> off_layers split else True);
          raw = form_layers_text f; forced = (raw = ''all'' \<or> is_all_digits raw)
      in if \<not> uses_llama_config f (runner_of f) \<or> compute_is_cpu f \<or> \<not> off_known split \<or> (fits \<and> \<not> forced) then None
         else let mode = plan_mode_of raw (off_layers split); total_s = rat_str (off_layers split);
                  (vram_pct, ram_pct) = plan_percents split; (lacks, line) = plan_line_of t f split
              in Some \<lparr>plan_mode = mode,
                   plan_tiles =
                     [\<lparr>ptile_id = ''auto'', ptile_active = (mode = ''auto''), ptile_title = t ''planAuto'' [],
                       ptile_main = t ''offloadSplitShort'' [(''n'', rat_str (off_auto split)), (''total'', total_s)],
                       ptile_sub = t ''planAutoSub'' [], ptile_warn = False\<rparr>,
                      \<lparr>ptile_id = ''all'', ptile_active = (mode = ''all''), ptile_title = t ''planAll'' [],
                       ptile_main = total_s @ ''/'' @ total_s, ptile_sub = t ''planAllSub'' [], ptile_warn = True\<rparr>,
                      \<lparr>ptile_id = ''manual'', ptile_active = (mode = ''manual''), ptile_title = t ''planManual'' [],
                       ptile_main = (if mode = ''manual'' then rat_str (off_layers_gpu split) @ ''/'' @ total_s else dash),
                       ptile_sub = t ''planManualSub'' [], ptile_warn = False\<rparr>],
                   plan_slider = (if mode = ''manual'' then Some (off_layers split, max 1 (off_layers_gpu split)) else None),
                   plan_vram_pct = vram_pct, plan_ram_pct = ram_pct, plan_short = lacks, plan_line = line\<rparr>)"

text \<open>A tile of the panel, and the slider at a value; both write the layers' field. (A slider at rest draws the panel anew.)\<close>

definition plan_pick :: "string \<Rightarrow> form_page \<Rightarrow> form_page" where
  "plan_pick kind f = pf_set ''N_GPU_LAYERS'' (if kind = ''auto'' then ''auto'' else if kind = ''all'' then ''all''
     else rat_str (max 1 (off_auto (offload_split f)))) f"

definition plan_slide :: "rat \<Rightarrow> form_page \<Rightarrow> form_page" where
  "plan_slide v f = pf_set ''N_GPU_LAYERS'' (rat_str v) f"

text \<open>What a drag of the slider repaints without drawing the panel: the segments, the sign and the line.\<close>

definition plan_drag_paint :: "dict \<Rightarrow> plan_panel \<Rightarrow> rat \<Rightarrow> form_page \<Rightarrow> plan_panel" where
  "plan_drag_paint t panel v f =
     (let split = offload_split (plan_slide v f); (lacks, line) = plan_line_of t f split; n = length (plan_vram_pct panel);
          (vram_pct, ram_pct) = plan_percents split
      in panel\<lparr>plan_vram_pct := (if n > 1 \<and> length (off_cards split) = n then vram_pct
                                  else 100 * off_vram split / plan_total split # tl (plan_vram_pct panel)),
               plan_ram_pct := ram_pct, plan_short := lacks, plan_line := line\<rparr>)"

section \<open>The tiles and the chips\<close>

record device_tile =
  dtile_id :: string
  dtile_active :: bool
  dtile_disabled :: bool
  dtile_main :: string
  dtile_sub :: string

record gpu_chip =
  gchip_index :: rat
  gchip_on :: bool
  gchip_spec :: string

datatype sub_picker = NoPicker | GpuChips "gpu_chip list" bool \<comment> \<open>and whether "all" is on\<close>
  | GpuList string "gpu_chip list" bool \<comment> \<open>five cards or more: the summary of the closed list\<close>
  | PinChips "gpu_chip list"

record target_view =
  tv_tiles :: "device_tile list"
  tv_picker :: sub_picker
  tv_split :: string
  tv_plan :: "plan_panel option"

definition gpu_names :: "rat list \<Rightarrow> string" where
  "gpu_names idx = js_join '' + '' (map (\<lambda>i. ''GPU'' @ rat_str i) idx)"

definition chip_spec :: "js \<Rightarrow> string" where
  "chip_spec g = short_gpu_name (jget g ''name'')
     @ (if gpu_total_gb g \<noteq> 0 then middot @ to_fixed 1 (gpu_total_gb g) @ '' GB'' else [])"

definition one_card_pick :: "form_page \<Rightarrow> bool" where
  "one_card_pick f = (\<not> uses_llama_config f (runner_of f) \<and> length (compute_target_gpus f) > 1
     \<and> js_truthy (jget (runner_row f (runner_of f)) ''oneCard''))"

definition pinned_card :: "form_page \<Rightarrow> string" where
  "pinned_card f = (if one_card_pick f then card_pin (fld f ''ENV'') else [])"

definition shown_selection :: "form_page \<Rightarrow> rat list" where
  "shown_selection f =
     (if current_compute_mode f = ''gpu''
      then js_sort (by_number (\<lambda>x. x))
             (if uses_llama_config f (runner_of f) \<and> \<not> compute_is_cpu f then js_uniq (compute_selected_idx f) else [])
      else map gpu_index (compute_target_gpus f))"

definition gpu_tile :: "dict \<Rightarrow> form_page \<Rightarrow> device_tile" where
  "gpu_tile t f =
     (let runner = runner_of f; caps = runner_device_caps f runner; mode = current_compute_mode f; gpus = compute_target_gpus f;
          shown = shown_selection f; na = t ''computeUnavailable'' []; taken = vp_cards (vllm_placement_of f);
          gb = (\<lambda>gs. to_fixed 1 (sum_list (map gpu_total_gb gs)) @ '' GB'');
          tile = (\<lambda>main sub. \<lparr>dtile_id = ''gpu'', dtile_active = (mode = ''gpu'' \<and> cap_gpu caps), dtile_disabled = (\<not> cap_gpu caps),
                                dtile_main = main, dtile_sub = sub\<rparr>)
      in if uses_llama_config f runner \<and> length gpus > 1
         then tile (nat_str (length shown) @ ''/'' @ nat_str (length gpus) @ middot @ gb (filter (\<lambda>g. gpu_index g \<in> set shown) gpus))
                   (if length shown = length gpus then t ''computeGpuAll'' [] else gpu_names shown)
         else if runner = ''vllm'' \<and> length gpus > 1 \<and> taken \<noteq> []
         then tile (nat_str (length taken) @ ''/'' @ nat_str (length gpus) @ middot @ gb taken)
                   (if \<not> cap_gpu caps then na else if length taken = length gpus then t ''computeGpuAll'' [] else gpu_names (map gpu_index taken))
         else let pinned = (if one_card_pick f then find (\<lambda>g. js_string (jget g ''index'') = pinned_card f) gpus else None);
                  g0 = (case pinned of Some g \<Rightarrow> Some g | None \<Rightarrow> (if gpus = [] then None else Some (hd gpus)));
                  vram = (case g0 of Some g \<Rightarrow> gpu_total_gb g | None \<Rightarrow> 0)
              in tile (case g0 of Some g \<Rightarrow> short_gpu_name (jget g ''name'') | None \<Rightarrow> ''GPU'')
                   (if \<not> cap_gpu caps then na else if vram \<noteq> 0 then format_size_gb (JNum vram) @ '' VRAM'' else t ''computeGpuSub'' []))"

definition sub_picker_of :: "dict \<Rightarrow> form_page \<Rightarrow> sub_picker" where
  "sub_picker_of t f =
     (let gpus = compute_target_gpus f; shown = shown_selection f; sel = compute_selected_idx f; everyone = (length shown = length gpus)
      in if current_compute_mode f \<noteq> ''gpu'' then NoPicker
         else if one_card_pick f
         then PinChips (map (\<lambda>g. \<lparr>gchip_index = gpu_index g, gchip_on = (rat_str (gpu_index g) = pinned_card f), gchip_spec = chip_spec g\<rparr>) gpus)
         else if uses_llama_config f (runner_of f) \<and> length gpus > 1
         then let chips = map (\<lambda>g. \<lparr>gchip_index = gpu_index g, gchip_on = (gpu_index g \<in> set sel), gchip_spec = chip_spec g\<rparr>) gpus
              in (if length gpus \<ge> 5 then GpuList (if everyone then t ''computeGpuAll'' [] else gpu_names shown) chips everyone
                  else GpuChips chips everyone)
         else NoPicker)"

definition refresh_compute_target :: "dict \<Rightarrow> form_page \<Rightarrow> target_view" where
  "refresh_compute_target t f =
     (let runner = runner_of f; caps = runner_device_caps f runner; mode = current_compute_mode f; na = t ''computeUnavailable'' [];
          ram = compute_target_ram_gb f
      in \<lparr>tv_tiles =
            [\<lparr>dtile_id = ''cpu'', dtile_active = (mode = ''cpu'' \<and> cap_cpu caps), dtile_disabled = (\<not> cap_cpu caps),
              dtile_main = rat_str (compute_target_cores f) @ '' '' @ t ''computeCores'' []
                @ (if ram \<noteq> 0 then middot @ to_fixed 0 ram @ '' GB'' else []),
              dtile_sub = (if cap_cpu caps then t ''computeCpuSub'' [] else na)\<rparr>,
             gpu_tile t f,
             \<lparr>dtile_id = ''auto'', dtile_active = (mode = ''auto'' \<and> cap_auto caps), dtile_disabled = (\<not> cap_auto caps),
              dtile_main = t ''computeAutoMain'' [], dtile_sub = (if cap_auto caps then t ''computeAutoSub'' [] else na)\<rparr>],
          tv_picker = sub_picker_of t f,
          tv_split = (if uses_llama_config f runner \<and> length (compute_target_gpus f) > 1 \<and> mode = ''gpu'' \<and> length (shown_selection f) > 1
                      then sm_html t ''cell-remote-split'' (sm_of (fld f ''SPLIT_MODE'')) else []),
          tv_plan = refresh_offload_plan t f\<rparr>)"

section \<open>What the tiles and the chips do\<close>

text \<open>The tile of the GPU does nothing while the GPU is the device; a disabled tile has no listener.\<close>

definition tile_click :: "string \<Rightarrow> form_page \<Rightarrow> form_page" where
  "tile_click kind f =
     (if \<not> caps_allow (runner_device_caps f (runner_of f)) kind \<or> (kind = ''gpu'' \<and> current_compute_mode f = ''gpu'') then f
      else apply_compute_mode kind [] f)"

definition chip_flip :: "rat \<Rightarrow> rat list \<Rightarrow> rat list" where
  "chip_flip gi cur = (let c = (if gi \<in> set cur then set_del gi cur else set_add gi cur) in if c = [] then [gi] else c)"

definition chip_click :: "rat \<Rightarrow> form_page \<Rightarrow> form_page" where
  "chip_click gi f = apply_compute_mode ''gpu'' (chip_flip gi (if compute_is_cpu f then [] else js_uniq (compute_selected_idx f))) f"

definition all_chip_click :: "form_page \<Rightarrow> form_page" where
  "all_chip_click f = apply_compute_mode ''gpu'' [] f"

definition pin_click :: "rat \<Rightarrow> form_page \<Rightarrow> form_page" where
  "pin_click i f = pf_set ''ENV'' (card_pin_write (fld f ''ENV'') i) f"

definition split_click :: "string \<Rightarrow> form_page \<Rightarrow> form_page" where
  "split_click word f =
     (let before = sm_of (fld f ''SPLIT_MODE''); after = sm_of (JStr word); f1 = pf_set ''SPLIT_MODE'' after f;
          cards = JArr (js_sort (by_number gpu_index) (compute_selected_gpus f1))
      in if js_trim (js_text (fld f1 ''TENSOR_SPLIT'')) \<in> {[], sm_suggested_split before cards}
         then pf_set ''TENSOR_SPLIT'' (sm_suggested_split after cards) f1 else f1)"

section \<open>The modes and the pins\<close>

lemma mode_of_caps:
  "cap_cpu c \<or> cap_gpu c \<Longrightarrow>
   caps_allow c (if caps_allow c st then st else if cap_auto c then ''auto'' else if cap_gpu c then ''gpu'' else ''cpu'')"
  by (auto simp: caps_allow_def)

text \<open>
  The device the form shows is one the runner has, whatever the cell's ENV and command say. (A native GGUF runner
  shows the layers' field, and has both devices.)
\<close>

theorem dt_mode_is_one_the_runner_has:
  assumes "uses_llama_config f (runner_of f) \<Longrightarrow> \<not> js_truthy (jget (runner_row f (runner_of f)) ''gpuOnly'')
      \<and> runner_of f \<notin> {''vllm'', ''whisper'', ''moonshine''}"
  shows "caps_allow (runner_device_caps f (runner_of f)) (current_compute_mode f)"
proof -
  let ?caps = "runner_device_caps f (runner_of f)"
  have some: "cap_cpu ?caps \<or> cap_gpu ?caps"
    by (simp add: runner_device_caps_def)
  have both: "uses_llama_config f (runner_of f) \<Longrightarrow> cap_cpu ?caps \<and> cap_gpu ?caps"
    using assms by (simp add: runner_device_caps_def)
  show ?thesis
  proof (cases "uses_llama_config f (runner_of f)")
    case True
    then show ?thesis using both by (simp add: current_compute_mode_def Let_def caps_allow_def)
  next
    case False
    show ?thesis
      unfolding current_compute_mode_def Let_def if_not_P [OF False] by (rule mode_of_caps [OF some])
  qed
qed

lemma spots_at: "(if a = [] then p else Some (last a), s) \<in> set (spots p (a @ s))"
proof (induction a arbitrary: p)
  case Nil
  show ?case by (cases s) simp_all
next
  case (Cons c a)
  show ?case using Cons [of "Some c"] by (cases a) auto
qed

lemma join_snoc_snoc:
  "\<exists>a. js_join [nl] (rows @ [x, y]) = a @ x @ [nl] @ y \<and> (a = [] \<or> last a = nl)"
proof (induction rows)
  case Nil
  show ?case by simp
next
  case (Cons r rows)
  then obtain a where a: "js_join [nl] (rows @ [x, y]) = a @ x @ [nl] @ y" "a = [] \<or> last a = nl" by blast
  have "js_join [nl] ((r # rows) @ [x, y]) = (r @ [nl] @ a) @ x @ [nl] @ y"
    using a(1) by (cases "rows @ [x, y]") auto
  moreover have "last (r @ [nl] @ a) = nl" using a(2) by (auto simp: last_append)
  ultimately show ?case by blast
qed

lemma eat_ci_append: "js_lower w' = w \<Longrightarrow> eat_ci w (w' @ s) = Some s"
proof -
  assume "js_lower w' = w"
  moreover from this have "length w = length w'" by (auto simp: js_lower_def)
  ultimately show ?thesis by (simp add: eat_ci_def)
qed

lemma device_word_append: "js_lower d \<in> set devices \<Longrightarrow> word_ends r \<Longrightarrow> device_word devices (d @ r)"
  unfolding device_word_def list_ex_iff by (rule bexI [of _ "js_lower d"]) (simp_all add: eat_ci_append)

lemma says_device_variable:
  assumes "after_separator p" "js_lower name \<in> {''tts_device='', ''device=''}" "js_lower d \<in> set devices" "word_ends r"
  shows "says_device devices (p, name @ d @ r)"
proof -
  have "list_ex (\<lambda>n. case eat_ci n (name @ d @ r) of Some r \<Rightarrow> device_word devices r | None \<Rightarrow> False) [''tts_device='', ''device='']"
    unfolding list_ex_iff using assms(2) device_word_append [OF assms(3,4)]
    by (intro bexI [of _ "js_lower name"]) (simp_all add: eat_ci_append)
  then show ?thesis using assms(1) by (auto simp: says_device_def)
qed

lemma env_words: "js_lower ''TTS_DEVICE='' = ''tts_device=''" "js_lower ''DEVICE='' = ''device=''" "js_lower ''cpu'' = ''cpu''"
  by code_simp+

text \<open>Picking the CPU sticks: whatever ENV and command held, the ENV it writes reads back as the CPU.\<close>

theorem dt_cpu_pick_sticks: "env_device_state (apply_device_to_env env ''cpu'') cmd = ''cpu''"
proof -
  define rows where "rows = filter (\<lambda>r. eat_ci ''tts_device='' r = None \<and> eat_ci ''cuda_visible_devices='' r = None) (env_rows env)"
  define env' where "env' = apply_device_to_env env ''cpu''"
  have join: "env' = js_join [CHR 10] (rows @ [''TTS_DEVICE=cpu'', cvd_name @ ''=''])"
    by (simp add: env'_def apply_device_to_env_def rows_def)
  obtain a where e: "env' = a @ ''TTS_DEVICE=cpu'' @ [CHR 10] @ cvd_name @ ''=''" and a: "a = [] \<or> last a = CHR 10"
    using join_snoc_snoc [of "CHR 10" rows "''TTS_DEVICE=cpu''" "cvd_name @ ''=''"] join by metis
  define p where "p = (if a = [] then None else Some (last a))"
  let ?rest = "[CHR 10] @ cvd_name @ ''='' @ [CHR 10] @ cmd"
  have "(p, ''TTS_DEVICE='' @ ''cpu'' @ ?rest) \<in> set (spots None (env' @ [CHR 10] @ cmd))"
    using spots_at [of a None "''TTS_DEVICE='' @ ''cpu'' @ ?rest"] by (simp add: e p_def)
  moreover have "after_separator p"
    using a by (auto simp: p_def after_separator_def env_separator_def is_ws_def)
  moreover have "word_ends ?rest"
    by (simp add: word_ends_def wordish_def lower_char_def is_digit_def)
  ultimately have "list_ex (says_device [''cpu'']) (spots None (env' @ [CHR 10] @ cmd))"
    unfolding list_ex_iff using says_device_variable [of p "''TTS_DEVICE=''" "''cpu''" "[''cpu'']" ?rest]
    by (intro bexI [of _ "(p, ''TTS_DEVICE='' @ ''cpu'' @ ?rest)"]) (simp_all add: env_words)
  then show ?thesis unfolding env'_def by (simp add: env_device_state_def Let_def)
qed

text \<open>The GPU's pick does not: a row \<open>DEVICE=cpu\<close> is read as the CPU and is not among the rows the pick takes away.\<close>

theorem dt_gpu_pick_keeps_a_device_row: "env_device_state (apply_device_to_env ''DEVICE=cpu'' ''gpu'') cmd = ''cpu''"
proof -
  have env: "apply_device_to_env ''DEVICE=cpu'' ''gpu'' = ''DEVICE=cpu'' @ [CHR 10] @ ''TTS_DEVICE=cuda''"
    by code_simp
  have "(None, ''DEVICE=cpu'' @ [CHR 10] @ ''TTS_DEVICE=cuda'' @ [CHR 10] @ cmd)
      \<in> set (spots None ((''DEVICE=cpu'' @ [CHR 10] @ ''TTS_DEVICE=cuda'') @ [CHR 10] @ cmd))"
    by simp
  moreover have "says_device [''cpu''] (None, ''DEVICE=cpu'' @ [CHR 10] @ ''TTS_DEVICE=cuda'' @ [CHR 10] @ cmd)"
    using says_device_variable [of None "''DEVICE=''" "''cpu''" "[''cpu'']" "[CHR 10] @ ''TTS_DEVICE=cuda'' @ [CHR 10] @ cmd"]
    by (simp add: env_words after_separator_def word_ends_def wordish_def lower_char_def is_digit_def)
  ultimately have "list_ex (says_device [''cpu'']) (spots None ((''DEVICE=cpu'' @ [CHR 10] @ ''TTS_DEVICE=cuda'') @ [CHR 10] @ cmd))"
    unfolding list_ex_iff by blast
  then show ?thesis unfolding env by (simp only: env_device_state_def Let_def simp_thms if_True)
qed

section \<open>The bar and the start agree\<close>

lemma aside_pool_some: "total_gb \<noteq> 0 \<Longrightarrow> \<exists>v. aside_pool_of total_gb free add own note exact plan headroom = Some v"
  by (simp add: aside_pool_of_def Let_def)

lemma aside_pool_fields:
  assumes "aside_pool_of total_gb free add own note exact plan headroom = Some v"
  shows "pool_overflow v = (add > free - headroom + (if exact then 0 else 1))" "pool_add v = add"
    "pool_others_pct v = min 100 ((max 0 (total_gb - free) - min own (max 0 (total_gb - free))) / total_gb * 100)"
    "pool_mine_pct v = min (100 - pool_others_pct v) (min own (max 0 (total_gb - free)) / total_gb * 100)"
    "pool_add_pct v = min (100 - pool_others_pct v - pool_mine_pct v) (add / total_gb * 100)"
proof -
  have "total_gb \<noteq> 0" using assms by (auto simp: aside_pool_of_def)
  note eq = assms [unfolded aside_pool_of_def Let_def if_not_P [OF this] option.inject, symmetric]
  show "pool_overflow v = (add > free - headroom + (if exact then 0 else 1))" "pool_add v = add"
    "pool_others_pct v = min 100 ((max 0 (total_gb - free) - min own (max 0 (total_gb - free))) / total_gb * 100)"
    "pool_mine_pct v = min (100 - pool_others_pct v) (min own (max 0 (total_gb - free)) / total_gb * 100)"
    "pool_add_pct v = min (100 - pool_others_pct v - pool_mine_pct v) (add / total_gb * 100)"
    unfolding eq by (simp_all only: aside_pool.simps)
qed

lemma filter_by_index: "distinct (map k xs) \<Longrightarrow> x \<in> set xs \<Longrightarrow> filter (\<lambda>y. k y = k x) xs = [x]"
  by (induction xs) (auto simp: filter_empty_conv image_iff)

lemma free_vram_start_card:
  "free_vram_start plan env reserve gpus = Some s \<Longrightarrow> fs_card s \<in> set gpus \<and> fs_free s = gpu_free_mib (fs_card s) \<and> 0 \<le> fs_floor s \<and> 0 \<le> fs_reserve s"
  by (auto simp: free_vram_start_def Let_def find_Some_iff split: if_splits option.splits)

text \<open>
  A start that takes its card's free memory: the bar says it does not fit exactly where the scout refuses it, and
  where it fits it takes all but the reserve, its floor at least.
\<close>

theorem dt_bar_says_what_the_scout_does:
  assumes "free_vram_start plan env reserve (compute_target_gpus f) = Some s" "distinct (map gpu_index (compute_target_gpus f))"
    "current_compute_mode f \<noteq> ''cpu''" "\<not> held_live (cell_holds f)"
    "render_aside_vram_bar t f (fs_bar t s p) = AsidePools r (Some v)"
  shows "pool_overflow v = (fs_free s < fs_need s)
       \<and> (fs_fits s \<longrightarrow> 1024 * pool_add v + fs_reserve s = fs_free s \<and> fs_floor s \<le> 1024 * pool_add v)"
proof -
  note s = free_vram_start_card [OF assms(1)]
  have one: "filter (\<lambda>g. gpu_index g \<in> set [gpu_index (fs_card s)]) (compute_target_gpus f) = [fs_card s]"
    using filter_by_index [OF assms(2), of "fs_card s"] s by simp
  have "aside_pool_of (gpu_total_gb (fs_card s)) (fs_free s / 1024) (fs_add_gb s) (held_gb (cell_holds f))
      (short_gpu_name (jget (fs_card s) ''name'')) True (ab_note (fs_bar t s p)) 0 = Some v"
    using assms(3,4,5) one s by (simp add: render_aside_vram_bar_def Let_def fs_bar_def)
  then have v: "pool_overflow v = (fs_add_gb s > fs_free s / 1024)" "pool_add v = fs_add_gb s"
    by (simp_all add: aside_pool_fields)
  show ?thesis
    using s by (cases "fs_need s \<le> fs_free s") (simp_all add: v fs_add_gb_def fs_fits_def fs_need_def field_simps)
qed

text \<open>The parts of a pool's bar never pass its end, and none is below 0.\<close>

theorem dt_bar_stays_in_its_track:
  assumes "aside_pool_of total_gb free add own note exact plan headroom = Some v" "0 < total_gb" "0 \<le> add" "0 \<le> own"
  shows "0 \<le> pool_others_pct v \<and> 0 \<le> pool_mine_pct v \<and> 0 \<le> pool_add_pct v
       \<and> pool_others_pct v + pool_mine_pct v + pool_add_pct v \<le> 100"
proof -
  define used where "used = max 0 (total_gb - free)"
  define mine where "mine = min own used"
  define others where "others = min 100 ((used - mine) / total_gb * 100)"
  define mine_pct where "mine_pct = min (100 - others) (mine / total_gb * 100)"
  have v: "pool_others_pct v = others" "pool_mine_pct v = mine_pct"
    "pool_add_pct v = min (100 - others - mine_pct) (add / total_gb * 100)"
    by (simp_all only: aside_pool_fields [OF assms(1)] used_def mine_def others_def mine_pct_def)
  have "0 \<le> mine" "mine \<le> used" using assms(4) by (auto simp: mine_def used_def)
  then have "0 \<le> others" "others \<le> 100" "0 \<le> mine / total_gb * 100"
    using assms(2) by (auto simp: others_def)
  then have "0 \<le> mine_pct" "mine_pct \<le> 100 - others" by (auto simp: mine_pct_def)
  moreover have "0 \<le> add / total_gb * 100" using assms(2,3) by simp
  ultimately show ?thesis using \<open>0 \<le> others\<close> by (auto simp: v)
qed

section \<open>The layers' panel stays on the card\<close>

lemma off_known_iff:
  "off_known (offload_split f) = (0 < num_of (jget (jget (fst (selected_model_rows f)) ''ggufMeta'') ''blockCount''))"
  "off_layers (offload_split f) = num_of (jget (jget (fst (selected_model_rows f)) ''ggufMeta'') ''blockCount'')"
  by (simp_all add: offload_split_def Let_def)

lemma fld_pf_set: "fld (pf_set k v f) k' = (if k = k' \<and> pf_value f k \<noteq> None then JStr v else fld f k')"
  by (simp add: fld_def pf_set_def)

lemma cfg_pf_set [simp]: "cfg (pf_set k v f) k' = cfg f k'"
  by (simp add: cfg_def)

lemma layers_field_only:
  "selected_model_rows (pf_set ''N_GPU_LAYERS'' v f) = selected_model_rows f"
  "runner_of (pf_set ''N_GPU_LAYERS'' v f) = runner_of f"
  "uses_llama_config (pf_set ''N_GPU_LAYERS'' v f) r = uses_llama_config f r"
  by (simp_all add: selected_model_rows_def model_choice_of_def models_by_path_def fld_cfg_def fld_pf_set pf_set_def runner_of_def
      uses_llama_config_def runner_row_def runner_registry_def fld_def cfg_def)

lemma layers_text_set:
  assumes "pf_value f ''N_GPU_LAYERS'' \<noteq> None" "\<forall>c \<in> set w. \<not> is_ws c" "w \<noteq> []"
  shows "n_gpu_layers_text (pf_set ''N_GPU_LAYERS'' w f) = w" "form_layers_text (pf_set ''N_GPU_LAYERS'' w f) = js_lower w"
  using assms trim_no_ws [OF assms(2)]
  by (simp_all add: n_gpu_layers_text_def form_layers_text_def fld_pf_set js_text_nn_def)

lemma digit_not_ws: "is_digit c \<Longrightarrow> \<not> is_ws c"
  by (auto simp: is_digit_def is_ws_def Let_def)

lemma js_lower_digits: "\<forall>c \<in> set w. is_digit c \<Longrightarrow> js_lower w = w"
  unfolding js_lower_def by (rule map_idI) (fastforce simp: lower_char_def is_digit_def Let_def)

lemma panel_of_number:
  assumes "refresh_offload_plan t f = Some p" "pf_value f ''N_GPU_LAYERS'' \<noteq> None" "0 < v"
  shows "\<exists>q. refresh_offload_plan t (pf_set ''N_GPU_LAYERS'' (nat_str v) f) = Some q
           \<and> plan_mode q = (if of_nat v < off_layers (offload_split f) then ''manual'' else ''all'')"
proof -
  let ?g = "pf_set ''N_GPU_LAYERS'' (nat_str v) f"
  have ws: "\<forall>c \<in> set (nat_str v). \<not> is_ws c" using nat_str_digits digit_not_ws by blast
  note tx = layers_text_set [OF assms(2) ws nat_str_not_Nil]
  have lower: "js_lower (nat_str v) = nat_str v" using nat_str_digits by (blast intro: js_lower_digits)
  have digits: "is_all_digits (nat_str v)"
    using nat_str_digits by (auto simp: is_all_digits_def list_all_iff)
  have zero: "nat_str 0 = ''0''" by code_simp
  have "nat_str v \<noteq> nat_str 0" using nat_str_inj assms(3) by blast
  then have cpu: "\<not> compute_is_cpu ?g" by (simp only: compute_is_cpu_def tx zero not_False_eq_True)
  have k: "off_known (offload_split f)" "uses_llama_config f (runner_of f)"
    using assms(1) by (auto simp: refresh_offload_plan_def Let_def split: if_splits)
  have "nat_str v \<noteq> ''all''"
  proof
    assume "nat_str v = ''all''"
    then have "is_digit CHR ''a''" using nat_str_digits [of "CHR ''a''" v] by simp
    then show False by (simp add: is_digit_def)
  qed
  then show ?thesis
    using cpu k digits
    by (simp add: refresh_offload_plan_def Let_def layers_field_only off_known_iff tx lower plan_mode_of_def case_prod_unfold not_less)
qed

text \<open>
  No tile and no place of the slider takes the cell off the card, nor the panel off the form: a number of layers
  is the manual split, or "all" where it reaches every layer, and "all" stays on screen though it may not fit.
\<close>

theorem dt_panel_keeps_the_card:
  assumes "refresh_offload_plan t f = Some p" "pf_value f ''N_GPU_LAYERS'' \<noteq> None" "0 < v"
  shows "(\<exists>q. refresh_offload_plan t (plan_slide (of_nat v) f) = Some q
            \<and> plan_mode q = (if of_nat v < off_layers (offload_split f) then ''manual'' else ''all''))
       \<and> (\<exists>q. refresh_offload_plan t (plan_pick ''all'' f) = Some q \<and> plan_mode q = ''all'')
       \<and> \<not> compute_is_cpu (plan_pick ''auto'' f)"
proof -
  have words: "\<forall>c \<in> set ''all''. \<not> is_ws c" "\<forall>c \<in> set ''auto''. \<not> is_ws c" "js_lower ''all'' = ''all''"
    by (simp_all add: is_ws_def js_lower_def lower_char_def)
  note tx = layers_text_set [OF assms(2) words(1)] layers_text_set [OF assms(2) words(2)]
  have k: "off_known (offload_split f)" "uses_llama_config f (runner_of f)"
    using assms(1) by (auto simp: refresh_offload_plan_def Let_def split: if_splits)
  have "\<exists>q. refresh_offload_plan t (plan_pick ''all'' f) = Some q \<and> plan_mode q = ''all''"
    using k by (simp add: plan_pick_def refresh_offload_plan_def Let_def layers_field_only off_known_iff tx words(3)
        plan_mode_of_def case_prod_unfold compute_is_cpu_def)
  moreover have "\<not> compute_is_cpu (plan_pick ''auto'' f)"
    by (simp add: plan_pick_def compute_is_cpu_def tx)
  ultimately show ?thesis using panel_of_number [OF assms] by (simp add: plan_slide_def)
qed

section \<open>The pin that is written is the pin that is read\<close>

definition row_end :: "char \<Rightarrow> bool" where
  "row_end c = (c = CHR 10 \<or> c = CHR '','')"

lemma env_rows_clean:
  assumes "r \<in> set (env_rows env)"
  shows "r \<noteq> []" "js_trim r = r" "c \<in> set r \<Longrightarrow> \<not> row_end c"
proof -
  obtain w where w: "w \<in> set (split_by row_end env)" "r = js_trim w" and ne: "r \<noteq> []"
    using assms by (auto simp: env_rows_def row_end_def [abs_def])
  show "r \<noteq> []" "js_trim r = r" using w(2) ne by simp_all
  show "c \<in> set r \<Longrightarrow> \<not> row_end c" using split_by_pieces [OF w(1)] trim_chars w(2) by blast
qed

lemma env_rows_join:
  assumes "ws \<noteq> []" "\<forall>w \<in> set ws. w \<noteq> [] \<and> js_trim w = w \<and> (\<forall>c \<in> set w. \<not> row_end c)"
  shows "env_rows (js_join [CHR 10] ws) = ws" "split_by row_end (js_join [CHR 10] ws) = ws"
proof -
  show s: "split_by row_end (js_join [CHR 10] ws) = ws"
    by (rule split_by_join) (use assms in \<open>auto simp: row_end_def\<close>)
  have "map js_trim ws = ws" by (rule map_idI) (use assms(2) in blast)
  then show "env_rows (js_join [CHR 10] ws) = ws"
    using s assms(2) by (simp add: env_rows_def row_end_def [abs_def])
qed

lemma pin_row_text:
  "cvd_name @ ''='' @ nat_str n \<noteq> []" "js_trim (cvd_name @ ''='' @ nat_str n) = cvd_name @ ''='' @ nat_str n"
  "\<forall>c \<in> set (cvd_name @ ''='' @ nat_str n). \<not> row_end c" "cvd_value (cvd_name @ ''='' @ nat_str n) = Some (nat_str n)"
proof -
  have ws: "\<forall>c \<in> set (nat_str n). \<not> is_ws c" using nat_str_digits digit_not_ws by blast
  have name: "\<forall>c \<in> set cvd_name. \<not> is_ws c \<and> \<not> row_end c \<and> c \<noteq> CHR ''=''"
    by (simp add: cvd_name_def is_ws_def row_end_def)
  have nr: "\<not> row_end c" if "c \<in> set (nat_str n)" for c
    using nat_str_digits [OF that] by (auto simp: is_digit_def row_end_def)
  show "cvd_name @ ''='' @ nat_str n \<noteq> []" by simp
  show "js_trim (cvd_name @ ''='' @ nat_str n) = cvd_name @ ''='' @ nat_str n"
    by (rule trim_no_ws) (use ws name in \<open>auto simp: is_ws_def\<close>)
  show "\<forall>c \<in> set (cvd_name @ ''='' @ nat_str n). \<not> row_end c"
    using name nr by (auto simp: row_end_def)
  have "takeWhile (\<lambda>c. c \<noteq> CHR ''='') (cvd_name @ ''='' @ nat_str n) = cvd_name"
    using name by (simp add: takeWhile_append)
  moreover have "js_trim cvd_name = cvd_name" "cvd_name \<noteq> []" using name trim_no_ws by (blast, simp add: cvd_name_def)
  ultimately show "cvd_value (cvd_name @ ''='' @ nat_str n) = Some (nat_str n)"
    using trim_no_ws [OF ws] by (simp add: cvd_value_def Let_def)
qed

text \<open>
  The card a chip pins is the card the form reads back, and the write keeps the ENV's other rows, in their order;
  every earlier pin is gone.
\<close>

theorem dt_pin_is_read_back:
  "card_pin (JStr (card_pin_write env (of_nat n))) = nat_str n
   \<and> env_rows (card_pin_write env (of_nat n))
       = filter (\<lambda>r. (CHR ''='' \<in> set r \<or> prefix ''#'' r) \<and> \<not> pin_row r) (env_rows (js_text env)) @ [cvd_name @ ''='' @ nat_str n]"
proof -
  define rows where "rows = filter (\<lambda>r. (CHR ''='' \<in> set r \<or> prefix ''#'' r) \<and> \<not> pin_row r) (env_rows (js_text env))"
  let ?ws = "rows @ [cvd_name @ ''='' @ nat_str n]"
  have w: "card_pin_write env (of_nat n) = js_join [CHR 10] ?ws"
    by (simp add: card_pin_write_def rows_def)
  have clean: "\<forall>w \<in> set ?ws. w \<noteq> [] \<and> js_trim w = w \<and> (\<forall>c \<in> set w. \<not> row_end c)"
    using env_rows_clean pin_row_text [of n] by (auto simp: rows_def)
  note join = env_rows_join [OF _ clean]
  have quotes: "strip_quotes (nat_str n) = nat_str n"
  proof -
    have "\<forall>c \<in> set (nat_str n). c \<noteq> CHR 34" using nat_str_digits by (fastforce simp: is_digit_def)
    then have "hd (nat_str n) \<noteq> CHR 34" "last (nat_str n) \<noteq> CHR 34" by simp_all
    then have "dropWhile (\<lambda>c. c = CHR 34) (nat_str n) = nat_str n" "dropWhile (\<lambda>c. c = CHR 34) (rev (nat_str n)) = rev (nat_str n)"
      by (simp_all add: dropWhile_eq_self_iff hd_rev)
    then show ?thesis by (simp add: strip_quotes_def)
  qed
  have "is_all_digits (nat_str n)" using nat_str_digits by (auto simp: is_all_digits_def list_all_iff)
  then have "card_pin (JStr (card_pin_write env (of_nat n))) = nat_str n"
    using join(2) pin_row_text(4) [of n] quotes
    by (simp add: card_pin_def w row_end_def [abs_def] List.map_filter_def Let_def)
  then show ?thesis using join(1) by (simp add: w rows_def)
qed

section \<open>A chip flips one card\<close>

lemma set_by_length: "distinct xs \<Longrightarrow> set xs \<subseteq> set ys \<Longrightarrow> distinct ys \<Longrightarrow> length xs = length ys \<Longrightarrow> set xs = set ys"
  by (metis card_subset_eq distinct_card finite_set)

lemma set_chip_flip:
  "set (chip_flip gi cur) = (if set cur = {gi} then {gi} else if gi \<in> set cur then set cur - {gi} else insert gi (set cur))"
proof (cases "gi \<in> set cur")
  case True
  then have "(filter (\<lambda>y. y \<noteq> gi) cur = []) = (set cur = {gi})" by (auto simp: filter_empty_conv)
  then show ?thesis using True by (auto simp: chip_flip_def Let_def set_del_def)
next
  case False
  then have "set cur \<noteq> {gi}" by auto
  then show ?thesis using False by (simp add: chip_flip_def Let_def set_add_def)
qed

lemma distinct_chip_flip: "distinct cur \<Longrightarrow> distinct (chip_flip gi cur)"
  by (auto simp: chip_flip_def Let_def set_del_def set_add_def)

text \<open>(C33) 
  A chip flips its own card and no other, and the last one picked stays: the cell is never left with no card.
  (The picked cards are of the machine's, which have indexes of their own.)
\<close>

theorem dt_chip_flips_one_card:
  assumes "uses_llama_config f (runner_of f)" "pf_value f ''N_GPU_LAYERS'' \<noteq> None" "pf_value f ''DEVICE'' \<noteq> None"
    "\<not> compute_is_cpu f" "set (compute_selected_idx f) \<subseteq> set (map gpu_index (compute_target_gpus f))"
    "distinct (map gpu_index (compute_target_gpus f))" "gi \<in> set (map gpu_index (compute_target_gpus f))"
    "set (map gpu_index (compute_target_gpus f)) \<subseteq> range of_nat"
  shows "set (compute_selected_idx (chip_click gi f))
       = (let cur = set (compute_selected_idx f)
          in if cur = {gi} then {gi} else if gi \<in> cur then cur - {gi} else insert gi cur)"
proof -
  let ?all = "map gpu_index (compute_target_gpus f)" and ?cur = "js_uniq (compute_selected_idx f)"
  let ?new = "chip_flip gi ?cur"
  have new: "set ?new = (let cur = set (compute_selected_idx f)
          in if cur = {gi} then {gi} else if gi \<in> cur then cur - {gi} else insert gi cur)"
    by (simp add: set_chip_flip)
  have sub: "set ?new \<subseteq> set ?all" using assms(5,7) by (auto simp: new Let_def)
  obtain ns where ns: "?new = map of_nat ns" using nats_of_rats sub assms(8) by (meson order_trans)
  have ne: "ns \<noteq> []"
  proof
    assume "ns = []"
    then have "set ?new = {}" using ns by simp
    then show False by (auto simp: set_chip_flip split: if_splits)
  qed
  have click: "chip_click gi f = apply_compute_target ''gpu'' (map of_nat ns) f"
    using assms(1,4) by (simp add: chip_click_def apply_compute_mode_def ns)
  have "set (compute_selected_idx (apply_compute_target ''gpu'' (map of_nat ns) f)) = set ?new"
  proof (cases "length ns = length (compute_target_gpus f)")
    case True
    have "set ?new = set ?all"
    proof (rule set_by_length)
      show "distinct ?new" by (rule distinct_chip_flip) simp
      show "length ?new = length ?all" using True ns by simp
    qed (use sub assms(6) in blast)+
    then show ?thesis using picked_cards_read_back [OF assms(2,3) ne] True by simp
  next
    case False
    then show ?thesis using picked_cards_read_back [OF assms(2,3) ne] ns by simp
  qed
  then show ?thesis unfolding click new .
qed

section \<open>The machine with two cards again\<close>

lemma two_card_runner: "runner_of two_card_form = ''llama-server''" "uses_llama_config two_card_form ''llama-server''"
  by (simp_all add: runner_of_def two_card_form_def fld_def js_trim_def trim_start_def trim_end_def uses_llama_config_def)

lemma two_card_gpu_mode: "\<not> compute_is_cpu two_card_form" "current_compute_mode two_card_form = ''gpu''"
proof -
  show "\<not> compute_is_cpu two_card_form"
    by (simp add: compute_is_cpu_def n_gpu_layers_text_def two_card_form_def fld_def cfg_def two_card_words js_text_nn_def)
  then show "current_compute_mode two_card_form = ''gpu''"
    by (simp add: current_compute_mode_def two_card_runner)
qed

lemma two_card_fields:
  "pf_value two_card_form ''N_GPU_LAYERS'' = Some ''auto''" "pf_value two_card_form ''DEVICE'' = Some []"
  "runner_row two_card_form ''llama-server'' = hd builtin_runners" "jget (hd builtin_runners) ''gpuOnly'' = JUndef"
  by (simp_all add: two_card_form_def runner_row_def runner_registry_def builtin_runners_def)

lemma two_card_target:
  "compute_target_gpus two_card_form
     = [JObj [(''index'', JNum 0), (''memoryTotalMiB'', JNum 24576), (''memoryFreeMiB'', JNum 3072)],
        JObj [(''index'', JNum 1), (''memoryTotalMiB'', JNum 32768), (''memoryFreeMiB'', JNum 6144)]]"
  "map gpu_index (compute_target_gpus two_card_form) = [0, 1]"
  by (simp_all add: compute_target_gpus_def two_card_form_def gpu_index_def num_of_def)

theorem dt_mode_is_one_the_runner_has_witness:
  "caps_allow (runner_device_caps two_card_form ''llama-server'') ''gpu''"
  using dt_mode_is_one_the_runner_has [of two_card_form]
  by (simp add: two_card_runner two_card_gpu_mode two_card_fields)

theorem dt_panel_keeps_the_card_witness: "\<not> compute_is_cpu (plan_pick ''auto'' two_card_form)"
proof -
  have "refresh_offload_plan (\<lambda>k a. []) two_card_form \<noteq> None"
    using two_card_split two_card_gpu_mode two_card_runner by (simp add: refresh_offload_plan_def Let_def case_prod_unfold)
  then obtain p where "refresh_offload_plan (\<lambda>k a. []) two_card_form = Some p" by blast
  then show ?thesis
    using dt_panel_keeps_the_card [of "\<lambda>k a. []" two_card_form p 1] by (simp add: two_card_fields)
qed

theorem dt_bar_stays_in_its_track_witness:
  "\<exists>v. aside_pool_of 24 6 8 2 [] True [] 0 = Some v
     \<and> pool_others_pct v + pool_mine_pct v + pool_add_pct v \<le> 100"
proof -
  obtain v where v: "aside_pool_of 24 6 8 2 [] True [] 0 = Some v" using aside_pool_some [of 24 6 8 2 "[]" True "[]" 0] by fastforce
  have "pool_others_pct v + pool_mine_pct v + pool_add_pct v \<le> 100"
    using dt_bar_stays_in_its_track [OF v] by simp
  then show ?thesis using v by blast
qed

theorem dt_chip_flips_one_card_witness: "set (compute_selected_idx (chip_click 1 two_card_form)) = {0}"
proof -
  have "compute_selected_idx two_card_form = [0, 1]"
    using two_card_target(2) two_card_gpu_mode(1)
    by (simp add: compute_selected_idx_def fld_def two_card_fields two_card_words)
  then have sel: "set (compute_selected_idx two_card_form) = {0, 1}" by simp
  have nats: "{0, 1} \<subseteq> (range of_nat :: rat set)"
    by (metis empty_subsetI insert_subset of_nat_0 of_nat_1 rangeI)
  have "set (compute_selected_idx (chip_click 1 two_card_form))
      = (let cur = set (compute_selected_idx two_card_form)
         in if cur = {1} then {1} else if 1 \<in> cur then cur - {1} else insert 1 cur)"
    by (rule dt_chip_flips_one_card)
      (simp_all only: two_card_runner two_card_fields two_card_gpu_mode two_card_target(2) sel, use nats in simp_all)
  moreover have "{0, 1} \<noteq> {1 :: rat}" "{0, 1} - {1} = {0 :: rat}" by auto
  ultimately show ?thesis by (simp only: sel Let_def insertI1 insertI2 if_True if_False)
qed

text \<open>A start that needs 4 GB and leaves 1 GB to others, on the card with 3 GB free: it does not fit, and the bar says so.\<close>

definition floor_plan :: js where
  "floor_plan = JObj [(''takesFree'', JBool True), (''floorMiB'', JNum 4096)]"

lemma two_card_start:
  "free_vram_start floor_plan JUndef JUndef (compute_target_gpus two_card_form)
     = Some \<lparr>fs_card = hd (compute_target_gpus two_card_form), fs_floor = 4096, fs_reserve = 0, fs_free = 3072\<rparr>"
proof -
  have pin: "card_pin JUndef = ''0''"
    by (simp add: card_pin_def cvd_value_def List.map_filter_def is_all_digits_def is_digit_def)
  have "rat_str 0 = ''0''" by (simp add: rat_str_def rat_int_def int_str_def nat_str.simps digit_char_0)
  then show ?thesis
    by (simp add: free_vram_start_def pin two_card_target Let_def floor_plan_def num_of_def gpu_free_mib_def js_text_nn_def two_card_words)
qed

theorem dt_bar_says_what_the_scout_does_witness:
  "\<exists>r v. render_aside_vram_bar (\<lambda>k a. []) two_card_form (fs_bar (\<lambda>k a. [])
       \<lparr>fs_card = hd (compute_target_gpus two_card_form), fs_floor = 4096, fs_reserve = 0, fs_free = 3072\<rparr> None) = AsidePools r (Some v)
     \<and> pool_overflow v"
proof -
  let ?s = "\<lparr>fs_card = hd (compute_target_gpus two_card_form), fs_floor = 4096, fs_reserve = 0, fs_free = 3072\<rparr>"
  have idle: "\<not> held_live (cell_holds two_card_form)"
    by (simp add: cell_holds_def command_cell_slot_def two_card_form_def)
  have gs: "filter (\<lambda>g. gpu_index g \<in> set [gpu_index (hd (compute_target_gpus two_card_form))]) (compute_target_gpus two_card_form)
      = [hd (compute_target_gpus two_card_form)]"
    by (simp add: two_card_target gpu_index_def num_of_def)
  have gb: "gpu_total_gb (hd (compute_target_gpus two_card_form)) \<noteq> 0"
    by (simp add: two_card_target gpu_total_gb_def num_of_def)
  obtain r v where v: "render_aside_vram_bar (\<lambda>k a. []) two_card_form (fs_bar (\<lambda>k a. []) ?s None) = AsidePools r (Some v)"
  proof -
    have "\<exists>r v. render_aside_vram_bar (\<lambda>k a. []) two_card_form (fs_bar (\<lambda>k a. []) ?s None) = AsidePools r (Some v)"
      using gs aside_pool_some [OF gb] by (simp add: render_aside_vram_bar_def Let_def fs_bar_def del: filter.simps)
    then show thesis using that by blast
  qed
  have "pool_overflow v = (fs_free ?s < fs_need ?s)"
    using dt_bar_says_what_the_scout_does [OF two_card_start _ _ idle v] two_card_gpu_mode(2) two_card_target(2) by simp
  then show ?thesis using v by (auto simp: fs_need_def)
qed

end
