(* ===== verification/RouterGraph.thy ===== *)
theory RouterGraph
  imports Utils Interfaces
begin

text \<open>
  The node graph of a router, edited on Routing's canvas (\<open>Graph\<close>, \<open>Edge\<close> and the edits of \<open>Board\<close> in \<open>canvas.js\<close>):
  rule nodes and cables between client ports (\<open>in:\<close>), nodes (\<open>rule:\<close>) and outputs (\<open>out:\<close>). An operation gives the
  graph as it is then, or the message it throws. A missing graph, list or \<open>schedPortId\<close> is an empty one; a node's
  config is the value it holds. \<open>new\<close> gives the ids an operation makes (\<open>_newId\<close>), in the order it makes them.
\<close>

section \<open>The graph\<close>

record cv_edge =
  ed_id :: string
  ed_from :: string
  ed_to :: string
  ed_port :: string

record cv_node =
  nd_id :: string
  nd_type :: string
  nd_x :: rat
  nd_y :: rat
  nd_model :: string \<comment> \<open>\<open>modelOutputId\<close>: the queue of that model's own\<close>
  nd_config :: js

record cv_graph =
  gr_nodes :: "cv_node list"
  gr_edges :: "cv_edge list"

definition rule_ref :: "string \<Rightarrow> string" where
  "rule_ref nid = ''rule:'' @ nid"

definition is_single_out :: "string \<Rightarrow> bool" where
  "is_single_out ref = prefix ''in:'' ref"

definition role_keys :: "string \<Rightarrow> (string \<times> string) option" where
  "role_keys kind = (if kind = ''queue'' then Some (''admitEdge'', ''spillEdge'')
     else if kind = ''onError'' then Some (''mainEdge'', ''rescueEdge'') else None)"

definition role_pair :: "string \<Rightarrow> (string \<times> string) option" where
  "role_pair role =
     (if role = ''admit'' then Some (''admitEdge'', ''spillEdge'') else if role = ''spill'' then Some (''spillEdge'', ''admitEdge'')
      else if role = ''main'' then Some (''mainEdge'', ''rescueEdge'') else if role = ''rescue'' then Some (''rescueEdge'', ''mainEdge'')
      else None)"

definition graph_node :: "string \<Rightarrow> cv_graph \<Rightarrow> cv_node option" where
  "graph_node nid g = find (\<lambda>n. nd_id n = nid) (gr_nodes g)"

definition out_edges :: "string \<Rightarrow> cv_graph \<Rightarrow> cv_edge list" where
  "out_edges nid g = filter (\<lambda>e. ed_from e = rule_ref nid) (gr_edges g)"

definition is_role_node :: "string \<Rightarrow> cv_node \<Rightarrow> bool" where
  "is_role_node ref n = (rule_ref (nd_id n) = ref \<and> role_keys (nd_type n) \<noteq> None)"

definition role_node :: "string \<Rightarrow> cv_graph \<Rightarrow> cv_node option" where
  "role_node ref g = find (is_role_node ref) (gr_nodes g)"

definition belongs_to_model :: "cv_node \<Rightarrow> bool" where
  "belongs_to_model n = (nd_type n = ''queue'' \<and> nd_model n \<noteq> [])"

text \<open>A change of the object \<open>find\<close> gave: of the first one in the list.\<close>

fun upd_first :: "('a \<Rightarrow> bool) \<Rightarrow> ('a \<Rightarrow> 'a) \<Rightarrow> 'a list \<Rightarrow> 'a list" where
  "upd_first p f [] = []"
| "upd_first p f (x # xs) = (if p x then f x # xs else x # upd_first p f xs)"

text \<open>\<open>node.config || {}\<close>.\<close>

definition config_of :: "cv_node \<Rightarrow> js" where
  "config_of n = js_or (nd_config n) (JObj [])"

section \<open>The ports of a client\<close>

definition primary_port :: "js \<Rightarrow> rat" where
  "primary_port p = (let port = num_of (jget p ''port'')
     in if port > 0 then (if js_rem port 2 = 0 then port - 1 else port) else 0)"

definition client_key :: "js \<Rightarrow> string" where
  "client_key p =
     (let host = js_text (jget p ''clientId''); primary = primary_port p
      in if host \<noteq> [] \<or> primary \<noteq> 0
         then host @ ''::'' @ (if primary \<noteq> 0 then rat_str primary else js_string (jget p ''id'')) else js_string (jget p ''id''))"

definition client_input_refs :: "js list \<Rightarrow> js list \<Rightarrow> string \<Rightarrow> string list" where
  "client_input_refs proxies inputs key =
     map (\<lambda>p. ''in:'' @ js_string (jget p ''id''))
       (filter (\<lambda>p. jget p ''id'' \<in> set inputs \<and> client_key p = key) proxies)"

text \<open>\<open>refs\<close> are the refs of each client's ports.\<close>

definition expand :: "(string \<Rightarrow> string list) \<Rightarrow> string \<Rightarrow> string list" where
  "expand refs ref = (if prefix ''inc:'' ref then refs (drop 4 ref) else [ref])"

section \<open>The edits\<close>

definition empty_grid :: js where
  "empty_grid = JArr (replicate 7 (JArr (replicate 24 JNull)))"

definition schedule_config :: "(nat \<Rightarrow> string) \<Rightarrow> js" where
  "schedule_config new = JObj [(''outputs'', JArr [JObj [(''id'', JStr (new 0)), (''name'', JStr ''output 1'')],
     JObj [(''id'', JStr (new 1)), (''name'', JStr ''output 2'')]]), (''grid'', empty_grid)]"

definition add_node :: "(nat \<Rightarrow> string) \<Rightarrow> string \<Rightarrow> rat \<Rightarrow> rat \<Rightarrow> cv_graph \<Rightarrow> string + cv_graph" where
  "add_node new kind x y g =
     (if kind = ''queue'' then Inl ''cvQueueAutomatic''
      else Inr (g\<lparr>gr_nodes := gr_nodes g @ [\<lparr>nd_id = new 2, nd_type = kind, nd_x = x, nd_y = y, nd_model = [],
             nd_config = (if kind = ''schedule'' then schedule_config new else JObj [])\<rparr>]\<rparr>))"

definition remove_node :: "string \<Rightarrow> cv_graph \<Rightarrow> string + cv_graph" where
  "remove_node nid g =
     (if (case graph_node nid g of Some n \<Rightarrow> belongs_to_model n | None \<Rightarrow> False) then Inl ''cvQueueAutomatic''
      else Inr (g\<lparr>gr_nodes := filter (\<lambda>n. nd_id n \<noteq> nid) (gr_nodes g),
                  gr_edges := filter (\<lambda>e. ed_from e \<noteq> rule_ref nid \<and> ed_to e \<noteq> rule_ref nid) (gr_edges g)\<rparr>))"

text \<open>A cable from each of the refs; a client's port gives up the one it has.\<close>

fun fan_out :: "(nat \<Rightarrow> string) \<Rightarrow> string \<Rightarrow> nat \<Rightarrow> string list \<Rightarrow> cv_edge list \<Rightarrow> cv_edge list" where
  "fan_out new to i [] es = es"
| "fan_out new to i (f # fs) es =
     (let es1 = (if is_single_out f then filter (\<lambda>e. ed_from e \<noteq> f) es else es);
          es2 = (if f \<noteq> to \<and> \<not> list_ex (\<lambda>e. ed_from e = f \<and> ed_to e = to) es1
                 then es1 @ [\<lparr>ed_id = new i, ed_from = f, ed_to = to, ed_port = []\<rparr>] else es1)
      in fan_out new to (Suc i) fs es2)"

definition add_port_edge :: "(nat \<Rightarrow> string) \<Rightarrow> string \<Rightarrow> string \<Rightarrow> string \<Rightarrow> cv_graph \<Rightarrow> cv_graph" where
  "add_port_edge new from_ref to port g =
     g\<lparr>gr_edges := filter (\<lambda>e. \<not> (ed_from e = from_ref \<and> ed_port e = port)) (gr_edges g)
                    @ [\<lparr>ed_id = new 0, ed_from = from_ref, ed_to = to, ed_port = port\<rparr>]\<rparr>"

definition add_role_edge :: "(nat \<Rightarrow> string) \<Rightarrow> string \<Rightarrow> string \<Rightarrow> string \<Rightarrow> cv_graph \<Rightarrow> cv_graph" where
  "add_role_edge new from_ref to role g =
     (case role_node from_ref g of None \<Rightarrow> g
      | Some n \<Rightarrow>
          let cfg = config_of n
          in case role_pair role of
               None \<Rightarrow> g\<lparr>gr_nodes := upd_first (is_role_node from_ref) (\<lambda>n. n\<lparr>nd_config := cfg\<rparr>) (gr_nodes g)\<rparr>
             | Some (own, other) \<Rightarrow>
                 let es = filter (\<lambda>e. JStr (ed_id e) \<noteq> jget cfg own) (gr_edges g);
                     old = find (\<lambda>e. ed_from e = from_ref \<and> ed_to e = to \<and> JStr (ed_id e) \<noteq> jget cfg other) es;
                     edge = (case old of Some e \<Rightarrow> e | None \<Rightarrow> \<lparr>ed_id = new 0, ed_from = from_ref, ed_to = to, ed_port = []\<rparr>)
                 in g\<lparr>gr_edges := (if old = None then es @ [edge] else es),
                      gr_nodes := upd_first (is_role_node from_ref) (\<lambda>n. n\<lparr>nd_config := js_put own (JStr (ed_id edge)) cfg\<rparr>) (gr_nodes g)\<rparr>)"

definition add_edge :: "(string \<Rightarrow> string list) \<Rightarrow> (nat \<Rightarrow> string) \<Rightarrow> string \<Rightarrow> string \<Rightarrow> string \<Rightarrow> string \<Rightarrow> cv_graph \<Rightarrow> string + cv_graph" where
  "add_edge refs new from_ref to role port g =
     (if role = ''admit'' \<and> (case role_node from_ref g of Some n \<Rightarrow> belongs_to_model n | None \<Rightarrow> False) then Inl ''cvQueueAutomatic''
      else if port \<noteq> [] \<and> prefix ''rule:'' from_ref then Inr (add_port_edge new from_ref to port g)
      else if role \<noteq> [] \<and> prefix ''rule:'' from_ref then Inr (add_role_edge new from_ref to role g)
      else Inr (g\<lparr>gr_edges := fan_out new to 0 (expand refs from_ref) (gr_edges g)\<rparr>))"

text \<open>A pointer of a role to a cable that is not there is cleared.\<close>

definition prune_key :: "string list \<Rightarrow> string \<Rightarrow> js \<Rightarrow> js" where
  "prune_key ids k cfg =
     (if js_truthy (jget cfg k) \<and> (\<forall>i \<in> set ids. jget cfg k \<noteq> JStr i) then js_put k (JStr []) cfg else cfg)"

definition prune_node :: "string list \<Rightarrow> cv_node \<Rightarrow> cv_node" where
  "prune_node ids n =
     (case role_keys (nd_type n) of None \<Rightarrow> n
      | Some (main, side) \<Rightarrow> if \<not> js_truthy (nd_config n) then n
          else n\<lparr>nd_config := prune_key ids side (prune_key ids main (nd_config n))\<rparr>)"

definition prune_pointers :: "cv_graph \<Rightarrow> cv_graph" where
  "prune_pointers g = g\<lparr>gr_nodes := map (prune_node (map ed_id (gr_edges g))) (gr_nodes g)\<rparr>"

text \<open>A role's pointer to the cable that was moved goes with it, unless the other role has the cable it moved onto.\<close>

definition move_pointer :: "string \<Rightarrow> cv_edge option \<Rightarrow> string \<times> string \<Rightarrow> js \<Rightarrow> js" where
  "move_pointer old_id edge keys cfg =
     (case keys of (k, other) \<Rightarrow>
        if jget cfg k = JStr old_id
        then js_put k (case edge of Some e \<Rightarrow> if JStr (ed_id e) \<noteq> jget cfg other then JStr (ed_id e) else JStr [] | None \<Rightarrow> JStr []) cfg
        else cfg)"

definition rewire :: "(nat \<Rightarrow> string) \<Rightarrow> string \<Rightarrow> string \<Rightarrow> string \<Rightarrow> cv_graph \<Rightarrow> cv_graph" where
  "rewire new from_ref old_to new_to g =
     (let old_edge = find (\<lambda>e. ed_from e = from_ref \<and> ed_to e = old_to) (gr_edges g);
          port = (case old_edge of Some e \<Rightarrow> ed_port e | None \<Rightarrow> []);
          es = filter (\<lambda>e. \<not> (ed_from e = from_ref \<and> ed_to e = old_to)) (gr_edges g);
          there = find (\<lambda>e. ed_from e = from_ref \<and> ed_to e = new_to) es;
          edge = (if from_ref = new_to then None
                  else Some (case there of Some e \<Rightarrow> e | None \<Rightarrow> \<lparr>ed_id = new 0, ed_from = from_ref, ed_to = new_to, ed_port = port\<rparr>));
          g1 = g\<lparr>gr_edges := (if from_ref \<noteq> new_to \<and> there = None then es @ [the edge] else es)\<rparr>;
          g2 = (case (role_node from_ref g, old_edge) of
                  (Some n, Some old) \<Rightarrow>
                    (case role_keys (nd_type n) of
                       Some (main, side) \<Rightarrow> if js_truthy (nd_config n)
                         then g1\<lparr>gr_nodes := upd_first (is_role_node from_ref)
                                (\<lambda>n. n\<lparr>nd_config := move_pointer (ed_id old) edge (side, main)
                                                      (move_pointer (ed_id old) edge (main, side) (nd_config n))\<rparr>) (gr_nodes g)\<rparr>
                         else g1
                     | None \<Rightarrow> g1)
                | _ \<Rightarrow> g1)
      in prune_pointers g2)"

definition delete_between :: "(string \<Rightarrow> string list) \<Rightarrow> string \<Rightarrow> string \<Rightarrow> cv_graph \<Rightarrow> cv_graph" where
  "delete_between refs dom_from dom_to g =
     (let froms = expand refs dom_from; tos = expand refs dom_to
      in prune_pointers (g\<lparr>gr_edges := filter (\<lambda>e. \<not> (ed_from e \<in> set froms \<and> ed_to e \<in> set tos)) (gr_edges g)\<rparr>))"

section \<open>The main role\<close>

text \<open>Whether the pointer of a role names one of the node's cables, and the cable that may be adopted.\<close>

definition main_ok :: "js \<Rightarrow> string \<Rightarrow> cv_edge list \<Rightarrow> bool" where
  "main_ok cfg main outs = (js_truthy (jget cfg main) \<and> list_ex (\<lambda>e. JStr (ed_id e) = jget cfg main) outs)"

definition free_edge :: "js \<Rightarrow> string \<Rightarrow> cv_edge list \<Rightarrow> cv_edge option" where
  "free_edge cfg side outs = find (\<lambda>e. JStr (ed_id e) \<noteq> jget cfg side) outs"

definition node_needs_heal :: "cv_graph \<Rightarrow> cv_node \<Rightarrow> bool" where
  "node_needs_heal g n = (case role_keys (nd_type n) of None \<Rightarrow> False
     | Some (main, side) \<Rightarrow> let outs = out_edges (nd_id n) g; c = config_of n
         in \<not> main_ok c main outs \<and> list_ex (\<lambda>e. JStr (ed_id e) \<noteq> jget c side) outs)"

definition needs_heal :: "cv_graph \<Rightarrow> bool" where
  "needs_heal g = list_ex (node_needs_heal g) (gr_nodes g)"

definition heal_node :: "cv_graph \<Rightarrow> cv_node \<Rightarrow> cv_node" where
  "heal_node g n = (case role_keys (nd_type n) of None \<Rightarrow> n
     | Some (main, side) \<Rightarrow> let outs = out_edges (nd_id n) g; c = config_of n
         in n\<lparr>nd_config := (if main_ok c main outs then c
              else case free_edge c side outs of Some e \<Rightarrow> js_put main (JStr (ed_id e)) c | None \<Rightarrow> c)\<rparr>)"

definition heal :: "cv_graph \<Rightarrow> cv_graph" where
  "heal g = g\<lparr>gr_nodes := map (heal_node g) (gr_nodes g)\<rparr>"

text \<open>The roles a drawing gives the cables, and the role of each such node's main path.\<close>

definition main_role :: "string \<Rightarrow> string" where
  "main_role kind = (if kind = ''queue'' then ''admit'' else ''main'')"

definition side_role :: "string \<Rightarrow> string" where
  "side_role kind = (if kind = ''queue'' then ''spill'' else ''rescue'')"

definition node_roles :: "cv_graph \<Rightarrow> cv_node \<Rightarrow> (js \<times> string) list" where
  "node_roles g n = (case role_keys (nd_type n) of None \<Rightarrow> []
     | Some (main, side) \<Rightarrow> let outs = out_edges (nd_id n) g; c = config_of n
         in (if main_ok c main outs then [(jget c main, main_role (nd_type n))]
             else case free_edge c side outs of Some e \<Rightarrow> [(JStr (ed_id e), main_role (nd_type n))] | None \<Rightarrow> [])
            @ (if js_truthy (jget c side) then [(jget c side, side_role (nd_type n))] else []))"

definition edge_roles :: "cv_graph \<Rightarrow> (js \<rightharpoonup> string) \<times> (string \<rightharpoonup> string)" where
  "edge_roles g =
     (fold (\<lambda>(e, r) m. m(e \<mapsto> r)) (concat (map (node_roles g) (gr_nodes g))) Map.empty,
      fold (\<lambda>n m. if role_keys (nd_type n) = None then m else m(rule_ref (nd_id n) \<mapsto> main_role (nd_type n))) (gr_nodes g) Map.empty)"

section \<open>The ports that reach a node\<close>

text \<open>One pass over the cables, which takes the pass on with what it has just added; and passes until one adds nothing.\<close>

definition reach_step :: "cv_edge \<Rightarrow> string list \<Rightarrow> string list" where
  "reach_step e r = (if ed_to e \<in> set r \<and> ed_from e \<notin> set r then r @ [ed_from e] else r)"

definition reach_pass :: "cv_edge list \<Rightarrow> string list \<Rightarrow> string list" where
  "reach_pass es r = fold reach_step es r"

lemma reach_step_set: "set r \<subseteq> set (reach_step e r)" "set (reach_step e r) \<subseteq> insert (ed_from e) (set r)"
  by (auto simp: reach_step_def)

lemma reach_pass_more: "set r \<subseteq> set (reach_pass es r)"
proof (induction es arbitrary: r)
  case (Cons e es)
  show ?case using Cons [of "reach_step e r"] reach_step_set(1) [of r e] by (simp add: reach_pass_def)
qed (simp add: reach_pass_def)

lemma reach_pass_only: "set (reach_pass es r) \<subseteq> set r \<union> ed_from ` set es"
proof (induction es arbitrary: r)
  case (Cons e es)
  show ?case using Cons [of "reach_step e r"] reach_step_set(2) [of e r] by (auto simp: reach_pass_def)
qed (simp add: reach_pass_def)

lemma reach_pass_grows: "reach_pass es r \<noteq> r \<Longrightarrow> \<exists>x. x \<in> set (reach_pass es r) \<and> x \<notin> set r"
proof (induction es arbitrary: r)
  case (Cons e es)
  show ?case
  proof (cases "reach_step e r = r")
    case True
    then show ?thesis using Cons by (simp add: reach_pass_def)
  next
    case False
    then have "ed_from e \<in> set (reach_step e r)" "ed_from e \<notin> set r" by (auto simp: reach_step_def split: if_splits)
    then show ?thesis using reach_pass_more [of "reach_step e r" es] by (auto simp: reach_pass_def)
  qed
qed (simp add: reach_pass_def)

function grow_reach :: "cv_edge list \<Rightarrow> string list \<Rightarrow> string list" where
  "grow_reach es r = (let r' = reach_pass es r in if r' = r then r else grow_reach es r')"
  by auto

termination
proof (relation "measure (\<lambda>(es, r). card (ed_from ` set es - set r))")
  fix es r r' assume r': "r' = reach_pass es r" "r' \<noteq> r"
  then obtain x where x: "x \<in> set r'" "x \<notin> set r" using reach_pass_grows by blast
  then have "x \<in> ed_from ` set es" "set r \<subseteq> set r'"
    using reach_pass_more [of r es] reach_pass_only [of es r] r'(1) by auto
  then have "ed_from ` set es - set r' \<subset> ed_from ` set es - set r" using x by blast
  then show "((es, r'), es, r) \<in> measure (\<lambda>(es, r). card (ed_from ` set es - set r))"
    by (simp add: psubset_card_mono)
qed simp

declare grow_reach.simps [simp del]

text \<open>\<open>ref.match(/:(\d+)$/)\<close>: the number a ref ends in, after a colon.\<close>

definition ref_port :: "string \<Rightarrow> nat option" where
  "ref_port ref =
     (let ds = takeWhile is_digit (rev ref); rest = dropWhile is_digit (rev ref)
      in if ds \<noteq> [] \<and> rest \<noteq> [] \<and> hd rest = CHR '':'' \<and> is_single_out ref then Some (digits_val (rev ds)) else None)"

definition input_ports :: "cv_graph \<Rightarrow> string \<Rightarrow> nat list" where
  "input_ports g nid = js_uniq (List.map_filter ref_port (grow_reach (gr_edges g) [rule_ref nid]))"

section \<open>The edits of the open router\<close>

definition set_config :: "string \<Rightarrow> (js \<Rightarrow> js) \<Rightarrow> cv_graph \<Rightarrow> cv_graph" where
  "set_config nid patch g = g\<lparr>gr_nodes := upd_first (\<lambda>n. nd_id n = nid) (\<lambda>n. n\<lparr>nd_config := patch (config_of n)\<rparr>) (gr_nodes g)\<rparr>"

text \<open>An output of a schedule is taken away with its hours and its cables.\<close>

definition clear_hours :: "string \<Rightarrow> js \<Rightarrow> js" where
  "clear_hours out_id grid = JArr (map (\<lambda>row. JArr (map (\<lambda>c. if c = JStr out_id then JNull else c) (js_list row))) (js_list grid))"

definition drop_output :: "string \<Rightarrow> js \<Rightarrow> js" where
  "drop_output out_id cfg =
     js_put ''grid'' (clear_hours out_id (jget cfg ''grid''))
       (js_put ''outputs'' (JArr (filter (\<lambda>ob. jget ob ''id'' \<noteq> JStr out_id) (js_list (jget cfg ''outputs'')))) cfg)"

definition remove_output :: "string \<Rightarrow> string \<Rightarrow> cv_graph \<Rightarrow> cv_graph" where
  "remove_output nid out_id g =
     (let g1 = set_config nid (drop_output out_id) g
      in g1\<lparr>gr_edges := filter (\<lambda>e. \<not> (ed_from e = rule_ref nid \<and> ed_port e = out_id)) (gr_edges g1)\<rparr>)"

datatype board_act = AddNode string rat rat | RemoveNode string | AddEdge string string string string
  | Rewire string string string | DeleteBetween string string | Heal | SetConfig string "js \<Rightarrow> js" | RemoveOutput string string

text \<open>What the board saves of an act; \<open>Inr g\<close> itself where the act is no edit.\<close>

fun board_edit :: "(string \<Rightarrow> string list) \<Rightarrow> (nat \<Rightarrow> string) \<Rightarrow> board_act \<Rightarrow> cv_graph \<Rightarrow> string + cv_graph" where
  "board_edit refs new (AddNode kind x y) g = add_node new kind x y g"
| "board_edit refs new (RemoveNode nid) g = remove_node nid g"
| "board_edit refs new (AddEdge a b role port) g = (if a = [] \<or> b = [] \<or> a = b then Inr g else add_edge refs new a b role port g)"
| "board_edit refs new (Rewire a b c) g = (if a = [] \<or> c = [] \<or> c = b then Inr g else Inr (rewire new a b c g))"
| "board_edit refs new (DeleteBetween a b) g = Inr (delete_between refs a b g)"
| "board_edit refs new Heal g = Inr (if needs_heal g then heal g else g)"
| "board_edit refs new (SetConfig nid patch) g = Inr (set_config nid patch g)"
| "board_edit refs new (RemoveOutput nid out_id) g = Inr (remove_output nid out_id g)"

text \<open>
  Any number of edits, whatever they are of. The ids an edit makes are its own and new. A cable may be gone when its edit runs
  (the save is made again on a newer copy): \<open>gone\<close> lists the origins of those re-pointed then, each as often as it was.
\<close>

definition fresh_ids :: "(nat \<Rightarrow> string) \<Rightarrow> cv_graph \<Rightarrow> bool" where
  "fresh_ids new g = ((\<forall>i j. new i = new j \<longrightarrow> i = j) \<and> (\<forall>i. new i \<notin> ed_id ` set (gr_edges g)))"

definition repointed_gone :: "board_act \<Rightarrow> cv_graph \<Rightarrow> string list" where
  "repointed_gone act g = (case act of Rewire a b c \<Rightarrow> if list_ex (\<lambda>e. ed_from e = a \<and> ed_to e = b) (gr_edges g) then [] else [a] | _ \<Rightarrow> [])"

definition edges_ok :: "string list \<Rightarrow> cv_edge list \<Rightarrow> bool" where
  "edges_ok gone es = (distinct (map ed_id es)
     \<and> (\<forall>f. is_single_out f \<longrightarrow> length (filter (\<lambda>e. ed_from e = f) es) \<le> Suc (count_list gone f))
     \<and> (\<forall>f p. p \<noteq> [] \<longrightarrow> length (filter (\<lambda>e. ed_from e = f \<and> ed_port e = p) es) \<le> 1)
     \<and> (\<forall>e \<in> set es. ed_from e \<noteq> ed_to e))"

inductive edited :: "(string \<Rightarrow> string list) \<Rightarrow> string list \<Rightarrow> cv_graph \<Rightarrow> bool" for refs where
  opened: "edges_ok [] (gr_edges g) \<Longrightarrow> edited refs [] g"
| edit: "edited refs gone g \<Longrightarrow> fresh_ids new g \<Longrightarrow> board_edit refs new act g = Inr g' \<Longrightarrow> edited refs (repointed_gone act g @ gone) g'"

section \<open>Cables stay in order\<close>

lemma length_filter_conj: "length (filter (\<lambda>x. p x \<and> q x) xs) \<le> length (filter q xs)"
  by (induction xs) auto

lemma edges_ok_filter: "edges_ok gone es \<Longrightarrow> edges_ok gone (filter p es)"
proof -
  assume ok: "edges_ok gone es"
  have "length (filter (\<lambda>e. ed_from e = f) (filter p es)) \<le> Suc (count_list gone f)" if "is_single_out f" for f
    using ok that length_filter_conj [of p "\<lambda>e. ed_from e = f" es] by (auto simp: edges_ok_def dest: order_trans)
  moreover have "length (filter (\<lambda>e. ed_from e = f \<and> ed_port e = q) (filter p es)) \<le> 1" if "q \<noteq> []" for f q
    using ok that length_filter_conj [of p "\<lambda>e. ed_from e = f \<and> ed_port e = q" es] unfolding edges_ok_def filter_filter
    by (meson order_trans)
  ultimately show ?thesis using ok by (auto simp: edges_ok_def distinct_map inj_on_def)
qed

lemma edges_ok_snoc:
  assumes "edges_ok gone es" "ed_id e \<notin> ed_id ` set es" "ed_from e \<noteq> ed_to e"
    "is_single_out (ed_from e) \<Longrightarrow> length (filter (\<lambda>x. ed_from x = ed_from e) es) \<le> count_list gone (ed_from e)"
    "ed_port e \<noteq> [] \<Longrightarrow> \<forall>x \<in> set es. \<not> (ed_from x = ed_from e \<and> ed_port x = ed_port e)"
  shows "edges_ok gone (es @ [e])"
proof -
  have "length (filter (\<lambda>x. ed_from x = f) (es @ [e])) \<le> Suc (count_list gone f)" if "is_single_out f" for f
  proof (cases "f = ed_from e")
    case True
    then show ?thesis using assms(4) that by simp
  next
    case False
    then show ?thesis using assms(1) that by (auto simp: edges_ok_def)
  qed
  moreover have "length (filter (\<lambda>x. ed_from x = f \<and> ed_port x = p) (es @ [e])) \<le> 1" if "p \<noteq> []" for f p
  proof (cases "f = ed_from e \<and> p = ed_port e")
    case True
    then have "filter (\<lambda>x. ed_from x = f \<and> ed_port x = p) es = []" using assms(5) that by (simp add: filter_empty_conv)
    then show ?thesis by simp
  next
    case False
    then show ?thesis using assms(1) that by (auto simp: edges_ok_def)
  qed
  ultimately show ?thesis using assms(1-3) by (simp add: edges_ok_def)
qed

lemma edges_ok_fan_out:
  "\<lbrakk>edges_ok gone es; \<forall>i j. new i = new j \<longrightarrow> i = j; \<forall>j \<ge> i. new j \<notin> ed_id ` set es\<rbrakk> \<Longrightarrow> edges_ok gone (fan_out new to i fs es)"
proof (induction fs arbitrary: i es)
  case (Cons f fs)
  define es1 where "es1 = (if is_single_out f then filter (\<lambda>e. ed_from e \<noteq> f) es else es)"
  define e where "e = \<lparr>ed_id = new i, ed_from = f, ed_to = to, ed_port = []\<rparr>"
  define es2 where "es2 = (if f \<noteq> to \<and> \<not> list_ex (\<lambda>e. ed_from e = f \<and> ed_to e = to) es1 then es1 @ [e] else es1)"
  have sub: "set es1 \<subseteq> set es" by (auto simp: es1_def)
  have ok1: "edges_ok gone es1" using Cons.prems(1) by (simp add: es1_def edges_ok_filter)
  have new1: "\<forall>j \<ge> i. new j \<notin> ed_id ` set es1" using Cons.prems(3) sub by blast
  have "edges_ok gone (es1 @ [e])" if "f \<noteq> to"
    by (rule edges_ok_snoc [OF ok1]) (use new1 that in \<open>auto simp: e_def es1_def\<close>)
  then have "edges_ok gone es2" using ok1 by (simp add: es2_def)
  moreover have "\<forall>j \<ge> Suc i. new j \<notin> ed_id ` set es2"
  proof (intro allI impI)
    fix j assume j: "Suc i \<le> j"
    then have "new j \<noteq> new i" using Cons.prems(2) by (metis Suc_n_not_le_n)
    moreover have "new j \<notin> ed_id ` set es1" using new1 j by simp
    ultimately show "new j \<notin> ed_id ` set es2" by (auto simp: es2_def e_def)
  qed
  ultimately have "edges_ok gone (fan_out new to (Suc i) fs es2)" using Cons.IH Cons.prems(2) by blast
  then show ?case unfolding fan_out.simps Let_def es1_def es2_def e_def .
qed simp

lemma prune_edges [simp]: "gr_edges (prune_pointers g) = gr_edges g"
  by (simp add: prune_pointers_def)

lemma rewire_edges:
  "gr_edges (rewire new a b c g)
     = (let es = filter (\<lambda>e. \<not> (ed_from e = a \<and> ed_to e = b)) (gr_edges g)
        in if a \<noteq> c \<and> find (\<lambda>e. ed_from e = a \<and> ed_to e = c) es = None
           then es @ [\<lparr>ed_id = new 0, ed_from = a, ed_to = c,
                  ed_port = (case find (\<lambda>e. ed_from e = a \<and> ed_to e = b) (gr_edges g) of Some e \<Rightarrow> ed_port e | None \<Rightarrow> [])\<rparr>] else es)"
  by (auto simp: rewire_def Let_def split: option.splits prod.splits)

lemma at_most_one: "length (filter p xs) \<le> 1 \<Longrightarrow> x \<in> set xs \<Longrightarrow> y \<in> set xs \<Longrightarrow> p x \<Longrightarrow> p y \<Longrightarrow> x = y"
proof -
  assume a: "length (filter p xs) \<le> 1" "x \<in> set xs" "y \<in> set xs" "p x" "p y"
  then have xy: "x \<in> set (filter p xs)" "y \<in> set (filter p xs)" by simp_all
  then obtain z zs where z: "filter p xs = z # zs" by (cases "filter p xs") auto
  then have "zs = []" using a(1) by simp
  then have "set (filter p xs) = {z}" by (simp only: z list.set)
  then have "x \<in> {z}" "y \<in> {z}" using xy by simp_all
  then show "x = y" by simp
qed

lemma fewer_without:
  "x \<in> set xs \<Longrightarrow> p x \<Longrightarrow> q x \<Longrightarrow> Suc (length (filter p (filter (\<lambda>y. \<not> q y) xs))) \<le> length (filter p xs)"
proof (induction xs)
  case (Cons y ys)
  then show ?case using length_filter_conj [of "\<lambda>y. \<not> q y" p ys] by (auto simp: Suc_le_eq less_Suc_eq_le)
qed simp

lemma edges_ok_mono: "edges_ok gone es \<Longrightarrow> edges_ok (ago @ gone) es"
  by (force simp: edges_ok_def count_list_append intro: le_trans)

lemma edges_ok_rewire:
  assumes "edges_ok gone (gr_edges g)" "fresh_ids new g"
  shows "edges_ok (repointed_gone (Rewire a b c) g @ gone) (gr_edges (rewire new a b c g))"
proof -
  define gone' where "gone' = repointed_gone (Rewire a b c) g @ gone"
  define es where "es = filter (\<lambda>e. \<not> (ed_from e = a \<and> ed_to e = b)) (gr_edges g)"
  define port where "port = (case find (\<lambda>e. ed_from e = a \<and> ed_to e = b) (gr_edges g) of Some e \<Rightarrow> ed_port e | None \<Rightarrow> [])"
  have ok: "edges_ok gone' es" unfolding es_def gone'_def by (rule edges_ok_filter [OF edges_ok_mono [OF assms(1)]])
  have room: "length (filter (\<lambda>x. ed_from x = a) es) \<le> count_list gone' a" if "is_single_out a"
  proof (cases "list_ex (\<lambda>e. ed_from e = a \<and> ed_to e = b) (gr_edges g)")
    case True
    then obtain e where e: "e \<in> set (gr_edges g)" "ed_from e = a" "ed_to e = b" by (auto simp: list_ex_iff)
    have "length (filter (\<lambda>x. ed_from x = a) (gr_edges g)) \<le> Suc (count_list gone a)" using assms(1) that by (auto simp: edges_ok_def)
    then have "length (filter (\<lambda>x. ed_from x = a) es) \<le> count_list gone a"
      using fewer_without [of e "gr_edges g" "\<lambda>x. ed_from x = a" "\<lambda>x. ed_from x = a \<and> ed_to x = b"] e unfolding es_def by simp
    then show ?thesis using True by (simp add: gone'_def repointed_gone_def)
  next
    case False
    then have "length (filter (\<lambda>x. ed_from x = a) es) \<le> Suc (count_list gone a)"
      using edges_ok_filter [OF assms(1)] that unfolding es_def edges_ok_def by blast
    then show ?thesis using False by (simp add: gone'_def repointed_gone_def)
  qed
  have "edges_ok gone' (es @ [\<lparr>ed_id = new 0, ed_from = a, ed_to = c, ed_port = port\<rparr>])" if "a \<noteq> c"
  proof (rule edges_ok_snoc [OF ok])
    show "ed_id \<lparr>ed_id = new 0, ed_from = a, ed_to = c, ed_port = port\<rparr> \<notin> ed_id ` set es"
      using assms(2) by (auto simp: fresh_ids_def es_def)
    show "\<forall>x \<in> set es. \<not> (ed_from x = ed_from \<lparr>ed_id = new 0, ed_from = a, ed_to = c, ed_port = port\<rparr>
        \<and> ed_port x = ed_port \<lparr>ed_id = new 0, ed_from = a, ed_to = c, ed_port = port\<rparr>)"
      if "ed_port \<lparr>ed_id = new 0, ed_from = a, ed_to = c, ed_port = port\<rparr> \<noteq> []"
    proof -
      have p: "port \<noteq> []" using that by simp
      then obtain e where find: "find (\<lambda>e. ed_from e = a \<and> ed_to e = b) (gr_edges g) = Some e" and pe: "port = ed_port e"
        by (auto simp: port_def split: option.splits)
      then have e: "e \<in> set (gr_edges g)" "ed_from e = a" "ed_to e = b" by (auto simp: find_Some_iff)
      have "length (filter (\<lambda>x. ed_from x = a \<and> ed_port x = port) (gr_edges g)) \<le> 1" using assms(1) p by (auto simp: edges_ok_def)
      then have "x = e" if "x \<in> set (gr_edges g)" "ed_from x = a" "ed_port x = port" for x
        by (rule at_most_one [of "\<lambda>x. ed_from x = a \<and> ed_port x = port" "gr_edges g"]) (use \<open>length _ \<le> 1\<close> that e pe in auto)
      then show ?thesis using e(3) by (auto simp: es_def)
    qed
  qed (use that room in simp_all)
  then show ?thesis using ok unfolding rewire_edges gone'_def [symmetric] by (simp add: Let_def es_def port_def)
qed

lemma edges_ok_add_edge:
  assumes "edges_ok gone (gr_edges g)" "fresh_ids new g" "a \<noteq> b" "add_edge refs new a b role port g = Inr g'"
  shows "edges_ok gone (gr_edges g')"
proof -
  have new: "\<And>i. new i \<notin> ed_id ` set (gr_edges g)" "\<forall>i j. new i = new j \<longrightarrow> i = j"
    using assms(2) by (auto simp: fresh_ids_def)
  have not_in: "\<not> is_single_out a" if "prefix ''rule:'' a"
    using that by (auto simp: is_single_out_def prefix_def)
  have port: "edges_ok gone (gr_edges (add_port_edge new a b port g))" if "port \<noteq> []" "prefix ''rule:'' a"
    unfolding add_port_edge_def cv_graph.simps cv_graph.select_convs
    by (simp, rule edges_ok_snoc [OF edges_ok_filter [OF assms(1)]]) (use new that not_in assms(3) in auto)
  have role: "edges_ok gone (gr_edges (add_role_edge new a b role g))" if "prefix ''rule:'' a"
  proof -
    have "edges_ok gone (filter p (gr_edges g) @ [\<lparr>ed_id = new 0, ed_from = a, ed_to = b, ed_port = []\<rparr>])" for p
      by (rule edges_ok_snoc [OF edges_ok_filter [OF assms(1)]]) (use new not_in [OF that] assms(3) in auto)
    then show ?thesis
      using assms(1) by (auto simp: add_role_edge_def Let_def edges_ok_filter split: option.splits prod.splits)
  qed
  have fan: "edges_ok gone (fan_out new b 0 fs (gr_edges g))" for fs
    by (rule edges_ok_fan_out [OF assms(1) new(2)]) (use new(1) in blast)
  show ?thesis
    using assms(4) port role fan by (auto simp: add_edge_def split: if_splits)
qed

lemma edges_ok_edit:
  assumes "edges_ok gone (gr_edges g)" "fresh_ids new g" "board_edit refs new act g = Inr g'"
  shows "edges_ok (repointed_gone act g @ gone) (gr_edges g')"
proof (cases act)
  case (AddNode kind x y)
  then show ?thesis using assms by (auto simp: repointed_gone_def add_node_def split: if_splits)
next
  case (RemoveNode nid)
  then show ?thesis using assms by (auto simp: repointed_gone_def remove_node_def edges_ok_filter split: if_splits)
next
  case (AddEdge a b role port)
  then show ?thesis using assms edges_ok_add_edge by (auto simp: repointed_gone_def split: if_splits)
next
  case (Rewire a b c)
  then show ?thesis using assms edges_ok_rewire edges_ok_mono by (auto split: if_splits)
next
  case (DeleteBetween a b)
  then show ?thesis using assms by (auto simp: repointed_gone_def delete_between_def Let_def edges_ok_filter)
next
  case Heal
  then show ?thesis using assms by (auto simp: repointed_gone_def heal_def split: if_splits)
next
  case (SetConfig nid patch)
  then show ?thesis using assms by (auto simp: repointed_gone_def set_config_def)
next
  case (RemoveOutput nid out_id)
  then show ?thesis using assms by (auto simp: repointed_gone_def remove_output_def set_config_def edges_ok_filter)
qed

lemma edited_ok: "edited refs gone g \<Longrightarrow> edges_ok gone (gr_edges g)"
  by (induction rule: edited.induct) (auto intro: edges_ok_edit)

text \<open>(C16) 
  After any number of edits, whatever they are, no cable ends where it begins, no two share an id, each port of a schedule
  or a split has one cable at most, and so has a client's port: but for those left by a re-pointing of a cable that was gone
  when it ran, one each at most, which the code adds without taking any away.
\<close>

theorem rg_cables_stay_in_order:
  assumes "edited refs gone g"
  shows "(is_single_out f \<longrightarrow> length (filter (\<lambda>e. ed_from e = f) (gr_edges g)) \<le> 1 + count_list gone f)
       \<and> (p \<noteq> [] \<longrightarrow> length (filter (\<lambda>e. ed_from e = f \<and> ed_port e = p) (gr_edges g)) \<le> 1)
       \<and> (\<forall>e \<in> set (gr_edges g). ed_from e \<noteq> ed_to e) \<and> distinct (map ed_id (gr_edges g))"
  using edited_ok [OF assms] by (simp add: edges_ok_def)

section \<open>Adopting a stray cable settles\<close>

lemma js_or_truthy: "js_truthy (config_of n)"
  by (simp add: config_of_def js_or_def)

lemma out_edges_heal [simp]: "out_edges nid (heal g) = out_edges nid g"
  by (simp add: out_edges_def heal_def)

lemma role_keys_differ: "role_keys kind = Some (main, side) \<Longrightarrow> main \<noteq> side"
  by (auto simp: role_keys_def split: if_splits)

lemma heal_node_parts: "nd_type (heal_node g n) = nd_type n" "nd_id (heal_node g n) = nd_id n"
  by (auto simp: heal_node_def Let_def split: option.splits)

text \<open>What healing leaves of one node's config.\<close>

lemma healed_config:
  assumes "role_keys (nd_type n) = Some (main, side)" "\<exists>kvs. config_of n = JObj kvs" "\<forall>e \<in> set (gr_edges g). ed_id e \<noteq> []"
  defines "c \<equiv> config_of n" and "outs \<equiv> out_edges (nd_id n) g"
  defines "c' \<equiv> config_of (heal_node g n)"
  shows "jget c' side = jget c side"
    "if main_ok c main outs then main_ok c' main outs \<and> jget c' main = jget c main
     else case free_edge c side outs of
         Some e \<Rightarrow> main_ok c' main outs \<and> jget c' main = JStr (ed_id e)
       | None \<Rightarrow> \<not> main_ok c' main outs \<and> free_edge c' side outs = None"
proof -
  obtain kvs where kvs: "c = JObj kvs" using assms(2) by (auto simp: c_def)
  have differ: "side \<noteq> main" using role_keys_differ [OF assms(1)] by simp
  have node: "nd_config (heal_node g n) = (if main_ok c main outs then c
      else case free_edge c side outs of Some e \<Rightarrow> js_put main (JStr (ed_id e)) c | None \<Rightarrow> c)"
    by (simp add: heal_node_def Let_def assms(1) c_def outs_def split: option.split)
  then have c': "c' = (if main_ok c main outs then c
      else case free_edge c side outs of Some e \<Rightarrow> js_put main (JStr (ed_id e)) c | None \<Rightarrow> c)"
    unfolding c'_def config_of_def node by (auto simp: kvs js_put_def split: option.splits)
  show "jget c' side = jget c side" unfolding c' using differ by (auto split: option.splits)
  show "if main_ok c main outs then main_ok c' main outs \<and> jget c' main = jget c main
     else case free_edge c side outs of
         Some e \<Rightarrow> main_ok c' main outs \<and> jget c' main = JStr (ed_id e)
       | None \<Rightarrow> \<not> main_ok c' main outs \<and> free_edge c' side outs = None"
  proof (cases "main_ok c main outs")
    case True
    then show ?thesis by (simp add: c')
  next
    case False
    show ?thesis
    proof (cases "free_edge c side outs")
      case None
      then show ?thesis using False by (simp add: c')
    next
      case (Some e)
      then have "e \<in> set outs" by (auto simp: free_edge_def find_Some_iff)
      then have "ed_id e \<noteq> []" "list_ex (\<lambda>x. JStr (ed_id x) = JStr (ed_id e)) outs"
        using assms(3) by (auto simp: outs_def out_edges_def list_ex_iff)
      then have "main_ok (js_put main (JStr (ed_id e)) c) main outs" by (simp add: kvs main_ok_def)
      moreover have "jget (js_put main (JStr (ed_id e)) c) main = JStr (ed_id e)" by (simp add: kvs)
      ultimately show ?thesis using False Some by (simp add: c')
    qed
  qed
qed

definition plain_graph :: "cv_graph \<Rightarrow> bool" where
  "plain_graph g = ((\<forall>n \<in> set (gr_nodes g). \<exists>kvs. config_of n = JObj kvs) \<and> (\<forall>e \<in> set (gr_edges g). ed_id e \<noteq> []))"

lemma free_edge_none: "free_edge c side outs = None \<longleftrightarrow> \<not> list_ex (\<lambda>e. JStr (ed_id e) \<noteq> jget c side) outs"
  by (auto simp: free_edge_def find_None_iff list_ex_iff)

lemma healed_needs_none:
  assumes "plain_graph g" "n \<in> set (gr_nodes g)"
  shows "\<not> node_needs_heal (heal g) (heal_node g n)"
proof (cases "role_keys (nd_type n)")
  case None
  then show ?thesis by (simp add: node_needs_heal_def heal_node_parts)
next
  case (Some ks)
  obtain main side where ks: "role_keys (nd_type n) = Some (main, side)" using Some by (cases ks) simp
  have obj: "\<exists>kvs. config_of n = JObj kvs" "\<forall>e \<in> set (gr_edges g). ed_id e \<noteq> []"
    using assms by (auto simp: plain_graph_def)
  let ?c' = "config_of (heal_node g n)" and ?outs = "out_edges (nd_id n) g"
  have "main_ok ?c' main ?outs \<or> free_edge ?c' side ?outs = None"
    using healed_config(2) [OF ks obj] by (auto split: if_splits option.splits)
  then show ?thesis
    by (auto simp: node_needs_heal_def heal_node_parts ks Let_def free_edge_none)
qed

lemma heal_node_healthy:
  assumes "\<not> node_needs_heal g n"
  shows "heal_node g n = (case role_keys (nd_type n) of None \<Rightarrow> n | Some ks \<Rightarrow> n\<lparr>nd_config := config_of n\<rparr>)"
proof (cases "role_keys (nd_type n)")
  case (Some ks)
  obtain main side where ks: "ks = (main, side)" by (cases ks)
  let ?c = "config_of n" and ?outs = "out_edges (nd_id n) g"
  have "main_ok ?c main ?outs \<or> free_edge ?c side ?outs = None"
    using assms by (auto simp: node_needs_heal_def Some ks Let_def free_edge_none)
  then show ?thesis by (auto simp: heal_node_def Some ks Let_def)
qed (simp add: heal_node_def)

lemma heal_node_twice:
  assumes "plain_graph g" "n \<in> set (gr_nodes g)"
  shows "heal_node (heal g) (heal_node g n) = heal_node g n"
proof -
  have "config_of (heal_node g n) = nd_config (heal_node g n)" if some: "role_keys (nd_type n) \<noteq> None"
  proof -
    obtain main side where ks: "role_keys (nd_type n) = Some (main, side)" using some by auto
    obtain kvs where "config_of n = JObj kvs" using assms by (auto simp: plain_graph_def)
    then have "js_truthy (nd_config (heal_node g n))"
      by (auto simp: heal_node_def ks Let_def js_put_def split: option.splits)
    then show ?thesis by (simp add: config_of_def js_or_def)
  qed
  then show ?thesis
    using heal_node_healthy [OF healed_needs_none [OF assms]] by (auto simp: heal_node_parts split: option.splits)
qed

lemma healed_roles:
  assumes "plain_graph g" "n \<in> set (gr_nodes g)"
  shows "node_roles (heal g) (heal_node g n) = node_roles g n"
proof (cases "role_keys (nd_type n)")
  case None
  then show ?thesis by (simp add: node_roles_def heal_node_parts)
next
  case (Some ks)
  obtain main side where ks: "role_keys (nd_type n) = Some (main, side)" using Some by (cases ks) simp
  have obj: "\<exists>kvs. config_of n = JObj kvs" "\<forall>e \<in> set (gr_edges g). ed_id e \<noteq> []"
    using assms by (auto simp: plain_graph_def)
  show ?thesis
    using healed_config [OF ks obj]
    by (auto simp: node_roles_def heal_node_parts ks Let_def split: if_splits option.splits)
qed

text \<open>(C17) 
  Adopting a stray cable as the main role settles at once: a healed graph needs no healing, healing it again changes
  nothing, every cable keeps the role it was drawn with, and a node whose main role is there keeps its config as it was (an
  empty one where it had none).
\<close>

theorem rg_healing_settles:
  assumes "\<forall>n \<in> set (gr_nodes g). \<exists>kvs. config_of n = JObj kvs" "\<forall>e \<in> set (gr_edges g). ed_id e \<noteq> []"
  shows "\<not> needs_heal (heal g) \<and> heal (heal g) = heal g \<and> edge_roles (heal g) = edge_roles g
    \<and> length (gr_nodes (heal g)) = length (gr_nodes g)
    \<and> (\<forall>i < length (gr_nodes g). \<forall>main side. role_keys (nd_type (gr_nodes g ! i)) = Some (main, side)
          \<longrightarrow> main_ok (config_of (gr_nodes g ! i)) main (out_edges (nd_id (gr_nodes g ! i)) g)
          \<longrightarrow> gr_nodes (heal g) ! i = (gr_nodes g ! i)\<lparr>nd_config := config_of (gr_nodes g ! i)\<rparr>)"
proof -
  have plain: "plain_graph g" using assms by (simp add: plain_graph_def)
  have nodes: "gr_nodes (heal g) = map (heal_node g) (gr_nodes g)" by (simp add: heal_def)
  have "\<not> needs_heal (heal g)"
    using healed_needs_none [OF plain] by (auto simp: needs_heal_def nodes list_ex_iff)
  moreover have "heal (heal g) = heal g"
  proof -
    have "map (heal_node (heal g)) (map (heal_node g) (gr_nodes g)) = map (heal_node g) (gr_nodes g)"
      using heal_node_twice [OF plain] by simp
    then show ?thesis by (simp add: heal_def [of "heal g"] nodes)
  qed
  moreover have "edge_roles (heal g) = edge_roles g"
  proof -
    have roles: "map (node_roles (heal g) \<circ> heal_node g) (gr_nodes g) = map (node_roles g) (gr_nodes g)"
      using healed_roles [OF plain] by simp
    have refs: "fold (\<lambda>n m. if role_keys (nd_type n) = None then m else m(rule_ref (nd_id n) \<mapsto> main_role (nd_type n)))
        (map (heal_node g) ns) m
      = fold (\<lambda>n m. if role_keys (nd_type n) = None then m else m(rule_ref (nd_id n) \<mapsto> main_role (nd_type n))) ns m" for ns m
      by (induction ns arbitrary: m) (simp_all add: heal_node_parts)
    show ?thesis by (simp only: edge_roles_def nodes map_map roles refs)
  qed
  moreover have "gr_nodes (heal g) ! i = (gr_nodes g ! i)\<lparr>nd_config := config_of (gr_nodes g ! i)\<rparr>"
    if "i < length (gr_nodes g)" "role_keys (nd_type (gr_nodes g ! i)) = Some (main, side)"
      "main_ok (config_of (gr_nodes g ! i)) main (out_edges (nd_id (gr_nodes g ! i)) g)" for i main side
    using that by (simp add: nodes heal_node_def Let_def)
  ultimately show ?thesis by (simp add: nodes)
qed

section \<open>The ports of a schedule are those that reach it\<close>

definition cable_rel :: "cv_edge list \<Rightarrow> (string \<times> string) set" where
  "cable_rel es = (\<lambda>e. (ed_from e, ed_to e)) ` set es"

lemma reach_pass_sound:
  "\<forall>x \<in> set r. (x, target) \<in> (cable_rel all)\<^sup>* \<Longrightarrow> set es \<subseteq> set all \<Longrightarrow> x \<in> set (reach_pass es r) \<Longrightarrow> (x, target) \<in> (cable_rel all)\<^sup>*"
proof (induction es arbitrary: r)
  case (Cons e es)
  have "(ed_from e, ed_to e) \<in> cable_rel all" using Cons.prems(2) by (auto simp: cable_rel_def)
  then have "\<forall>y \<in> set (reach_step e r). (y, target) \<in> (cable_rel all)\<^sup>*"
    using Cons.prems(1) by (auto simp: reach_step_def intro: converse_rtrancl_into_rtrancl)
  then show ?case using Cons by (simp add: reach_pass_def)
qed (simp add: reach_pass_def)

lemma reach_pass_fixed:
  assumes "reach_pass es r = r" "e \<in> set es" "ed_to e \<in> set r"
  shows "ed_from e \<in> set r"
proof -
  have grow: "set r \<subseteq> set (reach_pass xs r)" for xs r by (rule reach_pass_more)
  obtain xs ys where es: "es = xs @ e # ys" using assms(2) by (auto simp: in_set_conv_decomp)
  have "ed_to e \<in> set (reach_pass xs r)" using grow assms(3) by blast
  then have "ed_from e \<in> set (reach_step e (reach_pass xs r))" by (auto simp: reach_step_def)
  then have "ed_from e \<in> set (reach_pass ys (reach_step e (reach_pass xs r)))" using grow by blast
  then show ?thesis using assms(1) by (simp add: es reach_pass_def)
qed

lemma grow_reach_set:
  "\<forall>x \<in> set r. (x, target) \<in> (cable_rel es)\<^sup>* \<Longrightarrow> target \<in> set r \<Longrightarrow> x \<in> set (grow_reach es r) \<longleftrightarrow> (x, target) \<in> (cable_rel es)\<^sup>*"
proof (induction es r rule: grow_reach.induct)
  case (1 es r)
  show ?case
  proof (cases "reach_pass es r = r")
    case True
    have "x \<in> set r" if "(x, target) \<in> (cable_rel es)\<^sup>*"
      using that
    proof (induction rule: converse_rtrancl_induct)
      case (step y z)
      then show ?case using reach_pass_fixed [OF True] by (auto simp: cable_rel_def)
    qed (rule "1.prems"(2))
    then show ?thesis using True "1.prems"(1) by (auto simp: grow_reach.simps [of es r])
  next
    case False
    have "\<forall>x \<in> set (reach_pass es r). (x, target) \<in> (cable_rel es)\<^sup>*"
      using reach_pass_sound [OF "1.prems"(1)] by blast
    moreover have "target \<in> set (reach_pass es r)" using reach_pass_more "1.prems"(2) by blast
    ultimately show ?thesis using "1.IH" [OF refl False] False by (simp add: grow_reach.simps [of es r])
  qed
qed

text \<open>(C18) The ports named on a schedule's card are exactly the client ports with a way of cables to it.\<close>

theorem rg_schedule_names_the_ports_that_reach_it:
  "port \<in> set (input_ports g nid)
   \<longleftrightarrow> (\<exists>ref. (ref, rule_ref nid) \<in> ((\<lambda>e. (ed_from e, ed_to e)) ` set (gr_edges g))\<^sup>* \<and> ref_port ref = Some port)"
proof -
  have "x \<in> set (grow_reach (gr_edges g) [rule_ref nid]) \<longleftrightarrow> (x, rule_ref nid) \<in> (cable_rel (gr_edges g))\<^sup>*" for x
    by (rule grow_reach_set) simp_all
  moreover have "port \<in> set (List.map_filter ref_port xs) \<longleftrightarrow> (\<exists>x \<in> set xs. ref_port x = Some port)" for xs
    by (force simp: List.map_filter_def)
  ultimately show ?thesis by (auto simp: input_ports_def cable_rel_def)
qed

section \<open>Two hours of a schedule on one model\<close>

definition two_hours :: cv_graph where
  "two_hours = \<lparr>gr_nodes = [\<lparr>nd_id = ''s'', nd_type = ''schedule'', nd_x = 0, nd_y = 0, nd_model = [], nd_config = JObj []\<rparr>],
     gr_edges = [\<lparr>ed_id = ''e1'', ed_from = ''rule:s'', ed_to = ''out:a'', ed_port = ''day''\<rparr>,
                 \<lparr>ed_id = ''e2'', ed_from = ''rule:s'', ed_to = ''out:a'', ed_port = ''night''\<rparr>,
                 \<lparr>ed_id = ''e3'', ed_from = ''in:c:8101'', ed_to = ''rule:s'', ed_port = []\<rparr>]\<rparr>"

text \<open>
  A second port wired to the same end makes a twin of the first cable (the controller keeps one of the two when it
  takes the graph), and re-pointing one takes both away.
\<close>

theorem rg_second_port_makes_a_twin:
  "map (\<lambda>e. (ed_from e, ed_to e)) (filter (\<lambda>e. ed_from e = ''rule:s'')
       (gr_edges (add_port_edge new ''rule:s'' ''out:a'' ''noon'' two_hours)))
     = replicate 3 (''rule:s'', ''out:a'')"
  by (simp add: add_port_edge_def two_hours_def numeral_3_eq_3)

theorem rg_repointing_takes_a_twin:
  "filter (\<lambda>e. ed_port e = ''night'') (gr_edges (rewire new ''rule:s'' ''out:a'' ''out:b'' two_hours)) = []"
  by (simp add: rewire_edges two_hours_def)

text \<open>
  A client's cable another tab has moved meanwhile: made again on the newer copy (a save refused as stale is), the
  re-pointing leaves the port two cables.
\<close>

theorem rg_gone_cable:
  "map ed_to (filter (\<lambda>e. ed_from e = ''in:c:8101'') (gr_edges (rewire new ''in:c:8101'' ''out:a'' ''out:b'' two_hours)))
     = [''rule:s'', ''out:b'']"
  by (simp add: rewire_edges two_hours_def)

text \<open>A node that is taken away leaves the pointers of other nodes to the cables that went with it.\<close>

definition queue_before :: cv_graph where
  "queue_before = two_hours\<lparr>gr_nodes := gr_nodes two_hours
     @ [\<lparr>nd_id = ''q'', nd_type = ''queue'', nd_x = 0, nd_y = 0, nd_model = [], nd_config = JObj [(''admitEdge'', JStr ''e4'')]\<rparr>],
     gr_edges := gr_edges two_hours @ [\<lparr>ed_id = ''e4'', ed_from = ''rule:q'', ed_to = ''rule:s'', ed_port = []\<rparr>]\<rparr>"

theorem rg_removal_leaves_a_pointer:
  "\<exists>g. remove_node ''s'' queue_before = Inr g \<and> gr_edges g = [] \<and> map (\<lambda>n. jget (nd_config n) ''admitEdge'') (gr_nodes g) = [JStr ''e4'']
     \<and> map (\<lambda>n. jget (nd_config n) ''admitEdge'') (gr_nodes (prune_pointers g)) = [JStr []]"
  by (simp add: remove_node_def graph_node_def queue_before_def two_hours_def rule_ref_def belongs_to_model_def prune_pointers_def
      prune_node_def prune_key_def role_keys_def js_put_def)

definition after_gone :: cv_graph where
  "after_gone = rewire (\<lambda>i. ''new'' @ replicate i CHR ''x'') ''in:c:8101'' ''out:a'' ''out:b'' two_hours"

theorem rg_cables_stay_in_order_witness:
  "distinct (map ed_id (gr_edges after_gone)) \<and> length (filter (\<lambda>e. ed_from e = ''in:c:8101'') (gr_edges after_gone)) \<le> 2"
proof -
  let ?new = "\<lambda>i. ''new'' @ replicate i CHR ''x''"
  have ids: "replicate i CHR ''x'' = replicate j CHR ''x'' \<Longrightarrow> i = j" for i j by (metis length_replicate)
  have "edges_ok [] (gr_edges two_hours)"
    by (auto simp: edges_ok_def two_hours_def is_single_out_def prefix_def)
  then have "edited (\<lambda>k. []) [] two_hours" by (rule edited.opened)
  moreover have "fresh_ids ?new two_hours" using ids by (auto simp: fresh_ids_def two_hours_def)
  moreover have "board_edit (\<lambda>k. []) ?new (Rewire ''in:c:8101'' ''out:a'' ''out:b'') two_hours = Inr after_gone"
    by (simp add: after_gone_def)
  ultimately have run: "edited (\<lambda>k. []) (repointed_gone (Rewire ''in:c:8101'' ''out:a'' ''out:b'') two_hours @ []) after_gone"
    by (rule edited.edit)
  have "count_list (repointed_gone (Rewire ''in:c:8101'' ''out:a'' ''out:b'') two_hours @ []) ''in:c:8101'' = 1" "is_single_out ''in:c:8101''"
    by (simp_all add: repointed_gone_def two_hours_def is_single_out_def prefix_def)
  then show ?thesis using rg_cables_stay_in_order [OF run, of "''in:c:8101''" "[]"] by simp
qed

theorem rg_healing_settles_witness:
  "\<not> needs_heal (heal queue_before) \<and> heal (heal queue_before) = heal queue_before"
proof -
  have "\<forall>n \<in> set (gr_nodes queue_before). \<exists>kvs. config_of n = JObj kvs" "\<forall>e \<in> set (gr_edges queue_before). ed_id e \<noteq> []"
    by (auto simp: queue_before_def two_hours_def config_of_def)
  then show ?thesis using rg_healing_settles by blast
qed

end
