(* ===== verification/CanvasBoard.thy ===== *)
theory CanvasBoard
  imports RouterGraph
begin

text \<open>
  The board of Routing's canvas (\<open>Board\<close>, \<open>ScheduleNode\<close>, the panels of the other nodes and \<open>History\<close> in \<open>canvas.js\<close>): its
  view, where a dropped node comes to stand, the cables' curve, the strokes that paint a schedule's week with
  the saves behind them, and the settings of a node. A grid is seven days of twenty-four hours, each an output's
  id or none. What a drag does with the graph is \<open>RouterGraph\<close>'s.
\<close>

section \<open>The view\<close>

record cv_view =
  vw_tx :: rat
  vw_ty :: rat
  vw_scale :: rat

record cv_rect =
  rx :: rat
  ry :: rat
  rw :: rat
  rh :: rat

definition client_to_world :: "cv_view \<Rightarrow> rat \<times> rat \<Rightarrow> rat \<times> rat" where
  "client_to_world v p = ((fst p - vw_tx v) / vw_scale v, (snd p - vw_ty v) / vw_scale v)"

text \<open>\<open>p\<close> is a point of the viewport: the pointer less the viewport's own place.\<close>

definition zoom_at :: "bool \<Rightarrow> rat \<times> rat \<Rightarrow> cv_view \<Rightarrow> cv_view" where
  "zoom_at closer p v =
     (let old = vw_scale v; to = min (22 / 10) (max (35 / 100) (old * (if closer then 11 / 10 else 10 / 11)))
      in \<lparr>vw_tx = fst p - (fst p - vw_tx v) * (to / old), vw_ty = snd p - (snd p - vw_ty v) * (to / old), vw_scale = to\<rparr>)"

definition initial_view :: "cv_graph \<Rightarrow> cv_view" where
  "initial_view g =
     (let nodes = filter (\<lambda>n. \<not> belongs_to_model n) (gr_nodes g)
      in if nodes = [] then \<lparr>vw_tx = 24, vw_ty = 24, vw_scale = 1\<rparr>
         else \<lparr>vw_tx = 24 - Min (set (map nd_x nodes)), vw_ty = 24 - Min (set (map nd_y nodes)), vw_scale = 1\<rparr>)"

definition fit_view :: "cv_rect \<Rightarrow> rat \<Rightarrow> rat \<Rightarrow> rat \<Rightarrow> cv_view" where
  "fit_view box width height margin =
     (let room = min ((width - 2 * margin) / rw box) ((height - 2 * margin) / rh box);
          scale = min 1 (max (35 / 100) room)
      in \<lparr>vw_tx = of_int (js_round ((width - rw box * scale) / 2 - rx box * scale)),
          vw_ty = of_int (js_round ((height - rh box * scale) / 2 - ry box * scale)), vw_scale = scale\<rparr>)"

definition box_of :: "cv_rect list \<Rightarrow> cv_rect" where
  "box_of rs =
     (let x = Min (set (map rx rs)); y = Min (set (map ry rs))
      in \<lparr>rx = x, ry = y, rw = Max (set (map (\<lambda>r. rx r + rw r) rs)) - x, rh = Max (set (map (\<lambda>r. ry r + rh r) rs)) - y\<rparr>)"

text \<open>\<open>fitAll\<close>: nothing to fit is no move.\<close>

definition fit_all :: "cv_rect list \<Rightarrow> rat \<Rightarrow> rat \<Rightarrow> cv_view \<Rightarrow> cv_view" where
  "fit_all rs width height v = (if rs = [] then v else fit_view (box_of rs) width height 32)"

section \<open>Cables\<close>

record cv_anchor =
  an_x :: rat
  an_y :: rat
  an_dir :: rat \<comment> \<open>0 where the source gives none\<close>

definition curve_controls :: "cv_anchor \<Rightarrow> cv_anchor \<Rightarrow> (rat \<times> rat) list" where
  "curve_controls a b =
     (let dx = max 48 (\<bar>an_x b - an_x a\<bar> * (48 / 100));
          c1 = an_x a + (if an_dir a \<noteq> 0 then an_dir a else 1) * dx; c2 = an_x b - dx
      in [(an_x a, an_y a), (c1, an_y a), (c2, an_y b), (an_x b, an_y b)])"

definition curve_at :: "(rat \<times> rat) list \<Rightarrow> rat \<Rightarrow> rat \<times> rat" where
  "curve_at ps t =
     (let u = 1 - t; w = [u * u * u, 3 * u * u * t, 3 * u * t * t, t * t * t]
      in (sum_list (map2 (\<lambda>k p. k * fst p) w ps), sum_list (map2 (\<lambda>k p. k * snd p) w ps)))"

definition curve_mid :: "cv_anchor \<Rightarrow> cv_anchor \<Rightarrow> rat \<times> rat" where
  "curve_mid a b =
     (let ps = curve_controls a b; c1 = fst (ps ! 1); c2 = fst (ps ! 2)
      in ((an_x a + 3 * c1 + 3 * c2 + an_x b) / 8, (an_y a + 3 * an_y a + 3 * an_y b + an_y b) / 8))"

definition tenth :: "rat \<Rightarrow> rat" where
  "tenth v = of_int (js_round (v * 10)) / 10"

text \<open>The stretches inside a box: the runs of two points or more, the one still open last.\<close>

fun inside_runs :: "(rat \<times> rat \<Rightarrow> bool) \<Rightarrow> (rat \<times> rat) list option \<Rightarrow> (rat \<times> rat) list \<Rightarrow> (rat \<times> rat) list list" where
  "inside_runs p run [] = (case run of Some r \<Rightarrow> if length r > 1 then [r] else [] | None \<Rightarrow> [])"
| "inside_runs p run (q # qs) =
     (if p q then inside_runs p (Some ((case run of Some r \<Rightarrow> r | None \<Rightarrow> []) @ [(tenth (fst q), tenth (snd q))])) qs
      else (case run of Some r \<Rightarrow> if length r > 1 then [r] else [] | None \<Rightarrow> []) @ inside_runs p None qs)"

definition under_runs :: "cv_anchor \<Rightarrow> cv_anchor \<Rightarrow> cv_rect \<Rightarrow> nat \<Rightarrow> rat \<Rightarrow> (rat \<times> rat) list list" where
  "under_runs a b box steps inset =
     (let ps = curve_controls a b;
          inside = (\<lambda>(x, y). rx box + inset < x \<and> x < rx box + rw box - inset \<and> ry box + inset < y \<and> y < ry box + rh box - inset)
      in inside_runs inside None (map (\<lambda>i. curve_at ps (of_nat i / of_nat steps)) [0..<Suc steps]))"

section \<open>A dropped node\<close>

definition overlap_x :: "rat \<Rightarrow> rat \<Rightarrow> cv_rect \<Rightarrow> rat" where
  "overlap_x x w ob = min (x + w + 48 - rx ob) (rx ob + rw ob + 48 - x)"

definition overlap_y :: "rat \<Rightarrow> rat \<Rightarrow> cv_rect \<Rightarrow> rat" where
  "overlap_y y h ob = min (y + h + 48 - ry ob) (ry ob + rh ob + 48 - y)"

definition clear_of :: "rat \<Rightarrow> rat \<Rightarrow> rat \<times> rat \<Rightarrow> cv_rect \<Rightarrow> bool" where
  "clear_of w h pos ob = (overlap_x (fst pos) w ob \<le> 0 \<or> overlap_y (snd pos) h ob \<le> 0)"

definition bump :: "rat \<Rightarrow> rat \<Rightarrow> cv_rect \<Rightarrow> rat \<times> rat \<Rightarrow> rat \<times> rat" where
  "bump w h ob pos =
     (let (x, y) = pos; dx = overlap_x x w ob; dy = overlap_y y h ob
      in if clear_of w h pos ob then pos
         else if dx \<le> dy then (x + (if x + w / 2 < rx ob + rw ob / 2 then - dx else dx), y)
         else (x, y + (if y + h / 2 < ry ob + rh ob / 2 then - dy else dy)))"

text \<open>One round over the others, and whether it moved the node; at most eighty rounds.\<close>

definition bump_round :: "rat \<Rightarrow> rat \<Rightarrow> cv_rect list \<Rightarrow> rat \<times> rat \<Rightarrow> bool \<times> rat \<times> rat" where
  "bump_round w h others pos = fold (\<lambda>ob (moved, pos). (moved \<or> \<not> clear_of w h pos ob, bump w h ob pos)) others (False, pos)"

fun bump_rounds :: "nat \<Rightarrow> rat \<Rightarrow> rat \<Rightarrow> cv_rect list \<Rightarrow> rat \<times> rat \<Rightarrow> rat \<times> rat" where
  "bump_rounds 0 w h others pos = pos"
| "bump_rounds (Suc n) w h others pos =
     (case bump_round w h others pos of (moved, pos') \<Rightarrow> if moved then bump_rounds n w h others pos' else pos')"

definition resolve_overlap :: "cv_rect \<Rightarrow> cv_rect list \<Rightarrow> (rat \<times> rat) option" where
  "resolve_overlap node others =
     (let (x, y) = bump_rounds 80 (rw node) (rh node) others (rx node, ry node);
          rounded = (of_int (js_round x), of_int (js_round y))
      in if rounded \<noteq> (rx node, ry node) then Some rounded else None)"

subsection \<open>The drags of a node and of the ground\<close>

definition view_centre :: "(rat \<times> rat) option \<Rightarrow> cv_view \<Rightarrow> rat \<times> rat" where
  "view_centre viewport v = (let (w, h) = (case viewport of Some s \<Rightarrow> s | None \<Rightarrow> (800, 600))
     in (of_int (js_round ((w / 2 - vw_tx v) / vw_scale v)), of_int (js_round ((h / 2 - vw_ty v) / vw_scale v))))"

text \<open>Where a node stands under the pointer: its place and the pointer's at the press, and the pointer's now.\<close>

definition dragged_to :: "cv_view \<Rightarrow> rat \<times> rat \<Rightarrow> rat \<times> rat \<Rightarrow> rat \<times> rat \<Rightarrow> rat \<times> rat" where
  "dragged_to v from_at press now = (fst from_at + (fst now - fst press) / vw_scale v, snd from_at + (snd now - snd press) / vw_scale v)"

definition panned_to :: "cv_view \<Rightarrow> rat \<times> rat \<Rightarrow> rat \<times> rat \<Rightarrow> cv_view \<Rightarrow> cv_view" where
  "panned_to pressed press now v = v\<lparr>vw_tx := vw_tx pressed + (fst now - fst press), vw_ty := vw_ty pressed + (snd now - snd press)\<rparr>"

text \<open>
  The places of drops not saved yet (\<open>Board.pos\<close>). The code compares the place by its identity, so each has the
  number it was made under.
\<close>

record held_places =
  hd_pos :: "string \<rightharpoonup> nat \<times> (rat \<times> rat)"
  hd_made :: nat

definition hold_place :: "string \<Rightarrow> rat \<times> rat \<Rightarrow> held_places \<Rightarrow> held_places" where
  "hold_place i spot s = s\<lparr>hd_pos := (hd_pos s)(i \<mapsto> (hd_made s, spot)), hd_made := Suc (hd_made s)\<rparr>"

definition drag_node :: "string \<Rightarrow> rat \<times> rat \<Rightarrow> held_places \<Rightarrow> held_places" where
  "drag_node i spot = hold_place i (of_int (js_round (fst spot)), of_int (js_round (snd spot)))"

text \<open>The drop: where it was nudged to is its place; a rule node's place is saved, with the number it has.\<close>

definition drop_node :: "string \<Rightarrow> (rat \<times> rat) option \<Rightarrow> held_places \<Rightarrow> held_places \<times> (string \<times> nat \<times> (rat \<times> rat)) option" where
  "drop_node i nudged s =
     (if \<not> prefix ''rule:'' i then (s, None)
      else let s1 = (case nudged of Some spot \<Rightarrow> hold_place i spot s | None \<Rightarrow> s)
           in (s1, map_option (\<lambda>held. (drop 5 i, held)) (hd_pos s1 i)))"

text \<open>Its save has ended, kept or not.\<close>

definition place_settled :: "string \<Rightarrow> nat \<Rightarrow> held_places \<Rightarrow> held_places" where
  "place_settled i stamp s = (case hd_pos s i of
     Some (k, spot) \<Rightarrow> if k = stamp then s\<lparr>hd_pos := (hd_pos s)(i := None)\<rparr> else s | None \<Rightarrow> s)"

section \<open>A schedule's week\<close>

type_synonym grid = "string option list list"

definition schedule_colors :: "string list" where
  "schedule_colors = [''#60a5fa'', ''#f59e0b'', ''#22c55e'', ''#ef4444'', ''#a78bfa'', ''#ec4899'', ''#14b8a6'', ''#eab308'']"

definition color_of :: "js list \<Rightarrow> js \<Rightarrow> string" where
  "color_of outputs out_id = (case index_of out_id (map (\<lambda>ob. jget ob ''id'') outputs) of
     None \<Rightarrow> [] | Some i \<Rightarrow> schedule_colors ! (i mod length schedule_colors))"

definition hour_cell :: "js \<Rightarrow> string option" where
  "hour_cell v = (if js_truthy v then Some (js_string v) else None)"

definition make_grid :: "js \<Rightarrow> grid" where
  "make_grid cfg =
     (let raw = js_list (jget cfg ''grid'')
      in map (\<lambda>d. map (\<lambda>h. if d < length raw \<and> js_is_array (raw ! d) \<and> h < length (js_list (raw ! d))
                           then hour_cell (js_list (raw ! d) ! h) else None) [0..<24]) [0..<7])"

definition grid_set :: "nat \<Rightarrow> nat \<Rightarrow> string option \<Rightarrow> grid \<Rightarrow> grid" where
  "grid_set d h v g = g[d := (g ! d)[h := v]]"

definition grid_json :: "grid \<Rightarrow> js" where
  "grid_json g = JArr (map (\<lambda>row. JArr (map (\<lambda>c. case c of Some s \<Rightarrow> JStr s | None \<Rightarrow> JNull) row)) g)"

subsection \<open>The saves of one node\<close>

record save_queue =
  svq_busy :: bool
  svq_next :: "grid option"

definition svq_idle :: save_queue where
  "svq_idle = \<lparr>svq_busy = False, svq_next = None\<rparr>"

text \<open>\<open>saveGrid\<close>, and the end of its call, kept or refused; each with the grids sent.\<close>

definition svq_save :: "grid \<Rightarrow> save_queue \<Rightarrow> save_queue \<times> grid list" where
  "svq_save g q = (if svq_busy q then (q\<lparr>svq_next := Some g\<rparr>, []) else (q\<lparr>svq_busy := True\<rparr>, [g]))"

definition svq_settle :: "bool \<Rightarrow> save_queue \<Rightarrow> save_queue \<times> grid list" where
  "svq_settle ok q =
     (let q1 = q\<lparr>svq_busy := False\<rparr>
      in case svq_next q1 of Some g \<Rightarrow> svq_save g (q1\<lparr>svq_next := None\<rparr>) | None \<Rightarrow> (q1, []))"

interpretation week: single_flight svq_busy svq_save svq_settle
  by unfold_locales (auto simp: svq_save_def svq_settle_def Let_def split: if_splits option.splits)

subsection \<open>The strokes\<close>

record painter =
  pt_painting :: bool
  pt_nid :: "string option"
  pt_pending :: "(string \<times> grid) option"
  pt_ids :: "string \<rightharpoonup> string"
  pt_working :: "string \<rightharpoonup> grid"
  pt_queue :: "string \<Rightarrow> save_queue"

definition pt_new :: painter where
  "pt_new = \<lparr>pt_painting = False, pt_nid = None, pt_pending = None, pt_ids = Map.empty, pt_working = Map.empty,
     pt_queue = (\<lambda>nid. svq_idle)\<rparr>"

text \<open>The config of a node as the page has it now (\<open>JUndef\<close> for none) is the argument \<open>cfg\<close>.\<close>

definition paint_id :: "(string \<Rightarrow> js) \<Rightarrow> string \<Rightarrow> painter \<Rightarrow> string" where
  "paint_id cfg nid p = (case pt_ids p nid of Some i \<Rightarrow> i
     | None \<Rightarrow> (case js_list (jget (cfg nid) ''outputs'') of ob # obs \<Rightarrow> js_text (jget ob ''id'') | [] \<Rightarrow> []))"

definition paint_cell :: "(string \<Rightarrow> js) \<Rightarrow> string \<Rightarrow> nat \<Rightarrow> nat \<Rightarrow> painter \<Rightarrow> painter" where
  "paint_cell cfg nid d h p = (case pt_pending p of
     Some (nid', g) \<Rightarrow> if nid' \<noteq> nid then p
       else let i = paint_id cfg nid p; v = (if i = [] \<or> i = ''__default__'' then None else Some i)
            in p\<lparr>pt_pending := Some (nid, grid_set d h v g)\<rparr>
   | None \<Rightarrow> p)"

definition press_cell :: "(string \<Rightarrow> js) \<Rightarrow> string \<Rightarrow> nat \<Rightarrow> nat \<Rightarrow> painter \<Rightarrow> painter" where
  "press_cell cfg nid d h p =
     (let g = (case pt_working p nid of Some g \<Rightarrow> g | None \<Rightarrow> make_grid (cfg nid))
      in paint_cell cfg nid d h (p\<lparr>pt_painting := True, pt_nid := Some nid, pt_pending := Some (nid, g)\<rparr>))"

definition over_cell :: "(string \<Rightarrow> js) \<Rightarrow> string \<Rightarrow> nat \<Rightarrow> nat \<Rightarrow> painter \<Rightarrow> painter" where
  "over_cell cfg nid d h p = (if \<not> pt_painting p \<or> pt_nid p \<noteq> Some nid then p else paint_cell cfg nid d h p)"

definition save_grid :: "string \<Rightarrow> grid \<Rightarrow> painter \<Rightarrow> painter \<times> (string \<times> grid) list" where
  "save_grid nid g p = (let (q, sent) = svq_save g (pt_queue p nid) in (p\<lparr>pt_queue := (pt_queue p)(nid := q)\<rparr>, map (Pair nid) sent))"

definition end_paint :: "painter \<Rightarrow> painter \<times> (string \<times> grid) list" where
  "end_paint p = (case pt_pending p of
     Some (nid, g) \<Rightarrow> if \<not> pt_painting p then (p, [])
       else save_grid nid g (p\<lparr>pt_painting := False, pt_working := (pt_working p)(nid \<mapsto> g), pt_pending := None, pt_nid := None\<rparr>)
   | None \<Rightarrow> (p, []))"

definition settle_grid :: "string \<Rightarrow> bool \<Rightarrow> painter \<Rightarrow> painter \<times> (string \<times> grid) list" where
  "settle_grid nid ok p = (let (q, sent) = svq_settle ok (pt_queue p nid) in (p\<lparr>pt_queue := (pt_queue p)(nid := q)\<rparr>, map (Pair nid) sent))"

datatype paint_event = PressCell string nat nat | OverCell string nat nat | PointerUp | ChipClick string string | Settled string bool

fun paint_step :: "(string \<Rightarrow> js) \<Rightarrow> paint_event \<Rightarrow> painter \<Rightarrow> painter \<times> (string \<times> grid) list" where
  "paint_step cfg (PressCell nid d h) p = (press_cell cfg nid d h p, [])"
| "paint_step cfg (OverCell nid d h) p = (over_cell cfg nid d h p, [])"
| "paint_step cfg PointerUp p = end_paint p"
| "paint_step cfg (ChipClick nid out_id) p = (p\<lparr>pt_ids := (pt_ids p)(nid \<mapsto> out_id)\<rparr>, [])"
| "paint_step cfg (Settled nid ok) p = (if svq_busy (pt_queue p nid) then settle_grid nid ok p else (p, []))"

text \<open>A run of events, each with the configs of then: the board and all that was sent.\<close>

definition paint_run :: "((string \<Rightarrow> js) \<times> paint_event) list \<Rightarrow> painter \<times> (string \<times> grid) list" where
  "paint_run es = fold (\<lambda>(cfg, e) (p, sent). let (p', new) = paint_step cfg e p in (p', sent @ new)) es (pt_new, [])"

section \<open>The settings of a node\<close>

text \<open>\<open>parseInt(raw, 10) || 0\<close>.\<close>

definition parse_int0 :: "string \<Rightarrow> int" where
  "parse_int0 raw =
     (let s = trim_start raw; neg = (s \<noteq> [] \<and> hd s = CHR ''-'');
          u = (if neg \<or> (s \<noteq> [] \<and> hd s = CHR ''+'') then tl s else s); v = int (digits_val (takeWhile is_digit u))
      in if neg then - v else v)"

definition clamp_setting :: "int \<Rightarrow> int \<Rightarrow> string \<Rightarrow> int" where
  "clamp_setting lo hi raw = max lo (min hi (parse_int0 (js_trim raw)))"

definition slots_setting :: "string \<Rightarrow> js" where
  "slots_setting raw =
     (if js_trim raw = [] then JNull
      else let n = parse_int0 (js_trim raw) in JNum (of_int (max 1 (min 64 (if n = 0 then 1 else n)))))"

definition set_queue_field :: "string \<Rightarrow> string \<Rightarrow> int \<Rightarrow> int \<Rightarrow> js \<Rightarrow> js" where
  "set_queue_field key raw lo hi cfg =
     js_put key (if key = ''maxSlots'' then slots_setting raw else JNum (of_int (clamp_setting lo hi raw))) cfg"

text \<open>The weights of a split, read from its boxes: cable and text.\<close>

definition set_weights :: "(string \<times> string) list \<Rightarrow> js \<Rightarrow> js" where
  "set_weights boxes cfg = js_put ''weights'' (JArr (map (\<lambda>(e, raw).
     JObj [(''edge'', JStr e), (''pct'', JNum (of_int (max 0 (min 100 (parse_int0 raw)))))]) boxes)) cfg"

text \<open>The order a failover's panel lists, and a press of its arrows (\<open>None\<close>: nothing is saved).\<close>

definition failover_order :: "js \<Rightarrow> cv_edge list \<Rightarrow> string list" where
  "failover_order cfg edges =
     (let saved = js_list (jget cfg ''order'')
      in if saved \<noteq> [] then filter (\<lambda>i. i \<in> set (map ed_id edges)) (map js_string saved) else map ed_id edges)"

definition swap_ids :: "nat \<Rightarrow> nat \<Rightarrow> 'a list \<Rightarrow> 'a list" where
  "swap_ids i j xs = xs[i := xs ! j, j := xs ! i]"

definition move_order :: "string \<times> bool \<Rightarrow> string list \<Rightarrow> string list option" where
  "move_order p ids = (case p of (i, up) \<Rightarrow>
     (case index_of i ids of None \<Rightarrow> None
      | Some k \<Rightarrow> if up then (if k = 0 then None else Some (swap_ids k (k - 1) ids))
                 else if k + 1 \<ge> length ids then None else Some (swap_ids k (k + 1) ids)))"

subsection \<open>A schedule's outputs\<close>

definition add_output :: "string \<Rightarrow> js \<Rightarrow> js" where
  "add_output new cfg =
     (let outs = js_list (jget cfg ''outputs'');
          cfg1 = js_put ''outputs'' (JArr (outs @ [JObj [(''id'', JStr new), (''name'', JStr (''output '' @ nat_str (length outs + 1)))]])) cfg
      in if js_truthy (jget cfg1 ''grid'') then cfg1 else js_put ''grid'' empty_grid cfg1)"

definition output_name :: "string \<Rightarrow> string \<Rightarrow> string" where
  "output_name typed fallback = (let n = take 40 (js_trim typed) in if n = [] then fallback else n)"

definition rename_output :: "string \<Rightarrow> string \<Rightarrow> js \<Rightarrow> js" where
  "rename_output out_id typed cfg =
     (let outs = js_list (jget cfg ''outputs'')
      in if find (\<lambda>ob. jget ob ''id'' = JStr out_id) outs = None then cfg
         else js_put ''outputs'' (JArr (upd_first (\<lambda>ob. jget ob ''id'' = JStr out_id)
                (js_put ''name'' (JStr (output_name typed ''output''))) outs)) cfg)"

definition rename_default :: "string \<Rightarrow> js \<Rightarrow> js" where
  "rename_default typed cfg = js_put ''defaultName'' (JStr (output_name typed ''default'')) cfg"

text \<open>The output the week gives an hour, by the name a folded card says.\<close>

definition active_name :: "dict \<Rightarrow> js \<Rightarrow> nat \<Rightarrow> nat \<Rightarrow> string" where
  "active_name t cfg d h = (case make_grid cfg ! d ! h of
     None \<Rightarrow> js_string (js_or (jget cfg ''defaultName'') (JStr ''default''))
   | Some i \<Rightarrow> (case find (\<lambda>ob. jget ob ''id'' = JStr i) (js_list (jget cfg ''outputs'')) of
       Some ob \<Rightarrow> js_string (js_or (jget ob ''name'') (JStr (t ''cvLabelOutput'' []))) | None \<Rightarrow> t ''cvLabelOutput'' []))"

definition node_type_label :: "dict \<Rightarrow> string \<Rightarrow> string" where
  "node_type_label t kind =
     (case map_of [(''schedule'', ''cvNodeSchedule''), (''weighted'', ''cvNodeWeighted''), (''roundRobin'', ''cvNodeRoundRobin''),
        (''failover'', ''cvNodeFailover''), (''queue'', ''cvNodeQueue''), (''requestType'', ''cvNodeByType''),
        (''requestSize'', ''cvNodeBySize''), (''onError'', ''cvNodeOnError'')] kind of Some k \<Rightarrow> t k [] | None \<Rightarrow> kind)"

definition weighted_summary :: "dict \<Rightarrow> js \<Rightarrow> string" where
  "weighted_summary t cfg =
     (let s = js_join '' / '' (map (\<lambda>w. js_string (jget w ''pct'') @ ''%'') (js_list (jget cfg ''weights'')))
      in if s = [] then t ''cvSumNoWeights'' [] else s)"

definition failover_summary :: "dict \<Rightarrow> js \<Rightarrow> string" where
  "failover_summary t cfg = t ''cvSumInOrder'' [(''n'', nat_str (length (js_list (jget cfg ''order''))))]"

section \<open>The lines of a history\<close>

definition history_time :: "rat option \<Rightarrow> string" where
  "history_time ms = (case ms of None \<Rightarrow> dash
     | Some v \<Rightarrow> if v < 0 then dash else if v < 1000 then rat_str v @ ''ms''
         else if v < 60000 then to_fixed 1 (v / 1000) @ ''s''
         else let m = \<lfloor>v / 60000\<rfloor>; s = js_round (js_rem v 60000 / 1000)
              in int_str m @ ''m'' @ (if s > 0 then '' '' @ int_str s @ ''s'' else []))"

definition after_last_slash :: "string \<Rightarrow> string" where
  "after_last_slash s = rev (takeWhile (\<lambda>c. c \<noteq> CHR ''/'') (rev s))"

definition drop_gguf :: "string \<Rightarrow> string" where
  "drop_gguf s = (let n = length s - 5 in if length s \<ge> 5 \<and> js_lower (drop n s) = ''.gguf'' then take n s else s)"

text \<open>\<open>/^\d+(\.\d+)?[BbMm]?$/\<close>: "27B", "3.6".\<close>

definition size_token :: "string \<Rightarrow> bool" where
  "size_token s =
     (let r = dropWhile is_digit s;
          r2 = (case r of c # q \<Rightarrow> if c = CHR ''.'' \<and> q \<noteq> [] \<and> is_digit (hd q) then dropWhile is_digit q else r | [] \<Rightarrow> [])
      in s \<noteq> [] \<and> is_digit (hd s) \<and> (r2 = [] \<or> r2 \<in> {''B'', ''b'', ''M'', ''m''}))"

fun short_model :: "string list \<Rightarrow> string list \<Rightarrow> string option" where
  "short_model before [] = None"
| "short_model before (w # ws) =
     (if size_token w \<and> length w > 1
      then let named = filter (\<lambda>x. x \<noteq> []) before in Some ((if named \<noteq> [] then last named else if before \<noteq> [] then hd before else w) @ ''-'' @ w)
      else short_model (before @ [w]) ws)"

text \<open>The model of a row, and whether the request went over to a cloud.\<close>

definition history_model :: "js \<Rightarrow> string \<times> bool" where
  "history_model item =
     (if js_truthy (jget (jget item ''queue'') ''cloudFallback'') \<or> jget item ''upstreamType'' = JStr ''cloud''
      then (js_string (js_or (jget item ''model'') (JStr ''cloud'')), True)
      else let m = js_string (js_or (jget (jget item ''stream'') ''model'') (js_or (jget item ''model'') (JStr [])))
           in if m = [] then (''?'', False)
              else let base = drop_gguf (after_last_slash m)
                   in (case short_model [] (split_by (\<lambda>c. c = CHR ''-'' \<or> c = CHR ''_'') base) of Some s \<Rightarrow> s | None \<Rightarrow> base, False))"

section \<open>The view keeps what it shows\<close>

text \<open>The wheel keeps the point under the pointer where it is, and the scale within its limits.\<close>

theorem cvb_zoom_keeps_the_point:
  assumes "0 < vw_scale v"
  shows "client_to_world (zoom_at closer p v) p = client_to_world v p
       \<and> 35 / 100 \<le> vw_scale (zoom_at closer p v) \<and> vw_scale (zoom_at closer p v) \<le> 22 / 10"
proof -
  define to where "to = min (22 / 10) (max (35 / 100) (vw_scale v * (if closer then 11 / 10 else 10 / 11)))"
  have to: "35 / 100 \<le> to" "to \<le> 22 / 10" by (simp_all add: to_def)
  have z: "zoom_at closer p v = \<lparr>vw_tx = fst p - (fst p - vw_tx v) * (to / vw_scale v),
      vw_ty = snd p - (snd p - vw_ty v) * (to / vw_scale v), vw_scale = to\<rparr>"
    unfolding zoom_at_def Let_def to_def ..
  have k: "(q - (q - (q - u) * (to / vw_scale v))) / to = (q - u) / vw_scale v" for q u :: rat
    using to assms by (simp add: field_simps)
  show ?thesis using to by (simp add: z client_to_world_def k)
qed

lemma fit_axis:
  fixes w :: rat
  assumes "w * s \<le> width - 2 * margin"
  shows "margin - 1 / 2 \<le> x * s + of_int (js_round ((width - w * s) / 2 - x * s))
       \<and> (x + w) * s + of_int (js_round ((width - w * s) / 2 - x * s)) \<le> width - margin + 1 / 2"
proof -
  define r y :: rat where "r = of_int (js_round ((width - w * s) / 2 - x * s))" and "y = (width - w * s) / 2 - x * s"
  have "\<bar>r - y\<bar> \<le> 1 / 2" using js_round_near [of y] by (simp add: r_def y_def)
  then have "r \<le> y + 1 / 2" "y - 1 / 2 \<le> r" by linarith+
  moreover have "2 * y = width - w * s - 2 * (x * s)" by (simp add: y_def field_simps)
  ultimately show ?thesis using assms unfolding r_def [symmetric] distrib_right by linarith
qed

text \<open>"Show all" shows all: the box stands within the viewport's margins (to half a pixel), unless it would have to be drawn too small.\<close>

theorem cvb_fit_shows_all:
  assumes "0 < rw box" "0 < rh box" "35 / 100 \<le> (width - 2 * margin) / rw box" "35 / 100 \<le> (height - 2 * margin) / rh box"
  defines "v \<equiv> fit_view box width height margin"
  shows "margin - 1 / 2 \<le> rx box * vw_scale v + vw_tx v \<and> (rx box + rw box) * vw_scale v + vw_tx v \<le> width - margin + 1 / 2
       \<and> margin - 1 / 2 \<le> ry box * vw_scale v + vw_ty v \<and> (ry box + rh box) * vw_scale v + vw_ty v \<le> height - margin + 1 / 2
       \<and> vw_scale v \<le> 1"
proof -
  define s where "s = min 1 (max (35 / 100) (min ((width - 2 * margin) / rw box) ((height - 2 * margin) / rh box)))"
  have s: "s \<le> (width - 2 * margin) / rw box" "s \<le> (height - 2 * margin) / rh box" "s \<le> 1"
    using assms(3,4) by (auto simp: s_def min_def max_def)
  have "rw box * s \<le> width - 2 * margin" "rh box * s \<le> height - 2 * margin"
    using s assms(1,2) by (simp_all add: pos_le_divide_eq mult.commute)
  note fit_axis [OF this(1), of "rx box"] fit_axis [OF this(2), of "ry box"]
  moreover have "v = \<lparr>vw_tx = of_int (js_round ((width - rw box * s) / 2 - rx box * s)),
      vw_ty = of_int (js_round ((height - rh box * s) / 2 - ry box * s)), vw_scale = s\<rparr>"
    unfolding v_def fit_view_def Let_def s_def ..
  ultimately show ?thesis using s(3) by simp
qed

lemma cvb_zoom_keeps_the_point_witness:
  "client_to_world (zoom_at True (120, 80) \<lparr>vw_tx = 24, vw_ty = 24, vw_scale = 1\<rparr>) (120, 80) = (96, 56)"
  using cvb_zoom_keeps_the_point [of "\<lparr>vw_tx = 24, vw_ty = 24, vw_scale = 1\<rparr>" True "(120, 80)"]
  by (simp add: client_to_world_def)

lemma cvb_fit_shows_all_witness:
  "vw_scale (fit_view \<lparr>rx = -40, ry = 10, rw = 800, rh = 300\<rparr> 640 480 32) \<le> 1"
  using cvb_fit_shows_all [of "\<lparr>rx = -40, ry = 10, rw = 800, rh = 300\<rparr>" 640 32 480] by simp

section \<open>A dropped node stands clear\<close>

lemma bump_clears: "clear_of w h (bump w h ob pos) ob"
proof (cases "clear_of w h pos ob")
  case True
  then show ?thesis by (simp add: bump_def Let_def case_prod_unfold)
next
  case False
  obtain x y where p: "pos = (x, y)" by (cases pos)
  show ?thesis
  proof (cases "overlap_x x w ob \<le> overlap_y y h ob")
    case True
    have "overlap_x (x + (if x + w / 2 < rx ob + rw ob / 2 then - overlap_x x w ob else overlap_x x w ob)) w ob \<le> 0"
      by (auto simp: overlap_x_def min_def)
    then show ?thesis using False True by (simp add: bump_def Let_def p clear_of_def)
  next
    case f: False
    have "overlap_y (y + (if y + h / 2 < ry ob + rh ob / 2 then - overlap_y y h ob else overlap_y y h ob)) h ob \<le> 0"
      by (auto simp: overlap_y_def min_def)
    then show ?thesis using False f by (simp add: bump_def Let_def p clear_of_def)
  qed
qed

lemma bump_round_still:
  "fold (\<lambda>ob (moved, pos). (moved \<or> \<not> clear_of w h pos ob, bump w h ob pos)) others (m, pos) = (False, pos') \<longleftrightarrow>
   \<not> m \<and> pos' = pos \<and> (\<forall>ob \<in> set others. clear_of w h pos ob)"
proof (induction others arbitrary: m pos)
  case (Cons ob others)
  have "clear_of w h pos ob \<Longrightarrow> bump w h ob pos = pos" by (simp add: bump_def Let_def case_prod_unfold)
  then show ?case using Cons by auto
qed auto

text \<open>
  A dropped node that stands clear of the others stays; one bump clears the neighbour it is for; and the rounds end
  only with the node clear of every other, or after the eightieth.
\<close>

theorem cvb_dropped_node_stands_clear:
  "clear_of w h (bump w h ob pos) ob
   \<and> ((\<forall>ob \<in> set others. clear_of w h pos ob) \<longrightarrow> bump_rounds (Suc n) w h others pos = pos)
   \<and> (bump_round w h others pos = (False, pos') \<longrightarrow> (\<forall>ob \<in> set others. clear_of w h pos' ob))"
proof -
  have "bump_rounds (Suc n) w h others pos = pos" if "\<forall>ob \<in> set others. clear_of w h pos ob"
  proof -
    have "bump_round w h others pos = (False, pos)" using that by (simp add: bump_round_def bump_round_still)
    then show ?thesis by simp
  qed
  moreover have "\<forall>ob \<in> set others. clear_of w h pos' ob" if "bump_round w h others pos = (False, pos')"
    using that by (simp add: bump_round_def bump_round_still)
  ultimately show ?thesis using bump_clears by blast
qed

lemma cvb_dropped_node_stands_clear_witness:
  "clear_of 100 60 (bump 100 60 \<lparr>rx = 0, ry = 0, rw = 100, rh = 60\<rparr> (20, 10)) \<lparr>rx = 0, ry = 0, rw = 100, rh = 60\<rparr>
   \<and> bump_rounds 1 100 60 [] (20, 10) = (20, 10)"
  using cvb_dropped_node_stands_clear [of 100 60 "\<lparr>rx = 0, ry = 0, rw = 100, rh = 60\<rparr>" "(20, 10)" "[]" 0 "(20, 10)"]
  by simp

text \<open>
  A drop is held until the end of its own save: a node dragged again meanwhile stays where the newer drag has it.
\<close>

theorem cvb_drop_is_held_until_saved:
  assumes "prefix ''rule:'' i" "hd_pos s i = Some (k, spot)" "\<forall>j m p. hd_pos s j = Some (m, p) \<longrightarrow> m < hd_made s"
  shows "\<exists>m p. drop_node i nudged s = (fst (drop_node i nudged s), Some (drop 5 i, m, p))
       \<and> hd_pos (place_settled i m (fst (drop_node i nudged s))) i = None
       \<and> hd_pos (place_settled i m (drag_node i q (fst (drop_node i nudged s)))) i = hd_pos (drag_node i q (fst (drop_node i nudged s))) i"
  using assms by (cases nudged) (fastforce simp: drop_node_def hold_place_def drag_node_def place_settled_def)+

lemma cvb_drop_is_held_until_saved_witness:
  "fst (drop_node ''rule:n1'' None \<lparr>hd_pos = [''rule:n1'' \<mapsto> (0, (10, 20))], hd_made = 1\<rparr>)
   = \<lparr>hd_pos = [''rule:n1'' \<mapsto> (0, (10, 20))], hd_made = 1\<rparr>"
  using cvb_drop_is_held_until_saved [of "''rule:n1''" "\<lparr>hd_pos = [''rule:n1'' \<mapsto> (0, (10, 20))], hd_made = 1\<rparr>" 0 "(10, 20)" None "(1, 1)"]
  by (simp add: drop_node_def)

section \<open>The strokes and their saves\<close>

definition sent_to :: "string \<Rightarrow> (string \<times> grid) list \<Rightarrow> grid list" where
  "sent_to nid sent = map snd (filter (\<lambda>s. fst s = nid) sent)"

lemma sent_to_simps [simp]:
  "sent_to nid [] = []"
  "sent_to nid (a @ b) = sent_to nid a @ sent_to nid b"
  "sent_to nid (x # a) = (if fst x = nid then [snd x] else []) @ sent_to nid a"
  "sent_to nid (map (Pair nid') gs) = (if nid' = nid then gs else [])"
  by (induction gs) (auto simp: sent_to_def)

text \<open>What holds of a node between two events: \<open>last_kept\<close>.\<close>

definition last_kept :: "string \<Rightarrow> painter \<Rightarrow> (string \<times> grid) list \<Rightarrow> bool" where
  "last_kept nid p sent = (case pt_working p nid of
     None \<Rightarrow> pt_queue p nid = svq_idle \<and> sent_to nid sent = []
   | Some g \<Rightarrow> if svq_next (pt_queue p nid) = None then sent_to nid sent \<noteq> [] \<and> last (sent_to nid sent) = g
              else svq_busy (pt_queue p nid) \<and> svq_next (pt_queue p nid) = Some g)"

lemma last_kept_cong:
  "pt_working p' nid = pt_working p nid \<Longrightarrow> pt_queue p' nid = pt_queue p nid \<Longrightarrow> last_kept nid p sent \<Longrightarrow> last_kept nid p' sent"
  unfolding last_kept_def by (simp only:)

lemma paint_cell_keeps [simp]:
  "pt_working (paint_cell cfg nid d h p) = pt_working p" "pt_queue (paint_cell cfg nid d h p) = pt_queue p"
  by (simp_all add: paint_cell_def Let_def split: option.splits)

lemma step_last_kept:
  assumes "last_kept nid p sent" "paint_step cfg e p = (p', new)"
  shows "last_kept nid p' (sent @ new)"
proof (cases e)
  case PointerUp
  then show ?thesis using assms
    by (auto simp: end_paint_def save_grid_def svq_save_def svq_idle_def last_kept_def
             split: option.splits if_splits prod.splits)
next
  case (Settled nid' ok)
  then show ?thesis using assms
    by (auto simp: settle_grid_def svq_settle_def svq_save_def svq_idle_def last_kept_def Let_def
             split: option.splits if_splits prod.splits)
next
  case (PressCell nid' d h)
  then have "p' = press_cell cfg nid' d h p" "new = []" using assms(2) by auto
  then show ?thesis using last_kept_cong [OF _ _ assms(1), of p'] by (simp add: press_cell_def Let_def)
next
  case (OverCell nid' d h)
  then have "p' = over_cell cfg nid' d h p" "new = []" using assms(2) by auto
  then show ?thesis using last_kept_cong [OF _ _ assms(1), of p'] by (simp add: over_cell_def)
next
  case (ChipClick nid' i)
  then have "p' = p\<lparr>pt_ids := (pt_ids p)(nid' \<mapsto> i)\<rparr>" "new = []" using assms(2) by auto
  then show ?thesis using last_kept_cong [OF _ _ assms(1), of p'] by simp
qed

lemma run_last_kept: "last_kept nid (fst (paint_run es)) (snd (paint_run es))"
proof (induction es rule: rev_induct)
  case Nil
  then show ?case by (simp add: paint_run_def pt_new_def last_kept_def svq_idle_def)
next
  case (snoc x es)
  obtain cfg e where x: "x = (cfg, e)" by (cases x)
  obtain p sent where r: "paint_run es = (p, sent)" by (cases "paint_run es")
  obtain p' new where n: "paint_step cfg e p = (p', new)" by (cases "paint_step cfg e p")
  have "paint_run (es @ [x]) = (p', sent @ new)" using r n by (simp add: paint_run_def x)
  then show ?case using step_last_kept [OF _ n] snoc.IH r by simp
qed

text \<open>(C21) 
  Whatever strokes, chips and answers come in whatever order: the last grid painted on a node is the last one
  sent for it, or the one that goes out next, behind the call on its way; and while that call is on its way
  nothing else goes out for the node but by its answer.
\<close>

theorem cvb_last_stroke_is_saved:
  fixes es :: "((string \<Rightarrow> js) \<times> paint_event) list"
  defines "p \<equiv> fst (paint_run es)" and "sent \<equiv> snd (paint_run es)"
  shows "(pt_working p nid = Some g \<longrightarrow>
            (svq_busy (pt_queue p nid) \<and> svq_next (pt_queue p nid) = Some g)
          \<or> (svq_next (pt_queue p nid) = None \<and> sent_to nid sent \<noteq> [] \<and> last (sent_to nid sent) = g))
       \<and> (svq_busy (pt_queue p nid) \<and> \<not> (\<exists>ok. e = Settled nid ok) \<longrightarrow> sent_to nid (snd (paint_step cfg e p)) = [])"
proof (rule conjI)
  show "pt_working p nid = Some g \<longrightarrow> (svq_busy (pt_queue p nid) \<and> svq_next (pt_queue p nid) = Some g)
        \<or> (svq_next (pt_queue p nid) = None \<and> sent_to nid sent \<noteq> [] \<and> last (sent_to nid sent) = g)"
    using run_last_kept [of nid es] by (auto simp: last_kept_def p_def sent_def split: if_splits)
  show "svq_busy (pt_queue p nid) \<and> \<not> (\<exists>ok. e = Settled nid ok) \<longrightarrow> sent_to nid (snd (paint_step cfg e p)) = []"
    by (cases e) (auto simp: end_paint_def save_grid_def settle_grid_def
        dest: week.start_while_busy_sends_nothing split: option.splits prod.splits if_splits)
qed

lemma one_stroke:
  "paint_run [(\<lambda>n. JUndef, PressCell ''s'' 0 0), (\<lambda>n. JUndef, PointerUp)]
   = (pt_new\<lparr>pt_working := [''s'' \<mapsto> grid_set 0 0 None (make_grid JUndef)],
        pt_queue := (\<lambda>n. svq_idle)(''s'' := \<lparr>svq_busy = True, svq_next = None\<rparr>)\<rparr>,
      [(''s'', grid_set 0 0 None (make_grid JUndef))])"
  by (simp add: paint_run_def press_cell_def paint_cell_def paint_id_def end_paint_def save_grid_def svq_save_def
      pt_new_def svq_idle_def Let_def)

lemma cvb_last_stroke_is_saved_witness:
  "last (sent_to ''s'' (snd (paint_run [(\<lambda>n. JUndef, PressCell ''s'' 0 0), (\<lambda>n. JUndef, PointerUp)])))
   = grid_set 0 0 None (make_grid JUndef)"
  using cvb_last_stroke_is_saved [of "[(\<lambda>n. JUndef, PressCell ''s'' 0 0), (\<lambda>n. JUndef, PointerUp)]" "''s''"
      "grid_set 0 0 None (make_grid JUndef)" PointerUp "\<lambda>n. JUndef", unfolded one_stroke]
  by (simp add: one_stroke)

text \<open>
  A stroke starts from the grid this page painted last on the node, whatever week the node has by now: every
  other hour goes out as this page left it, what another page painted since and what was removed included.
\<close>

theorem cvb_stroke_sends_this_pages_week:
  assumes "pt_working p nid = Some g" "\<not> svq_busy (pt_queue p nid)" "d < length g" "h < length (g ! d)"
  obtains g' where "snd (end_paint (press_cell cfg nid d h p)) = [(nid, g')]"
    "\<forall>d' h'. d' \<noteq> d \<or> h' \<noteq> h \<longrightarrow> g' ! d' ! h' = g ! d' ! h'"
proof -
  define g' where "g' = grid_set d h (let i = paint_id cfg nid p in if i = [] \<or> i = ''__default__'' then None else Some i) g"
  have "snd (end_paint (press_cell cfg nid d h p)) = [(nid, g')]"
    using assms(1,2) by (simp add: press_cell_def paint_cell_def end_paint_def save_grid_def svq_save_def g'_def paint_id_def Let_def)
  moreover have "\<forall>d' h'. d' \<noteq> d \<or> h' \<noteq> h \<longrightarrow> g' ! d' ! h' = g ! d' ! h'"
    using assms(3,4) by (auto simp: g'_def grid_set_def nth_list_update)
  ultimately show thesis by (rule that)
qed

section \<open>A node's settings\<close>

text \<open>A setting that is kept is within its limits, whatever was typed; an empty number of slots is no limit.\<close>

lemma clamp_within: "lo \<le> hi \<Longrightarrow> lo \<le> clamp_setting lo hi raw \<and> clamp_setting lo hi raw \<le> hi"
  by (simp add: clamp_setting_def)

lemma mset_swap_ids:
  assumes "i < length xs" "j < length xs"
  shows "mset (swap_ids i j xs) = mset xs"
  using assms by (simp add: swap_ids_def mset_swap)

lemma index_of_less: "index_of x xs = Some i \<Longrightarrow> i < length xs"
  by (simp add: index_of_SomeD)

interpretation failover_arrows: rearranging move_order
  by unfold_locales (auto simp: move_order_def mset_swap_ids dest: index_of_less split: option.splits if_splits prod.splits)

text \<open>A request of 119.7 seconds is written "1m 60s".\<close>

lemma history_sixty_seconds: "history_time (Some 119700) = ''1m 60s''"
  by code_simp

end
