(* ===== verification/MonitorFeed.thy ===== *)
theory MonitorFeed
  imports Utils Interfaces
begin

text \<open>
  The page's beat (\<open>polling.js\<close>): the monitor's series, held here and topped up by what is newer, one question at a time;
  the rows of each machine, topped up by that machine's own clock; the drawer's panes, their intervals and their texts.
  A time, a retention or a setting is the number the value reads as. \<open>monitor_state\<close> and \<open>rows_since\<close> are what the
  controller answers (\<open>monitoring.py\<close>, \<open>host_telemetry.py\<close>): the laws below are of the two ends together.
\<close>

section \<open>Figures\<close>

definition metric_number :: "js \<Rightarrow> rat" where
  "metric_number v = num_of v"

definition strip_end :: "char \<Rightarrow> string \<Rightarrow> string" where
  "strip_end c s = rev (dropWhile (\<lambda>x. x = c) (rev s))"

definition drop_point :: "string \<Rightarrow> string" where
  "drop_point s = (if s \<noteq> [] \<and> last s = CHR ''.'' then butlast s else s)"

definition format_tps :: "js \<Rightarrow> string" where
  "format_tps v = (let n = metric_number v
     in if n \<ge> 100 then to_fixed 1 n else if n \<ge> 10 then to_fixed 2 n
        else drop_point (strip_end (CHR ''0'') (to_fixed 3 n)))"

section \<open>The series\<close>

definition figure :: "string \<Rightarrow> js \<Rightarrow> rat" where
  "figure k v = num_of (js_or (jget v k) (JNum 0))"

text \<open>\<open>start > 0 ? out.slice(start) : out\<close>, of the first one that \<open>p\<close> holds of.\<close>

definition from_first :: "('a \<Rightarrow> bool) \<Rightarrow> 'a list \<Rightarrow> 'a list" where
  "from_first p xs = (if list_ex p xs then dropWhile (\<lambda>x. \<not> p x) xs else xs)"

definition join_since :: "rat \<Rightarrow> js list \<Rightarrow> js list \<Rightarrow> js list" where
  "join_since cutoff old add = from_first (\<lambda>s. figure ''time'' s \<ge> cutoff) (old @ add)"

definition row_time :: "js \<Rightarrow> rat" where
  "row_time r = num_of (jget r ''t'')"

definition newest_row :: "js list \<Rightarrow> rat" where
  "newest_row rows = (if rows = [] then 0 else row_time (last rows))"

definition trim_rows :: "rat \<Rightarrow> js list \<Rightarrow> js list" where
  "trim_rows retention rows = from_first (\<lambda>r. row_time r \<ge> newest_row rows - retention) rows"

definition top_up_rows :: "rat \<Rightarrow> js list \<Rightarrow> js list \<Rightarrow> js list" where
  "top_up_rows retention have_rows add =
     trim_rows retention (have_rows @ filter (\<lambda>r. js_truthy r \<and> row_time r > newest_row have_rows) add)"

definition merge_host_rows :: "rat \<Rightarrow> js \<Rightarrow> js \<Rightarrow> js" where
  "merge_host_rows retention old add =
     fold (\<lambda>(i, rows) out. js_put i (JArr (top_up_rows retention (js_list (jget out i)) (js_list rows))) out)
       (js_fields add) (js_or old (JObj []))"

definition hosts_held :: "js \<Rightarrow> string" where
  "hosts_held hosts = js_join '','' (map (\<lambda>(i, rows). i @ '':'' @ js_string (jget (last (js_list rows)) ''t''))
     (filter (\<lambda>(i, rows). js_list rows \<noteq> []) (js_fields hosts)))"

section \<open>The page's copy\<close>

record feed =
  mo_payload :: js \<comment> \<open>\<open>ui.latestSystemMonitor\<close>\<close>
  mo_since :: js
  mo_asking :: bool

definition mo_new :: feed where
  "mo_new = \<lparr>mo_payload = JNull, mo_since = JNum 0, mo_asking = False\<rparr>"

definition merge_monitor :: "js \<Rightarrow> feed \<Rightarrow> feed" where
  "merge_monitor payload f =
     (let prev = mo_payload f
      in if \<not> js_truthy (jget payload ''partial'') \<or> \<not> js_truthy prev
         then f\<lparr>mo_payload := payload, mo_since := js_or (jget payload ''newestSample'') (JNum 0)\<rparr>
         else let now = figure ''time'' payload;
                  cutoff = now - num_of (js_or (jget payload ''retentionSeconds'') (JNum 600));
                  old_cutoff = now - num_of (js_or (jget payload ''incidentRetentionSeconds'') (JNum 86400));
                  merged = js_put ''hosts'' (merge_host_rows 600 (jget prev ''hosts'') (jget payload ''hosts''))
                    (js_put ''incidents'' (JArr (join_since old_cutoff (js_list (jget prev ''incidents'')) (js_list (jget payload ''incidents''))))
                      (js_put ''samples'' (JArr (join_since cutoff (js_list (jget prev ''samples'')) (js_list (jget payload ''samples'')))) payload))
              in f\<lparr>mo_payload := merged, mo_since := js_or (jget payload ''newestSample'') (mo_since f)\<rparr>)"

text \<open>\<open>enc\<close> is \<open>encodeURIComponent\<close>.\<close>

definition monitor_url :: "(string \<Rightarrow> string) \<Rightarrow> feed \<Rightarrow> string" where
  "monitor_url enc f =
     (if \<not> js_truthy (mo_since f) then ''/api/system-monitor''
      else let held = hosts_held (jget (mo_payload f) ''hosts'')
           in ''/api/system-monitor?since='' @ js_string (mo_since f) @ (if held \<noteq> [] then ''&hostsSince='' @ enc held else []))"

text \<open>A tick of either timer, and the end of its question (\<open>None\<close>: it failed, or took too long).\<close>

definition feed_tick :: "(string \<Rightarrow> string) \<Rightarrow> feed \<Rightarrow> feed \<times> string list" where
  "feed_tick enc f = (if mo_asking f then (f, []) else (f\<lparr>mo_asking := True\<rparr>, [monitor_url enc f]))"

definition feed_told :: "js option \<Rightarrow> feed \<Rightarrow> feed \<times> string list" where
  "feed_told a f = ((case a of Some payload \<Rightarrow> merge_monitor payload f | None \<Rightarrow> f)\<lparr>mo_asking := False\<rparr>, [])"

interpretation beat: single_flight mo_asking feed_tick feed_told
  by unfold_locales (auto simp: feed_tick_def feed_told_def merge_monitor_def Let_def split: if_splits option.splits)

text \<open>
  The board's own beat asks only while the board is shown and the drawer's does not; an answer answer_repaints the
  cards unless a form is open or a card is carried.
\<close>

definition board_tick :: "(string \<Rightarrow> string) \<Rightarrow> string \<Rightarrow> bool \<Rightarrow> feed \<Rightarrow> feed \<times> string list" where
  "board_tick enc view drawer_on f = (if view \<noteq> ''topology'' \<or> drawer_on then (f, []) else feed_tick enc f)"

definition answer_repaints :: "bool \<Rightarrow> bool \<Rightarrow> bool \<Rightarrow> bool" where
  "answer_repaints has_board form_open dragging = (has_board \<and> \<not> form_open \<and> \<not> dragging)"

text \<open>A save of the settings, or of the ports, brings the whole monitor with its answer.\<close>

definition feed_saved :: "js \<Rightarrow> feed \<Rightarrow> feed" where
  "feed_saved monitor f = f\<lparr>mo_payload := monitor\<rparr>"

definition port_saved :: "js \<Rightarrow> feed \<Rightarrow> feed" where
  "port_saved monitor f = f\<lparr>mo_payload := js_or monitor (mo_payload f)\<rparr>"

definition retention_sent :: "js \<Rightarrow> rat" where
  "retention_sent v = max 60 (min (num_of (js_or v (JNum 600))) 3600)"

section \<open>The other end\<close>

text \<open>
  The samples so far, oldest first; \<open>since\<close> as the question names it, 0 for the whole series (a text that is no whole number is
  read as 0). The clock is read twice, in fractions of a second: when the history is trimmed (\<open>trimmed\<close>) and when the answer is
  made (\<open>now\<close>), which says it in whole seconds.
\<close>

definition window :: "rat \<Rightarrow> rat \<Rightarrow> js list \<Rightarrow> js list" where
  "window retention trimmed series = dropWhile (\<lambda>s. figure ''time'' s < trimmed - retention) series"

definition whole_since :: "rat \<Rightarrow> rat" where
  "whole_since since = (if rat_int since then since else 0)"

definition monitor_state :: "rat \<Rightarrow> rat \<Rightarrow> rat \<Rightarrow> js list \<Rightarrow> rat \<Rightarrow> js" where
  "monitor_state retention trimmed now series since =
     (let all = window retention trimmed series; newest = (if all = [] then JNum 0 else JNum (figure ''time'' (last all))); from_then = whole_since since
      in JObj ([(''retentionSeconds'', JNum retention),
                (''samples'', JArr (if from_then > 0 then filter (\<lambda>s. figure ''time'' s > from_then) all else all))]
               @ (if from_then > 0 then [(''partial'', JBool True)] else [])
               @ [(''newestSample'', newest), (''time'', JNum (of_int \<lfloor>now\<rfloor>))]))"

definition rows_since :: "rat \<Rightarrow> js list \<Rightarrow> js list" where
  "rows_since held rows = filter (\<lambda>r. row_time r > held) rows"

section \<open>The drawer's panes\<close>

text \<open>An interval in whole or broken seconds, between one and thirty; what a save writes back into its box.\<close>

definition interval_seconds :: "js \<Rightarrow> rat" where
  "interval_seconds v = min (max (num_of (js_or v (JNum 1))) 1) 30"

definition monitor_interval_ms :: "js \<Rightarrow> rat" where
  "monitor_interval_ms v = interval_seconds v * 1000"

definition interval_key :: "string \<Rightarrow> string" where
  "interval_key kind = ''llamacpp-monitor-interval-'' @ kind"

definition save_interval :: "js \<Rightarrow> string" where
  "save_interval v = rat_str (interval_seconds v)"

definition restore_interval :: "string option \<Rightarrow> string \<Rightarrow> string" where
  "restore_interval saved shown = (case saved of None \<Rightarrow> shown
     | Some s \<Rightarrow> if s = [] then shown else (case str_number s of Fin r \<Rightarrow> rat_str (min (max r 1) 30) | _ \<Rightarrow> shown))"

definition nvidia_url :: "(string \<Rightarrow> string) \<Rightarrow> string \<Rightarrow> string" where
  "nvidia_url enc source = (if source \<noteq> ''local'' then ''/api/topology/client-monitor?hostId='' @ enc source @ ''&kind=nvidia-smi''
     else ''/api/monitor/nvidia-smi'')"

text \<open>
  A pane is its HTML; \<open>text_of\<close> is its text as the browser reads it, \<open>esc\<close> the HTML of a text put into it, \<open>stamp\<close> the
  time of day.
\<close>

definition stamp_line :: "string \<Rightarrow> string \<Rightarrow> string" where
  "stamp_line stamp said = ''<span class=\"monitor-stamp\">['' @ stamp @ ''] '' @ said @ ''</span>'' @ [CHR 10, CHR 10]"

definition pane_told :: "(string \<Rightarrow> string) \<Rightarrow> string \<Rightarrow> string \<Rightarrow> js \<Rightarrow> string" where
  "pane_told esc stamp kind data =
     (let source = js_string (js_or (jget data ''source'') (JStr kind))
      in if js_truthy (jget data ''html'') then stamp_line stamp source @ js_string (jget data ''html'')
         else esc (''['' @ stamp @ ''] '' @ source @ [CHR 10, CHR 10] @ js_string (js_or (jget data ''output'') (JStr ''no output''))))"

definition has_snapshot :: "(string \<Rightarrow> string) \<Rightarrow> string \<Rightarrow> bool" where
  "has_snapshot text_of pane = (js_trim (text_of pane) \<noteq> [] \<and> js_trim (text_of pane) \<noteq> ''hover to start'')"

definition failed_line :: "string \<Rightarrow> string \<Rightarrow> string" where
  "failed_line stamp err = stamp_line stamp (''refresh failed: '' @ escape_html err @ ''; keeping previous snapshot'')"

definition pane_failed :: "(string \<Rightarrow> string) \<Rightarrow> (string \<Rightarrow> string) \<Rightarrow> string \<Rightarrow> string \<Rightarrow> string \<Rightarrow> string" where
  "pane_failed text_of esc stamp err pane = (if has_snapshot text_of pane then failed_line stamp err @ pane else esc err)"

text \<open>One question of a pane at a time; the live beat's, of the page's branch, the same.\<close>

definition pane_tick :: "string \<Rightarrow> bool \<Rightarrow> bool \<times> string list" where
  "pane_tick url asking = (if asking then (True, []) else (True, [url]))"

definition live_url :: string where
  "live_url = ''/api/project-git''"

definition asked_end :: "'a \<Rightarrow> bool \<Rightarrow> bool \<times> string list" where
  "asked_end a asking = (False, [])"

interpretation pane: single_flight "\<lambda>asking. asking" pane_tick asked_end
  by unfold_locales (auto simp: pane_tick_def asked_end_def split: if_splits)

section \<open>Topping up is having it whole\<close>

lemma from_first_sorted:
  assumes "sorted (map f xs)" "\<exists>x \<in> set xs. c \<le> f x"
  shows "from_first (\<lambda>x. f x \<ge> c) xs = filter (\<lambda>x. f x \<ge> (c :: rat)) xs"
proof -
  have "dropWhile (\<lambda>x. \<not> c \<le> f x) xs = filter (\<lambda>x. c \<le> f x) xs" using assms(1)
  proof (induction xs)
    case (Cons x xs)
    then show ?case by (auto simp: filter_id_conv) (metis filter_True order_trans)
  qed simp
  then show ?thesis using assms(2) by (auto simp: from_first_def list_ex_iff)
qed

lemma dropWhile_sorted:
  "sorted (map f xs) \<Longrightarrow> dropWhile (\<lambda>x. f x < (c :: rat)) xs = filter (\<lambda>x. f x \<ge> c) xs"
proof (induction xs)
  case (Cons x xs)
  then show ?case by (auto simp: not_less) (metis filter_True order_trans)
qed simp

lemma newest_row_max: "sorted (map row_time rows) \<Longrightarrow> r \<in> set rows \<Longrightarrow> row_time r \<le> newest_row rows"
  by (cases rows rule: rev_cases) (auto simp: newest_row_def sorted_append)

lemma trim_rows_sorted:
  assumes "sorted (map row_time rows)" "0 \<le> retention"
  shows "trim_rows retention rows = filter (\<lambda>r. row_time r \<ge> newest_row rows - retention) rows"
proof (cases "rows = []")
  case False
  then have "\<exists>r \<in> set rows. newest_row rows - retention \<le> row_time r"
    using assms(2) by (auto simp: newest_row_def intro!: bexI [of _ "last rows"])
  then show ?thesis unfolding trim_rows_def by (rule from_first_sorted [OF assms(1)])
qed (simp add: trim_rows_def from_first_def)

definition strict_rows :: "js list \<Rightarrow> bool" where
  "strict_rows rows = (sorted_wrt (\<lambda>a b. row_time a < row_time b) rows \<and> (\<forall>r \<in> set rows. js_truthy r \<and> 0 < row_time r))"

lemma strict_rows_sorted: "strict_rows rows \<Longrightarrow> sorted (map row_time rows)"
  by (induction rows) (auto simp: strict_rows_def less_imp_le)

lemma strict_rows_after:
  assumes "strict_rows (before @ new)" "before \<noteq> []"
  shows "rows_since (newest_row before) (before @ new) = new"
proof -
  have s: "sorted (map row_time before)"
    using strict_rows_sorted [OF assms(1)] by (simp add: sorted_append)
  have "filter (\<lambda>r. newest_row before < row_time r) before = []"
    using newest_row_max [OF s] by (force simp: filter_empty_conv)
  moreover have "\<forall>r \<in> set new. newest_row before < row_time r"
    using assms by (auto simp: strict_rows_def sorted_wrt_append newest_row_def)
  ultimately show ?thesis by (simp add: rows_since_def filter_id_conv)
qed

text \<open>
  A machine's rows, topped up by what the page does not hold of them, are the rows the page would hold had it been
  sent all of them; the machine with none held is sent whole.
\<close>

theorem mf_rows_topped_up:
  assumes "strict_rows (before @ new)" "0 \<le> retention"
  defines "held \<equiv> trim_rows retention before"
  shows "top_up_rows retention held (rows_since (newest_row held) (before @ new)) = trim_rows retention (before @ new)"
proof (cases "before = []")
  case True
  have "rows_since 0 new = new" "filter (\<lambda>r. js_truthy r \<and> 0 < row_time r) new = new"
    using assms(1) True by (auto simp: strict_rows_def rows_since_def filter_id_conv)
  then show ?thesis by (simp add: held_def True top_up_rows_def trim_rows_def from_first_def newest_row_def)
next
  case False
  have sorted: "sorted (map row_time (before @ new))" by (rule strict_rows_sorted [OF assms(1)])
  then have sb: "sorted (map row_time before)" by (simp add: sorted_append)
  have held: "held = filter (\<lambda>r. row_time r \<ge> newest_row before - retention) before"
    unfolding held_def by (rule trim_rows_sorted [OF sb assms(2)])
  have "last before \<in> set held" using False assms(2) by (simp add: held newest_row_def)
  then have hne: "held \<noteq> []" by auto
  have last: "newest_row held = newest_row before"
  proof -
    obtain bs b where b: "before = bs @ [b]" using False by (cases before rule: rev_cases) auto
    then show ?thesis using assms(2) by (simp add: held newest_row_def)
  qed
  have lb: "newest_row before = row_time (last before)" using False by (simp add: newest_row_def)
  have after: "rows_since (newest_row held) (before @ new) = new"
    using strict_rows_after [OF assms(1) False] by (simp add: last)
  have fresh: "filter (\<lambda>r. js_truthy r \<and> row_time r > newest_row held) new = new"
    using assms(1) False by (auto simp: last lb strict_rows_def sorted_wrt_append filter_id_conv)
  have sj: "sorted (map row_time (held @ new))"
    using sorted by (auto simp: held sorted_append sorted_filter)
  have nj: "newest_row (held @ new) = newest_row (before @ new)"
    using last hne False by (cases "new = []") (auto simp: newest_row_def)
  have "newest_row before \<le> newest_row (before @ new)"
    using newest_row_max [OF sorted, of "last before"] False by (simp add: newest_row_def)
  then have "filter (\<lambda>r. row_time r \<ge> newest_row (before @ new) - retention) held
             = filter (\<lambda>r. row_time r \<ge> newest_row (before @ new) - retention) before"
    by (auto simp: held filter_filter intro!: filter_cong)
  then show ?thesis
    by (simp add: after top_up_rows_def fresh trim_rows_sorted [OF sj assms(2)] trim_rows_sorted [OF sorted assms(2)] nj)
qed

lemma mf_rows_topped_up_witness:
  "top_up_rows 600 (trim_rows 600 [JObj [(''t'', JNum 5)]])
     (rows_since (newest_row (trim_rows 600 [JObj [(''t'', JNum 5)]])) ([JObj [(''t'', JNum 5)]] @ [JObj [(''t'', JNum 700)]]))
   = trim_rows 600 ([JObj [(''t'', JNum 5)]] @ [JObj [(''t'', JNum 700)]])"
  by (rule mf_rows_topped_up) (simp_all add: strict_rows_def row_time_def num_of_def)

text \<open>
  The samples, over every run of answers: a series only grows at its end, by later samples, stamped in whole seconds, and the
  last one is of the window. An answer's history is trimmed after the answer before was made.
\<close>

definition series_ok :: "rat \<Rightarrow> rat \<Rightarrow> js list \<Rightarrow> bool" where
  "series_ok retention now series = (0 < retention \<and> series \<noteq> [] \<and> sorted_wrt (\<lambda>a b. figure ''time'' a < figure ''time'' b) series
     \<and> (\<forall>s \<in> set series. 0 < figure ''time'' s \<and> rat_int (figure ''time'' s)) \<and> now - retention \<le> figure ''time'' (last series))"

inductive watched :: "(string \<Rightarrow> string) \<Rightarrow> rat \<Rightarrow> js list \<Rightarrow> rat \<Rightarrow> rat \<Rightarrow> feed \<Rightarrow> bool" for enc retention where
  first: "trimmed \<le> now \<Longrightarrow> series_ok retention now series \<Longrightarrow>
    watched enc retention series trimmed now (fst (feed_told (Some (monitor_state retention trimmed now series 0)) mo_new))"
| ticked: "watched enc retention series trimmed now f \<Longrightarrow> watched enc retention series trimmed now (fst (feed_tick enc f))"
| told: "watched enc retention series trimmed now f \<Longrightarrow> now \<le> trimmed' \<Longrightarrow> trimmed' \<le> later \<Longrightarrow> series_ok retention later (series @ newer) \<Longrightarrow>
    watched enc retention (series @ newer) trimmed' later
      (fst (feed_told (Some (monitor_state retention trimmed' later (series @ newer) (num_of (mo_since f)))) f))"
| failed: "watched enc retention series trimmed now f \<Longrightarrow> watched enc retention series trimmed now (fst (feed_told None f))"

lemma sorted_times: "sorted_wrt (\<lambda>a b. figure ''time'' a < figure ''time'' b) xs \<Longrightarrow> sorted (map (figure ''time'') xs)"
  by (induction xs) (auto simp: less_imp_le)

lemma last_of_all: "sorted (map f xs) \<Longrightarrow> x \<in> set xs \<Longrightarrow> f x \<le> (f (last xs) :: rat)"
  by (cases xs rule: rev_cases) (auto simp: sorted_append)

lemma window_filter:
  "series_ok retention now series \<Longrightarrow> window retention trimmed series = filter (\<lambda>s. figure ''time'' s \<ge> trimmed - retention) series"
  unfolding window_def by (rule dropWhile_sorted) (simp add: series_ok_def sorted_times)

lemma window_last:
  "series_ok retention now series \<Longrightarrow> trimmed \<le> now \<Longrightarrow> window retention trimmed series \<noteq> [] \<and> last (window retention trimmed series) = last series"
  by (cases series rule: rev_cases) (auto simp: window_filter series_ok_def)

text \<open>The copy: every sample of the window, and of those before it none older than the whole second of the answer or its trimming.\<close>

definition kept_samples :: "rat \<Rightarrow> js list \<Rightarrow> rat \<Rightarrow> rat \<Rightarrow> js list \<Rightarrow> bool" where
  "kept_samples retention series trimmed now kept = (\<exists>q. kept = filter q series
     \<and> (\<forall>s \<in> set series. (now - retention \<le> figure ''time'' s \<longrightarrow> q s) \<and> (q s \<longrightarrow> min trimmed (of_int \<lfloor>now\<rfloor>) - retention \<le> figure ''time'' s)))"

definition feed_holds :: "rat \<Rightarrow> js list \<Rightarrow> rat \<Rightarrow> rat \<Rightarrow> feed \<Rightarrow> bool" where
  "feed_holds retention series trimmed now f = (js_truthy (mo_payload f) \<and> mo_since f = JNum (figure ''time'' (last series))
     \<and> (\<exists>kept. jget (mo_payload f) ''samples'' = JArr kept \<and> kept_samples retention series trimmed now kept))"

lemma merge_partial:
  assumes "js_truthy (jget payload ''partial'')" "js_truthy (mo_payload f)"
  shows "jget (mo_payload (merge_monitor payload f)) ''samples'' =
      JArr (join_since (figure ''time'' payload - num_of (js_or (jget payload ''retentionSeconds'') (JNum 600)))
        (js_list (jget (mo_payload f) ''samples'')) (js_list (jget payload ''samples'')))"
    "mo_since (merge_monitor payload f) = js_or (jget payload ''newestSample'') (mo_since f)"
    "js_truthy (mo_payload (merge_monitor payload f))"
proof -
  obtain kvs where p: "payload = JObj kvs" using assms(1) by (cases payload) auto
  have put: "\<exists>kvs'. js_put k v (JObj kvs) = JObj kvs'" for k v kvs by (simp add: js_put_def)
  show "jget (mo_payload (merge_monitor payload f)) ''samples'' =
      JArr (join_since (figure ''time'' payload - num_of (js_or (jget payload ''retentionSeconds'') (JNum 600)))
        (js_list (jget (mo_payload f) ''samples'')) (js_list (jget payload ''samples'')))"
    using assms by (simp add: merge_monitor_def Let_def p)
  show "mo_since (merge_monitor payload f) = js_or (jget payload ''newestSample'') (mo_since f)"
    using assms by (simp add: merge_monitor_def Let_def)
  show "js_truthy (mo_payload (merge_monitor payload f))" using assms by (simp add: merge_monitor_def Let_def p js_put_def)
qed

lemma monitor_state_fields:
  "jget (monitor_state retention trimmed now series since) ''retentionSeconds'' = JNum retention"
  "figure ''time'' (monitor_state retention trimmed now series since) = of_int \<lfloor>now\<rfloor>"
  "0 < since \<Longrightarrow> rat_int since \<Longrightarrow> jget (monitor_state retention trimmed now series since) ''partial'' = JBool True"
  "0 < since \<Longrightarrow> rat_int since \<Longrightarrow> jget (monitor_state retention trimmed now series since) ''samples''
     = JArr (filter (\<lambda>s. figure ''time'' s > since) (window retention trimmed series))"
  "jget (monitor_state retention trimmed now series since) ''newestSample'' =
     (if window retention trimmed series = [] then JNum 0 else JNum (figure ''time'' (last (window retention trimmed series))))"
  by (simp_all add: monitor_state_def Let_def figure_def js_or_def num_of_def whole_since_def)

lemma told_holds:
  assumes "feed_holds retention series trimmed now f" "series_ok retention now series" "now \<le> trimmed'" "trimmed' \<le> later"
    "series_ok retention later (series @ newer)"
  shows "feed_holds retention (series @ newer) trimmed' later
    (fst (feed_told (Some (monitor_state retention trimmed' later (series @ newer) (num_of (mo_since f)))) f))"
proof -
  let ?t = "figure ''time''" and ?all = "series @ newer"
  define edge where "edge = of_int \<lfloor>later\<rfloor> - retention"
  have edge: "edge \<le> later - retention" by (simp add: edge_def)
  obtain kept q where kept: "jget (mo_payload f) ''samples'' = JArr kept" "kept = filter q series"
      and q: "\<And>s. s \<in> set series \<Longrightarrow> now - retention \<le> ?t s \<Longrightarrow> q s"
    using assms(1) unfolding feed_holds_def kept_samples_def by blast
  have "series \<noteq> []" "?all \<noteq> []" using assms(2) by (auto simp: series_ok_def)
  note last_in = this [THEN last_in_set]
  have since: "num_of (mo_since f) = ?t (last series)" "0 < ?t (last series)" "rat_int (?t (last series))"
    using assms(1,2) last_in(1) by (auto simp: feed_holds_def series_ok_def num_of_def)
  have sorted: "sorted (map ?t ?all)" using assms(5) unfolding series_ok_def by (intro sorted_times) simp
  have old: "\<not> ?t (last series) < ?t s" if "s \<in> set series" for s
    using last_of_all [of ?t series s] sorted that by (simp add: sorted_append not_less)
  have new: "?t (last series) < ?t s" if "s \<in> set newer" for s
    using assms(2,5) that by (auto simp: series_ok_def sorted_wrt_append)
  have add: "filter (\<lambda>s. ?t (last series) < ?t s) (window retention trimmed' ?all) = filter (\<lambda>s. trimmed' - retention \<le> ?t s) newer"
  proof -
    have "filter (\<lambda>s. ?t (last series) < ?t s) (window retention trimmed' ?all)
        = filter (\<lambda>s. trimmed' - retention \<le> ?t s \<and> ?t (last series) < ?t s) series
          @ filter (\<lambda>s. trimmed' - retention \<le> ?t s \<and> ?t (last series) < ?t s) newer"
      by (simp add: window_filter [OF assms(5)] conj_commute)
    moreover have "filter (\<lambda>s. trimmed' - retention \<le> ?t s \<and> ?t (last series) < ?t s) series = []"
      using old by (auto simp: filter_empty_conv)
    moreover have "filter (\<lambda>s. trimmed' - retention \<le> ?t s \<and> ?t (last series) < ?t s) newer = filter (\<lambda>s. trimmed' - retention \<le> ?t s) newer"
      using new by (intro filter_cong) auto
    ultimately show ?thesis by simp
  qed
  define both where "both = kept @ filter (\<lambda>s. trimmed' - retention \<le> ?t s) newer"
  have sj: "sorted (map ?t both)" using sorted by (auto simp: both_def kept(2) sorted_append sorted_filter)
  have late: "later - retention \<le> ?t (last ?all)" using assms(5) by (simp add: series_ok_def)
  have "last ?all \<in> set both"
  proof (cases "newer = []")
    case True
    then have "now - retention \<le> ?t (last series)" using late assms(3,4) by simp
    then show ?thesis using True q last_in(1) by (simp add: both_def kept(2))
  next
    case False
    then show ?thesis using late assms(4) by (simp add: both_def)
  qed
  then have "\<exists>x \<in> set both. edge \<le> ?t x" using late edge by (intro bexI [of _ "last ?all"]) simp_all
  then have join: "join_since edge kept (filter (\<lambda>s. trimmed' - retention \<le> ?t s) newer) = filter (\<lambda>s. edge \<le> ?t s) both"
    unfolding join_since_def both_def [symmetric] by (rule from_first_sorted [OF sj])
  define r where "r = (\<lambda>s. edge \<le> ?t s \<and> (if s \<in> set series then q s else trimmed' - retention \<le> ?t s))"
  have apart: "s \<notin> set series" if "s \<in> set newer" for s using new [OF that] old by blast
  have "filter (\<lambda>s. edge \<le> ?t s) both = filter r ?all"
  proof -
    have "filter r series = filter (\<lambda>s. q s \<and> edge \<le> ?t s) series" unfolding r_def by (intro filter_cong) auto
    moreover have "filter r newer = filter (\<lambda>s. trimmed' - retention \<le> ?t s \<and> edge \<le> ?t s) newer"
      using apart unfolding r_def by (intro filter_cong) auto
    ultimately show ?thesis by (simp add: both_def kept(2))
  qed
  moreover have "kept_samples retention ?all trimmed' later (filter r ?all)"
    unfolding kept_samples_def
  proof (intro exI [of _ r] conjI ballI impI)
    fix s assume s: "s \<in> set ?all" "later - retention \<le> ?t s"
    have "q s" if "s \<in> set series" using q [OF that] s(2) assms(3,4) by simp
    then show "r s" using s(2) assms(4) edge by (simp add: r_def)
  next
    fix s assume "r s"
    then show "min trimmed' (of_int \<lfloor>later\<rfloor>) - retention \<le> ?t s" by (auto simp: r_def edge_def min_def)
  qed simp
  ultimately have copy: "kept_samples retention ?all trimmed' later
      (join_since edge kept (filter (\<lambda>s. ?t (last series) < ?t s) (window retention trimmed' ?all)))" by (simp only: add join)
  let ?p = "monitor_state retention trimmed' later ?all (?t (last series))"
  have p: "js_truthy (jget ?p ''partial'')" "js_truthy (mo_payload f)"
    using since assms(1) by (simp_all add: monitor_state_fields feed_holds_def)
  have "0 < retention" "0 < ?t (last ?all)" using assms(5) last_in(2) by (auto simp: series_ok_def simp del: last_append)
  then show ?thesis
    using copy kept(1) since window_last [OF assms(5,4)] merge_partial [OF p]
    by (simp add: feed_told_def feed_holds_def since monitor_state_fields js_or_def num_of_def edge_def)
qed

text \<open>(C11) 
  The page's copy is the controller's series, though every answer but the first brought the newer samples alone: after any run
  of ticks, answers and failures it holds every sample of the last answer's window, none from before the window's whole
  second (or the trimming of the history, where that was earlier), each once and in order, and it asks next from the newest on.
\<close>

theorem mf_copy_is_the_series:
  assumes "watched enc retention series trimmed now f"
  shows "(\<exists>q. jget (mo_payload f) ''samples'' = JArr (filter q series)
           \<and> (\<forall>s \<in> set series. (now - retention \<le> figure ''time'' s \<longrightarrow> q s)
                \<and> (q s \<longrightarrow> min trimmed (of_int \<lfloor>now\<rfloor>) - retention \<le> figure ''time'' s)))
       \<and> mo_since f = JNum (figure ''time'' (last series)) \<and> series_ok retention now series"
proof -
  from assms have "feed_holds retention series trimmed now f \<and> series_ok retention now series"
  proof (induction rule: watched.induct)
    case (first trimmed now series)
    have "kept_samples retention series trimmed now (window retention trimmed series)"
      unfolding kept_samples_def window_filter [OF first(2)]
      by (intro exI [of _ "\<lambda>s. trimmed - retention \<le> figure ''time'' s"]) (use first(1) in auto)
    then show ?case using window_last [OF first(2,1)] first
      by (auto simp: feed_holds_def feed_told_def merge_monitor_def monitor_state_def mo_new_def Let_def jget_def js_or_def whole_since_def series_ok_def)
  next
    case (ticked series trimmed now f)
    then show ?case by (auto simp: feed_holds_def feed_tick_def)
  next
    case (told series trimmed now f trimmed' later newer)
    then show ?case using told_holds by blast
  next
    case (failed series trimmed now f)
    then show ?case by (auto simp: feed_holds_def feed_told_def)
  qed
  then show ?thesis unfolding feed_holds_def kept_samples_def by auto
qed

definition sample_at :: "rat \<Rightarrow> js" where
  "sample_at k = JObj [(''time'', JNum k)]"

lemma figure_sample [simp]: "figure ''time'' (sample_at k) = k"
  by (simp add: figure_def sample_at_def num_of_def js_or_def)

text \<open>Two answers, the second made half a second later: the sample at the edge of its window's second is held still.\<close>

definition two_answers :: feed where
  "two_answers = fst (feed_told (Some (monitor_state 600 (9995 / 10) (9996 / 10) ([sample_at 399, sample_at 998] @ [sample_at 999]) 998))
     (fst (feed_told (Some (monitor_state 600 998 (9981 / 10) [sample_at 399, sample_at 998] 0)) mo_new)))"

lemma mf_copy_is_the_series_witness:
  "mo_since two_answers = JNum 999 \<and> list_all (\<lambda>k. sample_at k \<in> set (js_list (jget (mo_payload two_answers) ''samples''))) [998, 999]"
proof -
  have w: "watched (\<lambda>s. s) 600 [sample_at 399, sample_at 998] 998 (9981 / 10)
      (fst (feed_told (Some (monitor_state 600 998 (9981 / 10) [sample_at 399, sample_at 998] 0)) mo_new))"
    by (rule watched.first) (simp_all add: series_ok_def rat_int_def)
  from watched.told [OF w, of "9995 / 10" "9996 / 10" "[sample_at 999]"] mf_copy_is_the_series [OF w]
  have "watched (\<lambda>s. s) 600 ([sample_at 399, sample_at 998] @ [sample_at 999]) (9995 / 10) (9996 / 10) two_answers"
    by (simp add: two_answers_def series_ok_def num_of_def rat_int_def)
  from mf_copy_is_the_series [OF this] obtain q where
    q: "jget (mo_payload two_answers) ''samples'' = JArr (filter q ([sample_at 399, sample_at 998] @ [sample_at 999]))"
      "q (sample_at 998)" "q (sample_at 999)" and s: "mo_since two_answers = JNum 999" by auto
  then show ?thesis by simp
qed

text \<open>
  But a save's answer replaces the copy and leaves what is asked for as it was: the samples in between come again with
  the next answer, and stand twice until they are too old.
\<close>

lemma mf_saved_samples_come_twice:
  "jget (mo_payload (fst (feed_told (Some (monitor_state 600 1002 1002 [sample_at 999, sample_at 1001, sample_at 1002] 999))
      (feed_saved (monitor_state 600 1001 1001 [sample_at 999, sample_at 1001] 0)
        (fst (feed_told (Some (monitor_state 600 999 999 [sample_at 999] 0)) mo_new)))))) ''samples''
   = JArr [sample_at 999, sample_at 1001, sample_at 1001, sample_at 1002]"
  by (simp add: feed_told_def feed_saved_def merge_monitor_def monitor_state_def window_def mo_new_def Let_def jget_def whole_since_def rat_int_def
      js_or_def js_put_def join_since_def from_first_def num_of_def figure_def sample_at_def)

section \<open>A pane that fails\<close>

text \<open>
  Each failure puts its line above all that the pane shows, the lines of the failures before included: they pile up
  until an answer comes.
\<close>

lemma mf_failures_pile_up:
  assumes "\<And>k. has_snapshot text_of (concat (replicate k (failed_line stamp err)) @ pane)"
  shows "((pane_failed text_of esc stamp err) ^^ n) pane = concat (replicate n (failed_line stamp err)) @ pane"
  using assms by (induction n) (simp_all add: pane_failed_def)

lemma interval_within: "1 \<le> interval_seconds v \<and> interval_seconds v \<le> 30"
  by (simp add: interval_seconds_def)

end
