(* ===== verification/ProxyRoutes.thy ===== *)
theory ProxyRoutes
  imports Cables "HOL-Library.Sublist"
begin

text \<open>
  The lists the pages save whole (\<open>topology-proxies.js\<close>, \<open>routers.js\<close>): every port's route, every router. A list goes out
  built from the page's copy of the board with the version it was built from; the controller refuses one built from
  an older version (409, \<open>stale\<close>) and sends the board as it is, and the page builds it once more from that.
  \<open>take_list\<close> is the controller's side (\<open>proxies_config.py\<close>), with its digest, its clean-up and its answer as a record of
  arguments.
  A figure of a route (a port, seconds, a priority) is what \<open>Number\<close> makes of it: a value has no number that is not finite, so
  NaN and the infinities are held as their texts, which print and read as they do, until \<open>on_wire\<close> sends them (as null).
\<close>

section \<open>The route of a port, as it goes out\<close>

definition feeds_routers :: "js \<Rightarrow> bool" where
  "feeds_routers p = (js_text (jget p ''kind'') \<noteq> ''consumer'')"

definition held_number :: "jnum \<Rightarrow> js" where
  "held_number n = (case n of Fin r \<Rightarrow> JNum r | _ \<Rightarrow> JStr (num_str n))"

definition num_field :: "js \<Rightarrow> string \<Rightarrow> rat \<Rightarrow> js" where
  "num_field p k d = held_number (js_number (js_or (jget p k) (JNum d)))"

definition text_field :: "js \<Rightarrow> string \<Rightarrow> string \<Rightarrow> js" where
  "text_field p k d = js_or (jget p k) (JStr d)"

definition proxy_route :: "js \<Rightarrow> js" where
  "proxy_route p = JObj (
     [(''label'', text_field p ''label'' []), (''port'', held_number (js_number (jget p ''port''))),
      (''upstreamHost'', text_field p ''upstreamHost'' ''127.0.0.1''), (''upstreamPort'', num_field p ''upstreamPort'' 8080),
      (''upstreamType'', text_field p ''upstreamType'' ''llama''), (''providerId'', text_field p ''providerId'' []),
      (''enabled'', JBool (jget p ''enabled'' \<noteq> JBool False)), (''mode'', text_field p ''mode'' ''open''),
      (''priority'', num_field p ''priority'' 0), (''preemptible'', JBool (jget p ''preemptible'' \<noteq> JBool False)),
      (''clientTimeoutSeconds'', num_field p ''clientTimeoutSeconds'' 0),
      (''cloudFallbackProviderId'', text_field p ''cloudFallbackProviderId'' [])]
     @ (if jget p ''apiKey'' = JUndef then [] else [(''apiKey'', text_field p ''apiKey'' [])])
     @ [(''kind'', text_field p ''kind'' []),
        (''routerId'', if \<not> feeds_routers p then JStr [] else js_nn (jget p ''routerId'') (JStr ''router:default'')),
        (''role'', text_field p ''role'' []), (''clientId'', text_field p ''clientId'' [])]
     @ (if jnum_pos (js_number (jget p ''contextLength'')) then [(''contextLength'', held_number (js_number (jget p ''contextLength'')))] else [])
     @ (if js_nullish (jget p ''contextAuto'') then [] else [(''contextAuto'', JBool (js_truthy (jget p ''contextAuto'')))])
     @ (if js_trim (js_text (jget p ''modelName'')) \<noteq> [] then [(''modelName'', JStr (js_trim (js_text (jget p ''modelName''))))] else [])
     @ (if js_truthy (jget p ''modelNameAuto'') then [(''modelNameAuto'', JBool True)] else []))"

text \<open>What leaves as JSON: a figure that is not finite is null there.\<close>

definition figure_keys :: "string list" where
  "figure_keys = [''port'', ''upstreamPort'', ''priority'', ''clientTimeoutSeconds'', ''contextLength'']"

definition wire_field :: "string \<Rightarrow> js \<Rightarrow> js" where
  "wire_field k v = (case v of JStr s \<Rightarrow> if k \<in> set figure_keys then JNull else v | _ \<Rightarrow> v)"

fun on_wire :: "js \<Rightarrow> js" where
  "on_wire (JObj kvs) = JObj (map (\<lambda>(k, v). (k, wire_field k v)) kvs)"
| "on_wire v = v"

text \<open>\<open>Number(r.port || 0)\<close>, the order of two such and the greater of them; neither is NaN.\<close>

definition route_port :: "js \<Rightarrow> jnum" where
  "route_port r = num_or0 (js_number (js_or (jget r ''port'') (JNum 0)))"

definition jnum_less :: "jnum \<Rightarrow> jnum \<Rightarrow> bool" where
  "jnum_less a b = (case (a, b) of (Fin x, Fin y) \<Rightarrow> x < y | (Inf True, Fin y) \<Rightarrow> True | (Fin x, Inf False) \<Rightarrow> True
     | (Inf True, Inf False) \<Rightarrow> True | _ \<Rightarrow> False)"

definition port_no_cmp :: "jnum \<Rightarrow> jnum \<Rightarrow> int" where
  "port_no_cmp a b = (if jnum_less a b then -1 else if jnum_less b a then 1 else 0)"

definition by_port :: "js list \<Rightarrow> js list" where
  "by_port rs = js_sort (\<lambda>a b. port_no_cmp (route_port a) (route_port b)) rs"

definition proxy_routes :: "js \<Rightarrow> js list" where
  "proxy_routes bd = by_port (map proxy_route (proxy_rows bd))"

definition next_port :: "js \<Rightarrow> jnum" where
  "next_port bd = (case fold (\<lambda>n m. if jnum_less m n then n else m) (map route_port (proxy_routes bd)) (Fin 8080) of Fin r \<Rightarrow> Fin (r + 1) | n \<Rightarrow> n)"

section \<open>A list saved from a copy\<close>

text \<open>
  The controller: a list from another version than the stored one is refused with the board as it is; any other is
  cleaned up (\<open>keep\<close>, given what is stored) or refused with a message and a status, stored, and answered (\<open>ran\<close>), or not,
  when the proxy service does not start. The result: the answer, and what has been written, if anything.
\<close>

definition stale_refusal :: "js \<Rightarrow> api_error" where
  "stale_refusal bd = \<lparr>e_message = JStr ''stale'', e_status = 409, e_data = JObj [(''stale'', JBool True), (''topology'', bd)]\<rparr>"

definition app_error :: "js \<times> int \<Rightarrow> api_error" where
  "app_error e = \<lparr>e_message = fst e, e_status = snd e, e_data = JObj [(''error'', fst e)]\<rparr>"

record 'l keeper =
  kp_digest :: "'l \<Rightarrow> string"
  kp_board :: "'l \<Rightarrow> js"
  kp_keep :: "'l \<Rightarrow> 'l \<Rightarrow> (js \<times> int) + 'l"
  kp_ran :: "'l \<Rightarrow> (js \<times> int) + js"

definition take_list :: "'l keeper \<Rightarrow> string \<times> 'l \<Rightarrow> 'l \<Rightarrow> (api_error + js) \<times> 'l option" where
  "take_list kp sent stored =
     (if fst sent \<noteq> [] \<and> fst sent \<noteq> kp_digest kp stored then (Inl (stale_refusal (kp_board kp stored)), None)
      else case kp_keep kp stored (snd sent) of Inl e \<Rightarrow> (Inl (app_error e), None)
           | Inr new \<Rightarrow> (map_sum app_error id (kp_ran kp new), Some new))"

text \<open>
  A save as it runs: the first post is handled when the controller has \<open>l1\<close>, the second, if there is one, when it has
  \<open>l2\<close> (whatever others have written meanwhile). \<open>build\<close> makes the list to send of the page's board, throws, or
  gives none. The result: what the caller has of it, and what has been written.
\<close>

datatype save_end = Saved js bool \<comment> \<open>the answer, and whether it took a second post\<close>
  | Nothing_to_save | Thrown string | Refused api_error bool

definition revision_of :: "string \<Rightarrow> js \<Rightarrow> string" where
  "revision_of name bd = js_text (jget (jget bd ''proxyRevisions'') name)"

definition save_twice :: "'l keeper \<Rightarrow> string \<Rightarrow> (js \<Rightarrow> string + 'l option) \<Rightarrow> js \<Rightarrow> 'l \<Rightarrow> 'l \<Rightarrow> save_end \<times> 'l option" where
  "save_twice kp name build bd l1 l2 =
     (case build bd of Inl err \<Rightarrow> (Thrown err, None) | Inr None \<Rightarrow> (Nothing_to_save, None)
      | Inr (Some new) \<Rightarrow>
          (case take_list kp (revision_of name bd, new) l1 of
             (Inr d, written) \<Rightarrow> (Saved d False, written)
           | (Inl e, written) \<Rightarrow>
               if \<not> is_stale_copy e then (Refused e False, written)
               else let bd2 = jget (e_data e) ''topology''
                    in case build bd2 of Inl err \<Rightarrow> (Thrown err, written) | Inr None \<Rightarrow> (Nothing_to_save, written)
                       | Inr (Some new2) \<Rightarrow>
                           (case take_list kp (revision_of name bd2, new2) l2 of
                              (Inr d, written2) \<Rightarrow> (Saved d True, written2) | (Inl e2, written2) \<Rightarrow> (Refused e2 True, written2))))"

text \<open>The routers go out changed by \<open>mutator\<close> (\<open>saveRouters\<close>), the ports' routes built anew (\<open>saveProxyRoutes\<close>).\<close>

definition routers_build :: "(js list \<Rightarrow> string + js list) \<Rightarrow> js \<Rightarrow> string + js list option" where
  "routers_build mutator bd = map_sum id Some (mutator (js_list (js_or (jget bd ''routers'') (JArr []))))"

definition routes_build :: "(js list \<Rightarrow> js list option) \<Rightarrow> js \<Rightarrow> string + js list option" where
  "routes_build build bd = Inr (map_option (map on_wire) (build (proxy_routes bd)))"

definition router_by_id :: "js \<Rightarrow> js list \<Rightarrow> js option" where
  "router_by_id i rs = find (\<lambda>r. jget r ''id'' = i) rs"

text \<open>The sign of a save on its way: how many there are.\<close>

definition saving_step :: "bool \<Rightarrow> int \<Rightarrow> int" where
  "saving_step on n = max 0 (n + (if on then 1 else -1))"

definition saving_hint :: "dict \<Rightarrow> int \<Rightarrow> string" where
  "saving_hint t n = (if n > 0 then [CHR 0xE2, CHR 0x9F, CHR 0xB3] @ '' '' @ t ''rtSaving'' []
     else [CHR 0xE2, CHR 0xA4, CHR 0x93] @ '' '' @ t ''rtAutoSave'' [])"

section \<open>The form of a port\<close>

definition form_fields :: "string list" where
  "form_fields = [''label'', ''port'', ''upstreamHost'', ''upstreamPort'', ''mode'', ''apiKey'']"

record port_form =
  pq_label :: string
  pq_port :: js
  pq_host :: string
  pq_upstream :: js
  pq_mode :: string
  pq_nokey :: bool
  pq_key :: string

definition read_port_form :: "port_form \<Rightarrow> js" where
  "read_port_form f = JObj [(''label'', JStr (js_trim (pq_label f))), (''port'', held_number (js_number (js_or (pq_port f) (JNum 0)))),
     (''upstreamHost'', JStr (if js_trim (pq_host f) = [] then ''127.0.0.1'' else js_trim (pq_host f))),
     (''upstreamPort'', held_number (js_number (js_or (pq_upstream f) (JNum 8080)))), (''enabled'', JBool True),
     (''mode'', JStr (if pq_mode f = [] then ''open'' else pq_mode f)), (''apiKey'', JStr (if pq_nokey f then [] else js_trim (pq_key f)))]"

definition form_values :: "js option \<Rightarrow> js \<Rightarrow> js" where
  "form_values editing bd = (case editing of
     Some p \<Rightarrow> JObj [(''label'', text_field p ''label'' []), (''port'', text_field p ''port'' []),
       (''upstreamHost'', text_field p ''upstreamHost'' ''127.0.0.1''), (''upstreamPort'', js_or (jget p ''upstreamPort'') (JNum 8080)),
       (''mode'', text_field p ''mode'' ''open''), (''apiKey'', text_field p ''apiKey'' [])]
   | None \<Rightarrow> JObj [(''label'', JStr []), (''port'', held_number (next_port bd)), (''upstreamHost'', JStr ''127.0.0.1''),
       (''upstreamPort'', JNum 8080), (''mode'', JStr ''open''), (''apiKey'', JStr [])])"

definition advanced_open :: "bool \<Rightarrow> js \<Rightarrow> bool" where
  "advanced_open is_new v = (\<not> is_new \<and> (jget v ''mode'' \<noteq> JStr ''open'' \<or> js_truthy (jget v ''apiKey'')))"

text \<open>The form, with a key to fill or none. The comment of the template is left out.\<close>

definition port_input :: "string \<Rightarrow> string \<Rightarrow> js \<Rightarrow> string" where
  "port_input name rest v = ''<input name=\"'' @ name @ ''\"'' @ rest @ '' value=\"'' @ escape_html (js_string v) @ ''\"''"

definition mode_options :: "js \<Rightarrow> string" where
  "mode_options cur = concat (map (\<lambda>m. ''<option value=\"'' @ m @ ''\"'' @ (if cur = JStr m then '' selected'' else []) @ ''>'' @ m @ ''</option>'')
     [''open'', ''paused'', ''drain''])"

definition key_rows :: "dict \<Rightarrow> js \<Rightarrow> string" where
  "key_rows t key =
     ''<label class=\"proxy-nokey-row\"> <input type=\"checkbox\" name=\"noApiKey\"'' @ (if js_truthy key then [] else '' checked'') @ '' data-proxy-nokey> <span>''
     @ escape_html (t ''proxyNoKeyLabel'' []) @ ''</span> </label> <label class=\"proxy-apikey-label\"'' @ (if js_truthy key then [] else '' hidden'') @ ''>''
     @ escape_html (t ''proxyApiKeyLabel'' []) @ '' <span class=\"proxy-apikey-row\"> ''
     @ port_input ''apiKey'' ('' placeholder=\"'' @ escape_html (t ''proxyApiKeyPlaceholder'' []) @ ''\"'') key @ '' autocomplete=\"off\" spellcheck=\"false\"> ''
     @ ''<button class=\"mini-link\" type=\"button\" data-proxy-genkey title=\"'' @ escape_html (t ''proxyApiKeyGenTip'' []) @ ''\">''
     @ [CHR 0xF0, CHR 0x9F, CHR 0x8E, CHR 0xB2] @ ''</button> </span> <span class=\"muted proxy-apikey-hint\">'' @ escape_html (t ''proxyApiKeyHint'' []) @ ''</span> </label>''"

definition port_form_html :: "dict \<Rightarrow> bool \<Rightarrow> js option \<Rightarrow> js \<Rightarrow> string" where
  "port_form_html t is_open editing bd =
     (if \<not> is_open then []
      else let v = form_values editing bd; title = (if editing = None then ''Add Standalone Proxy'' else ''Edit Proxy Port'')
           in '' <div class=\"topology-policy-overlay\" data-topology-proxy-overlay> <div class=\"topology-policy-modal proxy-form-modal\" role=\"dialog\" aria-modal=\"true\" aria-label=\"''
              @ title @ ''\"> <div class=\"topology-card-head\"> <strong>'' @ title
              @ ''</strong> <button class=\"icon-action compact\" type=\"button\" data-topology-proxy-cancel aria-label=\"Close\" title=\"Close\">'' @ [CHR 0xC3, CHR 0x97]
              @ ''</button> </div> <div class=\"topology-proxy-form\" data-topology-proxy-form=\"1\"> <label>Name''
              @ port_input ''label'' '' placeholder=\"agent-a primary\"'' (jget v ''label'') @ '' autofocus></label> <div class=\"proxy-form-row\"> <label>Port''
              @ port_input ''port'' '' type=\"number\" min=\"1024\" max=\"65535\"'' (jget v ''port'') @ ''></label> </div> <div class=\"proxy-form-row\"> <label>To host''
              @ port_input ''upstreamHost'' [] (jget v ''upstreamHost'') @ ''></label> <label>To port''
              @ port_input ''upstreamPort'' '' type=\"number\" min=\"1\" max=\"65535\"'' (jget v ''upstreamPort'') @ ''></label> </div> <details class=\"proxy-form-advanced\"''
              @ (if advanced_open (editing = None) v then '' open'' else []) @ ''> <summary>Advanced</summary> <label>Mode <select name=\"mode\"> '' @ mode_options (jget v ''mode'')
              @ '' </select> </label> '' @ key_rows t (jget v ''apiKey'')
              @ '' </details> <div class=\"proxy-route-actions\"> <button class=\"primary-mini-action\" type=\"button\" data-topology-proxy-save>Save</button> <button class=\"mini-link\" type=\"button\" data-topology-proxy-cancel>Cancel</button> ''
              @ (if editing = None then [] else ''<button class=\"mini-link danger\" type=\"button\" data-topology-proxy-delete title=\"'' @ escape_html (t ''proxyDeleteTip'' [])
                   @ ''\">'' @ escape_html (t ''proxyDelete'' []) @ ''</button>'') @ '' </div> </div> </div> </div> '')"

definition route_id :: "js \<Rightarrow> string" where
  "route_id r = ''skynet:proxy:'' @ js_string (jget r ''port'')"

text \<open>What is before the form's fields is kept: \<open>{...before, ...fields}\<close>.\<close>

definition put_form :: "js \<Rightarrow> js \<Rightarrow> js" where
  "put_form read before = fold (\<lambda>k r. js_put k (jget read k) r) form_fields before"

definition port_form_build :: "js \<Rightarrow> string \<Rightarrow> js list \<Rightarrow> string + js list" where
  "port_form_build read editing rebuilt =
     (let before = find (\<lambda>r. route_id r = editing) rebuilt
      in if editing \<noteq> [] \<and> before = None then Inl ''gone''
         else let route = (case before of Some b \<Rightarrow> put_form read b | None \<Rightarrow> read);
                  others = (case before of Some b \<Rightarrow> remove1 b rebuilt | None \<Rightarrow> rebuilt)
              in if list_ex (\<lambda>r. jnum_eq (js_number (jget r ''port'')) (js_number (jget route ''port''))) others then Inl ''proxy port already exists''
                 else Inr (by_port (others @ [route])))"

definition form_build :: "js \<Rightarrow> string \<Rightarrow> js list \<Rightarrow> js list option" where
  "form_build read editing rebuilt = (case port_form_build read editing rebuilt of Inr rs \<Rightarrow> Some rs | Inl e \<Rightarrow> None)"

text \<open>A port led to another cell.\<close>

definition connect_build :: "string \<Rightarrow> string \<Rightarrow> js \<Rightarrow> js list \<Rightarrow> js list option" where
  "connect_build proxy_id host port rebuilt =
     (let target = (if js_trim host = [] then ''127.0.0.1'' else js_trim host);
          routes = map (\<lambda>r. if route_id r = proxy_id
            then js_put ''providerId'' (JStr []) (js_put ''upstreamType'' (JStr ''llama'') (js_put ''upstreamPort'' (held_number (js_number port))
                   (js_put ''upstreamHost'' (JStr target) r))) else r) rebuilt
      in if list_ex (\<lambda>r. route_id r = proxy_id) routes then Some routes else None)"

section \<open>A save is of the list it replaces\<close>

text \<open>The board names the version of the list it was made of.\<close>

definition names_version :: "'l keeper \<Rightarrow> string \<Rightarrow> bool" where
  "names_version kp name = (inj (kp_digest kp)
     \<and> (\<forall>l. kp_digest kp l \<noteq> [] \<and> js_truthy (kp_board kp l) \<and> revision_of name (kp_board kp l) = kp_digest kp l))"

lemma take_list_of_board:
  assumes "names_version kp name"
  shows "take_list kp (revision_of name (kp_board kp l), new) stored =
    (if l = stored
     then case kp_keep kp l new of Inl e \<Rightarrow> (Inl (app_error e), None) | Inr kept \<Rightarrow> (map_sum app_error id (kp_ran kp kept), Some kept)
     else (Inl (stale_refusal (kp_board kp stored)), None))"
  using assms by (auto simp: take_list_def names_version_def inj_def)

lemma stale_refusal_is_stale: "js_truthy bd \<Longrightarrow> is_stale_copy (stale_refusal bd)"
  "jget (e_data (stale_refusal bd)) ''topology'' = bd"
  by (simp_all add: is_stale_copy_def stale_refusal_def)

lemma app_error_is_not_stale [simp]: "\<not> is_stale_copy (app_error e)"
  by (simp add: is_stale_copy_def app_error_def)

text \<open>The whole of a save: where the page's copy is of, and which of its two posts the controller takes.\<close>

lemma save_twice_of_board:
  assumes "names_version kp name"
  shows "save_twice kp name build (kp_board kp l0) l1 l2 =
    (case build (kp_board kp l0) of Inl err \<Rightarrow> (Thrown err, None) | Inr None \<Rightarrow> (Nothing_to_save, None)
     | Inr (Some new) \<Rightarrow>
         if l0 = l1 then (case kp_keep kp l1 new of Inl e \<Rightarrow> (Refused (app_error e) False, None)
           | Inr kept \<Rightarrow> (case kp_ran kp kept of Inl e \<Rightarrow> (Refused (app_error e) False, Some kept) | Inr d \<Rightarrow> (Saved d False, Some kept)))
         else (case build (kp_board kp l1) of Inl err \<Rightarrow> (Thrown err, None) | Inr None \<Rightarrow> (Nothing_to_save, None)
           | Inr (Some new2) \<Rightarrow>
               if l1 = l2 then (case kp_keep kp l2 new2 of Inl e \<Rightarrow> (Refused (app_error e) True, None)
                 | Inr kept \<Rightarrow> (case kp_ran kp kept of Inl e \<Rightarrow> (Refused (app_error e) True, Some kept) | Inr d \<Rightarrow> (Saved d True, Some kept)))
               else (Refused (stale_refusal (kp_board kp l2)) True, None)))"
proof -
  have "js_truthy (kp_board kp l)" for l using assms by (simp add: names_version_def)
  then show ?thesis unfolding save_twice_def
    by (auto simp: take_list_of_board [OF assms] stale_refusal_is_stale Let_def split: sum.splits option.splits)
qed

text \<open>(C12) 
  What a save writes is made of the very list it replaces, whatever others have saved since the page read its copy:
  of the page's own where nothing was, of the refusal's where something was. A save that succeeds has written; it ends
  in a refusal for age only when the list changed before the first post and again before the second, and then it has
  written nothing.
\<close>

theorem pr_save_is_made_of_what_it_replaces:
  fixes kp :: "'l keeper" and build :: "js \<Rightarrow> string + 'l option" and l0 l1 l2 :: 'l
  assumes "names_version kp name"
  defines "run \<equiv> save_twice kp name build (kp_board kp l0) l1 l2"
  shows "(\<forall>l. snd run = Some l \<longrightarrow>
            (\<exists>again new. build (kp_board kp (if again then l2 else l1)) = Inr (Some new) \<and> kp_keep kp (if again then l2 else l1) new = Inr l
               \<and> (if again then l0 \<noteq> l1 \<and> l1 = l2 else l0 = l1)))
       \<and> (\<forall>d again. fst run = Saved d again \<longrightarrow> (\<exists>l. snd run = Some l \<and> kp_ran kp l = Inr d))
       \<and> (\<forall>e again. fst run = Refused e again \<and> is_stale_copy e \<longrightarrow> snd run = None \<and> again \<and> l0 \<noteq> l1 \<and> l1 \<noteq> l2)"
  (is "?made \<and> ?saved \<and> ?stale")
proof (intro conjI)
  note run = run_def save_twice_of_board [OF assms(1)]
  show ?made
  proof (intro allI impI)
    fix l
    assume w: "snd run = Some l"
    show "\<exists>again new. build (kp_board kp (if again then l2 else l1)) = Inr (Some new) \<and> kp_keep kp (if again then l2 else l1) new = Inr l
               \<and> (if again then l0 \<noteq> l1 \<and> l1 = l2 else l0 = l1)"
      by (rule exI [where x = "l0 \<noteq> l1"]) (use w in \<open>auto simp: run split: sum.splits option.splits if_splits\<close>)
  qed
  show ?saved by (auto simp: run split: sum.splits option.splits if_splits)
  show ?stale by (auto simp: run split: sum.splits option.splits if_splits)
qed

text \<open>A list as its own version, and a board that names it.\<close>

definition plain_board :: "string \<Rightarrow> js" where
  "plain_board l = JObj [(''proxyRevisions'', JObj [(''routes'', JStr (''v'' @ l))]), (''list'', JStr l)]"

definition plain_keeper :: "string keeper" where
  "plain_keeper = \<lparr>kp_digest = (\<lambda>l. ''v'' @ l), kp_board = plain_board, kp_keep = (\<lambda>stored l. Inr l), kp_ran = (\<lambda>l. Inr (JStr l))\<rparr>"

definition add_bang :: "js \<Rightarrow> string + string option" where
  "add_bang bd = Inr (Some (js_string (jget bd ''list'') @ ''!''))"

lemma pr_save_is_made_of_what_it_replaces_witness:
  "\<exists>l. snd (save_twice plain_keeper ''routes'' add_bang (plain_board ''a'') ''b'' ''b'') = Some l \<and> kp_ran plain_keeper l = Inr (JStr ''b!'')"
proof -
  have n: "names_version plain_keeper ''routes''"
    by (simp add: names_version_def plain_keeper_def plain_board_def revision_of_def inj_def)
  have b: "kp_board plain_keeper = plain_board" by (simp add: plain_keeper_def)
  have "fst (save_twice plain_keeper ''routes'' add_bang (kp_board plain_keeper ''a'') ''b'' ''b'') = Saved (JStr ''b!'') True"
    unfolding save_twice_of_board [OF n] by (simp add: plain_keeper_def plain_board_def add_bang_def)
  then show ?thesis
    using conjunct1 [OF conjunct2 [OF pr_save_is_made_of_what_it_replaces [OF n, of add_bang "''a''" "''b''" "''b''"]]] by (auto simp: b)
qed

section \<open>An edited port keeps the rest\<close>

lemma jget_put_form:
  "k \<notin> set form_fields \<Longrightarrow> jget (put_form read before) k = jget before k"
  by (simp add: put_form_def form_fields_def)

text \<open>The port numbers of a list, but for what is none.\<close>

definition port_numbers :: "js list \<Rightarrow> jnum list" where
  "port_numbers rs = filter (\<lambda>n. n \<noteq> NaN) (map (\<lambda>r. js_number (jget r ''port'')) rs)"

lemma distinct_subseq: "subseq xs ys \<Longrightarrow> distinct ys \<Longrightarrow> distinct xs"
  by (auto simp: subseq_conv_nths distinct_nthsI)

lemma subseq_remove1: "subseq (remove1 x xs) xs"
  by (induction xs) auto

lemma port_numbers_subseq: "subseq xs ys \<Longrightarrow> distinct (port_numbers ys) \<Longrightarrow> distinct (port_numbers xs)"
  unfolding port_numbers_def by (rule distinct_subseq [OF subseq_filter [OF subseq_map]])

lemma port_numbers_mset: "mset xs = mset ys \<Longrightarrow> mset (port_numbers xs) = mset (port_numbers ys)"
  by (simp add: port_numbers_def mset_map [symmetric] del: mset_map) (simp add: mset_filter)

text \<open>(C36) 
  The form of a port changes what it shows and nothing else: the list that goes out has every other route as it was
  and, in the edited one, every field the form has none of; and where no two ports had one number, none do.
\<close>

theorem pr_edit_changes_the_form_fields_only:
  assumes "port_form_build read editing rebuilt = Inr rs"
  shows "(if editing = [] then mset rs = add_mset read (mset rebuilt)
          else \<exists>b \<in> set rebuilt. route_id b = editing \<and> mset rs = add_mset (put_form read b) (mset rebuilt - {#b#})
                 \<and> (\<forall>k. k \<notin> set form_fields \<longrightarrow> jget (put_form read b) k = jget b k))
       \<and> (distinct (port_numbers rebuilt) \<longrightarrow> distinct (port_numbers rs))"
proof -
  let ?port = "\<lambda>r. js_number (jget r ''port'')"
  obtain others route where rs: "rs = by_port (others @ [route])" "\<forall>r \<in> set others. \<not> jnum_eq (?port r) (?port route)"
    and o: "(editing = [] \<and> others = rebuilt \<and> route = read) \<or>
      (\<exists>b \<in> set rebuilt. route_id b = editing \<and> others = remove1 b rebuilt \<and> route = put_form read b)"
  proof (cases "find (\<lambda>r. route_id r = editing) rebuilt")
    case None
    then show thesis using assms that [of rebuilt read] by (auto simp: port_form_build_def Let_def list_ex_iff split: if_splits)
  next
    case (Some b)
    then show thesis using assms that [of "remove1 b rebuilt" "put_form read b"] find_SomeD [OF Some]
      by (auto simp: port_form_build_def Let_def list_ex_iff split: if_splits)
  qed
  have m: "mset rs = add_mset route (mset others)" by (simp add: rs by_port_def)
  have "route_id b \<noteq> []" for b by (simp add: route_id_def)
  then have "if editing = [] then mset rs = add_mset read (mset rebuilt)
          else \<exists>b \<in> set rebuilt. route_id b = editing \<and> mset rs = add_mset (put_form read b) (mset rebuilt - {#b#})
                 \<and> (\<forall>k. k \<notin> set form_fields \<longrightarrow> jget (put_form read b) k = jget b k)"
    using o m jget_put_form by auto
  moreover have "distinct (port_numbers rs)" if d: "distinct (port_numbers rebuilt)"
  proof -
    have "distinct (port_numbers others)" using o d port_numbers_subseq [OF subseq_remove1] by auto
    then have "distinct (port_numbers (route # others))" using rs(2) by (auto simp: port_numbers_def jnum_eq_def)
    moreover have "mset (port_numbers rs) = mset (port_numbers (route # others))" using m by (intro port_numbers_mset) simp
    ultimately show ?thesis by (metis mset_eq_imp_distinct_iff)
  qed
  ultimately show ?thesis by blast
qed

definition detached_port :: js where
  "detached_port = JObj [(''port'', JNum 9001), (''routerId'', JStr [])]"

lemma pr_edit_changes_the_form_fields_only_witness:
  "\<exists>b. route_id b = route_id detached_port \<and> jget (put_form (JObj [(''port'', JNum 9002)]) b) ''routerId'' = jget b ''routerId''"
proof -
  have "route_id detached_port \<noteq> []" by (simp add: route_id_def)
  moreover have "port_form_build (JObj [(''port'', JNum 9002)]) (route_id detached_port) [detached_port]
      = Inr [put_form (JObj [(''port'', JNum 9002)]) detached_port]"
    by (simp add: port_form_build_def Let_def by_port_def js_sort_def)
  note conjunct1 [OF pr_edit_changes_the_form_fields_only [OF this]]
  moreover have "''routerId'' \<notin> set form_fields" by (simp add: form_fields_def)
  ultimately show ?thesis by metis
qed

section \<open>What goes out is what came in\<close>

lemma jget_append: "jget (JObj (xs @ ys)) k = (if k \<in> fst ` set xs then jget (JObj xs) k else jget (JObj ys) k)"
  by (induction xs) (auto simp: jget_def split: option.splits)

lemma route_fields:
  "jget (proxy_route p) ''label'' = text_field p ''label'' []"
  "jget (proxy_route p) ''port'' = held_number (js_number (jget p ''port''))"
  "jget (proxy_route p) ''upstreamHost'' = text_field p ''upstreamHost'' ''127.0.0.1''"
  "jget (proxy_route p) ''upstreamPort'' = num_field p ''upstreamPort'' 8080"
  "jget (proxy_route p) ''upstreamType'' = text_field p ''upstreamType'' ''llama''"
  "jget (proxy_route p) ''providerId'' = text_field p ''providerId'' []"
  "jget (proxy_route p) ''enabled'' = JBool (jget p ''enabled'' \<noteq> JBool False)"
  "jget (proxy_route p) ''mode'' = text_field p ''mode'' ''open''"
  "jget (proxy_route p) ''priority'' = num_field p ''priority'' 0"
  "jget (proxy_route p) ''preemptible'' = JBool (jget p ''preemptible'' \<noteq> JBool False)"
  "jget (proxy_route p) ''clientTimeoutSeconds'' = num_field p ''clientTimeoutSeconds'' 0"
  "jget (proxy_route p) ''cloudFallbackProviderId'' = text_field p ''cloudFallbackProviderId'' []"
  "jget (proxy_route p) ''apiKey'' = (if jget p ''apiKey'' = JUndef then JUndef else text_field p ''apiKey'' [])"
  "jget (proxy_route p) ''kind'' = text_field p ''kind'' []"
  "jget (proxy_route p) ''routerId'' = (if \<not> feeds_routers p then JStr [] else js_nn (jget p ''routerId'') (JStr ''router:default''))"
  "jget (proxy_route p) ''role'' = text_field p ''role'' []"
  "jget (proxy_route p) ''clientId'' = text_field p ''clientId'' []"
  "jget (proxy_route p) ''contextLength'' = (if jnum_pos (js_number (jget p ''contextLength'')) then held_number (js_number (jget p ''contextLength'')) else JUndef)"
  "jget (proxy_route p) ''contextAuto'' = (if js_nullish (jget p ''contextAuto'') then JUndef else JBool (js_truthy (jget p ''contextAuto'')))"
  "jget (proxy_route p) ''modelName'' = (if js_trim (js_text (jget p ''modelName'')) \<noteq> [] then JStr (js_trim (js_text (jget p ''modelName''))) else JUndef)"
  "jget (proxy_route p) ''modelNameAuto'' = (if js_truthy (jget p ''modelNameAuto'') then JBool True else JUndef)"
  by (simp_all add: proxy_route_def jget_append)

lemma js_or_again: "js_or (js_or a (JStr d)) (JStr d) = js_or a (JStr d)"
  by (simp add: js_or_def)

text \<open>A port as the controller sends it: its figures read as numbers (its window too, where it has one).\<close>

definition finite_num :: "jnum \<Rightarrow> bool" where
  "finite_num n = (case n of Fin r \<Rightarrow> True | _ \<Rightarrow> False)"

definition figures_read :: "js \<Rightarrow> bool" where
  "figures_read p = (finite_num (js_number (jget p ''port'')) \<and> finite_num (js_number (js_or (jget p ''upstreamPort'') (JNum 8080)))
     \<and> finite_num (js_number (js_or (jget p ''priority'') (JNum 0))) \<and> finite_num (js_number (js_or (jget p ''clientTimeoutSeconds'') (JNum 0)))
     \<and> (jnum_pos (js_number (jget p ''contextLength'')) \<longrightarrow> finite_num (js_number (jget p ''contextLength''))))"

lemma finite_held: "finite_num n \<Longrightarrow> \<exists>r. held_number n = JNum r \<and> n = Fin r"
  by (cases n) (simp_all add: finite_num_def held_number_def)

lemma wire_finite: "finite_num n \<Longrightarrow> wire_field k (held_number n) = held_number n"
  by (cases n) (simp_all add: finite_num_def held_number_def wire_field_def)

lemma wire_others: "k \<notin> set figure_keys \<Longrightarrow> wire_field k v = v" "wire_field k (JBool b) = JBool b"
  by (cases v) (simp_all add: wire_field_def)

text \<open>(C37) 
  A list built again of what was sent is the same, so a save that changes another port leaves a route as it was: what leaves
  is the route itself, and building it again from that gives it again; a port taken off every router stays off, one never
  bound goes to the default Routing, and a client of the entry is bound to none.
\<close>

theorem pr_route_is_sent_back_as_it_came:
  assumes "figures_read p" "js_number (js_or (jget p ''upstreamPort'') (JNum 8080)) \<noteq> Fin 0"
  shows "on_wire (proxy_route p) = proxy_route p \<and> proxy_route (proxy_route p) = proxy_route p
       \<and> jget (proxy_route p) ''routerId'' =
           (if js_text (jget p ''kind'') = ''consumer'' then JStr [] else if js_nullish (jget p ''routerId'') then JStr ''router:default'' else jget p ''routerId'')"
proof -
  have f: "feeds_routers (proxy_route p) = feeds_routers p"
    by (simp add: feeds_routers_def route_fields text_field_def js_text_def js_or_again)
  have n: "js_nn (js_nn a (JStr s)) (JStr s) = js_nn a (JStr s)" for a s by (cases a) simp_all
  have [simp]: "js_trim [] = []" using trim_no_ws [of "[]"] by simp
  obtain port up pri wait where nums: "js_number (jget p ''port'') = Fin port" "js_number (js_or (jget p ''upstreamPort'') (JNum 8080)) = Fin up"
      "js_number (js_or (jget p ''priority'') (JNum 0)) = Fin pri" "js_number (js_or (jget p ''clientTimeoutSeconds'') (JNum 0)) = Fin wait"
      "up \<noteq> 0"
    using assms finite_held unfolding figures_read_def by (metis (no_types, lifting))
  have ctx: "jnum_pos (js_number (jget p ''contextLength'')) \<Longrightarrow> \<exists>r > 0. js_number (jget p ''contextLength'') = Fin r"
    using assms(1) by (cases "js_number (jget p ''contextLength'')") (auto simp: figures_read_def finite_num_def jnum_pos_def)
  have nf: "held_number (js_number (jget p ''port'')) = JNum port" "num_field p ''upstreamPort'' 8080 = JNum up"
      "num_field p ''priority'' 0 = JNum pri" "num_field p ''clientTimeoutSeconds'' 0 = JNum wait"
    by (simp_all add: num_field_def nums held_number_def)
  have jf: "jget (proxy_route p) ''port'' = JNum port" "jget (proxy_route p) ''upstreamPort'' = JNum up"
      "jget (proxy_route p) ''priority'' = JNum pri" "jget (proxy_route p) ''clientTimeoutSeconds'' = JNum wait"
    by (simp_all only: route_fields nf)
  have nf2: "held_number (js_number (jget (proxy_route p) ''port'')) = JNum port" "num_field (proxy_route p) ''upstreamPort'' 8080 = JNum up"
      "num_field (proxy_route p) ''priority'' 0 = JNum pri" "num_field (proxy_route p) ''clientTimeoutSeconds'' 0 = JNum wait"
    using nums(5) by (simp_all add: num_field_def jf held_number_def js_or_def)
  have cx: "jnum_pos (js_number (jget (proxy_route p) ''contextLength'')) = jnum_pos (js_number (jget p ''contextLength''))"
    using ctx by (auto simp: route_fields held_number_def jnum_pos_def)
  have ctx_again: "jnum_pos (js_number (jget p ''contextLength'')) \<Longrightarrow>
      held_number (js_number (held_number (js_number (jget p ''contextLength'')))) = held_number (js_number (jget p ''contextLength''))"
    using ctx by (auto simp: held_number_def)
  have tf: "text_field (proxy_route p) ''label'' [] = text_field p ''label'' []"
      "text_field (proxy_route p) ''upstreamHost'' ''127.0.0.1'' = text_field p ''upstreamHost'' ''127.0.0.1''"
      "text_field (proxy_route p) ''upstreamType'' ''llama'' = text_field p ''upstreamType'' ''llama''"
      "text_field (proxy_route p) ''providerId'' [] = text_field p ''providerId'' []" "text_field (proxy_route p) ''mode'' ''open'' = text_field p ''mode'' ''open''"
      "text_field (proxy_route p) ''cloudFallbackProviderId'' [] = text_field p ''cloudFallbackProviderId'' []"
      "text_field (proxy_route p) ''kind'' [] = text_field p ''kind'' []" "text_field (proxy_route p) ''role'' [] = text_field p ''role'' []"
      "text_field (proxy_route p) ''clientId'' [] = text_field p ''clientId'' []"
    by (simp_all add: text_field_def route_fields js_or_again)
  have key: "(if jget (proxy_route p) ''apiKey'' = JUndef then [] else [(''apiKey'', text_field (proxy_route p) ''apiKey'' [])])
      = (if jget p ''apiKey'' = JUndef then [] else [(''apiKey'', text_field p ''apiKey'' [])])"
    by (auto simp: text_field_def route_fields js_or_again) (simp add: js_or_def split: if_splits)
  have name: "js_trim (js_text (jget (proxy_route p) ''modelName'')) = js_trim (js_text (jget p ''modelName''))"
    by (simp add: route_fields)
  have flags: "jget (proxy_route p) ''enabled'' \<noteq> JBool False \<longleftrightarrow> jget p ''enabled'' \<noteq> JBool False"
      "jget (proxy_route p) ''preemptible'' \<noteq> JBool False \<longleftrightarrow> jget p ''preemptible'' \<noteq> JBool False"
      "js_nullish (jget (proxy_route p) ''contextAuto'') = js_nullish (jget p ''contextAuto'')"
      "\<not> js_nullish (jget p ''contextAuto'') \<Longrightarrow> js_truthy (jget (proxy_route p) ''contextAuto'') = js_truthy (jget p ''contextAuto'')"
      "js_truthy (jget (proxy_route p) ''modelNameAuto'') = js_truthy (jget p ''modelNameAuto'')"
    by (simp_all add: route_fields)
  have router: "(if \<not> feeds_routers p then JStr [] else js_nn (jget (proxy_route p) ''routerId'') (JStr ''router:default''))
      = (if \<not> feeds_routers p then JStr [] else js_nn (jget p ''routerId'') (JStr ''router:default''))"
    by (simp add: route_fields n)
  have again: "proxy_route (proxy_route p) = proxy_route p"
    unfolding proxy_route_def [of "proxy_route p"] f nf2 tf key name router flags(1,2,3,5) cx
    unfolding proxy_route_def [of p] nf
    using ctx_again flags(4) by (cases "js_nullish (jget p ''contextAuto'')"; cases "jnum_pos (js_number (jget p ''contextLength''))") simp_all
  have "on_wire (proxy_route p) = proxy_route p"
    unfolding proxy_route_def nf using ctx
    by (auto simp: held_number_def wire_others figure_keys_def text_field_def) (simp_all add: wire_field_def figure_keys_def js_or_def split: js.splits)
  then show ?thesis using again by (auto simp: route_fields feeds_routers_def js_nn_def)
qed

lemma pr_route_is_sent_back_as_it_came_witness:
  "jget (proxy_route detached_port) ''routerId'' = JStr []"
proof -
  have "figures_read detached_port" "js_number (js_or (jget detached_port ''upstreamPort'') (JNum 8080)) \<noteq> Fin 0"
    by (simp_all add: figures_read_def finite_num_def detached_port_def js_or_def jnum_pos_def)
  from pr_route_is_sent_back_as_it_came [OF this] show ?thesis by (simp add: detached_port_def)
qed

section \<open>What goes out is well typed\<close>

text \<open>The fields a route has, and what each of them is.\<close>

definition text_keys :: "string list" where
  "text_keys = [''label'', ''upstreamHost'', ''upstreamType'', ''providerId'', ''mode'', ''cloudFallbackProviderId'', ''apiKey'', ''kind'',
     ''routerId'', ''role'', ''clientId'', ''modelName'']"

definition flag_keys :: "string list" where
  "flag_keys = [''enabled'', ''preemptible'', ''contextAuto'', ''modelNameAuto'']"

text \<open>\<open>loose\<close>: a figure may be null.\<close>

definition typed_field :: "bool \<Rightarrow> string \<Rightarrow> js \<Rightarrow> bool" where
  "typed_field loose k v = (case v of JStr s \<Rightarrow> k \<in> set text_keys | JNum n \<Rightarrow> k \<in> set figure_keys | JBool b \<Rightarrow> k \<in> set flag_keys
     | JNull \<Rightarrow> loose \<and> k \<in> set figure_keys | _ \<Rightarrow> False)"

fun typed_route :: "bool \<Rightarrow> js \<Rightarrow> bool" where
  "typed_route loose (JObj kvs) = (distinct (map fst kvs) \<and> list_all (\<lambda>(k, v). typed_field loose k v) kvs)"
| "typed_route loose _ = False"

text \<open>The same of a route before it leaves: what will be a field of its type.\<close>

definition held_route :: "bool \<Rightarrow> js \<Rightarrow> bool" where
  "held_route loose r = typed_route loose (on_wire r)"

lemma figure_not_text: "k \<in> set figure_keys \<Longrightarrow> k \<notin> set text_keys"
  by (auto simp: figure_keys_def text_keys_def)

lemma held_route_iff: "held_route loose (JObj kvs) = (distinct (map fst kvs) \<and> list_all (\<lambda>(k, v). typed_field loose k (wire_field k v)) kvs)"
  by (simp add: held_route_def comp_def split_def list_all_iff)

text \<open>A port as the controller sends it: what is a text there is one, or is not there.\<close>

definition texts_are_texts :: "js \<Rightarrow> bool" where
  "texts_are_texts p = list_all (\<lambda>k. case jget p k of JStr s \<Rightarrow> True | JUndef \<Rightarrow> True | JNull \<Rightarrow> True | _ \<Rightarrow> False) text_keys"

lemma kv_put_keys: "map fst (kv_put k v kvs) = (if k \<in> set (map fst kvs) then map fst kvs else map fst kvs @ [k])"
  by (induction kvs) (force simp del: set_map)+

lemma kv_put_typed:
  "list_all (\<lambda>(k, v). typed_field l k (wire_field k v)) kvs \<Longrightarrow> typed_field l k (wire_field k v) \<Longrightarrow>
     list_all (\<lambda>(k, v). typed_field l k (wire_field k v)) (kv_put k v kvs)"
  by (induction kvs) auto

lemma typed_put: "held_route l r \<Longrightarrow> typed_field l k (wire_field k v) \<Longrightarrow> held_route l (js_put k v r)"
proof (cases r)
  case (JObj kvs)
  then show "held_route l r \<Longrightarrow> typed_field l k (wire_field k v) \<Longrightarrow> held_route l (js_put k v r)"
    by (simp add: js_put_def held_route_iff kv_put_keys kv_put_typed)
qed (simp_all add: held_route_def)

lemma typed_held: "k \<in> set figure_keys \<Longrightarrow> l \<or> finite_num n \<Longrightarrow> typed_field l k (wire_field k (held_number n))"
  by (cases n) (auto simp: typed_field_def wire_field_def held_number_def finite_num_def)

lemma typed_text:
  assumes "texts_are_texts p" "k \<in> set text_keys"
  shows "typed_field l k (wire_field k (text_field p k d))" "typed_field l k (wire_field k (js_nn (jget p k) (JStr d)))"
proof -
  have "case jget p k of JStr s \<Rightarrow> True | JUndef \<Rightarrow> True | JNull \<Rightarrow> True | _ \<Rightarrow> False"
    using assms unfolding texts_are_texts_def list_all_iff by blast
  moreover have "k \<notin> set figure_keys" using assms(2) figure_not_text by blast
  ultimately show "typed_field l k (wire_field k (text_field p k d))" "typed_field l k (wire_field k (js_nn (jget p k) (JStr d)))"
    using assms(2) by (auto simp: typed_field_def wire_field_def text_field_def js_or_def split: js.splits)
qed

text \<open>All the fields a route may have, in their order.\<close>

definition route_keys :: "string list" where
  "route_keys = [''label'', ''port'', ''upstreamHost'', ''upstreamPort'', ''upstreamType'', ''providerId'', ''enabled'', ''mode'', ''priority'',
      ''preemptible'', ''clientTimeoutSeconds'', ''cloudFallbackProviderId''] @ [''apiKey''] @ [''kind'', ''routerId'', ''role'', ''clientId'']
      @ [''contextLength''] @ [''contextAuto''] @ [''modelName''] @ [''modelNameAuto'']"

lemma route_keys_distinct: "distinct route_keys"
  by (simp add: route_keys_def)

lemma proxy_route_typed:
  assumes "texts_are_texts p" "l \<or> figures_read p"
  shows "held_route l (proxy_route p)"
proof -
  have texts [simp]: "typed_field l k (wire_field k (text_field p k d))" "typed_field l k (wire_field k (js_nn (jget p k) (JStr d)))"
    if "k \<in> set text_keys" for k d using typed_text [OF assms(1) that] by blast+
  have text_lit [simp]: "typed_field l k (wire_field k (JStr s))" if "k \<in> set text_keys" for k s
    using that figure_not_text by (auto simp: typed_field_def wire_field_def)
  have flag [simp]: "typed_field l k (wire_field k (JBool b)) = (k \<in> set flag_keys)" for k b by (simp add: typed_field_def wire_field_def)
  have figs: "typed_field l ''port'' (wire_field ''port'' (held_number (js_number (jget p ''port''))))"
    "typed_field l ''upstreamPort'' (wire_field ''upstreamPort'' (num_field p ''upstreamPort'' 8080))"
    "typed_field l ''priority'' (wire_field ''priority'' (num_field p ''priority'' 0))"
    "typed_field l ''clientTimeoutSeconds'' (wire_field ''clientTimeoutSeconds'' (num_field p ''clientTimeoutSeconds'' 0))"
    "jnum_pos (js_number (jget p ''contextLength'')) \<Longrightarrow>
       typed_field l ''contextLength'' (wire_field ''contextLength'' (held_number (js_number (jget p ''contextLength''))))"
    using assms(2) unfolding num_field_def by (auto simp: figures_read_def figure_keys_def intro!: typed_held)
  have in_text: "set text_keys = {''label'', ''upstreamHost'', ''upstreamType'', ''providerId'', ''mode'', ''cloudFallbackProviderId'', ''apiKey'', ''kind'',
     ''routerId'', ''role'', ''clientId'', ''modelName''}" by (auto simp: text_keys_def)
  have tk: "''label'' \<in> set text_keys" "''upstreamHost'' \<in> set text_keys" "''upstreamType'' \<in> set text_keys" "''providerId'' \<in> set text_keys"
    "''mode'' \<in> set text_keys" "''cloudFallbackProviderId'' \<in> set text_keys" "''apiKey'' \<in> set text_keys" "''kind'' \<in> set text_keys"
    "''routerId'' \<in> set text_keys" "''role'' \<in> set text_keys" "''clientId'' \<in> set text_keys" "''modelName'' \<in> set text_keys"
    by (simp_all add: in_text)
  have fk: "''enabled'' \<in> set flag_keys" "''preemptible'' \<in> set flag_keys" "''contextAuto'' \<in> set flag_keys" "''modelNameAuto'' \<in> set flag_keys"
    by (simp_all add: flag_keys_def)
  obtain kvs where kvs: "proxy_route p = JObj kvs" by (simp add: proxy_route_def)
  have "list_all (\<lambda>(k, v). typed_field l k (wire_field k v)) kvs"
    using kvs figs unfolding proxy_route_def by (auto simp: tk fk simp del: One_nat_def)
  moreover have "subseq (map fst kvs) route_keys"
    using kvs unfolding proxy_route_def route_keys_def by (auto intro!: list_emb_append_mono)
  then have "distinct (map fst kvs)" by (rule distinct_subseq [OF _ route_keys_distinct])
  ultimately show ?thesis by (simp add: kvs held_route_iff)
qed

text \<open>A form whose two figures read as numbers, as a number input's do.\<close>

definition form_reads :: "port_form \<Rightarrow> bool" where
  "form_reads f = (finite_num (js_number (js_or (pq_port f) (JNum 0))) \<and> finite_num (js_number (js_or (pq_upstream f) (JNum 8080))))"

lemma read_field_typed:
  assumes "k \<in> set form_fields" "l \<or> form_reads f"
  shows "typed_field l k (wire_field k (jget (read_port_form f) k))"
proof -
  have "typed_field l ''port'' (wire_field ''port'' (held_number (js_number (js_or (pq_port f) (JNum 0)))))"
    "typed_field l ''upstreamPort'' (wire_field ''upstreamPort'' (held_number (js_number (js_or (pq_upstream f) (JNum 8080)))))"
    using assms(2) by (auto simp: form_reads_def figure_keys_def intro!: typed_held)
  moreover have "jget (read_port_form f) ''port'' = held_number (js_number (js_or (pq_port f) (JNum 0)))"
    "jget (read_port_form f) ''upstreamPort'' = held_number (js_number (js_or (pq_upstream f) (JNum 8080)))"
    by (simp_all add: read_port_form_def)
  moreover have "typed_field l k (wire_field k (jget (read_port_form f) k))" if small: "k \<in> {''label'', ''upstreamHost'', ''mode'', ''apiKey''}"
  proof -
    obtain s where "jget (read_port_form f) k = JStr s" using small by (elim insertE emptyE) (simp_all add: read_port_form_def)
    moreover have "k \<in> set text_keys" using small by (elim insertE emptyE) (simp_all add: text_keys_def)
    ultimately show ?thesis using figure_not_text by (auto simp: typed_field_def wire_field_def)
  qed
  moreover have "k = ''port'' \<or> k = ''upstreamPort'' \<or> k \<in> {''label'', ''upstreamHost'', ''mode'', ''apiKey''}"
    using assms(1) by (auto simp: form_fields_def)
  ultimately show ?thesis by metis
qed

lemma read_port_form_typed: "l \<or> form_reads f \<Longrightarrow> held_route l (read_port_form f)"
proof -
  assume l: "l \<or> form_reads f"
  have "list_all (\<lambda>k. typed_field l k (wire_field k (jget (read_port_form f) k))) form_fields"
    using read_field_typed [OF _ l] by (simp add: list_all_iff)
  then show "held_route l (read_port_form f)"
    by (simp add: form_fields_def read_port_form_def held_route_iff) (simp add: typed_field_def wire_field_def flag_keys_def)
qed

lemma put_form_typed: "l \<or> form_reads f \<Longrightarrow> held_route l r \<Longrightarrow> held_route l (put_form (read_port_form f) r)"
proof -
  assume l: "l \<or> form_reads f"
  have "held_route l (fold (\<lambda>k r. js_put k (jget (read_port_form f) k) r) ks r)" if "set ks \<subseteq> set form_fields" "held_route l r" for ks r
    using that by (induction ks arbitrary: r) (auto intro: typed_put read_field_typed [OF _ l])
  then show "held_route l r \<Longrightarrow> ?thesis" by (simp add: put_form_def)
qed

lemma typed_loosen: "held_route l r \<Longrightarrow> held_route (l \<or> l') r"
proof (cases r)
  case (JObj kvs)
  have "typed_field l k v \<Longrightarrow> typed_field (l \<or> l') k v" for k v by (auto simp: typed_field_def split: js.splits)
  then show "held_route l r \<Longrightarrow> held_route (l \<or> l') r" by (auto simp: JObj held_route_iff list_all_iff)
qed (simp_all add: held_route_def)

lemma set_by_port [simp]: "set (by_port rs) = set rs"
  by (metis by_port_def mset_js_sort mset_eq_setD)



text \<open>A figure that is no number leaves as null. The form's own inputs of type number give none; a board's value may be one.\<close>

lemma pr_word_leaves_as_null:
  "jget (on_wire (read_port_form \<lparr>pq_label = [], pq_port = JStr ''x'', pq_host = [], pq_upstream = JNum 8080, pq_mode = [], pq_nokey = True, pq_key = []\<rparr>)) ''port'' = JNull"
  by code_simp

end
