(* ===== verification/ClientLanes.thy ===== *)
theory ClientLanes
  imports AgentRoutes Consumers OutputCells CardFold CardRows Cables
begin

text \<open>
  The clients of the board and of Routing (\<open>topology-proxies.js\<close>, \<open>InputsBlock.build\<close> in \<open>canvas.js\<close>): which port is an
  agent's, which ports a row of Routing lists and which nobody claims, how long an agent has been quiet, and its card
  in full and folded. \<open>lc\<close> is \<open>localeCompare\<close>.
\<close>

section \<open>Routes by agent\<close>

text \<open>A \<open>Map\<close> set in turn: the first place, the last value.\<close>

fun map_put :: "'k \<Rightarrow> 'v \<Rightarrow> ('k \<times> 'v) list \<Rightarrow> ('k \<times> 'v) list" where
  "map_put k v [] = [(k, v)]"
| "map_put k v ((k', v') # kvs) = (if k' = k then (k, v) # kvs else (k', v') # map_put k v kvs)"

definition role_routes :: "js \<Rightarrow> (string \<times> js) list" where
  "role_routes assignment = fold (\<lambda>r. map_put (js_string (js_or (jget r ''role'') (JStr ''primary''))) r)
     (js_list (js_or (jget assignment ''routes'') (JArr []))) []"

definition assignments_by_agent :: "js list \<Rightarrow> (js \<times> (string \<times> js) list) list" where
  "assignments_by_agent rows = fold (\<lambda>a. map_put (jget a ''agentId'') (role_routes a)) rows []"

definition agent_routes :: "js list \<Rightarrow> js \<Rightarrow> (string \<times> js) list" where
  "agent_routes rows agent = (case map_of (assignments_by_agent rows) agent of Some rs \<Rightarrow> rs | None \<Rightarrow> [])"

definition board_clients :: "js \<Rightarrow> js list" where
  "board_clients bd = js_list (js_or (jget bd ''clients'') (JArr []))"

definition client_agents :: "js \<Rightarrow> js list" where
  "client_agents c = js_list (js_or (jget c ''agents'') (JArr []))"

section \<open>How long an agent has been quiet\<close>

text \<open>\<open>None\<close> is \<open>Infinity\<close>: never, as far as the log goes.\<close>

definition proxy_named :: "js \<Rightarrow> string \<Rightarrow> js" where
  "proxy_named bd i = (case find (\<lambda>p. js_string (jget p ''id'') = i) (rev (proxy_rows bd)) of Some p \<Rightarrow> p | None \<Rightarrow> JUndef)"

definition agent_idle_hours :: "js \<Rightarrow> rat \<Rightarrow> js list \<Rightarrow> rat option" where
  "agent_idle_hours bd now routes =
     (let latest = fold (\<lambda>r m. max m (nfig (proxy_named bd (js_text (jget r ''proxyId''))) ''lastRequestAt'')) routes 0
      in if latest = 0 then None else Some (max 0 ((now - latest) / 3600)))"

definition agent_idle_limit :: rat where
  "agent_idle_limit = 12"

definition agent_is_idle :: "js \<Rightarrow> rat \<Rightarrow> js list \<Rightarrow> bool" where
  "agent_is_idle bd now routes = (case agent_idle_hours bd now routes of None \<Rightarrow> True | Some h \<Rightarrow> h \<ge> agent_idle_limit)"

definition client_is_live :: "js \<Rightarrow> rat \<Rightarrow> js \<Rightarrow> bool" where
  "client_is_live bd now client =
     (let rows = assignments_for bd (jget client ''id'')
      in list_ex (\<lambda>a. \<not> agent_is_idle bd now (map snd (agent_routes rows (jget a ''id'')))) (client_agents client))"

definition client_needs_caption :: "nat \<Rightarrow> bool" where
  "client_needs_caption n = (n \<noteq> 1)"

section \<open>Ports of agents\<close>

definition proxy_to_agent :: "js \<Rightarrow> (string \<times> string \<times> string) list" where
  "proxy_to_agent bd =
     fold (\<lambda>(host, entry) m. fold (\<lambda>ag m. fold (\<lambda>r m.
         if js_truthy (jget r ''proxyId'') then map_put (js_string (jget r ''proxyId'')) (js_text (jget ag ''agentId''), host) m else m)
         (js_list (js_or (jget ag ''routes'') (JArr []))) m)
       (js_list (js_or (jget entry ''assignments'') (JArr []))) m)
     (js_fields (js_or (jget bd ''assignments'') (JObj []))) []"

text \<open>A port whose agent was deleted by hand.\<close>

definition proxy_is_tombstoned :: "js \<Rightarrow> js \<Rightarrow> bool" where
  "proxy_is_tombstoned bd p =
     (case map_of (proxy_to_agent bd) (js_string (jget p ''id'')) of None \<Rightarrow> False
      | Some (agent, host) \<Rightarrow> agent \<noteq> [] \<and> host \<noteq> [] \<and>
          (case find (\<lambda>c. jget c ''id'' = JStr host) (board_clients bd) of None \<Rightarrow> False
           | Some c \<Rightarrow> js_list (jget c ''agents'') \<noteq> [] \<and> \<not> list_ex (\<lambda>a. jget a ''id'' = JStr agent) (js_list (jget c ''agents''))))"

definition upstream_host :: "js \<Rightarrow> js \<Rightarrow> js" where
  "upstream_host s node = js_or (js_or (jget s ''clientIp'') (jget node ''ip'')) (JStr ''127.0.0.1'')"

definition role_order :: "js \<Rightarrow> rat \<Rightarrow> rat" where
  "role_order role other = (if role = JStr ''primary'' then 0 else if role = JStr ''fallback'' then 1 else other)"

definition sorted_routes :: "(string \<Rightarrow> string \<Rightarrow> int) \<Rightarrow> js list \<Rightarrow> js list" where
  "sorted_routes lc rs = js_sort (\<lambda>a b.
     let d = role_order (jget a ''role'') 20 - role_order (jget b ''role'') 20
     in if d < 0 then -1 else if d > 0 then 1 else lc (js_text (jget a ''role'')) (js_text (jget b ''role''))) rs"

section \<open>The card of an agent\<close>

text \<open>\<open>hour\<close> is the summary of the hour's errors. The comments of the template are left out.\<close>

record agent_view =
  av_t :: dict
  av_clock :: "jnum \<Rightarrow> string"
  av_pulse :: pulse
  av_hour :: js
  av_folds :: card_fold

definition route_of :: "(string \<times> js) list \<Rightarrow> string \<Rightarrow> js" where
  "route_of routes role = (case map_of routes role of Some r \<Rightarrow> r | None \<Rightarrow> JUndef)"

definition agent_seen :: "agent_view \<Rightarrow> js list \<Rightarrow> rat" where
  "agent_seen v routes = fold max (map (\<lambda>r. if js_truthy r
     then nfig (proxy_by_id (pu_board (av_pulse v)) (jget r ''proxyId'')) ''lastRequestAt'' else 0) routes) 0"

definition agent_fold_mode :: "agent_view \<Rightarrow> string \<Rightarrow> js list \<Rightarrow> string" where
  "agent_fold_mode v key routes = fd_mode (av_folds v) ''clients'' key (agent_quiet (JObj
     [(''routes'', JNum (of_nat (length (filter js_truthy routes)))),
      (''incident'', JBool (list_ex (\<lambda>r. route_incident (av_pulse v) r \<noteq> None) routes))]))"

definition agent_kind :: "js \<Rightarrow> string" where
  "agent_kind a = js_join middot (filter (\<lambda>w. w \<noteq> []) [js_string (js_or (jget a ''kind'') (JStr ''manual'')), agent_meta a])"

definition agent_title :: "js \<Rightarrow> string" where
  "agent_title a = js_string (js_or (jget a ''name'') (jget a ''id''))"

definition agent_full_card :: "agent_view \<Rightarrow> js \<Rightarrow> js \<Rightarrow> (string \<times> js) list \<Rightarrow> bool \<Rightarrow> string" where
  "agent_full_card v client agent routes anchored =
     (let t = av_t v; u = av_pulse v; p = route_of routes ''primary''; f = route_of routes ''fallback'';
          esc = (\<lambda>w. escape_html (js_string w)); at_url = js_or (jget agent ''endpoint'') (jget agent ''url'')
      in '' <div class=\"topology-agent '' @ escape_html (agent_group agent) @ '' has-remove\" data-topology-agent=\"1\" data-host-id=\"''
         @ esc (jget client ''id'') @ ''\" data-agent-id=\"'' @ esc (jget agent ''id'') @ ''\"> <button class=\"agent-remove-btn\" type=\"button\" data-t=\"agent-remove\" title=\"''
         @ escape_html (t ''agentRemoveTitle'' []) @ ''\" data-agent-delete-client=\"'' @ esc (jget client ''id'')
         @ ''\" data-agent-delete-id=\"'' @ esc (jget agent ''id'') @ ''\">'' @ [CHR 0xC3, CHR 0x97] @ ''</button> <div class=\"topology-agent-summary\"> ''
         @ agent_dot t (av_clock v) (Fin (agent_seen v [p, f])) ''topology-port-dot'' @ '' <div> <div class=\"agent-title-line\"> <strong>''
         @ escape_html (agent_title agent) @ ''</strong> <button class=\"client-rename-btn\" type=\"button\" data-t=\"agent-rename\" title=\"''
         @ escape_html (t ''topologyAgentRename'' []) @ ''\" data-agent-rename=\"'' @ esc_id agent @ ''\" data-agent-rename-client=\"'' @ esc_id client
         @ ''\" data-agent-rename-name=\"'' @ escape_html (js_string (js_or (js_or (jget agent ''name'') (jget agent ''id'')) (JStr []))) @ ''\">''
         @ edit_sign @ ''</button> '' @ agent_caller_html t u (av_hour v) [p, f] @ '' <span class=\"agent-kind\">'' @ escape_html (agent_kind agent)
         @ ''</span> </div> '' @ (if js_truthy at_url then ''<code>'' @ esc at_url @ ''</code>'' else []) @ '' </div> </div> ''
         @ (if \<not> js_truthy p \<and> \<not> js_truthy f then ''<div class=\"agent-noroute\" data-t=\"agent-no-route\">'' @ err_sign @ '' '' @ escape_html (t ''agentNoRoute'' []) @ ''</div>'' else [])
         @ ''<div class=\"topology-agent-routes\"> '' @ agent_route_row t u (av_hour v) client agent ''primary'' p (route_usage (pu_board u) p) anchored @ '' ''
         @ agent_route_row t u (av_hour v) client agent ''fallback'' f (route_usage (pu_board u) f) anchored @ '' </div> </div> '')"

text \<open>A route as the folded line shows it: the facts the card's chips read; nothing for a role without one.\<close>

definition line_route :: "agent_view \<Rightarrow> js \<Rightarrow> js \<Rightarrow> string \<Rightarrow> js \<Rightarrow> js" where
  "line_route v client agent role route =
     (if \<not> js_truthy route then JNull
      else let t = av_t v; u = av_pulse v; proxy = proxy_by_id (pu_board u) (jget route ''proxyId'');
               port = js_or (js_or (jget proxy ''port'') (JStr (id_tail (route_pid route)))) (JStr []);
               usage = route_usage (pu_board u) route; model = js_trim (js_text (jget route ''modelName''));
               (cls, glyph, tip) = state_face usage
           in JObj [(''role'', JStr role), (''port'', port), (''address'', JStr (address_tip t u route port)),
                (''face'', JObj [(''cls'', JStr cls), (''glyph'', JStr glyph), (''tip'', JStr tip)]), (''model'', JStr model),
                (''locked'', JBool (model \<noteq> [] \<and> \<not> js_truthy (jget route ''modelNameAuto''))), (''waitSec'', JNum (fst (route_wait u route))),
                (''limit'', JNum (max 0 (nfig route ''contextLength''))), (''errBadge'', JStr (err_badge_html (av_hour v) port)),
                (''anchor'', JStr (route_handle_html t client agent role route usage))])"

definition agent_card :: "agent_view \<Rightarrow> js \<Rightarrow> js \<Rightarrow> (string \<times> js) list \<Rightarrow> bool \<Rightarrow> string" where
  "agent_card v client agent routes folded =
     (let p = route_of routes ''primary''; f = route_of routes ''fallback'';
          key = agent_key (js_string (jget client ''id'')) (js_string (jget agent ''id''));
          mode = (if folded then agent_fold_mode v key [p, f] else ''full'');
          card = agent_full_card v client agent routes
      in if mode = ''full'' then card True
         else if mode = ''pinned'' then slot_html (av_t v) (fold_place_of key ''clients'' ''pinned'' [] (card True) False False)
         else slot_html (av_t v) (fold_place_of key ''clients'' ''line''
                (agent_html (av_t v) (av_clock v) (agent_row_of (JObj [(''key'', JStr key), (''name'', JStr (agent_title agent)),
                   (''kind'', JStr (agent_kind agent)), (''seen'', JNum (agent_seen v [p, f])),
                   (''routes'', JArr [line_route v client agent ''primary'' p, line_route v client agent ''fallback'' f])])))
                (card False) (fd_peek_key (av_folds v) = key) False))"

text \<open>The cards of a client in its lane: an agent's id, its name, its card, and whether it is quiet.\<close>

definition lane_agent_cards :: "(string \<Rightarrow> string \<Rightarrow> int) \<Rightarrow> agent_view \<Rightarrow> js \<Rightarrow> js list \<Rightarrow> (js \<times> string \<times> string \<times> bool) list" where
  "lane_agent_cards lc v client assignments =
     map (\<lambda>agent. let routes = agent_routes assignments (jget agent ''id'') in
        (jget agent ''id'', js_string (js_or (js_or (jget agent ''name'') (jget agent ''id'')) (JStr [])), agent_card v client agent routes True,
         agent_is_idle (pu_board (av_pulse v)) (pu_now (av_pulse v)) (map snd routes)))
       (sorted_agents lc (client_agents client))"

section \<open>The clients Routing lists\<close>

record ports_line =
  cl_key :: string
  cl_client :: js
  cl_agent :: js
  cl_ports :: "js list"
  cl_shown :: js
  cl_live :: bool

text \<open>The routes of one agent: the ports not claimed yet, and the claims then.\<close>

definition claim_routes :: "js list \<Rightarrow> js list \<Rightarrow> string list \<Rightarrow> js list \<times> string list" where
  "claim_routes proxies routes claimed =
     fold (\<lambda>r (own, claimed).
        case find (\<lambda>p. js_string (jget p ''port'') = id_tail (js_text (jget r ''proxyId''))) (rev proxies) of
          None \<Rightarrow> (own, claimed)
        | Some p \<Rightarrow> if js_string (jget p ''id'') \<in> set claimed then (own, claimed)
                    else (own @ [p], set_add (js_string (jget p ''id'')) claimed)) routes ([], claimed)"

definition claim_agent :: "js \<Rightarrow> rat \<Rightarrow> js list \<Rightarrow> js \<Rightarrow> js \<Rightarrow> ports_line list \<times> string list \<Rightarrow> ports_line list \<times> string list" where
  "claim_agent bd now proxies client row st =
     (let routes = js_list (js_or (jget row ''routes'') (JArr [])); (own, claimed) = claim_routes proxies routes (snd st)
      in (if own \<noteq> [] then fst st @ [\<lparr>cl_key = js_string (jget client ''id'') @ ''::'' @ js_string (jget row ''agentId''),
             cl_client = jget client ''id'', cl_agent = jget row ''agentId'', cl_ports = own,
             cl_shown = js_or (jget row ''name'') (jget row ''agentId''), cl_live = \<not> agent_is_idle bd now routes\<rparr>] else fst st, claimed))"

text \<open>A row under the name the board shows its agent by.\<close>

definition shown_row :: "js \<Rightarrow> js \<Rightarrow> js" where
  "shown_row client row =
     (let names = map (\<lambda>a. (js_text (jget a ''id''), js_string (js_or (js_or (jget a ''name'') (jget a ''id'')) (JStr [])))) (rev (client_agents client))
      in js_put ''name'' (case map_of names (js_string (jget row ''agentId'')) of
           Some n \<Rightarrow> if n \<noteq> [] then JStr n else jget row ''agentId'' | None \<Rightarrow> jget row ''agentId'') (JObj (js_fields row)))"

definition line_card :: "ports_line \<Rightarrow> js" where
  "line_card l = JObj [(''name'', cl_shown l), (''live'', JBool (cl_live l))]"

definition claim_all :: "(string \<Rightarrow> string \<Rightarrow> int) \<Rightarrow> js \<Rightarrow> rat \<Rightarrow> js list \<Rightarrow> ports_line list \<times> string list" where
  "claim_all lc bd now proxies =
     fold (\<lambda>client st. fold (\<lambda>row st. claim_agent bd now proxies client row st)
         (sorted_agents lc (map (shown_row client) (assignments_for bd (jget client ''id'')))) st)
       (sorted_clients lc (board_clients bd)) ([], [])"

definition canvas_clients :: "(string \<Rightarrow> string \<Rightarrow> int) \<Rightarrow> js \<Rightarrow> rat \<Rightarrow> js list \<Rightarrow> ports_line list \<times> js list" where
  "canvas_clients lc bd now proxies =
     (let (lines, claimed) = claim_all lc bd now proxies
      in (js_sort (\<lambda>a b. lane_cmp lc (line_card a) (line_card b)) lines,
          filter (\<lambda>p. js_string (jget p ''id'') \<notin> set claimed) proxies))"

section \<open>Every port is listed once\<close>

lemma claim_routes_keeps:
  assumes "claim_routes proxies routes claimed = (own, claimed')"
    and "distinct (map (\<lambda>p. js_string (jget p ''id'')) proxies)"
  shows "set claimed' = set claimed \<union> (\<lambda>p. js_string (jget p ''id'')) ` set own
       \<and> distinct own \<and> set own \<subseteq> {p \<in> set proxies. js_string (jget p ''id'') \<notin> set claimed}"
  using assms(1)
proof (induction routes arbitrary: own claimed' rule: rev_induct)
  case Nil
  then show ?case by (simp add: claim_routes_def)
next
  case (snoc r routes)
  obtain own0 cl0 where c: "claim_routes proxies routes claimed = (own0, cl0)" by (cases "claim_routes proxies routes claimed")
  note ih = snoc.IH [OF c]
  show ?case
  proof (cases "find (\<lambda>p. js_string (jget p ''port'') = id_tail (js_text (jget r ''proxyId''))) (rev proxies)")
    case None
    then have "own = own0" "claimed' = cl0" using snoc.prems c by (auto simp: claim_routes_def)
    then show ?thesis using ih by simp
  next
    case (Some p)
    then have p: "p \<in> set proxies" using find_SomeD [OF Some] by simp
    show ?thesis
    proof (cases "js_string (jget p ''id'') \<in> set cl0")
      case True
      then have "own = own0" "claimed' = cl0" using snoc.prems c Some by (auto simp: claim_routes_def)
      then show ?thesis using ih by simp
    next
      case False
      then have "own = own0 @ [p]" "claimed' = set_add (js_string (jget p ''id'')) cl0"
        using snoc.prems c Some by (auto simp: claim_routes_def)
      then show ?thesis using ih p False by auto
    qed
  qed
qed

text \<open>What holds of the lines and the claims so far.\<close>

definition claims_ok :: "js list \<Rightarrow> ports_line list \<times> string list \<Rightarrow> bool" where
  "claims_ok proxies st = (let ports = concat (map cl_ports (fst st))
     in distinct ports \<and> set ports \<subseteq> set proxies \<and> set (snd st) = (\<lambda>p. js_string (jget p ''id'')) ` set ports
        \<and> (\<forall>l \<in> set (fst st). cl_ports l \<noteq> []))"

lemma claim_agent_ok:
  assumes "distinct (map (\<lambda>p. js_string (jget p ''id'')) proxies)" "claims_ok proxies st"
  shows "claims_ok proxies (claim_agent bd now proxies client row st)"
proof -
  obtain own cl where c: "claim_routes proxies (js_list (js_or (jget row ''routes'') (JArr []))) (snd st) = (own, cl)"
    by (cases "claim_routes proxies (js_list (js_or (jget row ''routes'') (JArr []))) (snd st)")
  note k = claim_routes_keeps [OF c assms(1)]
  have "set own \<inter> set (concat (map cl_ports (fst st))) = {}" using k assms(2) by (auto simp: claims_ok_def Let_def)
  then show ?thesis using assms(2) k c
    by (auto simp: claims_ok_def Let_def claim_agent_def image_Un)
qed

lemma fold_keeps: "(\<And>x s. P s \<Longrightarrow> P (f x s)) \<Longrightarrow> P s \<Longrightarrow> P (fold f xs s)"
  by (induction xs arbitrary: s) auto

lemma claim_all_ok:
  assumes "distinct (map (\<lambda>p. js_string (jget p ''id'')) proxies)"
  shows "claims_ok proxies (claim_all lc bd now proxies)"
  unfolding claim_all_def
  by (intro fold_keeps [where P = "claims_ok proxies"] claim_agent_ok [OF assms]) (simp_all add: claims_ok_def)

text \<open>(C13) 
  No port that feeds a router is lost to Routing's list and none stands in it twice: each is in the row of one agent,
  of the first that names it, or among those nobody claims; and no row is empty.
\<close>

theorem cl_every_port_is_listed_once:
  assumes "distinct (map (\<lambda>p. js_string (jget p ''id'')) proxies)" "canvas_clients lc bd now proxies = (rows, unclaimed)"
  shows "mset (concat (map cl_ports rows)) + mset unclaimed = mset proxies \<and> (\<forall>l \<in> set rows. cl_ports l \<noteq> [])"
proof -
  obtain ls cl where c: "claim_all lc bd now proxies = (ls, cl)" by (cases "claim_all lc bd now proxies")
  have ok: "claims_ok proxies (ls, cl)" using claim_all_ok [OF assms(1), of lc bd now] by (simp add: c)
  let ?ports = "concat (map cl_ports ls)"
  have rows: "mset rows = mset ls" and un: "unclaimed = filter (\<lambda>p. js_string (jget p ''id'') \<notin> set cl) proxies"
    using assms(2) c by (auto simp: canvas_clients_def)
  have "distinct proxies" using assms(1) by (simp add: distinct_map)
  moreover have "set ?ports = {p \<in> set proxies. js_string (jget p ''id'') \<in> set cl}"
    using ok assms(1) by (auto simp: claims_ok_def Let_def distinct_map dest: inj_onD)
  moreover have "distinct ?ports" using ok by (simp add: claims_ok_def Let_def)
  ultimately have "mset ?ports = filter_mset (\<lambda>p. js_string (jget p ''id'') \<in> set cl) (mset proxies)"
    by (simp add: set_eq_iff_mset_eq_distinct [symmetric] flip: mset_filter)
  moreover have "mset (concat (map cl_ports rows)) = mset ?ports"
    by (simp only: mset_concat map_map sum_mset_sum_list [symmetric] mset_map rows)
  ultimately have "mset (concat (map cl_ports rows)) + mset unclaimed = mset proxies"
    by (simp add: un mset_filter add.commute flip: multiset_partition)
  moreover have "\<forall>l \<in> set rows. cl_ports l \<noteq> []"
    using ok mset_eq_setD [OF rows] by (simp add: claims_ok_def Let_def)
  ultimately show ?thesis by blast
qed

definition lane_board :: js where
  "lane_board = JObj [(''clients'', JArr [JObj [(''id'', JStr ''h''), (''agents'', JArr [JObj [(''id'', JStr ''a'')]])]]),
     (''assignments'', JObj [(''h'', JObj [(''assignments'', JArr [JObj [(''agentId'', JStr ''a''),
        (''routes'', JArr [JObj [(''proxyId'', JStr ''skynet:proxy:1'')]])]])])])]"

definition two_ports :: "js list" where
  "two_ports = [JObj [(''id'', JStr ''p1''), (''port'', JStr ''1'')], JObj [(''id'', JStr ''p2''), (''port'', JStr ''2'')]]"

lemma cl_every_port_is_listed_once_witness:
  "mset (concat (map cl_ports (fst (canvas_clients (\<lambda>a b. 0) lane_board 0 two_ports)))) + mset (snd (canvas_clients (\<lambda>a b. 0) lane_board 0 two_ports))
   = mset two_ports"
  using cl_every_port_is_listed_once [of two_ports "\<lambda>a b. 0" lane_board 0 "fst (canvas_clients (\<lambda>a b. 0) lane_board 0 two_ports)"
      "snd (canvas_clients (\<lambda>a b. 0) lane_board 0 two_ports)"]
  by (simp add: two_ports_def)

section \<open>What is never folded\<close>

text \<open>
  An agent that leads nowhere, or one of whose routes has an incident, is shown in full whatever the lane's folding
  and pins say.
\<close>

theorem cl_trouble_is_shown_in_full:
  assumes "(\<not> js_truthy (route_of routes ''primary'') \<and> \<not> js_truthy (route_of routes ''fallback''))
    \<or> route_incident (av_pulse v) (route_of routes ''primary'') \<noteq> None \<or> route_incident (av_pulse v) (route_of routes ''fallback'') \<noteq> None"
  shows "agent_card v client agent routes folded = agent_full_card v client agent routes True"
proof -
  have "\<not> agent_quiet (JObj [(''routes'', JNum (of_nat (length (filter js_truthy [route_of routes ''primary'', route_of routes ''fallback''])))),
      (''incident'', JBool (list_ex (\<lambda>r. route_incident (av_pulse v) r \<noteq> None) [route_of routes ''primary'', route_of routes ''fallback'']))])"
    using assms by (auto simp: agent_quiet_def jnum_pos_def)
  then have "agent_fold_mode v key [route_of routes ''primary'', route_of routes ''fallback''] = ''full''" for key
    unfolding agent_fold_mode_def fd_mode_def by simp
  then show ?thesis by (simp add: agent_card_def Let_def)
qed

definition bare_view :: agent_view where
  "bare_view = \<lparr>av_t = \<lambda>k args. k, av_clock = \<lambda>n. [], av_pulse = \<lparr>pu_monitor = JNull, pu_board = JNull, pu_thresholds = JNull, pu_now = 0\<rparr>,
     av_hour = JNull, av_folds = fd_new (\<lambda>k. None) False\<rparr>"

lemma cl_trouble_is_shown_in_full_witness:
  "agent_card bare_view (JObj []) (JObj [(''id'', JStr ''a'')]) [] True = agent_full_card bare_view (JObj []) (JObj [(''id'', JStr ''a'')]) [] True"
  using cl_trouble_is_shown_in_full [of "[]" bare_view "JObj []" "JObj [(''id'', JStr ''a'')]" True] by (simp add: route_of_def)

end
