(* ===== verification/RouterPanels.thy ===== *)
theory RouterPanels
  imports OutputCells CellRules ServerOrder Cables
begin

text \<open>
  Routing's panels (\<open>static/js/routers.js\<close>): the router's card, its outputs by machine and by pool in the order of the
  board, with the rows nothing leads to folded under one, the head of its workspace and the ports that could feed it.
  \<open>ml\<close> is the short name of a model file, \<open>queues\<close> the queue drawn under an output; the canvas and its two panels are
  given. A line break of a template, with its indentation, is a space, and one that begins or ends a template is nothing.
\<close>

section \<open>What carries a request\<close>

definition out_kind :: "js \<Rightarrow> string" where
  "out_kind out = js_string (js_or (jget out ''upstreamType'') (JStr ''llama''))"

definition out_matches :: "js \<Rightarrow> js \<Rightarrow> bool" where
  "out_matches out it =
     (if out_kind out = ''cloud'' then js_text (jget it ''upstreamType'') = ''cloud'' \<and> js_text (jget it ''providerId'') = js_text (jget out ''providerId'')
      else if js_text (jget out ''upstreamType'') = ''engine'' then js_text (jget it ''routedOutputId'') = js_text (jget out ''id'')
      else out_kind it \<noteq> ''cloud'' \<and> js_text (jget it ''upstream'') = oc_upstream out)"

definition router_ports :: "js \<Rightarrow> js \<Rightarrow> jnum list" where
  "router_ports bd router = (let inputs = map js_string (js_list (js_or (jget router ''inputs'') (JArr [])))
     in map (\<lambda>p. js_number (jget p ''port'')) (filter (\<lambda>p. js_string (jget p ''id'') \<in> set inputs) (proxy_rows bd)))"

definition output_activity :: "rat \<Rightarrow> js list \<Rightarrow> js \<Rightarrow> js \<Rightarrow> js option \<Rightarrow> activity" where
  "output_activity now rows bd out router = items_activity now rows
     (\<lambda>it port. (case router of None \<Rightarrow> True | Some r \<Rightarrow> port \<in> set (router_ports bd r)) \<and> out_matches out it)"

section \<open>Names and marks\<close>

definition pools_of :: "js \<Rightarrow> js list" where
  "pools_of bd = js_list (js_or (jget bd ''pools'') (JArr []))"

definition pool_for_out :: "js \<Rightarrow> js \<Rightarrow> js option" where
  "pool_for_out bd out = find (\<lambda>p. jget p ''id'' = JStr (js_text (jget out ''providerId''))) (pools_of bd)"

definition cloud_sign :: string where
  "cloud_sign = [CHR 0xE2, CHR 0x98, CHR 0x81]"

definition pool_name_of :: "js option \<Rightarrow> js" where
  "pool_name_of p = (case p of Some q \<Rightarrow> jget q ''name'' | None \<Rightarrow> JUndef)"

definition output_label :: "(js \<Rightarrow> string) \<Rightarrow> js \<Rightarrow> js \<Rightarrow> string" where
  "output_label ml bd out =
     (if out_kind out = ''cloud''
      then js_string (js_or (jget out ''label'') (JStr (cloud_sign @ '' ''
             @ js_string (js_or (js_or (pool_name_of (pool_for_out bd out)) (jget out ''providerId'')) (JStr ''cloud'')))))
      else if js_text (jget out ''upstreamType'') = ''engine''
      then js_string (js_or (jget out ''label'') (JStr (js_text (jget out ''upstreamModel'') @ middot @ js_text (jget out ''engine''))))
      else if js_text (jget out ''upstreamType'') = ''machine'' then js_string (js_or (js_or (jget out ''upstreamModel'') (jget out ''label'')) (JStr []))
      else let name = oc_row_name ml bd out
           in if name \<noteq> [] then name @ '' :'' @ js_string (jget out ''upstreamPort'')
              else js_string (jget out ''upstreamHost'') @ '':'' @ js_string (jget out ''upstreamPort''))"

definition pool_step_list :: "js option \<Rightarrow> js list" where
  "pool_step_list p = (case p of Some q \<Rightarrow> js_list (js_or (jget q ''steps'') (JArr [])) | None \<Rightarrow> [])"

definition account_named :: "js \<Rightarrow> js \<Rightarrow> string" where
  "account_named bd i = js_string (js_or (case find (\<lambda>a. jget a ''id'' = i) (js_list (js_or (jget bd ''cloudAccounts'') (JArr []))) of
     Some a \<Rightarrow> jget a ''name'' | None \<Rightarrow> JUndef) i)"

definition warn_mark :: "string \<Rightarrow> string" where
  "warn_mark tip = ''<span class=\"router-out-unlisted-warn\" title=\"'' @ escape_html tip @ ''\">'' @ [CHR 0xE2, CHR 0x9A, CHR 0xA0] @ ''</span>''"

definition pool_marks :: "dict \<Rightarrow> js \<Rightarrow> js option \<Rightarrow> string" where
  "pool_marks t bd pool =
     (let steps = pool_step_list pool;
          named = map (\<lambda>(i, s). nat_str (i + 1) @ ''. '' @ account_named bd (jget s ''accountId'') @ middot @ js_string (jget s ''model'')
            @ (if jget s ''enabled'' = JBool False then '' ('' @ t ''poolDisabled'' [] @ '')'' else [])) (enumerate 0 steps);
          live = filter (\<lambda>s. jget s ''enabled'' \<noteq> JBool False) steps;
          chip = ''<span class=\"router-out-steps\" title=\"'' @ escape_html (js_join [CHR 10] named) @ ''\">''
            @ escape_html (t ''rtPoolSteps'' [(''n'', nat_str (length steps))]) @ ''</span>''
      in if live = [] then chip @ warn_mark (t ''rtPoolNoStep'' [])
         else if list_ex (\<lambda>s. js_truthy (jget s ''unlisted'')) live then chip @ warn_mark (t ''cloudModelUnlisted'' [])
         else chip)"

definition router_card_html :: "dict \<Rightarrow> activity \<Rightarrow> js \<Rightarrow> js \<Rightarrow> string" where
  "router_card_html t act bd router =
     (let clients = filter is_entry_client (proxy_rows bd); i = escape_html (js_string (jget router ''id''))
      in ''<article class=\"topology-card router-card '' @ escape_html (state_health_classes act) @ ''\" data-router-id=\"'' @ i @ ''\" data-topology-router=\"'' @ i
         @ ''\" data-t=\"board-routing-card\" role=\"button\" tabindex=\"0\" title=\"'' @ escape_html (t ''rtTitleOpenRouting'' [])
         @ ''\"> <span class=\"topology-handle input router-input\" data-topology-router-input=\"1\" data-router-id=\"'' @ i @ ''\" title=\"'' @ escape_html (t ''rtTitleClientsIn'' [])
         @ ''\"></span> <span class=\"topology-handle output router-output\" data-topology-router-output=\"1\" data-router-id=\"'' @ i
         @ ''\" aria-hidden=\"true\"></span> <div class=\"topology-card-head\"> <strong>'' @ escape_html (t ''topologyRouterTitle'' []) @ ''</strong>''
         @ qs_help_tip t ''topologyRoutingHelp'' @ '' <span class=\"router-meta\" data-t=\"board-routing-counts\">'' @ escape_html (t ''topologyClientsSection'' []) @ '' ''
         @ nat_str (length (filter (\<lambda>c. js_truthy (jget c ''set'')) clients)) @ ''/'' @ nat_str (length clients) @ middot
         @ escape_html (t ''topologyLlamaServersSection'' []) @ '' '' @ nat_str (length (pools_of bd)) @ ''</span> </div> </article>'')"

section \<open>The outputs by machine\<close>

record out_group =
  og_key :: string
  og_name :: string
  og_address :: string
  og_outs :: "js list"

definition out_port :: "js \<Rightarrow> rat" where
  "out_port out = num_of (js_or (jget out ''upstreamPort'') (JNum 0))"

definition by_rat :: "('a \<Rightarrow> rat) \<Rightarrow> 'a \<Rightarrow> 'a \<Rightarrow> int" where
  "by_rat f a b = (if f a < f b then -1 else if f b < f a then 1 else 0)"

fun group_add :: "oc_place \<Rightarrow> js \<Rightarrow> out_group list \<Rightarrow> out_group list" where
  "group_add m out [] = [\<lparr>og_key = oc_key m, og_name = oc_name m, og_address = oc_address m, og_outs = [out]\<rparr>]"
| "group_add m out (g # gs) = (if og_key g = oc_key m then g\<lparr>og_outs := og_outs g @ [out]\<rparr> # gs else g # group_add m out gs)"

definition local_outs :: "js list \<Rightarrow> js list" where
  "local_outs outs = filter (\<lambda>out. out_kind out \<noteq> ''cloud'') outs"

definition fill_groups :: "js \<Rightarrow> js list \<Rightarrow> out_group list \<Rightarrow> out_group list" where
  "fill_groups bd outs gs = foldl (\<lambda>gs out. group_add (oc_machine_at bd (js_or (jget out ''upstreamHost'') (JStr ''127.0.0.1''))) out gs) gs outs"

definition local_groups :: "js \<Rightarrow> js list \<Rightarrow> out_group list" where
  "local_groups bd outs =
     js_sort (by_rat (\<lambda>g. out_port (hd (og_outs g))))
       (map (\<lambda>g. g\<lparr>og_outs := js_sort (by_rat out_port) (og_outs g)\<rparr>)
         (fill_groups bd (local_outs outs) []))"

definition machine_label :: "out_group \<Rightarrow> string" where
  "machine_label g = escape_html (og_name g)
     @ (if og_address g \<noteq> [] \<and> og_address g \<noteq> og_name g then '' <span class=\"router-out-host-addr\">'' @ escape_html (og_address g) @ ''</span>'' else [])"

section \<open>A row of an output\<close>

text \<open>What the block reads: the board, its router, the folds, the queues, the monitor at a moment.\<close>

record servers_view =
  sv_t :: dict
  sv_ml :: "js \<Rightarrow> string"
  sv_board :: js
  sv_router :: js
  sv_rows :: "js list"
  sv_now :: rat
  sv_folded :: "string list" \<comment> \<open>\<open>topologyOutputsFolded\<close>\<close>
  sv_shown :: "string list" \<comment> \<open>\<open>topologyQuietShown\<close>\<close>
  sv_queues :: "string \<Rightarrow> string"

definition live_dot :: "servers_view \<Rightarrow> js \<Rightarrow> string \<Rightarrow> string" where
  "live_dot v out st =
     (if st \<noteq> ''running'' then ''<span class=\"router-out-live live-off\" aria-hidden=\"true\"></span>''
      else let act = ac_state (output_activity (sv_now v) (sv_rows v) (sv_board v) out (Some (sv_router v)));
               tip = (if act = ''active'' then sv_t v ''rtLiveActive'' [] else if act = ''recent'' then sv_t v ''rtLiveRecent'' []
                 else if act = ''idle'' then sv_t v ''cvQIdle'' [] else [])
           in ''<span class=\"router-out-live live-'' @ act @ ''\" title=\"'' @ tip @ ''\"></span>'')"

definition state_word :: "dict \<Rightarrow> string \<Rightarrow> string" where
  "state_word t st = (case map_of oc_words st of None \<Rightarrow> []
     | Some k \<Rightarrow> ''<span class=\"router-out-state state-'' @ st @ ''\" data-t=\"routing-out-state\" data-t-state=\"'' @ st @ ''\">'' @ escape_html (t k []) @ ''</span>'')"

definition not_equal :: string where
  "not_equal = [CHR 0xE2, CHR 0x89, CHR 0xA0]"

definition empty_sign :: string where
  "empty_sign = [CHR 0xE2, CHR 0x88, CHR 0x85]"

text \<open>A difference as the row says it: the key and the value, cut; a secret's value is not said.\<close>

definition said_difference :: "string \<times> string option \<Rightarrow> string" where
  "said_difference kv = (case kv of (k, None) \<Rightarrow> k @ '' '' @ not_equal
     | (k, Some w) \<Rightarrow> k @ ''='' @ (if w = [] then empty_sign else take 24 w))"

definition twin_note :: "dict \<Rightarrow> oc_note option \<Rightarrow> string" where
  "twin_note t note = (case note of None \<Rightarrow> []
     | Some (OcSame n) \<Rightarrow> ''<span class=\"router-out-twin\" title=\"'' @ escape_html (t ''rtTwinSame'' [(''port'', rat_str n)]) @ ''\">= :'' @ escape_html (rat_str n) @ ''</span>''
     | Some (OcDiffer d) \<Rightarrow>
         ''<span class=\"router-out-twin\" title=\"'' @ escape_html (t ''rtTwinDiffer'' [(''keys'', js_join '', '' (map fst d))]) @ ''\">''
         @ escape_html (js_join middot (map said_difference (take 2 d)) @ (if length d > 2 then '' +'' @ nat_str (length d - 2) else [])) @ ''</span>'')"

definition default_id :: "js \<Rightarrow> js" where
  "default_id router = js_or (jget (jget router ''rules'') ''default'') (JStr [])"

definition output_row :: "servers_view \<Rightarrow> js \<Rightarrow> string \<Rightarrow> oc_note option \<Rightarrow> string" where
  "output_row v out cls note =
     (let t = sv_t v; is_def = (jget out ''id'' = default_id (sv_router v)); cloud = (js_text (jget out ''upstreamType'') = ''cloud'');
          st = oc_state (sv_board v) out; marks = (if cloud then [] else oc_marks (sv_board v) out);
          cell_row = (out_kind out = ''llama'');
          shown = (if cell_row then (let n = oc_row_name (sv_ml v) (sv_board v) out in if n \<noteq> [] then n else js_text (jget out ''upstreamHost''))
                   else output_label (sv_ml v) (sv_board v) out);
          i = escape_html (js_string (jget out ''id''))
      in ''<label class=\"router-out-row '' @ (if is_def then ''is-default'' else []) @ (if st \<noteq> [] \<and> st \<noteq> ''running'' then '' cell-'' @ st else []) @ '' '' @ cls
         @ ''\" data-router-out-row=\"'' @ i @ ''\" data-router-link-out=\"'' @ i @ ''\"'' @ (if st \<noteq> [] then '' data-cell-state=\"'' @ st @ ''\"'' else [])
         @ ''> <input class=\"router-out-radio\" type=\"radio\" name=\"rw-default\" '' @ (if is_def then ''checked'' else []) @ '' data-router-set-default=\"''
         @ escape_html (js_string (jget (sv_router v) ''id'')) @ ''\" data-output-id=\"'' @ i @ ''\" title=\"'' @ escape_html (t ''rtTitleSetDefault'' []) @ ''\"> ''
         @ (if cloud then [] else live_dot v out st) @ '' <span class=\"router-out-name\">''
         @ (if marks \<noteq> [] then ''<span class=\"router-out-marks\">'' @ marks @ ''</span> '' else []) @ escape_html shown @ ''</span> ''
         @ (if cell_row then ''<span class=\"router-out-port cell-port\">:'' @ escape_html (js_string (jget out ''upstreamPort'')) @ ''</span>'' else []) @ '' ''
         @ twin_note t note @ '' '' @ (if cloud \<and> pool_for_out (sv_board v) out \<noteq> None then pool_marks t (sv_board v) (pool_for_out (sv_board v) out) else []) @ '' ''
         @ (if is_def then ''<span class=\"router-out-badge\">default</span>'' else []) @ '' '' @ state_word t st @ '' </label>'')"

section \<open>The block of servers\<close>

definition caret :: "bool \<Rightarrow> string" where
  "caret opened = (if opened then [CHR 0xE2, CHR 0x96, CHR 0xBE] else [CHR 0xE2, CHR 0x96, CHR 0xB8])"

text \<open>A later note of an output stands.\<close>

definition note_of :: "(js \<times> oc_note) list \<Rightarrow> js \<Rightarrow> oc_note option" where
  "note_of notes i = map_of (rev notes) i"

definition group_rows :: "servers_view \<Rightarrow> (js \<times> oc_note) list \<Rightarrow> js list \<Rightarrow> string" where
  "group_rows v notes outs = concat (map (\<lambda>out. output_row v out [] (note_of notes (jget out ''id'')) @ sv_queues v (js_string (jget out ''id''))) outs)"

definition out_ids :: "js list \<Rightarrow> string" where
  "out_ids outs = escape_html (js_join '','' (map (\<lambda>out. js_string (jget out ''id'')) outs))"

definition quiet_html :: "servers_view \<Rightarrow> string \<Rightarrow> (js \<times> oc_note) list \<Rightarrow> js list \<Rightarrow> string" where
  "quiet_html v key notes quiet =
     (if quiet = [] then []
      else let opened = (key \<in> set (sv_shown v)); k = escape_html key
           in ''<div class=\"router-out-quiet'' @ (if opened then [] else '' folded'') @ ''\" data-t=\"routing-quiet-cells\" data-t-id=\"'' @ k
              @ ''\" data-cv-group-outs=\"'' @ out_ids quiet @ ''\"> <div class=\"router-out-quiet-head\" data-router-quiet-toggle=\"'' @ k
              @ ''\" role=\"button\" tabindex=\"0\" aria-expanded=\"'' @ (if opened then ''true'' else ''false'') @ ''\" title=\"'' @ escape_html (sv_t v ''rtQuietTip'' [])
              @ ''\"> <span class=\"router-prov-caret\">'' @ caret opened @ ''</span> <span class=\"router-out-quiet-label\">''
              @ escape_html (sv_t v ''rtQuietCells'' [(''n'', nat_str (length quiet))]) @ ''</span> </div>'' @ (if opened then group_rows v notes quiet else []) @ ''</div>'')"

text \<open>An entry of the list: the key it is ordered by, and its markup.\<close>

record servers_entry =
  se_key :: string
  se_html :: string

definition fold_key :: "out_group \<Rightarrow> string" where
  "fold_key g = ''host:'' @ og_key g"

definition local_entry :: "servers_view \<Rightarrow> out_group \<Rightarrow> servers_entry" where
  "local_entry v g =
     (let folded = (fold_key g \<in> set (sv_folded v)); (shown, quiet) = oc_split (sv_board v) (sv_router v) (og_outs g);
          notes = oc_twins (sv_ml v) (sv_board v) (og_outs g);
          head = ''<div class=\"router-out-host-head\" data-router-group-fold=\"'' @ escape_html (fold_key g) @ ''\" role=\"button\" tabindex=\"0\" title=\"''
            @ escape_html (if folded then sv_t v ''expand'' [] else sv_t v ''collapse'' []) @ ''\"> <span class=\"router-prov-caret\">'' @ caret (\<not> folded)
            @ ''</span> <span class=\"router-out-host-label\">'' @ machine_label g @ ''</span> <span class=\"router-prov-count\">'' @ nat_str (length (og_outs g)) @ ''</span> </div>''
      in \<lparr>se_key = so_key ''node'' (og_key g),
          se_html = ''<div class=\"router-out-host-group'' @ (if folded then '' folded'' else []) @ ''\" data-cv-group-outs=\"'' @ out_ids (og_outs g) @ ''\">'' @ head
            @ (if folded then [] else group_rows v notes shown @ quiet_html v (og_key g) notes quiet) @ ''</div>''\<rparr>)"

definition cloud_outs :: "js list \<Rightarrow> js list" where
  "cloud_outs outs = filter (\<lambda>out. js_text (jget out ''upstreamType'') = ''cloud'') outs"

text \<open>The outputs of the pools in the pools' order, the last of each pool, then those of no pool the page knows.\<close>

definition pool_outs :: "js \<Rightarrow> js list \<Rightarrow> js list" where
  "pool_outs bd outs =
     (let cloud = cloud_outs outs;
          by_pool = (\<lambda>p. find (\<lambda>out. JStr (js_text (jget out ''providerId'')) = jget p ''id'') (rev cloud));
          known = map (\<lambda>p. jget p ''id'') (pools_of bd)
      in List.map_filter by_pool (pools_of bd) @ filter (\<lambda>out. JStr (js_text (jget out ''providerId'')) \<notin> set known) cloud)"

definition pool_entry :: "servers_view \<Rightarrow> js \<Rightarrow> servers_entry" where
  "pool_entry v out = \<lparr>se_key = so_key ''cloud'' (js_text (jget out ''providerId'')),
     se_html = ''<div class=\"router-prov router-pool\" data-cv-group-outs=\"'' @ escape_html (js_string (jget out ''id'')) @ ''\">'' @ output_row v out ''cloud'' None @ ''</div>''\<rparr>"

definition router_outs :: "js \<Rightarrow> js list" where
  "router_outs router = js_list (js_or (jget router ''outputs'') (JArr []))"

definition servers_entries :: "so_state \<Rightarrow> servers_view \<Rightarrow> servers_entry list" where
  "servers_entries so v = so_sorted so se_key
     (map (local_entry v) (local_groups (sv_board v) (router_outs (sv_router v)))
      @ map (pool_entry v) (pool_outs (sv_board v) (router_outs (sv_router v))))"

definition none_line :: "dict \<Rightarrow> bool \<Rightarrow> string \<Rightarrow> string" where
  "none_line t none k = (if none then ''<div class=\"router-cfg-muted router-prov-empty\">'' @ t k [] @ ''</div>'' else [])"

definition servers_html :: "so_state \<Rightarrow> servers_view \<Rightarrow> string" where
  "servers_html so v =
     ''<div class=\"router-out-sec\"> '' @ concat (map se_html (servers_entries so v))
     @ none_line (sv_t v) (local_groups (sv_board v) (router_outs (sv_router v)) = []) ''rtNoLocalServers''
     @ none_line (sv_t v) (pool_outs (sv_board v) (router_outs (sv_router v)) = []) ''rtNoPools'' @ '' </div>''"

section \<open>The outputs by machine are the outputs\<close>

lemma by_rat_le: "(by_rat f a b \<le> 0) = (f a \<le> f b)"
  by (auto simp: by_rat_def)

lemma sorted_js_sort_by_rat [simp]: "sorted (map f (js_sort (by_rat f) xs))"
  by (subst js_sort_sort_key [of "by_rat f" f]) (simp_all add: by_rat_le)

definition place_key :: "js \<Rightarrow> js \<Rightarrow> string" where
  "place_key bd out = oc_key (oc_machine_at bd (js_or (jget out ''upstreamHost'') (JStr ''127.0.0.1'')))"

text \<open>A group as it is filled: never empty, its outputs all of its machine.\<close>

definition group_ok :: "js \<Rightarrow> out_group \<Rightarrow> bool" where
  "group_ok bd g = (og_outs g \<noteq> [] \<and> (\<forall>out \<in> set (og_outs g). place_key bd out = og_key g))"

lemma group_add_outs [simp]: "mset (concat (map og_outs (group_add m out gs))) = add_mset out (mset (concat (map og_outs gs)))"
  by (induction gs) auto

lemma group_add_keys: "og_key ` set (group_add m out gs) = insert (oc_key m) (og_key ` set gs)"
  by (induction gs) auto

lemma group_add_distinct: "distinct (map og_key gs) \<Longrightarrow> distinct (map og_key (group_add m out gs))"
proof (induction gs)
  case (Cons g gs)
  then show ?case using group_add_keys [of m out gs] by (auto simp flip: image_image)
qed simp

lemma group_add_ok: "list_all (group_ok bd) gs \<Longrightarrow> oc_key m = place_key bd out \<Longrightarrow> list_all (group_ok bd) (group_add m out gs)"
  by (induction gs) (auto simp: group_ok_def)

lemma groups_filled:
  assumes "distinct (map og_key gs)" "list_all (group_ok bd) gs"
  shows "mset (concat (map og_outs (fill_groups bd outs gs))) = mset (concat (map og_outs gs)) + mset outs
     \<and> distinct (map og_key (fill_groups bd outs gs)) \<and> list_all (group_ok bd) (fill_groups bd outs gs)"
  using assms unfolding fill_groups_def
  by (induction outs arbitrary: gs) (simp_all add: group_add_distinct group_add_ok place_key_def)

lemma concat_rearranged: "mset xs = mset ys \<Longrightarrow> mset (concat (map f xs)) = mset (concat (map f ys))"
  by (simp only: mset_concat map_map sum_mset_sum_list [symmetric] mset_map)

text \<open>The groups before they are ordered, and as they are.\<close>

lemma groups_of:
  obtains gs where "mset (local_groups bd outs) = mset (map (\<lambda>g. g\<lparr>og_outs := js_sort (by_rat out_port) (og_outs g)\<rparr>) gs)"
    "mset (concat (map og_outs gs)) = mset (local_outs outs)" "distinct (map og_key gs)" "list_all (group_ok bd) gs"
  using groups_filled [of "[]" bd "local_outs outs"] by (simp add: local_groups_def)

lemma rt_groups_mset: "mset (concat (map og_outs (local_groups bd outs))) = mset (local_outs outs)"
proof -
  obtain gs where m: "mset (local_groups bd outs) = mset (map (\<lambda>g. g\<lparr>og_outs := js_sort (by_rat out_port) (og_outs g)\<rparr>) gs)"
    and f: "mset (concat (map og_outs gs)) = mset (local_outs outs)" by (rule groups_of)
  have "mset (concat (map og_outs (map (\<lambda>g. g\<lparr>og_outs := js_sort (by_rat out_port) (og_outs g)\<rparr>) gs))) = mset (concat (map og_outs gs))"
    by (induction gs) simp_all
  then show ?thesis using concat_rearranged [OF m, of og_outs] f by simp
qed

lemma js_sort_Nil_iff [simp]: "js_sort cmp xs = [] \<longleftrightarrow> xs = []"
  by (metis length_0_conv length_js_sort)

lemma groups_are_filled:
  assumes "g \<in> set (local_groups bd outs)"
  shows "og_outs g \<noteq> []"
proof -
  obtain gs where m: "mset (local_groups bd outs) = mset (map (\<lambda>g. g\<lparr>og_outs := js_sort (by_rat out_port) (og_outs g)\<rparr>) gs)"
    and f: "list_all (group_ok bd) gs" by (rule groups_of)
  then show ?thesis using assms mset_eq_setD [OF m] by (auto simp: list_all_iff group_ok_def)
qed

text \<open>(C38) 
  The groups hold every output of the machines once, each with the others of its machine, and stand, as the rows in
  them, by their ports, the lowest first.
\<close>

theorem rt_outputs_by_machine:
  "mset (concat (map og_outs (local_groups bd outs))) = mset (local_outs outs)
   \<and> distinct (map og_key (local_groups bd outs))
   \<and> list_all (\<lambda>g. og_outs g \<noteq> [] \<and> sorted (map out_port (og_outs g)) \<and> list_all (\<lambda>out. place_key bd out = og_key g) (og_outs g)) (local_groups bd outs)
   \<and> sorted (map (\<lambda>g. out_port (hd (og_outs g))) (local_groups bd outs))"
proof (intro conjI)
  obtain gs where m: "mset (local_groups bd outs) = mset (map (\<lambda>g. g\<lparr>og_outs := js_sort (by_rat out_port) (og_outs g)\<rparr>) gs)"
    and f: "distinct (map og_key gs)" "list_all (group_ok bd) gs" by (rule groups_of)
  have "mset (map og_key (local_groups bd outs)) = mset (map og_key (map (\<lambda>g. g\<lparr>og_outs := js_sort (by_rat out_port) (og_outs g)\<rparr>) gs))"
    by (simp only: mset_map m)
  also have "map og_key (map (\<lambda>g. g\<lparr>og_outs := js_sort (by_rat out_port) (og_outs g)\<rparr>) gs) = map og_key gs" by simp
  finally show "distinct (map og_key (local_groups bd outs))" using f(1) by (metis mset_eq_imp_distinct_iff)
  show "list_all (\<lambda>g. og_outs g \<noteq> [] \<and> sorted (map out_port (og_outs g)) \<and> list_all (\<lambda>out. place_key bd out = og_key g) (og_outs g)) (local_groups bd outs)"
    using f(2) mset_eq_setD [OF m] by (auto simp: list_all_iff group_ok_def)
  show "sorted (map (\<lambda>g. out_port (hd (og_outs g))) (local_groups bd outs))"
    unfolding local_groups_def by (rule sorted_js_sort_by_rat)
qed (rule rt_groups_mset)

section \<open>No cable loses its end\<close>

lemma out_kind_cloud: "(out_kind out = ''cloud'') = (js_text (jget out ''upstreamType'') = ''cloud'')"
  by (auto simp: out_kind_def js_text_def js_or_def)

lemma pool_outs_mset:
  assumes "distinct (map (\<lambda>out. js_text (jget out ''providerId'')) (cloud_outs outs))" "distinct (map (\<lambda>p. jget p ''id'') (pools_of bd))"
  shows "mset (pool_outs bd outs) = mset (cloud_outs outs)"
proof -
  define f where "f = (\<lambda>out. JStr (js_text (jget out ''providerId'')))"
  define by_pool where "by_pool = (\<lambda>p. find (\<lambda>out. f out = jget p ''id'') (rev (cloud_outs outs)))"
  let ?known = "(\<lambda>p. jget p ''id'') ` set (pools_of bd)"
  have inj: "inj_on f (set (cloud_outs outs))" and d: "distinct (cloud_outs outs)"
    using assms(1) by (auto simp: distinct_map f_def inj_on_def)
  have some: "by_pool p = Some out \<longleftrightarrow> out \<in> set (cloud_outs outs) \<and> f out = jget p ''id''" for p out
  proof
    assume "by_pool p = Some out"
    then show "out \<in> set (cloud_outs outs) \<and> f out = jget p ''id''" unfolding by_pool_def by (auto dest: find_SomeD)
  next
    assume out: "out \<in> set (cloud_outs outs) \<and> f out = jget p ''id''"
    then obtain out' where "by_pool p = Some out'" unfolding by_pool_def by (cases "find (\<lambda>out. f out = jget p ''id'') (rev (cloud_outs outs))") (auto simp: find_None_iff)
    moreover from this have "out' \<in> set (cloud_outs outs) \<and> f out' = jget p ''id''" unfolding by_pool_def by (auto dest: find_SomeD)
    ultimately show "by_pool p = Some out" using out inj by (metis inj_onD)
  qed
  have po: "pool_outs bd outs = List.map_filter by_pool (pools_of bd) @ filter (\<lambda>out. f out \<notin> ?known) (cloud_outs outs)"
    by (simp add: pool_outs_def by_pool_def f_def Let_def)
  have known: "set (List.map_filter by_pool (pools_of bd)) = {out \<in> set (cloud_outs outs). f out \<in> ?known}"
  proof -
    have "set (List.map_filter by_pool ps) = {out. \<exists>p \<in> set ps. by_pool p = Some out}" for ps
      by (induction ps) (auto simp: List.map_filter_simps split: option.splits)
    then show ?thesis by (auto simp: some image_iff)
  qed
  have "distinct (List.map_filter by_pool (pools_of bd))"
  proof -
    have "map f (List.map_filter by_pool ps) = map (\<lambda>p. jget p ''id'') (filter (\<lambda>p. by_pool p \<noteq> None) ps)" for ps
      by (induction ps) (auto simp: List.map_filter_simps dest: some [THEN iffD1])
    then have "distinct (map f (List.map_filter by_pool (pools_of bd)))" using assms(2) by (simp add: distinct_map_filter)
    then show ?thesis by (simp add: distinct_map)
  qed
  then have "distinct (pool_outs bd outs)" using d by (auto simp: po known)
  moreover have "set (pool_outs bd outs) = set (cloud_outs outs)" by (auto simp: po known)
  ultimately show ?thesis using d by (simp add: set_eq_iff_mset_eq_distinct)
qed

text \<open>
  A cable finds its end by an attribute of the markup (\<open>data-cv-group-outs\<close>: the ids of the outputs of a group, a pool or the folded
  rows): whether the block has one that names an output.
\<close>

definition named_end :: "string list \<Rightarrow> string" where
  "named_end ids = ''data-cv-group-outs=\"'' @ escape_html (js_join '','' ids) @ ''\"''"

definition has_end :: "string \<Rightarrow> string list \<Rightarrow> string \<Rightarrow> bool" where
  "has_end html known i = (\<exists>ids. i \<in> set ids \<and> set ids \<subseteq> set known \<and> str_includes html (named_end ids))"

lemma str_includes_iff: "str_includes s w \<longleftrightarrow> (\<exists>a b. s = a @ w @ b)"
proof
  assume "str_includes s w"
  then obtain x where x: "suffix x s" "prefix w x" by (auto simp: str_includes_def list_ex_iff)
  then show "\<exists>a b. s = a @ w @ b" unfolding prefix_def suffix_def by blast
next
  assume "\<exists>a b. s = a @ w @ b"
  then obtain a b where s: "s = a @ w @ b" by blast
  have "w @ b \<in> set (suffixes s)" by (simp add: s suffix_def)
  moreover have "prefix w (w @ b)" by simp
  ultimately show "str_includes s w" unfolding str_includes_def list_ex_iff by blast
qed

lemma str_includes_within: "str_includes s w \<Longrightarrow> str_includes (a @ s @ b) w"
  unfolding str_includes_iff by (metis append.assoc)

lemma str_includes_concat: "x \<in> set xs \<Longrightarrow> str_includes (f x) w \<Longrightarrow> str_includes (concat (map f xs)) w"
proof -
  assume "x \<in> set xs" "str_includes (f x) w"
  then obtain ys zs where "xs = ys @ x # zs" by (auto simp: in_set_conv_decomp)
  then show ?thesis using str_includes_within [OF \<open>str_includes (f x) w\<close>] by simp
qed

lemma out_ids_named: "named_end (map (\<lambda>out. js_string (jget out ''id'')) outs) = ''data-cv-group-outs=\"'' @ out_ids outs @ ''\"''"
  by (simp add: named_end_def out_ids_def)

lemma local_entry_end: "str_includes (se_html (local_entry v g)) (named_end (map (\<lambda>out. js_string (jget out ''id'')) (og_outs g)))"
proof -
  obtain rest where "se_html (local_entry v g) = (''<div class=\"router-out-host-group'' @ (if fold_key g \<in> set (sv_folded v) then '' folded'' else []) @ ''\" '')
      @ (''data-cv-group-outs=\"'' @ out_ids (og_outs g) @ ''\"'') @ (''>'' @ rest)"
    by (simp add: local_entry_def Let_def split_def)
  then show ?thesis unfolding out_ids_named str_includes_iff by blast
qed

lemma pool_entry_end: "str_includes (se_html (pool_entry v out)) (named_end [js_string (jget out ''id'')])"
proof -
  have "se_html (pool_entry v out) = ''<div class=\"router-prov router-pool\" '' @ named_end [js_string (jget out ''id'')]
      @ (''>'' @ output_row v out ''cloud'' None @ ''</div>'')"
    by (simp add: pool_entry_def named_end_def)
  then show ?thesis unfolding str_includes_iff by blast
qed


definition two_machines :: servers_view where
  "two_machines = \<lparr>sv_t = \<lambda>k args. k, sv_ml = \<lambda>m. [], sv_board = JObj [(''pools'', JArr [JObj [(''id'', JStr ''p'')]])],
     sv_router = JObj [(''outputs'', JArr [JObj [(''id'', JStr ''srv:2''), (''upstreamHost'', JStr ''b''), (''upstreamPort'', JNum 2)],
       JObj [(''id'', JStr ''cb:p''), (''upstreamType'', JStr ''cloud''), (''providerId'', JStr ''p'')]])],
     sv_rows = [], sv_now = 0, sv_folded = [], sv_shown = [], sv_queues = \<lambda>i. []\<rparr>"


end
