(* ===== verification/SidePanels.thy ===== *)
theory SidePanels
  imports RouterPanels ClientLanes ServerSlots RouterGraph
begin

text \<open>
  The two panels beside Routing's canvas: the clients' (\<open>InputsBlock\<close> in \<open>canvas.js\<close>) with its rows, their names and
  the slot of the embeddings, the servers' (\<open>ServersBlock\<close>, \<open>renderServersBlockHtml\<close> of \<open>routers.js\<close>), where the dots of
  both stand (\<open>PanelPorts\<close>), and the head of the workspace with the ports that feed no router (\<open>renderTopologyRouterDetail\<close>).
  Rectangles are given; \<open>clock\<close> writes a time, \<open>line\<close> and \<open>entry\<close> are the lines of \<open>consumer-access.js\<close>.
\<close>

section \<open>The name of a client\<close>

text \<open>\<open>replace(/\s+(primary|fallback)$/i, "").trim()\<close>.\<close>

definition ends_in_role :: "string \<Rightarrow> string \<Rightarrow> bool" where
  "ends_in_role r s = (suffix r (js_lower s) \<and> length s > length r \<and> is_ws (s ! (length s - length r - 1)))"

definition agent_group_name :: "js \<Rightarrow> string" where
  "agent_group_name p = (let s = js_text (jget p ''label'')
     in js_trim (if ends_in_role ''primary'' s then take (length s - 7) s else if ends_in_role ''fallback'' s then take (length s - 8) s else s))"

definition drop_agent :: "string \<Rightarrow> string" where
  "drop_agent s = (if prefix ''agent-'' s then drop 6 s else s)"

definition client_name :: "js \<Rightarrow> js \<Rightarrow> string" where
  "client_name bd p =
     (let owners = proxy_to_agent bd; label = agent_group_name p; host = js_text (jget p ''clientId''); primary = primary_port p;
          other = (if label \<noteq> [] \<and> label \<noteq> host then label
            else if host \<noteq> [] then (if primary \<noteq> 0 then host @ '':'' @ rat_str primary else host) else js_string (jget p ''id''))
      in case map_of owners (js_string (jget p ''id'')) of
           Some (agent, home) \<Rightarrow> if agent = [] then other
             else if list_ex (\<lambda>(i, a, h). a = agent \<and> h \<noteq> home) owners then drop_agent agent @ middot @ home else drop_agent agent
         | None \<Rightarrow> other)"

definition suffix_role :: "string \<Rightarrow> string" where
  "suffix_role s = (if suffix ''primary'' (js_lower s) then ''primary'' else if suffix ''fallback'' (js_lower s) then ''fallback'' else [])"

definition role_of :: "js \<Rightarrow> string" where
  "role_of p = js_string (js_or (jget p ''role'') (JStr (suffix_role (js_text (jget p ''label'')))))"

definition tail2 :: "string \<Rightarrow> string" where
  "tail2 s = drop (length s - 2) s"

definition port_name :: "js \<Rightarrow> js \<Rightarrow> bool \<Rightarrow> bool \<Rightarrow> string" where
  "port_name bd port short name_only =
     (case js_number port of
        Fin n \<Rightarrow> if n = 0 then (if short then '':??'' else '':????'')
          else let proxy = find (\<lambda>q. js_number (jget q ''port'') = Fin n) (proxy_rows bd); pt = rat_str n;
                   name = (case proxy of None \<Rightarrow> [] | Some q \<Rightarrow>
                     (case proxy_owner bd (jget q ''id'') of None \<Rightarrow> [] | Some w \<Rightarrow>
                        if js_truthy (jget w ''title'') \<and> jget w ''title'' \<noteq> JStr (js_string (jget q ''id'')) then js_string (jget w ''title'') else []))
               in if (case proxy of Some q \<Rightarrow> is_entry_client q | None \<Rightarrow> False)
                  then js_string (js_or (case proxy of Some q \<Rightarrow> jget q ''label'' | None \<Rightarrow> JUndef) (JStr ('':'' @ pt)))
                  else if name \<noteq> [] then (if name_only then name else name @ (if short then '':'' @ tail2 pt else '' :'' @ pt))
                  else if short then '':'' @ tail2 pt else '':'' @ pt
      | _ \<Rightarrow> if short then '':??'' else '':????'')"

section \<open>The clients' panel\<close>

record clients_view =
  cv_t :: dict
  cv_clock :: "rat \<Rightarrow> string"
  cv_ml :: "js \<Rightarrow> string"
  cv_board :: js
  cv_router :: js
  cv_lines :: "ports_line list"
  cv_unclaimed :: "js list"

definition panel_ports :: "js \<Rightarrow> js \<Rightarrow> js list" where
  "panel_ports bd router = filter (\<lambda>p. jget p ''id'' \<in> set (js_list (js_or (jget router ''inputs'') (JArr []))) \<and> \<not> proxy_is_tombstoned bd p) (proxy_rows bd)"

definition clients_view_of :: "dict \<Rightarrow> (rat \<Rightarrow> string) \<Rightarrow> (js \<Rightarrow> string) \<Rightarrow> (string \<Rightarrow> string \<Rightarrow> int) \<Rightarrow> rat \<Rightarrow> js \<Rightarrow> js \<Rightarrow> clients_view" where
  "clients_view_of t clock ml lc now bd router =
     (let (ls, unclaimed) = canvas_clients lc bd now (panel_ports bd router)
      in \<lparr>cv_t = t, cv_clock = clock, cv_ml = ml, cv_board = bd, cv_router = router, cv_lines = ls, cv_unclaimed = unclaimed\<rparr>)"

definition wired_ids :: "js \<Rightarrow> string list" where
  "wired_ids router = map (drop 3) (filter (prefix ''in:'')
     (map (\<lambda>e. js_string (jget e ''from'')) (js_list (js_or (jget (jget router ''graph'') ''edges'') (JArr [])))))"

definition is_wired :: "clients_view \<Rightarrow> js \<Rightarrow> bool" where
  "is_wired v p = (\<exists>s \<in> set (wired_ids (cv_router v)). jget p ''id'' = JStr s)"

definition follow_sign :: string where
  "follow_sign = [CHR 0xE2, CHR 0x86, CHR 0xB3]"

definition edit_button :: "dict \<Rightarrow> js \<Rightarrow> string" where
  "edit_button t p = ''<button class=\"cv-in-edit\" type=\"button\" data-cv-port-edit=\"'' @ escape_html (js_string (jget p ''id'')) @ ''\" title=\"''
     @ escape_html (t ''cvPortEditTitle'' []) @ ''\">'' @ edit_sign @ ''</button>''"

definition port_row :: "clients_view \<Rightarrow> string \<Rightarrow> js option \<Rightarrow> string" where
  "port_row v role port = (case port of None \<Rightarrow> [] | Some p \<Rightarrow>
     ''<div class=\"cv-in-row '' @ role @ (if is_wired v p then [] else '' unwired'') @ ''\" data-cv-in-row=\"in:'' @ escape_html (js_string (jget p ''id''))
     @ ''\"> <span class=\"cv-in-role\">'' @ (if role = ''primary'' then ''P'' else ''F'') @ ''</span> '' @ line_html (cv_t v) (cv_clock v) (cv_board v) p @ '' ''
     @ (if role = ''fallback'' \<and> \<not> is_wired v p then ''<span class=\"cv-in-follow\">'' @ follow_sign @ '' '' @ escape_html (cv_t v ''cvInFollows'' []) @ ''</span>'' else [])
     @ '' '' @ edit_button (cv_t v) p @ '' </div>'')"

definition wait_row :: "clients_view \<Rightarrow> js \<Rightarrow> string" where
  "wait_row v p =
     (let own = num_of (js_or (jget (jget (jget (jget (cv_router v) ''graph'') ''inputs'') (js_string (jget p ''id''))) ''clientTimeoutSeconds'') (JNum 0));
          shown = (if own \<noteq> 0 then own else effective_wait p)
      in if shown = 0 then []
         else ''<span class=\"cv-in-wait'' @ (if own \<noteq> 0 then '' own'' else []) @ ''\" title=\"'' @ escape_html (cv_t v ''cvTitleWaitBudget'' [])
           @ ''\" data-t=\"routing-input-wait\" data-t-id=\"'' @ escape_html (js_string (jget p ''id'')) @ ''\">''
           @ escape_html (cv_t v ''routeWaitLabel'' [(''sec'', rat_str shown)]) @ ''</span>'')"

text \<open>The two ports of a client that have rows.\<close>

definition primary_of :: "js list \<Rightarrow> js" where
  "primary_of ports = (case find (\<lambda>p. role_of p = ''primary'') ports of Some p \<Rightarrow> p | None \<Rightarrow> hd ports)"

definition fallback_of :: "js list \<Rightarrow> js option" where
  "fallback_of ports = find (\<lambda>p. role_of p = ''fallback'' \<and> p \<noteq> primary_of ports) ports"

definition rowed_ports :: "js list \<Rightarrow> js list" where
  "rowed_ports ports = primary_of ports # (case fallback_of ports of Some p \<Rightarrow> [p] | None \<Rightarrow> [])"

definition client_row :: "clients_view \<Rightarrow> ports_line \<Rightarrow> string" where
  "client_row v l =
     (let ports = cl_ports l; p = primary_of ports
      in ''<div class=\"cv-inputs-client '' @ (if list_ex (is_wired v) ports then ''routed'' else ''unrouted'') @ ''\">''
         @ ''<div class=\"cv-in-head\"><span class=\"cv-in-name\">'' @ escape_html (client_name (cv_board v) (hd ports)) @ ''</span>'' @ wait_row v p @ ''</div>''
         @ port_row v ''primary'' (Some p) @ port_row v ''fallback'' (fallback_of ports) @ ''</div>'')"

definition unclaimed_row :: "clients_view \<Rightarrow> js \<Rightarrow> string" where
  "unclaimed_row v p =
     ''<div class=\"cv-in-row unclaimed'' @ (if is_wired v p then [] else '' unwired'') @ ''\" data-cv-in-row=\"in:'' @ escape_html (js_string (jget p ''id''))
     @ ''\"><span class=\"cv-in-port-num\">:'' @ escape_html (js_string (jget p ''port'')) @ ''</span>''
     @ (if js_truthy (jget p ''label'') then ''<span class=\"cv-in-label\">'' @ escape_html (js_string (jget p ''label'')) @ ''</span>'' else [])
     @ edit_button (cv_t v) p @ ''</div>''"

text \<open>\<open>new Map(rows.map((r) => [r.key, r]))\<close>.\<close>

definition lines_by_key :: "ports_line list \<Rightarrow> ports_line list" where
  "lines_by_key ls = map snd (fold (\<lambda>l. map_put (cl_key l) l) ls [])"

definition clients_body :: "clients_view \<Rightarrow> string" where
  "clients_body v = concat (map (client_row v) (lines_by_key (cv_lines v)))
     @ (if cv_unclaimed v = [] then []
        else ''<div class=\"cv-inputs-client unclaimed\" data-t=\"routing-unclaimed\"><span class=\"cv-in-name\">''
          @ escape_html (cv_t v ''cvInputsUnclaimed'' [(''count'', nat_str (length (cv_unclaimed v)))]) @ ''</span>''
          @ concat (map (unclaimed_row v) (cv_unclaimed v)) @ ''</div>'')"

definition embed_outs :: "clients_view \<Rightarrow> js list" where
  "embed_outs v = local_outs (router_outs (cv_router v))"

definition embed_id :: "clients_view \<Rightarrow> js" where
  "embed_id v = js_or (jget (jget (cv_router v) ''rules'') ''embeddingsOutput'') (JStr [])"

definition embed_out :: "clients_view \<Rightarrow> js option" where
  "embed_out v = find (\<lambda>out. jget out ''id'' = embed_id v) (embed_outs v)"

definition dna_sign :: string where
  "dna_sign = [CHR 0xF0, CHR 0x9F, CHR 0xA7, CHR 0xAC]"

definition embed_html :: "clients_view \<Rightarrow> string" where
  "embed_html v =
     (let t = cv_t v; out = embed_out v; label = output_label (cv_ml v) (cv_board v);
          called = num_of (js_or (jget (cv_board v) ''embeddingsCalledAt'') (JNum 0));
          quiet = (out = None \<and> called = 0);
          tip = (if out \<noteq> None then [] else if called \<noteq> 0 then t ''cvEmbedCalledTitle'' [(''time'', cv_clock v called)] else t ''cvEmbedQuietTitle'' []);
          opts = concat (map (\<lambda>x. ''<option value=\"'' @ escape_html (js_string (jget x ''id'')) @ ''\"''
            @ (if jget x ''id'' = embed_id v then '' selected'' else []) @ ''>'' @ escape_html (label x) @ ''</option>'') (embed_outs v))
      in ''<div class=\"cv-embed-slot '' @ (if out \<noteq> None then ''assigned'' else ''unassigned'') @ (if quiet then '' quiet'' else []) @ ''\"''
         @ (if tip \<noteq> [] then '' title=\"'' @ escape_html tip @ ''\"'' else []) @ ''><div class=\"cv-embed-head\">'' @ dna_sign @ '' embeddings ''
         @ qs_help_tip t ''cvTipEmbeddings'' @ ''</div><select class=\"cv-embed-select\" data-cv-embed-out aria-label=\"'' @ escape_html (t ''a11yEmbeddingsTarget'' [])
         @ ''\"><option value=\"\">'' @ dash @ '' '' @ escape_html (t ''cvNotAssigned'' []) @ '' '' @ dash @ ''</option>'' @ opts @ ''</select><div class=\"cv-embed-note\">''
         @ (case out of Some x \<Rightarrow> escape_html (t ''cvEmbedAllTo'' [(''name'', label x)]) | None \<Rightarrow> t ''cvEmbedNotSet'' []) @ ''</div></div>'')"

definition clients_panel :: "clients_view \<Rightarrow> string" where
  "clients_panel v =
     (let t = cv_t v; body = clients_body v
      in ''<aside class=\"rw-side rw-clients\" data-t=\"routing-node\" data-t-id=\"inputs:block\" data-cv-panel=\"clients\"><div class=\"rw-side-head\">''
         @ escape_html (t ''cvLabelClients'' []) @ '' '' @ qs_help_tip t ''cvTipClients'' @ ''</div><div class=\"rw-side-main\">'' @ entry_html t (entry_of (cv_board v))
         @ ''<div class=\"rw-side-body\">''
         @ (if body \<noteq> [] then body else ''<span class=\"router-cfg-muted\" style=\"font-size:11px;padding:6px 0;display:block\">'' @ escape_html (t ''cvNoProxyPorts'' []) @ ''</span>'')
         @ ''</div><div class=\"rw-side-foot\">'' @ embed_html v @ ''</div></div></aside>'')"

section \<open>Where the dots stand\<close>

text \<open>The top and the bottom of a row, or of the part of a panel that scrolls; the edge a dot keeps.\<close>

type_synonym span = "rat \<times> rat"

definition port_edge :: rat where
  "port_edge = 8"

definition mid_of :: "span \<Rightarrow> rat" where
  "mid_of row = fst row + (snd row - fst row) / 2"

definition dot_centre :: "span \<Rightarrow> span \<Rightarrow> rat" where
  "dot_centre body row = min (max (mid_of row) (fst body + port_edge)) (snd body - port_edge)"

definition dot_top :: "rat \<Rightarrow> span \<Rightarrow> span \<Rightarrow> rat" where
  "dot_top panel_top body row = dot_centre body row - panel_top - 8"

definition dot_clamped :: "span \<Rightarrow> span \<Rightarrow> bool" where
  "dot_clamped body row = (mid_of row < fst body \<or> mid_of row > snd body)"

text \<open>
  What the servers' panel draws: the rows of outputs, and the folded groups by the ids they name; then the outputs
  that get a dot, at their row or at the head of their fold.
\<close>

definition entry_rows :: "servers_view \<Rightarrow> out_group \<Rightarrow> js list" where
  "entry_rows v g = (let (shown, quiet) = oc_split (sv_board v) (sv_router v) (og_outs g)
     in if fold_key g \<in> set (sv_folded v) then [] else shown @ (if og_key g \<in> set (sv_shown v) then quiet else []))"

definition entry_folds :: "servers_view \<Rightarrow> out_group \<Rightarrow> js list list" where
  "entry_folds v g = (let (shown, quiet) = oc_split (sv_board v) (sv_router v) (og_outs g)
     in if fold_key g \<in> set (sv_folded v) then [og_outs g]
        else if quiet \<noteq> [] \<and> og_key g \<notin> set (sv_shown v) then [quiet] else [])"

definition id_text :: "js \<Rightarrow> string" where
  "id_text out = js_string (jget out ''id'')"

definition fold_ids :: "js list \<Rightarrow> string list" where
  "fold_ids outs = filter (\<lambda>i. i \<noteq> []) (map js_trim (js_split CHR '','' (js_join '','' (map id_text outs))))"

definition add_dots :: "string list \<Rightarrow> string list \<Rightarrow> string list" where
  "add_dots ids seen = fold (\<lambda>i seen. if i = [] \<or> i \<in> set seen then seen else seen @ [i]) ids seen"

definition server_dots :: "servers_view \<Rightarrow> string list" where
  "server_dots v =
     (let outs = router_outs (sv_router v); gs = local_groups (sv_board v) outs
      in add_dots (concat (map fold_ids (concat (map (entry_folds v) gs))))
           (add_dots (map id_text (concat (map (entry_rows v) gs) @ pool_outs (sv_board v) outs)) []))"

section \<open>The head of the workspace\<close>

definition ports_to_feed :: "js \<Rightarrow> js list" where
  "ports_to_feed bd = js_sort (by_rat (\<lambda>p. num_of (js_or (jget p ''port'') (JNum 0)))) (filter (\<lambda>p. js_text (jget p ''kind'') \<noteq> ''consumer'') (proxy_rows bd))"

definition router_list :: "js \<Rightarrow> js list" where
  "router_list bd = js_list (js_or (jget bd ''routers'') (JArr []))"

definition known_router :: "js \<Rightarrow> js \<Rightarrow> bool" where
  "known_router bd i = (i \<in> (\<lambda>r. jget r ''id'') ` set (router_list bd))"

definition ports_elsewhere :: "js \<Rightarrow> js \<Rightarrow> js list" where
  "ports_elsewhere bd router = filter (\<lambda>p. js_truthy (jget p ''routerId'') \<and> jget p ''routerId'' \<noteq> jget router ''id'' \<and> known_router bd (jget p ''routerId'')) (ports_to_feed bd)"

definition ports_free :: "js \<Rightarrow> js list" where
  "ports_free bd = filter (\<lambda>p. \<not> js_truthy (jget p ''routerId'') \<or> \<not> known_router bd (jget p ''routerId'')) (ports_to_feed bd)"

definition router_name_of :: "js \<Rightarrow> js \<Rightarrow> string" where
  "router_name_of bd i = js_string (js_or (case find (\<lambda>r. jget r ''id'' = i) (router_list bd) of Some r \<Rightarrow> jget r ''name'' | None \<Rightarrow> JUndef) i)"

definition capital :: "char \<Rightarrow> char" where
  "capital c = (let n = (of_char c :: nat) in if 97 \<le> n \<and> n \<le> 122 then char_of (n - 32) else c)"

definition feed_name :: "js \<Rightarrow> js" where
  "feed_name p = js_or (jget p ''label'') (JStr (''proxy '' @ js_string (jget p ''port'')))"

definition feed_pill :: "dict \<Rightarrow> js \<Rightarrow> bool \<Rightarrow> js \<Rightarrow> string" where
  "feed_pill t bd elsewhere p =
     (let head = ''<span class=\"router-pill-r\">'' @ escape_html (map capital (take 1 (role_of p))) @ ''</span><span class=\"router-pill-port\">''
            @ escape_html (js_string (jget p ''port'')) @ ''</span>'';
          name = ''<span class=\"router-pill-name\">''
            @ escape_html (js_string (js_or (case proxy_owner bd (jget p ''id'') of Some w \<Rightarrow> jget w ''title'' | None \<Rightarrow> JUndef) (feed_name p))) @ ''</span>'';
          i = escape_html (js_string (jget p ''id'')); rn = router_name_of bd (jget p ''routerId'')
      in if elsewhere
         then ''<span class=\"router-pill other\" data-router-attach=\"'' @ i @ ''\" data-confirm=\"1\" role=\"button\" tabindex=\"0\" title=\"''
           @ escape_html (t ''rtTitleMoveFrom'' [(''name'', rn)]) @ ''\">'' @ head @ name @ ''<span class=\"router-pill-where\">'' @ escape_html rn @ ''</span></span>''
         else ''<span class=\"router-pill free\" data-router-attach=\"'' @ i @ ''\" role=\"button\" tabindex=\"0\" title=\"''
           @ escape_html (t ''rtTitleAttachHere'' [(''name'', js_string (feed_name p) @ '' :'' @ js_string (jget p ''port''))]) @ ''\">'' @ head @ name
           @ ''<span class=\"router-pill-503\">503</span></span>'')"

definition unassigned_html :: "dict \<Rightarrow> js \<Rightarrow> js \<Rightarrow> string" where
  "unassigned_html t bd router =
     (let away = ports_elsewhere bd router; free = ports_free bd
      in if away = [] \<and> free = [] then []
         else ''<details class=\"rw-unassigned\" data-t=\"routing-unassigned\"> <summary class=\"rw-unassigned-badge\" title=\"''
           @ escape_html (t ''rtTitleUnassigned'' [(''f'', nat_str (length free)), (''o'', nat_str (length away))]) @ ''\">''
           @ escape_html (t ''rtUnassigned'' [(''n'', nat_str (length free + length away))]) @ ''</summary> <div class=\"rw-unassigned-list\">''
           @ concat (map (feed_pill t bd False) free) @ concat (map (feed_pill t bd True) away) @ ''</div> </details>'')"

definition rule_count :: "js \<Rightarrow> nat" where
  "rule_count router = (let rules = jget router ''rules''
     in length (js_list (js_or (jget rules ''bySource'') (JArr []))) + length (js_list (jget rules ''schedule'')))"

definition default_out :: "js \<Rightarrow> js option" where
  "default_out router = (let outs = router_outs router in if outs = [] then None
     else Some (case find (\<lambda>out. jget out ''id'' = default_id router) outs of Some out \<Rightarrow> out | None \<Rightarrow> hd outs))"

definition arrow_to :: string where
  "arrow_to = [CHR 0xE2, CHR 0x86, CHR 0x92]"

definition workspace_head :: "dict \<Rightarrow> (js \<Rightarrow> string) \<Rightarrow> js \<Rightarrow> bool \<Rightarrow> js \<Rightarrow> string" where
  "workspace_head t ml bd standalone router =
     (let ins = nat_str (length (js_list (js_or (jget router ''inputs'') (JArr [])))); outs = nat_str (length (router_outs router));
          rules = rule_count router; said = escape_html (t ''rtRules'' [(''n'', nat_str rules)]); un = unassigned_html t bd router;
          label = (\<lambda>out. escape_html (output_label ml bd out)); i = (\<lambda>out. escape_html (id_text out)); tip = escape_html (t ''rtTitleDefaultOutput'' [])
      in if standalone
         then ''<div class=\"rw-head rw-head-standalone\"> <div class=\"rw-head-title-group\"> <div class=\"rw-head-badges\"> <span class=\"badge rw-stat-badge\">in <strong>''
           @ ins @ ''</strong></span> <span class=\"badge rw-stat-badge\">out <strong>'' @ outs @ ''</strong></span> ''
           @ (if rules \<noteq> 0 then ''<span class=\"badge rw-stat-badge\">'' @ said @ ''</span>'' else []) @ '' ''
           @ (case default_out router of None \<Rightarrow> [] | Some out \<Rightarrow> ''<span class=\"badge rw-default-chip\" data-router-link-out=\"'' @ i out @ ''\" title=\"'' @ tip
                @ ''\">default '' @ arrow_to @ '' '' @ label out @ ''</span>'') @ '' '' @ un @ '' </div> </div> </div>''
         else ''<div class=\"rw-head\"> <span class=\"router-cfg-title\"> <strong>'' @ escape_html (t ''topologyRouterTitle'' []) @ ''</strong> <span class=\"router-cfg-sub\">in ''
           @ ins @ middot @ ''out '' @ outs @ (if rules \<noteq> 0 then middot @ said else []) @ ''</span> ''
           @ (case default_out router of None \<Rightarrow> [] | Some out \<Rightarrow> ''<span class=\"rw-default-badge\" data-router-link-out=\"'' @ i out @ ''\" title=\"'' @ tip
                @ ''\">default '' @ arrow_to @ '' <strong>'' @ label out @ ''</strong></span>'') @ '' </span> <span class=\"topology-policy-head-actions\"> '' @ un
           @ '' <button class=\"icon-action compact\" type=\"button\" data-topology-router-close aria-label=\"'' @ escape_html (t ''close'' []) @ ''\" title=\"''
           @ escape_html (t ''close'' []) @ ''\">'' @ [CHR 0xC3, CHR 0x97] @ ''</button> </span> </div>'')"

text \<open>A port bound to another router, and a model of an engine exposed or not: what is sent.\<close>

definition rebind_call :: "js \<Rightarrow> js \<Rightarrow> js \<Rightarrow> (string \<times> js) option" where
  "rebind_call bd proxy_id router_id =
     (case find (\<lambda>p. jget p ''id'' = proxy_id) (proxy_rows bd) of None \<Rightarrow> None
      | Some p \<Rightarrow> if \<not> js_truthy router_id \<or> jget p ''routerId'' = router_id then None
                  else Some (''/api/agent-proxies/route-policy'', JObj [(''port'', jget p ''port''), (''routerId'', router_id)]))"

definition expose_call :: "string \<Rightarrow> string \<Rightarrow> string \<Rightarrow> js \<Rightarrow> string \<times> js" where
  "expose_call host kind model exposed = (''/api/engine-outputs/expose'',
     JObj [(''hostId'', JStr host), (''kind'', JStr kind), (''model'', JStr model), (''exposed'', JBool (js_truthy exposed))])"

section \<open>Every output has its dot\<close>

lemma add_dots_set [simp]: "set (add_dots ids seen) = set seen \<union> {i \<in> set ids. i \<noteq> []}"
  unfolding add_dots_def by (induction ids arbitrary: seen) auto

lemma add_dots_distinct: "distinct seen \<Longrightarrow> distinct (add_dots ids seen)"
  unfolding add_dots_def by (induction ids arbitrary: seen) auto

text \<open>An id that survives being listed with others.\<close>

definition plain_id :: "js \<Rightarrow> bool" where
  "plain_id out = (id_text out \<noteq> [] \<and> CHR '','' \<notin> set (id_text out) \<and> js_trim (id_text out) = id_text out)"

lemma fold_ids_plain: "outs \<noteq> [] \<Longrightarrow> list_all plain_id outs \<Longrightarrow> fold_ids outs = map id_text outs"
  unfolding fold_ids_def js_split_def
  by (subst split_by_join) (auto simp: list_all_iff plain_id_def filter_id_conv)

lemma oc_split_set: "oc_split bd router outs = (vis, quiet) \<Longrightarrow> set vis \<union> set quiet = set outs"
  by (auto simp: oc_split_def oc_quiet_def Let_def split: if_splits)

lemma entry_dots:
  assumes "og_outs g \<noteq> []" "list_all plain_id (og_outs g)"
  shows "id_text ` set (entry_rows v g) \<union> set (concat (map fold_ids (entry_folds v g))) = id_text ` set (og_outs g)"
proof -
  obtain vis quiet where s: "oc_split (sv_board v) (sv_router v) (og_outs g) = (vis, quiet)" by fastforce
  have all: "set vis \<union> set quiet = set (og_outs g)" by (rule oc_split_set [OF s])
  have "list_all plain_id quiet" using assms(2) all by (auto simp: list_all_iff)
  then have q: "quiet \<noteq> [] \<Longrightarrow> set (fold_ids quiet) = id_text ` set quiet" by (simp add: fold_ids_plain)
  have g: "set (fold_ids (og_outs g)) = id_text ` set (og_outs g)" by (simp add: fold_ids_plain assms)
  show ?thesis
  proof (cases "fold_key g \<in> set (sv_folded v)")
    case False
    have "id_text ` set (og_outs g) = id_text ` set vis \<union> id_text ` set quiet" by (simp add: all [symmetric] image_Un)
    then show ?thesis using q False
      by (cases "quiet = []"; cases "og_key g \<in> set (sv_shown v)") (simp_all add: entry_rows_def entry_folds_def s image_Un)
  qed (simp add: entry_rows_def entry_folds_def s g)
qed

text \<open>(C19) 
  Whatever is folded, each output of the router has one dot on the servers' panel, at its row or at the head that
  folds it: no cable to a server or a pool goes without its end.
\<close>

theorem pn_every_output_has_one_dot:
  assumes "distinct (map (\<lambda>out. js_text (jget out ''providerId'')) (cloud_outs (router_outs (sv_router v))))"
    and "distinct (map (\<lambda>p. jget p ''id'') (pools_of (sv_board v)))"
    and "list_all plain_id (router_outs (sv_router v))"
  shows "distinct (server_dots v) \<and> set (server_dots v) = id_text ` set (router_outs (sv_router v))"
proof
  let ?outs = "router_outs (sv_router v)"
  let ?gs = "local_groups (sv_board v) ?outs"
  show "distinct (server_dots v)" by (simp add: server_dots_def Let_def add_dots_distinct)
  have groups: "set (concat (map og_outs ?gs)) = set (local_outs ?outs)" by (metis mset_eq_setD rt_groups_mset)
  have pools: "set (pool_outs (sv_board v) ?outs) = set (cloud_outs ?outs)" by (metis mset_eq_setD pool_outs_mset [OF assms(1,2)])
  have both: "set (local_outs ?outs) \<union> set (cloud_outs ?outs) = set ?outs"
    by (auto simp: local_outs_def cloud_outs_def out_kind_cloud)
  have ok: "og_outs g \<noteq> []" "list_all plain_id (og_outs g)" if "g \<in> set ?gs" for g
  proof -
    show "og_outs g \<noteq> []" using that groups_are_filled by blast
    show "list_all plain_id (og_outs g)" using that groups both assms(3) by (auto simp: list_all_iff)
  qed
  have named: "i \<noteq> []" if "i \<in> id_text ` set ?outs" for i using that assms(3) by (auto simp: list_all_iff plain_id_def)
  have "set (server_dots v) = {i \<in> (\<Union>g \<in> set ?gs. id_text ` set (entry_rows v g) \<union> set (concat (map fold_ids (entry_folds v g))))
      \<union> id_text ` set (pool_outs (sv_board v) ?outs). i \<noteq> []}"
    by (auto simp: server_dots_def Let_def)
  also have "\<dots> = {i \<in> (\<Union>g \<in> set ?gs. id_text ` set (og_outs g)) \<union> id_text ` set (pool_outs (sv_board v) ?outs). i \<noteq> []}"
    by (rule arg_cong [where f = "\<lambda>X. {i \<in> X \<union> id_text ` set (pool_outs (sv_board v) ?outs). i \<noteq> []}"])
      (intro SUP_cong refl entry_dots ok)
  also have "(\<Union>g \<in> set ?gs. id_text ` set (og_outs g)) = id_text ` set (local_outs ?outs)"
    by (simp add: groups [symmetric] image_UN)
  also have "id_text ` set (local_outs ?outs) \<union> id_text ` set (pool_outs (sv_board v) ?outs) = id_text ` set ?outs"
    using pools both by auto
  also have "{i \<in> id_text ` set ?outs. i \<noteq> []} = id_text ` set ?outs" using named by blast
  finally show "set (server_dots v) = id_text ` set ?outs" .
qed

lemma pn_every_output_has_one_dot_witness:
  "set (server_dots (two_machines\<lparr>sv_folded := [''host:b'']\<rparr>)) = {''srv:2'', ''cb:p''}"
proof -
  have "set (server_dots (two_machines\<lparr>sv_folded := [''host:b'']\<rparr>)) = id_text ` set (router_outs (sv_router (two_machines\<lparr>sv_folded := [''host:b'']\<rparr>)))"
    by (rule conjunct2 [OF pn_every_output_has_one_dot])
      (simp_all add: two_machines_def cloud_outs_def router_outs_def pools_of_def js_or_def plain_id_def id_text_def, simp_all add: trim_no_ws is_ws_def)
  then show ?thesis by (simp add: two_machines_def router_outs_def id_text_def js_or_def)
qed

text \<open>A dot keeps eight pixels off the edges of the part of its panel that shows: it stands at its row's middle where that does
  too, and a dot that is marked as clamped stands at the edge its row went past.\<close>

lemma dot_within:
  assumes "fst body + 2 * port_edge \<le> snd body"
  shows "fst body + port_edge \<le> dot_centre body row \<and> dot_centre body row \<le> snd body - port_edge
       \<and> (fst body + port_edge \<le> mid_of row \<and> mid_of row \<le> snd body - port_edge \<longrightarrow> dot_centre body row = mid_of row \<and> \<not> dot_clamped body row)
       \<and> (dot_clamped body row \<longrightarrow> dot_centre body row = (if mid_of row < fst body then fst body + port_edge else snd body - port_edge))"
  using assms by (auto simp: dot_centre_def dot_clamped_def port_edge_def min_def max_def)

text \<open>A middle nearer than that to an edge shows, is not clamped, and has its dot eight pixels in all the same.\<close>

lemma dot_at_the_rim: "dot_centre (100, 200) (94, 114) = 108 \<and> \<not> dot_clamped (100, 200) (94, 114)"
  by code_simp

text \<open>(C39) A port that could feed a router feeds this one, is on another, or is free, and no port is two of these.\<close>

theorem pn_ports_are_sorted_out:
  assumes "known_router bd (jget router ''id'')" "js_truthy (jget router ''id'')"
  shows "mset (filter (\<lambda>p. jget p ''routerId'' = jget router ''id'') (ports_to_feed bd)) + mset (ports_elsewhere bd router) + mset (ports_free bd)
       = mset (ports_to_feed bd)"
proof -
  have "image_mset id (mset (filter (\<lambda>p. jget p ''routerId'' = jget router ''id'') ps))
      + mset (filter (\<lambda>p. js_truthy (jget p ''routerId'') \<and> jget p ''routerId'' \<noteq> jget router ''id'' \<and> known_router bd (jget p ''routerId'')) ps)
      + mset (filter (\<lambda>p. \<not> js_truthy (jget p ''routerId'') \<or> \<not> known_router bd (jget p ''routerId'')) ps) = mset ps" for ps
    using assms by (induction ps) auto
  then show ?thesis by (simp add: ports_elsewhere_def ports_free_def)
qed

lemma pn_ports_are_sorted_out_witness:
  "length (ports_free (JObj [(''routers'', JArr [JObj [(''id'', JStr ''r'')]]), (''proxies'', JArr [JObj [(''port'', JNum 1)]])])) = 1"
proof -
  let ?bd = "JObj [(''routers'', JArr [JObj [(''id'', JStr ''r'')]]), (''proxies'', JArr [JObj [(''port'', JNum 1)]])]"
  have "mset (filter (\<lambda>p. jget p ''routerId'' = jget (JObj [(''id'', JStr ''r'')]) ''id'') (ports_to_feed ?bd))
      + mset (ports_elsewhere ?bd (JObj [(''id'', JStr ''r'')])) + mset (ports_free ?bd) = mset (ports_to_feed ?bd)"
    by (rule pn_ports_are_sorted_out) (simp_all add: known_router_def router_list_def js_or_def)
  from arg_cong [OF this, of size] show ?thesis
    by (simp add: ports_elsewhere_def ports_free_def ports_to_feed_def proxy_rows_def js_or_def js_sort_def)
qed

text \<open>
  A client's row has one primary port and one fallback: a second port of a role, or a third one, has no row, and so no
  dot for its cable.
\<close>

lemma pn_third_port_has_no_row:
  "role_of p = ''primary'' \<Longrightarrow> role_of q = ''primary'' \<Longrightarrow> rowed_ports [p, q] = [p]"
  by (simp add: rowed_ports_def primary_of_def fallback_of_def)

end
