(* ===== verification/BoardReads.thy ===== *)
theory BoardReads
  imports RouterPanels Consumers Pools ModelSchedule
begin

text \<open>
  What Routing's board of pools reads (\<open>pool-board.js\<close>): its router, its machines and their outputs, the key a row's target
  is known by, the models an account's card shows and the ones "+ model" offers, the cells a machine's card folds, the levels
  of a subscription's model and how they are said, and why the proxy would or would not use a row now. \<open>ml\<close> is a model's label,
  \<open>lc\<close> is \<open>localeCompare\<close>.
\<close>

type_synonym compare = "string \<Rightarrow> string \<Rightarrow> int"

section \<open>Accounts, machines, outputs\<close>

definition list_of :: "js \<Rightarrow> string \<Rightarrow> js list" where
  "list_of v k = js_list (js_or (jget v k) (JArr []))"

definition pools_runtime :: "js \<Rightarrow> js" where
  "pools_runtime bd = js_or (jget bd ''poolsRuntime'') (JObj [(''available'', JBool False), (''pools'', JObj []), (''events'', JArr [])])"

definition board_account :: "js \<Rightarrow> js \<Rightarrow> js" where
  "board_account bd i = find_id (list_of bd ''cloudAccounts'') i"

definition board_router :: "js \<Rightarrow> js" where
  "board_router bd =
     (case find (\<lambda>r. jget r ''id'' = JStr ''router:default'') (list_of bd ''routers'') of Some r \<Rightarrow> r
      | None \<Rightarrow> (case list_of bd ''routers'' of r # rs \<Rightarrow> r | [] \<Rightarrow> JObj [(''outputs'', JArr [])]))"

definition board_machines :: "js \<Rightarrow> out_group list" where
  "board_machines bd = local_groups bd (router_outs (board_router bd))"

fun output_in :: "string \<Rightarrow> out_group list \<Rightarrow> (js \<times> out_group) option" where
  "output_in i [] = None"
| "output_in i (g # gs) =
     (case find (\<lambda>o'. js_string (jget o' ''id'') = i) (og_outs g) of Some out \<Rightarrow> Some (out, g) | None \<Rightarrow> output_in i gs)"

definition board_output :: "js \<Rightarrow> js \<Rightarrow> (js \<times> out_group) option" where
  "board_output bd i = output_in (js_string i) (board_machines bd)"

section \<open>The key of a target\<close>

definition target_key :: "js \<Rightarrow> string" where
  "target_key w =
     (if js_truthy (jget w ''output'') then ''out:'' @ js_string (jget w ''output'')
      else if js_truthy (jget w ''accountId'') \<and> js_truthy (jget w ''model'')
      then ''acc:'' @ js_string (jget w ''accountId'') @ ''/'' @ js_string (jget w ''model'') else [])"

fun use_add :: "string \<Rightarrow> string \<Rightarrow> (string \<times> string list) list \<Rightarrow> (string \<times> string list) list" where
  "use_add k n [] = [(k, [n])]"
| "use_add k n ((k', ns) # us) = (if k' = k then (k, set_add n ns) # us else (k', ns) # use_add k n us)"

definition named_pool :: "js \<Rightarrow> string" where
  "named_pool p = js_string (js_or (jget p ''name'') (jget p ''id''))"

definition use_pairs :: "js list \<Rightarrow> (string \<times> string) list" where
  "use_pairs pools = concat (map (\<lambda>p. map (\<lambda>row. (target_key row, named_pool p)) (filter (\<lambda>row. target_key row \<noteq> []) (pool_steps p))) pools)"

definition model_uses :: "js list \<Rightarrow> (string \<times> string list) list" where
  "model_uses pools = foldl (\<lambda>us (k, n). use_add k n us) [] (use_pairs pools)"

definition uses_of :: "(string \<times> string list) list \<Rightarrow> string \<Rightarrow> string list" where
  "uses_of us k = (case map_of us k of Some ns \<Rightarrow> ns | None \<Rightarrow> [])"

section \<open>The models of an account\<close>

definition shown_models :: "js list \<Rightarrow> js list \<Rightarrow> js list" where
  "shown_models added named = foldl (\<lambda>out m. if js_truthy m then set_add m out else out) [] (added @ named)"

definition named_models :: "js \<Rightarrow> js \<Rightarrow> js list" where
  "named_models bd account = foldl (\<lambda>ns row. set_add (jget row ''model'') ns) []
     (filter (\<lambda>row. jget row ''kind'' = JStr ''account'' \<and> jget row ''accountId'' = jget account ''id'')
       (concat (map pool_steps (list_of bd ''pools''))))"

definition shown_of :: "js \<Rightarrow> js \<Rightarrow> js list" where
  "shown_of bd account =
     shown_models (list_of (jget bd ''addedModels'') (js_string (jget account ''id''))) (named_models bd account)"

definition pick_rows :: nat where
  "pick_rows = 60"

record picks =
  pi_models :: "js list"
  pi_more :: nat
  pi_typed :: string
  pi_free :: nat
  pi_chat :: nat

definition chat_models :: "js \<Rightarrow> js list" where
  "chat_models catalogue = filter (\<lambda>m. js_truthy m \<and> js_truthy (jget m ''chat'') \<and> js_truthy (jget m ''id'')) (list_of catalogue ''models'')"

definition pick_text :: "js \<Rightarrow> string" where
  "pick_text m = js_lower (js_string (jget m ''id'') @ '' '' @ js_text (jget m ''name''))"

definition candidates :: "js \<Rightarrow> js list \<Rightarrow> string \<Rightarrow> nat \<Rightarrow> picks" where
  "candidates catalogue on_card query limit =
     (let typed = js_trim query; want = js_lower typed; chat = chat_models catalogue;
          free = filter (\<lambda>m. JStr (js_string (jget m ''id'')) \<notin> set on_card) chat;
          found = (if want \<noteq> [] then filter (\<lambda>m. str_includes (pick_text m) want) free else free);
          known = (JStr typed \<in> set on_card \<or> list_ex (\<lambda>m. js_string (jget m ''id'') = typed) free)
      in \<lparr>pi_models = take limit found, pi_more = length found - limit,
          pi_typed = (if typed \<noteq> [] \<and> \<not> known \<and> found = [] then typed else []), pi_free = length free, pi_chat = length chat\<rparr>)"

text \<open>A window in thousands; none said, nothing.\<close>

definition window_text :: "js \<Rightarrow> string" where
  "window_text tokens = (case js_number tokens of
       Fin n \<Rightarrow> if n > 0 then int_str (js_round (n / 1000)) @ ''K'' else []
     | Inf neg \<Rightarrow> if neg then [] else ''InfinityK''
     | NaN \<Rightarrow> [])"

section \<open>The cells of a machine\<close>

record cell_fold =
  cfo_shown :: "js list"
  cfo_quiet :: "js list"
  cfo_folded :: bool

definition fold_cells :: "js list \<Rightarrow> (js \<Rightarrow> string) \<Rightarrow> (js \<Rightarrow> bool) \<Rightarrow> bool \<Rightarrow> cell_fold" where
  "fold_cells outs state_of named expanded =
     (let quiet = filter (\<lambda>o'. state_of o' = ''stopped'' \<and> \<not> named o') outs
      in if expanded \<or> length quiet < 2 then \<lparr>cfo_shown = outs, cfo_quiet = [], cfo_folded = (2 \<le> length quiet)\<rparr>
         else \<lparr>cfo_shown = filter (\<lambda>o'. o' \<notin> set quiet) outs, cfo_quiet = quiet, cfo_folded = True\<rparr>)"

definition cell_states :: "string list" where
  "cell_states = [''running'', ''stopped'', ''starting'', ''stopping'', ''failed'', ''unknown'']"

definition cell_state :: "string \<Rightarrow> string" where
  "cell_state s = (if s \<in> set cell_states then s else ''unknown'')"

definition cell_state_word :: "string \<Rightarrow> string" where
  "cell_state_word s = (if s = ''running'' then ''running'' else case map_of oc_words s of Some w \<Rightarrow> w | None \<Rightarrow> ''unknown'')"

definition state_counts :: "string list \<Rightarrow> (nat \<times> string) list" where
  "state_counts states = filter (\<lambda>(n, s). n > 0)
     (map (\<lambda>s. (length (filter (\<lambda>x. x = s) (map cell_state states)), s)) cell_states)"

definition cells_summary :: "dict \<Rightarrow> string list \<Rightarrow> string" where
  "cells_summary t states = js_join middot (map (\<lambda>(n, s). nat_str n @ '' '' @ t (cell_state_word s) []) (state_counts states))"

section \<open>Names\<close>

definition machine_sign :: string where
  "machine_sign = [CHR 0xF0, CHR 0x9F, CHR 0x96, CHR 0xA5]"

definition of_machine :: "js \<Rightarrow> bool" where
  "of_machine out = (js_text (jget out ''upstreamType'') = ''machine'')"

definition out_label :: "(js \<Rightarrow> string) \<Rightarrow> js \<Rightarrow> js \<Rightarrow> string" where
  "out_label ml bd out = (let name = oc_row_name ml bd out
     in if of_machine out then name else name @ '' :'' @ js_string (jget out ''upstreamPort''))"

definition out_where :: "js \<Rightarrow> out_group \<Rightarrow> string" where
  "out_where out g = (let machine = machine_sign @ '' '' @ og_name g
     in if of_machine out then machine else machine @ '' :'' @ js_string (jget out ''upstreamPort''))"

definition row_name :: "dict \<Rightarrow> (js \<Rightarrow> string) \<Rightarrow> js \<Rightarrow> js \<Rightarrow> string" where
  "row_name t ml bd row =
     (if jget row ''kind'' = JStr ''account''
      then js_string (jget row ''model'') @ middot
         @ js_string (js_or (jget (board_account bd (jget row ''accountId'')) ''name'') (jget row ''accountId''))
      else if jget row ''kind'' = JStr ''output''
      then (case board_output bd (jget row ''output'') of Some (out, g) \<Rightarrow> out_label ml bd out | None \<Rightarrow> js_string (jget row ''output''))
      else t ''poolNotConnected'' [])"

definition model_name :: "(js \<Rightarrow> string) \<Rightarrow> js \<Rightarrow> js \<Rightarrow> string" where
  "model_name ml bd row =
     (if jget row ''kind'' = JStr ''account'' then js_text (jget row ''model'')
      else if jget row ''kind'' \<noteq> JStr ''output'' then []
      else (case board_output bd (jget row ''output'') of Some (out, g) \<Rightarrow> oc_row_name ml bd out | None \<Rightarrow> js_string (jget row ''output'')))"

section \<open>The levels of a subscription's model\<close>

definition levels_of :: "js \<Rightarrow> string \<Rightarrow> string \<Rightarrow> js" where
  "levels_of bd account model =
     (let ls = js_or (jget bd ''modelLevels'') (JObj []);
          own = jget (jget (jget ls ''set'') account) model;
          base = js_or own (js_or (jget ls ''default'') (JObj [(''stopAt'', JObj []), (''switchAt'', JObj [])]))
      in JObj (kv_put ''max'' (num_js (js_number (js_or (jget ls ''max'') (JNum 0)))) (js_fields base)))"

text \<open>The levels an object says that are numbers above zero, with their windows in seconds.\<close>

definition level_rows :: "js \<Rightarrow> (rat \<times> rat) list" where
  "level_rows v = js_sort (by_rat fst)
     (List.map_filter (\<lambda>k. case (str_number k, js_number (jget v k)) of
        (Fin s, Fin p) \<Rightarrow> if s > 0 \<and> p > 0 then Some (s, p) else None | _ \<Rightarrow> None) (js_keys v))"

definition span_text :: "rat \<Rightarrow> string" where
  "span_text seconds = (if seconds < 172800 then int_str (js_round (seconds / 3600)) @ ''h'' else int_str (js_round (seconds / 86400)) @ ''d'')"

definition levels_text :: "js \<Rightarrow> string" where
  "levels_text v = js_join middot (map (\<lambda>(s, p). rat_str p @ ''% ('' @ span_text s @ '')'') (level_rows v))"

definition turn_text :: "dict \<Rightarrow> js \<Rightarrow> js \<Rightarrow> string" where
  "turn_text t bd row =
     (if jget row ''kind'' = JStr ''output'' then t ''pbTurnCell'' []
      else if jget row ''kind'' \<noteq> JStr ''account'' then []
      else let account = board_account bd (jget row ''accountId'') in
        if \<not> js_truthy account \<or> \<not> is_subscription account then t ''pbTurnRefused'' []
        else let said = levels_text (jget (levels_of bd (js_string (jget row ''accountId'')) (js_string (jget row ''model''))) ''switchAt'') in
          if said \<noteq> [] then t ''pbTurnLeft'' [(''levels'', said)] else t ''pbTurnRefused'' [])"

text \<open>Where the models of a card stop: of each window the levels they hold, each once and the smallest first.\<close>

definition stop_levels :: "js \<Rightarrow> js \<Rightarrow> js list \<Rightarrow> (string \<times> rat) list" where
  "stop_levels bd account models = concat (map (\<lambda>m.
     (let stops = jget (levels_of bd (js_string (jget account ''id'')) (js_string m)) ''stopAt''
      in List.map_filter (\<lambda>k. case js_number (jget stops k) of Fin p \<Rightarrow> if p > 0 then Some (k, p) else None | _ \<Rightarrow> None) (js_keys stops))) models)"

definition stops_of :: "js \<Rightarrow> js \<Rightarrow> js list \<Rightarrow> (string \<times> rat list) list" where
  "stops_of bd account models = (let found = stop_levels bd account models
     in map (\<lambda>k. (k, sort (js_uniq (map snd (filter (\<lambda>(k', p). k' = k) found))))) (js_uniq (map fst found)))"

definition step_of :: "js \<Rightarrow> js \<Rightarrow> js \<Rightarrow> js" where
  "step_of bd account model =
     (case find (\<lambda>s. jget s ''kind'' = JStr ''account'' \<and> jget s ''accountId'' = account \<and> jget s ''model'' = model)
        (concat (map pool_steps (list_of bd ''pools''))) of Some s \<Rightarrow> s | None \<Rightarrow> JObj [])"

definition above_stop :: "js \<Rightarrow> js" where
  "above_stop ls = JObj (map (\<lambda>k. (k, jget (jget ls ''switchAt'') k)) (filter (\<lambda>k.
     (case (js_number (jget (jget ls ''switchAt'') k), js_number (js_or (jget (jget ls ''stopAt'') k) (JNum 0))) of
        (Fin a, Fin b) \<Rightarrow> a > b | _ \<Rightarrow> False)) (js_keys (jget ls ''switchAt''))))"

definition switch_chip_html :: "dict \<Rightarrow> js \<Rightarrow> string" where
  "switch_chip_html t ls = (let said = levels_text (above_stop ls) in if said = [] then []
     else ''<span class=\"pb-chip\" data-t=\"pb-model-switch\" title=\"'' @ escape_html (t ''pbTurnLeft'' [(''levels'', said)]) @ ''\">''
        @ escape_html (t ''pbChipSwitch'' [(''levels'', said)]) @ ''</span>'')"

definition level_tag :: "js \<Rightarrow> (string \<times> string \<times> string) option" where
  "level_tag st = (if js_truthy (jget (jget st ''stopReached'') ''resetAt'') then Some (''stop'', ''pbChipStopped'', ''poolStopReached'')
     else if js_truthy (jget (jget st ''switchReached'') ''resetAt'') then Some (''reserve'', ''pbChipYielding'', ''poolSwitchReached'') else None)"

definition level_tag_html :: "dict \<Rightarrow> js \<Rightarrow> string" where
  "level_tag_html t st = (case level_tag st of None \<Rightarrow> [] | Some (look, chip, word) \<Rightarrow>
     ''<span class=\"pb-status '' @ look @ ''\" data-t=\"pb-model-level\" data-t-state=\"'' @ look @ ''\" title=\"'' @ escape_html (t word []) @ ''\">''
     @ escape_html (t chip []) @ ''</span>'')"

section \<open>The state of a row\<close>

record row_status =
  rs_look :: string
  rs_words :: string
  rs_hint :: string
  rs_quiet :: bool

definition said_status :: "string \<Rightarrow> string \<Rightarrow> row_status" where
  "said_status look words = \<lparr>rs_look = look, rs_words = words, rs_hint = [], rs_quiet = False\<rparr>"

definition cell_looks :: "(string \<times> string \<times> string) list" where
  "cell_looks = [(''stopped'', ''poolCellOff'', ''off-cell''), (''starting'', ''starting'', ''off-cell''),
     (''stopping'', ''rtCellStopping'', ''off-cell''), (''failed'', ''failed'', ''missing'')]"

definition row_cell_word :: "dict \<Rightarrow> js \<Rightarrow> js \<Rightarrow> row_status option" where
  "row_cell_word t bd row =
     (if jget row ''kind'' \<noteq> JStr ''output'' then None
      else case board_output bd (jget row ''output'') of None \<Rightarrow> None
        | Some (out, g) \<Rightarrow> (case map_of cell_looks (oc_state bd out) of None \<Rightarrow> None
            | Some (word, look) \<Rightarrow> Some (said_status look (t word []))))"

definition serving_reasons :: "js list" where
  "serving_reasons = [JStr ''ready'', JStr ''switch'', JStr ''busy'']"

text \<open>\<open>closed\<close> is the schedule's word of a target's key (\<open>ModelSchedule\<close>), \<open>state\<close> the proxy's of the pool.\<close>

definition row_login :: "dict \<Rightarrow> js \<Rightarrow> js \<Rightarrow> row_status option" where
  "row_login t bd row =
     (if jget row ''kind'' \<noteq> JStr ''account'' then None
      else let account = board_account bd (jget row ''accountId'') in
        if js_truthy account \<and> \<not> js_truthy (jget account ''hasCredential'')
        then Some (said_status ''login'' (t (if is_subscription account then ''poolLoginNeeded'' else ''cloudNoKeyYet'') [])) else None)"

definition row_serves :: "js \<Rightarrow> js \<Rightarrow> bool" where
  "row_serves state row = (let w = step_row state row in jget state ''selectedStepId'' = jget row ''id''
     \<and> (\<not> js_truthy w \<or> jget w ''reason'' \<in> set serving_reasons))"

definition proxy_word :: "dict \<Rightarrow> js \<Rightarrow> js \<Rightarrow> js \<Rightarrow> row_status" where
  "proxy_word t bd row state =
     (let w = step_row state row in
      if \<not> js_truthy (jget (pools_runtime bd) ''available'') then said_status ''unknown'' (t ''poolProxySilent'' [])
      else if \<not> js_truthy w then (said_status ''unknown'' (t ''poolNoRequest'' []))\<lparr>rs_quiet := True\<rparr>
      else case map_of reason_words (js_string (jget w ''reason'')) of
          Some (key, look) \<Rightarrow> \<lparr>rs_look = look, rs_words = t key [], rs_hint = js_text (jget w ''reason''), rs_quiet = (jget w ''reason'' = JStr ''ready'')\<rparr>
        | None \<Rightarrow> \<lparr>rs_look = ''unknown'', rs_words = t ''poolUnavailable'' [], rs_hint = js_text (jget w ''reason''), rs_quiet = False\<rparr>)"

definition row_status_of :: "dict \<Rightarrow> (string \<Rightarrow> string option) \<Rightarrow> js \<Rightarrow> js \<Rightarrow> js \<Rightarrow> row_status" where
  "row_status_of t is_closed bd row state =
     (case is_closed (target_key row) of Some words \<Rightarrow> said_status ''closed'' words
      | None \<Rightarrow> (case row_cell_word t bd row of Some s \<Rightarrow> s
        | None \<Rightarrow>
          if row_serves state row then (said_status ''serving'' (t ''poolServing'' []))
             \<lparr>rs_hint := (if jget (step_row state row) ''reason'' = JStr ''switch'' then t ''poolSwitchReached'' [] else [])\<rparr>
          else if jget row ''kind'' = JStr ''open'' then said_status ''open'' (t ''poolNotConnected'' [])
          else case row_login t bd row of Some s \<Rightarrow> s | None \<Rightarrow> proxy_word t bd row state))"

definition status_html :: "row_status \<Rightarrow> string" where
  "status_html s =
     (if rs_look s = ''open'' then ''<span></span>''
      else let look = escape_html (rs_look s) in
        if rs_quiet s then ''<span class=\"pb-status '' @ look @ '' quiet\" role=\"img\" title=\"'' @ escape_html (rs_words s)
          @ ''\" aria-label=\"'' @ escape_html (rs_words s) @ ''\"></span>''
        else ''<span class=\"pb-status '' @ look @ ''\" title=\"'' @ escape_html (rs_hint s) @ ''\">'' @ escape_html (rs_words s) @ ''</span>'')"

text \<open>The pool's state as the board takes it from the runtime: nothing while the proxy is silent.\<close>

definition pool_state :: "js \<Rightarrow> js \<Rightarrow> js" where
  "pool_state bd pool = (let rt = pools_runtime bd in
     if js_truthy (jget rt ''available'') then jget (jget rt ''pools'') (js_string (jget pool ''id'')) else JNull)"

definition pool_events :: "js \<Rightarrow> js \<Rightarrow> js list" where
  "pool_events bd pool = rev (last_n 5 (filter (\<lambda>e. jget e ''poolId'' = jget pool ''id'') (list_of (pools_runtime bd) ''events'')))"

section \<open>Small texts\<close>

definition miss_count :: "js \<Rightarrow> rat" where
  "miss_count c = sum_list (map (\<lambda>m. num_of (jget m ''count'')) (list_of (jget c ''misses'') ''items''))"

definition miss_badge :: "js \<Rightarrow> string" where
  "miss_badge c = (let n = miss_count c in if n = 0 then []
     else rat_str n @ (if jnum_pos (js_number (jget (jget c ''misses'') ''more'')) then ''+'' else []))"

definition bytes_text :: "js \<Rightarrow> string" where
  "bytes_text v = (let n = num_of v in
     if n < 1024 then rat_str n @ '' B''
     else if n < 1048576 then rat_str (of_int (js_round (n * 10 / 1024)) / 10) @ '' KB''
     else rat_str (of_int (js_round (n * 10 / 1048576)) / 10) @ '' MB'')"

definition took_text :: "js \<Rightarrow> string" where
  "took_text v = (let n = num_of v in if n < 1000 then rat_str n @ '' ms'' else to_fixed 1 (n / 1000) @ '' s'')"

definition curve_num :: "rat \<Rightarrow> string" where
  "curve_num v = rat_str (of_int (js_round (v * 10)) / 10)"

definition board_curve :: "cf_point \<Rightarrow> cf_point \<Rightarrow> string" where
  "board_curve a b = (let dx = max 40 ((fst b - fst a) / 2); n = curve_num in
     ''M '' @ n (fst a) @ '' '' @ n (snd a) @ '' C '' @ n (fst a + dx) @ '' '' @ n (snd a) @ '', '' @ n (fst b - dx) @ '' '' @ n (snd b)
     @ '', '' @ n (fst b) @ '' '' @ n (snd b))"

section \<open>Properties\<close>

lemma foldl_set_add:
  "set (foldl (\<lambda>ns x. set_add (f x) ns) ns xs) = set ns \<union> f ` set xs \<and> (distinct ns \<longrightarrow> distinct (foldl (\<lambda>ns x. set_add (f x) ns) ns xs))"
  by (induction xs arbitrary: ns) (auto simp: set_add_def)

lemma set_shown_go: "set (foldl (\<lambda>out m. if js_truthy m then set_add m out else out) ns xs) = set ns \<union> {m \<in> set xs. js_truthy m}
    \<and> (distinct ns \<longrightarrow> distinct (foldl (\<lambda>out m. if js_truthy m then set_add m out else out) ns xs))"
  by (induction xs arbitrary: ns) (auto simp: set_add_def)

lemma set_shown_models: "set (shown_models added named) = {m \<in> set added \<union> set named. js_truthy m}" "distinct (shown_models added named)"
  by (auto simp: shown_models_def set_shown_go simp del: foldl_append)

lemma set_named_models:
  "set (named_models bd account) = {jget row ''model'' |row. row \<in> set (concat (map pool_steps (list_of bd ''pools'')))
     \<and> jget row ''kind'' = JStr ''account'' \<and> jget row ''accountId'' = jget account ''id''}"
  by (auto simp: named_models_def foldl_set_add)

text \<open>
  A row's cable has where to land: the card of an account shows the models added to it and every one a row of any pool names,
  each once.
\<close>

theorem br_a_named_model_is_on_its_card:
  "distinct (shown_of bd account)
   \<and> set (shown_of bd account) = {m \<in> set (list_of (jget bd ''addedModels'') (js_string (jget account ''id'')))
       \<union> {jget row ''model'' |row. row \<in> set (concat (map pool_steps (list_of bd ''pools'')))
            \<and> jget row ''kind'' = JStr ''account'' \<and> jget row ''accountId'' = jget account ''id''}. js_truthy m}"
  by (simp add: shown_of_def set_shown_models set_named_models)

lemma uses_of_add: "uses_of (use_add k n us) k' = (if k' = k then set_add n (uses_of us k) else uses_of us k')"
  by (induction k n us rule: use_add.induct) (auto simp: uses_of_def set_add_def)

lemma uses_of_pairs:
  "set (uses_of (foldl (\<lambda>us (k, n). use_add k n us) us ps) k) = set (uses_of us k) \<union> snd ` {p \<in> set ps. fst p = k}
   \<and> (distinct (uses_of us k) \<longrightarrow> distinct (uses_of (foldl (\<lambda>us (k, n). use_add k n us) us ps) k))"
proof (induction ps arbitrary: us)
  case (Cons p ps)
  obtain a n where p: "p = (a, n)" by fastforce
  have here: "snd ` {q \<in> set (p # ps). fst q = k} = (if a = k then {n} else {}) \<union> snd ` {q \<in> set ps. fst q = k}" by (force simp: p)
  show ?case unfolding here using Cons.IH [of "use_add a n us"] by (cases "k = a") (simp_all add: p uses_of_add)
qed simp

text \<open>The pools a model's card counts as its uses are those with a row cabled to it, each once.\<close>

theorem br_uses_are_the_pools_that_name_it:
  "distinct (uses_of (model_uses pools) k)
   \<and> (k \<noteq> [] \<longrightarrow> set (uses_of (model_uses pools) k) = {named_pool p |p. p \<in> set pools \<and> k \<in> target_key ` set (pool_steps p)})"
proof -
  have pairs: "snd ` {p \<in> set (use_pairs pools). fst p = k} = {named_pool p |p. p \<in> set pools \<and> k \<in> target_key ` set (pool_steps p)}" if "k \<noteq> []"
    using that by (force simp: use_pairs_def)
  have none: "uses_of [] k = []" by (simp add: uses_of_def)
  show ?thesis using uses_of_pairs [of "[]" "use_pairs pools" k] pairs by (simp add: model_uses_def none)
qed

text \<open>
  What "+ model" lists are chat models not on the card that hold what was typed, at most \<open>limit\<close> of them; the others are counted,
  and what was typed is offered itself only when none was found.
\<close>

theorem br_picker_counts_what_it_leaves_out:
  fixes catalogue on_card query limit
  defines "p \<equiv> candidates catalogue on_card query limit"
    and "fits \<equiv> \<lambda>m. JStr (js_string (jget m ''id'')) \<notin> set on_card \<and> str_includes (pick_text m) (js_lower (js_trim query))"
  shows "list_all (\<lambda>m. m \<in> set (chat_models catalogue) \<and> fits m) (pi_models p)"
    and "length (pi_models p) \<le> limit"
    and "length (pi_models p) + pi_more p = length (filter fits (chat_models catalogue))"
    and "pi_typed p = [] \<or> pi_models p = [] \<and> pi_more p = 0 \<and> pi_typed p = js_trim query"
proof -
  have any: "str_includes s []" for s by (cases s) (simp_all add: str_includes_def)
  let ?free = "filter (\<lambda>m. JStr (js_string (jget m ''id'')) \<notin> set on_card) (chat_models catalogue)"
  let ?want = "js_lower (js_trim query)"
  let ?found = "if ?want \<noteq> [] then filter (\<lambda>m. str_includes (pick_text m) ?want) ?free else ?free"
  have found: "?found = filter fits (chat_models catalogue)"
    by (cases "?want = []") (auto simp: fits_def any conj_commute intro!: filter_cong)
  have m: "pi_models p = take limit ?found" "pi_more p = length ?found - limit" by (simp_all only: p_def candidates_def Let_def picks.simps)
  show "list_all (\<lambda>m. m \<in> set (chat_models catalogue) \<and> fits m) (pi_models p)"
    unfolding m found by (auto simp: list_all_iff dest: in_set_takeD)
  show "length (pi_models p) \<le> limit" by (simp add: m)
  show "length (pi_models p) + pi_more p = length (filter fits (chat_models catalogue))" unfolding m found by simp
  show "pi_typed p = [] \<or> pi_models p = [] \<and> pi_more p = 0 \<and> pi_typed p = js_trim query"
    unfolding m by (simp add: p_def candidates_def Let_def split: if_splits)
qed

lemma kept_and_split: "mset (filter (\<lambda>x. x \<notin> set (filter P xs)) xs) + mset (filter P xs) = mset xs"
proof -
  have "filter (\<lambda>x. x \<notin> set (filter P xs)) xs = filter (\<lambda>x. \<not> P x) xs" by (rule filter_cong) auto
  moreover have "mset (filter (\<lambda>x. \<not> P x) xs) + mset (filter P xs) = mset xs" by (induction xs) auto
  ultimately show ?thesis by simp
qed

text \<open>A machine's card keeps every cell: in sight, or folded; folded are stopped ones no row names, two at least.\<close>

theorem br_only_quiet_cells_fold:
  "mset (cfo_shown (fold_cells outs st named expanded)) + mset (cfo_quiet (fold_cells outs st named expanded)) = mset outs
   \<and> list_all (\<lambda>o'. st o' = ''stopped'' \<and> \<not> named o') (cfo_quiet (fold_cells outs st named expanded))
   \<and> length (cfo_quiet (fold_cells outs st named expanded)) \<noteq> 1"
proof -
  let ?q = "filter (\<lambda>o'. st o' = ''stopped'' \<and> \<not> named o') outs"
  have parts: "mset (filter (\<lambda>o'. o' \<notin> set ?q) outs) + mset ?q = mset outs" by (rule kept_and_split)
  show ?thesis
  proof (cases "expanded \<or> length ?q < 2")
    case True
    then have "fold_cells outs st named expanded = \<lparr>cfo_shown = outs, cfo_quiet = [], cfo_folded = (2 \<le> length ?q)\<rparr>"
      by (simp only: fold_cells_def Let_def if_True)
    then show ?thesis by simp
  next
    case False
    then have "fold_cells outs st named expanded = \<lparr>cfo_shown = filter (\<lambda>o'. o' \<notin> set ?q) outs, cfo_quiet = ?q, cfo_folded = True\<rparr>"
      by (simp only: fold_cells_def Let_def if_False)
    then show ?thesis using parts False by (simp only: cell_fold.simps) (auto simp: list_all_iff)
  qed
qed

lemma cell_state_known: "cell_state s \<in> set cell_states"
  by (simp add: cell_state_def cell_states_def)

lemma counts_split: "distinct ss \<Longrightarrow> set xs \<subseteq> set ss \<Longrightarrow> sum_list (map (\<lambda>s. length (filter (\<lambda>x. x = s) xs)) ss) = length xs"
proof (induction xs)
  case (Cons x xs)
  have "sum_list (map (\<lambda>s. length (filter (\<lambda>y. y = s) (x # xs))) ss)
      = sum_list (map (\<lambda>s. length (filter (\<lambda>y. y = s) xs)) ss) + sum_list (map (\<lambda>s. if x = s then 1 else 0) ss)"
    unfolding sum_list_addf [symmetric] by (rule arg_cong [where f = sum_list]) (rule map_cong, simp_all)
  moreover have "sum_list (map (\<lambda>s. if x = s then 1 else 0) ss) = (1::nat)"
    using Cons.prems(1) Cons.prems(2) by (simp add: sum_list_distinct_conv_sum_set sum.delta)
  ultimately show ?case using Cons by simp
qed (induction ss, simp_all)

lemma sum_list_positive: "sum_list (map fst (filter (\<lambda>(n, s). n > 0) ps)) = sum_list (map fst (ps :: (nat \<times> 'a) list))"
  by (induction ps) auto

text \<open>The counts of a machine's head add up to its cells, whatever states they are in.\<close>

theorem br_counts_add_up: "sum_list (map fst (state_counts states)) = length states"
proof -
  have "sum_list (map fst (state_counts states)) = sum_list (map (\<lambda>s. length (filter (\<lambda>x. x = s) (map cell_state states))) cell_states)"
    by (simp add: state_counts_def sum_list_positive comp_def)
  also have "\<dots> = length (map cell_state states)"
    by (rule counts_split) (auto simp: cell_state_known, simp add: cell_states_def)
  finally show ?thesis by simp
qed

text \<open>
  A bare dot stands for no news alone: the proxy answers, and the row is fit or was not asked for yet. A silent proxy, a cell
  that does not run, a closed model, an account nobody signed in to and a reason nobody knows are said in words.
\<close>

theorem br_only_no_news_is_quiet:
  "rs_quiet (row_status_of t is_closed bd row state) \<longleftrightarrow>
     is_closed (target_key row) = None \<and> row_cell_word t bd row = None \<and> \<not> row_serves state row
     \<and> jget row ''kind'' \<noteq> JStr ''open'' \<and> row_login t bd row = None \<and> js_truthy (jget (pools_runtime bd) ''available'')
     \<and> (\<not> js_truthy (step_row state row) \<or> jget (step_row state row) ''reason'' = JStr ''ready'')"
proof -
  have login: "row_login t bd row = Some s \<Longrightarrow> \<not> rs_quiet s" for s
    by (auto simp: row_login_def said_status_def Let_def split: if_splits)
  have cell: "row_cell_word t bd row = Some s \<Longrightarrow> \<not> rs_quiet s" for s
    by (auto simp: row_cell_word_def said_status_def split: if_splits option.splits)
  have ready: "map_of reason_words ''ready'' \<noteq> None" by (simp add: reason_words_def)
  show ?thesis
    using login cell ready
    by (auto simp: row_status_of_def proxy_word_def said_status_def Let_def split: option.splits)
qed

end
