(* ===== verification/BoardPath.thy ===== *)
theory BoardPath
  imports BoardReads ClientLanes
begin

text \<open>
  The path through a card of Routing's board (\<open>PoolBoard.path\<close> in \<open>pool-board.js\<close>): from the card up to the clients that reach it
  and down to the models it reaches, never sideways. The code walks over the texts of \<open>data-pb-node\<close> and cuts them apart again;
  the board's cables are a relation between its nodes, and the path is what the card reaches along it in either direction.
\<close>

section \<open>The walk\<close>

record lit_path =
  lp_nodes :: "string list"
  lp_cables :: "string list"

definition light_node :: "string \<Rightarrow> lit_path \<Rightarrow> lit_path" where
  "light_node n p = p\<lparr>lp_nodes := set_add n (lp_nodes p)\<rparr>"

definition light_cable :: "string \<Rightarrow> lit_path \<Rightarrow> lit_path" where
  "light_cable c p = p\<lparr>lp_cables := set_add c (lp_cables p)\<rparr>"

text \<open>\<open>const [kind, ...rest] = key.split(":")\<close>, and \<open>rest.join(":")\<close>; the parts of \<open>v.split("/")\<close>.\<close>

definition node_kind :: "string \<Rightarrow> string" where
  "node_kind key = hd (js_split CHR '':'' key)"

definition node_id :: "string \<Rightarrow> string" where
  "node_id key = js_join '':'' (tl (js_split CHR '':'' key))"

definition part :: "string \<Rightarrow> int \<Rightarrow> string" where
  "part v i = (case js_at (js_split CHR ''/'' v) i of Some w \<Rightarrow> w | None \<Rightarrow> ''undefined'')"

definition pool_map :: "js \<Rightarrow> (js \<times> js) list" where
  "pool_map bd = foldl (\<lambda>m p. map_put (jget p ''id'') p m) [] (list_of bd ''pools'')"

definition steps_at :: "js \<Rightarrow> string \<Rightarrow> js list" where
  "steps_at bd v = (case map_of (pool_map bd) (JStr v) of Some p \<Rightarrow> pool_steps p | None \<Rightarrow> [])"

text \<open>\<open>if (nodes.has(node) && node !== key) return; nodes.add(node);\<close>\<close>

definition enter :: "string \<Rightarrow> string \<Rightarrow> (lit_path \<Rightarrow> lit_path) \<Rightarrow> lit_path \<Rightarrow> lit_path" where
  "enter key node go p = (if node \<in> set (lp_nodes p) \<and> node \<noteq> key then p else go (light_node node p))"

definition port_key :: "js \<Rightarrow> string" where
  "port_key c = ''client:'' @ js_string (jget c ''port'')"

definition id_of :: "js \<Rightarrow> string" where
  "id_of x = js_string (jget x ''id'')"

text \<open>Up, a function for each kind of node: the clients of a set, the set of a seat, the seats of a pool, the rows of a model.\<close>

definition up_set :: "string \<Rightarrow> compare \<Rightarrow> js \<Rightarrow> string \<Rightarrow> lit_path \<Rightarrow> lit_path" where
  "up_set key lc bd v = enter key (''set:'' @ v)
     (\<lambda>p. foldl (\<lambda>p c. if js_text (jget c ''set'') = v then light_cable (port_key c) (light_node (port_key c) p) else p) p (consumers_of lc bd))"

definition up_seat :: "string \<Rightarrow> compare \<Rightarrow> js \<Rightarrow> string \<Rightarrow> lit_path \<Rightarrow> lit_path" where
  "up_seat key lc bd v = enter key (''setpool:'' @ v) (\<lambda>p. light_cable (''set:'' @ v) (up_set key lc bd (part v 0) p))"

definition up_pool :: "string \<Rightarrow> compare \<Rightarrow> js \<Rightarrow> string \<Rightarrow> lit_path \<Rightarrow> lit_path" where
  "up_pool key lc bd v = enter key (''pool:'' @ v)
     (\<lambda>p. foldl (\<lambda>p s. if JStr v \<in> set (list_of s ''pools'') then up_seat key lc bd (id_of s @ ''/'' @ v) p else p) p (list_of bd ''sets''))"

definition up_row :: "string \<Rightarrow> compare \<Rightarrow> js \<Rightarrow> string \<Rightarrow> lit_path \<Rightarrow> lit_path" where
  "up_row key lc bd v = enter key (''row:'' @ v) (up_pool key lc bd (part v 0))"

definition up_model :: "string \<Rightarrow> compare \<Rightarrow> js \<Rightarrow> string \<Rightarrow> lit_path \<Rightarrow> lit_path" where
  "up_model key lc bd v = enter key (''model:'' @ v)
     (\<lambda>p. foldl (\<lambda>p (pid, pool). foldl (\<lambda>p row.
        let r = js_string pid @ ''/'' @ id_of row in
        if target_key row = v then up_row key lc bd r (light_cable (''row:'' @ r) p) else p) p (pool_steps pool)) p (pool_map bd))"

definition path_up :: "compare \<Rightarrow> js \<Rightarrow> string \<Rightarrow> lit_path \<Rightarrow> lit_path" where
  "path_up lc bd key =
     (let k = node_kind key; v = node_id key in
      if k = ''set'' then up_set key lc bd v
      else if k = ''setpool'' then up_seat key lc bd v
      else if k = ''pool'' then up_pool key lc bd v
      else if k = ''row'' then up_row key lc bd v
      else if k = ''model'' then up_model key lc bd v
      else enter key key (\<lambda>p. p))"

definition down_row :: "js \<Rightarrow> string \<Rightarrow> lit_path \<Rightarrow> lit_path" where
  "down_row bd v p =
     (let p = light_node (''row:'' @ v) p;
          row = (case find (\<lambda>x. jget x ''id'' = JStr (part v 1)) (steps_at bd (part v 0)) of Some r \<Rightarrow> r | None \<Rightarrow> JUndef)
      in if target_key row = [] then p else light_node (''model:'' @ target_key row) (light_cable (''row:'' @ v) p))"

definition down_pool :: "js \<Rightarrow> string \<Rightarrow> lit_path \<Rightarrow> lit_path" where
  "down_pool bd v p = foldl (\<lambda>p row. down_row bd (v @ ''/'' @ id_of row) p) (light_node (''pool:'' @ v) p) (steps_at bd v)"

definition down_seat :: "js \<Rightarrow> string \<Rightarrow> lit_path \<Rightarrow> lit_path" where
  "down_seat bd v p = down_pool bd (part v 1) (light_cable (''set:'' @ v) (light_node (''setpool:'' @ v) p))"

definition set_pools :: "js \<Rightarrow> string \<Rightarrow> js list" where
  "set_pools bd v = (case find (\<lambda>s. jget s ''id'' = JStr v) (list_of bd ''sets'') of Some s \<Rightarrow> list_of s ''pools'' | None \<Rightarrow> [])"

definition down_set :: "js \<Rightarrow> string \<Rightarrow> lit_path \<Rightarrow> lit_path" where
  "down_set bd v p = foldl (\<lambda>p pid. down_seat bd (v @ ''/'' @ js_string pid) p) (light_node (''set:'' @ v) p) (set_pools bd v)"

definition down_client :: "compare \<Rightarrow> js \<Rightarrow> string \<Rightarrow> lit_path \<Rightarrow> lit_path" where
  "down_client lc bd v p =
     (let p = light_node (''client:'' @ v) p in
      case find (\<lambda>c. js_string (jget c ''port'') = v) (consumers_of lc bd) of None \<Rightarrow> p
      | Some c \<Rightarrow> if js_truthy (jget c ''set'') then down_set bd (js_string (jget c ''set'')) (light_cable (''client:'' @ v) p) else p)"

definition path_down :: "compare \<Rightarrow> js \<Rightarrow> string \<Rightarrow> lit_path \<Rightarrow> lit_path" where
  "path_down lc bd key =
     (let k = node_kind key; v = node_id key in
      if k = ''client'' then down_client lc bd v
      else if k = ''set'' then down_set bd v
      else if k = ''setpool'' then down_seat bd v
      else if k = ''pool'' then down_pool bd v
      else if k = ''row'' then down_row bd v
      else light_node key)"

definition board_path :: "compare \<Rightarrow> js \<Rightarrow> string \<Rightarrow> lit_path" where
  "board_path lc bd key =
     (let p = \<lparr>lp_nodes = [], lp_cables = []\<rparr> in
      if node_kind key = [] \<or> node_id key = [] then p else path_down lc bd key (path_up lc bd key p))"

section \<open>The board as a relation\<close>

datatype board_node = Client_node string | Set_node string | Seat_node string string | Pool_node string
  | Row_node string string | Model_node string

fun node_key :: "board_node \<Rightarrow> string" where
  "node_key (Client_node c) = ''client:'' @ c"
| "node_key (Set_node s) = ''set:'' @ s"
| "node_key (Seat_node s p) = ''setpool:'' @ s @ ''/'' @ p"
| "node_key (Pool_node p) = ''pool:'' @ p"
| "node_key (Row_node p r) = ''row:'' @ p @ ''/'' @ r"
| "node_key (Model_node k) = ''model:'' @ k"

definition board_links :: "compare \<Rightarrow> js \<Rightarrow> (board_node \<times> board_node) list" where
  "board_links lc bd =
     map (\<lambda>c. (Client_node (js_string (jget c ''port'')), Set_node (js_string (jget c ''set''))))
       (filter (\<lambda>c. js_truthy (jget c ''set'')) (consumers_of lc bd))
     @ concat (map (\<lambda>s. concat (map (\<lambda>pid. [(Set_node (id_of s), Seat_node (id_of s) (js_string pid)),
         (Seat_node (id_of s) (js_string pid), Pool_node (js_string pid))]) (list_of s ''pools''))) (list_of bd ''sets''))
     @ concat (map (\<lambda>p. concat (map (\<lambda>row. (Pool_node (id_of p), Row_node (id_of p) (id_of row))
         # (if target_key row = [] then [] else [(Row_node (id_of p) (id_of row), Model_node (target_key row))])) (pool_steps p))) (list_of bd ''pools''))"

text \<open>The key of the cable a link is drawn as; from a set's row to its pool and from a pool to its rows none is.\<close>

fun link_cables :: "board_node \<times> board_node \<Rightarrow> string set" where
  "link_cables (Client_node c, n) = {''client:'' @ c}"
| "link_cables (Set_node s, Seat_node t p) = {''set:'' @ t @ ''/'' @ p}"
| "link_cables (Row_node p r, n) = {''row:'' @ p @ ''/'' @ r}"
| "link_cables _ = {}"

definition plain :: "js \<Rightarrow> bool" where
  "plain v = (case v of JStr s \<Rightarrow> s \<noteq> [] \<and> CHR ''/'' \<notin> set s | _ \<Rightarrow> False)"

text \<open>What the controller keeps of names: ids are texts with no slash, each once where they name.\<close>

definition well_named :: "compare \<Rightarrow> js \<Rightarrow> bool" where
  "well_named lc bd =
     (distinct (map (\<lambda>c. js_string (jget c ''port'')) (consumers_of lc bd))
      \<and> list_all (\<lambda>s. plain (jget s ''id'') \<and> list_all plain (list_of s ''pools'')) (list_of bd ''sets'')
      \<and> distinct (map (\<lambda>s. jget s ''id'') (list_of bd ''sets''))
      \<and> list_all (\<lambda>p. plain (jget p ''id'') \<and> list_all (\<lambda>r. plain (jget r ''id'')) (pool_steps p)
           \<and> distinct (map (\<lambda>r. jget r ''id'') (pool_steps p))) (list_of bd ''pools'')
      \<and> distinct (map (\<lambda>p. jget p ''id'') (list_of bd ''pools'')))"

definition on_board :: "compare \<Rightarrow> js \<Rightarrow> board_node \<Rightarrow> bool" where
  "on_board lc bd n = (case n of
       Client_node c \<Rightarrow> c \<noteq> [] | Set_node s \<Rightarrow> s \<noteq> [] | Pool_node p \<Rightarrow> p \<noteq> [] | Model_node k \<Rightarrow> k \<noteq> []
     | Seat_node s p \<Rightarrow> (Set_node s, n) \<in> set (board_links lc bd)
     | Row_node p r \<Rightarrow> (Pool_node p, n) \<in> set (board_links lc bd))"

section \<open>Ends of a relation, a step at a time\<close>

definition ends_from :: "('a \<times> 'a) set \<Rightarrow> 'a \<Rightarrow> 'a set" where
  "ends_from E n = {m. (n, m) \<in> E\<^sup>*}"

definition cables_from :: "('a \<Rightarrow> 'a \<Rightarrow> string set) \<Rightarrow> ('a \<times> 'a) set \<Rightarrow> 'a \<Rightarrow> string set" where
  "cables_from L E n = \<Union>{L a b |a b. (a, b) \<in> E \<and> (n, a) \<in> E\<^sup>*}"

lemma ends_from_step: "ends_from E n = insert n (\<Union>m \<in> {m. (n, m) \<in> E}. ends_from E m)"
  by (auto simp: ends_from_def intro: converse_rtrancl_into_rtrancl elim: converse_rtranclE)

lemma rtrancl_first: "(n, a) \<in> E\<^sup>* \<longleftrightarrow> n = a \<or> (\<exists>m. (n, m) \<in> E \<and> (m, a) \<in> E\<^sup>*)"
  by (meson converse_rtranclE converse_rtrancl_into_rtrancl rtrancl.rtrancl_refl)

lemma in_cables_from: "c \<in> cables_from L E n \<longleftrightarrow> (\<exists>a b. (a, b) \<in> E \<and> (n, a) \<in> E\<^sup>* \<and> c \<in> L a b)"
  unfolding cables_from_def by blast

lemma cables_from_step: "cables_from L E n = (\<Union>m \<in> {m. (n, m) \<in> E}. L n m \<union> cables_from L E m)"
proof (rule set_eqI)
  fix c
  have "c \<in> cables_from L E n \<longleftrightarrow> (\<exists>a b. (a, b) \<in> E \<and> (n = a \<or> (\<exists>m. (n, m) \<in> E \<and> (m, a) \<in> E\<^sup>*)) \<and> c \<in> L a b)"
    unfolding in_cables_from by (subst rtrancl_first) (rule refl)
  also have "\<dots> \<longleftrightarrow> (\<exists>m. (n, m) \<in> E \<and> (c \<in> L n m \<or> (\<exists>a b. (a, b) \<in> E \<and> (m, a) \<in> E\<^sup>* \<and> c \<in> L a b)))" by blast
  finally show "c \<in> cables_from L E n \<longleftrightarrow> c \<in> (\<Union>m \<in> {m. (n, m) \<in> E}. L n m \<union> cables_from L E m)"
    by (simp add: in_cables_from)
qed

lemma ends_from_trans: "m \<in> ends_from E n \<Longrightarrow> ends_from E m \<subseteq> ends_from E n"
  by (auto simp: ends_from_def)

lemma cables_from_trans: "m \<in> ends_from E n \<Longrightarrow> cables_from L E m \<subseteq> cables_from L E n"
  unfolding ends_from_def cables_from_def by (blast intro: rtrancl_trans)

text \<open>The links seen from the card upward are the converse relation.\<close>

definition below :: "compare \<Rightarrow> js \<Rightarrow> board_node \<Rightarrow> board_node set" where
  "below lc bd = ends_from (set (board_links lc bd))"

definition above :: "compare \<Rightarrow> js \<Rightarrow> board_node \<Rightarrow> board_node set" where
  "above lc bd = ends_from ((set (board_links lc bd))\<inverse>)"

definition cables_below :: "compare \<Rightarrow> js \<Rightarrow> board_node \<Rightarrow> string set" where
  "cables_below lc bd = cables_from (\<lambda>a b. link_cables (a, b)) (set (board_links lc bd))"

definition cables_above :: "compare \<Rightarrow> js \<Rightarrow> board_node \<Rightarrow> string set" where
  "cables_above lc bd = cables_from (\<lambda>b a. link_cables (a, b)) ((set (board_links lc bd))\<inverse>)"

section \<open>What a walk adds\<close>

definition adds :: "(lit_path \<Rightarrow> bool) \<Rightarrow> (lit_path \<Rightarrow> lit_path) \<Rightarrow> string set \<Rightarrow> string set \<Rightarrow> bool" where
  "adds I f A C \<longleftrightarrow> (\<forall>p. I p \<longrightarrow> I (f p) \<and> set (lp_nodes (f p)) = set (lp_nodes p) \<union> A \<and> set (lp_cables (f p)) = set (lp_cables p) \<union> C)"

lemma adds_fold:
  assumes "\<And>x. x \<in> set xs \<Longrightarrow> adds I (\<lambda>p. g p x) (A x) (C x)"
  shows "adds I (\<lambda>p. foldl g p xs) (\<Union>x \<in> set xs. A x) (\<Union>x \<in> set xs. C x)"
  using assms
proof (induction xs)
  case (Cons x xs)
  have h: "adds I (\<lambda>p. g p x) (A x) (C x)" and t: "adds I (\<lambda>p. foldl g p xs) (\<Union>x \<in> set xs. A x) (\<Union>x \<in> set xs. C x)"
    using Cons by simp_all
  show ?case unfolding adds_def
  proof (intro allI impI)
    fix p assume "I p"
    with h have 1: "I (g p x)" "set (lp_nodes (g p x)) = set (lp_nodes p) \<union> A x" "set (lp_cables (g p x)) = set (lp_cables p) \<union> C x"
      by (simp_all add: adds_def)
    with t show "I (foldl g p (x # xs)) \<and> set (lp_nodes (foldl g p (x # xs))) = set (lp_nodes p) \<union> (\<Union>x \<in> set (x # xs). A x)
        \<and> set (lp_cables (foldl g p (x # xs))) = set (lp_cables p) \<union> (\<Union>x \<in> set (x # xs). C x)"
      by (auto simp: adds_def)
  qed
qed (simp add: adds_def)

lemma adds_if: "adds I f A C \<Longrightarrow> adds I (\<lambda>p. if b then f p else p) (if b then A else {}) (if b then C else {})"
  by (simp add: adds_def)

lemma adds_then: "adds I f A C \<Longrightarrow> adds I g A' C' \<Longrightarrow> adds I (\<lambda>p. g (f p)) (A \<union> A') (C \<union> C')"
  by (auto simp: adds_def)

lemma adds_cong: "adds I f A C \<Longrightarrow> A = A' \<Longrightarrow> C = C' \<Longrightarrow> adds I f A' C'"
  by simp

lemma lp_add [simp]:
  "set (lp_nodes (light_node n p)) = insert n (set (lp_nodes p))" "lp_cables (light_node n p) = lp_cables p"
  "set (lp_cables (light_cable c p)) = insert c (set (lp_cables p))" "lp_nodes (light_cable c p) = lp_nodes p"
  by (simp_all add: light_node_def light_cable_def)

section \<open>Names\<close>

lemma js_join_Cons: "ws \<noteq> [] \<Longrightarrow> js_join sep (w # ws) = w @ sep @ js_join sep ws"
  by (cases ws) simp_all

lemma parts_joined: "js_join [c] (js_split c s) = s"
proof (induction s)
  case (Cons a s)
  obtain v vs where v: "split_by (\<lambda>x. x = c) s = v # vs" by (cases "split_by (\<lambda>x. x = c) s") auto
  show ?case
  proof (cases "a = c")
    case True
    then show ?thesis using Cons by (simp add: js_split_def js_join_Cons)
  next
    case False
    then show ?thesis using Cons by (cases vs) (simp_all add: js_split_def v js_join_Cons)
  qed
qed (simp add: js_split_def)

lemma js_split_head: "c \<notin> set w \<Longrightarrow> js_split c (w @ c # s) = w # js_split c s"
  by (auto simp: js_split_def intro: split_by_append_sep)

lemma node_parts:
  assumes "CHR '':'' \<notin> set k"
  shows "node_kind (k @ '':'' @ v) = k" "node_id (k @ '':'' @ v) = v"
  using js_split_head [OF assms, of v] by (simp_all add: node_kind_def node_id_def parts_joined)

lemma node_key_parts [simp]:
  "node_kind (''client:'' @ v) = ''client''" "node_id (''client:'' @ v) = v"
  "node_kind (''set:'' @ v) = ''set''" "node_id (''set:'' @ v) = v"
  "node_kind (''setpool:'' @ v) = ''setpool''" "node_id (''setpool:'' @ v) = v"
  "node_kind (''pool:'' @ v) = ''pool''" "node_id (''pool:'' @ v) = v"
  "node_kind (''row:'' @ v) = ''row''" "node_id (''row:'' @ v) = v"
  "node_kind (''model:'' @ v) = ''model''" "node_id (''model:'' @ v) = v"
  using node_parts [of "''client''" v] node_parts [of "''set''" v] node_parts [of "''setpool''" v]
    node_parts [of "''pool''" v] node_parts [of "''row''" v] node_parts [of "''model''" v] by simp_all

lemma part_plain:
  assumes "CHR ''/'' \<notin> set a"
  shows "part (a @ ''/'' @ b) 0 = a" "CHR ''/'' \<notin> set b \<Longrightarrow> part (a @ ''/'' @ b) 1 = b"
proof -
  have "js_split CHR ''/'' (a @ ''/'' @ b) = a # js_split CHR ''/'' b" using js_split_head [OF assms, of b] by simp
  moreover have "CHR ''/'' \<notin> set b \<Longrightarrow> js_split CHR ''/'' b = [b]" by (auto simp: js_split_def intro!: split_by_no_sep)
  ultimately show "part (a @ ''/'' @ b) 0 = a" "CHR ''/'' \<notin> set b \<Longrightarrow> part (a @ ''/'' @ b) 1 = b"
    by (simp_all add: part_def js_at_def)
qed

fun slashless :: "board_node \<Rightarrow> bool" where
  "slashless (Seat_node s p) = (CHR ''/'' \<notin> set s)"
| "slashless (Row_node p r) = (CHR ''/'' \<notin> set p)"
| "slashless n = True"

lemma append_slash:
  assumes "CHR ''/'' \<notin> set a" "CHR ''/'' \<notin> set c" "a @ CHR ''/'' # b = c @ CHR ''/'' # d"
  shows "a = c \<and> b = d"
proof -
  have "a = part (a @ ''/'' @ b) 0" "c = part (c @ ''/'' @ d) 0" using part_plain(1) assms(1,2) by simp_all
  with assms(3) show ?thesis by simp
qed

lemma node_key_inj:
  assumes "slashless n" "slashless m" "node_key n = node_key m"
  shows "n = m"
  using assms by (cases n; cases m) (auto dest: append_slash)

fun rank :: "board_node \<Rightarrow> nat" where
  "rank (Client_node c) = 0"
| "rank (Set_node s) = 1"
| "rank (Seat_node s p) = 2"
| "rank (Pool_node p) = 3"
| "rank (Row_node p r) = 4"
| "rank (Model_node k) = 5"

section \<open>The links of a named board\<close>

lemma plain_text: "plain v \<Longrightarrow> v = JStr (js_string v) \<and> js_string v \<noteq> [] \<and> CHR ''/'' \<notin> set (js_string v)"
  by (cases v) (simp_all add: plain_def)

lemma link_from:
  "(Client_node c, m) \<in> set (board_links lc bd) \<longleftrightarrow>
     (\<exists>x \<in> set (consumers_of lc bd). js_truthy (jget x ''set'') \<and> js_string (jget x ''port'') = c \<and> m = Set_node (js_string (jget x ''set'')))"
  "(Set_node s, m) \<in> set (board_links lc bd) \<longleftrightarrow>
     (\<exists>x \<in> set (list_of bd ''sets''). id_of x = s \<and> (\<exists>pid \<in> set (list_of x ''pools''). m = Seat_node s (js_string pid)))"
  "(Seat_node s p, m) \<in> set (board_links lc bd) \<longleftrightarrow>
     (\<exists>x \<in> set (list_of bd ''sets''). id_of x = s \<and> (\<exists>pid \<in> set (list_of x ''pools''). js_string pid = p)) \<and> m = Pool_node p"
  "(Pool_node p, m) \<in> set (board_links lc bd) \<longleftrightarrow>
     (\<exists>x \<in> set (list_of bd ''pools''). id_of x = p \<and> (\<exists>row \<in> set (pool_steps x). m = Row_node p (id_of row)))"
  "(Row_node p r, m) \<in> set (board_links lc bd) \<longleftrightarrow>
     (\<exists>x \<in> set (list_of bd ''pools''). id_of x = p \<and> (\<exists>row \<in> set (pool_steps x). id_of row = r \<and> target_key row \<noteq> [] \<and> m = Model_node (target_key row)))"
  "(Model_node k, m) \<notin> set (board_links lc bd)"
  by (auto simp: board_links_def split: if_splits)

lemma link_to:
  "(m, Client_node c) \<notin> set (board_links lc bd)"
  "(m, Set_node s) \<in> set (board_links lc bd) \<longleftrightarrow>
     (\<exists>x \<in> set (consumers_of lc bd). js_truthy (jget x ''set'') \<and> js_string (jget x ''set'') = s \<and> m = Client_node (js_string (jget x ''port'')))"
  "(m, Seat_node s p) \<in> set (board_links lc bd) \<longleftrightarrow> m = Set_node s \<and>
     (\<exists>x \<in> set (list_of bd ''sets''). id_of x = s \<and> (\<exists>pid \<in> set (list_of x ''pools''). js_string pid = p))"
  "(m, Pool_node p) \<in> set (board_links lc bd) \<longleftrightarrow>
     (\<exists>x \<in> set (list_of bd ''sets''). \<exists>pid \<in> set (list_of x ''pools''). js_string pid = p \<and> m = Seat_node (id_of x) p)"
  "(m, Row_node p r) \<in> set (board_links lc bd) \<longleftrightarrow> m = Pool_node p \<and>
     (\<exists>x \<in> set (list_of bd ''pools''). id_of x = p \<and> (\<exists>row \<in> set (pool_steps x). id_of row = r))"
  "(m, Model_node k) \<in> set (board_links lc bd) \<longleftrightarrow> k \<noteq> [] \<and>
     (\<exists>x \<in> set (list_of bd ''pools''). \<exists>row \<in> set (pool_steps x). target_key row = k \<and> m = Row_node (id_of x) (id_of row))"
  by (auto simp: board_links_def split: if_splits)

lemma named_set: "well_named lc bd \<Longrightarrow> x \<in> set (list_of bd ''sets'') \<Longrightarrow> jget x ''id'' = JStr (id_of x) \<and> CHR ''/'' \<notin> set (id_of x)
    \<and> (\<forall>pid \<in> set (list_of x ''pools''). pid = JStr (js_string pid) \<and> CHR ''/'' \<notin> set (js_string pid))"
  unfolding well_named_def list_all_iff id_of_def by (metis plain_text)

lemma named_pool_rows: "well_named lc bd \<Longrightarrow> x \<in> set (list_of bd ''pools'') \<Longrightarrow> jget x ''id'' = JStr (id_of x) \<and> CHR ''/'' \<notin> set (id_of x)
    \<and> (\<forall>row \<in> set (pool_steps x). jget row ''id'' = JStr (id_of row) \<and> CHR ''/'' \<notin> set (id_of row))"
  unfolding well_named_def list_all_iff id_of_def by (metis plain_text)

lemma links_slashless:
  assumes "well_named lc bd" "(a, b) \<in> set (board_links lc bd)"
  shows "slashless a \<and> slashless b"
  using assms(2) named_set [OF assms(1)] named_pool_rows [OF assms(1)]
  by (cases a) (auto simp: link_from)

lemma above_slashless:
  assumes "well_named lc bd" "slashless n" "m \<in> above lc bd n"
  shows "slashless m"
proof -
  have "(n, m) \<in> ((set (board_links lc bd))\<inverse>)\<^sup>*" using assms(3) by (simp add: above_def ends_from_def)
  then show ?thesis by (induction) (use assms(2) links_slashless [OF assms(1)] in auto)
qed

lemma find_distinct:
  assumes "distinct (map f xs)" "x \<in> set xs"
  shows "find (\<lambda>y. f y = f x) xs = Some x"
  using assms by (induction xs) (auto simp: image_iff)

lemma map_put_all:
  "distinct (map f xs) \<Longrightarrow> fst ` set m \<inter> f ` set xs = {} \<Longrightarrow> foldl (\<lambda>m p. map_put (f p) p m) m xs = m @ map (\<lambda>p. (f p, p)) xs"
proof (induction xs arbitrary: m)
  case (Cons x xs)
  have new: "k \<notin> fst ` set m \<Longrightarrow> map_put k v m = m @ [(k, v)]" for k v by (induction m) auto
  have "map_put (f x) x m = m @ [(f x, x)]" using Cons.prems by (intro new) auto
  then show ?case using Cons.IH [of "m @ [(f x, x)]"] Cons.prems by auto
qed simp

lemma pool_map_eq: "well_named lc bd \<Longrightarrow> pool_map bd = map (\<lambda>p. (jget p ''id'', p)) (list_of bd ''pools'')"
  unfolding pool_map_def by (subst map_put_all) (simp_all add: well_named_def)

lemma steps_of_pool:
  assumes "well_named lc bd" "x \<in> set (list_of bd ''pools'')"
  shows "steps_at bd (id_of x) = pool_steps x"
proof -
  have d: "distinct (map (\<lambda>p. jget p ''id'') (list_of bd ''pools''))" using assms(1) by (simp add: well_named_def)
  have "map_of (map (\<lambda>p. (jget p ''id'', p)) (list_of bd ''pools'')) (jget x ''id'') = Some x"
    by (rule map_of_is_SomeI) (use assms(2) d in \<open>auto simp: comp_def\<close>)
  then show ?thesis using named_pool_rows [OF assms] by (simp add: steps_at_def pool_map_eq [OF assms(1)])
qed

lemma set_steps_at:
  assumes "well_named lc bd"
  shows "set (steps_at bd v) = {row. \<exists>x \<in> set (list_of bd ''pools''). id_of x = v \<and> row \<in> set (pool_steps x)}"
proof (cases "\<exists>x \<in> set (list_of bd ''pools''). id_of x = v")
  case True
  then obtain x where x: "x \<in> set (list_of bd ''pools'')" "id_of x = v" by blast
  have pools_inj: "inj_on (\<lambda>p. jget p ''id'') (set (list_of bd ''pools''))" using assms by (simp add: well_named_def distinct_map)
  have "y = x" if "y \<in> set (list_of bd ''pools'')" "id_of y = v" for y
  proof -
    have "jget y ''id'' = jget x ''id''" using named_pool_rows [OF assms] x that by metis
    then show ?thesis using x(1) that(1) inj_onD [OF pools_inj] by blast
  qed
  then have only: "{row. \<exists>y \<in> set (list_of bd ''pools''). id_of y = v \<and> row \<in> set (pool_steps y)} = set (pool_steps x)" using x by blast
  have "steps_at bd v = pool_steps x" using steps_of_pool [OF assms x(1)] x(2) by simp
  then show ?thesis by (simp only: only)
next
  case False
  then have "JStr v \<notin> (\<lambda>p. jget p ''id'') ` set (list_of bd ''pools'')" by (auto simp: id_of_def) (metis js_string.simps(5))
  then have "map_of (map (\<lambda>p. (jget p ''id'', p)) (list_of bd ''pools'')) (JStr v) = None" by (auto simp: map_of_eq_None_iff image_iff)
  then show ?thesis using False by (auto simp: steps_at_def pool_map_eq [OF assms])
qed

lemma set_set_pools:
  assumes "well_named lc bd"
  shows "set (set_pools bd v) = {pid. \<exists>x \<in> set (list_of bd ''sets''). id_of x = v \<and> pid \<in> set (list_of x ''pools'')}"
proof (cases "\<exists>x \<in> set (list_of bd ''sets''). id_of x = v")
  case True
  then obtain x where x: "x \<in> set (list_of bd ''sets'')" "id_of x = v" by blast
  have id: "jget x ''id'' = JStr v" using named_set [OF assms x(1)] x(2) by simp
  have sets_inj: "inj_on (\<lambda>p. jget p ''id'') (set (list_of bd ''sets''))" using assms by (simp add: well_named_def distinct_map)
  have same: "y = x" if "y \<in> set (list_of bd ''sets'')" "id_of y = v" for y
  proof -
    have "jget y ''id'' = jget x ''id''" using named_set [OF assms] x that by metis
    then show ?thesis using x(1) that(1) inj_onD [OF sets_inj] by blast
  qed
  have only: "{pid. \<exists>y \<in> set (list_of bd ''sets''). id_of y = v \<and> pid \<in> set (list_of y ''pools'')} = set (list_of x ''pools'')" using x same by blast
  have "find (\<lambda>s. jget s ''id'' = JStr v) (list_of bd ''sets'') = Some x"
    using find_distinct [of "\<lambda>s. jget s ''id''" "list_of bd ''sets''" x] assms x(1) id by (simp add: well_named_def)
  then have "set_pools bd v = list_of x ''pools''" by (simp add: set_pools_def)
  then show ?thesis by (simp only: only)
next
  case False
  then have "find (\<lambda>s. jget s ''id'' = JStr v) (list_of bd ''sets'') = None" by (auto simp: find_None_iff id_of_def)
  then show ?thesis using False by (auto simp: set_pools_def)
qed

section \<open>The way down\<close>

abbreviation puts :: "(lit_path \<Rightarrow> lit_path) \<Rightarrow> string set \<Rightarrow> string set \<Rightarrow> bool" where
  "puts \<equiv> adds (\<lambda>p. True)"

lemma below_step: "below lc bd n = insert n (\<Union>m \<in> {m. (n, m) \<in> set (board_links lc bd)}. below lc bd m)"
  unfolding below_def by (rule ends_from_step)

lemma cables_below_step:
  "cables_below lc bd n = (\<Union>m \<in> {m. (n, m) \<in> set (board_links lc bd)}. link_cables (n, m) \<union> cables_below lc bd m)"
  unfolding cables_below_def by (rule cables_from_step)

lemma puts_light_node: "puts (light_node n) {n} {}"
  by (simp add: adds_def)

lemma puts_light_cable: "puts (light_cable c) {} {c}"
  by (simp add: adds_def)

lemma below_model: "below lc bd (Model_node k) = {Model_node k}" "cables_below lc bd (Model_node k) = {}"
  using below_step [of lc bd "Model_node k"] cables_below_step [of lc bd "Model_node k"] by (simp_all add: link_from)

lemma puts_row:
  assumes named: "well_named lc bd" and x: "x \<in> set (list_of bd ''pools'')" and row: "row \<in> set (pool_steps x)"
  shows "puts (down_row bd (id_of x @ ''/'' @ id_of row)) (node_key ` below lc bd (Row_node (id_of x) (id_of row)))
    (cables_below lc bd (Row_node (id_of x) (id_of row)))"
proof -
  let ?n = "Row_node (id_of x) (id_of row)"
  have ids: "CHR ''/'' \<notin> set (id_of x)" "CHR ''/'' \<notin> set (id_of row)" "jget row ''id'' = JStr (id_of row)"
    using named_pool_rows [OF named x] row by auto
  have d: "distinct (map (\<lambda>r. jget r ''id'') (pool_steps x))" using named x by (auto simp: well_named_def list_all_iff)
  have found: "find (\<lambda>r. jget r ''id'' = JStr (id_of row)) (pool_steps x) = Some row"
    using find_distinct [OF d row] ids(3) by simp
  have one: "target_key r = target_key row" if "y \<in> set (list_of bd ''pools'')" "id_of y = id_of x" "r \<in> set (pool_steps y)" "id_of r = id_of row" for y r
  proof -
    have "r \<in> set (steps_at bd (id_of x))" using that by (auto simp: set_steps_at [OF named])
    then have r: "r \<in> set (pool_steps x)" by (simp add: steps_of_pool [OF named x])
    then have "jget r ''id'' = JStr (id_of row)" using named_pool_rows [OF named x] that(4) by metis
    then have "find (\<lambda>q. jget q ''id'' = JStr (id_of row)) (pool_steps x) = Some r" using find_distinct [OF d r] by simp
    with found show ?thesis by simp
  qed
  have succ: "{m. (?n, m) \<in> set (board_links lc bd)} = (if target_key row = [] then {} else {Model_node (target_key row)})"
  proof -
    have "(?n, m) \<in> set (board_links lc bd) \<longleftrightarrow> target_key row \<noteq> [] \<and> m = Model_node (target_key row)" for m
      unfolding link_from using x row one by metis
    then show ?thesis by simp
  qed
  have b: "below lc bd ?n = insert ?n (if target_key row = [] then {} else {Model_node (target_key row)})"
    by (subst below_step) (simp add: succ below_model)
  have c: "cables_below lc bd ?n = (if target_key row = [] then {} else {''row:'' @ id_of x @ ''/'' @ id_of row})"
    by (subst cables_below_step) (simp add: succ below_model)
  show ?thesis
    unfolding b c adds_def down_row_def Let_def part_plain(1) [OF ids(1)] part_plain(2) [OF ids(1,2)] steps_of_pool [OF named x] found
    by (cases "target_key row = []") (simp_all add: insert_commute)
qed

lemma puts_pool:
  assumes named: "well_named lc bd"
  shows "puts (down_pool bd v) (node_key ` below lc bd (Pool_node v)) (cables_below lc bd (Pool_node v))"
proof -
  have rows: "puts (\<lambda>p. foldl (\<lambda>p row. down_row bd (v @ ''/'' @ id_of row) p) p (steps_at bd v))
      (\<Union>row \<in> set (steps_at bd v). node_key ` below lc bd (Row_node v (id_of row))) (\<Union>row \<in> set (steps_at bd v). cables_below lc bd (Row_node v (id_of row)))"
    by (rule adds_fold) (use puts_row [OF named] in \<open>auto simp: set_steps_at [OF named]\<close>)
  have succ: "{m. (Pool_node v, m) \<in> set (board_links lc bd)} = (\<lambda>row. Row_node v (id_of row)) ` set (steps_at bd v)"
    by (auto simp: link_from set_steps_at [OF named])
  show ?thesis
    unfolding down_pool_def using adds_then [OF puts_light_node rows]
    by (rule adds_cong) (simp_all add: below_step [of lc bd "Pool_node v"] cables_below_step [of lc bd "Pool_node v"] succ image_UN)
qed

definition seated :: "js \<Rightarrow> string \<Rightarrow> string \<Rightarrow> bool" where
  "seated bd s p = (\<exists>x \<in> set (list_of bd ''sets''). id_of x = s \<and> (\<exists>pid \<in> set (list_of x ''pools''). js_string pid = p))"

lemma seated_plain: "well_named lc bd \<Longrightarrow> seated bd s p \<Longrightarrow> CHR ''/'' \<notin> set s \<and> CHR ''/'' \<notin> set p"
  using named_set unfolding seated_def by fastforce

lemma puts_seat:
  assumes named: "well_named lc bd" and on: "seated bd s p"
  shows "puts (down_seat bd (s @ ''/'' @ p)) (node_key ` below lc bd (Seat_node s p)) (insert (''set:'' @ s @ ''/'' @ p) (cables_below lc bd (Seat_node s p)))"
proof -
  have p: "part (s @ ''/'' @ p) 1 = p" using part_plain(2) seated_plain [OF named on] by blast
  have succ: "{m. (Seat_node s p, m) \<in> set (board_links lc bd)} = {Pool_node p}" using on by (auto simp: link_from seated_def)
  show ?thesis
    unfolding down_seat_def p
    using adds_then [OF adds_then [OF puts_light_node [of "''setpool:'' @ s @ ''/'' @ p"] puts_light_cable [of "''set:'' @ s @ ''/'' @ p"]] puts_pool [OF named, of p]]
    by (rule adds_cong) (simp_all add: below_step [of lc bd "Seat_node s p"] cables_below_step [of lc bd "Seat_node s p"] succ)
qed

lemma puts_set:
  assumes named: "well_named lc bd"
  shows "puts (down_set bd v) (node_key ` below lc bd (Set_node v)) (cables_below lc bd (Set_node v))"
proof -
  have seats: "puts (\<lambda>p. foldl (\<lambda>p pid. down_seat bd (v @ ''/'' @ js_string pid) p) p (set_pools bd v))
      (\<Union>pid \<in> set (set_pools bd v). node_key ` below lc bd (Seat_node v (js_string pid)))
      (\<Union>pid \<in> set (set_pools bd v). insert (''set:'' @ v @ ''/'' @ js_string pid) (cables_below lc bd (Seat_node v (js_string pid))))"
    by (rule adds_fold) (rule puts_seat [OF named], auto simp: set_set_pools [OF named] seated_def)
  have succ: "{m. (Set_node v, m) \<in> set (board_links lc bd)} = (\<lambda>pid. Seat_node v (js_string pid)) ` set (set_pools bd v)"
    by (auto simp: link_from set_set_pools [OF named])
  show ?thesis
    unfolding down_set_def using adds_then [OF puts_light_node seats]
    by (rule adds_cong) (simp_all add: below_step [of lc bd "Set_node v"] cables_below_step [of lc bd "Set_node v"] succ image_UN)
qed

lemma puts_client:
  assumes named: "well_named lc bd"
  shows "puts (down_client lc bd v) (node_key ` below lc bd (Client_node v)) (cables_below lc bd (Client_node v))"
proof (cases "find (\<lambda>c. js_string (jget c ''port'') = v) (consumers_of lc bd)")
  case None
  then have "{m. (Client_node v, m) \<in> set (board_links lc bd)} = {}" by (auto simp: link_from find_None_iff)
  then show ?thesis
    by (simp add: below_step [of lc bd "Client_node v"] cables_below_step [of lc bd "Client_node v"] down_client_def None adds_def)
next
  case (Some c)
  then have c: "c \<in> set (consumers_of lc bd)" "js_string (jget c ''port'') = v" by (auto dest: find_SomeD)
  have d: "distinct (map (\<lambda>c. js_string (jget c ''port'')) (consumers_of lc bd))" using named by (simp add: well_named_def)
  have one: "y = c" if "y \<in> set (consumers_of lc bd)" "js_string (jget y ''port'') = v" for y
    using find_distinct [OF d that(1)] that(2) Some by simp
  have succ: "{m. (Client_node v, m) \<in> set (board_links lc bd)} = (if js_truthy (jget c ''set'') then {Set_node (js_string (jget c ''set''))} else {})"
  proof -
    have "(Client_node v, m) \<in> set (board_links lc bd) \<longleftrightarrow> js_truthy (jget c ''set'') \<and> m = Set_node (js_string (jget c ''set''))" for m
      unfolding link_from using c one by metis
    then show ?thesis by simp
  qed
  show ?thesis
  proof (cases "js_truthy (jget c ''set'')")
    case True
    have "puts (\<lambda>p. down_set bd (js_string (jget c ''set'')) (light_cable (''client:'' @ v) (light_node (''client:'' @ v) p)))
        (node_key ` below lc bd (Client_node v)) (cables_below lc bd (Client_node v))"
      by (rule adds_cong [OF adds_then [OF adds_then [OF puts_light_node puts_light_cable] puts_set [OF named]]])
        (simp_all add: below_step [of lc bd "Client_node v"] cables_below_step [of lc bd "Client_node v"] succ True)
    then show ?thesis using True Some by (simp add: adds_def down_client_def Let_def)
  next
    case False
    then show ?thesis
      by (simp add: below_step [of lc bd "Client_node v"] cables_below_step [of lc bd "Client_node v"] succ down_client_def Some adds_def)
  qed
qed

section \<open>The way up\<close>

text \<open>A node the walk has met has its way up lit already: for the nodes of the first columns, up to a rank.\<close>

definition known :: "compare \<Rightarrow> js \<Rightarrow> nat \<Rightarrow> lit_path \<Rightarrow> bool" where
  "known lc bd j p \<longleftrightarrow> (\<forall>n. slashless n \<and> rank n \<le> j \<and> node_key n \<in> set (lp_nodes p) \<longrightarrow>
     node_key ` above lc bd n \<subseteq> set (lp_nodes p) \<and> cables_above lc bd n \<subseteq> set (lp_cables p))"

lemma above_step: "above lc bd n = insert n (\<Union>m \<in> {m. (m, n) \<in> set (board_links lc bd)}. above lc bd m)"
  unfolding above_def by (subst ends_from_step) simp

lemma cables_above_step:
  "cables_above lc bd n = (\<Union>m \<in> {m. (m, n) \<in> set (board_links lc bd)}. link_cables (m, n) \<union> cables_above lc bd m)"
  unfolding cables_above_def by (subst cables_from_step) simp

lemma known_grow:
  assumes "well_named lc bd" "known lc bd k p" "slashless n"
    and "set (lp_nodes p') = set (lp_nodes p) \<union> node_key ` above lc bd n" "set (lp_cables p') = set (lp_cables p) \<union> cables_above lc bd n"
  shows "known lc bd k p'"
  unfolding known_def
proof (intro allI impI)
  fix m assume m: "slashless m \<and> rank m \<le> k \<and> node_key m \<in> set (lp_nodes p')"
  show "node_key ` above lc bd m \<subseteq> set (lp_nodes p') \<and> cables_above lc bd m \<subseteq> set (lp_cables p')"
  proof (cases "node_key m \<in> set (lp_nodes p)")
    case True
    then show ?thesis using assms(2,4,5) m by (auto simp: known_def)
  next
    case False
    then obtain m' where m': "m' \<in> above lc bd n" "node_key m' = node_key m" using m assms(4) by auto
    have "m' = m" by (rule node_key_inj [OF _ _ m'(2)]) (use above_slashless [OF assms(1,3) m'(1)] m in auto)
    then have "above lc bd m \<subseteq> above lc bd n" "cables_above lc bd m \<subseteq> cables_above lc bd n"
      using m'(1) ends_from_trans cables_from_trans unfolding above_def cables_above_def by metis+
    then show ?thesis using assms(4,5) by blast
  qed
qed

lemma known_less: "known lc bd k p \<Longrightarrow> j \<le> k \<Longrightarrow> known lc bd j p"
  by (auto simp: known_def)

lemma known_light_node: "known lc bd j p \<Longrightarrow> slashless n \<Longrightarrow> j < rank n \<Longrightarrow> known lc bd j (light_node (node_key n) p)"
  unfolding known_def
proof (intro allI impI)
  fix m
  assume p: "\<forall>n. slashless n \<and> rank n \<le> j \<and> node_key n \<in> set (lp_nodes p) \<longrightarrow> node_key ` above lc bd n \<subseteq> set (lp_nodes p) \<and> cables_above lc bd n \<subseteq> set (lp_cables p)"
    and n: "slashless n" "j < rank n" and m: "slashless m \<and> rank m \<le> j \<and> node_key m \<in> set (lp_nodes (light_node (node_key n) p))"
  have "node_key m \<noteq> node_key n" using node_key_inj [of m n] m n by auto
  then have "node_key m \<in> set (lp_nodes p)" using m by simp
  then show "node_key ` above lc bd m \<subseteq> set (lp_nodes (light_node (node_key n) p)) \<and> cables_above lc bd m \<subseteq> set (lp_cables (light_node (node_key n) p))"
    using p m by auto
qed

lemma adds_enter:
  assumes named: "well_named lc bd" and n: "slashless n" "rank n = Suc j" and go: "adds (known lc bd j) go A C"
    and A: "node_key ` above lc bd n = insert (node_key n) A" and C: "cables_above lc bd n = C"
  shows "adds (known lc bd (Suc j)) (enter key (node_key n) go) (node_key ` above lc bd n) (cables_above lc bd n)"
  unfolding adds_def
proof (intro allI impI)
  fix p assume p: "known lc bd (Suc j) p"
  let ?p = "enter key (node_key n) go p"
  have eqs: "set (lp_nodes ?p) = set (lp_nodes p) \<union> node_key ` above lc bd n" "set (lp_cables ?p) = set (lp_cables p) \<union> cables_above lc bd n"
  proof -
    have "known lc bd j (light_node (node_key n) p)" using known_light_node [OF known_less [OF p] n(1)] n(2) by simp
    then have go': "set (lp_nodes (go (light_node (node_key n) p))) = set (lp_nodes p) \<union> node_key ` above lc bd n"
        "set (lp_cables (go (light_node (node_key n) p))) = set (lp_cables p) \<union> cables_above lc bd n"
      using go by (auto simp: adds_def A C)
    have met: "node_key n \<in> set (lp_nodes p) \<Longrightarrow> node_key ` above lc bd n \<subseteq> set (lp_nodes p) \<and> cables_above lc bd n \<subseteq> set (lp_cables p)"
      using p n by (simp add: known_def)
    show "set (lp_nodes ?p) = set (lp_nodes p) \<union> node_key ` above lc bd n"
      using go'(1) met by (auto simp: enter_def)
    show "set (lp_cables ?p) = set (lp_cables p) \<union> cables_above lc bd n"
      using go'(2) met by (auto simp: enter_def)
  qed
  then show "known lc bd (Suc j) ?p \<and> set (lp_nodes ?p) = set (lp_nodes p) \<union> node_key ` above lc bd n
      \<and> set (lp_cables ?p) = set (lp_cables p) \<union> cables_above lc bd n"
    using known_grow [OF named p n(1)] by simp
qed

lemma adds_known_cable: "adds (known lc bd j) (light_cable c) {} {c}"
  by (auto simp: adds_def known_def)

lemma above_client: "above lc bd (Client_node c) = {Client_node c}" "cables_above lc bd (Client_node c) = {}"
  by (simp_all add: above_step [of lc bd "Client_node c"] cables_above_step [of lc bd "Client_node c"] link_to)

lemma adds_client:
  "adds (known lc bd 0) (\<lambda>p. light_cable (port_key c) (light_node (port_key c) p)) {port_key c} {port_key c}"
  unfolding adds_def
proof (intro allI impI)
  fix p assume p: "known lc bd 0 p"
  have "known lc bd 0 (light_cable (port_key c) (light_node (port_key c) p))"
    unfolding known_def
  proof (intro allI impI)
    fix n assume n: "slashless n \<and> rank n \<le> 0 \<and> node_key n \<in> set (lp_nodes (light_cable (port_key c) (light_node (port_key c) p)))"
    then obtain v where "n = Client_node v" by (cases n) auto
    then show "node_key ` above lc bd n \<subseteq> set (lp_nodes (light_cable (port_key c) (light_node (port_key c) p)))
        \<and> cables_above lc bd n \<subseteq> set (lp_cables (light_cable (port_key c) (light_node (port_key c) p)))"
      using n by (simp add: above_client)
  qed
  then show "known lc bd 0 (light_cable (port_key c) (light_node (port_key c) p))
      \<and> set (lp_nodes (light_cable (port_key c) (light_node (port_key c) p))) = set (lp_nodes p) \<union> {port_key c}
      \<and> set (lp_cables (light_cable (port_key c) (light_node (port_key c) p))) = set (lp_cables p) \<union> {port_key c}"
    by simp
qed

lemma up_set_adds:
  assumes named: "well_named lc bd" and v: "v \<noteq> []"
  shows "adds (known lc bd 1) (up_set key lc bd v) (node_key ` above lc bd (Set_node v)) (cables_above lc bd (Set_node v))"
proof -
  let ?here = "\<lambda>c. js_text (jget c ''set'') = v"
  have here: "?here c \<longleftrightarrow> js_truthy (jget c ''set'') \<and> js_string (jget c ''set'') = v" for c
    using v by (auto simp: js_text_def js_or_def)
  have clients: "adds (known lc bd 0) (\<lambda>p. foldl (\<lambda>p c. if ?here c then light_cable (port_key c) (light_node (port_key c) p) else p) p (consumers_of lc bd))
      (\<Union>c \<in> set (consumers_of lc bd). if ?here c then {port_key c} else {}) (\<Union>c \<in> set (consumers_of lc bd). if ?here c then {port_key c} else {})"
    by (rule adds_fold) (rule adds_if, rule adds_client)
  have pred: "{m. (m, Set_node v) \<in> set (board_links lc bd)} = (\<lambda>c. Client_node (js_string (jget c ''port''))) ` {c \<in> set (consumers_of lc bd). ?here c}"
    by (auto simp: link_to here)
  have "adds (known lc bd (Suc 0)) (enter key (node_key (Set_node v))
      (\<lambda>p. foldl (\<lambda>p c. if ?here c then light_cable (port_key c) (light_node (port_key c) p) else p) p (consumers_of lc bd)))
      (node_key ` above lc bd (Set_node v)) (cables_above lc bd (Set_node v))"
  proof (rule adds_enter [OF named _ _ clients])
    show "node_key ` above lc bd (Set_node v) = insert (node_key (Set_node v)) (\<Union>c \<in> set (consumers_of lc bd). if ?here c then {port_key c} else {})"
      by (subst above_step) (auto simp: pred image_UN above_client port_key_def split: if_splits)
    show "cables_above lc bd (Set_node v) = (\<Union>c \<in> set (consumers_of lc bd). if ?here c then {port_key c} else {})"
      by (subst cables_above_step) (auto simp: pred above_client port_key_def)
  qed simp_all
  then show ?thesis by (simp add: up_set_def)
qed

lemma up_seat_adds:
  assumes named: "well_named lc bd" and on: "seated bd s p"
  shows "adds (known lc bd 2) (up_seat key lc bd (s @ ''/'' @ p)) (node_key ` above lc bd (Seat_node s p)) (cables_above lc bd (Seat_node s p))"
proof -
  have s: "CHR ''/'' \<notin> set s" "s \<noteq> []"
  proof -
    obtain x where x: "x \<in> set (list_of bd ''sets'')" "id_of x = s" using on by (auto simp: seated_def)
    have "plain (jget x ''id'')" using named x(1) by (simp add: well_named_def list_all_iff)
    then show "CHR ''/'' \<notin> set s" "s \<noteq> []" using plain_text x(2) unfolding id_of_def by blast+
  qed
  have go: "adds (known lc bd 1) (\<lambda>q. light_cable (''set:'' @ s @ ''/'' @ p) (up_set key lc bd s q))
      (node_key ` above lc bd (Set_node s)) (insert (''set:'' @ s @ ''/'' @ p) (cables_above lc bd (Set_node s)))"
    by (rule adds_cong [OF adds_then [OF up_set_adds [OF named s(2)] adds_known_cable]]) simp_all
  have pred: "{m. (m, Seat_node s p) \<in> set (board_links lc bd)} = {Set_node s}" using on by (auto simp: link_to seated_def)
  have "adds (known lc bd (Suc 1)) (enter key (node_key (Seat_node s p)) (\<lambda>q. light_cable (''set:'' @ s @ ''/'' @ p) (up_set key lc bd s q)))
      (node_key ` above lc bd (Seat_node s p)) (cables_above lc bd (Seat_node s p))"
    by (rule adds_enter [OF named _ _ go]) (simp_all add: s above_step [of lc bd "Seat_node s p"] cables_above_step [of lc bd "Seat_node s p"] pred)
  then show ?thesis unfolding up_seat_def part_plain(1) [OF s(1)] by (simp add: numeral_2_eq_2)
qed

lemma up_pool_adds:
  assumes named: "well_named lc bd"
  shows "adds (known lc bd 3) (up_pool key lc bd v) (node_key ` above lc bd (Pool_node v)) (cables_above lc bd (Pool_node v))"
proof -
  let ?in = "\<lambda>x. JStr v \<in> set (list_of x ''pools'')"
  let ?go = "\<lambda>p. foldl (\<lambda>p x. if ?in x then up_seat key lc bd (id_of x @ ''/'' @ v) p else p) p (list_of bd ''sets'')"
  have seat: "adds (known lc bd 2) (\<lambda>p. if ?in x then up_seat key lc bd (id_of x @ ''/'' @ v) p else p)
      (if ?in x then node_key ` above lc bd (Seat_node (id_of x) v) else {}) (if ?in x then cables_above lc bd (Seat_node (id_of x) v) else {})"
    if "x \<in> set (list_of bd ''sets'')" for x
  proof (cases "?in x")
    case True
    then have "seated bd (id_of x) v" using that unfolding seated_def by (metis js_string.simps(5))
    then show ?thesis using True up_seat_adds [OF named] by simp
  qed (simp add: adds_def)
  have go: "adds (known lc bd 2) ?go (\<Union>x \<in> set (list_of bd ''sets''). if ?in x then node_key ` above lc bd (Seat_node (id_of x) v) else {})
      (\<Union>x \<in> set (list_of bd ''sets''). if ?in x then cables_above lc bd (Seat_node (id_of x) v) else {})"
    by (rule adds_fold) (rule seat)
  have pred: "{m. (m, Pool_node v) \<in> set (board_links lc bd)} = (\<lambda>x. Seat_node (id_of x) v) ` {x \<in> set (list_of bd ''sets''). ?in x}"
  proof -
    have "(\<exists>pid \<in> set (list_of x ''pools''). js_string pid = v) \<longleftrightarrow> ?in x" if "x \<in> set (list_of bd ''sets'')" for x
      using named_set [OF named that] by (metis js_string.simps(5))
    then show ?thesis by (auto simp: link_to)
  qed
  have "adds (known lc bd (Suc 2)) (enter key (node_key (Pool_node v)) ?go) (node_key ` above lc bd (Pool_node v)) (cables_above lc bd (Pool_node v))"
  proof (rule adds_enter [OF named _ _ go])
    show "node_key ` above lc bd (Pool_node v) = insert (node_key (Pool_node v))
        (\<Union>x \<in> set (list_of bd ''sets''). if ?in x then node_key ` above lc bd (Seat_node (id_of x) v) else {})"
      by (subst above_step) (auto simp: pred)
    show "cables_above lc bd (Pool_node v) = (\<Union>x \<in> set (list_of bd ''sets''). if ?in x then cables_above lc bd (Seat_node (id_of x) v) else {})"
      by (subst cables_above_step) (auto simp: pred)
  qed simp_all
  then show ?thesis by (simp add: up_pool_def numeral_3_eq_3 numeral_2_eq_2)
qed

lemma up_row_adds:
  assumes named: "well_named lc bd" and x: "x \<in> set (list_of bd ''pools'')" and row: "row \<in> set (pool_steps x)"
  shows "adds (known lc bd 4) (up_row key lc bd (id_of x @ ''/'' @ id_of row))
    (node_key ` above lc bd (Row_node (id_of x) (id_of row))) (cables_above lc bd (Row_node (id_of x) (id_of row)))"
proof -
  let ?n = "Row_node (id_of x) (id_of row)"
  have s: "CHR ''/'' \<notin> set (id_of x)" using named_pool_rows [OF named x] by simp
  have pred: "{m. (m, ?n) \<in> set (board_links lc bd)} = {Pool_node (id_of x)}" using x row by (auto simp: link_to)
  have "adds (known lc bd (Suc 3)) (enter key (node_key ?n) (up_pool key lc bd (id_of x))) (node_key ` above lc bd ?n) (cables_above lc bd ?n)"
    by (rule adds_enter [OF named _ _ up_pool_adds [OF named]]) (simp_all add: s above_step [of lc bd ?n] cables_above_step [of lc bd ?n] pred)
  then show ?thesis unfolding up_row_def part_plain(1) [OF s] by simp
qed

lemma up_model_adds:
  assumes named: "well_named lc bd" and v: "v \<noteq> []"
  shows "adds (known lc bd 5) (up_model key lc bd v) (node_key ` above lc bd (Model_node v)) (cables_above lc bd (Model_node v))"
proof -
  let ?rk = "\<lambda>x row. id_of x @ ''/'' @ id_of row"
  let ?A = "\<lambda>x row. if target_key row = v then node_key ` above lc bd (Row_node (id_of x) (id_of row)) else {}"
  let ?C = "\<lambda>x row. if target_key row = v then insert (''row:'' @ ?rk x row) (cables_above lc bd (Row_node (id_of x) (id_of row))) else {}"
  let ?row = "\<lambda>x p row. if target_key row = v then up_row key lc bd (?rk x row) (light_cable (''row:'' @ ?rk x row) p) else p"
  have row: "adds (known lc bd 4) (\<lambda>p. ?row x p row) (?A x row) (?C x row)" if "x \<in> set (list_of bd ''pools'')" "row \<in> set (pool_steps x)" for x row
  proof (cases "target_key row = v")
    case True
    have "adds (known lc bd 4) (\<lambda>p. up_row key lc bd (?rk x row) (light_cable (''row:'' @ ?rk x row) p))
        (node_key ` above lc bd (Row_node (id_of x) (id_of row))) (insert (''row:'' @ ?rk x row) (cables_above lc bd (Row_node (id_of x) (id_of row))))"
      by (rule adds_cong [OF adds_then [OF adds_known_cable up_row_adds [OF named that]]]) simp_all
    then show ?thesis using True by simp
  qed (simp add: adds_def)
  have go: "adds (known lc bd 4) (\<lambda>p. foldl (\<lambda>p x. foldl (?row x) p (pool_steps x)) p (list_of bd ''pools''))
      (\<Union>x \<in> set (list_of bd ''pools''). \<Union>row \<in> set (pool_steps x). ?A x row) (\<Union>x \<in> set (list_of bd ''pools''). \<Union>row \<in> set (pool_steps x). ?C x row)"
    by (intro adds_fold row)
  have pred: "{m. (m, Model_node v) \<in> set (board_links lc bd)} =
      (\<Union>x \<in> set (list_of bd ''pools''). (\<lambda>row. Row_node (id_of x) (id_of row)) ` {row \<in> set (pool_steps x). target_key row = v})"
    using v by (auto simp: link_to)
  have "adds (known lc bd (Suc 4)) (enter key (node_key (Model_node v)) (\<lambda>p. foldl (\<lambda>p x. foldl (?row x) p (pool_steps x)) p (list_of bd ''pools'')))
      (node_key ` above lc bd (Model_node v)) (cables_above lc bd (Model_node v))"
  proof (rule adds_enter [OF named _ _ go])
    show "node_key ` above lc bd (Model_node v) = insert (node_key (Model_node v)) (\<Union>x \<in> set (list_of bd ''pools''). \<Union>row \<in> set (pool_steps x). ?A x row)"
      unfolding above_step [of lc bd "Model_node v"] pred by (simp add: image_UN image_insert) blast
    show "cables_above lc bd (Model_node v) = (\<Union>x \<in> set (list_of bd ''pools''). \<Union>row \<in> set (pool_steps x). ?C x row)"
      unfolding cables_above_step [of lc bd "Model_node v"] pred by auto
  qed simp_all
  moreover have "up_model key lc bd v = enter key (node_key (Model_node v)) (\<lambda>p. foldl (\<lambda>p x. foldl (?row x) p (pool_steps x)) p (list_of bd ''pools''))"
    by (simp only: up_model_def Let_def pool_map_eq [OF named] foldl_map prod.case id_of_def node_key.simps)
  ultimately show ?thesis by simp
qed

section \<open>The path\<close>

lemma known_start: "known lc bd j \<lparr>lp_nodes = [], lp_cables = []\<rparr>"
  by (simp add: known_def)

lemma adds_start:
  "adds (known lc bd j) f A C \<Longrightarrow> set (lp_nodes (f \<lparr>lp_nodes = [], lp_cables = []\<rparr>)) = A \<and> set (lp_cables (f \<lparr>lp_nodes = [], lp_cables = []\<rparr>)) = C"
  using known_start by (auto simp: adds_def)

lemma on_board_seat: "on_board lc bd (Seat_node s p) \<longleftrightarrow> seated bd s p"
  by (auto simp: on_board_def link_from seated_def)

lemma path_up_start:
  assumes named: "well_named lc bd" and on: "on_board lc bd n"
  shows "set (lp_nodes (path_up lc bd (node_key n) \<lparr>lp_nodes = [], lp_cables = []\<rparr>)) = node_key ` above lc bd n
    \<and> set (lp_cables (path_up lc bd (node_key n) \<lparr>lp_nodes = [], lp_cables = []\<rparr>)) = cables_above lc bd n"
proof (cases n)
  case (Client_node c)
  then show ?thesis by (simp add: path_up_def Let_def enter_def above_client del: append.simps)
next
  case (Set_node v)
  then have "v \<noteq> []" using on by (simp add: on_board_def)
  from adds_start [OF up_set_adds [OF named this]] show ?thesis by (simp add: Set_node path_up_def Let_def del: append.simps)
next
  case (Seat_node s p)
  then have "seated bd s p" using on on_board_seat by simp
  from adds_start [OF up_seat_adds [OF named this]] show ?thesis by (simp add: Seat_node path_up_def Let_def del: append.simps)
next
  case (Pool_node v)
  from adds_start [OF up_pool_adds [OF named]] show ?thesis by (simp add: Pool_node path_up_def Let_def del: append.simps)
next
  case (Row_node p r)
  then obtain x row where x: "x \<in> set (list_of bd ''pools'')" "row \<in> set (pool_steps x)" "p = id_of x" "r = id_of row"
    using on by (auto simp: on_board_def link_from)
  from adds_start [OF up_row_adds [OF named x(1,2)]] show ?thesis by (simp add: Row_node x(3,4) path_up_def Let_def del: append.simps)
next
  case (Model_node v)
  then have "v \<noteq> []" using on by (simp add: on_board_def)
  from adds_start [OF up_model_adds [OF named this]] show ?thesis by (simp add: Model_node path_up_def Let_def del: append.simps)
qed

text \<open>Going down from a set's row its own cable is named again: it is the one above it.\<close>

definition own_cable :: "board_node \<Rightarrow> string set" where
  "own_cable n = (case n of Seat_node s p \<Rightarrow> {''set:'' @ s @ ''/'' @ p} | _ \<Rightarrow> {})"

lemma path_down_puts:
  assumes named: "well_named lc bd" and on: "on_board lc bd n"
  shows "puts (path_down lc bd (node_key n)) (node_key ` below lc bd n) (own_cable n \<union> cables_below lc bd n)"
proof (cases n)
  case (Client_node c)
  then show ?thesis using puts_client [OF named] by (simp add: path_down_def Let_def own_cable_def del: append.simps)
next
  case (Set_node v)
  then show ?thesis using puts_set [OF named] by (simp add: path_down_def Let_def own_cable_def del: append.simps)
next
  case (Seat_node s p)
  then have "seated bd s p" using on on_board_seat by simp
  from puts_seat [OF named this] show ?thesis by (simp add: Seat_node path_down_def Let_def own_cable_def del: append.simps)
next
  case (Pool_node v)
  then show ?thesis using puts_pool [OF named] by (simp add: path_down_def Let_def own_cable_def del: append.simps)
next
  case (Row_node p r)
  then obtain x row where x: "x \<in> set (list_of bd ''pools'')" "row \<in> set (pool_steps x)" "p = id_of x" "r = id_of row"
    using on by (auto simp: on_board_def link_from)
  from puts_row [OF named x(1,2)] show ?thesis by (simp add: Row_node x(3,4) path_down_def Let_def own_cable_def del: append.simps)
next
  case (Model_node k)
  then show ?thesis by (simp add: path_down_def Let_def own_cable_def below_model puts_light_node del: append.simps)
qed

lemma own_cable_above: "on_board lc bd n \<Longrightarrow> own_cable n \<subseteq> cables_above lc bd n"
proof (cases n)
  case (Seat_node s p)
  moreover assume "on_board lc bd n"
  ultimately have "(Set_node s, n) \<in> set (board_links lc bd)" by (simp add: on_board_def)
  then have "link_cables (Set_node s, n) \<subseteq> cables_above lc bd n" by (subst cables_above_step) blast
  then show ?thesis by (simp add: Seat_node own_cable_def)
qed (simp_all add: own_cable_def)

lemma in_union_pairs: "c \<in> \<Union>{f a b |a b. P a b} \<longleftrightarrow> (\<exists>a b. P a b \<and> c \<in> f a b)"
  by blast

lemma node_named: "on_board lc bd n \<Longrightarrow> node_kind (node_key n) \<noteq> [] \<and> node_id (node_key n) \<noteq> []"
  by (cases n) (simp_all add: on_board_def del: append.simps)

text \<open>(C40) 
  The path through a card of the board is what its cables reach: the cards up to the clients that lead to it and down to the
  models it leads to, and no card beside; its cables are those between them.
\<close>

theorem bp_path_is_what_the_cables_reach:
  assumes "well_named lc bd" "on_board lc bd n"
  shows "set (lp_nodes (board_path lc bd (node_key n))) =
      node_key ` {m. (n, m) \<in> (set (board_links lc bd))\<^sup>* \<or> (m, n) \<in> (set (board_links lc bd))\<^sup>*}
    \<and> set (lp_cables (board_path lc bd (node_key n))) =
      \<Union>{link_cables (a, b) |a b. (a, b) \<in> set (board_links lc bd)
          \<and> ((b, n) \<in> (set (board_links lc bd))\<^sup>* \<or> (n, a) \<in> (set (board_links lc bd))\<^sup>*)}"
proof -
  let ?p = "path_up lc bd (node_key n) \<lparr>lp_nodes = [], lp_cables = []\<rparr>"
  have path: "board_path lc bd (node_key n) = path_down lc bd (node_key n) ?p"
    using node_named [OF assms(2)] by (simp add: board_path_def Let_def)
  have up: "set (lp_nodes ?p) = node_key ` above lc bd n" "set (lp_cables ?p) = cables_above lc bd n"
    using path_up_start [OF assms] by simp_all
  have nodes: "set (lp_nodes (board_path lc bd (node_key n))) = node_key ` above lc bd n \<union> node_key ` below lc bd n"
    and cables: "set (lp_cables (board_path lc bd (node_key n))) = cables_above lc bd n \<union> cables_below lc bd n"
    using path_down_puts [OF assms] own_cable_above [OF assms(2)] by (auto simp: path adds_def up)
  have "above lc bd n = {m. (m, n) \<in> (set (board_links lc bd))\<^sup>*}" "below lc bd n = {m. (n, m) \<in> (set (board_links lc bd))\<^sup>*}"
    by (simp_all add: above_def below_def ends_from_def rtrancl_converse)
  moreover have "c \<in> cables_above lc bd n \<longleftrightarrow> (\<exists>a b. (a, b) \<in> set (board_links lc bd) \<and> (b, n) \<in> (set (board_links lc bd))\<^sup>* \<and> c \<in> link_cables (a, b))" for c
    unfolding cables_above_def in_cables_from rtrancl_converse by blast
  then have "cables_above lc bd n = \<Union>{link_cables (a, b) |a b. (a, b) \<in> set (board_links lc bd) \<and> (b, n) \<in> (set (board_links lc bd))\<^sup>*}"
    by (intro set_eqI) (simp only: in_union_pairs conj_assoc)
  moreover have "cables_below lc bd n = \<Union>{link_cables (a, b) |a b. (a, b) \<in> set (board_links lc bd) \<and> (n, a) \<in> (set (board_links lc bd))\<^sup>*}"
    unfolding cables_below_def cables_from_def ..
  ultimately show ?thesis
    unfolding nodes cables by (intro conjI set_eqI) (auto simp only: in_union_pairs Un_iff image_Un [symmetric] Collect_disj_eq [symmetric] disj_commute)
qed

definition shared_model :: js where
  "shared_model = JObj [(''proxies'', JArr [JObj [(''kind'', JStr ''consumer''), (''port'', JStr ''8''), (''set'', JStr ''s'')]]),
     (''sets'', JArr [JObj [(''id'', JStr ''s''), (''pools'', JArr [JStr ''p''])]]),
     (''pools'', JArr [JObj [(''id'', JStr ''p''), (''steps'', JArr [JObj [(''id'', JStr ''a''), (''output'', JStr ''x'')]])],
        JObj [(''id'', JStr ''q''), (''steps'', JArr [JObj [(''id'', JStr ''b''), (''output'', JStr ''x'')]])]])]"

lemma shared_model_named: "well_named by_length shared_model" "on_board by_length shared_model (Pool_node ''p'')"
  by code_simp+

lemma bp_path_is_what_the_cables_reach_witness:
  "set (lp_nodes (board_path by_length shared_model (node_key (Pool_node ''p'')))) =
      node_key ` {m. (Pool_node ''p'', m) \<in> (set (board_links by_length shared_model))\<^sup>* \<or> (m, Pool_node ''p'') \<in> (set (board_links by_length shared_model))\<^sup>*}"
  using bp_path_is_what_the_cables_reach [OF shared_model_named] by (rule conjunct1)

lemma shared_model_path:
  "lp_nodes (board_path by_length shared_model ''pool:p'') = [''pool:p'', ''setpool:s/p'', ''set:s'', ''client:8'', ''row:p/a'', ''model:out:x'']"
  by code_simp

end
