(* ===== verification/BoardCables.thy ===== *)
theory BoardCables
  imports BoardReads
begin

text \<open>
  The cables of Routing's board as they are drawn (\<open>drawCables\<close> in \<open>pool-board.js\<close>): which there are by what the controller keeps,
  where each runs, which carry a request and which could not be placed. Where a dot stands in the window is the argument
  \<open>dots\<close>: no place for a dot that is not on the page.
\<close>

section \<open>What a row is cabled to\<close>

definition cloud_mark :: string where
  "cloud_mark = [CHR 0xE2, CHR 0x98, CHR 0x81]"

definition gone_target :: "string \<Rightarrow> string \<Rightarrow> string" where
  "gone_target title inner = ''<span class=\"pb-target gone\"'' @ title @ ''>'' @ inner @ ''</span>''"

definition target_html :: "dict \<Rightarrow> (js \<Rightarrow> string) \<Rightarrow> js \<Rightarrow> js \<Rightarrow> string" where
  "target_html t ml bd row =
     (if jget row ''kind'' = JStr ''account'' then
        (let account = board_account bd (jget row ''accountId''); model = escape_html (js_text (jget row ''model'')) in
         if \<not> js_truthy account
         then gone_target ('' title=\"'' @ model @ ''\"'') (''<b>'' @ model @ ''</b><small>'' @ escape_html (t ''poolAccountGone'' []) @ ''</small>'')
         else ''<span class=\"pb-target\" title=\"'' @ model @ ''\"><b>'' @ model @ ''</b><small>'' @ cloud_mark @ '' ''
           @ escape_html (js_string (js_or (jget account ''name'') (jget account ''id''))) @ ''</small></span>'')
      else if jget row ''kind'' = JStr ''output'' then
        (case board_output bd (jget row ''output'') of
           None \<Rightarrow> gone_target [] (''<b>'' @ escape_html (js_string (jget row ''output'')) @ ''</b><small>'' @ escape_html (t ''poolOutputMissing'' []) @ ''</small>'')
         | Some (out, g) \<Rightarrow> (let name = escape_html (oc_row_name ml bd out) in
             ''<span class=\"pb-target\" title=\"'' @ name @ ''\"><b>'' @ name @ ''</b><small>'' @ escape_html (out_where out g) @ ''</small></span>''))
      else ''<span class=\"pb-target open\">'' @ escape_html (t ''pbRowOpen'' []) @ ''</span>'')"

definition target_known :: "js \<Rightarrow> js \<Rightarrow> bool" where
  "target_known bd row =
     (if jget row ''kind'' = JStr ''account'' then js_truthy (board_account bd (jget row ''accountId''))
      else if jget row ''kind'' = JStr ''output'' then board_output bd (jget row ''output'') \<noteq> None else False)"

section \<open>The cables there are\<close>

datatype board_dot = Client_dot string | Set_in string | Seat_dot string string | Pool_in string | Row_dot string string | Model_in string

record board_cable =
  bc_key :: string
  bc_what :: string
  bc_attrs :: string
  bc_title :: string
  bc_lit :: bool
  bc_from :: board_dot
  bc_to :: board_dot
  bc_known :: bool

definition right_arrow :: string where
  "right_arrow = '' '' @ [CHR 0xE2, CHR 0x86, CHR 0x92] @ '' ''"

definition client_wire :: "js \<Rightarrow> board_cable" where
  "client_wire c =
     (let s = js_text (jget c ''set''); port = js_string (jget c ''port'') in
      \<lparr>bc_key = ''client:'' @ port, bc_what = ''client '' @ js_string (jget c ''label'') @ '' -> set '' @ s,
       bc_attrs = ''data-pb-cable=\"client\" data-port=\"'' @ escape_html port @ ''\" data-pb-cable-key=\"client:'' @ escape_html port @ ''\"'',
       bc_title = js_string (jget c ''label'') @ right_arrow @ js_string (js_or (jget c ''setName'') (JStr s)), bc_lit = False,
       bc_from = Client_dot port, bc_to = Set_in s, bc_known = True\<rparr>)"

definition pool_named :: "js \<Rightarrow> js \<Rightarrow> js" where
  "pool_named bd pid = js_or (jget (find_id (list_of bd ''pools'') pid) ''name'') pid"

definition seat_cable :: "js \<Rightarrow> js \<Rightarrow> js \<Rightarrow> board_cable" where
  "seat_cable bd st pid =
     (let s = js_string (jget st ''id''); p = js_string pid in
      \<lparr>bc_key = ''set:'' @ s @ ''/'' @ p, bc_what = ''set '' @ s @ '' -> pool '' @ p,
       bc_attrs = ''data-pb-cable=\"set\" data-set=\"'' @ escape_html s @ ''\" data-pool=\"'' @ escape_html p @ ''\" data-pb-cable-key=\"set:''
         @ escape_html s @ ''/'' @ escape_html p @ ''\"'',
       bc_title = js_string (js_or (jget st ''name'') (jget st ''id'')) @ right_arrow @ js_string (pool_named bd pid), bc_lit = False,
       bc_from = Seat_dot s p, bc_to = Pool_in p, bc_known = True\<rparr>)"

definition row_cable :: "dict \<Rightarrow> (js \<Rightarrow> string) \<Rightarrow> js \<Rightarrow> js \<Rightarrow> js \<Rightarrow> board_cable" where
  "row_cable t ml bd pool row =
     (let p = js_string (jget pool ''id''); r = js_string (jget row ''id''); key = target_key row;
          serving = (if js_truthy (jget (pools_runtime bd) ''available'') then jget (pool_state bd pool) ''selectedStepId'' else JNull) in
      \<lparr>bc_key = ''row:'' @ p @ ''/'' @ r, bc_what = ''pool '' @ p @ '' row '' @ r @ '' -> '' @ key,
       bc_attrs = ''data-pb-cable=\"row\" data-pool=\"'' @ escape_html p @ ''\" data-row=\"'' @ escape_html r @ ''\" data-pb-cable-key=\"row:''
         @ escape_html p @ ''/'' @ escape_html r @ ''\"'',
       bc_title = named_pool pool @ right_arrow @ row_name t ml bd row, bc_lit = (serving = jget row ''id''),
       bc_from = Row_dot p r, bc_to = Model_in key, bc_known = target_known bd row\<rparr>)"

definition client_wires :: "compare \<Rightarrow> js \<Rightarrow> board_cable list" where
  "client_wires lc bd = map client_wire (filter (\<lambda>c. js_text (jget c ''set'') \<noteq> []) (consumers_of lc bd))"

definition seat_cables :: "js \<Rightarrow> board_cable list" where
  "seat_cables bd = concat (map (\<lambda>s. map (seat_cable bd s) (list_of s ''pools'')) (list_of bd ''sets''))"

definition row_cables :: "dict \<Rightarrow> (js \<Rightarrow> string) \<Rightarrow> js \<Rightarrow> board_cable list" where
  "row_cables t ml bd = concat (map (\<lambda>p. map (row_cable t ml bd p) (filter (\<lambda>row. target_key row \<noteq> []) (pool_steps p))) (list_of bd ''pools''))"

definition board_wires :: "dict \<Rightarrow> (js \<Rightarrow> string) \<Rightarrow> compare \<Rightarrow> js \<Rightarrow> board_cable list" where
  "board_wires t ml lc bd = client_wires lc bd @ seat_cables bd @ row_cables t ml bd"

section \<open>A drawing of them\<close>

record board_draw =
  bw_flow :: cf_state
  bw_drops :: "(string \<times> bool \<times> bool) list"
  bw_parts :: "string list"
  bw_ringed :: "board_dot list"

definition board_flow :: "compare \<Rightarrow> js \<Rightarrow> js \<Rightarrow> rat \<Rightarrow> pool_flow" where
  "board_flow lc bd agents now = pf_of (JObj [(''clients'', JArr (consumers_of lc bd)), (''pools'', jget bd ''pools'')]) agents now"

definition flow_of :: "pool_flow \<Rightarrow> string \<Rightarrow> string" where
  "flow_of f key = (if key \<in> set (pf_active f) then ''active'' else if key \<in> set (pf_recent f) then ''recent'' else [])"

definition cable_markup :: "rat \<Rightarrow> cf_point \<Rightarrow> cf_point \<Rightarrow> string \<Rightarrow> board_cable \<Rightarrow> cf_state \<Rightarrow> cf_state \<times> string" where
  "cable_markup now a b flow c s =
     (let d = board_curve a b;
          (s, drops) = (if flow = ''active'' then cf_twin d [] now (''pb:'' @ bc_key c) (Some a) (Some b) s else (s, []))
      in (s, ''<g '' @ bc_attrs c @ ''><title>'' @ escape_html (bc_title c) @ ''</title><path class=\"pb-cable-hit\" d=\"'' @ d @ ''\"></path>''
            @ ''<path class=\"pb-cable'' @ (if bc_lit c \<or> flow \<noteq> [] then '' lit'' else []) @ ''\" d=\"'' @ d @ ''\"></path>'' @ drops @ ''</g>''))"

definition draw_one :: "(board_dot \<Rightarrow> cf_point option) \<Rightarrow> pool_flow \<Rightarrow> rat \<Rightarrow> board_draw \<Rightarrow> board_cable \<Rightarrow> board_draw" where
  "draw_one dots f now w c =
     (case (dots (bc_from c), dots (bc_to c)) of
        (Some a, Some b) \<Rightarrow>
          (let (s, html) = cable_markup now a b (flow_of f (bc_key c)) c (bw_flow w) in
           w\<lparr>bw_flow := s, bw_parts := bw_parts w @ [html],
             bw_ringed := (if bc_key c \<in> set (pf_active f) then set_add (bc_to c) (set_add (bc_from c) (bw_ringed w)) else bw_ringed w)\<rparr>)
      | (a, b) \<Rightarrow> if b = None \<and> \<not> bc_known c then w
          else w\<lparr>bw_drops := bw_drops w @ [(bc_what c, a \<noteq> None, b \<noteq> None)]\<rparr>)"

text \<open>Every cable in turn, from a round of drops begun anew; the drops that go down come after them.\<close>

definition draw_board :: "dict \<Rightarrow> (js \<Rightarrow> string) \<Rightarrow> compare \<Rightarrow> js \<Rightarrow> js \<Rightarrow> (board_dot \<Rightarrow> cf_point option) \<Rightarrow> rat \<Rightarrow> cf_state \<Rightarrow> board_draw \<times> string" where
  "draw_board t ml lc bd agents dots now s =
     (let f = board_flow lc bd agents now;
          w = foldl (draw_one dots f now) \<lparr>bw_flow = cf_round s, bw_drops = [], bw_parts = [], bw_ringed = []\<rparr> (board_wires t ml lc bd);
          (s, ghosts) = cf_ghosts now (bw_flow w)
      in (w\<lparr>bw_flow := s\<rparr>, concat (bw_parts w) @ ghosts))"

text \<open>A reading of the monitor that would light the same cables draws nothing.\<close>

definition paints_flow :: "compare \<Rightarrow> js \<Rightarrow> js \<Rightarrow> rat \<Rightarrow> string \<Rightarrow> bool" where
  "paints_flow lc bd agents now drawn = (pf_signature (board_flow lc bd agents now) \<noteq> drawn)"

section \<open>No cable is left out without a word\<close>

definition cable_drawn :: "(board_dot \<Rightarrow> cf_point option) \<Rightarrow> board_cable \<Rightarrow> bool" where
  "cable_drawn dots c = (dots (bc_from c) \<noteq> None \<and> dots (bc_to c) \<noteq> None)"

definition cable_gone :: "(board_dot \<Rightarrow> cf_point option) \<Rightarrow> board_cable \<Rightarrow> bool" where
  "cable_gone dots c = (dots (bc_to c) = None \<and> \<not> bc_known c)"

definition cable_dropped :: "(board_dot \<Rightarrow> cf_point option) \<Rightarrow> board_cable \<Rightarrow> bool" where
  "cable_dropped dots c = (\<not> cable_drawn dots c \<and> \<not> cable_gone dots c)"

lemma draw_one_eq:
  "bw_drops (draw_one dots f now w c) = bw_drops w @ (if cable_dropped dots c then [(bc_what c, dots (bc_from c) \<noteq> None, dots (bc_to c) \<noteq> None)] else [])"
  "length (bw_parts (draw_one dots f now w c)) = length (bw_parts w) + (if cable_drawn dots c then 1 else 0)"
  "set (bw_ringed (draw_one dots f now w c)) = set (bw_ringed w)
     \<union> (if cable_drawn dots c \<and> bc_key c \<in> set (pf_active f) then {bc_from c, bc_to c} else {})"
  by (auto simp: draw_one_def cable_dropped_def cable_drawn_def cable_gone_def split: option.splits prod.splits)

lemma draw_all_eq:
  "bw_drops (foldl (draw_one dots f now) w cs) = bw_drops w @ map (\<lambda>c. (bc_what c, dots (bc_from c) \<noteq> None, dots (bc_to c) \<noteq> None)) (filter (cable_dropped dots) cs)"
  "length (bw_parts (foldl (draw_one dots f now) w cs)) = length (bw_parts w) + length (filter (cable_drawn dots) cs)"
  "set (bw_ringed (foldl (draw_one dots f now) w cs)) = set (bw_ringed w)
     \<union> \<Union>((\<lambda>c. {bc_from c, bc_to c}) ` {c \<in> set cs. cable_drawn dots c \<and> bc_key c \<in> set (pf_active f)})"
proof (induction cs arbitrary: w)
  case (Cons c cs)
  { case 1 show ?case using Cons.IH(1) by (simp add: draw_one_eq) }
  { case 2 show ?case using Cons.IH(2) by (simp add: draw_one_eq) }
  { case 3 show ?case using Cons.IH(3) by (auto simp: draw_one_eq) }
qed simp_all

lemma cables_sorted_out: "length (filter (cable_drawn dots) cs) + length (filter (cable_dropped dots) cs) + length (filter (cable_gone dots) cs) = length cs"
  by (induction cs) (auto simp: cable_dropped_def cable_drawn_def cable_gone_def)

lemma gone_cables: "c \<in> set (board_wires t ml lc bd) \<Longrightarrow> \<not> bc_known c \<Longrightarrow>
    \<exists>p \<in> set (list_of bd ''pools''). \<exists>row \<in> set (pool_steps p). c = row_cable t ml bd p row \<and> \<not> target_known bd row \<and> target_key row \<noteq> []"
proof -
  assume c: "c \<in> set (board_wires t ml lc bd)" and k: "\<not> bc_known c"
  have "bc_known (client_wire x)" "bc_known (seat_cable bd x y)" "bc_known (row_cable t ml bd x y) = target_known bd y" for x y
    by (simp_all add: client_wire_def seat_cable_def row_cable_def Let_def)
  then show ?thesis using c k unfolding board_wires_def client_wires_def seat_cables_def row_cables_def by auto blast
qed

text \<open>
  Every cable the controller keeps is drawn, named with the end that is missing, or its row says that its target is gone:
  the three together are all of them.
\<close>

theorem bcb_no_cable_is_left_out_in_silence:
  fixes t ml lc bd agents dots now s
  defines "w \<equiv> fst (draw_board t ml lc bd agents dots now s)" and "cs \<equiv> board_wires t ml lc bd"
  shows "map fst (bw_drops w) = map bc_what (filter (cable_dropped dots) cs)"
    and "length (bw_parts w) + length (bw_drops w) + length (filter (cable_gone dots) cs) = length cs"
    and "list_all (\<lambda>c. (\<exists>p \<in> set (list_of bd ''pools''). \<exists>row \<in> set (pool_steps p). c = row_cable t ml bd p row
           \<and> (if jget row ''kind'' \<in> {JStr ''account'', JStr ''output''} then prefix ''<span class=\"pb-target gone\"'' (target_html t ml bd row) else True))) (filter (cable_gone dots) cs)"
proof -
  let ?w = "foldl (draw_one dots (board_flow lc bd agents now) now) \<lparr>bw_flow = cf_round s, bw_drops = [], bw_parts = [], bw_ringed = []\<rparr> cs"
  have w: "bw_drops w = bw_drops ?w" "bw_parts w = bw_parts ?w"
    by (simp_all add: w_def cs_def draw_board_def Let_def split: prod.splits)
  have drops: "bw_drops w = map (\<lambda>c. (bc_what c, dots (bc_from c) \<noteq> None, dots (bc_to c) \<noteq> None)) (filter (cable_dropped dots) cs)"
    by (simp add: w draw_all_eq)
  then show "map fst (bw_drops w) = map bc_what (filter (cable_dropped dots) cs)" by simp
  show "length (bw_parts w) + length (bw_drops w) + length (filter (cable_gone dots) cs) = length cs"
    using cables_sorted_out [of dots cs] by (simp add: drops w(2) draw_all_eq)
  have gone: "prefix ''<span class=\"pb-target gone\"'' (target_html t ml bd row)"
    if "\<not> target_known bd row" "jget row ''kind'' \<in> {JStr ''account'', JStr ''output''}" for row
  proof (cases "jget row ''kind'' = JStr ''account''")
    case True
    then show ?thesis using that by (simp add: target_known_def target_html_def gone_target_def Let_def)
  next
    case False
    then have "board_output bd (jget row ''output'') = None" using that by (simp add: target_known_def del: not_None_eq)
    then show ?thesis using False that(2) by (simp add: target_html_def gone_target_def)
  qed
  show "list_all (\<lambda>c. (\<exists>p \<in> set (list_of bd ''pools''). \<exists>row \<in> set (pool_steps p). c = row_cable t ml bd p row
           \<and> (if jget row ''kind'' \<in> {JStr ''account'', JStr ''output''} then prefix ''<span class=\"pb-target gone\"'' (target_html t ml bd row) else True))) (filter (cable_gone dots) cs)"
    unfolding list_all_iff
  proof (intro ballI)
    fix c assume "c \<in> set (filter (cable_gone dots) cs)"
    then have c: "c \<in> set (board_wires t ml lc bd)" "\<not> bc_known c" by (simp_all add: cs_def cable_gone_def)
    obtain p row where "p \<in> set (list_of bd ''pools'')" "row \<in> set (pool_steps p)" "c = row_cable t ml bd p row" "\<not> target_known bd row"
      using gone_cables [OF c] by blast
    then show "\<exists>p \<in> set (list_of bd ''pools''). \<exists>row \<in> set (pool_steps p). c = row_cable t ml bd p row
           \<and> (if jget row ''kind'' \<in> {JStr ''account'', JStr ''output''} then prefix ''<span class=\"pb-target gone\"'' (target_html t ml bd row) else True)"
      using gone by (intro bexI conjI) simp_all
  qed
qed

text \<open>The dots that are ringed are the ends of the drawn cables that carry a request now.\<close>

theorem bcb_ringed_dots_carry:
  "set (bw_ringed (fst (draw_board t ml lc bd agents dots now s))) =
     \<Union>((\<lambda>c. {bc_from c, bc_to c}) ` {c \<in> set (board_wires t ml lc bd). cable_drawn dots c \<and> bc_key c \<in> set (pf_active (board_flow lc bd agents now))})"
  by (simp add: draw_board_def Let_def draw_all_eq split: prod.splits)

end
