(* ===== verification/BoardDrag.thy ===== *)
theory BoardDrag
  imports BoardReads
begin

text \<open>
  Cables carried on Routing's board (\<open>pool-board.js\<close>): what an output starts and a place takes, what joining them asks of the
  controller, the carry itself as a state machine over the pointer's events, the chooser a click on an output opens, and the
  drawings that wait while something is held. The places under the pointer are given from the inside out.
\<close>

section \<open>Sources and places\<close>

datatype cable_source = From_client js | From_set string | From_row string string | From_new_row string
  | From_model js string | Pull_pool string | Pull_set string

datatype board_place = At_set string | At_client string | At_pool string | At_model js string | New_pool

datatype place_sort = Sets | Clients | Pools | Models | Pools_column

fun sort_of :: "board_place \<Rightarrow> place_sort" where
  "sort_of (At_set s) = Sets"
| "sort_of (At_client c) = Clients"
| "sort_of (At_pool p) = Pools"
| "sort_of (At_model w n) = Models"
| "sort_of New_pool = Pools_column"

fun source_kind :: "cable_source \<Rightarrow> string" where
  "source_kind (From_client p) = ''client''"
| "source_kind (From_set s) = ''set''"
| "source_kind (From_row p r) = ''row''"
| "source_kind (From_new_row p) = ''new-row''"
| "source_kind (From_model w n) = ''model''"
| "source_kind (Pull_pool p) = ''pull-pool''"
| "source_kind (Pull_set s) = ''pull-set''"

definition lands_on :: "(string \<times> place_sort list) list" where
  "lands_on = [(''client'', [Sets]), (''set'', [Pools]), (''row'', [Models]), (''new-row'', [Models]), (''model'', [Pools, Pools_column]),
     (''pull-pool'', [Sets]), (''pull-set'', [Clients])]"

definition onto :: "cable_source \<Rightarrow> place_sort list" where
  "onto src = (case map_of lands_on (source_kind src) of Some ps \<Rightarrow> ps | None \<Rightarrow> [])"

definition held_by_left :: "cable_source \<Rightarrow> bool" where
  "held_by_left src = (source_kind src \<in> {''model'', ''pull-pool'', ''pull-set''})"

text \<open>What joining a source to a place asks: the call and its body; a place its kind does not land on asks nothing.\<close>

definition ask_body :: "string \<Rightarrow> js \<Rightarrow> string \<Rightarrow> js" where
  "ask_body pool w name = JObj [(''poolId'', JStr pool), (''target'', w), (''nameAfter'', JStr name)]"

fun cable_ask :: "cable_source \<Rightarrow> board_place \<Rightarrow> (string \<times> js) option" where
  "cable_ask (From_client port) (At_set s) = (if s = [] then None else Some (''/api/consumers/set'', JObj [(''port'', port), (''set'', JStr s)]))"
| "cable_ask (From_set s) (At_pool p) = (if p = [] then None else Some (''/api/sets/add-pool'', JObj [(''id'', JStr s), (''pool'', JStr p)]))"
| "cable_ask (From_new_row p) (At_model w name) = Some (''/api/pools/add-row'', ask_body p w name)"
| "cable_ask (From_row p r) (At_model w name) = Some (''/api/pools/connect-row'',
     JObj [(''poolId'', JStr p), (''rowId'', JStr r), (''target'', w), (''nameAfter'', JStr name)])"
| "cable_ask (From_model w name) (At_pool p) = (if p = [] then None else Some (''/api/pools/add-row'', ask_body p w name))"
| "cable_ask (From_model w name) New_pool = Some (''/api/pools/create'', JObj [(''target'', w), (''nameAfter'', JStr name)])"
| "cable_ask (Pull_pool p) (At_set s) = (if s = [] then None else Some (''/api/sets/add-pool'', JObj [(''id'', JStr s), (''pool'', JStr p)]))"
| "cable_ask (Pull_set s) (At_client c) = (if c = [] then None
     else Some (''/api/consumers/set'', JObj [(''port'', num_js (str_number c)), (''set'', JStr s)]))"
| "cable_ask _ _ = None"

text \<open>A place that has already what a cable pulled from the right would give it.\<close>

fun holds :: "compare \<Rightarrow> js \<Rightarrow> cable_source \<Rightarrow> board_place \<Rightarrow> bool" where
  "holds lc bd (Pull_pool p) (At_set s) =
     (case find (\<lambda>x. js_string (jget x ''id'') = s) (list_of bd ''sets'') of None \<Rightarrow> False | Some x \<Rightarrow> JStr p \<in> set (list_of x ''pools''))"
| "holds lc bd (Pull_set s) (At_client c) =
     (case find (\<lambda>x. js_string (jget x ''port'') = c) (consumers_of lc bd) of None \<Rightarrow> False
      | Some x \<Rightarrow> js_truthy (jget x ''set'') \<and> js_string (jget x ''set'') = s)"
| "holds lc bd _ _ = False"

text \<open>\<open>closest\<close> for each sort its kind lands on: the first that is found is the landing, unless it holds.\<close>

fun first_of :: "place_sort list \<Rightarrow> board_place list \<Rightarrow> board_place option" where
  "first_of [] beneath = None"
| "first_of (q # qs) beneath = (case find (\<lambda>p. sort_of p = q) beneath of Some p \<Rightarrow> Some p | None \<Rightarrow> first_of qs beneath)"

definition landing :: "compare \<Rightarrow> js \<Rightarrow> cable_source \<Rightarrow> board_place list \<Rightarrow> board_place option" where
  "landing lc bd src beneath = (case first_of (onto src) beneath of None \<Rightarrow> None
     | Some p \<Rightarrow> if holds lc bd src p then None else Some p)"

section \<open>Leaning on an edge\<close>

definition lean_edge :: rat where
  "lean_edge = 56"

definition edge_lean :: "rat \<Rightarrow> rat \<Rightarrow> rat \<Rightarrow> rat" where
  "edge_lean x low high =
     (if \<not> high - low > 2 * lean_edge then 0
      else if x < low + lean_edge then - min 1 ((low + lean_edge - x) / lean_edge)
      else if x > high - lean_edge then min 1 ((x - (high - lean_edge)) / lean_edge) else 0)"

definition scroll_by :: "rat \<Rightarrow> int" where
  "scroll_by lean = js_round (lean * 18)"

section \<open>The carry\<close>

record drag =
  dr_source :: cable_source
  dr_pointer :: nat
  dr_start :: cf_point
  dr_hand :: cf_point
  dr_moved :: bool
  dr_over :: "board_place option"

text \<open>What else holds the board still: a row or a card carried, a level's handle, a stroke over the hours.\<close>

record board_hold =
  bh_board :: js
  bh_drag :: "drag option"
  bh_carry :: bool
  bh_level :: bool
  bh_painting :: bool
  bh_typing :: bool
  bh_pending :: bool
  bh_chooser :: bool

datatype board_out = Bo_send string js | Bo_redraw | Bo_page_redraw | Bo_light | Bo_swallow_click | Bo_close_chooser | Bo_track

text \<open>How a carry of a row or a card ends: put back where it was, kept (the answer's board is drawn), or refused.\<close>

datatype carry_end = Put_back | Kept js | Refused

datatype board_event =
    Press cable_source nat nat cf_point  \<comment> \<open>the source, the button, the pointer, the place\<close>
  | Move nat cf_point "board_place list"
  | Let_go nat bool "board_place list"  \<comment> \<open>\<open>True\<close>: the pointer was cancelled\<close>
  | Escape_key
  | Carry_begins | Carry_ends carry_end
  | Level_pressed | Level_released
  | Stroke_begins | Stroke_ends
  | Field_taken | Field_left
  | Reading_landed

definition board_busy :: "board_hold \<Rightarrow> bool" where
  "board_busy s = (bh_drag s \<noteq> None \<or> bh_carry s \<or> bh_level s \<or> bh_painting s)"

definition board_redraw :: "board_hold \<Rightarrow> board_hold \<times> board_out list" where
  "board_redraw s = (if board_busy s \<or> bh_typing s then (s\<lparr>bh_pending := True\<rparr>, []) else (s, [Bo_redraw]))"

definition board_settled :: "board_hold \<Rightarrow> board_hold \<times> board_out list" where
  "board_settled s =
     (if board_busy s then (s, [])
      else let (s1, out) = (if bh_pending s then board_redraw (s\<lparr>bh_pending := False\<rparr>) else (s, [])) in (s1, out @ [Bo_page_redraw]))"

definition end_drag :: "board_hold \<Rightarrow> board_hold \<times> board_out list" where
  "end_drag s =
     (case bh_drag s of None \<Rightarrow> board_settled s
      | Some d \<Rightarrow> let (s1, out) = board_settled (s\<lparr>bh_drag := None\<rparr>) in (s1, (if dr_moved d then [Bo_light] else []) @ out))"

definition travelled :: "drag \<Rightarrow> cf_point \<Rightarrow> bool" where
  "travelled d p = ((fst p - fst (dr_start d))^2 + (snd p - snd (dr_start d))^2 > 25)"

definition press_output :: "cable_source \<Rightarrow> nat \<Rightarrow> nat \<Rightarrow> cf_point \<Rightarrow> board_hold \<Rightarrow> board_hold \<times> board_out list" where
  "press_output src button pid p s =
     (if button \<noteq> 0 \<or> bh_drag s \<noteq> None then (s, [])
      else (s\<lparr>bh_drag := Some \<lparr>dr_source = src, dr_pointer = pid, dr_start = p, dr_hand = p, dr_moved = False, dr_over = None\<rparr>\<rparr>, []))"

definition follow :: "compare \<Rightarrow> nat \<Rightarrow> cf_point \<Rightarrow> board_place list \<Rightarrow> board_hold \<Rightarrow> board_hold \<times> board_out list" where
  "follow lc pid p beneath s =
     (case bh_drag s of None \<Rightarrow> (s, [])
      | Some d \<Rightarrow>
          if dr_pointer d \<noteq> pid then (s, [])
          else if \<not> dr_moved d \<and> \<not> travelled d p then (s\<lparr>bh_drag := Some (d\<lparr>dr_hand := p\<rparr>)\<rparr>, [])
          else (s\<lparr>bh_drag := Some (d\<lparr>dr_hand := p, dr_moved := True, dr_over := landing lc (bh_board s) (dr_source d) beneath\<rparr>),
                  bh_chooser := bh_chooser s \<and> dr_moved d\<rparr>,
                (if dr_moved d then [] else (if bh_chooser s then [Bo_close_chooser] else []) @ [Bo_light]) @ [Bo_track]))"

definition release :: "compare \<Rightarrow> nat \<Rightarrow> bool \<Rightarrow> board_place list \<Rightarrow> board_hold \<Rightarrow> board_hold \<times> board_out list" where
  "release lc pid cancelled beneath s =
     (case bh_drag s of None \<Rightarrow> (s, [])
      | Some d \<Rightarrow>
          if dr_pointer d \<noteq> pid then (s, [])
          else if \<not> dr_moved d then end_drag s
          else let spot = (if cancelled then None else landing lc (bh_board s) (dr_source d) beneath);
                   ask = (case spot of None \<Rightarrow> None | Some p \<Rightarrow> cable_ask (dr_source d) p);
                   (s1, out) = end_drag s
               in (s1, Bo_swallow_click # out @ (case ask of None \<Rightarrow> [] | Some (path, body) \<Rightarrow> [Bo_send path body])))"

fun board_step :: "compare \<Rightarrow> board_event \<Rightarrow> board_hold \<Rightarrow> board_hold \<times> board_out list" where
  "board_step lc (Press src button pid p) s = press_output src button pid p s"
| "board_step lc (Move pid p beneath) s = follow lc pid p beneath s"
| "board_step lc (Let_go pid cancelled beneath) s = release lc pid cancelled beneath s"
| "board_step lc Escape_key s = (if bh_drag s = None then (s, []) else end_drag s)"
| "board_step lc Carry_begins s = (s\<lparr>bh_carry := True\<rparr>, [])"
| "board_step lc (Carry_ends Put_back) s = (s\<lparr>bh_carry := False\<rparr>, [])"
| "board_step lc (Carry_ends (Kept bd)) s = (s\<lparr>bh_carry := False, bh_board := bd\<rparr>, [Bo_page_redraw])"
| "board_step lc (Carry_ends Refused) s = board_settled (s\<lparr>bh_carry := False, bh_pending := True\<rparr>)"
| "board_step lc Level_pressed s = (s\<lparr>bh_level := True\<rparr>, [])"
| "board_step lc Level_released s = board_settled (s\<lparr>bh_level := False\<rparr>)"
| "board_step lc Stroke_begins s = (s\<lparr>bh_painting := True\<rparr>, [])"
| "board_step lc Stroke_ends s = board_settled (s\<lparr>bh_painting := False\<rparr>)"
| "board_step lc Field_taken s = (s\<lparr>bh_typing := True\<rparr>, [])"
| "board_step lc Field_left s = board_settled (s\<lparr>bh_typing := False\<rparr>)"
| "board_step lc Reading_landed s = board_redraw s"

fun board_run :: "compare \<Rightarrow> board_event list \<Rightarrow> board_hold \<Rightarrow> board_hold \<times> board_out list" where
  "board_run lc [] s = (s, [])"
| "board_run lc (e # es) s = (let (s1, out) = board_step lc e s; (s2, outs) = board_run lc es s1 in (s2, out @ outs))"

definition at_rest :: "js \<Rightarrow> board_hold" where
  "at_rest bd = \<lparr>bh_board = bd, bh_drag = None, bh_carry = False, bh_level = False, bh_painting = False, bh_typing = False,
     bh_pending = False, bh_chooser = False\<rparr>"

section \<open>The chooser\<close>

record choice =
  co_key :: string
  co_label :: string
  co_hint :: string
  co_to :: board_place
  co_now :: bool

definition pool_line :: "(js \<Rightarrow> string) \<Rightarrow> js \<Rightarrow> js \<Rightarrow> string" where
  "pool_line ml bd pool = js_join '', '' (filter (\<lambda>n. n \<noteq> []) (map (model_name ml bd) (pool_steps pool)))"

definition cloud_line :: "js \<Rightarrow> string" where
  "cloud_line account = [CHR 0xE2, CHR 0x98, CHR 0x81] @ '' '' @ js_string (js_or (jget account ''name'') (jget account ''id''))"

definition account_target :: "js \<Rightarrow> js \<Rightarrow> js" where
  "account_target account model = JObj [(''accountId'', jget account ''id''), (''model'', model)]"

definition output_target :: "js \<Rightarrow> js" where
  "output_target out = JObj [(''output'', jget out ''id'')]"

definition board_targets :: "(js \<Rightarrow> string) \<Rightarrow> js \<Rightarrow> choice list" where
  "board_targets ml bd =
     concat (map (\<lambda>a. map (\<lambda>m. \<lparr>co_key = target_key (account_target a m), co_label = js_string m, co_hint = cloud_line a,
        co_to = At_model (account_target a m) (js_string m), co_now = False\<rparr>) (shown_of bd a)) (list_of bd ''cloudAccounts''))
     @ concat (map (\<lambda>g. map (\<lambda>o'. let name = oc_row_name ml bd o' in \<lparr>co_key = target_key (output_target o'), co_label = name,
        co_hint = out_where o' g, co_to = At_model (output_target o') name, co_now = False\<rparr>) (og_outs g)) (board_machines bd))"

definition pool_choice :: "(js \<Rightarrow> string) \<Rightarrow> js \<Rightarrow> (js \<Rightarrow> bool) \<Rightarrow> js \<Rightarrow> choice" where
  "pool_choice ml bd now p = \<lparr>co_key = ''pool:'' @ js_string (jget p ''id''), co_label = named_pool p, co_hint = pool_line ml bd p,
     co_to = At_pool (js_string (jget p ''id'')), co_now = now p\<rparr>"

definition set_line :: "js \<Rightarrow> js \<Rightarrow> string" where
  "set_line bd s = js_join '', '' (map (\<lambda>pid. js_string (js_or (jget (find_id (list_of bd ''pools'') pid) ''name'') pid)) (list_of s ''pools''))"

definition client_now :: "compare \<Rightarrow> js \<Rightarrow> js \<Rightarrow> string" where
  "client_now lc bd port = (case find (on_port port) (consumers_of lc bd) of Some c \<Rightarrow> js_text (jget c ''set'') | None \<Rightarrow> [])"

definition held_keys :: "js \<Rightarrow> string \<Rightarrow> string list" where
  "held_keys bd p = filter (\<lambda>k. k \<noteq> []) (map target_key (js_list (js_or (jget (find_id (list_of bd ''pools'') (JStr p)) ''steps'') (JArr []))))"

definition model_choices :: "(js \<Rightarrow> string) \<Rightarrow> js \<Rightarrow> string \<Rightarrow> choice list" where
  "model_choices ml bd p = map (\<lambda>x. x\<lparr>co_now := co_key x \<in> set (held_keys bd p)\<rparr>) (board_targets ml bd)"

fun choices :: "dict \<Rightarrow> (js \<Rightarrow> string) \<Rightarrow> compare \<Rightarrow> js \<Rightarrow> cable_source \<Rightarrow> choice list" where
  "choices t ml lc bd (From_client port) = map (\<lambda>s. \<lparr>co_key = ''set:'' @ js_string (jget s ''id''),
     co_label = js_string (js_or (jget s ''name'') (jget s ''id'')), co_hint = set_line bd s, co_to = At_set (js_string (jget s ''id'')),
     co_now = (jget s ''id'' = JStr (client_now lc bd port))\<rparr>) (list_of bd ''sets'')"
| "choices t ml lc bd (From_set s) = map (pool_choice ml bd (\<lambda>p. jget p ''id'' \<in> set (js_list (js_or (jget (find_id (list_of bd ''sets'') (JStr s)) ''pools'') (JArr [])))))
     (list_of bd ''pools'')"
| "choices t ml lc bd (From_row p r) = model_choices ml bd p"
| "choices t ml lc bd (From_new_row p) = model_choices ml bd p"
| "choices t ml lc bd (From_model w name) =
     \<lparr>co_key = ''pool:new'', co_label = t ''pbChooseNewPool'' [(''name'', name)], co_hint = [], co_to = New_pool, co_now = False\<rparr>
     # map (pool_choice ml bd (\<lambda>p. target_key w \<in> set (map target_key (pool_steps p)))) (list_of bd ''pools'')"
| "choices t ml lc bd _ = []"

record found_choices =
  fc_list :: "choice list"
  fc_more :: nat
  fc_total :: nat

definition found_of :: "choice list \<Rightarrow> string \<Rightarrow> nat \<Rightarrow> found_choices" where
  "found_of cs query limit =
     (let want = js_lower (js_trim query);
          hit = (if want = [] then cs else filter (\<lambda>c. str_includes (js_lower (co_label c @ '' '' @ co_hint c)) want) cs)
      in \<lparr>fc_list = take limit hit, fc_more = length hit - limit, fc_total = length cs\<rparr>)"

record chooser =
  ch_source :: cable_source
  ch_query :: string

text \<open>A place picked: the call, and while it is on its way the chooser is shut; refused, it comes back.\<close>

definition pick_place :: "dict \<Rightarrow> (js \<Rightarrow> string) \<Rightarrow> compare \<Rightarrow> js \<Rightarrow> string \<Rightarrow> chooser option \<Rightarrow> (string \<times> js) option" where
  "pick_place t ml lc bd key c = (case c of None \<Rightarrow> None
     | Some c \<Rightarrow> (case find (\<lambda>x. co_key x = key \<and> \<not> co_now x) (choices t ml lc bd (ch_source c)) of None \<Rightarrow> None
        | Some x \<Rightarrow> cable_ask (ch_source c) (co_to x)))"

definition chooser_after :: "chooser option \<Rightarrow> (string \<times> js) option \<Rightarrow> bool \<Rightarrow> chooser option" where
  "chooser_after c ask answered = (if ask = None then c else if answered then None else c)"

definition chooser_width :: rat where
  "chooser_width = 320"

text \<open>Where the list stands: beside the output it was opened from, upward when there is more room above; within the box.\<close>

definition chooser_spot :: "rat \<Rightarrow> rat \<Rightarrow> rat \<Rightarrow> rat \<times> rat \<times> rat \<Rightarrow> rat \<times> rat \<times> rat \<Rightarrow> rat \<times> rat \<times> bool" where
  "chooser_spot scroll_left scroll_top wide dot box =
     (let (d_left, d_top, d_bottom) = dot; (b_left, b_top, b_bottom) = box;
          beneath = b_bottom - d_bottom; over = d_top - b_top; up = (beneath < 300 \<and> over > beneath);
          left = d_left - b_left + scroll_left;
          x = max (scroll_left + 8) (min left (scroll_left + wide - chooser_width - 8));
          y = (if up then d_top - 6 else d_bottom + 6) - b_top + scroll_top
      in (of_int (js_round x), of_int (js_round y), up))"

section \<open>Properties\<close>

lemma first_of_Some: "first_of qs ps = Some p \<Longrightarrow> p \<in> set ps \<and> sort_of p \<in> set qs"
  by (induction qs) (auto split: option.splits dest: find_SomeD)

lemma landing_Some:
  assumes "landing lc bd src ps = Some p"
  shows "p \<in> set ps" "sort_of p \<in> set (onto src)" "\<not> holds lc bd src p"
  using assms first_of_Some [of "onto src" ps p] by (auto simp: landing_def split: option.splits if_splits)

lemma settled_sends_nothing [simp]: "Bo_send path body \<notin> set (snd (board_settled s))" "Bo_send path body \<notin> set (snd (board_redraw s))"
  by (auto simp: board_settled_def board_redraw_def split: if_splits prod.splits)

lemma end_drag_sends_nothing [simp]: "Bo_send path body \<notin> set (snd (end_drag s))"
  by (auto simp: end_drag_def split_def Let_def split: option.splits)

text \<open>
  A call goes out for one event alone: the pointer that pressed an output lets go, not cancelled, after it travelled, over a
  place its cable lands on; and the call is what joining the two asks.
\<close>

theorem bdr_only_a_landed_cable_asks:
  "Bo_send path body \<in> set (snd (board_step lc e s)) \<longleftrightarrow>
     (\<exists>pid ps d p. e = Let_go pid False ps \<and> bh_drag s = Some d \<and> dr_pointer d = pid \<and> dr_moved d
        \<and> landing lc (bh_board s) (dr_source d) ps = Some p \<and> cable_ask (dr_source d) p = Some (path, body))"
proof (cases e)
  case (Let_go pid cancelled ps)
  show ?thesis
  proof (cases "bh_drag s")
    case (Some d)
    then show ?thesis
      using Let_go by (auto simp: release_def Let_def split_def split: option.splits)
  qed (simp add: Let_go release_def)
next
  case (Carry_ends c)
  then show ?thesis by (cases c) simp_all
qed (auto simp: press_output_def follow_def split: option.splits)

lemma settled_drag [simp]: "bh_drag (fst (board_settled s)) = bh_drag s" "bh_drag (fst (board_redraw s)) = bh_drag s"
  by (auto simp: board_settled_def board_redraw_def split: if_splits prod.splits)

lemma end_drag_drag [simp]: "bh_drag (fst (end_drag s)) = None"
  by (auto simp: end_drag_def split_def Let_def split: option.splits)

definition is_send :: "board_out \<Rightarrow> bool" where
  "is_send x = (case x of Bo_send p b \<Rightarrow> True | _ \<Rightarrow> False)"

definition is_press :: "board_event \<Rightarrow> bool" where
  "is_press e = (case e of Press src button pid p \<Rightarrow> button = 0 | _ \<Rightarrow> False)"

definition in_hand :: "board_hold \<Rightarrow> nat" where
  "in_hand s = (if bh_drag s = None then 0 else 1)"

lemma no_sends: "(\<And>path body. Bo_send path body \<notin> set xs) \<Longrightarrow> filter is_send xs = []"
  by (auto simp: is_send_def filter_empty_conv split: board_out.splits)

lemma sends_of_end: "filter is_send (snd (end_drag s)) = []" "filter is_send (snd (board_settled s)) = []" "filter is_send (snd (board_redraw s)) = []"
  by (rule no_sends, simp)+

lemma step_sends: "length (filter is_send (snd (board_step lc e s))) + in_hand (fst (board_step lc e s)) \<le> in_hand s + (if is_press e then 1 else 0)"
proof (cases e)
  case (Let_go pid cancelled ps)
  show ?thesis
  proof (cases "bh_drag s")
    case (Some d)
    obtain s1 out where e: "end_drag s = (s1, out)" by fastforce
    have end_: "bh_drag s1 = None" "filter is_send out = []" using end_drag_drag [of s] sends_of_end(1) [of s] by (simp_all add: e)
    show ?thesis
      using Some end_ by (simp add: Let_go release_def e is_press_def in_hand_def is_send_def Let_def split: prod.splits option.splits)
  qed (simp add: Let_go release_def in_hand_def)
next
  case (Carry_ends c)
  then show ?thesis by (cases c) (simp_all add: in_hand_def sends_of_end is_send_def)
next
  case (Press src button pid p)
  then show ?thesis by (simp add: press_output_def in_hand_def is_press_def)
next
  case (Move pid p ps)
  then show ?thesis by (simp add: follow_def in_hand_def is_press_def is_send_def split: option.splits)
qed (simp_all add: in_hand_def sends_of_end is_press_def)

text \<open>However the events come, no press of an output asks for more than one cable.\<close>

theorem bdr_one_cable_per_press:
  "length (filter is_send (snd (board_run lc es (at_rest bd)))) \<le> length (filter is_press es)"
proof -
  have "length (filter is_send (snd (board_run lc es s))) + in_hand (fst (board_run lc es s)) \<le> in_hand s + length (filter is_press es)" for s
  proof (induction es arbitrary: s)
    case (Cons e es)
    show ?case
      using step_sends [of lc e s] Cons.IH [of "fst (board_step lc e s)"] by (auto simp: split_def Let_def split: if_splits)
  qed simp
  from this [of "at_rest bd"] show ?thesis by (simp add: at_rest_def in_hand_def)
qed

lemma ask_of_its_sort: "cable_ask src p \<noteq> None \<Longrightarrow> sort_of p \<in> set (onto src)"
  by (cases src; cases p) (simp_all add: onto_def lands_on_def)

lemma choice_places:
  assumes "x \<in> set (choices t ml lc bd src)"
  shows "sort_of (co_to x) \<in> set (onto src) \<and> \<not> holds lc bd src (co_to x)"
  using assms
  by (cases src) (auto simp: onto_def lands_on_def pool_choice_def model_choices_def board_targets_def Let_def)

text \<open>
  What the chooser asks is what carrying the cable onto the same place asks: each of its entries is a place the cable lands on,
  and picking one that is not the present one is letting go of the cable there.
\<close>

theorem bdr_choosing_is_carrying:
  assumes "pick_place t ml lc bd key (Some c) = Some ask"
  shows "\<exists>x \<in> set (choices t ml lc bd (ch_source c)). co_key x = key \<and> \<not> co_now x
    \<and> landing lc bd (ch_source c) [co_to x] = Some (co_to x) \<and> cable_ask (ch_source c) (co_to x) = Some ask"
proof -
  obtain x where x: "find (\<lambda>x. co_key x = key \<and> \<not> co_now x) (choices t ml lc bd (ch_source c)) = Some x"
      "cable_ask (ch_source c) (co_to x) = Some ask"
    using assms by (auto simp: pick_place_def split: option.splits)
  have in_: "x \<in> set (choices t ml lc bd (ch_source c))" "co_key x = key" "\<not> co_now x" using find_SomeD [OF x(1)] by auto
  have "first_of qs [p] = Some p" if "sort_of p \<in> set qs" for qs p using that by (induction qs) auto
  then have "landing lc bd (ch_source c) [co_to x] = Some (co_to x)"
    using choice_places [OF in_(1)] by (simp add: landing_def)
  with in_ x(2) show ?thesis by blast
qed

definition one_set :: js where
  "one_set = JObj [(''sets'', JArr [JObj [(''id'', JStr ''s''), (''name'', JStr ''Home'')]])]"

lemma bdr_choosing_is_carrying_witness:
  "\<exists>x \<in> set (choices (\<lambda>k as. k) (\<lambda>v. []) (\<lambda>a b. 0) one_set (From_client (JNum 8))). co_key x = ''set:s'' \<and> \<not> co_now x
    \<and> landing (\<lambda>a b. 0) one_set (From_client (JNum 8)) [co_to x] = Some (co_to x)
    \<and> cable_ask (From_client (JNum 8)) (co_to x) = Some (''/api/consumers/set'', JObj [(''port'', JNum 8), (''set'', JStr ''s'')])"
proof -
  have "pick_place (\<lambda>k as. k) (\<lambda>v. []) (\<lambda>a b. 0) one_set ''set:s'' (Some \<lparr>ch_source = From_client (JNum 8), ch_query = []\<rparr>)
      = Some (''/api/consumers/set'', JObj [(''port'', JNum 8), (''set'', JStr ''s'')])" by code_simp
  from bdr_choosing_is_carrying [OF this] show ?thesis by simp
qed

text \<open>
  The chooser marks a model the pool has in a row already, and does not offer it again; a cable carried there is taken as any other
  and asks for a second row of it.
\<close>

definition pool_with_cell :: js where
  "pool_with_cell = JObj [(''pools'', JArr [JObj [(''id'', JStr ''p''), (''steps'', JArr [JObj [(''id'', JStr ''a''), (''kind'', JStr ''output''), (''output'', JStr ''srv:1'')]])]]),
     (''routers'', JArr [JObj [(''id'', JStr ''router:default''), (''outputs'', JArr [JObj [(''id'', JStr ''srv:1''), (''upstreamPort'', JNum 1)]])]])]"

lemma bdr_carry_takes_a_model_twice:
  "map (\<lambda>x. (co_key x, co_now x)) (choices (\<lambda>k as. k) (\<lambda>v. []) (\<lambda>a b. 0) pool_with_cell (From_new_row ''p'')) = [(''out:srv:1'', True)]"
  "landing (\<lambda>a b. 0) pool_with_cell (From_new_row ''p'') [At_model (JObj [(''output'', JStr ''srv:1'')]) ''m''] = Some (At_model (JObj [(''output'', JStr ''srv:1'')]) ''m'')"
  by code_simp+

section \<open>Nothing waits for ever\<close>

definition waits_for_one :: "board_hold \<Rightarrow> bool" where
  "waits_for_one s = (\<not> bh_pending s \<or> board_busy s \<or> bh_typing s)"

definition settles :: "board_event \<Rightarrow> bool" where
  "settles e = (case e of Carry_ends c \<Rightarrow> c = Refused | _ \<Rightarrow> True)"

lemma settled_waits: "waits_for_one (fst (board_settled s))"
  by (auto simp: board_settled_def board_redraw_def waits_for_one_def board_busy_def split_def Let_def)

lemma redraw_waits: "waits_for_one s \<Longrightarrow> waits_for_one (fst (board_redraw s))"
  by (auto simp: board_redraw_def waits_for_one_def board_busy_def)

lemma end_drag_waits: "waits_for_one (fst (end_drag s))"
  using settled_waits by (auto simp: end_drag_def split_def Let_def split: option.splits)

lemma step_waits:
  assumes "waits_for_one s" "settles e"
  shows "waits_for_one (fst (board_step lc e s))"
proof (cases e)
  case (Carry_ends c)
  then have "c = Refused" using assms(2) by (simp add: settles_def)
  then show ?thesis using Carry_ends settled_waits by simp
next
  case (Let_go pid cancelled ps)
  then show ?thesis using assms(1) end_drag_waits by (auto simp: release_def split_def Let_def split: option.splits)
next
  case (Press src button pid p)
  then show ?thesis using assms(1) by (auto simp: press_output_def waits_for_one_def board_busy_def)
next
  case (Move pid p ps)
  then show ?thesis using assms(1) by (auto simp: follow_def waits_for_one_def board_busy_def split: option.splits)
qed (use assms(1) in \<open>simp_all add: settled_waits redraw_waits end_drag_waits\<close>, simp_all add: waits_for_one_def board_busy_def)

text \<open>
  A drawing that was put off waits for something: while one waits, something is held or typed, and the last thing let go draws it
  --- but for a row or a card put back where it was, whose end nobody is told of.
\<close>

theorem bdr_a_put_off_drawing_waits_for_something:
  assumes "list_all settles es"
  shows "waits_for_one (fst (board_run lc es (at_rest bd)))"
proof -
  have "waits_for_one s \<Longrightarrow> list_all settles es \<Longrightarrow> waits_for_one (fst (board_run lc es s))" for s
    by (induction es arbitrary: s) (auto simp: step_waits split_def Let_def)
  moreover have "waits_for_one (at_rest bd)" by (simp add: at_rest_def waits_for_one_def)
  ultimately show ?thesis using assms by blast
qed

lemma bdr_a_put_off_drawing_waits_for_something_witness:
  "waits_for_one (fst (board_run (\<lambda>a b. 0) [Carry_begins, Reading_landed, Carry_ends Refused] (at_rest JNull)))"
  by (rule bdr_a_put_off_drawing_waits_for_something) (simp add: settles_def)

lemma bdr_put_back_leaves_a_drawing_waiting:
  "\<not> waits_for_one (fst (board_run (\<lambda>a b. 0) [Carry_begins, Reading_landed, Carry_ends Put_back] (at_rest JNull)))"
  by code_simp

text \<open>A lean is between -1 and 1; away from the edges, and in a box too small to lean in, there is none.\<close>

theorem bdr_lean_is_bounded:
  "\<bar>edge_lean x low high\<bar> \<le> 1 \<and> \<bar>scroll_by (edge_lean x low high)\<bar> \<le> 18
   \<and> (edge_lean x low high < 0 \<longleftrightarrow> high - low > 2 * lean_edge \<and> x < low + lean_edge)
   \<and> (edge_lean x low high > 0 \<longleftrightarrow> high - low > 2 * lean_edge \<and> x > high - lean_edge)"
proof -
  have b: "\<bar>edge_lean x low high\<bar> \<le> 1" by (auto simp: edge_lean_def lean_edge_def min_def divide_simps)
  have "\<bar>scroll_by l\<bar> \<le> 18" if "\<bar>l\<bar> \<le> 1" for l
  proof -
    have "-18 \<le> l * 18" "l * 18 \<le> 18" using that by (auto simp: abs_le_iff)
    then have "- 18 \<le> \<lfloor>l * 18 + 1 / 2\<rfloor>" "\<lfloor>l * 18 + 1 / 2\<rfloor> \<le> 18" by linarith+
    then show ?thesis unfolding scroll_by_def js_round_def by linarith
  qed
  with b have "\<bar>scroll_by (edge_lean x low high)\<bar> \<le> 18" by blast
  with b show ?thesis by (auto simp: edge_lean_def lean_edge_def min_def divide_simps)
qed

end
