(* ===== verification/BoardFlows.thy ===== *)
theory BoardFlows
  imports BoardReads Pools
begin

text \<open>
  What the operator does on Routing's board besides carrying cables (\<open>pool-board.js\<close>): pools and sets added, renamed and deleted,
  rows removed and cables cut after a question that names both ends, the window a pool states, the order of its cards, the
  tests sent as a client and the accounts' lists as they are read.
\<close>

section \<open>One call\<close>

text \<open>\<open>send\<close>: the answer's board is applied, a refusal is said.\<close>

definition board_send :: "string \<Rightarrow> js \<Rightarrow> js \<Rightarrow> flow" where
  "board_send path body bd = try_call (Send_req path body) (\<lambda>res bd1. apply_if (jget res ''topology'') bd1 (\<lambda>b. Done res b))"

text \<open>A danger asked about, then the call.\<close>

definition ask_and_send :: "string \<Rightarrow> string \<Rightarrow> string \<Rightarrow> js \<Rightarrow> js \<Rightarrow> flow" where
  "ask_and_send words title path body bd =
     ask_value (Confirm_req words (danger_opts title title)) (\<lambda>sure bd1. if js_truthy sure then board_send path body bd1 else Done JNull bd1)"

definition add_pool :: "js \<Rightarrow> flow" where
  "add_pool bd = board_send ''/api/pools/create'' (JObj []) bd"

definition add_set :: "js \<Rightarrow> flow" where
  "add_set bd = board_send ''/api/sets/create'' (JObj []) bd"

definition set_at :: "js \<Rightarrow> js \<Rightarrow> js" where
  "set_at bd i = find_id (list_of bd ''sets'') i"

text \<open>What a set's name field does: the flow, and the name the field shows while it is on its way or when nothing is sent.\<close>

definition rename_set :: "js \<Rightarrow> string \<Rightarrow> js \<Rightarrow> flow option" where
  "rename_set sid raw bd =
     (let s = set_at bd sid; typed = js_trim raw in
      if \<not> js_truthy s \<or> typed = [] \<or> JStr typed = jget s ''name'' then None
      else Some (board_send ''/api/sets/rename'' (JObj [(''id'', jget s ''id''), (''name'', JStr typed)]) bd))"

definition clients_of_set :: "compare \<Rightarrow> js \<Rightarrow> js \<Rightarrow> js list" where
  "clients_of_set lc bd sid = map (\<lambda>c. jget c ''label'') (filter (\<lambda>c. jget c ''set'' = sid) (consumers_of lc bd))"

definition remove_set :: "dict \<Rightarrow> compare \<Rightarrow> js \<Rightarrow> js \<Rightarrow> flow" where
  "remove_set t lc sid bd =
     (let s = set_at bd sid; name = js_string (jget s ''name''); clients = clients_of_set lc bd (jget s ''id'') in
      if \<not> js_truthy s then Done JNull bd
      else ask_and_send (if clients \<noteq> [] then t ''pbSetDeleteClients'' [(''set'', name), (''clients'', js_join '', '' (map js_string clients))]
             else t ''pbSetDeleteText'' [(''set'', name)]) (t ''pbSetDelete'' []) ''/api/sets/delete'' (JObj [(''id'', jget s ''id'')]) bd)"

definition stored_pool :: "js \<Rightarrow> js \<Rightarrow> js" where
  "stored_pool bd i = find_id (list_of bd ''pools'') i"

definition row_place :: "js \<Rightarrow> js \<Rightarrow> int" where
  "row_place pool rid = js_index (map (\<lambda>s. jget s ''id'') (js_list (js_or (jget pool ''steps'') (JArr [])))) rid"

definition row_of :: "js \<Rightarrow> js \<Rightarrow> js" where
  "row_of pool rid = find_id (js_list (js_or (jget pool ''steps'') (JArr []))) rid"

definition remove_row :: "dict \<Rightarrow> (js \<Rightarrow> string) \<Rightarrow> js \<Rightarrow> js \<Rightarrow> js \<Rightarrow> flow" where
  "remove_row t ml pid rid bd =
     (let pool = stored_pool bd pid; i = row_place pool rid in
      if i < 0 then Done JNull bd
      else ask_and_send (t ''pbRowRemoveText'' [(''n'', int_str (i + 1)), (''row'', row_name t ml bd (row_of pool rid)), (''pool'', named_pool pool)])
             (t ''poolStepRemove'' []) ''/api/pools/remove-step'' (JObj [(''poolId'', pid), (''stepId'', rid)]) bd)"

section \<open>Cutting a cable\<close>

datatype cut_cable = Cut_client string | Cut_seat js js | Cut_row js js

definition cut_client :: "dict \<Rightarrow> compare \<Rightarrow> string \<Rightarrow> js \<Rightarrow> flow" where
  "cut_client t lc port bd =
     (case find (\<lambda>c. js_string (jget c ''port'') = port) (consumers_of lc bd) of None \<Rightarrow> Done JNull bd
      | Some c \<Rightarrow> if \<not> js_truthy (jget c ''set'') then Done JNull bd
          else ask_and_send (t ''pbCutClientSetText'' [(''client'', js_string (jget c ''label'')), (''set'', js_string (js_or (jget c ''setName'') (jget c ''set'')))])
                 (t ''pbCutTitle'' []) ''/api/consumers/set'' (JObj [(''port'', num_js (js_number (jget c ''port''))), (''set'', JStr [])]) bd)"

definition cut_seat :: "dict \<Rightarrow> js \<Rightarrow> js \<Rightarrow> js \<Rightarrow> flow" where
  "cut_seat t sid pid bd =
     (let s = set_at bd sid; pool = stored_pool bd pid in
      if \<not> js_truthy s \<or> pid \<notin> set (list_of s ''pools'') then Done JNull bd
      else ask_and_send (t ''pbCutSetPoolText'' [(''set'', js_string (js_or (jget s ''name'') (jget s ''id''))), (''pool'', js_string (js_or (jget pool ''name'') pid))])
             (t ''pbCutTitle'' []) ''/api/sets/remove-pool'' (JObj [(''id'', jget s ''id''), (''pool'', pid)]) bd)"

definition cut_row :: "dict \<Rightarrow> (js \<Rightarrow> string) \<Rightarrow> js \<Rightarrow> js \<Rightarrow> js \<Rightarrow> flow" where
  "cut_row t ml pid rid bd =
     (let pool = stored_pool bd pid; i = row_place pool rid in
      if i < 0 then Done JNull bd
      else ask_and_send (t ''pbCutRowText'' [(''n'', int_str (i + 1)), (''pool'', named_pool pool), (''target'', row_name t ml bd (row_of pool rid))])
             (t ''pbCutTitle'' []) ''/api/pools/connect-row'' (JObj [(''poolId'', jget pool ''id''), (''rowId'', rid), (''target'', JNull)]) bd)"

definition cut :: "dict \<Rightarrow> (js \<Rightarrow> string) \<Rightarrow> compare \<Rightarrow> cut_cable \<Rightarrow> js \<Rightarrow> flow" where
  "cut t ml lc c bd = (case c of Cut_client port \<Rightarrow> cut_client t lc port bd | Cut_seat s p \<Rightarrow> cut_seat t s p bd | Cut_row p r \<Rightarrow> cut_row t ml p r bd)"

section \<open>Other doors\<close>

definition arrange :: "dict \<Rightarrow> js \<Rightarrow> flow" where
  "arrange t bd = flow_then (board_send ''/api/pools/arrange'' (JObj []) bd)
     (\<lambda>res b. if js_truthy res then Say (t ''pbArranged'' []) (Done res b) else Done res b)"

definition order_door :: "string \<Rightarrow> string list \<Rightarrow> (string \<times> js) option" where
  "order_door kind ids =
     (if kind = ''pools'' then Some (''/api/pools/order'', JObj [(''ids'', JArr (map JStr ids))])
      else if kind = ''sets'' then Some (''/api/sets/order'', JObj [(''ids'', JArr (map JStr ids))])
      else if kind = ''clients'' then Some (''/api/consumers/order'', JObj [(''order'', JArr (map (\<lambda>i. num_js (str_number i)) ids))])
      else None)"

text \<open>The order a carry left behind: saved, or the board is drawn again (null).\<close>

definition save_order :: "string \<Rightarrow> string list \<Rightarrow> js \<Rightarrow> flow" where
  "save_order kind ids bd = (case order_door kind ids of None \<Rightarrow> Done JNull bd | Some (path, body) \<Rightarrow> board_send path body bd)"

definition copy_url :: "dict \<Rightarrow> js \<Rightarrow> flow" where
  "copy_url t bd = (let url = entry_url bd in
     if url = [] then Done JNull bd
     else ask_value (Copy_req url) (\<lambda>copied b. Say (if js_truthy copied then t ''consumerEntryCopied'' [] else url) (Done copied b)))"

text \<open>The name field of a pool, and the window it states with its switch: the pool to save, or nothing.\<close>

definition rename_pool :: "string \<Rightarrow> js \<Rightarrow> js option" where
  "rename_pool raw pool = (let typed = js_trim raw in
     if \<not> js_truthy pool \<or> typed = [] \<or> JStr typed = jget pool ''name'' then None else Some (js_put ''name'' (JStr typed) pool))"

definition window_edit :: "string option \<Rightarrow> bool option \<Rightarrow> js \<Rightarrow> js option" where
  "window_edit number box pool =
     (let typed = (case number of Some raw \<Rightarrow> js_trim raw | None \<Rightarrow> js_text_nn (jget pool ''contextLength''));
          auto = (case box of Some on \<Rightarrow> on | None \<Rightarrow> js_truthy (jget pool ''contextAuto'')) in
      if \<not> js_truthy pool then None
      else if typed = js_text_nn (jget pool ''contextLength'') \<and> auto = js_truthy (jget pool ''contextAuto'') then None
      else Some (js_put ''contextAuto'' (JBool auto) (js_put ''contextLength'' (JStr typed) pool)))"

text \<open>Saved by the pool cards' own door (\<open>Pools\<close>): a refusal is said, and the field shows what the controller keeps.\<close>

definition save_pool :: "js option \<Rightarrow> js \<Rightarrow> flow" where
  "save_pool pool bd = (case pool of None \<Rightarrow> Done JNull bd
     | Some p \<Rightarrow> board_send ''/api/pools/save'' (JObj [(''pool'', pool_payload p)]) bd)"

section \<open>A test sent as a client\<close>

record test_asked =
  as_port :: rat
  as_path :: string
  as_label :: string
  as_model :: string

datatype probe_state = Waiting_for | Answered js | Failed_with string

definition probe_model_of :: "js \<Rightarrow> (string \<times> string) list \<Rightarrow> string" where
  "probe_model_of c chosen =
     (let models = map js_string (js_list (js_or (jget c ''models'') (JArr []))) in
      case map_of chosen (js_string (jget c ''port'')) of
        Some m \<Rightarrow> if m \<in> set models then m else (case models of x # xs \<Rightarrow> x | [] \<Rightarrow> [])
      | None \<Rightarrow> (case models of x # xs \<Rightarrow> x | [] \<Rightarrow> []))"

definition probe_found :: "compare \<Rightarrow> js \<Rightarrow> string \<Rightarrow> string \<Rightarrow> (js \<times> js) option" where
  "probe_found lc bd port path =
     (case (find (\<lambda>c. js_string (jget c ''port'') = port) (consumers_of lc bd), find (\<lambda>p. jget p ''path'' = JStr path) (list_of bd ''clientProbes'')) of
        (Some c, Some p) \<Rightarrow> Some (c, p) | _ \<Rightarrow> None)"

definition probe_asked :: "js \<Rightarrow> string \<Rightarrow> string \<Rightarrow> (string \<times> string) list \<Rightarrow> test_asked" where
  "probe_asked c port path chosen =
     \<lparr>as_port = (case str_number port of Fin n \<Rightarrow> n | _ \<Rightarrow> 0), as_path = path, as_label = js_text (jget c ''label''), as_model = probe_model_of c chosen\<rparr>"

definition probe_body :: "test_asked \<Rightarrow> js" where
  "probe_body a = JObj [(''port'', JNum (as_port a)), (''path'', JStr (as_path a)), (''model'', JStr (as_model a))]"

text \<open>A test that may cost money is asked about first; then it is begun.\<close>

definition run_probe :: "dict \<Rightarrow> compare \<Rightarrow> string \<Rightarrow> string \<Rightarrow> (string \<times> string) list \<Rightarrow> js \<Rightarrow> flow" where
  "run_probe t lc port path chosen bd =
     (case probe_found lc bd port path of None \<Rightarrow> Done JNull bd
      | Some (c, p) \<Rightarrow>
          (let go = (\<lambda>b. await (Send_req ''/api/consumers/probe'' (probe_body (probe_asked c port path chosen)))
                 (\<lambda>a b1. Done (case a of Inr v \<Rightarrow> v | Inl err \<Rightarrow> JStr err) b1)) in
           if js_truthy (jget p ''paid'')
           then ask_value (Confirm_req (t ''pbProbePaidAsk'' [(''client'', js_string (js_or (jget c ''label'') (JStr port)))])
                  (JObj [(''title'', JStr (t ''pbProbePaidTitle'' [])), (''danger'', JBool False), (''confirmLabel'', JStr (t ''pbProbeSend'' []))]))
                (\<lambda>sure b. if js_truthy sure then go b else Done JNull b)
           else go bd))"

text \<open>The window of a test: begun, answered, closed. An answer lands while the window is of its port and path.\<close>

datatype probe_event = Probe_begins test_asked | Probe_lands test_asked probe_state | Probe_closes

definition same_probe :: "test_asked \<Rightarrow> test_asked \<Rightarrow> bool" where
  "same_probe a b = (as_port a = as_port b \<and> as_path a = as_path b)"

fun probe_step :: "probe_event \<Rightarrow> (test_asked \<times> probe_state) option \<Rightarrow> (test_asked \<times> probe_state) option" where
  "probe_step (Probe_begins a) w = Some (a, Waiting_for)"
| "probe_step (Probe_lands a r) w = (case w of None \<Rightarrow> None | Some (b, q) \<Rightarrow> if same_probe b a then Some (a, r) else w)"
| "probe_step Probe_closes w = None"

definition probe_run :: "probe_event list \<Rightarrow> (test_asked \<times> probe_state) option" where
  "probe_run es = foldl (\<lambda>w e. probe_step e w) None es"

section \<open>The lists of the accounts\<close>

datatype catalogue = Reading | Read_as js | Unread string

record catalogues =
  ct_known :: "(string \<times> catalogue) list"
  ct_asked :: "string list"  \<comment> \<open>the readings on their way\<close>

datatype catalogue_event = Look_at string | Landed string "string + js" | Picker_opens string

text \<open>\<open>openPicker\<close>: a list that was not read, or could not be, is forgotten, to be asked for again.\<close>

definition worth_another :: "catalogue \<Rightarrow> bool" where
  "worth_another c = (case c of Unread err \<Rightarrow> True | Reading \<Rightarrow> False
     | Read_as v \<Rightarrow> js_nullish (jget v ''fetchedAt'') \<and> list_of v ''models'' = [])"

definition read_catalogue :: "js \<Rightarrow> js" where
  "read_catalogue res = JObj [(''models'', (if js_is_array (jget res ''models'') then jget res ''models'' else JArr [])),
     (''fetchedAt'', js_nn (jget res ''fetchedAt'') JNull)]"

fun catalogue_step :: "catalogue_event \<Rightarrow> catalogues \<Rightarrow> catalogues \<times> string list" where
  "catalogue_step (Look_at owner) s = (case map_of (ct_known s) owner of Some c \<Rightarrow> (s, [])
     | None \<Rightarrow> (\<lparr>ct_known = (owner, Reading) # ct_known s, ct_asked = owner # ct_asked s\<rparr>, [owner]))"
| "catalogue_step (Landed owner res) s =
     (if owner \<notin> set (ct_asked s) then (s, [])
      else (\<lparr>ct_known = (owner, (case res of Inr v \<Rightarrow> Read_as (read_catalogue v) | Inl err \<Rightarrow> Unread err)) # filter (\<lambda>(k, v). k \<noteq> owner) (ct_known s),
              ct_asked = remove1 owner (ct_asked s)\<rparr>, []))"
| "catalogue_step (Picker_opens owner) s = (case map_of (ct_known s) owner of
       Some c \<Rightarrow> (if worth_another c then s\<lparr>ct_known := filter (\<lambda>(k, v). k \<noteq> owner) (ct_known s)\<rparr> else s, [])
     | None \<Rightarrow> (s, []))"

fun catalogue_run :: "catalogue_event list \<Rightarrow> catalogues \<Rightarrow> catalogues" where
  "catalogue_run [] s = s"
| "catalogue_run (e # es) s = catalogue_run es (fst (catalogue_step e s))"

definition no_catalogues :: catalogues where
  "no_catalogues = \<lparr>ct_known = [], ct_asked = []\<rparr>"

section \<open>The model added to a card\<close>

text \<open>\<open>addModel\<close>: the list closes with the answer; refused, it stays open. The board while it is on its way shows no list.\<close>

definition add_model :: "js \<Rightarrow> string \<Rightarrow> js \<Rightarrow> flow" where
  "add_model account model bd = (if \<not> js_truthy account \<or> model = [] then Done JNull bd
     else board_send ''/api/pools/add-model'' (JObj [(''accountId'', account), (''model'', JStr model)]) bd)"

definition picking_after :: "'a option \<Rightarrow> js \<Rightarrow> 'a option" where
  "picking_after was res = (if js_truthy res then None else was)"

definition remove_model :: "string \<Rightarrow> string \<Rightarrow> js \<Rightarrow> flow" where
  "remove_model account model bd = (if account = [] \<or> model = [] then Done JNull bd
     else board_send ''/api/pools/remove-model'' (JObj [(''accountId'', JStr account), (''model'', JStr model)]) bd)"

section \<open>Properties\<close>

datatype pools_act = Add_pool | Add_set | Rename_set js string | Remove_set js | Remove_row js js | Cut cut_cable | Arrange
  | Save_order string "string list" | Copy_url | Probe string string "(string \<times> string) list" | Add_model js string | Remove_model string string | Save_pool "js option"

definition pools_act_flow :: "dict \<Rightarrow> (js \<Rightarrow> string) \<Rightarrow> compare \<Rightarrow> pools_act \<Rightarrow> js \<Rightarrow> flow" where
  "pools_act_flow t ml lc a bd = (case a of
       Add_pool \<Rightarrow> add_pool bd | Add_set \<Rightarrow> add_set bd
     | Rename_set s raw \<Rightarrow> (case rename_set s raw bd of Some f \<Rightarrow> f | None \<Rightarrow> Done JNull bd)
     | Remove_set s \<Rightarrow> remove_set t lc s bd | Remove_row p r \<Rightarrow> remove_row t ml p r bd
     | Cut c \<Rightarrow> cut t ml lc c bd | Arrange \<Rightarrow> arrange t bd | Save_order k ids \<Rightarrow> save_order k ids bd | Copy_url \<Rightarrow> copy_url t bd
     | Probe port path chosen \<Rightarrow> run_probe t lc port path chosen bd | Add_model acc m \<Rightarrow> add_model acc m bd | Remove_model acc m \<Rightarrow> remove_model acc m bd
     | Save_pool p \<Rightarrow> save_pool p bd)"

text \<open>What takes something away: a set, a row, a cable of any of the three sorts.\<close>

definition board_loss :: "flow_req \<Rightarrow> bool" where
  "board_loss q = (case q of Send_req path body \<Rightarrow>
       path \<in> {''/api/sets/delete'', ''/api/pools/remove-step'', ''/api/sets/remove-pool''}
       \<or> (path = ''/api/consumers/set'' \<and> jget body ''set'' = JStr []) \<or> (path = ''/api/pools/connect-row'' \<and> jget body ''target'' = JNull)
     | _ \<Rightarrow> False)"

lemma board_send_asks: "(board_loss (Send_req path body) \<longrightarrow> y) \<Longrightarrow> asks_first board_loss (board_send path body bd) y"
  by (simp add: board_send_def)

lemma ask_and_send_asks: "asks_first board_loss (ask_and_send words title path body bd) y"
  by (auto simp: ask_and_send_def ask_value_def board_loss_def intro!: board_send_asks)

lemma no_loss [simp]:
  "\<not> board_loss (Send_req ''/api/pools/create'' b)" "\<not> board_loss (Send_req ''/api/sets/create'' b)" "\<not> board_loss (Send_req ''/api/sets/rename'' b)"
  "\<not> board_loss (Send_req ''/api/pools/arrange'' b)" "\<not> board_loss (Send_req ''/api/consumers/probe'' b)" "\<not> board_loss (Send_req ''/api/pools/add-model'' b)"
  "\<not> board_loss (Send_req ''/api/pools/remove-model'' b)" "\<not> board_loss (Send_req ''/api/pools/order'' b)" "\<not> board_loss (Send_req ''/api/sets/order'' b)"
  "\<not> board_loss (Send_req ''/api/consumers/order'' b)" "\<not> board_loss (Send_req ''/api/pools/save'' b)" "\<not> board_loss (Confirm_req w o')" "\<not> board_loss (Copy_req w)"
  by (simp_all add: board_loss_def)

lemma pools_act_asks: "asks_first board_loss (pools_act_flow t ml lc a bd) False"
proof (cases a)
  case (Cut c)
  then show ?thesis
    by (cases c) (auto simp: pools_act_flow_def cut_def cut_client_def cut_seat_def cut_row_def Let_def ask_and_send_asks split: option.splits)
next
  case (Save_order k ids)
  then show ?thesis by (auto simp: pools_act_flow_def save_order_def order_door_def intro!: board_send_asks)
next
  case (Rename_set s raw)
  then show ?thesis by (auto simp: pools_act_flow_def rename_set_def Let_def intro!: board_send_asks)
next
  case Arrange
  then show ?thesis by (auto simp: pools_act_flow_def arrange_def intro!: asks_first_then board_send_asks)
next
  case (Probe port path chosen)
  then show ?thesis by (auto simp: pools_act_flow_def run_probe_def ask_value_def Let_def split: option.splits prod.splits)
qed (auto simp: pools_act_flow_def add_pool_def add_set_def remove_set_def remove_row_def copy_url_def add_model_def remove_model_def save_pool_def ask_value_def Let_def
      ask_and_send_asks intro!: board_send_asks split: option.splits)

text \<open>
  Whatever the operator does, and whatever is answered, a set, a row or a cable is taken away only right after a yes to a
  question.
\<close>

theorem bfl_nothing_is_taken_away_unasked:
  "asked_first board_loss False (flow_events (pools_act_flow t ml lc a bd) answers)"
  by (rule asks_first_run) (rule pools_act_asks)

lemma probe_run_snoc: "probe_run (es @ [e]) = probe_step e (probe_run es)"
  by (simp add: probe_run_def)

text \<open>The window of a test is of the last one begun, and what it shows is the answer of a test of that port and path.\<close>

theorem bfl_late_answer_lands_nowhere:
  assumes "probe_run es = Some (a, r)"
  shows "\<exists>before b after. es = before @ Probe_begins b # after \<and> same_probe b a
    \<and> list_all (\<lambda>e. case e of Probe_lands c q \<Rightarrow> True | _ \<Rightarrow> False) after \<and> (r = Waiting_for \<or> Probe_lands a r \<in> set after)"
  using assms
proof (induction es arbitrary: a r rule: rev_induct)
  case (snoc e es)
  show ?case
  proof (cases e)
    case (Probe_begins b)
    then have "a = b" "r = Waiting_for" using snoc.prems by (simp_all add: probe_run_snoc)
    then show ?thesis using Probe_begins by (intro exI [of _ es] exI [of _ b] exI [of _ "[]"]) (simp add: same_probe_def)
  next
    case (Probe_lands c q)
    then obtain b p where w: "probe_run es = Some (b, p)" using snoc.prems by (auto simp: probe_run_snoc split: option.splits)
    from snoc.IH [OF w] obtain xs d ys where d: "es = xs @ Probe_begins d # ys" "same_probe d b"
        "list_all (\<lambda>e. case e of Probe_lands c q \<Rightarrow> True | _ \<Rightarrow> False) ys" "p = Waiting_for \<or> Probe_lands b p \<in> set ys" by blast
    show ?thesis
    proof (cases "same_probe b c")
      case True
      then have "a = c" "r = q" using snoc.prems Probe_lands w by (simp_all add: probe_run_snoc)
      then show ?thesis using d True Probe_lands
        by (intro exI [of _ xs] exI [of _ d] exI [of _ "ys @ [e]"]) (simp add: same_probe_def)
    next
      case False
      then have "a = b" "r = p" using snoc.prems Probe_lands w by (simp_all add: probe_run_snoc)
      then show ?thesis using d Probe_lands by (intro exI [of _ xs] exI [of _ d] exI [of _ "ys @ [e]"]) auto
    qed
  next
    case Probe_closes
    then show ?thesis using snoc.prems by (simp add: probe_run_snoc)
  qed
qed (simp add: probe_run_def)

definition chat_test :: test_asked where
  "chat_test = \<lparr>as_port = 8, as_path = ''/v1/chat/completions'', as_label = [], as_model = []\<rparr>"

lemma bfl_late_answer_lands_nowhere_witness:
  "\<exists>before b after. [Probe_begins chat_test, Probe_lands (chat_test\<lparr>as_path := ''/v1/embeddings''\<rparr>) (Answered JNull)] = before @ Probe_begins b # after
    \<and> same_probe b chat_test \<and> list_all (\<lambda>e. case e of Probe_lands c q \<Rightarrow> True | _ \<Rightarrow> False) after
    \<and> (Waiting_for = Waiting_for \<or> Probe_lands chat_test Waiting_for \<in> set after)"
  by (rule bfl_late_answer_lands_nowhere) (simp add: probe_run_def chat_test_def same_probe_def)

definition catalogues_ok :: "catalogues \<Rightarrow> bool" where
  "catalogues_ok s \<longleftrightarrow> distinct (ct_asked s) \<and> (\<forall>owner. owner \<in> set (ct_asked s) \<longleftrightarrow> map_of (ct_known s) owner = Some Reading)"

lemma map_of_others: "map_of (filter (\<lambda>(k, v). k \<noteq> x) kvs) y = (if y = x then None else map_of kvs y)"
  by (induction kvs) auto

lemma catalogue_step_ok: "catalogues_ok s \<Longrightarrow> catalogues_ok (fst (catalogue_step e s))"
proof (cases e)
  case (Look_at owner)
  moreover assume "catalogues_ok s"
  ultimately show ?thesis by (auto simp: catalogues_ok_def split: option.splits)
next
  case (Landed owner res)
  moreover assume "catalogues_ok s"
  ultimately show ?thesis by (auto simp: catalogues_ok_def map_of_others split: sum.splits)
next
  case (Picker_opens owner)
  moreover assume "catalogues_ok s"
  ultimately show ?thesis by (auto simp: catalogues_ok_def map_of_others worth_another_def split: option.splits if_splits)
qed

text \<open>An account's list is asked for once at a time: the readings on their way are those the page shows as being read.\<close>

theorem bfl_one_reading_of_a_list_at_a_time:
  "distinct (ct_asked (catalogue_run es no_catalogues))
   \<and> set (ct_asked (catalogue_run es no_catalogues)) = {owner. map_of (ct_known (catalogue_run es no_catalogues)) owner = Some Reading}"
proof -
  have "catalogues_ok s \<Longrightarrow> catalogues_ok (catalogue_run es s)" for s
    by (induction es arbitrary: s) (simp_all add: catalogue_step_ok)
  moreover have "catalogues_ok no_catalogues" by (simp add: no_catalogues_def catalogues_ok_def)
  ultimately show ?thesis by (auto simp: catalogues_ok_def)
qed

end
