(* ===== verification/BoardCards.thy ===== *)
theory BoardCards
  imports BoardCables BoardFlows
begin

text \<open>
  The cards of Routing's board as markup (\<open>pool-board.js\<close>): clients, sets, pools with their rows, accounts with their models and
  the picker of "+ model", machines with their cells, the chooser's list, the window of a test, and what the strip below says of a pool,
  a set, a model and a client. A card's own view gives the dictionary, the schedule's chip, a moment as a text, and the meters and
  errors of an account, which are drawn by other modules.
\<close>

record card_view =
  cw_t :: dict
  cw_ml :: "js \<Rightarrow> string"
  cw_lc :: compare
  cw_board :: js
  cw_closed :: "string \<Rightarrow> string option"
  cw_chip :: "string \<Rightarrow> string \<Rightarrow> string"
  cw_when :: "js \<Rightarrow> string"
  cw_clock :: "js \<Rightarrow> string"
  cw_encode :: "string \<Rightarrow> string"
  cw_pretty :: "string \<Rightarrow> string"
  cw_meters :: "string \<Rightarrow> (string \<times> rat list) list \<Rightarrow> string"
  cw_bars :: "string \<Rightarrow> js \<Rightarrow> string \<Rightarrow> string"
  cw_issues :: "js \<Rightarrow> bool \<Rightarrow> string"
  cw_expanded :: "string list"
  cw_picking :: "(js \<times> string) option"
  cw_catalogues :: "(string \<times> catalogue) list"
  cw_tests :: "string list"
  cw_settings :: "js list"
  cw_history :: "js list"
  cw_chosen :: "(string \<times> string) list"

section \<open>Parts\<close>

definition esc_t :: "card_view \<Rightarrow> string \<Rightarrow> string" where
  "esc_t v k = escape_html (cw_t v k [])"

definition col_head :: "string \<Rightarrow> string \<Rightarrow> string" where
  "col_head title button = ''<div class=\"pb-col-head\"><span>'' @ escape_html title @ ''</span>'' @ button @ ''</div>''"

definition column :: "string \<Rightarrow> string \<Rightarrow> string \<Rightarrow> bool \<Rightarrow> string" where
  "column key head body lst = head @ ''<div class=\"pb-col-body\"'' @ (if lst then '' data-pb-list=\"'' @ key @ ''\"'' else [])
     @ '' data-pb-scroll=\"'' @ key @ ''\">'' @ body @ ''</div>''"

definition seat :: "string \<Rightarrow> string \<Rightarrow> string" where
  "seat i html = ''<div class=\"pb-seat\" data-pb-seat=\"'' @ escape_html i @ ''\">'' @ html @ ''</div>''"

definition grip_sign :: string where
  "grip_sign = [CHR 0xE2, CHR 0xA0, CHR 0xBF]"

definition grip_html :: "card_view \<Rightarrow> string" where
  "grip_html v = ''<span class=\"pb-card-grip\" data-pb-card-grip tabindex=\"0\" role=\"button\" title=\"'' @ esc_t v ''pbCardGrip'' @ ''\" aria-label=\"''
     @ esc_t v ''pbCardGrip'' @ ''\">'' @ grip_sign @ ''</span>''"

definition pull_words :: "(string \<times> string \<times> string) list" where
  "pull_words = [(''model'', ''pb-pull-model'', ''pbPullModel''), (''pool'', ''pb-pull-pool'', ''pbPullPool''), (''set'', ''pb-pull-set'', ''pbPullSet'')]"

definition pull_html :: "card_view \<Rightarrow> string \<Rightarrow> string" where
  "pull_html v kind = (case map_of pull_words kind of None \<Rightarrow> []
     | Some (hook, hint) \<Rightarrow> ''<span class=\"pb-dot in\" data-pb-in data-t=\"'' @ hook @ ''\" title=\"'' @ esc_t v hint @ ''\"></span>'')"

definition model_grab_html :: "card_view \<Rightarrow> string" where
  "model_grab_html v = ''<span class=\"pb-model-grab\" data-pb-out=\"model\" data-t=\"pb-model-grab\" title=\"'' @ esc_t v ''pbModelGrab'' @ ''\" aria-label=\"''
     @ esc_t v ''pbModelGrab'' @ ''\">'' @ grip_sign @ ''</span>''"

definition wide_plus :: string where
  "wide_plus = [CHR 0xEF, CHR 0xBC, CHR 0x8B]"

definition new_out_html :: "string \<Rightarrow> string \<Rightarrow> string \<Rightarrow> string \<Rightarrow> string" where
  "new_out_html kind test_name label hint =
     ''<div class=\"pb-new-out\" data-pb-grab data-t=\"'' @ escape_html test_name @ ''\" title=\"'' @ escape_html hint @ ''\"><span>'' @ wide_plus @ '' '' @ escape_html label
     @ ''</span><span class=\"pb-dot out open\" data-pb-out=\"'' @ escape_html kind @ ''\" title=\"'' @ escape_html hint @ ''\"></span></div>''"

definition job_called :: "string \<Rightarrow> job option" where
  "job_called w = find (\<lambda>j. job_name j = w) jobs_all"

definition picture_sign :: string where
  "picture_sign = [CHR 0xF0, CHR 0x9F, CHR 0x96, CHR 0xBC]"

definition warning :: string where
  "warning = [CHR 0xE2, CHR 0x9A, CHR 0xA0]"

definition kind_html :: "card_view \<Rightarrow> js \<Rightarrow> string" where
  "kind_html v kind =
     (let jobs = List.map_filter (\<lambda>w. job_called (js_string w)) (list_of kind ''jobs''); pictures = (JStr ''image'' \<in> set (list_of kind ''inputs''));
          langs = map js_string (list_of kind ''languages'');
          said = js_join middot (filter (\<lambda>w. w \<noteq> []) [js_join '', '' (map (\<lambda>j. cw_t v (job_label j) []) jobs),
            if pictures then cw_t v ''pbKindPictures'' [] else [], if langs \<noteq> [] then js_join '', '' langs else []])
      in if \<not> js_truthy kind then []
         else if js_truthy (jget kind ''mixed'')
         then ''<span class=\"pb-kind mixed\" data-t=\"pb-kind\" data-t-state=\"mixed\" title=\"'' @ esc_t v ''pbKindMixed'' @ ''\">'' @ warning @ ''</span>''
         else if jobs = [] then []
         else ''<span class=\"pb-kind\" data-t=\"pb-kind\" data-t-state=\"known\" title=\"'' @ escape_html said @ ''\">''
           @ escape_html (concat (map job_mark jobs) @ (if pictures then picture_sign else [])) @ ''</span>'')"

section \<open>Clients\<close>

definition client_models :: "js \<Rightarrow> string list" where
  "client_models c = map js_string (list_of c ''models'')"

definition client_html :: "card_view \<Rightarrow> js \<Rightarrow> string" where
  "client_html v c =
     (let port = escape_html (js_string (jget c ''port'')); cabled = (js_text (jget c ''set'') \<noteq> []); label = escape_html (js_text (jget c ''label''));
          paused = (js_string (js_or (jget c ''mode'') (JStr ''open'')) \<in> {''paused'', ''drain''}); missed = miss_badge c;
          badge = (if missed \<noteq> [] then ''<span class=\"pb-miss-badge\" data-t=\"pb-client-misses-badge\" title=\"'' @ esc_t v ''pbClientMisses'' @ ''\">''
            @ warning @ '' '' @ escape_html missed @ ''</span>'' else [])
      in ''<article class=\"pb-card pb-client'' @ (if paused then '' paused'' else []) @ ''\" data-pb-client=\"'' @ port @ ''\" data-pb-node=\"client:'' @ port
         @ ''\" data-t=\"pb-client\" data-t-id=\"'' @ port @ ''\" data-t-state=\"'' @ (if cabled then ''cabled'' else ''none'') @ ''\"> '' @ grip_html v
         @ ''<span class=\"pb-client-name\" title=\"'' @ label @ ''\">'' @ label @ ''</span> <span class=\"pb-key\" title=\"'' @ esc_t v ''consumerKeyTitle'' @ ''\">''
         @ key_sign @ escape_html (js_text (jget c ''keyTail'')) @ ''</span> ''
         @ (if cabled then [] else ''<span class=\"pb-client-none\">'' @ esc_t v ''pbClientNoSet'' @ ''</span>'')
         @ '' <span class=\"pb-dot out'' @ (if cabled then [] else '' open'') @ ''\" data-pb-out=\"client\" data-port=\"'' @ port @ ''\" title=\"'' @ esc_t v ''pbDragClientSet''
         @ ''\"></span> <span class=\"pb-client-sub\"><span>'' @ escape_html (cw_t v ''pbClientModelsN'' [(''n'', nat_str (length (client_models c)))]) @ ''</span>''
         @ badge @ ''</span> </article>'')"

definition board_entry_html :: "card_view \<Rightarrow> string" where
  "board_entry_html v = (let base = entry_url (cw_board v) in if base = [] then []
     else ''<div class=\"pb-entry\" data-t=\"pb-entry\"><span class=\"pb-client-url\" title=\"'' @ escape_html (cw_t v ''consumerEntryTitle'' [] @ '': '' @ base) @ ''\">''
       @ escape_html (drop_scheme base) @ ''</span><button class=\"pb-tool\" type=\"button\" data-pb-copy-url data-t=\"pb-client-copy\" title=\"'' @ esc_t v ''consumerCopyEntry''
       @ ''\" aria-label=\"'' @ esc_t v ''consumerCopyEntry'' @ ''\">'' @ copy_sign @ ''</button></div>'')"

definition clients_html :: "card_view \<Rightarrow> string" where
  "clients_html v =
     (let clients = consumers_of (cw_lc v) (cw_board v); head = col_head (cw_t v ''topologyClientsSection'' []) [] in
      column ''clients'' head (board_entry_html v @ (if clients = []
        then ''<p class=\"pb-empty\" data-t=\"pb-no-clients\">'' @ esc_t v ''pbNoClients'' @ ''</p>''
        else concat (map (\<lambda>c. seat (js_string (jget c ''port'')) (client_html v c)) clients))) True)"

definition ask_link :: "card_view \<Rightarrow> js \<Rightarrow> string \<Rightarrow> string \<Rightarrow> string" where
  "ask_link v c path i = ''<a class=\"pb-ask\" href=\"'' @ escape_html (''/api/consumers/ask?port='' @ cw_encode v (js_string (jget c ''port'')) @ ''&path='' @ cw_encode v path)
     @ ''\" data-t=\"pb-client-ask\" data-t-id=\"'' @ i @ ''\" title=\"'' @ esc_t v ''pbClientAskTitle'' @ ''\">'' @ escape_html path @ ''</a>''"

definition asks_html :: "card_view \<Rightarrow> js \<Rightarrow> string" where
  "asks_html v c = (if entry_url (cw_board v) = [] then []
     else ''<div class=\"pb-client-asks\" data-t=\"pb-client-links\">'' @ ask_link v c ''/v1/models'' ''list''
       @ concat (map (\<lambda>m. ask_link v c (''/v1/models/'' @ m) ''model'') (client_models c)) @ ''</div>'')"

definition probe_model_html :: "card_view \<Rightarrow> js \<Rightarrow> string" where
  "probe_model_html v c =
     (let models = client_models c; chosen = probe_model_of c (cw_chosen v) in
      if length models < 2 then []
      else ''<select class=\"pb-probe-model\" data-pb-probe-model data-t=\"pb-client-probe-model\" aria-label=\"'' @ esc_t v ''pbProbeModel'' @ ''\" title=\"'' @ esc_t v ''pbProbeModel'' @ ''\">''
        @ concat (map (\<lambda>m. ''<option value=\"'' @ escape_html m @ ''\"'' @ (if m = chosen then '' selected'' else []) @ ''>'' @ escape_html m @ ''</option>'') models) @ ''</select>'')"

definition play_sign :: string where
  "play_sign = [CHR 0xE2, CHR 0x96, CHR 0xB6]"

definition drop_v1 :: "string \<Rightarrow> string" where
  "drop_v1 s = (if prefix ''/v1/'' s then drop 4 s else s)"

definition probe_button :: "card_view \<Rightarrow> js \<Rightarrow> string" where
  "probe_button v p = (let path = js_string (jget p ''path'') in
     ''<button class=\"pb-probe-btn\" type=\"button\" data-pb-probe=\"'' @ escape_html path @ ''\" data-t=\"pb-client-probe\" data-t-id=\"'' @ escape_html path @ ''\" title=\"''
     @ esc_t v (if js_truthy (jget p ''paid'') then ''pbProbePaidTitle'' else ''pbProbeTitle'') @ ''\">'' @ escape_html (drop_v1 path) @ '' '' @ play_sign @ ''</button>'')"

definition bool_text :: "bool \<Rightarrow> string" where
  "bool_text b = (if b then ''true'' else ''false'')"

definition probes_html :: "card_view \<Rightarrow> js \<Rightarrow> string" where
  "probes_html v c =
     (let table = list_of (cw_board v) ''clientProbes''; opened = (js_string (jget c ''port'') \<in> set (cw_tests v));
          head = ''<button class=\"pb-tests-head'' @ (if opened then '' open'' else []) @ ''\" type=\"button\" data-pb-tests aria-expanded=\"'' @ bool_text opened
            @ ''\" data-t=\"pb-client-tests\">'' @ esc_t v ''pbProbeRow'' @ ''</button>''
      in if table = [] then []
         else if \<not> opened then head
         else head @ ''<span class=\"pb-client-probes\">'' @ probe_model_html v c @ concat (map (probe_button v) table) @ ''</span>'')"

definition miss_line :: "card_view \<Rightarrow> js \<Rightarrow> string" where
  "miss_line v m = ''<li class=\"pb-miss\" data-t=\"pb-client-miss\" title=\"'' @ escape_html (cw_t v ''pbClientMissTitle'' [(''reason'', js_string (js_or (jget m ''reason'') (JStr dash)))]) @ ''\"><code>''
     @ escape_html (join_words (map js_text [jget m ''method'', jget m ''path''])) @ ''</code> <b>'' @ escape_html (js_string (jget m ''status'')) @ ''</b> <span>''
     @ [CHR 0xC3, CHR 0x97] @ escape_html (js_string (jget m ''count'')) @ middot @ escape_html (cw_when v (jget m ''last'')) @ ''</span></li>''"

definition misses_html :: "card_view \<Rightarrow> js \<Rightarrow> string" where
  "misses_html v c =
     (let items = list_of (jget c ''misses'') ''items''; more = jget (jget c ''misses'') ''more'' in
      if items = [] then []
      else ''<div class=\"pb-client-misses\" data-t=\"pb-client-misses\"><span class=\"pb-misses-head\">'' @ warning @ '' '' @ esc_t v ''pbClientMisses'' @ ''</span><ul>''
        @ concat (map (miss_line v) items)
        @ (if js_truthy more then ''<li class=\"pb-miss-more\">'' @ escape_html (cw_t v ''pbClientMissesMore'' [(''n'', js_string more)]) @ ''</li>'' else []) @ ''</ul></div>'')"

definition client_details :: "card_view \<Rightarrow> js \<Rightarrow> string" where
  "client_details v c = ''<div class=\"pb-dock-client\" data-pb-client=\"'' @ escape_html (js_string (jget c ''port'')) @ ''\" data-t=\"pb-dock-client\">''
     @ asks_html v c @ probes_html v c @ misses_html v c @ ''</div>''"

section \<open>The window of a test\<close>

definition drop_v1_end :: "string \<Rightarrow> string" where
  "drop_v1_end s = (if suffix ''/v1/'' s then take (length s - 4) s else if suffix ''/v1'' s then take (length s - 3) s else s)"

definition probe_status_html :: "js \<Rightarrow> string" where
  "probe_status_html r =
     (let ok = (case js_number (jget r ''status'') of Fin n \<Rightarrow> 200 \<le> n \<and> n < 300 | _ \<Rightarrow> False) in
      ''<p class=\"pb-probe-status '' @ (if ok then ''ok'' else ''bad'') @ ''\" data-t=\"pb-probe-status\"><b>'' @ escape_html (js_string (jget r ''status'')) @ ''</b>'' @ middot
      @ escape_html (js_string (js_or (jget r ''contentType'') (JStr dash))) @ middot @ escape_html (took_text (jget r ''ms'')) @ middot @ escape_html (bytes_text (jget r ''bytes'')) @ ''</p>'')"

text \<open>An answer as it is easiest to read: JSON laid out (\<open>cw_pretty\<close>), anything else as it came.\<close>

definition pretty_text :: "card_view \<Rightarrow> js \<Rightarrow> js \<Rightarrow> string" where
  "pretty_text v txt content_type = (if str_includes (js_lower (js_text content_type)) ''json'' then cw_pretty v (js_text_nn txt) else js_text_nn txt)"

definition probe_answer_html :: "card_view \<Rightarrow> js \<Rightarrow> string" where
  "probe_answer_html v r =
     ''<h4>'' @ esc_t v ''pbProbeSent'' @ ''</h4><pre class=\"pb-probe-text\">'' @ escape_html (js_text (jget (jget r ''request'') ''sent'')) @ ''</pre><h4>'' @ esc_t v ''pbProbeAnswer'' @ ''</h4>''
     @ probe_status_html r
     @ (if js_truthy (jget r ''audio'')
        then ''<audio controls src=\"data:'' @ escape_html (js_string (js_or (jget r ''contentType'') (JStr ''audio/mpeg''))) @ '';base64,'' @ escape_html (js_string (jget r ''audio'')) @ ''\"></audio>''
        else ''<pre class=\"pb-probe-text\">'' @ escape_html (pretty_text v (jget r ''text'') (jget r ''contentType'')) @ ''</pre>''
          @ (if js_truthy (jget r ''cut'') then ''<p class=\"pb-probe-note\">'' @ escape_html (cw_t v ''pbProbeCut'' [(''n'', js_string (jget r ''bytes''))]) @ ''</p>'' else []))"

definition close_tool :: "card_view \<Rightarrow> string \<Rightarrow> string \<Rightarrow> string" where
  "close_tool v mark name = ''<button class=\"pb-tool\" type=\"button\" '' @ mark @ '' data-t=\"'' @ name @ ''\" title=\"'' @ esc_t v ''topologyClose'' @ ''\" aria-label=\"''
     @ esc_t v ''topologyClose'' @ ''\">'' @ cross_sign @ ''</button>''"

definition probe_html :: "card_view \<Rightarrow> (test_asked \<times> probe_state) option \<Rightarrow> string" where
  "probe_html v w = (case w of None \<Rightarrow> []
     | Some (a, st) \<Rightarrow>
         ''<div class=\"pb-probe\" role=\"dialog\" aria-modal=\"true\" data-t=\"pb-probe\" data-t-state=\"''
         @ (case st of Waiting_for \<Rightarrow> ''busy'' | Failed_with err \<Rightarrow> ''failed'' | Answered r \<Rightarrow> ''done'')
         @ ''\"><div class=\"pb-probe-box\"><header class=\"pb-probe-head\"><b>'' @ escape_html (if as_label a \<noteq> [] then as_label a else rat_str (as_port a)) @ ''</b><code>POST ''
         @ escape_html (drop_v1_end (entry_url (cw_board v)) @ as_path a) @ ''</code>'' @ close_tool v ''data-pb-probe-close'' ''pb-probe-close'' @ ''</header>''
         @ (case st of Waiting_for \<Rightarrow> ''<p class=\"pb-probe-note\">'' @ esc_t v ''pbProbeWaiting'' @ ''</p>''
            | Failed_with err \<Rightarrow> ''<p class=\"pb-probe-note bad\">'' @ escape_html (cw_t v ''pbProbeFailed'' [(''error'', err)]) @ ''</p>''
            | Answered r \<Rightarrow> probe_answer_html v (js_or r (JObj [])))
         @ ''</div></div>'')"

section \<open>Sets\<close>

definition pool_row_name :: "js \<Rightarrow> js \<Rightarrow> string" where
  "pool_row_name bd pid = js_string (js_or (jget (find_id (list_of bd ''pools'') pid) ''name'') pid)"

definition pool_row_kind :: "card_view \<Rightarrow> js \<Rightarrow> string" where
  "pool_row_kind v pid = kind_html v (jget (find_id (list_of (cw_board v) ''pools'') pid) ''kind'')"

definition set_row_html :: "card_view \<Rightarrow> string \<Rightarrow> js \<Rightarrow> string" where
  "set_row_html v i pid =
     (let p = escape_html (js_string pid); name = escape_html (pool_row_name (cw_board v) pid) in
      ''<li class=\"pb-set-model\" data-pb-set-pool=\"'' @ p @ ''\" data-pb-node=\"setpool:'' @ i @ ''/'' @ p @ ''\" data-t=\"pb-set-model\" data-t-id=\"'' @ i @ ''/'' @ p
      @ ''\"><span class=\"pb-set-model-name\" title=\"'' @ name @ ''\">'' @ name @ ''</span>'' @ pool_row_kind v pid @ ''<span class=\"pb-dot out\" data-pb-set-out></span></li>'')"

definition new_model_out :: "card_view \<Rightarrow> string" where
  "new_model_out v = new_out_html ''set'' ''pb-set-add'' (cw_t v ''pbSetAddModel'' []) (cw_t v ''pbDragSet'' [])"

definition board_set_html :: "card_view \<Rightarrow> js \<Rightarrow> string" where
  "board_set_html v s =
     (let i = escape_html (js_string (jget s ''id'')); rows = concat (map (set_row_html v i) (list_of s ''pools'')) in
      ''<article class=\"pb-card pb-set\" data-pb-set=\"'' @ i @ ''\" data-pb-node=\"set:'' @ i @ ''\" data-t=\"pb-set\" data-t-id=\"'' @ i @ ''\"> '' @ pull_html v ''set''
      @ '' <header class=\"pb-pool-head\"> '' @ grip_html v @ ''<input class=\"pb-pool-name\" data-pb-set-name value=\"'' @ escape_html (js_text (jget s ''name'')) @ ''\" aria-label=\"''
      @ esc_t v ''pbSetName'' @ ''\" title=\"'' @ esc_t v ''pbSetName'' @ ''\" data-t=\"pb-set-name\"> <button class=\"pb-tool del\" type=\"button\" data-pb-set-delete data-t=\"pb-set-delete\" title=\"''
      @ esc_t v ''pbSetDelete'' @ ''\" aria-label=\"'' @ esc_t v ''pbSetDelete'' @ ''\">'' @ cross_sign @ ''</button> </header> ''
      @ (if rows \<noteq> [] then ''<ol class=\"pb-set-models\">'' @ rows @ ''</ol>'' else ''<p class=\"pb-set-empty\">'' @ esc_t v ''pbSetEmpty'' @ ''</p>'') @ '' ''
      @ (if rows \<noteq> [] then [] else new_model_out v) @ '' </article>'')"

definition sets_html :: "card_view \<Rightarrow> string" where
  "sets_html v =
     (let sets = list_of (cw_board v) ''sets'';
          head = col_head (cw_t v ''pbSetsSection'' []) (''<button class=\"pb-add\" type=\"button\" data-pb-add-set data-t=\"pb-add-set\">'' @ wide_plus @ '' '' @ esc_t v ''pbSetNew'' @ ''</button>'')
      in column ''sets'' head (if sets = [] then ''<p class=\"pb-empty\" data-t=\"pb-no-sets\">'' @ esc_t v ''pbNoSets'' @ ''</p>''
           else concat (map (\<lambda>s. seat (js_string (jget s ''id'')) (board_set_html v s)) sets)) True)"

definition set_details :: "card_view \<Rightarrow> js \<Rightarrow> string" where
  "set_details v s =
     (let i = escape_html (js_string (jget s ''id'')); pids = list_of s ''pools'' in
      ''<div class=\"pb-dock-set\" data-pb-set=\"'' @ i @ ''\" data-t=\"pb-dock-set\">''
      @ (if pids \<noteq> [] then ''<ol class=\"pb-dock-steps\">'' @ concat (map (\<lambda>pid. ''<li class=\"pb-dock-model\" data-t=\"pb-dock-model\" data-t-id=\"'' @ i @ ''/'' @ escape_html (js_string pid)
           @ ''\"><span class=\"pb-set-model-name\">'' @ escape_html (pool_row_name (cw_board v) pid) @ ''</span>'' @ pool_row_kind v pid @ ''</li>'') pids) @ ''</ol>'' @ new_model_out v
         else []) @ ''</div>'')"

section \<open>Pools\<close>

definition row_status_in :: "card_view \<Rightarrow> js \<Rightarrow> js \<Rightarrow> row_status" where
  "row_status_in v pool row = row_status_of (cw_t v) (cw_closed v) (cw_board v) row (pool_state (cw_board v) pool)"

definition pool_row_html :: "card_view \<Rightarrow> js \<Rightarrow> nat \<Rightarrow> js \<Rightarrow> string" where
  "pool_row_html v pool index row =
     (let rid = escape_html (js_string (jget row ''id'')); pid = escape_html (js_string (jget pool ''id'')); st = row_status_in v pool row;
          cabled = (target_key row \<noteq> []); single = (length (pool_steps pool) = 1)
      in ''<li class=\"pool-rung\"><div class=\"pool-step pb-row'' @ (if rs_look st = ''serving'' then '' serving'' else []) @ (if cabled then [] else '' open'')
         @ (if jget row ''enabled'' = JBool False then '' off'' else []) @ ''\" data-pool-step=\"'' @ rid @ ''\" data-pb-row=\"'' @ rid @ ''\" data-pb-node=\"row:'' @ pid @ ''/'' @ rid
         @ ''\" data-t=\"pb-row\" data-t-id=\"'' @ pid @ ''/'' @ rid @ ''\" data-t-state=\"'' @ escape_html (rs_look st) @ ''\"> ''
         @ (if single then [] else ''<span data-pool-grip tabindex=\"0\" role=\"button\" title=\"'' @ esc_t v ''poolOrder'' @ ''\" aria-label=\"'' @ esc_t v ''poolOrder'' @ ''\">'' @ grip_sign
            @ ''</span> <span class=\"pb-rank\">'' @ nat_str (index + 1) @ ''</span>'')
         @ '' '' @ target_html (cw_t v) (cw_ml v) (cw_board v) row @ '' '' @ status_html st
         @ '' <button class=\"pb-tool del\" type=\"button\" data-pb-row-remove data-t=\"pb-row-remove\" title=\"'' @ esc_t v ''poolStepRemove'' @ ''\" aria-label=\"'' @ esc_t v ''poolStepRemove'' @ ''\">''
         @ cross_sign @ ''</button> <span class=\"pb-dot out'' @ (if cabled then [] else '' open'') @ ''\" data-pb-out=\"row\" title=\"'' @ esc_t v ''pbDragRow'' @ ''\"></span> </div></li>'')"

definition new_row_out :: "card_view \<Rightarrow> string" where
  "new_row_out v = new_out_html ''new-row'' ''pb-add-row'' (cw_t v ''pbAddRow'' []) (cw_t v ''pbDragRow'' [])"

definition down_arrow :: string where
  "down_arrow = [CHR 0xE2, CHR 0x87, CHR 0xA3]"

definition indexed :: "(nat \<Rightarrow> 'a \<Rightarrow> string) \<Rightarrow> 'a list \<Rightarrow> string" where
  "indexed f xs = concat (map (\<lambda>i. f i (xs ! i)) [0..<length xs])"

definition pool_html :: "card_view \<Rightarrow> js \<Rightarrow> string" where
  "pool_html v pool =
     (let i = escape_html (js_string (jget pool ''id'')); steps = pool_steps pool; n = length steps;
          look = (if n = 1 then '' single'' else if n > 1 then '' turns'' else []);
          turns = (if n > 1 then ''<span class=\"pb-turns\" data-t=\"pb-pool-turns\" title=\"'' @ esc_t v ''pbTurnTitle'' @ ''\">'' @ down_arrow @ '' '' @ escape_html (cw_t v ''pbPoolTurns'' [(''n'', nat_str n)]) @ ''</span>'' else [])
      in ''<article class=\"pb-card pb-pool'' @ look @ ''\" data-pb-pool=\"'' @ i @ ''\" data-pool-id=\"'' @ i @ ''\" data-pb-node=\"pool:'' @ i @ ''\" data-t=\"pb-pool\" data-t-id=\"'' @ i @ ''\"> ''
         @ pull_html v ''pool'' @ '' <header class=\"pb-pool-head\"> '' @ grip_html v @ '' <span class=\"pb-pool-id\" aria-hidden=\"true\">id:</span> <input class=\"pb-pool-name\" data-pb-pool-name value=\"''
         @ escape_html (js_text (jget pool ''name'')) @ ''\" aria-label=\"'' @ esc_t v ''poolName'' @ ''\" title=\"'' @ esc_t v ''poolName'' @ ''\" data-t=\"pb-pool-name\"> '' @ turns @ kind_html v (jget pool ''kind'')
         @ '' <button class=\"pb-tool del\" type=\"button\" data-pb-pool-delete data-t=\"pb-pool-delete\" title=\"'' @ esc_t v ''poolDelete'' @ ''\" aria-label=\"'' @ esc_t v ''poolDelete'' @ ''\">'' @ cross_sign
         @ ''</button> </header> <ol class=\"pool-ladder pb-rows\">'' @ indexed (pool_row_html v pool) steps @ ''</ol> '' @ (if n > 0 then [] else new_row_out v) @ '' </article>'')"

definition swap_sign :: string where
  "swap_sign = [CHR 0xE2, CHR 0x87, CHR 0x85]"

definition pools_html :: "card_view \<Rightarrow> string" where
  "pools_html v =
     (let pools = list_of (cw_board v) ''pools'';
          head = col_head (cw_t v ''pbPoolsSection'' []) (''<span class=\"pb-head-tools\"><button class=\"pb-add\" type=\"button\" data-pb-arrange data-t=\"pb-arrange\" title=\"'' @ esc_t v ''pbArrangeTitle'' @ ''\">''
            @ swap_sign @ '' '' @ esc_t v ''pbArrange'' @ ''</button><button class=\"pb-add\" type=\"button\" data-pb-add-pool data-t=\"pb-add-pool\">'' @ wide_plus @ '' '' @ esc_t v ''poolNew'' @ ''</button></span>'')
      in column ''pools'' head (if pools = [] then ''<p class=\"pb-empty\" data-t=\"pb-no-pools\">'' @ esc_t v ''pbNoPools'' @ ''</p>''
           else concat (map (\<lambda>p. seat (js_string (jget p ''id'')) (pool_html v p)) pools)) True)"

definition has_field :: "js \<Rightarrow> string \<Rightarrow> bool" where
  "has_field v k = (k \<in> set (js_keys v))"

definition stated_html :: "card_view \<Rightarrow> js \<Rightarrow> string" where
  "stated_html v pool =
     (let told = window_text (jget pool ''window'') in
      if \<not> has_field pool ''window'' then []
      else if told \<noteq> [] then ''<p class=\"pb-stated\" data-t=\"pb-pool-window-stated\" data-t-state=\"stated\" title=\"'' @ escape_html (js_string (jget pool ''window'')) @ ''\">''
        @ escape_html (cw_t v ''pbPoolWindowStated'' [(''window'', told)]) @ ''</p>''
      else ''<p class=\"pb-stated none\" data-t=\"pb-pool-window-stated\" data-t-state=\"none\">'' @ esc_t v ''pbPoolWindowNone'' @ ''</p>'')"

definition settings_html :: "card_view \<Rightarrow> js \<Rightarrow> string" where
  "settings_html v pool =
     (let opened = (jget pool ''id'' \<in> set (cw_settings v));
          head = ''<button class=\"pb-settings-head'' @ (if opened then '' open'' else []) @ ''\" type=\"button\" data-pb-settings aria-expanded=\"'' @ bool_text opened @ ''\" data-t=\"pb-settings\">''
            @ esc_t v ''poolSettings'' @ ''</button>''
      in if \<not> opened then head
         else head @ ''<div class=\"pb-settings\" data-t=\"pb-settings-panel\"> <label class=\"pb-window\" title=\"'' @ esc_t v ''poolWindowHint'' @ ''\"><span>'' @ esc_t v ''topologyCloudContextLength''
           @ ''</span> <input type=\"number\" min=\"1\" step=\"1\" inputmode=\"numeric\" data-pb-pool-window data-t=\"pb-pool-window\" value=\"''
           @ escape_html (if js_truthy (jget pool ''contextLength'') then js_string (jget pool ''contextLength'') else []) @ ''\" placeholder=\"'' @ esc_t v ''topologyCloudContextEmpty''
           @ ''\"></label> <label class=\"pb-check\" title=\"'' @ esc_t v ''poolWindowAutoHint'' @ ''\"><input type=\"checkbox\" data-pb-pool-window-auto data-t=\"pb-pool-window-auto\"''
           @ (if js_truthy (jget pool ''contextAuto'') then '' checked'' else []) @ ''><span>'' @ esc_t v ''poolWindowAuto'' @ ''</span></label> '' @ stated_html v pool @ '' </div>'')"

definition event_row_name :: "card_view \<Rightarrow> js \<Rightarrow> js \<Rightarrow> string" where
  "event_row_name v pool i = (case find (\<lambda>s. jget s ''id'' = i) (pool_steps pool) of
       Some row \<Rightarrow> row_name (cw_t v) (cw_ml v) (cw_board v) row | None \<Rightarrow> js_string (js_or i (JStr dash)))"

definition pool_history_html :: "card_view \<Rightarrow> js \<Rightarrow> js list \<Rightarrow> string" where
  "pool_history_html v pool es = ''<div class=\"pb-history\" data-t=\"pb-history\">''
     @ concat (map (\<lambda>e. ''<div><time>'' @ escape_html (cw_clock v (jget e ''at'')) @ ''</time>'' @ escape_html (event_row_name v pool (jget e ''from'')) @ right_arrow
         @ escape_html (event_row_name v pool (jget e ''to'')) @ ''</div>'') es) @ ''</div>''"

definition dock_step_html :: "card_view \<Rightarrow> js \<Rightarrow> nat \<Rightarrow> js \<Rightarrow> string" where
  "dock_step_html v pool index row =
     (let st = row_status_in v pool row; n = length (pool_steps pool);
          goes_on = (if index + 1 < n then turn_text (cw_t v) (cw_board v) row else []);
          hint = (if goes_on = [] then [] else ''<div class=\"pb-turn\" data-t=\"pb-turn\" title=\"'' @ esc_t v ''pbTurnTitle'' @ ''\">'' @ [CHR 0xE2, CHR 0x86, CHR 0x93] @ '' '' @ escape_html goes_on @ ''</div>'');
          word = (if rs_look st = ''open'' then [] else ''<span class=\"pb-status '' @ escape_html (rs_look st) @ ''\" title=\"'' @ escape_html (rs_hint st) @ ''\">'' @ escape_html (rs_words st) @ ''</span>'')
      in ''<li class=\"pb-dock-step\" data-t=\"pb-dock-step\" data-t-id=\"'' @ escape_html (js_string (jget pool ''id'')) @ ''/'' @ escape_html (js_string (jget row ''id'')) @ ''\" data-t-state=\"''
         @ escape_html (rs_look st) @ ''\"><span class=\"pb-rank\">'' @ nat_str (index + 1) @ ''</span>'' @ target_html (cw_t v) (cw_ml v) (cw_board v) row @ word @ hint @ ''</li>'')"

definition pool_details :: "card_view \<Rightarrow> js \<Rightarrow> string" where
  "pool_details v pool =
     (let i = escape_html (js_string (jget pool ''id'')); steps = pool_steps pool; es = pool_events (cw_board v) pool;
          opened = (jget pool ''id'' \<in> set (cw_history v) \<and> es \<noteq> []);
          history = (if es = [] then [] else ''<button class=\"pb-history-toggle'' @ (if opened then '' open'' else []) @ ''\" type=\"button\" data-pb-history aria-expanded=\"'' @ bool_text opened
            @ ''\" data-t=\"pb-history-toggle\">'' @ esc_t v ''poolHistory'' @ ''</button>'')
      in ''<div class=\"pb-dock-pool\" data-pb-pool=\"'' @ i @ ''\" data-pool-id=\"'' @ i @ ''\" data-t=\"pb-dock-pool\">''
         @ (if steps \<noteq> [] then ''<ol class=\"pb-dock-steps\">'' @ indexed (dock_step_html v pool) steps @ ''</ol>'' @ new_row_out v else [])
         @ settings_html v pool @ history @ (if opened then pool_history_html v pool es else []) @ ''</div>'')"

end
