(* ===== verification/BoardModels.thy ===== *)
theory BoardModels
  imports BoardCards BoardDrag
begin

text \<open>
  The models' column of Routing's board and its chooser as markup (\<open>pool-board.js\<close>): an account's card with its models, its limits and
  the list of "+ model", a machine's card with its cells, what the strip says of a model, and the list a click on an output opens.
\<close>

section \<open>An account\<close>

definition owner_of :: "js \<Rightarrow> string" where
  "owner_of account = js_string (js_or (jget account ''testAliasOf'') (jget account ''id''))"

definition unused_html :: "card_view \<Rightarrow> string" where
  "unused_html v = ''<span class=\"pb-use none\" data-t=\"pb-model-unused\">'' @ esc_t v ''pbInNoPool'' @ ''</span>''"

definition limits_html :: "card_view \<Rightarrow> js \<Rightarrow> js list \<Rightarrow> string" where
  "limits_html v account models = (let bars = cw_meters v (owner_of account) (stops_of (cw_board v) account models) in
     if bars = [] then [] else ''<div class=\"pb-limits\" data-t=\"pb-limits\">'' @ bars @ ''</div>'')"

definition issues_html :: "card_view \<Rightarrow> js \<Rightarrow> string" where
  "issues_html v account = (let said = cw_issues v account (is_subscription account) in
     if said = [] then [] else ''<div class=\"pb-account-issues\" data-t=\"pb-account-issues\">'' @ said @ ''</div>'')"

definition account_model_html :: "card_view \<Rightarrow> js \<Rightarrow> (string \<times> string list) list \<Rightarrow> js \<Rightarrow> string" where
  "account_model_html v account uses m =
     (let t = cw_t v; key = target_key (JObj [(''accountId'', jget account ''id''), (''model'', m)]); st = step_of (cw_board v) (jget account ''id'') m;
          model = js_string m; esc = escape_html model; i = escape_html key; unused = (uses_of uses key = []);
          unlisted = (if js_truthy (jget st ''unlisted'') then ''<span class=\"pool-step-unlisted\" title=\"'' @ esc_t v ''cloudModelUnlisted'' @ ''\">'' @ warning @ ''</span>'' else []);
          remove = (if unused then ''<button class=\"pb-tool del pb-model-remove\" type=\"button\" data-pb-model-remove data-t=\"pb-model-remove\" title=\"''
             @ escape_html (t ''pbModelRemove'' [(''model'', model)]) @ ''\" aria-label=\"'' @ escape_html (t ''pbModelRemove'' [(''model'', model)]) @ ''\">'' @ cross_sign @ ''</button>'' else []);
          marks = switch_chip_html t (levels_of (cw_board v) (js_string (jget account ''id'')) model) @ level_tag_html t st @ cw_chip v key model
             @ (if unused then unused_html v else []) @ remove
      in ''<div class=\"pb-model\" data-pb-model data-pb-key=\"'' @ i @ ''\" data-pb-node=\"model:'' @ i @ ''\" data-account=\"'' @ escape_html (js_string (jget account ''id'')) @ ''\" data-model=\"'' @ esc
         @ ''\" data-name=\"'' @ esc @ ''\" data-t=\"pb-model\" data-t-id=\"'' @ i @ ''\"> '' @ pull_html v ''model'' @ '' <span class=\"pb-model-head\">'' @ model_grab_html v
         @ ''<span class=\"pb-model-name\" title=\"'' @ esc @ ''\"><code>'' @ esc @ ''</code>'' @ unlisted @ ''</span><span class=\"pb-chips\">'' @ marks @ ''</span></span> </div>'')"

definition add_model_html :: "card_view \<Rightarrow> js \<Rightarrow> string" where
  "add_model_html v account = (let i = escape_html (js_string (jget account ''id'')) in
     ''<button class=\"pb-add-model\" type=\"button\" data-pb-add-model=\"'' @ i @ ''\" data-t=\"pb-add-model\" data-t-id=\"'' @ i @ ''\">'' @ wide_plus @ '' '' @ esc_t v ''pbAddModel'' @ ''</button>'')"

text \<open>What the board knows of the list, as the words under it.\<close>

definition login_word :: "js \<Rightarrow> string" where
  "login_word account = (if is_subscription account then ''poolLoginNeeded'' else ''cloudNoKeyYet'')"

definition known_list :: "catalogue option \<Rightarrow> js" where
  "known_list c = (case c of Some (Read_as v) \<Rightarrow> v | Some Reading \<Rightarrow> JObj [(''loading'', JBool True)]
     | Some (Unread err) \<Rightarrow> JObj [(''error'', JStr err)] | None \<Rightarrow> JNull)"

definition pick_word :: "card_view \<Rightarrow> js \<Rightarrow> js \<Rightarrow> picks \<Rightarrow> string \<Rightarrow> string" where
  "pick_word v account lst pick query =
     (let t = cw_t v in
      if \<not> js_truthy (jget account ''hasCredential'') then t (login_word account) []
      else if js_truthy (jget lst ''loading'') then t ''pbCatalogueReading'' []
      else if js_truthy (jget lst ''error'') then warning @ '' '' @ t ''pbCatalogueFailed'' []
      else if pi_chat pick = 0 \<and> js_nullish (jget lst ''fetchedAt'') then t ''pbCatalogueNotYet'' []
      else if pi_chat pick = 0 then t ''pbCatalogueEmpty'' []
      else if pi_free pick = 0 then t ''pbModelsAllAdded'' []
      else if js_trim query \<noteq> [] \<and> pi_models pick = [] then t ''pbModelsNoMatch'' []
      else if pi_more pick \<noteq> 0 then t ''pbModelsMore'' [(''n'', nat_str (pi_more pick))] else [])"

definition pick_button :: "js \<Rightarrow> string" where
  "pick_button m = (let model = escape_html (js_string (jget m ''id'')); w = window_text (jget m ''contextLength'') in
     ''<button class=\"pb-pick-model\" type=\"button\" data-pb-pick-model=\"'' @ model @ ''\" data-t=\"pb-pick-model\" data-t-id=\"'' @ model @ ''\"><code>'' @ model @ ''</code>''
     @ (if w \<noteq> [] then ''<small>'' @ escape_html w @ ''</small>'' else []) @ ''</button>'')"

definition pick_body_html :: "card_view \<Rightarrow> js \<Rightarrow> js list \<Rightarrow> string \<Rightarrow> string" where
  "pick_body_html v account on_card query =
     (let lst = (if js_truthy (jget account ''hasCredential'') then known_list (map_of (cw_catalogues v) (owner_of account)) else JNull);
          pick = candidates lst on_card query pick_rows; rows = concat (map pick_button (pi_models pick)); word = pick_word v account lst pick query;
          typed = (if pi_typed pick = [] then [] else ''<button class=\"pb-pick-model typed\" type=\"button\" data-pb-pick-model=\"'' @ escape_html (pi_typed pick)
            @ ''\" data-t=\"pb-pick-typed\">'' @ escape_html (cw_t v ''pbModelTyped'' [(''model'', pi_typed pick)]) @ ''</button>'');
          note = (if word = [] then [] else ''<div class=\"pb-picker-note\" data-t=\"pb-pick-note\"''
            @ (if js_truthy (jget lst ''error'') then '' title=\"'' @ escape_html (js_string (jget lst ''error'')) @ ''\"'' else []) @ ''>'' @ escape_html word @ ''</div>'')
      in (if rows \<noteq> [] then ''<div class=\"pb-picker-list\">'' @ rows @ ''</div>'' else []) @ note @ typed)"

definition picker_html :: "card_view \<Rightarrow> js \<Rightarrow> js list \<Rightarrow> string \<Rightarrow> string" where
  "picker_html v account on_card query =
     (let i = escape_html (js_string (jget account ''id'')) in
      ''<div class=\"pb-picker\" data-pb-picker=\"'' @ i @ ''\" data-t=\"pb-picker\" data-t-id=\"'' @ i
      @ ''\"> <div class=\"pb-picker-head\"> <input class=\"pb-picker-find\" type=\"search\" data-pb-pick-query data-t=\"pb-pick-query\" value=\"'' @ escape_html query
      @ ''\" placeholder=\"'' @ esc_t v ''poolStepFind'' @ ''\" aria-label=\"'' @ esc_t v ''poolStepFind'' @ ''\" autocomplete=\"off\" spellcheck=\"false\"> ''
      @ close_tool v ''data-pb-pick-close'' ''pb-pick-close'' @ '' </div> <div class=\"pb-picker-body\" data-pb-pick-body>'' @ pick_body_html v account on_card query @ ''</div> </div>'')"

definition account_html :: "card_view \<Rightarrow> (string \<times> string list) list \<Rightarrow> js \<Rightarrow> string" where
  "account_html v uses account =
     (let i = escape_html (js_string (jget account ''id'')); models = shown_of (cw_board v) account; connected = js_truthy (jget account ''hasCredential'');
          reads = (is_subscription account \<and> connected); name = escape_html (js_string (js_or (jget account ''name'') (jget account ''id'')));
          query = (case cw_picking v of Some (a, q) \<Rightarrow> if a = jget account ''id'' then Some q else None | None \<Rightarrow> None);
          word = cw_t v (if connected then ''cloudConnected'' else login_word account) []
      in ''<article class=\"pb-card pb-src'' @ (if models \<noteq> [] then [] else '' empty'') @ ''\" data-pb-account=\"'' @ i @ ''\" data-t=\"pb-account\" data-t-id=\"'' @ i @ ''\"> <div class=\"pb-src-head\"><b title=\"''
         @ name @ ''\">'' @ name @ ''</b>'' @ (if query \<noteq> None then [] else add_model_html v account) @ '' <span class=\"pb-src-note\" data-t=\"pb-account-state\" data-t-state=\"''
         @ (if connected then ''connected'' else ''waiting'') @ ''\"><i class=\"pb-led'' @ (if connected then [] else '' wait'') @ ''\" aria-hidden=\"true\"></i>'' @ escape_html word @ ''</span> </div> ''
         @ issues_html v account @ '' '' @ (if reads then limits_html v account models else []) @ '' '' @ concat (map (account_model_html v account uses) models)
         @ (if models \<noteq> [] then [] else ''<p class=\"pb-src-empty\" data-t=\"pb-models-none\">'' @ esc_t v ''pbModelsNone'' @ ''</p>'')
         @ (case query of Some q \<Rightarrow> picker_html v account models q | None \<Rightarrow> []) @ '' </article>'')"

section \<open>A machine\<close>

definition cell_lamps :: "(string \<times> string) list" where
  "cell_lamps = [(''running'', []), (''stopped'', ''off''), (''starting'', ''wait''), (''stopping'', ''wait''), (''failed'', ''bad''), (''unknown'', ''off'')]"

definition lamp_of :: "string \<Rightarrow> string" where
  "lamp_of st = (case map_of cell_lamps st of Some w \<Rightarrow> w | None \<Rightarrow> ''off'')"

definition lamp_class :: "string \<Rightarrow> string" where
  "lamp_class st = ''pb-led'' @ (if lamp_of st \<noteq> [] then '' '' @ lamp_of st else [])"

definition cell_jobs_of :: "js \<Rightarrow> js \<Rightarrow> job list" where
  "cell_jobs_of bd out = List.map_filter job_called (oc_jobs bd out)"

definition job_slot :: "card_view \<Rightarrow> js \<Rightarrow> string" where
  "job_slot v out = (case cell_jobs_of (cw_board v) out of
       [] \<Rightarrow> ''<span class=\"pb-model-mark\" aria-hidden=\"true\"></span>''
     | j # js \<Rightarrow> ''<span class=\"pb-model-mark\" aria-hidden=\"true\" title=\"'' @ escape_html (js_join '', '' (map (\<lambda>j. cw_t v (job_label j) []) (j # js))) @ ''\">'' @ escape_html (job_mark j) @ ''</span>'')"

definition copies_sign :: string where
  "copies_sign = [CHR 0xC3, CHR 0x97]"

definition board_cell_html :: "card_view \<Rightarrow> (string \<times> string list) list \<Rightarrow> js \<Rightarrow> string" where
  "board_cell_html v uses out =
     (let bd = cw_board v; key = target_key (JObj [(''output'', jget out ''id'')]); i = escape_html key; st = oc_state bd out; said = esc_t v (cell_state_word st);
          name = escape_html (oc_row_name (cw_ml v) bd out); copies = oc_copies bd out;
          word = (if st \<noteq> ''running'' \<and> st \<noteq> ''stopped'' then ''<span class=\"pb-cell-state\">'' @ said @ ''</span>'' else []);
          port = (if of_machine out then [] else ''<span class=\"pb-cell-port\">:'' @ escape_html (js_string (jget out ''upstreamPort'')) @ ''</span>'');
          many = (if of_machine out \<and> copies > 1 then ''<span class=\"pb-copies\" title=\"'' @ escape_html (cw_t v ''pbCopiesTitle'' [(''n'', nat_str copies)]) @ ''\">'' @ copies_sign @ nat_str copies @ ''</span>'' else []);
          lamp = ''<span class=\"'' @ lamp_class st @ ''\" role=\"img\" title=\"'' @ said @ ''\" aria-label=\"'' @ said @ ''\"></span>''
      in ''<div class=\"pb-model machine\" data-pb-model data-pb-key=\"'' @ i @ ''\" data-pb-node=\"model:'' @ i @ ''\" data-output=\"'' @ escape_html (js_string (jget out ''id'')) @ ''\" data-name=\"'' @ name
         @ ''\" data-t=\"pb-model\" data-t-id=\"'' @ i @ ''\" data-t-state=\"'' @ escape_html st @ ''\"> '' @ pull_html v ''model'' @ '' <span class=\"pb-model-head\">'' @ model_grab_html v @ job_slot v out
         @ ''<span class=\"pb-model-name\" title=\"'' @ name @ ''\">'' @ name @ ''</span>'' @ many @ port @ ''<span class=\"pb-chips\">'' @ cw_chip v key (out_label (cw_ml v) bd out)
         @ (if uses_of uses key \<noteq> [] then [] else unused_html v) @ word @ lamp @ ''</span></span> </div>'')"

definition machine_fold :: "card_view \<Rightarrow> (string \<times> string list) list \<Rightarrow> out_group \<Rightarrow> cell_fold" where
  "machine_fold v uses g = fold_cells (og_outs g) (oc_state (cw_board v)) (\<lambda>o'. target_key (JObj [(''output'', jget o' ''id'')]) \<in> fst ` set uses)
     ((''m:'' @ og_key g) \<in> set (cw_expanded v))"

definition more_button :: "card_view \<Rightarrow> string \<Rightarrow> bool \<Rightarrow> string \<Rightarrow> string" where
  "more_button v key opened words = ''<button class=\"pb-more\" type=\"button\" data-pb-more=\"'' @ escape_html key @ ''\" aria-expanded=\"'' @ bool_text opened @ ''\">'' @ escape_html words @ ''</button>''"

definition monitor_sign :: string where
  "monitor_sign = ''<svg viewBox=\"0 0 16 16\" width=\"14\" height=\"14\" fill=\"none\" stroke=\"currentColor\" stroke-width=\"1.4\" stroke-linecap=\"round\" stroke-linejoin=\"round\"><path d=\"M2 3.5h12v8H2z M6 13.5h4 M8 11.5v2\"/></svg>''"

text \<open>A mark of two signs makes the slot before the names wide on the whole card.\<close>

definition wide_job :: "job \<Rightarrow> bool" where
  "wide_job j = (j = SpeechTranslate)"

definition machine_html :: "card_view \<Rightarrow> (string \<times> string list) list \<Rightarrow> out_group \<Rightarrow> string" where
  "machine_html v uses g =
     (let bd = cw_board v; key = ''m:'' @ og_key g; f = machine_fold v uses g; expanded = (key \<in> set (cw_expanded v)); k = escape_html (og_key g);
          more = (if cfo_quiet f \<noteq> [] then more_button v key False (cw_t v ''pbMoreCells'' [(''n'', nat_str (length (cfo_quiet f)))])
            else if expanded \<and> cfo_folded f then more_button v key True (cw_t v ''pbFewer'' []) else []);
          hover_addr = (if og_address g \<noteq> [] \<and> og_address g \<noteq> og_name g then '' title=\"'' @ escape_html (og_address g) @ ''\"'' else []);
          wide = list_ex (\<lambda>o'. list_ex wide_job (cell_jobs_of bd o')) (cfo_shown f)
      in ''<article class=\"pb-card pb-src'' @ (if wide then '' wide-marks'' else []) @ ''\" data-pb-machine=\"'' @ k @ ''\" data-t=\"pb-machine\" data-t-id=\"'' @ k
         @ ''\"> <div class=\"pb-src-head\"><span class=\"pb-src-icon\" aria-hidden=\"true\">'' @ monitor_sign @ ''</span><b'' @ hover_addr @ ''>'' @ escape_html (og_name g)
         @ ''</b><span class=\"pb-src-note\" data-t=\"pb-machine-cells\">'' @ escape_html (cells_summary (cw_t v) (map (oc_state bd) (og_outs g))) @ ''</span></div> ''
         @ concat (map (board_cell_html v uses) (cfo_shown f)) @ more @ '' </article>'')"

definition models_html :: "card_view \<Rightarrow> string" where
  "models_html v =
     (let bd = cw_board v; accounts = list_of bd ''cloudAccounts''; machines = board_machines bd; head = col_head (cw_t v ''topologyModelsLabel'' []) [];
          uses = model_uses (list_of bd ''pools'')
      in column ''models'' head (if accounts = [] \<and> machines = [] then ''<p class=\"pb-empty\" data-t=\"pb-no-models\">'' @ esc_t v ''pbNoModels'' @ ''</p>''
           else concat (map (account_html v uses) accounts) @ concat (map (machine_html v uses) machines)) False)"

section \<open>What the strip says of a model\<close>

definition account_part :: "string \<Rightarrow> string" where
  "account_part key = hd (js_split CHR ''/'' (drop 4 key))"

definition model_part :: "string \<Rightarrow> string" where
  "model_part key = js_join ''/'' (tl (js_split CHR ''/'' (drop 4 key)))"

definition model_details :: "card_view \<Rightarrow> string \<Rightarrow> string" where
  "model_details v key =
     (if prefix ''acc:'' key then
        (let account = board_account (cw_board v) (JStr (account_part key)); connected = js_truthy (jget account ''hasCredential'');
             reads = (is_subscription account \<and> connected); bars = (if reads then cw_bars v (owner_of account) account (model_part key) else []);
             note = cw_t v (if connected then ''cloudConnected'' else login_word account) []
         in if \<not> js_truthy account then []
            else ''<div class=\"pb-dock-levels\" data-t=\"pb-dock-levels\">'' @ (if bars \<noteq> [] then bars else ''<p class=\"pb-dock-note\">'' @ escape_html note @ ''</p>'') @ ''</div>'')
      else if prefix ''out:'' key then
        (case board_output (cw_board v) (JStr (drop 4 key)) of None \<Rightarrow> []
         | Some (out, g) \<Rightarrow> (let st = cell_state (oc_state (cw_board v) out) in
             ''<div class=\"pb-dock-cell\" data-t=\"pb-dock-cell\" data-t-state=\"'' @ escape_html st @ ''\"><span class=\"'' @ lamp_class st @ ''\" aria-hidden=\"true\"></span>''
             @ esc_t v (cell_state_word st) @ ''</div>''))
      else [])"

section \<open>The chooser\<close>

definition chooser_titles :: "(string \<times> string) list" where
  "chooser_titles = [(''client'', ''pbChooseSet''), (''set'', ''pbChoosePool''), (''row'', ''pbChooseModel''), (''new-row'', ''pbChooseModel''), (''model'', ''pbChooseModelPool'')]"

definition chooser_empty :: "(string \<times> string) list" where
  "chooser_empty = [(''client'', ''pbNoSets''), (''set'', ''pbNoPools''), (''row'', ''pbNoModels''), (''new-row'', ''pbNoModels'')]"

definition word_or :: "(string \<times> string) list \<Rightarrow> string \<Rightarrow> string \<Rightarrow> string" where
  "word_or table k other = (case map_of table k of Some w \<Rightarrow> w | None \<Rightarrow> other)"

definition check_sign :: string where
  "check_sign = [CHR 0xE2, CHR 0x9C, CHR 0x93]"

definition choice_html :: "card_view \<Rightarrow> choice \<Rightarrow> string" where
  "choice_html v x = ''<button class=\"pb-choice'' @ (if co_now x then '' now'' else []) @ ''\" type=\"button\" data-pb-choose=\"'' @ escape_html (co_key x) @ ''\" data-t=\"pb-choice\" data-t-id=\"''
     @ escape_html (co_key x) @ ''\"'' @ (if co_now x then '' disabled title=\"'' @ esc_t v ''pbChooseNow'' @ ''\"'' else []) @ ''><span class=\"pb-choice-name\">''
     @ (if co_now x then check_sign @ '' '' else []) @ escape_html (co_label x) @ ''</span>'' @ (if co_hint x \<noteq> [] then ''<small>'' @ escape_html (co_hint x) @ ''</small>'' else []) @ ''</button>''"

definition choose_body_html :: "card_view \<Rightarrow> chooser \<Rightarrow> string" where
  "choose_body_html v c =
     (let found = found_of (choices (cw_t v) (cw_ml v) (cw_lc v) (cw_board v) (ch_source c)) (ch_query c) pick_rows;
          word = (if fc_total found = 0 then cw_t v (word_or chooser_empty (source_kind (ch_source c)) ''pbChooseNoMatch'') []
            else if fc_list found = [] then cw_t v ''pbChooseNoMatch'' [] else if fc_more found \<noteq> 0 then cw_t v ''pbModelsMore'' [(''n'', nat_str (fc_more found))] else [])
      in concat (map (choice_html v) (fc_list found)) @ (if word = [] then [] else ''<div class=\"pb-picker-note\" data-t=\"pb-choose-note\">'' @ escape_html word @ ''</div>''))"

definition chooser_html :: "card_view \<Rightarrow> (chooser \<times> (rat \<times> rat \<times> bool)) option \<Rightarrow> string" where
  "chooser_html v w = (case w of None \<Rightarrow> []
     | Some (c, x, y, up) \<Rightarrow>
         (let title = escape_html (cw_t v (word_or chooser_titles (source_kind (ch_source c)) ''pbChooseModel'') []) in
          ''<div class=\"pb-chooser'' @ (if up then '' up'' else []) @ ''\" data-pb-chooser role=\"dialog\" aria-label=\"'' @ title @ ''\" data-t=\"pb-chooser\" data-t-state=\"'' @ escape_html (source_kind (ch_source c))
          @ ''\" style=\"left: '' @ rat_str x @ ''px; top: '' @ rat_str y @ ''px\"> <div class=\"pb-chooser-head\"><b>'' @ title @ ''</b> '' @ close_tool v ''data-pb-choose-close'' ''pb-choose-close''
          @ ''</div> <input class=\"pb-picker-find\" type=\"search\" data-pb-choose-query data-t=\"pb-choose-query\" value=\"'' @ escape_html (ch_query c) @ ''\" placeholder=\"'' @ esc_t v ''pbChooseFind''
          @ ''\" aria-label=\"'' @ esc_t v ''pbChooseFind'' @ ''\" autocomplete=\"off\" spellcheck=\"false\"> <div class=\"pb-chooser-list\" data-pb-choose-body>'' @ choose_body_html v c @ ''</div> </div>''))"

section \<open>Texts and markup\<close>

lemmas texts_away = Let_def markup_of_append markup_of_escape if_distrib [of markup_of] markup_of_Nil esc_t_def markup_of_concat map_map comp_def

text \<open>
  An entry of the chooser is markup and texts: whatever a place is called, its markup is that of an entry of its state; nothing
  in a name becomes an element or an attribute of the page.
\<close>

theorem bmd_choice_texts_stay_texts:
  assumes "(co_hint x = []) = (h = [])"
  shows "markup_of (choice_html v x) = markup_of (choice_html v' (x\<lparr>co_key := k, co_label := l, co_hint := h\<rparr>))"
proof -
  have now: "co_now (x\<lparr>co_key := k, co_label := l, co_hint := h\<rparr>) = co_now x" "co_key (x\<lparr>co_key := k, co_label := l, co_hint := h\<rparr>) = k"
    "co_label (x\<lparr>co_key := k, co_label := l, co_hint := h\<rparr>) = l" "co_hint (x\<lparr>co_key := k, co_label := l, co_hint := h\<rparr>) = h" by simp_all
  show ?thesis unfolding choice_html_def now using assms
    by (cases "h = []") (simp_all only: texts_away simp_thms if_True if_False not_False_eq_True)
qed

text \<open>Each word under the list of "+ model" says one thing; it never offers what there is not.\<close>

lemma pick_word_not_signed: "\<not> js_truthy (jget account ''hasCredential'') \<Longrightarrow> pick_word v account lst pick q = cw_t v (login_word account) []"
  by (simp add: pick_word_def Let_def)

text \<open>
  A machine's card draws every cell of the machine, in sight or counted behind its button; a cell a row names is in sight.
\<close>

theorem bmd_a_named_cell_is_in_sight:
  assumes "out \<in> set (og_outs g)" "target_key (JObj [(''output'', jget out ''id'')]) \<in> fst ` set uses"
  shows "out \<in> set (cfo_shown (machine_fold v uses g))"
  using assms by (auto simp: machine_fold_def fold_cells_def Let_def)

end
