(* ===== verification/Spec2Isabelle.thy ===== *)
theory Spec2Isabelle
  imports Prelude JsValue Utils Interfaces Flows
    ServerOrder StepCarry WeekWindows ModelSchedule
    CableFlow Cables ProviderRules Pools OutputCells SubscriptionResets
    CardFold FoldPeek CardRows ModelJobs CellRules
    CommandPreview ConfigForm ModelFiles ModelCache HfCatalog HfBench
    Dialogs Consumers ModelMoves
    Activity ServerSlots AgentRoutes RouteDetail
    MemoryPlan DeviceTarget RouterGraph CanvasBoard
    MonitorFeed ProxyRoutes ClientLanes
    RouterPanels SidePanels
    BoardReads BoardPath BoardCables BoardDrag BoardFlows BoardCards BoardModels
begin

text \<open>
  A verification library of Lama Caravan's pages.

  Lama Caravan runs language models on the machines of a home network. A controller (Python, \<open>caravan/\<close>)
  keeps what there is and answers HTTP calls; the pages (\<open>static/js\<close>, all in the browser) show it
  as a board of cards joined by cables and send what the operator decides. This library models the pages: the
  decisions their modules take, the state each keeps between two events, what they send and in which order,
  and the texts they put into the document. What comes from outside is an argument of the definitions:
  the controller's answers, the operator's answers, the places of cards in the window, the clock, the
  dictionary of a language (\<open>t\<close>), the browser's storage, \<open>localeCompare\<close> and the formats of times.

  \<^bold>\<open>The language.\<close> \<open>JsValue\<close> has the values \<open>JSON.parse\<close> can give (\<open>js\<close>), truth, \<open>??\<close>, \<open>||\<close>, \<open>?.\<close>,
  \<open>String(x)\<close>, \<open>Number(x)\<close>, objects written to, and the string operations; \<open>Prelude\<close> has the array
  operations (\<open>indexOf\<close>, an index out of range, the stable \<open>sort\<close> by a comparator, sets in the order of their
  additions) and the laws the other theories prove with. Numbers are exact rationals: a double's rounding is
  not modelled. Strings are lists of 8-bit characters with ASCII white space and case. A line break inside
  a template's markup is a space or nothing, as the theory says.

  \<^bold>\<open>The interfaces.\<close> \<open>Interfaces\<close> states the contracts several components share as locales: \<open>rearranging\<close> and
  \<open>reordering\<close> (an operation that only rearranges a list, never answering the one it was given),
  \<open>single_flight\<close> (at most one save on its way) and \<open>stale_guard\<close> (an answer is dropped when what it answers
  is no longer asked). Each is interpreted where a component keeps it: \<open>ServerOrder\<close>, \<open>StepCarry\<close>,
  \<open>Pools\<close>, \<open>ConfigForm\<close>, \<open>SubscriptionResets\<close>, \<open>ModelFiles\<close>, \<open>CellRules\<close>. \<open>Flows\<close> has the \<open>async\<close> handler as a
  tree of what it says, applies and awaits, the play of a list of answers against it, and two laws that
  reduce a claim about every run to one about the tree: what is asked before it is done, and how many
  answers it waits for. \<open>Utils\<close> (\<open>utils.js\<close>) has the HTML escape, with what it keeps of a template's
  markup, the formats of sizes, and what the one HTTP call does with an answer.

  \<^bold>\<open>The order of things.\<close> \<open>ServerOrder\<close> (\<open>server-order.js\<close>): the operator's order of the cards, its arrows and its
  save, with the saves' state machine, its invariant and its convergence. \<open>StepCarry\<close> (\<open>step-carry.js\<close>): a
  step carried by the pointer or the keyboard, the gesture as a state machine over the document's list;
  nothing is lost, a carry puts the card where the pointer is, Escape gives the list back.

  \<^bold>\<open>When a model is open.\<close> \<open>WeekWindows\<close> (\<open>week-windows.js\<close>): windows of weekdays and times as the open
  minutes of a week; the runs shown are those minutes, and reading them back gives them again.
  \<open>ModelSchedule\<close> (\<open>model-schedule.js\<close>): the window that edits them, with its grid, its strokes and its save.

  \<^bold>\<open>Where requests go.\<close> \<open>CableFlow\<close> (\<open>cable-flow.js\<close>): the drops on a cable that carries a request. \<open>Cables\<close>
  (\<open>cables.js\<close>, and what it uses of \<open>provider-glances.js\<close>, \<open>topology-activity.js\<close>, \<open>topology-proxies.js\<close>): where
  Routing's pools lead, and one drawing of every cable, with what is not drawn and why. \<open>ProviderRules\<close>
  (\<open>pool-flow.js\<close>, \<open>pool-dock.js\<close>, \<open>credit-left.js\<close> and the small formats), \<open>Pools\<close> (\<open>pools.js\<close>): a pool's
  payload, its carried order, its status, and what asks before it deletes. \<open>OutputCells\<close>
  (\<open>output-cells.js\<close>): the cell behind a row, never guessed. \<open>SubscriptionResets\<close> (\<open>subscription-resets.js\<close>):
  one spend at a time, and a retry under its own key.

  \<^bold>\<open>The cards.\<close> \<open>CardFold\<close> and \<open>FoldPeek\<close> (\<open>card-fold.js\<close>): which cards fold, what is kept of it, the one card that
  floats and the one window that opens. \<open>CardRows\<close> (\<open>card-rows.js\<close>): the lines' markup, which no text can change.
  \<open>ModelJobs\<close> (\<open>model-jobs.js\<close>), \<open>CellRules\<close> (the small modules of a cell and its form), \<open>ModelCache\<close>
  (\<open>model-cache.js\<close>): a machine's cache and the sign of a full disk.

  \<^bold>\<open>What runs.\<close> \<open>Activity\<close> (\<open>topology-activity.js\<close>): how lively a card is by the monitor's requests, what an
  incident is and how long it is news, and the key that repaints the board: an alarm that ages out moves it.
  \<open>ServerSlots\<close>: the slots of a server, and the bar of a sticky client's place, which follows the poll.
  \<open>AgentRoutes\<close>: an agent's routes and the menu that binds it to a port. \<open>RouteDetail\<close>: the window of one route,
  whose three questions may be answered in any order.

  \<^bold>\<open>Forms and files.\<close> \<open>CommandPreview\<close> (\<open>command-preview.js\<close>): the longest common subsequence the preview marks.
  \<open>ConfigForm\<close> (\<open>constants.js\<close>, \<open>config-locator.js\<close>, \<open>favorites.js\<close>): the fields' tables, finding a field, the
  starred ones. \<open>ModelFiles\<close> (freshness, copies, the list's follower),
  \<open>ModelMoves\<close> (\<open>model-moves.js\<close>: files moved between the disk and the libraries, from the controller's jobs), \<open>HfCatalog\<close> (\<open>hf-catalog.js\<close>) and \<open>HfBench\<close>
  (\<open>hf-bench.js\<close>): the page of repositories.

  \<^bold>\<open>Asking.\<close> \<open>Dialogs\<close> (\<open>dialogs.js\<close>): the one dialog, its five kinds of question, its events; it answers
  what its contract reads off the page, once. \<open>Consumers\<close> (\<open>consumer-access.js\<close>, \<open>consumers.js\<close>): the actions on a
  client's key, port and route, each a flow.

  \<^bold>\<open>State, steps and runs.\<close> A module's object is a record, its handlers functions on it that give the new
  record and what they send, store or say. A component whose events interleave has a step function over a
  datatype of its events and runs of it (\<open>so_reach\<close>, \<open>sc_run\<close>, \<open>rs_run\<close>, \<open>ed_runs\<close>, \<open>fd_run\<close>,
  \<open>pk_run\<close>, \<open>hb_runs\<close>, \<open>rp_run\<close>, \<open>lo_run\<close>, \<open>dg_run\<close>): an invariant is proved for one step and then for every run. An error of a
  call is a value (\<open>Inl\<close> of its message), and every early return is a branch.

  \<^bold>\<open>Bounds.\<close> No definition has fuel but \<open>bump_rounds\<close>, whose eighty rounds are the code's own limit. Recursion is
  structural but for four functions with their measures: \<open>cp_walk\<close> (what is left of both commands), \<open>ww_cut_go\<close> (what is
  left of a run), \<open>give_key\<close> (whether there is an entry yet) and \<open>grow_reach\<close> (the starts of cables not reached yet). A printed fraction has at most 20 digits. The two hashes of a text are at 32 bits.

  \<^bold>\<open>What a cell will take.\<close> \<open>MemoryPlan\<close> (\<open>memory.js\<close>): the caches and buffers of a model, how its layers divide
  between the cards and RAM (nothing of it is lost, and "auto" is the most that fits), what fits, and the
  compute target a form writes and reads back. \<open>DeviceTarget\<close> (\<open>memory.js\<close>, and of \<open>llama-edit.js\<close> and \<open>form.js\<close> what it
  uses): the devices of each runner, the pins in ENV, vLLM's cards, a start that takes the free memory, and
  the tiles, chips, panel and bar that show them, with what a press does.

  \<^bold>\<open>The canvas.\<close> \<open>RouterGraph\<close> (\<open>Graph\<close> in \<open>canvas.js\<close>): a router's nodes and cables and every edit of them, with the
  invariant that a client's port and a schedule's output have one cable at most, the roles of a queue's and a
  backup's cables and their repair, and the ports that reach a schedule. \<open>CanvasBoard\<close> (\<open>Board\<close>, \<open>History\<close> and the
  nodes' panels in \<open>canvas.js\<close>): the view, where a dropped node comes to stand and how long the page holds its
  place, the cables' curve, the strokes that paint a week and the saves behind them, the nodes' settings.

  \<^bold>\<open>The two ends.\<close> \<open>MonitorFeed\<close> (\<open>polling.js\<close>, with the answers of \<open>monitoring.py\<close> and \<open>host_telemetry.py\<close>): the
  page's copy of the monitor, topped up by what is newer; over every run it has every sample of the controller's
  window and none from before that window's whole second, but for a save in between. \<open>ProxyRoutes\<close> (\<open>topology-proxies.js\<close>, \<open>routers.js\<close>, with the check of \<open>proxies_config.py\<close>): the lists the
  pages save whole, each with the version it was made of; what is written is made of what it replaces, an edit
  changes what its form shows, and every route that goes out is well typed. \<open>ClientLanes\<close> (\<open>topology-proxies.js\<close>): the
  clients' cards of the board and the ports Routing lists, each once. A list's check and its write are one step, as under the controller's lock; writers there that take no
  lock are left out. A figure is held as the page holds it, NaN too, and is null when it leaves.

  \<^bold>\<open>The panels.\<close> \<open>RouterPanels\<close> (\<open>routers.js\<close>): a router's outputs by machine, by pool and by account, in the board's
  order, and the markup's attribute that names each of them whatever is folded. \<open>SidePanels\<close> (\<open>InputsBlock\<close>, \<open>PanelPorts\<close>, \<open>ServersBlock\<close> in \<open>canvas.js\<close>, and
  the head of the workspace in \<open>routers.js\<close>): the clients' rows and the servers' rows beside the canvas, the dot of every
  output, and where a dot stands when its row is scrolled away.

  \<^bold>\<open>The pools' board.\<close> \<open>pool-board.js\<close>, in seven theories. \<open>BoardReads\<close>: what its cards read off the topology
  (accounts, machines, uses, levels, the word on a row). \<open>BoardPath\<close>: the path through a card, which is what its cables
  reach. \<open>BoardCables\<close>: the drawing of its cables, none left out in silence. \<open>BoardDrag\<close>: a cable carried, the chooser that
  does the same, the drawings that wait meanwhile. \<open>BoardFlows\<close>: what its buttons ask and send, a test and its late answers, an
  account's list read once at a time. \<open>BoardCards\<close> and \<open>BoardModels\<close>: the markup of its cards, windows and strip.

  \<^bold>\<open>Not modelled.\<close> The document itself (layout, focus, scrolling, timers, canvas and WebGL drawing), the
  dictionaries, the decoration behind the pages, and the modules whose work is to bind events to elements
  and to fill forms. The large modules of the board (\<open>topology-*.js\<close>, the cards' markup in \<open>canvas.js\<close>; of \<open>pool-board.js\<close> which card the strip stands for), the launch
  form (\<open>form.js\<close>, \<open>remote-cells.js\<close>) and the charts are next: first the form's reading.
\<close>

end
